(* ===== verification/Prelude.thy ===== *)
theory Prelude
  imports Main "HOL-Library.Word"
begin

text \<open>
  What every component shares: the machine integer types, the error values of
  \<open>include/rollback_lab/core/error.hpp\<close>, the result type of the fallible functions, and
  generic facts on words, lists and results.

  A \<open>uintN_t\<close> and an \<open>intN_t\<close> are both an N-bit word; a signed value is read with
  \<open>sint\<close> and compared with the signed order. A \<open>std::size_t\<close> is a \<open>nat\<close>.
  \<open>Result<T>\<close> is a sum whose left side is the error. An operation of an object that may fail
  returns the result together with the object's new state, because the code may have written
  some fields before it returns the error.
\<close>

unbundle bit_operations_syntax

type_synonym u8 = "8 word"
type_synonym u16 = "16 word"
type_synonym u32 = "32 word"
type_synonym u64 = "64 word"
type_synonym i8 = "8 word"
type_synonym i16 = "16 word"
type_synonym i32 = "32 word"
type_synonym byte = "8 word"

named_theorems codec_simps \<open>equations that run the byte reader over what the byte writer wrote\<close>
named_theorems frame_simps \<open>frame arithmetic brought back to natural numbers\<close>

section \<open>Errors and results\<close>

datatype ErrorCode =
    EC_none
  | EC_invalid_argument
  | EC_arithmetic_overflow
  | EC_frame_mismatch
  | EC_capacity_exceeded
  | EC_stale_frame
  | EC_rollback_window_exceeded
  | EC_invalid_magic
  | EC_unsupported_version
  | EC_unknown_packet_type
  | EC_truncated_data
  | EC_invalid_length
  | EC_integrity_mismatch
  | EC_duplicate_sequence
  | EC_stale_sequence
  | EC_queue_overflow
  | EC_timeout
  | EC_child_failure
  | EC_replay_mismatch
  | EC_desync
  | EC_io_error
  | EC_internal_failure

text \<open>The enumerators are numbered from 0 in the order of their declaration.\<close>

fun error_code_value :: "ErrorCode \<Rightarrow> u16" where
  "error_code_value EC_none = 0"
| "error_code_value EC_invalid_argument = 1"
| "error_code_value EC_arithmetic_overflow = 2"
| "error_code_value EC_frame_mismatch = 3"
| "error_code_value EC_capacity_exceeded = 4"
| "error_code_value EC_stale_frame = 5"
| "error_code_value EC_rollback_window_exceeded = 6"
| "error_code_value EC_invalid_magic = 7"
| "error_code_value EC_unsupported_version = 8"
| "error_code_value EC_unknown_packet_type = 9"
| "error_code_value EC_truncated_data = 10"
| "error_code_value EC_invalid_length = 11"
| "error_code_value EC_integrity_mismatch = 12"
| "error_code_value EC_duplicate_sequence = 13"
| "error_code_value EC_stale_sequence = 14"
| "error_code_value EC_queue_overflow = 15"
| "error_code_value EC_timeout = 16"
| "error_code_value EC_child_failure = 17"
| "error_code_value EC_replay_mismatch = 18"
| "error_code_value EC_desync = 19"
| "error_code_value EC_io_error = 20"
| "error_code_value EC_internal_failure = 21"

record Error =
  err_code :: ErrorCode
  err_detail :: u64
  err_offset :: nat
  err_context :: string

type_synonym 'a Result = "Error + 'a"

definition mk_error :: "ErrorCode \<Rightarrow> u64 \<Rightarrow> nat \<Rightarrow> string \<Rightarrow> Error" where
  "mk_error code detail offset context =
     \<lparr>err_code = code, err_detail = detail, err_offset = offset, err_context = context\<rparr>"

abbreviation failure :: "ErrorCode \<Rightarrow> u64 \<Rightarrow> nat \<Rightarrow> string \<Rightarrow> 'a Result" where
  "failure code detail offset context \<equiv> Inl (mk_error code detail offset context)"

definition ok :: "'a Result \<Rightarrow> bool" where
  "ok r = (case r of Inl _ \<Rightarrow> False | Inr _ \<Rightarrow> True)"

lemma ok_simps [simp]: "ok (Inl e) = False" "ok (Inr v) = True"
  by (simp_all add: ok_def)

lemma ok_iff: "ok r \<longleftrightarrow> (\<exists>v. r = Inr v)"
  by (cases r) auto

lemma mk_error_sel [simp]:
  "err_code (mk_error c d off ctx) = c" "err_detail (mk_error c d off ctx) = d"
  "err_offset (mk_error c d off ctx) = off" "err_context (mk_error c d off ctx) = ctx"
  by (simp_all add: mk_error_def)

section \<open>Words\<close>

lemma unat_less_len32 [simp]: "unat (w :: u32) < 4294967296"
proof -
  have "unat w < 2 ^ LENGTH(32)" by (rule unsigned_less)
  then show ?thesis by simp
qed

lemma unat_of_nat_u32 [frame_simps]: "n < 4294967296 \<Longrightarrow> unat (of_nat n :: u32) = n"
  by (simp add: unat_of_nat take_bit_nat_eq_self)

lemma of_nat_u32_inj: "m < 4294967296 \<Longrightarrow> n < 4294967296 \<Longrightarrow> (of_nat m :: u32) = of_nat n \<longleftrightarrow> m = n"
  by (metis unat_of_nat_u32)

lemma sint_word_of_int_id:
  assumes "- (2 ^ (LENGTH('a) - 1)) \<le> n" and "n < 2 ^ (LENGTH('a) - 1)"
  shows "sint (word_of_int n :: 'a::len word) = n"
  using assms by (simp add: sint_word_ariths signed_take_bit_int_eq_self sint_uint uint_word_of_int_eq
      signed_take_bit_take_bit)

lemma sint_i32_range: "- 2147483648 \<le> sint (w :: i32)" "sint (w :: i32) \<le> 2147483647"
  using sint_ge [of w] sint_lt [of w] by simp_all

lemma sint_i16_range: "- 32768 \<le> sint (w :: i16)" "sint (w :: i16) \<le> 32767"
  using sint_ge [of w] sint_lt [of w] by simp_all

section \<open>Lists\<close>

lemma nth_update_cases: "i < length xs \<Longrightarrow> xs[i := v] ! j = (if i = j then v else xs ! j)"
  by simp

lemma list_all_update: "list_all P xs \<Longrightarrow> P v \<Longrightarrow> list_all P (xs[i := v])"
  by (auto simp: list_all_iff dest: set_update_subset_insert [THEN subsetD])

lemma length_concat_const:
  "(\<And>x. x \<in> set xs \<Longrightarrow> length (f x) = n) \<Longrightarrow> length (concat (map f xs)) = n * length xs"
  by (induction xs) auto

end
