(* ===== verification/Core.thy ===== *)
theory Core
  imports Prelude
begin

text \<open>
  The \<open>core\<close> module: modular frame arithmetic (\<open>core/frame.hpp\<close>), checked addition
  (\<open>core/checked_math.hpp\<close>), FNV-1a (\<open>src/core/hash.cpp\<close>) and the PCG32 generator
  (\<open>core/pcg32.hpp\<close>). A \<open>FrameNumber\<close> wraps one 32-bit value, and is that word here.

  The lemmas show that the modular order agrees with the order of natural frame numbers
  inside half the range, that \<open>checked_add_i32\<close> returns the exact sum or an error, that FNV-1a
  distinguishes inputs that differ in one byte, and that the rejection loop of
  \<open>Pcg32::bounded\<close> stops: the generator's state runs through all \<open>2 ^ 64\<close> values.
\<close>

section \<open>Frames\<close>

type_synonym FrameNumber = u32

definition frame_before :: "FrameNumber \<Rightarrow> FrameNumber \<Rightarrow> bool" where
  "frame_before left right =
     (let distance = right - left in distance \<noteq> 0 \<and> distance < 0x80000000)"

definition frame_distance :: "FrameNumber \<Rightarrow> FrameNumber \<Rightarrow> u32" where
  "frame_distance from_frame to_frame = to_frame - from_frame"

definition next_frame :: "FrameNumber \<Rightarrow> FrameNumber" where
  "next_frame frame = frame + 1"

definition frame_ring_index :: "FrameNumber \<Rightarrow> nat \<Rightarrow> nat" where
  "frame_ring_index frame capacity = (if capacity = 0 then 0 else unat frame mod capacity)"

lemma of_nat_diff_u32:
  "a \<le> b \<Longrightarrow> (of_nat b :: u32) - of_nat a = of_nat (b - a)"
  by simp

lemma frame_before_iff_unat:
  "frame_before left right \<longleftrightarrow>
     0 < unat (right - left) \<and> unat (right - left) < 2147483648"
  by (auto simp: frame_before_def Let_def word_less_nat_alt unat_eq_0 intro: gr0I)

lemma unat_diff_of_nat:
  assumes "a < 4294967296" "b < 4294967296"
  shows "unat ((of_nat b :: u32) - of_nat a) = (if a \<le> b then b - a else b + 4294967296 - a)"
  using assms by (simp add: unat_sub_if' unat_of_nat_u32)

lemma frame_before_of_nat [frame_simps]:
  assumes "a < 4294967296" "b < 4294967296" "a < b + 2147483648" "b < a + 2147483648"
  shows "frame_before (of_nat a) (of_nat b) \<longleftrightarrow> a < b"
  using assms by (auto simp: frame_before_iff_unat unat_diff_of_nat)

lemma frame_distance_of_nat [frame_simps]:
  "a \<le> b \<Longrightarrow> frame_distance (of_nat a) (of_nat b) = of_nat (b - a)"
  by (simp add: frame_distance_def)

lemma next_frame_of_nat [frame_simps]: "next_frame (of_nat a) = of_nat (Suc a)"
  by (simp add: next_frame_def)

lemma frame_before_irrefl [simp]: "\<not> frame_before f f"
  by (simp add: frame_before_def)

lemma frame_before_asym: "frame_before a b \<Longrightarrow> \<not> frame_before b a"
  by (auto simp: frame_before_iff_unat unat_sub_if' split: if_splits)

section \<open>Checked addition\<close>

definition checked_add_i32 :: "i32 \<Rightarrow> i32 \<Rightarrow> i32 Result" where
  "checked_add_i32 left right =
     (let wide = sint left + sint right in
      if wide < - (2 ^ 31) \<or> wide > 2 ^ 31 - 1
      then failure EC_arithmetic_overflow 0 0 ''checked_add_i32''
      else Inr (word_of_int wide))"

lemma checked_add_i32_exact:
  "checked_add_i32 a b = Inr c \<Longrightarrow> sint c = sint a + sint b"
  by (auto simp: checked_add_i32_def Let_def sint_word_of_int_id simp del: of_int_add
      split: if_splits)

lemma checked_add_i32_in_range:
  "- 2147483648 \<le> sint a + sint b \<Longrightarrow> sint a + sint b \<le> 2147483647
   \<Longrightarrow> checked_add_i32 a b = Inr (a + b)"
  by (simp add: checked_add_i32_def Let_def)

section \<open>FNV-1a\<close>

type_synonym StateHash = u64

definition fnv_offset_basis :: StateHash where
  "fnv_offset_basis = 14695981039346656037"

definition fnv_prime :: StateHash where
  "fnv_prime = 1099511628211"

definition fnv_step :: "StateHash \<Rightarrow> byte \<Rightarrow> StateHash" where
  "fnv_step hash b = (hash XOR ucast b) * fnv_prime"

definition fnv1a64 :: "byte list \<Rightarrow> StateHash" where
  "fnv1a64 bytes = foldl fnv_step fnv_offset_basis bytes"

lemma fnv_prime_inverse: "fnv_prime * 14886173955864302971 = 1"
  by (simp add: fnv_prime_def)

lemma times_fnv_prime_inj: "x * fnv_prime = y * fnv_prime \<Longrightarrow> x = y"
proof -
  assume "x * fnv_prime = y * fnv_prime"
  then have "x * fnv_prime * 14886173955864302971 = y * fnv_prime * 14886173955864302971"
    by (rule arg_cong)
  then show "x = y" by (simp only: mult.assoc fnv_prime_inverse mult_1_right)
qed

lemma xor_right_cancel: "(a XOR c :: 'a::len word) = b XOR c \<Longrightarrow> a = b"
  by (metis xor.assoc xor.right_neutral xor_self_eq)

lemma fnv_step_inj_hash: "fnv_step h b = fnv_step h' b \<Longrightarrow> h = h'"
  unfolding fnv_step_def by (blast dest: times_fnv_prime_inj xor_right_cancel)

lemma ucast_byte_inj: "(ucast (a :: byte) :: u64) = ucast b \<Longrightarrow> a = b"
  by transfer (simp add: take_bit_take_bit)

lemma fnv_step_inj_byte: "fnv_step h b = fnv_step h b' \<Longrightarrow> b = b'"
  unfolding fnv_step_def
  by (metis times_fnv_prime_inj xor.commute xor_right_cancel ucast_byte_inj)

lemma foldl_inj_state:
  assumes "\<And>h h' b. f h b = f h' b \<Longrightarrow> h = h'"
  shows "foldl f h bs = foldl f h' bs \<Longrightarrow> h = h'"
  by (induction bs arbitrary: h h') (auto dest: assms)

text \<open>
  FNV-1a gives different hashes to byte strings that differ in exactly one byte, wherever
  that byte stands: every round of the hash is injective in its state and in its byte.
\<close>

theorem fnv1a64_detects_byte_change:
  "b \<noteq> b' \<Longrightarrow> fnv1a64 (xs @ b # ys) \<noteq> fnv1a64 (xs @ b' # ys)"
proof
  assume "b \<noteq> b'" and "fnv1a64 (xs @ b # ys) = fnv1a64 (xs @ b' # ys)"
  then have "fnv_step (foldl fnv_step fnv_offset_basis xs) b
      = fnv_step (foldl fnv_step fnv_offset_basis xs) b'"
    by (auto simp: fnv1a64_def intro: foldl_inj_state [where f = fnv_step, OF fnv_step_inj_hash])
  with \<open>b \<noteq> b'\<close> show False by (blast dest: fnv_step_inj_byte)
qed

theorem fnv1a64_detects_byte_change_witness:
  "fnv1a64 [1, 2, 3] \<noteq> fnv1a64 [1, 7, 3]"
  using fnv1a64_detects_byte_change [of 2 7 "[1]" "[3]"] by simp

section \<open>PCG32\<close>

record Pcg32 =
  pcg_state :: u64
  pcg_increment :: u64

definition pcg_multiplier :: u64 where
  "pcg_multiplier = 6364136223846793005"

definition pcg_output :: "u64 \<Rightarrow> u32" where
  "pcg_output old_state =
     (let mixed = (ucast (drop_bit 27 (drop_bit 18 old_state XOR old_state)) :: u32);
          rotation = (ucast (drop_bit 59 old_state) :: u32)
      in drop_bit (unat rotation) mixed OR push_bit (unat ((0 - rotation) AND 31)) mixed)"

definition next_u32 :: "Pcg32 \<Rightarrow> u32 \<times> Pcg32" where
  "next_u32 r =
     (let old_state = pcg_state r
      in (pcg_output old_state,
          r\<lparr>pcg_state := old_state * pcg_multiplier + pcg_increment r\<rparr>))"

definition pcg_default_stream :: u64 where
  "pcg_default_stream = 0xDA3E39CB94B95BDB"

definition make_pcg32 :: "u64 \<Rightarrow> u64 \<Rightarrow> Pcg32" where
  "make_pcg32 seed stream =
     (let r0 = \<lparr>pcg_state = 0, pcg_increment = push_bit 1 stream OR 1\<rparr>;
          r1 = snd (next_u32 r0);
          r2 = r1\<lparr>pcg_state := pcg_state r1 + seed\<rparr>
      in snd (next_u32 r2))"

text \<open>
  The loop of \<open>bounded\<close> draws until a value reaches the threshold. As a partial function
  \<open>None\<close> means that it never returns; \<open>bounded_loop_returns\<close> below excludes that for every
  generator that the constructor and the operations produce, so that the \<open>None\<close> branch of
  \<open>bounded\<close> is never taken.
\<close>

partial_function (option) bounded_loop :: "u32 \<Rightarrow> u32 \<Rightarrow> Pcg32 \<Rightarrow> (u32 \<times> Pcg32) option" where
  "bounded_loop threshold bound r =
     (let (value, r') = next_u32 r
      in if threshold \<le> value then Some (value mod bound, r')
         else bounded_loop threshold bound r')"

declare bounded_loop.simps [code]

definition bounded :: "u32 \<Rightarrow> Pcg32 \<Rightarrow> u32 \<times> Pcg32" where
  "bounded bound r =
     (if bound = 0 then (0, r)
      else case bounded_loop ((0 - bound) mod bound) bound r of
             Some result \<Rightarrow> result
           | None \<Rightarrow> (0, r))"

definition pcg_ok :: "Pcg32 \<Rightarrow> bool" where
  "pcg_ok r = odd (pcg_increment r)"

lemma next_u32_increment [simp]: "pcg_increment (snd (next_u32 r)) = pcg_increment r"
  by (simp add: next_u32_def Let_def)

lemma next_u32_ok [simp, intro]: "pcg_ok r \<Longrightarrow> pcg_ok (snd (next_u32 r))"
  by (simp add: pcg_ok_def)

lemma make_pcg32_ok [simp, intro]: "pcg_ok (make_pcg32 seed stream)"
  by (simp add: pcg_ok_def make_pcg32_def Let_def next_u32_def even_or_iff)

text \<open>
  The state sequence is a linear congruential generator modulo \<open>2 ^ 64\<close>. \<open>geo n\<close> is
  \<open>1 + a + \<dots> + a ^ (n - 1)\<close> for the multiplier \<open>a\<close>, and \<open>a mod 4 = 1\<close> makes it divisible by
  as many powers of two as \<open>n\<close> is, no more.
\<close>

definition pcg_a :: nat where
  "pcg_a = 6364136223846793005"

definition geo :: "nat \<Rightarrow> nat" where
  "geo n = (\<Sum>i<n. pcg_a ^ i)"

lemma geo_0 [simp]: "geo 0 = 0"
  by (simp add: geo_def)

lemma geo_Suc: "geo (Suc n) = pcg_a * geo n + 1"
  by (simp add: geo_def sum.lessThan_Suc_shift sum_distrib_left del: sum.lessThan_Suc)

lemma geo_double: "geo (2 * m) = geo m * (1 + pcg_a ^ m)"
proof -
  have "geo (m + k) = geo m + pcg_a ^ m * geo k" for k
    by (induction k) (simp_all add: geo_def algebra_simps power_add)
  from this [of m] show ?thesis unfolding mult_2 by (simp add: algebra_simps)
qed

lemma odd_pcg_a: "odd pcg_a"
  by (simp add: pcg_a_def)

lemma odd_geo_iff: "odd (geo n) \<longleftrightarrow> odd n"
  by (induction n) (simp_all add: geo_Suc odd_pcg_a)

lemma pcg_a_power_mod4: "pcg_a ^ m mod 4 = 1"
proof -
  have "pcg_a ^ m mod 4 = (pcg_a mod 4) ^ m mod 4" by (simp add: power_mod)
  also have "pcg_a mod 4 = 1" by (simp add: pcg_a_def)
  finally show ?thesis by simp
qed

lemma geo_dvd: "2 ^ j dvd geo n \<Longrightarrow> 2 ^ j dvd n"
proof (induction j arbitrary: n)
  case 0
  then show ?case by simp
next
  case (Suc j)
  from Suc.prems have "even (geo n)" by (auto elim: dvd_trans [rotated])
  then obtain m where n: "n = 2 * m" using odd_geo_iff by blast
  have "(1 + pcg_a ^ m) mod 4 = 2"
    using pcg_a_power_mod4 [of m] by presburger
  then have "1 + pcg_a ^ m = 2 * ((1 + pcg_a ^ m) div 2)" and "odd ((1 + pcg_a ^ m) div 2)"
    by presburger+
  then obtain k where k: "1 + pcg_a ^ m = 2 * k" and "odd k" by blast
  have "2 ^ j dvd geo m * k"
  proof -
    have "geo n = 2 * (geo m * k)" unfolding n geo_double k by simp
    with Suc.prems show ?thesis by simp
  qed
  moreover have "coprime (2 ^ j) k" using \<open>odd k\<close> by simp
  ultimately have "2 ^ j dvd geo m" by (simp add: coprime_dvd_mult_left_iff)
  then have "2 ^ j dvd m" by (rule Suc.IH)
  then show ?case by (simp add: n)
qed

definition pcg_advance :: "u64 \<Rightarrow> u64 \<Rightarrow> u64" where
  "pcg_advance c x = x * pcg_multiplier + c"

lemma pcg_advance_pow:
  "(pcg_advance c ^^ n) x = x * of_nat (pcg_a ^ n) + c * of_nat (geo n)"
proof (induction n)
  case 0
  then show ?case by simp
next
  case (Suc n)
  have m: "pcg_multiplier = of_nat pcg_a" by (simp add: pcg_multiplier_def pcg_a_def)
  from Suc show ?case
    by (simp add: pcg_advance_def m geo_Suc algebra_simps)
qed

lemma geo_geometric: "(pcg_a - 1) * geo n + 1 = pcg_a ^ n"
proof (induction n)
  case 0
  then show ?case by simp
next
  case (Suc n)
  have "0 < pcg_a" by (simp add: pcg_a_def)
  then obtain b where b: "pcg_a = Suc b" by (metis gr0_implies_Suc)
  then have "pcg_a - 1 = b" by simp
  with Suc have "b * geo n + 1 = pcg_a ^ n" by (simp only:)
  moreover have "b * geo (Suc n) + 1 = Suc b * (b * geo n + 1)"
    by (simp add: geo_Suc b algebra_simps)
  ultimately show ?case using b \<open>pcg_a - 1 = b\<close> by (simp only: power_Suc)
qed

lemma odd_word_unit:
  fixes u :: u64
  assumes "odd u" and "of_nat g * u = 0"
  shows "2 ^ 64 dvd g"
proof -
  have "odd (unat u)" using assms(1) even_of_nat_iff [where ?'a = u64, of "unat u"] by simp
  have "(of_nat (g * unat u) :: u64) = 0" using assms(2) by simp
  then have "2 ^ 64 dvd g * unat u" by (simp add: word_of_nat_eq_0_iff del: of_nat_mult)
  moreover have "coprime ((2 :: nat) ^ 64) (unat u)"
    using \<open>odd (unat u)\<close> by (simp only: coprime_power_left_iff coprime_left_2_iff_odd) simp
  ultimately show ?thesis by (simp only: coprime_dvd_mult_left_iff)
qed

lemma pcg_advance_diff:
  "(pcg_advance c ^^ (m + d)) x - (pcg_advance c ^^ m) x
    = of_nat (geo d) * (of_nat (pcg_a ^ m) * (x * of_nat (pcg_a - 1) + c))"
proof -
  have pd: "pcg_a ^ d = (pcg_a - 1) * geo d + 1" by (simp only: geo_geometric)
  have gd: "geo (m + d) = geo m + pcg_a ^ m * geo d"
    by (induction d) (simp_all add: geo_def algebra_simps power_add)
  show ?thesis
    by (simp only: pcg_advance_pow gd power_add pd of_nat_add of_nat_mult of_nat_1)
       (simp only: algebra_simps mult_1_right mult_1_left)
qed

lemma pcg_advance_inj:
  assumes "odd c"
  shows "inj_on (\<lambda>n. (pcg_advance c ^^ n) x) {..<2 ^ 64}"
proof (rule linorder_inj_onI)
  fix m n :: nat
  assume "m < n" and n: "n \<in> {..<2 ^ 64}"
  show "(pcg_advance c ^^ m) x \<noteq> (pcg_advance c ^^ n) x"
  proof
    assume eq: "(pcg_advance c ^^ m) x = (pcg_advance c ^^ n) x"
    define d where "d = n - m"
    have "n = m + d" and "0 < d" and "d < 2 ^ 64" using \<open>m < n\<close> n by (auto simp: d_def)
    let ?u = "(of_nat (pcg_a ^ m) :: u64) * (x * of_nat (pcg_a - 1) + c)"
    have "of_nat (geo d) * ?u = 0"
      using pcg_advance_diff [where c = c and m = m and d = d and x = x] eq \<open>n = m + d\<close> by simp
    moreover have "odd ?u"
    proof -
      have "even (of_nat (pcg_a - 1) :: u64)" by (simp add: pcg_a_def)
      moreover have "odd (of_nat (pcg_a ^ m) :: u64)" using odd_pcg_a by (simp del: of_nat_power)
      ultimately show ?thesis using assms by simp
    qed
    ultimately have "2 ^ 64 dvd geo d" by (rule odd_word_unit [rotated])
    then have "2 ^ 64 dvd d" by (rule geo_dvd)
    with \<open>0 < d\<close> \<open>d < 2 ^ 64\<close> show False by (auto dest: dvd_imp_le)
  qed
qed auto

lemma pcg_advance_reaches:
  assumes "odd c"
  shows "\<exists>n. (pcg_advance c ^^ n) x = y"
proof -
  let ?f = "\<lambda>n. (pcg_advance c ^^ n) x"
  have "card (?f ` {..<2 ^ 64}) = 2 ^ 64"
    by (simp only: card_image [OF pcg_advance_inj [OF assms]] card_lessThan)
  moreover have "card (UNIV :: u64 set) = 2 ^ 64" by (simp add: card_word)
  ultimately have "?f ` {..<2 ^ 64} = UNIV"
    by (intro card_subset_eq) simp_all
  then have "y \<in> ?f ` {..<2 ^ 64}" by simp
  then show ?thesis by blast
qed

text \<open>A state whose output is the largest 32-bit value, which is above every threshold.\<close>

definition pcg_top :: u64 where
  "pcg_top = 0x7FFFE0000000000"

lemma pcg_top_output: "pcg_output pcg_top = 0xFFFFFFFF"
  by (simp add: pcg_output_def pcg_top_def)

lemma bounded_loop_returns:
  assumes "(pcg_advance (pcg_increment r) ^^ n) (pcg_state r) = pcg_top"
  shows "\<exists>result. bounded_loop threshold bound r = Some result"
  using assms
proof (induction n arbitrary: r)
  case 0
  then have "fst (next_u32 r) = 0xFFFFFFFF"
    by (simp add: next_u32_def Let_def pcg_top_output)
  moreover have "threshold \<le> 0xFFFFFFFF"
  proof -
    have "unat threshold < 4294967296" by (rule unat_less_len32)
    then have "unat threshold \<le> 4294967295" by linarith
    then show ?thesis by (simp add: word_le_nat_alt)
  qed
  ultimately show ?case
    by (cases "next_u32 r") (simp add: bounded_loop.simps [of threshold bound r])
next
  case (Suc n)
  obtain v r' where r': "next_u32 r = (v, r')" by (cases "next_u32 r")
  have "pcg_state r' = pcg_advance (pcg_increment r) (pcg_state r)"
    and "pcg_increment r' = pcg_increment r"
    using r' by (auto simp: next_u32_def Let_def pcg_advance_def)
  with Suc.prems have "(pcg_advance (pcg_increment r') ^^ n) (pcg_state r') = pcg_top"
    by (simp add: funpow_swap1)
  then have "\<exists>result. bounded_loop threshold bound r' = Some result" by (rule Suc.IH)
  then show ?case by (subst bounded_loop.simps) (simp add: r')
qed

text \<open>
  The rejection loop of \<open>Pcg32::bounded\<close> returns for every bound and every generator with
  an odd increment, which is every generator the constructor builds: the generator's state has
  the full period, so some draw is above the threshold.
\<close>

theorem bounded_terminates:
  assumes "pcg_ok r"
  shows "\<exists>value r'. bounded_loop ((0 - bound) mod bound) bound r = Some (value, r')"
proof -
  obtain n where "(pcg_advance (pcg_increment r) ^^ n) (pcg_state r) = pcg_top"
    using pcg_advance_reaches assms unfolding pcg_ok_def by blast
  from bounded_loop_returns [OF this] show ?thesis by fast
qed

theorem bounded_terminates_witness:
  "\<exists>value r'. bounded_loop ((0 - 6) mod 6) 6 (make_pcg32 42 7) = Some (value, r')"
  by (rule bounded_terminates) (rule make_pcg32_ok)

lemma bounded_loop_result:
  assumes "bounded_loop threshold bound r = Some (value, r')"
  shows "pcg_increment r' = pcg_increment r \<and> (0 < bound \<longrightarrow> value < bound)"
proof -
  have "pcg_increment (snd res) = pcg_increment r \<and> (0 < bound \<longrightarrow> fst res < bound)"
    if "bounded_loop threshold bound r = Some res" for res
  proof (rule bounded_loop.raw_induct
      [where P = "\<lambda>t b r res. pcg_increment (snd res) = pcg_increment r \<and> (0 < b \<longrightarrow> fst res < b)",
        OF _ that])
    fix f t b r res
    assume IH: "\<And>t b r res. f t b r = Some res \<Longrightarrow>
        pcg_increment (snd res) = pcg_increment r \<and> (0 < b \<longrightarrow> fst res < b)"
      and eq: "(let (value, r') = next_u32 r
        in if t \<le> value then Some (value mod b, r') else f t b r') = Some res"
    obtain v r' where r': "next_u32 r = (v, r')" by (cases "next_u32 r")
    then have inc: "pcg_increment r' = pcg_increment r"
      using next_u32_increment [of r] by simp
    show "pcg_increment (snd res) = pcg_increment r \<and> (0 < b \<longrightarrow> fst res < b)"
      using eq IH [of t b r' res] inc
      by (auto simp: r' word_less_nat_alt unat_mod split: if_splits)
  qed
  with assms show ?thesis by fastforce
qed

lemma bounded_ok [intro]: "pcg_ok r \<Longrightarrow> pcg_ok (snd (bounded bound r))"
  by (auto simp: bounded_def pcg_ok_def split: option.split dest: bounded_loop_result)

text \<open>
  \<open>bounded\<close> draws below its bound, returns 0 for the bound 0, and leaves the
  generator's increment as it was.
\<close>

theorem bounded_in_range:
  "bounded bound r = (value, r')
    \<Longrightarrow> (0 < bound \<longrightarrow> value < bound) \<and> (bound = 0 \<longrightarrow> value = 0 \<and> r' = r)
      \<and> pcg_increment r' = pcg_increment r"
  by (auto simp: bounded_def word_gt_0 split: if_splits option.splits dest: bounded_loop_result)

theorem bounded_in_range_witness:
  "case bounded 6 (make_pcg32 42 7) of (value, r') \<Rightarrow>
     value < 6 \<and> pcg_increment r' = pcg_increment (make_pcg32 42 7)"
proof -
  obtain v r' where b: "bounded 6 (make_pcg32 42 7) = (v, r')"
    by (cases "bounded 6 (make_pcg32 42 7)")
  from bounded_in_range [OF b] show ?thesis by (simp add: b)
qed

end
