(* ===== verification/UdpSocket.thy ===== *)
theory UdpSocket
  imports Core
begin

text \<open>
  The loopback datagram socket (\<open>transport/udp_socket.hpp\<close>, \<open>src/transport/udp_socket.cpp\<close>, the
  POSIX branch).

  The operating system is not part of the repository: it is the parameter \<open>Host\<close>, a record of the
  system calls the code makes, over a state \<open>'s\<close> of the outside world that each call returns
  changed. A call that fails returns the value that the code tests for. The state also holds the
  clock, so that reading it and sleeping are calls like the others.
\<close>

section \<open>The operating system\<close>

record 's Host =
  os_socket :: "'s \<Rightarrow> int \<times> 's"
  os_bind :: "int \<Rightarrow> u16 \<Rightarrow> 's \<Rightarrow> int \<times> 's"
  os_getsockname :: "int \<Rightarrow> 's \<Rightarrow> (int \<times> u16) \<times> 's"
  os_close :: "int \<Rightarrow> 's \<Rightarrow> 's"
  os_errno :: "'s \<Rightarrow> u64"
  os_sendto :: "int \<Rightarrow> u16 \<Rightarrow> byte list \<Rightarrow> 's \<Rightarrow> int \<times> 's"
  os_select :: "int \<Rightarrow> int \<Rightarrow> int \<Rightarrow> 's \<Rightarrow> int \<times> 's"
  os_recvfrom :: "int \<Rightarrow> nat \<Rightarrow> 's \<Rightarrow> (byte list \<times> u16) option \<times> 's"
  os_now :: "'s \<Rightarrow> u64"
  os_sleep :: "nat \<Rightarrow> 's \<Rightarrow> 's"
  os_open :: "string \<Rightarrow> 's \<Rightarrow> bool \<times> 's"
  os_write :: "string \<Rightarrow> byte list \<Rightarrow> 's \<Rightarrow> bool \<times> 's"

section \<open>Sockets\<close>

record Datagram =
  dg_bytes :: "byte list"
  dg_source_port :: u16

record SocketImpl =
  si_socket :: int
  si_port :: u16

text \<open>A socket that was moved from has no implementation.\<close>

type_synonym UdpSocket = "SocketImpl option"

definition invalid_socket :: int where "invalid_socket = -1"
definition max_datagram_bytes :: nat where "max_datagram_bytes = 65507"

definition io_failure :: "string \<Rightarrow> u64 \<Rightarrow> 'a Result" where
  "io_failure ctx detail = failure EC_io_error detail 0 ctx"

definition bind_loopback :: "'s Host \<Rightarrow> u16 \<Rightarrow> 's \<Rightarrow> UdpSocket Result \<times> 's" where
  "bind_loopback os port w =
     (let (handle, w) = os_socket os w in
      if handle = invalid_socket then (failure EC_io_error (os_errno os w) 0 ''socket'', w)
      else
        (let (bound, w) = os_bind os handle port w in
         if bound \<noteq> 0 then (failure EC_io_error (os_errno os w) 0 ''bind'', os_close os handle w)
         else
           (let ((named, local_port), w) = os_getsockname os handle w in
            if named \<noteq> 0
            then (failure EC_io_error (os_errno os w) 0 ''getsockname'', os_close os handle w)
            else (Inr (Some \<lparr>si_socket = handle, si_port = local_port\<rparr>), w))))"

definition local_port :: "UdpSocket \<Rightarrow> u16" where
  "local_port s = (case s of None \<Rightarrow> 0 | Some impl \<Rightarrow> si_port impl)"

definition send_loopback :: "'s Host \<Rightarrow> UdpSocket \<Rightarrow> u16 \<Rightarrow> byte list \<Rightarrow> 's \<Rightarrow> unit Result \<times> 's" where
  "send_loopback os s port bytes w =
     (case s of
        None \<Rightarrow> (failure EC_invalid_length (of_nat (length bytes)) 0 ''udp_send'', w)
      | Some impl \<Rightarrow>
          if length bytes > max_datagram_bytes
          then (failure EC_invalid_length (of_nat (length bytes)) 0 ''udp_send'', w)
          else
            (let (sent, w) = os_sendto os (si_socket impl) port bytes w in
             if sent < 0 \<or> nat sent \<noteq> length bytes then (io_failure ''sendto'' (os_errno os w), w)
             else (Inr (), w)))"

definition receive_for :: "'s Host \<Rightarrow> UdpSocket \<Rightarrow> int \<Rightarrow> 's \<Rightarrow> Datagram option Result \<times> 's" where
  "receive_for os s timeout w =
     (case s of
        None \<Rightarrow> (failure EC_invalid_argument 0 0 ''udp_receive'', w)
      | Some impl \<Rightarrow>
          if timeout < 0 then (failure EC_invalid_argument 0 0 ''udp_receive'', w)
          else
            (let (selected, w) =
                   os_select os (si_socket impl) (timeout div 1000) (timeout mod 1000 * 1000) w
             in if selected = 0 then (Inr None, w)
                else if selected < 0 then (failure EC_io_error (os_errno os w) 0 ''select'', w)
                else
                  (case os_recvfrom os (si_socket impl) max_datagram_bytes w of
                     (None, w) \<Rightarrow> (failure EC_io_error (os_errno os w) 0 ''recvfrom'', w)
                   | (Some (bytes, port), w) \<Rightarrow>
                       (Inr (Some \<lparr>dg_bytes = bytes, dg_source_port = port\<rparr>), w))))"

section \<open>Files\<close>

text \<open>An output stream that truncates a file and writes one text; it is good if both succeed.\<close>

definition write_stream :: "'s Host \<Rightarrow> string \<Rightarrow> byte list \<Rightarrow> 's \<Rightarrow> bool \<times> 's" where
  "write_stream os path bytes w =
     (let (opened, w) = os_open os path w in
      if opened then os_write os path bytes w else (False, w))"

end
