(* ===== verification/Bytes.thy ===== *)
theory Bytes
  imports Core
begin

text \<open>
  \<open>protocol/bytes.hpp\<close>: the little-endian byte writer and the bounds-checked byte reader that
  the packet codec and the replay codec share. A \<open>ByteWriter\<close> is the list of the bytes
  written so far; a \<open>ByteReader\<close> is the span it reads and its offset. The integer type of
  \<open>append_little_endian\<close> and \<open>read_little_endian\<close> is the word length of the result, and
  \<open>sizeof(T)\<close> is an eighth of it.

  The lemmas show that reading what was written returns the value and the rest, that the
  bytes read determine the value, and what a reader does at the end of its span.
\<close>

section \<open>Writing\<close>

definition sizeof_word :: "'a::len word \<Rightarrow> nat" where
  "sizeof_word w = LENGTH('a) div 8"

definition le_bytes :: "'a::len word \<Rightarrow> byte list" where
  "le_bytes w = map (\<lambda>index. ucast (drop_bit (index * 8) w)) [0..<sizeof_word w]"

type_synonym ByteWriter = "byte list"

definition append_little_endian :: "'a::len word \<Rightarrow> ByteWriter \<Rightarrow> ByteWriter" where
  "append_little_endian v writer = writer @ le_bytes v"

definition patch_u16 :: "nat \<Rightarrow> u16 \<Rightarrow> ByteWriter \<Rightarrow> ByteWriter" where
  "patch_u16 offset v writer =
     writer[offset := ucast (v AND 0xFF), offset + 1 := ucast (drop_bit 8 v AND 0xFF)]"

lemma length_le_bytes [simp]: "length (le_bytes (w :: 'a::len word)) = LENGTH('a) div 8"
  by (simp add: le_bytes_def sizeof_word_def)

section \<open>Reading\<close>

fun le_accumulate :: "'a::len word \<Rightarrow> nat \<Rightarrow> byte list \<Rightarrow> 'a word" where
  "le_accumulate bits index [] = bits"
| "le_accumulate bits index (b # bs) =
     le_accumulate (bits OR push_bit (index * 8) (ucast b)) (Suc index) bs"

definition le_word :: "byte list \<Rightarrow> 'a::len word" where
  "le_word bs = le_accumulate 0 0 bs"

record ByteReader =
  br_bytes :: "byte list"
  br_offset :: nat

definition make_reader :: "byte list \<Rightarrow> ByteReader" where
  "make_reader bytes = \<lparr>br_bytes = bytes, br_offset = 0\<rparr>"

definition remaining :: "ByteReader \<Rightarrow> nat" where
  "remaining reader = length (br_bytes reader) - br_offset reader"

definition read_little_endian :: "string \<Rightarrow> ByteReader \<Rightarrow> 'a::len word Result \<times> ByteReader" where
  "read_little_endian context reader =
     (let size = LENGTH('a) div 8 in
      if remaining reader < size
      then (failure EC_truncated_data (of_nat size) (br_offset reader) context, reader)
      else (Inr (le_word (take size (drop (br_offset reader) (br_bytes reader)))),
            reader\<lparr>br_offset := br_offset reader + size\<rparr>))"

lemma bit_le_accumulate:
  "bit (le_accumulate (bits :: 'a::len word) i bs) n \<longleftrightarrow>
     bit bits n \<or> (n < LENGTH('a) \<and>
       (\<exists>j < length bs. (i + j) * 8 \<le> n \<and> bit (bs ! j) (n - (i + j) * 8)))"
proof (induction bs arbitrary: bits i)
  case Nil
  then show ?case by simp
next
  case (Cons b bs)
  have ex: "(\<exists>j < length (b # bs). (i + j) * 8 \<le> n \<and> bit ((b # bs) ! j) (n - (i + j) * 8)) \<longleftrightarrow>
      (i * 8 \<le> n \<and> bit b (n - i * 8)) \<or>
      (\<exists>j < length bs. (Suc i + j) * 8 \<le> n \<and> bit (bs ! j) (n - (Suc i + j) * 8))"
    unfolding length_Cons by (subst Ex_less_Suc2) simp
  show ?case
    unfolding le_accumulate.simps Cons.IH ex
    by (auto simp: bit_simps bit_imp_le_length)
qed

lemma le_word_le_bytes:
  assumes "LENGTH('a) = 8 * (LENGTH('a) div 8)"
  shows "le_word (le_bytes (w :: 'a::len word)) = w"
proof (rule bit_word_eqI)
  fix n assume n: "n < LENGTH('a)"
  have j: "n div 8 < LENGTH('a) div 8" using n assms by linarith
  show "bit (le_word (le_bytes w) :: 'a word) n = bit w n"
    unfolding le_word_def bit_le_accumulate
  proof (intro iffI)
    assume "bit (0 :: 'a word) n \<or> (n < LENGTH('a) \<and>
        (\<exists>j < length (le_bytes w). (0 + j) * 8 \<le> n \<and> bit (le_bytes w ! j) (n - (0 + j) * 8)))"
    then show "bit w n"
      by (auto simp: le_bytes_def sizeof_word_def bit_simps)
  next
    assume "bit w n"
    moreover have "n - n div 8 * 8 < 8" by presburger
    ultimately have "bit (le_bytes w ! (n div 8)) (n - (0 + n div 8) * 8)"
      using j by (simp add: le_bytes_def sizeof_word_def bit_simps)
    moreover have "(0 + n div 8) * 8 \<le> n" by simp
    ultimately show "bit (0 :: 'a word) n \<or> (n < LENGTH('a) \<and>
        (\<exists>j < length (le_bytes w). (0 + j) * 8 \<le> n \<and> bit (le_bytes w ! j) (n - (0 + j) * 8)))"
      using j n by auto
  qed
qed

lemma le_bytes_le_word:
  assumes "LENGTH('a) = 8 * length bs"
  shows "le_bytes (le_word bs :: 'a::len word) = bs"
proof (rule nth_equalityI)
  show "length (le_bytes (le_word bs :: 'a word)) = length bs" using assms by simp
next
  fix k assume "k < length (le_bytes (le_word bs :: 'a word))"
  then have k: "k < length bs" using assms by simp
  show "le_bytes (le_word bs :: 'a word) ! k = bs ! k"
  proof (rule bit_word_eqI)
    fix n assume "n < LENGTH(8)"
    then have n: "n < 8" by simp
    have uniq: "j = k" if "j * 8 \<le> k * 8 + n" "k * 8 + n - j * 8 < 8" for j
      using that n by presburger
    have "bit (le_bytes (le_word bs :: 'a word) ! k) n = bit (le_word bs :: 'a word) (k * 8 + n)"
      using k n assms by (simp add: le_bytes_def sizeof_word_def bit_simps)
    also have "\<dots> \<longleftrightarrow> (\<exists>j < length bs. (0 + j) * 8 \<le> k * 8 + n \<and> bit (bs ! j) (k * 8 + n - (0 + j) * 8))"
      unfolding le_word_def bit_le_accumulate using k n assms by auto
    also have "\<dots> \<longleftrightarrow> bit (bs ! k) n"
    proof
      assume "\<exists>j < length bs. (0 + j) * 8 \<le> k * 8 + n \<and> bit (bs ! j) (k * 8 + n - (0 + j) * 8)"
      then obtain j where j: "j * 8 \<le> k * 8 + n" "bit (bs ! j) (k * 8 + n - j * 8)" by auto
      from bit_imp_le_length [OF j(2)] have "k * 8 + n - j * 8 < 8" by simp
      then have "j = k" by (rule uniq [OF j(1)])
      with j(2) show "bit (bs ! k) n" by simp
    next
      assume "bit (bs ! k) n"
      then show "\<exists>j < length bs. (0 + j) * 8 \<le> k * 8 + n \<and> bit (bs ! j) (k * 8 + n - (0 + j) * 8)"
        using k by (intro exI [of _ k]) simp
    qed
    finally show "bit (le_bytes (le_word bs :: 'a word) ! k) n = bit (bs ! k) n" .
  qed
qed

lemma le_bytes_eq_iff [simp]:
  assumes "LENGTH('a) = 8 * (LENGTH('a) div 8)"
  shows "le_bytes (v :: 'a::len word) = le_bytes w \<longleftrightarrow> v = w"
proof
  assume "le_bytes v = le_bytes w"
  then have "(le_word (le_bytes v) :: 'a word) = le_word (le_bytes w)" by (rule arg_cong)
  then show "v = w" by (simp only: le_word_le_bytes [OF assms])
qed simp

section \<open>What is left to read\<close>

definition stream :: "ByteReader \<Rightarrow> byte list" where
  "stream r = drop (br_offset r) (br_bytes r)"

definition adv :: "nat \<Rightarrow> ByteReader \<Rightarrow> ByteReader" where
  "adv n r = r\<lparr>br_offset := br_offset r + n\<rparr>"

lemma stream_make_reader [simp]: "stream (make_reader bytes) = bytes"
  by (simp add: stream_def make_reader_def)

lemma stream_adv [simp]: "stream (adv n r) = drop n (stream r)"
  by (simp add: stream_def adv_def add.commute)

lemma adv_adv [simp]: "adv m (adv n r) = adv (n + m) r"
  by (simp add: adv_def)

lemma adv_0 [simp]: "adv 0 r = r"
  by (simp add: adv_def)

lemma br_offset_adv [simp]: "br_offset (adv n r) = br_offset r + n"
  by (simp add: adv_def)

lemma remaining_stream: "remaining r = length (stream r)"
  by (simp add: remaining_def stream_def)

lemma read_stream:
  "(read_little_endian ctx r :: 'a::len word Result \<times> ByteReader) =
     (if length (stream r) < LENGTH('a) div 8
      then (failure EC_truncated_data (of_nat (LENGTH('a) div 8)) (br_offset r) ctx, r)
      else (Inr (le_word (take (LENGTH('a) div 8) (stream r))), adv (LENGTH('a) div 8) r))"
  by (simp add: read_little_endian_def remaining_stream Let_def stream_def adv_def)

text \<open>Reading back what was written, and what a successful read says of the bytes.\<close>

lemma read_written:
  assumes "LENGTH('a) = 8 * (LENGTH('a) div 8)" and "stream r = le_bytes (w :: 'a::len word) @ rest"
  shows "read_little_endian ctx r = (Inr w, adv (LENGTH('a) div 8) r)"
  using assms by (simp add: read_stream le_word_le_bytes)

lemma read_splits:
  assumes "LENGTH('a) = 8 * (LENGTH('a) div 8)"
    and "read_little_endian ctx r = (Inr (w :: 'a::len word), r')"
  shows "r' = adv (LENGTH('a) div 8) r \<and> stream r = le_bytes w @ stream r'"
proof -
  have l: "LENGTH('a) div 8 \<le> length (stream r)" and w: "w = le_word (take (LENGTH('a) div 8) (stream r))"
    and r: "r' = adv (LENGTH('a) div 8) r"
    using assms(2) by (auto simp: read_stream split: if_splits)
  have "le_bytes w = take (LENGTH('a) div 8) (stream r)"
    unfolding w by (rule le_bytes_le_word) (use l assms(1) in simp)
  then show ?thesis by (simp add: r)
qed

lemmas read_u8_splits = read_splits [where 'a = 8, simplified]
lemmas read_u16_splits = read_splits [where 'a = 16, simplified]
lemmas read_u32_splits = read_splits [where 'a = 32, simplified]
lemmas read_u64_splits = read_splits [where 'a = 64, simplified]

end
