(* ===== verification/Crc32.thy ===== *)
theory Crc32
  imports Bytes
begin

text \<open>
  \<open>protocol/crc32.cpp\<close>: the bitwise CRC-32 (reflected polynomial \<open>0xEDB88320\<close>) that guards
  packets and replays. One bit step is a linear bijection of the register, four bytes are one
  xor followed by 32 steps, and a message that carries its own checksum leaves a constant
  in the register. So a change confined to four consecutive bytes, the checksum's own
  bytes included, never goes unnoticed.
\<close>

definition crc_polynomial :: u32 where
  "crc_polynomial = 0xEDB88320"

definition crc_bit :: "u32 \<Rightarrow> u32" where
  "crc_bit checksum =
     (let mask = 0 - (checksum AND 1)
      in drop_bit 1 checksum XOR (crc_polynomial AND mask))"

fun crc_bits :: "nat \<Rightarrow> u32 \<Rightarrow> u32" where
  "crc_bits 0 checksum = checksum"
| "crc_bits (Suc n) checksum = crc_bits n (crc_bit checksum)"

definition crc_byte :: "u32 \<Rightarrow> byte \<Rightarrow> u32" where
  "crc_byte checksum b = crc_bits 8 (checksum XOR ucast b)"

definition crc_register :: "byte list \<Rightarrow> u32" where
  "crc_register bytes = foldl crc_byte 0xFFFFFFFF bytes"

definition crc32 :: "byte list \<Rightarrow> u32" where
  "crc32 bytes = crc_register bytes XOR 0xFFFFFFFF"

section \<open>One step is linear and one to one\<close>

lemma crc_mask: "0 - (c AND 1 :: u32) = (if bit c 0 then -1 else 0)"
  by (simp add: and_one_eq bit_0 mod2_eq_if)

lemma crc_bit_alt: "crc_bit c = drop_bit 1 c XOR (if bit c 0 then crc_polynomial else 0)"
  by (simp add: crc_bit_def Let_def crc_mask del: diff_0)

lemma crc_bit_linear: "crc_bit (x XOR y) = crc_bit x XOR crc_bit y"
  by (auto simp: crc_bit_alt drop_bit_xor bit_xor_iff ac_simps)

lemma crc_bits_linear: "crc_bits n (x XOR y) = crc_bits n x XOR crc_bits n y"
  by (induction n arbitrary: x y) (simp_all add: crc_bit_linear)

lemma crc_bit_top: "bit (crc_bit c) 31 \<longleftrightarrow> bit c 0"
  by (simp add: crc_bit_alt bit_xor_iff bit_drop_bit_eq bit_imp_le_length crc_polynomial_def bit_numeral_word_iff)
    (auto dest: bit_imp_le_length)

lemma crc_bit_inj: "crc_bit x = crc_bit y \<longleftrightarrow> x = y"
proof
  assume e: "crc_bit x = crc_bit y"
  then have b: "bit x 0 \<longleftrightarrow> bit y 0" using crc_bit_top by metis
  with e have "drop_bit 1 x = drop_bit 1 y" by (simp add: crc_bit_alt xor_right_cancel split: if_splits)
  then have "bit (drop_bit 1 x) n = bit (drop_bit 1 y) n" for n by simp
  then have "bit x (Suc n) = bit y (Suc n)" for n by (simp add: bit_drop_bit_eq)
  with b have "bit x n = bit y n" for n by (cases n) auto
  then show "x = y" by (auto intro: bit_eqI)
qed simp

lemma crc_bits_inj: "crc_bits n x = crc_bits n y \<longleftrightarrow> x = y"
  by (induction n arbitrary: x y) (simp_all add: crc_bit_inj)

lemma crc_bits_add: "crc_bits (m + n) x = crc_bits n (crc_bits m x)"
  by (induction m arbitrary: x) simp_all

section \<open>Four bytes are one word\<close>

fun spread :: "byte list \<Rightarrow> u32" where
  "spread [] = 0"
| "spread (b # bs) = ucast b XOR push_bit 8 (spread bs)"

lemma bit_spread:
  "bit (spread bs) n \<longleftrightarrow> n < 32 \<and> n div 8 < length bs \<and> bit (bs ! (n div 8)) (n mod 8)"
proof (induction bs arbitrary: n)
  case (Cons b bs)
  show ?case
  proof (cases "n < 8")
    case True
    then show ?thesis by (auto simp: bit_simps)
  next
    case False
    then have "n div 8 = Suc ((n - 8) div 8)" "n mod 8 = (n - 8) mod 8"
      by (simp_all add: div_if mod_if)
    with False Cons [of "n - 8"] show ?thesis
      by (auto simp: bit_simps dest: bit_imp_le_length)
  qed
qed simp

lemma spread_le_bytes: "spread (le_bytes c) = c"
proof (rule bit_word_eqI)
  fix n assume n: "n < LENGTH(32)"
  then have "n div 8 < 4" by simp
  then show "bit (spread (le_bytes c)) n = bit c n"
    using n by (simp add: bit_spread le_bytes_def sizeof_word_def bit_simps)
qed

lemma spread_inj:
  assumes "length bs = length cs" "length bs \<le> 4" "spread bs = spread cs"
  shows "bs = cs"
proof (rule nth_equalityI [OF assms(1)])
  fix k assume k: "k < length bs"
  show "bs ! k = cs ! k"
  proof (rule bit_word_eqI)
    fix n assume "n < LENGTH(8)"
    then have "n < 8" "8 * k + n < 32" using k assms(2) by simp_all
    moreover have "bit (spread bs) (8 * k + n) = bit (spread cs) (8 * k + n)" using assms(3) by simp
    ultimately show "bit (bs ! k) n = bit (cs ! k) n"
      using k assms(1) by (simp add: bit_spread)
  qed
qed

lemma crc_bits_drop:
  "(\<And>i. i < n \<Longrightarrow> \<not> bit x i) \<Longrightarrow> crc_bits n x = drop_bit n x"
proof (induction n arbitrary: x)
  case (Suc n)
  have "\<not> bit x 0" using Suc.prems by blast
  then have "crc_bit x = drop_bit 1 x" by (simp add: crc_bit_alt)
  moreover have "\<not> bit (drop_bit 1 x) i" if "i < n" for i
    using Suc.prems [of "Suc i"] that by (simp add: bit_drop_bit_eq)
  ultimately show ?case using Suc.IH [of "drop_bit 1 x"] by simp
qed simp

lemma crc_bits_absorb:
  assumes "length bs \<le> 3"
  shows "crc_bits 8 x XOR spread bs = crc_bits 8 (x XOR push_bit 8 (spread bs))"
proof -
  have "crc_bits 8 (push_bit 8 (spread bs)) = drop_bit 8 (push_bit 8 (spread bs))"
    by (rule crc_bits_drop) (simp add: bit_simps)
  also have "\<dots> = spread bs"
    by (rule bit_word_eqI) (use assms in \<open>auto simp: bit_simps bit_spread\<close>)
  finally show ?thesis by (simp add: crc_bits_linear)
qed

lemma crc_window:
  "length bs \<le> 4 \<Longrightarrow> foldl crc_byte s bs = crc_bits (8 * length bs) (s XOR spread bs)"
proof (induction bs arbitrary: s)
  case (Cons b bs)
  have "foldl crc_byte s (b # bs) = crc_bits (8 * length bs) (crc_byte s b XOR spread bs)"
    using Cons by simp
  also have "\<dots> = crc_bits (8 * length bs) (crc_bits 8 (s XOR ucast b) XOR spread bs)"
    by (simp only: crc_byte_def)
  also have "\<dots> = crc_bits (8 * length bs) (crc_bits 8 ((s XOR ucast b) XOR push_bit 8 (spread bs)))"
    using Cons.prems by (simp add: crc_bits_absorb)
  also have "\<dots> = crc_bits (8 + 8 * length bs) (s XOR spread (b # bs))"
    by (simp only: crc_bits_add spread.simps xor.assoc)
  finally show ?case by simp
qed simp

lemma crc_byte_inj: "crc_byte s b = crc_byte s' b \<Longrightarrow> s = s'"
  unfolding crc_byte_def crc_bits_inj by (rule xor_right_cancel)

lemma crc_register_append: "crc_register (xs @ ys) = foldl crc_byte (crc_register xs) ys"
  by (simp add: crc_register_def)

lemma crc_register_burst:
  assumes "length m = length m'" "length m \<le> 4" "m \<noteq> m'"
  shows "crc_register (p @ m @ q) \<noteq> crc_register (p @ m' @ q)"
proof
  assume "crc_register (p @ m @ q) = crc_register (p @ m' @ q)"
  then have "foldl crc_byte (crc_register p) m = foldl crc_byte (crc_register p) m'"
    by (auto simp: crc_register_append intro: foldl_inj_state [where f = crc_byte, OF crc_byte_inj])
  then have "crc_register p XOR spread m = crc_register p XOR spread m'"
    using assms by (simp add: crc_window crc_bits_inj)
  then have "spread m = spread m'" by (metis xor.commute xor_right_cancel)
  with assms spread_inj show False by blast
qed

section \<open>A message with its checksum\<close>

definition crc_residue :: u32 where
  "crc_residue = crc_bits 32 0xFFFFFFFF"

lemma xor_eq_iff: "(a :: 'a::len word) XOR b = c \<longleftrightarrow> b = a XOR c"
  by (metis xor.assoc xor.left_neutral xor_self_eq)

lemma crc_check_residue:
  "crc_register (body @ le_bytes (stored :: u32)) = crc_residue \<longleftrightarrow> stored = crc32 body"
proof -
  have "crc_register (body @ le_bytes stored) = crc_bits 32 (crc_register body XOR stored)"
    by (simp add: crc_register_append crc_window spread_le_bytes)
  moreover have "crc_register body XOR stored = 0xFFFFFFFF \<longleftrightarrow> stored = crc32 body"
    unfolding crc32_def by (rule xor_eq_iff)
  ultimately show ?thesis by (simp add: crc_residue_def crc_bits_inj)
qed

text \<open>
  Two messages that differ in a window of at most four bytes.
\<close>

definition burst :: "byte list \<Rightarrow> byte list \<Rightarrow> bool" where
  "burst bytes bytes' \<longleftrightarrow> (\<exists>p m m' q. bytes = p @ m @ q \<and> bytes' = p @ m' @ q
     \<and> length m = length m' \<and> length m \<le> 4 \<and> m \<noteq> m')"

lemma burst_register:
  "burst bytes bytes' \<Longrightarrow> crc_register bytes \<noteq> crc_register bytes' \<and> length bytes = length bytes'"
  by (auto simp: burst_def dest: crc_register_burst)

section \<open>The interface of a codec\<close>

text \<open>
  What the packet codec and the replay codec both promise: the decoder accepts exactly what the
  encoder produces from a well-formed value, and the checksum is checked before anything else
  but the length.
\<close>

locale checked_codec =
  fixes encode :: "'a \<Rightarrow> byte list Result"
    and decode :: "byte list \<Rightarrow> 'a Result"
    and plain :: "'a \<Rightarrow> bool"
  assumes decode_iff: "decode bytes = Inr x \<longleftrightarrow> encode x = Inr bytes \<and> plain x"
    and sealed: "decode bytes = Inr x \<Longrightarrow> crc_register bytes = crc_residue"
    and unsealed: "decode bytes = Inr x \<Longrightarrow> length bytes' = length bytes
      \<Longrightarrow> crc_register bytes' \<noteq> crc_residue
      \<Longrightarrow> \<exists>e. decode bytes' = Inl e \<and> err_code e = EC_integrity_mismatch"
begin

lemma roundtrip: "encode x = Inr bytes \<Longrightarrow> plain x \<Longrightarrow> decode bytes = Inr x"
  by (simp add: decode_iff)

lemma reencode: "decode bytes = Inr x \<Longrightarrow> encode x = Inr bytes"
  by (simp add: decode_iff)

lemma decode_inj: "decode bytes = Inr x \<Longrightarrow> decode bytes' = Inr x \<Longrightarrow> bytes = bytes'"
  by (simp add: decode_iff)

lemma burst_detected:
  assumes "decode bytes = Inr x" "burst bytes bytes'"
  shows "\<exists>e. decode bytes' = Inl e \<and> err_code e = EC_integrity_mismatch"
  using unsealed [OF assms(1)] sealed [OF assms(1)] burst_register [OF assms(2)] by metis

end

end
