(* ===== verification/Simulation.thy ===== *)
theory Simulation
  imports Bytes
begin

text \<open>
  The \<open>simulation\<close> module: inputs (\<open>simulation/input.hpp\<close>), the canonical integer world
  (\<open>simulation/state.hpp\<close>) and its one-frame transition, canonical serialization and hash
  (\<open>src/simulation/simulation.cpp\<close>), and the scripted input (\<open>src/simulation/scripted_input.cpp\<close>).

  A \<open>std::array\<close> is a list; \<open>world_shape\<close> fixes its length. An enumeration that the code
  validates at run time (\<open>SimulationVariant\<close>) is its underlying byte with named values; the
  others are datatypes.

  The lemmas: \<open>world_inv\<close> (positions inside the arena, facing a unit vector, hit points and
  cooldowns in range, live projectiles with distinct identifiers below the counter) holds of the
  initial world and is kept by every frame; under it a frame fails only for the frame guard or an
  exhausted identifier counter; the frame depends on its inputs only through the buttons; the
  canonical bytes have a fixed length and determine the world.
\<close>

section \<open>Inputs\<close>

datatype PlayerId = PA | PB

fun player_value :: "PlayerId \<Rightarrow> u8" where
  "player_value PA = 0"
| "player_value PB = 1"

datatype Button = Btn_up | Btn_down | Btn_left | Btn_right | Btn_attack

fun button_value :: "Button \<Rightarrow> nat" where
  "button_value Btn_up = 0"
| "button_value Btn_down = 1"
| "button_value Btn_left = 2"
| "button_value Btn_right = 3"
| "button_value Btn_attack = 4"

definition button_mask :: "Button \<Rightarrow> u8" where
  "button_mask button = push_bit (button_value button) 1"

definition has_button :: "u8 \<Rightarrow> Button \<Rightarrow> bool" where
  "has_button buttons button \<longleftrightarrow> buttons AND button_mask button \<noteq> 0"

record InputFrame =
  in_frame :: FrameNumber
  in_player :: PlayerId
  in_sequence :: u32
  in_buttons :: u8

record InputPair =
  pair_a :: InputFrame
  pair_b :: InputFrame

definition input_for :: "InputPair \<Rightarrow> PlayerId \<Rightarrow> InputFrame" where
  "input_for inputs player = (if player = PA then pair_a inputs else pair_b inputs)"

section \<open>The canonical world\<close>

definition kSubunitsPerWorldUnit :: i32 where "kSubunitsPerWorldUnit = 1024"
definition kArenaWidth :: i32 where "kArenaWidth = 1024 * kSubunitsPerWorldUnit"
definition kArenaHeight :: i32 where "kArenaHeight = 576 * kSubunitsPerWorldUnit"
definition kPlayerRadius :: i32 where "kPlayerRadius = 12 * kSubunitsPerWorldUnit"
definition kProjectileRadius :: i32 where "kProjectileRadius = 4 * kSubunitsPerWorldUnit"
definition kPlayerSpeed :: i32 where "kPlayerSpeed = 4 * kSubunitsPerWorldUnit"
definition kProjectileSpeed :: i32 where "kProjectileSpeed = 8 * kSubunitsPerWorldUnit"
definition kPlayerASpawnX :: i32 where "kPlayerASpawnX = kArenaWidth div 4"
definition kPlayerBSpawnX :: i32 where "kPlayerBSpawnX = (kArenaWidth * 3) div 4"
definition kPlayerSpawnY :: i32 where "kPlayerSpawnY = kArenaHeight div 2"
definition kStartingHp :: i16 where "kStartingHp = 100"
definition kProjectileDamage :: i16 where "kProjectileDamage = 25"
definition kAttackCooldownTicks :: u16 where "kAttackCooldownTicks = 15"
definition kProjectileLifetimeTicks :: u16 where "kProjectileLifetimeTicks = 120"
definition kMaxProjectiles :: nat where "kMaxProjectiles = 64"
definition kSimulationVersion :: u32 where "kSimulationVersion = 1"

lemmas world_constants =
  kSubunitsPerWorldUnit_def kArenaWidth_def kArenaHeight_def kPlayerRadius_def
  kProjectileRadius_def kPlayerSpeed_def kProjectileSpeed_def kPlayerASpawnX_def
  kPlayerBSpawnX_def kPlayerSpawnY_def kStartingHp_def kProjectileDamage_def
  kAttackCooldownTicks_def kProjectileLifetimeTicks_def kMaxProjectiles_def

record PlayerState =
  ps_id :: PlayerId
  ps_x :: i32
  ps_y :: i32
  ps_velocity_x :: i32
  ps_velocity_y :: i32
  ps_facing_x :: i8
  ps_facing_y :: i8
  ps_hp :: i16
  ps_score :: u16
  ps_attack_cooldown :: u16

record ProjectileState =
  pj_active :: bool
  pj_stable_id :: u32
  pj_owner :: PlayerId
  pj_x :: i32
  pj_y :: i32
  pj_velocity_x :: i32
  pj_velocity_y :: i32
  pj_ttl :: u16

record WorldState =
  ws_frame :: FrameNumber
  ws_players :: "PlayerState list"
  ws_projectiles :: "ProjectileState list"
  ws_next_projectile_id :: u32

definition default_projectile :: ProjectileState where
  "default_projectile =
     \<lparr>pj_active = False, pj_stable_id = 0, pj_owner = PA, pj_x = 0, pj_y = 0,
      pj_velocity_x = 0, pj_velocity_y = 0, pj_ttl = 0\<rparr>"

definition make_initial_world :: WorldState where
  "make_initial_world =
     \<lparr>ws_frame = 0,
      ws_players =
        [\<lparr>ps_id = PA, ps_x = kPlayerASpawnX, ps_y = kPlayerSpawnY, ps_velocity_x = 0,
          ps_velocity_y = 0, ps_facing_x = 1, ps_facing_y = 0, ps_hp = kStartingHp,
          ps_score = 0, ps_attack_cooldown = 0\<rparr>,
         \<lparr>ps_id = PB, ps_x = kPlayerBSpawnX, ps_y = kPlayerSpawnY, ps_velocity_x = 0,
          ps_velocity_y = 0, ps_facing_x = - 1, ps_facing_y = 0, ps_hp = kStartingHp,
          ps_score = 0, ps_attack_cooldown = 0\<rparr>],
      ws_projectiles = replicate kMaxProjectiles default_projectile,
      ws_next_projectile_id = 1\<rparr>"

section \<open>Operations of one frame\<close>

definition axis :: "bool \<Rightarrow> bool \<Rightarrow> i32" where
  "axis negative positive =
     (if negative = positive then 0 else if negative then - 1 else 1)"

definition clamp_position :: "i32 \<Rightarrow> i32 \<Rightarrow> i32 \<Rightarrow> i32" where
  "clamp_position v lower upper =
     (if v <s lower then lower else if upper <s v then upper else v)"

definition player_index :: "PlayerId \<Rightarrow> nat" where
  "player_index i = (if i = PA then 0 else 1)"

definition respawn :: "PlayerState \<Rightarrow> PlayerState" where
  "respawn player = player
     \<lparr>ps_x := (if ps_id player = PA then kPlayerASpawnX else kPlayerBSpawnX),
      ps_y := kPlayerSpawnY,
      ps_velocity_x := 0,
      ps_velocity_y := 0,
      ps_facing_x := (if ps_id player = PA then 1 else - 1),
      ps_facing_y := 0,
      ps_hp := kStartingHp,
      ps_attack_cooldown := 0\<rparr>"

text \<open>\<open>std::find_if\<close> of the first slot that is not active.\<close>

fun find_inactive :: "ProjectileState list \<Rightarrow> nat option" where
  "find_inactive [] = None"
| "find_inactive (p # ps) = (if \<not> pj_active p then Some 0 else map_option Suc (find_inactive ps))"

definition spawn_offset :: i32 where
  "spawn_offset = 18 * kSubunitsPerWorldUnit"

definition spawned_projectile :: "u32 \<Rightarrow> PlayerState \<Rightarrow> ProjectileState" where
  "spawned_projectile stable_id player =
     \<lparr>pj_active = True,
      pj_stable_id = stable_id,
      pj_owner = ps_id player,
      pj_x = clamp_position (ps_x player + scast (ps_facing_x player) * spawn_offset)
               kProjectileRadius (kArenaWidth - kProjectileRadius),
      pj_y = clamp_position (ps_y player + scast (ps_facing_y player) * spawn_offset)
               kProjectileRadius (kArenaHeight - kProjectileRadius),
      pj_velocity_x = scast (ps_facing_x player) * kProjectileSpeed,
      pj_velocity_y = scast (ps_facing_y player) * kProjectileSpeed,
      pj_ttl = kProjectileLifetimeTicks\<rparr>"

text \<open>
  The player is a reference into \<open>world.players\<close>: it is passed as its index, and the cooldown is
  written back at that index. A failure discards the local copy of the world.
\<close>

definition spawn_projectile :: "WorldState \<Rightarrow> nat \<Rightarrow> WorldState Result" where
  "spawn_projectile world i =
     (case find_inactive (ws_projectiles world) of
        None \<Rightarrow> Inr world
      | Some slot \<Rightarrow>
          if ws_next_projectile_id world = 0xFFFFFFFF
          then failure EC_arithmetic_overflow (ucast (ws_next_projectile_id world)) 0
                 ''next_projectile_id''
          else
            (let player = ws_players world ! i
             in Inr (world
               \<lparr>ws_projectiles := (ws_projectiles world)
                  [slot := spawned_projectile (ws_next_projectile_id world) player],
                ws_next_projectile_id := ws_next_projectile_id world + 1,
                ws_players := (ws_players world)
                  [i := player\<lparr>ps_attack_cooldown := kAttackCooldownTicks\<rparr>]\<rparr>)))"

definition move_projectile :: "ProjectileState \<Rightarrow> ProjectileState Result" where
  "move_projectile projectile =
     (case (checked_add_i32 (pj_x projectile) (pj_velocity_x projectile),
            checked_add_i32 (pj_y projectile) (pj_velocity_y projectile)) of
        (Inr moved_x, Inr moved_y) \<Rightarrow>
          (let ttl = (if pj_ttl projectile > 0 then pj_ttl projectile - 1 else pj_ttl projectile);
               outside = (ttl = 0 \<or> moved_x <s 0 \<or> kArenaWidth <s moved_x
                          \<or> moved_y <s 0 \<or> kArenaHeight <s moved_y)
           in Inr (projectile
               \<lparr>pj_x := moved_x, pj_y := moved_y, pj_ttl := ttl,
                pj_active := (if outside then False else pj_active projectile)\<rparr>))
      | _ \<Rightarrow> failure EC_arithmetic_overflow (ucast (pj_stable_id projectile)) 0
               ''projectile_move'')"

definition hit_extent :: int where
  "hit_extent = sint (kPlayerRadius + kProjectileRadius)"

definition overlaps :: "ProjectileState \<Rightarrow> PlayerState \<Rightarrow> bool" where
  "overlaps projectile player =
     (let dx = sint (pj_x projectile) - sint (ps_x player);
          dy = sint (pj_y projectile) - sint (ps_y player)
      in dx \<ge> - hit_extent \<and> dx \<le> hit_extent \<and> dy \<ge> - hit_extent \<and> dy \<le> hit_extent)"

section \<open>One canonical frame\<close>

type_synonym SimulationVariant = u8

definition variant_canonical :: SimulationVariant where "variant_canonical = 0"
definition variant_damage_bias :: SimulationVariant where "variant_damage_bias = 1"

text \<open>The body of the first loop over the players: cooldown, facing, checked and clamped move.\<close>

definition move_player :: "InputPair \<Rightarrow> PlayerState \<Rightarrow> PlayerState Result" where
  "move_player inputs player0 =
     (let cooldown = (if ps_attack_cooldown player0 > 0 then ps_attack_cooldown player0 - 1
                      else ps_attack_cooldown player0);
          input = input_for inputs (ps_id player0);
          horizontal = axis (has_button (in_buttons input) Btn_left)
                            (has_button (in_buttons input) Btn_right);
          vertical = axis (has_button (in_buttons input) Btn_up)
                          (has_button (in_buttons input) Btn_down);
          player1 = player0\<lparr>ps_attack_cooldown := cooldown,
                            ps_velocity_x := horizontal * kPlayerSpeed,
                            ps_velocity_y := vertical * kPlayerSpeed\<rparr>;
          player2 = (if horizontal \<noteq> 0
                     then player1\<lparr>ps_facing_x := ucast horizontal, ps_facing_y := 0\<rparr>
                     else if vertical \<noteq> 0
                     then player1\<lparr>ps_facing_x := 0, ps_facing_y := ucast vertical\<rparr>
                     else player1)
      in case (checked_add_i32 (ps_x player2) (ps_velocity_x player2),
               checked_add_i32 (ps_y player2) (ps_velocity_y player2)) of
           (Inr moved_x, Inr moved_y) \<Rightarrow>
             Inr (player2
               \<lparr>ps_x := clamp_position moved_x kPlayerRadius (kArenaWidth - kPlayerRadius),
                ps_y := clamp_position moved_y kPlayerRadius (kArenaHeight - kPlayerRadius)\<rparr>)
         | _ \<Rightarrow> failure EC_arithmetic_overflow (ucast (player_value (ps_id player2))) 0
                  ''player_move'')"

fun move_players :: "InputPair \<Rightarrow> PlayerState list \<Rightarrow> PlayerState list Result" where
  "move_players inputs [] = Inr []"
| "move_players inputs (p # ps) =
     (case move_player inputs p of
        Inl e \<Rightarrow> Inl e
      | Inr p' \<Rightarrow> (case move_players inputs ps of Inl e \<Rightarrow> Inl e | Inr ps' \<Rightarrow> Inr (p' # ps')))"

text \<open>The second loop: every player that may attack spawns a projectile, in player order.\<close>

fun attack_players :: "InputPair \<Rightarrow> nat list \<Rightarrow> WorldState \<Rightarrow> WorldState Result" where
  "attack_players inputs [] world = Inr world"
| "attack_players inputs (i # slots) world =
     (let player = ws_players world ! i;
          input = input_for inputs (ps_id player)
      in if has_button (in_buttons input) Btn_attack \<and> ps_attack_cooldown player = 0
         then (case spawn_projectile world i of
                 Inl e \<Rightarrow> Inl e
               | Inr world' \<Rightarrow> attack_players inputs slots world')
         else attack_players inputs slots world)"

text \<open>
  The slots of the live projectiles, sorted by identifier and, for equal identifiers, by slot.
  The comparator of the \<open>std::sort\<close> is a strict total order, so that any sorting algorithm gives
  the list that insertion gives here.
\<close>

definition slot_less :: "WorldState \<Rightarrow> nat \<Rightarrow> nat \<Rightarrow> bool" where
  "slot_less world left right =
     (let left_id = pj_stable_id (ws_projectiles world ! left);
          right_id = pj_stable_id (ws_projectiles world ! right)
      in if left_id = right_id then left < right else left_id < right_id)"

fun insert_slot :: "WorldState \<Rightarrow> nat \<Rightarrow> nat list \<Rightarrow> nat list" where
  "insert_slot world i [] = [i]"
| "insert_slot world i (j # js) =
     (if slot_less world j i then j # insert_slot world i js else i # j # js)"

definition projectile_order :: "WorldState \<Rightarrow> nat list" where
  "projectile_order world =
     foldr (insert_slot world)
       (filter (\<lambda>index. pj_active (ws_projectiles world ! index))
          [0..<length (ws_projectiles world)]) []"

definition projectile_damage :: "SimulationVariant \<Rightarrow> i16" where
  "projectile_damage variant =
     (if variant = variant_damage_bias then kProjectileDamage + 1 else kProjectileDamage)"

text \<open>The effect of a projectile that overlaps its target: damage, and score and respawn.\<close>

definition hit_player :: "SimulationVariant \<Rightarrow> PlayerId \<Rightarrow> PlayerId \<Rightarrow> WorldState \<Rightarrow> WorldState" where
  "hit_player variant owner_id target_id world =
     (let t = player_index target_id;
          target = (ws_players world ! t)
            \<lparr>ps_hp := ps_hp (ws_players world ! t) - projectile_damage variant\<rparr>;
          players1 = (ws_players world)[t := target]
      in if ps_hp target \<le>s 0
         then (let k = player_index owner_id;
                   owner = (players1 ! k)\<lparr>ps_score := ps_score (players1 ! k) + 1\<rparr>;
                   players2 = players1[k := owner]
               in world\<lparr>ws_players := players2[t := respawn (players2 ! t)]\<rparr>)
         else world\<lparr>ws_players := players1\<rparr>)"

definition step_projectile :: "SimulationVariant \<Rightarrow> nat \<Rightarrow> WorldState \<Rightarrow> WorldState Result" where
  "step_projectile variant index world =
     (let projectile0 = ws_projectiles world ! index in
      if \<not> pj_active projectile0 then Inr world
      else case move_projectile projectile0 of
        Inl e \<Rightarrow> Inl e
      | Inr projectile \<Rightarrow>
          (let world1 = world\<lparr>ws_projectiles := (ws_projectiles world)[index := projectile]\<rparr> in
           if \<not> pj_active projectile then Inr world1
           else
             (let target_id = (if pj_owner projectile = PA then PB else PA) in
              if \<not> overlaps projectile (ws_players world1 ! player_index target_id)
              then Inr world1
              else Inr (hit_player variant (pj_owner projectile) target_id
                (world1\<lparr>ws_projectiles := (ws_projectiles world1)
                   [index := projectile\<lparr>pj_active := False\<rparr>]\<rparr>)))))"

fun step_projectiles :: "SimulationVariant \<Rightarrow> nat list \<Rightarrow> WorldState \<Rightarrow> WorldState Result" where
  "step_projectiles variant [] world = Inr world"
| "step_projectiles variant (i # slots) world =
     (case step_projectile variant i world of
        Inl e \<Rightarrow> Inl e
      | Inr world' \<Rightarrow> step_projectiles variant slots world')"

definition simulate_frame ::
    "WorldState \<Rightarrow> FrameNumber \<Rightarrow> InputPair \<Rightarrow> SimulationVariant \<Rightarrow> WorldState Result" where
  "simulate_frame world0 frame inputs variant =
     (if ws_frame world0 \<noteq> frame \<or> in_frame (pair_a inputs) \<noteq> frame
         \<or> in_frame (pair_b inputs) \<noteq> frame \<or> in_player (pair_a inputs) \<noteq> PA
         \<or> in_player (pair_b inputs) \<noteq> PB
      then failure EC_frame_mismatch (ucast frame) 0 ''simulate_frame''
      else case move_players inputs (ws_players world0) of
        Inl e \<Rightarrow> Inl e
      | Inr players \<Rightarrow>
          (case attack_players inputs [0..<length players] (world0\<lparr>ws_players := players\<rparr>) of
             Inl e \<Rightarrow> Inl e
           | Inr world \<Rightarrow>
               (case step_projectiles variant (projectile_order world) world of
                  Inl e \<Rightarrow> Inl e
                | Inr world' \<Rightarrow> Inr (world'\<lparr>ws_frame := next_frame frame\<rparr>))))"

section \<open>Canonical bytes and hash\<close>

definition serialize_player :: "PlayerState \<Rightarrow> byte list" where
  "serialize_player player =
     le_bytes (player_value (ps_id player)) @ le_bytes (ps_x player) @ le_bytes (ps_y player)
     @ le_bytes (ps_velocity_x player) @ le_bytes (ps_velocity_y player)
     @ le_bytes (ps_facing_x player) @ le_bytes (ps_facing_y player) @ le_bytes (ps_hp player)
     @ le_bytes (ps_score player) @ le_bytes (ps_attack_cooldown player)"

definition serialize_projectile :: "ProjectileState \<Rightarrow> byte list" where
  "serialize_projectile projectile =
     le_bytes (if pj_active projectile then 1 else 0 :: u8) @ le_bytes (pj_stable_id projectile)
     @ le_bytes (player_value (pj_owner projectile)) @ le_bytes (pj_x projectile)
     @ le_bytes (pj_y projectile) @ le_bytes (pj_velocity_x projectile)
     @ le_bytes (pj_velocity_y projectile) @ le_bytes (pj_ttl projectile)"

definition serialize_canonical :: "WorldState \<Rightarrow> byte list" where
  "serialize_canonical state =
     le_bytes kSimulationVersion @ le_bytes (ws_frame state)
     @ concat (map serialize_player (ws_players state))
     @ le_bytes (ws_next_projectile_id state)
     @ concat (map serialize_projectile (ws_projectiles state))"

definition hash_canonical :: "WorldState \<Rightarrow> StateHash" where
  "hash_canonical state = fnv1a64 (serialize_canonical state)"

section \<open>Scripted input\<close>

definition scripted_input :: "u64 \<Rightarrow> FrameNumber \<Rightarrow> PlayerId \<Rightarrow> InputFrame" where
  "scripted_input scenario_seed frame player =
     (let pv = (ucast (player_value player) :: u64);
          mixed_seed = (scenario_seed XOR (ucast frame * 0x9E3779B97F4A7C15))
                       XOR (pv * 0xD1B54A32D192ED03);
          random0 = make_pcg32 mixed_seed (scenario_seed + pv + 1);
          buttons0 = (if scenario_seed AND 1 = 0 then button_mask Btn_left
                      else button_mask Btn_right);
          (vertical, random1) = bounded 6 random0;
          buttons1 = (if vertical = 0 then buttons0 OR button_mask Btn_up
                      else if vertical = 1 then buttons0 OR button_mask Btn_down
                      else buttons0);
          (attack, random2) = bounded 11 random1;
          buttons2 = (if attack = 0 then buttons1 OR button_mask Btn_attack else buttons1)
      in \<lparr>in_frame = frame, in_player = player, in_sequence = frame, in_buttons = buttons2\<rparr>)"

section \<open>The invariant of the canonical world\<close>

definition unit_facing :: "i8 \<Rightarrow> i8 \<Rightarrow> bool" where
  "unit_facing fx fy \<longleftrightarrow>
     (fx = 1 \<and> fy = 0) \<or> (fx = - 1 \<and> fy = 0) \<or> (fx = 0 \<and> fy = 1) \<or> (fx = 0 \<and> fy = - 1)"

definition player_inv :: "PlayerId \<Rightarrow> PlayerState \<Rightarrow> bool" where
  "player_inv i p \<longleftrightarrow>
     ps_id p = i
     \<and> 12288 \<le> sint (ps_x p) \<and> sint (ps_x p) \<le> 1036288
     \<and> 12288 \<le> sint (ps_y p) \<and> sint (ps_y p) \<le> 577536
     \<and> unit_facing (ps_facing_x p) (ps_facing_y p)
     \<and> 0 < sint (ps_hp p) \<and> sint (ps_hp p) \<le> 100
     \<and> ps_attack_cooldown p \<le> 15"

definition projectile_inv :: "u32 \<Rightarrow> ProjectileState \<Rightarrow> bool" where
  "projectile_inv next_id p \<longleftrightarrow>
     (pj_active p \<longrightarrow>
        pj_stable_id p < next_id
        \<and> 0 < pj_ttl p \<and> pj_ttl p \<le> 120
        \<and> 0 \<le> sint (pj_x p) \<and> sint (pj_x p) \<le> 1048576
        \<and> 0 \<le> sint (pj_y p) \<and> sint (pj_y p) \<le> 589824
        \<and> sint (pj_velocity_x p) \<in> {- 8192, 0, 8192}
        \<and> sint (pj_velocity_y p) \<in> {- 8192, 0, 8192})"

definition live_ids_distinct :: "ProjectileState list \<Rightarrow> bool" where
  "live_ids_distinct ps \<longleftrightarrow>
     (\<forall>i j. i < length ps \<longrightarrow> j < length ps \<longrightarrow> pj_active (ps ! i) \<longrightarrow> pj_active (ps ! j)
        \<longrightarrow> pj_stable_id (ps ! i) = pj_stable_id (ps ! j) \<longrightarrow> i = j)"

definition world_shape :: "WorldState \<Rightarrow> bool" where
  "world_shape w \<longleftrightarrow> length (ws_players w) = 2 \<and> length (ws_projectiles w) = 64"

definition world_inv :: "WorldState \<Rightarrow> bool" where
  "world_inv w \<longleftrightarrow>
     world_shape w
     \<and> player_inv PA (ws_players w ! 0) \<and> player_inv PB (ws_players w ! 1)
     \<and> (\<forall>p \<in> set (ws_projectiles w). projectile_inv (ws_next_projectile_id w) p)
     \<and> live_ids_distinct (ws_projectiles w)"

lemma sint_constants [simp]:
  "sint kArenaWidth = 1048576" "sint kArenaHeight = 589824"
  "sint kPlayerRadius = 12288" "sint kProjectileRadius = 4096"
  "sint (kArenaWidth - kPlayerRadius) = 1036288" "sint (kArenaHeight - kPlayerRadius) = 577536"
  "sint (kArenaWidth - kProjectileRadius) = 1044480"
  "sint (kArenaHeight - kProjectileRadius) = 585728"
  "sint kPlayerASpawnX = 262144" "sint kPlayerBSpawnX = 786432" "sint kPlayerSpawnY = 294912"
  "sint kStartingHp = 100"
  by (simp_all add: world_constants)

lemma clamp_position_range:
  "sint lower \<le> sint upper
    \<Longrightarrow> sint lower \<le> sint (clamp_position v lower upper)
        \<and> sint (clamp_position v lower upper) \<le> sint upper"
  by (simp add: clamp_position_def word_sless_alt)

lemma axis_cases: "axis a b = 0 \<or> axis a b = 1 \<or> axis a b = - 1"
  by (simp add: axis_def)

lemma sint_speeds [simp]:
  "sint (0 * kPlayerSpeed) = 0" "sint (1 * kPlayerSpeed) = 4096" "sint (- 1 * kPlayerSpeed) = - 4096"
  "sint (0 * kProjectileSpeed) = 0" "sint (1 * kProjectileSpeed) = 8192"
  "sint (- 1 * kProjectileSpeed) = - 8192"
  by (simp_all add: world_constants)

lemma sint_axis_speed: "sint (axis a b * kPlayerSpeed) \<in> {- 4096, 0, 4096}"
proof -
  consider "axis a b = 0" | "axis a b = 1" | "axis a b = - 1" using axis_cases by blast
  then show ?thesis
    by cases (simp_all only: sint_speeds insert_iff simp_thms)
qed

lemma initial_world_inv: "world_inv make_initial_world"
  by (simp add: world_inv_def world_shape_def make_initial_world_def player_inv_def
      unit_facing_def projectile_inv_def default_projectile_def live_ids_distinct_def
      kMaxProjectiles_def)

subsection \<open>Moving the players\<close>

lemma move_player_fields:
  fixes inputs :: InputPair and p :: PlayerState
  defines "ax \<equiv> axis (has_button (in_buttons (input_for inputs (ps_id p))) Btn_left)
                    (has_button (in_buttons (input_for inputs (ps_id p))) Btn_right)"
    and "ay \<equiv> axis (has_button (in_buttons (input_for inputs (ps_id p))) Btn_up)
                   (has_button (in_buttons (input_for inputs (ps_id p))) Btn_down)"
  assumes mx: "checked_add_i32 (ps_x p) (ax * kPlayerSpeed) = Inr x"
    and my: "checked_add_i32 (ps_y p) (ay * kPlayerSpeed) = Inr y"
  shows "\<exists>p'. move_player inputs p = Inr p' \<and> ps_id p' = ps_id p
      \<and> ps_x p' = clamp_position x kPlayerRadius (kArenaWidth - kPlayerRadius)
      \<and> ps_y p' = clamp_position y kPlayerRadius (kArenaHeight - kPlayerRadius)
      \<and> ps_hp p' = ps_hp p \<and> ps_score p' = ps_score p
      \<and> ps_attack_cooldown p' = (if ps_attack_cooldown p > 0 then ps_attack_cooldown p - 1
                                  else ps_attack_cooldown p)
      \<and> (ps_facing_x p', ps_facing_y p') =
          (if ax \<noteq> 0 then (ucast ax, 0) else if ay \<noteq> 0 then (0, ucast ay)
           else (ps_facing_x p, ps_facing_y p))"
proof -
  consider "ax \<noteq> 0" | "ax = 0" "ay \<noteq> 0" | "ax = 0" "ay = 0" by blast
  from this mx my show ?thesis
    by cases (simp_all add: move_player_def Let_def flip: ax_def ay_def)
qed

lemma cooldown_step:
  "c \<le> 15 \<Longrightarrow> (if c > 0 then c - 1 else c) \<le> (15 :: u16)"
  by (auto simp: word_le_nat_alt word_less_nat_alt unat_sub_if')

lemma ucast_minus_one_i8 [simp]: "(ucast (- 1 :: i32) :: i8) = - 1"
  by (rule bit_word_eqI) (simp add: bit_simps)

lemma unit_facing_axis:
  "axis a b \<noteq> 0 \<Longrightarrow> unit_facing (ucast (axis a b)) 0 \<and> unit_facing 0 (ucast (axis a b))"
  using axis_cases [of a b] by (elim disjE) (simp_all add: unit_facing_def)

lemma unit_facing_step:
  assumes "unit_facing fx fy"
    and "(gx, gy) = (if axis a b \<noteq> 0 then (ucast (axis a b), 0) else if axis c d \<noteq> 0
          then (0, ucast (axis c d)) else (fx, fy))"
  shows "unit_facing gx gy"
  using assms unit_facing_axis [of a b] unit_facing_axis [of c d] by (simp split: if_splits)

lemma move_player_inv:
  assumes "player_inv i p"
  shows "\<exists>p'. move_player inputs p = Inr p' \<and> player_inv i p'"
proof -
  let ?has = "\<lambda>b. has_button (in_buttons (input_for inputs (ps_id p))) b"
  let ?ax = "axis (?has Btn_left) (?has Btn_right)"
  let ?ay = "axis (?has Btn_up) (?has Btn_down)"
  have vx: "sint (?ax * kPlayerSpeed) \<in> {- 4096, 0, 4096}"
    and vy: "sint (?ay * kPlayerSpeed) \<in> {- 4096, 0, 4096}"
    by (rule sint_axis_speed)+
  have mx: "checked_add_i32 (ps_x p) (?ax * kPlayerSpeed) = Inr (ps_x p + ?ax * kPlayerSpeed)"
    and my: "checked_add_i32 (ps_y p) (?ay * kPlayerSpeed) = Inr (ps_y p + ?ay * kPlayerSpeed)"
    using vx vy assms by (auto intro!: checked_add_i32_in_range simp: player_inv_def)
  from move_player_fields [OF mx my] obtain p' where p': "move_player inputs p = Inr p'"
    "ps_id p' = ps_id p"
    "ps_x p' = clamp_position (ps_x p + ?ax * kPlayerSpeed) kPlayerRadius (kArenaWidth - kPlayerRadius)"
    "ps_y p' = clamp_position (ps_y p + ?ay * kPlayerSpeed) kPlayerRadius (kArenaHeight - kPlayerRadius)"
    "ps_hp p' = ps_hp p"
    "ps_attack_cooldown p' = (if ps_attack_cooldown p > 0 then ps_attack_cooldown p - 1
                              else ps_attack_cooldown p)"
    "(ps_facing_x p', ps_facing_y p') =
       (if ?ax \<noteq> 0 then (ucast ?ax, 0) else if ?ay \<noteq> 0 then (0, ucast ?ay)
        else (ps_facing_x p, ps_facing_y p))"
    by blast
  have "unit_facing (ps_facing_x p) (ps_facing_y p)" using assms by (simp add: player_inv_def)
  from unit_facing_step [OF this p'(7)] have "unit_facing (ps_facing_x p') (ps_facing_y p')" .
  moreover have "ps_attack_cooldown p' \<le> 15"
    unfolding p'(6) using assms by (intro cooldown_step) (simp add: player_inv_def)
  moreover note clamp_position_range [of kPlayerRadius "kArenaWidth - kPlayerRadius"]
    clamp_position_range [of kPlayerRadius "kArenaHeight - kPlayerRadius"]
  ultimately have "player_inv i p'"
    using assms by (simp add: player_inv_def p'(2-5))
  with p'(1) show ?thesis by blast
qed

lemma move_players_inv:
  assumes "world_inv w"
  shows "\<exists>p q. move_players inputs (ws_players w) = Inr [p, q] \<and> player_inv PA p \<and> player_inv PB q"
proof -
  obtain p0 q0 where ps: "ws_players w = [p0, q0]"
    using assms by (auto simp: world_inv_def world_shape_def length_Suc_conv numeral_2_eq_2)
  with assms have "player_inv PA p0" "player_inv PB q0" by (auto simp: world_inv_def)
  from this [THEN move_player_inv, of inputs] show ?thesis by (auto simp: ps)
qed

lemma world_inv_players:
  assumes "world_inv w" and "player_inv PA p" and "player_inv PB q"
  shows "world_inv (w\<lparr>ws_players := [p, q]\<rparr>)"
  using assms by (auto simp: world_inv_def world_shape_def)

subsection \<open>Writing one player or one projectile back\<close>

definition slot_player :: "nat \<Rightarrow> PlayerId" where
  "slot_player i = (if i = 0 then PA else PB)"

lemma player_index_cases [simp]: "player_index PA = 0" "player_index PB = 1"
  by (simp_all add: player_index_def)

lemma less_two_cases: "(i::nat) < 2 \<longleftrightarrow> i = 0 \<or> i = 1"
  by auto

lemma world_inv_nth_player:
  "world_inv w \<Longrightarrow> i < 2 \<Longrightarrow> player_inv (slot_player i) (ws_players w ! i)"
  by (auto simp: world_inv_def slot_player_def less_two_cases)

lemma world_inv_update_player:
  assumes "world_inv w" and "i < 2" and "player_inv (slot_player i) p"
  shows "world_inv (w\<lparr>ws_players := (ws_players w)[i := p]\<rparr>)"
  using assms by (auto simp: world_inv_def world_shape_def slot_player_def less_two_cases)

lemma projectile_inv_mono: "projectile_inv n p \<Longrightarrow> n \<le> m \<Longrightarrow> projectile_inv m p"
  by (auto simp: projectile_inv_def)

lemma live_ids_update:
  assumes "live_ids_distinct ps"
    and "\<And>j. pj_active q \<Longrightarrow> j < length ps \<Longrightarrow> j \<noteq> k \<Longrightarrow> pj_active (ps ! j)
          \<Longrightarrow> pj_stable_id (ps ! j) \<noteq> pj_stable_id q"
  shows "live_ids_distinct (ps[k := q])"
proof -
  have "i = j" if "i < length ps" "j < length ps" "pj_active (ps[k := q] ! i)"
    "pj_active (ps[k := q] ! j)" "pj_stable_id (ps[k := q] ! i) = pj_stable_id (ps[k := q] ! j)"
    for i j
    using that assms(1) assms(2) [of i] assms(2) [of j]
    unfolding live_ids_distinct_def by (cases "i = k"; cases "j = k") auto
  then show ?thesis by (simp add: live_ids_distinct_def)
qed

lemma world_inv_update_projectile:
  assumes w: "world_inv w" and k: "k < 64"
    and q: "projectile_inv (ws_next_projectile_id w) q"
    and same: "pj_active q \<Longrightarrow> pj_active (ws_projectiles w ! k)
        \<and> pj_stable_id q = pj_stable_id (ws_projectiles w ! k)"
  shows "world_inv (w\<lparr>ws_projectiles := (ws_projectiles w)[k := q]\<rparr>)"
proof -
  have "live_ids_distinct ((ws_projectiles w)[k := q])"
  proof (rule live_ids_update)
    show "live_ids_distinct (ws_projectiles w)" using w by (simp add: world_inv_def)
  next
    fix j assume "pj_active q" "j < length (ws_projectiles w)" "j \<noteq> k" "pj_active (ws_projectiles w ! j)"
    with same k w show "pj_stable_id (ws_projectiles w ! j) \<noteq> pj_stable_id q"
      by (auto simp: world_inv_def world_shape_def live_ids_distinct_def)
  qed
  with w q show ?thesis
    by (auto simp: world_inv_def world_shape_def dest: set_update_subset_insert [THEN subsetD])
qed

lemma world_inv_nth_projectile:
  "world_inv w \<Longrightarrow> k < 64 \<Longrightarrow> projectile_inv (ws_next_projectile_id w) (ws_projectiles w ! k)"
  by (simp add: world_inv_def world_shape_def)

subsection \<open>Spawning\<close>

lemma find_inactive_Some:
  "find_inactive ps = Some k \<Longrightarrow>
     k < length ps \<and> \<not> pj_active (ps ! k) \<and> (\<forall>j < k. pj_active (ps ! j))"
  by (induction ps arbitrary: k) (auto split: if_splits simp: less_Suc_eq_0_disj)

lemma find_inactive_None: "find_inactive ps = None \<longleftrightarrow> (\<forall>p \<in> set ps. pj_active p)"
  by (induction ps) auto

lemma sint_facing_speed:
  assumes "unit_facing fx fy"
  shows "sint (scast fx * kProjectileSpeed) \<in> {- 8192, 0, 8192}
       \<and> sint (scast fy * kProjectileSpeed) \<in> {- 8192, 0, 8192}"
proof -
  have "sint (scast (- 1 :: i8) * kProjectileSpeed) = - 8192"
    "sint (scast (1 :: i8) * kProjectileSpeed) = 8192"
    by (simp_all add: world_constants)
  with assms show ?thesis unfolding unit_facing_def by auto
qed

lemma spawned_projectile_inv:
  assumes "player_inv i p" and "n \<noteq> 0xFFFFFFFF"
  shows "projectile_inv (n + 1) (spawned_projectile n p)"
proof -
  have "n < n + 1"
  proof -
    have "unat n \<noteq> 4294967295"
      using assms(2) by (simp add: word_unat_eq_iff)
    moreover have "unat n < 4294967296" by (rule unat_less_len32)
    ultimately have "unat n < 4294967295" by linarith
    then show ?thesis by (simp add: word_less_nat_alt unat_plus_if')
  qed
  moreover have "unit_facing (ps_facing_x p) (ps_facing_y p)" using assms by (simp add: player_inv_def)
  moreover note sint_facing_speed [OF this]
    clamp_position_range [of kProjectileRadius "kArenaWidth - kProjectileRadius"
      "ps_x p + scast (ps_facing_x p) * spawn_offset"]
    clamp_position_range [of kProjectileRadius "kArenaHeight - kProjectileRadius"
      "ps_y p + scast (ps_facing_y p) * spawn_offset"]
  ultimately show ?thesis
    by (simp add: projectile_inv_def spawned_projectile_def kProjectileLifetimeTicks_def)
qed

lemma spawn_projectile_cases:
  assumes w: "world_inv w" and i: "i < 2" and room: "unat (ws_next_projectile_id w) < 4294967295"
  shows "\<exists>w'. spawn_projectile w i = Inr w' \<and> world_inv w' \<and> ws_frame w' = ws_frame w
      \<and> unat (ws_next_projectile_id w') \<le> unat (ws_next_projectile_id w) + 1"
proof (cases "find_inactive (ws_projectiles w)")
  case None
  with w show ?thesis by (simp add: spawn_projectile_def)
next
  case (Some k)
  let ?n = "ws_next_projectile_id w"
  let ?p = "ws_players w ! i"
  let ?q = "spawned_projectile ?n ?p"
  have nmax: "?n \<noteq> 0xFFFFFFFF" using room by auto
  have n1: "unat (?n + 1) = unat ?n + 1" using room by (simp add: unat_plus_if')
  then have less: "?n < ?n + 1" by (simp add: word_less_nat_alt)
  have k: "k < length (ws_projectiles w)" using find_inactive_Some [OF Some] by blast
  have q: "projectile_inv (?n + 1) ?q"
    by (rule spawned_projectile_inv [OF world_inv_nth_player [OF w i] nmax])
  have all: "\<forall>p \<in> set (ws_projectiles w). projectile_inv (?n + 1) p"
    using w less by (auto simp: world_inv_def intro: projectile_inv_mono)
  have dist: "live_ids_distinct ((ws_projectiles w)[k := ?q])"
  proof (rule live_ids_update)
    show "live_ids_distinct (ws_projectiles w)" using w by (simp add: world_inv_def)
  next
    fix j assume "j < length (ws_projectiles w)" "pj_active (ws_projectiles w ! j)"
    then have "pj_stable_id (ws_projectiles w ! j) < ?n"
      using w by (auto simp: world_inv_def projectile_inv_def)
    then show "pj_stable_id (ws_projectiles w ! j) \<noteq> pj_stable_id ?q"
      by (simp add: spawned_projectile_def)
  qed
  define w1 where "w1 = w\<lparr>ws_projectiles := (ws_projectiles w)[k := ?q],
      ws_next_projectile_id := ?n + 1\<rparr>"
  have w1: "world_inv w1"
    using w q all dist by (auto simp: w1_def world_inv_def world_shape_def
        dest: set_update_subset_insert [THEN subsetD])
  have "player_inv (slot_player i) (?p\<lparr>ps_attack_cooldown := kAttackCooldownTicks\<rparr>)"
    using world_inv_nth_player [OF w i] by (simp add: player_inv_def kAttackCooldownTicks_def)
  from world_inv_update_player [OF w1 i this]
  have "world_inv (w1\<lparr>ws_players := (ws_players w1)[i := ?p\<lparr>ps_attack_cooldown := kAttackCooldownTicks\<rparr>]\<rparr>)" .
  then show ?thesis
    using Some nmax n1 by (simp add: spawn_projectile_def Let_def w1_def)
qed

lemma attack_players_inv:
  "world_inv w \<Longrightarrow> set slots \<subseteq> {..<2}
    \<Longrightarrow> unat (ws_next_projectile_id w) + length slots \<le> 4294967295
    \<Longrightarrow> \<exists>w'. attack_players inputs slots w = Inr w' \<and> world_inv w' \<and> ws_frame w' = ws_frame w
        \<and> unat (ws_next_projectile_id w') \<le> unat (ws_next_projectile_id w) + length slots"
proof (induction slots arbitrary: w)
  case Nil
  then show ?case by simp
next
  case (Cons i slots)
  let ?fires = "has_button (in_buttons (input_for inputs (ps_id (ws_players w ! i)))) Btn_attack
      \<and> ps_attack_cooldown (ws_players w ! i) = 0"
  have "\<exists>w1. (if ?fires then spawn_projectile w i else Inr w) = Inr w1 \<and> world_inv w1
      \<and> ws_frame w1 = ws_frame w
      \<and> unat (ws_next_projectile_id w1) \<le> unat (ws_next_projectile_id w) + 1"
    using spawn_projectile_cases [of w i] Cons.prems by (cases ?fires) auto
  then obtain w1 where w1: "(if ?fires then spawn_projectile w i else Inr w) = Inr w1"
    "world_inv w1" "ws_frame w1 = ws_frame w"
    "unat (ws_next_projectile_id w1) \<le> unat (ws_next_projectile_id w) + 1" by blast
  have step: "attack_players inputs (i # slots) w = attack_players inputs slots w1"
  proof (cases ?fires)
    case True
    with w1(1) show ?thesis by (simp add: Let_def)
  next
    case False
    with w1(1) have "w1 = w" by auto
    with False show ?thesis by (auto simp: Let_def)
  qed
  from Cons.IH [OF w1(2)] Cons.prems w1 obtain w' where
    "attack_players inputs slots w1 = Inr w'" "world_inv w'" "ws_frame w' = ws_frame w1"
    "unat (ws_next_projectile_id w') \<le> unat (ws_next_projectile_id w1) + length slots" by auto
  with step w1 show ?case by (auto intro!: exI [of _ w'])
qed

subsection \<open>Moving the projectiles\<close>

lemma move_projectile_cases:
  assumes p: "projectile_inv n p" and active: "pj_active p"
  shows "\<exists>p'. move_projectile p = Inr p' \<and> projectile_inv n p'
      \<and> pj_stable_id p' = pj_stable_id p \<and> pj_owner p' = pj_owner p"
proof -
  have vx: "sint (pj_velocity_x p) \<in> {- 8192, 0, 8192}" "sint (pj_velocity_y p) \<in> {- 8192, 0, 8192}"
    and x: "0 \<le> sint (pj_x p)" "sint (pj_x p) \<le> 1048576" "0 \<le> sint (pj_y p)" "sint (pj_y p) \<le> 589824"
    using p active by (simp_all add: projectile_inv_def)
  have mx: "checked_add_i32 (pj_x p) (pj_velocity_x p) = Inr (pj_x p + pj_velocity_x p)"
    and my: "checked_add_i32 (pj_y p) (pj_velocity_y p) = Inr (pj_y p + pj_velocity_y p)"
    using vx x by (auto intro!: checked_add_i32_in_range)
  have ttl: "pj_ttl p - 1 \<le> 120" if "0 < pj_ttl p"
    using that p active by (auto simp: projectile_inv_def word_le_nat_alt word_less_nat_alt unat_sub_if')
  from p active ttl show ?thesis
    by (auto simp: move_projectile_def mx my Let_def projectile_inv_def word_sless_alt word_gt_0)
qed

lemma hit_player_inv:
  assumes w: "world_inv w" and ne: "owner_id \<noteq> target_id"
  shows "world_inv (hit_player variant owner_id target_id w)
      \<and> ws_frame (hit_player variant owner_id target_id w) = ws_frame w
      \<and> ws_next_projectile_id (hit_player variant owner_id target_id w) = ws_next_projectile_id w"
proof -
  let ?t = "player_index target_id" and ?k = "player_index owner_id"
  have tk: "?t < 2" "?k < 2" "?t \<noteq> ?k" using ne by (cases owner_id; cases target_id; simp)+
  let ?p = "ws_players w ! ?t"
  let ?p' = "?p\<lparr>ps_hp := ps_hp ?p - projectile_damage variant\<rparr>"
  note pinv = world_inv_nth_player [OF w tk(1)]
  have dmg: "sint (projectile_damage variant) = 25 \<or> sint (projectile_damage variant) = 26"
    by (simp add: projectile_damage_def kProjectileDamage_def)
  have hp: "sint (ps_hp ?p') = sint (ps_hp ?p) - sint (projectile_damage variant)"
  proof -
    have "ps_hp ?p' = word_of_int (sint (ps_hp ?p) - sint (projectile_damage variant))" by simp
    also have "sint \<dots> = sint (ps_hp ?p) - sint (projectile_damage variant)"
      using pinv dmg by (intro sint_word_of_int_id) (auto simp: player_inv_def)
    finally show ?thesis .
  qed
  show ?thesis
  proof (cases "ps_hp ?p' \<le>s 0")
    case False
    then have "player_inv (slot_player ?t) ?p'"
      using pinv hp dmg by (auto simp: player_inv_def word_sle_eq)
    with False show ?thesis
      using world_inv_update_player [OF w tk(1)] by (simp add: hit_player_def Let_def)
  next
    case True
    let ?w1 = "w\<lparr>ws_players := (ws_players w)[?k := (ws_players w ! ?k)
        \<lparr>ps_score := ps_score (ws_players w ! ?k) + 1\<rparr>]\<rparr>"
    have w1: "world_inv ?w1"
      using world_inv_nth_player [OF w tk(2)] by (intro world_inv_update_player [OF w tk(2)])
        (simp add: player_inv_def)
    have "player_inv (slot_player ?t) (respawn ?p')"
      using pinv by (auto simp: player_inv_def respawn_def unit_facing_def)
    from world_inv_update_player [OF w1 tk(1) this] True show ?thesis
      using tk w by (simp add: hit_player_def Let_def list_update_swap world_inv_def world_shape_def)
  qed
qed

lemma step_projectile_inv:
  assumes w: "world_inv w" and k: "k < 64"
  shows "\<exists>w'. step_projectile variant k w = Inr w' \<and> world_inv w' \<and> ws_frame w' = ws_frame w
      \<and> ws_next_projectile_id w' = ws_next_projectile_id w"
proof (cases "pj_active (ws_projectiles w ! k)")
  case False
  with w show ?thesis by (simp add: step_projectile_def)
next
  case True
  from move_projectile_cases [OF world_inv_nth_projectile [OF w k] True] obtain p where
    p: "move_projectile (ws_projectiles w ! k) = Inr p" "projectile_inv (ws_next_projectile_id w) p"
      "pj_stable_id p = pj_stable_id (ws_projectiles w ! k)" by blast
  let ?w1 = "w\<lparr>ws_projectiles := (ws_projectiles w)[k := p]\<rparr>"
  have w1: "world_inv ?w1"
    using world_inv_update_projectile [OF w k p(2)] True p(3) by simp
  let ?target = "if pj_owner p = PA then PB else PA"
  show ?thesis
  proof (cases "pj_active p \<and> overlaps p (ws_players ?w1 ! player_index ?target)")
    case False
    with True p(1) w1 show ?thesis by (auto simp: step_projectile_def Let_def)
  next
    case hit: True
    let ?w2 = "?w1\<lparr>ws_projectiles := (ws_projectiles ?w1)[k := p\<lparr>pj_active := False\<rparr>]\<rparr>"
    have w2: "world_inv ?w2"
      using p(2) by (intro world_inv_update_projectile [OF w1 k]) (simp_all add: projectile_inv_def)
    have "pj_owner p \<noteq> ?target" by (cases "pj_owner p") simp_all
    from hit_player_inv [OF w2 this, of variant] hit True p(1) show ?thesis
      by (simp add: step_projectile_def Let_def)
  qed
qed

lemma step_projectiles_inv:
  "world_inv w \<Longrightarrow> set slots \<subseteq> {..<64}
    \<Longrightarrow> \<exists>w'. step_projectiles variant slots w = Inr w' \<and> world_inv w' \<and> ws_frame w' = ws_frame w
        \<and> ws_next_projectile_id w' = ws_next_projectile_id w"
proof (induction slots arbitrary: w)
  case Nil
  then show ?case by simp
next
  case (Cons k slots)
  from step_projectile_inv [of w k variant] Cons.prems obtain w1 where
    "step_projectile variant k w = Inr w1" "world_inv w1" "ws_frame w1 = ws_frame w"
    "ws_next_projectile_id w1 = ws_next_projectile_id w" by auto
  with Cons.IH [of w1] Cons.prems show ?case by auto
qed

subsection \<open>The order of the projectiles\<close>

lemma set_insert_slot [simp]: "set (insert_slot w i js) = insert i (set js)"
  by (induction js) auto

lemma distinct_insert_slot: "i \<notin> set js \<Longrightarrow> distinct (insert_slot w i js) = distinct js"
  by (induction js) auto

lemma slot_less_total: "i \<noteq> j \<Longrightarrow> \<not> slot_less w i j \<Longrightarrow> slot_less w j i"
  by (auto simp: slot_less_def Let_def split: if_splits)

lemma slot_less_trans: "slot_less w i j \<Longrightarrow> slot_less w j k \<Longrightarrow> slot_less w i k"
  by (auto simp: slot_less_def Let_def split: if_splits)

lemma sorted_insert_slot:
  "sorted_wrt (slot_less w) js \<Longrightarrow> i \<notin> set js \<Longrightarrow> sorted_wrt (slot_less w) (insert_slot w i js)"
proof (induction js)
  case Nil
  then show ?case by simp
next
  case (Cons j js)
  show ?case
  proof (cases "slot_less w j i")
    case True
    with Cons show ?thesis by simp
  next
    case False
    with Cons.prems have "slot_less w i j" by (auto intro: slot_less_total)
    with Cons.prems False show ?thesis by (auto intro: slot_less_trans)
  qed
qed

lemma projectile_order_aux:
  "distinct js \<Longrightarrow> set (foldr (insert_slot w) js []) = set js
     \<and> distinct (foldr (insert_slot w) js []) \<and> sorted_wrt (slot_less w) (foldr (insert_slot w) js [])"
  by (induction js) (auto simp: distinct_insert_slot sorted_insert_slot)

text \<open>
  The projectiles are stepped once each, in strictly increasing order of identifier and
  slot, and exactly the live ones: the order in which hits are resolved is a function of the
  world alone.
\<close>

theorem projectile_order_canonical:
  "set (projectile_order w) = {k. k < length (ws_projectiles w) \<and> pj_active (ws_projectiles w ! k)}
   \<and> distinct (projectile_order w) \<and> sorted_wrt (slot_less w) (projectile_order w)"
  using projectile_order_aux [of "filter (\<lambda>index. pj_active (ws_projectiles w ! index))
      [0..<length (ws_projectiles w)]" w]
  by (auto simp: projectile_order_def)

lemma set_projectile_order: "world_inv w \<Longrightarrow> set (projectile_order w) \<subseteq> {..<64}"
  by (auto simp: projectile_order_def world_inv_def world_shape_def projectile_order_aux)

subsection \<open>One frame\<close>

definition pair_for :: "FrameNumber \<Rightarrow> InputPair \<Rightarrow> bool" where
  "pair_for frame inputs \<longleftrightarrow>
     in_frame (pair_a inputs) = frame \<and> in_frame (pair_b inputs) = frame
     \<and> in_player (pair_a inputs) = PA \<and> in_player (pair_b inputs) = PB"

lemma simulate_frame_step:
  assumes "world_inv w" and "pair_for (ws_frame w) inputs"
    and "unat (ws_next_projectile_id w) \<le> 4294967293"
  shows "\<exists>w'. simulate_frame w (ws_frame w) inputs variant = Inr w' \<and> world_inv w'
      \<and> ws_frame w' = next_frame (ws_frame w)
      \<and> unat (ws_next_projectile_id w') \<le> unat (ws_next_projectile_id w) + 2"
proof -
  from move_players_inv [OF assms(1)] obtain p q where
    mv: "move_players inputs (ws_players w) = Inr [p, q]" and "player_inv PA p" "player_inv PB q"
    by blast
  let ?w1 = "w\<lparr>ws_players := [p, q]\<rparr>"
  have w1: "world_inv ?w1"
    using assms(1) \<open>player_inv PA p\<close> \<open>player_inv PB q\<close> by (rule world_inv_players)
  have "set [0..<2] \<subseteq> {..<2::nat}" by auto
  from attack_players_inv [OF w1 this, of inputs] assms(3) obtain w2 where
    at: "attack_players inputs [0..<2] ?w1 = Inr w2" and w2: "world_inv w2"
      and "unat (ws_next_projectile_id w2) \<le> unat (ws_next_projectile_id w) + 2"
    by auto
  moreover from step_projectiles_inv [OF w2 set_projectile_order [OF w2], of variant] obtain w3
    where "step_projectiles variant (projectile_order w2) w2 = Inr w3" "world_inv w3"
      "ws_next_projectile_id w3 = ws_next_projectile_id w2" by blast
  moreover have "length [p, q] = 2" by simp
  ultimately show ?thesis
    using assms(2) mv by (auto simp: simulate_frame_def pair_for_def world_inv_def world_shape_def
        numeral_2_eq_2)
qed

text \<open>
  C39. From a world that satisfies the invariant, a frame whose inputs are tagged with the
  world's frame and the two players always succeeds while two projectile identifiers are left;
  the new world satisfies the invariant, is tagged with the next frame and has used at most two
  identifiers. This covers both simulation variants.
\<close>

theorem simulate_frame_total:
  assumes "world_inv w" and "pair_for (ws_frame w) inputs"
    and "unat (ws_next_projectile_id w) \<le> 4294967293"
  shows "\<exists>w'. simulate_frame w (ws_frame w) inputs variant = Inr w' \<and> world_inv w'
      \<and> ws_frame w' = next_frame (ws_frame w)
      \<and> unat (ws_next_projectile_id w') \<le> unat (ws_next_projectile_id w) + 2"
  using assms by (rule simulate_frame_step)

definition neutral_pair :: "FrameNumber \<Rightarrow> u8 \<Rightarrow> u8 \<Rightarrow> InputPair" where
  "neutral_pair frame buttons_a buttons_b =
     \<lparr>pair_a = \<lparr>in_frame = frame, in_player = PA, in_sequence = frame, in_buttons = buttons_a\<rparr>,
      pair_b = \<lparr>in_frame = frame, in_player = PB, in_sequence = frame, in_buttons = buttons_b\<rparr>\<rparr>"

theorem simulate_frame_total_witness:
  "\<exists>w'. simulate_frame make_initial_world 0 (neutral_pair 0 16 8) variant_damage_bias = Inr w'
      \<and> world_inv w' \<and> ws_frame w' = 1"
proof -
  have p: "pair_for (ws_frame make_initial_world) (neutral_pair 0 16 8)"
    and n: "unat (ws_next_projectile_id make_initial_world) \<le> 4294967293"
    and z: "ws_frame make_initial_world = 0"
    by (simp_all add: pair_for_def neutral_pair_def make_initial_world_def)
  from simulate_frame_total [OF initial_world_inv p n, of variant_damage_bias] show ?thesis
    by (auto simp: z next_frame_def)
qed

subsection \<open>What a frame depends on, and how it fails\<close>

definition same_buttons :: "InputPair \<Rightarrow> InputPair \<Rightarrow> bool" where
  "same_buttons p q \<longleftrightarrow>
     in_frame (pair_a p) = in_frame (pair_a q) \<and> in_frame (pair_b p) = in_frame (pair_b q)
     \<and> in_player (pair_a p) = in_player (pair_a q) \<and> in_player (pair_b p) = in_player (pair_b q)
     \<and> in_buttons (pair_a p) = in_buttons (pair_a q) \<and> in_buttons (pair_b p) = in_buttons (pair_b q)"

lemma same_buttons_input_for:
  "same_buttons p q \<Longrightarrow> in_buttons (input_for p i) = in_buttons (input_for q i)"
  by (simp add: same_buttons_def input_for_def)

lemma move_player_cong: "same_buttons p q \<Longrightarrow> move_player p a = move_player q a"
  unfolding move_player_def Let_def by (simp only: same_buttons_input_for [of p q])

lemma move_players_cong:
  assumes "same_buttons p q"
  shows "move_players p = move_players q"
proof
  fix ps show "move_players p ps = move_players q ps"
    by (induction ps) (simp_all only: move_players.simps move_player_cong [OF assms])
qed

lemma attack_players_cong:
  assumes "same_buttons p q"
  shows "attack_players p = attack_players q"
proof (intro ext)
  fix slots w show "attack_players p slots w = attack_players q slots w"
    by (induction slots arbitrary: w)
      (simp_all add: same_buttons_input_for [OF assms] Let_def split: sum.split)
qed

lemma simulate_frame_cong:
  assumes "same_buttons p q"
  shows "simulate_frame w f p v = simulate_frame w f q v"
  using assms unfolding simulate_frame_def
  by (simp only: move_players_cong [OF assms] attack_players_cong [OF assms] same_buttons_def)

lemma simulate_frame_frame:
  "simulate_frame w f p v = Inr w' \<Longrightarrow> ws_frame w = f \<and> ws_frame w' = next_frame f"
  by (auto simp: simulate_frame_def split: if_splits sum.splits)

lemma simulate_frame_pair:
  "simulate_frame w f p v = Inr w' \<Longrightarrow> pair_for f p"
  by (auto simp: simulate_frame_def pair_for_def split: if_splits)

text \<open>
  A frame whose world or inputs are tagged with another frame, or whose inputs are swapped
  between the players, is refused with \<open>frame_mismatch\<close> and the frame as detail; the sequence
  numbers of the inputs never matter.
\<close>

theorem simulate_frame_guard:
  "(\<not> (ws_frame w = f \<and> pair_for f p)
      \<longrightarrow> simulate_frame w f p v = failure EC_frame_mismatch (ucast f) 0 ''simulate_frame'')
   \<and> simulate_frame w f (p\<lparr>pair_a := pair_a p\<lparr>in_sequence := s\<rparr>, pair_b := pair_b p\<lparr>in_sequence := t\<rparr>\<rparr>) v
      = simulate_frame w f p v"
proof
  show "\<not> (ws_frame w = f \<and> pair_for f p)
      \<longrightarrow> simulate_frame w f p v = failure EC_frame_mismatch (ucast f) 0 ''simulate_frame''"
    by (auto simp: simulate_frame_def pair_for_def)
next
  show "simulate_frame w f (p\<lparr>pair_a := pair_a p\<lparr>in_sequence := s\<rparr>, pair_b := pair_b p\<lparr>in_sequence := t\<rparr>\<rparr>) v
      = simulate_frame w f p v"
    by (rule simulate_frame_cong) (simp add: same_buttons_def)
qed

theorem simulate_frame_guard_witness:
  "simulate_frame make_initial_world 7 (neutral_pair 7 0 0) 0
     = failure EC_frame_mismatch 7 0 ''simulate_frame''"
proof -
  have "\<not> (ws_frame make_initial_world = 7 \<and> pair_for 7 (neutral_pair 7 0 0))"
    by (simp add: make_initial_world_def)
  with simulate_frame_guard [of make_initial_world 7 "neutral_pair 7 0 0" 0] show ?thesis by simp
qed

section \<open>The canonical bytes\<close>

lemma length_serialize_player [simp]: "length (serialize_player p) = 25"
  by (simp add: serialize_player_def)

lemma length_serialize_projectile [simp]: "length (serialize_projectile p) = 24"
  by (simp add: serialize_projectile_def)

lemma player_value_inj [simp]: "player_value i = player_value j \<longleftrightarrow> i = j"
  by (cases i; cases j) simp_all

lemma serialize_player_inj: "serialize_player p = serialize_player q \<Longrightarrow> p = q"
  by (simp add: serialize_player_def)

lemma serialize_projectile_inj: "serialize_projectile p = serialize_projectile q \<Longrightarrow> p = q"
  by (simp add: serialize_projectile_def split: if_splits)

lemma concat_map_inj:
  assumes "\<And>x y. f x = f y \<Longrightarrow> x = y" and "\<And>x. length (f x) = n"
  shows "length xs = length ys \<Longrightarrow> concat (map f xs) = concat (map f ys) \<Longrightarrow> xs = ys"
  by (induction xs ys rule: list_induct2) (auto simp: assms(2) dest: assms(1))

lemma length_concat_serialize:
  "length (concat (map serialize_player ps)) = 25 * length ps"
  "length (concat (map serialize_projectile qs)) = 24 * length qs"
  by (simp_all add: length_concat_const)

text \<open>
  C40. The canonical bytes of a world with two players and 64 projectile slots are 1598 bytes
  long and determine the world: two different worlds never serialize to the same bytes, so that
  a hash is taken of the whole state.
\<close>

theorem serialize_canonical_injective:
  assumes "world_shape v" and "world_shape w"
  shows "length (serialize_canonical w) = 1598
       \<and> (serialize_canonical v = serialize_canonical w \<longleftrightarrow> v = w)"
proof
  from assms(2) show "length (serialize_canonical w) = 1598"
    by (simp add: serialize_canonical_def world_shape_def length_concat_serialize)
next
  show "serialize_canonical v = serialize_canonical w \<longleftrightarrow> v = w"
  proof
    assume "serialize_canonical v = serialize_canonical w"
    with assms have "ws_frame v = ws_frame w"
      and "concat (map serialize_player (ws_players v)) = concat (map serialize_player (ws_players w))"
      and "ws_next_projectile_id v = ws_next_projectile_id w"
      and "concat (map serialize_projectile (ws_projectiles v))
           = concat (map serialize_projectile (ws_projectiles w))"
      by (simp_all add: serialize_canonical_def world_shape_def length_concat_serialize)
    moreover from this(2) assms have "ws_players v = ws_players w"
      by (auto simp: world_shape_def intro: concat_map_inj [where n = 25] serialize_player_inj)
    moreover from calculation(4) assms have "ws_projectiles v = ws_projectiles w"
      by (auto simp: world_shape_def intro: concat_map_inj [where n = 24] serialize_projectile_inj)
    ultimately show "v = w" by simp
  qed simp
qed

theorem serialize_canonical_injective_witness:
  "serialize_canonical make_initial_world
     \<noteq> serialize_canonical (make_initial_world\<lparr>ws_next_projectile_id := 9\<rparr>)"
proof -
  have "world_shape make_initial_world"
    and "world_shape (make_initial_world\<lparr>ws_next_projectile_id := 9\<rparr>)"
    using initial_world_inv by (simp_all add: world_inv_def world_shape_def)
  from serialize_canonical_injective [OF this] show ?thesis
    by (simp add: make_initial_world_def)
qed

lemma world_inv_shape: "world_inv w \<Longrightarrow> world_shape w"
  by (simp add: world_inv_def)

end
