(* ===== verification/Protocol.thy ===== *)
theory Protocol
  imports Crc32 Simulation
begin

text \<open>
  The wire protocol: \<open>protocol/packet.hpp\<close> and \<open>protocol/codec.cpp\<close>. A packet type is the
  byte behind the enumeration, because the code checks it on both sides; the constants name
  its values. \<open>decode_packet\<close> is written in the stages of the code: the checks on the whole
  datagram, the header, the input records, the hash records and the hello record.

  The main lemmas show that the decoder is exactly the inverse of the encoder on packets whose
  inputs use the five defined buttons, which is more than a round trip: no datagram is
  accepted that the encoder would not have produced.
\<close>

section \<open>Packets\<close>

definition kPacketMagic :: u32 where "kPacketMagic = 0x4B424C52"
definition kMaxPacketBytes :: nat where "kMaxPacketBytes = 1200"
definition kMaxRedundantInputs :: nat where "kMaxRedundantInputs = 32"
definition kMaxConfirmedHashes :: nat where "kMaxConfirmedHashes = 32"
definition kProtocolVersion :: u32 where "kProtocolVersion = 1"

type_synonym PacketType = u8

definition pt_hello :: PacketType where "pt_hello = 1"
definition pt_input :: PacketType where "pt_input = 2"
definition pt_state_hash :: PacketType where "pt_state_hash = 3"
definition pt_goodbye :: PacketType where "pt_goodbye = 4"

record ConfirmedHash =
  ch_frame :: FrameNumber
  ch_hash :: StateHash

record HelloInfo =
  hi_simulation_version :: u32
  hi_scenario_config_digest :: u64
  hi_target_frame :: u32

record Packet =
  pk_protocol_version :: u16
  pk_type :: PacketType
  pk_sender :: PlayerId
  pk_sequence :: u32
  pk_ack :: u32
  pk_scenario_id :: u64
  pk_confirmed_frame :: FrameNumber
  pk_inputs :: "InputFrame list"
  pk_confirmed_hashes :: "ConfirmedHash list"
  pk_hello :: "HelloInfo option"

definition header_size :: nat where "header_size = 32"
definition checksum_size :: nat where "checksum_size = 4"
definition input_record_size :: nat where "input_record_size = 10"
definition hash_record_size :: nat where "hash_record_size = 12"
definition hello_record_size :: nat where "hello_record_size = 16"

definition valid_packet_type :: "PacketType \<Rightarrow> bool" where
  "valid_packet_type t \<longleftrightarrow> t = pt_hello \<or> t = pt_input \<or> t = pt_state_hash \<or> t = pt_goodbye"

text \<open>The cast of a validated byte to the enumeration.\<close>

definition player_of_value :: "u8 \<Rightarrow> PlayerId" where
  "player_of_value v = (if v = 0 then PA else PB)"

section \<open>Encoding\<close>

fun find_foreign_input :: "PlayerId \<Rightarrow> InputFrame list \<Rightarrow> PlayerId option" where
  "find_foreign_input sender [] = None"
| "find_foreign_input sender (x # xs) =
     (if in_player x \<noteq> sender then Some (in_player x) else find_foreign_input sender xs)"

fun find_unordered_hash :: "ConfirmedHash list \<Rightarrow> FrameNumber option" where
  "find_unordered_hash (h # g # hs) =
     (if \<not> frame_before (ch_frame h) (ch_frame g) then Some (ch_frame g)
      else find_unordered_hash (g # hs))"
| "find_unordered_hash _ = None"

definition write_input :: "InputFrame \<Rightarrow> ByteWriter \<Rightarrow> ByteWriter" where
  "write_input x w =
     append_little_endian (in_sequence x)
       (append_little_endian (in_buttons x)
         (append_little_endian (player_value (in_player x))
           (append_little_endian (in_frame x) w)))"

definition write_hash :: "ConfirmedHash \<Rightarrow> ByteWriter \<Rightarrow> ByteWriter" where
  "write_hash h w = append_little_endian (ch_hash h) (append_little_endian (ch_frame h) w)"

definition write_hello :: "HelloInfo \<Rightarrow> ByteWriter \<Rightarrow> ByteWriter" where
  "write_hello hello w =
     append_little_endian (hi_target_frame hello)
       (append_little_endian (hi_scenario_config_digest hello)
         (append_little_endian (hi_simulation_version hello) w))"

definition write_header :: "Packet \<Rightarrow> ByteWriter \<Rightarrow> ByteWriter" where
  "write_header p w =
     append_little_endian (0 :: u16)
       (append_little_endian (of_nat (length (pk_confirmed_hashes p)) :: u8)
         (append_little_endian (of_nat (length (pk_inputs p)) :: u8)
           (append_little_endian (pk_confirmed_frame p)
             (append_little_endian (pk_scenario_id p)
               (append_little_endian (pk_ack p)
                 (append_little_endian (pk_sequence p)
                   (append_little_endian (player_value (pk_sender p))
                     (append_little_endian (pk_type p)
                       (append_little_endian (pk_protocol_version p)
                         (append_little_endian kPacketMagic w))))))))))"

definition encode_packet :: "Packet \<Rightarrow> byte list Result" where
  "encode_packet p =
     (if ucast (pk_protocol_version p) \<noteq> kProtocolVersion
      then failure EC_unsupported_version (ucast (pk_protocol_version p)) 4 ''protocol_version''
      else if \<not> valid_packet_type (pk_type p)
      then failure EC_unknown_packet_type (ucast (pk_type p)) 6 ''packet_type''
      else if length (pk_inputs p) > kMaxRedundantInputs
      then failure EC_capacity_exceeded (of_nat (length (pk_inputs p))) 28 ''input_count''
      else if length (pk_confirmed_hashes p) > kMaxConfirmedHashes
      then failure EC_capacity_exceeded (of_nat (length (pk_confirmed_hashes p))) 29 ''hash_count''
      else if (pk_type p = pt_hello) \<noteq> (pk_hello p \<noteq> None)
        \<or> (pk_type p = pt_hello \<and> (pk_inputs p \<noteq> [] \<or> pk_confirmed_hashes p \<noteq> []))
      then failure EC_invalid_argument (ucast (pk_type p)) 0 ''hello_payload''
      else case find_foreign_input (pk_sender p) (pk_inputs p) of
        Some player \<Rightarrow> failure EC_invalid_argument (ucast (player_value player)) 0 ''input_sender''
      | None \<Rightarrow>
          (case find_unordered_hash (pk_confirmed_hashes p) of
             Some frame \<Rightarrow> failure EC_invalid_argument (ucast frame) 0 ''hash_order''
           | None \<Rightarrow>
               (let w = write_header p [];
                    payload_start = length w;
                    w = fold write_input (pk_inputs p) w;
                    w = fold write_hash (pk_confirmed_hashes p) w;
                    w = (case pk_hello p of Some hello \<Rightarrow> write_hello hello w | None \<Rightarrow> w);
                    payload_size = length w - payload_start
                in if payload_size > 65535
                   then failure EC_invalid_length (of_nat payload_size) 30 ''payload_length''
                   else
                     (let w = patch_u16 30 (of_nat payload_size) w;
                          w = append_little_endian (crc32 w) w
                      in if length w > kMaxPacketBytes
                         then failure EC_invalid_length (of_nat (length w)) 0 ''packet_size''
                         else Inr w))))"

section \<open>Decoding\<close>

definition read_checksum :: "byte list \<Rightarrow> u32" where
  "read_checksum bytes = le_word (take checksum_size (drop (length bytes - checksum_size) bytes))"

definition decode_error :: "ErrorCode \<Rightarrow> nat \<Rightarrow> string \<Rightarrow> u64 \<Rightarrow> 'a Result" where
  "decode_error code offset context detail = failure code detail offset context"

text \<open>\<open>r.ok() ? r.value() : 0U\<close>; where the code checked \<open>r.ok()\<close> before, this is the value.\<close>

definition value_or_0 :: "'a::zero Result \<Rightarrow> 'a" where
  "value_or_0 r = (case r of Inr v \<Rightarrow> v | Inl _ \<Rightarrow> 0)"

fun decode_inputs :: "nat \<Rightarrow> u8 \<Rightarrow> ByteReader \<Rightarrow> InputFrame list Result \<times> ByteReader" where
  "decode_inputs 0 sender_byte r = (Inr [], r)"
| "decode_inputs (Suc n) sender_byte r =
     (let (frame :: u32 Result, r) = read_little_endian ''input_frame'' r;
          (player :: u8 Result, r) = read_little_endian ''input_player'' r;
          (buttons :: u8 Result, r) = read_little_endian ''buttons'' r;
          (input_sequence :: u32 Result, r) = read_little_endian ''input_sequence'' r
      in if \<not> ok frame \<or> \<not> ok player \<or> \<not> ok buttons \<or> \<not> ok input_sequence
         then (decode_error EC_truncated_data (br_offset r) ''input_record'' 0, r)
         else if value_or_0 player \<noteq> sender_byte \<or> value_or_0 buttons AND 0xE0 \<noteq> 0
         then (decode_error EC_invalid_argument (br_offset r - input_record_size) ''input_record'' 0, r)
         else case decode_inputs n sender_byte r of
             (Inl e, r) \<Rightarrow> (Inl e, r)
           | (Inr xs, r) \<Rightarrow>
               (Inr (\<lparr>in_frame = value_or_0 frame, in_player = player_of_value (value_or_0 player),
                      in_sequence = value_or_0 input_sequence, in_buttons = value_or_0 buttons\<rparr> # xs), r))"

text \<open>The previous hash's frame is absent for the first record.\<close>

fun decode_hashes :: "nat \<Rightarrow> FrameNumber option \<Rightarrow> ByteReader \<Rightarrow> ConfirmedHash list Result \<times> ByteReader" where
  "decode_hashes 0 previous r = (Inr [], r)"
| "decode_hashes (Suc n) previous r =
     (let (hash_frame :: u32 Result, r) = read_little_endian ''hash_frame'' r;
          (hash :: u64 Result, r) = read_little_endian ''hash'' r
      in if \<not> ok hash_frame \<or> \<not> ok hash
         then (decode_error EC_truncated_data (br_offset r) ''confirmed_hash'' 0, r)
         else
           (let frame = value_or_0 hash_frame
            in if previous \<noteq> None \<and> \<not> frame_before (the previous) frame
               then (decode_error EC_invalid_argument (br_offset r - hash_record_size) ''hash_order''
                       (ucast frame), r)
               else case decode_hashes n (Some frame) r of
                   (Inl e, r) \<Rightarrow> (Inl e, r)
                 | (Inr hs, r) \<Rightarrow> (Inr (\<lparr>ch_frame = frame, ch_hash = value_or_0 hash\<rparr> # hs), r)))"

definition decode_hello :: "u8 \<Rightarrow> u8 \<Rightarrow> ByteReader \<Rightarrow> HelloInfo Result \<times> ByteReader" where
  "decode_hello count hash_count r =
     (if count \<noteq> 0 \<or> hash_count \<noteq> 0
      then (decode_error EC_invalid_argument header_size ''hello_payload'' 0, r)
      else
        (let (simulation_version :: u32 Result, r) = read_little_endian ''simulation_version'' r;
             (digest :: u64 Result, r) = read_little_endian ''scenario_config_digest'' r;
             (target :: u32 Result, r) = read_little_endian ''target_frame'' r
         in if \<not> ok simulation_version \<or> \<not> ok digest \<or> \<not> ok target
            then (decode_error EC_truncated_data (br_offset r) ''hello_payload'' 0, r)
            else (Inr \<lparr>hi_simulation_version = value_or_0 simulation_version,
                      hi_scenario_config_digest = value_or_0 digest,
                      hi_target_frame = value_or_0 target\<rparr>, r)))"

text \<open>The records after the header; \<open>p\<close> is the packet with its header fields filled in.\<close>

definition decode_payload :: "Packet \<Rightarrow> u8 \<Rightarrow> u8 \<Rightarrow> u8 \<Rightarrow> ByteReader \<Rightarrow> Packet Result" where
  "decode_payload p sender_byte count hash_count r =
     (case decode_inputs (unat count) sender_byte r of
        (Inl e, r) \<Rightarrow> Inl e
      | (Inr inputs, r) \<Rightarrow>
          (case decode_hashes (unat hash_count) None r of
             (Inl e, r) \<Rightarrow> Inl e
           | (Inr hashes, r) \<Rightarrow>
               (let q = p\<lparr>pk_inputs := inputs, pk_confirmed_hashes := hashes\<rparr>;
                    (hello, r) = (if pk_type p = pt_hello
                                  then (case decode_hello count hash_count r of
                                          (Inl e, r) \<Rightarrow> (Inl e, r)
                                        | (Inr h, r) \<Rightarrow> (Inr (Some h), r))
                                  else (Inr None, r))
                in case hello of
                     Inl e \<Rightarrow> Inl e
                   | Inr h \<Rightarrow>
                       if remaining r \<noteq> 0
                       then decode_error EC_invalid_length (br_offset r) ''trailing_payload''
                              (of_nat (remaining r))
                       else Inr (q\<lparr>pk_hello := h\<rparr>))))"

definition decode_fields :: "nat \<Rightarrow> u16 \<Rightarrow> PacketType \<Rightarrow> u8 \<Rightarrow> ByteReader \<Rightarrow> Packet Result" where
  "decode_fields datagram_size version t sender_byte r =
     (let (sequence :: u32 Result, r) = read_little_endian ''sequence'' r;
          (ack :: u32 Result, r) = read_little_endian ''ack'' r;
          (scenario :: u64 Result, r) = read_little_endian ''scenario'' r;
          (confirmed :: u32 Result, r) = read_little_endian ''confirmed_frame'' r;
          (count :: u8 Result, r) = read_little_endian ''input_count'' r;
          (hash_count :: u8 Result, r) = read_little_endian ''hash_count'' r;
          (payload_length :: u16 Result, r) = read_little_endian ''payload_length'' r
      in if \<not> ok sequence \<or> \<not> ok ack \<or> \<not> ok scenario \<or> \<not> ok confirmed
            \<or> \<not> ok count \<or> \<not> ok hash_count \<or> \<not> ok payload_length
         then decode_error EC_truncated_data (br_offset r) ''header'' 0
         else if unat (value_or_0 count) > kMaxRedundantInputs
         then decode_error EC_capacity_exceeded 28 ''input_count'' (ucast (value_or_0 count))
         else if unat (value_or_0 hash_count) > kMaxConfirmedHashes
         then decode_error EC_capacity_exceeded 29 ''hash_count'' (ucast (value_or_0 hash_count))
         else
           (let expected_payload =
                  unat (value_or_0 count) * input_record_size
                  + unat (value_or_0 hash_count) * hash_record_size
                  + (if t = pt_hello then hello_record_size else 0)
            in if unat (value_or_0 payload_length) \<noteq> expected_payload
                  \<or> header_size + expected_payload + checksum_size \<noteq> datagram_size
               then decode_error EC_invalid_length 30 ''payload_length'' (ucast (value_or_0 payload_length))
               else decode_payload
                      \<lparr>pk_protocol_version = version, pk_type = t,
                       pk_sender = player_of_value sender_byte, pk_sequence = value_or_0 sequence,
                       pk_ack = value_or_0 ack, pk_scenario_id = value_or_0 scenario,
                       pk_confirmed_frame = value_or_0 confirmed, pk_inputs = [],
                       pk_confirmed_hashes = [], pk_hello = None\<rparr>
                      sender_byte (value_or_0 count) (value_or_0 hash_count) r))"

definition decode_header :: "nat \<Rightarrow> ByteReader \<Rightarrow> Packet Result" where
  "decode_header datagram_size r =
     (let (magic :: u32 Result, r) = read_little_endian ''magic'' r in
      if \<not> ok magic \<or> value_or_0 magic \<noteq> kPacketMagic
      then decode_error EC_invalid_magic 0 ''magic'' (ucast (value_or_0 magic))
      else let (version :: u16 Result, r) = read_little_endian ''version'' r in
      if \<not> ok version \<or> ucast (value_or_0 version) \<noteq> kProtocolVersion
      then decode_error EC_unsupported_version 4 ''version'' (ucast (value_or_0 version))
      else let (type_byte :: u8 Result, r) = read_little_endian ''type'' r in
      case type_byte of
        Inl e \<Rightarrow> decode_error (err_code e) (err_offset e) (err_context e) 0
      | Inr t \<Rightarrow>
          if \<not> valid_packet_type t
          then decode_error EC_unknown_packet_type 6 ''type'' (ucast t)
          else let (sender_byte :: u8 Result, r) = read_little_endian ''sender'' r in
            if \<not> ok sender_byte \<or> value_or_0 sender_byte > 1
            then decode_error EC_invalid_argument 7 ''sender'' (ucast (value_or_0 sender_byte))
            else decode_fields datagram_size (value_or_0 version) t (value_or_0 sender_byte) r)"

definition decode_packet :: "byte list \<Rightarrow> Packet Result" where
  "decode_packet bytes =
     (if length bytes < header_size + checksum_size
      then decode_error EC_truncated_data (length bytes) ''packet'' 0
      else if length bytes > kMaxPacketBytes
      then decode_error EC_invalid_length 0 ''packet_size'' (of_nat (length bytes))
      else
        (let stored_checksum = read_checksum bytes;
             body = take (length bytes - checksum_size) bytes
         in if stored_checksum \<noteq> crc32 body
            then decode_error EC_integrity_mismatch (length bytes - checksum_size) ''crc32''
                   (ucast stored_checksum)
            else decode_header (length bytes) (make_reader body)))"

section \<open>The bytes of a packet\<close>

definition input_bytes :: "InputFrame \<Rightarrow> byte list" where
  "input_bytes x = le_bytes (in_frame x) @ le_bytes (player_value (in_player x))
     @ le_bytes (in_buttons x) @ le_bytes (in_sequence x)"

definition hash_bytes :: "ConfirmedHash \<Rightarrow> byte list" where
  "hash_bytes h = le_bytes (ch_frame h) @ le_bytes (ch_hash h)"

definition hello_bytes :: "HelloInfo \<Rightarrow> byte list" where
  "hello_bytes h = le_bytes (hi_simulation_version h) @ le_bytes (hi_scenario_config_digest h)
     @ le_bytes (hi_target_frame h)"

definition payload_bytes :: "Packet \<Rightarrow> byte list" where
  "payload_bytes p = concat (map input_bytes (pk_inputs p))
     @ concat (map hash_bytes (pk_confirmed_hashes p))
     @ (case pk_hello p of None \<Rightarrow> [] | Some h \<Rightarrow> hello_bytes h)"

definition header_bytes :: "Packet \<Rightarrow> byte list" where
  "header_bytes p = le_bytes kPacketMagic @ le_bytes (pk_protocol_version p) @ le_bytes (pk_type p)
     @ le_bytes (player_value (pk_sender p)) @ le_bytes (pk_sequence p) @ le_bytes (pk_ack p)
     @ le_bytes (pk_scenario_id p) @ le_bytes (pk_confirmed_frame p)
     @ le_bytes (of_nat (length (pk_inputs p)) :: u8)
     @ le_bytes (of_nat (length (pk_confirmed_hashes p)) :: u8)"

definition body_bytes :: "Packet \<Rightarrow> byte list" where
  "body_bytes p = header_bytes p @ le_bytes (of_nat (length (payload_bytes p)) :: u16) @ payload_bytes p"

lemma length_input_bytes [simp]: "length (input_bytes x) = 10"
  by (simp add: input_bytes_def)

lemma length_hash_bytes [simp]: "length (hash_bytes h) = 12"
  by (simp add: hash_bytes_def)

lemma length_hello_bytes [simp]: "length (hello_bytes h) = 16"
  by (simp add: hello_bytes_def)

lemma length_header_bytes [simp]: "length (header_bytes p) = 30"
  by (simp add: header_bytes_def)

lemma length_payload_bytes:
  "length (payload_bytes p) = 10 * length (pk_inputs p) + 12 * length (pk_confirmed_hashes p)
     + (case pk_hello p of None \<Rightarrow> 0 | Some _ \<Rightarrow> 16)"
  by (simp add: payload_bytes_def length_concat_const split: option.split)

lemma fold_writer:
  "(\<And>x w. f x w = w @ g x) \<Longrightarrow> fold f xs w = w @ concat (map g xs)"
  by (induction xs arbitrary: w) simp_all

lemma fold_write_input: "fold write_input xs w = w @ concat (map input_bytes xs)"
  by (rule fold_writer) (simp add: write_input_def input_bytes_def append_little_endian_def)

lemma fold_write_hash: "fold write_hash hs w = w @ concat (map hash_bytes hs)"
  by (rule fold_writer) (simp add: write_hash_def hash_bytes_def append_little_endian_def)

lemma write_header_bytes: "write_header p [] = header_bytes p @ le_bytes (0 :: u16)"
  by (simp add: write_header_def header_bytes_def append_little_endian_def)

lemma le_bytes_u16: "le_bytes (v :: u16) = [ucast v, ucast (drop_bit 8 v)]"
  by (simp add: le_bytes_def sizeof_word_def numeral_2_eq_2)

lemma ucast_mask_byte: "(ucast (v AND 0xFF :: u16) :: byte) = ucast v"
proof -
  have "v AND 0xFF = take_bit 8 v" by (simp add: take_bit_eq_mask mask_eq_exp_minus_1)
  then show ?thesis by (auto intro!: bit_word_eqI simp: bit_simps)
qed

lemma patch_u16_payload:
  assumes "length A = n"
  shows "patch_u16 n v (A @ le_bytes (u :: u16) @ B) = A @ le_bytes v @ B"
  using assms by (simp add: patch_u16_def le_bytes_u16 list_update_append ucast_mask_byte)

text \<open>What the encoder accepts.\<close>

definition packet_ok :: "Packet \<Rightarrow> bool" where
  "packet_ok p \<longleftrightarrow>
     ucast (pk_protocol_version p) = kProtocolVersion \<and> valid_packet_type (pk_type p)
     \<and> length (pk_inputs p) \<le> 32 \<and> length (pk_confirmed_hashes p) \<le> 32
     \<and> (pk_type p = pt_hello \<longleftrightarrow> pk_hello p \<noteq> None)
     \<and> (pk_type p = pt_hello \<longrightarrow> pk_inputs p = [] \<and> pk_confirmed_hashes p = [])
     \<and> (\<forall>x \<in> set (pk_inputs p). in_player x = pk_sender p)
     \<and> find_unordered_hash (pk_confirmed_hashes p) = None"

lemma find_foreign_input_None:
  "find_foreign_input s xs = None \<longleftrightarrow> (\<forall>x \<in> set xs. in_player x = s)"
  by (induction xs) auto

lemma packet_ok_payload:
  assumes "packet_ok p"
  shows "length (payload_bytes p) \<le> 704"
  using assms by (auto simp: packet_ok_def length_payload_bytes split: option.splits)

lemma encode_packet_iff:
  "encode_packet p = Inr bytes \<longleftrightarrow> packet_ok p \<and> bytes = body_bytes p @ le_bytes (crc32 (body_bytes p))"
proof (cases "packet_ok p")
  case True
  note pl = packet_ok_payload [OF True]
  define w where "w = (case pk_hello p of Some hello \<Rightarrow> write_hello hello
      (fold write_hash (pk_confirmed_hashes p) (fold write_input (pk_inputs p) (write_header p [])))
    | None \<Rightarrow> fold write_hash (pk_confirmed_hashes p) (fold write_input (pk_inputs p) (write_header p [])))"
  have w: "w = header_bytes p @ le_bytes (0 :: u16) @ payload_bytes p"
    by (simp add: w_def fold_write_input fold_write_hash write_header_bytes payload_bytes_def
        write_hello_def hello_bytes_def append_little_endian_def split: option.split)
  have sz: "length w - length (write_header p []) = length (payload_bytes p)"
    by (simp add: w write_header_bytes)
  have patched: "patch_u16 30 (of_nat (length (payload_bytes p))) w = body_bytes p"
    unfolding w body_bytes_def by (rule patch_u16_payload) simp
  have len: "length (body_bytes p) = 32 + length (payload_bytes p)" by (simp add: body_bytes_def)
  have "find_foreign_input (pk_sender p) (pk_inputs p) = None"
    using True by (simp add: packet_ok_def find_foreign_input_None)
  then have "encode_packet p = Inr (body_bytes p @ le_bytes (crc32 (body_bytes p)))"
    using True pl len
    by (auto simp add: encode_packet_def packet_ok_def kMaxRedundantInputs_def kMaxConfirmedHashes_def
        kMaxPacketBytes_def Let_def w_def [symmetric] sz patched append_little_endian_def)
  with True show ?thesis by auto
next
  case False
  then have "\<nexists>bytes. encode_packet p = Inr bytes"
    by (auto simp: encode_packet_def packet_ok_def kMaxRedundantInputs_def kMaxConfirmedHashes_def
        find_foreign_input_None Let_def split: if_splits option.splits)
  with False show ?thesis by auto
qed

section \<open>The decoder inverts the encoder\<close>

lemma le_u8: "le_bytes (b :: u8) = [b]"
  by (simp add: le_bytes_def sizeof_word_def)

lemma player_of_value_value [simp]: "player_of_value (player_value p) = p"
  by (cases p) (simp_all add: player_of_value_def)

lemma byte_le_1: "v \<le> (1 :: u8) \<longleftrightarrow> v = 0 \<or> v = 1"
  by (auto simp: word_unat_eq_iff word_le_nat_alt)

lemma player_value_of_value: "v \<le> 1 \<Longrightarrow> player_value (player_of_value v) = v"
  by (auto simp: player_of_value_def byte_le_1)

lemma player_value_le_1 [simp]: "player_value p \<le> 1"
  by (cases p) simp_all

definition plain_input :: "PlayerId \<Rightarrow> InputFrame \<Rightarrow> bool" where
  "plain_input sender x \<longleftrightarrow> in_player x = sender \<and> in_buttons x AND 0xE0 = 0"

lemma decode_inputs_written:
  assumes "\<And>x. x \<in> set xs \<Longrightarrow> plain_input sender x"
    and "stream r = concat (map input_bytes xs) @ rest"
  shows "decode_inputs (length xs) (player_value sender) r = (Inr xs, adv (10 * length xs) r)"
  using assms
proof (induction xs arbitrary: r)
  case (Cons x xs)
  from Cons.prems(2) have s: "stream r = le_bytes (in_frame x) @ le_bytes (player_value (in_player x))
      @ le_bytes (in_buttons x) @ le_bytes (in_sequence x) @ concat (map input_bytes xs) @ rest"
    by (simp add: input_bytes_def [of x])
  have r1: "read_little_endian ''input_frame'' r = (Inr (in_frame x), adv 4 r)"
    using read_written [OF _ s] by simp
  have r2: "read_little_endian ''input_player'' (adv 4 r) = (Inr (player_value (in_player x)), adv 5 r)"
    by (subst read_written [where w = "player_value (in_player x)"]) (simp_all add: s)
  have r3: "read_little_endian ''buttons'' (adv 5 r) = (Inr (in_buttons x), adv 6 r)"
    by (subst read_written [where w = "in_buttons x"]) (simp_all add: s)
  have r4: "read_little_endian ''input_sequence'' (adv 6 r) = (Inr (in_sequence x), adv 10 r)"
    by (subst read_written [where w = "in_sequence x"]) (simp_all add: s)
  have "stream (adv 10 r) = concat (map input_bytes xs) @ rest" by (simp add: s)
  from Cons.IH [OF Cons.prems(1) this]
  have ih: "decode_inputs (length xs) (player_value sender) (adv 10 r)
      = (Inr xs, adv (10 + 10 * length xs) r)" by simp
  show ?case
    using Cons.prems(1) [of x]
    by (simp add: Let_def r1 r2 r3 r4 ih value_or_0_def plain_input_def)
qed simp

lemma decode_inputs_splits:
  assumes "decode_inputs n sb r = (Inr xs, r')" "sb \<le> 1"
  shows "length xs = n \<and> (\<forall>x \<in> set xs. plain_input (player_of_value sb) x)
    \<and> r' = adv (10 * n) r \<and> stream r = concat (map input_bytes xs) @ stream r'"
  using assms(1)
proof (induction n arbitrary: r xs)
  case (Suc n)
  obtain f r1 where r1: "(read_little_endian ''input_frame'' r :: u32 Result \<times> _) = (f, r1)" by fastforce
  obtain p r2 where r2: "(read_little_endian ''input_player'' r1 :: u8 Result \<times> _) = (p, r2)" by fastforce
  obtain b r3 where r3: "(read_little_endian ''buttons'' r2 :: u8 Result \<times> _) = (b, r3)" by fastforce
  obtain q r4 where r4: "(read_little_endian ''input_sequence'' r3 :: u32 Result \<times> _) = (q, r4)" by fastforce
  note run = Suc.prems [unfolded decode_inputs.simps r1 r2 r3 r4 Let_def prod.case]
  from run have "ok f" "ok p" "ok b" "ok q" by (auto split: if_splits simp: decode_error_def)
  then obtain fv pv bv qv where v: "f = Inr fv" "p = Inr pv" "b = Inr bv" "q = Inr qv"
    by (auto simp: ok_iff)
  from run v have c: "pv = sb" "bv AND 0xE0 = 0"
    by (auto split: if_splits simp: decode_error_def value_or_0_def)
  obtain ys where ys: "decode_inputs n sb r4 = (Inr ys, r')"
    and xs: "xs = \<lparr>in_frame = fv, in_player = player_of_value pv, in_sequence = qv, in_buttons = bv\<rparr> # ys"
    using run v c by (auto simp: value_or_0_def split: prod.splits sum.splits)
  note s1 = read_u32_splits [OF r1 [unfolded v]]
    and s2 = read_u8_splits [OF r2 [unfolded v]]
    and s3 = read_u8_splits [OF r3 [unfolded v]]
    and s4 = read_u32_splits [OF r4 [unfolded v]]
    and ih = Suc.IH [OF ys]
  have "r4 = adv 10 r"
    by (simp only: s1 [THEN conjunct1] s2 [THEN conjunct1] s3 [THEN conjunct1] s4 [THEN conjunct1]) simp
  moreover have "stream r = le_bytes fv @ le_bytes pv @ le_bytes bv @ le_bytes qv @ stream r4"
    by (simp only: s1 [THEN conjunct2] s2 [THEN conjunct2] s3 [THEN conjunct2] s4 [THEN conjunct2])
  moreover have "input_bytes \<lparr>in_frame = fv, in_player = player_of_value pv, in_sequence = qv, in_buttons = bv\<rparr>
      = le_bytes fv @ le_bytes pv @ le_bytes bv @ le_bytes qv"
    using c assms(2) by (simp add: input_bytes_def player_value_of_value)
  moreover have "r' = adv (10 * n) r4" "stream r4 = concat (map input_bytes ys) @ stream r'"
    using ih by blast+
  ultimately have "r' = adv (10 * Suc n) r" "stream r = concat (map input_bytes xs) @ stream r'"
    by (simp_all only: xs list.map concat.simps append_assoc adv_adv) simp
  then show ?case using ih c xs by (simp add: plain_input_def)
qed simp

fun hashes_ordered :: "FrameNumber option \<Rightarrow> ConfirmedHash list \<Rightarrow> bool" where
  "hashes_ordered previous [] = True"
| "hashes_ordered previous (h # hs) \<longleftrightarrow>
     (previous = None \<or> frame_before (the previous) (ch_frame h)) \<and> hashes_ordered (Some (ch_frame h)) hs"

lemma find_unordered_hash_Cons:
  "find_unordered_hash (h # hs) = None \<longleftrightarrow>
     (hs = [] \<or> frame_before (ch_frame h) (ch_frame (hd hs))) \<and> find_unordered_hash hs = None"
  by (cases hs) auto

lemma hashes_ordered_Some:
  "hashes_ordered (Some f) hs \<longleftrightarrow>
     (hs = [] \<or> frame_before f (ch_frame (hd hs))) \<and> find_unordered_hash hs = None"
  by (induction hs arbitrary: f) (auto simp: find_unordered_hash_Cons)

lemma hashes_ordered_None: "hashes_ordered None hs \<longleftrightarrow> find_unordered_hash hs = None"
  by (cases hs) (auto simp: hashes_ordered_Some find_unordered_hash_Cons)

lemma decode_hashes_written:
  assumes "hashes_ordered previous hs" "stream r = concat (map hash_bytes hs) @ rest"
  shows "decode_hashes (length hs) previous r = (Inr hs, adv (12 * length hs) r)"
  using assms
proof (induction hs arbitrary: previous r)
  case (Cons h hs)
  from Cons.prems(2) have s: "stream r = le_bytes (ch_frame h) @ le_bytes (ch_hash h)
      @ concat (map hash_bytes hs) @ rest"
    by (simp add: hash_bytes_def [of h])
  have r1: "read_little_endian ''hash_frame'' r = (Inr (ch_frame h), adv 4 r)"
    using read_written [OF _ s] by simp
  have r2: "read_little_endian ''hash'' (adv 4 r) = (Inr (ch_hash h), adv 12 r)"
    by (subst read_written [where w = "ch_hash h"]) (simp_all add: s)
  have "stream (adv 12 r) = concat (map hash_bytes hs) @ rest" by (simp add: s)
  from Cons.IH [OF _ this, of "Some (ch_frame h)"] Cons.prems(1)
  have ih: "decode_hashes (length hs) (Some (ch_frame h)) (adv 12 r)
      = (Inr hs, adv (12 + 12 * length hs) r)" by simp
  show ?case
    using Cons.prems(1) by (auto simp: Let_def r1 r2 ih value_or_0_def)
qed simp

lemma decode_hashes_splits:
  assumes "decode_hashes n previous r = (Inr hs, r')"
  shows "length hs = n \<and> hashes_ordered previous hs
    \<and> r' = adv (12 * n) r \<and> stream r = concat (map hash_bytes hs) @ stream r'"
  using assms
proof (induction n arbitrary: previous r hs)
  case (Suc n)
  obtain f r1 where r1: "(read_little_endian ''hash_frame'' r :: u32 Result \<times> _) = (f, r1)" by fastforce
  obtain h r2 where r2: "(read_little_endian ''hash'' r1 :: u64 Result \<times> _) = (h, r2)" by fastforce
  note run = Suc.prems [unfolded decode_hashes.simps r1 r2 Let_def prod.case]
  from run have "ok f" "ok h" by (auto split: if_splits simp: decode_error_def)
  then obtain fv hv where v: "f = Inr fv" "h = Inr hv" by (auto simp: ok_iff)
  from run v have c: "previous = None \<or> frame_before (the previous) fv"
    by (auto split: if_splits simp: decode_error_def value_or_0_def)
  obtain ys where ys: "decode_hashes n (Some fv) r2 = (Inr ys, r')"
    and hs: "hs = \<lparr>ch_frame = fv, ch_hash = hv\<rparr> # ys"
    using run v c by (auto simp: value_or_0_def decode_error_def split: prod.splits sum.splits if_splits)
  note s1 = read_u32_splits [OF r1 [unfolded v]]
    and s2 = read_u64_splits [OF r2 [unfolded v]]
    and ih = Suc.IH [OF ys]
  have "r2 = adv 12 r"
    by (simp only: s1 [THEN conjunct1] s2 [THEN conjunct1]) simp
  moreover have "stream r = le_bytes fv @ le_bytes hv @ stream r2"
    by (simp only: s1 [THEN conjunct2] s2 [THEN conjunct2])
  moreover have "hash_bytes \<lparr>ch_frame = fv, ch_hash = hv\<rparr> = le_bytes fv @ le_bytes hv"
    by (simp add: hash_bytes_def)
  moreover have "r' = adv (12 * n) r2" "stream r2 = concat (map hash_bytes ys) @ stream r'"
    using ih by blast+
  ultimately have "r' = adv (12 * Suc n) r" "stream r = concat (map hash_bytes hs) @ stream r'"
    by (simp_all only: hs list.map concat.simps append_assoc adv_adv) simp
  then show ?case using ih c hs by simp
qed simp

lemma decode_hello_written:
  assumes "stream r = hello_bytes h @ rest"
  shows "decode_hello 0 0 r = (Inr h, adv 16 r)"
proof -
  from assms have s: "stream r = le_bytes (hi_simulation_version h)
      @ le_bytes (hi_scenario_config_digest h) @ le_bytes (hi_target_frame h) @ rest"
    by (simp add: hello_bytes_def)
  have r1: "read_little_endian ''simulation_version'' r = (Inr (hi_simulation_version h), adv 4 r)"
    using read_written [OF _ s] by simp
  have r2: "read_little_endian ''scenario_config_digest'' (adv 4 r)
      = (Inr (hi_scenario_config_digest h), adv 12 r)"
    by (subst read_written [where w = "hi_scenario_config_digest h"]) (simp_all add: s)
  have r3: "read_little_endian ''target_frame'' (adv 12 r) = (Inr (hi_target_frame h), adv 16 r)"
    by (subst read_written [where w = "hi_target_frame h"]) (simp_all add: s)
  show ?thesis by (simp add: decode_hello_def Let_def r1 r2 r3 value_or_0_def)
qed

lemma decode_hello_splits:
  assumes "decode_hello c d r = (Inr h, r')"
  shows "c = 0 \<and> d = 0 \<and> r' = adv 16 r \<and> stream r = hello_bytes h @ stream r'"
proof -
  obtain a r1 where r1: "(read_little_endian ''simulation_version'' r :: u32 Result \<times> _) = (a, r1)" by fastforce
  obtain b r2 where r2: "(read_little_endian ''scenario_config_digest'' r1 :: u64 Result \<times> _) = (b, r2)" by fastforce
  obtain t r3 where r3: "(read_little_endian ''target_frame'' r2 :: u32 Result \<times> _) = (t, r3)" by fastforce
  note run = assms [unfolded decode_hello_def r1 r2 r3 Let_def prod.case]
  from run have cd: "c = 0" "d = 0" and "ok a" "ok b" "ok t"
    by (auto split: if_splits simp: decode_error_def)
  then obtain av bv tv where v: "a = Inr av" "b = Inr bv" "t = Inr tv" by (auto simp: ok_iff)
  with run cd have h: "h = \<lparr>hi_simulation_version = av, hi_scenario_config_digest = bv, hi_target_frame = tv\<rparr>"
    and r': "r' = r3" by (auto simp: value_or_0_def)
  note s1 = read_u32_splits [OF r1 [unfolded v]]
    and s2 = read_u64_splits [OF r2 [unfolded v]]
    and s3 = read_u32_splits [OF r3 [unfolded v]]
  have "r' = adv 16 r"
    by (simp only: r' s1 [THEN conjunct1] s2 [THEN conjunct1] s3 [THEN conjunct1]) simp
  moreover have "stream r = le_bytes av @ le_bytes bv @ le_bytes tv @ stream r3"
    by (simp only: s1 [THEN conjunct2] s2 [THEN conjunct2] s3 [THEN conjunct2])
  then have "stream r = hello_bytes h @ stream r'"
    by (simp only: h r' hello_bytes_def HelloInfo.select_convs append_assoc)
  ultimately show ?thesis using cd by simp
qed

definition plain_packet :: "Packet \<Rightarrow> bool" where
  "plain_packet p \<longleftrightarrow> (\<forall>x \<in> set (pk_inputs p). in_buttons x AND 0xE0 = 0)"

abbreviation bare :: "Packet \<Rightarrow> Packet" where
  "bare p \<equiv> p\<lparr>pk_inputs := [], pk_confirmed_hashes := [], pk_hello := None\<rparr>"

lemma unat_count: "n \<le> 32 \<Longrightarrow> unat (of_nat n :: u8) = n"
  by (simp add: unat_of_nat take_bit_nat_eq_self)

lemma decode_payload_written:
  assumes ok: "packet_ok p" and plain: "plain_packet p" and s: "stream r = payload_bytes p"
  shows "decode_payload (bare p) (player_value (pk_sender p)) (of_nat (length (pk_inputs p)))
    (of_nat (length (pk_confirmed_hashes p))) r = Inr p"
proof -
  let ?ni = "length (pk_inputs p)" and ?nh = "length (pk_confirmed_hashes p)"
  let ?r1 = "adv (10 * ?ni) r" and ?r2 = "adv (10 * ?ni + 12 * ?nh) r"
  have n: "unat (of_nat ?ni :: u8) = ?ni" "unat (of_nat ?nh :: u8) = ?nh"
    using ok by (auto simp: packet_ok_def intro: unat_count)
  have len: "length (concat (map input_bytes (pk_inputs p))) = 10 * ?ni"
    "length (concat (map hash_bytes (pk_confirmed_hashes p))) = 12 * ?nh"
    by (simp_all add: length_concat_const)
  have i: "decode_inputs ?ni (player_value (pk_sender p)) r = (Inr (pk_inputs p), ?r1)"
    by (rule decode_inputs_written)
      (use ok plain s in \<open>auto simp: packet_ok_def plain_packet_def plain_input_def payload_bytes_def\<close>)
  have s1: "stream ?r1 = concat (map hash_bytes (pk_confirmed_hashes p))
      @ (case pk_hello p of None \<Rightarrow> [] | Some h \<Rightarrow> hello_bytes h)"
    by (simp add: s payload_bytes_def len)
  have h: "decode_hashes ?nh None ?r1 = (Inr (pk_confirmed_hashes p), ?r2)"
    using decode_hashes_written [OF _ s1, of None] ok
    by (simp add: hashes_ordered_None packet_ok_def)
  have s2: "stream ?r2 = (case pk_hello p of None \<Rightarrow> [] | Some h \<Rightarrow> hello_bytes h)"
    by (simp add: s payload_bytes_def len)
  show ?thesis
  proof (cases "pk_hello p")
    case None
    then have "remaining ?r2 = 0" "pk_type p \<noteq> pt_hello"
      using s2 ok by (simp_all add: remaining_stream packet_ok_def)
    with None show ?thesis by (simp add: decode_payload_def n i h)
  next
    case (Some hello)
    then have "pk_type p = pt_hello" "?ni = 0" "?nh = 0" using ok by (auto simp: packet_ok_def)
    moreover from this have e: "pk_inputs p = []" "pk_confirmed_hashes p = []" by simp_all
    moreover have "decode_hello 0 0 r = (Inr hello, adv 16 r)"
      by (rule decode_hello_written [where rest = "[]"]) (use s2 Some e in simp)
    moreover have "remaining (adv 16 r) = 0" using s2 Some e by (simp add: remaining_stream)
    ultimately show ?thesis using Some by (simp add: decode_payload_def)
  qed
qed

lemma decode_payload_splits:
  assumes run: "decode_payload p0 sb count hash_count r = Inr p" and sb: "sb \<le> 1"
    and p0: "pk_sender p0 = player_of_value sb"
  shows "p = p0\<lparr>pk_inputs := pk_inputs p, pk_confirmed_hashes := pk_confirmed_hashes p, pk_hello := pk_hello p\<rparr>
    \<and> length (pk_inputs p) = unat count \<and> length (pk_confirmed_hashes p) = unat hash_count
    \<and> (\<forall>x \<in> set (pk_inputs p). plain_input (pk_sender p) x)
    \<and> find_unordered_hash (pk_confirmed_hashes p) = None
    \<and> (pk_type p = pt_hello \<longleftrightarrow> pk_hello p \<noteq> None)
    \<and> (pk_type p = pt_hello \<longrightarrow> count = 0 \<and> hash_count = 0)
    \<and> stream r = payload_bytes p"
proof -
  obtain xs r1 where i: "decode_inputs (unat count) sb r = (Inr xs, r1)"
    using run by (auto simp: decode_payload_def split: prod.splits sum.splits)
  obtain hs r2 where h: "decode_hashes (unat hash_count) None r1 = (Inr hs, r2)"
    using run i by (auto simp: decode_payload_def split: prod.splits sum.splits)
  note si = decode_inputs_splits [OF i sb] and sh = decode_hashes_splits [OF h]
  have xs: "length xs = unat count" "\<forall>x \<in> set xs. plain_input (player_of_value sb) x"
    using si by blast+
  have hs: "length hs = unat hash_count" "find_unordered_hash hs = None"
    using sh by (auto simp: hashes_ordered_None)
  have ss: "stream r = concat (map input_bytes xs) @ concat (map hash_bytes hs) @ stream r2"
    using si sh by (metis (no_types))
  define q where "q = p0\<lparr>pk_inputs := xs, pk_confirmed_hashes := hs\<rparr>"
  have inp: "pk_inputs q = xs" "pk_confirmed_hashes q = hs" "pk_sender q = player_of_value sb"
    using p0 by (simp_all add: q_def)
  show ?thesis
  proof (cases "pk_type p0 = pt_hello")
    case True
    then obtain hl r3 where hl: "decode_hello count hash_count r2 = (Inr hl, r3)"
      using run i h by (auto simp: decode_payload_def split: prod.splits sum.splits)
    with run i h True have "remaining r3 = 0" and p: "p = q\<lparr>pk_hello := Some hl\<rparr>"
      by (auto simp: decode_payload_def Let_def q_def split: if_splits simp: decode_error_def)
    then have "stream r3 = []" by (simp add: remaining_stream)
    moreover note sl = decode_hello_splits [OF hl]
    ultimately have "stream r2 = hello_bytes hl" by (metis append_Nil2)
    then have "stream r = payload_bytes p"
      using ss p inp by (simp add: payload_bytes_def)
    then show ?thesis
      using xs hs sl p inp True by (simp add: q_def)
  next
    case False
    with run i h have "remaining r2 = 0" and p: "p = q\<lparr>pk_hello := None\<rparr>"
      by (auto simp: decode_payload_def Let_def q_def split: if_splits simp: decode_error_def)
    then have "stream r2 = []" by (simp add: remaining_stream)
    then have "stream r = payload_bytes p"
      using ss p inp by (simp add: payload_bytes_def)
    then show ?thesis
      using xs hs p inp False by (simp add: q_def)
  qed
qed

lemma decode_fields_written:
  assumes ok: "packet_ok p" and plain: "plain_packet p"
    and s: "stream r = le_bytes (pk_sequence p) @ le_bytes (pk_ack p) @ le_bytes (pk_scenario_id p)
      @ le_bytes (pk_confirmed_frame p) @ le_bytes (of_nat (length (pk_inputs p)) :: u8)
      @ le_bytes (of_nat (length (pk_confirmed_hashes p)) :: u8)
      @ le_bytes (of_nat (length (payload_bytes p)) :: u16) @ payload_bytes p"
  shows "decode_fields (36 + length (payload_bytes p)) (pk_protocol_version p) (pk_type p)
    (player_value (pk_sender p)) r = Inr p"
proof -
  let ?ni = "length (pk_inputs p)" and ?nh = "length (pk_confirmed_hashes p)"
  have r1: "read_little_endian ''sequence'' r = (Inr (pk_sequence p), adv 4 r)"
    using read_written [OF _ s] by simp
  have r2: "read_little_endian ''ack'' (adv 4 r) = (Inr (pk_ack p), adv 8 r)"
    by (subst read_written [where w = "pk_ack p"]) (simp_all add: s)
  have r3: "read_little_endian ''scenario'' (adv 8 r) = (Inr (pk_scenario_id p), adv 16 r)"
    by (subst read_written [where w = "pk_scenario_id p"]) (simp_all add: s)
  have r4: "read_little_endian ''confirmed_frame'' (adv 16 r) = (Inr (pk_confirmed_frame p), adv 20 r)"
    by (subst read_written [where w = "pk_confirmed_frame p"]) (simp_all add: s)
  have r5: "read_little_endian ''input_count'' (adv 20 r) = (Inr (of_nat ?ni :: u8), adv 21 r)"
    by (subst read_written [where w = "of_nat ?ni :: u8"]) (simp_all add: s)
  have r6: "read_little_endian ''hash_count'' (adv 21 r) = (Inr (of_nat ?nh :: u8), adv 22 r)"
    by (subst read_written [where w = "of_nat ?nh :: u8"]) (simp_all add: s)
  have r7: "read_little_endian ''payload_length'' (adv 22 r)
      = (Inr (of_nat (length (payload_bytes p)) :: u16), adv 24 r)"
    by (subst read_written [where w = "of_nat (length (payload_bytes p)) :: u16"]) (simp_all add: s)
  have n: "unat (of_nat ?ni :: u8) = ?ni" "unat (of_nat ?nh :: u8) = ?nh"
    using ok by (auto simp: packet_ok_def intro: unat_count)
  have l: "unat (of_nat (length (payload_bytes p)) :: u16) = length (payload_bytes p)"
    using packet_ok_payload [OF ok] by (simp add: unat_of_nat take_bit_nat_eq_self)
  have e: "?ni * input_record_size + ?nh * hash_record_size
      + (if pk_type p = pt_hello then hello_record_size else 0) = length (payload_bytes p)"
    using ok by (auto simp: packet_ok_def length_payload_bytes input_record_size_def
        hash_record_size_def hello_record_size_def split: option.split)
  have "stream (adv 24 r) = payload_bytes p" by (simp add: s)
  note d = decode_payload_written [OF ok plain this]
  have b: "\<lparr>pk_protocol_version = pk_protocol_version p, pk_type = pk_type p, pk_sender = pk_sender p,
      pk_sequence = pk_sequence p, pk_ack = pk_ack p, pk_scenario_id = pk_scenario_id p,
      pk_confirmed_frame = pk_confirmed_frame p, pk_inputs = [], pk_confirmed_hashes = [],
      pk_hello = None\<rparr> = bare p" by simp
  have m: "?ni \<le> 32" "?nh \<le> 32" using ok by (simp_all add: packet_ok_def)
  show ?thesis
    unfolding decode_fields_def Let_def r1 r2 r3 r4 r5 r6 r7 prod.case
    using d m
    by (simp add: value_or_0_def n l b e kMaxRedundantInputs_def kMaxConfirmedHashes_def
        header_size_def checksum_size_def)
qed

lemma decode_fields_splits:
  assumes run: "decode_fields sz version t sb r = Inr p" and sb: "sb \<le> 1"
    and v: "ucast version = kProtocolVersion" "valid_packet_type t"
  shows "packet_ok p \<and> plain_packet p \<and> pk_protocol_version p = version \<and> pk_type p = t
    \<and> player_value (pk_sender p) = sb
    \<and> stream r = le_bytes (pk_sequence p) @ le_bytes (pk_ack p) @ le_bytes (pk_scenario_id p)
      @ le_bytes (pk_confirmed_frame p) @ le_bytes (of_nat (length (pk_inputs p)) :: u8)
      @ le_bytes (of_nat (length (pk_confirmed_hashes p)) :: u8)
      @ le_bytes (of_nat (length (payload_bytes p)) :: u16) @ payload_bytes p"
proof -
  obtain a1 r1 where r1: "(read_little_endian ''sequence'' r :: u32 Result \<times> _) = (a1, r1)" by fastforce
  obtain a2 r2 where r2: "(read_little_endian ''ack'' r1 :: u32 Result \<times> _) = (a2, r2)" by fastforce
  obtain a3 r3 where r3: "(read_little_endian ''scenario'' r2 :: u64 Result \<times> _) = (a3, r3)" by fastforce
  obtain a4 r4 where r4: "(read_little_endian ''confirmed_frame'' r3 :: u32 Result \<times> _) = (a4, r4)" by fastforce
  obtain a5 r5 where r5: "(read_little_endian ''input_count'' r4 :: u8 Result \<times> _) = (a5, r5)" by fastforce
  obtain a6 r6 where r6: "(read_little_endian ''hash_count'' r5 :: u8 Result \<times> _) = (a6, r6)" by fastforce
  obtain a7 r7 where r7: "(read_little_endian ''payload_length'' r6 :: u16 Result \<times> _) = (a7, r7)" by fastforce
  note run = run [unfolded decode_fields_def r1 r2 r3 r4 r5 r6 r7 Let_def prod.case]
  from run have "ok a1" "ok a2" "ok a3" "ok a4" "ok a5" "ok a6" "ok a7"
    by (auto split: if_splits simp: decode_error_def)
  then obtain b1 b2 b3 b4 b5 b6 b7 where b: "a1 = Inr b1" "a2 = Inr b2" "a3 = Inr b3" "a4 = Inr b4"
    "a5 = Inr b5" "a6 = Inr b6" "a7 = Inr b7" by (auto simp: ok_iff)
  define p0 where "p0 = \<lparr>pk_protocol_version = version, pk_type = t, pk_sender = player_of_value sb,
      pk_sequence = b1, pk_ack = b2, pk_scenario_id = b3, pk_confirmed_frame = b4, pk_inputs = [],
      pk_confirmed_hashes = [], pk_hello = None\<rparr>"
  have c: "unat b5 \<le> 32" "unat b6 \<le> 32"
    "unat b7 = unat b5 * 10 + unat b6 * 12 + (if t = pt_hello then 16 else 0)"
    and pay: "decode_payload p0 sb b5 b6 r7 = Inr p"
    using run b by (auto simp: value_or_0_def decode_error_def kMaxRedundantInputs_def
        kMaxConfirmedHashes_def input_record_size_def hash_record_size_def hello_record_size_def p0_def
        split: if_splits)
  have "pk_sender p0 = player_of_value sb" by (simp add: p0_def)
  note sp = decode_payload_splits [OF pay sb this]
  have pe: "p = p0\<lparr>pk_inputs := pk_inputs p, pk_confirmed_hashes := pk_confirmed_hashes p, pk_hello := pk_hello p\<rparr>"
    using sp by blast
  have f: "pk_protocol_version p = version" "pk_type p = t" "pk_sender p = player_of_value sb"
    "pk_sequence p = b1" "pk_ack p = b2" "pk_scenario_id p = b3" "pk_confirmed_frame p = b4"
    by (subst pe, simp add: p0_def)+
  have n: "length (pk_inputs p) = unat b5" "length (pk_confirmed_hashes p) = unat b6"
    and h: "pk_type p = pt_hello \<longleftrightarrow> pk_hello p \<noteq> None" "pk_type p = pt_hello \<longrightarrow> b5 = 0 \<and> b6 = 0"
    and s: "stream r7 = payload_bytes p"
    and i: "\<forall>x \<in> set (pk_inputs p). plain_input (pk_sender p) x"
    and o: "find_unordered_hash (pk_confirmed_hashes p) = None"
    using sp by blast+
  have e: "b5 = of_nat (length (pk_inputs p))" "b6 = of_nat (length (pk_confirmed_hashes p))" "unat b7 = length (payload_bytes p)"
    using n c(3) f(2) h(1) by (auto simp: length_payload_bytes split: option.split)
  then have "b7 = of_nat (length (payload_bytes p))" by (metis of_nat_unat ucast_id)
  moreover have "stream r = le_bytes b1 @ le_bytes b2 @ le_bytes b3 @ le_bytes b4 @ le_bytes b5
      @ le_bytes b6 @ le_bytes b7 @ stream r7"
    by (simp only: read_u32_splits [OF r1 [unfolded b], THEN conjunct2]
        read_u32_splits [OF r2 [unfolded b], THEN conjunct2] read_u64_splits [OF r3 [unfolded b], THEN conjunct2]
        read_u32_splits [OF r4 [unfolded b], THEN conjunct2] read_u8_splits [OF r5 [unfolded b], THEN conjunct2]
        read_u8_splits [OF r6 [unfolded b], THEN conjunct2] read_u16_splits [OF r7 [unfolded b], THEN conjunct2])
  moreover have "packet_ok p"
    using v c(1,2) n h i o f(1,2) by (auto simp: packet_ok_def plain_input_def)
  moreover have "plain_packet p" using i by (simp add: plain_packet_def plain_input_def)
  ultimately show ?thesis
    using f e(1,2) s sb by (simp add: player_value_of_value)
qed

lemma decode_header_written:
  assumes ok: "packet_ok p" and plain: "plain_packet p" and s: "stream r = body_bytes p"
  shows "decode_header (36 + length (payload_bytes p)) r = Inr p"
proof -
  have s: "stream r = le_bytes kPacketMagic @ le_bytes (pk_protocol_version p) @ le_bytes (pk_type p)
     @ le_bytes (player_value (pk_sender p)) @ le_bytes (pk_sequence p) @ le_bytes (pk_ack p)
     @ le_bytes (pk_scenario_id p) @ le_bytes (pk_confirmed_frame p)
     @ le_bytes (of_nat (length (pk_inputs p)) :: u8)
     @ le_bytes (of_nat (length (pk_confirmed_hashes p)) :: u8)
     @ le_bytes (of_nat (length (payload_bytes p)) :: u16) @ payload_bytes p"
    by (simp only: s body_bytes_def header_bytes_def append_assoc)
  have r1: "read_little_endian ''magic'' r = (Inr kPacketMagic, adv 4 r)"
    using read_written [OF _ s] by simp
  have r2: "read_little_endian ''version'' (adv 4 r) = (Inr (pk_protocol_version p), adv 6 r)"
    by (subst read_written [where w = "pk_protocol_version p"]) (simp_all add: s)
  have r3: "read_little_endian ''type'' (adv 6 r) = (Inr (pk_type p), adv 7 r)"
    by (subst read_written [where w = "pk_type p"]) (simp_all add: s)
  have r4: "read_little_endian ''sender'' (adv 7 r) = (Inr (player_value (pk_sender p)), adv 8 r)"
    by (subst read_written [where w = "player_value (pk_sender p)"]) (simp_all add: s)
  have "decode_fields (36 + length (payload_bytes p)) (pk_protocol_version p) (pk_type p)
      (player_value (pk_sender p)) (adv 8 r) = Inr p"
    by (rule decode_fields_written [OF ok plain]) (simp add: s)
  moreover have "\<not> 1 < player_value (pk_sender p)" by (simp add: not_less)
  ultimately show ?thesis
    unfolding decode_header_def Let_def r1 r2 r3 r4 prod.case
    using ok by (simp add: value_or_0_def packet_ok_def)
qed

lemma decode_header_splits:
  assumes run: "decode_header sz r = Inr p"
  shows "packet_ok p \<and> plain_packet p \<and> stream r = body_bytes p"
proof -
  obtain a1 r1 where r1: "(read_little_endian ''magic'' r :: u32 Result \<times> _) = (a1, r1)" by fastforce
  obtain a2 r2 where r2: "(read_little_endian ''version'' r1 :: u16 Result \<times> _) = (a2, r2)" by fastforce
  obtain a3 r3 where r3: "(read_little_endian ''type'' r2 :: u8 Result \<times> _) = (a3, r3)" by fastforce
  obtain a4 r4 where r4: "(read_little_endian ''sender'' r3 :: u8 Result \<times> _) = (a4, r4)" by fastforce
  note run = run [unfolded decode_header_def r1 r2 r3 r4 Let_def prod.case]
  from run have "ok a1" "ok a2" "ok a3" "ok a4"
    by (auto split: if_splits sum.splits simp: decode_error_def)
  then obtain b1 b2 b3 b4 where b: "a1 = Inr b1" "a2 = Inr b2" "a3 = Inr b3" "a4 = Inr b4"
    by (auto simp: ok_iff)
  have c: "b1 = kPacketMagic" "ucast b2 = kProtocolVersion" "valid_packet_type b3" "b4 \<le> 1"
    and f: "decode_fields sz b2 b3 b4 r4 = Inr p"
    using run b by (auto simp: value_or_0_def decode_error_def not_less split: if_splits)
  have "stream r = le_bytes b1 @ le_bytes b2 @ le_bytes b3 @ le_bytes b4 @ stream r4"
    by (simp only: read_u32_splits [OF r1 [unfolded b], THEN conjunct2]
        read_u16_splits [OF r2 [unfolded b], THEN conjunct2] read_u8_splits [OF r3 [unfolded b], THEN conjunct2]
        read_u8_splits [OF r4 [unfolded b], THEN conjunct2])
  with decode_fields_splits [OF f c(4,2,3)] c(1) show ?thesis
    by (auto simp: body_bytes_def header_bytes_def)
qed

lemma read_checksum_append: "read_checksum (body @ le_bytes (c :: u32)) = c"
  by (simp add: read_checksum_def checksum_size_def le_word_le_bytes)

lemma le_bytes_read_checksum:
  assumes "36 \<le> length bytes"
  shows "bytes = take (length bytes - 4) bytes @ le_bytes (read_checksum bytes)"
proof -
  have "le_bytes (read_checksum bytes) = drop (length bytes - 4) bytes"
    unfolding read_checksum_def checksum_size_def
    by (subst le_bytes_le_word) (use assms in auto)
  then show ?thesis by simp
qed

lemma decode_packet_iff:
  "decode_packet bytes = Inr p \<longleftrightarrow> encode_packet p = Inr bytes \<and> plain_packet p"
proof
  assume "encode_packet p = Inr bytes \<and> plain_packet p"
  then have ok: "packet_ok p" and plain: "plain_packet p"
    and b: "bytes = body_bytes p @ le_bytes (crc32 (body_bytes p))" by (auto simp: encode_packet_iff)
  have len: "length bytes = 36 + length (payload_bytes p)" by (simp add: b body_bytes_def)
  have body: "take (length bytes - checksum_size) bytes = body_bytes p"
    by (simp add: b checksum_size_def)
  have "decode_header (length bytes) (make_reader (body_bytes p)) = Inr p"
    unfolding len by (rule decode_header_written [OF ok plain]) simp
  moreover have rc: "read_checksum bytes = crc32 (body_bytes p)" by (simp add: b read_checksum_append)
  ultimately show "decode_packet bytes = Inr p"
    unfolding decode_packet_def Let_def body rc
    using packet_ok_payload [OF ok]
    by (simp add: len header_size_def checksum_size_def kMaxPacketBytes_def)
next
  assume d: "decode_packet bytes = Inr p"
  let ?body = "take (length bytes - checksum_size) bytes"
  have l: "36 \<le> length bytes" and c: "read_checksum bytes = crc32 ?body"
    and h: "decode_header (length bytes) (make_reader ?body) = Inr p"
    using d by (auto simp: decode_packet_def Let_def decode_error_def header_size_def checksum_size_def
        split: if_splits)
  from decode_header_splits [OF h] have "packet_ok p" "plain_packet p" "?body = body_bytes p" by simp_all
  moreover have "bytes = ?body @ le_bytes (read_checksum bytes)"
    using le_bytes_read_checksum [OF l] by (simp add: checksum_size_def)
  ultimately show "encode_packet p = Inr bytes \<and> plain_packet p"
    using c by (simp add: encode_packet_iff)
qed

interpretation packet_codec: checked_codec encode_packet decode_packet plain_packet
proof
  fix bytes p
  show "decode_packet bytes = Inr p \<longleftrightarrow> encode_packet p = Inr bytes \<and> plain_packet p"
    by (rule decode_packet_iff)
  assume d: "decode_packet bytes = Inr p"
  then have b: "bytes = body_bytes p @ le_bytes (crc32 (body_bytes p))"
    by (simp add: decode_packet_iff encode_packet_iff)
  then show "crc_register bytes = crc_residue" by (simp add: crc_check_residue)
  fix bytes' :: "byte list"
  assume l: "length bytes' = length bytes" and r: "crc_register bytes' \<noteq> crc_residue"
  have l2: "36 \<le> length bytes" "length bytes \<le> 1200"
    using d by (auto simp: decode_packet_def decode_error_def header_size_def checksum_size_def
        kMaxPacketBytes_def split: if_splits)
  then have "read_checksum bytes' \<noteq> crc32 (take (length bytes' - 4) bytes')"
    using r l le_bytes_read_checksum [of bytes'] crc_check_residue by metis
  then show "\<exists>e. decode_packet bytes' = Inl e \<and> err_code e = EC_integrity_mismatch"
    using l l2 by (simp add: decode_packet_def decode_error_def header_size_def checksum_size_def
        kMaxPacketBytes_def)
qed

section \<open>What the protocol promises\<close>

text \<open>
  C27. The decoder is the inverse of the encoder: a datagram is accepted as a packet exactly
  when the encoder produces that datagram from that packet and the inputs use only the defined
  buttons. So encoding and decoding is lossless, every accepted datagram is the canonical
  encoding of its packet, and no two datagrams decode to the same packet.
\<close>

theorem packet_decode_inverts_encode:
  "decode_packet bytes = Inr p \<longleftrightarrow> encode_packet p = Inr bytes \<and> plain_packet p"
  by (rule packet_codec.decode_iff)

definition goodbye_packet :: "PlayerId \<Rightarrow> Packet" where
  "goodbye_packet sender = \<lparr>pk_protocol_version = 1, pk_type = pt_goodbye, pk_sender = sender,
     pk_sequence = 7, pk_ack = 3, pk_scenario_id = 42, pk_confirmed_frame = 600, pk_inputs = [],
     pk_confirmed_hashes = [], pk_hello = None\<rparr>"

lemma goodbye_packet_ok: "packet_ok (goodbye_packet p)" "plain_packet (goodbye_packet p)"
  by (simp_all add: packet_ok_def plain_packet_def goodbye_packet_def kProtocolVersion_def
      valid_packet_type_def pt_goodbye_def pt_hello_def)

lemma magic_bytes: "le_bytes kPacketMagic = [0x52, 0x4C, 0x42, 0x4B]"
  by code_simp

lemma body_bytes_Cons: "\<exists>rest. body_bytes p = 0x52 # rest"
  by (simp add: body_bytes_def header_bytes_def magic_bytes)

text \<open>
  C28. Any corruption of an accepted datagram that is confined to four consecutive bytes,
  wherever they are and the checksum's own bytes included, is rejected as an integrity mismatch.
\<close>

theorem packet_burst_rejected:
  assumes "decode_packet bytes = Inr p" and "burst bytes bytes'"
  shows "\<exists>e. decode_packet bytes' = Inl e \<and> err_code e = EC_integrity_mismatch"
  using assms by (rule packet_codec.burst_detected)

theorem packet_burst_rejected_witness:
  "\<exists>bytes e. decode_packet bytes = Inr (goodbye_packet PB)
     \<and> decode_packet (0 # tl bytes) = Inl e \<and> err_code e = EC_integrity_mismatch"
proof -
  let ?b = "body_bytes (goodbye_packet PB)"
  let ?bytes = "?b @ le_bytes (crc32 ?b)"
  have d: "decode_packet ?bytes = Inr (goodbye_packet PB)"
    using goodbye_packet_ok by (simp add: decode_packet_iff encode_packet_iff)
  obtain rest where rest: "?bytes = [0x52] @ rest" using body_bytes_Cons [of "goodbye_packet PB"] by auto
  then have "burst ?bytes (0 # tl ?bytes)"
    unfolding burst_def
    by (intro exI [of _ "[]"] exI [of _ "[0x52]"] exI [of _ "[0]"] exI [of _ rest]) simp
  from packet_burst_rejected [OF d this] d show ?thesis by blast
qed

text \<open>
  C29. The encoder fails only on a malformed packet and its two size checks never fire: an
  encoded packet has between 36 and 740 bytes, far below the datagram limit of 1200.
\<close>

theorem encode_packet_bounds:
  "(ok (encode_packet p) \<longleftrightarrow> packet_ok p)
   \<and> (encode_packet p = Inr bytes \<longrightarrow> 36 \<le> length bytes \<and> length bytes \<le> 740)
   \<and> (encode_packet p = Inl e \<longrightarrow> err_code e \<noteq> EC_invalid_length)"
proof (intro conjI impI)
  show "ok (encode_packet p) \<longleftrightarrow> packet_ok p" by (auto simp: ok_iff encode_packet_iff)
  assume "encode_packet p = Inr bytes"
  then show "36 \<le> length bytes" "length bytes \<le> 740"
    using packet_ok_payload [of p] by (auto simp: encode_packet_iff body_bytes_def)
next
  assume e: "encode_packet p = Inl e"
  then have "\<not> packet_ok p" using encode_packet_iff [of p] by auto
  with e show "err_code e \<noteq> EC_invalid_length"
    by (auto simp: encode_packet_def packet_ok_def kMaxRedundantInputs_def kMaxConfirmedHashes_def
        find_foreign_input_None split: if_splits option.splits)
qed

theorem encode_packet_bounds_witness:
  "\<exists>bytes. encode_packet (goodbye_packet PA) = Inr bytes \<and> 36 \<le> length bytes \<and> length bytes \<le> 740"
proof -
  have "ok (encode_packet (goodbye_packet PA))"
    using encode_packet_bounds [of "goodbye_packet PA" "[]" "mk_error EC_none 0 0 ''''"] goodbye_packet_ok
    by blast
  then obtain bytes where "encode_packet (goodbye_packet PA) = Inr bytes" by (auto simp: ok_iff)
  then show ?thesis
    using encode_packet_bounds [of "goodbye_packet PA" bytes "mk_error EC_none 0 0 ''''"] by blast
qed

end
