(* ===== verification/Transport.thy ===== *)
theory Transport
  imports Protocol "HOL-Library.Multiset" "HOL-Library.Sublist"
begin

text \<open>
  The seeded network simulator: \<open>transport/seeded_transport.hpp\<close> and
  \<open>transport/seeded_transport.cpp\<close>. The queue is a list of scheduled packets, the random source
  a \<open>Pcg32\<close>; every operation returns the transport it leaves behind. \<open>std::stable_sort\<close> is the
  library's stable sort on the key that the code compares by, a linear order.

  The locale \<open>datagram_network\<close> states what the peers rely on: a network delivers nothing that
  was not sent. The seeded transport is its interpretation. The invariant \<open>transport_inv\<close> ties
  the byte counter, the ordinals and the metrics to the queue.
\<close>

type_synonym LogicalTick = u32

datatype Endpoint = EP_a | EP_b | EP_relay

datatype QueueOverflowPolicy = QOP_fail | QOP_drop_oldest

record TransportConfig =
  tc_seed :: u64
  tc_base_latency_ticks :: u32
  tc_jitter_ticks :: u32
  tc_loss_percent :: u32
  tc_reorder_percent :: u32
  tc_duplicate_percent :: u32
  tc_burst_loss_percent :: u32
  tc_max_queue_packets :: nat
  tc_max_queue_bytes :: nat
  tc_bandwidth_bytes_per_tick :: nat
  tc_max_packet_age_ticks :: u32
  tc_overflow_policy :: QueueOverflowPolicy

definition default_transport_config :: TransportConfig where
  "default_transport_config =
     \<lparr>tc_seed = 1, tc_base_latency_ticks = 0, tc_jitter_ticks = 0, tc_loss_percent = 0,
      tc_reorder_percent = 0, tc_duplicate_percent = 0, tc_burst_loss_percent = 0,
      tc_max_queue_packets = 1024, tc_max_queue_bytes = 1048576,
      tc_bandwidth_bytes_per_tick = 1048576, tc_max_packet_age_ticks = 600,
      tc_overflow_policy = QOP_fail\<rparr>"

record Delivery =
  dl_from :: Endpoint
  dl_to :: Endpoint
  dl_bytes :: "byte list"
  dl_enqueued_at :: LogicalTick
  dl_delivered_at :: LogicalTick
  dl_ordinal :: u64
  dl_duplicate :: bool

record TransportMetrics =
  tm_sent_packets :: u64
  tm_delivered_packets :: u64
  tm_dropped_loss :: u64
  tm_dropped_overflow :: u64
  tm_dropped_age :: u64
  tm_duplicated_packets :: u64
  tm_reordered_packets :: u64

record Scheduled =
  sd_from :: Endpoint
  sd_to :: Endpoint
  sd_bytes :: "byte list"
  sd_enqueued_at :: LogicalTick
  sd_scheduled_for :: LogicalTick
  sd_reorder_rank :: u32
  sd_ordinal :: u64
  sd_duplicate :: bool

record SeededTransport =
  tr_config :: TransportConfig
  tr_random :: Pcg32
  tr_queue :: "Scheduled list"
  tr_queued_bytes :: nat
  tr_next_ordinal :: u64
  tr_burst_remaining :: u32
  tr_metrics :: TransportMetrics

definition make_transport :: "TransportConfig \<Rightarrow> SeededTransport" where
  "make_transport config =
     \<lparr>tr_config = config, tr_random = make_pcg32 (tc_seed config) pcg_default_stream, tr_queue = [],
      tr_queued_bytes = 0, tr_next_ordinal = 0, tr_burst_remaining = 0,
      tr_metrics = \<lparr>tm_sent_packets = 0, tm_delivered_packets = 0, tm_dropped_loss = 0,
        tm_dropped_overflow = 0, tm_dropped_age = 0, tm_duplicated_packets = 0,
        tm_reordered_packets = 0\<rparr>\<rparr>"

section \<open>Sending\<close>

definition draw_bounded :: "u32 \<Rightarrow> SeededTransport \<Rightarrow> u32 \<times> SeededTransport" where
  "draw_bounded bound t =
     (let (v, r) = bounded bound (tr_random t) in (v, t\<lparr>tr_random := r\<rparr>))"

definition chance :: "u32 \<Rightarrow> SeededTransport \<Rightarrow> bool \<times> SeededTransport" where
  "chance percent t =
     (if percent = 0 then (False, t)
      else let (v, t') = draw_bounded 100 t in (v < percent, t'))"

definition exceeds :: "nat \<Rightarrow> nat \<Rightarrow> SeededTransport \<Rightarrow> bool" where
  "exceeds packet_count byte_count t \<longleftrightarrow>
     length (tr_queue t) + packet_count > tc_max_queue_packets (tr_config t)
     \<or> tr_queued_bytes t + byte_count > tc_max_queue_bytes (tr_config t)"

text \<open>The first packet of least ordinal, and the queue without it.\<close>

fun take_oldest :: "Scheduled \<Rightarrow> Scheduled list \<Rightarrow> Scheduled \<times> Scheduled list" where
  "take_oldest s [] = (s, [])"
| "take_oldest s (t # q) =
     (let (oldest, rest) = take_oldest t q
      in if sd_ordinal oldest < sd_ordinal s then (oldest, s # rest) else (s, t # q))"

lemma take_oldest_mset: "take_oldest s q = (x, r) \<Longrightarrow> mset (s # q) = add_mset x (mset r)"
  by (induction q arbitrary: s x r) (auto simp: Let_def split: prod.splits if_splits)

lemma take_oldest_length: "take_oldest s q = (x, r) \<Longrightarrow> length r = length q"
  using take_oldest_mset [of s q x r] by (metis size_add_mset size_mset length_Cons nat.inject)

definition drop_oldest :: "SeededTransport \<Rightarrow> SeededTransport" where
  "drop_oldest t =
     (case tr_queue t of
        [] \<Rightarrow> t
      | s # q \<Rightarrow>
          (let (oldest, rest) = take_oldest s q; m = tr_metrics t
           in t\<lparr>tr_queued_bytes := tr_queued_bytes t - length (sd_bytes oldest),
                tr_queue := rest,
                tr_metrics := m\<lparr>tm_dropped_overflow := tm_dropped_overflow m + 1\<rparr>\<rparr>))"

lemma drop_oldest_length: "tr_queue t \<noteq> [] \<Longrightarrow> length (tr_queue (drop_oldest t)) < length (tr_queue t)"
  by (auto simp: drop_oldest_def Let_def take_oldest_length split: list.splits prod.splits)

function drop_until_fits :: "nat \<Rightarrow> nat \<Rightarrow> SeededTransport \<Rightarrow> SeededTransport" where
  "drop_until_fits packet_count byte_count t =
     (if exceeds packet_count byte_count t \<and> tr_queue t \<noteq> []
      then drop_until_fits packet_count byte_count (drop_oldest t)
      else t)"
  by pat_completeness auto
termination
  by (relation "measure (\<lambda>(p, b, t). length (tr_queue t))") (auto simp: drop_oldest_length)

declare drop_until_fits.simps [simp del]

definition ensure_capacity :: "nat \<Rightarrow> nat \<Rightarrow> SeededTransport \<Rightarrow> unit Result \<times> SeededTransport" where
  "ensure_capacity packet_count byte_count t =
     (if \<not> exceeds packet_count byte_count t then (Inr (), t)
      else if tc_overflow_policy (tr_config t) = QOP_fail
      then (failure EC_queue_overflow (of_nat (length (tr_queue t))) 0 ''transport_queue'', t)
      else
        (let t' = drop_until_fits packet_count byte_count t
         in if exceeds packet_count byte_count t'
            then (failure EC_queue_overflow (of_nat byte_count) 0 ''transport_packet'', t')
            else (Inr (), t')))"

definition u32_max :: nat where "u32_max = 4294967295"

text \<open>One iteration of the copy loop of \<open>send\<close>. The delay is a 64-bit signed integer that stays far
  from its limits.\<close>

definition jitter_delay :: "SeededTransport \<Rightarrow> int \<times> SeededTransport" where
  "jitter_delay t =
     (let jitter = tc_jitter_ticks (tr_config t); delay = uint (tc_base_latency_ticks (tr_config t)) in
      if jitter > 0
      then (let width = (ucast jitter :: u64) * 2 + 1;
                (v, r) = next_u32 (tr_random t);
                draw = (ucast v :: u64) mod width
            in (delay + (uint draw - uint jitter), t\<lparr>tr_random := r\<rparr>))
      else (delay, t))"

definition enqueue_copy :: "Endpoint \<Rightarrow> Endpoint \<Rightarrow> byte list \<Rightarrow> LogicalTick \<Rightarrow> bool
    \<Rightarrow> SeededTransport \<Rightarrow> SeededTransport" where
  "enqueue_copy src dst bytes now duplicate t =
     (let (delay, t) = jitter_delay t;
          delay = max 0 delay;
          (reordered, t) = chance (tc_reorder_percent (tr_config t)) t;
          (reorder_rank, delay, t) =
            (if reordered
             then (let (v, t) = draw_bounded (max 2 (tc_jitter_ticks (tr_config t) + 2)) t;
                       rank = 1 + v; m = tr_metrics t
                   in (rank, delay + uint rank,
                       t\<lparr>tr_metrics := m\<lparr>tm_reordered_packets := tm_reordered_packets m + 1\<rparr>\<rparr>))
             else (0, delay, t));
          scheduled = unat now + nat delay;
          bounded_tick = (of_nat (min scheduled u32_max) :: u32)
      in t\<lparr>tr_queue := tr_queue t @
             [\<lparr>sd_from = src, sd_to = dst, sd_bytes = bytes, sd_enqueued_at = now,
               sd_scheduled_for = bounded_tick, sd_reorder_rank = reorder_rank,
               sd_ordinal = tr_next_ordinal t, sd_duplicate = duplicate\<rparr>],
           tr_next_ordinal := tr_next_ordinal t + 1,
           tr_queued_bytes := tr_queued_bytes t + length bytes\<rparr>)"

definition draw_loss :: "SeededTransport \<Rightarrow> bool \<times> SeededTransport" where
  "draw_loss t =
     (if tr_burst_remaining t > 0
      then (True, t\<lparr>tr_burst_remaining := tr_burst_remaining t - 1\<rparr>)
      else
        (let (burst, t) = chance (tc_burst_loss_percent (tr_config t)) t
         in if burst
            then (let (v, t) = draw_bounded 3 t in (True, t\<lparr>tr_burst_remaining := 1 + v\<rparr>))
            else chance (tc_loss_percent (tr_config t)) t))"

definition send :: "Endpoint \<Rightarrow> Endpoint \<Rightarrow> byte list \<Rightarrow> LogicalTick \<Rightarrow> SeededTransport
    \<Rightarrow> unit Result \<times> SeededTransport" where
  "send src dst bytes now t0 =
     (let m = tr_metrics t0; t = t0\<lparr>tr_metrics := m\<lparr>tm_sent_packets := tm_sent_packets m + 1\<rparr>\<rparr>;
          config = tr_config t in
      if length bytes > kMaxPacketBytes
      then (failure EC_invalid_length (of_nat (length bytes)) 0 ''transport_packet'', t)
      else if tc_loss_percent config > 100 \<or> tc_reorder_percent config > 100
        \<or> tc_duplicate_percent config > 100 \<or> tc_burst_loss_percent config > 100
      then (failure EC_invalid_argument 100 0 ''transport_percent'', t)
      else
        (let (lost, t) = draw_loss t in
         if lost
         then (let m = tr_metrics t
               in (Inr (), t\<lparr>tr_metrics := m\<lparr>tm_dropped_loss := tm_dropped_loss m + 1\<rparr>\<rparr>))
         else
           (let (duplicate, t) = chance (tc_duplicate_percent config) t;
                copies = (if duplicate then 2 else 1)
            in case ensure_capacity copies (length bytes * copies) t of
                 (Inl e, t) \<Rightarrow> (Inl e, t)
               | (Inr _, t) \<Rightarrow>
                   (let t = fold (\<lambda>copy t. enqueue_copy src dst bytes now (copy \<noteq> 0) t) [0..<copies] t;
                        m = tr_metrics t
                    in (Inr (),
                        if duplicate
                        then t\<lparr>tr_metrics := m\<lparr>tm_duplicated_packets := tm_duplicated_packets m + 1\<rparr>\<rparr>
                        else t)))))"

section \<open>Delivering\<close>

text \<open>The key the queue is sorted by; the comparison is the code's.\<close>

datatype schedule_key = ScheduleKey (sk_tick: u32) (sk_rank: u32) (sk_ordinal: u64)

instantiation schedule_key :: linorder
begin

definition less_schedule_key :: "schedule_key \<Rightarrow> schedule_key \<Rightarrow> bool" where
  "left < right \<longleftrightarrow>
     (if sk_tick left \<noteq> sk_tick right then sk_tick left < sk_tick right
      else if sk_rank left \<noteq> sk_rank right then sk_rank left < sk_rank right
      else sk_ordinal left < sk_ordinal right)"

definition less_eq_schedule_key :: "schedule_key \<Rightarrow> schedule_key \<Rightarrow> bool" where
  "left \<le> right \<longleftrightarrow> left = right \<or> left < (right :: schedule_key)"

instance
proof
  fix x y z :: schedule_key
  show "(x < y) = (x \<le> y \<and> \<not> y \<le> x)"
    by (cases x; cases y) (auto simp: less_schedule_key_def less_eq_schedule_key_def split: if_splits)
  show "x \<le> x" by (simp add: less_eq_schedule_key_def)
  show "x \<le> y \<Longrightarrow> y \<le> z \<Longrightarrow> x \<le> z"
    by (cases x; cases y; cases z)
      (auto simp: less_schedule_key_def less_eq_schedule_key_def split: if_splits)
  show "x \<le> y \<Longrightarrow> y \<le> x \<Longrightarrow> x = y"
    by (cases x; cases y) (auto simp: less_schedule_key_def less_eq_schedule_key_def split: if_splits)
  show "x \<le> y \<or> y \<le> x"
    by (cases x; cases y) (auto simp: less_schedule_key_def less_eq_schedule_key_def split: if_splits)
qed

end

definition schedule_key :: "Scheduled \<Rightarrow> schedule_key" where
  "schedule_key s = ScheduleKey (sd_scheduled_for s) (sd_reorder_rank s) (sd_ordinal s)"

text \<open>
  The scan of \<open>deliver\<close> over the sorted queue: the deliveries, the packets that stay, the
  number of bytes that left the queue and the number of packets dropped for their age.
\<close>

fun deliver_scan :: "u32 \<Rightarrow> LogicalTick \<Rightarrow> nat \<Rightarrow> Scheduled list
    \<Rightarrow> Delivery list \<times> Scheduled list \<times> nat \<times> u64" where
  "deliver_scan max_age now budget [] = ([], [], 0, 0)"
| "deliver_scan max_age now budget (s # q) =
     (let age = now - sd_enqueued_at s in
      if age > max_age
      then (let (ds, kept, freed, aged) = deliver_scan max_age now budget q
            in (ds, kept, length (sd_bytes s) + freed, aged + 1))
      else if sd_scheduled_for s \<le> now \<and> length (sd_bytes s) \<le> budget
      then (let (ds, kept, freed, aged) =
                  deliver_scan max_age now (budget - length (sd_bytes s)) q
            in (\<lparr>dl_from = sd_from s, dl_to = sd_to s, dl_bytes = sd_bytes s,
                 dl_enqueued_at = sd_enqueued_at s, dl_delivered_at = now,
                 dl_ordinal = sd_ordinal s, dl_duplicate = sd_duplicate s\<rparr> # ds,
                kept, length (sd_bytes s) + freed, aged))
      else (let (ds, kept, freed, aged) = deliver_scan max_age now budget q
            in (ds, s # kept, freed, aged)))"

definition deliver :: "LogicalTick \<Rightarrow> SeededTransport \<Rightarrow> Delivery list \<times> SeededTransport" where
  "deliver now t =
     (let (ds, kept, freed, aged) =
            deliver_scan (tc_max_packet_age_ticks (tr_config t)) now
              (tc_bandwidth_bytes_per_tick (tr_config t)) (sort_key schedule_key (tr_queue t));
          m = tr_metrics t
      in (ds, t\<lparr>tr_queue := kept, tr_queued_bytes := tr_queued_bytes t - freed,
               tr_metrics := m\<lparr>tm_dropped_age := tm_dropped_age m + aged,
                 tm_delivered_packets := tm_delivered_packets m + of_nat (length ds)\<rparr>\<rparr>))"

definition queued_packets :: "SeededTransport \<Rightarrow> nat" where
  "queued_packets t = length (tr_queue t)"

section \<open>The invariant\<close>

definition bytes_of :: "Scheduled list \<Rightarrow> nat" where
  "bytes_of q = sum_list (map (\<lambda>s. length (sd_bytes s)) q)"

text \<open>
  The byte counter is exact, the queue is within its limits, every packet fits a datagram, and
  every packet that was ever scheduled was delivered, dropped, or is still queued.
\<close>

definition transport_inv :: "SeededTransport \<Rightarrow> bool" where
  "transport_inv t \<longleftrightarrow>
     pcg_ok (tr_random t)
   \<and> tr_queued_bytes t = bytes_of (tr_queue t)
   \<and> length (tr_queue t) \<le> tc_max_queue_packets (tr_config t)
   \<and> tr_queued_bytes t \<le> tc_max_queue_bytes (tr_config t)
   \<and> (\<forall>s \<in> set (tr_queue t). length (sd_bytes s) \<le> kMaxPacketBytes)
   \<and> tm_delivered_packets (tr_metrics t) + tm_dropped_overflow (tr_metrics t)
       + tm_dropped_age (tr_metrics t) + of_nat (length (tr_queue t)) = tr_next_ordinal t"

lemma bytes_of_simps [simp]:
  "bytes_of [] = 0" "bytes_of (s # q) = length (sd_bytes s) + bytes_of q"
  "bytes_of (q @ q') = bytes_of q + bytes_of q'"
  by (simp_all add: bytes_of_def)

lemma bytes_of_mset: "mset q = mset q' \<Longrightarrow> bytes_of q = bytes_of q'"
  unfolding bytes_of_def by (metis mset_map sum_mset_sum_list)

text \<open>What an operation on the random source alone can change.\<close>

definition same_but_random :: "SeededTransport \<Rightarrow> SeededTransport \<Rightarrow> bool" where
  "same_but_random t t' \<longleftrightarrow>
     (\<exists>r. t' = t\<lparr>tr_random := r\<rparr> \<and> (pcg_ok (tr_random t) \<longrightarrow> pcg_ok r))"

lemma draw_bounded_same: "draw_bounded n t = (v, t') \<Longrightarrow> same_but_random t t'"
  using bounded_ok [of "tr_random t" n]
  by (auto simp: draw_bounded_def same_but_random_def split: prod.splits)

lemma same_refl [simp]: "same_but_random t t"
  by (auto simp: same_but_random_def intro: exI [of _ "tr_random t"])

lemma chance_same: "chance p t = (b, t') \<Longrightarrow> same_but_random t t'"
  by (auto simp: chance_def draw_bounded_same split: if_splits prod.splits)

lemma jitter_delay_same:
  assumes "jitter_delay t = (d, t')"
  shows "same_but_random t t'"
proof (cases "tc_jitter_ticks (tr_config t) > 0")
  case True
  then have "t' = t\<lparr>tr_random := snd (next_u32 (tr_random t))\<rparr>"
    using assms by (auto simp: jitter_delay_def Let_def split: prod.splits)
  then show ?thesis unfolding same_but_random_def by blast
next
  case False
  then show ?thesis using assms by (simp add: jitter_delay_def Let_def)
qed

lemma same_inv: "same_but_random t t' \<Longrightarrow> transport_inv t \<Longrightarrow> transport_inv t'"
  by (auto simp: same_but_random_def transport_inv_def)

lemma enqueue_copy_shape:
  "\<exists>s r m. enqueue_copy src dst bytes now dup t =
      t\<lparr>tr_random := r, tr_metrics := (tr_metrics t)\<lparr>tm_reordered_packets := m\<rparr>,
        tr_queue := tr_queue t @ [s], tr_next_ordinal := tr_next_ordinal t + 1,
        tr_queued_bytes := tr_queued_bytes t + length bytes\<rparr>
    \<and> sd_from s = src \<and> sd_to s = dst \<and> sd_bytes s = bytes \<and> sd_enqueued_at s = now
    \<and> (pcg_ok (tr_random t) \<longrightarrow> pcg_ok r)"
proof -
  obtain d t1 where j: "jitter_delay t = (d, t1)" by fastforce
  obtain b t2 where c: "chance (tc_reorder_percent (tr_config t1)) t1 = (b, t2)" by fastforce
  obtain v t3 where w: "draw_bounded (max 2 (tc_jitter_ticks (tr_config t2) + 2)) t2 = (v, t3)" by fastforce
  from jitter_delay_same [OF j] chance_same [OF c] draw_bounded_same [OF w]
  obtain r1 r2 r3 where r: "t1 = t\<lparr>tr_random := r1\<rparr>" "t2 = t\<lparr>tr_random := r2\<rparr>" "t3 = t\<lparr>tr_random := r3\<rparr>"
    "pcg_ok (tr_random t) \<longrightarrow> pcg_ok r2 \<and> pcg_ok r3"
    by (auto simp: same_but_random_def)
  show ?thesis
  proof (cases b)
    case True
    obtain s where e: "enqueue_copy src dst bytes now dup t =
        t3\<lparr>tr_metrics := (tr_metrics t3)\<lparr>tm_reordered_packets := tm_reordered_packets (tr_metrics t3) + 1\<rparr>,
          tr_queue := tr_queue t3 @ [s], tr_next_ordinal := tr_next_ordinal t3 + 1,
          tr_queued_bytes := tr_queued_bytes t3 + length bytes\<rparr>"
      and s: "sd_from s = src" "sd_to s = dst" "sd_bytes s = bytes" "sd_enqueued_at s = now"
      by (simp add: enqueue_copy_def Let_def j c w True)
    show ?thesis
      by (rule exI [of _ s], rule exI [of _ r3], rule exI [of _ "tm_reordered_packets (tr_metrics t3) + 1"])
        (simp add: e s r)
  next
    case False
    obtain s where e: "enqueue_copy src dst bytes now dup t =
        t2\<lparr>tr_queue := tr_queue t2 @ [s], tr_next_ordinal := tr_next_ordinal t2 + 1,
          tr_queued_bytes := tr_queued_bytes t2 + length bytes\<rparr>"
      and s: "sd_from s = src" "sd_to s = dst" "sd_bytes s = bytes" "sd_enqueued_at s = now"
      by (simp add: enqueue_copy_def Let_def j c False)
    show ?thesis
      by (rule exI [of _ s], rule exI [of _ r2], rule exI [of _ "tm_reordered_packets (tr_metrics t2)"])
        (simp add: e s r)
  qed
qed

lemma enqueue_copies_shape:
  "\<exists>ss r m. fold (\<lambda>copy t. enqueue_copy src dst bytes now (copy \<noteq> (0 :: nat)) t) cs t =
      t\<lparr>tr_random := r, tr_metrics := (tr_metrics t)\<lparr>tm_reordered_packets := m\<rparr>,
        tr_queue := tr_queue t @ ss, tr_next_ordinal := tr_next_ordinal t + of_nat (length cs),
        tr_queued_bytes := tr_queued_bytes t + length cs * length bytes\<rparr>
    \<and> length ss = length cs
    \<and> (\<forall>s \<in> set ss. sd_from s = src \<and> sd_to s = dst \<and> sd_bytes s = bytes \<and> sd_enqueued_at s = now)
    \<and> (pcg_ok (tr_random t) \<longrightarrow> pcg_ok r)"
proof (induction cs arbitrary: t)
  case Nil
  show ?case
    by (intro exI [of _ "[]"] exI [of _ "tr_random t"] exI [of _ "tm_reordered_packets (tr_metrics t)"]) simp
next
  case (Cons c cs)
  obtain s r m where t1: "enqueue_copy src dst bytes now (c \<noteq> 0) t =
      t\<lparr>tr_random := r, tr_metrics := (tr_metrics t)\<lparr>tm_reordered_packets := m\<rparr>,
        tr_queue := tr_queue t @ [s], tr_next_ordinal := tr_next_ordinal t + 1,
        tr_queued_bytes := tr_queued_bytes t + length bytes\<rparr>" (is "_ = ?t1")
    and s: "sd_from s = src \<and> sd_to s = dst \<and> sd_bytes s = bytes \<and> sd_enqueued_at s = now"
    and r: "pcg_ok (tr_random t) \<longrightarrow> pcg_ok r"
    using enqueue_copy_shape [of src dst bytes now "c \<noteq> 0" t] by blast
  from Cons.IH [of ?t1] obtain ss r' m' where
    "fold (\<lambda>copy t. enqueue_copy src dst bytes now (copy \<noteq> (0 :: nat)) t) cs ?t1 =
      ?t1\<lparr>tr_random := r', tr_metrics := (tr_metrics ?t1)\<lparr>tm_reordered_packets := m'\<rparr>,
        tr_queue := tr_queue ?t1 @ ss, tr_next_ordinal := tr_next_ordinal ?t1 + of_nat (length cs),
        tr_queued_bytes := tr_queued_bytes ?t1 + length cs * length bytes\<rparr>"
    "length ss = length cs"
    "\<forall>s \<in> set ss. sd_from s = src \<and> sd_to s = dst \<and> sd_bytes s = bytes \<and> sd_enqueued_at s = now"
    "pcg_ok (tr_random ?t1) \<longrightarrow> pcg_ok r'" by blast
  with t1 s r show ?case
    by (intro exI [of _ "s # ss"] exI [of _ r'] exI [of _ m']) (simp add: algebra_simps)
qed

lemma bytes_of_copies:
  "\<forall>s \<in> set ss. sd_bytes s = bytes \<Longrightarrow> bytes_of ss = length ss * length bytes"
  by (induction ss) simp_all

lemma drop_oldest_inv:
  assumes "transport_inv t"
  shows "transport_inv (drop_oldest t) \<and> tr_config (drop_oldest t) = tr_config t
    \<and> set (tr_queue (drop_oldest t)) \<subseteq> set (tr_queue t)
    \<and> tr_burst_remaining (drop_oldest t) = tr_burst_remaining t"
proof (cases "tr_queue t")
  case Nil
  then show ?thesis using assms by (simp add: drop_oldest_def)
next
  case (Cons s q)
  obtain x r where x: "take_oldest s q = (x, r)" by fastforce
  from take_oldest_mset [OF x] have m: "mset (s # q) = mset (x # r)" by simp
  then have b: "bytes_of (s # q) = bytes_of (x # r)" by (rule bytes_of_mset)
  have sub: "set r \<subseteq> set (s # q)" using m mset_eq_setD by fastforce
  have l: "length r = length q" using take_oldest_length [OF x] .
  have "(of_nat (length (tr_queue t)) :: u64) = of_nat (length r) + 1" by (simp add: Cons l)
  with assms b sub l show ?thesis
    by (auto simp: drop_oldest_def Cons x Let_def transport_inv_def algebra_simps)
qed

lemma drop_until_fits_inv:
  assumes "transport_inv t"
  shows "transport_inv (drop_until_fits p b t) \<and> tr_config (drop_until_fits p b t) = tr_config t
    \<and> set (tr_queue (drop_until_fits p b t)) \<subseteq> set (tr_queue t)"
  using assms
proof (induction p b t rule: drop_until_fits.induct)
  case (1 p b t)
  show ?case
    using 1 drop_oldest_inv [OF 1(2)]
    by (subst drop_until_fits.simps, subst (2) drop_until_fits.simps, subst (3) drop_until_fits.simps)
      (auto split: if_splits)
qed

lemma ensure_capacity_inv:
  assumes "transport_inv t" "ensure_capacity p b t = (r, t')"
  shows "transport_inv t' \<and> tr_config t' = tr_config t \<and> set (tr_queue t') \<subseteq> set (tr_queue t)
    \<and> (ok r \<longrightarrow> \<not> exceeds p b t')"
  using assms drop_until_fits_inv [OF assms(1), of p b]
  by (auto simp: ensure_capacity_def Let_def split: if_splits)

lemma draw_loss_inv:
  assumes "transport_inv t" "draw_loss t = (l, t')"
  shows "transport_inv t' \<and> tr_config t' = tr_config t \<and> tr_queue t' = tr_queue t"
proof (cases "tr_burst_remaining t > 0")
  case True
  with assms show ?thesis by (auto simp: draw_loss_def transport_inv_def)
next
  case False
  obtain b t1 where c: "chance (tc_burst_loss_percent (tr_config t)) t = (b, t1)" by fastforce
  obtain v t2 where w: "draw_bounded 3 t1 = (v, t2)" by fastforce
  obtain l2 t3 where d: "chance (tc_loss_percent (tr_config t1)) t1 = (l2, t3)" by fastforce
  have "t' = (if b then t2\<lparr>tr_burst_remaining := 1 + v\<rparr> else t3)"
    using assms(2) False by (auto simp: draw_loss_def c w d)
  moreover note chance_same [OF c] draw_bounded_same [OF w] chance_same [OF d]
  ultimately show ?thesis using assms(1)
    by (auto simp: same_but_random_def transport_inv_def)
qed

text \<open>Three of the counters are not part of the invariant.\<close>

lemma transport_inv_counters [simp]:
  "transport_inv (t\<lparr>tr_metrics := (tr_metrics t)\<lparr>tm_sent_packets := n\<rparr>\<rparr>) = transport_inv t"
  "transport_inv (t\<lparr>tr_metrics := (tr_metrics t)\<lparr>tm_dropped_loss := n\<rparr>\<rparr>) = transport_inv t"
  "transport_inv (t\<lparr>tr_metrics := (tr_metrics t)\<lparr>tm_duplicated_packets := n\<rparr>\<rparr>) = transport_inv t"
  by (simp_all add: transport_inv_def)

lemma send_inv:
  assumes inv: "transport_inv t" and s: "send src dst bytes now t = (r, t')"
  shows "transport_inv t' \<and> tr_config t' = tr_config t
    \<and> (\<forall>x \<in> set (tr_queue t'). x \<in> set (tr_queue t)
        \<or> sd_from x = src \<and> sd_to x = dst \<and> sd_bytes x = bytes \<and> sd_enqueued_at x = now)"
proof -
  define t1 where "t1 = t\<lparr>tr_metrics := (tr_metrics t)\<lparr>tm_sent_packets := tm_sent_packets (tr_metrics t) + 1\<rparr>\<rparr>"
  have i1: "transport_inv t1" "tr_config t1 = tr_config t" "tr_queue t1 = tr_queue t"
    using inv by (simp_all add: t1_def transport_inv_def)
  obtain lost t2 where l: "draw_loss t1 = (lost, t2)" by fastforce
  note i2 = draw_loss_inv [OF i1(1) l]
  obtain dup t3 where d: "chance (tc_duplicate_percent (tr_config t1)) t2 = (dup, t3)" by fastforce
  have i3: "transport_inv t3" "tr_config t3 = tr_config t" "tr_queue t3 = tr_queue t"
    using same_inv [OF chance_same [OF d]] chance_same [OF d] i2 i1 by (auto simp: same_but_random_def)
  define n :: nat where "n = (if dup then 2 else 1)"
  obtain c t4 where e: "ensure_capacity n (length bytes * n) t3 = (c, t4)" by fastforce
  note i4 = ensure_capacity_inv [OF i3(1) e]
  define t5 where "t5 = fold (\<lambda>copy t. enqueue_copy src dst bytes now (copy \<noteq> 0) t) [0..<n] t4"
  obtain ss r5 m5 where t5: "t5 = t4\<lparr>tr_random := r5, tr_metrics := (tr_metrics t4)\<lparr>tm_reordered_packets := m5\<rparr>,
        tr_queue := tr_queue t4 @ ss, tr_next_ordinal := tr_next_ordinal t4 + of_nat n,
        tr_queued_bytes := tr_queued_bytes t4 + n * length bytes\<rparr>"
    and ss: "length ss = n"
    "\<forall>s \<in> set ss. sd_from s = src \<and> sd_to s = dst \<and> sd_bytes s = bytes \<and> sd_enqueued_at s = now"
    and r5: "pcg_ok (tr_random t4) \<longrightarrow> pcg_ok r5"
    using enqueue_copies_shape [of src dst bytes now "[0..<n]" t4] by (auto simp: t5_def)
  have i5: "transport_inv t5" if "ok c" "length bytes \<le> kMaxPacketBytes"
    using that i4 ss r5 bytes_of_copies [of ss bytes]
    by (auto simp: transport_inv_def t5 exceeds_def algebra_simps)
  have q5: "\<forall>x \<in> set (tr_queue t5). x \<in> set (tr_queue t)
        \<or> sd_from x = src \<and> sd_to x = dst \<and> sd_bytes x = bytes \<and> sd_enqueued_at x = now"
    using i4 i3 ss by (auto simp: t5)
  have res: "t' \<in> {t1, t2\<lparr>tr_metrics := (tr_metrics t2)\<lparr>tm_dropped_loss := tm_dropped_loss (tr_metrics t2) + 1\<rparr>\<rparr>, t4}
    \<or> (length bytes \<le> kMaxPacketBytes \<and> ok c \<and>
       t' \<in> {t5, t5\<lparr>tr_metrics := (tr_metrics t5)\<lparr>tm_duplicated_packets := tm_duplicated_packets (tr_metrics t5) + 1\<rparr>\<rparr>})"
    using s unfolding send_def t1_def [symmetric] Let_def l prod.case d n_def [symmetric] e t5_def [symmetric]
    by (auto split: if_splits sum.splits)
  have c5: "tr_config t5 = tr_config t" using i4 i3 by (simp add: t5)
  from res show ?thesis
  proof
    assume "t' \<in> {t1, t2\<lparr>tr_metrics := (tr_metrics t2)\<lparr>tm_dropped_loss := tm_dropped_loss (tr_metrics t2) + 1\<rparr>\<rparr>, t4}"
    then show ?thesis using i1 i2 i3 i4 by auto
  next
    assume "length bytes \<le> kMaxPacketBytes \<and> ok c \<and>
       t' \<in> {t5, t5\<lparr>tr_metrics := (tr_metrics t5)\<lparr>tm_duplicated_packets := tm_duplicated_packets (tr_metrics t5) + 1\<rparr>\<rparr>}"
    then show ?thesis using i5 c5 q5 by auto
  qed
qed

subsection \<open>What a delivery is\<close>

definition delivery_of :: "LogicalTick \<Rightarrow> Scheduled \<Rightarrow> Delivery" where
  "delivery_of now s = \<lparr>dl_from = sd_from s, dl_to = sd_to s, dl_bytes = sd_bytes s,
     dl_enqueued_at = sd_enqueued_at s, dl_delivered_at = now, dl_ordinal = sd_ordinal s,
     dl_duplicate = sd_duplicate s\<rparr>"

definition fresh :: "u32 \<Rightarrow> LogicalTick \<Rightarrow> Scheduled \<Rightarrow> bool" where
  "fresh max_age now s \<longleftrightarrow> now - sd_enqueued_at s \<le> max_age"

definition due :: "LogicalTick \<Rightarrow> Scheduled \<Rightarrow> bool" where
  "due now s \<longleftrightarrow> sd_scheduled_for s \<le> now"

lemma deliver_scan_cases:
  "deliver_scan max_age now budget (s # q) =
     (if \<not> fresh max_age now s
      then (case deliver_scan max_age now budget q of (ds, kept, freed, aged) \<Rightarrow>
              (ds, kept, length (sd_bytes s) + freed, aged + 1))
      else if due now s \<and> length (sd_bytes s) \<le> budget
      then (case deliver_scan max_age now (budget - length (sd_bytes s)) q of (ds, kept, freed, aged) \<Rightarrow>
              (delivery_of now s # ds, kept, length (sd_bytes s) + freed, aged))
      else (case deliver_scan max_age now budget q of (ds, kept, freed, aged) \<Rightarrow>
              (ds, s # kept, freed, aged)))"
  unfolding deliver_scan.simps fresh_def due_def delivery_of_def Let_def not_le by (rule refl)

declare deliver_scan.simps(2) [simp del]

text \<open>
  The packets of the queue split into delivered ones, which are fresh and due and fit the budget,
  kept ones, which are fresh, and expired ones.
\<close>

lemma deliver_scan_spec:
  assumes "deliver_scan max_age now budget q = (ds, kept, freed, aged)"
  shows "\<exists>sent expired. ds = map (delivery_of now) sent
    \<and> subseq sent q \<and> subseq kept q \<and> mset q = mset sent + mset kept + mset expired
    \<and> (\<forall>s \<in> set sent. fresh max_age now s \<and> due now s)
    \<and> (\<forall>s \<in> set kept. fresh max_age now s)
    \<and> (\<forall>s \<in> set expired. \<not> fresh max_age now s)
    \<and> bytes_of sent \<le> budget \<and> bytes_of q = bytes_of kept + freed
    \<and> aged = of_nat (length expired)"
  using assms
proof (induction q arbitrary: budget ds kept freed aged)
  case Nil
  then show ?case by (intro exI [of _ "[]"]) simp
next
  case (Cons s q)
  let ?b = "length (sd_bytes s)"
  consider (old) "\<not> fresh max_age now s" | (go) "fresh max_age now s" "due now s" "?b \<le> budget"
    | (stay) "fresh max_age now s" "\<not> (due now s \<and> ?b \<le> budget)" by blast
  then show ?case
  proof cases
    case old
    obtain freed' aged' where r: "deliver_scan max_age now budget q = (ds, kept, freed', aged')"
      and e: "freed = ?b + freed'" "aged = aged' + 1"
      using Cons.prems old by (auto simp: deliver_scan_cases split: prod.splits)
    from Cons.IH [OF r] obtain sent expired where
      "ds = map (delivery_of now) sent \<and> subseq sent q \<and> subseq kept q
        \<and> mset q = mset sent + mset kept + mset expired
        \<and> (\<forall>s \<in> set sent. fresh max_age now s \<and> due now s)
        \<and> (\<forall>s \<in> set kept. fresh max_age now s) \<and> (\<forall>s \<in> set expired. \<not> fresh max_age now s)
        \<and> bytes_of sent \<le> budget \<and> bytes_of q = bytes_of kept + freed'
        \<and> aged' = of_nat (length expired)" by blast
    with old e show ?thesis
      by (intro exI [of _ sent] exI [of _ "s # expired"]) (auto intro: list_emb_Cons)
  next
    case go
    obtain ds' freed' where r: "deliver_scan max_age now (budget - ?b) q = (ds', kept, freed', aged)"
      and e: "freed = ?b + freed'" "ds = delivery_of now s # ds'"
      using Cons.prems go by (auto simp: deliver_scan_cases split: prod.splits)
    from Cons.IH [OF r] obtain sent expired where
      "ds' = map (delivery_of now) sent \<and> subseq sent q \<and> subseq kept q
        \<and> mset q = mset sent + mset kept + mset expired
        \<and> (\<forall>s \<in> set sent. fresh max_age now s \<and> due now s)
        \<and> (\<forall>s \<in> set kept. fresh max_age now s) \<and> (\<forall>s \<in> set expired. \<not> fresh max_age now s)
        \<and> bytes_of sent \<le> budget - ?b \<and> bytes_of q = bytes_of kept + freed'
        \<and> aged = of_nat (length expired)" by blast
    with go e show ?thesis
      by (intro exI [of _ "s # sent"] exI [of _ expired]) (auto intro: list_emb_Cons)
  next
    case stay
    obtain kept' where r: "deliver_scan max_age now budget q = (ds, kept', freed, aged)"
      and e: "kept = s # kept'"
      using Cons.prems stay by (auto simp: deliver_scan_cases split: prod.splits)
    from Cons.IH [OF r] obtain sent expired where
      "ds = map (delivery_of now) sent \<and> subseq sent q \<and> subseq kept' q
        \<and> mset q = mset sent + mset kept' + mset expired
        \<and> (\<forall>s \<in> set sent. fresh max_age now s \<and> due now s)
        \<and> (\<forall>s \<in> set kept'. fresh max_age now s) \<and> (\<forall>s \<in> set expired. \<not> fresh max_age now s)
        \<and> bytes_of sent \<le> budget \<and> bytes_of q = bytes_of kept' + freed
        \<and> aged = of_nat (length expired)" by blast
    with stay e show ?thesis
      by (intro exI [of _ sent] exI [of _ expired]) (auto intro: list_emb_Cons)
  qed
qed

text \<open>With enough bandwidth for what is due, everything due and fresh is delivered.\<close>

lemma deliver_scan_enough:
  assumes "bytes_of (filter (\<lambda>s. fresh max_age now s \<and> due now s) q) \<le> budget"
  shows "\<exists>freed aged. deliver_scan max_age now budget q =
    (map (delivery_of now) (filter (\<lambda>s. fresh max_age now s \<and> due now s) q),
     filter (\<lambda>s. fresh max_age now s \<and> \<not> due now s) q, freed, aged)"
  using assms
proof (induction q arbitrary: budget)
  case (Cons s q)
  show ?case
  proof (cases "fresh max_age now s \<and> due now s")
    case True
    with Cons.prems have "length (sd_bytes s) \<le> budget"
      "bytes_of (filter (\<lambda>s. fresh max_age now s \<and> due now s) q) \<le> budget - length (sd_bytes s)" by simp_all
    with True Cons.IH [of "budget - length (sd_bytes s)"] show ?thesis
      by (auto simp: deliver_scan_cases)
  next
    case False
    with Cons.prems Cons.IH [of budget] show ?thesis by (auto simp: deliver_scan_cases)
  qed
qed simp

lemma sorted_map_subseq: "subseq xs ys \<Longrightarrow> sorted (map f ys) \<Longrightarrow> sorted (map f xs)"
proof (induction rule: list_emb.induct)
  case (list_emb_Cons2 x y xs ys)
  have "set xs \<subseteq> set ys" using list_emb_set [OF list_emb_Cons2(2)] by blast
  with list_emb_Cons2 show ?case by auto
qed auto

lemma deliver_spec:
  assumes inv: "transport_inv t" and d: "deliver now t = (ds, t')"
  shows "transport_inv t' \<and> tr_config t' = tr_config t
    \<and> (\<exists>sent expired. ds = map (delivery_of now) sent
        \<and> mset (tr_queue t) = mset sent + mset (tr_queue t') + mset expired
        \<and> sorted (map schedule_key sent)
        \<and> (\<forall>s \<in> set sent. fresh (tc_max_packet_age_ticks (tr_config t)) now s \<and> due now s)
        \<and> (\<forall>s \<in> set (tr_queue t'). fresh (tc_max_packet_age_ticks (tr_config t)) now s)
        \<and> (\<forall>s \<in> set expired. \<not> fresh (tc_max_packet_age_ticks (tr_config t)) now s)
        \<and> bytes_of sent \<le> tc_bandwidth_bytes_per_tick (tr_config t))"
proof -
  let ?q = "sort_key schedule_key (tr_queue t)" and ?age = "tc_max_packet_age_ticks (tr_config t)"
  obtain kept freed aged where
    scan: "deliver_scan ?age now (tc_bandwidth_bytes_per_tick (tr_config t)) ?q = (ds, kept, freed, aged)"
    and t': "t' = t\<lparr>tr_queue := kept, tr_queued_bytes := tr_queued_bytes t - freed,
               tr_metrics := (tr_metrics t)\<lparr>tm_dropped_age := tm_dropped_age (tr_metrics t) + aged,
                 tm_delivered_packets := tm_delivered_packets (tr_metrics t) + of_nat (length ds)\<rparr>\<rparr>"
    using d by (auto simp: deliver_def Let_def split: prod.splits)
  from deliver_scan_spec [OF scan] obtain sent expired where
    s: "ds = map (delivery_of now) sent" "subseq sent ?q" "subseq kept ?q"
      "mset ?q = mset sent + mset kept + mset expired"
      "\<forall>s \<in> set sent. fresh ?age now s \<and> due now s" "\<forall>s \<in> set kept. fresh ?age now s"
      "\<forall>s \<in> set expired. \<not> fresh ?age now s"
      "bytes_of sent \<le> tc_bandwidth_bytes_per_tick (tr_config t)"
      "bytes_of ?q = bytes_of kept + freed" "aged = of_nat (length expired)" by blast
  have m: "mset (tr_queue t) = mset sent + mset kept + mset expired" using s(4) by simp
  then have "size (mset (tr_queue t)) = size (mset sent + mset kept + mset expired)" by simp
  then have len: "length (tr_queue t) = length sent + length kept + length expired" by simp
  have b: "bytes_of (tr_queue t) = bytes_of kept + freed"
    using s(9) bytes_of_mset [of ?q "tr_queue t"] by simp
  have sub: "set kept \<subseteq> set (tr_queue t)"
    using arg_cong [OF m, of set_mset] by auto
  have "sorted (map schedule_key sent)"
    by (rule sorted_map_subseq [OF s(2)]) simp
  moreover have "transport_inv t'"
    using inv b sub len by (auto simp: transport_inv_def t' s(1) s(10) algebra_simps)
  ultimately show ?thesis using s m by (auto simp: t')
qed

section \<open>The interface of a network\<close>

text \<open>
  What a peer relies on. \<open>contents\<close> is what is in flight: sender, receiver, bytes and the tick of
  sending. A network may lose, delay, duplicate and reorder; it may not invent or alter.
\<close>

locale datagram_network =
  fixes inv :: "'t \<Rightarrow> bool"
    and contents :: "'t \<Rightarrow> (Endpoint \<times> Endpoint \<times> byte list \<times> LogicalTick) set"
    and transmit :: "Endpoint \<Rightarrow> Endpoint \<Rightarrow> byte list \<Rightarrow> LogicalTick \<Rightarrow> 't \<Rightarrow> unit Result \<times> 't"
    and poll :: "LogicalTick \<Rightarrow> 't \<Rightarrow> Delivery list \<times> 't"
  assumes transmit_inv: "inv t \<Longrightarrow> inv (snd (transmit src dst bytes now t))"
    and transmit_contents: "inv t \<Longrightarrow>
      contents (snd (transmit src dst bytes now t)) \<subseteq> insert (src, dst, bytes, now) (contents t)"
    and poll_inv: "inv t \<Longrightarrow> inv (snd (poll now t))"
    and poll_contents: "inv t \<Longrightarrow> contents (snd (poll now t)) \<subseteq> contents t"
    and poll_sent: "inv t \<Longrightarrow> d \<in> set (fst (poll now t))
      \<Longrightarrow> (dl_from d, dl_to d, dl_bytes d, dl_enqueued_at d) \<in> contents t"
begin

text \<open>A property of everything in flight is a property of everything that is delivered.\<close>

lemma transmit_all:
  assumes "inv t" "\<forall>x \<in> contents t. P x" "P (src, dst, bytes, now)"
  shows "inv (snd (transmit src dst bytes now t)) \<and> (\<forall>x \<in> contents (snd (transmit src dst bytes now t)). P x)"
  using assms transmit_inv transmit_contents [OF assms(1)] by blast

lemma poll_all:
  assumes "inv t" "\<forall>x \<in> contents t. P x"
  shows "inv (snd (poll now t)) \<and> (\<forall>x \<in> contents (snd (poll now t)). P x)
    \<and> (\<forall>d \<in> set (fst (poll now t)). P (dl_from d, dl_to d, dl_bytes d, dl_enqueued_at d))"
  using assms poll_inv poll_contents [OF assms(1)] poll_sent [OF assms(1)] by blast

end

definition in_flight :: "SeededTransport \<Rightarrow> (Endpoint \<times> Endpoint \<times> byte list \<times> LogicalTick) set" where
  "in_flight t = (\<lambda>s. (sd_from s, sd_to s, sd_bytes s, sd_enqueued_at s)) ` set (tr_queue t)"

interpretation seeded: datagram_network transport_inv in_flight send deliver
proof
  fix t :: SeededTransport and src dst bytes now
  assume i: "transport_inv t"
  show "transport_inv (snd (send src dst bytes now t))"
    using send_inv [OF i, of src dst bytes now] by (cases "send src dst bytes now t") auto
  show "in_flight (snd (send src dst bytes now t)) \<subseteq> insert (src, dst, bytes, now) (in_flight t)"
    using send_inv [OF i, of src dst bytes now]
    by (cases "send src dst bytes now t") (fastforce simp: in_flight_def)
next
  fix t :: SeededTransport and now d
  assume i: "transport_inv t"
  obtain ds t' where d: "deliver now t = (ds, t')" by fastforce
  note sp = deliver_spec [OF i d]
  show "transport_inv (snd (deliver now t))" using sp d by simp
  from sp obtain sent expired where s: "ds = map (delivery_of now) sent"
    "mset (tr_queue t) = mset sent + mset (tr_queue t') + mset expired" by blast
  from arg_cong [OF s(2), of set_mset] have q: "set (tr_queue t) = set sent \<union> set (tr_queue t') \<union> set expired"
    by simp
  then show "in_flight (snd (deliver now t)) \<subseteq> in_flight t" using d by (auto simp: in_flight_def)
  assume "d \<in> set (fst (deliver now t))"
  then show "(dl_from d, dl_to d, dl_bytes d, dl_enqueued_at d) \<in> in_flight t"
    using d s(1) q by (auto simp: in_flight_def delivery_of_def)
qed

section \<open>What the network promises\<close>

datatype net_event = NetSend Endpoint Endpoint "byte list" LogicalTick | NetDeliver LogicalTick

fun net_run :: "net_event list \<Rightarrow> SeededTransport \<Rightarrow> Delivery list \<times> SeededTransport" where
  "net_run [] t = ([], t)"
| "net_run (NetSend src dst bytes now # es) t = net_run es (snd (send src dst bytes now t))"
| "net_run (NetDeliver now # es) t =
     (let (ds, t') = deliver now t; (ds', t'') = net_run es t' in (ds @ ds', t''))"

lemma make_transport_inv: "transport_inv (make_transport config)"
  by (simp add: make_transport_def transport_inv_def)

lemma net_run_all:
  assumes "transport_inv t" "\<forall>x \<in> in_flight t. P x"
    and "\<And>src dst bytes now. NetSend src dst bytes now \<in> set es \<Longrightarrow> P (src, dst, bytes, now)"
  shows "transport_inv (snd (net_run es t))
    \<and> (\<forall>d \<in> set (fst (net_run es t)). P (dl_from d, dl_to d, dl_bytes d, dl_enqueued_at d))"
  using assms
proof (induction es t rule: net_run.induct)
  case (2 src dst bytes now es t)
  have "P (src, dst, bytes, now)" using "2.prems"(3) by simp
  from seeded.transmit_all [OF "2.prems"(1,2) this] "2.IH" "2.prems"(3) show ?case by simp
next
  case (3 now es t)
  obtain ds t' where d: "deliver now t = (ds, t')" by fastforce
  from seeded.poll_all [OF "3.prems"(1,2), of now] d
  have "transport_inv t'" "\<forall>x \<in> in_flight t'. P x"
    "\<forall>d \<in> set ds. P (dl_from d, dl_to d, dl_bytes d, dl_enqueued_at d)" by simp_all
  with "3.IH" [OF d [symmetric] refl] "3.prems"(3) d show ?case
    by (auto split: prod.splits)
qed simp

text \<open>
  C32. The network never invents, alters or misroutes a datagram: in any run of the simulator
  from its initial state, whatever its configuration, each delivery carries the bytes, the
  sender, the receiver and the sending tick of some send of the run.
\<close>

theorem network_delivers_only_sent:
  "d \<in> set (fst (net_run es (make_transport config))) \<Longrightarrow>
     NetSend (dl_from d) (dl_to d) (dl_bytes d) (dl_enqueued_at d) \<in> set es"
proof -
  assume d: "d \<in> set (fst (net_run es (make_transport config)))"
  have "\<forall>x \<in> in_flight (make_transport config). case x of (src, dst, bytes, now) \<Rightarrow> NetSend src dst bytes now \<in> set es"
    by (simp add: in_flight_def make_transport_def)
  from net_run_all [OF make_transport_inv this] d show ?thesis by fastforce
qed

definition sample_transport :: SeededTransport where
  "sample_transport = snd (net_run [NetSend EP_a EP_b [1, 2] 0] (make_transport default_transport_config))"

lemma sample_transport_eq:
  "sample_transport = (make_transport default_transport_config)
     \<lparr>tr_queue := [\<lparr>sd_from = EP_a, sd_to = EP_b, sd_bytes = [1, 2], sd_enqueued_at = 0,
        sd_scheduled_for = 0, sd_reorder_rank = 0, sd_ordinal = 0, sd_duplicate = False\<rparr>],
      tr_next_ordinal := 1, tr_queued_bytes := 2,
      tr_metrics := (tr_metrics (make_transport default_transport_config))\<lparr>tm_sent_packets := 1\<rparr>\<rparr>"
  by (simp add: sample_transport_def make_transport_def default_transport_config_def send_def
      draw_loss_def chance_def ensure_capacity_def exceeds_def enqueue_copy_def jitter_delay_def
      kMaxPacketBytes_def u32_max_def Let_def)

lemma sample_delivery:
  "fst (deliver 0 sample_transport)
    = [\<lparr>dl_from = EP_a, dl_to = EP_b, dl_bytes = [1, 2], dl_enqueued_at = 0, dl_delivered_at = 0,
        dl_ordinal = 0, dl_duplicate = False\<rparr>]"
  by (simp add: sample_transport_eq deliver_def deliver_scan_cases fresh_def due_def delivery_of_def
      make_transport_def default_transport_config_def Let_def)

lemma net_run_sample:
  "net_run [NetSend EP_a EP_b [1, 2] 0, NetDeliver 0] (make_transport default_transport_config)
    = deliver 0 sample_transport"
  by (simp add: sample_transport_def Let_def split: prod.split)

theorem network_delivers_only_sent_witness:
  "\<exists>d. d \<in> set (fst (net_run [NetSend EP_a EP_b [1, 2] 0, NetDeliver 0]
      (make_transport default_transport_config)))
    \<and> NetSend (dl_from d) (dl_to d) (dl_bytes d) (dl_enqueued_at d)
        \<in> set [NetSend EP_a EP_b [1, 2] 0, NetDeliver 0]"
  using network_delivers_only_sent [of _ "[NetSend EP_a EP_b [1, 2] 0, NetDeliver 0]" default_transport_config]
    sample_delivery net_run_sample by fastforce

text \<open>
  C33. In every run the queue's byte counter is exact, the queue stays within its packet and byte
  limits, and no packet is lost track of: delivered, dropped for overflow, dropped for age and
  queued packets add up to the packets ever scheduled.
\<close>

theorem network_accounts_for_packets:
  "transport_inv (snd (net_run es (make_transport config)))"
  using net_run_all [OF make_transport_inv, where P = "\<lambda>_. True"] by blast

text \<open>
  A delivery round delivers only packets that are due and not too old, in the order of
  their schedule, and not more bytes than the bandwidth; it drops exactly the packets that are
  too old; everything else stays queued.
\<close>

theorem deliver_round:
  assumes "transport_inv t" and "deliver now t = (ds, t')"
  shows "\<exists>sent expired. ds = map (delivery_of now) sent
        \<and> mset (tr_queue t) = mset sent + mset (tr_queue t') + mset expired
        \<and> sorted (map schedule_key sent)
        \<and> (\<forall>s \<in> set sent. fresh (tc_max_packet_age_ticks (tr_config t)) now s \<and> due now s)
        \<and> (\<forall>s \<in> set (tr_queue t'). fresh (tc_max_packet_age_ticks (tr_config t)) now s)
        \<and> (\<forall>s \<in> set expired. \<not> fresh (tc_max_packet_age_ticks (tr_config t)) now s)
        \<and> bytes_of sent \<le> tc_bandwidth_bytes_per_tick (tr_config t)"
  using deliver_spec [OF assms] by blast

theorem deliver_round_witness:
  "\<exists>sent expired. fst (deliver 0 sample_transport) = map (delivery_of 0) sent
     \<and> mset (tr_queue sample_transport)
        = mset sent + mset (tr_queue (snd (deliver 0 sample_transport))) + mset expired"
proof -
  have "transport_inv sample_transport"
    unfolding sample_transport_def using net_run_all [OF make_transport_inv, where P = "\<lambda>_. True"] by blast
  from deliver_round [OF this prod.collapse [symmetric]] show ?thesis by blast
qed

text \<open>
  Nothing that is due waits without a reason: when the bandwidth suffices for the packets
  that are due and fresh, the round delivers all of them, and no due packet stays queued.
\<close>

theorem deliver_all_due:
  assumes "bytes_of (filter (\<lambda>s. fresh (tc_max_packet_age_ticks (tr_config t)) now s \<and> due now s) (tr_queue t))
    \<le> tc_bandwidth_bytes_per_tick (tr_config t)"
  shows "fst (deliver now t) = map (delivery_of now) (filter
      (\<lambda>s. fresh (tc_max_packet_age_ticks (tr_config t)) now s \<and> due now s) (sort_key schedule_key (tr_queue t)))
    \<and> filter (due now) (tr_queue (snd (deliver now t))) = []"
proof -
  let ?age = "tc_max_packet_age_ticks (tr_config t)" and ?q = "sort_key schedule_key (tr_queue t)"
  have "mset (filter (\<lambda>s. fresh ?age now s \<and> due now s) ?q)
      = mset (filter (\<lambda>s. fresh ?age now s \<and> due now s) (tr_queue t))" by (simp add: mset_filter)
  from bytes_of_mset [OF this] assms
  have "bytes_of (filter (\<lambda>s. fresh ?age now s \<and> due now s) ?q) \<le> tc_bandwidth_bytes_per_tick (tr_config t)"
    by simp
  from deliver_scan_enough [OF this] show ?thesis
    by (auto simp: deliver_def Let_def filter_empty_conv)
qed

theorem deliver_all_due_witness:
  "filter (due 0) (tr_queue (snd (deliver 0 sample_transport))) = []"
proof -
  have "bytes_of (filter (\<lambda>s. fresh (tc_max_packet_age_ticks (tr_config sample_transport)) 0 s \<and> due 0 s)
      (tr_queue sample_transport)) \<le> tc_bandwidth_bytes_per_tick (tr_config sample_transport)"
    by (simp add: sample_transport_eq make_transport_def default_transport_config_def)
  from deliver_all_due [OF this] show ?thesis by blast
qed

end
