(* ===== verification/FrameRing.thy ===== *)
theory FrameRing
  imports Core
begin

text \<open>
  \<open>netcode/frame_ring.hpp\<close>: the fixed-capacity store of values tagged with their frame. The slots
  are a map from the slot index to the slot; an index outside its domain is a slot whose
  \<open>valid\<close> flag is still false (its default value is never read). The capacity, a template
  parameter, is an argument.

  The locale \<open>frame_store\<close> states what the session relies on (a value is found under the frame
  it was stored with until a frame of the same slot replaces it) and derives the window
  lemmas the session's invariant uses. The ring of capacity 256 is its interpretation.
\<close>

record 'a ring_slot =
  rs_frame :: FrameNumber
  rs_value :: 'a

type_synonym 'a FrameRing = "nat \<Rightarrow> 'a ring_slot option"

definition ring_empty :: "'a FrameRing" where
  "ring_empty = (\<lambda>_. None)"

definition ring_put :: "nat \<Rightarrow> FrameNumber \<Rightarrow> 'a \<Rightarrow> 'a FrameRing \<Rightarrow> unit Result \<times> 'a FrameRing" where
  "ring_put capacity frame v slots =
     (Inr (), slots(frame_ring_index frame capacity := Some \<lparr>rs_frame = frame, rs_value = v\<rparr>))"

definition ring_get :: "nat \<Rightarrow> FrameNumber \<Rightarrow> 'a FrameRing \<Rightarrow> 'a Result" where
  "ring_get capacity frame slots =
     (case slots (frame_ring_index frame capacity) of
        None \<Rightarrow> failure EC_stale_frame (ucast frame) 0 ''frame_ring''
      | Some slot \<Rightarrow>
          if rs_frame slot \<noteq> frame
          then failure EC_stale_frame (ucast frame) 0 ''frame_ring''
          else Inr (rs_value slot))"

definition ring_contains :: "nat \<Rightarrow> FrameNumber \<Rightarrow> 'a FrameRing \<Rightarrow> bool" where
  "ring_contains capacity frame slots =
     (case slots (frame_ring_index frame capacity) of
        None \<Rightarrow> False
      | Some slot \<Rightarrow> rs_frame slot = frame)"

lemma ring_contains_iff: "ring_contains n f r \<longleftrightarrow> ok (ring_get n f r)"
  by (auto simp: ring_contains_def ring_get_def split: option.split)

lemma ring_get_empty [simp]:
  "ring_get n f ring_empty = failure EC_stale_frame (ucast f) 0 ''frame_ring''"
  by (simp add: ring_get_def ring_empty_def)

section \<open>The interface of a frame store\<close>

locale frame_store =
  fixes put :: "FrameNumber \<Rightarrow> 'a \<Rightarrow> 's \<Rightarrow> 's"
    and get :: "FrameNumber \<Rightarrow> 's \<Rightarrow> 'a Result"
    and clash :: "FrameNumber \<Rightarrow> FrameNumber \<Rightarrow> bool"
    and window :: nat
  assumes get_put_same: "get f (put f v s) = Inr v"
    and get_put_other: "\<not> clash f g \<Longrightarrow> get g (put f v s) = get g s"
    and get_put_clash: "clash f g \<Longrightarrow> f \<noteq> g
      \<Longrightarrow> get g (put f v s) = failure EC_stale_frame (ucast g) 0 ''frame_ring''"
    and window_free: "i < 4294967296 \<Longrightarrow> j < 4294967296 \<Longrightarrow> i < j + window \<Longrightarrow> j < i + window
      \<Longrightarrow> i \<noteq> j \<Longrightarrow> \<not> clash (of_nat i) (of_nat j)"
begin

lemma get_put_nat:
  assumes "i < 4294967296" "j < 4294967296" "i < j + window" "j < i + window"
  shows "get (of_nat j) (put (of_nat i) v s) = (if i = j then Inr v else get (of_nat j) s)"
  using assms get_put_same get_put_other window_free by auto

lemma get_put_Inr:
  assumes "get g (put f v s) = Inr x"
  shows "(f = g \<and> x = v) \<or> (f \<noteq> g \<and> get g s = Inr x)"
proof (cases "f = g")
  case True
  with assms show ?thesis by (simp add: get_put_same)
next
  case False
  with assms show ?thesis
    by (cases "clash f g") (auto simp: get_put_clash get_put_other)
qed

text \<open>Storing the next frame shifts a full window by one.\<close>

lemma window_put:
  assumes "\<And>i. lo \<le> i \<Longrightarrow> i < hi \<Longrightarrow> get (of_nat i) s = Inr (S i)"
    and "hi < 4294967296" and "hi < lo + window"
    and "lo \<le> i" and "i \<le> hi"
  shows "get (of_nat i) (put (of_nat hi) v s) = Inr ((S(hi := v)) i)"
  using assms by (subst get_put_nat) auto

end

definition same_slot :: "nat \<Rightarrow> FrameNumber \<Rightarrow> FrameNumber \<Rightarrow> bool" where
  "same_slot capacity f g \<longleftrightarrow> frame_ring_index f capacity = frame_ring_index g capacity"

lemma mod_window_inj:
  assumes "(i::nat) < j + n" "j < i + n" "i mod n = j mod n"
  shows "i = j"
proof (cases "i \<le> j")
  case True
  with assms have "(j - i) mod n = 0" by (metis mod_eq_dvd_iff_nat mod_0_imp_dvd dvd_imp_mod_0)
  moreover have "j - i < n" using assms True by linarith
  ultimately show ?thesis using True by simp
next
  case False
  with assms have "(i - j) mod n = 0" by (metis mod_eq_dvd_iff_nat dvd_imp_mod_0 nat_le_linear)
  moreover have "i - j < n" using assms False by linarith
  ultimately show ?thesis using False by simp
qed

lemma same_slot_window:
  assumes "i < 4294967296" "j < 4294967296" "i < j + n" "j < i + n" "i \<noteq> j"
  shows "\<not> same_slot n (of_nat i) (of_nat j)"
  using assms mod_window_inj [of i j n]
  by (auto simp: same_slot_def frame_ring_index_def unat_of_nat_u32)

definition kHistoryCapacity :: nat where
  "kHistoryCapacity = 256"

interpretation history: frame_store
  "\<lambda>f v (r :: 'a FrameRing). snd (ring_put kHistoryCapacity f v r)"
  "\<lambda>f (r :: 'a FrameRing). ring_get kHistoryCapacity f r"
  "same_slot kHistoryCapacity"
  kHistoryCapacity
proof unfold_locales
  show "\<not> same_slot kHistoryCapacity (of_nat i) (of_nat j)"
    if "i < 4294967296" "j < 4294967296" "i < j + kHistoryCapacity" "j < i + kHistoryCapacity"
      "i \<noteq> j" for i j
    using that by (rule same_slot_window)
qed (auto simp: ring_put_def ring_get_def same_slot_def split: option.split)

text \<open>
  The frame ring is a map of the frames: storing a value makes it the value of its frame,
  removes exactly the other frames of the same slot, and leaves every other frame alone.
\<close>

theorem ring_put_refines_map:
  "ok (fst (ring_put n f v r))
   \<and> ring_get n g (snd (ring_put n f v r)) =
      (if g = f then Inr v
       else if same_slot n f g then failure EC_stale_frame (ucast g) 0 ''frame_ring''
       else ring_get n g r)"
  by (auto simp: ring_put_def ring_get_def same_slot_def split: option.split)

end
