(* ===== verification/Session.thy ===== *)
theory Session
  imports FrameRing Simulation
begin

text \<open>
  The \<open>netcode\<close> module: \<open>RollbackSession\<close> (\<open>netcode/session.hpp\<close>, \<open>src/netcode/session.cpp\<close>).
  One record holds the session's fields with the five rings of its \<open>Storage\<close> inlined. Every
  operation returns its result and the session it leaves behind, which after an error may be
  half changed.

  The lemmas here are about single operations: the confirmation loop stops, an
  ingested input is recorded and marks at most one dirty frame, queries are guarded by the
  confirmed boundary. The refinement of the whole session to a canonical lockstep run is in
  \<open>Rollback\<close>.
\<close>

record SessionConfig =
  cfg_local_peer :: PlayerId
  cfg_initial_state :: WorldState
  cfg_max_rollback_frames :: u32
  cfg_variant :: SimulationVariant

definition kDefaultMaxRollbackFrames :: u32 where
  "kDefaultMaxRollbackFrames = 120"

definition default_session_config :: "PlayerId \<Rightarrow> SessionConfig" where
  "default_session_config peer =
     \<lparr>cfg_local_peer = peer, cfg_initial_state = make_initial_world,
      cfg_max_rollback_frames = kDefaultMaxRollbackFrames, cfg_variant = variant_canonical\<rparr>"

record RollbackMetrics =
  m_rollback_count :: u32
  m_total_resimulated_frames :: u64
  m_maximum_rollback_depth :: u32
  m_predicted_input_count :: u64
  m_confirmed_frame :: FrameNumber
  m_late_input_count :: u64

record AdvanceResult =
  ar_simulated_frame :: FrameNumber
  ar_predicted_remote :: bool
  ar_state_hash :: StateHash

record CorrectionResult =
  cr_performed :: bool
  cr_rollback_from :: FrameNumber
  cr_resimulated_frames :: u32

definition default_correction :: CorrectionResult where
  "default_correction = \<lparr>cr_performed = False, cr_rollback_from = 0, cr_resimulated_frames = 0\<rparr>"

record SessionReport =
  sr_local_peer :: PlayerId
  sr_state :: WorldState
  sr_metrics :: RollbackMetrics
  sr_final_hash :: StateHash

record RollbackSession =
  s_config :: SessionConfig
  s_state :: WorldState
  s_local_inputs :: "InputFrame FrameRing"
  s_remote_inputs :: "InputFrame FrameRing"
  s_used_remote_inputs :: "InputFrame FrameRing"
  s_snapshots :: "WorldState FrameRing"
  s_hashes :: "StateHash FrameRing"
  s_earliest_dirty :: "FrameNumber option"
  s_metrics :: RollbackMetrics

abbreviation put_frame :: "FrameNumber \<Rightarrow> 'a \<Rightarrow> 'a FrameRing \<Rightarrow> 'a FrameRing" where
  "put_frame f v r \<equiv> snd (ring_put kHistoryCapacity f v r)"

abbreviation get_frame :: "FrameNumber \<Rightarrow> 'a FrameRing \<Rightarrow> 'a Result" where
  "get_frame f r \<equiv> ring_get kHistoryCapacity f r"

abbreviation has_frame :: "FrameNumber \<Rightarrow> 'a FrameRing \<Rightarrow> bool" where
  "has_frame f r \<equiv> ring_contains kHistoryCapacity f r"

definition make_session :: "SessionConfig \<Rightarrow> RollbackSession" where
  "make_session config =
     \<lparr>s_config = config,
      s_state = cfg_initial_state config,
      s_local_inputs = ring_empty,
      s_remote_inputs = ring_empty,
      s_used_remote_inputs = ring_empty,
      s_snapshots = ring_empty,
      s_hashes = put_frame (ws_frame (cfg_initial_state config))
                   (hash_canonical (cfg_initial_state config)) ring_empty,
      s_earliest_dirty = None,
      s_metrics = \<lparr>m_rollback_count = 0, m_total_resimulated_frames = 0,
        m_maximum_rollback_depth = 0, m_predicted_input_count = 0,
        m_confirmed_frame = ws_frame (cfg_initial_state config), m_late_input_count = 0\<rparr>\<rparr>"

section \<open>Private helpers\<close>

definition same_predicted_value :: "InputFrame \<Rightarrow> InputFrame \<Rightarrow> bool" where
  "same_predicted_value left right \<longleftrightarrow> in_buttons left = in_buttons right"

definition other_peer :: "PlayerId \<Rightarrow> PlayerId" where
  "other_peer p = (if p = PA then PB else PA)"

definition remote_peer :: "RollbackSession \<Rightarrow> PlayerId" where
  "remote_peer s = other_peer (cfg_local_peer (s_config s))"

text \<open>The search of the remote history, from the frame before \<open>frame\<close> backwards.\<close>

fun last_known :: "InputFrame FrameRing \<Rightarrow> FrameNumber \<Rightarrow> nat list \<Rightarrow> InputFrame option" where
  "last_known history frame [] = None"
| "last_known history frame (offset # offsets) =
     (case get_frame (frame - of_nat offset) history of
        Inr known \<Rightarrow> Some (known\<lparr>in_frame := frame\<rparr>)
      | Inl _ \<Rightarrow> last_known history frame offsets)"

definition predicted_remote :: "RollbackSession \<Rightarrow> FrameNumber \<Rightarrow> InputFrame" where
  "predicted_remote s frame =
     (case last_known (s_remote_inputs s) frame [1..<kHistoryCapacity + 1] of
        Some prediction \<Rightarrow> prediction
      | None \<Rightarrow> \<lparr>in_frame = frame, in_player = remote_peer s, in_sequence = 0, in_buttons = 0\<rparr>)"

definition make_pair :: "PlayerId \<Rightarrow> InputFrame \<Rightarrow> InputFrame \<Rightarrow> InputPair" where
  "make_pair local_peer local remote =
     (if local_peer = PA then \<lparr>pair_a = local, pair_b = remote\<rparr>
      else \<lparr>pair_a = remote, pair_b = local\<rparr>)"

definition mark_dirty :: "FrameNumber \<Rightarrow> RollbackSession \<Rightarrow> RollbackSession" where
  "mark_dirty frame s =
     (let s1 = (if s_earliest_dirty s = None \<or> frame_before frame (the (s_earliest_dirty s))
                then s\<lparr>s_earliest_dirty := Some frame\<rparr> else s)
      in if frame_before frame (m_confirmed_frame (s_metrics s1))
         then s1\<lparr>s_metrics := (s_metrics s1)\<lparr>m_confirmed_frame := frame\<rparr>\<rparr>
         else s1)"

text \<open>
  The loop of \<open>update_confirmation\<close>. It stops because the frames \<open>b\<close> and \<open>b + 256\<close> share a
  slot, so that no ring contains 257 consecutive frames.
\<close>

lemma not_has_both:
  "\<not> (has_frame b r \<and> has_frame (b + 256) r)"
proof
  assume h: "has_frame b r \<and> has_frame (b + 256) r"
  have "unat (b + 256) mod 256 = unat b mod 256"
  proof (cases "unat b + 256 < 4294967296")
    case True
    then show ?thesis by (simp add: unat_plus_if')
  next
    case False
    then have "unat (b + 256) = unat b + 256 - 4294967296" by (simp add: unat_plus_if')
    then have "unat b + 256 = unat (b + 256) + 256 * 16777216" using False by simp
    then have "(unat b + 256) mod 256 = (unat (b + 256) + 256 * 16777216) mod 256" by (rule arg_cong)
    then show ?thesis by (simp only: mod_mult_self2 mod_add_self2)
  qed
  with h have "b = b + 256"
    by (auto simp: ring_contains_def frame_ring_index_def kHistoryCapacity_def split: option.splits)
  then show False by simp
qed

lemma ex_not_has: "\<exists>n. \<not> has_frame (b + of_nat n) r"
proof (rule ccontr)
  assume "\<nexists>n. \<not> has_frame (b + of_nat n) r"
  then have "has_frame (b + of_nat 0) r" "has_frame (b + of_nat 256) r" by blast+
  with not_has_both [of b r] show False by simp
qed

function confirm_loop ::
    "InputFrame FrameRing \<Rightarrow> InputFrame FrameRing \<Rightarrow> FrameNumber option \<Rightarrow> FrameNumber
      \<Rightarrow> FrameNumber" where
  "confirm_loop locals remotes dirty boundary =
     (if has_frame boundary locals \<and> has_frame boundary remotes
      then (if dirty \<noteq> None
               \<and> (boundary = the dirty \<or> frame_before (the dirty) boundary)
            then boundary
            else confirm_loop locals remotes dirty (next_frame boundary))
      else boundary)"
  by pat_completeness auto
termination
proof (relation "measure (\<lambda>(l, r, d, b). LEAST n. \<not> has_frame (b + of_nat n) l)")
  fix locals remotes :: "InputFrame FrameRing" and dirty :: "FrameNumber option" and b :: FrameNumber
  assume h: "has_frame b locals \<and> has_frame b remotes"
  let ?P = "\<lambda>n. \<not> has_frame (b + of_nat n) locals"
  obtain n where n: "?P n" using ex_not_has by blast
  have "(LEAST n. ?P n) = Suc (LEAST m. ?P (Suc m))"
    by (rule Least_Suc [where P = ?P and n = n]) (use n h in simp_all)
  moreover have "(\<lambda>m. ?P (Suc m)) = (\<lambda>m. \<not> has_frame (next_frame b + of_nat m) locals)"
    by (simp add: next_frame_def algebra_simps)
  ultimately show "((locals, remotes, dirty, next_frame b), (locals, remotes, dirty, b))
      \<in> measure (\<lambda>(l, r, d, b). LEAST n. \<not> has_frame (b + of_nat n) l)"
    by simp
qed simp

declare confirm_loop.simps [simp del]

definition update_confirmation :: "RollbackSession \<Rightarrow> RollbackSession" where
  "update_confirmation s =
     s\<lparr>s_metrics := (s_metrics s)\<lparr>m_confirmed_frame :=
        confirm_loop (s_local_inputs s) (s_remote_inputs s) (s_earliest_dirty s)
          (m_confirmed_frame (s_metrics s))\<rparr>\<rparr>"

section \<open>Operations\<close>

text \<open>The loop of \<open>flush_corrections\<close>, with the number of frames still to resimulate.\<close>

fun resimulate :: "nat \<Rightarrow> FrameNumber \<Rightarrow> RollbackSession \<Rightarrow> unit Result \<times> RollbackSession" where
  "resimulate 0 frame s = (Inr (), s)"
| "resimulate (Suc n) frame s =
     (case get_frame frame (s_local_inputs s) of
        Inl e \<Rightarrow> (Inl e, s)
      | Inr local \<Rightarrow>
          (let s1 = s\<lparr>s_snapshots := put_frame frame (s_state s) (s_snapshots s)\<rparr>;
               remote = (case get_frame frame (s_remote_inputs s1) of
                           Inr actual \<Rightarrow> actual
                         | Inl _ \<Rightarrow> predicted_remote s1 frame);
               s2 = s1\<lparr>s_used_remote_inputs := put_frame frame remote (s_used_remote_inputs s1)\<rparr>
           in case simulate_frame (s_state s2) frame
                     (make_pair (cfg_local_peer (s_config s2)) local remote)
                     (cfg_variant (s_config s2)) of
                Inl e \<Rightarrow> (Inl e, s2)
              | Inr simulated \<Rightarrow>
                  resimulate n (frame + 1)
                    (s2\<lparr>s_state := simulated,
                        s_hashes := put_frame (ws_frame simulated) (hash_canonical simulated)
                                      (s_hashes s2)\<rparr>)))"

definition flush_corrections :: "RollbackSession \<Rightarrow> CorrectionResult Result \<times> RollbackSession" where
  "flush_corrections s =
     (case s_earliest_dirty s of
        None \<Rightarrow> (Inr default_correction, update_confirmation s)
      | Some dirty \<Rightarrow>
          (let depth = frame_distance dirty (ws_frame (s_state s)) in
           if depth > cfg_max_rollback_frames (s_config s)
           then (failure EC_rollback_window_exceeded (ucast dirty) 0 ''flush_corrections'', s)
           else (case get_frame dirty (s_snapshots s) of
                   Inl e \<Rightarrow> (Inl e, s)
                 | Inr snapshot \<Rightarrow>
                     (case resimulate (unat depth) dirty (s\<lparr>s_state := snapshot\<rparr>) of
                        (Inl e, s1) \<Rightarrow> (Inl e, s1)
                      | (Inr _, s1) \<Rightarrow>
                          (let m = s_metrics s1;
                               s2 = s1\<lparr>s_earliest_dirty := None,
                                       s_metrics := m
                                         \<lparr>m_rollback_count := m_rollback_count m + 1,
                                          m_total_resimulated_frames :=
                                            m_total_resimulated_frames m + ucast depth,
                                          m_maximum_rollback_depth :=
                                            max (m_maximum_rollback_depth m) depth\<rparr>\<rparr>
                           in (Inr \<lparr>cr_performed = True, cr_rollback_from = dirty,
                                   cr_resimulated_frames = depth\<rparr>,
                               update_confirmation s2))))))"

text \<open>The part of \<open>advance\<close> after the pending correction was flushed.\<close>

definition advance_clean :: "InputFrame \<Rightarrow> RollbackSession \<Rightarrow> AdvanceResult Result \<times> RollbackSession" where
  "advance_clean local s =
     (if in_frame local \<noteq> ws_frame (s_state s)
         \<or> in_player local \<noteq> cfg_local_peer (s_config s)
      then (failure EC_frame_mismatch (ucast (in_frame local)) 0 ''session_advance'', s)
      else
        (let (snapshot_result, snapshots) =
               ring_put kHistoryCapacity (ws_frame (s_state s)) (s_state s) (s_snapshots s);
             (local_result, locals) =
               ring_put kHistoryCapacity (in_frame local) local (s_local_inputs s);
             s1 = s\<lparr>s_snapshots := snapshots, s_local_inputs := locals\<rparr>
         in if \<not> ok snapshot_result \<or> \<not> ok local_result
            then (failure EC_capacity_exceeded (ucast (in_frame local)) 0 ''session_history'', s1)
            else
              (let frame = ws_frame (s_state s1);
                   actual = get_frame frame (s_remote_inputs s1);
                   predicted = (\<not> ok actual);
                   remote = (case actual of Inr a \<Rightarrow> a | Inl _ \<Rightarrow> predicted_remote s1 frame);
                   s2 = s1\<lparr>s_used_remote_inputs := put_frame frame remote (s_used_remote_inputs s1)\<rparr>;
                   m = s_metrics s2;
                   s3 = (if predicted
                         then s2\<lparr>s_metrics := m\<lparr>m_predicted_input_count := m_predicted_input_count m + 1\<rparr>\<rparr>
                         else s2)
               in case simulate_frame (s_state s3) frame
                         (make_pair (cfg_local_peer (s_config s3)) local remote)
                         (cfg_variant (s_config s3)) of
                    Inl e \<Rightarrow> (Inl e, s3)
                  | Inr simulated \<Rightarrow>
                      (let state_hash = hash_canonical simulated;
                           s4 = s3\<lparr>s_state := simulated,
                                   s_hashes := put_frame (ws_frame simulated) state_hash (s_hashes s3)\<rparr>
                       in (Inr \<lparr>ar_simulated_frame = frame, ar_predicted_remote = predicted,
                               ar_state_hash = state_hash\<rparr>,
                           update_confirmation s4)))))"

definition advance :: "InputFrame \<Rightarrow> RollbackSession \<Rightarrow> AdvanceResult Result \<times> RollbackSession" where
  "advance local s =
     (if s_earliest_dirty s \<noteq> None
      then (case flush_corrections s of
              (Inl e, s1) \<Rightarrow> (Inl e, s1)
            | (Inr _, s1) \<Rightarrow> advance_clean local s1)
      else advance_clean local s)"

definition ingest_remote :: "InputFrame \<Rightarrow> RollbackSession \<Rightarrow> unit Result \<times> RollbackSession" where
  "ingest_remote remote s =
     (if in_player remote \<noteq> remote_peer s
      then (failure EC_invalid_argument (ucast (player_value (in_player remote))) 0
              ''remote_peer_id'', s)
      else
        (let is_late = frame_before (in_frame remote) (ws_frame (s_state s)) in
         if is_late \<and> frame_distance (in_frame remote) (ws_frame (s_state s))
                        > cfg_max_rollback_frames (s_config s)
         then (failure EC_rollback_window_exceeded (ucast (in_frame remote)) 0 ''remote_input'', s)
         else
           (let newly_observed = (\<not> ok (get_frame (in_frame remote) (s_remote_inputs s)));
                s1 = s\<lparr>s_remote_inputs := put_frame (in_frame remote) remote (s_remote_inputs s)\<rparr>;
                m = s_metrics s1;
                s2 = (if is_late \<and> newly_observed
                      then s1\<lparr>s_metrics := m\<lparr>m_late_input_count := m_late_input_count m + 1\<rparr>\<rparr>
                      else s1);
                s3 = (if is_late
                      then (case get_frame (in_frame remote) (s_used_remote_inputs s2) of
                              Inr used \<Rightarrow> (if \<not> same_predicted_value used remote
                                           then mark_dirty (in_frame remote) s2 else s2)
                            | Inl _ \<Rightarrow> s2)
                      else s2)
            in (Inr (), update_confirmation s3))))"

section \<open>Queries\<close>

definition session_report :: "RollbackSession \<Rightarrow> SessionReport" where
  "session_report s =
     \<lparr>sr_local_peer = cfg_local_peer (s_config s), sr_state = s_state s, sr_metrics = s_metrics s,
      sr_final_hash = hash_canonical (s_state s)\<rparr>"

definition confirmed_input :: "RollbackSession \<Rightarrow> PlayerId \<Rightarrow> FrameNumber \<Rightarrow> InputFrame Result" where
  "confirmed_input s player frame =
     (if \<not> frame_before frame (m_confirmed_frame (s_metrics s))
      then failure EC_stale_frame (ucast frame) 0 ''unconfirmed_input''
      else if player = cfg_local_peer (s_config s)
      then get_frame frame (s_local_inputs s)
      else get_frame frame (s_remote_inputs s))"

definition hash_at :: "RollbackSession \<Rightarrow> FrameNumber \<Rightarrow> StateHash Result" where
  "hash_at s boundary =
     (if frame_before (m_confirmed_frame (s_metrics s)) boundary
      then failure EC_stale_frame (ucast boundary) 0 ''unconfirmed_hash''
      else get_frame boundary (s_hashes s))"

definition state_at :: "RollbackSession \<Rightarrow> FrameNumber \<Rightarrow> WorldState Result" where
  "state_at s boundary =
     (if frame_before (m_confirmed_frame (s_metrics s)) boundary
      then failure EC_stale_frame (ucast boundary) 0 ''unconfirmed_state''
      else if boundary = ws_frame (s_state s) then Inr (s_state s)
      else get_frame boundary (s_snapshots s))"

end
