(* ===== verification/Replay.thy ===== *)
theory Replay
  imports Protocol
begin

text \<open>
  \<open>replay/replay.hpp\<close> and \<open>replay/replay.cpp\<close>: the replay file's encoder and decoder and the
  headless verifier that simulates a replay again and compares checkpoints and the final hash.
  The codec is the second interpretation of \<open>checked_codec\<close>. \<open>replay_state\<close> is the
  specification of the verifier: the world after a number of frames of the recorded inputs.
\<close>

definition kReplayMagic :: u32 where "kReplayMagic = 0x50524C52"
definition kMaxReplayFrames :: nat where "kMaxReplayFrames = 1000000"
definition kMaxReplayCheckpoints :: nat where "kMaxReplayCheckpoints = 100000"
definition kReplayVersion :: u32 where "kReplayVersion = 1"

record ReplayCheckpoint =
  rc_frame :: FrameNumber
  rc_hash :: StateHash

record Replay =
  rp_replay_version :: u16
  rp_simulation_version :: u16
  rp_protocol_version :: u16
  rp_variant :: SimulationVariant
  rp_scenario_seed :: u64
  rp_transport_seed :: u64
  rp_final_frame :: FrameNumber
  rp_confirmed_inputs :: "InputPair list"
  rp_checkpoints :: "ReplayCheckpoint list"
  rp_expected_final_hash :: StateHash

record ReplayVerification =
  rv_success :: bool
  rv_final_frame :: FrameNumber
  rv_actual_final_hash :: StateHash

definition replay_header_size :: nat where "replay_header_size = 48"
definition input_pair_size :: nat where "input_pair_size = 14"
definition checkpoint_size :: nat where "checkpoint_size = 12"
definition replay_checksum_size :: nat where "replay_checksum_size = 4"

definition stored_crc :: "byte list \<Rightarrow> u32" where
  "stored_crc bytes =
     le_word (take replay_checksum_size (drop (length bytes - replay_checksum_size) bytes))"

definition valid_variant :: "SimulationVariant \<Rightarrow> bool" where
  "valid_variant v \<longleftrightarrow> v = variant_canonical \<or> v = variant_damage_bias"

definition replay_versions_ok :: "u16 \<Rightarrow> u16 \<Rightarrow> u16 \<Rightarrow> bool" where
  "replay_versions_ok replay_version simulation_version protocol_version \<longleftrightarrow>
     ucast replay_version = kReplayVersion \<and> ucast simulation_version = kSimulationVersion
     \<and> ucast protocol_version = kProtocolVersion"

section \<open>Encoding\<close>

definition write_pair :: "InputPair \<Rightarrow> ByteWriter \<Rightarrow> ByteWriter" where
  "write_pair p w =
     append_little_endian (in_sequence (pair_b p))
       (append_little_endian (in_buttons (pair_b p))
         (append_little_endian (in_sequence (pair_a p))
           (append_little_endian (in_buttons (pair_a p))
             (append_little_endian (in_frame (pair_a p)) w))))"

fun write_pairs :: "InputPair list \<Rightarrow> ByteWriter \<Rightarrow> ByteWriter Result" where
  "write_pairs [] w = Inr w"
| "write_pairs (p # ps) w =
     (if in_player (pair_a p) \<noteq> PA \<or> in_player (pair_b p) \<noteq> PB
         \<or> in_frame (pair_a p) \<noteq> in_frame (pair_b p)
      then failure EC_invalid_argument (ucast (in_frame (pair_a p))) 0 ''replay_input_pair''
      else write_pairs ps (write_pair p w))"

definition write_checkpoint :: "ReplayCheckpoint \<Rightarrow> ByteWriter \<Rightarrow> ByteWriter" where
  "write_checkpoint c w = append_little_endian (rc_hash c) (append_little_endian (rc_frame c) w)"

definition write_replay_header :: "Replay \<Rightarrow> ByteWriter \<Rightarrow> ByteWriter" where
  "write_replay_header r w =
     append_little_endian (rp_expected_final_hash r)
       (append_little_endian (of_nat (length (rp_checkpoints r)) :: u32)
         (append_little_endian (of_nat (length (rp_confirmed_inputs r)) :: u32)
           (append_little_endian (rp_final_frame r)
             (append_little_endian (rp_transport_seed r)
               (append_little_endian (rp_scenario_seed r)
                 (append_little_endian (0 :: u8)
                   (append_little_endian (rp_variant r)
                     (append_little_endian (rp_protocol_version r)
                       (append_little_endian (rp_simulation_version r)
                         (append_little_endian (rp_replay_version r)
                           (append_little_endian kReplayMagic w)))))))))))"

definition encode_replay :: "Replay \<Rightarrow> byte list Result" where
  "encode_replay r =
     (if \<not> replay_versions_ok (rp_replay_version r) (rp_simulation_version r) (rp_protocol_version r)
      then failure EC_unsupported_version (ucast (rp_replay_version r)) 4 ''replay_versions''
      else if \<not> valid_variant (rp_variant r)
      then failure EC_invalid_argument (ucast (rp_variant r)) 10 ''simulation_variant''
      else if length (rp_confirmed_inputs r) > kMaxReplayFrames
        \<or> length (rp_checkpoints r) > kMaxReplayCheckpoints
        \<or> length (rp_confirmed_inputs r) \<noteq> unat (rp_final_frame r)
      then failure EC_capacity_exceeded (of_nat (length (rp_confirmed_inputs r))) 32 ''replay_counts''
      else case write_pairs (rp_confirmed_inputs r) (write_replay_header r []) of
        Inl e \<Rightarrow> Inl e
      | Inr w \<Rightarrow>
          (let w = fold write_checkpoint (rp_checkpoints r) w
           in Inr (append_little_endian (crc32 w) w)))"

section \<open>Decoding\<close>

fun decode_pairs :: "nat \<Rightarrow> nat \<Rightarrow> ByteReader \<Rightarrow> InputPair list Result \<times> ByteReader" where
  "decode_pairs 0 index r = (Inr [], r)"
| "decode_pairs (Suc n) index r =
     (let (frame :: u32 Result, r) = read_little_endian ''frame'' r;
          (buttons_a :: u8 Result, r) = read_little_endian ''buttons_a'' r;
          (sequence_a :: u32 Result, r) = read_little_endian ''sequence_a'' r;
          (buttons_b :: u8 Result, r) = read_little_endian ''buttons_b'' r;
          (sequence_b :: u32 Result, r) = read_little_endian ''sequence_b'' r
      in if \<not> ok frame \<or> \<not> ok buttons_a \<or> \<not> ok sequence_a \<or> \<not> ok buttons_b \<or> \<not> ok sequence_b
         then (decode_error EC_truncated_data (br_offset r) ''replay_input'' 0, r)
         else if unat (value_or_0 frame) \<noteq> index \<or> value_or_0 buttons_a AND 0xE0 \<noteq> 0
            \<or> value_or_0 buttons_b AND 0xE0 \<noteq> 0
         then (decode_error EC_invalid_argument (br_offset r) ''replay_input'' (ucast (value_or_0 frame)), r)
         else
           (let number = value_or_0 frame;
                pair = \<lparr>pair_a = \<lparr>in_frame = number, in_player = PA,
                                  in_sequence = value_or_0 sequence_a, in_buttons = value_or_0 buttons_a\<rparr>,
                        pair_b = \<lparr>in_frame = number, in_player = PB,
                                  in_sequence = value_or_0 sequence_b, in_buttons = value_or_0 buttons_b\<rparr>\<rparr>
            in case decode_pairs n (Suc index) r of
                 (Inl e, r) \<Rightarrow> (Inl e, r)
               | (Inr ps, r) \<Rightarrow> (Inr (pair # ps), r)))"

text \<open>The previous checkpoint's frame is absent for the first record.\<close>

fun decode_checkpoints :: "nat \<Rightarrow> FrameNumber \<Rightarrow> FrameNumber option \<Rightarrow> ByteReader
    \<Rightarrow> ReplayCheckpoint list Result \<times> ByteReader" where
  "decode_checkpoints 0 final_frame previous r = (Inr [], r)"
| "decode_checkpoints (Suc n) final_frame previous r =
     (let (frame :: u32 Result, r) = read_little_endian ''checkpoint_frame'' r;
          (hash :: u64 Result, r) = read_little_endian ''checkpoint_hash'' r
      in if \<not> ok frame \<or> \<not> ok hash
         then (decode_error EC_truncated_data (br_offset r) ''replay_checkpoint'' 0, r)
         else
           (let number = value_or_0 frame
            in if number > final_frame
                  \<or> previous \<noteq> None \<and> \<not> frame_before (the previous) number
               then (decode_error EC_invalid_argument (br_offset r) ''checkpoint_order'' (ucast number), r)
               else case decode_checkpoints n final_frame (Some number) r of
                   (Inl e, r) \<Rightarrow> (Inl e, r)
                 | (Inr cs, r) \<Rightarrow> (Inr (\<lparr>rc_frame = number, rc_hash = value_or_0 hash\<rparr> # cs), r)))"

text \<open>The records after the header; \<open>p\<close> is the replay with its header fields filled in.\<close>

definition decode_records :: "nat \<Rightarrow> nat \<Rightarrow> Replay \<Rightarrow> ByteReader \<Rightarrow> Replay Result" where
  "decode_records input_count checkpoint_count p r =
     (case decode_pairs input_count 0 r of
        (Inl e, r) \<Rightarrow> Inl e
      | (Inr pairs, r) \<Rightarrow>
          (case decode_checkpoints checkpoint_count (rp_final_frame p) None r of
             (Inl e, r) \<Rightarrow> Inl e
           | (Inr cs, r) \<Rightarrow> Inr (p\<lparr>rp_confirmed_inputs := pairs, rp_checkpoints := cs\<rparr>)))"

definition decode_replay_header :: "nat \<Rightarrow> ByteReader \<Rightarrow> Replay Result" where
  "decode_replay_header file_size r =
     (let (magic :: u32 Result, r) = read_little_endian ''magic'' r;
          (replay_version :: u16 Result, r) = read_little_endian ''replay_version'' r;
          (simulation_version :: u16 Result, r) = read_little_endian ''simulation_version'' r;
          (protocol_version :: u16 Result, r) = read_little_endian ''protocol_version'' r;
          (variant :: u8 Result, r) = read_little_endian ''variant'' r;
          (reserved :: u8 Result, r) = read_little_endian ''reserved'' r;
          (scenario :: u64 Result, r) = read_little_endian ''scenario'' r;
          (transport :: u64 Result, r) = read_little_endian ''transport'' r;
          (final_frame :: u32 Result, r) = read_little_endian ''final_frame'' r;
          (input_count :: u32 Result, r) = read_little_endian ''input_count'' r;
          (checkpoint_count :: u32 Result, r) = read_little_endian ''checkpoint_count'' r;
          (expected_hash :: u64 Result, r) = read_little_endian ''expected_hash'' r
      in if \<not> ok magic \<or> \<not> ok replay_version \<or> \<not> ok simulation_version \<or> \<not> ok protocol_version
            \<or> \<not> ok variant \<or> \<not> ok reserved \<or> \<not> ok scenario \<or> \<not> ok transport \<or> \<not> ok final_frame
            \<or> \<not> ok input_count \<or> \<not> ok checkpoint_count \<or> \<not> ok expected_hash
         then decode_error EC_truncated_data (br_offset r) ''replay_header'' 0
         else if value_or_0 magic \<noteq> kReplayMagic
         then decode_error EC_invalid_magic 0 ''replay_magic'' (ucast (value_or_0 magic))
         else if \<not> replay_versions_ok (value_or_0 replay_version) (value_or_0 simulation_version)
                     (value_or_0 protocol_version)
         then decode_error EC_unsupported_version 4 ''replay_versions'' (ucast (value_or_0 replay_version))
         else if \<not> valid_variant (value_or_0 variant) \<or> value_or_0 reserved \<noteq> 0
         then decode_error EC_invalid_argument 10 ''replay_flags'' (ucast (value_or_0 variant))
         else if unat (value_or_0 input_count) > kMaxReplayFrames
            \<or> unat (value_or_0 checkpoint_count) > kMaxReplayCheckpoints
            \<or> value_or_0 input_count \<noteq> value_or_0 final_frame
         then decode_error EC_capacity_exceeded 32 ''replay_counts'' (ucast (value_or_0 input_count))
         else
           (let expected_size = replay_header_size + unat (value_or_0 input_count) * input_pair_size
                  + unat (value_or_0 checkpoint_count) * checkpoint_size + replay_checksum_size
            in if file_size \<noteq> expected_size
               then decode_error EC_invalid_length (br_offset r) ''replay_size'' (of_nat expected_size)
               else decode_records (unat (value_or_0 input_count)) (unat (value_or_0 checkpoint_count))
                      \<lparr>rp_replay_version = value_or_0 replay_version,
                       rp_simulation_version = value_or_0 simulation_version,
                       rp_protocol_version = value_or_0 protocol_version,
                       rp_variant = value_or_0 variant, rp_scenario_seed = value_or_0 scenario,
                       rp_transport_seed = value_or_0 transport,
                       rp_final_frame = value_or_0 final_frame, rp_confirmed_inputs = [],
                       rp_checkpoints = [], rp_expected_final_hash = value_or_0 expected_hash\<rparr> r))"

definition decode_replay :: "byte list \<Rightarrow> Replay Result" where
  "decode_replay bytes =
     (if length bytes < replay_header_size + replay_checksum_size
      then decode_error EC_truncated_data (length bytes) ''replay'' 0
      else
        (let body = take (length bytes - replay_checksum_size) bytes
         in if stored_crc bytes \<noteq> crc32 body
            then decode_error EC_integrity_mismatch (length bytes - replay_checksum_size) ''replay_crc'' 0
            else decode_replay_header (length bytes) (make_reader body)))"

section \<open>Verifying\<close>

text \<open>
  The loop over the frames: the number of frames left, the frame, the state and the index of the
  next checkpoint.
\<close>

fun verify_frames :: "Replay \<Rightarrow> nat \<Rightarrow> nat \<Rightarrow> WorldState \<Rightarrow> nat \<Rightarrow> (WorldState \<times> nat) Result" where
  "verify_frames r 0 frame state checkpoint_index = Inr (state, checkpoint_index)"
| "verify_frames r (Suc n) frame state checkpoint_index =
     (let inputs = rp_confirmed_inputs r ! frame in
      if in_frame (pair_a inputs) \<noteq> of_nat frame \<or> in_frame (pair_b inputs) \<noteq> of_nat frame
      then failure EC_frame_mismatch (of_nat frame) 0 ''replay_frame''
      else case simulate_frame state (of_nat frame) inputs (rp_variant r) of
        Inl e \<Rightarrow> Inl e
      | Inr next \<Rightarrow>
          if checkpoint_index < length (rp_checkpoints r)
             \<and> rc_frame (rp_checkpoints r ! checkpoint_index) = ws_frame next
          then
            (let actual = hash_canonical next
             in if actual \<noteq> rc_hash (rp_checkpoints r ! checkpoint_index)
                then failure EC_replay_mismatch actual (unat (ws_frame next)) ''checkpoint_hash''
                else verify_frames r n (Suc frame) next (Suc checkpoint_index))
          else verify_frames r n (Suc frame) next checkpoint_index)"

definition verify_replay :: "Replay \<Rightarrow> ReplayVerification Result" where
  "verify_replay r =
     (if \<not> replay_versions_ok (rp_replay_version r) (rp_simulation_version r) (rp_protocol_version r)
         \<or> length (rp_confirmed_inputs r) \<noteq> unat (rp_final_frame r)
      then failure EC_unsupported_version (ucast (rp_replay_version r)) 0 ''verify_replay''
      else case verify_frames r (unat (rp_final_frame r)) 0 make_initial_world 0 of
        Inl e \<Rightarrow> Inl e
      | Inr (state, checkpoint_index) \<Rightarrow>
          (let final_hash = hash_canonical state
           in if checkpoint_index \<noteq> length (rp_checkpoints r) \<or> final_hash \<noteq> rp_expected_final_hash r
              then failure EC_replay_mismatch final_hash (unat (rp_final_frame r)) ''final_hash''
              else Inr \<lparr>rv_success = True, rv_final_frame = rp_final_frame r,
                       rv_actual_final_hash = final_hash\<rparr>))"

section \<open>The bytes of a replay\<close>

definition pair_bytes :: "InputPair \<Rightarrow> byte list" where
  "pair_bytes p = le_bytes (in_frame (pair_a p)) @ le_bytes (in_buttons (pair_a p))
     @ le_bytes (in_sequence (pair_a p)) @ le_bytes (in_buttons (pair_b p)) @ le_bytes (in_sequence (pair_b p))"

definition checkpoint_bytes :: "ReplayCheckpoint \<Rightarrow> byte list" where
  "checkpoint_bytes c = le_bytes (rc_frame c) @ le_bytes (rc_hash c)"

definition records_bytes :: "Replay \<Rightarrow> byte list" where
  "records_bytes r = concat (map pair_bytes (rp_confirmed_inputs r))
     @ concat (map checkpoint_bytes (rp_checkpoints r))"

definition replay_header_bytes :: "Replay \<Rightarrow> byte list" where
  "replay_header_bytes r = le_bytes kReplayMagic @ le_bytes (rp_replay_version r)
     @ le_bytes (rp_simulation_version r) @ le_bytes (rp_protocol_version r) @ le_bytes (rp_variant r)
     @ le_bytes (0 :: u8) @ le_bytes (rp_scenario_seed r) @ le_bytes (rp_transport_seed r)
     @ le_bytes (rp_final_frame r) @ le_bytes (of_nat (length (rp_confirmed_inputs r)) :: u32)
     @ le_bytes (of_nat (length (rp_checkpoints r)) :: u32) @ le_bytes (rp_expected_final_hash r)"

definition replay_bytes :: "Replay \<Rightarrow> byte list" where
  "replay_bytes r = replay_header_bytes r @ records_bytes r"

lemma length_pair_bytes [simp]: "length (pair_bytes p) = 14"
  by (simp add: pair_bytes_def)

lemma length_checkpoint_bytes [simp]: "length (checkpoint_bytes c) = 12"
  by (simp add: checkpoint_bytes_def)

lemma length_replay_bytes:
  "length (replay_bytes r) = 48 + 14 * length (rp_confirmed_inputs r) + 12 * length (rp_checkpoints r)"
  by (simp add: replay_bytes_def replay_header_bytes_def records_bytes_def length_concat_const)

definition pair_tagged :: "InputPair \<Rightarrow> bool" where
  "pair_tagged p \<longleftrightarrow> in_player (pair_a p) = PA \<and> in_player (pair_b p) = PB
     \<and> in_frame (pair_a p) = in_frame (pair_b p)"

lemma write_pairs_iff:
  "write_pairs ps w = Inr w' \<longleftrightarrow> (\<forall>p \<in> set ps. pair_tagged p) \<and> w' = w @ concat (map pair_bytes ps)"
  by (induction ps arbitrary: w)
    (auto simp: pair_tagged_def write_pair_def pair_bytes_def append_little_endian_def)

lemma fold_write_checkpoint: "fold write_checkpoint cs w = w @ concat (map checkpoint_bytes cs)"
  by (rule fold_writer) (simp add: write_checkpoint_def checkpoint_bytes_def append_little_endian_def)

lemma write_replay_header_bytes: "write_replay_header r [] = replay_header_bytes r"
  by (simp add: write_replay_header_def replay_header_bytes_def append_little_endian_def)

text \<open>What the encoder accepts, and what the decoder wants besides.\<close>

definition replay_ok :: "Replay \<Rightarrow> bool" where
  "replay_ok r \<longleftrightarrow>
     replay_versions_ok (rp_replay_version r) (rp_simulation_version r) (rp_protocol_version r)
     \<and> valid_variant (rp_variant r)
     \<and> length (rp_confirmed_inputs r) \<le> kMaxReplayFrames \<and> length (rp_checkpoints r) \<le> kMaxReplayCheckpoints
     \<and> length (rp_confirmed_inputs r) = unat (rp_final_frame r)
     \<and> (\<forall>p \<in> set (rp_confirmed_inputs r). pair_tagged p)"

lemma encode_replay_iff:
  "encode_replay r = Inr bytes \<longleftrightarrow> replay_ok r \<and> bytes = replay_bytes r @ le_bytes (crc32 (replay_bytes r))"
proof (cases "write_pairs (rp_confirmed_inputs r) (replay_header_bytes r)")
  case (Inl e)
  then have "\<not> (\<forall>p \<in> set (rp_confirmed_inputs r). pair_tagged p)"
    using write_pairs_iff [of "rp_confirmed_inputs r" "replay_header_bytes r"] by auto
  with Inl show ?thesis by (auto simp: encode_replay_def replay_ok_def write_replay_header_bytes)
next
  case (Inr w)
  then have "(\<forall>p \<in> set (rp_confirmed_inputs r). pair_tagged p)"
    "fold write_checkpoint (rp_checkpoints r) w = replay_bytes r"
    by (simp_all add: write_pairs_iff fold_write_checkpoint replay_bytes_def records_bytes_def)
  with Inr show ?thesis
    by (auto simp: encode_replay_def replay_ok_def write_replay_header_bytes append_little_endian_def Let_def)
qed

definition pair_plain :: "InputPair \<Rightarrow> bool" where
  "pair_plain p \<longleftrightarrow> in_buttons (pair_a p) AND 0xE0 = 0 \<and> in_buttons (pair_b p) AND 0xE0 = 0"

fun pairs_numbered :: "nat \<Rightarrow> InputPair list \<Rightarrow> bool" where
  "pairs_numbered index [] = True"
| "pairs_numbered index (p # ps) \<longleftrightarrow>
     unat (in_frame (pair_a p)) = index \<and> pair_tagged p \<and> pair_plain p \<and> pairs_numbered (Suc index) ps"

fun checkpoints_ordered :: "FrameNumber \<Rightarrow> FrameNumber option \<Rightarrow> ReplayCheckpoint list \<Rightarrow> bool" where
  "checkpoints_ordered final_frame previous [] = True"
| "checkpoints_ordered final_frame previous (c # cs) \<longleftrightarrow>
     rc_frame c \<le> final_frame \<and> (previous = None \<or> frame_before (the previous) (rc_frame c))
     \<and> checkpoints_ordered final_frame (Some (rc_frame c)) cs"

definition plain_replay :: "Replay \<Rightarrow> bool" where
  "plain_replay r \<longleftrightarrow> pairs_numbered 0 (rp_confirmed_inputs r)
     \<and> checkpoints_ordered (rp_final_frame r) None (rp_checkpoints r)"

lemma decode_pairs_written:
  assumes "pairs_numbered index ps" "stream r = concat (map pair_bytes ps) @ rest"
  shows "decode_pairs (length ps) index r = (Inr ps, adv (14 * length ps) r)"
  using assms
proof (induction ps arbitrary: index r)
  case (Cons p ps)
  from Cons.prems(2) have s: "stream r = le_bytes (in_frame (pair_a p)) @ le_bytes (in_buttons (pair_a p))
     @ le_bytes (in_sequence (pair_a p)) @ le_bytes (in_buttons (pair_b p)) @ le_bytes (in_sequence (pair_b p))
     @ concat (map pair_bytes ps) @ rest"
    by (simp add: pair_bytes_def [of p])
  have r1: "read_little_endian ''frame'' r = (Inr (in_frame (pair_a p)), adv 4 r)"
    using read_written [OF _ s] by simp
  have r2: "read_little_endian ''buttons_a'' (adv 4 r) = (Inr (in_buttons (pair_a p)), adv 5 r)"
    by (subst read_written [where w = "in_buttons (pair_a p)"]) (simp_all add: s)
  have r3: "read_little_endian ''sequence_a'' (adv 5 r) = (Inr (in_sequence (pair_a p)), adv 9 r)"
    by (subst read_written [where w = "in_sequence (pair_a p)"]) (simp_all add: s)
  have r4: "read_little_endian ''buttons_b'' (adv 9 r) = (Inr (in_buttons (pair_b p)), adv 10 r)"
    by (subst read_written [where w = "in_buttons (pair_b p)"]) (simp_all add: s)
  have r5: "read_little_endian ''sequence_b'' (adv 10 r) = (Inr (in_sequence (pair_b p)), adv 14 r)"
    by (subst read_written [where w = "in_sequence (pair_b p)"]) (simp_all add: s)
  have "stream (adv 14 r) = concat (map pair_bytes ps) @ rest" by (simp add: s)
  from Cons.IH [OF _ this, of "Suc index"] Cons.prems(1)
  have ih: "decode_pairs (length ps) (Suc index) (adv 14 r) = (Inr ps, adv (14 + 14 * length ps) r)" by simp
  have "\<lparr>pair_a = \<lparr>in_frame = in_frame (pair_a p), in_player = PA, in_sequence = in_sequence (pair_a p),
        in_buttons = in_buttons (pair_a p)\<rparr>,
      pair_b = \<lparr>in_frame = in_frame (pair_a p), in_player = PB, in_sequence = in_sequence (pair_b p),
        in_buttons = in_buttons (pair_b p)\<rparr>\<rparr> = p"
    using Cons.prems(1) by (cases p) (auto simp: pair_tagged_def)
  then show ?case
    using Cons.prems(1) by (simp add: Let_def r1 r2 r3 r4 r5 ih value_or_0_def pair_plain_def)
qed simp

lemma decode_pairs_splits:
  assumes "decode_pairs n index r = (Inr ps, r')"
  shows "length ps = n \<and> pairs_numbered index ps
    \<and> r' = adv (14 * n) r \<and> stream r = concat (map pair_bytes ps) @ stream r'"
  using assms
proof (induction n arbitrary: index r ps)
  case (Suc n)
  obtain a1 r1 where r1: "(read_little_endian ''frame'' r :: u32 Result \<times> _) = (a1, r1)" by fastforce
  obtain a2 r2 where r2: "(read_little_endian ''buttons_a'' r1 :: u8 Result \<times> _) = (a2, r2)" by fastforce
  obtain a3 r3 where r3: "(read_little_endian ''sequence_a'' r2 :: u32 Result \<times> _) = (a3, r3)" by fastforce
  obtain a4 r4 where r4: "(read_little_endian ''buttons_b'' r3 :: u8 Result \<times> _) = (a4, r4)" by fastforce
  obtain a5 r5 where r5: "(read_little_endian ''sequence_b'' r4 :: u32 Result \<times> _) = (a5, r5)" by fastforce
  note run = Suc.prems [unfolded decode_pairs.simps r1 r2 r3 r4 r5 Let_def prod.case]
  from run have "ok a1" "ok a2" "ok a3" "ok a4" "ok a5" by (auto split: if_splits simp: decode_error_def)
  then obtain b1 b2 b3 b4 b5 where b: "a1 = Inr b1" "a2 = Inr b2" "a3 = Inr b3" "a4 = Inr b4" "a5 = Inr b5"
    by (auto simp: ok_iff)
  from run b have c: "unat b1 = index" "b2 AND 0xE0 = 0" "b4 AND 0xE0 = 0"
    by (auto split: if_splits simp: decode_error_def value_or_0_def)
  define p where "p = \<lparr>pair_a = \<lparr>in_frame = b1, in_player = PA, in_sequence = b3, in_buttons = b2\<rparr>,
      pair_b = \<lparr>in_frame = b1, in_player = PB, in_sequence = b5, in_buttons = b4\<rparr>\<rparr>"
  obtain qs where qs: "decode_pairs n (Suc index) r5 = (Inr qs, r')" and ps: "ps = p # qs"
    using run b c by (auto simp: value_or_0_def p_def split: prod.splits sum.splits)
  note s1 = read_u32_splits [OF r1 [unfolded b]] and s2 = read_u8_splits [OF r2 [unfolded b]]
    and s3 = read_u32_splits [OF r3 [unfolded b]] and s4 = read_u8_splits [OF r4 [unfolded b]]
    and s5 = read_u32_splits [OF r5 [unfolded b]] and ih = Suc.IH [OF qs]
  have "r5 = adv 14 r"
    by (simp only: s1 [THEN conjunct1] s2 [THEN conjunct1] s3 [THEN conjunct1] s4 [THEN conjunct1]
        s5 [THEN conjunct1]) simp
  moreover have "stream r = le_bytes b1 @ le_bytes b2 @ le_bytes b3 @ le_bytes b4 @ le_bytes b5 @ stream r5"
    by (simp only: s1 [THEN conjunct2] s2 [THEN conjunct2] s3 [THEN conjunct2] s4 [THEN conjunct2]
        s5 [THEN conjunct2])
  moreover have "pair_bytes p = le_bytes b1 @ le_bytes b2 @ le_bytes b3 @ le_bytes b4 @ le_bytes b5"
    by (simp add: pair_bytes_def p_def)
  moreover have "r' = adv (14 * n) r5" "stream r5 = concat (map pair_bytes qs) @ stream r'"
    using ih by blast+
  ultimately have "r' = adv (14 * Suc n) r" "stream r = concat (map pair_bytes ps) @ stream r'"
    by (simp_all only: ps list.map concat.simps append_assoc adv_adv) simp
  then show ?case using ih c ps by (simp add: pair_plain_def pair_tagged_def p_def)
qed simp

lemma decode_checkpoints_written:
  assumes "checkpoints_ordered final_frame previous cs" "stream r = concat (map checkpoint_bytes cs) @ rest"
  shows "decode_checkpoints (length cs) final_frame previous r = (Inr cs, adv (12 * length cs) r)"
  using assms
proof (induction cs arbitrary: previous r)
  case (Cons c cs)
  from Cons.prems(2) have s: "stream r = le_bytes (rc_frame c) @ le_bytes (rc_hash c)
      @ concat (map checkpoint_bytes cs) @ rest"
    by (simp add: checkpoint_bytes_def [of c])
  have r1: "read_little_endian ''checkpoint_frame'' r = (Inr (rc_frame c), adv 4 r)"
    using read_written [OF _ s] by simp
  have r2: "read_little_endian ''checkpoint_hash'' (adv 4 r) = (Inr (rc_hash c), adv 12 r)"
    by (subst read_written [where w = "rc_hash c"]) (simp_all add: s)
  have "stream (adv 12 r) = concat (map checkpoint_bytes cs) @ rest" by (simp add: s)
  from Cons.IH [OF _ this, of "Some (rc_frame c)"] Cons.prems(1)
  have ih: "decode_checkpoints (length cs) final_frame (Some (rc_frame c)) (adv 12 r)
      = (Inr cs, adv (12 + 12 * length cs) r)" by simp
  show ?case
    using Cons.prems(1) by (auto simp: Let_def r1 r2 ih value_or_0_def)
qed simp

lemma decode_checkpoints_splits:
  assumes "decode_checkpoints n final_frame previous r = (Inr cs, r')"
  shows "length cs = n \<and> checkpoints_ordered final_frame previous cs
    \<and> r' = adv (12 * n) r \<and> stream r = concat (map checkpoint_bytes cs) @ stream r'"
  using assms
proof (induction n arbitrary: previous r cs)
  case (Suc n)
  obtain f r1 where r1: "(read_little_endian ''checkpoint_frame'' r :: u32 Result \<times> _) = (f, r1)" by fastforce
  obtain h r2 where r2: "(read_little_endian ''checkpoint_hash'' r1 :: u64 Result \<times> _) = (h, r2)" by fastforce
  note run = Suc.prems [unfolded decode_checkpoints.simps r1 r2 Let_def prod.case]
  from run have "ok f" "ok h" by (auto split: if_splits simp: decode_error_def)
  then obtain fv hv where v: "f = Inr fv" "h = Inr hv" by (auto simp: ok_iff)
  from run v have c: "fv \<le> final_frame" "previous = None \<or> frame_before (the previous) fv"
    by (auto split: if_splits simp: decode_error_def value_or_0_def)
  obtain ys where ys: "decode_checkpoints n final_frame (Some fv) r2 = (Inr ys, r')"
    and cs: "cs = \<lparr>rc_frame = fv, rc_hash = hv\<rparr> # ys"
    using run v c by (auto simp: value_or_0_def decode_error_def split: prod.splits sum.splits if_splits)
  note s1 = read_u32_splits [OF r1 [unfolded v]]
    and s2 = read_u64_splits [OF r2 [unfolded v]]
    and ih = Suc.IH [OF ys]
  have "r2 = adv 12 r"
    by (simp only: s1 [THEN conjunct1] s2 [THEN conjunct1]) simp
  moreover have "stream r = le_bytes fv @ le_bytes hv @ stream r2"
    by (simp only: s1 [THEN conjunct2] s2 [THEN conjunct2])
  moreover have "checkpoint_bytes \<lparr>rc_frame = fv, rc_hash = hv\<rparr> = le_bytes fv @ le_bytes hv"
    by (simp add: checkpoint_bytes_def)
  moreover have "r' = adv (12 * n) r2" "stream r2 = concat (map checkpoint_bytes ys) @ stream r'"
    using ih by blast+
  ultimately have "r' = adv (12 * Suc n) r" "stream r = concat (map checkpoint_bytes cs) @ stream r'"
    by (simp_all only: cs list.map concat.simps append_assoc adv_adv) simp
  then show ?case using ih c cs by simp
qed simp

abbreviation bare_replay :: "Replay \<Rightarrow> Replay" where
  "bare_replay r \<equiv> r\<lparr>rp_confirmed_inputs := [], rp_checkpoints := []\<rparr>"

lemma decode_records_written:
  assumes "plain_replay p" "stream r = records_bytes p"
  shows "decode_records (length (rp_confirmed_inputs p)) (length (rp_checkpoints p)) (bare_replay p) r = Inr p"
proof -
  let ?n = "length (rp_confirmed_inputs p)"
  have i: "decode_pairs ?n 0 r = (Inr (rp_confirmed_inputs p), adv (14 * ?n) r)"
    by (rule decode_pairs_written) (use assms in \<open>simp_all add: plain_replay_def records_bytes_def\<close>)
  have "length (concat (map pair_bytes (rp_confirmed_inputs p))) = 14 * ?n"
    by (simp add: length_concat_const)
  then have "stream (adv (14 * ?n) r) = concat (map checkpoint_bytes (rp_checkpoints p)) @ []"
    using assms(2) by (simp add: records_bytes_def)
  from decode_checkpoints_written [OF _ this] assms(1) i show ?thesis
    by (simp add: decode_records_def plain_replay_def)
qed

lemma decode_records_splits:
  assumes "decode_records n m p0 r = Inr p" and len: "length (stream r) = 14 * n + 12 * m"
  shows "p = p0\<lparr>rp_confirmed_inputs := rp_confirmed_inputs p, rp_checkpoints := rp_checkpoints p\<rparr>
    \<and> length (rp_confirmed_inputs p) = n \<and> length (rp_checkpoints p) = m
    \<and> plain_replay p \<and> stream r = records_bytes p"
proof -
  obtain ps r1 where i: "decode_pairs n 0 r = (Inr ps, r1)"
    using assms(1) by (auto simp: decode_records_def split: prod.splits sum.splits)
  obtain cs r2 where h: "decode_checkpoints m (rp_final_frame p0) None r1 = (Inr cs, r2)"
    using assms(1) i by (auto simp: decode_records_def split: prod.splits sum.splits)
  have p: "p = p0\<lparr>rp_confirmed_inputs := ps, rp_checkpoints := cs\<rparr>"
    using assms(1) i h by (simp add: decode_records_def)
  note si = decode_pairs_splits [OF i] and sh = decode_checkpoints_splits [OF h]
  have ss: "stream r = concat (map pair_bytes ps) @ concat (map checkpoint_bytes cs) @ stream r2"
    using si sh by (metis (no_types))
  have l: "length ps = n" "length cs = m" using si sh by blast+
  from arg_cong [OF ss, of length] len l have "stream r2 = []" by (simp add: length_concat_const)
  moreover have "pairs_numbered 0 ps" "checkpoints_ordered (rp_final_frame p0) None cs"
    using si sh by blast+
  ultimately show ?thesis using ss l p by (simp add: plain_replay_def records_bytes_def)
qed

lemma replay_ok_sizes:
  assumes "replay_ok p"
  shows "unat (of_nat (length (rp_confirmed_inputs p)) :: u32) = length (rp_confirmed_inputs p)"
    and "unat (of_nat (length (rp_checkpoints p)) :: u32) = length (rp_checkpoints p)"
    and "(of_nat (length (rp_confirmed_inputs p)) :: u32) = rp_final_frame p"
  using assms
  by (simp_all add: replay_ok_def unat_of_nat_u32 kMaxReplayFrames_def kMaxReplayCheckpoints_def)

lemma decode_replay_header_written:
  assumes ok: "replay_ok p" and plain: "plain_replay p" and s: "stream r = replay_bytes p"
  shows "decode_replay_header (length (replay_bytes p) + 4) r = Inr p"
proof -
  have s: "stream r = le_bytes kReplayMagic @ le_bytes (rp_replay_version p)
     @ le_bytes (rp_simulation_version p) @ le_bytes (rp_protocol_version p) @ le_bytes (rp_variant p)
     @ le_bytes (0 :: u8) @ le_bytes (rp_scenario_seed p) @ le_bytes (rp_transport_seed p)
     @ le_bytes (rp_final_frame p) @ le_bytes (of_nat (length (rp_confirmed_inputs p)) :: u32)
     @ le_bytes (of_nat (length (rp_checkpoints p)) :: u32) @ le_bytes (rp_expected_final_hash p)
     @ records_bytes p"
    by (simp only: s replay_bytes_def replay_header_bytes_def append_assoc)
  have r1: "read_little_endian ''magic'' r = (Inr kReplayMagic, adv 4 r)"
    using read_written [OF _ s] by simp
  have r2: "read_little_endian ''replay_version'' (adv 4 r) = (Inr (rp_replay_version p), adv 6 r)"
    by (subst read_written [where w = "rp_replay_version p"]) (simp_all add: s)
  have r3: "read_little_endian ''simulation_version'' (adv 6 r) = (Inr (rp_simulation_version p), adv 8 r)"
    by (subst read_written [where w = "rp_simulation_version p"]) (simp_all add: s)
  have r4: "read_little_endian ''protocol_version'' (adv 8 r) = (Inr (rp_protocol_version p), adv 10 r)"
    by (subst read_written [where w = "rp_protocol_version p"]) (simp_all add: s)
  have r5: "read_little_endian ''variant'' (adv 10 r) = (Inr (rp_variant p), adv 11 r)"
    by (subst read_written [where w = "rp_variant p"]) (simp_all add: s)
  have r6: "read_little_endian ''reserved'' (adv 11 r) = (Inr (0 :: u8), adv 12 r)"
    by (subst read_written [where w = "0 :: u8"]) (simp_all add: s)
  have r7: "read_little_endian ''scenario'' (adv 12 r) = (Inr (rp_scenario_seed p), adv 20 r)"
    by (subst read_written [where w = "rp_scenario_seed p"]) (simp_all add: s)
  have r8: "read_little_endian ''transport'' (adv 20 r) = (Inr (rp_transport_seed p), adv 28 r)"
    by (subst read_written [where w = "rp_transport_seed p"]) (simp_all add: s)
  have r9: "read_little_endian ''final_frame'' (adv 28 r) = (Inr (rp_final_frame p), adv 32 r)"
    by (subst read_written [where w = "rp_final_frame p"]) (simp_all add: s)
  have r10: "read_little_endian ''input_count'' (adv 32 r)
      = (Inr (of_nat (length (rp_confirmed_inputs p)) :: u32), adv 36 r)"
    by (subst read_written [where w = "of_nat (length (rp_confirmed_inputs p)) :: u32"]) (simp_all add: s)
  have r11: "read_little_endian ''checkpoint_count'' (adv 36 r)
      = (Inr (of_nat (length (rp_checkpoints p)) :: u32), adv 40 r)"
    by (subst read_written [where w = "of_nat (length (rp_checkpoints p)) :: u32"]) (simp_all add: s)
  have r12: "read_little_endian ''expected_hash'' (adv 40 r) = (Inr (rp_expected_final_hash p), adv 48 r)"
    by (subst read_written [where w = "rp_expected_final_hash p"]) (simp_all add: s)
  have sr: "stream (adv 48 r) = records_bytes p" by (simp add: s)
  note d = decode_records_written [OF plain sr]
  have b: "\<lparr>rp_replay_version = rp_replay_version p, rp_simulation_version = rp_simulation_version p,
      rp_protocol_version = rp_protocol_version p, rp_variant = rp_variant p,
      rp_scenario_seed = rp_scenario_seed p, rp_transport_seed = rp_transport_seed p,
      rp_final_frame = rp_final_frame p, rp_confirmed_inputs = [], rp_checkpoints = [],
      rp_expected_final_hash = rp_expected_final_hash p\<rparr> = bare_replay p" by simp
  have e: "replay_header_size + unat (rp_final_frame p) * input_pair_size
      + length (rp_checkpoints p) * checkpoint_size + replay_checksum_size = length (replay_bytes p) + 4"
    using ok by (simp add: replay_ok_def length_replay_bytes replay_header_size_def
        input_pair_size_def checkpoint_size_def replay_checksum_size_def)
  show ?thesis
    unfolding decode_replay_header_def Let_def r1 r2 r3 r4 r5 r6 r7 r8 r9 r10 r11 r12 prod.case
    using d ok replay_ok_sizes [OF ok]
    by (simp add: value_or_0_def replay_ok_def b e)
qed

lemma decode_replay_header_splits:
  assumes run: "decode_replay_header file_size r = Inr p" and sz: "file_size = length (stream r) + 4"
  shows "replay_ok p \<and> plain_replay p \<and> stream r = replay_bytes p"
proof -
  obtain a1 r1 where r1: "(read_little_endian ''magic'' r :: u32 Result \<times> _) = (a1, r1)" by fastforce
  obtain a2 r2 where r2: "(read_little_endian ''replay_version'' r1 :: u16 Result \<times> _) = (a2, r2)" by fastforce
  obtain a3 r3 where r3: "(read_little_endian ''simulation_version'' r2 :: u16 Result \<times> _) = (a3, r3)" by fastforce
  obtain a4 r4 where r4: "(read_little_endian ''protocol_version'' r3 :: u16 Result \<times> _) = (a4, r4)" by fastforce
  obtain a5 r5 where r5: "(read_little_endian ''variant'' r4 :: u8 Result \<times> _) = (a5, r5)" by fastforce
  obtain a6 r6 where r6: "(read_little_endian ''reserved'' r5 :: u8 Result \<times> _) = (a6, r6)" by fastforce
  obtain a7 r7 where r7: "(read_little_endian ''scenario'' r6 :: u64 Result \<times> _) = (a7, r7)" by fastforce
  obtain a8 r8 where r8: "(read_little_endian ''transport'' r7 :: u64 Result \<times> _) = (a8, r8)" by fastforce
  obtain a9 r9 where r9: "(read_little_endian ''final_frame'' r8 :: u32 Result \<times> _) = (a9, r9)" by fastforce
  obtain a10 r10 where r10: "(read_little_endian ''input_count'' r9 :: u32 Result \<times> _) = (a10, r10)" by fastforce
  obtain a11 r11 where r11: "(read_little_endian ''checkpoint_count'' r10 :: u32 Result \<times> _) = (a11, r11)" by fastforce
  obtain a12 r12 where r12: "(read_little_endian ''expected_hash'' r11 :: u64 Result \<times> _) = (a12, r12)" by fastforce
  note run = run [unfolded decode_replay_header_def r1 r2 r3 r4 r5 r6 r7 r8 r9 r10 r11 r12 Let_def prod.case]
  from run have "ok a1" "ok a2" "ok a3" "ok a4" "ok a5" "ok a6" "ok a7" "ok a8" "ok a9" "ok a10" "ok a11" "ok a12"
    by (auto split: if_splits simp: decode_error_def)
  then obtain b1 b2 b3 b4 b5 b6 b7 b8 b9 b10 b11 b12 where b: "a1 = Inr b1" "a2 = Inr b2" "a3 = Inr b3"
    "a4 = Inr b4" "a5 = Inr b5" "a6 = Inr b6" "a7 = Inr b7" "a8 = Inr b8" "a9 = Inr b9" "a10 = Inr b10"
    "a11 = Inr b11" "a12 = Inr b12" by (auto simp: ok_iff)
  define p0 where "p0 = \<lparr>rp_replay_version = b2, rp_simulation_version = b3, rp_protocol_version = b4,
      rp_variant = b5, rp_scenario_seed = b7, rp_transport_seed = b8, rp_final_frame = b9,
      rp_confirmed_inputs = [], rp_checkpoints = [], rp_expected_final_hash = b12\<rparr>"
  have c: "b1 = kReplayMagic" "replay_versions_ok b2 b3 b4" "valid_variant b5" "b6 = 0"
      "unat b10 \<le> kMaxReplayFrames" "unat b11 \<le> kMaxReplayCheckpoints" "b10 = b9"
      "file_size = 48 + unat b10 * 14 + unat b11 * 12 + 4"
    and rec: "decode_records (unat b10) (unat b11) p0 r12 = Inr p"
    using run unfolding b
    by (auto simp: value_or_0_def decode_error_def replay_header_size_def input_pair_size_def
        checkpoint_size_def replay_checksum_size_def p0_def split: if_splits)
  have s: "stream r = le_bytes b1 @ le_bytes b2 @ le_bytes b3 @ le_bytes b4 @ le_bytes b5 @ le_bytes b6
      @ le_bytes b7 @ le_bytes b8 @ le_bytes b9 @ le_bytes b10 @ le_bytes b11 @ le_bytes b12 @ stream r12"
    by (simp only: read_u32_splits [OF r1 [unfolded b], THEN conjunct2]
        read_u16_splits [OF r2 [unfolded b], THEN conjunct2] read_u16_splits [OF r3 [unfolded b], THEN conjunct2]
        read_u16_splits [OF r4 [unfolded b], THEN conjunct2] read_u8_splits [OF r5 [unfolded b], THEN conjunct2]
        read_u8_splits [OF r6 [unfolded b], THEN conjunct2] read_u64_splits [OF r7 [unfolded b], THEN conjunct2]
        read_u64_splits [OF r8 [unfolded b], THEN conjunct2] read_u32_splits [OF r9 [unfolded b], THEN conjunct2]
        read_u32_splits [OF r10 [unfolded b], THEN conjunct2] read_u32_splits [OF r11 [unfolded b], THEN conjunct2]
        read_u64_splits [OF r12 [unfolded b], THEN conjunct2])
  from arg_cong [OF s, of length] sz c(8) have len: "length (stream r12) = 14 * unat b10 + 12 * unat b11"
    by simp
  note sp = decode_records_splits [OF rec len]
  have pe: "p = p0\<lparr>rp_confirmed_inputs := rp_confirmed_inputs p, rp_checkpoints := rp_checkpoints p\<rparr>"
    and n: "length (rp_confirmed_inputs p) = unat b10" "length (rp_checkpoints p) = unat b11"
    and plain: "plain_replay p" and sr: "stream r12 = records_bytes p" using sp by blast+
  have f: "rp_replay_version p = b2" "rp_simulation_version p = b3" "rp_protocol_version p = b4"
    "rp_variant p = b5" "rp_scenario_seed p = b7" "rp_transport_seed p = b8" "rp_final_frame p = b9"
    "rp_expected_final_hash p = b12"
    by (subst pe, simp add: p0_def)+
  have e: "b10 = of_nat (length (rp_confirmed_inputs p))" "b11 = of_nat (length (rp_checkpoints p))"
    using n by auto
  have "\<forall>q \<in> set ps. pair_tagged q" if "pairs_numbered i ps" for i ps
    using that by (induction ps arbitrary: i) auto
  with plain have tagged: "\<forall>q \<in> set (rp_confirmed_inputs p). pair_tagged q"
    unfolding plain_replay_def by blast
  have "replay_ok p" using c n f tagged by (simp add: replay_ok_def)
  moreover have "stream r = replay_bytes p"
    unfolding s sr replay_bytes_def replay_header_bytes_def f e [symmetric] c(1,4) by simp
  ultimately show ?thesis using plain by blast
qed

lemma stored_crc_append: "stored_crc (body @ le_bytes (c :: u32)) = c"
  by (simp add: stored_crc_def replay_checksum_size_def le_word_le_bytes)

lemma le_bytes_stored_crc:
  assumes "52 \<le> length bytes"
  shows "bytes = take (length bytes - 4) bytes @ le_bytes (stored_crc bytes)"
proof -
  have "le_bytes (stored_crc bytes) = drop (length bytes - 4) bytes"
    unfolding stored_crc_def replay_checksum_size_def
    by (subst le_bytes_le_word) (use assms in auto)
  then show ?thesis by simp
qed

lemma decode_replay_iff:
  "decode_replay bytes = Inr p \<longleftrightarrow> encode_replay p = Inr bytes \<and> plain_replay p"
proof
  assume "encode_replay p = Inr bytes \<and> plain_replay p"
  then have ok: "replay_ok p" and plain: "plain_replay p"
    and b: "bytes = replay_bytes p @ le_bytes (crc32 (replay_bytes p))" by (auto simp: encode_replay_iff)
  have len: "length bytes = length (replay_bytes p) + 4" by (simp add: b)
  have body: "take (length bytes - replay_checksum_size) bytes = replay_bytes p"
    by (simp add: b replay_checksum_size_def)
  have rc: "stored_crc bytes = crc32 (replay_bytes p)" by (simp add: b stored_crc_append)
  have "decode_replay_header (length bytes) (make_reader (replay_bytes p)) = Inr p"
    unfolding len by (rule decode_replay_header_written [OF ok plain]) simp
  then show "decode_replay bytes = Inr p"
    unfolding decode_replay_def Let_def body rc
    by (simp add: len length_replay_bytes replay_header_size_def replay_checksum_size_def)
next
  assume d: "decode_replay bytes = Inr p"
  let ?body = "take (length bytes - replay_checksum_size) bytes"
  have l: "52 \<le> length bytes" and c: "stored_crc bytes = crc32 ?body"
    and h: "decode_replay_header (length bytes) (make_reader ?body) = Inr p"
    using d by (auto simp: decode_replay_def Let_def decode_error_def replay_header_size_def
        replay_checksum_size_def split: if_splits)
  have "length bytes = length (stream (make_reader ?body)) + 4" using l by (simp add: replay_checksum_size_def)
  from decode_replay_header_splits [OF h this] have "replay_ok p" "plain_replay p" "?body = replay_bytes p"
    by simp_all
  moreover have "bytes = ?body @ le_bytes (stored_crc bytes)"
    using le_bytes_stored_crc [OF l] by (simp add: replay_checksum_size_def)
  ultimately show "encode_replay p = Inr bytes \<and> plain_replay p"
    using c by (simp add: encode_replay_iff)
qed

interpretation replay_codec: checked_codec encode_replay decode_replay plain_replay
proof
  fix bytes p
  show "decode_replay bytes = Inr p \<longleftrightarrow> encode_replay p = Inr bytes \<and> plain_replay p"
    by (rule decode_replay_iff)
  assume d: "decode_replay bytes = Inr p"
  then have b: "bytes = replay_bytes p @ le_bytes (crc32 (replay_bytes p))"
    by (simp add: decode_replay_iff encode_replay_iff)
  then show "crc_register bytes = crc_residue" by (simp add: crc_check_residue)
  fix bytes' :: "byte list"
  assume l: "length bytes' = length bytes" and r: "crc_register bytes' \<noteq> crc_residue"
  have l2: "52 \<le> length bytes"
    using d by (auto simp: decode_replay_def decode_error_def replay_header_size_def
        replay_checksum_size_def split: if_splits)
  then have "stored_crc bytes' \<noteq> crc32 (take (length bytes' - 4) bytes')"
    using r l le_bytes_stored_crc [of bytes'] crc_check_residue by metis
  then show "\<exists>e. decode_replay bytes' = Inl e \<and> err_code e = EC_integrity_mismatch"
    using l l2 by (simp add: decode_replay_def decode_error_def replay_header_size_def
        replay_checksum_size_def)
qed

section \<open>What a verified replay is\<close>

fun replay_state :: "SimulationVariant \<Rightarrow> InputPair list \<Rightarrow> nat \<Rightarrow> WorldState Result" where
  "replay_state variant inputs 0 = Inr make_initial_world"
| "replay_state variant inputs (Suc n) =
     (case replay_state variant inputs n of
        Inl e \<Rightarrow> Inl e
      | Inr w \<Rightarrow> simulate_frame w (of_nat n) (inputs ! n) variant)"

definition checkpoint_met :: "Replay \<Rightarrow> ReplayCheckpoint \<Rightarrow> bool" where
  "checkpoint_met r c \<longleftrightarrow>
     0 < unat (rc_frame c) \<and> unat (rc_frame c) \<le> length (rp_confirmed_inputs r)
     \<and> (\<exists>w. replay_state (rp_variant r) (rp_confirmed_inputs r) (unat (rc_frame c)) = Inr w
            \<and> hash_canonical w = rc_hash c)"

definition before_checkpoint :: "ReplayCheckpoint \<Rightarrow> ReplayCheckpoint \<Rightarrow> bool" where
  "before_checkpoint c d \<longleftrightarrow> unat (rc_frame c) < unat (rc_frame d)"

text \<open>The checkpoints from an index on, all of them after a frame.\<close>

definition pending_met :: "Replay \<Rightarrow> nat \<Rightarrow> nat \<Rightarrow> bool" where
  "pending_met r frame ci \<longleftrightarrow> ci \<le> length (rp_checkpoints r)
     \<and> (\<forall>c \<in> set (drop ci (rp_checkpoints r)). checkpoint_met r c \<and> frame < unat (rc_frame c))
     \<and> sorted_wrt before_checkpoint (drop ci (rp_checkpoints r))"

lemma replay_state_mono:
  "replay_state v inputs n = Inr w \<Longrightarrow> m \<le> n \<Longrightarrow> \<exists>w'. replay_state v inputs m = Inr w'"
proof (induction n arbitrary: w)
  case (Suc n)
  then show ?case
    by (cases "m = Suc n") (auto split: sum.splits)
qed simp

lemma replay_state_frame: "replay_state v inputs n = Inr w \<Longrightarrow> ws_frame w = of_nat n"
  by (induction n arbitrary: w)
    (auto simp: make_initial_world_def next_frame_def split: sum.splits dest: simulate_frame_frame)

lemma drop_eq_Cons: "ci < length xs \<Longrightarrow> drop ci xs = xs ! ci # drop (Suc ci) xs"
  by (simp add: Cons_nth_drop_Suc)

lemma verify_frames_iff:
  assumes "replay_state (rp_variant r) (rp_confirmed_inputs r) k = Inr w"
    and "k + n = length (rp_confirmed_inputs r)" "length (rp_confirmed_inputs r) < 4294967296"
  shows "verify_frames r n k w ci = Inr (w', length (rp_checkpoints r)) \<and> ci \<le> length (rp_checkpoints r) \<longleftrightarrow>
    replay_state (rp_variant r) (rp_confirmed_inputs r) (k + n) = Inr w' \<and> pending_met r k ci"
  using assms
proof (induction n arbitrary: k w ci)
  case 0
  have "\<not> checkpoint_met r c \<or> \<not> k < unat (rc_frame c)" for c
    using 0 by (auto simp: checkpoint_met_def)
  then have "pending_met r k ci \<longleftrightarrow> ci = length (rp_checkpoints r)"
    unfolding pending_met_def by (cases "ci < length (rp_checkpoints r)") (auto simp: drop_eq_Cons)
  with 0 show ?case by auto
next
  case (Suc n)
  let ?cs = "rp_checkpoints r" and ?in = "rp_confirmed_inputs r" and ?v = "rp_variant r"
  let ?p = "?in ! k"
  have kn: "Suc k + n = length ?in" "k + Suc n = Suc k + n" using Suc.prems by simp_all
  show ?case
  proof (cases "simulate_frame w (of_nat k) ?p ?v")
    case (Inl e)
    then have no: "replay_state ?v ?in (Suc k) = Inl e" using Suc.prems(1) by simp
    have "replay_state ?v ?in (k + Suc n) \<noteq> Inr w'"
      using replay_state_mono [of ?v ?in "k + Suc n" w' "Suc k"] no by auto
    with Inl show ?thesis by (auto simp: Let_def)
  next
    case (Inr next_w)
    then have nx: "replay_state ?v ?in (Suc k) = Inr next_w" using Suc.prems(1) by simp
    have fr: "ws_frame next_w = of_nat (Suc k)" using replay_state_frame [OF nx] .
    have pf: "in_frame (pair_a ?p) = of_nat k" "in_frame (pair_b ?p) = of_nat k"
      using simulate_frame_pair [OF Inr] by (simp_all add: pair_for_def)
    have f32: "rc_frame c = of_nat (Suc k) \<longleftrightarrow> unat (rc_frame c) = Suc k" for c
      using Suc.prems(2,3) unat_of_nat_u32 [of "Suc k"] by (metis kn(1) le_add1 le_less_trans of_nat_unat ucast_id)
    show ?thesis
    proof (cases "ci < length ?cs \<and> rc_frame (?cs ! ci) = ws_frame next_w")
      case True
      then have hit: "unat (rc_frame (?cs ! ci)) = Suc k" using fr f32 by metis
      have d: "drop ci ?cs = ?cs ! ci # drop (Suc ci) ?cs" using True by (simp add: drop_eq_Cons)
      have met: "checkpoint_met r (?cs ! ci) \<longleftrightarrow> hash_canonical next_w = rc_hash (?cs ! ci)"
        using hit nx kn by (auto simp: checkpoint_met_def)
      have pend: "pending_met r k ci \<longleftrightarrow>
          hash_canonical next_w = rc_hash (?cs ! ci) \<and> pending_met r (Suc k) (Suc ci)"
        using hit True met unfolding pending_met_def d before_checkpoint_def by auto
      show ?thesis
        using Suc.IH [OF nx kn(1) Suc.prems(3), of "Suc ci"] Inr pf True pend kn(2)
        by (auto simp: Let_def)
    next
      case False
      have pend: "pending_met r k ci \<longleftrightarrow> pending_met r (Suc k) ci"
      proof (cases "ci < length ?cs")
        case True
        then have "unat (rc_frame (?cs ! ci)) \<noteq> Suc k" using False fr f32 by metis
        then show ?thesis
          using True unfolding pending_met_def drop_eq_Cons [OF True] before_checkpoint_def by auto
      qed (simp add: pending_met_def)
      show ?thesis
        using Suc.IH [OF nx kn(1) Suc.prems(3), of ci] Inr pf False pend kn(2)
        by (auto simp: Let_def)
    qed
  qed
qed

lemma verify_replay_spec:
  "verify_replay r = Inr v \<longleftrightarrow>
     replay_versions_ok (rp_replay_version r) (rp_simulation_version r) (rp_protocol_version r)
   \<and> length (rp_confirmed_inputs r) = unat (rp_final_frame r)
   \<and> (\<exists>w. replay_state (rp_variant r) (rp_confirmed_inputs r) (unat (rp_final_frame r)) = Inr w
        \<and> hash_canonical w = rp_expected_final_hash r)
   \<and> list_all (checkpoint_met r) (rp_checkpoints r)
   \<and> sorted_wrt before_checkpoint (rp_checkpoints r)
   \<and> v = \<lparr>rv_success = True, rv_final_frame = rp_final_frame r,
          rv_actual_final_hash = rp_expected_final_hash r\<rparr>"
proof (cases "replay_versions_ok (rp_replay_version r) (rp_simulation_version r) (rp_protocol_version r)
    \<and> length (rp_confirmed_inputs r) = unat (rp_final_frame r)")
  case False
  then show ?thesis by (auto simp: verify_replay_def)
next
  case True
  let ?n = "unat (rp_final_frame r)"
  have k: "replay_state (rp_variant r) (rp_confirmed_inputs r) 0 = Inr make_initial_world" by simp
  have it: "verify_frames r ?n 0 make_initial_world 0 = Inr (w, length (rp_checkpoints r)) \<longleftrightarrow>
      replay_state (rp_variant r) (rp_confirmed_inputs r) ?n = Inr w \<and> pending_met r 0 0" for w
    using verify_frames_iff [OF k, of ?n 0 w] True by simp
  have pend: "pending_met r 0 0 \<longleftrightarrow> list_all (checkpoint_met r) (rp_checkpoints r)
      \<and> sorted_wrt before_checkpoint (rp_checkpoints r)"
    by (auto simp: pending_met_def list_all_iff checkpoint_met_def)
  have "verify_replay r = Inr v \<longleftrightarrow> (\<exists>w. verify_frames r ?n 0 make_initial_world 0
        = Inr (w, length (rp_checkpoints r)) \<and> hash_canonical w = rp_expected_final_hash r
      \<and> v = \<lparr>rv_success = True, rv_final_frame = rp_final_frame r,
          rv_actual_final_hash = rp_expected_final_hash r\<rparr>)"
    using True by (auto simp: verify_replay_def Let_def split: sum.splits)
  then show ?thesis using True it pend by blast
qed

text \<open>
  C34. The verifier accepts a replay exactly when its versions are supported, simulating its
  inputs from the initial world gives the recorded final hash, and every checkpoint lies at a
  later frame than the one before, after frame 0 and within the replay, and has the hash of the
  simulated world at its frame.
\<close>

theorem verify_replay_iff:
  "verify_replay r = Inr v \<longleftrightarrow>
     replay_versions_ok (rp_replay_version r) (rp_simulation_version r) (rp_protocol_version r)
   \<and> length (rp_confirmed_inputs r) = unat (rp_final_frame r)
   \<and> (\<exists>w. replay_state (rp_variant r) (rp_confirmed_inputs r) (unat (rp_final_frame r)) = Inr w
        \<and> hash_canonical w = rp_expected_final_hash r)
   \<and> list_all (checkpoint_met r) (rp_checkpoints r)
   \<and> sorted_wrt before_checkpoint (rp_checkpoints r)
   \<and> v = \<lparr>rv_success = True, rv_final_frame = rp_final_frame r,
          rv_actual_final_hash = rp_expected_final_hash r\<rparr>"
  by (rule verify_replay_spec)

text \<open>
  C35. The replay decoder is the inverse of the replay encoder on replays whose frames are
  numbered from 0, whose inputs use defined buttons and whose checkpoints are in order.
\<close>

theorem replay_decode_inverts_encode:
  "decode_replay bytes = Inr r \<longleftrightarrow> encode_replay r = Inr bytes \<and> plain_replay r"
  by (rule replay_codec.decode_iff)

text \<open>
  A replay file corrupted within four consecutive bytes is rejected as an integrity mismatch.
\<close>

theorem replay_burst_rejected:
  assumes "decode_replay bytes = Inr r" and "burst bytes bytes'"
  shows "\<exists>e. decode_replay bytes' = Inl e \<and> err_code e = EC_integrity_mismatch"
  using assms by (rule replay_codec.burst_detected)

definition empty_replay :: Replay where
  "empty_replay = \<lparr>rp_replay_version = 1, rp_simulation_version = 1, rp_protocol_version = 1,
     rp_variant = variant_canonical, rp_scenario_seed = 5, rp_transport_seed = 6, rp_final_frame = 0,
     rp_confirmed_inputs = [], rp_checkpoints = [], rp_expected_final_hash = 7\<rparr>"

lemma empty_replay_ok: "replay_ok empty_replay" "plain_replay empty_replay"
  by (simp_all add: replay_ok_def plain_replay_def empty_replay_def replay_versions_ok_def valid_variant_def
      kReplayVersion_def kSimulationVersion_def kProtocolVersion_def)

lemma replay_magic_bytes: "le_bytes kReplayMagic = [0x52, 0x4C, 0x52, 0x50]"
  by code_simp

theorem replay_burst_rejected_witness:
  "\<exists>bytes e. decode_replay bytes = Inr empty_replay
     \<and> decode_replay (0 # tl bytes) = Inl e \<and> err_code e = EC_integrity_mismatch"
proof -
  let ?b = "replay_bytes empty_replay"
  let ?bytes = "?b @ le_bytes (crc32 ?b)"
  have d: "decode_replay ?bytes = Inr empty_replay"
    using empty_replay_ok by (simp add: decode_replay_iff encode_replay_iff)
  obtain rest where rest: "?bytes = [0x52] @ rest"
    by (simp add: replay_bytes_def replay_header_bytes_def replay_magic_bytes)
  then have "burst ?bytes (0 # tl ?bytes)"
    unfolding burst_def
    by (intro exI [of _ "[]"] exI [of _ "[0x52]"] exI [of _ "[0]"] exI [of _ rest]) simp
  from replay_burst_rejected [OF d this] d show ?thesis by blast
qed

section \<open>Checkpoints at frame 0\<close>

text \<open>
  The decoder accepts a replay with a checkpoint at frame 0, but the verifier compares
  checkpoints only after simulating a frame and never accepts one.
\<close>

lemma checkpoint_at_0_never_verifies:
  "c \<in> set (rp_checkpoints r) \<Longrightarrow> rc_frame c = 0 \<Longrightarrow> verify_replay r \<noteq> Inr v"
proof -
  assume "c \<in> set (rp_checkpoints r)" "rc_frame c = 0"
  then have "\<not> checkpoint_met r c" by (simp add: checkpoint_met_def)
  have k: "replay_state (rp_variant r) (rp_confirmed_inputs r) 0 = Inr make_initial_world" by simp
  show ?thesis
  proof
    assume ok: "verify_replay r = Inr v"
    then obtain w where "verify_frames r (unat (rp_final_frame r)) 0 make_initial_world 0
        = Inr (w, length (rp_checkpoints r))" "length (rp_confirmed_inputs r) = unat (rp_final_frame r)"
      by (auto simp: verify_replay_def Let_def split: if_splits sum.splits)
    with verify_frames_iff [OF k, of "unat (rp_final_frame r)" 0 w] have "pending_met r 0 0" by simp
    with \<open>c \<in> set (rp_checkpoints r)\<close> \<open>\<not> checkpoint_met r c\<close> show False by (simp add: pending_met_def)
  qed
qed

end
