(* ===== verification/Report.thy ===== *)
theory Report
  imports Transport Session Replay
begin

text \<open>
  The data of a run and its diagnosis: \<open>report/trace.hpp\<close> and \<open>report/trace.cpp\<close> (the sampled trace),
  \<open>report/desync.hpp\<close> and \<open>report/desync.cpp\<close> (the tracker of the earliest divergent frame) and
  the record of \<open>report/run_report.hpp\<close>. The strings that the preprocessor chooses when the
  program is built are a parameter, \<open>BuildInfo\<close>.
\<close>

section \<open>Traces\<close>

definition kMaxTraceFrames :: nat where "kMaxTraceFrames = 10000"
definition kMaxTracePacketEvents :: nat where "kMaxTracePacketEvents = 40000"
definition kMaxTraceRollbackEvents :: nat where "kMaxTraceRollbackEvents = 10000"
definition kTraceVersion :: u32 where "kTraceVersion = 1"

datatype PacketTraceKind = PTK_sent | PTK_delivered | PTK_dropped | PTK_duplicated | PTK_reordered

record TraceFrame =
  tf_frame :: FrameNumber
  tf_state :: WorldState
  tf_hash :: StateHash
  tf_predicted :: bool
  tf_confirmed_frame :: FrameNumber

record PacketTraceEvent =
  pe_tick :: LogicalTick
  pe_kind :: PacketTraceKind
  pe_from :: Endpoint
  pe_to :: Endpoint
  pe_sequence :: u32

record RollbackTraceEvent =
  re_observed_at :: FrameNumber
  re_rollback_from :: FrameNumber
  re_depth :: u32

record TraceDesyncMarker =
  dm_frame :: FrameNumber
  dm_local_hash :: StateHash
  dm_remote_hash :: StateHash

record Trace =
  tx_trace_version :: u32
  tx_scenario_seed :: u64
  tx_sample_interval :: u32
  tx_frames :: "TraceFrame list"
  tx_packets :: "PacketTraceEvent list"
  tx_rollbacks :: "RollbackTraceEvent list"
  tx_desync :: "TraceDesyncMarker option"
  tx_omitted_frame_samples :: u64
  tx_omitted_packet_events :: u64
  tx_omitted_rollback_events :: u64

definition empty_trace :: Trace where
  "empty_trace = \<lparr>tx_trace_version = kTraceVersion, tx_scenario_seed = 0, tx_sample_interval = 1,
     tx_frames = [], tx_packets = [], tx_rollbacks = [], tx_desync = None,
     tx_omitted_frame_samples = 0, tx_omitted_packet_events = 0, tx_omitted_rollback_events = 0\<rparr>"

definition trace_sample_interval :: "u32 \<Rightarrow> u32" where
  "trace_sample_interval frame_count =
     (let sampled_capacity = (of_nat (kMaxTraceFrames - 1) :: u32) in
      if frame_count \<le> sampled_capacity then 1
      else ucast ((ucast frame_count + ucast sampled_capacity - 1 :: u64) div ucast sampled_capacity))"

section \<open>The desync tracker\<close>

record HashObservation =
  ho_frame :: FrameNumber
  ho_hash :: StateHash
  ho_confirmed :: bool

record PlayerStateSummary =
  pss_id :: PlayerId
  pss_x :: i32
  pss_y :: i32
  pss_hp :: i16
  pss_score :: u16

record DesyncDiagnostic =
  dd_earliest_divergent_frame :: FrameNumber
  dd_local_hash :: StateHash
  dd_remote_hash :: StateHash
  dd_recent_inputs :: "InputPair list"
  dd_players :: "PlayerStateSummary list"
  dd_active_projectiles :: u32
  dd_simulation_version :: u32
  dd_protocol_version :: u32
  dd_scenario_seed :: u64

record DesyncTracker =
  dt_scenario_seed :: u64
  dt_diagnostic :: "DesyncDiagnostic option"

definition make_desync_tracker :: "u64 \<Rightarrow> DesyncTracker" where
  "make_desync_tracker scenario_seed = \<lparr>dt_scenario_seed = scenario_seed, dt_diagnostic = None\<rparr>"

definition player_summary :: "PlayerState \<Rightarrow> PlayerStateSummary" where
  "player_summary p = \<lparr>pss_id = ps_id p, pss_x = ps_x p, pss_y = ps_y p, pss_hp = ps_hp p,
     pss_score = ps_score p\<rparr>"

text \<open>\<open>erase(begin, end - 32)\<close> keeps the last 32 inputs.\<close>

definition last_32 :: "'a list \<Rightarrow> 'a list" where
  "last_32 xs = (if length xs > 32 then drop (length xs - 32) xs else xs)"

definition make_diagnostic :: "u64 \<Rightarrow> HashObservation \<Rightarrow> HashObservation \<Rightarrow> InputPair list
    \<Rightarrow> WorldState \<Rightarrow> DesyncDiagnostic" where
  "make_diagnostic seed local remote recent_inputs local_state =
     (let active = (of_nat (length (filter pj_active (ws_projectiles local_state))) :: u32) in
      \<lparr>dd_earliest_divergent_frame = ho_frame local, dd_local_hash = ho_hash local,
       dd_remote_hash = ho_hash remote, dd_recent_inputs = last_32 recent_inputs,
       dd_players = map player_summary (ws_players local_state),
       dd_active_projectiles = active, dd_simulation_version = kSimulationVersion,
       dd_protocol_version = kProtocolVersion, dd_scenario_seed = seed\<rparr>)"

definition observe_hashes :: "HashObservation \<Rightarrow> HashObservation \<Rightarrow> InputPair list \<Rightarrow> WorldState
    \<Rightarrow> DesyncTracker \<Rightarrow> DesyncDiagnostic option \<times> DesyncTracker" where
  "observe_hashes local remote recent_inputs local_state t =
     (if \<not> ho_confirmed local \<or> \<not> ho_confirmed remote \<or> ho_frame local \<noteq> ho_frame remote
         \<or> ho_hash local = ho_hash remote
      then (dt_diagnostic t, t)
      else if dt_diagnostic t \<noteq> None
         \<and> \<not> frame_before (ho_frame local) (dd_earliest_divergent_frame (the (dt_diagnostic t)))
      then (dt_diagnostic t, t)
      else
        (let diagnostic = make_diagnostic (dt_scenario_seed t) local remote recent_inputs local_state
         in (Some diagnostic, t\<lparr>dt_diagnostic := Some diagnostic\<rparr>)))"

section \<open>Run reports\<close>

record TimingObservations =
  to_simulation_microseconds :: u64
  to_rollback_microseconds :: u64

record RunReport =
  rr_git_sha :: string
  rr_build_type :: string
  rr_compiler :: string
  rr_os :: string
  rr_simulation_version :: u32
  rr_protocol_version :: u32
  rr_pcg32_version :: u32
  rr_scenario_seed :: u64
  rr_transport_seed :: u64
  rr_frame_count :: u32
  rr_transport_config :: TransportConfig
  rr_transport_metrics :: TransportMetrics
  rr_rollback_count :: u64
  rr_resimulated_frames :: u64
  rr_maximum_rollback_depth :: u32
  rr_predicted_input_count :: u64
  rr_late_input_count :: u64
  rr_confirmed_frame :: FrameNumber
  rr_final_hash_a :: StateHash
  rr_final_hash_b :: StateHash
  rr_replay_verified :: bool
  rr_desync_result :: string
  rr_timing :: TimingObservations
  rr_success :: bool
  rr_failure_reason :: string

record BuildInfo =
  bi_git_sha :: string
  bi_build_type :: string
  bi_compiler :: string
  bi_os :: string

definition default_report :: "BuildInfo \<Rightarrow> RunReport" where
  "default_report build =
     \<lparr>rr_git_sha = bi_git_sha build, rr_build_type = ''unknown'', rr_compiler = ''unknown'',
      rr_os = ''unknown'', rr_simulation_version = kSimulationVersion,
      rr_protocol_version = kProtocolVersion, rr_pcg32_version = 1, rr_scenario_seed = 0,
      rr_transport_seed = 0, rr_frame_count = 0, rr_transport_config = default_transport_config,
      rr_transport_metrics = tr_metrics (make_transport default_transport_config),
      rr_rollback_count = 0, rr_resimulated_frames = 0, rr_maximum_rollback_depth = 0,
      rr_predicted_input_count = 0, rr_late_input_count = 0, rr_confirmed_frame = 0,
      rr_final_hash_a = 0, rr_final_hash_b = 0, rr_replay_verified = False,
      rr_desync_result = ''none'',
      rr_timing = \<lparr>to_simulation_microseconds = 0, to_rollback_microseconds = 0\<rparr>,
      rr_success = False, rr_failure_reason = ''''\<rparr>"

section \<open>The sample interval\<close>

text \<open>The frames the scenario records besides the initial one.\<close>

definition sampled_frames :: "nat \<Rightarrow> nat set" where
  "sampled_frames frame_count =
     {k. 0 < k \<and> k \<le> frame_count
         \<and> (k mod unat (trace_sample_interval (of_nat frame_count)) = 0 \<or> k = frame_count)}"

lemma trace_sample_interval_nat:
  assumes "n < 4294967296"
  shows "unat (trace_sample_interval (of_nat n)) = (if n \<le> 9999 then 1 else (n + 9998) div 9999)"
proof -
  have u: "unat (of_nat n :: u32) = n" using assms by (simp add: unat_of_nat_u32)
  have c: "(of_nat (kMaxTraceFrames - 1) :: u32) = 9999" by (simp add: kMaxTraceFrames_def)
  have le: "(of_nat n :: u32) \<le> 9999 \<longleftrightarrow> n \<le> 9999" by (simp add: word_le_nat_alt u)
  show ?thesis
  proof (cases "n \<le> 9999")
    case True
    then show ?thesis by (simp only: trace_sample_interval_def Let_def c le) simp
  next
    case False
    have s: "(ucast (of_nat n :: u32) :: u64) = of_nat n"
      using assms by (simp add: word_unat_eq_iff unsigned_ucast_eq unat_of_nat take_bit_nat_eq_self)
    have "unat ((of_nat n + 9999 - 1 :: u64)) = n + 9998"
    proof -
      have "(of_nat n + 9999 - 1 :: u64) = of_nat (n + 9998)" by simp
      then show ?thesis using assms by (simp only: unat_of_nat) (simp add: take_bit_nat_eq_self)
    qed
    then have "unat ((of_nat n + 9999 - 1 :: u64) div 9999) = (n + 9998) div 9999"
      by (simp add: unat_div)
    moreover have "(n + 9998) div 9999 < 4294967296" using assms by simp
    ultimately have "unat (ucast ((of_nat n + 9999 - 1 :: u64) div 9999) :: u32) = (n + 9998) div 9999"
      by (simp add: unsigned_ucast_eq unsigned_take_bit_eq take_bit_nat_eq_self)
    with False show ?thesis by (simp only: trace_sample_interval_def Let_def c le s if_False) simp
  qed
qed

lemma ceil_div_cover:
  fixes n c :: nat
  assumes "0 < c" "0 < n"
  shows "n \<le> ((n + c - 1) div c) * c" "0 < (n + c - 1) div c"
proof -
  have "n + c - 1 = ((n + c - 1) div c) * c + (n + c - 1) mod c" by simp
  moreover have "(n + c - 1) mod c < c" using assms by simp
  ultimately show "n \<le> ((n + c - 1) div c) * c" by linarith
  then show "0 < (n + c - 1) div c" using assms by (cases "(n + c - 1) div c") auto
qed

lemma card_multiples:
  fixes n i :: nat
  assumes "0 < i"
  shows "card {k. 0 < k \<and> k \<le> n \<and> k mod i = 0} = n div i"
proof -
  have "{k. 0 < k \<and> k \<le> n \<and> k mod i = 0} = (\<lambda>q. q * i) ` {1..n div i}"
  proof (intro equalityI subsetI)
    fix k assume k: "k \<in> {k. 0 < k \<and> k \<le> n \<and> k mod i = 0}"
    then have e: "k = (k div i) * i" by auto
    moreover have "k div i \<in> {1..n div i}" using k e assms
      by (auto simp: div_le_mono Suc_le_eq intro: gr0I)
    ultimately show "k \<in> (\<lambda>q. q * i) ` {1..n div i}" by blast
  next
    fix k assume "k \<in> (\<lambda>q. q * i) ` {1..n div i}"
    then obtain q where q: "k = q * i" "1 \<le> q" "q \<le> n div i"
      by (metis (no_types, lifting) imageE atLeastAtMost_iff)
    then have "q * i \<le> n" using assms by (simp add: less_eq_div_iff_mult_less_eq)
    with q assms show "k \<in> {k. 0 < k \<and> k \<le> n \<and> k mod i = 0}" by auto
  qed
  moreover have "inj_on (\<lambda>q. q * i) {1..n div i}" using assms by (auto simp: inj_on_def)
  ultimately show ?thesis by (simp add: card_image)
qed

lemma sampled_frames_bound:
  assumes n: "n < 4294967296"
  shows "finite (sampled_frames n)" "card (sampled_frames n) + 1 \<le> kMaxTraceFrames"
proof -
  define i where "i = unat (trace_sample_interval (of_nat n))"
  have S: "sampled_frames n \<subseteq> insert n {k. 0 < k \<and> k \<le> n \<and> k mod i = 0}"
    by (auto simp: sampled_frames_def i_def)
  have fin: "finite {k. 0 < k \<and> k \<le> n \<and> k mod i = 0}" by simp
  show f: "finite (sampled_frames n)" using S fin by (meson finite_insert finite_subset)
  have i0: "0 < i" and cover: "n \<le> i * 9999"
    using ceil_div_cover [of 9999 n] n
    by (cases "n \<le> 9999"; simp add: i_def trace_sample_interval_nat)+
  have "card (sampled_frames n) \<le> 9999"
  proof (cases "n mod i = 0")
    case True
    then have "sampled_frames n \<subseteq> {k. 0 < k \<and> k \<le> n \<and> k mod i = 0}" using S
      by (auto simp: sampled_frames_def i_def)
    then have "card (sampled_frames n) \<le> n div i"
      using card_mono [OF fin] card_multiples [OF i0] by metis
    also have "\<dots> \<le> (i * 9999) div i" using cover by (rule div_le_mono)
    also have "\<dots> = 9999" using i0 by simp
    finally show ?thesis .
  next
    case False
    have "card (sampled_frames n) \<le> card (insert n {k. 0 < k \<and> k \<le> n \<and> k mod i = 0})"
      using S fin by (intro card_mono) auto
    also have "\<dots> \<le> Suc (n div i)" using card_multiples [OF i0] fin
      by (metis card_insert_le_m1 card_insert_if le_Suc_eq le_refl)
    finally have le: "card (sampled_frames n) \<le> Suc (n div i)" .
    have "i * (n div i) < n" using False i0
      by (metis div_mult_mod_eq less_add_same_cancel1 gr0I mult.commute)
    with cover have "i * (n div i) < i * 9999" by linarith
    then have "n div i < 9999" by simp
    with le show ?thesis by linarith
  qed
  then show "card (sampled_frames n) + 1 \<le> kMaxTraceFrames" by (simp add: kMaxTraceFrames_def)
qed

section \<open>The tracker keeps the earliest mismatch\<close>

text \<open>A sequence of observations, each with the inputs and the state it came with.\<close>

type_synonym Observation = "HashObservation \<times> HashObservation \<times> InputPair list \<times> WorldState"

fun observe_all :: "Observation list \<Rightarrow> DesyncTracker \<Rightarrow> DesyncTracker" where
  "observe_all [] t = t"
| "observe_all ((local, remote, inputs, state) # obs) t =
     observe_all obs (snd (observe_hashes local remote inputs state t))"

fun mismatch :: "Observation \<Rightarrow> bool" where
  "mismatch (local, remote, _, _) \<longleftrightarrow> ho_confirmed local \<and> ho_confirmed remote
     \<and> ho_frame local = ho_frame remote \<and> ho_hash local \<noteq> ho_hash remote"

fun observed_frame :: "Observation \<Rightarrow> nat" where
  "observed_frame (local, _, _, _) = unat (ho_frame local)"

fun diagnose :: "u64 \<Rightarrow> Observation \<Rightarrow> DesyncDiagnostic" where
  "diagnose seed (local, remote, inputs, state) = make_diagnostic seed local remote inputs state"

text \<open>The first of the mismatches with the smallest frame.\<close>

definition earliest_mismatch :: "Observation list \<Rightarrow> Observation option" where
  "earliest_mismatch obs =
     (let bad = filter mismatch obs in
      if bad = [] then None else Some (arg_min_list observed_frame bad))"

lemma arg_min_list_snoc:
  fixes f :: "'a \<Rightarrow> 'b::linorder"
  assumes "xs \<noteq> []"
  shows "arg_min_list f (xs @ [y])
    = (if f y < f (arg_min_list f xs) then y else arg_min_list f xs)"
  using assms
proof (induction f xs rule: arg_min_list.induct)
  case (2 f x z zs)
  then show ?case by (auto simp: Let_def)
qed auto

lemma observe_all_snoc:
  "observe_all (obs @ [(l, r, i, s)]) t = snd (observe_hashes l r i s (observe_all obs t))"
  by (induction obs t rule: observe_all.induct) auto

lemma dd_frame_diagnose [simp]: "unat (dd_earliest_divergent_frame (diagnose seed ob)) = observed_frame ob"
  by (cases ob) (simp add: make_diagnostic_def Let_def)

lemma make_diagnostic_diagnose: "make_diagnostic seed l r i s = diagnose seed (l, r, i, s)" by simp

lemma frame_before_small:
  "unat a < 2147483648 \<Longrightarrow> unat b < 2147483648 \<Longrightarrow> frame_before a b \<longleftrightarrow> unat a < unat b"
  using frame_before_of_nat [of "unat a" "unat b"] by simp

lemma observe_all_earliest:
  assumes "\<forall>ob \<in> set obs. observed_frame ob < 2147483648"
  shows "observe_all obs (make_desync_tracker seed)
    = \<lparr>dt_scenario_seed = seed, dt_diagnostic = map_option (diagnose seed) (earliest_mismatch obs)\<rparr>"
  using assms
proof (induction obs rule: rev_induct)
  case Nil
  then show ?case by (simp add: make_desync_tracker_def earliest_mismatch_def)
next
  case (snoc ob obs)
  obtain l r i s where ob: "ob = (l, r, i, s)" by (cases ob)
  let ?bad = "filter mismatch obs"
  have IH: "observe_all obs (make_desync_tracker seed)
    = \<lparr>dt_scenario_seed = seed, dt_diagnostic = map_option (diagnose seed) (earliest_mismatch obs)\<rparr>"
    using snoc by simp
  show ?case
  proof (cases "mismatch ob")
    case False
    then show ?thesis using IH
      by (auto simp: ob observe_all_snoc observe_hashes_def earliest_mismatch_def Let_def)
  next
    case True
    show ?thesis
    proof (cases "?bad = []")
      case True
      then show ?thesis using IH \<open>mismatch ob\<close>
        by (auto simp: ob observe_all_snoc observe_hashes_def earliest_mismatch_def Let_def)
    next
      case False
      let ?m = "arg_min_list observed_frame ?bad"
      have m: "earliest_mismatch obs = Some ?m" "earliest_mismatch (obs @ [ob])
          = Some (if observed_frame ob < observed_frame ?m then ob else ?m)"
        using False True by (simp_all add: earliest_mismatch_def arg_min_list_snoc)
      have "?m \<in> set obs" using arg_min_list_in [OF False, of observed_frame] by auto
      then have "unat (dd_earliest_divergent_frame (diagnose seed ?m)) < 2147483648"
        using snoc.prems by simp
      then have "frame_before (ho_frame l) (dd_earliest_divergent_frame (diagnose seed ?m))
          \<longleftrightarrow> observed_frame ob < observed_frame ?m"
        using snoc.prems by (subst frame_before_small) (simp_all add: ob)
      with True m IH show ?thesis
        by (auto simp: ob observe_all_snoc observe_hashes_def Let_def)
    qed
  qed
qed

section \<open>Properties\<close>

text \<open>
  The trace has room for every sampled frame: with the interval \<open>trace_sample_interval\<close> chooses
  for any 32-bit frame count, the frames that are multiples of the interval, the last frame
  and the initial one are at most \<open>kMaxTraceFrames\<close>.
\<close>

theorem trace_sampling_fits:
  assumes "n < 4294967296"
  shows "finite (sampled_frames n) \<and> card (sampled_frames n) + 1 \<le> kMaxTraceFrames"
  using sampled_frames_bound [OF assms] by simp

theorem trace_sampling_fits_witness:
  "finite (sampled_frames 10000) \<and> card (sampled_frames 10000) + 1 \<le> kMaxTraceFrames"
  by (rule trace_sampling_fits) simp

text \<open>
  C36. After any sequence of observations of frames below 2 to the 31, the tracker holds a
  diagnostic exactly when two confirmed hashes of one frame differed, and it is the diagnostic
  of the first such observation with the smallest frame.
\<close>

theorem tracker_keeps_earliest_mismatch:
  assumes "\<forall>ob \<in> set obs. observed_frame ob < 2147483648"
  shows "dt_diagnostic (observe_all obs (make_desync_tracker seed))
    = map_option (diagnose seed) (earliest_mismatch obs)"
  using observe_all_earliest [OF assms] by simp

theorem tracker_keeps_earliest_mismatch_witness:
  "dt_diagnostic (observe_all
     [(\<lparr>ho_frame = 9, ho_hash = 1, ho_confirmed = True\<rparr>, \<lparr>ho_frame = 9, ho_hash = 2, ho_confirmed = True\<rparr>,
       [], make_initial_world),
      (\<lparr>ho_frame = 4, ho_hash = 5, ho_confirmed = True\<rparr>, \<lparr>ho_frame = 4, ho_hash = 6, ho_confirmed = True\<rparr>,
       [], make_initial_world)] (make_desync_tracker 7))
   = Some (diagnose 7
      (\<lparr>ho_frame = 4, ho_hash = 5, ho_confirmed = True\<rparr>, \<lparr>ho_frame = 4, ho_hash = 6, ho_confirmed = True\<rparr>,
       [], make_initial_world))"
  by (subst tracker_keeps_earliest_mismatch) (simp_all add: earliest_mismatch_def)

end
