(* ===== verification/Json.thy ===== *)
theory Json
  imports Report
begin

text \<open>
  The canonical text of reports, diagnostics and traces: \<open>report/canonical_json.hpp\<close>,
  \<open>report/canonical_json.cpp\<close> and \<open>report_identity\<close>. An output stream is the string written
  so far; numbers are printed in decimal, a \<open>bool\<close> on a stream is \<open>1\<close> or \<open>0\<close>.

  The texts can be read back: decimal numbers, hash texts and escaped strings determine the
  value they print, and the identity digest is taken over a text that determines every field it
  lists.
\<close>

section \<open>Numbers and strings\<close>

definition nl :: string where "nl = [CHR 0x0A]"

definition digit :: "nat \<Rightarrow> char" where "digit d = char_of (48 + d)"

fun dec :: "nat \<Rightarrow> string" where
  "dec n = (if n < 10 then [digit n] else dec (n div 10) @ [digit (n mod 10)])"

declare dec.simps [simp del]

definition dec_word :: "'a::len word \<Rightarrow> string" where "dec_word w = dec (unat w)"

definition dec_signed :: "'a::len word \<Rightarrow> string" where
  "dec_signed w = (let i = sint w in if i < 0 then ''-'' @ dec (nat (- i)) else dec (nat i))"

definition stream_bool :: "bool \<Rightarrow> string" where "stream_bool b = (if b then ''1'' else ''0'')"

definition json_bool :: "bool \<Rightarrow> string" where "json_bool b = (if b then ''true'' else ''false'')"

definition hex_lower :: "nat \<Rightarrow> char" where
  "hex_lower d = (if d < 10 then char_of (48 + d) else char_of (87 + d))"

definition hex_upper :: "nat \<Rightarrow> char" where
  "hex_upper d = (if d < 10 then char_of (48 + d) else char_of (55 + d))"

definition escape_char :: "char \<Rightarrow> string" where
  "escape_char c =
     (if c = CHR 0x22 then [CHR 0x5C, CHR 0x22]
      else if c = CHR 0x5C then [CHR 0x5C, CHR 0x5C]
      else if c = CHR 0x08 then [CHR 0x5C] @ ''b''
      else if c = CHR 0x0C then [CHR 0x5C] @ ''f''
      else if c = CHR 0x0A then [CHR 0x5C] @ ''n''
      else if c = CHR 0x0D then [CHR 0x5C] @ ''r''
      else if c = CHR 0x09 then [CHR 0x5C] @ ''t''
      else if (of_char c :: nat) < 32
      then [CHR 0x5C] @ ''u00'' @ [hex_lower (of_char c div 16), hex_lower (of_char c mod 16)]
      else [c])"

definition escaped :: "string \<Rightarrow> string" where "escaped s = concat (map escape_char s)"

text \<open>Sixteen upper-case hexadecimal digits.\<close>

definition hash_text :: "StateHash \<Rightarrow> string" where
  "hash_text h = ''0x'' @ map (\<lambda>i. hex_upper (unat (drop_bit (4 * (15 - i)) h AND 0xF))) [0..<16]"

fun endpoint_text :: "Endpoint \<Rightarrow> string" where
  "endpoint_text EP_a = ''A''"
| "endpoint_text EP_b = ''B''"
| "endpoint_text EP_relay = ''relay''"

fun packet_kind_text :: "PacketTraceKind \<Rightarrow> string" where
  "packet_kind_text PTK_sent = ''sent''"
| "packet_kind_text PTK_delivered = ''delivered''"
| "packet_kind_text PTK_dropped = ''dropped''"
| "packet_kind_text PTK_duplicated = ''duplicated''"
| "packet_kind_text PTK_reordered = ''reordered''"

definition overflow_policy_text :: "QueueOverflowPolicy \<Rightarrow> string" where
  "overflow_policy_text p = (if p = QOP_fail then ''fail'' else ''drop_oldest'')"

fun overflow_policy_value :: "QueueOverflowPolicy \<Rightarrow> nat" where
  "overflow_policy_value QOP_fail = 0"
| "overflow_policy_value QOP_drop_oldest = 1"

definition player_text :: "PlayerId \<Rightarrow> string" where "player_text p = (if p = PA then ''A'' else ''B'')"

text \<open>Elements separated by commas, as the loops that write \<open>','\<close> before all but the first do.\<close>

fun separated :: "string \<Rightarrow> string list \<Rightarrow> string" where
  "separated sep [] = []"
| "separated sep [x] = x"
| "separated sep (x # y # xs) = x @ sep @ separated sep (y # xs)"

definition write_player :: "PlayerState \<Rightarrow> string" where
  "write_player p =
     ''{\"id\":\"'' @ player_text (ps_id p) @ ''\",\"x\":'' @ dec_signed (ps_x p) @ '',\"y\":''
      @ dec_signed (ps_y p) @ '',\"velocity_x\":'' @ dec_signed (ps_velocity_x p)
      @ '',\"velocity_y\":'' @ dec_signed (ps_velocity_y p) @ '',\"facing_x\":''
      @ dec_signed (ps_facing_x p) @ '',\"facing_y\":'' @ dec_signed (ps_facing_y p)
      @ '',\"hp\":'' @ dec_signed (ps_hp p) @ '',\"score\":'' @ dec_word (ps_score p)
      @ '',\"attack_cooldown\":'' @ dec_word (ps_attack_cooldown p) @ ''}''"

section \<open>The identity of a report\<close>

text \<open>The fields that \<open>identity_material\<close> writes, in its order.\<close>

definition identity_fields :: "RunReport \<Rightarrow> string list" where
  "identity_fields r =
     [dec_word (rr_simulation_version r),
      dec_word (rr_protocol_version r),
      dec_word (rr_pcg32_version r),
      dec_word (rr_scenario_seed r),
      dec_word (rr_transport_seed r),
      dec_word (rr_frame_count r),
      dec_word (tc_base_latency_ticks (rr_transport_config r)),
      dec_word (tc_jitter_ticks (rr_transport_config r)),
      dec_word (tc_loss_percent (rr_transport_config r)),
      dec_word (tc_reorder_percent (rr_transport_config r)),
      dec_word (tc_duplicate_percent (rr_transport_config r)),
      dec_word (tc_burst_loss_percent (rr_transport_config r)),
      dec (tc_max_queue_packets (rr_transport_config r)),
      dec (tc_max_queue_bytes (rr_transport_config r)),
      dec (tc_bandwidth_bytes_per_tick (rr_transport_config r)),
      dec_word (tc_max_packet_age_ticks (rr_transport_config r)),
      dec (overflow_policy_value (tc_overflow_policy (rr_transport_config r))),
      dec_word (tm_sent_packets (rr_transport_metrics r)),
      dec_word (tm_delivered_packets (rr_transport_metrics r)),
      dec_word (tm_dropped_loss (rr_transport_metrics r)),
      dec_word (tm_dropped_overflow (rr_transport_metrics r)),
      dec_word (tm_dropped_age (rr_transport_metrics r)),
      dec_word (tm_duplicated_packets (rr_transport_metrics r)),
      dec_word (tm_reordered_packets (rr_transport_metrics r)),
      dec_word (rr_rollback_count r),
      dec_word (rr_resimulated_frames r),
      dec_word (rr_maximum_rollback_depth r),
      dec_word (rr_predicted_input_count r),
      dec_word (rr_late_input_count r),
      dec_word (rr_confirmed_frame r),
      dec_word (rr_final_hash_a r),
      dec_word (rr_final_hash_b r),
      stream_bool (rr_replay_verified r),
      rr_desync_result r,
      stream_bool (rr_success r),
      rr_failure_reason r]"

definition identity_material :: "RunReport \<Rightarrow> string" where
  "identity_material r = separated ''|'' (identity_fields r)"

definition hash_string :: "string \<Rightarrow> StateHash" where
  "hash_string s = fnv1a64 (map of_char s)"

definition report_identity :: "RunReport \<Rightarrow> StateHash" where
  "report_identity r = hash_string (identity_material r)"

section \<open>The texts\<close>

definition report_json :: "RunReport \<Rightarrow> string" where
  "report_json r =
     ''{'' @ nl @ ''  \"git_sha\":\"'' @ escaped (rr_git_sha r) @ ''\",'' @ nl
      @ ''  \"build_type\":\"'' @ escaped (rr_build_type r) @ ''\",'' @ nl
      @ ''  \"compiler\":\"'' @ escaped (rr_compiler r) @ ''\",'' @ nl @ ''  \"os\":\"''
      @ escaped (rr_os r) @ ''\",'' @ nl @ ''  \"simulation_version\":''
      @ dec_word (rr_simulation_version r) @ '','' @ nl @ ''  \"protocol_version\":''
      @ dec_word (rr_protocol_version r) @ '','' @ nl @ ''  \"pcg32_version\":''
      @ dec_word (rr_pcg32_version r) @ '','' @ nl @ ''  \"scenario_seed\":''
      @ dec_word (rr_scenario_seed r) @ '','' @ nl @ ''  \"transport_seed\":''
      @ dec_word (rr_transport_seed r) @ '','' @ nl @ ''  \"frame_count\":''
      @ dec_word (rr_frame_count r) @ '','' @ nl
      @ ''  \"transport_config\":{\"base_latency_ticks\":''
      @ dec_word (tc_base_latency_ticks (rr_transport_config r)) @ '',\"jitter_ticks\":''
      @ dec_word (tc_jitter_ticks (rr_transport_config r)) @ '',\"loss_percent\":''
      @ dec_word (tc_loss_percent (rr_transport_config r)) @ '',\"reorder_percent\":''
      @ dec_word (tc_reorder_percent (rr_transport_config r)) @ '',\"duplicate_percent\":''
      @ dec_word (tc_duplicate_percent (rr_transport_config r)) @ '',\"burst_loss_percent\":''
      @ dec_word (tc_burst_loss_percent (rr_transport_config r)) @ '',\"max_queue_packets\":''
      @ dec (tc_max_queue_packets (rr_transport_config r)) @ '',\"max_queue_bytes\":''
      @ dec (tc_max_queue_bytes (rr_transport_config r)) @ '',\"bandwidth_bytes_per_tick\":''
      @ dec (tc_bandwidth_bytes_per_tick (rr_transport_config r))
      @ '',\"max_packet_age_ticks\":''
      @ dec_word (tc_max_packet_age_ticks (rr_transport_config r)) @ '',\"overflow_policy\":\"''
      @ overflow_policy_text (tc_overflow_policy (rr_transport_config r)) @ ''\"},'' @ nl
      @ ''  \"sent_packets\":'' @ dec_word (tm_sent_packets (rr_transport_metrics r)) @ '',''
      @ nl @ ''  \"delivered_packets\":''
      @ dec_word (tm_delivered_packets (rr_transport_metrics r)) @ '','' @ nl
      @ ''  \"dropped_packets\":''
      @ dec_word (tm_dropped_loss (rr_transport_metrics r) + tm_dropped_overflow (rr_transport_metrics r) + tm_dropped_age (rr_transport_metrics r))
      @ '','' @ nl @ ''  \"duplicated_packets\":''
      @ dec_word (tm_duplicated_packets (rr_transport_metrics r)) @ '','' @ nl
      @ ''  \"reordered_packets\":'' @ dec_word (tm_reordered_packets (rr_transport_metrics r))
      @ '','' @ nl @ ''  \"rollback_count\":'' @ dec_word (rr_rollback_count r) @ '','' @ nl
      @ ''  \"resimulated_frames\":'' @ dec_word (rr_resimulated_frames r) @ '','' @ nl
      @ ''  \"maximum_rollback_depth\":'' @ dec_word (rr_maximum_rollback_depth r) @ '','' @ nl
      @ ''  \"predicted_input_count\":'' @ dec_word (rr_predicted_input_count r) @ '','' @ nl
      @ ''  \"late_input_count\":'' @ dec_word (rr_late_input_count r) @ '','' @ nl
      @ ''  \"confirmed_frame\":'' @ dec_word (rr_confirmed_frame r) @ '','' @ nl
      @ ''  \"final_hash_a\":\"'' @ hash_text (rr_final_hash_a r) @ ''\",'' @ nl
      @ ''  \"final_hash_b\":\"'' @ hash_text (rr_final_hash_b r) @ ''\",'' @ nl
      @ ''  \"replay_verification\":'' @ json_bool (rr_replay_verified r) @ '','' @ nl
      @ ''  \"desync_result\":\"'' @ escaped (rr_desync_result r) @ ''\",'' @ nl
      @ ''  \"timing_observations\":{\"simulation_microseconds\":''
      @ dec_word (to_simulation_microseconds (rr_timing r)) @ '',\"rollback_microseconds\":''
      @ dec_word (to_rollback_microseconds (rr_timing r)) @ ''},'' @ nl
      @ ''  \"identity_digest\":\"'' @ hash_text (report_identity r) @ ''\",'' @ nl
      @ ''  \"success\":'' @ json_bool (rr_success r) @ '','' @ nl @ ''  \"failure_reason\":\"''
      @ escaped (rr_failure_reason r) @ ''\"'' @ nl @ ''}'' @ nl"

definition write_input_pair :: "InputPair \<Rightarrow> string" where
  "write_input_pair p =
     ''{\"frame\":'' @ dec_word (in_frame (pair_a p)) @ '',\"a\":''
      @ dec_word (in_buttons (pair_a p)) @ '',\"b\":'' @ dec_word (in_buttons (pair_b p))
      @ ''}''"

definition write_player_summary :: "PlayerStateSummary \<Rightarrow> string" where
  "write_player_summary p =
     ''{\"id\":\"'' @ player_text (pss_id p) @ ''\",\"x\":'' @ dec_signed (pss_x p)
      @ '',\"y\":'' @ dec_signed (pss_y p) @ '',\"hp\":'' @ dec_signed (pss_hp p)
      @ '',\"score\":'' @ dec_word (pss_score p) @ ''}''"

definition diagnostic_json :: "DesyncDiagnostic \<Rightarrow> string" where
  "diagnostic_json d =
     ''{'' @ nl @ ''  \"earliest_divergent_frame\":'' @ dec_word (dd_earliest_divergent_frame d)
      @ '','' @ nl @ ''  \"local_hash\":\"'' @ hash_text (dd_local_hash d) @ ''\",'' @ nl
      @ ''  \"remote_hash\":\"'' @ hash_text (dd_remote_hash d) @ ''\",'' @ nl
      @ ''  \"recent_inputs\":['' @ separated '','' (map write_input_pair (dd_recent_inputs d))
      @ ''],'' @ nl @ ''  \"state_summary\":{\"players\":[''
      @ separated '','' (map write_player_summary (dd_players d))
      @ ''],\"active_projectiles\":'' @ dec_word (dd_active_projectiles d) @ ''},'' @ nl
      @ ''  \"simulation_version\":'' @ dec_word (dd_simulation_version d) @ '','' @ nl
      @ ''  \"protocol_version\":'' @ dec_word (dd_protocol_version d) @ '','' @ nl
      @ ''  \"scenario_seed\":'' @ dec_word (dd_scenario_seed d) @ nl @ ''}'' @ nl"

definition write_trace_projectile :: "ProjectileState \<Rightarrow> string" where
  "write_trace_projectile p =
     ''{\"id\":'' @ dec_word (pj_stable_id p) @ '',\"owner\":\"'' @ player_text (pj_owner p)
      @ ''\",\"x\":'' @ dec_signed (pj_x p) @ '',\"y\":'' @ dec_signed (pj_y p) @ ''}''"

definition write_trace_frame :: "TraceFrame \<Rightarrow> string" where
  "write_trace_frame f =
     ''{\"frame\":'' @ dec_word (tf_frame f) @ '',\"players\":[''
      @ write_player (ws_players (tf_state f) ! 0) @ '',''
      @ write_player (ws_players (tf_state f) ! 1) @ ''],\"projectiles\":[''
      @ separated '','' (map write_trace_projectile (filter pj_active (ws_projectiles (tf_state f))))
      @ ''],\"hash\":\"'' @ hash_text (tf_hash f) @ ''\",\"predicted\":''
      @ json_bool (tf_predicted f) @ '',\"confirmed_frame\":'' @ dec_word (tf_confirmed_frame f)
      @ ''}''"

definition write_trace_packet :: "PacketTraceEvent \<Rightarrow> string" where
  "write_trace_packet p =
     ''{\"tick\":'' @ dec_word (pe_tick p) @ '',\"kind\":\"'' @ packet_kind_text (pe_kind p)
      @ ''\",\"from\":\"'' @ endpoint_text (pe_from p) @ ''\",\"to\":\"''
      @ endpoint_text (pe_to p) @ ''\",\"sequence\":'' @ dec_word (pe_sequence p) @ ''}''"

definition write_trace_rollback :: "RollbackTraceEvent \<Rightarrow> string" where
  "write_trace_rollback r =
     ''{\"observed_at\":'' @ dec_word (re_observed_at r) @ '',\"rollback_from\":''
      @ dec_word (re_rollback_from r) @ '',\"depth\":'' @ dec_word (re_depth r) @ ''}''"

definition write_trace_desync :: "TraceDesyncMarker option \<Rightarrow> string" where
  "write_trace_desync m =
     (case m of
        Some d \<Rightarrow> '',\"desync\":{\"frame\":'' @ dec_word (dm_frame d) @ '',\"local_hash\":\"''
          @ hash_text (dm_local_hash d) @ ''\",\"remote_hash\":\"'' @ hash_text (dm_remote_hash d) @ ''\"}''
      | None \<Rightarrow> '',\"desync\":null'')"

definition trace_text :: "Trace \<Rightarrow> string" where
  "trace_text t =
     ''{\"trace_version\":'' @ dec_word (tx_trace_version t) @ '',\"scenario_seed\":''
      @ dec_word (tx_scenario_seed t) @ '',\"sample_interval\":''
      @ dec_word (tx_sample_interval t) @ '',\"frames\":[''
      @ separated '','' (map write_trace_frame (tx_frames t)) @ ''],\"packets\":[''
      @ separated '','' (map write_trace_packet (tx_packets t)) @ ''],\"rollbacks\":[''
      @ separated '','' (map write_trace_rollback (tx_rollbacks t))
      @ ''],\"omitted_frame_samples\":'' @ dec_word (tx_omitted_frame_samples t)
      @ '',\"omitted_packet_events\":'' @ dec_word (tx_omitted_packet_events t)
      @ '',\"omitted_rollback_events\":'' @ dec_word (tx_omitted_rollback_events t)
      @ write_trace_desync (tx_desync t) @ ''}'' @ nl"

definition trace_json :: "Trace \<Rightarrow> string Result" where
  "trace_json t =
     (if length (tx_frames t) > kMaxTraceFrames \<or> length (tx_packets t) > kMaxTracePacketEvents
         \<or> length (tx_rollbacks t) > kMaxTraceRollbackEvents
      then failure EC_capacity_exceeded (of_nat (length (tx_frames t))) 0 ''trace_capacity''
      else Inr (trace_text t))"

section \<open>Reading the texts back\<close>

lemma of_char_digit [simp]: "d < 10 \<Longrightarrow> of_char (digit d) = 48 + d"
  by (simp add: digit_def)

definition undec :: "string \<Rightarrow> nat" where
  "undec s = foldl (\<lambda>n c. 10 * n + (of_char c - 48)) 0 s"

lemma undec_dec: "undec (dec n) = n"
proof (induction n rule: dec.induct)
  case (1 n)
  show ?case
  proof (cases "n < 10")
    case True
    then show ?thesis by (simp add: dec.simps [of n] undec_def)
  next
    case False
    have "n mod 10 < 10" by simp
    then show ?thesis using 1 [OF False] False
      by (simp add: dec.simps [of n] undec_def)
  qed
qed

lemma dec_eq_iff [simp]: "dec m = dec n \<longleftrightarrow> m = n"
  by (metis undec_dec)

lemma dec_word_eq_iff [simp]: "dec_word v = dec_word w \<longleftrightarrow> v = w"
  by (simp add: dec_word_def word_unat_eq_iff)

lemma dec_digits: "c \<in> set (dec n) \<Longrightarrow> 48 \<le> (of_char c :: nat) \<and> of_char c < (58 :: nat)"
proof (induction n rule: dec.induct)
  case (1 n)
  have "n mod 10 < 10" by simp
  then show ?case using 1
    by (cases "n < 10") (auto simp: dec.simps [of n])
qed

lemma stream_bool_eq_iff [simp]: "stream_bool a = stream_bool b \<longleftrightarrow> a = b"
  by (simp add: stream_bool_def)

lemma overflow_policy_value_inj [simp]:
  "overflow_policy_value p = overflow_policy_value q \<longleftrightarrow> p = q"
  by (cases p; cases q) simp_all

text \<open>The text up to a separator that does not occur in it.\<close>

lemma append_sep_eq:
  "\<lbrakk>x @ c # u = y @ c # v; c \<notin> set x; c \<notin> set y\<rbrakk> \<Longrightarrow> x = y \<and> u = v"
proof (induction x arbitrary: y)
  case Nil
  then show ?case by (cases y) auto
next
  case (Cons a x)
  then show ?case by (cases y) auto
qed

lemma separated_inject:
  "\<lbrakk>separated [c] xs = separated [c] ys; length xs = length ys;
    \<forall>x\<in>set (butlast xs). c \<notin> set x; \<forall>y\<in>set (butlast ys). c \<notin> set y\<rbrakk> \<Longrightarrow> xs = ys"
proof (induction "[c]" xs arbitrary: ys rule: separated.induct)
  case (3 x y xs)
  from 3(3) obtain x' y' ys' where ys: "ys = x' # y' # ys'"
    by (cases ys; cases "tl ys") simp_all
  have "x = x' \<and> separated [c] (y # xs) = separated [c] (y' # ys')"
    using 3 ys by (intro append_sep_eq) auto
  then show ?case using 3 ys by auto
next
  case (2 x)
  then show ?case by (cases ys) auto
qed simp

text \<open>The part of a report that its identity covers: neither the build nor the timing.\<close>

definition same_run :: "RunReport \<Rightarrow> RunReport \<Rightarrow> bool" where
  "same_run r r' \<longleftrightarrow>
     r\<lparr>rr_git_sha := [], rr_build_type := [], rr_compiler := [], rr_os := [],
       rr_timing := \<lparr>to_simulation_microseconds = 0, to_rollback_microseconds = 0\<rparr>,
       rr_transport_config := (rr_transport_config r)\<lparr>tc_seed := 0\<rparr>\<rparr>
     = r'\<lparr>rr_git_sha := [], rr_build_type := [], rr_compiler := [], rr_os := [],
        rr_timing := \<lparr>to_simulation_microseconds = 0, to_rollback_microseconds = 0\<rparr>,
        rr_transport_config := (rr_transport_config r')\<lparr>tc_seed := 0\<rparr>\<rparr>"

lemma identity_fields_iff: "identity_fields r = identity_fields r' \<longleftrightarrow> same_run r r'"
  by (cases r; cases r'; cases "rr_transport_config r"; cases "rr_transport_config r'";
      cases "rr_transport_metrics r"; cases "rr_transport_metrics r'";
      simp add: identity_fields_def same_run_def conj_ac)

lemma no_bar_dec: "CHR ''|'' \<notin> set (dec n)"
  using dec_digits [of "CHR ''|''" n] by auto

lemma no_bar_stream_bool: "CHR ''|'' \<notin> set (stream_bool b)"
  by (simp add: stream_bool_def)

lemma identity_fields_plain:
  "CHR ''|'' \<notin> set (rr_desync_result r) \<Longrightarrow>
     \<forall>x\<in>set (butlast (identity_fields r)). CHR ''|'' \<notin> set x"
  by (simp add: identity_fields_def dec_word_def no_bar_dec no_bar_stream_bool)

lemma identity_material_iff:
  assumes "CHR ''|'' \<notin> set (rr_desync_result r)" and "CHR ''|'' \<notin> set (rr_desync_result r')"
  shows "identity_material r = identity_material r' \<longleftrightarrow> same_run r r'"
proof -
  have "length (identity_fields r) = length (identity_fields r')"
    by (simp add: identity_fields_def)
  then show ?thesis
    unfolding identity_material_def identity_fields_iff [symmetric]
    using separated_inject identity_fields_plain assms by metis
qed

section \<open>Strings and hashes\<close>

definition hex_value :: "char \<Rightarrow> nat option" where
  "hex_value c =
     (let n = of_char c :: nat in
      if 48 \<le> n \<and> n < 58 then Some (n - 48)
      else if 97 \<le> n \<and> n < 103 then Some (n - 87)
      else if 65 \<le> n \<and> n < 71 then Some (n - 55)
      else None)"

text \<open>A JSON reader of the inside of a string: the value and the text after the closing quote.\<close>

fun simple_escape :: "char \<Rightarrow> char option" where
  "simple_escape c =
     (if c = CHR 0x22 \<or> c = CHR 0x5C then Some c
      else if c = CHR ''b'' then Some (CHR 0x08)
      else if c = CHR ''f'' then Some (CHR 0x0C)
      else if c = CHR ''n'' then Some (CHR 0x0A)
      else if c = CHR ''r'' then Some (CHR 0x0D)
      else if c = CHR ''t'' then Some (CHR 0x09)
      else None)"

definition code_point :: "char \<Rightarrow> char \<Rightarrow> char \<Rightarrow> char \<Rightarrow> char option" where
  "code_point a b c d =
     (case (hex_value a, hex_value b, hex_value c, hex_value d) of
        (Some 0, Some 0, Some h, Some l) \<Rightarrow> Some (char_of (16 * h + l))
      | _ \<Rightarrow> None)"

fun read_string :: "string \<Rightarrow> (string \<times> string) option" where
  "read_string (c # cs) =
     (if c = CHR 0x22 then Some ([], cs)
      else if (of_char c :: nat) < 32 then None
      else if c \<noteq> CHR 0x5C then map_option (apfst ((#) c)) (read_string cs)
      else (case cs of
          CHR ''u'' # h1 # h2 # h3 # h4 # rest \<Rightarrow>
            (case code_point h1 h2 h3 h4 of
               Some v \<Rightarrow> map_option (apfst ((#) v)) (read_string rest)
             | None \<Rightarrow> None)
        | e # rest \<Rightarrow>
            (case simple_escape e of
               Some v \<Rightarrow> map_option (apfst ((#) v)) (read_string rest)
             | None \<Rightarrow> None)
        | [] \<Rightarrow> None))"
| "read_string [] = None"

declare read_string.simps [simp del]

lemma hex_value_lower: "d < 16 \<Longrightarrow> hex_value (hex_lower d) = Some d"
  by (auto simp: hex_value_def hex_lower_def Let_def)

lemma hex_value_upper: "d < 16 \<Longrightarrow> hex_value (hex_upper d) = Some d"
  by (auto simp: hex_value_def hex_upper_def Let_def)

lemma hex_value_0: "hex_value (CHR ''0'') = Some 0"
  by (simp add: hex_value_def)

lemma code_point_control:
  "(of_char c :: nat) < 32 \<Longrightarrow>
     code_point (CHR ''0'') (CHR ''0'') (hex_lower (of_char c div 16)) (hex_lower (of_char c mod 16)) = Some c"
  by (simp add: code_point_def hex_value_0 hex_value_lower mult.commute)

lemma read_escape_char:
  "read_string (escape_char c @ t) = map_option (apfst ((#) c)) (read_string t)"
proof (cases "c \<in> {CHR 0x22, CHR 0x5C, CHR 0x08, CHR 0x0C, CHR 0x0A, CHR 0x0D, CHR 0x09}")
  case True
  then show ?thesis by (auto simp: escape_char_def read_string.simps)
next
  case False
  show ?thesis
  proof (cases "(of_char c :: nat) < 32")
    case True
    then have "escape_char c = [CHR 0x5C] @ ''u00'' @ [hex_lower (of_char c div 16), hex_lower (of_char c mod 16)]"
      using False by (simp add: escape_char_def)
    then show ?thesis using True by (simp add: read_string.simps code_point_control)
  next
    case plain: False
    then have "escape_char c = [c]" using False by (simp add: escape_char_def)
    then show ?thesis using plain False by (simp add: read_string.simps)
  qed
qed

lemma read_escaped: "read_string (escaped s @ CHR 0x22 # t) = Some (s, t)"
  by (induction s)
    (simp_all add: escaped_def read_string.simps read_escape_char)

text \<open>
  A string that the report prints between quotes is read back by a JSON reader: the reader
  gets the string itself and stops at the closing quote, whatever quotes, backslashes and
  control characters the string holds.
\<close>

theorem escaped_reads_back: "read_string (escaped s @ CHR 0x22 # t) = Some (s, t)"
  by (rule read_escaped)

lemma hash_text_digit:
  assumes "i < 16"
  shows "hex_value (hash_text h ! (2 + i)) = Some (unat (drop_bit (4 * (15 - i)) h AND 0xF))"
proof -
  have "unat (drop_bit (4 * (15 - i)) h AND 0xF) < 16"
    using word_and_le1 [of "drop_bit (4 * (15 - i)) h" "0xF"] by (simp add: word_le_nat_alt)
  then show ?thesis
    using assms by (simp add: hash_text_def hex_value_upper nth_append)
qed

lemma hash_text_inj: "hash_text g = hash_text h \<longleftrightarrow> g = h"
proof
  assume eq: "hash_text g = hash_text h"
  show "g = h"
  proof (rule bit_word_eqI)
    fix n assume n: "n < LENGTH(64)"
    define i where "i = 15 - n div 4"
    have i: "i < 16" and 4: "15 - i = n div 4" using n by (auto simp: i_def)
    have "unat (drop_bit (4 * (15 - i)) g AND 0xF) = unat (drop_bit (4 * (15 - i)) h AND 0xF)"
      using hash_text_digit [OF i, of g] hash_text_digit [OF i, of h] eq by simp
    then have "drop_bit (4 * (n div 4)) g AND mask 4 = drop_bit (4 * (n div 4)) h AND mask 4"
      by (simp add: 4 mask_eq_exp_minus_1 word_unat_eq_iff)
    then have "bit (drop_bit (4 * (n div 4)) g AND mask 4) (n mod 4)
             = bit (drop_bit (4 * (n div 4)) h AND mask 4) (n mod 4)"
      by simp
    moreover have "n mod 4 < 64" using mod_less_divisor [of 4 n] by linarith
    ultimately show "bit g n = bit h n"
      by (simp add: bit_simps)
  qed
qed simp

text \<open>
  C38. The text that \<open>report_identity\<close> digests determines the run: when two reports' outcomes hold
  no separator, the texts are equal exactly when the reports agree on every field except the
  build's names, the timing and the generator seed of the transport configuration.
\<close>

theorem identity_determines_run:
  assumes "CHR ''|'' \<notin> set (rr_desync_result r)"
    and "CHR ''|'' \<notin> set (rr_desync_result r')"
  shows "identity_material r = identity_material r' \<longleftrightarrow> same_run r r'"
  by (rule identity_material_iff [OF assms])

theorem identity_determines_run_witness:
  "let b = \<lparr>bi_git_sha = ''g'', bi_build_type = ''Release'', bi_compiler = ''GCC'', bi_os = ''POSIX''\<rparr>
   in identity_material (default_report b)
        = identity_material ((default_report b)\<lparr>rr_git_sha := ''h'', rr_compiler := ''MSVC''\<rparr>)
    \<and> identity_material ((default_report b)\<lparr>rr_desync_result := ''desync''\<rparr>)
        \<noteq> identity_material (default_report b)"
  unfolding Let_def
  by (subst (1 2) identity_determines_run) (simp_all add: same_run_def default_report_def)

end
