(* ===== verification/Rollback.thy ===== *)
theory Rollback
  imports Session
begin

text \<open>
  The correctness of \<open>RollbackSession\<close>. A session predicts remote inputs, simulates ahead,
  and repairs the past when a late input contradicts a prediction. The specification is a run
  without prediction, \<open>lockstep_run\<close>, which simulates both players' actual buttons frame by
  frame.

  \<open>session_reach\<close> is the set of sessions that any sequence of calls can produce, with two
  ghost values that no operation reads: the local inputs accepted so far and the remote inputs
  ingested so far. \<open>session_inv\<close> relates the five rings, the dirty mark and the confirmed
  boundary to the ghosts. It is preserved by every call, succeeding or failing, and gives: no
  call fails except for a caller's error, the confirmed boundary is the first frame that is
  unknown or contradicted, confirmed hashes and states are those of the lockstep run, so two
  peers agree on every confirmed frame.

  The assumptions are in \<open>valid_config\<close> (the initial world is well formed and tagged 0, the
  rollback window is below the ring's capacity), \<open>within_horizon\<close> (fewer than
  \<open>2 ^ 31 - 256\<close> frames, so that the wrapping frame order is the order of the naturals), and the
  guard of the step \<open>ingested\<close>: an input ahead of the session fits the ring together with the
  rollback window. The guard holds for every input of the first 256 frames.
\<close>

section \<open>The specification\<close>

fun lockstep_run :: "SimulationVariant \<Rightarrow> WorldState \<Rightarrow> (nat \<Rightarrow> u8) \<Rightarrow> (nat \<Rightarrow> u8) \<Rightarrow> nat
    \<Rightarrow> WorldState Result" where
  "lockstep_run variant w buttons_a buttons_b 0 = Inr w"
| "lockstep_run variant w buttons_a buttons_b (Suc n) =
     (case lockstep_run variant w buttons_a buttons_b n of
        Inl e \<Rightarrow> Inl e
      | Inr v \<Rightarrow> simulate_frame v (of_nat n)
                 (neutral_pair (of_nat n) (buttons_a n) (buttons_b n)) variant)"

type_synonym RemoteLog = "nat \<Rightarrow> InputFrame option"

definition rollback_window :: "SessionConfig \<Rightarrow> nat" where
  "rollback_window cfg = unat (cfg_max_rollback_frames cfg)"

definition valid_config :: "SessionConfig \<Rightarrow> bool" where
  "valid_config cfg \<longleftrightarrow> world_inv (cfg_initial_state cfg) \<and> ws_frame (cfg_initial_state cfg) = 0
     \<and> rollback_window cfg < kHistoryCapacity"

definition within_horizon :: "SessionConfig \<Rightarrow> InputFrame list \<Rightarrow> bool" where
  "within_horizon cfg ls \<longleftrightarrow> length ls < 2147483392
     \<and> unat (ws_next_projectile_id (cfg_initial_state cfg)) + 2 * length ls \<le> 4294967293"

text \<open>The buttons a player really pressed in a frame, as this peer knows them.\<close>

definition player_buttons :: "SessionConfig \<Rightarrow> InputFrame list \<Rightarrow> RemoteLog \<Rightarrow> PlayerId \<Rightarrow> nat \<Rightarrow> u8" where
  "player_buttons cfg ls R p i =
     in_buttons (if p = cfg_local_peer cfg then ls ! i else the (R i))"

inductive session_reach ::
    "SessionConfig \<Rightarrow> InputFrame list \<Rightarrow> RemoteLog \<Rightarrow> RollbackSession \<Rightarrow> bool"
  for cfg where
  start: "session_reach cfg [] (\<lambda>_. None) (make_session cfg)"
| advanced: "session_reach cfg ls R s \<Longrightarrow> advance local s = (Inr r, s')
    \<Longrightarrow> session_reach cfg (ls @ [local]) R s'"
| refused: "session_reach cfg ls R s \<Longrightarrow> advance local s = (Inl e, s')
    \<Longrightarrow> session_reach cfg ls R s'"
| ingested: "session_reach cfg ls R s \<Longrightarrow> ingest_remote x s = (Inr (), s')
    \<Longrightarrow> unat (in_frame x) + rollback_window cfg < max (length ls) (rollback_window cfg) + kHistoryCapacity
    \<Longrightarrow> session_reach cfg ls (R(unat (in_frame x) \<mapsto> x)) s'"
| rejected: "session_reach cfg ls R s \<Longrightarrow> ingest_remote x s = (Inl e, s')
    \<Longrightarrow> session_reach cfg ls R s'"
| flushed: "session_reach cfg ls R s \<Longrightarrow> flush_corrections s = (r, s')
    \<Longrightarrow> session_reach cfg ls R s'"

section \<open>The invariant\<close>

definition ring_window :: "nat \<Rightarrow> nat \<Rightarrow> 'a FrameRing \<Rightarrow> (nat \<Rightarrow> 'a) \<Rightarrow> bool" where
  "ring_window lo hi r S \<longleftrightarrow> (\<forall>i. lo \<le> i \<longrightarrow> i < hi \<longrightarrow> get_frame (of_nat i) r = Inr (S i))"

definition remote_ok :: "SessionConfig \<Rightarrow> nat \<Rightarrow> RemoteLog \<Rightarrow> InputFrame FrameRing \<Rightarrow> bool" where
  "remote_ok cfg c R ring \<longleftrightarrow>
     (\<forall>f x. get_frame f ring = Inr x
        \<longrightarrow> (\<exists>i. f = of_nat i \<and> i + rollback_window cfg < max c (rollback_window cfg) + kHistoryCapacity \<and> R i = Some x))
   \<and> (\<forall>i x. R i = Some x \<longrightarrow>
          in_frame x = of_nat i \<and> in_player x = other_peer (cfg_local_peer cfg)
        \<and> i + rollback_window cfg < max c (rollback_window cfg) + kHistoryCapacity
        \<and> (c \<le> i + rollback_window cfg \<longrightarrow> get_frame (of_nat i) ring = Inr x))"

text \<open>
  The simulated past: \<open>S i\<close> is the world before frame \<open>i\<close> and \<open>U i\<close> the remote input that
  frame \<open>i\<close> was simulated with, for the frames below \<open>k\<close>.
\<close>

definition chain :: "SessionConfig \<Rightarrow> InputFrame list \<Rightarrow> (nat \<Rightarrow> InputFrame) \<Rightarrow> (nat \<Rightarrow> WorldState)
    \<Rightarrow> nat \<Rightarrow> bool" where
  "chain cfg ls U S k \<longleftrightarrow> S 0 = cfg_initial_state cfg
     \<and> (\<forall>i<k. simulate_frame (S i) (of_nat i) (make_pair (cfg_local_peer cfg) (ls ! i) (U i))
               (cfg_variant cfg) = Inr (S (Suc i)))"

definition local_ok :: "SessionConfig \<Rightarrow> nat \<Rightarrow> InputFrame \<Rightarrow> bool" where
  "local_ok cfg c local \<longleftrightarrow> in_frame local = of_nat c \<and> in_player local = cfg_local_peer cfg"

definition session_core :: "SessionConfig \<Rightarrow> InputFrame list \<Rightarrow> RemoteLog \<Rightarrow> (nat \<Rightarrow> InputFrame)
    \<Rightarrow> (nat \<Rightarrow> WorldState) \<Rightarrow> nat \<Rightarrow> RollbackSession \<Rightarrow> bool" where
  "session_core cfg ls R U S k s \<longleftrightarrow>
     s_config s = cfg \<and> s_state s = S k \<and> chain cfg ls U S k
   \<and> (\<forall>i<length ls. local_ok cfg i (ls ! i))
   \<and> ring_window (length ls - 256) (length ls) (s_local_inputs s) (\<lambda>i. ls ! i)
   \<and> (\<forall>f x. get_frame f (s_local_inputs s) = Inr x \<longrightarrow> (\<exists>i<length ls. f = of_nat i))
   \<and> ring_window (length ls - 256) k (s_used_remote_inputs s) U
   \<and> ring_window (length ls - 256) k (s_snapshots s) S
   \<and> ring_window (length ls - 255) (Suc k) (s_hashes s) (\<lambda>i. hash_canonical (S i))
   \<and> (\<forall>f h. get_frame f (s_hashes s) = Inr h \<longrightarrow> (\<exists>i\<le>length ls. f = of_nat i))
   \<and> remote_ok cfg (length ls) R (s_remote_inputs s)"

text \<open>Below \<open>n\<close> no known remote input contradicts the one that was simulated.\<close>

definition session_clean :: "SessionConfig \<Rightarrow> InputFrame list \<Rightarrow> RemoteLog \<Rightarrow> (nat \<Rightarrow> InputFrame)
    \<Rightarrow> nat \<Rightarrow> FrameNumber option \<Rightarrow> bool" where
  "session_clean cfg ls R U n dirty \<longleftrightarrow>
     (case dirty of
        None \<Rightarrow> n = length ls
      | Some d \<Rightarrow> d = of_nat n \<and> n < length ls \<and> length ls \<le> n + rollback_window cfg)
   \<and> (\<forall>i<n. \<forall>x. R i = Some x \<longrightarrow> in_buttons (U i) = in_buttons x)"

definition confirmed_upto :: "RemoteLog \<Rightarrow> nat \<Rightarrow> nat \<Rightarrow> bool" where
  "confirmed_upto R n cf \<longleftrightarrow> cf \<le> n \<and> (\<forall>i<cf. R i \<noteq> None) \<and> (cf = n \<or> R cf = None)"

definition session_inv :: "SessionConfig \<Rightarrow> InputFrame list \<Rightarrow> RemoteLog \<Rightarrow> RollbackSession \<Rightarrow> bool" where
  "session_inv cfg ls R s \<longleftrightarrow>
     (\<exists>U S n cf. session_core cfg ls R U S (length ls) s
        \<and> session_clean cfg ls R U n (s_earliest_dirty s)
        \<and> confirmed_upto R n cf \<and> m_confirmed_frame (s_metrics s) = of_nat cf)"

subsection \<open>Windows of a ring\<close>

lemma ring_windowD: "ring_window lo hi r S \<Longrightarrow> lo \<le> i \<Longrightarrow> i < hi \<Longrightarrow> get_frame (of_nat i) r = Inr (S i)"
  by (simp add: ring_window_def)

lemma ring_window_mono:
  "ring_window lo hi r S \<Longrightarrow> lo \<le> lo' \<Longrightarrow> hi' \<le> hi \<Longrightarrow> ring_window lo' hi' r S"
  by (auto simp: ring_window_def)

lemma ring_window_cong:
  "ring_window lo hi r S \<Longrightarrow> (\<And>i. i < hi \<Longrightarrow> S i = T i) \<Longrightarrow> ring_window lo hi r T"
  by (auto simp: ring_window_def)

lemma ring_window_put:
  assumes "ring_window lo hi r S" and "hi < 4294967296" and "hi < lo + 256"
  shows "ring_window lo (Suc hi) (put_frame (of_nat hi) v r) (S(hi := v))"
  unfolding ring_window_def
proof (intro allI impI)
  fix i assume "lo \<le> i" "i < Suc hi"
  then show "get_frame (of_nat i) (put_frame (of_nat hi) v r) = Inr ((S(hi := v)) i)"
    using assms by (intro history.window_put [of lo hi]) (auto simp: ring_window_def kHistoryCapacity_def)
qed

lemma get_put_known:
  "get_frame g (put_frame f v r) = Inr x \<Longrightarrow> (f = g \<and> x = v) \<or> (f \<noteq> g \<and> get_frame g r = Inr x)"
  by (rule history.get_put_Inr)

subsection \<open>The simulated past\<close>

lemma pair_for_make_pair:
  "pair_for f (make_pair p l x) \<longleftrightarrow>
     in_frame l = f \<and> in_frame x = f \<and> in_player l = p \<and> in_player x = other_peer p"
  by (cases p) (auto simp: pair_for_def make_pair_def other_peer_def)

lemma same_buttons_pair:
  assumes "pair_for f (make_pair p l x)"
  shows "same_buttons (make_pair p l x)
           (neutral_pair f (if p = PA then in_buttons l else in_buttons x)
                           (if p = PA then in_buttons x else in_buttons l))"
  using assms by (cases p) (auto simp: pair_for_def make_pair_def same_buttons_def neutral_pair_def)

lemma chain_frame: "chain cfg ls U S k \<Longrightarrow> valid_config cfg \<Longrightarrow> i \<le> k \<Longrightarrow> ws_frame (S i) = of_nat i"
  by (cases i)
    (auto simp: chain_def valid_config_def next_frame_def Suc_le_eq dest!: spec dest: simulate_frame_frame)

lemma chain_pair:
  "chain cfg ls U S k \<Longrightarrow> i < k \<Longrightarrow> pair_for (of_nat i) (make_pair (cfg_local_peer cfg) (ls ! i) (U i))"
  by (auto simp: chain_def dest: simulate_frame_pair)

lemma chain_inv:
  assumes "chain cfg ls U S k" "valid_config cfg"
    and "unat (ws_next_projectile_id (cfg_initial_state cfg)) + 2 * k \<le> 4294967295"
  shows "i \<le> k \<Longrightarrow> world_inv (S i) \<and>
    unat (ws_next_projectile_id (S i)) \<le> unat (ws_next_projectile_id (cfg_initial_state cfg)) + 2 * i"
proof (induction i)
  case 0
  with assms show ?case by (simp add: chain_def valid_config_def)
next
  case (Suc i)
  then have i: "world_inv (S i)"
      "unat (ws_next_projectile_id (S i)) \<le> unat (ws_next_projectile_id (cfg_initial_state cfg)) + 2 * i"
    by simp_all
  have "unat (ws_next_projectile_id (S i)) \<le> 4294967293" using i(2) assms(3) Suc.prems by linarith
  moreover have "pair_for (ws_frame (S i)) (make_pair (cfg_local_peer cfg) (ls ! i) (U i))"
    using assms Suc.prems by (simp add: chain_pair chain_frame [OF assms(1,2), of i])
  ultimately have "\<exists>w. simulate_frame (S i) (ws_frame (S i)) (make_pair (cfg_local_peer cfg) (ls ! i) (U i))
        (cfg_variant cfg) = Inr w \<and> world_inv w \<and> ws_frame w = next_frame (ws_frame (S i))
      \<and> unat (ws_next_projectile_id w) \<le> unat (ws_next_projectile_id (S i)) + 2"
    using i(1) by (intro simulate_frame_step)
  moreover have "simulate_frame (S i) (ws_frame (S i)) (make_pair (cfg_local_peer cfg) (ls ! i) (U i))
        (cfg_variant cfg) = Inr (S (Suc i))"
    using assms Suc.prems by (simp add: chain_frame [OF assms(1,2), of i]) (simp add: chain_def)
  ultimately show ?case using i(2) by auto
qed

lemma chain_step:
  assumes "chain cfg ls U S k" "valid_config cfg"
    and "unat (ws_next_projectile_id (cfg_initial_state cfg)) + 2 * k \<le> 4294967293"
    and "pair_for (of_nat k) (make_pair (cfg_local_peer cfg) l x)"
  obtains w where "simulate_frame (S k) (of_nat k) (make_pair (cfg_local_peer cfg) l x) (cfg_variant cfg) = Inr w"
proof -
  have "world_inv (S k)" "unat (ws_next_projectile_id (S k)) \<le> 4294967293"
    using chain_inv [OF assms(1,2), of k] assms(3) by auto
  then have "\<exists>w. simulate_frame (S k) (ws_frame (S k)) (make_pair (cfg_local_peer cfg) l x)
        (cfg_variant cfg) = Inr w \<and> world_inv w \<and> ws_frame w = next_frame (ws_frame (S k))
      \<and> unat (ws_next_projectile_id w) \<le> unat (ws_next_projectile_id (S k)) + 2"
    using assms(4) chain_frame [OF assms(1,2), of k] by (intro simulate_frame_step) simp_all
  then show ?thesis using that chain_frame [OF assms(1,2), of k] by auto
qed

lemma chain_upd:
  assumes "chain cfg ls U S k"
    and "simulate_frame (S k) (of_nat k) (make_pair (cfg_local_peer cfg) (ls' ! k) x) (cfg_variant cfg) = Inr w"
    and "\<And>i. i < k \<Longrightarrow> ls' ! i = ls ! i"
  shows "chain cfg ls' (U(k := x)) (S(Suc k := w)) (Suc k)"
  using assms by (auto simp: chain_def less_Suc_eq)

lemma chain_lockstep:
  assumes "chain cfg ls U S k" "N \<le> k"
    and "\<And>i. i < N \<Longrightarrow> in_buttons (U i) = in_buttons (the (R i))"
  shows "lockstep_run (cfg_variant cfg) (cfg_initial_state cfg)
           (player_buttons cfg ls R PA) (player_buttons cfg ls R PB) N = Inr (S N)"
  using assms(2,3)
proof (induction N)
  case 0
  with assms(1) show ?case by (simp add: chain_def)
next
  case (Suc N)
  let ?p = "cfg_local_peer cfg"
  have eq: "simulate_frame (S N) (of_nat N) (make_pair ?p (ls ! N) (U N)) (cfg_variant cfg) = Inr (S (Suc N))"
    and pf: "pair_for (of_nat N) (make_pair ?p (ls ! N) (U N))"
    using assms(1) Suc.prems chain_pair [OF assms(1), of N] by (simp_all add: chain_def)
  have "same_buttons (make_pair ?p (ls ! N) (U N))
      (neutral_pair (of_nat N) (player_buttons cfg ls R PA N) (player_buttons cfg ls R PB N))"
    using same_buttons_pair [OF pf] Suc.prems(2) [of N] by (cases ?p) (auto simp: player_buttons_def)
  from simulate_frame_cong [OF this, of "S N" "of_nat N" "cfg_variant cfg"] eq Suc.prems Suc.IH
  show ?case by simp
qed

subsection \<open>The confirmed boundary\<close>

lemma has_frame_iff: "has_frame f r \<longleftrightarrow> (\<exists>x. get_frame f r = Inr x)"
  by (simp add: ring_contains_iff ok_iff)

lemma confirm_loop_stuck: "\<not> has_frame b remotes \<Longrightarrow> confirm_loop locals remotes dirty b = b"
  by (subst confirm_loop.simps) simp

lemma confirm_loop_end:
  "(case dirty of None \<Rightarrow> \<not> has_frame b locals | Some d \<Rightarrow> d = b)
    \<Longrightarrow> confirm_loop locals remotes dirty b = b"
  by (subst confirm_loop.simps) (auto split: option.splits)

lemma confirm_loop_nat:
  assumes "b \<le> n" "n < 2147483648"
    and "\<And>i. b \<le> i \<Longrightarrow> i < n \<Longrightarrow> has_frame (of_nat i) locals"
    and "case dirty of None \<Rightarrow> \<not> has_frame (of_nat n) locals | Some d \<Rightarrow> d = of_nat n"
  shows "\<exists>cf. b \<le> cf \<and> cf \<le> n \<and> confirm_loop locals remotes dirty (of_nat b) = of_nat cf
    \<and> (\<forall>i. b \<le> i \<longrightarrow> i < cf \<longrightarrow> has_frame (of_nat i) remotes)
    \<and> (cf = n \<or> \<not> has_frame (of_nat cf) remotes)"
  using assms(1,3)
proof (induction "n - b" arbitrary: b)
  case 0
  then have "b = n" by simp
  then show ?case using confirm_loop_end [OF assms(4)] by (intro exI [of _ n]) auto
next
  case (Suc m)
  show ?case
  proof (cases "has_frame (of_nat b) remotes")
    case False
    then show ?thesis using Suc.prems confirm_loop_stuck [OF False] by (intro exI [of _ b]) auto
  next
    case True
    have bn: "b < n" using Suc.hyps(2) by simp
    have go: "\<not> (dirty \<noteq> None \<and> (of_nat b = the dirty \<or> frame_before (the dirty) (of_nat b)))"
      using assms(2,4) bn by (auto simp: frame_before_of_nat of_nat_u32_inj split: option.splits)
    have "confirm_loop locals remotes dirty (of_nat b) = confirm_loop locals remotes dirty (of_nat (Suc b))"
      using True Suc.prems(2) [of b] bn
      by (subst confirm_loop.simps) (simp only: go if_True if_False simp_thms next_frame_of_nat order_refl)
    moreover have "m = n - Suc b" "Suc b \<le> n" using Suc.hyps(2) by simp_all
    then obtain cf where "Suc b \<le> cf" "cf \<le> n"
        "confirm_loop locals remotes dirty (of_nat (Suc b)) = of_nat cf"
        and i: "\<forall>i. Suc b \<le> i \<longrightarrow> i < cf \<longrightarrow> has_frame (of_nat i) remotes"
        and "cf = n \<or> \<not> has_frame (of_nat cf) remotes"
      using Suc.hyps(1) [of "Suc b"] Suc.prems(2) by auto
    moreover have "has_frame (of_nat i) remotes" if "b \<le> i" "i < cf" for i
      using that True i by (cases "i = b") auto
    ultimately show ?thesis by (intro exI [of _ cf]) auto
  qed
qed

lemma remote_okD:
  assumes "remote_ok cfg c R r"
  shows "get_frame f r = Inr x \<Longrightarrow> \<exists>i. f = of_nat i \<and> i + rollback_window cfg < max c (rollback_window cfg) + 256 \<and> R i = Some x"
    and "R i = Some x \<Longrightarrow> in_frame x = of_nat i"
    and "R i = Some x \<Longrightarrow> in_player x = other_peer (cfg_local_peer cfg)"
    and "R i = Some x \<Longrightarrow> i + rollback_window cfg < max c (rollback_window cfg) + 256"
    and "R i = Some x \<Longrightarrow> c \<le> i + rollback_window cfg \<Longrightarrow> get_frame (of_nat i) r = Inr x"
  using assms by (auto simp: remote_ok_def kHistoryCapacity_def)

lemma remote_ok_get:
  assumes "remote_ok cfg c R r" "get_frame (of_nat i) r = Inr x" "i < 2147483648" "c < 2147483392"
  shows "R i = Some x"
proof -
  from remote_okD(1) [OF assms(1,2)] obtain j where
    j: "(of_nat i :: u32) = of_nat j" "j + rollback_window cfg < max c (rollback_window cfg) + 256" "R j = Some x" by blast
  then have "i = j" using of_nat_u32_inj [of i j] assms(3,4) by simp
  with j show ?thesis by simp
qed

lemma core_locals:
  assumes "session_core cfg ls R U S k s"
  shows "length ls \<le> i + 256 \<Longrightarrow> i < length ls \<Longrightarrow> get_frame (of_nat i) (s_local_inputs s) = Inr (ls ! i)"
    and "length ls < 2147483392 \<Longrightarrow> \<not> has_frame (of_nat (length ls)) (s_local_inputs s)"
proof -
  show "length ls \<le> i + 256 \<Longrightarrow> i < length ls \<Longrightarrow> get_frame (of_nat i) (s_local_inputs s) = Inr (ls ! i)"
    using assms by (auto simp: session_core_def ring_window_def)
  show "length ls < 2147483392 \<Longrightarrow> \<not> has_frame (of_nat (length ls)) (s_local_inputs s)"
  proof
    assume c: "length ls < 2147483392" and "has_frame (of_nat (length ls)) (s_local_inputs s)"
    then obtain x where "get_frame (of_nat (length ls)) (s_local_inputs s) = Inr x"
      by (auto simp: has_frame_iff)
    with assms obtain i where "i < length ls" "(of_nat (length ls) :: u32) = of_nat i"
      by (auto simp: session_core_def)
    with c show False using of_nat_u32_inj [of "length ls" i] by simp
  qed
qed

lemma confirm_update:
  assumes v: "valid_config cfg" "within_horizon cfg ls"
    and core: "session_core cfg ls R U S (length ls) s"
    and clean: "session_clean cfg ls R U n (s_earliest_dirty s)"
    and cf: "cf \<le> n" "\<And>i. i < cf \<Longrightarrow> R i \<noteq> None" "m_confirmed_frame (s_metrics s) = of_nat cf"
    and live: "cf = n \<or> R cf = None \<or> (length ls \<le> cf + 256
      \<and> (\<forall>i. cf \<le> i \<longrightarrow> i < n \<longrightarrow> R i \<noteq> None \<longrightarrow> has_frame (of_nat i) (s_remote_inputs s)))"
  shows "session_inv cfg ls R (update_confirmation s)"
proof -
  let ?d = "s_earliest_dirty s" and ?l = "s_local_inputs s" and ?r = "s_remote_inputs s"
  have c: "length ls < 2147483392" using v(2) by (simp add: within_horizon_def)
  have r: "remote_ok cfg (length ls) R ?r" using core by (simp add: session_core_def)
  have n: "n \<le> length ls" using clean by (auto simp: session_clean_def split: option.splits)
  have stop: "case ?d of None \<Rightarrow> \<not> has_frame (of_nat n) ?l | Some d \<Rightarrow> d = of_nat n"
    using clean core_locals(2) [OF core c] by (auto simp: session_clean_def split: option.splits)
  have "\<exists>g. cf \<le> g \<and> g \<le> n \<and> confirm_loop ?l ?r ?d (of_nat cf) = of_nat g
      \<and> (\<forall>i. cf \<le> i \<longrightarrow> i < g \<longrightarrow> has_frame (of_nat i) ?r) \<and> (g = n \<or> R g = None)"
  proof (cases "cf = n \<or> R cf = None")
    case True
    have "confirm_loop ?l ?r ?d (of_nat cf) = of_nat cf"
    proof (cases "cf = n")
      case True
      with stop show ?thesis by (simp add: confirm_loop_end)
    next
      case False
      with True have "\<not> has_frame (of_nat cf) ?r"
        using remote_ok_get [OF r _ _ c, of cf] cf(1) n c by (auto simp: has_frame_iff)
      then show ?thesis by (rule confirm_loop_stuck)
    qed
    with True cf(1) show ?thesis by (intro exI [of _ cf]) auto
  next
    case False
    with live have w: "length ls \<le> cf + 256"
        "\<And>i. cf \<le> i \<Longrightarrow> i < n \<Longrightarrow> R i \<noteq> None \<Longrightarrow> has_frame (of_nat i) ?r" by blast+
    have "has_frame (of_nat i) ?l" if "cf \<le> i" "i < n" for i
      using core_locals(1) [OF core, of i] that w(1) n by (auto simp: has_frame_iff)
    then obtain g where g: "cf \<le> g" "g \<le> n" "confirm_loop ?l ?r ?d (of_nat cf) = of_nat g"
        "\<forall>i. cf \<le> i \<longrightarrow> i < g \<longrightarrow> has_frame (of_nat i) ?r"
        "g = n \<or> \<not> has_frame (of_nat g) ?r"
      using confirm_loop_nat [of cf n ?l ?d ?r] cf(1) n c stop by auto
    moreover have "R g = None" if "g \<noteq> n"
      using that g w(2) [of g] by (cases "R g") auto
    ultimately show ?thesis by blast
  qed
  then obtain g where g: "cf \<le> g" "g \<le> n" "confirm_loop ?l ?r ?d (of_nat cf) = of_nat g"
      "\<forall>i. cf \<le> i \<longrightarrow> i < g \<longrightarrow> has_frame (of_nat i) ?r" "g = n \<or> R g = None" by blast
  have "R i \<noteq> None" if "i < g" for i
  proof (cases "i < cf")
    case False
    with that g(4) have "has_frame (of_nat i) ?r" by simp
    then obtain x where "get_frame (of_nat i) ?r = Inr x" by (auto simp: has_frame_iff)
    then show ?thesis using remote_ok_get [OF r _ _ c, of i] that g(2) n c by simp
  qed (use cf(2) in simp)
  then have "confirmed_upto R n g" using g by (simp add: confirmed_upto_def)
  moreover have "session_core cfg ls R U S (length ls) (update_confirmation s)"
    using core by (simp add: session_core_def update_confirmation_def)
  ultimately show ?thesis
    unfolding session_inv_def using clean g(3) cf(3)
    by (intro exI [of _ U] exI [of _ S] exI [of _ n] exI [of _ g]) (simp add: update_confirmation_def)
qed

subsection \<open>Advancing\<close>

lemma last_known_ok:
  assumes "remote_ok cfg c R r" "last_known r f offs = Some x"
  shows "in_frame x = f \<and> in_player x = other_peer (cfg_local_peer cfg)"
  using assms(2)
proof (induction offs)
  case (Cons off offs)
  then show ?case using remote_okD(1,3) [OF assms(1)] by (fastforce split: sum.splits)
qed simp

lemma predicted_remote_ok:
  assumes "remote_ok cfg c R (s_remote_inputs s)" "s_config s = cfg"
  shows "in_frame (predicted_remote s f) = f
    \<and> in_player (predicted_remote s f) = other_peer (cfg_local_peer cfg)"
  using last_known_ok [OF assms(1)] assms(2)
  by (auto simp: predicted_remote_def remote_peer_def split: option.splits)

text \<open>The remote input a frame is simulated with.\<close>

definition remote_for :: "FrameNumber \<Rightarrow> RollbackSession \<Rightarrow> InputFrame" where
  "remote_for f s = (case get_frame f (s_remote_inputs s) of Inr actual \<Rightarrow> actual
                       | Inl _ \<Rightarrow> predicted_remote s f)"

lemma remote_for_ok:
  assumes "remote_ok cfg c R (s_remote_inputs s)" "s_config s = cfg" "i < 2147483648" "c < 2147483392"
  shows "in_frame (remote_for (of_nat i) s) = of_nat i
      \<and> in_player (remote_for (of_nat i) s) = other_peer (cfg_local_peer cfg)"
    and "R i = Some x \<Longrightarrow> c \<le> i + rollback_window cfg \<Longrightarrow> remote_for (of_nat i) s = x"
proof -
  show "in_frame (remote_for (of_nat i) s) = of_nat i
      \<and> in_player (remote_for (of_nat i) s) = other_peer (cfg_local_peer cfg)"
  proof (cases "get_frame (of_nat i) (s_remote_inputs s)")
    case (Inl e)
    then show ?thesis using predicted_remote_ok [OF assms(1,2)] by (simp add: remote_for_def)
  next
    case (Inr y)
    then show ?thesis using remote_ok_get [OF assms(1) Inr assms(3,4)] remote_okD(2,3) [OF assms(1)]
      by (simp add: remote_for_def)
  qed
  show "R i = Some x \<Longrightarrow> c \<le> i + rollback_window cfg \<Longrightarrow> remote_for (of_nat i) s = x"
    using remote_okD(5) [OF assms(1)] by (simp add: remote_for_def)
qed

lemma predicted_remote_cong:
  "s_remote_inputs s = s_remote_inputs t \<Longrightarrow> s_config s = s_config t
    \<Longrightarrow> predicted_remote s f = predicted_remote t f"
  by (simp only: predicted_remote_def remote_peer_def)

lemma remote_ok_mono:
  assumes "remote_ok cfg c R r" "c \<le> c'"
  shows "remote_ok cfg c' R r"
proof -
  have "i + w < max c w + K \<Longrightarrow> i + w < max c' w + K" for i w K :: nat
    using assms(2) by (auto simp: max_def split: if_splits)
  moreover have "c' \<le> i \<Longrightarrow> c \<le> i" for i using assms(2) by simp
  ultimately show ?thesis using assms(1) unfolding remote_ok_def by blast
qed

lemma core_hash_frame:
  "session_core cfg ls R U S k s \<Longrightarrow> get_frame f (s_hashes s) = Inr h \<Longrightarrow> \<exists>i\<le>length ls. f = of_nat i"
  by (auto simp: session_core_def)

lemma core_advance:
  assumes core: "session_core cfg ls R U S (length ls) s" and c: "length ls < 2147483392"
    and sim: "simulate_frame (S (length ls)) (of_nat (length ls)) (make_pair (cfg_local_peer cfg) local x)
      (cfg_variant cfg) = Inr w"
    and fr: "ws_frame w = of_nat (Suc (length ls))"
    and t: "t = s\<lparr>s_snapshots := put_frame (of_nat (length ls)) (s_state s) (s_snapshots s),
              s_local_inputs := put_frame (of_nat (length ls)) local (s_local_inputs s),
              s_used_remote_inputs := put_frame (of_nat (length ls)) x (s_used_remote_inputs s),
              s_metrics := m, s_state := w,
              s_hashes := put_frame (ws_frame w) (hash_canonical w) (s_hashes s)\<rparr>"
  shows "session_core cfg (ls @ [local]) R (U(length ls := x)) (S(Suc (length ls) := w))
           (Suc (length ls)) t"
proof -
  let ?c = "length ls"
  have "s_config t = cfg" "s_state t = (S(Suc ?c := w)) (Suc ?c)"
    using core t by (simp_all add: session_core_def)
  moreover have "local_ok cfg ?c local"
    using simulate_frame_pair [OF sim] by (simp add: pair_for_make_pair local_ok_def)
  then have "\<forall>i<Suc ?c. local_ok cfg i ((ls @ [local]) ! i)"
    using core by (simp add: session_core_def less_Suc_eq nth_append)
  moreover have "chain cfg (ls @ [local]) (U(?c := x)) (S(Suc ?c := w)) (Suc ?c)"
    by (rule chain_upd) (use core sim in \<open>simp_all add: session_core_def nth_append\<close>)
  moreover have "ring_window (Suc ?c - 256) (Suc ?c) (s_local_inputs t) ((\<lambda>i. ls ! i)(?c := local))"
    unfolding t
    by simp (rule ring_window_put, rule ring_window_mono [of "?c - 256" ?c],
        use core c in \<open>auto simp: session_core_def\<close>)
  then have "ring_window (Suc ?c - 256) (Suc ?c) (s_local_inputs t) (\<lambda>i. (ls @ [local]) ! i)"
    by (rule ring_window_cong) (simp add: nth_append)
  moreover have "\<exists>i<Suc ?c. f = of_nat i" if "get_frame f (s_local_inputs t) = Inr y" for f y
  proof -
    have "of_nat ?c = f \<or> get_frame f (s_local_inputs s) = Inr y"
      using get_put_known [of f "of_nat ?c" local "s_local_inputs s" y] that t by auto
    then show ?thesis using core by (auto simp: session_core_def less_Suc_eq)
  qed
  moreover have "ring_window (Suc ?c - 256) (Suc ?c) (s_used_remote_inputs t) (U(?c := x))"
    unfolding t
    by simp (rule ring_window_put, rule ring_window_mono [of "?c - 256" ?c],
        use core c in \<open>auto simp: session_core_def\<close>)
  moreover have "ring_window (Suc ?c - 256) (Suc ?c) (s_snapshots t) (S(?c := s_state s))"
    unfolding t
    by simp (rule ring_window_put, rule ring_window_mono [of "?c - 256" ?c],
        use core c in \<open>auto simp: session_core_def\<close>)
  then have "ring_window (Suc ?c - 256) (Suc ?c) (s_snapshots t) (S(Suc ?c := w))"
    by (rule ring_window_cong) (use core in \<open>auto simp: session_core_def\<close>)
  moreover have "ring_window (Suc ?c - 255) (Suc (Suc ?c)) (s_hashes t)
      ((\<lambda>i. hash_canonical (S i))(Suc ?c := hash_canonical w))"
    unfolding t fr
    by (simp del: of_nat_Suc) (rule ring_window_put, rule ring_window_mono [of "?c - 255" "Suc ?c"],
        use core c in \<open>auto simp: session_core_def\<close>)
  then have "ring_window (Suc ?c - 255) (Suc (Suc ?c)) (s_hashes t)
      (\<lambda>i. hash_canonical ((S(Suc ?c := w)) i))"
    by (rule ring_window_cong) auto
  moreover have "\<exists>i\<le>Suc ?c. f = of_nat i" if "get_frame f (s_hashes t) = Inr h" for f h
  proof -
    have "of_nat (Suc ?c) = f \<or> get_frame f (s_hashes s) = Inr h"
      using get_put_known [of f "of_nat (Suc ?c)" "hash_canonical w" "s_hashes s" h] that t fr by auto
    then show ?thesis using core_hash_frame [OF core, of f h] by (metis le_SucI order_refl)
  qed
  moreover have "remote_ok cfg (Suc ?c) R (s_remote_inputs t)"
    using core t by (auto simp: session_core_def intro: remote_ok_mono)
  ultimately show ?thesis by (simp add: session_core_def)
qed

lemma session_inv_frame:
  assumes "valid_config cfg" "session_inv cfg ls R s"
  shows "ws_frame (s_state s) = of_nat (length ls) \<and> s_config s = cfg"
  using assms chain_frame by (fastforce simp: session_inv_def session_core_def)

text \<open>An input that is not for this peer's next frame is refused and changes nothing.\<close>

lemma advance_clean_refused:
  assumes "valid_config cfg" "session_inv cfg ls R s" "\<not> local_ok cfg (length ls) local"
  shows "advance_clean local s = (failure EC_frame_mismatch (ucast (in_frame local)) 0 ''session_advance'', s)"
  using session_inv_frame [OF assms(1,2)] assms(3) by (auto simp: advance_clean_def local_ok_def)

lemma advance_clean_ok:
  assumes v: "valid_config cfg" "within_horizon cfg ls"
    and inv: "session_inv cfg ls R s" and d: "s_earliest_dirty s = None"
    and l: "local_ok cfg (length ls) local"
  shows "\<exists>r s'. advance_clean local s = (Inr r, s') \<and> s_earliest_dirty s' = None
    \<and> (within_horizon cfg (ls @ [local]) \<longrightarrow> session_inv cfg (ls @ [local]) R s')"
proof -
  from inv obtain U S n cf where core: "session_core cfg ls R U S (length ls) s"
    and clean: "session_clean cfg ls R U n (s_earliest_dirty s)"
    and cf: "confirmed_upto R n cf" "m_confirmed_frame (s_metrics s) = of_nat cf"
    by (auto simp: session_inv_def)
  let ?c = "length ls"
  have c: "?c < 2147483392" using v(2) by (simp add: within_horizon_def)
  have st: "s_config s = cfg" "s_state s = S ?c" "chain cfg ls U S ?c"
      "remote_ok cfg ?c R (s_remote_inputs s)"
    using core by (simp_all add: session_core_def)
  have fc: "ws_frame (S ?c) = of_nat ?c" using chain_frame [OF st(3) v(1)] by simp
  define sn where "sn = put_frame (of_nat ?c) (s_state s) (s_snapshots s)"
  define lo where "lo = put_frame (of_nat ?c) local (s_local_inputs s)"
  define t where "t = s\<lparr>s_snapshots := sn, s_local_inputs := lo\<rparr>"
  define x where "x = remote_for (of_nat ?c) t"
  have x: "in_frame x = of_nat ?c \<and> in_player x = other_peer (cfg_local_peer cfg)"
    "\<And>y. R ?c = Some y \<Longrightarrow> x = y"
    using remote_for_ok [of cfg ?c R t ?c] st c by (auto simp: t_def x_def)
  have "pair_for (of_nat ?c) (make_pair (cfg_local_peer cfg) local x)"
    using l x(1) by (simp add: pair_for_make_pair local_ok_def)
  then obtain w where w: "simulate_frame (S ?c) (of_nat ?c) (make_pair (cfg_local_peer cfg) local x)
      (cfg_variant cfg) = Inr w"
    using chain_step [OF st(3) v(1)] v(2) by (auto simp: within_horizon_def)
  have fr: "ws_frame w = of_nat (Suc ?c)"
    using simulate_frame_frame [OF w] by (simp add: next_frame_of_nat)
  define p where "p = (\<not> ok (get_frame (of_nat ?c) (s_remote_inputs s)))"
  define m where "m = (if p then (s_metrics s)\<lparr>m_predicted_input_count :=
      m_predicted_input_count (s_metrics s) + 1\<rparr> else s_metrics s)"
  define u where "u = s\<lparr>s_snapshots := put_frame (of_nat ?c) (s_state s) (s_snapshots s),
              s_local_inputs := put_frame (of_nat ?c) local (s_local_inputs s),
              s_used_remote_inputs := put_frame (of_nat ?c) x (s_used_remote_inputs s),
              s_metrics := m, s_state := w,
              s_hashes := put_frame (ws_frame w) (hash_canonical w) (s_hashes s)\<rparr>"
  have run: "advance_clean local s = (Inr \<lparr>ar_simulated_frame = of_nat ?c, ar_predicted_remote = p,
      ar_state_hash = hash_canonical w\<rparr>, update_confirmation u)"
  proof -
    have "ring_put kHistoryCapacity (of_nat ?c) (s_state s) (s_snapshots s) = (Inr (), sn)"
      "ring_put kHistoryCapacity (of_nat ?c) local (s_local_inputs s) = (Inr (), lo)"
      by (simp_all add: ring_put_def sn_def lo_def)
    moreover have "(case get_frame (of_nat ?c) (s_remote_inputs s) of
        Inl _ \<Rightarrow> predicted_remote (s\<lparr>s_snapshots := sn, s_local_inputs := lo\<rparr>) (of_nat ?c)
      | Inr a \<Rightarrow> a) = x"
      by (simp add: x_def remote_for_def t_def)
    ultimately show ?thesis
      using l st fc w
      by (simp add: advance_clean_def Let_def local_ok_def p_def m_def u_def sn_def [symmetric] lo_def [symmetric])
  qed
  have "session_inv cfg (ls @ [local]) R (update_confirmation u)" if h: "within_horizon cfg (ls @ [local])"
  proof (rule confirm_update [OF v(1) h])
    show "session_core cfg (ls @ [local]) R (U(?c := x)) (S(Suc ?c := w)) (length (ls @ [local])) u"
      using core_advance [OF core c w fr u_def] by simp
    show "session_clean cfg (ls @ [local]) R (U(?c := x)) (Suc ?c) (s_earliest_dirty u)"
      using clean d x(2) by (auto simp: session_clean_def u_def less_Suc_eq)
    have "n = ?c" using clean d by (simp add: session_clean_def)
    with cf show "cf \<le> Suc ?c" "\<And>i. i < cf \<Longrightarrow> R i \<noteq> None" "m_confirmed_frame (s_metrics u) = of_nat cf"
      by (auto simp: confirmed_upto_def u_def m_def)
    have "has_frame (of_nat ?c) (s_remote_inputs u)" if "R ?c \<noteq> None"
      using that remote_okD(5) [OF st(4), of ?c] by (auto simp: has_frame_iff u_def)
    with cf \<open>n = ?c\<close> show "cf = Suc ?c \<or> R cf = None \<or> (length (ls @ [local]) \<le> cf + 256
      \<and> (\<forall>i. cf \<le> i \<longrightarrow> i < Suc ?c \<longrightarrow> R i \<noteq> None \<longrightarrow> has_frame (of_nat i) (s_remote_inputs u)))"
      by (auto simp: confirmed_upto_def less_Suc_eq)
  qed
  then show ?thesis using run d by (simp add: u_def update_confirmation_def)
qed

subsection \<open>Ingesting\<close>

lemma remote_ok_put:
  assumes r: "remote_ok cfg c R r" and c: "c < 2147483392"
    and rw: "rollback_window cfg < 256"
    and x: "in_frame x = of_nat j" "in_player x = other_peer (cfg_local_peer cfg)"
    and j: "j + rollback_window cfg < max c (rollback_window cfg) + 256" "c \<le> j + rollback_window cfg"
  shows "remote_ok cfg c (R(j \<mapsto> x)) (put_frame (of_nat j) x r)"
  unfolding remote_ok_def
proof (intro conjI allI impI)
  fix f y assume g: "get_frame f (put_frame (of_nat j) x r) = Inr y"
  show "\<exists>i. f = of_nat i \<and> i + rollback_window cfg < max c (rollback_window cfg) + kHistoryCapacity \<and> (R(j \<mapsto> x)) i = Some y"
  proof (cases "f = of_nat j")
    case True
    with g have "y = x" by (auto dest: get_put_known)
    with True j show ?thesis by (auto simp: kHistoryCapacity_def)
  next
    case False
    with get_put_known [OF g] have "get_frame f r = Inr y" by auto
    from remote_okD(1) [OF r this] obtain i where
      "f = of_nat i" "i + rollback_window cfg < max c (rollback_window cfg) + 256" "R i = Some y" by blast
    with False show ?thesis by (intro exI [of _ i]) (auto simp: kHistoryCapacity_def)
  qed
next
  fix i y assume i: "(R(j \<mapsto> x)) i = Some y"
  show "in_frame y = of_nat i" "in_player y = other_peer (cfg_local_peer cfg)"
    and b: "i + rollback_window cfg < max c (rollback_window cfg) + kHistoryCapacity"
    using i remote_okD(2,3,4) [OF r] x j by (auto simp: kHistoryCapacity_def split: if_splits)
  assume late: "c \<le> i + rollback_window cfg"
  show "get_frame (of_nat i) (put_frame (of_nat j) x r) = Inr y"
  proof -
    have "get_frame (of_nat i) (put_frame (of_nat j) x r)
        = (if j = i then Inr x else get_frame (of_nat i) r)"
      using late b j c rw by (intro history.get_put_nat) (simp_all add: kHistoryCapacity_def)
    with i late show ?thesis using remote_okD(5) [OF r] by (auto split: if_splits)
  qed
qed

lemma ingest_cases:
  assumes v: "valid_config cfg" "within_horizon cfg ls" and inv: "session_inv cfg ls R s"
    and ing: "ingest_remote x s = (r, s')"
  shows "(\<exists>e. r = Inl e \<and> s' = s) \<or>
    (r = Inr () \<and> in_player x = other_peer (cfg_local_peer cfg)
      \<and> (unat (in_frame x) < 2147483648 \<longrightarrow> length ls \<le> unat (in_frame x) + rollback_window cfg))"
proof -
  let ?c = "length ls"
  from session_inv_frame [OF v(1) inv] have st: "ws_frame (s_state s) = of_nat ?c" "s_config s = cfg"
    by simp_all
  have c: "?c < 2147483392" using v(2) by (simp add: within_horizon_def)
  then have "unat (frame_distance (in_frame x) (of_nat ?c)) = ?c - unat (in_frame x)"
    if "unat (in_frame x) < ?c"
    using that by (simp add: frame_distance_def unat_sub_if' unat_of_nat_u32)
  with c have "?c \<le> unat (in_frame x) + rollback_window cfg"
    if "unat (in_frame x) < 2147483648"
      "\<not> (frame_before (in_frame x) (of_nat ?c)
          \<and> frame_distance (in_frame x) (of_nat ?c) > cfg_max_rollback_frames cfg)"
    using that frame_before_of_nat [of "unat (in_frame x)" ?c]
    by (cases "unat (in_frame x) < ?c")
      (auto simp: word_less_nat_alt unat_of_nat_u32 rollback_window_def)
  with ing st show ?thesis
    by (auto simp: ingest_remote_def remote_peer_def Let_def split: if_splits)
qed

lemma mark_dirty_nat:
  assumes "session_clean cfg ls R U n (s_earliest_dirty s)" "cf \<le> n" "j < length ls"
    and "m_confirmed_frame (s_metrics s) = of_nat cf" "length ls < 2147483392"
  shows "mark_dirty (of_nat j) s = s\<lparr>s_earliest_dirty := Some (of_nat (min n j)),
           s_metrics := (s_metrics s)\<lparr>m_confirmed_frame := of_nat (min cf j)\<rparr>\<rparr>"
proof -
  have n: "n \<le> length ls" using assms(1) by (auto simp: session_clean_def split: option.splits)
  have fb: "frame_before (of_nat j) (of_nat cf) \<longleftrightarrow> j < cf" "frame_before (of_nat j) (of_nat n) \<longleftrightarrow> j < n"
    using assms n by (simp_all add: frame_before_of_nat)
  show ?thesis
  proof (cases "s_earliest_dirty s")
    case None
    then have "n = length ls" using assms(1) by (simp add: session_clean_def)
    with None assms(3,4) fb show ?thesis by (simp add: mark_dirty_def min_def)
  next
    case (Some d)
    then have "d = of_nat n" using assms(1) by (simp add: session_clean_def)
    with Some assms(3,4) fb show ?thesis by (auto simp: mark_dirty_def min_def Let_def)
  qed
qed

lemma ingest_inv:
  assumes v: "valid_config cfg" "within_horizon cfg ls" and inv: "session_inv cfg ls R s"
    and ing: "ingest_remote x s = (Inr (), s')"
    and fut: "unat (in_frame x) + rollback_window cfg < max (length ls) (rollback_window cfg) + kHistoryCapacity"
  shows "session_inv cfg ls (R(unat (in_frame x) \<mapsto> x)) s'"
proof -
  define j where "j = unat (in_frame x)"
  let ?c = "length ls" and ?R = "R(j \<mapsto> x)"
  have fx: "in_frame x = of_nat j" by (simp add: j_def)
  from inv obtain U S n cf where core: "session_core cfg ls R U S ?c s"
    and clean: "session_clean cfg ls R U n (s_earliest_dirty s)"
    and cf: "confirmed_upto R n cf" "m_confirmed_frame (s_metrics s) = of_nat cf"
    by (auto simp: session_inv_def)
  have c: "?c < 2147483392" and rw: "rollback_window cfg < 256"
    using v by (simp_all add: within_horizon_def valid_config_def kHistoryCapacity_def)
  have n: "n \<le> ?c" using clean by (auto simp: session_clean_def split: option.splits)
  have j: "j + rollback_window cfg < max ?c (rollback_window cfg) + 256" using fut by (simp add: j_def kHistoryCapacity_def)
  with c have "j < 2147483648" by simp
  then have player: "in_player x = other_peer (cfg_local_peer cfg)" and jl: "?c \<le> j + rollback_window cfg"
    using ingest_cases [OF v inv ing] by (simp_all add: j_def)
  have st: "ws_frame (s_state s) = of_nat ?c" "s_config s = cfg" "remote_ok cfg ?c R (s_remote_inputs s)"
    using session_inv_frame [OF v(1) inv] core by (simp_all add: session_core_def)
  have late: "frame_before (of_nat j) (of_nat ?c) \<longleftrightarrow> j < ?c"
    using j c \<open>j < 2147483648\<close> by (simp add: frame_before_of_nat)
  let ?ring = "put_frame (of_nat j) x (s_remote_inputs s)"
  have rok: "remote_ok cfg ?c ?R ?ring"
    using remote_ok_put [OF st(3) c rw fx player j jl] .
  have known: "has_frame (of_nat i) ?ring" if "?R i \<noteq> None" "j \<le> i" for i
    using that remote_okD(5) [OF rok, of i] jl by (auto simp: has_frame_iff)
  define s2 where "s2 = (let s1 = s\<lparr>s_remote_inputs := ?ring\<rparr>; m = s_metrics s1 in
      if j < ?c \<and> \<not> ok (get_frame (of_nat j) (s_remote_inputs s))
      then s1\<lparr>s_metrics := m\<lparr>m_late_input_count := m_late_input_count m + 1\<rparr>\<rparr> else s1)"
  have s2: "session_core cfg ls ?R U S ?c s2" "s_earliest_dirty s2 = s_earliest_dirty s"
    "m_confirmed_frame (s_metrics s2) = of_nat cf" "s_used_remote_inputs s2 = s_used_remote_inputs s"
    "s_remote_inputs s2 = ?ring"
    using core rok cf(2) by (simp_all add: s2_def session_core_def Let_def)
  have used: "get_frame (of_nat j) (s_used_remote_inputs s) = Inr (U j)" if "j < ?c"
    using that core jl rw by (auto simp: session_core_def ring_window_def)
  have run: "s' = update_confirmation (if j < ?c \<and> in_buttons (U j) \<noteq> in_buttons x
      then mark_dirty (of_nat j) s2 else s2)"
    using ing st late used s2(4)
    by (auto simp: ingest_remote_def Let_def fx s2_def same_predicted_value_def split: if_splits)
  show ?thesis
    unfolding run j_def [symmetric]
  proof (cases "j < ?c \<and> in_buttons (U j) \<noteq> in_buttons x")
    case True
    let ?s3 = "s2\<lparr>s_earliest_dirty := Some (of_nat (min n j)),
           s_metrics := (s_metrics s2)\<lparr>m_confirmed_frame := of_nat (min cf j)\<rparr>\<rparr>"
    have "mark_dirty (of_nat j) s2 = ?s3"
      using mark_dirty_nat [of cfg ls R U n s2 cf j] clean cf True s2 c by (simp add: confirmed_upto_def)
    moreover have "session_inv cfg ls ?R (update_confirmation ?s3)"
    proof (rule confirm_update [OF v])
      show "session_core cfg ls ?R U S ?c ?s3" using s2(1) by (simp add: session_core_def)
      show "session_clean cfg ls ?R U (min n j) (s_earliest_dirty ?s3)"
        using clean True jl n by (auto simp: session_clean_def min_def split: option.splits)
      show "min cf j \<le> min n j" "\<And>i. i < min cf j \<Longrightarrow> ?R i \<noteq> None"
        using cf(1) by (auto simp: confirmed_upto_def)
      show "m_confirmed_frame (s_metrics ?s3) = of_nat (min cf j)" by simp
      show "min cf j = min n j \<or> ?R (min cf j) = None \<or> (?c \<le> min cf j + 256 \<and>
        (\<forall>i. min cf j \<le> i \<longrightarrow> i < min n j \<longrightarrow> ?R i \<noteq> None \<longrightarrow> has_frame (of_nat i) (s_remote_inputs ?s3)))"
        using cf(1) by (auto simp: confirmed_upto_def min_def)
    qed
    ultimately show "session_inv cfg ls ?R (update_confirmation
      (if j < ?c \<and> in_buttons (U j) \<noteq> in_buttons x then mark_dirty (of_nat j) s2 else s2))"
      using True by simp
  next
    case False
    have "session_inv cfg ls ?R (update_confirmation s2)"
    proof (rule confirm_update [OF v s2(1)])
      show "session_clean cfg ls ?R U n (s_earliest_dirty s2)"
        using clean False n s2(2) by (auto simp: session_clean_def split: option.splits)
      show "cf \<le> n" "\<And>i. i < cf \<Longrightarrow> ?R i \<noteq> None" using cf(1) by (auto simp: confirmed_upto_def)
      show "m_confirmed_frame (s_metrics s2) = of_nat cf" by (rule s2(3))
      show "cf = n \<or> ?R cf = None \<or> (?c \<le> cf + 256 \<and>
        (\<forall>i. cf \<le> i \<longrightarrow> i < n \<longrightarrow> ?R i \<noteq> None \<longrightarrow> has_frame (of_nat i) (s_remote_inputs s2)))"
      proof (cases "j = cf")
        case True
        then show ?thesis using known jl rw s2(5) by auto
      qed (use cf(1) in \<open>auto simp: confirmed_upto_def\<close>)
    qed
    then show "session_inv cfg ls ?R (update_confirmation
      (if j < ?c \<and> in_buttons (U j) \<noteq> in_buttons x then mark_dirty (of_nat j) s2 else s2))"
      using False by auto
  qed
qed

subsection \<open>Rolling back\<close>

lemma core_rewind:
  assumes "session_core cfg ls R U S k s" "d \<le> k"
  shows "session_core cfg ls R U S d (s\<lparr>s_state := S d\<rparr>)"
  using assms by (auto simp: session_core_def chain_def intro: ring_window_mono)

text \<open>One iteration of the loop.\<close>

lemma core_resimulate:
  assumes core: "session_core cfg ls R U S k s" and k: "k < length ls" and c: "length ls < 2147483392"
    and sim: "simulate_frame (S k) (of_nat k) (make_pair (cfg_local_peer cfg) (ls ! k) x)
      (cfg_variant cfg) = Inr w"
    and fr: "ws_frame w = of_nat (Suc k)"
    and t: "t = s\<lparr>s_snapshots := put_frame (of_nat k) (s_state s) (s_snapshots s),
              s_used_remote_inputs := put_frame (of_nat k) x (s_used_remote_inputs s),
              s_state := w,
              s_hashes := put_frame (ws_frame w) (hash_canonical w) (s_hashes s)\<rparr>"
  shows "session_core cfg ls R (U(k := x)) (S(Suc k := w)) (Suc k) t"
proof -
  let ?c = "length ls"
  have "s_config t = cfg" "s_state t = (S(Suc k := w)) (Suc k)" "\<forall>i<?c. local_ok cfg i (ls ! i)"
    "ring_window (?c - 256) ?c (s_local_inputs t) (\<lambda>i. ls ! i)"
    "\<forall>f x. get_frame f (s_local_inputs t) = Inr x \<longrightarrow> (\<exists>i<?c. f = of_nat i)"
    "remote_ok cfg ?c R (s_remote_inputs t)"
    using core t by (simp_all add: session_core_def)
  moreover have "chain cfg ls (U(k := x)) (S(Suc k := w)) (Suc k)"
    by (rule chain_upd) (use core sim in \<open>simp_all add: session_core_def\<close>)
  moreover have "ring_window (?c - 256) (Suc k) (s_used_remote_inputs t) (U(k := x))"
    unfolding t by simp (rule ring_window_put, use core c k in \<open>auto simp: session_core_def\<close>)
  moreover have "ring_window (?c - 256) (Suc k) (s_snapshots t) (S(k := s_state s))"
    unfolding t by simp (rule ring_window_put, use core c k in \<open>auto simp: session_core_def\<close>)
  then have "ring_window (?c - 256) (Suc k) (s_snapshots t) (S(Suc k := w))"
    by (rule ring_window_cong) (use core in \<open>auto simp: session_core_def\<close>)
  moreover have "ring_window (?c - 255) (Suc (Suc k)) (s_hashes t)
      ((\<lambda>i. hash_canonical (S i))(Suc k := hash_canonical w))"
    unfolding t fr
    by (simp del: of_nat_Suc) (rule ring_window_put, use core c k in \<open>auto simp: session_core_def\<close>)
  then have "ring_window (?c - 255) (Suc (Suc k)) (s_hashes t)
      (\<lambda>i. hash_canonical ((S(Suc k := w)) i))"
    by (rule ring_window_cong) auto
  moreover have "\<exists>i\<le>?c. f = of_nat i" if "get_frame f (s_hashes t) = Inr h" for f h
  proof -
    have "of_nat (Suc k) = f \<or> get_frame f (s_hashes s) = Inr h"
      using get_put_known [of f "of_nat (Suc k)" "hash_canonical w" "s_hashes s" h] that t fr by auto
    then show ?thesis using core_hash_frame [OF core, of f h] k by (metis Suc_le_eq)
  qed
  ultimately show ?thesis by (simp add: session_core_def)
qed

lemma resimulate_ok:
  assumes v: "valid_config cfg" "within_horizon cfg ls"
  shows "session_core cfg ls R U S k s \<Longrightarrow> k + m = length ls \<Longrightarrow> length ls \<le> k + rollback_window cfg
    \<Longrightarrow> (\<And>i x. i < k \<Longrightarrow> R i = Some x \<Longrightarrow> in_buttons (U i) = in_buttons x)
    \<Longrightarrow> \<exists>U S s'. resimulate m (of_nat k) s = (Inr (), s') \<and> session_core cfg ls R U S (length ls) s'
      \<and> (\<forall>i<length ls. \<forall>x. R i = Some x \<longrightarrow> in_buttons (U i) = in_buttons x)
      \<and> s_metrics s' = s_metrics s"
proof (induction m arbitrary: k U S s)
  case 0
  then show ?case by (intro exI [of _ U] exI [of _ S] exI [of _ s]) auto
next
  case (Suc m)
  let ?c = "length ls"
  have c: "?c < 2147483392" and rw: "rollback_window cfg < 256"
    and ids: "unat (ws_next_projectile_id (cfg_initial_state cfg)) + 2 * ?c \<le> 4294967293"
    using v by (simp_all add: within_horizon_def valid_config_def kHistoryCapacity_def)
  have k: "k < ?c" using Suc.prems(2) by simp
  have st: "s_config s = cfg" "s_state s = S k" "chain cfg ls U S k"
      "remote_ok cfg ?c R (s_remote_inputs s)"
    using Suc.prems(1) by (simp_all add: session_core_def)
  have loc: "get_frame (of_nat k) (s_local_inputs s) = Inr (ls ! k)"
    using core_locals(1) [OF Suc.prems(1)] k Suc.prems(3) rw by simp
  have lp: "local_ok cfg k (ls ! k)" using Suc.prems(1) k by (simp add: session_core_def)
  define sn where "sn = put_frame (of_nat k) (S k) (s_snapshots s)"
  define t where "t = s\<lparr>s_snapshots := sn\<rparr>"
  define x where "x = remote_for (of_nat k) t"
  have x: "in_frame x = of_nat k \<and> in_player x = other_peer (cfg_local_peer cfg)"
    "\<And>y. R k = Some y \<Longrightarrow> x = y"
    using remote_for_ok [of cfg ?c R t k] st c k Suc.prems(3) by (auto simp: t_def x_def)
  have "pair_for (of_nat k) (make_pair (cfg_local_peer cfg) (ls ! k) x)"
    using lp x(1) by (simp add: pair_for_make_pair local_ok_def)
  then obtain w where w: "simulate_frame (S k) (of_nat k) (make_pair (cfg_local_peer cfg) (ls ! k) x)
      (cfg_variant cfg) = Inr w"
    using chain_step [OF st(3) v(1)] ids k by auto
  have fr: "ws_frame w = of_nat (Suc k)"
    using simulate_frame_frame [OF w] by (simp add: next_frame_of_nat)
  define u where "u = s\<lparr>s_snapshots := put_frame (of_nat k) (s_state s) (s_snapshots s),
              s_used_remote_inputs := put_frame (of_nat k) x (s_used_remote_inputs s),
              s_state := w,
              s_hashes := put_frame (ws_frame w) (hash_canonical w) (s_hashes s)\<rparr>"
  have xs: "(case get_frame (of_nat k) (s_remote_inputs s) of
        Inl _ \<Rightarrow> predicted_remote (s\<lparr>s_snapshots := sn\<rparr>) (of_nat k) | Inr a \<Rightarrow> a) = x"
    by (simp add: x_def remote_for_def t_def)
  have "resimulate (Suc m) (of_nat k) s = resimulate m (of_nat (Suc k)) u"
    using loc st w xs
    by (simp add: Let_def u_def sn_def [symmetric] add.commute)
  moreover have cu: "session_core cfg ls R (U(k := x)) (S(Suc k := w)) (Suc k) u"
    by (rule core_resimulate [OF Suc.prems(1) k c w fr u_def])
  have ag: "in_buttons ((U(k := x)) i) = in_buttons y" if "i < Suc k" "R i = Some y" for i y
    using that Suc.prems(4) x(2) by (auto simp: less_Suc_eq)
  have p: "Suc k + m = ?c" "?c \<le> Suc k + rollback_window cfg" using Suc.prems(2,3) by simp_all
  obtain U' S' s' where
    "resimulate m (of_nat (Suc k)) u = (Inr (), s')" "session_core cfg ls R U' S' ?c s'"
    "\<forall>i<?c. \<forall>x. R i = Some x \<longrightarrow> in_buttons (U' i) = in_buttons x" "s_metrics s' = s_metrics u"
    using Suc.IH [OF cu p ag] by blast
  moreover have "s_metrics u = s_metrics s" by (simp add: u_def)
  ultimately show ?case by (intro exI [of _ U'] exI [of _ S'] exI [of _ s']) (simp only: simp_thms)
qed

lemma core_ext:
  "session_core cfg ls R U S k s \<Longrightarrow> session_core cfg ls R U S k (s\<lparr>s_earliest_dirty := d, s_metrics := m\<rparr>)"
  by (simp add: session_core_def)

lemma flush_ok:
  assumes v: "valid_config cfg" "within_horizon cfg ls" and inv: "session_inv cfg ls R s"
  shows "\<exists>r s'. flush_corrections s = (Inr r, s') \<and> session_inv cfg ls R s' \<and> s_earliest_dirty s' = None"
proof -
  let ?c = "length ls"
  from inv obtain U S n cf where core: "session_core cfg ls R U S ?c s"
    and clean: "session_clean cfg ls R U n (s_earliest_dirty s)"
    and cf: "confirmed_upto R n cf" "m_confirmed_frame (s_metrics s) = of_nat cf"
    by (auto simp: session_inv_def)
  have c: "?c < 2147483392" and rw: "rollback_window cfg < 256"
    using v by (simp_all add: within_horizon_def valid_config_def kHistoryCapacity_def)
  show ?thesis
  proof (cases "s_earliest_dirty s")
    case None
    have "session_inv cfg ls R (update_confirmation s)"
      by (rule confirm_update [OF v core clean]) (use cf in \<open>auto simp: confirmed_upto_def\<close>)
    with None show ?thesis by (simp add: flush_corrections_def update_confirmation_def)
  next
    case (Some d)
    then have d: "d = of_nat n" "n < ?c" "?c \<le> n + rollback_window cfg"
      and ag: "\<And>i x. i < n \<Longrightarrow> R i = Some x \<Longrightarrow> in_buttons (U i) = in_buttons x"
      using clean by (auto simp: session_clean_def)
    have fr: "ws_frame (s_state s) = of_nat ?c" "s_config s = cfg"
      using session_inv_frame [OF v(1) inv] by simp_all
    define dp :: u32 where "dp = of_nat (?c - n)"
    have depth: "frame_distance d (of_nat ?c) = dp"
      using d by (simp add: frame_distance_def dp_def)
    have ud: "unat dp = ?c - n" using c by (simp add: dp_def unat_of_nat_u32)
    have nd: "\<not> dp > cfg_max_rollback_frames cfg"
      using ud d by (simp add: word_less_nat_alt rollback_window_def)
    have snap: "get_frame d (s_snapshots s) = Inr (S n)"
      using core d rw by (auto simp: session_core_def ring_window_def)
    obtain U' S' s1 where run: "resimulate (unat dp) d (s\<lparr>s_state := S n\<rparr>) = (Inr (), s1)"
      and core1: "session_core cfg ls R U' S' ?c s1"
      and ag1: "\<forall>i<?c. \<forall>x. R i = Some x \<longrightarrow> in_buttons (U' i) = in_buttons x"
      and m1: "s_metrics s1 = s_metrics s"
      using resimulate_ok [OF v core_rewind [OF core], of n "?c - n"] d ag ud by auto
    define m where "m = (s_metrics s1)\<lparr>m_rollback_count := m_rollback_count (s_metrics s1) + 1,
      m_total_resimulated_frames := m_total_resimulated_frames (s_metrics s1) + ucast dp,
      m_maximum_rollback_depth := max (m_maximum_rollback_depth (s_metrics s1)) dp\<rparr>"
    define s2 where "s2 = s1\<lparr>s_earliest_dirty := None, s_metrics := m\<rparr>"
    have "flush_corrections s = (Inr \<lparr>cr_performed = True, cr_rollback_from = d,
        cr_resimulated_frames = dp\<rparr>, update_confirmation s2)"
      using Some nd snap run by (simp add: flush_corrections_def Let_def fr depth s2_def m_def)
    moreover have "session_inv cfg ls R (update_confirmation s2)"
    proof (rule confirm_update [OF v])
      show "session_core cfg ls R U' S' ?c s2" using core_ext [OF core1] by (simp add: s2_def)
      then have r: "remote_ok cfg ?c R (s_remote_inputs s2)" by (simp add: session_core_def)
      show "session_clean cfg ls R U' ?c (s_earliest_dirty s2)"
        using ag1 by (simp add: session_clean_def s2_def)
      show "cf \<le> ?c" "\<And>i. i < cf \<Longrightarrow> R i \<noteq> None" "m_confirmed_frame (s_metrics s2) = of_nat cf"
        using cf d m1 by (auto simp: confirmed_upto_def s2_def m_def)
      have "has_frame (of_nat i) (s_remote_inputs s2)" if "n \<le> i" "R i \<noteq> None" for i
        using that remote_okD(5) [OF r, of i] d by (auto simp: has_frame_iff)
      then show "cf = ?c \<or> R cf = None \<or> (?c \<le> cf + 256 \<and>
        (\<forall>i. cf \<le> i \<longrightarrow> i < ?c \<longrightarrow> R i \<noteq> None \<longrightarrow> has_frame (of_nat i) (s_remote_inputs s2)))"
        using cf(1) d rw by (auto simp: confirmed_upto_def)
    qed
    ultimately show ?thesis by (simp add: s2_def update_confirmation_def)
  qed
qed

subsection \<open>Every reachable session\<close>

lemma start_inv:
  assumes "valid_config cfg"
  shows "session_inv cfg [] (\<lambda>_. None) (make_session cfg)"
proof -
  let ?w = "cfg_initial_state cfg" and ?s = "make_session cfg"
  have h: "get_frame f (put_frame 0 (hash_canonical ?w) ring_empty) = Inr y
      \<longleftrightarrow> f = 0 \<and> y = hash_canonical ?w" for f y
    by (auto simp: ring_put_def ring_get_def ring_empty_def split: if_splits)
  have "session_core cfg [] (\<lambda>_. None) (\<lambda>_. undefined) (\<lambda>_. ?w) 0 ?s"
    using assms by (auto simp: session_core_def make_session_def chain_def ring_window_def remote_ok_def
        valid_config_def h)
  then show ?thesis
    unfolding session_inv_def
    by (intro exI [of _ "\<lambda>_. undefined"] exI [of _ "\<lambda>_. ?w"] exI [of _ 0])
      (use assms in \<open>simp add: session_clean_def confirmed_upto_def make_session_def valid_config_def\<close>)
qed

lemma advance_ok:
  assumes "valid_config cfg" "within_horizon cfg ls" "session_inv cfg ls R s" "local_ok cfg (length ls) local"
  shows "\<exists>r s'. advance local s = (Inr r, s') \<and> s_earliest_dirty s' = None
    \<and> (within_horizon cfg (ls @ [local]) \<longrightarrow> session_inv cfg (ls @ [local]) R s')"
proof (cases "s_earliest_dirty s = None")
  case True
  then show ?thesis using advance_clean_ok [OF assms(1-3) True assms(4)] by (simp add: advance_def)
next
  case False
  obtain r s1 where s1: "flush_corrections s = (Inr r, s1)" "session_inv cfg ls R s1"
    "s_earliest_dirty s1 = None"
    using flush_ok [OF assms(1-3)] by blast
  from advance_clean_ok [OF assms(1,2) s1(2,3) assms(4)] False s1(1) show ?thesis
    by (simp add: advance_def)
qed

lemma advance_refused:
  assumes "valid_config cfg" "within_horizon cfg ls" "session_inv cfg ls R s"
    and "\<not> local_ok cfg (length ls) local"
  shows "\<exists>s'. advance local s
      = (failure EC_frame_mismatch (ucast (in_frame local)) 0 ''session_advance'', s')
    \<and> session_inv cfg ls R s'"
proof (cases "s_earliest_dirty s = None")
  case True
  then show ?thesis using advance_clean_refused [OF assms(1,3,4)] assms(3) by (simp add: advance_def)
next
  case False
  obtain r s1 where s1: "flush_corrections s = (Inr r, s1)" "session_inv cfg ls R s1"
    using flush_ok [OF assms(1-3)] by blast
  from advance_clean_refused [OF assms(1) s1(2) assms(4)] False s1 show ?thesis
    by (simp add: advance_def)
qed

lemma within_horizon_butlast: "within_horizon cfg (ls @ xs) \<Longrightarrow> within_horizon cfg ls"
  by (auto simp: within_horizon_def)

lemma reach_inv:
  assumes "session_reach cfg ls R s" "valid_config cfg" "within_horizon cfg ls"
  shows "session_inv cfg ls R s"
  using assms(1,3)
proof (induction rule: session_reach.induct)
  case start
  from assms(2) show ?case by (rule start_inv)
next
  case (advanced ls R s local r s')
  then have h: "within_horizon cfg ls" by (blast intro: within_horizon_butlast)
  with advanced.IH have inv: "session_inv cfg ls R s" by blast
  have "local_ok cfg (length ls) local"
    using advance_refused [OF assms(2) h inv, of local] advanced.hyps(2) by fastforce
  from advance_ok [OF assms(2) h inv this] advanced show ?case by auto
next
  case (refused ls R s local e s')
  then have inv: "session_inv cfg ls R s" by blast
  have "\<not> local_ok cfg (length ls) local"
    using advance_ok [OF assms(2) refused.prems inv, of local] refused.hyps(2) by fastforce
  from advance_refused [OF assms(2) refused.prems inv this] refused show ?case by auto
next
  case (ingested ls R s x s')
  then show ?case using ingest_inv [OF assms(2)] by blast
next
  case (rejected ls R s x e s')
  then show ?case using ingest_cases [OF assms(2) rejected.prems, of R s x] by fastforce
next
  case (flushed ls R s r s')
  then have inv: "session_inv cfg ls R s" by blast
  from flush_ok [OF assms(2) flushed.prems inv] flushed show ?case by auto
qed

section \<open>What a session promises\<close>

lemma get_same_slot:
  assumes "get_frame f r = Inr x" "get_frame g r = Inr y"
    and "frame_ring_index f kHistoryCapacity = frame_ring_index g kHistoryCapacity"
  shows "f = g"
  using assms by (auto simp: ring_get_def split: option.splits if_splits)

text \<open>A full ring holds nothing older than its window.\<close>

lemma ring_window_full:
  assumes "ring_window (c - 255) (Suc c) r S" "get_frame (of_nat i) r = Inr x" "i \<le> c" "c < 2147483392"
  shows "c \<le> i + 255"
proof (rule ccontr)
  assume old: "\<not> c \<le> i + 255"
  define j where "j = c - (c - i) mod 256"
  have m: "(c - i) mod 256 < 256" "(c - i) mod 256 \<le> c - i"
    using mod_less_divisor [of 256 "c - i"] mod_less_eq_dividend [of "c - i" 256] by simp_all
  have "c - 255 \<le> j" "j < Suc c" using m by (auto simp: j_def)
  then have "get_frame (of_nat j) r = Inr (S j)" using assms(1) by (simp add: ring_window_def)
  moreover have "j = i + 256 * ((c - i) div 256)"
    using assms(3) m(2) mult_div_mod_eq [of 256 "c - i"] unfolding j_def by linarith
  then have "j mod 256 = i mod 256" by simp
  then have "frame_ring_index (of_nat i) kHistoryCapacity = frame_ring_index (of_nat j) kHistoryCapacity"
    using assms \<open>j < Suc c\<close> by (simp add: frame_ring_index_def kHistoryCapacity_def unat_of_nat_u32)
  ultimately have "(of_nat i :: u32) = of_nat j" by (intro get_same_slot [OF assms(2)])
  then have "i = j" using of_nat_u32_inj [of i j] assms \<open>j < Suc c\<close> by simp
  with \<open>c - 255 \<le> j\<close> old show False by simp
qed

lemma confirmed_view:
  assumes v: "session_reach cfg ls R s" "valid_config cfg" "within_horizon cfg ls"
  shows "\<exists>S cf. m_confirmed_frame (s_metrics s) = of_nat cf \<and> cf \<le> length ls \<and> (\<forall>i<cf. R i \<noteq> None)
    \<and> (cf = length ls \<or> R cf = None \<or> s_earliest_dirty s = Some (of_nat cf))
    \<and> (\<forall>N\<le>cf. lockstep_run (cfg_variant cfg) (cfg_initial_state cfg)
          (player_buttons cfg ls R PA) (player_buttons cfg ls R PB) N = Inr (S N))
    \<and> (\<forall>N\<le>cf. length ls \<le> N + 255 \<longrightarrow>
          hash_at s (of_nat N) = Inr (hash_canonical (S N)) \<and> state_at s (of_nat N) = Inr (S N))
    \<and> (\<forall>f h. hash_at s f = Inr h \<longrightarrow> (\<exists>N\<le>cf. f = of_nat N \<and> h = hash_canonical (S N)))"
proof -
  let ?c = "length ls"
  have c: "?c < 2147483392" using v(3) by (simp add: within_horizon_def)
  from reach_inv [OF v] obtain U S n cf where core: "session_core cfg ls R U S ?c s"
    and clean: "session_clean cfg ls R U n (s_earliest_dirty s)"
    and cf: "confirmed_upto R n cf" "m_confirmed_frame (s_metrics s) = of_nat cf"
    by (auto simp: session_inv_def)
  have n: "n \<le> ?c" using clean by (auto simp: session_clean_def split: option.splits)
  have chn: "chain cfg ls U S ?c" and st: "s_state s = S ?c"
    and hw: "ring_window (?c - 255) (Suc ?c) (s_hashes s) (\<lambda>i. hash_canonical (S i))"
    and sw: "ring_window (?c - 256) ?c (s_snapshots s) S"
    using core by (simp_all add: session_core_def)
  have le: "cf \<le> ?c" "\<forall>i<cf. R i \<noteq> None" using cf(1) n by (auto simp: confirmed_upto_def)
  have fr: "ws_frame (s_state s) = of_nat ?c" using chain_frame [OF chn v(2)] st by simp
  have fb: "frame_before (of_nat cf) (of_nat N) \<longleftrightarrow> cf < N" if "N \<le> ?c" for N
    using that le c by (simp add: frame_before_of_nat)
  have max: "cf = ?c \<or> R cf = None \<or> s_earliest_dirty s = Some (of_nat cf)"
    using cf(1) clean by (auto simp: confirmed_upto_def session_clean_def split: option.splits)
  have lock: "lockstep_run (cfg_variant cfg) (cfg_initial_state cfg)
          (player_buttons cfg ls R PA) (player_buttons cfg ls R PB) N = Inr (S N)" if "N \<le> cf" for N
  proof (rule chain_lockstep [OF chn])
    show "N \<le> ?c" using that le by simp
    show "in_buttons (U i) = in_buttons (the (R i))" if "i < N" for i
      using that \<open>N \<le> cf\<close> cf(1) clean le(2) by (auto simp: confirmed_upto_def session_clean_def)
  qed
  have query: "hash_at s (of_nat N) = Inr (hash_canonical (S N)) \<and> state_at s (of_nat N) = Inr (S N)"
    if N: "N \<le> cf" "?c \<le> N + 255" for N
  proof
    show "hash_at s (of_nat N) = Inr (hash_canonical (S N))"
      using N le hw fb [of N] by (simp add: hash_at_def cf(2) ring_window_def)
    have "get_frame (of_nat N) (s_snapshots s) = Inr (S N)" if "N \<noteq> ?c"
      using that N le sw by (simp add: ring_window_def)
    moreover have "of_nat N = ws_frame (s_state s) \<longleftrightarrow> N = ?c"
      using fr c N le of_nat_u32_inj [of N ?c] by simp
    ultimately show "state_at s (of_nat N) = Inr (S N)"
      using N le fb [of N] st by (simp add: state_at_def cf(2))
  qed
  have "\<exists>N\<le>cf. f = of_nat N \<and> h = hash_canonical (S N)" if "hash_at s f = Inr h" for f h
  proof -
    from that have g: "get_frame f (s_hashes s) = Inr h" "\<not> frame_before (of_nat cf) f"
      by (auto simp: hash_at_def cf(2) split: if_splits)
    from core_hash_frame [OF core g(1)] obtain N where N: "N \<le> ?c" "f = of_nat N" by blast
    with g fb have "N \<le> cf" by (simp add: not_less)
    moreover have "?c \<le> N + 255" using ring_window_full [OF hw] g(1) N c by blast
    ultimately show ?thesis using query [of N] that N(2) by auto
  qed
  with cf(2) le max lock query show ?thesis by blast
qed

lemma confirmed_queries:
  assumes "session_reach cfg ls R s" "valid_config cfg" "within_horizon cfg ls"
    and "N \<le> unat (m_confirmed_frame (s_metrics s))" "length ls \<le> N + 255"
  shows "\<exists>w. lockstep_run (cfg_variant cfg) (cfg_initial_state cfg)
          (player_buttons cfg ls R PA) (player_buttons cfg ls R PB) N = Inr w
       \<and> hash_at s (of_nat N) = Inr (hash_canonical w) \<and> state_at s (of_nat N) = Inr w"
proof -
  from confirmed_view [OF assms(1-3)] obtain S cf where
    "m_confirmed_frame (s_metrics s) = of_nat cf" "cf \<le> length ls" and
    "\<forall>N\<le>cf. lockstep_run (cfg_variant cfg) (cfg_initial_state cfg)
          (player_buttons cfg ls R PA) (player_buttons cfg ls R PB) N = Inr (S N)"
    "\<forall>N\<le>cf. length ls \<le> N + 255 \<longrightarrow>
          hash_at s (of_nat N) = Inr (hash_canonical (S N)) \<and> state_at s (of_nat N) = Inr (S N)"
    by blast
  moreover from this assms(3) have "unat (m_confirmed_frame (s_metrics s)) = cf"
    by (simp add: within_horizon_def unat_of_nat_u32)
  ultimately show ?thesis using assms(4,5) by blast
qed

lemma lockstep_run_cong:
  "(\<And>i. i < N \<Longrightarrow> a i = a' i \<and> b i = b' i) \<Longrightarrow> lockstep_run v w a b N = lockstep_run v w a' b' N"
  by (induction N) (auto split: sum.split)

definition heard :: "RemoteLog \<Rightarrow> InputFrame list \<Rightarrow> bool" where
  "heard R ls \<longleftrightarrow> (\<forall>i x. R i = Some x \<longrightarrow> i < length ls \<and> in_buttons x = in_buttons (ls ! i))"

definition mirrored :: "SessionConfig \<Rightarrow> SessionConfig \<Rightarrow> bool" where
  "mirrored cfgA cfgB \<longleftrightarrow> cfg_local_peer cfgB = other_peer (cfg_local_peer cfgA)
     \<and> cfg_initial_state cfgA = cfg_initial_state cfgB \<and> cfg_variant cfgA = cfg_variant cfgB"

text \<open>
  C1. Two peers never disagree on a confirmed frame: if everything each peer has heard is what
  the other one really pressed, then whatever the order in which inputs arrived, were predicted
  and were corrected on either side, two hashes that both peers report for the same boundary
  are equal. A reported difference is therefore a real desync.
\<close>

theorem peers_agree_on_confirmed:
  assumes A: "session_reach cfgA lsA RA sA" "valid_config cfgA" "within_horizon cfgA lsA"
    and B: "session_reach cfgB lsB RB sB" "valid_config cfgB" "within_horizon cfgB lsB"
    and m: "mirrored cfgA cfgB" and heardA: "heard RA lsB" and heardB: "heard RB lsA"
    and ha: "hash_at sA boundary = Inr ha" and hb: "hash_at sB boundary = Inr hb"
  shows "ha = hb"
proof -
  from confirmed_view [OF A] ha obtain SA N where
    N: "boundary = of_nat N" "N \<le> length lsA" "\<forall>i<N. RA i \<noteq> None" "ha = hash_canonical (SA N)"
    and runA: "lockstep_run (cfg_variant cfgA) (cfg_initial_state cfgA)
      (player_buttons cfgA lsA RA PA) (player_buttons cfgA lsA RA PB) N = Inr (SA N)"
    by (metis (no_types, lifting) le_trans less_le_trans)
  from confirmed_view [OF B] hb obtain SB M where
    M: "boundary = of_nat M" "M \<le> length lsB" "\<forall>i<M. RB i \<noteq> None" "hb = hash_canonical (SB M)"
    and runB: "lockstep_run (cfg_variant cfgB) (cfg_initial_state cfgB)
      (player_buttons cfgB lsB RB PA) (player_buttons cfgB lsB RB PB) M = Inr (SB M)"
    by (metis (no_types, lifting) le_trans less_le_trans)
  have "N = M"
    using of_nat_u32_inj [of N M] N(1,2) M(1,2) A(3) B(3) by (simp add: within_horizon_def)
  have "player_buttons cfgA lsA RA p i = player_buttons cfgB lsB RB p i" if "i < N" for p i
  proof -
    from that N(3) M(3) \<open>N = M\<close> obtain x y where "RA i = Some x" "RB i = Some y" by blast
    with heardA heardB m show ?thesis
      by (cases p; cases "cfg_local_peer cfgA")
        (auto simp: heard_def player_buttons_def mirrored_def other_peer_def)
  qed
  then have "lockstep_run (cfg_variant cfgA) (cfg_initial_state cfgA)
      (player_buttons cfgA lsA RA PA) (player_buttons cfgA lsA RA PB) N
    = lockstep_run (cfg_variant cfgA) (cfg_initial_state cfgA)
      (player_buttons cfgB lsB RB PA) (player_buttons cfgB lsB RB PB) N"
    by (intro lockstep_run_cong) blast
  with runA runB m \<open>N = M\<close> have "SA N = SB M" by (simp add: mirrored_def)
  with N(4) M(4) show ?thesis by simp
qed

subsection \<open>Two peers that really roll back\<close>

definition one_input :: "PlayerId \<Rightarrow> u8 \<Rightarrow> InputFrame" where
  "one_input p buttons = \<lparr>in_frame = 0, in_player = p, in_sequence = 0, in_buttons = buttons\<rparr>"

definition one_heard :: "PlayerId \<Rightarrow> u8 \<Rightarrow> RemoteLog" where
  "one_heard p buttons = (\<lambda>_. None)(0 \<mapsto> one_input p buttons)"

lemma default_config_valid:
  "valid_config (default_session_config p)" "within_horizon (default_session_config p) [x]"
  "within_horizon (default_session_config p) []"
  "rollback_window (default_session_config p) = 120"
  using initial_world_inv
  by (simp_all add: valid_config_def within_horizon_def default_session_config_def rollback_window_def
      kDefaultMaxRollbackFrames_def kHistoryCapacity_def make_initial_world_def)

lemma ingest_result:
  assumes "valid_config cfg" "session_inv cfg ls R s"
  shows "fst (ingest_remote x s) =
    (if in_player x \<noteq> other_peer (cfg_local_peer cfg)
     then failure EC_invalid_argument (ucast (player_value (in_player x))) 0 ''remote_peer_id''
     else if frame_before (in_frame x) (of_nat (length ls))
       \<and> frame_distance (in_frame x) (of_nat (length ls)) > cfg_max_rollback_frames cfg
     then failure EC_rollback_window_exceeded (ucast (in_frame x)) 0 ''remote_input''
     else Inr ())"
  using session_inv_frame [OF assms]
  by (simp add: ingest_remote_def remote_peer_def Let_def)

lemma one_frame_session:
  "\<exists>s. session_reach (default_session_config p) [one_input p a] (one_heard (other_peer p) b) s
     \<and> m_confirmed_frame (s_metrics s) = 1 \<and> s_earliest_dirty s = None"
proof -
  let ?cfg = "default_session_config p"
  have p: "cfg_local_peer ?cfg = p" "cfg_max_rollback_frames ?cfg = 120"
    by (simp_all add: default_session_config_def kDefaultMaxRollbackFrames_def)
  have r0: "session_reach ?cfg [] (\<lambda>_. None) (make_session ?cfg)" by (rule session_reach.start)
  have "local_ok ?cfg (length []) (one_input p a)" by (simp add: local_ok_def one_input_def p)
  from advance_ok [OF default_config_valid(1,3) start_inv [OF default_config_valid(1)] this]
  obtain r s1 where s1: "advance (one_input p a) (make_session ?cfg) = (Inr r, s1)" by blast
  have r1: "session_reach ?cfg [one_input p a] (\<lambda>_. None) s1"
    using session_reach.advanced [OF r0 s1] by simp
  from reach_inv [OF r1 default_config_valid(1,2)] have i1: "session_inv ?cfg [one_input p a] (\<lambda>_. None) s1" .
  obtain s2 where s2: "ingest_remote (one_input (other_peer p) b) s1 = (Inr (), s2)"
    using ingest_result [OF default_config_valid(1) i1, of "one_input (other_peer p) b"] p
    by (cases "ingest_remote (one_input (other_peer p) b) s1")
      (simp add: one_input_def frame_distance_def)
  have r2: "session_reach ?cfg [one_input p a] (one_heard (other_peer p) b) s2"
    using session_reach.ingested [OF r1 s2]
    by (simp add: one_input_def one_heard_def default_config_valid(4) kHistoryCapacity_def)
  from flush_ok [OF default_config_valid(1,2) reach_inv [OF r2 default_config_valid(1,2)]]
  obtain q s3 where s3: "flush_corrections s2 = (Inr q, s3)" "s_earliest_dirty s3 = None" by blast
  have r3: "session_reach ?cfg [one_input p a] (one_heard (other_peer p) b) s3"
    using session_reach.flushed [OF r2 s3(1)] .
  from confirmed_view [OF r3 default_config_valid(1,2)] s3(2)
  obtain cf where "m_confirmed_frame (s_metrics s3) = of_nat cf" "cf \<le> 1"
    "cf = 1 \<or> one_heard (other_peer p) b cf = None" by auto
  then have "m_confirmed_frame (s_metrics s3) = 1"
    by (cases cf) (auto simp: one_heard_def)
  with r3 s3(2) show ?thesis by blast
qed

theorem peers_agree_on_confirmed_witness:
  "\<exists>sA sB h. session_reach (default_session_config PA) [one_input PA 8] (one_heard PB 16) sA
     \<and> session_reach (default_session_config PB) [one_input PB 16] (one_heard PA 8) sB
     \<and> hash_at sA 1 = Inr h \<and> hash_at sB 1 = Inr h"
proof -
  from one_frame_session [of PA 8 16] one_frame_session [of PB 16 8] obtain sA sB where
    A: "session_reach (default_session_config PA) [one_input PA 8] (one_heard PB 16) sA"
      "m_confirmed_frame (s_metrics sA) = 1" and
    B: "session_reach (default_session_config PB) [one_input PB 16] (one_heard PA 8) sB"
      "m_confirmed_frame (s_metrics sB) = 1"
    by (auto simp: other_peer_def)
  have q: "\<exists>h. hash_at s 1 = Inr h" if "session_reach (default_session_config p) [x] R s"
    "m_confirmed_frame (s_metrics s) = 1" for p x R s
    using confirmed_queries [OF that(1) default_config_valid(1,2), of 1] that(2) by auto
  from q [OF A] q [OF B] obtain ha hb where h: "hash_at sA 1 = Inr ha" "hash_at sB 1 = Inr hb" by blast
  have "ha = hb"
    by (rule peers_agree_on_confirmed [OF A(1) default_config_valid(1,2) B(1) default_config_valid(1,2)
          _ _ _ h])
      (simp_all add: mirrored_def default_session_config_def other_peer_def heard_def one_heard_def
        one_input_def)
  with A B h show ?thesis by blast
qed

section \<open>The other promises\<close>

text \<open>
  C2. Every confirmed boundary of a session that is still in its history is reported with the
  state, and the hash of the state, that simulating both players' real inputs in order gives:
  predicting, running ahead and rolling back leave no trace in what is confirmed.
\<close>

theorem confirmed_is_lockstep:
  assumes "session_reach cfg ls R s" "valid_config cfg" "within_horizon cfg ls"
    and "N \<le> unat (m_confirmed_frame (s_metrics s))" "length ls \<le> N + 255"
  shows "\<exists>w. lockstep_run (cfg_variant cfg) (cfg_initial_state cfg)
          (player_buttons cfg ls R PA) (player_buttons cfg ls R PB) N = Inr w
       \<and> hash_at s (of_nat N) = Inr (hash_canonical w) \<and> state_at s (of_nat N) = Inr w"
  using assms by (rule confirmed_queries)

theorem confirmed_is_lockstep_witness:
  "\<exists>s w. session_reach (default_session_config PA) [one_input PA 8] (one_heard PB 16) s
     \<and> simulate_frame make_initial_world 0 (neutral_pair 0 8 16) variant_canonical = Inr w
     \<and> state_at s 1 = Inr w \<and> hash_at s 1 = Inr (hash_canonical w)"
proof -
  from one_frame_session [of PA 8 16] obtain s where
    A: "session_reach (default_session_config PA) [one_input PA 8] (one_heard PB 16) s"
      "m_confirmed_frame (s_metrics s) = 1" by (auto simp: other_peer_def)
  from A(2) have n: "1 \<le> unat (m_confirmed_frame (s_metrics s))" "length [one_input PA 8] \<le> 1 + 255"
    by simp_all
  from confirmed_is_lockstep [OF A(1) default_config_valid(1,2) n] A(1) show ?thesis
    by (auto simp: default_session_config_def player_buttons_def one_heard_def one_input_def)
qed

text \<open>A confirmed frame was simulated with the real input, and lies below the pending correction.\<close>

lemma confirmed_clean:
  assumes v: "session_reach cfg ls R s" "valid_config cfg" "within_horizon cfg ls"
  shows "(\<forall>f. s_earliest_dirty s = Some f \<longrightarrow> unat (m_confirmed_frame (s_metrics s)) \<le> unat f \<and> unat f < length ls)
    \<and> (\<forall>i<unat (m_confirmed_frame (s_metrics s)). length ls \<le> i + 256 \<longrightarrow>
          (\<exists>u x. get_frame (of_nat i) (s_used_remote_inputs s) = Inr u \<and> R i = Some x \<and> in_buttons u = in_buttons x))"
proof -
  let ?c = "length ls"
  have c: "?c < 2147483392" using v(3) by (simp add: within_horizon_def)
  from reach_inv [OF v] obtain U S n cf where core: "session_core cfg ls R U S ?c s"
    and clean: "session_clean cfg ls R U n (s_earliest_dirty s)"
    and cf: "confirmed_upto R n cf" "m_confirmed_frame (s_metrics s) = of_nat cf"
    by (auto simp: session_inv_def)
  have n: "n \<le> ?c" "cf \<le> n" "\<forall>i<cf. R i \<noteq> None"
    using clean cf(1) by (auto simp: session_clean_def confirmed_upto_def split: option.splits)
  have u: "unat (of_nat n :: u32) = n" "unat (m_confirmed_frame (s_metrics s)) = cf"
    using n(1,2) c cf(2) by (simp_all add: unat_of_nat_u32)
  have used: "ring_window (?c - 256) ?c (s_used_remote_inputs s) U" using core by (simp add: session_core_def)
  have "\<exists>u x. get_frame (of_nat i) (s_used_remote_inputs s) = Inr u \<and> R i = Some x \<and> in_buttons u = in_buttons x"
    if i: "i < cf" "?c \<le> i + 256" for i
  proof -
    obtain x where "R i = Some x" using n(3) i(1) by blast
    moreover have "in_buttons (U i) = in_buttons x" using clean i(1) n(2) \<open>R i = Some x\<close> by (simp add: session_clean_def)
    moreover have "get_frame (of_nat i) (s_used_remote_inputs s) = Inr (U i)"
      using ring_windowD [OF used] i n(1,2) by simp
    ultimately show ?thesis by blast
  qed
  then show ?thesis using clean n(2) u by (auto simp: session_clean_def split: option.splits)
qed

text \<open>
  C21. The confirmed boundary is exactly the least of three frames: the session's own frame, the first frame whose remote
  input is unknown, and the frame where a pending correction starts. It never runs past one of them and never lags, and
  every confirmed frame that the session still remembers was simulated with the buttons that the other player really
  pressed, so that no contradicted frame is ever confirmed.
\<close>

theorem confirmed_boundary_exact:
  assumes "session_reach cfg ls R s" "valid_config cfg" "within_horizon cfg ls"
  shows "unat (m_confirmed_frame (s_metrics s)) \<le> length ls
    \<and> (\<forall>i<unat (m_confirmed_frame (s_metrics s)). R i \<noteq> None)
    \<and> (\<forall>f. s_earliest_dirty s = Some f \<longrightarrow> unat (m_confirmed_frame (s_metrics s)) \<le> unat f \<and> unat f < length ls)
    \<and> (\<forall>i<unat (m_confirmed_frame (s_metrics s)). length ls \<le> i + 256 \<longrightarrow>
          (\<exists>u x. get_frame (of_nat i) (s_used_remote_inputs s) = Inr u \<and> R i = Some x \<and> in_buttons u = in_buttons x))
    \<and> (unat (m_confirmed_frame (s_metrics s)) = length ls
       \<or> R (unat (m_confirmed_frame (s_metrics s))) = None
       \<or> s_earliest_dirty s = Some (m_confirmed_frame (s_metrics s)))"
proof -
  from confirmed_view [OF assms] obtain cf where
    "m_confirmed_frame (s_metrics s) = of_nat cf" "cf \<le> length ls" "\<forall>i<cf. R i \<noteq> None"
    "cf = length ls \<or> R cf = None \<or> s_earliest_dirty s = Some (of_nat cf)" by blast
  moreover from this assms(3) have "unat (m_confirmed_frame (s_metrics s)) = cf"
    by (simp add: within_horizon_def unat_of_nat_u32)
  moreover note confirmed_clean [OF assms]
  ultimately show ?thesis by simp
qed

theorem confirmed_boundary_exact_witness:
  "\<exists>s. session_reach (default_session_config PB) [one_input PB 16] (one_heard PA 8) s
     \<and> unat (m_confirmed_frame (s_metrics s)) \<le> 1"
proof -
  from one_frame_session [of PB 16 8] obtain s where
    "session_reach (default_session_config PB) [one_input PB 16] (one_heard PA 8) s"
    by (auto simp: other_peer_def)
  with confirmed_boundary_exact [OF this default_config_valid(1,2)] show ?thesis by auto
qed

text \<open>
  C22. Once every remote input below the session's frame is known, flushing succeeds and confirms
  everything that was simulated: nothing stays predicted.
\<close>

theorem flush_confirms_all:
  assumes "session_reach cfg ls R s" "valid_config cfg" "within_horizon cfg ls"
    and "\<And>i. i < length ls \<Longrightarrow> R i \<noteq> None"
  shows "\<exists>r s'. flush_corrections s = (Inr r, s')
       \<and> m_confirmed_frame (s_metrics s') = of_nat (length ls) \<and> s_earliest_dirty s' = None
       \<and> lockstep_run (cfg_variant cfg) (cfg_initial_state cfg)
          (player_buttons cfg ls R PA) (player_buttons cfg ls R PB) (length ls) = Inr (s_state s')"
proof -
  from flush_ok [OF assms(2,3) reach_inv [OF assms(1-3)]] obtain r s' where
    f: "flush_corrections s = (Inr r, s')" "session_inv cfg ls R s'" "s_earliest_dirty s' = None" by blast
  have r: "session_reach cfg ls R s'" using session_reach.flushed [OF assms(1) f(1)] .
  from confirmed_view [OF r assms(2,3)] obtain cf where
    cf: "m_confirmed_frame (s_metrics s') = of_nat cf" "cf \<le> length ls"
    "cf = length ls \<or> R cf = None \<or> s_earliest_dirty s' = Some (of_nat cf)" by blast
  with f(3) assms(4) [of cf] have "cf = length ls" by (cases "cf < length ls") auto
  with cf have m: "unat (m_confirmed_frame (s_metrics s')) = length ls"
    using assms(3) by (simp add: within_horizon_def unat_of_nat_u32)
  have "state_at s' (of_nat (length ls)) = Inr (s_state s')"
    using session_inv_frame [OF assms(2) f(2)] cf(1) \<open>cf = length ls\<close> by (simp add: state_at_def)
  with confirmed_queries [OF r assms(2,3), of "length ls"] m
  have "lockstep_run (cfg_variant cfg) (cfg_initial_state cfg)
          (player_buttons cfg ls R PA) (player_buttons cfg ls R PB) (length ls) = Inr (s_state s')" by auto
  with f(1,3) cf(1) \<open>cf = length ls\<close> show ?thesis by blast
qed

theorem flush_confirms_all_witness:
  "\<exists>s r s'. session_reach (default_session_config PB) [one_input PB 16] (one_heard PA 8) s
     \<and> flush_corrections s = (Inr r, s') \<and> m_confirmed_frame (s_metrics s') = 1"
proof -
  from one_frame_session [of PB 16 8] obtain s where
    A: "session_reach (default_session_config PB) [one_input PB 16] (one_heard PA 8) s"
    by (auto simp: other_peer_def)
  have "one_heard PA 8 i \<noteq> None" if "i < length [one_input PB 16]" for i
    using that by (simp add: one_heard_def)
  from flush_confirms_all [OF A default_config_valid(1,2) this] A show ?thesis by auto
qed

text \<open>
  C23. A reachable session never gets stuck: \<open>flush_corrections\<close> always succeeds, \<open>advance\<close>
  succeeds for the peer's own input of its next frame and refuses anything else with
  \<open>frame_mismatch\<close>, and \<open>ingest_remote\<close> refuses exactly the inputs of the wrong player and
  those older than the rollback window.
\<close>

theorem session_operations_total:
  assumes "session_reach cfg ls R s" "valid_config cfg" "within_horizon cfg ls"
  shows "ok (fst (flush_corrections s))
    \<and> (local_ok cfg (length ls) local \<longrightarrow> ok (fst (advance local s)))
    \<and> (\<not> local_ok cfg (length ls) local \<longrightarrow> fst (advance local s)
        = failure EC_frame_mismatch (ucast (in_frame local)) 0 ''session_advance'')
    \<and> fst (ingest_remote x s) =
        (if in_player x \<noteq> other_peer (cfg_local_peer cfg)
         then failure EC_invalid_argument (ucast (player_value (in_player x))) 0 ''remote_peer_id''
         else if frame_before (in_frame x) (of_nat (length ls))
           \<and> frame_distance (in_frame x) (of_nat (length ls)) > cfg_max_rollback_frames cfg
         then failure EC_rollback_window_exceeded (ucast (in_frame x)) 0 ''remote_input''
         else Inr ())"
proof -
  note inv = reach_inv [OF assms]
  have "ok (fst (flush_corrections s))" using flush_ok [OF assms(2,3) inv] by auto
  moreover have "ok (fst (advance local s))" if "local_ok cfg (length ls) local"
    using advance_ok [OF assms(2,3) inv that] by auto
  moreover have "fst (advance local s)
      = failure EC_frame_mismatch (ucast (in_frame local)) 0 ''session_advance''"
    if "\<not> local_ok cfg (length ls) local"
    using advance_refused [OF assms(2,3) inv that] by auto
  ultimately show ?thesis using ingest_result [OF assms(2) inv] by blast
qed

theorem session_operations_total_witness:
  "\<exists>s. session_reach (default_session_config PA) [one_input PA 8] (one_heard PB 16) s
     \<and> ok (fst (flush_corrections s)) \<and> ok (fst (ingest_remote (one_input PB 4) s))
     \<and> fst (advance (one_input PA 8) s) = failure EC_frame_mismatch 0 0 ''session_advance''"
proof -
  from one_frame_session [of PA 8 16] obtain s where
    A: "session_reach (default_session_config PA) [one_input PA 8] (one_heard PB 16) s"
    by (auto simp: other_peer_def)
  have "\<not> local_ok (default_session_config PA) (length [one_input PA 8]) (one_input PA 8)"
    by (simp add: local_ok_def one_input_def)
  moreover have "ok (if in_player (one_input PB 4) \<noteq> other_peer (cfg_local_peer (default_session_config PA))
         then failure EC_invalid_argument (ucast (player_value (in_player (one_input PB 4)))) 0 ''remote_peer_id''
         else if frame_before (in_frame (one_input PB 4)) (of_nat (length [one_input PA 8]))
           \<and> frame_distance (in_frame (one_input PB 4)) (of_nat (length [one_input PA 8]))
              > cfg_max_rollback_frames (default_session_config PA)
         then failure EC_rollback_window_exceeded (ucast (in_frame (one_input PB 4))) 0 ''remote_input''
         else Inr ())"
    by (simp add: one_input_def other_peer_def default_session_config_def frame_distance_def
        kDefaultMaxRollbackFrames_def)
  ultimately show ?thesis
    using A session_operations_total [OF A default_config_valid(1,2), of "one_input PA 8" "one_input PB 4"]
    by (auto simp: one_input_def)
qed

end
