(* ===== verification/SequenceWindow.thy ===== *)
theory SequenceWindow
  imports Core
begin

text \<open>
  \<open>protocol/sequence_window.cpp\<close>: the receiver's duplicate filter, a newest sequence number and
  a 64-bit mask of the numbers received at most 63 behind it. The specification is a set of
  received numbers, unbounded naturals whose low 32 bits travel on the wire; the filter refines
  it as long as no number is \<open>2 ^ 31\<close> or more away from the newest one.
\<close>

datatype SequenceDisposition = SD_newest | SD_out_of_order | SD_duplicate | SD_stale

record SequenceWindow =
  sw_initialized :: bool
  sw_newest :: u32
  sw_received_mask :: u64

definition make_sequence_window :: SequenceWindow where
  "make_sequence_window = \<lparr>sw_initialized = False, sw_newest = 0, sw_received_mask = 0\<rparr>"

definition observe :: "u32 \<Rightarrow> SequenceWindow \<Rightarrow> SequenceDisposition \<times> SequenceWindow" where
  "observe sequence w =
     (if \<not> sw_initialized w
      then (SD_newest, w\<lparr>sw_initialized := True, sw_newest := sequence, sw_received_mask := 1\<rparr>)
      else
        (let forward = sequence - sw_newest w in
         if forward = 0 then (SD_duplicate, w)
         else if forward < 0x80000000
         then (SD_newest,
               w\<lparr>sw_received_mask := (if forward \<ge> 64 then 1
                                     else push_bit (unat forward) (sw_received_mask w) OR 1),
                 sw_newest := sequence\<rparr>)
         else
           (let behind = sw_newest w - sequence in
            if behind \<ge> 64 then (SD_stale, w)
            else
              (let bit_value = push_bit (unat behind) 1 in
               if sw_received_mask w AND bit_value \<noteq> 0 then (SD_duplicate, w)
               else (SD_out_of_order,
                     w\<lparr>sw_received_mask := sw_received_mask w OR bit_value\<rparr>)))))"

definition accepted :: "SequenceDisposition \<Rightarrow> bool" where
  "accepted d \<longleftrightarrow> d = SD_newest \<or> d = SD_out_of_order"

section \<open>The specification\<close>

definition spec_disposition :: "nat set \<Rightarrow> nat \<Rightarrow> nat \<Rightarrow> SequenceDisposition" where
  "spec_disposition received newest k =
     (if newest < k then SD_newest
      else if newest - k \<ge> 64 then SD_stale
      else if k \<in> received then SD_duplicate
      else SD_out_of_order)"

definition window_rel :: "SequenceWindow \<Rightarrow> nat set \<Rightarrow> nat \<Rightarrow> bool" where
  "window_rel w received newest \<longleftrightarrow>
     sw_initialized w \<and> sw_newest w = of_nat newest
     \<and> newest \<in> received \<and> (\<forall>k \<in> received. k \<le> newest)
     \<and> (\<forall>i<64. bit (sw_received_mask w) i \<longleftrightarrow> i \<le> newest \<and> newest - i \<in> received)"

lemma and_push_one: "(m AND push_bit n 1 \<noteq> (0 :: u64)) \<longleftrightarrow> bit m n"
  by (simp only: bit_iff_and_push_bit_not_eq_0)

lemma observe_forward:
  assumes r: "window_rel w received n" and k: "n < k" "k < n + 2147483648"
  shows "\<exists>m. observe (of_nat k) w = (SD_newest, w\<lparr>sw_received_mask := m, sw_newest := of_nat k\<rparr>)
    \<and> window_rel (w\<lparr>sw_received_mask := m, sw_newest := of_nat k\<rparr>) (insert k received) k"
proof -
  have init: "sw_initialized w" "sw_newest w = of_nat n" using r by (simp_all add: window_rel_def)
  have f: "of_nat k - of_nat n = (of_nat (k - n) :: u32)" using k by (simp add: of_nat_diff)
  have uf: "unat (of_nat (k - n) :: u32) = k - n" using k by (simp add: unat_of_nat_u32 del: of_nat_diff)
  define fw :: u32 where "fw = of_nat (k - n)"
  have fw: "fw \<noteq> 0" "fw < 0x80000000" "unat fw = k - n" "fw \<ge> 64 \<longleftrightarrow> k - n \<ge> 64"
    using uf k by (auto simp: fw_def word_less_nat_alt word_le_nat_alt unat_eq_0 [symmetric])
  define m where "m = (if fw \<ge> 64 then 1 else push_bit (k - n) (sw_received_mask w) OR 1)"
  have "observe (of_nat k) w = (SD_newest, w\<lparr>sw_received_mask := m, sw_newest := of_nat k\<rparr>)"
    using init fw by (simp add: observe_def f fw_def [symmetric] Let_def m_def)
  moreover have "bit m i \<longleftrightarrow> i \<le> k \<and> k - i \<in> insert k received" if "i < 64" for i
  proof (cases "i < k - n")
    case True
    then have "k - i \<notin> received" using r by (auto simp: window_rel_def)
    moreover have "bit m i \<longleftrightarrow> i = 0" using True that by (auto simp: m_def bit_simps)
    moreover have "i = 0 \<longleftrightarrow> i \<le> k \<and> k - i = k" using k by auto
    ultimately show ?thesis by auto
  next
    case False
    then have "k - n < 64" "\<not> fw \<ge> 64" using that fw(4) by auto
    then have "bit m i \<longleftrightarrow> bit (sw_received_mask w) (i - (k - n))"
      using False that k by (auto simp: m_def bit_simps)
    also have "\<dots> \<longleftrightarrow> i - (k - n) \<le> n \<and> n - (i - (k - n)) \<in> received"
      using r that by (simp add: window_rel_def)
    also have "\<dots> \<longleftrightarrow> i \<le> k \<and> k - i \<in> insert k received"
      using False k by auto
    finally show ?thesis .
  qed
  then have "window_rel (w\<lparr>sw_received_mask := m, sw_newest := of_nat k\<rparr>) (insert k received) k"
    using r k by (auto simp: window_rel_def)
  ultimately show ?thesis by blast
qed

lemma observe_behind:
  assumes r: "window_rel w received n" and k: "k \<le> n" "n < k + 2147483648"
  shows "fst (observe (of_nat k) w) = spec_disposition received n k
    \<and> window_rel (snd (observe (of_nat k) w))
        (if accepted (spec_disposition received n k) then insert k received else received) n"
proof -
  have init: "sw_initialized w" "sw_newest w = of_nat n" and nin: "n \<in> received"
    using r by (simp_all add: window_rel_def)
  show ?thesis
  proof (cases "k = n")
    case True
    then have "observe (of_nat k) w = (SD_duplicate, w)" using init by (simp add: observe_def)
    with True nin r show ?thesis by (simp add: spec_disposition_def accepted_def)
  next
    case False
    define bh :: u32 where "bh = of_nat (n - k)"
    have b: "of_nat n - of_nat k = bh" using k by (simp add: bh_def of_nat_diff)
    have ub: "unat bh = n - k" using k by (simp add: bh_def unat_of_nat_u32 del: of_nat_diff)
    have f: "of_nat k - of_nat n = - bh" using b by (metis minus_diff_eq)
    have uf: "unat (- bh) = 4294967296 - (n - k)"
      using ub False k unat_sub_if' [of 0 bh] by simp
    have fw: "- bh \<noteq> 0" "\<not> - bh < 0x80000000" "bh \<ge> 64 \<longleftrightarrow> n - k \<ge> 64"
      using uf ub k False by (auto simp: word_less_nat_alt word_le_nat_alt)
    have obs: "observe (of_nat k) w = (if n - k \<ge> 64 then (SD_stale, w)
        else if bit (sw_received_mask w) (n - k) then (SD_duplicate, w)
        else (SD_out_of_order, w\<lparr>sw_received_mask := sw_received_mask w OR push_bit (n - k) 1\<rparr>))"
      unfolding observe_def Let_def init f b
      using init fw ub and_push_one [of "sw_received_mask w" "n - k"] by simp
    have m: "bit (sw_received_mask w) (n - k) \<longleftrightarrow> k \<in> received" if "n - k < 64"
      using r that k by (simp add: window_rel_def)
    show ?thesis
    proof (cases "n - k \<ge> 64 \<or> k \<in> received")
      case True
      with obs m r k show ?thesis by (auto simp: spec_disposition_def accepted_def)
    next
      case new: False
      have "bit (sw_received_mask w OR push_bit (n - k) 1) i \<longleftrightarrow> i \<le> n \<and> n - i \<in> insert k received"
        if "i < 64" for i
        using that r k new by (auto simp: bit_simps window_rel_def)
      with new r k have "window_rel (w\<lparr>sw_received_mask := sw_received_mask w OR push_bit (n - k) 1\<rparr>)
          (insert k received) n" by (auto simp: window_rel_def)
      with new obs m k show ?thesis by (auto simp: spec_disposition_def accepted_def)
    qed
  qed
qed

lemma observe_step:
  assumes "window_rel w received n" and "k < n + 2147483648" "n < k + 2147483648"
  shows "fst (observe (of_nat k) w) = spec_disposition received n k
    \<and> window_rel (snd (observe (of_nat k) w))
        (if accepted (spec_disposition received n k) then insert k received else received) (max n k)"
proof (cases "n < k")
  case True
  from observe_forward [OF assms(1) True assms(2)] True show ?thesis
    by (auto simp: spec_disposition_def accepted_def max_def)
next
  case False
  with observe_behind [OF assms(1) _ assms(3)] show ?thesis by (simp add: max_def)
qed

section \<open>At most once\<close>

text \<open>
  The first number of a stream initialises the window; afterwards every number is less than
  \<open>2 ^ 31\<close> away from the newest one so far.
\<close>

fun observe_all :: "nat list \<Rightarrow> SequenceWindow \<Rightarrow> SequenceDisposition list" where
  "observe_all [] w = []"
| "observe_all (k # ks) w =
     (case observe (of_nat k) w of (d, w') \<Rightarrow> d # observe_all ks w')"

fun paced :: "nat \<Rightarrow> nat list \<Rightarrow> bool" where
  "paced newest [] = True"
| "paced newest (k # ks) \<longleftrightarrow>
     k < newest + 2147483648 \<and> newest < k + 2147483648 \<and> paced (max newest k) ks"

fun accepted_numbers :: "nat list \<Rightarrow> SequenceDisposition list \<Rightarrow> nat list" where
  "accepted_numbers (k # ks) (d # ds) =
     (if accepted d then k # accepted_numbers ks ds else accepted_numbers ks ds)"
| "accepted_numbers _ _ = []"

lemma accepted_numbers_new:
  assumes "window_rel w received n" "paced n ks"
  shows "distinct (accepted_numbers ks (observe_all ks w))
    \<and> set (accepted_numbers ks (observe_all ks w)) \<inter> received = {}"
  using assms
proof (induction ks arbitrary: w received n)
  case (Cons k ks)
  obtain d w' where o: "observe (of_nat k) w = (d, w')" by (cases "observe (of_nat k) w")
  from observe_step [OF Cons.prems(1), of k] Cons.prems(2) o
  have d: "d = spec_disposition received n k"
    and w': "window_rel w' (if accepted d then insert k received else received) (max n k)" by auto
  have ih: "distinct (accepted_numbers ks (observe_all ks w'))
      \<and> set (accepted_numbers ks (observe_all ks w')) \<inter> (if accepted d then insert k received else received) = {}"
    using Cons.IH [OF w'] Cons.prems(2) by simp
  have "k \<notin> received" if "accepted d"
    using that Cons.prems(1) by (auto simp: d spec_disposition_def accepted_def window_rel_def split: if_splits)
  with ih o show ?case by auto
qed simp

text \<open>
  C31. The filter implements its specification: a number above the newest one is accepted and
  becomes the newest; one at most 63 behind is accepted exactly when it was not received
  before; anything older is stale. The 32-bit comparison is right although the counter wraps.
\<close>

theorem observe_refines_set:
  assumes "window_rel w received n" and "k < n + 2147483648" "n < k + 2147483648"
  shows "fst (observe (of_nat k) w) = spec_disposition received n k
    \<and> window_rel (snd (observe (of_nat k) w))
        (if accepted (spec_disposition received n k) then insert k received else received) (max n k)"
  using assms by (rule observe_step)

lemma window_rel_first:
  "observe (of_nat k) make_sequence_window
     = (SD_newest, \<lparr>sw_initialized = True, sw_newest = of_nat k, sw_received_mask = 1\<rparr>)"
  "window_rel \<lparr>sw_initialized = True, sw_newest = of_nat k, sw_received_mask = 1\<rparr> {k} k"
  by (auto simp: observe_def make_sequence_window_def window_rel_def bit_simps)

theorem observe_refines_set_witness:
  "fst (observe 3 (snd (observe 4294967290 make_sequence_window))) = SD_newest"
proof -
  let ?w = "\<lparr>sw_initialized = True, sw_newest = of_nat 4294967290, sw_received_mask = 1\<rparr>"
  have "fst (observe (of_nat 4294967299) ?w) = spec_disposition {4294967290} 4294967290 4294967299"
    using observe_refines_set [OF window_rel_first(2) [of 4294967290], of 4294967299] by simp
  moreover have "(of_nat 4294967299 :: u32) = 3" by simp
  ultimately show ?thesis
    using window_rel_first(1) [of 4294967290] by (simp only: spec_disposition_def) simp
qed

text \<open>
  C30. No packet is accepted twice while the sequence numbers keep pace: in whatever order the numbers arrive and as often
  as the network repeats them, across any number of wrap-arounds, the numbers the filter accepts are distinct, provided
  that each arriving number is less than 2 to the 31 away from the newest one before it (\<open>paced\<close>). Without this the 32-bit
  numbers are ambiguous, and the filter can take one twice: \<open>pace_is_needed\<close> runs it on such a sequence.
\<close>

theorem sequence_accepted_once:
  assumes "paced k ks"
  shows "distinct (accepted_numbers (k # ks) (observe_all (k # ks) make_sequence_window))"
  using accepted_numbers_new [OF window_rel_first(2) assms] window_rel_first(1) [of k]
  by (auto simp: accepted_def)

lemma pace_is_needed:
  "\<not> distinct (accepted_numbers [0, 2147483647, 4294967294, 0]
      (observe_all [0, 2147483647, 4294967294, 0] make_sequence_window))"
  by (simp add: observe_def make_sequence_window_def accepted_def)

theorem sequence_accepted_once_witness:
  "accepted_numbers [7, 9, 7, 8, 9, 8] (observe_all [7, 9, 7, 8, 9, 8] make_sequence_window) = [7, 9, 8]
   \<and> distinct (accepted_numbers [7, 9, 7, 8, 9, 8] (observe_all [7, 9, 7, 8, 9, 8] make_sequence_window))"
proof
  show "distinct (accepted_numbers [7, 9, 7, 8, 9, 8] (observe_all [7, 9, 7, 8, 9, 8] make_sequence_window))"
    by (rule sequence_accepted_once) simp
  show "accepted_numbers [7, 9, 7, 8, 9, 8] (observe_all [7, 9, 7, 8, 9, 8] make_sequence_window) = [7, 9, 8]"
    by code_simp
qed

end
