(* ===== verification/Scenario.thy ===== *)
theory Scenario
  imports Rollback SequenceWindow Report
begin

text \<open>
  The two-peer run of \<open>report/scenario_runner.hpp\<close>, \<open>report/live_scenario.hpp\<close> and
  \<open>report/scenario_runner.cpp\<close>: two sessions with scripted (or, for peer A, supplied) inputs that
  exchange encoded packets over the seeded transport, beside a direct simulation that becomes
  the replay.

  \<open>LiveScenario\<close> is one record: the fields of \<open>Storage\<close> and the two sessions it
  borrows, which nobody else may change while the run lasts. The \<open>DeliveryContext\<close> of the code is a set of
  references to these fields. Whether the two session references are the same object is an
  argument of \<open>create\<close>. This theory holds the definitions; what they guarantee is proved in
  \<open>Convergence\<close>.
\<close>

record ScenarioRunConfig =
  sc_scenario_seed :: u64
  sc_transport_seed :: u64
  sc_frame_count :: u32
  sc_transport :: TransportConfig
  sc_peer_b_variant :: SimulationVariant
  sc_capture_trace :: bool
  sc_tail_redundancy_ticks :: u32

definition default_scenario_config :: ScenarioRunConfig where
  "default_scenario_config =
     \<lparr>sc_scenario_seed = 1, sc_transport_seed = 2, sc_frame_count = 600,
      sc_transport = default_transport_config, sc_peer_b_variant = variant_canonical,
      sc_capture_trace = True, sc_tail_redundancy_ticks = 64\<rparr>"

record ScenarioArtifacts =
  sa_report :: RunReport
  sa_replay :: Replay
  sa_trace :: Trace
  sa_desync_diagnostic :: "DesyncDiagnostic option"

record LiveCorrection =
  lc_result :: CorrectionResult
  lc_before :: WorldState
  lc_after :: WorldState

record LiveScenario =
  lv_config :: ScenarioRunConfig
  lv_peer_a :: RollbackSession
  lv_peer_b :: RollbackSession
  lv_artifacts :: ScenarioArtifacts
  lv_transport_config :: TransportConfig
  lv_transport :: SeededTransport
  lv_at_a :: SequenceWindow
  lv_at_b :: SequenceWindow
  lv_desync_a :: DesyncTracker
  lv_desync_b :: DesyncTracker
  lv_correction_a :: LiveCorrection
  lv_correction_b :: LiveCorrection
  lv_history_a :: "InputFrame list"
  lv_history_b :: "InputFrame list"
  lv_replay_state :: WorldState
  lv_sequence_a :: u32
  lv_sequence_b :: u32
  lv_tick_index :: u32
  lv_finished :: bool
  lv_failure :: "Error option"

text \<open>The members of the records as their initialisers leave them.\<close>

definition default_player :: PlayerState where
  "default_player = \<lparr>ps_id = PA, ps_x = 0, ps_y = 0, ps_velocity_x = 0, ps_velocity_y = 0,
     ps_facing_x = 1, ps_facing_y = 0, ps_hp = kStartingHp, ps_score = 0, ps_attack_cooldown = 0\<rparr>"

definition default_world :: WorldState where
  "default_world = \<lparr>ws_frame = 0, ws_players = replicate 2 default_player,
     ws_projectiles = replicate kMaxProjectiles default_projectile, ws_next_projectile_id = 1\<rparr>"

definition default_live_correction :: LiveCorrection where
  "default_live_correction = \<lparr>lc_result = default_correction, lc_before = default_world,
     lc_after = default_world\<rparr>"

definition default_replay :: Replay where
  "default_replay = \<lparr>rp_replay_version = ucast kReplayVersion, rp_simulation_version = ucast kSimulationVersion,
     rp_protocol_version = ucast kProtocolVersion, rp_variant = variant_canonical, rp_scenario_seed = 0,
     rp_transport_seed = 0, rp_final_frame = 0, rp_confirmed_inputs = [], rp_checkpoints = [],
     rp_expected_final_hash = 0\<rparr>"

section \<open>Packets\<close>

definition window_from :: "InputFrame list \<Rightarrow> InputFrame list" where
  "window_from history =
     (let count = min (length history) kMaxRedundantInputs in drop (length history - count) history)"

text \<open>The hashes from the confirmed frame backwards, until one is missing; newest first.\<close>

fun collect_hashes :: "RollbackSession \<Rightarrow> FrameNumber \<Rightarrow> nat list \<Rightarrow> ConfirmedHash list" where
  "collect_hashes sender confirmed [] = []"
| "collect_hashes sender confirmed (offset # offsets) =
     (let frame = confirmed - of_nat offset
      in case hash_at sender frame of
           Inl _ \<Rightarrow> []
         | Inr hash \<Rightarrow> \<lparr>ch_frame = frame, ch_hash = hash\<rparr> # collect_hashes sender confirmed offsets)"

definition make_packet :: "RollbackSession \<Rightarrow> InputFrame list \<Rightarrow> u64 \<Rightarrow> u32 \<Rightarrow> Packet" where
  "make_packet sender history scenario_id sequence =
     (let session = session_report sender; confirmed = m_confirmed_frame (sr_metrics session)
      in \<lparr>pk_protocol_version = ucast kProtocolVersion, pk_type = pt_input,
          pk_sender = sr_local_peer session, pk_sequence = sequence, pk_ack = confirmed,
          pk_scenario_id = scenario_id, pk_confirmed_frame = confirmed,
          pk_inputs = window_from history,
          pk_confirmed_hashes = rev (collect_hashes sender confirmed [0..<kMaxConfirmedHashes]),
          pk_hello = None\<rparr>)"

text \<open>The confirmed inputs before a boundary, until one is missing; newest first.\<close>

fun collect_inputs :: "RollbackSession \<Rightarrow> FrameNumber \<Rightarrow> nat list \<Rightarrow> InputPair list" where
  "collect_inputs session boundary [] = []"
| "collect_inputs session boundary (offset # offsets) =
     (let frame = boundary - of_nat offset
      in case (confirmed_input session PA frame, confirmed_input session PB frame) of
           (Inr a, Inr b) \<Rightarrow> \<lparr>pair_a = a, pair_b = b\<rparr> # collect_inputs session boundary offsets
         | _ \<Rightarrow> [])"

definition peer_diagnostic_inputs :: "RollbackSession \<Rightarrow> FrameNumber \<Rightarrow> InputPair list" where
  "peer_diagnostic_inputs session boundary = rev (collect_inputs session boundary [1..<33])"

definition push_packet_event :: "PacketTraceEvent \<Rightarrow> Trace \<Rightarrow> Trace" where
  "push_packet_event event tx =
     (if length (tx_packets tx) < kMaxTracePacketEvents
      then tx\<lparr>tx_packets := tx_packets tx @ [event]\<rparr>
      else tx\<lparr>tx_omitted_packet_events := tx_omitted_packet_events tx + 1\<rparr>)"

definition record_send_effects :: "bool \<Rightarrow> LogicalTick \<Rightarrow> Endpoint \<Rightarrow> Endpoint \<Rightarrow> u32
    \<Rightarrow> TransportMetrics \<Rightarrow> TransportMetrics \<Rightarrow> Trace \<Rightarrow> Trace" where
  "record_send_effects capture_trace tick src dst sequence before after tx =
     (if \<not> capture_trace then tx
      else
        (let event = (\<lambda>kind. \<lparr>pe_tick = tick, pe_kind = kind, pe_from = src, pe_to = dst,
                               pe_sequence = sequence\<rparr>);
             tx = push_packet_event (event PTK_sent) tx;
             tx = (if tm_dropped_loss after > tm_dropped_loss before
                   then push_packet_event (event PTK_dropped) tx else tx);
             tx = (if tm_duplicated_packets after > tm_duplicated_packets before
                   then push_packet_event (event PTK_duplicated) tx else tx)
         in if tm_reordered_packets after > tm_reordered_packets before
            then push_packet_event (event PTK_reordered) tx else tx))"

text \<open>\<open>send_packet\<close> changes the transport and the trace.\<close>

definition send_packet :: "bool \<Rightarrow> Packet \<Rightarrow> Endpoint \<Rightarrow> Endpoint \<Rightarrow> LogicalTick
    \<Rightarrow> SeededTransport \<Rightarrow> Trace \<Rightarrow> unit Result \<times> SeededTransport \<times> Trace" where
  "send_packet capture_trace packet src dst tick t tx =
     (case encode_packet packet of
        Inl e \<Rightarrow> (Inl e, t, tx)
      | Inr bytes \<Rightarrow>
          (case send src dst bytes tick t of
             (Inl e, t') \<Rightarrow> (Inl e, t', tx)
           | (Inr _, t') \<Rightarrow>
               (Inr (), t', record_send_effects capture_trace tick src dst (pk_sequence packet)
                              (tr_metrics t) (tr_metrics t') tx)))"

section \<open>Deliveries\<close>

definition receiver_at :: "Endpoint \<Rightarrow> LiveScenario \<Rightarrow> RollbackSession" where
  "receiver_at ep st = (if ep = EP_a then lv_peer_a st else lv_peer_b st)"

definition set_receiver :: "Endpoint \<Rightarrow> RollbackSession \<Rightarrow> LiveScenario \<Rightarrow> LiveScenario" where
  "set_receiver ep s st = (if ep = EP_a then st\<lparr>lv_peer_a := s\<rparr> else st\<lparr>lv_peer_b := s\<rparr>)"

definition set_trace :: "Trace \<Rightarrow> LiveScenario \<Rightarrow> LiveScenario" where
  "set_trace tx st = st\<lparr>lv_artifacts := (lv_artifacts st)\<lparr>sa_trace := tx\<rparr>\<rparr>"

abbreviation trace_of :: "LiveScenario \<Rightarrow> Trace" where
  "trace_of st \<equiv> sa_trace (lv_artifacts st)"

abbreviation capturing :: "LiveScenario \<Rightarrow> bool" where
  "capturing st \<equiv> sc_capture_trace (lv_config st)"

fun ingest_all :: "InputFrame list \<Rightarrow> RollbackSession \<Rightarrow> unit Result \<times> RollbackSession" where
  "ingest_all [] s = (Inr (), s)"
| "ingest_all (x # xs) s =
     (case ingest_remote x s of
        (Inl e, s) \<Rightarrow> (Inl e, s)
      | (Inr _, s) \<Rightarrow> ingest_all xs s)"

definition record_rollback :: "RollbackSession \<Rightarrow> CorrectionResult \<Rightarrow> Trace \<Rightarrow> Trace" where
  "record_rollback receiver correction tx =
     (if length (tx_rollbacks tx) < kMaxTraceRollbackEvents
      then tx\<lparr>tx_rollbacks := tx_rollbacks tx @
             [\<lparr>re_observed_at = ws_frame (s_state receiver),
               re_rollback_from = cr_rollback_from correction,
               re_depth = cr_resimulated_frames correction\<rparr>]\<rparr>
      else tx\<lparr>tx_omitted_rollback_events := tx_omitted_rollback_events tx + 1\<rparr>)"

definition note_desync :: "Endpoint \<Rightarrow> ConfirmedHash \<Rightarrow> StateHash \<Rightarrow> WorldState \<Rightarrow> LiveScenario
    \<Rightarrow> LiveScenario" where
  "note_desync ep remote_hash local_hash local_state st =
     (let local = \<lparr>ho_frame = ch_frame remote_hash, ho_hash = local_hash, ho_confirmed = True\<rparr>;
          remote = \<lparr>ho_frame = ch_frame remote_hash, ho_hash = ch_hash remote_hash, ho_confirmed = True\<rparr>;
          (diagnostic, tracker) =
            observe_hashes local remote
              (peer_diagnostic_inputs (receiver_at ep st) (ch_frame remote_hash)) local_state
              (if ep = EP_a then lv_desync_a st else lv_desync_b st);
          st = (if ep = EP_a then st\<lparr>lv_desync_a := tracker\<rparr> else st\<lparr>lv_desync_b := tracker\<rparr>)
      in case diagnostic of
           Some d \<Rightarrow>
             if capturing st
             then set_trace ((trace_of st)\<lparr>tx_desync :=
                    Some \<lparr>dm_frame = dd_earliest_divergent_frame d, dm_local_hash = dd_local_hash d,
                          dm_remote_hash = dd_remote_hash d\<rparr>\<rparr>) st
             else st
         | None \<Rightarrow> st)"

fun compare_hashes :: "Endpoint \<Rightarrow> ConfirmedHash list \<Rightarrow> LiveScenario \<Rightarrow> LiveScenario" where
  "compare_hashes ep [] st = st"
| "compare_hashes ep (remote_hash # hashes) st =
     compare_hashes ep hashes
       (case hash_at (receiver_at ep st) (ch_frame remote_hash) of
          Inl _ \<Rightarrow> st
        | Inr local_hash \<Rightarrow>
            if local_hash = ch_hash remote_hash then st
            else (case state_at (receiver_at ep st) (ch_frame remote_hash) of
                    Inl _ \<Rightarrow> st
                  | Inr local_state \<Rightarrow> note_desync ep remote_hash local_hash local_state st))"

text \<open>The presentation event and the trace entry of a correction that was performed.\<close>

definition record_correction :: "Endpoint \<Rightarrow> RollbackSession \<Rightarrow> WorldState \<Rightarrow> CorrectionResult
    \<Rightarrow> LiveScenario \<Rightarrow> LiveScenario" where
  "record_correction ep receiver before_correction correction st =
     (let event = \<lparr>lc_result = correction, lc_before = before_correction,
                    lc_after = s_state receiver\<rparr>;
          st = (if cr_performed correction
                then (if ep = EP_a then st\<lparr>lv_correction_a := event\<rparr>
                      else st\<lparr>lv_correction_b := event\<rparr>)
                else st)
      in if capturing st \<and> cr_performed correction
         then set_trace (record_rollback receiver correction (trace_of st)) st else st)"

text \<open>What happens to a decoded packet that the sequence window accepts.\<close>

definition accept_packet :: "Endpoint \<Rightarrow> Packet \<Rightarrow> LiveScenario \<Rightarrow> unit Result \<times> LiveScenario" where
  "accept_packet ep packet st =
     (case ingest_all (pk_inputs packet) (receiver_at ep st) of
        (Inl e, s) \<Rightarrow> (Inl e, set_receiver ep s st)
      | (Inr _, s) \<Rightarrow>
          (let before_correction = s_state s
           in case flush_corrections s of
                (Inl e, s) \<Rightarrow> (Inl e, set_receiver ep s st)
              | (Inr correction, s) \<Rightarrow>
                  (Inr (), compare_hashes ep (pk_confirmed_hashes packet)
                     (record_correction ep s before_correction correction (set_receiver ep s st)))))"

definition process_delivery :: "Delivery \<Rightarrow> LiveScenario \<Rightarrow> unit Result \<times> LiveScenario" where
  "process_delivery delivery st =
     (case decode_packet (dl_bytes delivery) of
        Inl e \<Rightarrow> (Inl e, st)
      | Inr packet \<Rightarrow>
          (let ep = dl_to delivery;
               (disposition, window) =
                 observe (pk_sequence packet) (if ep = EP_a then lv_at_a st else lv_at_b st);
               st = (if ep = EP_a then st\<lparr>lv_at_a := window\<rparr> else st\<lparr>lv_at_b := window\<rparr>);
               st = (if capturing st
                     then set_trace (push_packet_event
                            \<lparr>pe_tick = dl_delivered_at delivery, pe_kind = PTK_delivered,
                             pe_from = dl_from delivery, pe_to = dl_to delivery,
                             pe_sequence = pk_sequence packet\<rparr> (trace_of st)) st
                     else st)
           in if disposition = SD_duplicate \<or> disposition = SD_stale then (Inr (), st)
              else accept_packet ep packet st))"

fun process_deliveries :: "Delivery list \<Rightarrow> LiveScenario \<Rightarrow> unit Result \<times> LiveScenario" where
  "process_deliveries [] st = (Inr (), st)"
| "process_deliveries (d # ds) st =
     (case process_delivery d st of
        (Inl e, st) \<Rightarrow> (Inl e, st)
      | (Inr _, st) \<Rightarrow> process_deliveries ds st)"

definition process_tick :: "LogicalTick \<Rightarrow> LiveScenario \<Rightarrow> unit Result \<times> LiveScenario" where
  "process_tick tick st =
     (let (deliveries, t) = deliver tick (lv_transport st)
      in process_deliveries deliveries (st\<lparr>lv_transport := t\<rparr>))"

definition accumulate_checkpoint :: "WorldState \<Rightarrow> bool \<Rightarrow> Replay \<Rightarrow> Replay" where
  "accumulate_checkpoint state force replay =
     (if force \<or> ws_frame state mod 30 = 0
      then replay\<lparr>rp_checkpoints := rp_checkpoints replay @
             [\<lparr>rc_frame = ws_frame state, rc_hash = hash_canonical state\<rparr>]\<rparr>
      else replay)"

section \<open>The run\<close>

definition seeded_config :: "ScenarioRunConfig \<Rightarrow> TransportConfig" where
  "seeded_config source = (sc_transport source)\<lparr>tc_seed := sc_transport_seed source\<rparr>"

definition make_storage :: "BuildInfo \<Rightarrow> ScenarioRunConfig \<Rightarrow> RollbackSession \<Rightarrow> RollbackSession
    \<Rightarrow> LiveScenario" where
  "make_storage build source a b =
     (let first_frame = \<lparr>tf_frame = 0, tf_state = s_state a, tf_hash = sr_final_hash (session_report a),
                         tf_predicted = False, tf_confirmed_frame = 0\<rparr>;
          tx = empty_trace\<lparr>tx_scenario_seed := sc_scenario_seed source,
                 tx_sample_interval := trace_sample_interval (sc_frame_count source),
                 tx_frames := (if sc_capture_trace source then [first_frame] else [])\<rparr>;
          rp = default_replay\<lparr>rp_scenario_seed := sc_scenario_seed source,
                 rp_transport_seed := sc_transport_seed source, rp_final_frame := sc_frame_count source\<rparr>
      in \<lparr>lv_config = source, lv_peer_a = a, lv_peer_b = b,
          lv_artifacts = \<lparr>sa_report = default_report build, sa_replay = rp, sa_trace = tx,
                          sa_desync_diagnostic = None\<rparr>,
          lv_transport_config = seeded_config source,
          lv_transport = make_transport (seeded_config source),
          lv_at_a = make_sequence_window, lv_at_b = make_sequence_window,
          lv_desync_a = make_desync_tracker (sc_scenario_seed source),
          lv_desync_b = make_desync_tracker (sc_scenario_seed source),
          lv_correction_a = default_live_correction, lv_correction_b = default_live_correction,
          lv_history_a = [], lv_history_b = [], lv_replay_state = make_initial_world,
          lv_sequence_a = 1, lv_sequence_b = 1, lv_tick_index = 0, lv_finished = False,
          lv_failure = None\<rparr>)"

definition merge_diagnostics :: "DesyncDiagnostic option \<Rightarrow> DesyncDiagnostic option
    \<Rightarrow> DesyncDiagnostic option" where
  "merge_diagnostics a b =
     (case a of
        None \<Rightarrow> b
      | Some da \<Rightarrow>
          (case b of
             None \<Rightarrow> a
           | Some db \<Rightarrow>
               if \<not> frame_before (dd_earliest_divergent_frame db) (dd_earliest_divergent_frame da)
               then a else b))"

text \<open>The report of \<open>finalize\<close>, from the two sessions' reports.\<close>

definition make_report :: "BuildInfo \<Rightarrow> LiveScenario \<Rightarrow> bool \<Rightarrow> bool \<Rightarrow> RunReport" where
  "make_report build st verified desync =
     (let config = lv_config st; a = session_report (lv_peer_a st); b = session_report (lv_peer_b st);
          ma = sr_metrics a; mb = sr_metrics b;
          confirmed = (if frame_before (m_confirmed_frame ma) (m_confirmed_frame mb)
                       then m_confirmed_frame ma else m_confirmed_frame mb);
          success = (confirmed = sc_frame_count config \<and> sr_final_hash a = sr_final_hash b
            \<and> sr_final_hash a = rp_expected_final_hash (sa_replay (lv_artifacts st))
            \<and> verified \<and> \<not> desync)
      in (default_report build)
           \<lparr>rr_build_type := bi_build_type build, rr_compiler := bi_compiler build, rr_os := bi_os build,
            rr_scenario_seed := sc_scenario_seed config, rr_transport_seed := sc_transport_seed config,
            rr_frame_count := sc_frame_count config, rr_transport_config := lv_transport_config st,
            rr_transport_metrics := tr_metrics (lv_transport st),
            rr_rollback_count := ucast (m_rollback_count ma + m_rollback_count mb),
            rr_resimulated_frames := m_total_resimulated_frames ma + m_total_resimulated_frames mb,
            rr_maximum_rollback_depth := max (m_maximum_rollback_depth ma) (m_maximum_rollback_depth mb),
            rr_predicted_input_count := m_predicted_input_count ma + m_predicted_input_count mb,
            rr_late_input_count := m_late_input_count ma + m_late_input_count mb,
            rr_confirmed_frame := confirmed, rr_final_hash_a := sr_final_hash a,
            rr_final_hash_b := sr_final_hash b, rr_replay_verified := verified,
            rr_desync_result := (if desync then ''detected'' else ''none''), rr_success := success,
            rr_failure_reason :=
              (if success then ''''
               else if desync then ''confirmed state hash desync'' else ''peers did not converge'')\<rparr>)"

definition finalize :: "BuildInfo \<Rightarrow> LiveScenario \<Rightarrow> bool Result \<times> LiveScenario" where
  "finalize build st =
     (let (correction_a, a) = flush_corrections (lv_peer_a st);
          (correction_b, b) = flush_corrections (lv_peer_b st);
          st = st\<lparr>lv_peer_a := a, lv_peer_b := b\<rparr>
      in case (correction_a, correction_b) of
           (Inl e, _) \<Rightarrow> (Inl e, st)
         | (Inr _, Inl e) \<Rightarrow> (Inl e, st)
         | (Inr _, Inr _) \<Rightarrow>
             (let artifacts = lv_artifacts st;
                  replay_verified = verify_replay (sa_replay artifacts);
                  da = dt_diagnostic (lv_desync_a st); db = dt_diagnostic (lv_desync_b st);
                  desync = (da \<noteq> None \<or> db \<noteq> None);
                  report = make_report build st (ok replay_verified) desync;
                  st = st\<lparr>lv_artifacts := artifacts\<lparr>
                         sa_desync_diagnostic := (if desync then merge_diagnostics da db
                                                  else sa_desync_diagnostic artifacts),
                         sa_report := report\<rparr>\<rparr>
              in if desync then (Inr True, st)
                 else if \<not> rr_success report
                 then (failure (if rr_confirmed_frame report \<noteq> sc_frame_count (lv_config st)
                                then EC_timeout else EC_replay_mismatch)
                         (ucast (rr_confirmed_frame report)) 0 ''seeded_scenario'', st)
                 else (Inr True, st)))"

text \<open>
  Both peers send their packet, whatever becomes of the other one's, and the first error is
  reported; then the tick's deliveries are processed. The two branches of \<open>step_once\<close> that send
  do it this way.
\<close>

definition exchange_packets :: "LogicalTick \<Rightarrow> LiveScenario \<Rightarrow> unit Result \<times> LiveScenario" where
  "exchange_packets tick st =
     (let seed = sc_scenario_seed (lv_config st);
          packet_a = make_packet (lv_peer_a st) (lv_history_a st) seed (lv_sequence_a st);
          packet_b = make_packet (lv_peer_b st) (lv_history_b st) seed (lv_sequence_b st);
          st = st\<lparr>lv_sequence_a := lv_sequence_a st + 1, lv_sequence_b := lv_sequence_b st + 1\<rparr>;
          (sent_a, t, tx) =
            send_packet (capturing st) packet_a EP_a EP_b tick (lv_transport st) (trace_of st);
          (sent_b, t, tx) = send_packet (capturing st) packet_b EP_b EP_a tick t tx;
          st = set_trace tx (st\<lparr>lv_transport := t\<rparr>)
      in case (sent_a, sent_b) of
           (Inl e, _) \<Rightarrow> (Inl e, st)
         | (Inr _, Inl e) \<Rightarrow> (Inl e, st)
         | (Inr _, Inr _) \<Rightarrow> process_tick tick st)"

text \<open>The trace sample at the end of a played frame.\<close>

definition sample_frame :: "u32 \<Rightarrow> LiveScenario \<Rightarrow> LiveScenario" where
  "sample_frame frame st =
     (let tx = trace_of st; config = lv_config st in
      if capturing st \<and> ((frame + 1) mod tx_sample_interval tx = 0 \<or> frame + 1 = sc_frame_count config)
      then
        (let report = session_report (lv_peer_a st);
             state = sr_state report; confirmed = m_confirmed_frame (sr_metrics report)
         in if length (tx_frames tx) < kMaxTraceFrames
            then set_trace (tx\<lparr>tx_frames := tx_frames tx @
                   [\<lparr>tf_frame = ws_frame state, tf_state = state, tf_hash = sr_final_hash report,
                     tf_predicted = (confirmed \<noteq> ws_frame state), tf_confirmed_frame = confirmed\<rparr>]\<rparr>) st
            else set_trace (tx\<lparr>tx_omitted_frame_samples := tx_omitted_frame_samples tx + 1\<rparr>) st)
      else st)"

definition set_replay :: "Replay \<Rightarrow> LiveScenario \<Rightarrow> LiveScenario" where
  "set_replay r st = st\<lparr>lv_artifacts := (lv_artifacts st)\<lparr>sa_replay := r\<rparr>\<rparr>"

abbreviation replay_of :: "LiveScenario \<Rightarrow> Replay" where
  "replay_of st \<equiv> sa_replay (lv_artifacts st)"

text \<open>The end of a played frame: both sessions advance, whatever becomes of the other one.\<close>

definition advance_peers :: "u32 \<Rightarrow> InputFrame \<Rightarrow> InputFrame \<Rightarrow> LiveScenario
    \<Rightarrow> unit Result \<times> LiveScenario" where
  "advance_peers frame input_a input_b st =
     (let (advanced_a, a) = advance input_a (lv_peer_a st);
          (advanced_b, b) = advance input_b (lv_peer_b st);
          st = st\<lparr>lv_peer_a := a, lv_peer_b := b\<rparr>
      in case (advanced_a, advanced_b) of
           (Inl e, _) \<Rightarrow> (Inl e, st)
         | (Inr _, Inl e) \<Rightarrow> (Inl e, st)
         | (Inr _, Inr _) \<Rightarrow>
             (let st = sample_frame frame st
              in (Inr (),
                  if lv_tick_index st + 1 = sc_frame_count (lv_config st)
                  then set_replay ((replay_of st)\<lparr>rp_expected_final_hash :=
                         hash_canonical (lv_replay_state st)\<rparr>) st
                  else st)))"

definition play_frame :: "u8 option \<Rightarrow> LiveScenario \<Rightarrow> unit Result \<times> LiveScenario" where
  "play_frame local_buttons st =
     (let frame = lv_tick_index st; config = lv_config st;
          scripted_a = scripted_input (sc_scenario_seed config) frame PA;
          input_b = scripted_input (sc_scenario_seed config) frame PB;
          input_a = (case local_buttons of
                       Some buttons \<Rightarrow> scripted_a\<lparr>in_buttons := buttons\<rparr>
                     | None \<Rightarrow> scripted_a);
          pair = \<lparr>pair_a = input_a, pair_b = input_b\<rparr>;
          st = st\<lparr>lv_history_a := lv_history_a st @ [input_a],
                  lv_history_b := lv_history_b st @ [input_b]\<rparr>;
          st = set_replay ((replay_of st)\<lparr>rp_confirmed_inputs :=
                 rp_confirmed_inputs (replay_of st) @ [pair]\<rparr>) st
      in case simulate_frame (lv_replay_state st) frame pair variant_canonical of
           Inl e \<Rightarrow> (Inl e, st)
         | Inr direct \<Rightarrow>
             (let st = st\<lparr>lv_replay_state := direct\<rparr>;
                  st = set_replay (accumulate_checkpoint direct (frame + 1 = sc_frame_count config)
                         (replay_of st)) st
              in case exchange_packets frame st of
                   (Inl e, st) \<Rightarrow> (Inl e, st)
                 | (Inr _, st) \<Rightarrow> advance_peers frame input_a input_b st))"

definition tail_tick :: "LiveScenario \<Rightarrow> unit Result \<times> LiveScenario" where
  "tail_tick st =
     (let count = sc_frame_count (lv_config st); tail = lv_tick_index st - count
      in exchange_packets (count + tail) st)"

definition drain_tick :: "LiveScenario \<Rightarrow> unit Result \<times> LiveScenario" where
  "drain_tick st = process_tick (lv_tick_index st) st"

definition clear_performed :: "LiveScenario \<Rightarrow> LiveScenario" where
  "clear_performed st =
     (let a = lv_correction_a st; b = lv_correction_b st
      in st\<lparr>lv_correction_a := a\<lparr>lc_result := (lc_result a)\<lparr>cr_performed := False\<rparr>\<rparr>,
            lv_correction_b := b\<lparr>lc_result := (lc_result b)\<lparr>cr_performed := False\<rparr>\<rparr>\<rparr>)"

definition run_tick :: "u8 option \<Rightarrow> LiveScenario \<Rightarrow> unit Result \<times> LiveScenario" where
  "run_tick local_buttons st =
     (let config = lv_config st in
      if lv_tick_index st < sc_frame_count config then play_frame local_buttons st
      else if lv_tick_index st < sc_frame_count config + sc_tail_redundancy_ticks config
      then tail_tick st
      else drain_tick st)"

definition step_once :: "BuildInfo \<Rightarrow> u8 option \<Rightarrow> LiveScenario \<Rightarrow> bool Result \<times> LiveScenario" where
  "step_once build local_buttons st =
     (case run_tick local_buttons (clear_performed st) of
        (Inl e, st) \<Rightarrow> (Inl e, st)
      | (Inr _, st) \<Rightarrow>
          (let st = st\<lparr>lv_tick_index := lv_tick_index st + 1\<rparr>; config = lv_config st
           in if lv_tick_index st = sc_frame_count config + sc_tail_redundancy_ticks config + 32
              then finalize build st
              else (Inr False, st)))"

section \<open>The driver\<close>

definition create_live :: "BuildInfo \<Rightarrow> ScenarioRunConfig \<Rightarrow> bool \<Rightarrow> RollbackSession \<Rightarrow> RollbackSession
    \<Rightarrow> LiveScenario Result" where
  "create_live build config same_object a b =
     (if sc_frame_count config = 0 \<or> unat (sc_frame_count config) > kMaxReplayFrames
         \<or> sc_tail_redundancy_ticks config > - 1 - sc_frame_count config - 32
      then failure EC_invalid_argument (ucast (sc_frame_count config)) 0 ''scenario_frame_count''
      else if same_object \<or> sr_local_peer (session_report a) \<noteq> PA
         \<or> sr_local_peer (session_report b) \<noteq> PB
         \<or> sr_state (session_report a) \<noteq> make_initial_world
         \<or> sr_state (session_report b) \<noteq> make_initial_world
      then failure EC_invalid_argument 0 0 ''live_session_ownership''
      else Inr (make_storage build config a b))"

definition step_live :: "BuildInfo \<Rightarrow> u8 option \<Rightarrow> LiveScenario \<Rightarrow> bool Result \<times> LiveScenario" where
  "step_live build local_buttons st =
     (case lv_failure st of
        Some e \<Rightarrow> (Inl e, st)
      | None \<Rightarrow>
          if lv_finished st then (Inr True, st)
          else
            (case (case local_buttons of
                     Some buttons \<Rightarrow>
                       if buttons AND 0xE0 \<noteq> 0 then Some buttons else None
                   | None \<Rightarrow> None) of
               Some buttons \<Rightarrow> (failure EC_invalid_argument (ucast buttons) 0 ''live_buttons'', st)
             | None \<Rightarrow>
                 (case step_once build local_buttons st of
                    (Inl e, st) \<Rightarrow> (Inl e, st\<lparr>lv_failure := Some e\<rparr>)
                  | (Inr done, st) \<Rightarrow> (Inr done, st\<lparr>lv_finished := done\<rparr>))))"

definition logical_tick :: "LiveScenario \<Rightarrow> u32" where
  "logical_tick st = lv_tick_index st"

definition correction_of :: "PlayerId \<Rightarrow> LiveScenario \<Rightarrow> LiveCorrection" where
  "correction_of peer st = (if peer = PA then lv_correction_a st else lv_correction_b st)"

text \<open>The loop of \<open>run_seeded_scenario\<close>, with the number of steps still to make.\<close>

fun run_steps :: "BuildInfo \<Rightarrow> nat \<Rightarrow> LiveScenario \<Rightarrow> ScenarioArtifacts Result" where
  "run_steps build 0 st = failure EC_timeout (ucast (logical_tick st)) 0 ''live_runner''"
| "run_steps build (Suc n) st =
     (case step_live build None st of
        (Inl e, st) \<Rightarrow> Inl e
      | (Inr done, st) \<Rightarrow> if done then Inr (lv_artifacts st) else run_steps build n st)"

definition run_seeded_scenario :: "BuildInfo \<Rightarrow> ScenarioRunConfig \<Rightarrow> ScenarioArtifacts Result" where
  "run_seeded_scenario build config =
     (let peer_a = make_session (default_session_config PA);
          peer_b = make_session ((default_session_config PB)\<lparr>cfg_variant := sc_peer_b_variant config\<rparr>)
      in case create_live build config False peer_a peer_b of
           Inl e \<Rightarrow> Inl e
         | Inr st \<Rightarrow>
             run_steps build
               (unat (sc_frame_count config + sc_tail_redundancy_ticks config + 32)) st)"

end
