(* ===== verification/Peer.thy ===== *)
theory Peer
  imports UdpSocket Json Scenario
begin

text \<open>
  The peer of the game over UDP: \<open>udp/peer.hpp\<close>, \<open>src/udp/peer.cpp\<close>.

  \<open>PeerDriver\<close> is one record: the fields of its \<open>Impl\<close>, with the session that the driver borrows in
  its \<open>PeerRuntime\<close>. Every function that uses the socket takes the operating system and the state
  of the outside world and returns that state changed. An exception of the standard library (no memory
  left), which \<open>step\<close> turns into an \<open>internal_failure\<close>, is not modelled.
\<close>

section \<open>Data\<close>

record PeerConfig =
  pc_id :: PlayerId
  pc_listen_port :: u16
  pc_relay_port :: u16
  pc_scenario_seed :: u64
  pc_transport_seed :: u64
  pc_frame_count :: u32
  pc_protocol_version_override :: u16
  pc_simulation_version_override :: u32
  pc_simulation_variant :: SimulationVariant
  pc_handshake_timeout_milliseconds :: u32
  pc_run_timeout_milliseconds :: u32
  pc_report_path :: string
  pc_replay_path :: string
  pc_diagnostic_path :: string
  pc_engine_abi_version :: u32
  pc_advertised_abi_version :: u32

definition default_peer_config :: PeerConfig where
  "default_peer_config =
     \<lparr>pc_id = PA, pc_listen_port = 0, pc_relay_port = 0, pc_scenario_seed = 1, pc_transport_seed = 2,
      pc_frame_count = 120, pc_protocol_version_override = 1,
      pc_simulation_version_override = kSimulationVersion,
      pc_simulation_variant = variant_canonical, pc_handshake_timeout_milliseconds = 1000,
      pc_run_timeout_milliseconds = 4000, pc_report_path = '''', pc_replay_path = '''',
      pc_diagnostic_path = '''', pc_engine_abi_version = 0, pc_advertised_abi_version = 0\<rparr>"

datatype PeerPhase = PP_handshake | PP_running | PP_confirming | PP_finished | PP_failed

fun peer_phase_value :: "PeerPhase \<Rightarrow> nat" where
  "peer_phase_value PP_handshake = 0"
| "peer_phase_value PP_running = 1"
| "peer_phase_value PP_confirming = 2"
| "peer_phase_value PP_finished = 3"
| "peer_phase_value PP_failed = 4"

record PeerStep =
  pt_logical_tick :: u32
  pt_phase :: PeerPhase
  pt_handshake_complete :: bool

record PeerCorrection =
  pcr_result :: CorrectionResult
  pcr_before :: WorldState
  pcr_after :: WorldState

definition default_peer_correction :: PeerCorrection where
  "default_peer_correction =
     \<lparr>pcr_result = default_correction, pcr_before = default_world, pcr_after = default_world\<rparr>"

record PeerRuntime =
  pr_session :: RollbackSession
  pr_sequences :: SequenceWindow
  pr_desync :: DesyncTracker
  pr_local_history :: "InputFrame list"
  pr_remote_final_hash :: "StateHash option"
  pr_metrics :: TransportMetrics
  pr_next_sequence :: u32
  pr_correction :: PeerCorrection
  pr_diagnostic :: "DesyncDiagnostic option"

record PeerArtifacts =
  pa_report :: string
  pa_replay :: "byte list"

definition remote_id :: "PlayerId \<Rightarrow> PlayerId" where
  "remote_id p = (if p = PA then PB else PA)"

section \<open>The handshake\<close>

definition engine_profile :: string where "engine_profile = ''RollbackLab.engine-udp-v1''"

text \<open>The version an engine peer announces: an override for tests, or its own.\<close>

definition advertised_abi :: "PeerConfig \<Rightarrow> u32" where
  "advertised_abi config =
     (if pc_advertised_abi_version config \<noteq> 0 then pc_advertised_abi_version config
      else pc_engine_abi_version config)"

definition scenario_config_digest :: "PeerConfig \<Rightarrow> StateHash" where
  "scenario_config_digest config =
     (let bytes = [] :: ByteWriter;
          bytes = (if pc_engine_abi_version config \<noteq> 0
                   then append_little_endian (pc_transport_seed config)
                     (append_little_endian (pc_protocol_version_override config)
                       (append_little_endian (advertised_abi config)
                         (fold (\<lambda>c. append_little_endian (of_char c :: u8)) engine_profile bytes)))
                   else bytes)
      in fnv1a64
           (append_little_endian kProtocolVersion
             (append_little_endian (pc_simulation_version_override config)
               (append_little_endian (pc_frame_count config)
                 (append_little_endian (pc_scenario_seed config) bytes)))))"

text \<open>What a compatible peer announces: the true versions.\<close>

definition expected_config :: "PeerConfig \<Rightarrow> PeerConfig" where
  "expected_config config =
     config\<lparr>pc_simulation_version_override := kSimulationVersion,
            pc_protocol_version_override := ucast kProtocolVersion,
            pc_advertised_abi_version := pc_engine_abi_version config\<rparr>"

definition valid_hello :: "PeerConfig \<Rightarrow> Packet \<Rightarrow> unit Result" where
  "valid_hello config packet =
     (case pk_hello packet of
        None \<Rightarrow> failure EC_invalid_argument (pk_scenario_id packet) 0 ''udp_hello_identity''
      | Some hello \<Rightarrow>
          if pk_type packet \<noteq> pt_hello \<or> pk_sender packet \<noteq> remote_id (pc_id config)
             \<or> pk_scenario_id packet \<noteq> pc_scenario_seed config
          then failure EC_invalid_argument (pk_scenario_id packet) 0 ''udp_hello_identity''
          else if hi_simulation_version hello \<noteq> kSimulationVersion
          then failure EC_unsupported_version (ucast (hi_simulation_version hello)) 0
                 ''udp_simulation_version''
          else if hi_target_frame hello \<noteq> pc_frame_count config
             \<or> hi_scenario_config_digest hello \<noteq> scenario_config_digest (expected_config config)
          then failure EC_invalid_argument (hi_scenario_config_digest hello) 0
                 (if pc_engine_abi_version config \<noteq> 0 then ''udp_engine_profile''
                  else ''udp_scenario_config'')
          else Inr ())"

definition hello_packet :: "PeerConfig \<Rightarrow> Packet" where
  "hello_packet config =
     \<lparr>pk_protocol_version = ucast kProtocolVersion, pk_type = pt_hello, pk_sender = pc_id config,
      pk_sequence = 1, pk_ack = 0, pk_scenario_id = pc_scenario_seed config,
      pk_confirmed_frame = 0, pk_inputs = [], pk_confirmed_hashes = [],
      pk_hello = Some \<lparr>hi_simulation_version = pc_simulation_version_override config,
                       hi_scenario_config_digest = scenario_config_digest config,
                       hi_target_frame = pc_frame_count config\<rparr>\<rparr>"

text \<open>Another protocol version is patched into the bytes, with a new checksum.\<close>

definition patch_version :: "u16 \<Rightarrow> byte list \<Rightarrow> byte list" where
  "patch_version version bytes =
     (let bytes = bytes[4 := ucast (version AND 0xFF), 5 := ucast (drop_bit 8 version AND 0xFF)];
          n = length bytes - 4;
          checksum = crc32 (take n bytes)
      in fold (\<lambda>i bs. bs[n + i := ucast (drop_bit (i * 8) checksum AND 0xFF)]) [0..<4] bytes)"

definition encode_hello :: "PeerConfig \<Rightarrow> byte list Result" where
  "encode_hello config =
     (case encode_packet (hello_packet config) of
        Inl e \<Rightarrow> Inl e
      | Inr bytes \<Rightarrow>
          Inr (if ucast (pc_protocol_version_override config) \<noteq> kProtocolVersion
               then patch_version (pc_protocol_version_override config) bytes
               else bytes))"

section \<open>The exchange of inputs\<close>

definition input_window :: "InputFrame list \<Rightarrow> InputFrame list" where
  "input_window history =
     (let count = min (length history) kMaxRedundantInputs in drop (length history - count) history)"

definition confirmed_hash_window :: "RollbackSession \<Rightarrow> ConfirmedHash list" where
  "confirmed_hash_window session =
     rev (collect_hashes session (m_confirmed_frame (sr_metrics (session_report session)))
            [0..<kMaxConfirmedHashes])"

definition diagnostic_inputs :: "RollbackSession \<Rightarrow> FrameNumber \<Rightarrow> InputPair list" where
  "diagnostic_inputs session boundary = rev (collect_inputs session boundary [1..<33])"

definition input_packet :: "PeerConfig \<Rightarrow> PeerRuntime \<Rightarrow> Packet" where
  "input_packet config rt =
     (let confirmed = m_confirmed_frame (sr_metrics (session_report (pr_session rt))) in
      \<lparr>pk_protocol_version = ucast kProtocolVersion, pk_type = pt_input, pk_sender = pc_id config,
       pk_sequence = pr_next_sequence rt, pk_ack = confirmed,
       pk_scenario_id = pc_scenario_seed config, pk_confirmed_frame = confirmed,
       pk_inputs = input_window (pr_local_history rt),
       pk_confirmed_hashes = confirmed_hash_window (pr_session rt), pk_hello = None\<rparr>)"

definition send_inputs :: "'s Host \<Rightarrow> PeerConfig \<Rightarrow> UdpSocket \<Rightarrow> PeerRuntime \<Rightarrow> 's
    \<Rightarrow> unit Result \<times> PeerRuntime \<times> 's" where
  "send_inputs os config socket rt w =
     (let packet = input_packet config rt;
          rt = rt\<lparr>pr_next_sequence := pr_next_sequence rt + 1\<rparr>
      in case encode_packet packet of
           Inl e \<Rightarrow> (Inl e, rt, w)
         | Inr bytes \<Rightarrow>
             (let m = pr_metrics rt;
                  rt = rt\<lparr>pr_metrics := m\<lparr>tm_sent_packets := tm_sent_packets m + 1\<rparr>\<rparr>;
                  (sent, w) = send_loopback os socket (pc_relay_port config) bytes w
              in (sent, rt, w)))"

text \<open>The comparison of the remote peer's confirmed hashes with the session's own.\<close>

definition report_desync :: "ConfirmedHash \<Rightarrow> StateHash \<Rightarrow> WorldState \<Rightarrow> PeerRuntime
    \<Rightarrow> bool Result \<times> PeerRuntime" where
  "report_desync remote_hash local_hash local_state rt =
     (let (diagnostic, tracker) =
            observe_hashes
              \<lparr>ho_frame = ch_frame remote_hash, ho_hash = local_hash, ho_confirmed = True\<rparr>
              \<lparr>ho_frame = ch_frame remote_hash, ho_hash = ch_hash remote_hash, ho_confirmed = True\<rparr>
              (diagnostic_inputs (pr_session rt) (ch_frame remote_hash)) local_state (pr_desync rt);
          rt = rt\<lparr>pr_desync := tracker\<rparr>
      in if diagnostic = None
         then (failure EC_desync (ch_hash remote_hash) (unat (ch_frame remote_hash))
                 ''udp_desync_missing_diagnostic'', rt)
         else (failure EC_desync (ch_hash remote_hash) (unat (ch_frame remote_hash))
                 ''udp_confirmed_hash'', rt\<lparr>pr_diagnostic := diagnostic\<rparr>))"

fun check_hashes :: "PeerConfig \<Rightarrow> ConfirmedHash list \<Rightarrow> PeerRuntime \<Rightarrow> bool Result \<times> PeerRuntime" where
  "check_hashes config [] rt = (Inr True, rt)"
| "check_hashes config (remote_hash # hashes) rt =
     (case hash_at (pr_session rt) (ch_frame remote_hash) of
        Inl _ \<Rightarrow> check_hashes config hashes rt
      | Inr local_hash \<Rightarrow>
          if local_hash \<noteq> ch_hash remote_hash
          then (case state_at (pr_session rt) (ch_frame remote_hash) of
                  Inl e \<Rightarrow> (Inl e, rt)
                | Inr local_state \<Rightarrow> report_desync remote_hash local_hash local_state rt)
          else check_hashes config hashes
                 (if ch_frame remote_hash = pc_frame_count config
                  then rt\<lparr>pr_remote_final_hash := Some (ch_hash remote_hash)\<rparr> else rt))"

fun find_beyond_target :: "PeerConfig \<Rightarrow> InputFrame list \<Rightarrow> FrameNumber option" where
  "find_beyond_target config [] = None"
| "find_beyond_target config (x # xs) =
     (if pc_engine_abi_version config \<noteq> 0 \<and> in_frame x \<ge> pc_frame_count config
      then Some (in_frame x) else find_beyond_target config xs)"

text \<open>An input packet that the sequence window accepted.\<close>

definition accept_inputs :: "PeerConfig \<Rightarrow> Packet \<Rightarrow> PeerRuntime \<Rightarrow> bool Result \<times> PeerRuntime" where
  "accept_inputs config packet rt =
     (case find_beyond_target config (pk_inputs packet) of
        Some frame \<Rightarrow> (failure EC_frame_mismatch (ucast frame) 0 ''udp_input_target'', rt)
      | None \<Rightarrow>
          (let before = sr_state (session_report (pr_session rt)) in
           case ingest_all (pk_inputs packet) (pr_session rt) of
             (Inl e, s) \<Rightarrow> (Inl e, rt\<lparr>pr_session := s\<rparr>)
           | (Inr _, s) \<Rightarrow>
               (case flush_corrections s of
                  (Inl e, s) \<Rightarrow> (Inl e, rt\<lparr>pr_session := s\<rparr>)
                | (Inr corrected, s) \<Rightarrow>
                    (let rt = rt\<lparr>pr_session := s\<rparr>;
                         rt = (if cr_performed corrected
                               then rt\<lparr>pr_correction := \<lparr>pcr_result = corrected, pcr_before = before,
                                        pcr_after = sr_state (session_report s)\<rparr>\<rparr>
                               else rt)
                     in check_hashes config (pk_confirmed_hashes packet) rt))))"

definition accept_datagram :: "PeerConfig \<Rightarrow> Datagram \<Rightarrow> PeerRuntime \<Rightarrow> bool Result \<times> PeerRuntime" where
  "accept_datagram config datagram rt =
     (if pc_engine_abi_version config \<noteq> 0 \<and> dg_source_port datagram \<noteq> pc_relay_port config
      then (failure EC_invalid_argument (ucast (dg_source_port datagram)) 0 ''udp_relay_source'', rt)
      else
        (case decode_packet (dg_bytes datagram) of
           Inl e \<Rightarrow> (Inl e, rt)
         | Inr packet \<Rightarrow>
             if pk_sender packet \<noteq> remote_id (pc_id config)
                \<or> pk_scenario_id packet \<noteq> pc_scenario_seed config
             then (failure EC_invalid_argument (pk_scenario_id packet) 0 ''peer_packet_identity'', rt)
             else if pk_type packet = pt_hello
             then (case valid_hello config packet of
                     Inl e \<Rightarrow> (Inl e, rt)
                   | Inr _ \<Rightarrow> (Inr True, rt))
             else if pk_type packet \<noteq> pt_input
             then (failure EC_unknown_packet_type (ucast (pk_type packet)) 0 ''peer_packet_type'', rt)
             else
               (let (disposition, window) = observe (pk_sequence packet) (pr_sequences rt);
                    rt = rt\<lparr>pr_sequences := window\<rparr>
                in if disposition = SD_duplicate \<or> disposition = SD_stale then (Inr True, rt)
                   else
                     (let m = pr_metrics rt;
                          m = m\<lparr>tm_delivered_packets := tm_delivered_packets m + 1\<rparr>;
                          m = (if disposition = SD_out_of_order
                               then m\<lparr>tm_reordered_packets := tm_reordered_packets m + 1\<rparr> else m)
                      in accept_inputs config packet (rt\<lparr>pr_metrics := m\<rparr>)))))"

definition receive_one :: "'s Host \<Rightarrow> PeerConfig \<Rightarrow> UdpSocket \<Rightarrow> int \<Rightarrow> PeerRuntime \<Rightarrow> 's
    \<Rightarrow> bool Result \<times> PeerRuntime \<times> 's" where
  "receive_one os config socket timeout rt w =
     (case receive_for os socket timeout w of
        (Inl e, w) \<Rightarrow> (Inl e, rt, w)
      | (Inr None, w) \<Rightarrow> (Inr False, rt, w)
      | (Inr (Some datagram), w) \<Rightarrow>
          (case accept_datagram config datagram rt of (r, rt) \<Rightarrow> (r, rt, w)))"

text \<open>At most so many datagrams; the code allows 64.\<close>

fun drain :: "nat \<Rightarrow> 's Host \<Rightarrow> PeerConfig \<Rightarrow> UdpSocket \<Rightarrow> PeerRuntime \<Rightarrow> 's
    \<Rightarrow> unit Result \<times> PeerRuntime \<times> 's" where
  "drain 0 os config socket rt w = (Inr (), rt, w)"
| "drain (Suc n) os config socket rt w =
     (case receive_one os config socket 0 rt w of
        (Inl e, rt, w) \<Rightarrow> (Inl e, rt, w)
      | (Inr False, rt, w) \<Rightarrow> (Inr (), rt, w)
      | (Inr True, rt, w) \<Rightarrow> drain n os config socket rt w)"

definition drain_available :: "'s Host \<Rightarrow> PeerConfig \<Rightarrow> UdpSocket \<Rightarrow> PeerRuntime \<Rightarrow> 's
    \<Rightarrow> unit Result \<times> PeerRuntime \<times> 's" where
  "drain_available os config socket rt w = drain 64 os config socket rt w"

section \<open>The artifacts of a finished peer\<close>

text \<open>The loop of \<open>build_replay\<close> over the frames from the given one on.\<close>

fun record_frames :: "PeerConfig \<Rightarrow> RollbackSession \<Rightarrow> nat list \<Rightarrow> WorldState \<Rightarrow> Replay
    \<Rightarrow> (WorldState \<times> Replay) Result" where
  "record_frames config session [] state replay = Inr (state, replay)"
| "record_frames config session (i # frames) state replay =
     (let number = (of_nat i :: FrameNumber) in
      case (confirmed_input session PA number, confirmed_input session PB number) of
        (Inr a, Inr b) \<Rightarrow>
          (let replay = replay\<lparr>rp_confirmed_inputs := rp_confirmed_inputs replay @ [\<lparr>pair_a = a, pair_b = b\<rparr>]\<rparr>
           in case simulate_frame state number \<lparr>pair_a = a, pair_b = b\<rparr> variant_canonical of
                Inl e \<Rightarrow> Inl e
              | Inr state \<Rightarrow>
                  record_frames config session frames state
                    (if ws_frame state mod 30 = 0 \<or> ws_frame state = pc_frame_count config
                     then replay\<lparr>rp_checkpoints := rp_checkpoints replay @
                            [\<lparr>rc_frame = ws_frame state, rc_hash = hash_canonical state\<rparr>]\<rparr>
                     else replay))
      | _ \<Rightarrow> failure EC_stale_frame (of_nat i) 0 ''udp_replay_input'')"

definition build_replay :: "PeerConfig \<Rightarrow> RollbackSession \<Rightarrow> Replay Result" where
  "build_replay config session =
     (case record_frames config session [0..<unat (pc_frame_count config)] make_initial_world
             (default_replay\<lparr>rp_scenario_seed := pc_scenario_seed config,
                rp_transport_seed := pc_transport_seed config,
                rp_final_frame := pc_frame_count config\<rparr>) of
        Inl e \<Rightarrow> Inl e
      | Inr (state, replay) \<Rightarrow> Inr (replay\<lparr>rp_expected_final_hash := hash_canonical state\<rparr>))"

definition engine_identity_fields :: "PeerConfig \<Rightarrow> string" where
  "engine_identity_fields config =
     ''\"udp_profile\":\"engine-udp-v1\",\"abi_version\":'' @ dec_word (pc_engine_abi_version config)
      @ '',\"local_peer\":'' @ dec_word (player_value (pc_id config))
      @ '',\"listen_port\":'' @ dec_word (pc_listen_port config)
      @ '',\"relay_port\":'' @ dec_word (pc_relay_port config)
      @ '',\"advertised_protocol_version\":'' @ dec_word (pc_protocol_version_override config)
      @ '',\"advertised_simulation_version\":'' @ dec_word (pc_simulation_version_override config)
      @ '',\"advertised_abi_profile_version\":'' @ dec_word (advertised_abi config)
      @ '',\"advertised_config_digest\":'' @ dec_word (scenario_config_digest config)"

definition peer_report :: "BuildInfo \<Rightarrow> PeerConfig \<Rightarrow> PeerRuntime \<Rightarrow> RunReport" where
  "peer_report build config rt =
     (let session = session_report (pr_session rt);
          m = sr_metrics session;
          remote = (case pr_remote_final_hash rt of None \<Rightarrow> 0 | Some h \<Rightarrow> h);
          hash_a = (if pc_id config = PA then sr_final_hash session else remote);
          hash_b = (if pc_id config = PA then remote else sr_final_hash session);
          success = (pr_remote_final_hash rt \<noteq> None \<and> hash_a = hash_b
                     \<and> m_confirmed_frame m = pc_frame_count config)
      in (default_report build)
           \<lparr>rr_build_type := bi_build_type build, rr_compiler := bi_compiler build, rr_os := bi_os build,
            rr_scenario_seed := pc_scenario_seed config, rr_transport_seed := pc_transport_seed config,
            rr_frame_count := pc_frame_count config, rr_transport_metrics := pr_metrics rt,
            rr_rollback_count := ucast (m_rollback_count m),
            rr_resimulated_frames := m_total_resimulated_frames m,
            rr_maximum_rollback_depth := m_maximum_rollback_depth m,
            rr_predicted_input_count := m_predicted_input_count m,
            rr_late_input_count := m_late_input_count m,
            rr_confirmed_frame := m_confirmed_frame m,
            rr_final_hash_a := hash_a, rr_final_hash_b := hash_b, rr_replay_verified := True,
            rr_desync_result := ''none'', rr_success := success,
            rr_failure_reason := (if success then '''' else ''udp peer did not confirm final remote hash'')\<rparr>)"

definition build_peer_artifacts :: "BuildInfo \<Rightarrow> PeerConfig \<Rightarrow> PeerRuntime \<Rightarrow> PeerArtifacts Result" where
  "build_peer_artifacts build config rt =
     (case build_replay config (pr_session rt) of
        Inl e \<Rightarrow> Inl e
      | Inr replay \<Rightarrow>
          (case verify_replay replay of
             Inl e \<Rightarrow> Inl e
           | Inr _ \<Rightarrow>
               (case encode_replay replay of
                  Inl e \<Rightarrow> Inl e
                | Inr encoded \<Rightarrow>
                    (let session = session_report (pr_session rt);
                         report = peer_report build config rt;
                         json = report_json report
                     in if pc_engine_abi_version config \<noteq> 0
                           \<and> sr_final_hash session \<noteq> rp_expected_final_hash replay
                        then failure EC_replay_mismatch (sr_final_hash session)
                               (unat (pc_frame_count config)) ''udp_canonical_replay''
                        else if \<not> rr_success report
                        then failure EC_replay_mismatch (sr_final_hash session)
                               (unat (pc_frame_count config)) ''udp_peer_artifacts''
                        else Inr \<lparr>pa_report = (if pc_engine_abi_version config \<noteq> 0
                                    then ''{'' @ engine_identity_fields config @ '','' @ drop 1 json
                                    else json),
                                  pa_replay = encoded\<rparr>))))"

section \<open>The driver\<close>

record PeerDriver =
  pd_config :: PeerConfig
  pd_socket :: UdpSocket
  pd_runtime :: PeerRuntime
  pd_hello :: "byte list"
  pd_observation :: PeerStep
  pd_failure :: "Error option"
  pd_last_elapsed :: u64
  pd_run_started :: u64
  pd_final_drain_progress :: u32
  pd_artifacts :: PeerArtifacts

abbreviation pd_phase :: "PeerDriver \<Rightarrow> PeerPhase" where
  "pd_phase d \<equiv> pt_phase (pd_observation d)"

abbreviation pd_session :: "PeerDriver \<Rightarrow> RollbackSession" where
  "pd_session d \<equiv> pr_session (pd_runtime d)"

definition set_phase :: "PeerPhase \<Rightarrow> PeerDriver \<Rightarrow> PeerDriver" where
  "set_phase phase d = d\<lparr>pd_observation := (pd_observation d)\<lparr>pt_phase := phase\<rparr>\<rparr>"

definition make_driver :: "PeerConfig \<Rightarrow> UdpSocket \<Rightarrow> RollbackSession \<Rightarrow> byte list \<Rightarrow> PeerDriver" where
  "make_driver config socket session hello =
     \<lparr>pd_config = config\<lparr>pc_listen_port := local_port socket\<rparr>,
      pd_socket = socket,
      pd_runtime = \<lparr>pr_session = session, pr_sequences = make_sequence_window,
        pr_desync = make_desync_tracker (pc_scenario_seed config), pr_local_history = [],
        pr_remote_final_hash = None,
        pr_metrics = \<lparr>tm_sent_packets = 0, tm_delivered_packets = 0, tm_dropped_loss = 0,
          tm_dropped_overflow = 0, tm_dropped_age = 0, tm_duplicated_packets = 0,
          tm_reordered_packets = 0\<rparr>,
        pr_next_sequence = 2, pr_correction = default_peer_correction, pr_diagnostic = None\<rparr>,
      pd_hello = hello,
      pd_observation = \<lparr>pt_logical_tick = 0, pt_phase = PP_handshake, pt_handshake_complete = False\<rparr>,
      pd_failure = None, pd_last_elapsed = 0, pd_run_started = 0, pd_final_drain_progress = 0,
      pd_artifacts = \<lparr>pa_report = '''', pa_replay = []\<rparr>\<rparr>"

definition create_driver :: "'s Host \<Rightarrow> PeerConfig \<Rightarrow> RollbackSession \<Rightarrow> 's \<Rightarrow> PeerDriver Result \<times> 's" where
  "create_driver os config session w =
     (let report = session_report session;
          limit = (if pc_engine_abi_version config \<noteq> 0 then 240 else 256)
      in if pc_frame_count config = 0 \<or> pc_frame_count config > limit
            \<or> ws_frame (sr_state report) \<noteq> 0 \<or> sr_local_peer report \<noteq> pc_id config
         then (failure EC_invalid_argument (ucast (pc_frame_count config)) 0 ''udp_driver_config'', w)
         else
           (case bind_loopback os (pc_listen_port config) w of
              (Inl e, w) \<Rightarrow> (Inl e, w)
            | (Inr socket, w) \<Rightarrow>
                (case encode_hello config of
                   Inl e \<Rightarrow> (Inl e, (case socket of None \<Rightarrow> w | Some impl \<Rightarrow> os_close os (si_socket impl) w))
                 | Inr hello \<Rightarrow> (Inr (make_driver config socket session hello), w))))"

definition driver_fail :: "Error \<Rightarrow> PeerDriver \<Rightarrow> PeerStep Result \<times> PeerDriver" where
  "driver_fail e d = (Inl e, set_phase PP_failed (d\<lparr>pd_failure := Some e\<rparr>))"

section \<open>Steps\<close>

text \<open>
  The three phases of \<open>step\<close> in which something happens. Each returns an error, which \<open>step\<close> makes
  sticky, or the driver after the phase.
\<close>

definition handshake_step :: "'s Host \<Rightarrow> u64 \<Rightarrow> PeerDriver \<Rightarrow> 's \<Rightarrow> unit Result \<times> PeerDriver \<times> 's" where
  "handshake_step os elapsed d w =
     (let config = pd_config d in
      if elapsed \<ge> ucast (pc_handshake_timeout_milliseconds config)
      then (failure EC_timeout elapsed 0 ''peer_handshake'', d, w)
      else
        (case send_loopback os (pd_socket d) (pc_relay_port config) (pd_hello d) w of
           (Inl e, w) \<Rightarrow> (Inl e, d, w)
         | (Inr _, w) \<Rightarrow>
             (case receive_for os (pd_socket d) 0 w of
                (Inl e, w) \<Rightarrow> (Inl e, d, w)
              | (Inr None, w) \<Rightarrow> (Inr (), d, w)
              | (Inr (Some datagram), w) \<Rightarrow>
                  if pc_engine_abi_version config \<noteq> 0 \<and> dg_source_port datagram \<noteq> pc_relay_port config
                  then (failure EC_invalid_argument (ucast (dg_source_port datagram)) 0
                          ''udp_relay_source'', d, w)
                  else
                    (case decode_packet (dg_bytes datagram) of
                       Inl e \<Rightarrow> (Inl e, d, w)
                     | Inr packet \<Rightarrow>
                         (case valid_hello config packet of
                            Inl e \<Rightarrow> (Inl e, d, w)
                          | Inr _ \<Rightarrow>
                              (case send_loopback os (pd_socket d) (pc_relay_port config) (pd_hello d) w of
                                 (Inl e, w) \<Rightarrow> (Inl e, d, w)
                               | (Inr _, w) \<Rightarrow>
                                   (Inr (), d\<lparr>pd_observation := (pd_observation d)
                                                \<lparr>pt_phase := PP_running, pt_handshake_complete := True\<rparr>,
                                              pd_run_started := elapsed\<rparr>, w)))))))"

definition running_step :: "'s Host \<Rightarrow> PeerDriver \<Rightarrow> 's \<Rightarrow> unit Result \<times> PeerDriver \<times> 's" where
  "running_step os d w =
     (let config = pd_config d in
      case drain_available os config (pd_socket d) (pd_runtime d) w of
        (Inl e, rt, w) \<Rightarrow> (Inl e, d\<lparr>pd_runtime := rt\<rparr>, w)
      | (Inr _, rt, w) \<Rightarrow>
          (let local = scripted_input (pc_scenario_seed config)
                         (ws_frame (sr_state (session_report (pr_session rt)))) (pc_id config);
               rt = rt\<lparr>pr_local_history := pr_local_history rt @ [local]\<rparr>
           in case advance local (pr_session rt) of
                (Inl e, s) \<Rightarrow> (Inl e, d\<lparr>pd_runtime := rt\<lparr>pr_session := s\<rparr>\<rparr>, w)
              | (Inr _, s) \<Rightarrow>
                  (case send_inputs os config (pd_socket d) (rt\<lparr>pr_session := s\<rparr>) w of
                     (Inl e, rt, w) \<Rightarrow> (Inl e, d\<lparr>pd_runtime := rt\<rparr>, w)
                   | (Inr _, rt, w) \<Rightarrow>
                       (let d = d\<lparr>pd_runtime := rt\<rparr> in
                        (Inr (), if ws_frame (sr_state (session_report (pr_session rt))) = pc_frame_count config
                                 then set_phase PP_confirming d else d, w)))))"

definition final_drain_target :: u32 where "final_drain_target = 16"

definition confirming_step :: "BuildInfo \<Rightarrow> 's Host \<Rightarrow> PeerDriver \<Rightarrow> 's
    \<Rightarrow> unit Result \<times> PeerDriver \<times> 's" where
  "confirming_step build os d w =
     (let config = pd_config d in
      case send_inputs os config (pd_socket d) (pd_runtime d) w of
        (Inl e, rt, w) \<Rightarrow> (Inl e, d\<lparr>pd_runtime := rt\<rparr>, w)
      | (Inr _, rt, w) \<Rightarrow>
          (case drain_available os config (pd_socket d) rt w of
             (Inl e, rt, w) \<Rightarrow> (Inl e, d\<lparr>pd_runtime := rt\<rparr>, w)
           | (Inr _, rt, w) \<Rightarrow>
               (let d = d\<lparr>pd_runtime := rt\<rparr>;
                    report = session_report (pr_session rt)
                in if m_confirmed_frame (sr_metrics report) = pc_frame_count config
                      \<and> pr_remote_final_hash rt \<noteq> None
                   then
                     (let d = d\<lparr>pd_final_drain_progress := pd_final_drain_progress d + 1\<rparr> in
                      if pd_final_drain_progress d \<ge> final_drain_target
                      then (case build_peer_artifacts build config rt of
                              Inl e \<Rightarrow> (Inl e, d, w)
                            | Inr artifacts \<Rightarrow>
                                (Inr (), set_phase PP_finished (d\<lparr>pd_artifacts := artifacts\<rparr>), w))
                      else (Inr (), d, w))
                   else (Inr (), d\<lparr>pd_final_drain_progress := 0\<rparr>, w))))"

definition phase_step :: "BuildInfo \<Rightarrow> 's Host \<Rightarrow> u64 \<Rightarrow> PeerDriver \<Rightarrow> 's
    \<Rightarrow> unit Result \<times> PeerDriver \<times> 's" where
  "phase_step build os elapsed d w =
     (if pd_phase d = PP_handshake then handshake_step os elapsed d w
      else if elapsed - pd_run_started d \<ge> ucast (pc_run_timeout_milliseconds (pd_config d))
      then (failure EC_timeout (ucast (ws_frame (sr_state (session_report (pd_session d))))) 0
              ''udp_peer_run'', d, w)
      else if pd_phase d = PP_running then running_step os d w
      else confirming_step build os d w)"

definition peer_step :: "BuildInfo \<Rightarrow> 's Host \<Rightarrow> u64 \<Rightarrow> PeerDriver \<Rightarrow> 's
    \<Rightarrow> PeerStep Result \<times> PeerDriver \<times> 's" where
  "peer_step build os elapsed d w =
     (case pd_failure d of
        Some e \<Rightarrow> (Inl e, d, w)
      | None \<Rightarrow>
          if pd_phase d = PP_finished then (Inr (pd_observation d), d, w)
          else if elapsed < pd_last_elapsed d
          then (failure EC_invalid_argument elapsed 0 ''udp_clock_reversed'', d, w)
          else
            (let d = d\<lparr>pd_last_elapsed := elapsed,
                       pd_runtime := (pd_runtime d)\<lparr>pr_correction := default_peer_correction\<rparr>\<rparr>
             in case phase_step build os elapsed d w of
                  (Inl e, d, w) \<Rightarrow> (case driver_fail e d of (r, d) \<Rightarrow> (r, d, w))
                | (Inr _, d, w) \<Rightarrow>
                    (let obs = (pd_observation d)
                           \<lparr>pt_logical_tick := pt_logical_tick (pd_observation d) + 1\<rparr>
                     in (Inr obs, d\<lparr>pd_observation := obs\<rparr>, w))))"

section \<open>What the driver shows\<close>

definition peer_diagnostic_json :: "PeerDriver \<Rightarrow> string" where
  "peer_diagnostic_json d =
     (case pr_diagnostic (pd_runtime d) of Some dd \<Rightarrow> diagnostic_json dd | None \<Rightarrow> ''null'')"

definition failure_json :: "BuildInfo \<Rightarrow> PeerDriver \<Rightarrow> string" where
  "failure_json build d =
     (let config = pd_config d;
          error = (case pd_failure d of Some e \<Rightarrow> e | None \<Rightarrow> mk_error EC_none 0 0 ''none'')
      in ''{'' @ engine_identity_fields config @ '',\"schema_version\":1,\"profile\":\"''
         @ (if pc_engine_abi_version config \<noteq> 0 then ''engine-udp-v1'' else ''legacy-udp-v1'')
         @ ''\",\"source_git_sha\":\"'' @ bi_git_sha build
         @ ''\",\"expected_abi_version\":'' @ dec_word (pc_engine_abi_version config)
         @ '',\"protocol_version\":'' @ dec_word kProtocolVersion
         @ '',\"simulation_version\":'' @ dec_word kSimulationVersion
         @ '',\"scenario_seed\":'' @ dec_word (pc_scenario_seed config)
         @ '',\"transport_seed\":'' @ dec_word (pc_transport_seed config)
         @ '',\"target_frame\":'' @ dec_word (pc_frame_count config)
         @ '',\"phase\":'' @ dec (peer_phase_value (pd_phase d))
         @ '',\"handshake_complete\":'' @ json_bool (pt_handshake_complete (pd_observation d))
         @ '',\"error_code\":'' @ dec_word (error_code_value (err_code error))
         @ '',\"detail\":'' @ dec_word (err_detail error) @ '',\"offset\":'' @ dec (err_offset error)
         @ '',\"context\":\"'' @ err_context error @ ''\",\"diagnostic\":''
         @ peer_diagnostic_json d @ ''}'' @ nl)"

section \<open>The program\<close>

text \<open>
  The loop of \<open>run_peer\<close>. It writes a diagnostic when the peers disagree and the two
  artifacts when it finishes.
\<close>

definition write_artifacts :: "'s Host \<Rightarrow> PeerDriver \<Rightarrow> 's \<Rightarrow> int Result \<times> 's" where
  "write_artifacts os d w =
     (let (report_good, w) = write_stream os (pc_report_path (pd_config d))
                               (map of_char (pa_report (pd_artifacts d))) w;
          (replay_good, w) = write_stream os (pc_replay_path (pd_config d))
                               (pa_replay (pd_artifacts d)) w
      in if \<not> report_good \<or> \<not> replay_good then (failure EC_io_error 0 0 ''udp_peer_artifacts'', w)
         else (Inr 0, w))"

definition write_failure :: "'s Host \<Rightarrow> PeerDriver \<Rightarrow> Error \<Rightarrow> 's \<Rightarrow> int Result \<times> 's" where
  "write_failure os d e w =
     (if err_code e = EC_desync
      then (let (good, w) = write_stream os (pc_diagnostic_path (pd_config d))
                              (map of_char (peer_diagnostic_json d)) w
            in if good then (Inl e, w) else (failure EC_io_error 0 0 ''udp_desync_file'', w))
      else (Inl e, w))"

partial_function (option) peer_loop :: "BuildInfo \<Rightarrow> 's Host \<Rightarrow> u64 \<Rightarrow> PeerDriver \<Rightarrow> 's
    \<Rightarrow> (int Result \<times> 's) option" where
  "peer_loop build os start d w =
     (case peer_step build os (os_now os w - start) d w of
        (Inl e, d, w) \<Rightarrow> Some (write_failure os d e w)
      | (Inr step, d, w) \<Rightarrow>
          if pt_phase step = PP_finished then Some (write_artifacts os d w)
          else peer_loop build os start d
                 (os_sleep os (if pt_phase step = PP_handshake then 10 else 2) w))"

definition run_peer :: "BuildInfo \<Rightarrow> 's Host \<Rightarrow> PeerConfig \<Rightarrow> 's \<Rightarrow> (int Result \<times> 's) option" where
  "run_peer build os config w =
     (let session = make_session ((default_session_config (pc_id config))
                      \<lparr>cfg_variant := pc_simulation_variant config\<rparr>)
      in case create_driver os config session w of
           (Inl e, w) \<Rightarrow> Some (Inl e, w)
         | (Inr d, w) \<Rightarrow> peer_loop build os (os_now os w) d w)"

end
