(* ===== verification/MemoryHost.thy ===== *)
theory MemoryHost
  imports UdpSocket
begin

text \<open>
  A loopback network in memory, an instance of the parameter \<open>Host\<close>: one queue of datagrams per port, in
  the order they were sent, nothing lost. Which port a handle is bound to is a parameter of \<open>queue_host\<close>, and in
  \<open>memory_host\<close> the one of its own number; the
  clock only moves while the program sleeps and stops at \<open>2 ^ 63\<close>. The theorems about the
  network are instantiated with \<open>memory_host\<close>; every host that keeps such queues behaves as \<open>queue_host\<close> does (\<open>LosslessHost\<close>).
\<close>

record Memory =
  me_clock :: u64
  me_next_handle :: int
  me_inbox :: "u16 \<Rightarrow> (byte list \<times> u16) list"

definition handle_port :: "int \<Rightarrow> u16" where "handle_port h = word_of_int h"

definition empty_memory :: Memory where
  "empty_memory = \<lparr>me_clock = 0, me_next_handle = 1, me_inbox = (\<lambda>_. [])\<rparr>"

definition queue_host :: "(int \<Rightarrow> u16) \<Rightarrow> Memory Host" where
  "queue_host port =
     \<lparr>os_socket = (\<lambda>w. (me_next_handle w, w\<lparr>me_next_handle := me_next_handle w + 1\<rparr>)),
      os_bind = (\<lambda>h p w. (0, w)),
      os_getsockname = (\<lambda>h w. ((0, port h), w)),
      os_close = (\<lambda>h w. w),
      os_errno = (\<lambda>w. 0),
      os_sendto = (\<lambda>h dst bytes w. (int (length bytes),
        w\<lparr>me_inbox := (me_inbox w)(dst := me_inbox w dst @ [(bytes, port h)])\<rparr>)),
      os_select = (\<lambda>h s u w. (if me_inbox w (port h) = [] then 0 else 1, w)),
      os_recvfrom = (\<lambda>h n w. case me_inbox w (port h) of
          [] \<Rightarrow> (None, w)
        | x # xs \<Rightarrow> (Some x, w\<lparr>me_inbox := (me_inbox w)(port h := xs)\<rparr>)),
      os_now = me_clock,
      os_sleep = (\<lambda>n w. w\<lparr>me_clock := of_nat (min (unat (me_clock w) + n) (2 ^ 63))\<rparr>),
      os_open = (\<lambda>p w. (True, w)),
      os_write = (\<lambda>p bytes w. (True, w))\<rparr>"

abbreviation memory_host :: "Memory Host" where "memory_host \<equiv> queue_host handle_port"

lemma queue_host_simps [simp]:
  "os_socket (queue_host port) w = (me_next_handle w, w\<lparr>me_next_handle := me_next_handle w + 1\<rparr>)"
  "os_bind (queue_host port) h p w = (0, w)"
  "os_getsockname (queue_host port) h w = ((0, port h), w)"
  "os_close (queue_host port) h w = w"
  "os_errno (queue_host port) w = 0"
  "os_sendto (queue_host port) h dst bytes w = (int (length bytes),
     w\<lparr>me_inbox := (me_inbox w)(dst := me_inbox w dst @ [(bytes, port h)])\<rparr>)"
  "os_select (queue_host port) h s u w = (if me_inbox w (port h) = [] then 0 else 1, w)"
  "os_recvfrom (queue_host port) h n w = (case me_inbox w (port h) of
      [] \<Rightarrow> (None, w)
    | x # xs \<Rightarrow> (Some x, w\<lparr>me_inbox := (me_inbox w)(port h := xs)\<rparr>))"
  "os_now (queue_host port) w = me_clock w"
  "os_sleep (queue_host port) n w = w\<lparr>me_clock := of_nat (min (unat (me_clock w) + n) (2 ^ 63))\<rparr>"
  "os_open (queue_host port) path w = (True, w)"
  "os_write (queue_host port) path bytes w = (True, w)"
  by (simp_all add: queue_host_def)

text \<open>The socket functions on this host.\<close>

lemma memory_bind:
  "bind_loopback (queue_host port) p w =
     (if me_next_handle w = -1 then (failure EC_io_error 0 0 ''socket'', w\<lparr>me_next_handle := 0\<rparr>)
      else (Inr (Some \<lparr>si_socket = me_next_handle w, si_port = port (me_next_handle w)\<rparr>),
            w\<lparr>me_next_handle := me_next_handle w + 1\<rparr>))"
  by (simp add: bind_loopback_def invalid_socket_def)

lemma memory_send:
  "length bytes \<le> max_datagram_bytes \<Longrightarrow> send_loopback (queue_host port) (Some s) dst bytes w =
     (Inr (), w\<lparr>me_inbox := (me_inbox w)(dst := me_inbox w dst @ [(bytes, port (si_socket s))])\<rparr>)"
  by (simp add: send_loopback_def)

lemma memory_receive:
  "0 \<le> t \<Longrightarrow> receive_for (queue_host port) (Some s) t w =
     (case me_inbox w (port (si_socket s)) of
        [] \<Rightarrow> (Inr None, w)
      | (bytes, src) # xs \<Rightarrow> (Inr (Some \<lparr>dg_bytes = bytes, dg_source_port = src\<rparr>),
          w\<lparr>me_inbox := (me_inbox w)(port (si_socket s) := xs)\<rparr>))"
  by (simp add: receive_for_def split: list.splits)

end
