(* ===== verification/PeerMachine.thy ===== *)
theory PeerMachine
  imports Peer MemoryHost
begin

text \<open>
  The state machine of the UDP peer's driver, its handshake, and the termination of its program.
  Nothing is assumed about the other peer or the network.
\<close>

section \<open>The state machine of the driver\<close>

lemma set_phase_simps [simp]:
  "pd_config (set_phase ph d) = pd_config d" "pd_socket (set_phase ph d) = pd_socket d"
  "pd_runtime (set_phase ph d) = pd_runtime d" "pd_hello (set_phase ph d) = pd_hello d"
  "pd_failure (set_phase ph d) = pd_failure d" "pd_artifacts (set_phase ph d) = pd_artifacts d"
  "pd_last_elapsed (set_phase ph d) = pd_last_elapsed d" "pd_run_started (set_phase ph d) = pd_run_started d"
  "pd_final_drain_progress (set_phase ph d) = pd_final_drain_progress d"
  "pd_phase (set_phase ph d) = ph"
  "pt_logical_tick (pd_observation (set_phase ph d)) = pt_logical_tick (pd_observation d)"
  "pt_handshake_complete (pd_observation (set_phase ph d)) = pt_handshake_complete (pd_observation d)"
  by (simp_all add: set_phase_def)

definition phase_edge :: "PeerPhase \<Rightarrow> PeerPhase \<Rightarrow> bool" where
  "phase_edge p q \<longleftrightarrow> p = q
     \<or> (p, q) \<in> {(PP_handshake, PP_running), (PP_running, PP_confirming), (PP_confirming, PP_finished)}"

lemma handshake_edge:
  "handshake_step os t d w = (r, d', w') \<Longrightarrow> pd_phase d = PP_handshake
     \<Longrightarrow> phase_edge (pd_phase d) (pd_phase d') \<and> pd_failure d' = pd_failure d
       \<and> pd_last_elapsed d' = pd_last_elapsed d \<and> pd_config d' = pd_config d
       \<and> pt_logical_tick (pd_observation d') = pt_logical_tick (pd_observation d)
       \<and> (pd_run_started d' = pd_run_started d \<or> pd_run_started d' = t)
       \<and> (pd_phase d' = PP_running \<longrightarrow> t < ucast (pc_handshake_timeout_milliseconds (pd_config d))
            \<and> pd_run_started d' = t)"
  by (auto simp: handshake_step_def Let_def phase_edge_def mk_error_def
      split: if_splits sum.splits option.splits prod.splits)

lemma running_edge:
  "running_step os d w = (r, d', w') \<Longrightarrow> pd_phase d = PP_running
     \<Longrightarrow> phase_edge (pd_phase d) (pd_phase d') \<and> pd_failure d' = pd_failure d
       \<and> pd_last_elapsed d' = pd_last_elapsed d \<and> pd_config d' = pd_config d
       \<and> pt_logical_tick (pd_observation d') = pt_logical_tick (pd_observation d)
       \<and> pd_run_started d' = pd_run_started d"
  by (auto simp: running_step_def Let_def phase_edge_def
      split: if_splits sum.splits option.splits prod.splits)

lemma confirming_edge:
  "confirming_step build os d w = (r, d', w') \<Longrightarrow> pd_phase d = PP_confirming
     \<Longrightarrow> phase_edge (pd_phase d) (pd_phase d') \<and> pd_failure d' = pd_failure d
       \<and> pd_last_elapsed d' = pd_last_elapsed d \<and> pd_config d' = pd_config d
       \<and> pt_logical_tick (pd_observation d') = pt_logical_tick (pd_observation d)
       \<and> pd_run_started d' = pd_run_started d"
  by (auto simp: confirming_step_def Let_def phase_edge_def
      split: if_splits sum.splits option.splits prod.splits)

lemma phase_step_edge:
  assumes "phase_step build os t d w = (r, d', w')" "pd_phase d \<noteq> PP_failed" "pd_phase d \<noteq> PP_finished"
  shows "phase_edge (pd_phase d) (pd_phase d') \<and> pd_failure d' = pd_failure d
    \<and> pd_last_elapsed d' = pd_last_elapsed d \<and> pd_config d' = pd_config d
    \<and> pt_logical_tick (pd_observation d') = pt_logical_tick (pd_observation d)
    \<and> (\<forall>u. r = Inr u \<longrightarrow> pd_phase d' = PP_handshake \<longrightarrow>
         t < ucast (pc_handshake_timeout_milliseconds (pd_config d)))
    \<and> (\<forall>u. r = Inr u \<longrightarrow> pd_phase d \<noteq> PP_handshake \<longrightarrow>
         t - pd_run_started d < ucast (pc_run_timeout_milliseconds (pd_config d)))
    \<and> (if pd_phase d = PP_handshake \<and> pd_phase d' \<noteq> PP_handshake
       then pd_run_started d' = t \<and> t < ucast (pc_handshake_timeout_milliseconds (pd_config d))
       else pd_phase d \<noteq> PP_handshake \<longrightarrow> pd_run_started d' = pd_run_started d)"
proof (cases "pd_phase d")
  case PP_handshake
  have "t < ucast (pc_handshake_timeout_milliseconds (pd_config d))" if "r = Inr u" for u
    using assms(1) PP_handshake that
    by (auto simp: phase_step_def handshake_step_def Let_def split: if_splits)
  with handshake_edge [of os t d w r d' w'] assms(1) PP_handshake show ?thesis
    by (auto simp: phase_step_def phase_edge_def)
next
  case PP_running
  then show ?thesis using assms(1) running_edge [of os d w r d' w']
    by (auto simp: phase_step_def phase_edge_def not_le split: if_splits)
next
  case PP_confirming
  then show ?thesis using assms(1) confirming_edge [of build os d w r d' w']
    by (auto simp: phase_step_def phase_edge_def not_le split: if_splits)
qed (use assms in simp_all)

text \<open>A step that is neither over nor refused.\<close>

lemma peer_step_run:
  assumes "pd_failure d = None" "pd_phase d \<noteq> PP_finished" "\<not> t < pd_last_elapsed d"
    and "phase_step build os t (d\<lparr>pd_last_elapsed := t,
      pd_runtime := (pd_runtime d)\<lparr>pr_correction := default_peer_correction\<rparr>\<rparr>) w = (q, d2, w2)"
  shows "peer_step build os t d w = (case q of
      Inl e \<Rightarrow> (Inl e, set_phase PP_failed (d2\<lparr>pd_failure := Some e\<rparr>), w2)
    | Inr _ \<Rightarrow> (let obs = (pd_observation d2)\<lparr>pt_logical_tick := pt_logical_tick (pd_observation d2) + 1\<rparr>
               in (Inr obs, d2\<lparr>pd_observation := obs\<rparr>, w2)))"
  using assms by (cases q) (simp_all add: peer_step_def driver_fail_def Let_def)

lemma peer_step_cases:
  assumes "pd_failure d \<noteq> None \<longleftrightarrow> pd_phase d = PP_failed" "peer_step build os t d w = (r, d', w')"
  shows "pd_failure d \<noteq> None \<and> r = Inl (the (pd_failure d)) \<and> d' = d \<and> w' = w
    \<or> pd_failure d = None \<and> pd_phase d = PP_finished \<and> r = Inr (pd_observation d) \<and> d' = d \<and> w' = w
    \<or> pd_failure d = None \<and> pd_phase d \<noteq> PP_finished \<and> t < pd_last_elapsed d
        \<and> (\<exists>e. r = Inl e \<and> err_code e = EC_invalid_argument) \<and> d' = d \<and> w' = w
    \<or> pd_failure d = None \<and> pd_phase d \<noteq> PP_finished \<and> \<not> t < pd_last_elapsed d \<and> pd_last_elapsed d' = t
        \<and> pd_config d' = pd_config d
        \<and> (case r of
             Inl e \<Rightarrow> pd_failure d' = Some e \<and> pd_phase d' = PP_failed
           | Inr obs \<Rightarrow> pd_failure d' = None \<and> obs = pd_observation d' \<and> phase_edge (pd_phase d) (pd_phase d')
               \<and> pt_logical_tick obs = pt_logical_tick (pd_observation d) + 1
               \<and> (if pd_phase d = PP_handshake
                  then t < ucast (pc_handshake_timeout_milliseconds (pd_config d)) \<or> pd_phase d' \<noteq> PP_handshake
                  else t - pd_run_started d < ucast (pc_run_timeout_milliseconds (pd_config d)))
               \<and> (if pd_phase d = PP_handshake \<and> pd_phase d' \<noteq> PP_handshake
                  then pd_run_started d' = t \<and> t < ucast (pc_handshake_timeout_milliseconds (pd_config d))
                  else pd_phase d \<noteq> PP_handshake \<longrightarrow> pd_run_started d' = pd_run_started d))"
proof (cases "pd_failure d \<noteq> None \<or> pd_phase d = PP_finished \<or> t < pd_last_elapsed d")
  case True
  then show ?thesis using assms
    by (auto simp: peer_step_def mk_error_def split: option.splits if_splits)
next
  case False
  let ?d = "d\<lparr>pd_last_elapsed := t,
      pd_runtime := (pd_runtime d)\<lparr>pr_correction := default_peer_correction\<rparr>\<rparr>"
  have live: "pd_failure d = None" "pd_phase d \<noteq> PP_failed" "pd_phase d \<noteq> PP_finished" "\<not> t < pd_last_elapsed d"
    using False assms(1) by auto
  obtain q d2 w2 where q: "phase_step build os t ?d w = (q, d2, w2)" by (cases "phase_step build os t ?d w")
  from phase_step_edge [OF q] live have e: "phase_edge (pd_phase d) (pd_phase d2)" "pd_failure d2 = None"
    "pd_last_elapsed d2 = t" "pd_config d2 = pd_config d"
    "pt_logical_tick (pd_observation d2) = pt_logical_tick (pd_observation d)"
    "\<forall>u. q = Inr u \<longrightarrow> pd_phase d2 = PP_handshake \<longrightarrow>
         t < ucast (pc_handshake_timeout_milliseconds (pd_config d))"
    "\<forall>u. q = Inr u \<longrightarrow> pd_phase d \<noteq> PP_handshake \<longrightarrow>
         t - pd_run_started d < ucast (pc_run_timeout_milliseconds (pd_config d))"
    "if pd_phase d = PP_handshake \<and> pd_phase d2 \<noteq> PP_handshake
       then pd_run_started d2 = t \<and> t < ucast (pc_handshake_timeout_milliseconds (pd_config d))
       else pd_phase d \<noteq> PP_handshake \<longrightarrow> pd_run_started d2 = pd_run_started d"
    by (simp_all cong: if_cong)
  note run = peer_step_run [OF live(1,3,4) q]
  show ?thesis
  proof (cases q)
    case (Inl x)
    then have "r = Inl x" "d' = set_phase PP_failed (d2\<lparr>pd_failure := Some x\<rparr>)" using assms(2) run by simp_all
    then show ?thesis using live e by simp
  next
    case (Inr u)
    define obs where "obs = (pd_observation d2)\<lparr>pt_logical_tick := pt_logical_tick (pd_observation d2) + 1\<rparr>"
    have "r = Inr obs" "d' = d2\<lparr>pd_observation := obs\<rparr>" "pt_phase obs = pd_phase d2"
      "pt_logical_tick obs = pt_logical_tick (pd_observation d) + 1"
      using assms(2) run Inr e(5) by (simp_all add: obs_def Let_def)
    then show ?thesis using live e Inr by auto
  qed
qed

text \<open>The time for the phase is over.\<close>

definition out_of_time :: "u64 \<Rightarrow> PeerDriver \<Rightarrow> bool" where
  "out_of_time t d \<longleftrightarrow>
     (if pd_phase d = PP_handshake then ucast (pc_handshake_timeout_milliseconds (pd_config d)) \<le> t
      else ucast (pc_run_timeout_milliseconds (pd_config d)) \<le> t - pd_run_started d)"

lemma peer_step_timeout:
  assumes "pd_failure d = None" "pd_phase d \<noteq> PP_finished" "\<not> t < pd_last_elapsed d" "out_of_time t d"
    and "peer_step build os t d w = (r, d', w')"
  shows "(\<exists>e. r = Inl e \<and> err_code e = EC_timeout) \<and> w' = w"
  using assms by (auto simp: peer_step_def phase_step_def handshake_step_def out_of_time_def driver_fail_def mk_error_def
      Let_def split: if_splits)

text \<open>
  C20. A step moves the driver at most one phase forward, along handshake, running, confirming,
  finished. A failed and a finished driver and one whose clock went backwards are left as they were,
  together with the outside world. Every other failure is sticky, every other success counts one tick. The time is
  enforced: a step of the handshake at or after its limit, and a step of a later phase at or after the limit of the run,
  which starts with the step that leaves the handshake, fails with a timeout and neither sends nor receives; so a hello that
  comes late is not accepted.
\<close>

theorem peer_step_machine:
  assumes "pd_failure d \<noteq> None \<longleftrightarrow> pd_phase d = PP_failed"
    and "peer_step build os t d w = (r, d', w')"
  shows "if pd_failure d \<noteq> None then r = Inl (the (pd_failure d)) \<and> d' = d \<and> w' = w
    else if pd_phase d = PP_finished then r = Inr (pd_observation d) \<and> d' = d \<and> w' = w
    else if t < pd_last_elapsed d
    then (\<exists>e. r = Inl e \<and> err_code e = EC_invalid_argument) \<and> d' = d \<and> w' = w
    else pd_last_elapsed d' = t \<and> (out_of_time t d \<longrightarrow> (\<exists>e. r = Inl e \<and> err_code e = EC_timeout) \<and> w' = w) \<and>
      (case r of
         Inl e \<Rightarrow> pd_failure d' = Some e \<and> pd_phase d' = PP_failed
       | Inr obs \<Rightarrow> \<not> out_of_time t d \<and> pd_failure d' = None \<and> obs = pd_observation d'
           \<and> phase_edge (pd_phase d) (pd_phase d')
           \<and> pt_logical_tick obs = pt_logical_tick (pd_observation d) + 1
           \<and> (pd_phase d = PP_handshake \<and> pd_phase d' \<noteq> PP_handshake \<longrightarrow> pd_run_started d' = t)
           \<and> (pd_phase d \<noteq> PP_handshake \<longrightarrow> pd_run_started d' = pd_run_started d))"
proof -
  have late: "(\<exists>e. r = Inl e \<and> err_code e = EC_timeout) \<and> w' = w"
    if "pd_failure d = None" "pd_phase d \<noteq> PP_finished" "\<not> t < pd_last_elapsed d" "out_of_time t d"
    by (rule peer_step_timeout [OF that assms(2)])
  from peer_step_cases [OF assms] late show ?thesis
    by (cases "pd_phase d = PP_handshake") (auto split: sum.splits)
qed

definition sample_driver :: PeerDriver where
  "sample_driver = make_driver default_peer_config (Some \<lparr>si_socket = 1, si_port = 1\<rparr>)
     (make_session (default_session_config PA)) []"

definition plain_build :: BuildInfo where
  "plain_build = \<lparr>bi_git_sha = '''', bi_build_type = '''', bi_compiler = '''', bi_os = ''''\<rparr>"

lemma sample_timeout:
  "\<exists>e d' w'. peer_step plain_build memory_host 1000 sample_driver empty_memory = (Inl e, d', w')"
  by (simp add: peer_step_def phase_step_def handshake_step_def sample_driver_def make_driver_def
      default_peer_config_def driver_fail_def Let_def)

theorem peer_step_machine_witness:
  "\<exists>e d' w'. peer_step plain_build memory_host 1000 sample_driver empty_memory = (Inl e, d', w')
     \<and> pd_last_elapsed d' = 1000 \<and> pd_failure d' = Some e \<and> pd_phase d' = PP_failed"
proof -
  have live: "pd_failure sample_driver = None" "pd_phase sample_driver = PP_handshake"
    "pd_last_elapsed sample_driver = 0" by (simp_all add: sample_driver_def make_driver_def)
  from sample_timeout obtain e d' w' where
    s: "peer_step plain_build memory_host 1000 sample_driver empty_memory = (Inl e, d', w')" by blast
  from peer_step_machine [OF _ s] live s show ?thesis by simp
qed

section \<open>The program returns\<close>

text \<open>
  What the program relies on to end: no call turns the clock back, and a sleep lasts as long as it
  was asked to. The clock is read in milliseconds and need not go on beyond \<open>2 ^ 63\<close>.
\<close>

definition steady_clock :: "'s Host \<Rightarrow> bool" where
  "steady_clock os \<longleftrightarrow>
     (\<forall>h dst bytes w. os_now os w \<le> os_now os (snd (os_sendto os h dst bytes w)))
   \<and> (\<forall>h s u w. os_now os w \<le> os_now os (snd (os_select os h s u w)))
   \<and> (\<forall>h n w. os_now os w \<le> os_now os (snd (os_recvfrom os h n w)))
   \<and> (\<forall>n w. min (unat (os_now os w) + n) (2 ^ 63) \<le> unat (os_now os (os_sleep os n w)))"

lemma send_clock:
  assumes "steady_clock os" "send_loopback os s p b w = (r, w')"
  shows "os_now os w \<le> os_now os w'"
proof -
  have c: "os_now os w \<le> os_now os v" if "os_sendto os h p b w = (k, v)" for h k v
    using assms(1) that unfolding steady_clock_def by (metis snd_conv)
  show ?thesis
    using assms(2) by (auto simp: send_loopback_def Let_def split: option.splits if_splits prod.splits dest: c)
qed

lemma receive_clock:
  assumes "steady_clock os" "receive_for os s t w = (r, w')"
  shows "os_now os w \<le> os_now os w'"
proof -
  have c: "os_now os w \<le> os_now os v" if "os_select os h a u w = (k, v)" for h a u k v
    using assms(1) that unfolding steady_clock_def by (metis snd_conv)
  have d: "os_now os v \<le> os_now os v'" if "os_recvfrom os h n v = (k, v')" for h n k v v'
    using assms(1) that unfolding steady_clock_def by (metis snd_conv)
  show ?thesis
    using assms(2) by (auto simp: receive_for_def Let_def split: option.splits if_splits prod.splits
        dest!: c d intro: order_trans)
qed

lemma receive_one_clock:
  assumes "steady_clock os" "receive_one os config s t rt w = (r, rt', w')"
  shows "os_now os w \<le> os_now os w'"
  using assms(2) receive_clock [OF assms(1), of s t w]
  by (auto simp: receive_one_def split: sum.splits option.splits prod.splits)

lemma drain_clock:
  assumes "steady_clock os" "drain n os config s rt w = (r, rt', w')"
  shows "os_now os w \<le> os_now os w'"
  using assms(2)
proof (induction n arbitrary: rt w)
  case (Suc n)
  obtain q rt1 w1 where q: "receive_one os config s 0 rt w = (q, rt1, w1)"
    by (cases "receive_one os config s 0 rt w")
  have 1: "os_now os w \<le> os_now os w1" by (rule receive_one_clock [OF assms(1) q])
  with Suc.prems q Suc.IH [of rt1 w1] show ?case
    by (auto split: sum.splits bool.splits)
qed simp

lemma send_inputs_clock:
  assumes "steady_clock os" "send_inputs os config s rt w = (r, rt', w')"
  shows "os_now os w \<le> os_now os w'"
  using assms(2) by (auto simp: send_inputs_def Let_def split: sum.splits prod.splits
      dest: send_clock [OF assms(1)])

lemma handshake_clock:
  assumes "steady_clock os" "handshake_step os t d w = (r, d', w')"
  shows "os_now os w \<le> os_now os w'"
  using assms(2)
  by (auto simp: handshake_step_def Let_def split: if_splits sum.splits option.splits prod.splits
      dest!: send_clock [OF assms(1)] receive_clock [OF assms(1)])

lemma running_clock:
  assumes "steady_clock os" "running_step os d w = (r, d', w')"
  shows "os_now os w \<le> os_now os w'"
  using assms(2) drain_clock [OF assms(1), of 64] send_inputs_clock [OF assms(1)]
  by (fastforce simp: running_step_def drain_available_def Let_def split: if_splits sum.splits prod.splits
      intro: order_trans)

lemma confirming_clock:
  assumes "steady_clock os" "confirming_step build os d w = (r, d', w')"
  shows "os_now os w \<le> os_now os w'"
  using assms(2) drain_clock [OF assms(1), of 64] send_inputs_clock [OF assms(1)]
  by (fastforce simp: confirming_step_def drain_available_def Let_def split: if_splits sum.splits prod.splits
      intro: order_trans)

lemma phase_step_clock:
  "steady_clock os \<Longrightarrow> phase_step build os t d w = (r, d', w') \<Longrightarrow> os_now os w \<le> os_now os w'"
  by (auto simp: phase_step_def split: if_splits dest: handshake_clock running_clock confirming_clock)

lemma peer_step_clock:
  assumes "steady_clock os" "peer_step build os t d w = (r, d', w')"
  shows "os_now os w \<le> os_now os w'"
  using assms(2)
  by (auto simp: peer_step_def driver_fail_def Let_def split: option.splits if_splits sum.splits prod.splits
      dest: phase_step_clock [OF assms(1)])

lemma peer_loop_returns:
  assumes "steady_clock os" "pd_failure d \<noteq> None \<longleftrightarrow> pd_phase d = PP_failed"
    and "pd_phase d \<noteq> PP_handshake \<longrightarrow> unat (pd_run_started d) < 2 ^ 32"
    and "unat start < 2 ^ 62" "start \<le> os_now os w"
  shows "\<exists>x. peer_loop build os start d w = Some x"
  using assms(2,3,5)
proof (induction "2 ^ 63 - unat (os_now os w)" arbitrary: d w rule: less_induct)
  case less
  define t where "t = os_now os w - start"
  have t: "unat t = unat (os_now os w) - unat start" "unat start \<le> unat (os_now os w)"
    using less.prems(3) by (simp_all add: t_def unat_sub word_le_nat_alt)
  obtain r d' w' where s: "peer_step build os t d w = (r, d', w')" by (cases "peer_step build os t d w")
  have clock: "unat (os_now os w) \<le> unat (os_now os w')"
    using peer_step_clock [OF assms(1) s] by (simp add: word_le_nat_alt)
  show ?case
  proof (cases r)
    case (Inl e)
    then show ?thesis using s by (subst peer_loop.simps) (simp add: t_def)
  next
    case (Inr obs)
    show ?thesis
    proof (cases "pt_phase obs = PP_finished")
      case True
      then show ?thesis using s Inr by (subst peer_loop.simps) (simp add: t_def)
    next
      case False
      let ?n = "if pt_phase obs = PP_handshake then 10 else 2 :: nat"
      let ?w = "os_sleep os ?n w'"
      have u32: "unat (ucast (x :: u32) :: u64) < 2 ^ 32" for x
        using unat_less_len32 [of x] order.strict_trans1 [OF take_bit_nat_less_eq_self]
        by (simp add: unsigned_ucast_eq)
      from peer_step_cases [OF less.prems(1) s] Inr False have
        c: "pd_failure d' = None" "obs = pd_observation d'" "pd_failure d = None"
        and h: "if pd_phase d = PP_handshake
              then t < ucast (pc_handshake_timeout_milliseconds (pd_config d)) \<or> pd_phase d' \<noteq> PP_handshake
              else t - pd_run_started d < ucast (pc_run_timeout_milliseconds (pd_config d))"
        and n: "if pd_phase d = PP_handshake \<and> pd_phase d' \<noteq> PP_handshake
              then pd_run_started d' = t \<and> t < ucast (pc_handshake_timeout_milliseconds (pd_config d))
              else pd_phase d \<noteq> PP_handshake \<longrightarrow> pd_run_started d' = pd_run_started d"
        and e: "phase_edge (pd_phase d) (pd_phase d')"
        by auto
      have tb: "unat t < 2 ^ 33"
      proof (cases "pd_phase d = PP_handshake")
        case True
        then have "t < ucast (pc_handshake_timeout_milliseconds (pd_config d))" using h n by auto
        then show ?thesis using u32 [of "pc_handshake_timeout_milliseconds (pd_config d)"]
          by (simp add: word_less_nat_alt)
      next
        case False
        then have "unat (t - pd_run_started d) < 2 ^ 32" "unat (pd_run_started d) < 2 ^ 32"
          using h u32 [of "pc_run_timeout_milliseconds (pd_config d)"] less.prems(2)
          by (auto simp: word_less_nat_alt)
        then show ?thesis by (simp add: unat_sub_if' split: if_splits)
      qed
      have rs: "pd_phase d' \<noteq> PP_handshake \<longrightarrow> unat (pd_run_started d') < 2 ^ 32"
        using n less.prems(2) u32 [of "pc_handshake_timeout_milliseconds (pd_config d)"]
        by (auto simp: word_less_nat_alt split: if_splits)
      have ph: "pd_phase d' \<noteq> PP_failed"
      proof
        assume "pd_phase d' = PP_failed"
        with e have "pd_phase d = PP_failed" by (auto simp: phase_edge_def)
        with less.prems(1) c(3) show False by simp
      qed
      have now: "unat (os_now os w) < 2 ^ 63" using tb t assms(4) by simp
      have sl: "min (unat (os_now os w') + ?n) (2 ^ 63) \<le> unat (os_now os ?w)"
        using assms(1) unfolding steady_clock_def by blast
      have adv: "unat (os_now os w) < unat (os_now os ?w)"
        using sl clock now by (simp add: min_def split: if_splits)
      have "start \<le> os_now os ?w" using adv t(2) by (simp add: word_le_nat_alt)
      moreover have "2 ^ 63 - unat (os_now os ?w) < 2 ^ 63 - unat (os_now os w)" using adv now by linarith
      ultimately have "\<exists>x. peer_loop build os start d' ?w = Some x"
        using less.hyps [of ?w d'] rs ph c(1) by blast
      then show ?thesis using s Inr False by (subst peer_loop.simps) (simp add: t_def)
    qed
  qed
qed

text \<open>
  C26. \<open>run_peer\<close> returns: whatever the network does, a peer whose clock runs ends with a
  result, because both its phases have a time limit.
\<close>

theorem run_peer_returns:
  assumes "steady_clock os"
    and "\<forall>session d v. create_driver os config session w = (Inr d, v) \<longrightarrow> unat (os_now os v) < 2 ^ 62"
  shows "\<exists>r w'. run_peer build os config w = Some (r, w')"
proof -
  let ?s = "make_session ((default_session_config (pc_id config))\<lparr>cfg_variant := pc_simulation_variant config\<rparr>)"
  obtain r v where c: "create_driver os config ?s w = (r, v)" by fastforce
  show ?thesis
  proof (cases r)
    case (Inl e)
    then show ?thesis using c by (simp add: run_peer_def Let_def)
  next
    case (Inr d)
    have "pd_failure d = None" "pd_phase d = PP_handshake"
      using c Inr by (auto simp: create_driver_def make_driver_def Let_def mk_error_def
          split: if_splits sum.splits prod.splits)
    then have "\<exists>x. peer_loop build os (os_now os v) d v = Some x"
      using assms c Inr by (intro peer_loop_returns) auto
    then show ?thesis using c Inr by (auto simp: run_peer_def Let_def)
  qed
qed

lemma memory_steady: "steady_clock memory_host"
proof -
  have "unat (of_nat (min (unat c + n) (2 ^ 63)) :: u64) = min (unat c + n) (2 ^ 63)" for c :: u64 and n
    by (simp only: unat_of_nat) (simp add: take_bit_nat_eq_self)
  then show ?thesis
    by (auto simp: steady_clock_def split: list.splits)
qed

theorem run_peer_returns_witness:
  "\<exists>r w'. run_peer plain_build memory_host default_peer_config empty_memory = Some (r, w')"
proof (rule run_peer_returns [OF memory_steady])
  show "\<forall>session d v. create_driver memory_host default_peer_config session empty_memory = (Inr d, v)
      \<longrightarrow> unat (os_now memory_host v) < 2 ^ 62"
    by (auto simp: create_driver_def memory_bind empty_memory_def Let_def split: if_splits sum.splits)
qed

end
