(* ===== verification/Relay.thy ===== *)
theory Relay
  imports UdpSocket Json
begin

text \<open>
  The relay between the two peers: \<open>udp/relay.hpp\<close>, \<open>src/udp/relay.cpp\<close>.
\<close>

record RelayConfig =
  rl_relay_port :: u16
  rl_peer_a_port :: u16
  rl_peer_b_port :: u16
  rl_maximum_runtime_milliseconds :: u32
  rl_ready_file :: string

definition stop_message :: "byte list" where
  "stop_message = map of_char ''RLSTOP''"

definition is_stop :: "byte list \<Rightarrow> bool" where
  "is_stop bytes \<longleftrightarrow> length bytes = length stop_message \<and> bytes = stop_message"

text \<open>The port a datagram is passed on to: the other peer's, or none for a stranger's datagram.\<close>

definition relay_destination :: "RelayConfig \<Rightarrow> u16 \<Rightarrow> u16 option" where
  "relay_destination config source_port =
     (if source_port = rl_peer_a_port config then Some (rl_peer_b_port config)
      else if source_port = rl_peer_b_port config then Some (rl_peer_a_port config)
      else None)"

text \<open>One round of the loop: \<open>Inr None\<close> goes on, \<open>Inr (Some code)\<close> returns.\<close>

definition relay_round :: "'s Host \<Rightarrow> RelayConfig \<Rightarrow> UdpSocket \<Rightarrow> 's \<Rightarrow> int option Result \<times> 's" where
  "relay_round os config s w =
     (case receive_for os s 10 w of
        (Inl e, w) \<Rightarrow> (Inl e, w)
      | (Inr None, w) \<Rightarrow> (Inr None, w)
      | (Inr (Some datagram), w) \<Rightarrow>
          if is_stop (dg_bytes datagram) then (Inr (Some 0), w)
          else
            (case relay_destination config (dg_source_port datagram) of
               None \<Rightarrow> (Inr None, w)
             | Some destination \<Rightarrow>
                 (case send_loopback os s destination (dg_bytes datagram) w of
                    (Inl e, w) \<Rightarrow> (Inl e, w)
                  | (Inr _, w) \<Rightarrow> (Inr None, w))))"

partial_function (option) relay_loop ::
    "'s Host \<Rightarrow> RelayConfig \<Rightarrow> UdpSocket \<Rightarrow> u64 \<Rightarrow> 's \<Rightarrow> (int Result \<times> 's) option" where
  "relay_loop os config s deadline w =
     (if \<not> os_now os w < deadline then Some (Inr 0, w)
      else
        (case relay_round os config s w of
           (Inl e, w) \<Rightarrow> Some (Inl e, w)
         | (Inr (Some code), w) \<Rightarrow> Some (Inr code, w)
         | (Inr None, w) \<Rightarrow> relay_loop os config s deadline w))"

definition run_relay :: "'s Host \<Rightarrow> RelayConfig \<Rightarrow> 's \<Rightarrow> (int Result \<times> 's) option" where
  "run_relay os config w =
     (case bind_loopback os (rl_relay_port config) w of
        (Inl e, w) \<Rightarrow> Some (Inl e, w)
      | (Inr s, w) \<Rightarrow>
          (let (opened, w) = os_open os (rl_ready_file config) w in
           if \<not> opened then Some (failure EC_io_error 0 0 ''relay_ready_file'', w)
           else
             (let (_, w) = os_write os (rl_ready_file config)
                             (map of_char (dec_word (local_port s) @ nl)) w;
                  deadline = os_now os w + ucast (rl_maximum_runtime_milliseconds config)
              in relay_loop os config s deadline w)))"

end
