(* ===== verification/Convergence.thy ===== *)
theory Convergence
  imports Scenario
begin

text \<open>
  What the two-peer run of \<open>Scenario\<close> guarantees when both peers use the canonical simulation.

  The reference is one simulation, \<open>truth\<close>, of the inputs both peers really made. A session
  \<open>follows\<close> it when it is reachable from its own inputs and has heard only inputs the other peer made;
  then every hash it reports is a hash of the truth. A packet is \<open>honest\<close> when it carries only
  such inputs and hashes. The invariant of the run says that everything in flight is honest, in
  the style of the inductive method for protocols: each step keeps the invariant, whatever the
  network loses, delays, reorders or duplicates. It follows that no run reports a desync and that
  a run that completes has converged to the truth; the rest of the theory bounds the errors that can occur
  and shows that a network without faults always completes.
\<close>

section \<open>The reference simulation\<close>

type_synonym Histories = "PlayerId \<Rightarrow> InputFrame list"

definition truth :: "Histories \<Rightarrow> nat \<Rightarrow> WorldState Result" where
  "truth H N = lockstep_run variant_canonical make_initial_world
     (\<lambda>i. in_buttons (H PA ! i)) (\<lambda>i. in_buttons (H PB ! i)) N"

definition numbered :: "Histories \<Rightarrow> nat \<Rightarrow> bool" where
  "numbered H m \<longleftrightarrow> m \<le> kMaxReplayFrames
     \<and> (\<forall>p. length (H p) = m \<and> (\<forall>i<m. in_frame (H p ! i) = of_nat i \<and> plain_input p (H p ! i)))"

text \<open>The histories only grow.\<close>

definition extends :: "Histories \<Rightarrow> Histories \<Rightarrow> bool" where
  "extends H H' \<longleftrightarrow> (\<forall>p. \<exists>xs. H' p = H p @ xs)"

lemma numberedD:
  assumes "numbered H m"
  shows "m \<le> 1000000" "length (H p) = m"
    and "i < m \<Longrightarrow> in_frame (H p ! i) = of_nat i"
    and "i < m \<Longrightarrow> in_player (H p ! i) = p"
    and "i < m \<Longrightarrow> in_buttons (H p ! i) AND 0xE0 = 0"
  using assms by (auto simp: numbered_def plain_input_def kMaxReplayFrames_def)

lemma extends_refl [simp]: "extends H H"
  by (simp add: extends_def)

lemma extends_nth: "extends H H' \<Longrightarrow> i < length (H p) \<Longrightarrow> H' p ! i = H p ! i"
  by (auto simp: extends_def nth_append dest!: spec [of _ p])

lemma extends_length: "extends H H' \<Longrightarrow> length (H p) \<le> length (H' p)"
  by (auto simp: extends_def dest!: spec [of _ p])

lemma extends_take: "extends H H' \<Longrightarrow> c \<le> length (H p) \<Longrightarrow> take c (H' p) = take c (H p)"
  by (auto simp: extends_def dest!: spec [of _ p])

lemma extends_set: "extends H H' \<Longrightarrow> set (H p) \<subseteq> set (H' p)"
  by (auto simp: extends_def dest!: spec [of _ p])

lemma truth_cong:
  "(\<And>p i. i < N \<Longrightarrow> H' p ! i = H p ! i) \<Longrightarrow> truth H' N = truth H N"
  unfolding truth_def by (rule lockstep_run_cong) simp

lemma truth_extends: "numbered H m \<Longrightarrow> extends H H' \<Longrightarrow> N \<le> m \<Longrightarrow> truth H' N = truth H N"
  by (rule truth_cong) (simp add: extends_nth numberedD(2))

lemma truth_Suc_pair:
  assumes "truth H N = Inr w" "in_frame a = of_nat N" "in_frame b = of_nat N"
    and "in_player a = PA" "in_player b = PB" "H PA ! N = a" "H PB ! N = b"
  shows "truth H (Suc N) = simulate_frame w (of_nat N) \<lparr>pair_a = a, pair_b = b\<rparr> variant_canonical"
proof -
  have "same_buttons \<lparr>pair_a = a, pair_b = b\<rparr> (neutral_pair (of_nat N) (in_buttons a) (in_buttons b))"
    using assms by (simp add: same_buttons_def neutral_pair_def)
  from simulate_frame_cong [OF this] assms show ?thesis by (simp add: truth_def)
qed

text \<open>The reference simulation never fails within the frame limit.\<close>

lemma truth_world:
  assumes "N \<le> 1000000"
  shows "\<exists>w. truth H N = Inr w \<and> world_inv w \<and> ws_frame w = of_nat N
    \<and> unat (ws_next_projectile_id w) \<le> 1 + 2 * N"
  using assms
proof (induction N)
  case 0
  show ?case using initial_world_inv by (simp add: truth_def make_initial_world_def)
next
  case (Suc N)
  then obtain w where w: "truth H N = Inr w" "world_inv w" "ws_frame w = of_nat N"
    "unat (ws_next_projectile_id w) \<le> 1 + 2 * N" by auto
  let ?p = "neutral_pair (of_nat N) (in_buttons (H PA ! N)) (in_buttons (H PB ! N))"
  have "pair_for (ws_frame w) ?p" using w by (simp add: pair_for_def neutral_pair_def)
  from simulate_frame_step [OF w(2) this, of variant_canonical] obtain w' where
    "simulate_frame w (of_nat N) ?p variant_canonical = Inr w'" "world_inv w'"
    "ws_frame w' = next_frame (of_nat N)"
    "unat (ws_next_projectile_id w') \<le> unat (ws_next_projectile_id w) + 2"
    using w Suc.prems by auto
  with w show ?case by (auto simp: truth_def next_frame_def algebra_simps)
qed

definition truthful :: "Histories \<Rightarrow> nat \<Rightarrow> FrameNumber \<Rightarrow> StateHash \<Rightarrow> bool" where
  "truthful H m f h \<longleftrightarrow> (\<exists>N\<le>m. \<exists>w. f = of_nat N \<and> truth H N = Inr w \<and> h = hash_canonical w)"

lemma truthful_mono:
  "truthful H m f h \<Longrightarrow> numbered H m \<Longrightarrow> extends H H' \<Longrightarrow> m \<le> m' \<Longrightarrow> truthful H' m' f h"
  unfolding truthful_def by (metis truth_extends le_trans)

text \<open>There is one truth.\<close>

lemma truthful_unique:
  assumes "truthful H m f h" "truthful H m f h'" "m \<le> 1000000"
  shows "h = h'"
proof -
  from assms obtain N N' w w' where "N \<le> m" "N' \<le> m" "f = of_nat N" "f = of_nat N'"
    "truth H N = Inr w" "truth H N' = Inr w'" "h = hash_canonical w" "h' = hash_canonical w'"
    by (auto simp: truthful_def)
  moreover from this have "N = N'" using of_nat_u32_inj [of N N'] assms(3) by simp
  ultimately show ?thesis by simp
qed

section \<open>Sessions that follow the run\<close>

definition live_config :: "PlayerId \<Rightarrow> SessionConfig \<Rightarrow> bool" where
  "live_config p cfg \<longleftrightarrow> valid_config cfg \<and> cfg_initial_state cfg = make_initial_world
     \<and> cfg_local_peer cfg = p \<and> cfg_variant cfg = variant_canonical"

definition follows :: "PlayerId \<Rightarrow> Histories \<Rightarrow> nat \<Rightarrow> RemoteLog \<Rightarrow> RollbackSession \<Rightarrow> bool" where
  "follows p H c R s \<longleftrightarrow> (\<exists>cfg. live_config p cfg \<and> session_reach cfg (take c (H p)) R s)
     \<and> (\<forall>i x. R i = Some x \<longrightarrow> i < length (H (other_peer p)) \<and> x = H (other_peer p) ! i)"

lemma other_peer_other [simp]: "other_peer (other_peer p) = p"
  by (cases p) (simp_all add: other_peer_def)

lemma live_horizon:
  "live_config p cfg \<Longrightarrow> length ls \<le> 1000000 \<Longrightarrow> within_horizon cfg ls"
  by (simp add: live_config_def within_horizon_def make_initial_world_def)

lemma followsD:
  assumes "follows p H c R s" "numbered H m" "c \<le> m"
  obtains cfg where "live_config p cfg" "valid_config cfg" "session_reach cfg (take c (H p)) R s"
    "within_horizon cfg (take c (H p))" "session_inv cfg (take c (H p)) R s"
    "length (take c (H p)) = c" "s_config s = cfg" "ws_frame (s_state s) = of_nat c"
proof -
  from assms(1) obtain cfg where c: "live_config p cfg" "session_reach cfg (take c (H p)) R s"
    by (auto simp: follows_def)
  have l: "length (take c (H p)) = c" "c \<le> 1000000"
    using assms(3) numberedD(1,2) [OF assms(2)] by (auto simp: min_def)
  then have h: "within_horizon cfg (take c (H p))" by (intro live_horizon [OF c(1)]) simp
  have v: "valid_config cfg" using c(1) by (simp add: live_config_def)
  note inv = reach_inv [OF c(2) v h]
  from that [OF c(1) v c(2) h inv l(1)] session_inv_frame [OF v inv] l(1) show ?thesis by simp
qed

lemma follows_start: "live_config p cfg \<Longrightarrow> follows p H 0 (\<lambda>_. None) (make_session cfg)"
  using session_reach.start [of cfg] by (auto simp: follows_def)

lemma follows_extends:
  assumes "follows p H c R s" "numbered H m" "c \<le> m" "extends H H'"
  shows "follows p H' c R s"
proof -
  have "take c (H' p) = take c (H p)" using assms by (intro extends_take) (simp_all add: numberedD)
  moreover have "i < length (H' (other_peer p)) \<and> x = H' (other_peer p) ! i" if "R i = Some x" for i x
  proof -
    from that assms(1) have "i < length (H (other_peer p))" "x = H (other_peer p) ! i"
      by (auto simp: follows_def)
    with extends_nth [OF assms(4)] extends_length [OF assms(4)] show ?thesis
      by (metis less_le_trans)
  qed
  ultimately show ?thesis using assms(1) by (simp add: follows_def)
qed

text \<open>Every hash such a session reports is a hash of the truth.\<close>

lemma follows_truth:
  assumes f: "follows p H c R s" and n: "numbered H m" "c \<le> m"
  shows "\<exists>cf\<le>c. m_confirmed_frame (s_metrics s) = of_nat cf
    \<and> (cf = c \<or> R cf = None \<or> s_earliest_dirty s = Some (of_nat cf))
    \<and> (\<forall>i<cf. R i \<noteq> None)
    \<and> (\<forall>N\<le>cf. c \<le> N + 255 \<longrightarrow> (\<exists>w. truth H N = Inr w
          \<and> hash_at s (of_nat N) = Inr (hash_canonical w) \<and> state_at s (of_nat N) = Inr w))
    \<and> (\<forall>f h. hash_at s f = Inr h \<longrightarrow> truthful H cf f h)"
proof -
  obtain cfg where cfg: "live_config p cfg" "valid_config cfg" "session_reach cfg (take c (H p)) R s"
      "within_horizon cfg (take c (H p))" "length (take c (H p)) = c"
    using followsD [OF f n] by metis
  from confirmed_view [OF cfg(3,2,4)] cfg(5) obtain S cf where
    v: "m_confirmed_frame (s_metrics s) = of_nat cf" "cf \<le> c" "\<forall>i<cf. R i \<noteq> None"
      "cf = c \<or> R cf = None \<or> s_earliest_dirty s = Some (of_nat cf)"
    and run: "\<forall>N\<le>cf. lockstep_run (cfg_variant cfg) (cfg_initial_state cfg)
          (player_buttons cfg (take c (H p)) R PA) (player_buttons cfg (take c (H p)) R PB) N = Inr (S N)"
    and q: "\<forall>N\<le>cf. c \<le> N + 255 \<longrightarrow>
          hash_at s (of_nat N) = Inr (hash_canonical (S N)) \<and> state_at s (of_nat N) = Inr (S N)"
    and h: "\<forall>f h. hash_at s f = Inr h \<longrightarrow> (\<exists>N\<le>cf. f = of_nat N \<and> h = hash_canonical (S N))"
    by auto
  have t: "truth H N = Inr (S N)" if "N \<le> cf" for N
  proof -
    have "player_buttons cfg (take c (H p)) R q i = in_buttons (H q ! i)" if "i < N" for q i
    proof (cases "q = p")
      case True
      then show ?thesis using that \<open>N \<le> cf\<close> v(2) cfg(1)
        by (simp add: player_buttons_def live_config_def)
    next
      case False
      then have "q = other_peer p" by (cases p; cases q) (simp_all add: other_peer_def)
      moreover have "R i \<noteq> None" using that \<open>N \<le> cf\<close> v(3) by auto
      then obtain x where "R i = Some x" by blast
      moreover from this have "x = H (other_peer p) ! i" using f by (auto simp: follows_def)
      ultimately show ?thesis using False cfg(1) \<open>R i = Some x\<close>
        by (simp add: player_buttons_def live_config_def)
    qed
    then have "lockstep_run (cfg_variant cfg) (cfg_initial_state cfg)
          (player_buttons cfg (take c (H p)) R PA) (player_buttons cfg (take c (H p)) R PB) N
        = lockstep_run (cfg_variant cfg) (cfg_initial_state cfg)
          (\<lambda>i. in_buttons (H PA ! i)) (\<lambda>i. in_buttons (H PB ! i)) N"
      by (intro lockstep_run_cong) blast
    then have "truth H N = lockstep_run (cfg_variant cfg) (cfg_initial_state cfg)
          (player_buttons cfg (take c (H p)) R PA) (player_buttons cfg (take c (H p)) R PB) N"
      using cfg(1) by (simp add: truth_def live_config_def)
    with run that show ?thesis by simp
  qed
  have "truthful H cf f h" if "hash_at s f = Inr h" for f h
    using h that t unfolding truthful_def by (metis (no_types))
  then show ?thesis using v q t by (intro exI [of _ cf]) auto
qed

lemma follows_hash:
  assumes "follows p H c R s" "numbered H m" "c \<le> m" "hash_at s f = Inr h"
  shows "truthful H m f h"
proof -
  from follows_truth [OF assms(1-3)] assms(4) obtain cf where "cf \<le> c" "truthful H cf f h" by blast
  with assms(3) show ?thesis using le_trans unfolding truthful_def by blast
qed

subsection \<open>What the operations keep\<close>

text \<open>
  An input of the run, as it arrives at the other peer during or after its frame, or at any time
  in a run that fits into the history.
\<close>

lemma ingest_follows:
  assumes f: "follows p H c R s" and n: "numbered H m" "c \<le> m" "m \<le> Suc c \<or> m \<le> 256"
    and x: "x \<in> set (H (other_peer p))" and r: "ingest_remote x s = (r, s')"
  shows "(\<exists>e. r = Inl e \<and> err_code e = EC_rollback_window_exceeded \<and> s' = s
        \<and> unat (in_frame x) + rollback_window (s_config s) < c)
    \<or> r = Inr () \<and> follows p H c (R(unat (in_frame x) \<mapsto> x)) s'"
proof -
  obtain cfg where cfg: "live_config p cfg" "valid_config cfg" "session_reach cfg (take c (H p)) R s"
      "within_horizon cfg (take c (H p))" "session_inv cfg (take c (H p)) R s" "length (take c (H p)) = c"
      "s_config s = cfg"
    using followsD [OF f n(1,2)] by metis
  obtain i where i: "i < m" "x = H (other_peer p) ! i"
    using x numberedD(2) [OF n(1)] by (auto simp: in_set_conv_nth)
  have fx: "in_frame x = of_nat i" "in_player x = other_peer p" "unat (in_frame x) = i"
    using i numberedD [OF n(1)] by (simp_all add: unat_of_nat_u32 less_imp_le)
  show ?thesis
  proof (cases r)
    case (Inr u)
    have "unat (in_frame x) + rollback_window cfg
        < max (length (take c (H p))) (rollback_window cfg) + kHistoryCapacity"
      using cfg(2,6) fx(3) i n(3) by (auto simp: valid_config_def kHistoryCapacity_def)
    then have "session_reach cfg (take c (H p)) (R(unat (in_frame x) \<mapsto> x)) s'"
      using session_reach.ingested [OF cfg(3), of x s'] r Inr by simp
    then have "follows p H c (R(unat (in_frame x) \<mapsto> x)) s'"
      using f cfg(1) i fx(3) numberedD(2) [OF n(1)] by (auto simp: follows_def)
    then show ?thesis using Inr by simp
  next
    case (Inl e)
    have "s' = s" using ingest_cases [OF cfg(2,4,5), of x r s'] r Inl by auto
    moreover have "err_code e = EC_rollback_window_exceeded
        \<and> frame_before (of_nat i) (of_nat c) \<and> frame_distance (of_nat i) (of_nat c) > cfg_max_rollback_frames cfg"
      using ingest_result [OF cfg(2,5), of x] r Inl fx cfg(1,6) by (auto simp: live_config_def split: if_splits)
    moreover from this have "i < c" using i n numberedD(1) [OF n(1)] by (simp add: frame_before_of_nat)
    moreover from this have "unat (frame_distance (of_nat i) (of_nat c)) = c - i"
      using n numberedD(1) [OF n(1)] by (subst frame_distance_of_nat) (simp_all add: unat_of_nat_u32 del: of_nat_diff)
    ultimately have "i + rollback_window cfg < c" "err_code e = EC_rollback_window_exceeded" "s' = s"
      by (auto simp: word_less_nat_alt rollback_window_def)
    then show ?thesis using Inl fx(3) cfg(7) by blast
  qed
qed

lemma ingest_all_follows:
  assumes "follows p H c R s" "numbered H m" "c \<le> m" "m \<le> Suc c \<or> m \<le> 256" "set xs \<subseteq> set (H (other_peer p))"
    and "ingest_all xs s = (r, s')"
  shows "(\<exists>R'. follows p H c R' s' \<and> dom R \<subseteq> dom R'
        \<and> (r = Inr () \<longrightarrow> (\<lambda>x. unat (in_frame x)) ` set xs \<subseteq> dom R'))
    \<and> s_config s' = s_config s
    \<and> (\<forall>e. r = Inl e \<longrightarrow> err_code e = EC_rollback_window_exceeded
        \<and> (\<exists>x \<in> set xs. unat (in_frame x) + rollback_window (s_config s) < c))"
  using assms(1,5,6)
proof (induction xs arbitrary: R s)
  case Nil
  then show ?case by auto
next
  case (Cons x xs)
  obtain r1 s1 where r1: "ingest_remote x s = (r1, s1)" by fastforce
  have cfg: "s_config s1 = s_config s"
    using r1 by (auto simp: ingest_remote_def Let_def update_confirmation_def mark_dirty_def
        split: if_splits sum.splits)
  from ingest_follows [OF Cons.prems(1) assms(2-4) _ r1] Cons.prems(2)
  consider (fail) e where "r1 = Inl e" "err_code e = EC_rollback_window_exceeded" "s1 = s"
      "unat (in_frame x) + rollback_window (s_config s) < c"
    | (go) "r1 = Inr ()" "follows p H c (R(unat (in_frame x) \<mapsto> x)) s1" by auto
  then show ?case
  proof cases
    case fail
    with Cons.prems r1 show ?thesis by auto
  next
    case go
    with Cons.prems(3) r1 have "ingest_all xs s1 = (r, s')" by simp
    from Cons.IH [OF go(2) _ this] Cons.prems(2) obtain R' where
      R': "follows p H c R' s'" "dom (R(unat (in_frame x) \<mapsto> x)) \<subseteq> dom R'"
      "r = Inr () \<longrightarrow> (\<lambda>x. unat (in_frame x)) ` set xs \<subseteq> dom R'" and
      rest: "s_config s' = s_config s1"
        "\<forall>e. r = Inl e \<longrightarrow> err_code e = EC_rollback_window_exceeded
          \<and> (\<exists>x \<in> set xs. unat (in_frame x) + rollback_window (s_config s1) < c)"
      by (metis insert_subset list.simps(15))
    have "\<exists>R'. follows p H c R' s' \<and> dom R \<subseteq> dom R'
        \<and> (r = Inr () \<longrightarrow> (\<lambda>x. unat (in_frame x)) ` set (x # xs) \<subseteq> dom R')"
      using R' by (intro exI [of _ R']) auto
    with rest cfg show ?thesis by auto
  qed
qed

lemma flush_follows:
  assumes f: "follows p H c R s" and n: "numbered H m" "c \<le> m"
  shows "\<exists>cr s'. flush_corrections s = (Inr cr, s') \<and> follows p H c R s' \<and> s_config s' = s_config s
    \<and> s_earliest_dirty s' = None"
proof -
  obtain cfg where cfg: "live_config p cfg" "valid_config cfg" "session_reach cfg (take c (H p)) R s"
      "within_horizon cfg (take c (H p))" "session_inv cfg (take c (H p)) R s" "s_config s = cfg"
    using followsD [OF f n] by metis
  from flush_ok [OF cfg(2,4,5)] obtain cr s' where fl: "flush_corrections s = (Inr cr, s')"
    "session_inv cfg (take c (H p)) R s'" "s_earliest_dirty s' = None" by blast
  have "follows p H c R s'"
    using session_reach.flushed [OF cfg(3) fl(1)] cfg(1) f by (auto simp: follows_def)
  with fl session_inv_frame [OF cfg(2) fl(2)] cfg(6) show ?thesis by auto
qed

lemma advance_follows:
  assumes f: "follows p H c R s" and n: "numbered H m" "c < m"
  shows "\<exists>ar s'. advance (H p ! c) s = (Inr ar, s') \<and> follows p H (Suc c) R s' \<and> s_config s' = s_config s"
proof -
  have le: "c \<le> m" using n by simp
  obtain cfg where cfg: "live_config p cfg" "valid_config cfg" "session_reach cfg (take c (H p)) R s"
      "within_horizon cfg (take c (H p))" "session_inv cfg (take c (H p)) R s" "length (take c (H p)) = c"
      "s_config s = cfg"
    using followsD [OF f n(1) le] by metis
  have "local_ok cfg (length (take c (H p))) (H p ! c)"
    using numberedD(3,4) [OF n] cfg(1,6) by (simp add: local_ok_def live_config_def)
  from advance_ok [OF cfg(2,4,5) this] obtain ar s' where a: "advance (H p ! c) s = (Inr ar, s')" by blast
  have "take (Suc c) (H p) = take c (H p) @ [H p ! c]"
    using n numberedD(2) [OF n(1)] by (simp add: take_Suc_conv_app_nth)
  then have "session_reach cfg (take (Suc c) (H p)) R s'"
    using session_reach.advanced [OF cfg(3) a] by simp
  then have fo: "follows p H (Suc c) R s'" using f cfg(1) by (auto simp: follows_def)
  have "s_config s' = cfg"
  proof -
    have "within_horizon cfg (take (Suc c) (H p))"
      using numberedD(1,2) [OF n(1)] n by (intro live_horizon [OF cfg(1)]) simp
    from reach_inv [OF \<open>session_reach cfg (take (Suc c) (H p)) R s'\<close> cfg(2) this]
    show ?thesis using session_inv_frame [OF cfg(2)] by blast
  qed
  with a fo cfg(7) show ?thesis by auto
qed

section \<open>Honest packets\<close>

definition honest :: "Histories \<Rightarrow> nat \<Rightarrow> PlayerId \<Rightarrow> Packet \<Rightarrow> bool" where
  "honest H m p pkt \<longleftrightarrow> pk_sender pkt = p \<and> set (pk_inputs pkt) \<subseteq> set (H p)
     \<and> (\<forall>h \<in> set (pk_confirmed_hashes pkt). truthful H m (ch_frame h) (ch_hash h))"

lemma honest_mono:
  "honest H m p pkt \<Longrightarrow> numbered H m \<Longrightarrow> extends H H' \<Longrightarrow> m \<le> m' \<Longrightarrow> honest H' m' p pkt"
  using extends_set [of H H' p] by (auto simp: honest_def intro: truthful_mono)

lemma set_window_from: "set (window_from xs) \<subseteq> set xs"
  by (auto simp: window_from_def Let_def dest: in_set_dropD)

lemma length_window_from: "length (window_from xs) \<le> 32"
  by (simp add: window_from_def Let_def kMaxRedundantInputs_def)

lemma collect_hashes_reported:
  "h \<in> set (collect_hashes s f os) \<Longrightarrow> hash_at s (ch_frame h) = Inr (ch_hash h)"
  by (induction os) (auto simp: Let_def split: sum.splits)

lemma length_collect_hashes: "length (collect_hashes s f os) \<le> length os"
  by (induction os) (auto simp: Let_def split: sum.splits)

text \<open>The collected frames are consecutive, so their reversal is in order.\<close>

lemma find_unordered_hash_append:
  "find_unordered_hash (hs @ [g]) = None \<longleftrightarrow>
     find_unordered_hash hs = None \<and> (hs = [] \<or> frame_before (ch_frame (last hs)) (ch_frame g))"
proof (induction hs)
  case (Cons h hs)
  then show ?case by (cases hs) (auto simp: find_unordered_hash_Cons)
qed simp

lemma frame_before_pred: "frame_before (f - of_nat (Suc k)) (f - of_nat k)"
  by (simp add: frame_before_def Let_def)

lemma collect_hashes_ordered:
  "find_unordered_hash (rev (collect_hashes s f [k..<n])) = None
   \<and> (collect_hashes s f [k..<n] \<noteq> [] \<longrightarrow> ch_frame (hd (collect_hashes s f [k..<n])) = f - of_nat k)"
proof (induction "n - k" arbitrary: k)
  case (Suc d)
  then have e: "[k..<n] = k # [Suc k..<n]" by (simp add: upt_conv_Cons)
  from Suc have "find_unordered_hash (rev (collect_hashes s f [Suc k..<n])) = None"
    "collect_hashes s f [Suc k..<n] \<noteq> [] \<longrightarrow>
       ch_frame (hd (collect_hashes s f [Suc k..<n])) = f - of_nat (Suc k)" by simp_all
  then show ?case
    unfolding e using frame_before_pred [of f k]
    by (auto simp: Let_def find_unordered_hash_append last_rev split: sum.splits)
qed simp

lemma truthful_le: "truthful H m f h \<Longrightarrow> m \<le> m' \<Longrightarrow> truthful H m' f h"
  unfolding truthful_def using le_trans by blast

lemma make_packet_honest:
  assumes f: "follows p H c R s" and n: "numbered H m" "c \<le> m" and xs: "set xs \<subseteq> set (H p)"
  shows "honest H m p (make_packet s xs sid sq)
    \<and> (\<exists>bytes. encode_packet (make_packet s xs sid sq) = Inr bytes
         \<and> decode_packet bytes = Inr (make_packet s xs sid sq) \<and> length bytes \<le> kMaxPacketBytes)"
proof -
  let ?pkt = "make_packet s xs sid sq" and ?f = "m_confirmed_frame (s_metrics s)"
  obtain cfg where cfg: "live_config p cfg" "s_config s = cfg" using followsD [OF f n] by metis
  from follows_truth [OF f n] obtain cf where cf: "cf \<le> c" "\<forall>f h. hash_at s f = Inr h \<longrightarrow> truthful H cf f h"
    by blast
  have sender: "pk_sender ?pkt = p" and inputs: "pk_inputs ?pkt = window_from xs"
    and hashes: "pk_confirmed_hashes ?pkt = rev (collect_hashes s ?f [0..<kMaxConfirmedHashes])"
    and other: "ucast (pk_protocol_version ?pkt) = kProtocolVersion" "pk_type ?pkt = pt_input" "pk_hello ?pkt = None"
    using cfg by (simp_all add: make_packet_def Let_def session_report_def live_config_def kProtocolVersion_def)
  have pl: "plain_input p x" if "x \<in> set (window_from xs)" for x
  proof -
    from that set_window_from xs have "x \<in> set (H p)" by blast
    then show ?thesis using n(1) by (auto simp: numbered_def in_set_conv_nth)
  qed
  have "honest H m p ?pkt"
    using sender inputs hashes set_window_from [of xs] xs cf n(2) truthful_le [of H cf _ _ m]
    by (auto simp: honest_def dest!: collect_hashes_reported)
  moreover have ok: "packet_ok ?pkt"
    using sender inputs hashes other pl length_window_from [of xs]
      collect_hashes_ordered [of s ?f 0 kMaxConfirmedHashes]
      length_collect_hashes [of s ?f "[0..<kMaxConfirmedHashes]"]
    by (auto simp: packet_ok_def pt_input_def pt_hello_def valid_packet_type_def kMaxConfirmedHashes_def
        plain_input_def)
  moreover have "plain_packet ?pkt" using inputs pl by (auto simp: plain_packet_def plain_input_def)
  moreover have "length (body_bytes ?pkt @ le_bytes (crc32 (body_bytes ?pkt))) \<le> kMaxPacketBytes"
    using packet_ok_payload [OF ok] by (simp add: body_bytes_def kMaxPacketBytes_def)
  ultimately show ?thesis by (auto simp: decode_packet_iff encode_packet_iff)
qed

definition other_end :: "PlayerId \<Rightarrow> Endpoint" where
  "other_end p = (if p = PA then EP_b else EP_a)"

text \<open>A datagram in flight decodes to an honest packet of the peer at the other end.\<close>

definition honest_datagram :: "Histories \<Rightarrow> nat \<Rightarrow> Endpoint \<times> Endpoint \<times> byte list \<times> LogicalTick \<Rightarrow> bool" where
  "honest_datagram H m = (\<lambda>(src, dst, bytes, _). \<exists>p pkt. dst = other_end p
     \<and> decode_packet bytes = Inr pkt \<and> honest H m p pkt)"

lemma honest_datagram_mono:
  "honest_datagram H m x \<Longrightarrow> numbered H m \<Longrightarrow> extends H H' \<Longrightarrow> m \<le> m' \<Longrightarrow> honest_datagram H' m' x"
  unfolding honest_datagram_def by (auto intro: honest_mono)

text \<open>
  The network's part of the invariant, from the laws of \<open>datagram_network\<close>.
\<close>

definition network_ok :: "Histories \<Rightarrow> nat \<Rightarrow> SeededTransport \<Rightarrow> bool" where
  "network_ok H m t \<longleftrightarrow> transport_inv t \<and> (\<forall>x \<in> in_flight t. honest_datagram H m x)"

lemma send_packet_ok:
  assumes f: "follows p H c R s" and n: "numbered H m" "c \<le> m" and t: "network_ok H m t"
    and r: "send_packet cap (make_packet s (H p) sid sq) src (other_end p) tick t tx = (r, t', tx')"
  shows "network_ok H m t'
    \<and> (\<forall>e. r = Inl e \<longrightarrow> err_code e = EC_queue_overflow \<or> err_code e = EC_invalid_argument)"
proof -
  let ?pkt = "make_packet s (H p) sid sq"
  from make_packet_honest [OF f n subset_refl] obtain bytes where b: "honest H m p ?pkt"
    "encode_packet ?pkt = Inr bytes" "decode_packet bytes = Inr ?pkt" "length bytes \<le> kMaxPacketBytes" by blast
  obtain r1 t1 where s1: "send src (other_end p) bytes tick t = (r1, t1)" by fastforce
  have "honest_datagram H m (src, other_end p, bytes, tick)"
    using b by (auto simp: honest_datagram_def)
  with seeded.transmit_all [of t "honest_datagram H m" src "other_end p" bytes tick] t s1
  have "network_ok H m t1" by (simp add: network_ok_def)
  moreover have "t' = t1" "(\<exists>e. r1 = Inl e \<and> r = Inl e) \<or> r = Inr ()"
    using r b(2) s1 by (auto simp: send_packet_def split: sum.splits)
  moreover have "err_code e = EC_queue_overflow \<or> err_code e = EC_invalid_argument" if "r1 = Inl e" for e
    using s1 that b(4)
    by (auto simp: send_def ensure_capacity_def Let_def split: if_splits prod.splits sum.splits)
  ultimately show ?thesis by blast
qed

lemma deliver_honest:
  assumes "network_ok H m t" "deliver tick t = (ds, t')"
  shows "network_ok H m t'
    \<and> (\<forall>d \<in> set ds. \<exists>p pkt. dl_to d = other_end p \<and> decode_packet (dl_bytes d) = Inr pkt \<and> honest H m p pkt)"
  using seeded.poll_all [of t "honest_datagram H m" tick] assms
  by (fastforce simp: network_ok_def honest_datagram_def)

section \<open>Deliveries keep the invariant\<close>

definition peer_of :: "PlayerId \<Rightarrow> LiveScenario \<Rightarrow> RollbackSession" where
  "peer_of p st = (if p = PA then lv_peer_a st else lv_peer_b st)"

definition window_of :: "PlayerId \<Rightarrow> LiveScenario \<Rightarrow> SequenceWindow" where
  "window_of p st = (if p = PA then lv_at_a st else lv_at_b st)"

definition peers_ok :: "Histories \<Rightarrow> nat \<Rightarrow> (PlayerId \<Rightarrow> RemoteLog) \<Rightarrow> LiveScenario \<Rightarrow> bool" where
  "peers_ok H c R st \<longleftrightarrow> (\<forall>p. follows p H c (R p) (peer_of p st))
     \<and> dt_diagnostic (lv_desync_a st) = None \<and> dt_diagnostic (lv_desync_b st) = None"

text \<open>The part of the run that deliveries do not touch.\<close>

definition run_core where
  "run_core st = (lv_config st, lv_transport_config st, lv_transport st,
     (lv_history_a st, lv_history_b st), replay_of st,
     (sa_report (lv_artifacts st), sa_desync_diagnostic (lv_artifacts st)), lv_replay_state st,
     (lv_sequence_a st, lv_sequence_b st), lv_tick_index st, (lv_finished st, lv_failure st),
     (tx_frames (trace_of st), tx_sample_interval (trace_of st), tx_omitted_frame_samples (trace_of st)))"

lemma peer_of_updates [simp]:
  "peer_of p (st\<lparr>lv_transport := t\<rparr>) = peer_of p st"
  "peer_of p (st\<lparr>lv_sequence_a := i, lv_sequence_b := j\<rparr>) = peer_of p st"
  "peer_of p (st\<lparr>lv_tick_index := i\<rparr>) = peer_of p st"
  "peer_of p (st\<lparr>lv_finished := b\<rparr>) = peer_of p st"
  "peer_of p (st\<lparr>lv_failure := e\<rparr>) = peer_of p st"
  by (simp_all add: peer_of_def)

lemma receiver_at_other_end [simp]: "receiver_at (other_end p) st = peer_of (other_peer p) st"
  by (cases p) (simp_all add: receiver_at_def other_end_def peer_of_def other_peer_def)

lemma peer_of_set_receiver:
  "peer_of q (set_receiver (other_end p) s st) = (if q = other_peer p then s else peer_of q st)"
  by (cases p; cases q) (simp_all add: set_receiver_def other_end_def peer_of_def other_peer_def)

lemma set_receiver_fields [simp]:
  "run_core (set_receiver ep s st) = run_core st" "window_of q (set_receiver ep s st) = window_of q st"
  "lv_desync_a (set_receiver ep s st) = lv_desync_a st" "lv_desync_b (set_receiver ep s st) = lv_desync_b st"
  by (simp_all add: set_receiver_def run_core_def window_of_def)

lemma set_trace_fields [simp]:
  "peer_of q (set_trace tx st) = peer_of q st" "window_of q (set_trace tx st) = window_of q st"
  "lv_desync_a (set_trace tx st) = lv_desync_a st" "lv_desync_b (set_trace tx st) = lv_desync_b st"
  "trace_of (set_trace tx st) = tx"
  by (simp_all add: set_trace_def peer_of_def window_of_def)

lemma run_core_set_trace:
  "tx_frames tx = tx_frames (trace_of st) \<Longrightarrow> tx_sample_interval tx = tx_sample_interval (trace_of st)
    \<Longrightarrow> tx_omitted_frame_samples tx = tx_omitted_frame_samples (trace_of st)
    \<Longrightarrow> run_core (set_trace tx st) = run_core st"
  by (simp add: set_trace_def run_core_def)

lemma push_packet_event_fields [simp]:
  "tx_frames (push_packet_event ev tx) = tx_frames tx"
  "tx_sample_interval (push_packet_event ev tx) = tx_sample_interval tx"
  "tx_omitted_frame_samples (push_packet_event ev tx) = tx_omitted_frame_samples tx"
  by (simp_all add: push_packet_event_def)

lemma record_rollback_fields [simp]:
  "tx_frames (record_rollback s cr tx) = tx_frames tx"
  "tx_sample_interval (record_rollback s cr tx) = tx_sample_interval tx"
  "tx_omitted_frame_samples (record_rollback s cr tx) = tx_omitted_frame_samples tx"
  by (simp_all add: record_rollback_def)

lemma record_correction_fields [simp]:
  "run_core (record_correction ep s w cr st) = run_core st"
  "peer_of q (record_correction ep s w cr st) = peer_of q st"
  "window_of q (record_correction ep s w cr st) = window_of q st"
  "lv_desync_a (record_correction ep s w cr st) = lv_desync_a st"
  "lv_desync_b (record_correction ep s w cr st) = lv_desync_b st"
  by (simp_all add: record_correction_def Let_def set_trace_def run_core_def peer_of_def window_of_def)

text \<open>Comparing true hashes changes nothing: no difference is ever found.\<close>

lemma compare_hashes_truthful:
  assumes "follows q H c R (peer_of q st)" "numbered H m" "c \<le> m"
    and "\<forall>h \<in> set hs. truthful H m (ch_frame h) (ch_hash h)" "ep = other_end (other_peer q)"
  shows "compare_hashes ep hs st = st"
  using assms(4)
proof (induction hs)
  case (Cons h hs)
  have "local_hash = ch_hash h" if l: "hash_at (receiver_at ep st) (ch_frame h) = Inr local_hash" for local_hash
  proof -
    have "truthful H m (ch_frame h) local_hash" using follows_hash [OF assms(1-3)] l assms(5) by simp
    with Cons.prems numberedD(1) [OF assms(2)] show ?thesis by (auto intro: truthful_unique)
  qed
  then have "(case hash_at (receiver_at ep st) (ch_frame h) of
          Inl _ \<Rightarrow> st
        | Inr local_hash \<Rightarrow>
            if local_hash = ch_hash h then st
            else (case state_at (receiver_at ep st) (ch_frame h) of
                    Inl _ \<Rightarrow> st
                  | Inr local_state \<Rightarrow> note_desync ep h local_hash local_state st)) = st"
    by (auto split: sum.splits)
  with Cons show ?case by simp
qed simp

lemma peers_okD: "peers_ok H c R st \<Longrightarrow> follows p H c (R p) (peer_of p st)"
  by (simp add: peers_ok_def)

definition heard_more :: "(PlayerId \<Rightarrow> RemoteLog) \<Rightarrow> (PlayerId \<Rightarrow> RemoteLog) \<Rightarrow> bool" where
  "heard_more R R' \<longleftrightarrow> (\<forall>q. dom (R q) \<subseteq> dom (R' q))"

lemma heard_more_refl [simp]: "heard_more R R"
  by (simp add: heard_more_def)

lemma heard_more_trans: "heard_more R R' \<Longrightarrow> heard_more R' R'' \<Longrightarrow> heard_more R R''"
  unfolding heard_more_def by blast

definition input_frames :: "Packet \<Rightarrow> nat set" where
  "input_frames pkt = (\<lambda>x. unat (in_frame x)) ` set (pk_inputs pkt)"

lemma accept_packet_ok:
  assumes p: "peers_ok H c R st" and n: "numbered H m" "c \<le> m" "m \<le> Suc c"
    and h: "honest H m p pkt" and r: "accept_packet (other_end p) pkt st = (r, st')"
  shows "\<exists>R'. peers_ok H c R' st' \<and> heard_more R R' \<and> run_core st' = run_core st
    \<and> (\<forall>q. window_of q st' = window_of q st) \<and> (\<forall>q. s_config (peer_of q st') = s_config (peer_of q st))
    \<and> (r = Inr () \<longrightarrow> input_frames pkt \<subseteq> dom (R' (other_peer p)))
    \<and> (\<forall>e. r = Inl e \<longrightarrow> err_code e = EC_rollback_window_exceeded \<and> (\<exists>i \<in> input_frames pkt.
          i + rollback_window (s_config (peer_of (other_peer p) st)) < c))"
proof -
  let ?q = "other_peer p" and ?ep = "other_end p"
  obtain r1 s1 where i: "ingest_all (pk_inputs pkt) (peer_of ?q st) = (r1, s1)" by fastforce
  have xs: "set (pk_inputs pkt) \<subseteq> set (H (other_peer ?q))" using h by (simp add: honest_def)
  from ingest_all_follows [OF peers_okD [OF p] n(1,2) disjI1 [OF n(3)] xs i] obtain R1 where
    f1: "follows ?q H c R1 s1" "dom (R ?q) \<subseteq> dom R1" and
    got: "r1 = Inr () \<longrightarrow> input_frames pkt \<subseteq> dom R1" and
    cfg: "s_config s1 = s_config (peer_of ?q st)" and
    err: "\<forall>e. r1 = Inl e \<longrightarrow> err_code e = EC_rollback_window_exceeded \<and> (\<exists>i \<in> input_frames pkt.
          i + rollback_window (s_config (peer_of ?q st)) < c)"
    by (auto simp: input_frames_def)
  have ok: "peers_ok H c (R(?q := R1)) st2" if "peer_of ?q st2 = s2" "follows ?q H c R1 s2"
    "peer_of p st2 = peer_of p st" "lv_desync_a st2 = lv_desync_a st" "lv_desync_b st2 = lv_desync_b st" for st2 s2
  proof -
    have "follows x H c ((R(?q := R1)) x) (peer_of x st2)" for x
    proof (cases "x = ?q")
      case True
      with that show ?thesis by simp
    next
      case False
      then have "x = p" by (cases x; cases p) (simp_all add: other_peer_def)
      with False that(3) peers_okD [OF p, of p] show ?thesis by simp
    qed
    with p that show ?thesis by (simp add: peers_ok_def)
  qed
  have more: "heard_more R (R(?q := R1))" using f1(2) by (simp add: heard_more_def)
  have pq: "p \<noteq> ?q" by (cases p) (simp_all add: other_peer_def)
  show ?thesis
  proof (cases r1)
    case (Inl e)
    then have st': "r = Inl e" "st' = set_receiver ?ep s1 st" using r i by (simp_all add: accept_packet_def)
    then have "peers_ok H c (R(?q := R1)) st'"
      using f1(1) pq by (intro ok) (simp_all add: peer_of_set_receiver)
    with st' more err Inl cfg show ?thesis
      by (intro exI [of _ "R(?q := R1)"]) (auto simp: peer_of_set_receiver)
  next
    case (Inr u)
    from flush_follows [OF f1(1) n(1,2)] obtain cr s2 where
      fl: "flush_corrections s1 = (Inr cr, s2)" "follows ?q H c R1 s2" "s_config s2 = s_config s1" by blast
    define st1 where "st1 = set_receiver ?ep s2 st"
    define st3 where "st3 = record_correction ?ep s2 (s_state s1) cr st1"
    have r': "r = Inr ()" "st' = compare_hashes ?ep (pk_confirmed_hashes pkt) st3"
      using r i fl(1) Inr by (simp_all add: accept_packet_def Let_def st1_def st3_def)
    have c3: "run_core st3 = run_core st1" "\<And>x. peer_of x st3 = peer_of x st1"
      "\<And>x. window_of x st3 = window_of x st1"
      "lv_desync_a st3 = lv_desync_a st1" "lv_desync_b st3 = lv_desync_b st1"
      by (simp_all add: st3_def)
    have c1: "run_core st1 = run_core st" "peer_of ?q st1 = s2" "peer_of p st1 = peer_of p st"
      "\<And>x. window_of x st1 = window_of x st" "lv_desync_a st1 = lv_desync_a st" "lv_desync_b st1 = lv_desync_b st"
      using pq by (simp_all add: st1_def peer_of_set_receiver)
    have f3: "follows ?q H c R1 (peer_of ?q st3)" using fl(2) c1 c3 by simp
    have "compare_hashes ?ep (pk_confirmed_hashes pkt) st3 = st3"
      using h by (intro compare_hashes_truthful [OF f3 n(1,2)]) (simp_all add: honest_def)
    with r' have st': "r = Inr ()" "st' = st3" by simp_all
    have "peers_ok H c (R(?q := R1)) st'"
      using fl(2) c1 c3 st' by (intro ok) simp_all
    moreover have "s_config (peer_of x st') = s_config (peer_of x st)" for x
      using fl(3) cfg c1 c3 st' pq by (cases "x = ?q"; cases x; cases p) (simp_all add: other_peer_def)
    ultimately show ?thesis using st' more got Inr c1 c3
      by (intro exI [of _ "R(?q := R1)"]) simp
  qed
qed

lemma accept_cong_core: "run_core st' = run_core st \<Longrightarrow> lv_config st' = lv_config st"
  by (simp add: run_core_def)

text \<open>One delivery of an honest packet; \<open>dropped\<close> is the duplicate filter's verdict.\<close>

definition filtered :: "SequenceDisposition \<Rightarrow> bool" where
  "filtered d \<longleftrightarrow> d = SD_duplicate \<or> d = SD_stale"

lemma process_delivery_ok:
  assumes p: "peers_ok H c R st" and n: "numbered H m" "c \<le> m" "m \<le> Suc c"
    and d: "dl_to d = other_end p" "decode_packet (dl_bytes d) = Inr pkt" "honest H m p pkt"
    and r: "process_delivery d st = (r, st')"
  shows "\<exists>R'. peers_ok H c R' st' \<and> heard_more R R' \<and> run_core st' = run_core st
    \<and> (\<forall>q. s_config (peer_of q st') = s_config (peer_of q st))
    \<and> (\<forall>q. window_of q st' = (if q = other_peer p then snd (observe (pk_sequence pkt) (window_of q st))
            else window_of q st))
    \<and> (r = Inr () \<longrightarrow> \<not> filtered (fst (observe (pk_sequence pkt) (window_of (other_peer p) st)))
          \<longrightarrow> input_frames pkt \<subseteq> dom (R' (other_peer p)))
    \<and> (\<forall>e. r = Inl e \<longrightarrow> err_code e = EC_rollback_window_exceeded \<and> (\<exists>i \<in> input_frames pkt.
          i + rollback_window (s_config (peer_of (other_peer p) st)) < c))"
proof -
  let ?q = "other_peer p"
  obtain disposition w where o: "observe (pk_sequence pkt) (window_of ?q st) = (disposition, w)" by fastforce
  define st1 where "st1 = (if other_end p = EP_a then st\<lparr>lv_at_a := w\<rparr> else st\<lparr>lv_at_b := w\<rparr>)"
  define st2 where "st2 = (if capturing st1
     then set_trace (push_packet_event
            \<lparr>pe_tick = dl_delivered_at d, pe_kind = PTK_delivered, pe_from = dl_from d, pe_to = dl_to d,
             pe_sequence = pk_sequence pkt\<rparr> (trace_of st1)) st1
     else st1)"
  have wq: "(if other_end p = EP_a then lv_at_a st else lv_at_b st) = window_of ?q st"
    by (cases p) (simp_all add: other_end_def other_peer_def window_of_def)
  have step: "process_delivery d st = (if filtered disposition then (Inr (), st2)
      else accept_packet (other_end p) pkt st2)"
    by (simp add: process_delivery_def d Let_def wq o filtered_def st2_def st1_def)
  have same1: "run_core st1 = run_core st" "\<And>x. peer_of x st1 = peer_of x st"
      "lv_desync_a st1 = lv_desync_a st" "lv_desync_b st1 = lv_desync_b st"
    by (simp_all add: st1_def run_core_def peer_of_def)
  have same1w: "window_of x st1 = (if x = ?q then w else window_of x st)" for x
    by (cases p; cases x) (simp_all add: st1_def window_of_def other_end_def other_peer_def)
  have same: "run_core st2 = run_core st" "\<And>x. peer_of x st2 = peer_of x st"
      "lv_desync_a st2 = lv_desync_a st" "lv_desync_b st2 = lv_desync_b st"
      "\<And>x. window_of x st2 = (if x = ?q then w else window_of x st)"
    using same1 same1w by (simp_all add: st2_def run_core_set_trace)
  have p2: "peers_ok H c R st2" using p same by (simp add: peers_ok_def)
  show ?thesis
  proof (cases "filtered disposition")
    case True
    with r step same p2 o show ?thesis by (intro exI [of _ R]) auto
  next
    case False
    with r step have "accept_packet (other_end p) pkt st2 = (r, st')" by simp
    from accept_packet_ok [OF p2 n d(3) this] same o show ?thesis by auto
  qed
qed

text \<open>
  Whatever is delivered: the peers keep following the run, and the only error is an input older
  than the rollback window.
\<close>

definition honest_delivery :: "Histories \<Rightarrow> nat \<Rightarrow> Delivery \<Rightarrow> bool" where
  "honest_delivery H m d \<longleftrightarrow> (\<exists>p pkt. dl_to d = other_end p
     \<and> decode_packet (dl_bytes d) = Inr pkt \<and> honest H m p pkt)"

lemma process_deliveries_ok:
  assumes "peers_ok H c R st" "numbered H m" "c \<le> m" "m \<le> Suc c" "\<forall>d \<in> set ds. honest_delivery H m d"
    and "process_deliveries ds st = (r, st')"
  shows "\<exists>R'. peers_ok H c R' st' \<and> run_core st' = run_core st
    \<and> (\<forall>e. r = Inl e \<longrightarrow> err_code e = EC_rollback_window_exceeded)"
  using assms(1,5,6)
proof (induction ds arbitrary: R st)
  case Nil
  then show ?case by auto
next
  case (Cons d ds)
  obtain r1 st1 where r1: "process_delivery d st = (r1, st1)" by fastforce
  from Cons.prems(2) obtain p pkt where d: "dl_to d = other_end p"
    "decode_packet (dl_bytes d) = Inr pkt" "honest H m p pkt" by (auto simp: honest_delivery_def)
  from process_delivery_ok [OF Cons.prems(1) assms(2-4) d r1] obtain R1 where
    R1: "peers_ok H c R1 st1" "run_core st1 = run_core st"
      "\<forall>e. r1 = Inl e \<longrightarrow> err_code e = EC_rollback_window_exceeded" by blast
  show ?case
  proof (cases r1)
    case (Inl e)
    with R1 r1 Cons.prems(3) show ?thesis by auto
  next
    case (Inr u)
    with r1 Cons.prems(3) have "process_deliveries ds st1 = (r, st')" by simp
    from Cons.IH [OF R1(1) _ this] Cons.prems(2) R1(2) show ?thesis by auto
  qed
qed

lemma process_tick_ok:
  assumes p: "peers_ok H c R st" and n: "numbered H m" "c \<le> m" "m \<le> Suc c"
    and t: "network_ok H m (lv_transport st)" and r: "process_tick tick st = (r, st')"
  shows "\<exists>R' t'. peers_ok H c R' st' \<and> network_ok H m t' \<and> run_core st' = run_core (st\<lparr>lv_transport := t'\<rparr>)
    \<and> (\<forall>e. r = Inl e \<longrightarrow> err_code e = EC_rollback_window_exceeded)"
proof -
  obtain ds t' where d: "deliver tick (lv_transport st) = (ds, t')" by fastforce
  from deliver_honest [OF t d] have h: "network_ok H m t'" "\<forall>d \<in> set ds. honest_delivery H m d"
    by (auto simp: honest_delivery_def)
  have "peers_ok H c R (st\<lparr>lv_transport := t'\<rparr>)" using p by (simp add: peers_ok_def)
  from process_deliveries_ok [OF this n h(2), of r st'] r d h(1) show ?thesis
    by (auto simp: process_tick_def)
qed

lemma process_tick_transport: "run_core st' = run_core (st\<lparr>lv_transport := t'\<rparr>) \<Longrightarrow> lv_transport st' = t'"
  by (simp add: run_core_def)

section \<open>A tick keeps the invariant\<close>

definition base_core where
  "base_core st = (lv_config st, lv_transport_config st, (lv_history_a st, lv_history_b st), replay_of st,
     (sa_report (lv_artifacts st), sa_desync_diagnostic (lv_artifacts st)), lv_replay_state st,
     lv_tick_index st, (lv_finished st, lv_failure st),
     (tx_frames (trace_of st), tx_sample_interval (trace_of st), tx_omitted_frame_samples (trace_of st)))"

lemma base_core_of_run_core: "run_core st' = run_core st \<Longrightarrow> base_core st' = base_core st"
  by (simp add: run_core_def base_core_def)

lemma base_core_updates [simp]:
  "base_core (st\<lparr>lv_transport := t\<rparr>) = base_core st"
  "base_core (st\<lparr>lv_sequence_a := i, lv_sequence_b := j\<rparr>) = base_core st"
  by (simp_all add: base_core_def)

definition hist :: "LiveScenario \<Rightarrow> Histories" where
  "hist st = (\<lambda>p. if p = PA then lv_history_a st else lv_history_b st)"

lemma hist_base: "base_core st' = base_core st \<Longrightarrow> hist st' = hist st"
  by (intro ext) (simp add: base_core_def hist_def)

definition live_error :: "Error \<Rightarrow> bool" where
  "live_error e \<longleftrightarrow> err_code e \<in> {EC_invalid_argument, EC_queue_overflow, EC_rollback_window_exceeded}"

lemma record_send_effects_fields [simp]:
  "tx_frames (record_send_effects cap tick src dst sq before after tx) = tx_frames tx"
  "tx_sample_interval (record_send_effects cap tick src dst sq before after tx) = tx_sample_interval tx"
  "tx_omitted_frame_samples (record_send_effects cap tick src dst sq before after tx) = tx_omitted_frame_samples tx"
  by (simp_all add: record_send_effects_def Let_def)

lemma send_packet_trace:
  assumes "send_packet cap pkt src dst tick t tx = (r, t', tx')"
  shows "tx_frames tx' = tx_frames tx \<and> tx_sample_interval tx' = tx_sample_interval tx
    \<and> tx_omitted_frame_samples tx' = tx_omitted_frame_samples tx"
  using assms by (auto simp: send_packet_def split: sum.splits prod.splits)

lemma exchange_packets_ok:
  assumes p: "peers_ok (hist st) c R st" and n: "numbered (hist st) m" "c \<le> m" "m \<le> Suc c"
    and t: "network_ok (hist st) m (lv_transport st)" and r: "exchange_packets tick st = (r, st')"
  shows "\<exists>R'. peers_ok (hist st) c R' st' \<and> network_ok (hist st) m (lv_transport st')
    \<and> base_core st' = base_core st \<and> (\<forall>e. r = Inl e \<longrightarrow> live_error e)"
proof -
  let ?H = "hist st" and ?seed = "sc_scenario_seed (lv_config st)"
  define pa where "pa = make_packet (lv_peer_a st) (lv_history_a st) ?seed (lv_sequence_a st)"
  define pb where "pb = make_packet (lv_peer_b st) (lv_history_b st) ?seed (lv_sequence_b st)"
  obtain ra t1 tx1 where a: "send_packet (capturing st) pa EP_a EP_b tick (lv_transport st) (trace_of st)
      = (ra, t1, tx1)" by (metis prod_cases3)
  obtain rb t2 tx2 where b: "send_packet (capturing st) pb EP_b EP_a tick t1 tx1 = (rb, t2, tx2)"
    by (metis prod_cases3)
  have fa: "follows PA ?H c (R PA) (lv_peer_a st)" and fb: "follows PB ?H c (R PB) (lv_peer_b st)"
    using peers_okD [OF p, of PA] peers_okD [OF p, of PB] by (simp_all add: peer_of_def)
  have a': "send_packet (capturing st) (make_packet (lv_peer_a st) (?H PA) ?seed (lv_sequence_a st))
      EP_a (other_end PA) tick (lv_transport st) (trace_of st) = (ra, t1, tx1)"
    and b': "send_packet (capturing st) (make_packet (lv_peer_b st) (?H PB) ?seed (lv_sequence_b st))
      EP_b (other_end PB) tick t1 tx1 = (rb, t2, tx2)"
    using a b by (simp_all add: pa_def pb_def hist_def other_end_def)
  from send_packet_ok [OF fa n(1,2) t a'] have oa: "network_ok ?H m t1" "\<forall>e. ra = Inl e \<longrightarrow> live_error e"
    by (auto simp: live_error_def)
  from send_packet_ok [OF fb n(1,2) oa(1) b'] have ob: "network_ok ?H m t2" "\<forall>e. rb = Inl e \<longrightarrow> live_error e"
    by (auto simp: live_error_def)
  define st0 where "st0 = st\<lparr>lv_sequence_a := lv_sequence_a st + 1, lv_sequence_b := lv_sequence_b st + 1\<rparr>"
  define st1 where "st1 = set_trace tx2 (st0\<lparr>lv_transport := t2\<rparr>)"
  have s0: "base_core (st0\<lparr>lv_transport := t2\<rparr>) = base_core st" "trace_of (st0\<lparr>lv_transport := t2\<rparr>) = trace_of st"
      "peers_ok ?H c R (st0\<lparr>lv_transport := t2\<rparr>)"
    using p by (simp_all add: st0_def peers_ok_def)
  have rc: "run_core st1 = run_core (st0\<lparr>lv_transport := t2\<rparr>)"
    unfolding st1_def using send_packet_trace [OF a] send_packet_trace [OF b] s0(2)
    by (intro run_core_set_trace) simp_all
  have s1: "base_core st1 = base_core st" "lv_transport st1 = t2"
    using base_core_of_run_core [OF rc] s0(1) process_tick_transport [OF rc] by simp_all
  have p1: "peers_ok ?H c R st1" using s0(3) by (simp add: st1_def peers_ok_def)
  have eq: "exchange_packets tick st = (case (ra, rb) of (Inl e, _) \<Rightarrow> (Inl e, st1)
      | (Inr _, Inl e) \<Rightarrow> (Inl e, st1) | (Inr _, Inr _) \<Rightarrow> process_tick tick st1)"
    using a b by (cases ra; cases rb) (simp_all add: exchange_packets_def Let_def pa_def pb_def st1_def st0_def)
  show ?thesis
  proof (cases "ok ra \<and> ok rb")
    case True
    then have pt: "process_tick tick st1 = (r, st')" using r eq by (auto simp: ok_iff)
    from process_tick_ok [OF p1 n _ pt] s1 ob(1) obtain R' t' where
      o: "peers_ok ?H c R' st'" "network_ok ?H m t'" "run_core st' = run_core (st1\<lparr>lv_transport := t'\<rparr>)"
        "\<forall>e. r = Inl e \<longrightarrow> err_code e = EC_rollback_window_exceeded" by auto
    then show ?thesis using s1(1) process_tick_transport [OF o(3)] base_core_of_run_core [OF o(3)]
      by (auto simp: live_error_def)
  next
    case False
    then have "st' = st1" "\<exists>e. r = Inl e \<and> live_error e" using r eq oa(2) ob(2)
      by (auto split: sum.splits)
    then show ?thesis using p1 s1 ob(1) by auto
  qed
qed

section \<open>The trace has room\<close>

definition trace_inv :: "nat \<Rightarrow> LiveScenario \<Rightarrow> bool" where
  "trace_inv m st \<longleftrightarrow>
     tx_sample_interval (trace_of st) = trace_sample_interval (sc_frame_count (lv_config st))
   \<and> tx_omitted_frame_samples (trace_of st) = 0
   \<and> length (tx_frames (trace_of st)) \<le> Suc (card (sampled_frames (unat (sc_frame_count (lv_config st))) \<inter> {..m}))"

lemma trace_inv_base: "base_core st' = base_core st \<Longrightarrow> trace_inv m st' = trace_inv m st"
  by (simp add: base_core_def trace_inv_def)

lemma sample_condition:
  fixes fc :: u32
  assumes "m < unat fc"
  shows "((of_nat m + 1) mod trace_sample_interval fc = 0 \<or> of_nat m + 1 = fc)
    \<longleftrightarrow> Suc m \<in> sampled_frames (unat fc)"
proof -
  have u: "unat (of_nat m + 1 :: u32) = Suc m"
  proof -
    have "Suc m < 4294967296" using assms unat_less_len32 [of fc] by linarith
    then show ?thesis using unat_of_nat_u32 [of "Suc m"] by (simp add: add.commute)
  qed
  have "(of_nat m + 1) mod trace_sample_interval fc = 0 \<longleftrightarrow> Suc m mod unat (trace_sample_interval fc) = 0"
    by (simp only: word_unat_eq_iff unat_mod_distrib u unat_0)
  moreover have "of_nat m + 1 = fc \<longleftrightarrow> Suc m = unat fc" by (simp only: word_unat_eq_iff u)
  ultimately show ?thesis using assms by (auto simp: sampled_frames_def)
qed

lemma sample_frame_inv:
  assumes t: "trace_inv m st" and m: "m < unat (sc_frame_count (lv_config st))"
  shows "trace_inv (Suc m) (sample_frame (of_nat m) st)"
proof -
  define S where "S = sampled_frames (unat (sc_frame_count (lv_config st)))"
  have S: "finite S" "card S + 1 \<le> kMaxTraceFrames"
    using sampled_frames_bound [of "unat (sc_frame_count (lv_config st))"] by (simp_all add: S_def)
  have up: "S \<inter> {..Suc m} = (if Suc m \<in> S then insert (Suc m) (S \<inter> {..m}) else S \<inter> {..m})"
    by (auto simp: le_Suc_eq)
  have card: "card (S \<inter> {..Suc m}) = (if Suc m \<in> S then Suc (card (S \<inter> {..m})) else card (S \<inter> {..m}))"
    using S(1) by (simp add: up)
  have room: "Suc (card (S \<inter> {..m})) < kMaxTraceFrames" if "Suc m \<in> S"
  proof -
    have "card (S \<inter> {..Suc m}) \<le> card S" using S(1) by (intro card_mono) auto
    with that card S(2) show ?thesis by simp
  qed
  have cond: "((of_nat m + 1) mod tx_sample_interval (trace_of st) = 0
      \<or> of_nat m + 1 = sc_frame_count (lv_config st)) \<longleftrightarrow> Suc m \<in> S"
    using sample_condition [OF m] t by (simp add: trace_inv_def S_def)
  have len: "length (tx_frames (trace_of st)) \<le> Suc (card (S \<inter> {..m}))"
    using t by (simp add: trace_inv_def S_def)
  show ?thesis
  proof (cases "Suc m \<in> S \<and> capturing st")
    case True
    then have "length (tx_frames (trace_of st)) < kMaxTraceFrames" using room len by simp
    with True show ?thesis using t len card cond
      by (simp add: sample_frame_def Let_def trace_inv_def set_trace_def flip: S_def)
  next
    case False
    then have "sample_frame (of_nat m) st = st" using cond by (auto simp: sample_frame_def Let_def)
    then show ?thesis using t card by (simp add: trace_inv_def flip: S_def)
  qed
qed

section \<open>A played frame\<close>

definition frame_core where
  "frame_core st = (lv_config st, lv_transport_config st, (lv_history_a st, lv_history_b st),
     (sa_report (lv_artifacts st), sa_desync_diagnostic (lv_artifacts st)), lv_replay_state st,
     lv_tick_index st, (lv_finished st, lv_failure st))"

lemma frame_core_base: "base_core st' = base_core st \<Longrightarrow> frame_core st' = frame_core st"
  by (simp add: base_core_def frame_core_def)

lemma sample_frame_fields [simp]:
  "frame_core (sample_frame f st) = frame_core st" "replay_of (sample_frame f st) = replay_of st"
  "peer_of p (sample_frame f st) = peer_of p st" "lv_transport (sample_frame f st) = lv_transport st"
  "lv_desync_a (sample_frame f st) = lv_desync_a st" "lv_desync_b (sample_frame f st) = lv_desync_b st"
  "window_of p (sample_frame f st) = window_of p st"
  "lv_sequence_a (sample_frame f st) = lv_sequence_a st" "lv_sequence_b (sample_frame f st) = lv_sequence_b st"
  by (simp_all add: sample_frame_def Let_def set_trace_def frame_core_def peer_of_def window_of_def)

lemma set_replay_fields [simp]:
  "frame_core (set_replay rp st) = frame_core st" "replay_of (set_replay rp st) = rp"
  "peer_of p (set_replay rp st) = peer_of p st" "lv_transport (set_replay rp st) = lv_transport st"
  "lv_desync_a (set_replay rp st) = lv_desync_a st" "lv_desync_b (set_replay rp st) = lv_desync_b st"
  "window_of p (set_replay rp st) = window_of p st" "trace_inv m (set_replay rp st) = trace_inv m st"
  "lv_sequence_a (set_replay rp st) = lv_sequence_a st" "lv_sequence_b (set_replay rp st) = lv_sequence_b st"
  by (simp_all add: set_replay_def frame_core_def peer_of_def window_of_def trace_inv_def)

lemma frame_coreD:
  assumes "frame_core st' = frame_core st"
  shows "lv_config st' = lv_config st" "hist st' = hist st" "lv_replay_state st' = lv_replay_state st"
    "lv_tick_index st' = lv_tick_index st" "lv_finished st' = lv_finished st" "lv_failure st' = lv_failure st"
    "sa_report (lv_artifacts st') = sa_report (lv_artifacts st)"
    "sa_desync_diagnostic (lv_artifacts st') = sa_desync_diagnostic (lv_artifacts st)"
    "lv_transport_config st' = lv_transport_config st"
proof -
  show "hist st' = hist st" using assms by (intro ext) (simp add: frame_core_def hist_def)
qed (use assms in \<open>simp_all add: frame_core_def\<close>)

lemma advance_peers_ok:
  assumes p: "peers_ok H m R st" and n: "numbered H (Suc m)"
    and t: "trace_inv m st" "m < unat (sc_frame_count (lv_config st))"
  shows "\<exists>st'. advance_peers (of_nat m) (H PA ! m) (H PB ! m) st = (Inr (), st')
    \<and> peers_ok H (Suc m) R st' \<and> frame_core st' = frame_core st \<and> lv_transport st' = lv_transport st
    \<and> trace_inv (Suc m) st' \<and> (\<forall>q. window_of q st' = window_of q st)
    \<and> lv_sequence_a st' = lv_sequence_a st \<and> lv_sequence_b st' = lv_sequence_b st
    \<and> (\<forall>q. s_config (peer_of q st') = s_config (peer_of q st))
    \<and> replay_of st' = (if lv_tick_index st + 1 = sc_frame_count (lv_config st)
         then (replay_of st)\<lparr>rp_expected_final_hash := hash_canonical (lv_replay_state st)\<rparr>
         else replay_of st)"
proof -
  have fa: "follows PA H m (R PA) (lv_peer_a st)" and fb: "follows PB H m (R PB) (lv_peer_b st)"
    using peers_okD [OF p, of PA] peers_okD [OF p, of PB] by (simp_all add: peer_of_def)
  from advance_follows [OF fa n lessI] obtain ra a where a: "advance (H PA ! m) (lv_peer_a st) = (Inr ra, a)"
    "follows PA H (Suc m) (R PA) a" "s_config a = s_config (lv_peer_a st)" by blast
  from advance_follows [OF fb n lessI] obtain rb b where b: "advance (H PB ! m) (lv_peer_b st) = (Inr rb, b)"
    "follows PB H (Suc m) (R PB) b" "s_config b = s_config (lv_peer_b st)" by blast
  define st1 where "st1 = st\<lparr>lv_peer_a := a, lv_peer_b := b\<rparr>"
  define st2 where "st2 = sample_frame (of_nat m) st1"
  define st3 where "st3 = (if lv_tick_index st2 + 1 = sc_frame_count (lv_config st2)
    then set_replay ((replay_of st2)\<lparr>rp_expected_final_hash := hash_canonical (lv_replay_state st2)\<rparr>) st2
    else st2)"
  have s1: "frame_core st1 = frame_core st" "replay_of st1 = replay_of st" "lv_transport st1 = lv_transport st"
      "trace_inv m st1" "\<And>q. window_of q st1 = window_of q st" "peer_of PA st1 = a" "peer_of PB st1 = b"
      "lv_sequence_a st1 = lv_sequence_a st" "lv_sequence_b st1 = lv_sequence_b st"
      "lv_desync_a st1 = lv_desync_a st" "lv_desync_b st1 = lv_desync_b st"
    using t by (simp_all add: st1_def frame_core_def trace_inv_def window_of_def peer_of_def)
  have c1: "lv_config st1 = lv_config st" by (simp add: st1_def)
  have tr: "trace_inv (Suc m) st2" using sample_frame_inv [OF s1(4)] t(2) c1 by (simp add: st2_def)
  have s2: "frame_core st2 = frame_core st" "replay_of st2 = replay_of st" using s1 by (simp_all add: st2_def)
  note f2 = frame_coreD [OF s2(1)]
  have r: "advance_peers (of_nat m) (H PA ! m) (H PB ! m) st = (Inr (), st3)"
    using a(1) b(1) by (simp add: advance_peers_def Let_def st1_def st2_def st3_def)
  have "follows q H (Suc m) (R q) (peer_of q st3)" for q
    using a(2) b(2) s1 by (cases q) (simp_all add: st3_def st2_def)
  then have "peers_ok H (Suc m) R st3"
    using p s1 by (simp add: peers_ok_def st3_def st2_def)
  moreover have "s_config (peer_of q st3) = s_config (peer_of q st)" for q
  proof -
    have "peer_of q st3 = peer_of q st1" by (simp add: st3_def st2_def)
    then show ?thesis using a(3) b(3) s1(6,7) by (cases q) (simp_all add: peer_of_def)
  qed
  moreover have "frame_core st3 = frame_core st" using s2 by (simp add: st3_def)
  moreover have "lv_transport st3 = lv_transport st" "trace_inv (Suc m) st3"
    "\<And>q. window_of q st3 = window_of q st" "lv_sequence_a st3 = lv_sequence_a st" "lv_sequence_b st3 = lv_sequence_b st"
    using tr s1 by (simp_all add: st3_def st2_def)
  moreover have "replay_of st3 = (if lv_tick_index st + 1 = sc_frame_count (lv_config st)
         then (replay_of st)\<lparr>rp_expected_final_hash := hash_canonical (lv_replay_state st)\<rparr>
         else replay_of st)"
    using f2 s2 by (simp add: st3_def)
  ultimately show ?thesis using r by blast
qed

definition pair_at :: "Histories \<Rightarrow> nat \<Rightarrow> InputPair" where
  "pair_at H i = \<lparr>pair_a = H PA ! i, pair_b = H PB ! i\<rparr>"

definition replay_so_far :: "Histories \<Rightarrow> nat \<Rightarrow> u32 \<Rightarrow> Replay \<Rightarrow> bool" where
  "replay_so_far H m fc r \<longleftrightarrow>
     replay_versions_ok (rp_replay_version r) (rp_simulation_version r) (rp_protocol_version r)
   \<and> rp_variant r = variant_canonical \<and> rp_final_frame r = fc
   \<and> rp_confirmed_inputs r = map (pair_at H) [0..<m]
   \<and> (\<forall>cp \<in> set (rp_checkpoints r). 0 < unat (rc_frame cp) \<and> unat (rc_frame cp) \<le> m
        \<and> (\<exists>w. truth H (unat (rc_frame cp)) = Inr w \<and> rc_hash cp = hash_canonical w))
   \<and> sorted_wrt before_checkpoint (rp_checkpoints r)"

lemma replay_so_far_extends:
  assumes r: "replay_so_far H m fc r" and n: "numbered H m" and e: "extends H H'"
  shows "replay_so_far H' m fc r"
proof -
  have "map (pair_at H') [0..<m] = map (pair_at H) [0..<m]"
    using extends_nth [OF e] numberedD(2) [OF n] by (simp add: pair_at_def)
  moreover have "truth H' k = truth H k" if "k \<le> m" for k using truth_extends [OF n e that] .
  ultimately show ?thesis using r by (simp add: replay_so_far_def)
qed

lemma replay_so_far_Suc:
  assumes r: "replay_so_far H m fc r" and m: "Suc m \<le> 1000000"
    and w: "truth H (Suc m) = Inr w" "ws_frame w = of_nat (Suc m)"
  shows "replay_so_far H (Suc m) fc (accumulate_checkpoint w force
      (r\<lparr>rp_confirmed_inputs := rp_confirmed_inputs r @ [pair_at H m]\<rparr>))"
proof -
  have "unat (ws_frame w) = Suc m"
    using w(2) m unat_of_nat_u32 [of "Suc m"] by (simp del: of_nat_Suc)
  then show ?thesis using r w(1)
    by (auto simp: replay_so_far_def accumulate_checkpoint_def sorted_wrt_append before_checkpoint_def
        less_Suc_eq_le le_Suc_eq)
qed

lemma replay_state_truth:
  assumes "numbered H m" "N \<le> m"
  shows "replay_state variant_canonical (map (pair_at H) [0..<m]) N = truth H N"
  using assms(2)
proof (induction N)
  case 0
  show ?case by (simp add: truth_def)
next
  case (Suc N)
  then have N: "N < m" by simp
  then have "N \<le> 1000000" using numberedD(1) [OF assms(1)] by simp
  from truth_world [OF this, of H] obtain w where w: "truth H N = Inr w" by blast
  have "truth H (Suc N) = simulate_frame w (of_nat N) \<lparr>pair_a = H PA ! N, pair_b = H PB ! N\<rparr> variant_canonical"
    using numberedD(3,4) [OF assms(1) N] by (intro truth_Suc_pair [OF w]) simp_all
  then show ?case using Suc N w by (simp add: pair_at_def)
qed

text \<open>A finished replay verifies.\<close>

lemma replay_verifies:
  assumes r: "replay_so_far H m fc r" and n: "numbered H m" "m = unat fc"
    and w: "truth H m = Inr w" "rp_expected_final_hash r = hash_canonical w"
  shows "ok (verify_replay r)"
proof -
  have st: "replay_state variant_canonical (rp_confirmed_inputs r) N = truth H N" if "N \<le> m" for N
    using r replay_state_truth [OF n(1) that] by (simp add: replay_so_far_def)
  have "list_all (checkpoint_met r) (rp_checkpoints r)"
    using r st by (auto simp: list_all_iff checkpoint_met_def replay_so_far_def)
  then show ?thesis
    using r n w st [of m] by (auto simp: ok_iff verify_replay_spec replay_so_far_def)
qed

text \<open>It is also numbered and ordered, so its file decodes.\<close>

lemma pairs_numberedI:
  assumes "\<And>i. i < length ps \<Longrightarrow> unat (in_frame (pair_a (ps ! i))) = k + i \<and> pair_tagged (ps ! i) \<and> pair_plain (ps ! i)"
  shows "pairs_numbered k ps"
  using assms
proof (induction ps arbitrary: k)
  case (Cons p ps)
  from Cons.prems [of 0] have "unat (in_frame (pair_a p)) = k \<and> pair_tagged p \<and> pair_plain p" by simp
  moreover have "pairs_numbered (Suc k) ps"
  proof (rule Cons.IH)
    fix i
    assume "i < length ps"
    with Cons.prems [of "Suc i"] show "unat (in_frame (pair_a (ps ! i))) = Suc k + i \<and> pair_tagged (ps ! i)
      \<and> pair_plain (ps ! i)" by simp
  qed
  ultimately show ?case by simp
qed simp

lemma checkpoints_orderedI:
  assumes "sorted_wrt before_checkpoint cs" "\<forall>c \<in> set cs. rc_frame c \<le> n" "unat n \<le> 1000000"
    and "previous = None \<or> (\<forall>c \<in> set cs. unat (the previous) < unat (rc_frame c))"
  shows "checkpoints_ordered n previous cs"
  using assms
proof (induction cs arbitrary: previous)
  case (Cons c cs)
  have before: "frame_before f (rc_frame c)" if "unat f < unat (rc_frame c)" for f
    using frame_before_of_nat [of "unat f" "unat (rc_frame c)"] that Cons.prems(2,3)
    by (simp add: word_le_nat_alt)
  from Cons.prems have "checkpoints_ordered n (Some (rc_frame c)) cs"
    by (intro Cons.IH) (auto simp: before_checkpoint_def)
  with Cons.prems before show ?case by auto
qed simp

lemma replay_plain:
  assumes r: "replay_so_far H m fc r" and n: "numbered H m" "m = unat fc"
  shows "plain_replay r"
  unfolding plain_replay_def
proof
  have c: "rp_confirmed_inputs r = map (pair_at H) [0..<m]" "rp_final_frame r = fc"
    using r by (simp_all add: replay_so_far_def)
  show "pairs_numbered 0 (rp_confirmed_inputs r)"
    unfolding c(1)
  proof (rule pairs_numberedI)
    fix i
    assume "i < length (map (pair_at H) [0..<m])"
    then have i: "i < m" by simp
    with numberedD(1) [OF n(1)] have "unat (of_nat i :: u32) = i" by (intro unat_of_nat_u32) simp
    then show "unat (in_frame (pair_a (map (pair_at H) [0..<m] ! i))) = 0 + i
        \<and> pair_tagged (map (pair_at H) [0..<m] ! i) \<and> pair_plain (map (pair_at H) [0..<m] ! i)"
      using i numberedD(3-5) [OF n(1) i] by (simp add: pair_at_def pair_tagged_def pair_plain_def)
  qed
  show "checkpoints_ordered (rp_final_frame r) None (rp_checkpoints r)"
    using r n(2) numberedD(1) [OF n(1)]
    by (intro checkpoints_orderedI) (auto simp: replay_so_far_def word_le_nat_alt)
qed

text \<open>The scripted input presses only defined buttons.\<close>

lemma scripted_input_plain:
  "in_frame (scripted_input seed f p) = f \<and> plain_input p (scripted_input seed f p)"
proof -
  have "x AND 0xE0 = 0 \<Longrightarrow> (x OR 1) AND 0xE0 = 0" "x AND 0xE0 = 0 \<Longrightarrow> (x OR 2) AND 0xE0 = 0"
    "x AND 0xE0 = 0 \<Longrightarrow> (x OR 16) AND 0xE0 = 0" for x :: u8
    by (simp_all add: bit.conj_disj_distrib2)
  then show ?thesis
    by (simp add: scripted_input_def Let_def plain_input_def button_mask_def split: prod.splits)
qed

section \<open>The invariant of the run\<close>

abbreviation frames_of :: "LiveScenario \<Rightarrow> nat" where
  "frames_of st \<equiv> unat (sc_frame_count (lv_config st))"

definition total_ticks :: "LiveScenario \<Rightarrow> nat" where
  "total_ticks st = frames_of st + unat (sc_tail_redundancy_ticks (lv_config st)) + 32"

definition tick_inv :: "nat \<Rightarrow> (PlayerId \<Rightarrow> RemoteLog) \<Rightarrow> LiveScenario \<Rightarrow> bool" where
  "tick_inv m R st \<longleftrightarrow>
     numbered (hist st) m \<and> peers_ok (hist st) m R st \<and> network_ok (hist st) m (lv_transport st)
   \<and> truth (hist st) m = Inr (lv_replay_state st) \<and> trace_inv m st
   \<and> replay_so_far (hist st) m (sc_frame_count (lv_config st)) (replay_of st)
   \<and> (m = frames_of st \<longrightarrow> rp_expected_final_hash (replay_of st) = hash_canonical (lv_replay_state st))"

definition live_inv :: "LiveScenario \<Rightarrow> bool" where
  "live_inv st \<longleftrightarrow> 0 < frames_of st \<and> frames_of st \<le> kMaxReplayFrames \<and> total_ticks st < 4294967296
     \<and> unat (lv_tick_index st) < total_ticks st
     \<and> (\<exists>R. tick_inv (min (unat (lv_tick_index st)) (frames_of st)) R st)"

lemma network_ok_extends:
  "network_ok H m t \<Longrightarrow> numbered H m \<Longrightarrow> extends H H' \<Longrightarrow> m \<le> m' \<Longrightarrow> network_ok H' m' t"
  by (auto simp: network_ok_def intro: honest_datagram_mono)

lemma peers_ok_extends:
  "peers_ok H c R st \<Longrightarrow> numbered H m \<Longrightarrow> c \<le> m \<Longrightarrow> extends H H' \<Longrightarrow> peers_ok H' c R st"
  by (auto simp: peers_ok_def intro: follows_extends)

definition defined_buttons :: "u8 option \<Rightarrow> bool" where
  "defined_buttons b = (case b of Some buttons \<Rightarrow> buttons AND 0xE0 = 0 | None \<Rightarrow> True)"

text \<open>The histories after a frame's inputs were appended.\<close>

definition frame_input :: "u8 option \<Rightarrow> u64 \<Rightarrow> FrameNumber \<Rightarrow> PlayerId \<Rightarrow> InputFrame" where
  "frame_input b seed f p =
     (case b of
        Some buttons \<Rightarrow> if p = PA then (scripted_input seed f p)\<lparr>in_buttons := buttons\<rparr>
                        else scripted_input seed f p
      | None \<Rightarrow> scripted_input seed f p)"

lemma frame_input_plain:
  "defined_buttons b \<Longrightarrow> in_frame (frame_input b seed f p) = f \<and> plain_input p (frame_input b seed f p)"
  using scripted_input_plain [of seed f p]
  by (auto simp: frame_input_def defined_buttons_def plain_input_def split: option.splits)

lemma numbered_Suc:
  assumes "numbered H m" "m < kMaxReplayFrames"
    and "\<And>p. H' p = H p @ [x p]" "\<And>p. in_frame (x p) = of_nat m \<and> plain_input p (x p)"
  shows "numbered H' (Suc m)"
  using assms by (auto simp: numbered_def nth_append less_Suc_eq)

text \<open>What a played frame does before the packets: the inputs, the direct simulation, the checkpoint.\<close>

definition frame_start :: "u8 option \<Rightarrow> LiveScenario \<Rightarrow> WorldState \<Rightarrow> LiveScenario" where
  "frame_start b st direct =
     (let frame = lv_tick_index st; config = lv_config st; seed = sc_scenario_seed config;
          input_a = frame_input b seed frame PA; input_b = frame_input b seed frame PB;
          st = st\<lparr>lv_history_a := lv_history_a st @ [input_a], lv_history_b := lv_history_b st @ [input_b]\<rparr>;
          st = set_replay ((replay_of st)\<lparr>rp_confirmed_inputs :=
                 rp_confirmed_inputs (replay_of st) @ [\<lparr>pair_a = input_a, pair_b = input_b\<rparr>]\<rparr>) st;
          st = st\<lparr>lv_replay_state := direct\<rparr>
      in set_replay (accumulate_checkpoint direct (frame + 1 = sc_frame_count config) (replay_of st)) st)"

lemma play_frame_step:
  assumes "simulate_frame (lv_replay_state st) (lv_tick_index st)
      \<lparr>pair_a = frame_input b (sc_scenario_seed (lv_config st)) (lv_tick_index st) PA,
       pair_b = frame_input b (sc_scenario_seed (lv_config st)) (lv_tick_index st) PB\<rparr> variant_canonical
    = Inr direct"
  shows "play_frame b st = (case exchange_packets (lv_tick_index st) (frame_start b st direct) of
      (Inl e, st) \<Rightarrow> (Inl e, st)
    | (Inr _, st') \<Rightarrow> advance_peers (lv_tick_index st)
        (frame_input b (sc_scenario_seed (lv_config st)) (lv_tick_index st) PA)
        (frame_input b (sc_scenario_seed (lv_config st)) (lv_tick_index st) PB) st')"
proof -
  have "(case b of Some buttons \<Rightarrow> (scripted_input s f PA)\<lparr>in_buttons := buttons\<rparr> | None \<Rightarrow> scripted_input s f PA)
      = frame_input b s f PA" "scripted_input s f PB = frame_input b s f PB" for s f
    by (cases b; simp add: frame_input_def)+
  then show ?thesis using assms
    by (simp add: play_frame_def frame_start_def Let_def set_replay_def cong: sum.case_cong prod.case_cong)
qed

lemma frame_start_fields:
  "hist (frame_start b st w) p = hist st p @ [frame_input b (sc_scenario_seed (lv_config st)) (lv_tick_index st) p]"
  "lv_config (frame_start b st w) = lv_config st" "lv_tick_index (frame_start b st w) = lv_tick_index st"
  "lv_replay_state (frame_start b st w) = w" "lv_transport (frame_start b st w) = lv_transport st"
  "peer_of p (frame_start b st w) = peer_of p st" "trace_inv m (frame_start b st w) = trace_inv m st"
  "lv_desync_a (frame_start b st w) = lv_desync_a st" "lv_desync_b (frame_start b st w) = lv_desync_b st"
  "lv_finished (frame_start b st w) = lv_finished st" "lv_failure (frame_start b st w) = lv_failure st"
  "window_of p (frame_start b st w) = window_of p st"
  "lv_sequence_a (frame_start b st w) = lv_sequence_a st" "lv_sequence_b (frame_start b st w) = lv_sequence_b st"
  "replay_of (frame_start b st w) = accumulate_checkpoint w (lv_tick_index st + 1 = sc_frame_count (lv_config st))
     ((replay_of st)\<lparr>rp_confirmed_inputs := rp_confirmed_inputs (replay_of st) @
        [\<lparr>pair_a = frame_input b (sc_scenario_seed (lv_config st)) (lv_tick_index st) PA,
          pair_b = frame_input b (sc_scenario_seed (lv_config st)) (lv_tick_index st) PB\<rparr>]\<rparr>)"
  by (cases p; simp add: frame_start_def Let_def set_replay_def hist_def peer_of_def trace_inv_def window_of_def)+

definition status_core where
  "status_core st = (lv_config st, lv_transport_config st,
     (sa_report (lv_artifacts st), sa_desync_diagnostic (lv_artifacts st)),
     lv_tick_index st, (lv_finished st, lv_failure st))"

lemma status_core_frame: "frame_core st' = frame_core st \<Longrightarrow> status_core st' = status_core st"
  by (simp add: frame_core_def status_core_def)

lemma status_core_base: "base_core st' = base_core st \<Longrightarrow> status_core st' = status_core st"
  by (simp add: base_core_def status_core_def)

lemma status_coreD:
  assumes "status_core st' = status_core st"
  shows "lv_config st' = lv_config st" "lv_tick_index st' = lv_tick_index st"
    "lv_finished st' = lv_finished st" "lv_failure st' = lv_failure st"
    "sa_report (lv_artifacts st') = sa_report (lv_artifacts st)"
    "sa_desync_diagnostic (lv_artifacts st') = sa_desync_diagnostic (lv_artifacts st)"
  using assms by (simp_all add: status_core_def)

definition no_desync :: "LiveScenario \<Rightarrow> bool" where
  "no_desync st \<longleftrightarrow> dt_diagnostic (lv_desync_a st) = None \<and> dt_diagnostic (lv_desync_b st) = None"

lemma peers_ok_no_desync: "peers_ok H c R st \<Longrightarrow> no_desync st"
  by (simp add: peers_ok_def no_desync_def)

lemma frame_start_status: "status_core (frame_start b st w) = status_core st"
  by (simp add: frame_start_def Let_def set_replay_def status_core_def)

text \<open>The state of a played frame once its packets are about to be sent.\<close>

lemma frame_start_ok:
  assumes inv: "tick_inv m R st" and m: "unat (lv_tick_index st) = m" "m < frames_of st"
    and fc: "frames_of st \<le> kMaxReplayFrames" and b: "defined_buttons b"
  shows "\<exists>direct. simulate_frame (lv_replay_state st) (lv_tick_index st)
      \<lparr>pair_a = frame_input b (sc_scenario_seed (lv_config st)) (lv_tick_index st) PA,
       pair_b = frame_input b (sc_scenario_seed (lv_config st)) (lv_tick_index st) PB\<rparr> variant_canonical
      = Inr direct
    \<and> numbered (hist (frame_start b st direct)) (Suc m)
    \<and> peers_ok (hist (frame_start b st direct)) m R (frame_start b st direct)
    \<and> network_ok (hist (frame_start b st direct)) (Suc m) (lv_transport (frame_start b st direct))
    \<and> truth (hist (frame_start b st direct)) (Suc m) = Inr direct
    \<and> replay_so_far (hist (frame_start b st direct)) (Suc m) (sc_frame_count (lv_config st))
        (replay_of (frame_start b st direct))"
proof -
  let ?seed = "sc_scenario_seed (lv_config st)" and ?f = "lv_tick_index st"
  define H where "H = hist st"
  define H' where "H' = (\<lambda>p. H p @ [frame_input b ?seed ?f p])"
  have f: "?f = of_nat m" using m(1) by auto
  have inv': "numbered H m" "peers_ok H m R st" "network_ok H m (lv_transport st)"
      "truth H m = Inr (lv_replay_state st)" "replay_so_far H m (sc_frame_count (lv_config st)) (replay_of st)"
    using inv by (simp_all add: tick_inv_def H_def)
  have pl: "in_frame (frame_input b ?seed ?f p) = of_nat m \<and> plain_input p (frame_input b ?seed ?f p)" for p
    using frame_input_plain [OF b] f by simp
  have n: "numbered H' (Suc m)"
    by (rule numbered_Suc [OF inv'(1), of H' "frame_input b ?seed ?f"])
      (use m fc pl in \<open>simp_all add: H'_def\<close>)
  have e: "extends H H'" by (auto simp: extends_def H'_def)
  have at: "H' p ! m = frame_input b ?seed ?f p" for p
    using numberedD(2) [OF inv'(1), of p] by (simp add: H'_def nth_append)
  have t: "truth H' m = Inr (lv_replay_state st)" using truth_extends [OF inv'(1) e] inv'(4) by simp
  have "truth H' (Suc m) = simulate_frame (lv_replay_state st) (of_nat m)
      \<lparr>pair_a = frame_input b ?seed ?f PA, pair_b = frame_input b ?seed ?f PB\<rparr> variant_canonical"
    using pl at by (intro truth_Suc_pair [OF t]) (simp_all add: plain_input_def)
  moreover obtain w where w: "truth H' (Suc m) = Inr w" "ws_frame w = of_nat (Suc m)"
    using truth_world [of "Suc m" H'] numberedD(1) [OF n] by blast
  ultimately have sim: "simulate_frame (lv_replay_state st) ?f
      \<lparr>pair_a = frame_input b ?seed ?f PA, pair_b = frame_input b ?seed ?f PB\<rparr> variant_canonical = Inr w"
    using f by simp
  have hist: "hist (frame_start b st w) = H'" by (intro ext) (simp add: frame_start_fields H'_def H_def)
  have "replay_so_far H' (Suc m) (sc_frame_count (lv_config st)) (replay_of (frame_start b st w))"
    using replay_so_far_Suc [OF replay_so_far_extends [OF inv'(5,1) e] numberedD(1) [OF n] w] at
    by (simp add: frame_start_fields pair_at_def)
  moreover have "peers_ok H' m R (frame_start b st w)"
    using peers_ok_extends [OF inv'(2,1) order_refl e] by (simp add: peers_ok_def frame_start_fields)
  moreover have "network_ok H' (Suc m) (lv_transport (frame_start b st w))"
    using network_ok_extends [OF inv'(3,1) e] by (simp add: frame_start_fields)
  ultimately show ?thesis using sim w(1) n hist by auto
qed

lemma play_frame_ok:
  assumes inv: "tick_inv m R st" and m: "unat (lv_tick_index st) = m" "m < frames_of st"
    and fc: "frames_of st \<le> kMaxReplayFrames" and b: "defined_buttons b"
    and r: "play_frame b st = (r, st')"
  shows "(\<forall>e. r = Inl e \<longrightarrow> live_error e) \<and> no_desync st' \<and> status_core st' = status_core st
    \<and> (r = Inr () \<longrightarrow> (\<exists>R'. tick_inv (Suc m) R' st'))"
proof -
  let ?seed = "sc_scenario_seed (lv_config st)" and ?f = "lv_tick_index st"
  have f: "?f = of_nat m" using m(1) by auto
  obtain direct where sim: "simulate_frame (lv_replay_state st) ?f
      \<lparr>pair_a = frame_input b ?seed ?f PA, pair_b = frame_input b ?seed ?f PB\<rparr> variant_canonical = Inr direct"
    and 1: "numbered (hist (frame_start b st direct)) (Suc m)"
      "peers_ok (hist (frame_start b st direct)) m R (frame_start b st direct)"
      "network_ok (hist (frame_start b st direct)) (Suc m) (lv_transport (frame_start b st direct))"
      "truth (hist (frame_start b st direct)) (Suc m) = Inr direct"
      "replay_so_far (hist (frame_start b st direct)) (Suc m) (sc_frame_count (lv_config st))
        (replay_of (frame_start b st direct))"
    using frame_start_ok [OF inv m fc b] by blast
  define st1 where "st1 = frame_start b st direct"
  define H where "H = hist st1"
  note fs = frame_start_fields [where b = b and st = st and w = direct, folded st1_def]
  have st1: "numbered H (Suc m)" "peers_ok H m R st1" "network_ok H (Suc m) (lv_transport st1)"
      "truth H (Suc m) = Inr direct" "replay_so_far H (Suc m) (sc_frame_count (lv_config st)) (replay_of st1)"
    using 1 by (simp_all add: st1_def H_def)
  have tr1: "trace_inv m st1" using inv by (simp add: fs tick_inv_def)
  obtain r2 st2 where ex: "exchange_packets ?f st1 = (r2, st2)" by fastforce
  from exchange_packets_ok [OF _ _ _ _ _ ex, of m R "Suc m"] st1 obtain R2 where
    x: "peers_ok H m R2 st2" "network_ok H (Suc m) (lv_transport st2)" "base_core st2 = base_core st1"
      "\<forall>e. r2 = Inl e \<longrightarrow> live_error e" by (auto simp: H_def)
  note fc2 = frame_coreD [OF frame_core_base [OF x(3)]]
  have status2: "status_core st2 = status_core st"
    using status_core_base [OF x(3)] frame_start_status by (simp add: st1_def)
  have at: "H p ! m = frame_input b ?seed ?f p" for p
  proof -
    have "H p = hist st p @ [frame_input b ?seed ?f p]" by (simp add: H_def fs)
    moreover have "length (hist st p) = m" using inv numberedD(2) by (auto simp: tick_inv_def)
    ultimately show ?thesis by (simp add: nth_append)
  qed
  have eq: "play_frame b st = (case (r2, st2) of (Inl e, st) \<Rightarrow> (Inl e, st)
    | (Inr _, st') \<Rightarrow> advance_peers ?f (H PA ! m) (H PB ! m) st')"
    unfolding play_frame_step [OF sim] at by (simp add: ex st1_def [symmetric])
  show ?thesis
  proof (cases r2)
    case (Inl e)
    then show ?thesis using r eq x status2 peers_ok_no_desync [OF x(1)] by auto
  next
    case (Inr u)
    have tr2: "trace_inv m st2" using trace_inv_base [OF x(3)] tr1 by simp
    have "m < unat (sc_frame_count (lv_config st2))" using m(2) fc2(1) by (simp add: fs)
    from advance_peers_ok [OF x(1) st1(1) tr2 this] obtain st3 where
      a: "advance_peers (of_nat m) (H PA ! m) (H PB ! m) st2 = (Inr (), st3)"
        "peers_ok H (Suc m) R2 st3" "frame_core st3 = frame_core st2" "lv_transport st3 = lv_transport st2"
        "trace_inv (Suc m) st3"
      and rp: "replay_of st3 = (if lv_tick_index st2 + 1 = sc_frame_count (lv_config st2)
         then (replay_of st2)\<lparr>rp_expected_final_hash := hash_canonical (lv_replay_state st2)\<rparr>
         else replay_of st2)" by blast
    have st': "r = Inr ()" "st' = st3" using r eq a(1) f Inr by simp_all
    note fc3 = frame_coreD [OF a(3)]
    have hist3: "hist st3 = H" using fc3(2) fc2(2) by (simp add: H_def)
    have w3: "lv_replay_state st3 = direct" "lv_config st3 = lv_config st" "lv_replay_state st2 = direct"
        "lv_config st2 = lv_config st" "lv_tick_index st2 = ?f"
      using fc3 fc2 by (simp_all add: fs)
    have "replay_of st2 = replay_of st1" using x(3) by (simp add: base_core_def)
    then have "replay_so_far H (Suc m) (sc_frame_count (lv_config st)) (replay_of st3)"
      using st1(5) rp by (simp add: replay_so_far_def)
    moreover have "rp_expected_final_hash (replay_of st3) = hash_canonical direct" if "Suc m = frames_of st"
    proof -
      have "?f + 1 = sc_frame_count (lv_config st)"
        using that f unsigned_word_eqI by (metis add.commute of_nat_Suc of_nat_unat ucast_id)
      then show ?thesis using rp w3 by simp
    qed
    ultimately have "tick_inv (Suc m) R2 st3"
      using st1 a x w3 by (simp add: tick_inv_def hist3)
    moreover have "status_core st3 = status_core st" using status_core_frame [OF a(3)] status2 by simp
    ultimately show ?thesis using st' peers_ok_no_desync [OF a(2)] by blast
  qed
qed

lemma tick_inv_base:
  assumes "base_core st' = base_core st" "peers_ok (hist st) m R st'" "network_ok (hist st) m (lv_transport st')"
    and "tick_inv m R0 st"
  shows "tick_inv m R st'"
  using assms trace_inv_base [OF assms(1), of m] hist_base [OF assms(1)]
  by (simp add: tick_inv_def base_core_def)

lemma tail_or_drain_ok:
  assumes inv: "tick_inv m R st"
    and r: "exchange_packets tick st = (r, st') \<or> process_tick tick st = (r, st')"
  shows "(\<forall>e. r = Inl e \<longrightarrow> live_error e) \<and> no_desync st' \<and> status_core st' = status_core st
    \<and> (\<exists>R'. tick_inv m R' st')"
proof -
  have i: "peers_ok (hist st) m R st" "numbered (hist st) m" "network_ok (hist st) m (lv_transport st)"
    using inv by (simp_all add: tick_inv_def)
  have "\<exists>R'. peers_ok (hist st) m R' st' \<and> network_ok (hist st) m (lv_transport st')
    \<and> base_core st' = base_core st \<and> (\<forall>e. r = Inl e \<longrightarrow> live_error e)"
    using r
  proof
    assume "exchange_packets tick st = (r, st')"
    from exchange_packets_ok [OF i(1,2) order_refl _ i(3) this] show ?thesis by simp
  next
    assume "process_tick tick st = (r, st')"
    from process_tick_ok [OF i(1,2) order_refl _ i(3) this] obtain R' t' where
      "peers_ok (hist st) m R' st'" "network_ok (hist st) m t'" and
      c: "run_core st' = run_core (st\<lparr>lv_transport := t'\<rparr>)" and
      "\<forall>e. r = Inl e \<longrightarrow> err_code e = EC_rollback_window_exceeded" by auto
    then show ?thesis using process_tick_transport [OF c] base_core_of_run_core [OF c]
      by (auto simp: live_error_def)
  qed
  then obtain R' where "peers_ok (hist st) m R' st'" "network_ok (hist st) m (lv_transport st')"
    "base_core st' = base_core st" "\<forall>e. r = Inl e \<longrightarrow> live_error e" by blast
  with tick_inv_base [OF _ _ _ inv] status_core_base peers_ok_no_desync show ?thesis by blast
qed

section \<open>The end of the run\<close>

text \<open>What a completed run has established; \<open>w\<close> is the world the reference simulation ends in.\<close>

definition converged :: "LiveScenario \<Rightarrow> bool" where
  "converged st \<longleftrightarrow> (\<exists>w. let report = sa_report (lv_artifacts st) in
     truth (hist st) (frames_of st) = Inr w
   \<and> s_state (lv_peer_a st) = w \<and> s_state (lv_peer_b st) = w
   \<and> rr_success report \<and> rr_desync_result report = ''none'' \<and> rr_replay_verified report
   \<and> rr_confirmed_frame report = sc_frame_count (lv_config st)
   \<and> rr_final_hash_a report = hash_canonical w \<and> rr_final_hash_b report = hash_canonical w
   \<and> rp_expected_final_hash (replay_of st) = hash_canonical w \<and> ok (verify_replay (replay_of st))
   \<and> plain_replay (replay_of st) \<and> sa_desync_diagnostic (lv_artifacts st) = None)"

lemma flushed_boundary:
  assumes "follows p H m R s" "numbered H m" "s_earliest_dirty s = None"
  shows "\<exists>cf\<le>m. m_confirmed_frame (s_metrics s) = of_nat cf \<and> (cf = m \<or> R cf = None)
    \<and> (cf = m \<longrightarrow> truth H m = Inr (s_state s))"
proof -
  from follows_truth [OF assms(1,2) order_refl] assms(3) obtain cf where
    cf: "cf \<le> m" "m_confirmed_frame (s_metrics s) = of_nat cf" "cf = m \<or> R cf = None"
    and q: "\<forall>N\<le>cf. m \<le> N + 255 \<longrightarrow> (\<exists>w. truth H N = Inr w
          \<and> hash_at s (of_nat N) = Inr (hash_canonical w) \<and> state_at s (of_nat N) = Inr w)" by auto
  have "truth H m = Inr (s_state s)" if "cf = m"
  proof -
    from q that obtain w where w: "truth H m = Inr w" "state_at s (of_nat m) = Inr w" by auto
    obtain cfg where "ws_frame (s_state s) = of_nat m" using followsD [OF assms(1,2) order_refl] by metis
    with w(2) cf(2) that have "w = s_state s" by (simp add: state_at_def)
    with w(1) show ?thesis by simp
  qed
  with cf show ?thesis by blast
qed

lemma finalize_ok:
  assumes inv: "tick_inv m R st" and m: "m = frames_of st"
    and nd: "sa_desync_diagnostic (lv_artifacts st) = None" and r: "finalize build st = (r, st')"
  shows "no_desync st' \<and> sa_desync_diagnostic (lv_artifacts st') = None
    \<and> lv_config st' = lv_config st \<and> lv_finished st' = lv_finished st \<and> lv_failure st' = lv_failure st
    \<and> lv_tick_index st' = lv_tick_index st \<and> hist st' = hist st
    \<and> ((r = Inr True \<and> converged st')
      \<or> (\<exists>e. r = Inl e \<and> err_code e = EC_timeout \<and> (\<exists>q. \<exists>i<m. R q i = None)))"
proof -
  let ?H = "hist st"
  have i: "peers_ok ?H m R st" "numbered ?H m" "truth ?H m = Inr (lv_replay_state st)"
      "replay_so_far ?H m (sc_frame_count (lv_config st)) (replay_of st)"
      "rp_expected_final_hash (replay_of st) = hash_canonical (lv_replay_state st)"
    using inv m by (simp_all add: tick_inv_def)
  have fa: "follows PA ?H m (R PA) (lv_peer_a st)" and fb: "follows PB ?H m (R PB) (lv_peer_b st)"
    using peers_okD [OF i(1), of PA] peers_okD [OF i(1), of PB] by (simp_all add: peer_of_def)
  from flush_follows [OF fa i(2) order_refl] obtain ca a where
    a: "flush_corrections (lv_peer_a st) = (Inr ca, a)" "follows PA ?H m (R PA) a" "s_earliest_dirty a = None" by blast
  from flush_follows [OF fb i(2) order_refl] obtain cb b where
    b: "flush_corrections (lv_peer_b st) = (Inr cb, b)" "follows PB ?H m (R PB) b" "s_earliest_dirty b = None" by blast
  from flushed_boundary [OF a(2) i(2) a(3)] obtain cfa where cfa: "cfa \<le> m"
    "m_confirmed_frame (s_metrics a) = of_nat cfa" "cfa = m \<or> R PA cfa = None"
    "cfa = m \<longrightarrow> truth ?H m = Inr (s_state a)" by blast
  from flushed_boundary [OF b(2) i(2) b(3)] obtain cfb where cfb: "cfb \<le> m"
    "m_confirmed_frame (s_metrics b) = of_nat cfb" "cfb = m \<or> R PB cfb = None"
    "cfb = m \<longrightarrow> truth ?H m = Inr (s_state b)" by blast
  have tr: "dt_diagnostic (lv_desync_a st) = None" "dt_diagnostic (lv_desync_b st) = None"
    using i(1) by (simp_all add: peers_ok_def)
  define st1 where "st1 = st\<lparr>lv_peer_a := a, lv_peer_b := b\<rparr>"
  define report where "report = make_report build st1 (ok (verify_replay (replay_of st))) False"
  define st2 where "st2 = st1\<lparr>lv_artifacts := (lv_artifacts st)\<lparr>sa_report := report\<rparr>\<rparr>"
  have bound: "m \<le> 1000000" using numberedD(1) [OF i(2)] .
  have fcm: "sc_frame_count (lv_config st) = of_nat m" using m by simp
  have min: "(if frame_before (of_nat cfa) (of_nat cfb :: u32) then of_nat cfa else of_nat cfb) = (of_nat (min cfa cfb) :: u32)"
    using cfa(1) cfb(1) bound by (simp add: frame_before_of_nat min_def)
  have conf: "rr_confirmed_frame report = of_nat (min cfa cfb)"
  proof -
    have "rr_confirmed_frame report = (if frame_before (m_confirmed_frame (s_metrics a)) (m_confirmed_frame (s_metrics b))
        then m_confirmed_frame (s_metrics a) else m_confirmed_frame (s_metrics b))"
      by (simp add: report_def make_report_def Let_def session_report_def st1_def)
    then show ?thesis unfolding cfa(2) cfb(2) min .
  qed
  have fin: "finalize build st = (if rr_success report then (Inr True, st2)
      else (failure (if rr_confirmed_frame report \<noteq> sc_frame_count (lv_config st)
                     then EC_timeout else EC_replay_mismatch)
              (ucast (rr_confirmed_frame report)) 0 ''seeded_scenario'', st2))"
    using a(1) b(1) tr nd
    by (simp add: finalize_def Let_def st1_def st2_def report_def)
  have verified: "ok (verify_replay (replay_of st))"
    using replay_verifies [OF i(4,2) m i(3,5)] .
  have succ: "rr_success report \<longleftrightarrow> min cfa cfb = m \<and> hash_canonical (s_state a) = hash_canonical (s_state b)
      \<and> hash_canonical (s_state a) = hash_canonical (lv_replay_state st)"
    using conf verified i(5) fcm cfa(1) cfb(1) bound of_nat_u32_inj [of "min cfa cfb" m]
    by (auto simp: report_def make_report_def Let_def session_report_def st1_def)
  have fields: "no_desync st2" "sa_desync_diagnostic (lv_artifacts st2) = None" "lv_config st2 = lv_config st"
      "lv_finished st2 = lv_finished st" "lv_failure st2 = lv_failure st" "lv_tick_index st2 = lv_tick_index st"
      "hist st2 = hist st"
  proof -
    show "hist st2 = hist st" by (intro ext) (simp add: st2_def st1_def hist_def)
  qed (use tr nd in \<open>simp_all add: st2_def st1_def no_desync_def\<close>)
  show ?thesis
  proof (cases "min cfa cfb = m")
    case True
    then have "cfa = m" "cfb = m" using cfa(1) cfb(1) by (simp_all add: min_def split: if_splits)
    then have w: "s_state a = lv_replay_state st" "s_state b = lv_replay_state st"
      using cfa(4) cfb(4) i(3) by simp_all
    then have s: "rr_success report" using succ True by simp
    then have st': "r = Inr True" "st' = st2" using r fin by simp_all
    have "converged st2"
      unfolding converged_def
    proof (intro exI [of _ "lv_replay_state st"], simp only: Let_def, intro conjI)
      show "truth (hist st2) (frames_of st2) = Inr (lv_replay_state st)" using i(3) fields m by simp
      show "s_state (lv_peer_a st2) = lv_replay_state st" "s_state (lv_peer_b st2) = lv_replay_state st"
        using w by (simp_all add: st2_def st1_def)
      show "rr_success (sa_report (lv_artifacts st2))" using s by (simp add: st2_def)
      show "rr_desync_result (sa_report (lv_artifacts st2)) = ''none''"
        by (simp add: st2_def report_def make_report_def Let_def)
      show "rr_replay_verified (sa_report (lv_artifacts st2))"
        using verified by (simp add: st2_def report_def make_report_def Let_def)
      show "rr_confirmed_frame (sa_report (lv_artifacts st2)) = sc_frame_count (lv_config st2)"
        using conf True fcm fields(3) by (simp only: st2_def) simp
      show "rr_final_hash_a (sa_report (lv_artifacts st2)) = hash_canonical (lv_replay_state st)"
        "rr_final_hash_b (sa_report (lv_artifacts st2)) = hash_canonical (lv_replay_state st)"
        using w by (simp_all add: st2_def st1_def report_def make_report_def Let_def session_report_def)
      show "rp_expected_final_hash (replay_of st2) = hash_canonical (lv_replay_state st)"
        "ok (verify_replay (replay_of st2))"
        "plain_replay (replay_of st2)"
        using i(5) verified replay_plain [OF i(4,2) m] by (simp_all add: st2_def)
    qed (rule fields)
    with st' fields show ?thesis by simp
  next
    case False
    then have "rr_confirmed_frame report \<noteq> sc_frame_count (lv_config st)" "\<not> rr_success report"
      using conf fcm succ cfa(1) bound of_nat_u32_inj [of "min cfa cfb" m] by auto
    then have st': "\<exists>e. r = Inl e \<and> err_code e = EC_timeout" "st' = st2" using r fin by auto
    have "(cfa < m \<and> R PA cfa = None) \<or> (cfb < m \<and> R PB cfb = None)"
      using False cfa(1,3) cfb(1,3) by (auto simp: min_def split: if_splits)
    then have "\<exists>q. \<exists>i<m. R q i = None" by blast
    with st' fields show ?thesis by auto
  qed
qed

section \<open>Every step of the run\<close>

lemma clear_performed_fields [simp]:
  "base_core (clear_performed st) = base_core st" "peer_of p (clear_performed st) = peer_of p st"
  "lv_transport (clear_performed st) = lv_transport st" "window_of p (clear_performed st) = window_of p st"
  "lv_desync_a (clear_performed st) = lv_desync_a st" "lv_desync_b (clear_performed st) = lv_desync_b st"
  "lv_sequence_a (clear_performed st) = lv_sequence_a st" "lv_sequence_b (clear_performed st) = lv_sequence_b st"
  by (simp_all add: clear_performed_def Let_def base_core_def peer_of_def window_of_def)

lemma clear_performed_inv:
  assumes "tick_inv m R st"
  shows "tick_inv m R (clear_performed st)"
proof (rule tick_inv_base [OF _ _ _ assms])
  show "peers_ok (hist st) m R (clear_performed st)" "network_ok (hist st) m (lv_transport (clear_performed st))"
    using assms by (simp_all add: tick_inv_def peers_ok_def)
qed simp

lemma hist_updates [simp]:
  "hist (st\<lparr>lv_tick_index := i\<rparr>) = hist st" "hist (st\<lparr>lv_finished := b\<rparr>) = hist st"
  "hist (st\<lparr>lv_failure := e\<rparr>) = hist st"
  by (intro ext; simp add: hist_def)+

lemma tick_inv_tick [simp]: "tick_inv m R (st\<lparr>lv_tick_index := i\<rparr>) = tick_inv m R st"
  by (simp add: tick_inv_def peers_ok_def trace_inv_def)

definition run_error :: "Error \<Rightarrow> bool" where
  "run_error e \<longleftrightarrow> live_error e \<or> err_code e = EC_timeout"

lemma run_tick_ok:
  assumes inv: "tick_inv (min (unat (lv_tick_index st)) (frames_of st)) R st"
    and fc: "frames_of st \<le> kMaxReplayFrames" and b: "defined_buttons b" and r: "run_tick b st = (r, st')"
  shows "(\<forall>e. r = Inl e \<longrightarrow> live_error e) \<and> no_desync st' \<and> status_core st' = status_core st
    \<and> (r = Inr () \<longrightarrow> (\<exists>R'. tick_inv (min (Suc (unat (lv_tick_index st))) (frames_of st)) R' st'))"
proof (cases "unat (lv_tick_index st) < frames_of st")
  case True
  then have "play_frame b st = (r, st')" using r by (simp add: run_tick_def Let_def word_less_nat_alt)
  moreover have m: "min (unat (lv_tick_index st)) (frames_of st) = unat (lv_tick_index st)"
    "min (Suc (unat (lv_tick_index st))) (frames_of st) = Suc (unat (lv_tick_index st))" using True by simp_all
  ultimately show ?thesis using play_frame_ok [OF inv [unfolded m(1)] refl True fc b] by simp
next
  case False
  then have m: "min (unat (lv_tick_index st)) (frames_of st) = frames_of st"
    "min (Suc (unat (lv_tick_index st))) (frames_of st) = frames_of st" by simp_all
  have "\<exists>tick. exchange_packets tick st = (r, st') \<or> process_tick tick st = (r, st')"
    using r False
    by (auto simp: run_tick_def Let_def word_less_nat_alt tail_tick_def drain_tick_def split: if_splits)
  then obtain tick where "exchange_packets tick st = (r, st') \<or> process_tick tick st = (r, st')" ..
  from tail_or_drain_ok [OF inv [unfolded m(1)] this] m(2) show ?thesis by simp
qed

lemma unat_total_ticks:
  "total_ticks st < 4294967296 \<Longrightarrow>
    unat (sc_frame_count (lv_config st) + sc_tail_redundancy_ticks (lv_config st) + 32) = total_ticks st"
proof -
  assume t: "total_ticks st < 4294967296"
  have "sc_frame_count (lv_config st) + sc_tail_redundancy_ticks (lv_config st) + 32
      = (of_nat (total_ticks st) :: u32)" by (simp add: total_ticks_def)
  then show ?thesis using t by (simp only: unat_of_nat_u32)
qed

lemma unat_Suc_tick: "unat t < 4294967295 \<Longrightarrow> unat (t + 1 :: u32) = Suc (unat t)"
  using unat_of_nat_u32 [of "Suc (unat t)"] by (simp add: add.commute)

text \<open>The live run's own status, beside the failures it reports.\<close>

definition live_status :: "LiveScenario \<Rightarrow> bool" where
  "live_status st \<longleftrightarrow> no_desync st \<and> sa_desync_diagnostic (lv_artifacts st) = None
     \<and> (case lv_failure st of
          Some e \<Rightarrow> run_error e
        | None \<Rightarrow> if lv_finished st then converged st else live_inv st)"

lemma step_once_ok:
  assumes inv: "live_inv st" and nd: "sa_desync_diagnostic (lv_artifacts st) = None"
    and b: "defined_buttons b" and r: "step_once build b st = (r, st')"
  shows "no_desync st' \<and> sa_desync_diagnostic (lv_artifacts st') = None
    \<and> lv_config st' = lv_config st \<and> lv_failure st' = lv_failure st \<and> lv_finished st' = lv_finished st
    \<and> (\<forall>e. r = Inl e \<longrightarrow> run_error e) \<and> (r = Inr True \<longrightarrow> converged st')
    \<and> (r = Inr False \<longrightarrow> live_inv st' \<and> lv_tick_index st' = lv_tick_index st + 1)"
proof -
  let ?cs = "clear_performed st"
  have cs: "lv_config ?cs = lv_config st" "lv_tick_index ?cs = lv_tick_index st"
      "sa_desync_diagnostic (lv_artifacts ?cs) = None" "lv_failure ?cs = lv_failure st"
      "lv_finished ?cs = lv_finished st"
    using nd by (simp_all add: clear_performed_def Let_def)
  from inv obtain R where i: "tick_inv (min (unat (lv_tick_index st)) (frames_of st)) R st"
    and fc: "0 < frames_of st" "frames_of st \<le> kMaxReplayFrames" "total_ticks st < 4294967296"
      "unat (lv_tick_index st) < total_ticks st" by (auto simp: live_inv_def)
  obtain r1 st1 where t: "run_tick b ?cs = (r1, st1)" by fastforce
  have i': "tick_inv (min (unat (lv_tick_index ?cs)) (frames_of ?cs)) R ?cs"
    using clear_performed_inv [OF i] cs by simp
  from run_tick_ok [OF i' _ b t] fc(2) cs have
    o: "\<forall>e. r1 = Inl e \<longrightarrow> live_error e" "no_desync st1" "status_core st1 = status_core ?cs"
      "r1 = Inr () \<longrightarrow> (\<exists>R'. tick_inv (min (Suc (unat (lv_tick_index st))) (frames_of st)) R' st1)"
    by simp_all
  note sc = status_coreD [OF o(3), unfolded cs]
  show ?thesis
  proof (cases r1)
    case (Inl e)
    then have "r = Inl e" "st' = st1" using r t by (simp_all add: step_once_def)
    then show ?thesis using o(1,2) sc Inl by (simp add: run_error_def)
  next
    case (Inr u)
    define st2 where "st2 = st1\<lparr>lv_tick_index := lv_tick_index st1 + 1\<rparr>"
    have s2: "lv_config st2 = lv_config st" "lv_tick_index st2 = lv_tick_index st + 1"
        "lv_failure st2 = lv_failure st" "lv_finished st2 = lv_finished st"
        "sa_desync_diagnostic (lv_artifacts st2) = None" "no_desync st2"
      using sc o(2) by (simp_all add: st2_def no_desync_def)
    have tick: "unat (lv_tick_index st2) = Suc (unat (lv_tick_index st))"
      using fc(3,4) s2(2) by (simp add: unat_Suc_tick)
    have tt: "total_ticks st2 = total_ticks st" "frames_of st2 = frames_of st"
      using s2(1) by (simp_all add: total_ticks_def)
    from o(4) Inr obtain R' where R1: "tick_inv (min (Suc (unat (lv_tick_index st))) (frames_of st)) R' st1" by auto
    then have R': "tick_inv (min (Suc (unat (lv_tick_index st))) (frames_of st)) R' st2"
      by (simp add: st2_def)
    have eq: "step_once build b st = (if unat (lv_tick_index st2) = total_ticks st
        then finalize build st2 else (Inr False, st2))"
    proof -
      have "unat (sc_frame_count (lv_config st2) + sc_tail_redundancy_ticks (lv_config st2) + 32) = total_ticks st"
        using unat_total_ticks [of st2] fc(3) tt by simp
      then have "lv_tick_index st2 = sc_frame_count (lv_config st2) + sc_tail_redundancy_ticks (lv_config st2) + 32
          \<longleftrightarrow> unat (lv_tick_index st2) = total_ticks st" by (simp only: word_unat_eq_iff)
      moreover have "step_once build b st = (if lv_tick_index st2
            = sc_frame_count (lv_config st2) + sc_tail_redundancy_ticks (lv_config st2) + 32
          then finalize build st2 else (Inr False, st2))"
        by (simp only: step_once_def t Inr prod.case sum.case Let_def st2_def)
      ultimately show ?thesis by simp
    qed
    show ?thesis
    proof (cases "unat (lv_tick_index st2) = total_ticks st")
      case True
      then have "min (Suc (unat (lv_tick_index st))) (frames_of st) = frames_of st2"
        using tick tt by (simp add: total_ticks_def)
      with R' have R2: "tick_inv (frames_of st2) R' st2" by simp
      have "finalize build st2 = (r, st')" using r eq True by simp
      from finalize_ok [OF R2 refl s2(5) this] s2 show ?thesis by (auto simp: run_error_def)
    next
      case False
      then have "r = Inr False" "st' = st2" using r eq by simp_all
      moreover have "live_inv st2"
        using R' tick tt fc False by (auto simp: live_inv_def)
      ultimately show ?thesis using s2 by simp
    qed
  qed
qed

end
