(* ===== verification/UdpRun.thy ===== *)
theory UdpRun
  imports PeerMachine Relay Convergence
begin

text \<open>
  What two peers over UDP guarantee, whatever the sockets lose, delay, duplicate or reorder.

  Both peers play the scripted inputs of one scenario, so the reference simulation of \<open>Convergence\<close>
  is fixed from the start. A datagram is honest when it decodes to nothing or to a packet of its sender with
  inputs and hashes of the reference. A driver that only receives honest datagrams sends only
  honest datagrams, never reports a desync, and ends in the reference state.
\<close>

section \<open>The game\<close>

definition game :: "u64 \<Rightarrow> nat \<Rightarrow> Histories" where
  "game seed N p = map (\<lambda>i. scripted_input seed (of_nat i) p) [0..<N]"

lemma length_game [simp]: "length (game seed N p) = N"
  by (simp add: game_def)

lemma game_nth: "i < N \<Longrightarrow> game seed N p ! i = scripted_input seed (of_nat i) p"
  by (simp add: game_def)

lemma game_numbered: "N \<le> 256 \<Longrightarrow> numbered (game seed N) N"
  using scripted_input_plain by (simp add: numbered_def game_nth kMaxReplayFrames_def)

section \<open>Inputs of the first 256 frames are never evicted\<close>

lemma resimulate_remote: "s_remote_inputs (snd (resimulate n f s)) = s_remote_inputs s"
  by (induction n arbitrary: f s) (simp_all add: Let_def split: sum.split)

lemma resimulate_remote': "resimulate n f s = (r, s') \<Longrightarrow> s_remote_inputs s' = s_remote_inputs s"
  using resimulate_remote [of n f s] by simp

lemma update_confirmation_remote [simp]: "s_remote_inputs (update_confirmation s) = s_remote_inputs s"
  by (simp add: update_confirmation_def)

lemma flush_remote: "flush_corrections s = (r, s') \<Longrightarrow> s_remote_inputs s' = s_remote_inputs s"
  by (auto simp: flush_corrections_def Let_def split: option.splits if_splits sum.splits prod.splits
      dest!: resimulate_remote')

lemma advance_clean_remote: "advance_clean x s = (r, s') \<Longrightarrow> s_remote_inputs s' = s_remote_inputs s"
  by (auto simp: advance_clean_def Let_def split: if_splits sum.splits prod.splits)

lemma advance_remote: "advance x s = (r, s') \<Longrightarrow> s_remote_inputs s' = s_remote_inputs s"
  by (auto simp: advance_def split: if_splits sum.splits prod.splits dest!: flush_remote advance_clean_remote)

lemma mark_dirty_remote [simp]: "s_remote_inputs (mark_dirty f s) = s_remote_inputs s"
  by (simp add: mark_dirty_def Let_def)

lemma ingest_remote_ring:
  "ingest_remote x s = (Inr (), s') \<Longrightarrow> s_remote_inputs s' = put_frame (in_frame x) x (s_remote_inputs s)"
  by (auto simp: ingest_remote_def Let_def split: if_splits sum.splits)

lemma ingest_refused: "ingest_remote x s = (Inl e, s') \<Longrightarrow> s' = s"
  by (auto simp: ingest_remote_def Let_def split: if_splits)

lemma early_inputs_kept:
  assumes "session_reach cfg ls R s" "\<forall>i. R i \<noteq> None \<longrightarrow> i < 256"
  shows "\<forall>i x. R i = Some x \<longrightarrow> get_frame (of_nat i) (s_remote_inputs s) = Inr x"
  using assms
proof (induction rule: session_reach.induct)
  case (ingested ls R s x s')
  let ?j = "unat (in_frame x)"
  from ingested.prems have j: "?j < 256" and R: "\<forall>i. R i \<noteq> None \<longrightarrow> i < 256"
    by (auto split: if_splits)
  note ring = ingest_remote_ring [OF ingested.hyps(2)]
  have "get_frame (of_nat i) (s_remote_inputs s') = Inr y" if "(R(?j \<mapsto> x)) i = Some y" for i y
  proof (cases "i = ?j")
    case True
    then show ?thesis using that history.get_put_nat [of ?j ?j x "s_remote_inputs s"] j ring
      by (simp add: kHistoryCapacity_def)
  next
    case False
    then have "R i = Some y" "i < 256" using that R by auto
    then show ?thesis
      using False ingested.IH [OF R] ring j history.get_put_nat [of ?j i x "s_remote_inputs s"]
      by (simp add: kHistoryCapacity_def)
  qed
  then show ?case by blast
qed (auto dest: advance_remote ingest_refused flush_remote)

section \<open>The errors of the decoder and of the socket\<close>

definition decode_codes :: "ErrorCode set" where
  "decode_codes = {EC_truncated_data, EC_invalid_length, EC_integrity_mismatch, EC_invalid_magic,
     EC_unsupported_version, EC_unknown_packet_type, EC_invalid_argument, EC_capacity_exceeded}"

lemma decode_error_code: "decode_error code n s x = Inl e \<Longrightarrow> err_code e = code"
  by (auto simp: decode_error_def mk_error_def)

lemma decode_error_Inl [simp]: "decode_error code n s x \<noteq> Inr v"
  by (simp add: decode_error_def)

lemma decode_codes_simps [simp]:
  "EC_truncated_data \<in> decode_codes" "EC_invalid_argument \<in> decode_codes"
  by (simp_all add: decode_codes_def)

lemma decode_inputs_code: "decode_inputs n b r = (Inl e, r') \<Longrightarrow> err_code e \<in> decode_codes"
  by (induction n arbitrary: r r')
    (auto simp: Let_def split: prod.splits if_splits sum.splits dest!: decode_error_code)

lemma decode_hashes_code: "decode_hashes n p r = (Inl e, r') \<Longrightarrow> err_code e \<in> decode_codes"
  by (induction n arbitrary: p r r')
    (auto simp: Let_def split: prod.splits if_splits sum.splits dest!: decode_error_code)

lemma decode_hello_code: "fst (decode_hello c h r) = Inl e \<Longrightarrow> err_code e \<in> decode_codes"
  by (auto simp: decode_hello_def decode_codes_def Let_def split: prod.splits if_splits
      dest!: decode_error_code)

lemma decode_payload_code:
  assumes "decode_payload p b c h r = Inl e"
  shows "err_code e \<in> decode_codes"
proof -
  obtain i r1 where i: "decode_inputs (unat c) b r = (i, r1)" by fastforce
  obtain k r2 where k: "decode_hashes (unat h) None r1 = (k, r2)" by fastforce
  obtain o1 r3 where o: "decode_hello c h r2 = (o1, r3)" by fastforce
  show ?thesis
    using assms i k o decode_inputs_code [of "unat c" b r e r1] decode_hashes_code [of "unat h" None r1 e r2]
      decode_hello_code [of c h r2 e]
    by (auto simp: decode_payload_def decode_codes_def Let_def split: sum.splits if_splits
        dest!: decode_error_code)
qed

lemma decode_fields_code: "decode_fields n v t b r = Inl e \<Longrightarrow> err_code e \<in> decode_codes"
  by (auto simp: decode_fields_def decode_codes_def Let_def split: prod.splits if_splits
      dest!: decode_error_code decode_payload_code)

lemma read_code: "read_little_endian ctx r = (Inl e, r') \<Longrightarrow> err_code e = EC_truncated_data"
  by (auto simp: read_little_endian_def mk_error_def Let_def split: if_splits)

lemma decode_header_code: "decode_header n r = Inl e \<Longrightarrow> err_code e \<in> decode_codes"
  by (auto simp: decode_header_def decode_codes_def Let_def split: prod.splits if_splits sum.splits
      dest!: decode_error_code decode_fields_code read_code)

lemma decode_packet_code: "decode_packet bytes = Inl e \<Longrightarrow> err_code e \<in> decode_codes"
  by (auto simp: decode_packet_def Let_def split: if_splits dest!: decode_error_code decode_header_code)
    (auto simp: decode_codes_def)

lemma send_loopback_code:
  "send_loopback os s port bytes w = (Inl e, w') \<Longrightarrow> err_code e \<in> {EC_invalid_length, EC_io_error}"
  by (auto simp: send_loopback_def io_failure_def mk_error_def Let_def split: option.splits if_splits prod.splits)

lemma receive_for_code:
  "receive_for os s t w = (Inl e, w') \<Longrightarrow> err_code e \<in> {EC_invalid_argument, EC_io_error}"
  by (auto simp: receive_for_def mk_error_def Let_def split: option.splits if_splits prod.splits)

section \<open>Honest datagrams\<close>

definition honest_bytes :: "Histories \<Rightarrow> nat \<Rightarrow> PlayerId \<Rightarrow> byte list \<Rightarrow> bool" where
  "honest_bytes H N p bytes \<longleftrightarrow> (\<forall>pkt. decode_packet bytes = Inr pkt \<longrightarrow> honest H N p pkt)"

text \<open>
  What a peer relies on: as long as the outside world satisfies \<open>W\<close>, sending an allowed
  datagram keeps \<open>W\<close>, and everything received is acceptable.
\<close>

definition channel :: "'s Host \<Rightarrow> UdpSocket \<Rightarrow> u16 \<Rightarrow> ('s \<Rightarrow> bool) \<Rightarrow> (byte list \<Rightarrow> bool)
    \<Rightarrow> (byte list \<Rightarrow> bool) \<Rightarrow> bool" where
  "channel os s port W sends receives \<longleftrightarrow>
     (\<forall>w bytes. W w \<longrightarrow> sends bytes \<longrightarrow> W (snd (send_loopback os s port bytes w)))
   \<and> (\<forall>w t r w'. W w \<longrightarrow> receive_for os s t w = (r, w') \<longrightarrow>
        W w' \<and> (\<forall>d. r = Inr (Some d) \<longrightarrow> receives (dg_bytes d)))"

abbreviation target :: "PeerConfig \<Rightarrow> nat" where
  "target config \<equiv> unat (pc_frame_count config)"

abbreviation game_of :: "PeerConfig \<Rightarrow> Histories" where
  "game_of config \<equiv> game (pc_scenario_seed config) (target config)"

definition peer_channel :: "'s Host \<Rightarrow> UdpSocket \<Rightarrow> PeerConfig \<Rightarrow> ('s \<Rightarrow> bool) \<Rightarrow> bool" where
  "peer_channel os s config W \<longleftrightarrow>
     channel os s (pc_relay_port config) W
       (honest_bytes (game_of config) (target config) (pc_id config))
       (honest_bytes (game_of config) (target config) (other_peer (pc_id config)))"

lemma peer_channel_send:
  "\<lbrakk>peer_channel os s config W; W w; honest_bytes (game_of config) (target config) (pc_id config) bytes;
    send_loopback os s (pc_relay_port config) bytes w = (r, w')\<rbrakk> \<Longrightarrow> W w'"
  unfolding peer_channel_def channel_def by (metis snd_conv)

lemma peer_channel_receive:
  "\<lbrakk>peer_channel os s config W; W w; receive_for os s t w = (r, w')\<rbrakk> \<Longrightarrow> W w'"
  "\<lbrakk>peer_channel os s config W; W w; receive_for os s t w = (Inr (Some d), w')\<rbrakk>
     \<Longrightarrow> honest_bytes (game_of config) (target config) (other_peer (pc_id config)) (dg_bytes d)"
  unfolding peer_channel_def channel_def by blast+

section \<open>The runtime\<close>

definition runtime_ok :: "PeerConfig \<Rightarrow> nat \<Rightarrow> PeerRuntime \<Rightarrow> bool" where
  "runtime_ok config c rt \<longleftrightarrow> target config \<le> 256 \<and> c \<le> target config
     \<and> (\<exists>R. follows (pc_id config) (game_of config) c R (pr_session rt))
     \<and> pr_local_history rt = take c (game_of config (pc_id config))
     \<and> (\<forall>h. pr_remote_final_hash rt = Some h \<longrightarrow>
          truthful (game_of config) (target config) (pc_frame_count config) h)
     \<and> pr_diagnostic rt = None"

lemma runtime_okD:
  assumes "runtime_ok config c rt"
  shows "target config \<le> 256" "c \<le> target config" "numbered (game_of config) (target config)"
    "\<exists>R. follows (pc_id config) (game_of config) c R (pr_session rt)"
    "pr_local_history rt = take c (game_of config (pc_id config))"
  using assms game_numbered by (auto simp: runtime_ok_def)

lemma runtime_ok_frame:
  assumes "runtime_ok config c rt"
  shows "ws_frame (s_state (pr_session rt)) = of_nat c"
proof -
  from runtime_okD [OF assms] obtain R where
    "follows (pc_id config) (game_of config) c R (pr_session rt)" by blast
  from followsD [OF this runtime_okD(3,2) [OF assms]] show ?thesis by metis
qed

lemma input_packet_eq:
  assumes "runtime_ok config c rt"
  shows "input_packet config rt =
    make_packet (pr_session rt) (pr_local_history rt) (pc_scenario_seed config) (pr_next_sequence rt)"
proof -
  from runtime_okD [OF assms] obtain R where
    f: "follows (pc_id config) (game_of config) c R (pr_session rt)" by blast
  from followsD [OF f runtime_okD(3,2) [OF assms]] obtain cfg where
    "live_config (pc_id config) cfg" "s_config (pr_session rt) = cfg" by metis
  then show ?thesis
    by (simp add: input_packet_def make_packet_def input_window_def window_from_def
        confirmed_hash_window_def session_report_def live_config_def Let_def)
qed

lemma send_inputs_ok:
  assumes rt: "runtime_ok config c rt" and ch: "peer_channel os s config W" "W w"
    and r: "send_inputs os config s rt w = (r, rt', w')"
  shows "runtime_ok config c rt' \<and> pr_session rt' = pr_session rt
    \<and> pr_remote_final_hash rt' = pr_remote_final_hash rt \<and> W w'
    \<and> (\<forall>e. r = Inl e \<longrightarrow> err_code e \<noteq> EC_desync)"
proof -
  note D = runtime_okD [OF rt]
  from D(4) obtain R where f: "follows (pc_id config) (game_of config) c R (pr_session rt)" by blast
  have "set (pr_local_history rt) \<subseteq> set (game_of config (pc_id config))"
    by (simp add: D(5) set_take_subset)
  from make_packet_honest [OF f D(3,2) this, of "pc_scenario_seed config" "pr_next_sequence rt"]
  obtain bytes where b: "encode_packet (input_packet config rt) = Inr bytes"
    "honest_bytes (game_of config) (target config) (pc_id config) bytes"
    unfolding input_packet_eq [OF rt] honest_bytes_def by auto
  obtain q w1 where s: "send_loopback os s (pc_relay_port config) bytes w = (q, w1)" by fastforce
  have W: "W w1" using peer_channel_send [OF ch b(2) s] .
  have res: "r = q" "w' = w1" "pr_session rt' = pr_session rt" "pr_local_history rt' = pr_local_history rt"
      "pr_remote_final_hash rt' = pr_remote_final_hash rt" "pr_diagnostic rt' = pr_diagnostic rt"
    using r b(1) s by (auto simp: send_inputs_def Let_def)
  have "err_code e \<noteq> EC_desync" if "r = Inl e" for e
    using send_loopback_code [of os s "pc_relay_port config" bytes w e w1] s res(1) that by auto
  then show ?thesis using W rt res by (simp add: runtime_ok_def)
qed

lemma runtime_ok_session:
  "runtime_ok config c rt \<Longrightarrow> follows (pc_id config) (game_of config) c R s
     \<Longrightarrow> runtime_ok config c (rt\<lparr>pr_session := s\<rparr>)"
  by (auto simp: runtime_ok_def)

lemma check_hashes_ok:
  assumes "runtime_ok config c rt"
    and "\<forall>h \<in> set hs. truthful (game_of config) (target config) (ch_frame h) (ch_hash h)"
  shows "\<exists>rt'. check_hashes config hs rt = (Inr True, rt') \<and> runtime_ok config c rt'"
  using assms
proof (induction hs arbitrary: rt)
  case (Cons h hs)
  note D = runtime_okD [OF Cons.prems(1)]
  obtain R where f: "follows (pc_id config) (game_of config) c R (pr_session rt)" using D(4) by blast
  have h: "truthful (game_of config) (target config) (ch_frame h) (ch_hash h)" using Cons.prems(2) by simp
  have rest: "\<forall>h \<in> set hs. truthful (game_of config) (target config) (ch_frame h) (ch_hash h)"
    using Cons.prems(2) by simp
  show ?case
  proof (cases "hash_at (pr_session rt) (ch_frame h)")
    case (Inl e)
    then show ?thesis using Cons.IH [OF Cons.prems(1) rest] by simp
  next
    case (Inr x)
    have "x = ch_hash h"
      using truthful_unique [OF follows_hash [OF f D(3,2) Inr] h] D(1) by simp
    moreover have "runtime_ok config c
        (if ch_frame h = pc_frame_count config then rt\<lparr>pr_remote_final_hash := Some (ch_hash h)\<rparr> else rt)"
      using Cons.prems(1) h by (auto simp: runtime_ok_def)
    ultimately show ?thesis using Cons.IH [OF _ rest] Inr by simp
  qed
qed simp

lemma accept_inputs_ok:
  assumes rt: "runtime_ok config c rt"
    and h: "honest (game_of config) (target config) (other_peer (pc_id config)) pkt"
    and r: "accept_inputs config pkt rt = (r, rt')"
  shows "runtime_ok config c rt' \<and> (\<forall>e. r = Inl e \<longrightarrow> err_code e \<noteq> EC_desync)"
proof (cases "find_beyond_target config (pk_inputs pkt)")
  case (Some f)
  then show ?thesis using rt r by (auto simp: accept_inputs_def mk_error_def)
next
  case None
  note D = runtime_okD [OF rt]
  obtain R where f: "follows (pc_id config) (game_of config) c R (pr_session rt)" using D(4) by blast
  obtain q s where i: "ingest_all (pk_inputs pkt) (pr_session rt) = (q, s)" by fastforce
  have xs: "set (pk_inputs pkt) \<subseteq> set (game_of config (other_peer (pc_id config)))"
    using h by (simp add: honest_def)
  from ingest_all_follows [OF f D(3,2) disjI2 [OF D(1)] xs i] obtain R1 where
    f1: "follows (pc_id config) (game_of config) c R1 s" and
    code: "\<forall>e. q = Inl e \<longrightarrow> err_code e = EC_rollback_window_exceeded" by blast
  show ?thesis
  proof (cases q)
    case (Inl e)
    then show ?thesis using r None i code runtime_ok_session [OF rt f1] by (auto simp: accept_inputs_def)
  next
    case (Inr u)
    from flush_follows [OF f1 D(3,2)] obtain cr s2 where
      fl: "flush_corrections s = (Inr cr, s2)" "follows (pc_id config) (game_of config) c R1 s2" by blast
    obtain corr where corr: "accept_inputs config pkt rt =
        check_hashes config (pk_confirmed_hashes pkt)
          (if cr_performed cr then rt\<lparr>pr_session := s2, pr_correction := corr\<rparr> else rt\<lparr>pr_session := s2\<rparr>)"
      using None i Inr fl(1) by (simp add: accept_inputs_def Let_def)
    have "runtime_ok config c
        (if cr_performed cr then rt\<lparr>pr_session := s2, pr_correction := corr\<rparr> else rt\<lparr>pr_session := s2\<rparr>)"
      using runtime_ok_session [OF rt fl(2)] by (simp add: runtime_ok_def)
    from check_hashes_ok [OF this, of "pk_confirmed_hashes pkt"] h corr r show ?thesis
      by (auto simp: honest_def)
  qed
qed

lemma accept_datagram_ok:
  assumes rt: "runtime_ok config c rt"
    and h: "honest_bytes (game_of config) (target config) (other_peer (pc_id config)) (dg_bytes d)"
    and r: "accept_datagram config d rt = (r, rt')"
  shows "runtime_ok config c rt' \<and> (\<forall>e. r = Inl e \<longrightarrow> err_code e \<noteq> EC_desync)"
proof (cases "pc_engine_abi_version config \<noteq> 0 \<and> dg_source_port d \<noteq> pc_relay_port config")
  case True
  then show ?thesis using rt r by (auto simp: accept_datagram_def mk_error_def)
next
  case False
  show ?thesis
  proof (cases "decode_packet (dg_bytes d)")
    case (Inl e)
    then show ?thesis using rt r False decode_packet_code [OF Inl]
      by (auto simp: accept_datagram_def decode_codes_def)
  next
    case (Inr pkt)
    have hp: "honest (game_of config) (target config) (other_peer (pc_id config)) pkt"
      using h Inr by (simp add: honest_bytes_def)
    obtain disp win where ob: "observe (pk_sequence pkt) (pr_sequences rt) = (disp, win)" by fastforce
    have acc: "runtime_ok config c (rt\<lparr>pr_sequences := win, pr_metrics := m\<rparr>)"
      "runtime_ok config c (rt\<lparr>pr_sequences := win\<rparr>)" for m
      using rt by (simp_all add: runtime_ok_def)
    have hello: "err_code e \<noteq> EC_desync" if "valid_hello config pkt = Inl e" for e
      using that by (auto simp: valid_hello_def mk_error_def split: option.splits if_splits)
    show ?thesis
      using r False Inr ob accept_inputs_ok [OF acc(1) hp] acc(2) hello rt
      unfolding accept_datagram_def
      by (auto simp: Let_def mk_error_def split: if_splits sum.splits)
  qed
qed

lemma receive_one_ok:
  assumes rt: "runtime_ok config c rt" and ch: "peer_channel os s config W" "W w"
    and r: "receive_one os config s t rt w = (r, rt', w')"
  shows "runtime_ok config c rt' \<and> W w' \<and> (\<forall>e. r = Inl e \<longrightarrow> err_code e \<noteq> EC_desync)"
proof -
  obtain q w1 where q: "receive_for os s t w = (q, w1)" by fastforce
  have W: "W w1" using peer_channel_receive(1) [OF ch q] .
  show ?thesis
  proof (cases q)
    case (Inl e)
    then show ?thesis using r q W rt receive_for_code [of os s t w e w1]
      by (auto simp: receive_one_def)
  next
    case (Inr od)
    show ?thesis
    proof (cases od)
      case None
      then show ?thesis using r q W rt Inr by (auto simp: receive_one_def)
    next
      case (Some d)
      then have "honest_bytes (game_of config) (target config) (other_peer (pc_id config)) (dg_bytes d)"
        using peer_channel_receive(2) [OF ch, of t d w1] q Inr by simp
      from accept_datagram_ok [OF rt this] show ?thesis
        using r q W Inr Some by (auto simp: receive_one_def split: prod.splits)
    qed
  qed
qed

lemma drain_ok:
  assumes "runtime_ok config c rt" "peer_channel os s config W" "W w"
    and "drain n os config s rt w = (r, rt', w')"
  shows "runtime_ok config c rt' \<and> W w' \<and> (\<forall>e. r = Inl e \<longrightarrow> err_code e \<noteq> EC_desync)"
  using assms(1,3,4)
proof (induction n arbitrary: rt w)
  case (Suc n)
  obtain q rt1 w1 where q: "receive_one os config s 0 rt w = (q, rt1, w1)" by (cases "receive_one os config s 0 rt w")
  from receive_one_ok [OF Suc.prems(1) assms(2) Suc.prems(2) q] have
    1: "runtime_ok config c rt1" "W w1" "\<forall>e. q = Inl e \<longrightarrow> err_code e \<noteq> EC_desync" by simp_all
  show ?case
    using Suc.prems(3) q 1 Suc.IH [OF 1(1,2)] by (auto split: sum.splits bool.splits)
qed auto

section \<open>A finished peer\<close>

definition complete :: "PeerConfig \<Rightarrow> PeerRuntime \<Rightarrow> bool" where
  "complete config rt \<longleftrightarrow> runtime_ok config (target config) rt
     \<and> m_confirmed_frame (s_metrics (pr_session rt)) = pc_frame_count config
     \<and> pr_remote_final_hash rt \<noteq> None"

lemma complete_view:
  assumes "complete config rt"
  obtains R w where "follows (pc_id config) (game_of config) (target config) R (pr_session rt)"
    "\<forall>i<target config. R i \<noteq> None" "truth (game_of config) (target config) = Inr w"
    "state_at (pr_session rt) (pc_frame_count config) = Inr w"
proof -
  let ?N = "target config" and ?s = "pr_session rt" and ?H = "game_of config"
  have rt: "runtime_ok config ?N rt" and cf: "m_confirmed_frame (s_metrics ?s) = pc_frame_count config"
    using assms by (simp_all add: complete_def)
  note D = runtime_okD [OF rt]
  obtain R where f: "follows (pc_id config) ?H ?N R ?s" using D(4) by blast
  from follows_truth [OF f D(3,2)] obtain k where
    k: "k \<le> ?N" "m_confirmed_frame (s_metrics ?s) = of_nat k" "\<forall>i<k. R i \<noteq> None" and
    t: "\<forall>n\<le>k. ?N \<le> n + 255 \<longrightarrow> (\<exists>w. truth ?H n = Inr w
          \<and> hash_at ?s (of_nat n) = Inr (hash_canonical w) \<and> state_at ?s (of_nat n) = Inr w)"
    by blast
  have "k < 4294967296" using k(1) D(1) by simp
  moreover have "pc_frame_count config = of_nat k" using k(2) cf by simp
  ultimately have "?N = k" using unat_of_nat_u32 [of k] by (simp only:)
  with k t f cf that show thesis by auto
qed

lemma complete_input:
  assumes c: "complete config rt" and i: "i < target config"
  shows "confirmed_input (pr_session rt) q (of_nat i) = Inr (game_of config q ! i)"
proof -
  let ?N = "target config" and ?s = "pr_session rt" and ?p = "pc_id config" and ?H = "game_of config"
  have rt: "runtime_ok config ?N rt" and cf: "m_confirmed_frame (s_metrics ?s) = of_nat ?N"
    using c by (simp_all add: complete_def)
  note D = runtime_okD [OF rt]
  obtain R where f: "follows ?p ?H ?N R ?s" and known: "\<forall>i<?N. R i \<noteq> None"
    using complete_view [OF c] by metis
  from followsD [OF f D(3,2)] obtain cfg where cfg: "live_config ?p cfg" "valid_config cfg"
    "session_reach cfg (take ?N (?H ?p)) R ?s" "session_inv cfg (take ?N (?H ?p)) R ?s" "s_config ?s = cfg"
    by metis
  have p: "cfg_local_peer (s_config ?s) = ?p" using cfg(1,5) by (simp add: live_config_def)
  have before: "frame_before (of_nat i) (of_nat ?N)"
    using i D(1) by (subst frame_before_of_nat) simp_all
  show ?thesis
  proof (cases "q = ?p")
    case True
    obtain U S where "session_core cfg (take ?N (?H ?p)) R U S (length (take ?N (?H ?p))) ?s"
      using cfg(4) by (auto simp: session_inv_def)
    from core_locals(1) [OF this, of i] i D(1) True p cf before show ?thesis
      by (simp add: confirmed_input_def)
  next
    case False
    then have q: "q = other_peer ?p" by (cases q; cases "?p") (simp_all add: other_peer_def)
    have dom: "\<forall>i. R i \<noteq> None \<longrightarrow> i < 256" using f D(1) by (fastforce simp: follows_def)
    obtain x where x: "R i = Some x" using known i by blast
    moreover from this have "x = ?H q ! i" using f q by (auto simp: follows_def)
    ultimately show ?thesis
      using early_inputs_kept [OF cfg(3) dom] False p cf before by (simp add: confirmed_input_def)
  qed
qed

lemma complete_state:
  assumes "complete config rt"
  shows "truth (game_of config) (target config) = Inr (s_state (pr_session rt))"
    and "pr_remote_final_hash rt = Some (hash_canonical (s_state (pr_session rt)))"
proof -
  let ?N = "target config" and ?s = "pr_session rt" and ?H = "game_of config"
  have rt: "runtime_ok config ?N rt" using assms by (simp add: complete_def)
  note D = runtime_okD [OF rt]
  obtain w where w: "truth ?H ?N = Inr w" "state_at ?s (pc_frame_count config) = Inr w"
    using complete_view [OF assms] by metis
  moreover have "ws_frame (s_state ?s) = pc_frame_count config" using runtime_ok_frame [OF rt] by simp
  ultimately have "w = s_state ?s" by (simp add: state_at_def split: if_splits)
  with w show t: "truth ?H ?N = Inr (s_state ?s)" by simp
  obtain h where h: "pr_remote_final_hash rt = Some h" "truthful ?H ?N (pc_frame_count config) h"
    using assms by (auto simp: complete_def runtime_ok_def)
  have "truthful ?H ?N (pc_frame_count config) (hash_canonical (s_state ?s))"
    using t by (auto simp: truthful_def intro!: exI [of _ ?N])
  from truthful_unique [OF h(2) this] h(1) D(1) show
    "pr_remote_final_hash rt = Some (hash_canonical (s_state ?s))" by simp
qed

lemma record_frames_ok:
  assumes n: "numbered H N" "N \<le> 256" and c: "\<And>q i. i < N \<Longrightarrow> confirmed_input s q (of_nat i) = Inr (H q ! i)"
    and k: "k \<le> N" "truth H k = Inr w" "replay_so_far H k fc r"
  shows "\<exists>w' r'. record_frames config s [k..<N] w r = Inr (w', r') \<and> truth H N = Inr w' \<and> replay_so_far H N fc r'"
  using k
proof (induction "N - k" arbitrary: k w r)
  case 0
  then show ?case by simp
next
  case (Suc d)
  then have lt: "k < N" by simp
  then have u: "[k..<N] = k # [Suc k..<N]" by (rule upt_conv_Cons)
  have "Suc k \<le> 1000000" using lt n(2) by simp
  from truth_world [OF this, of H] obtain v where v: "truth H (Suc k) = Inr v" "ws_frame v = of_nat (Suc k)"
    by blast
  have sim: "simulate_frame w (of_nat k) \<lparr>pair_a = H PA ! k, pair_b = H PB ! k\<rparr> variant_canonical = Inr v"
    using truth_Suc_pair [OF Suc.prems(2), of "H PA ! k" "H PB ! k"] numberedD(3,4) [OF n(1) lt] v(1)
    by simp
  define force where "force = (ws_frame v = pc_frame_count config)"
  have "replay_so_far H (Suc k) fc (accumulate_checkpoint v force
      (r\<lparr>rp_confirmed_inputs := rp_confirmed_inputs r @ [pair_at H k]\<rparr>))"
    using lt n(2) by (intro replay_so_far_Suc [OF Suc.prems(3) _ v]) simp
  from Suc.hyps(1) [OF _ _ v(1) this] Suc.hyps(2) lt show ?case
    unfolding u
    by (simp add: c Let_def sim pair_at_def accumulate_checkpoint_def force_def disj_commute)
qed

lemma record_frames_cong:
  assumes "pc_frame_count config = pc_frame_count config'"
    and "\<And>q i. i \<in> set is \<Longrightarrow> confirmed_input s q (of_nat i) = confirmed_input s' q (of_nat i)"
  shows "record_frames config s is w r = record_frames config' s' is w r"
  using assms(2) by (induction "is" arbitrary: w r) (simp_all add: Let_def assms(1) split: sum.split)

lemma sorted_wrt_less_bound:
  assumes "sorted_wrt (<) (xs :: nat list)" "\<forall>x \<in> set xs. x \<le> n"
  shows "length xs \<le> Suc n"
proof -
  have "distinct xs" using assms(1) by (simp add: strict_sorted_iff)
  then have "length xs = card (set xs)" by (simp add: distinct_card)
  also have "\<dots> \<le> card {..n}" using assms(2) by (intro card_mono) auto
  finally show ?thesis by simp
qed

lemma replay_encodes:
  assumes r: "replay_so_far H N fc r" and n: "numbered H N" "N \<le> 256" "N = unat fc"
  shows "\<exists>bytes. encode_replay r = Inr bytes"
proof -
  let ?fs = "map (unat \<circ> rc_frame) (rp_checkpoints r)"
  have "length ?fs \<le> Suc N"
    using r by (intro sorted_wrt_less_bound)
      (auto simp: replay_so_far_def before_checkpoint_def [abs_def] sorted_wrt_map)
  moreover have "pair_tagged (pair_at H i)" if "i < N" for i
    using numberedD(3,4) [OF n(1) that] by (simp add: pair_tagged_def pair_at_def)
  ultimately have "replay_ok r"
    using r n by (auto simp: replay_ok_def replay_so_far_def valid_variant_def kMaxReplayFrames_def
        kMaxReplayCheckpoints_def)
  then show ?thesis by (simp add: encode_replay_iff)
qed

lemma build_replay_ok:
  assumes c: "complete config rt"
  shows "\<exists>replay bytes. build_replay config (pr_session rt) = Inr replay \<and> ok (verify_replay replay)
    \<and> encode_replay replay = Inr bytes
    \<and> rp_expected_final_hash replay = hash_canonical (s_state (pr_session rt))"
proof -
  let ?N = "target config" and ?H = "game_of config" and ?fc = "pc_frame_count config"
  have rt: "runtime_ok config ?N rt" using c by (simp add: complete_def)
  note D = runtime_okD [OF rt]
  let ?r0 = "default_replay\<lparr>rp_scenario_seed := pc_scenario_seed config,
                rp_transport_seed := pc_transport_seed config, rp_final_frame := ?fc\<rparr>"
  have "replay_so_far ?H 0 ?fc ?r0"
    by (simp add: replay_so_far_def default_replay_def replay_versions_ok_def kReplayVersion_def
        kSimulationVersion_def kProtocolVersion_def)
  moreover have "truth ?H 0 = Inr make_initial_world" by (simp add: truth_def)
  ultimately obtain w r where w: "record_frames config (pr_session rt) [0..<?N] make_initial_world ?r0 = Inr (w, r)"
      "truth ?H ?N = Inr w" "replay_so_far ?H ?N ?fc r"
    using record_frames_ok [OF D(3,1) complete_input [OF c]] by blast
  let ?r = "r\<lparr>rp_expected_final_hash := hash_canonical w\<rparr>"
  have sf: "replay_so_far ?H ?N ?fc ?r" using w(3) by (simp add: replay_so_far_def)
  have "build_replay config (pr_session rt) = Inr ?r" using w(1) by (simp add: build_replay_def)
  moreover have "ok (verify_replay ?r)" by (rule replay_verifies [OF sf D(3) refl w(2)]) simp
  moreover have "w = s_state (pr_session rt)" using complete_state(1) [OF c] w(2) by simp
  ultimately show ?thesis using replay_encodes [OF sf D(3,1) refl] by auto
qed

lemma peer_report_success:
  assumes "complete config rt"
  shows "rr_success (peer_report build config rt)"
    and "rr_final_hash_a (peer_report build config rt) = hash_canonical (s_state (pr_session rt))"
    and "rr_final_hash_b (peer_report build config rt) = hash_canonical (s_state (pr_session rt))"
  using assms complete_state(2) [OF assms]
  by (simp_all add: peer_report_def complete_def session_report_def Let_def)

lemma artifacts_ok:
  assumes c: "complete config rt"
  shows "\<exists>a replay. build_peer_artifacts build config rt = Inr a
    \<and> build_replay config (pr_session rt) = Inr replay \<and> ok (verify_replay replay)
    \<and> encode_replay replay = Inr (pa_replay a)
    \<and> rp_expected_final_hash replay = hash_canonical (s_state (pr_session rt))"
proof -
  from build_replay_ok [OF c] obtain replay bytes v where
    "build_replay config (pr_session rt) = Inr replay" "verify_replay replay = Inr v"
    "encode_replay replay = Inr bytes"
    "rp_expected_final_hash replay = hash_canonical (s_state (pr_session rt))"
    by (auto simp: ok_iff)
  then show ?thesis
    using peer_report_success(1) [OF c]
    by (simp add: build_peer_artifacts_def Let_def session_report_def)
qed

section \<open>The driver\<close>

definition phase_ok :: "BuildInfo \<Rightarrow> nat \<Rightarrow> PeerDriver \<Rightarrow> bool" where
  "phase_ok build c d \<longleftrightarrow>
     (case pd_phase d of
        PP_handshake \<Rightarrow> c = 0
      | PP_running \<Rightarrow> c < target (pd_config d)
      | PP_confirming \<Rightarrow> c = target (pd_config d)
      | PP_finished \<Rightarrow> complete (pd_config d) (pd_runtime d)
          \<and> build_peer_artifacts build (pd_config d) (pd_runtime d) = Inr (pd_artifacts d)
      | PP_failed \<Rightarrow> True)"

definition driver_core :: "nat \<Rightarrow> PeerDriver \<Rightarrow> bool" where
  "driver_core c d \<longleftrightarrow> runtime_ok (pd_config d) c (pd_runtime d) \<and> 0 < target (pd_config d)
     \<and> honest_bytes (game_of (pd_config d)) (target (pd_config d)) (pc_id (pd_config d)) (pd_hello d)"

definition driver_inv :: "BuildInfo \<Rightarrow> PeerDriver \<Rightarrow> bool" where
  "driver_inv build d \<longleftrightarrow> (\<exists>c. driver_core c d \<and> phase_ok build c d)
     \<and> (\<forall>e. pd_failure d = Some e \<longrightarrow> err_code e \<noteq> EC_desync)
     \<and> (pd_failure d \<noteq> None \<longleftrightarrow> pd_phase d = PP_failed)"

text \<open>What a phase does to the driver and to the world.\<close>

definition phase_result :: "BuildInfo \<Rightarrow> ('s \<Rightarrow> bool) \<Rightarrow> PeerDriver \<Rightarrow> unit Result \<Rightarrow> PeerDriver \<Rightarrow> 's \<Rightarrow> bool" where
  "phase_result build W d r d' w' \<longleftrightarrow>
     (\<exists>c. driver_core c d' \<and> (\<forall>u. r = Inr u \<longrightarrow> phase_ok build c d'))
   \<and> W w' \<and> pd_config d' = pd_config d \<and> pd_socket d' = pd_socket d \<and> pd_failure d' = pd_failure d
   \<and> (\<forall>u. r = Inr u \<longrightarrow> pd_phase d' \<noteq> PP_failed) \<and> (\<forall>e. r = Inl e \<longrightarrow> err_code e \<noteq> EC_desync)"

lemma driver_core_runtime:
  "driver_core c d \<Longrightarrow> runtime_ok (pd_config d) c' rt \<Longrightarrow> driver_core c' (d\<lparr>pd_runtime := rt\<rparr>)"
  by (simp add: driver_core_def)

lemma driver_core_set_phase [simp]: "driver_core c (set_phase ph d) = driver_core c d"
  by (simp add: driver_core_def)

lemma handshake_ok:
  assumes i: "driver_core c d" "phase_ok build c d" "pd_phase d = PP_handshake"
    and ch: "peer_channel os (pd_socket d) (pd_config d) W" "W w"
    and r: "handshake_step os elapsed d w = (r, d', w')"
  shows "phase_result build W d r d' w'"
proof -
  let ?cf = "pd_config d" and ?s = "pd_socket d"
  have hello: "honest_bytes (game_of ?cf) (target ?cf) (pc_id ?cf) (pd_hello d)"
    using i(1) by (simp add: driver_core_def)
  have stay: "phase_result build W d q d w1" if "W w1" "\<forall>e. q = Inl e \<longrightarrow> err_code e \<noteq> EC_desync" for q w1
    using i that by (auto simp: phase_result_def)
  have start: "phase_result build W d (Inr ()) (d\<lparr>pd_observation := (pd_observation d)
      \<lparr>pt_phase := PP_running, pt_handshake_complete := True\<rparr>, pd_run_started := elapsed\<rparr>) w1" if "W w1" for w1
  proof -
    have "c = 0" "0 < target ?cf" using i by (simp_all add: phase_ok_def driver_core_def)
    then show ?thesis using i(1) that
      by (auto simp: phase_result_def driver_core_def phase_ok_def intro!: exI [of _ c])
  qed
  obtain s1 w1 where s1: "send_loopback os ?s (pc_relay_port ?cf) (pd_hello d) w = (s1, w1)" by fastforce
  have W1: "W w1" using peer_channel_send [OF ch hello s1] .
  obtain q w2 where q: "receive_for os ?s 0 w1 = (q, w2)" by fastforce
  have W2: "W w2" using peer_channel_receive(1) [OF ch(1) W1 q] .
  obtain s3 w3 where s3: "send_loopback os ?s (pc_relay_port ?cf) (pd_hello d) w2 = (s3, w3)" by fastforce
  have W3: "W w3" using peer_channel_send [OF ch(1) W2 hello s3] .
  have send_err: "err_code e \<noteq> EC_desync" if "send_loopback os ?s p b v = (Inl e, v')" for p b v v' e
    using send_loopback_code [OF that] by auto
  have recv_err: "err_code e \<noteq> EC_desync" if "q = Inl e" for e
    using receive_for_code [of os ?s 0 w1 e w2] q that by auto
  have hello_err: "err_code e \<noteq> EC_desync" if "valid_hello ?cf pkt = Inl e" for e pkt
    using that by (auto simp: valid_hello_def mk_error_def split: option.splits if_splits)
  have dec_err: "err_code e \<noteq> EC_desync" if "decode_packet b = Inl e" for e b
    using decode_packet_code [OF that] by (auto simp: decode_codes_def)
  show ?thesis
  proof (cases "elapsed \<ge> ucast (pc_handshake_timeout_milliseconds ?cf)")
    case True
    then show ?thesis using r stay [OF ch(2)] by (auto simp: handshake_step_def mk_error_def)
  next
    case False
    show ?thesis
    proof (cases s1)
      case (Inl e)
      then show ?thesis using r False s1 stay [OF W1] send_err [of "pc_relay_port ?cf" "pd_hello d" w e w1]
        by (auto simp: handshake_step_def)
    next
      case (Inr u)
      show ?thesis
      proof (cases q)
        case (Inl e)
        then show ?thesis using r False s1 Inr q stay [OF W2] recv_err
          by (auto simp: handshake_step_def)
      next
        case q': (Inr od)
        show ?thesis
        proof (cases od)
          case None
          then show ?thesis using r False s1 Inr q q' stay [OF W2] by (auto simp: handshake_step_def)
        next
          case (Some g)
          show ?thesis
            using r False s1 Inr q q' Some s3 stay [OF W2] stay [OF W3] start [OF W3] hello_err dec_err
              send_err [of "pc_relay_port ?cf" "pd_hello d" w2 _ w3]
            by (auto simp: handshake_step_def Let_def mk_error_def split: if_splits sum.splits)
        qed
      qed
    qed
  qed
qed

lemma driver_advance:
  assumes rt: "runtime_ok config c rt" and c: "c < target config"
  shows "\<exists>ar s. advance (scripted_input (pc_scenario_seed config) (ws_frame (s_state (pr_session rt))) (pc_id config))
        (pr_session rt) = (Inr ar, s)
    \<and> runtime_ok config (Suc c) (rt\<lparr>pr_local_history := pr_local_history rt @
        [scripted_input (pc_scenario_seed config) (ws_frame (s_state (pr_session rt))) (pc_id config)],
        pr_session := s\<rparr>)"
proof -
  note D = runtime_okD [OF rt]
  obtain R where f: "follows (pc_id config) (game_of config) c R (pr_session rt)" using D(4) by blast
  have l: "scripted_input (pc_scenario_seed config) (ws_frame (s_state (pr_session rt))) (pc_id config)
      = game_of config (pc_id config) ! c"
    using runtime_ok_frame [OF rt] game_nth [OF c] by simp
  from advance_follows [OF f D(3) c] obtain ar s where
    "advance (game_of config (pc_id config) ! c) (pr_session rt) = (Inr ar, s)"
    "follows (pc_id config) (game_of config) (Suc c) R s" by blast
  then show ?thesis
    unfolding l using rt c D(5) by (auto simp: runtime_ok_def take_Suc_conv_app_nth)
qed

lemma running_ok:
  assumes i: "driver_core c d" "phase_ok build c d" "pd_phase d = PP_running"
    and ch: "peer_channel os (pd_socket d) (pd_config d) W" "W w"
    and r: "running_step os d w = (r, d', w')"
  shows "phase_result build W d r d' w'"
proof -
  let ?cf = "pd_config d"
  have rt: "runtime_ok ?cf c (pd_runtime d)" using i(1) by (simp add: driver_core_def)
  have c: "c < target ?cf" using i by (simp add: phase_ok_def)
  obtain q rt1 w1 where q: "drain_available os ?cf (pd_socket d) (pd_runtime d) w = (q, rt1, w1)"
    by (cases "drain_available os ?cf (pd_socket d) (pd_runtime d) w")
  from drain_ok [OF rt ch, of 64 q rt1 w1] q have
    1: "runtime_ok ?cf c rt1" "W w1" "\<forall>e. q = Inl e \<longrightarrow> err_code e \<noteq> EC_desync"
    by (simp_all add: drain_available_def)
  show ?thesis
  proof (cases q)
    case (Inl e)
    then show ?thesis using r q 1 driver_core_runtime [OF i(1) 1(1)]
      by (auto simp: running_step_def phase_result_def Let_def)
  next
    case (Inr u)
    define local where "local = scripted_input (pc_scenario_seed ?cf) (ws_frame (s_state (pr_session rt1))) (pc_id ?cf)"
    define rt2 where "rt2 = rt1\<lparr>pr_local_history := pr_local_history rt1 @ [local]\<rparr>"
    from driver_advance [OF 1(1) c] obtain ar s where
      a: "advance local (pr_session rt2) = (Inr ar, s)" "runtime_ok ?cf (Suc c) (rt2\<lparr>pr_session := s\<rparr>)"
      by (auto simp: local_def rt2_def)
    obtain z rt3 w2 where z: "send_inputs os ?cf (pd_socket d) (rt2\<lparr>pr_session := s\<rparr>) w1 = (z, rt3, w2)"
      by (cases "send_inputs os ?cf (pd_socket d) (rt2\<lparr>pr_session := s\<rparr>) w1")
    from send_inputs_ok [OF a(2) ch(1) 1(2) z] have
      3: "runtime_ok ?cf (Suc c) rt3" "W w2" "\<forall>e. z = Inl e \<longrightarrow> err_code e \<noteq> EC_desync" by simp_all
    have run: "running_step os d w = (case z of Inl e \<Rightarrow> (Inl e, d\<lparr>pd_runtime := rt3\<rparr>, w2)
        | Inr _ \<Rightarrow> (Inr (), if ws_frame (s_state (pr_session rt3)) = pc_frame_count ?cf
              then set_phase PP_confirming (d\<lparr>pd_runtime := rt3\<rparr>) else d\<lparr>pd_runtime := rt3\<rparr>, w2))"
      using q Inr a(1) z
      by (cases z) (simp_all add: running_step_def Let_def session_report_def local_def rt2_def)
    have frame: "ws_frame (s_state (pr_session rt3)) = of_nat (Suc c)" by (rule runtime_ok_frame [OF 3(1)])
    have at: "of_nat (Suc c) = pc_frame_count ?cf \<longleftrightarrow> Suc c = target ?cf"
      using of_nat_u32_inj [of "Suc c" "target ?cf"] c runtime_okD(1) [OF rt] by auto
    note core = driver_core_runtime [OF i(1) 3(1)]
    show ?thesis
    proof (cases z)
      case (Inl e)
      then show ?thesis using r run core 3 by (auto simp: phase_result_def)
    next
      case z: (Inr v)
      show ?thesis
      proof (cases "Suc c = target ?cf")
        case True
        then show ?thesis using r run core 3 z frame at i(3)
          by (auto simp: phase_result_def phase_ok_def simp del: of_nat_Suc intro!: exI [of _ "Suc c"])
      next
        case False
        then show ?thesis using r run core 3 z frame at i(3) c
          by (auto simp: phase_result_def phase_ok_def simp del: of_nat_Suc intro!: exI [of _ "Suc c"])
      qed
    qed
  qed
qed

lemma confirming_ok:
  assumes i: "driver_core c d" "phase_ok build c d" "pd_phase d = PP_confirming"
    and ch: "peer_channel os (pd_socket d) (pd_config d) W" "W w"
    and r: "confirming_step build os d w = (r, d', w')"
  shows "phase_result build W d r d' w'"
proof -
  let ?cf = "pd_config d"
  have c: "c = target ?cf" using i by (simp add: phase_ok_def)
  have rt: "runtime_ok ?cf c (pd_runtime d)" using i(1) by (simp add: driver_core_def)
  obtain z rt1 w1 where z: "send_inputs os ?cf (pd_socket d) (pd_runtime d) w = (z, rt1, w1)"
    by (cases "send_inputs os ?cf (pd_socket d) (pd_runtime d) w")
  from send_inputs_ok [OF rt ch z] have
    1: "runtime_ok ?cf c rt1" "W w1" "\<forall>e. z = Inl e \<longrightarrow> err_code e \<noteq> EC_desync" by simp_all
  obtain q rt2 w2 where q: "drain_available os ?cf (pd_socket d) rt1 w1 = (q, rt2, w2)"
    by (cases "drain_available os ?cf (pd_socket d) rt1 w1")
  from drain_ok [OF 1(1) ch(1) 1(2), of 64 q rt2 w2] q have
    2: "runtime_ok ?cf c rt2" "W w2" "\<forall>e. q = Inl e \<longrightarrow> err_code e \<noteq> EC_desync"
    by (simp_all add: drain_available_def)
  note core1 = driver_core_runtime [OF i(1) 1(1)] and core2 = driver_core_runtime [OF i(1) 2(1)]
  show ?thesis
  proof (cases z)
    case (Inl e)
    then show ?thesis using r z 1 core1 by (auto simp: confirming_step_def phase_result_def Let_def)
  next
    case z': (Inr u)
    show ?thesis
    proof (cases q)
      case (Inl e)
      then show ?thesis using r z z' q 2 core2 by (auto simp: confirming_step_def phase_result_def Let_def)
    next
      case q': (Inr v)
      have stay: "phase_result build W d (Inr ()) (d\<lparr>pd_runtime := rt2, pd_final_drain_progress := k\<rparr>) w2" for k
        using core2 2(2) i(3) c by (auto simp: phase_result_def phase_ok_def driver_core_def intro!: exI [of _ c])
      show ?thesis
      proof (cases "m_confirmed_frame (s_metrics (pr_session rt2)) = pc_frame_count ?cf \<and> pr_remote_final_hash rt2 \<noteq> None")
        case False
        then show ?thesis using r z z' q q' stay by (auto simp: confirming_step_def Let_def session_report_def)
      next
        case True
        then have over: "complete ?cf rt2" using 2(1) c by (simp add: complete_def)
        from artifacts_ok [OF this, of build] obtain a where a: "build_peer_artifacts build ?cf rt2 = Inr a" by blast
        have fin: "phase_result build W d (Inr ()) (set_phase PP_finished
            (d\<lparr>pd_runtime := rt2, pd_final_drain_progress := k, pd_artifacts := a\<rparr>)) w2" for k
          using core2 2(2) a over by (auto simp: phase_result_def phase_ok_def driver_core_def intro!: exI [of _ c])
        show ?thesis
          using r z z' q q' True a stay fin
          by (auto simp: confirming_step_def Let_def session_report_def split: if_splits)
      qed
    qed
  qed
qed

lemma phase_step_ok:
  assumes i: "driver_core c d" "phase_ok build c d" "pd_phase d \<noteq> PP_failed" "pd_phase d \<noteq> PP_finished"
    and ch: "peer_channel os (pd_socket d) (pd_config d) W" "W w"
    and r: "phase_step build os elapsed d w = (r, d', w')"
  shows "phase_result build W d r d' w'"
proof -
  have timeout: "phase_result build W d (failure EC_timeout x 0 ctx) d w" for x ctx
    using i(1) ch(2) by (auto simp: phase_result_def mk_error_def)
  show ?thesis
    using i r timeout handshake_ok [OF i(1,2) _ ch] running_ok [OF i(1,2) _ ch] confirming_ok [OF i(1,2) _ ch]
    by (cases "pd_phase d") (auto simp: phase_step_def split: if_splits)
qed

lemma peer_step_ok:
  assumes i: "driver_inv build d"
    and ch: "peer_channel os (pd_socket d) (pd_config d) W" "W w"
    and r: "peer_step build os elapsed d w = (r, d', w')"
  shows "driver_inv build d' \<and> W w' \<and> pd_config d' = pd_config d \<and> pd_socket d' = pd_socket d
    \<and> (\<forall>e. r = Inl e \<longrightarrow> err_code e \<noteq> EC_desync)"
proof (cases "pd_failure d \<noteq> None \<or> pd_phase d = PP_finished \<or> elapsed < pd_last_elapsed d")
  case True
  then show ?thesis using i ch(2) r
    by (auto simp: peer_step_def driver_inv_def mk_error_def split: option.splits if_splits)
next
  case False
  define d1 where "d1 = d\<lparr>pd_last_elapsed := elapsed,
      pd_runtime := (pd_runtime d)\<lparr>pr_correction := default_peer_correction\<rparr>\<rparr>"
  obtain c where c: "driver_core c d" "phase_ok build c d" using i by (auto simp: driver_inv_def)
  have f: "pd_failure d = None" "pd_phase d \<noteq> PP_failed" "pd_phase d \<noteq> PP_finished"
    using False i by (auto simp: driver_inv_def)
  have c1: "driver_core c d1" using c(1) by (simp add: d1_def driver_core_def runtime_ok_def)
  have p1: "phase_ok build c d1" using c(2) f(3) by (simp add: d1_def phase_ok_def split: PeerPhase.splits)
  have same: "pd_config d1 = pd_config d" "pd_socket d1 = pd_socket d" "pd_failure d1 = None"
    "pd_phase d1 = pd_phase d" using f by (simp_all add: d1_def)
  obtain q d2 w2 where q: "phase_step build os elapsed d1 w = (q, d2, w2)"
    by (cases "phase_step build os elapsed d1 w")
  have res: "phase_result build W d1 q d2 w2"
  proof (rule phase_step_ok [OF c1 p1])
    show "pd_phase d1 \<noteq> PP_failed" "pd_phase d1 \<noteq> PP_finished" using f same by simp_all
    show "peer_channel os (pd_socket d1) (pd_config d1) W" using ch(1) same by simp
  qed (rule ch(2), rule q)
  have step: "peer_step build os elapsed d w = (case q of
      Inl e \<Rightarrow> (Inl e, set_phase PP_failed (d2\<lparr>pd_failure := Some e\<rparr>), w2)
    | Inr _ \<Rightarrow> (let obs = (pd_observation d2)\<lparr>pt_logical_tick := pt_logical_tick (pd_observation d2) + 1\<rparr>
               in (Inr obs, d2\<lparr>pd_observation := obs\<rparr>, w2)))"
    using False f q by (cases q) (simp_all add: peer_step_def d1_def [symmetric] driver_fail_def Let_def)
  obtain c2 where c2: "driver_core c2 d2" "\<forall>u. q = Inr u \<longrightarrow> phase_ok build c2 d2"
    using res by (auto simp: phase_result_def)
  show ?thesis
  proof (cases q)
    case (Inl e)
    have "driver_core c2 (set_phase PP_failed (d2\<lparr>pd_failure := Some e\<rparr>))"
      using c2(1) by (simp add: driver_core_def)
    then show ?thesis using r step Inl res same
      by (auto simp: phase_result_def driver_inv_def phase_ok_def)
  next
    case (Inr u)
    let ?d = "d2\<lparr>pd_observation := (pd_observation d2)\<lparr>pt_logical_tick := pt_logical_tick (pd_observation d2) + 1\<rparr>\<rparr>"
    have "driver_core c2 ?d" using c2 by (simp add: driver_core_def)
    moreover have "phase_ok build c2 ?d"
      using c2 Inr by (cases "pd_phase d2") (simp_all add: phase_ok_def)
    ultimately have "driver_core c2 ?d" "phase_ok build c2 ?d" .
    then show ?thesis using r step Inr res same
      by (auto simp: phase_result_def driver_inv_def Let_def)
  qed
qed

section \<open>Starting\<close>

definition plain_session :: "PeerConfig \<Rightarrow> RollbackSession \<Rightarrow> bool" where
  "plain_session config s \<longleftrightarrow> (\<exists>cfg. live_config (pc_id config) cfg \<and> s = make_session cfg)"

text \<open>The peers of a game announce the protocol version they speak.\<close>

lemma hello_honest:
  assumes "pc_protocol_version_override config = 1" "encode_hello config = Inr bytes"
  shows "honest_bytes H N (pc_id config) bytes"
proof -
  have "encode_packet (hello_packet config) = Inr bytes"
    using assms by (auto simp: encode_hello_def kProtocolVersion_def split: sum.splits)
  moreover have "plain_packet (hello_packet config)"
    by (simp add: plain_packet_def hello_packet_def)
  ultimately have "decode_packet bytes = Inr (hello_packet config)"
    by (auto simp: encode_packet_iff decode_packet_iff)
  then show ?thesis by (simp add: honest_bytes_def honest_def hello_packet_def)
qed

lemma create_driver_ok:
  assumes s: "plain_session config s" "pc_protocol_version_override config = 1"
    and r: "create_driver os config s w = (Inr d, w')"
  shows "driver_inv build d \<and> pd_phase d = PP_handshake"
proof -
  obtain cfg where cfg: "live_config (pc_id config) cfg" "s = make_session cfg"
    using s(1) by (auto simp: plain_session_def)
  have "pc_frame_count config \<le> 256" if "pc_frame_count config \<le> 240"
    using that by (simp add: word_le_nat_alt)
  with r obtain socket hello where d: "d = make_driver config socket s hello"
    "encode_hello config = Inr hello" and
    n: "pc_frame_count config \<noteq> 0" "pc_frame_count config \<le> 256"
    by (auto simp: create_driver_def Let_def mk_error_def not_less split: if_splits sum.splits prod.splits)
  have N: "target config \<le> 256" "0 < target config"
    using n by (auto simp: word_le_nat_alt unat_gt_0)
  have "follows (pc_id config) (game_of config) 0 (\<lambda>_. None) s"
    unfolding cfg(2) by (rule follows_start [OF cfg(1)])
  then have "runtime_ok config 0 (pd_runtime d)"
    using N by (auto simp: d(1) make_driver_def runtime_ok_def)
  then have "driver_core 0 d"
    using N hello_honest [OF s(2) d(2)]
    by (simp add: d(1) make_driver_def driver_core_def runtime_ok_def)
  moreover have "phase_ok build 0 d" by (simp add: d(1) make_driver_def phase_ok_def)
  ultimately show ?thesis by (auto simp: driver_inv_def d(1) make_driver_def)
qed

section \<open>Two peers and a relay\<close>

text \<open>
  What the operating system promises for loopback datagrams. \<open>sent\<close> is the set of datagrams on the
  wire, with source port, destination port and bytes, and \<open>port\<close> the port a handle is bound to: a
  receiver only gets datagrams that were sent to its port, with their true source. Nothing is
  promised about loss, order or repetition.
\<close>

type_synonym Wire = "(u16 \<times> u16 \<times> byte list) set"

definition datagram_host :: "'s Host \<Rightarrow> ('s \<Rightarrow> Wire) \<Rightarrow> (int \<Rightarrow> u16) \<Rightarrow> bool" where
  "datagram_host os sent port \<longleftrightarrow>
     (\<forall>h dst bytes w. sent (snd (os_sendto os h dst bytes w)) \<subseteq> insert (port h, dst, bytes) (sent w))
   \<and> (\<forall>h s u w. sent (snd (os_select os h s u w)) \<subseteq> sent w)
   \<and> (\<forall>h n w r w'. os_recvfrom os h n w = (r, w') \<longrightarrow> sent w' \<subseteq> sent w
        \<and> (\<forall>bytes src. r = Some (bytes, src) \<longrightarrow> (src, port h, bytes) \<in> sent w))"

definition wire_ok :: "Histories \<Rightarrow> nat \<Rightarrow> RelayConfig \<Rightarrow> ('s \<Rightarrow> Wire) \<Rightarrow> 's \<Rightarrow> bool" where
  "wire_ok H N rc sent w \<longleftrightarrow> (\<forall>(src, dst, bytes) \<in> sent w.
     (dst = rl_peer_a_port rc \<longrightarrow> honest_bytes H N PB bytes)
   \<and> (dst = rl_peer_b_port rc \<longrightarrow> honest_bytes H N PA bytes)
   \<and> (dst = rl_relay_port rc \<longrightarrow> src = rl_peer_a_port rc \<longrightarrow> honest_bytes H N PA bytes)
   \<and> (dst = rl_relay_port rc \<longrightarrow> src = rl_peer_b_port rc \<longrightarrow> honest_bytes H N PB bytes))"

definition peer_port :: "RelayConfig \<Rightarrow> PlayerId \<Rightarrow> u16" where
  "peer_port rc p = (if p = PA then rl_peer_a_port rc else rl_peer_b_port rc)"

definition relay_ports_ok :: "RelayConfig \<Rightarrow> bool" where
  "relay_ports_ok rc \<longleftrightarrow> distinct [rl_relay_port rc, rl_peer_a_port rc, rl_peer_b_port rc]"

definition bound_to :: "(int \<Rightarrow> u16) \<Rightarrow> UdpSocket \<Rightarrow> u16 \<Rightarrow> bool" where
  "bound_to port s p \<longleftrightarrow> (case s of Some impl \<Rightarrow> port (si_socket impl) = p | None \<Rightarrow> False)"

lemma wire_ok_subset: "wire_ok H N rc sent w \<Longrightarrow> sent w' \<subseteq> sent w \<Longrightarrow> wire_ok H N rc sent w'"
  unfolding wire_ok_def by blast

lemma wire_ok_insert:
  assumes "wire_ok H N rc sent w" "sent w' \<subseteq> insert (src, dst, bytes) (sent w)"
    and "dst = rl_peer_a_port rc \<Longrightarrow> honest_bytes H N PB bytes"
    and "dst = rl_peer_b_port rc \<Longrightarrow> honest_bytes H N PA bytes"
    and "dst = rl_relay_port rc \<Longrightarrow> src = rl_peer_a_port rc \<Longrightarrow> honest_bytes H N PA bytes"
    and "dst = rl_relay_port rc \<Longrightarrow> src = rl_peer_b_port rc \<Longrightarrow> honest_bytes H N PB bytes"
  shows "wire_ok H N rc sent w'"
  using assms unfolding wire_ok_def by blast

lemma send_wire:
  assumes "datagram_host os sent port" "bound_to port s p"
  shows "sent (snd (send_loopback os s dst bytes w)) \<subseteq> insert (p, dst, bytes) (sent w)"
proof -
  obtain impl where s: "s = Some impl" "port (si_socket impl) = p"
    using assms(2) by (auto simp: bound_to_def split: option.splits)
  have "sent (snd (os_sendto os (si_socket impl) dst bytes w)) \<subseteq> insert (p, dst, bytes) (sent w)"
    using assms(1) s(2) unfolding datagram_host_def by blast
  then show ?thesis by (auto simp: send_loopback_def s(1) Let_def split: prod.splits)
qed

lemma receive_wire:
  assumes h: "datagram_host os sent port" "bound_to port s p" and r: "receive_for os s t w = (r, w')"
  shows "sent w' \<subseteq> sent w"
    and "r = Inr (Some d) \<Longrightarrow> (dg_source_port d, p, dg_bytes d) \<in> sent w"
proof -
  obtain impl where s: "s = Some impl" "port (si_socket impl) = p"
    using h(2) by (auto simp: bound_to_def split: option.splits)
  obtain k w1 where k: "os_select os (si_socket impl) (t div 1000) (t mod 1000 * 1000) w = (k, w1)"
    by fastforce
  have 1: "sent w1 \<subseteq> sent w" using h(1) k unfolding datagram_host_def by (metis snd_conv)
  obtain q w2 where q: "os_recvfrom os (si_socket impl) max_datagram_bytes w1 = (q, w2)" by fastforce
  have 2: "sent w2 \<subseteq> sent w1" "\<And>bytes src. q = Some (bytes, src) \<Longrightarrow> (src, p, bytes) \<in> sent w1"
    using h(1) q s(2) unfolding datagram_host_def by blast+
  show "sent w' \<subseteq> sent w"
    using r s(1) k q 1 2(1) by (auto simp: receive_for_def Let_def split: if_splits option.splits)
  show "(dg_source_port d, p, dg_bytes d) \<in> sent w" if "r = Inr (Some d)"
    using that r s(1) k q 1 2 by (auto simp: receive_for_def Let_def mk_error_def split: if_splits option.splits)
qed

lemma peer_channel_wire:
  assumes h: "datagram_host os sent port" and b: "bound_to port s (peer_port rc (pc_id config))"
    and rc: "relay_ports_ok rc" "pc_relay_port config = rl_relay_port rc"
  shows "peer_channel os s config (wire_ok (game_of config) (target config) rc sent)"
  unfolding peer_channel_def channel_def
proof (intro conjI allI impI)
  fix w bytes
  assume w: "wire_ok (game_of config) (target config) rc sent w"
    and bytes: "honest_bytes (game_of config) (target config) (pc_id config) bytes"
  show "wire_ok (game_of config) (target config) rc sent
      (snd (send_loopback os s (pc_relay_port config) bytes w))"
    by (rule wire_ok_insert [OF w send_wire [OF h b]])
      (use bytes rc in \<open>auto simp: relay_ports_ok_def peer_port_def split: if_splits\<close>,
       (cases "pc_id config"; simp)+)
next
  fix w t r w'
  assume w: "wire_ok (game_of config) (target config) rc sent w" and r: "receive_for os s t w = (r, w')"
  show "wire_ok (game_of config) (target config) rc sent w'"
    by (rule wire_ok_subset [OF w receive_wire(1) [OF h b r]])
  fix d assume "r = Inr (Some d)"
  from receive_wire(2) [OF h b r this] w
  show "honest_bytes (game_of config) (target config) (other_peer (pc_id config)) (dg_bytes d)"
    by (cases "pc_id config") (fastforce simp: wire_ok_def peer_port_def other_peer_def)+
qed

lemma relay_round_wire:
  assumes h: "datagram_host os sent port" and b: "bound_to port s (rl_relay_port rc)"
    and rc: "relay_ports_ok rc" and w: "wire_ok H N rc sent w" and r: "relay_round os rc s w = (r, w')"
  shows "wire_ok H N rc sent w'"
proof -
  obtain q w1 where q: "receive_for os s 10 w = (q, w1)" by fastforce
  have W1: "wire_ok H N rc sent w1" by (rule wire_ok_subset [OF w receive_wire(1) [OF h b q]])
  have fwd: "wire_ok H N rc sent (snd (send_loopback os s dst (dg_bytes d) w1))"
    if "q = Inr (Some d)" "relay_destination rc (dg_source_port d) = Some dst" for d dst
  proof (rule wire_ok_insert [OF W1 send_wire [OF h b]])
    note m = receive_wire(2) [OF h b q that(1)]
    show "honest_bytes H N PB (dg_bytes d)" if "dst = rl_peer_a_port rc"
      using that \<open>relay_destination rc (dg_source_port d) = Some dst\<close> m w rc
      by (auto simp: relay_destination_def wire_ok_def relay_ports_ok_def split: if_splits)
    show "honest_bytes H N PA (dg_bytes d)" if "dst = rl_peer_b_port rc"
      using that \<open>relay_destination rc (dg_source_port d) = Some dst\<close> m w rc
      by (auto simp: relay_destination_def wire_ok_def relay_ports_ok_def split: if_splits)
  qed (use rc in \<open>auto simp: relay_ports_ok_def\<close>)
  show ?thesis
  proof (cases q)
    case (Inl e)
    then show ?thesis using r q W1 by (simp add: relay_round_def)
  next
    case (Inr od)
    show ?thesis
    proof (cases od)
      case None
      then show ?thesis using r q W1 Inr by (simp add: relay_round_def)
    next
      case (Some d)
      then show ?thesis using r q W1 Inr fwd [of d]
        by (auto simp: relay_round_def split: if_splits option.splits sum.splits prod.splits)
    qed
  qed
qed

text \<open>
  One game over the network: the two drivers are created, then the peers step at any times the
  clock shows, the relay forwards, and the rest of the world does what it likes, except that it
  cannot send from the peers' ports to the relay, nor to the peers.
\<close>

record GameSetup =
  gs_relay :: RelayConfig
  gs_relay_socket :: UdpSocket
  gs_config_a :: PeerConfig
  gs_config_b :: PeerConfig

definition game_setup :: "(int \<Rightarrow> u16) \<Rightarrow> GameSetup \<Rightarrow> bool" where
  "game_setup port g \<longleftrightarrow>
     relay_ports_ok (gs_relay g) \<and> bound_to port (gs_relay_socket g) (rl_relay_port (gs_relay g))
   \<and> pc_id (gs_config_a g) = PA \<and> pc_id (gs_config_b g) = PB
   \<and> pc_relay_port (gs_config_a g) = rl_relay_port (gs_relay g)
   \<and> pc_relay_port (gs_config_b g) = rl_relay_port (gs_relay g)
   \<and> pc_scenario_seed (gs_config_a g) = pc_scenario_seed (gs_config_b g)
   \<and> pc_frame_count (gs_config_a g) = pc_frame_count (gs_config_b g)
   \<and> pc_protocol_version_override (gs_config_a g) = 1
   \<and> pc_protocol_version_override (gs_config_b g) = 1"

definition outside :: "RelayConfig \<Rightarrow> Wire \<Rightarrow> Wire \<Rightarrow> bool" where
  "outside rc before after \<longleftrightarrow> (\<forall>(src, dst, bytes) \<in> after - before.
     dst \<noteq> rl_peer_a_port rc \<and> dst \<noteq> rl_peer_b_port rc
   \<and> (dst = rl_relay_port rc \<longrightarrow> src \<noteq> rl_peer_a_port rc \<and> src \<noteq> rl_peer_b_port rc))"

inductive game_reach :: "BuildInfo \<Rightarrow> 's Host \<Rightarrow> ('s \<Rightarrow> Wire) \<Rightarrow> (int \<Rightarrow> u16) \<Rightarrow> GameSetup
    \<Rightarrow> PeerDriver \<Rightarrow> PeerDriver \<Rightarrow> 's \<Rightarrow> bool"
  for build os sent port g where
  created: "\<lbrakk>create_driver os (gs_config_a g) sa w = (Inr a, w1);
      create_driver os (gs_config_b g) sb w1 = (Inr b, w2);
      plain_session (gs_config_a g) sa; plain_session (gs_config_b g) sb;
      bound_to port (pd_socket a) (rl_peer_a_port (gs_relay g));
      bound_to port (pd_socket b) (rl_peer_b_port (gs_relay g)); outside (gs_relay g) {} (sent w2)\<rbrakk>
    \<Longrightarrow> game_reach build os sent port g a b w2"
| step_a: "\<lbrakk>game_reach build os sent port g a b w; peer_step build os t a w = (r, a', w')\<rbrakk>
    \<Longrightarrow> game_reach build os sent port g a' b w'"
| step_b: "\<lbrakk>game_reach build os sent port g a b w; peer_step build os t b w = (r, b', w')\<rbrakk>
    \<Longrightarrow> game_reach build os sent port g a b' w'"
| relayed: "\<lbrakk>game_reach build os sent port g a b w;
      relay_round os (gs_relay g) (gs_relay_socket g) w = (r, w')\<rbrakk>
    \<Longrightarrow> game_reach build os sent port g a b w'"
| elsewhere: "\<lbrakk>game_reach build os sent port g a b w; outside (gs_relay g) (sent w) (sent w')\<rbrakk>
    \<Longrightarrow> game_reach build os sent port g a b w'"

definition peer_inv :: "BuildInfo \<Rightarrow> (int \<Rightarrow> u16) \<Rightarrow> GameSetup \<Rightarrow> PeerConfig \<Rightarrow> PeerDriver \<Rightarrow> bool" where
  "peer_inv build port g config d \<longleftrightarrow> driver_inv build d
     \<and> pd_config d = config\<lparr>pc_listen_port := pc_listen_port (pd_config d)\<rparr>
     \<and> bound_to port (pd_socket d) (peer_port (gs_relay g) (pc_id config))"

definition game_inv :: "BuildInfo \<Rightarrow> ('s \<Rightarrow> Wire) \<Rightarrow> (int \<Rightarrow> u16) \<Rightarrow> GameSetup
    \<Rightarrow> PeerDriver \<Rightarrow> PeerDriver \<Rightarrow> 's \<Rightarrow> bool" where
  "game_inv build sent port g a b w \<longleftrightarrow>
     peer_inv build port g (gs_config_a g) a \<and> peer_inv build port g (gs_config_b g) b
   \<and> wire_ok (game_of (gs_config_a g)) (target (gs_config_a g)) (gs_relay g) sent w"

lemma listen_port_irrelevant [simp]:
  "pc_relay_port (c\<lparr>pc_listen_port := x\<rparr>) = pc_relay_port c"
  "pc_id (c\<lparr>pc_listen_port := x\<rparr>) = pc_id c"
  "pc_scenario_seed (c\<lparr>pc_listen_port := x\<rparr>) = pc_scenario_seed c"
  "pc_frame_count (c\<lparr>pc_listen_port := x\<rparr>) = pc_frame_count c"
  by simp_all

lemma wire_ok_outside:
  assumes "wire_ok H N rc sent w" "outside rc (sent w) (sent w')"
  shows "wire_ok H N rc sent w'"
  using assms unfolding wire_ok_def outside_def by blast

lemma peer_step_inv:
  assumes h: "datagram_host os sent port" and i: "peer_inv build port g config d"
    and rc: "relay_ports_ok (gs_relay g)" "pc_relay_port config = rl_relay_port (gs_relay g)"
    and w: "wire_ok (game_of config) (target config) (gs_relay g) sent w"
    and r: "peer_step build os t d w = (r, d', w')"
  shows "peer_inv build port g config d' \<and> wire_ok (game_of config) (target config) (gs_relay g) sent w'
    \<and> (\<forall>e. r = Inl e \<longrightarrow> err_code e \<noteq> EC_desync)"
proof -
  have cfg: "pd_config d = config\<lparr>pc_listen_port := pc_listen_port (pd_config d)\<rparr>"
    using i by (simp add: peer_inv_def)
  have same: "pc_id (pd_config d) = pc_id config" "pc_relay_port (pd_config d) = pc_relay_port config"
    "pc_scenario_seed (pd_config d) = pc_scenario_seed config"
    "pc_frame_count (pd_config d) = pc_frame_count config"
    by ((subst cfg, simp)+)
  have "peer_channel os (pd_socket d) (pd_config d)
      (wire_ok (game_of (pd_config d)) (target (pd_config d)) (gs_relay g) sent)"
    using i rc same by (intro peer_channel_wire [OF h]) (simp_all add: peer_inv_def)
  from peer_step_ok [OF _ this _ r, unfolded same] i w show ?thesis
    using cfg by (auto simp: peer_inv_def)
qed

lemma game_reach_inv:
  assumes "game_reach build os sent port g a b w" "datagram_host os sent port" "game_setup port g"
  shows "game_inv build sent port g a b w"
  using assms(1)
proof (induction rule: game_reach.induct)
  case (created sa w a w1 sb b w2)
  have su: "pc_protocol_version_override (gs_config_a g) = 1" "pc_protocol_version_override (gs_config_b g) = 1"
    "pc_id (gs_config_a g) = PA" "pc_id (gs_config_b g) = PB"
    using assms(3) by (simp_all add: game_setup_def)
  have cfg: "pd_config d = c\<lparr>pc_listen_port := pc_listen_port (pd_config d)\<rparr>"
    if "create_driver os c s v = (Inr d, v')" for c s v d v'
    using that by (auto simp: create_driver_def make_driver_def Let_def mk_error_def
        split: if_splits sum.splits prod.splits)
  have "wire_ok H N (gs_relay g) sent w2" for H N
    using created(7) unfolding wire_ok_def outside_def by blast
  then show ?case
    using created cfg [OF created(1)] cfg [OF created(2)] su
      create_driver_ok [OF created(3) su(1) created(1)] create_driver_ok [OF created(4) su(2) created(2)]
    by (auto simp: game_inv_def peer_inv_def peer_port_def)
next
  case (step_a a b w t r a' w')
  then show ?case
    using peer_step_inv [OF assms(2) _ _ _ _ step_a(2), of g "gs_config_a g"] assms(3)
    by (auto simp: game_inv_def game_setup_def)
next
  case (step_b a b w t r b' w')
  have same: "pc_scenario_seed (gs_config_b g) = pc_scenario_seed (gs_config_a g)"
    "pc_frame_count (gs_config_b g) = pc_frame_count (gs_config_a g)"
    using assms(3) by (simp_all add: game_setup_def)
  from step_b show ?case
    using peer_step_inv [OF assms(2) _ _ _ _ step_b(2), of g "gs_config_b g", unfolded same] assms(3)
    by (auto simp: game_inv_def game_setup_def)
next
  case (relayed a b w r w')
  then show ?case
    using relay_round_wire [OF assms(2) _ _ _ relayed(2)] assms(3)
    by (auto simp: game_inv_def game_setup_def)
next
  case (elsewhere a b w w')
  then show ?case by (auto simp: game_inv_def intro: wire_ok_outside)
qed

end
