(* ===== verification/Handshake.thy ===== *)
theory Handshake
  imports Peer
begin

text \<open>
  The handshake of two UDP peers: which hello packets a peer accepts. A peer that announces another
  protocol version patches its bytes and recomputes the checksum, so the receiver reports the
  version and not a damaged datagram.
\<close>

section \<open>Patched datagrams\<close>

lemma le_bytes_u32:
  "le_bytes (v :: u32) = [ucast v, ucast (drop_bit 8 v), ucast (drop_bit 16 v), ucast (drop_bit 24 v)]"
  by (simp add: le_bytes_def sizeof_word_def upt_rec)

lemma ucast_mask_byte32: "(ucast (v AND 0xFF :: u32) :: byte) = ucast v"
  by (rule bit_word_eqI) (auto simp: bit_simps numeral_eq_Suc less_Suc_eq)

lemma patch_checksum:
  assumes "length A = n"
  shows "fold (\<lambda>i bs. bs[n + i := ucast (drop_bit (i * 8) c AND 0xFF)]) [0..<4] (A @ le_bytes (d :: u32))
    = A @ le_bytes (c :: u32)"
  using assms
  by (simp add: upt_rec le_bytes_u32 list_update_append ucast_mask_byte32)

lemma patch_version_written:
  fixes old new :: u16 and d :: u32
  shows "patch_version new (le_bytes kPacketMagic @ le_bytes old @ rest @ le_bytes d)
    = (let body = le_bytes kPacketMagic @ le_bytes new @ rest in body @ le_bytes (crc32 body))"
proof -
  have "(le_bytes kPacketMagic @ le_bytes old @ rest @ le_bytes d)
      [4 := ucast (new AND 0xFF), 5 := ucast (drop_bit 8 new AND 0xFF)]
    = le_bytes kPacketMagic @ le_bytes new @ rest @ le_bytes d"
    using patch_u16_payload [of "le_bytes kPacketMagic" 4 new old "rest @ le_bytes d"]
    by (simp add: patch_u16_def)
  then show ?thesis
    using patch_checksum [of "le_bytes kPacketMagic @ le_bytes new @ rest" _ _ d]
    by (simp add: patch_version_def Let_def)
qed

lemma decode_other_version:
  fixes v :: u16
  assumes "ucast v \<noteq> kProtocolVersion" "30 \<le> length rest" "length rest \<le> 1000"
  shows "\<exists>e. decode_packet (let body = le_bytes kPacketMagic @ le_bytes v @ rest in body @ le_bytes (crc32 body))
      = Inl e \<and> err_code e = EC_unsupported_version"
proof -
  let ?body = "le_bytes kPacketMagic @ le_bytes v @ rest"
  have s: "stream (make_reader ?body) = ?body" by (simp add: stream_make_reader)
  have r1: "read_little_endian ''magic'' (make_reader ?body) = (Inr kPacketMagic, adv 4 (make_reader ?body))"
    using read_written [OF _ s] by simp
  have r2: "read_little_endian ''version'' (adv 4 (make_reader ?body)) = (Inr v, adv 6 (make_reader ?body))"
    by (subst read_written [where w = v]) (simp_all add: s)
  have "decode_header n (make_reader ?body) = decode_error EC_unsupported_version 4 ''version'' (ucast v)" for n
    using assms(1) by (simp only: decode_header_def Let_def r1 r2 prod.case) (simp add: value_or_0_def)
  moreover have "read_checksum (?body @ le_bytes (crc32 ?body)) = crc32 ?body" by (rule read_checksum_append)
  ultimately show ?thesis
    using assms(2,3)
    by (simp add: decode_packet_def header_size_def checksum_size_def kMaxPacketBytes_def Let_def
        decode_error_def mk_error_def)
qed

section \<open>What a peer accepts\<close>

lemma hello_packet_ok: "packet_ok (hello_packet config)" "plain_packet (hello_packet config)"
  by (simp_all add: packet_ok_def plain_packet_def hello_packet_def valid_packet_type_def
      kProtocolVersion_def pt_hello_def)

lemma encode_hello_bytes:
  "encode_packet (hello_packet config) = Inr (body_bytes (hello_packet config)
      @ le_bytes (crc32 (body_bytes (hello_packet config))))"
  using hello_packet_ok(1) by (simp add: encode_packet_iff)

lemma hello_body:
  "\<exists>rest. body_bytes (hello_packet config) = le_bytes kPacketMagic @ le_bytes (1 :: u16) @ rest
     \<and> length rest = 42"
proof -
  let ?p = "hello_packet config"
  have "length (body_bytes ?p) = 48"
    by (simp add: body_bytes_def payload_bytes_def hello_packet_def)
  moreover have "pk_protocol_version ?p = 1" by (simp add: hello_packet_def kProtocolVersion_def)
  ultimately show ?thesis by (simp add: body_bytes_def header_bytes_def)
qed

lemma override_cast: "ucast (v :: u16) = kProtocolVersion \<longleftrightarrow> v = 1"
proof -
  have narrow: "ucast (ucast x :: u32) = x" for x :: u16 by (rule bit_word_eqI) (simp add: bit_simps)
  have "v = 1" if "(ucast v :: u32) = 1"
    using arg_cong [OF that, of "ucast :: u32 \<Rightarrow> u16"] by (simp add: narrow)
  then show ?thesis by (auto simp: kProtocolVersion_def)
qed

text \<open>
  C24. The handshake. A hello of another protocol version arrives intact and is refused for its version;
  any other hello is accepted exactly when it comes from the other player of the same scenario, with the
  simulation version of this build, the same number of frames and the expected digest of the configuration.
\<close>

theorem handshake_compatibility:
  assumes "encode_hello theirs = Inr bytes"
  shows "case decode_packet bytes of
      Inl e \<Rightarrow> pc_protocol_version_override theirs \<noteq> 1 \<and> err_code e = EC_unsupported_version
    | Inr packet \<Rightarrow> pc_protocol_version_override theirs = 1 \<and>
        (valid_hello mine packet = Inr () \<longleftrightarrow>
           pc_id theirs = remote_id (pc_id mine)
         \<and> pc_scenario_seed theirs = pc_scenario_seed mine
         \<and> pc_simulation_version_override theirs = kSimulationVersion
         \<and> pc_frame_count theirs = pc_frame_count mine
         \<and> scenario_config_digest theirs = scenario_config_digest (expected_config mine))"
proof (cases "pc_protocol_version_override theirs = 1")
  case True
  then have "encode_packet (hello_packet theirs) = Inr bytes"
    using assms by (simp add: encode_hello_def kProtocolVersion_def encode_hello_bytes)
  then have "decode_packet bytes = Inr (hello_packet theirs)"
    using hello_packet_ok(2) by (auto simp: encode_packet_iff decode_packet_iff)
  then show ?thesis using True
    by (auto simp: valid_hello_def hello_packet_def pt_hello_def mk_error_def)
next
  case False
  obtain rest where rest: "body_bytes (hello_packet theirs) = le_bytes kPacketMagic @ le_bytes (1 :: u16) @ rest"
    "length rest = 42" using hello_body by blast
  have "bytes = patch_version (pc_protocol_version_override theirs)
      (le_bytes kPacketMagic @ le_bytes (1 :: u16) @ rest @ le_bytes (crc32 (body_bytes (hello_packet theirs))))"
    using assms False rest(1) by (simp add: encode_hello_def encode_hello_bytes override_cast)
  then have b: "bytes = (let body = le_bytes kPacketMagic @ le_bytes (pc_protocol_version_override theirs) @ rest
      in body @ le_bytes (crc32 body))"
    by (simp only: patch_version_written)
  have "ucast (pc_protocol_version_override theirs) \<noteq> kProtocolVersion" using False override_cast by simp
  from decode_other_version [OF this, of rest] rest(2) b False show ?thesis by auto
qed

text \<open>Two peers with the default configuration and opposite players are compatible.\<close>

theorem handshake_compatibility_witness:
  "\<exists>bytes packet. encode_hello (default_peer_config\<lparr>pc_id := PB\<rparr>) = Inr bytes
     \<and> decode_packet bytes = Inr packet \<and> valid_hello default_peer_config packet = Inr ()"
proof -
  let ?b = "default_peer_config\<lparr>pc_id := PB\<rparr>"
  obtain bytes where e: "encode_hello ?b = Inr bytes" by (simp add: encode_hello_def encode_hello_bytes)
  have d: "scenario_config_digest ?b = scenario_config_digest (expected_config default_peer_config)"
    by (simp add: scenario_config_digest_def expected_config_def default_peer_config_def kProtocolVersion_def)
  from handshake_compatibility [OF e, of default_peer_config] d e show ?thesis
    by (auto simp: default_peer_config_def remote_id_def split: sum.splits)
qed

end
