(* ===== verification/UdpLive.thy ===== *)
theory UdpLive
  imports UdpRun Handshake
begin

text \<open>
  Two peers on the network of queues in memory, where nothing is lost and nothing is late: turn after turn the two peers step
  once and the relay forwards what they sent. The game then ends: both peers finish after two
  turns of handshake, one turn per frame and eighteen turns of confirmation. The theory follows
  one peer through its stages; the datagrams it receives in a stage are those that the other peer, in the same stage, sent
  a round earlier.
\<close>

section \<open>What a peer knows\<close>

text \<open>Everything up to the current frame has been heard and no correction is pending.\<close>

definition caught_up :: "PeerConfig \<Rightarrow> nat \<Rightarrow> PeerRuntime \<Rightarrow> bool" where
  "caught_up config c rt \<longleftrightarrow>
     (\<exists>R. follows (pc_id config) (game_of config) c R (pr_session rt) \<and> {..<c} \<subseteq> dom R)
   \<and> s_earliest_dirty (pr_session rt) = None"

definition knows :: "PeerConfig \<Rightarrow> nat \<Rightarrow> nat \<Rightarrow> PeerRuntime \<Rightarrow> bool" where
  "knows config c j rt \<longleftrightarrow> runtime_ok config c rt
     \<and> (\<exists>R. follows (pc_id config) (game_of config) c R (pr_session rt) \<and> {..<j} \<subseteq> dom R)
     \<and> 32 \<le> rollback_window (s_config (pr_session rt))"

text \<open>The next sequence number that arrives.\<close>

definition awaits :: "nat \<Rightarrow> SequenceWindow \<Rightarrow> bool" where
  "awaits q sw \<longleftrightarrow> (if q = 2 then sw = make_sequence_window else 2 < q \<and> (\<exists>rec. window_rel sw rec (q - 1)))"

lemma observe_awaits:
  assumes "awaits q sw" "observe (of_nat q) sw = (disp, sw')"
  shows "disp = SD_newest" "awaits (Suc q) sw'"
proof -
  have "disp = SD_newest \<and> awaits (Suc q) sw'"
  proof (cases "q = 2")
    case True
    then show ?thesis using assms window_rel_first [of 2] by (auto simp: awaits_def)
  next
    case False
    then obtain rec where r: "window_rel sw rec (q - 1)" "2 < q" using assms(1) by (auto simp: awaits_def)
    then show ?thesis using observe_forward [OF r(1), of q] assms(2) by (auto simp: awaits_def)
  qed
  then show "disp = SD_newest" "awaits (Suc q) sw'" by blast+
qed

text \<open>A peer that has caught up confirms its current frame and can report the hash of it.\<close>

lemma caught_up_confirms:
  assumes rt: "runtime_ok config c rt" and c: "caught_up config c rt"
  shows "m_confirmed_frame (s_metrics (pr_session rt)) = of_nat c"
    and "\<exists>h. hash_at (pr_session rt) (of_nat c) = Inr h"
proof -
  obtain R where f: "follows (pc_id config) (game_of config) c R (pr_session rt)" "{..<c} \<subseteq> dom R"
      "s_earliest_dirty (pr_session rt) = None"
    using c by (auto simp: caught_up_def)
  from follows_truth [OF f(1) runtime_okD(3,2) [OF rt]] obtain cf where
    cf: "cf \<le> c" "m_confirmed_frame (s_metrics (pr_session rt)) = of_nat cf" "cf = c \<or> R cf = None"
      "\<forall>n\<le>cf. c \<le> n + 255 \<longrightarrow> (\<exists>w. hash_at (pr_session rt) (of_nat n) = Inr (hash_canonical w))"
    using f(3) by (metis option.distinct(1))
  have "cf = c"
  proof (rule ccontr)
    assume "cf \<noteq> c"
    then have "cf \<in> {..<c}" using cf(1) by simp
    then have "R cf \<noteq> None" using f(2) by blast
    then show False using cf(3) \<open>cf \<noteq> c\<close> by simp
  qed
  then show "m_confirmed_frame (s_metrics (pr_session rt)) = of_nat c"
    "\<exists>h. hash_at (pr_session rt) (of_nat c) = Inr h" using cf by auto
qed

lemma caught_up_session [simp]:
  "caught_up config c (rt\<lparr>pr_sequences := sw\<rparr>) = caught_up config c rt"
  "caught_up config c (rt\<lparr>pr_metrics := m\<rparr>) = caught_up config c rt"
  "caught_up config c (rt\<lparr>pr_correction := k\<rparr>) = caught_up config c rt"
  "caught_up config c (rt\<lparr>pr_remote_final_hash := h\<rparr>) = caught_up config c rt"
  by (simp_all add: caught_up_def)

section \<open>Accepting datagrams\<close>

definition input_datagram :: "u64 \<Rightarrow> nat \<Rightarrow> PlayerId \<Rightarrow> nat \<Rightarrow> nat \<Rightarrow> bool \<Rightarrow> byte list \<Rightarrow> bool" where
  "input_datagram sd N p c q fin bytes \<longleftrightarrow> length bytes \<le> kMaxPacketBytes
     \<and> (\<exists>pkt. decode_packet bytes = Inr pkt \<and> pk_type pkt = pt_input \<and> pk_scenario_id pkt = sd
          \<and> pk_sequence pkt = of_nat q \<and> honest (game sd N) N p pkt
          \<and> (\<lambda>x. unat (in_frame x)) ` set (pk_inputs pkt) = {c - 32..<c}
          \<and> (fin \<longrightarrow> (\<exists>h \<in> set (pk_confirmed_hashes pkt). ch_frame h = of_nat N)))"

lemma check_hashes_keeps:
  assumes "runtime_ok config c rt"
    and "\<forall>h \<in> set hs. truthful (game_of config) (target config) (ch_frame h) (ch_hash h)"
  shows "\<exists>rh. check_hashes config hs rt = (Inr True, rt\<lparr>pr_remote_final_hash := rh\<rparr>)
    \<and> runtime_ok config c (rt\<lparr>pr_remote_final_hash := rh\<rparr>)
    \<and> (pr_remote_final_hash rt \<noteq> None \<or> (\<exists>h \<in> set hs. ch_frame h = pc_frame_count config)
          \<and> ok (hash_at (pr_session rt) (pc_frame_count config)) \<longrightarrow> rh \<noteq> None)"
  using assms
proof (induction hs arbitrary: rt)
  case Nil
  then show ?case by (intro exI [of _ "pr_remote_final_hash rt"]) simp
next
  case (Cons h hs)
  note D = runtime_okD [OF Cons.prems(1)]
  obtain R where f: "follows (pc_id config) (game_of config) c R (pr_session rt)" using D(4) by blast
  have h: "truthful (game_of config) (target config) (ch_frame h) (ch_hash h)" using Cons.prems(2) by simp
  have rest: "\<forall>h \<in> set hs. truthful (game_of config) (target config) (ch_frame h) (ch_hash h)"
    using Cons.prems(2) by simp
  show ?case
  proof (cases "hash_at (pr_session rt) (ch_frame h)")
    case (Inl e)
    then show ?thesis using Cons.IH [OF Cons.prems(1) rest] by auto
  next
    case (Inr x)
    define rt1 where "rt1 =
      (if ch_frame h = pc_frame_count config then rt\<lparr>pr_remote_final_hash := Some (ch_hash h)\<rparr> else rt)"
    have "x = ch_hash h"
      using truthful_unique [OF follows_hash [OF f D(3,2) Inr] h] D(1) by simp
    moreover have "runtime_ok config c rt1"
      using Cons.prems(1) h by (auto simp: runtime_ok_def rt1_def)
    moreover have "rt1\<lparr>pr_remote_final_hash := z\<rparr> = rt\<lparr>pr_remote_final_hash := z\<rparr>"
      "pr_session rt1 = pr_session rt" for z by (simp_all add: rt1_def)
    moreover have "pr_remote_final_hash rt1 \<noteq> None"
      if "pr_remote_final_hash rt \<noteq> None \<or> ch_frame h = pc_frame_count config"
      using that by (auto simp: rt1_def)
    ultimately show ?thesis using Cons.IH [of rt1, OF _ rest] Inr
      by (auto simp: rt1_def [symmetric])
  qed
qed

lemma find_beyond_target_None:
  assumes "\<And>x. x \<in> set xs \<Longrightarrow> in_frame x < pc_frame_count config"
  shows "find_beyond_target config xs = None"
  using assms by (induction xs) (auto simp: not_le)

lemma knows_keep:
  "knows config c j rt \<Longrightarrow> knows config c j (rt\<lparr>pr_sequences := sw\<rparr>)"
  "knows config c j rt \<Longrightarrow> knows config c j (rt\<lparr>pr_metrics := m\<rparr>)"
  "knows config c j rt \<Longrightarrow> knows config c j (rt\<lparr>pr_correction := k\<rparr>)"
  by (simp_all add: knows_def runtime_ok_def)

text \<open>
  A packet whose inputs reach up to the current frame closes the gap, if it is one frame at
  most. The window of the session has to be at least that of the packet, as older inputs are refused.
\<close>

lemma accept_inputs_live:
  assumes k: "knows config c j rt" and j: "c \<le> Suc j"
    and h: "honest (game_of config) (target config) (other_peer (pc_id config)) pkt"
    and fs: "(\<lambda>x. unat (in_frame x)) ` set (pk_inputs pkt) = {c - 32..<c}"
  shows "\<exists>rt'. accept_inputs config pkt rt = (Inr True, rt') \<and> knows config c c rt' \<and> caught_up config c rt'
    \<and> pr_sequences rt' = pr_sequences rt \<and> pr_next_sequence rt' = pr_next_sequence rt
    \<and> (pr_remote_final_hash rt \<noteq> None \<or> c = target config
          \<and> (\<exists>h \<in> set (pk_confirmed_hashes pkt). ch_frame h = pc_frame_count config)
        \<longrightarrow> pr_remote_final_hash rt' \<noteq> None)"
proof -
  have rt: "runtime_ok config c rt" and win: "32 \<le> rollback_window (s_config (pr_session rt))"
    using k by (simp_all add: knows_def)
  note D = runtime_okD [OF rt]
  obtain R where R: "follows (pc_id config) (game_of config) c R (pr_session rt)" "{..<j} \<subseteq> dom R"
    using k by (auto simp: knows_def)
  have frame: "unat (in_frame x) < c \<and> c \<le> unat (in_frame x) + 32" if "x \<in> set (pk_inputs pkt)" for x
  proof -
    have "unat (in_frame x) \<in> {c - 32..<c}" using that fs by blast
    then show ?thesis by auto
  qed
  have "in_frame x < pc_frame_count config" if "x \<in> set (pk_inputs pkt)" for x
    using frame [OF that] D(2) by (simp add: word_less_nat_alt)
  then have beyond: "find_beyond_target config (pk_inputs pkt) = None"
    by (rule find_beyond_target_None)
  obtain q s where i: "ingest_all (pk_inputs pkt) (pr_session rt) = (q, s)" by fastforce
  have xs: "set (pk_inputs pkt) \<subseteq> set (game_of config (other_peer (pc_id config)))"
    using h by (simp add: honest_def)
  from ingest_all_follows [OF R(1) D(3,2) disjI2 [OF D(1)] xs i] obtain R1 where
    f1: "follows (pc_id config) (game_of config) c R1 s" "dom R \<subseteq> dom R1"
      "q = Inr () \<longrightarrow> {c - 32..<c} \<subseteq> dom R1" "s_config s = s_config (pr_session rt)" and
    err: "\<forall>e. q = Inl e \<longrightarrow> (\<exists>x \<in> set (pk_inputs pkt).
        unat (in_frame x) + rollback_window (s_config (pr_session rt)) < c)"
    unfolding fs by blast
  have "q = Inr ()"
  proof (cases q)
    case (Inl e)
    then obtain x where "x \<in> set (pk_inputs pkt)"
        "unat (in_frame x) + rollback_window (s_config (pr_session rt)) < c" using err by blast
    then show ?thesis using frame [of x] win by simp
  qed simp
  then have known: "{..<c} \<subseteq> dom R1"
  proof -
    have "n \<in> dom R1" if "n < c" for n
    proof (cases "n < j")
      case True
      then show ?thesis using R(2) f1(2) by blast
    next
      case False
      then have "n \<in> {c - 32..<c}" using that j by auto
      then show ?thesis using f1(3) \<open>q = Inr ()\<close> by blast
    qed
    then show ?thesis by blast
  qed
  from flush_follows [OF f1(1) D(3,2)] obtain cr s2 where
    fl: "flush_corrections s = (Inr cr, s2)" "follows (pc_id config) (game_of config) c R1 s2"
      "s_config s2 = s_config s" "s_earliest_dirty s2 = None" by blast
  define rt1 where "rt1 = (if cr_performed cr then rt\<lparr>pr_session := s2, pr_correction :=
      \<lparr>pcr_result = cr, pcr_before = sr_state (session_report (pr_session rt)),
       pcr_after = sr_state (session_report s2)\<rparr>\<rparr> else rt\<lparr>pr_session := s2\<rparr>)"
  have acc: "accept_inputs config pkt rt = check_hashes config (pk_confirmed_hashes pkt) rt1"
    using beyond i \<open>q = Inr ()\<close> fl(1) by (simp add: accept_inputs_def Let_def rt1_def)
  have ok1: "runtime_ok config c rt1"
    using runtime_ok_session [OF rt fl(2)] by (simp add: runtime_ok_def rt1_def)
  have s1: "pr_session rt1 = s2" "pr_sequences rt1 = pr_sequences rt" "pr_next_sequence rt1 = pr_next_sequence rt"
    "pr_remote_final_hash rt1 = pr_remote_final_hash rt" by (simp_all add: rt1_def)
  have c1: "caught_up config c rt1" using fl known by (auto simp: caught_up_def s1)
  have hash: "ok (hash_at (pr_session rt1) (pc_frame_count config))" if "c = target config"
    using caught_up_confirms(2) [OF ok1 c1] that by (auto simp: ok_iff)
  obtain rh where rh: "check_hashes config (pk_confirmed_hashes pkt) rt1 = (Inr True, rt1\<lparr>pr_remote_final_hash := rh\<rparr>)"
      "runtime_ok config c (rt1\<lparr>pr_remote_final_hash := rh\<rparr>)"
      "pr_remote_final_hash rt1 \<noteq> None \<or> (\<exists>h \<in> set (pk_confirmed_hashes pkt). ch_frame h = pc_frame_count config)
          \<and> ok (hash_at (pr_session rt1) (pc_frame_count config)) \<longrightarrow> rh \<noteq> None"
    using check_hashes_keeps [OF ok1, of "pk_confirmed_hashes pkt"] h by (auto simp: honest_def)
  have "knows config c c (rt1\<lparr>pr_remote_final_hash := rh\<rparr>)"
    using rh(2) fl(2,3) f1(4) win known by (auto simp: knows_def s1)
  then show ?thesis
    using acc rh(1,3) c1 hash by (intro exI [of _ "rt1\<lparr>pr_remote_final_hash := rh\<rparr>"]) (auto simp: s1)
qed

lemma remote_id_other: "remote_id p = other_peer p"
  by (simp add: remote_id_def other_peer_def)

lemma accept_input_datagram:
  assumes k: "knows config c j rt" and j: "c \<le> Suc j" "j \<le> c"
    and d: "input_datagram (pc_scenario_seed config) (target config) (other_peer (pc_id config)) c q fin bytes"
    and up: "j = c \<or> awaits q (pr_sequences rt)" "fin \<Longrightarrow> c = target config"
  shows "\<exists>rt'. accept_datagram config \<lparr>dg_bytes = bytes, dg_source_port = pc_relay_port config\<rparr> rt = (Inr True, rt')
    \<and> knows config c c rt' \<and> pr_next_sequence rt' = pr_next_sequence rt
    \<and> (caught_up config c rt \<or> awaits q (pr_sequences rt) \<longrightarrow> caught_up config c rt')
    \<and> (awaits q (pr_sequences rt) \<longrightarrow> awaits (Suc q) (pr_sequences rt'))
    \<and> (pr_remote_final_hash rt \<noteq> None \<or> fin \<and> awaits q (pr_sequences rt) \<longrightarrow> pr_remote_final_hash rt' \<noteq> None)"
proof -
  obtain pkt where pkt: "decode_packet bytes = Inr pkt" "pk_type pkt = pt_input"
      "pk_scenario_id pkt = pc_scenario_seed config" "pk_sequence pkt = of_nat q"
      "honest (game_of config) (target config) (other_peer (pc_id config)) pkt"
      "(\<lambda>x. unat (in_frame x)) ` set (pk_inputs pkt) = {c - 32..<c}"
      "fin \<Longrightarrow> \<exists>h \<in> set (pk_confirmed_hashes pkt). ch_frame h = pc_frame_count config"
    using d by (auto simp: input_datagram_def)
  have sender: "pk_sender pkt = remote_id (pc_id config)"
    using pkt(5) by (simp add: honest_def remote_id_other)
  obtain disp sw where ob: "observe (of_nat q) (pr_sequences rt) = (disp, sw)" by fastforce
  have known: "knows config c c rt" if "j = c" using k that by simp
  show ?thesis
  proof (cases "disp = SD_duplicate \<or> disp = SD_stale")
    case True
    then have "\<not> awaits q (pr_sequences rt)" using observe_awaits(1) [OF _ ob] by auto
    then show ?thesis using True ob pkt(1-4) sender knows_keep(1) [OF known, of sw] up(1)
      by (simp add: accept_datagram_def pt_input_def pt_hello_def Let_def)
  next
    case False
    define m where "m = (let m = pr_metrics rt; m = m\<lparr>tm_delivered_packets := tm_delivered_packets m + 1\<rparr>
      in if disp = SD_out_of_order then m\<lparr>tm_reordered_packets := tm_reordered_packets m + 1\<rparr> else m)"
    have acc: "accept_datagram config \<lparr>dg_bytes = bytes, dg_source_port = pc_relay_port config\<rparr> rt =
        accept_inputs config pkt (rt\<lparr>pr_sequences := sw, pr_metrics := m\<rparr>)"
      using False ob pkt(1-4) sender
      by (simp add: accept_datagram_def pt_input_def pt_hello_def Let_def m_def)
    have "knows config c j (rt\<lparr>pr_sequences := sw, pr_metrics := m\<rparr>)" using k by (intro knows_keep)
    from accept_inputs_live [OF this j(1) pkt(5,6)] obtain rt' where
      "accept_inputs config pkt (rt\<lparr>pr_sequences := sw, pr_metrics := m\<rparr>) = (Inr True, rt')"
      "knows config c c rt'" "caught_up config c rt'" "pr_sequences rt' = sw"
      "pr_next_sequence rt' = pr_next_sequence rt"
      "pr_remote_final_hash rt \<noteq> None \<or> c = target config
          \<and> (\<exists>h \<in> set (pk_confirmed_hashes pkt). ch_frame h = pc_frame_count config)
        \<longrightarrow> pr_remote_final_hash rt' \<noteq> None" by auto
    then show ?thesis using acc pkt(7) up(2) observe_awaits(2) [OF _ ob] by auto
  qed
qed

section \<open>Sending\<close>

lemma set_window_game:
  assumes "c \<le> N" "N \<le> 256"
  shows "(\<lambda>x. unat (in_frame x)) ` set (window_from (take c (game sd N p))) = {c - 32..<c}"
proof -
  have "map (\<lambda>x. unat (in_frame x)) (take c (game sd N p)) = [0..<c]"
    using assms numberedD(3) [OF game_numbered [OF assms(2)]]
    by (intro nth_equalityI) (simp_all add: unat_of_nat_u32)
  moreover have "c - min c 32 = c - 32" by simp
  ultimately have "map (\<lambda>x. unat (in_frame x)) (window_from (take c (game sd N p))) = [c - 32..<c]"
    using assms(1) by (simp add: window_from_def Let_def kMaxRedundantInputs_def drop_map [symmetric] min_absorb1)
  then show ?thesis by (metis atLeastLessThan_upt list.set_map)
qed

text \<open>Datagrams put into an inbox, and an inbox that has been emptied.\<close>

definition post :: "u16 \<Rightarrow> u16 \<Rightarrow> byte list list \<Rightarrow> Memory \<Rightarrow> Memory" where
  "post src dst bs w = w\<lparr>me_inbox := (me_inbox w)(dst := me_inbox w dst @ map (\<lambda>b. (b, src)) bs)\<rparr>"

definition emptied :: "u16 \<Rightarrow> Memory \<Rightarrow> Memory" where
  "emptied p w = w\<lparr>me_inbox := (me_inbox w)(p := [])\<rparr>"

lemma inbox_post [simp]:
  "me_inbox (post src dst bs w) p = me_inbox w p @ (if p = dst then map (\<lambda>b. (b, src)) bs else [])"
  by (simp add: post_def)

lemma inbox_emptied [simp]: "me_inbox (emptied p w) q = (if q = p then [] else me_inbox w q)"
  by (simp add: emptied_def)

lemma post_post [simp]: "post src dst cs (post src dst bs w) = post src dst (bs @ cs) w"
  by (simp add: post_def)

lemma post_nothing [simp]: "post src dst [] w = w"
  by (simp add: post_def)

lemma post_emptied: "p \<noteq> dst \<Longrightarrow> post src dst bs (emptied p w) = emptied p (post src dst bs w)"
  by (simp add: post_def emptied_def fun_upd_twist)

lemma emptied_nothing: "me_inbox w p = [] \<Longrightarrow> emptied p w = w"
  by (simp add: emptied_def fun_upd_idem)

lemma send_posts:
  "length bytes \<le> max_datagram_bytes \<Longrightarrow> send_loopback (queue_host port) (Some s) dst bytes w =
     (Inr (), post (port (si_socket s)) dst [bytes] w)"
  by (simp add: memory_send post_def)

lemma send_inputs_live:
  assumes rt: "runtime_ok config c rt" and q: "pr_next_sequence rt = of_nat q"
    and fin: "fin \<Longrightarrow> caught_up config c rt \<and> c = target config"
  shows "\<exists>bytes m. send_inputs (queue_host port) config (Some s) rt w =
       (Inr (), rt\<lparr>pr_next_sequence := of_nat (Suc q), pr_metrics := m\<rparr>,
        post (port (si_socket s)) (pc_relay_port config) [bytes] w)
    \<and> input_datagram (pc_scenario_seed config) (target config) (pc_id config) c q fin bytes"
proof -
  note D = runtime_okD [OF rt]
  obtain R where f: "follows (pc_id config) (game_of config) c R (pr_session rt)" using D(4) by blast
  let ?pkt = "make_packet (pr_session rt) (pr_local_history rt) (pc_scenario_seed config) (pr_next_sequence rt)"
  have "set (pr_local_history rt) \<subseteq> set (game_of config (pc_id config))"
    by (simp add: D(5) set_take_subset)
  from make_packet_honest [OF f D(3,2) this, of "pc_scenario_seed config" "pr_next_sequence rt"]
  obtain bytes where b: "encode_packet ?pkt = Inr bytes" "decode_packet bytes = Inr ?pkt"
      "length bytes \<le> kMaxPacketBytes" "honest (game_of config) (target config) (pc_id config) ?pkt"
    by blast
  have hash: "\<exists>h \<in> set (pk_confirmed_hashes ?pkt). ch_frame h = pc_frame_count config" if "fin"
  proof -
    note c = caught_up_confirms [OF rt conjunct1 [OF fin [OF that]]] and N = conjunct2 [OF fin [OF that]]
    obtain h where h: "hash_at (pr_session rt) (pc_frame_count config) = Inr h" using c(2) N by auto
    have "[0..<kMaxConfirmedHashes] = 0 # [1..<kMaxConfirmedHashes]"
      by (subst upt_conv_Cons) (simp_all add: kMaxConfirmedHashes_def)
    then show ?thesis using c(1) N h by (simp add: make_packet_def session_report_def Let_def)
  qed
  have "input_datagram (pc_scenario_seed config) (target config) (pc_id config) c q fin bytes"
    using b(2-4) hash q set_window_game [OF D(2,1), of "pc_scenario_seed config" "pc_id config"]
    by (auto simp: input_datagram_def make_packet_def Let_def D(5))
  moreover have "length bytes \<le> max_datagram_bytes"
    using b(3) by (simp add: kMaxPacketBytes_def max_datagram_bytes_def)
  then have "\<exists>m. send_inputs (queue_host port) config (Some s) rt w =
      (Inr (), rt\<lparr>pr_next_sequence := of_nat (Suc q), pr_metrics := m\<rparr>,
       post (port (si_socket s)) (pc_relay_port config) [bytes] w)"
    using b(1) q by (auto simp: send_inputs_def input_packet_eq [OF rt] send_posts Let_def add.commute)
  ultimately show ?thesis by blast
qed

section \<open>Receiving\<close>

text \<open>A runtime after one datagram after the other was accepted.\<close>

inductive accepts :: "PeerConfig \<Rightarrow> byte list list \<Rightarrow> PeerRuntime \<Rightarrow> PeerRuntime \<Rightarrow> bool"
  for config where
  none: "accepts config [] rt rt"
| one: "\<lbrakk>accept_datagram config \<lparr>dg_bytes = b, dg_source_port = pc_relay_port config\<rparr> rt = (Inr True, rt1);
      accepts config bs rt1 rt2\<rbrakk> \<Longrightarrow> accepts config (b # bs) rt rt2"

lemma drain_live:
  assumes "accepts config bs rt rt'" "length bs < n"
    and "me_inbox w (port (si_socket s)) = map (\<lambda>b. (b, pc_relay_port config)) bs"
  shows "drain n (queue_host port) config (Some s) rt w = (Inr (), rt', emptied (port (si_socket s)) w)"
  using assms
proof (induction arbitrary: n w rule: accepts.induct)
  case (none rt)
  then obtain k where "n = Suc k" by (cases n) simp_all
  then show ?case using none by (simp add: receive_one_def memory_receive emptied_nothing)
next
  case (one b rt rt1 bs rt2)
  then obtain k where k: "n = Suc k" "length bs < k" by (cases n) simp_all
  let ?p = "port (si_socket s)"
  let ?w = "w\<lparr>me_inbox := (me_inbox w)(?p := map (\<lambda>b. (b, pc_relay_port config)) bs)\<rparr>"
  have "drain k (queue_host port) config (Some s) rt1 ?w = (Inr (), rt2, emptied ?p ?w)"
    by (rule one.IH [OF k(2)]) simp
  moreover have "emptied ?p ?w = emptied ?p w" by (simp add: emptied_def)
  ultimately show ?case using one.hyps(1) one.prems(2) k(1)
    by (simp add: receive_one_def memory_receive)
qed

section \<open>The relay\<close>

fun relay_rounds :: "nat \<Rightarrow> 's Host \<Rightarrow> RelayConfig \<Rightarrow> UdpSocket \<Rightarrow> 's \<Rightarrow> 's" where
  "relay_rounds 0 os rc s w = w"
| "relay_rounds (Suc n) os rc s w = relay_rounds n os rc s (snd (relay_round os rc s w))"

definition passed_on :: "RelayConfig \<Rightarrow> (byte list \<times> u16) list \<Rightarrow> u16 \<Rightarrow> byte list list" where
  "passed_on rc ds p = map fst (filter (\<lambda>(b, src). relay_destination rc src = Some p) ds)"

lemma relay_idle:
  "me_inbox w (port (si_socket s)) = [] \<Longrightarrow> relay_rounds n (queue_host port) rc (Some s) w = w"
  by (induction n) (simp_all add: relay_round_def memory_receive)

text \<open>Enough rounds empty the inbox of the relay into those of the peers.\<close>

lemma relay_forwards:
  assumes rc: "relay_ports_ok rc" "port (si_socket s) = rl_relay_port rc"
    and "me_inbox w (rl_relay_port rc) = ds" "length ds \<le> n"
    and "\<forall>(b, src) \<in> set ds. length b \<le> max_datagram_bytes \<and> \<not> is_stop b
          \<and> src \<in> {rl_peer_a_port rc, rl_peer_b_port rc}"
  shows "relay_rounds n (queue_host port) rc (Some s) w =
    post (rl_relay_port rc) (rl_peer_a_port rc) (passed_on rc ds (rl_peer_a_port rc))
      (post (rl_relay_port rc) (rl_peer_b_port rc) (passed_on rc ds (rl_peer_b_port rc))
        (emptied (rl_relay_port rc) w))"
  using assms(3-)
proof (induction ds arbitrary: n w)
  case Nil
  then show ?case using rc(2) by (simp add: passed_on_def relay_idle emptied_nothing)
next
  case (Cons d ds)
  obtain b src where d: "d = (b, src)" by fastforce
  obtain k where k: "n = Suc k" "length ds \<le> k" using Cons.prems(2) by (cases n) simp_all
  let ?r = "rl_relay_port rc" and ?a = "rl_peer_a_port rc" and ?b = "rl_peer_b_port rc"
  have ports: "?a \<noteq> ?r" "?b \<noteq> ?r" "?a \<noteq> ?b" using rc(1) by (auto simp: relay_ports_ok_def)
  obtain dst where dst: "relay_destination rc src = Some dst" "dst = ?a \<or> dst = ?b"
    using Cons.prems(3) d by (auto simp: relay_destination_def)
  have b: "length b \<le> max_datagram_bytes" "\<not> is_stop b" using Cons.prems(3) d by auto
  let ?w = "w\<lparr>me_inbox := (me_inbox w)(?r := ds)\<rparr>"
  have step: "snd (relay_round (queue_host port) rc (Some s) w) = post ?r dst [b] ?w"
    using Cons.prems(1) d rc(2) dst(1) b by (simp add: relay_round_def memory_receive send_posts)
  have "relay_rounds k (queue_host port) rc (Some s) (post ?r dst [b] ?w) =
      post ?r ?a (passed_on rc ds ?a) (post ?r ?b (passed_on rc ds ?b) (emptied ?r (post ?r dst [b] ?w)))"
    using dst(2) ports k(2) Cons.prems(3) by (intro Cons.IH) auto
  also have "emptied ?r (post ?r dst [b] ?w) = post ?r dst [b] (emptied ?r w)"
    using dst(2) ports by (auto simp: emptied_def post_def fun_upd_twist)
  also have "post ?r ?a (passed_on rc ds ?a) (post ?r ?b (passed_on rc ds ?b) (post ?r dst [b] (emptied ?r w))) =
      post ?r ?a (passed_on rc (d # ds) ?a) (post ?r ?b (passed_on rc (d # ds) ?b) (emptied ?r w))"
    using dst ports by (auto simp: passed_on_def d post_def fun_upd_twist)
  finally show ?case by (simp only: k(1) relay_rounds.simps step)
qed

section \<open>One peer\<close>

text \<open>A hello that the peer accepts.\<close>

definition hello_for :: "PeerConfig \<Rightarrow> byte list \<Rightarrow> bool" where
  "hello_for config b \<longleftrightarrow> length b \<le> kMaxPacketBytes
     \<and> (\<exists>pkt. decode_packet b = Inr pkt \<and> pk_type pkt = pt_hello \<and> pk_sender pkt = remote_id (pc_id config)
          \<and> pk_scenario_id pkt = pc_scenario_seed config \<and> valid_hello config pkt = Inr ())"

text \<open>What the player \<open>p\<close> sent before the \<open>m\<close>-th round after the handshake.\<close>

definition sent_before :: "u64 \<Rightarrow> nat \<Rightarrow> PlayerId \<Rightarrow> nat \<Rightarrow> byte list list \<Rightarrow> bool" where
  "sent_before sd N p m bs \<longleftrightarrow>
     (\<exists>b. bs = [b] \<and> input_datagram sd N p (min m N) (Suc m) (N + 2 \<le> m) b) \<or> bs = [] \<and> N + 16 < m"

definition incoming :: "PeerConfig \<Rightarrow> nat \<Rightarrow> byte list list \<Rightarrow> bool" where
  "incoming config m bs \<longleftrightarrow>
     (if m = 0 then (\<forall>b \<in> set bs. hello_for config b) \<and> length bs = 2
      else sent_before (pc_scenario_seed config) (target config) (other_peer (pc_id config)) m bs)"

lemma accepts_hellos: "\<forall>b \<in> set bs. hello_for config b \<Longrightarrow> accepts config bs rt rt"
  by (induction bs) (auto intro!: accepts.intros simp: accept_datagram_def hello_for_def)

lemma drain_incoming:
  assumes k: "knows config m (m - 1) rt" and a: "awaits (max 2 (Suc m)) (pr_sequences rt)"
    and z: "m = 0 \<Longrightarrow> caught_up config 0 rt" and b: "incoming config m bs"
    and w: "me_inbox w (port (si_socket s)) = map (\<lambda>b. (b, pc_relay_port config)) bs"
  shows "\<exists>rt1. drain_available (queue_host port) config (Some s) rt w =
      (Inr (), rt1, emptied (port (si_socket s)) w)
    \<and> knows config m m rt1 \<and> caught_up config m rt1 \<and> awaits (m + 2) (pr_sequences rt1)
    \<and> pr_next_sequence rt1 = pr_next_sequence rt"
proof -
  have m: "m \<le> target config" using k by (simp add: knows_def runtime_ok_def)
  have "\<exists>rt1. accepts config bs rt rt1 \<and> length bs < 64 \<and> knows config m m rt1 \<and> caught_up config m rt1
      \<and> awaits (m + 2) (pr_sequences rt1) \<and> pr_next_sequence rt1 = pr_next_sequence rt"
  proof (cases "m = 0")
    case True
    then have "accepts config bs rt rt" "length bs = 2" using b accepts_hellos by (auto simp: incoming_def)
    then show ?thesis using True k a z by (intro exI [of _ rt]) simp
  next
    case False
    then obtain x where x: "bs = [x]" "input_datagram (pc_scenario_seed config) (target config)
        (other_peer (pc_id config)) m (Suc m) False x"
      using b m by (auto simp: incoming_def sent_before_def min_absorb1)
    have aw: "awaits (Suc m) (pr_sequences rt)" using a False by (simp add: max_def split: if_splits)
    have "m \<le> Suc (m - 1)" "m - 1 \<le> m" by simp_all
    from accept_input_datagram [OF k this x(2)] aw obtain rt1 where
      "accept_datagram config \<lparr>dg_bytes = x, dg_source_port = pc_relay_port config\<rparr> rt = (Inr True, rt1)"
      "knows config m m rt1" "caught_up config m rt1" "awaits (m + 2) (pr_sequences rt1)"
      "pr_next_sequence rt1 = pr_next_sequence rt" by auto
    then show ?thesis using x(1) by (intro exI [of _ rt1]) (auto intro!: accepts.intros)
  qed
  then show ?thesis using drain_live [where port = port, OF _ _ w, of _ _ 64] unfolding drain_available_def by blast
qed

lemma advance_live:
  assumes k: "knows config m j rt" and m: "m < target config"
  defines "x \<equiv> scripted_input (pc_scenario_seed config) (ws_frame (s_state (pr_session rt))) (pc_id config)"
  shows "\<exists>ar s. advance x (pr_session rt) = (Inr ar, s)
    \<and> knows config (Suc m) j (rt\<lparr>pr_local_history := pr_local_history rt @ [x], pr_session := s\<rparr>)"
proof -
  have rt: "runtime_ok config m rt" using k by (simp add: knows_def)
  note D = runtime_okD [OF rt]
  obtain R where R: "follows (pc_id config) (game_of config) m R (pr_session rt)" "{..<j} \<subseteq> dom R"
    using k by (auto simp: knows_def)
  have "x = game_of config (pc_id config) ! m"
    using runtime_ok_frame [OF rt] game_nth [OF m] by (simp add: x_def)
  then obtain ar s where s: "advance x (pr_session rt) = (Inr ar, s)"
      "follows (pc_id config) (game_of config) (Suc m) R s" "s_config s = s_config (pr_session rt)"
    using advance_follows [OF R(1) D(3) m] by auto
  obtain ar' s' where s': "advance x (pr_session rt) = (Inr ar', s')"
      "runtime_ok config (Suc m) (rt\<lparr>pr_local_history := pr_local_history rt @ [x], pr_session := s'\<rparr>)"
    using driver_advance [OF rt m] unfolding x_def by blast
  then have "s' = s" using s(1) by simp
  then show ?thesis using s s'(2) R(2) k by (auto simp: knows_def)
qed

definition run_stage :: "nat \<Rightarrow> PeerDriver \<Rightarrow> bool" where
  "run_stage m d \<longleftrightarrow> pd_phase d = (if m < target (pd_config d) then PP_running else PP_confirming)
     \<and> knows (pd_config d) m (m - 1) (pd_runtime d) \<and> (m = 0 \<longrightarrow> caught_up (pd_config d) 0 (pd_runtime d))
     \<and> awaits (max 2 (Suc m)) (pr_sequences (pd_runtime d))
     \<and> pr_next_sequence (pd_runtime d) = of_nat (m + 2) \<and> pd_final_drain_progress d = 0"

lemma sent_simps [simp]:
  "knows config c j (rt\<lparr>pr_next_sequence := q, pr_metrics := m\<rparr>) = knows config c j rt"
  "caught_up config c (rt\<lparr>pr_next_sequence := q\<rparr>) = caught_up config c rt"
  by (simp_all add: knows_def runtime_ok_def caught_up_def)

text \<open>Nothing has gone wrong so far, and the time is inside both limits.\<close>

definition calm :: "(int \<Rightarrow> u16) \<Rightarrow> SocketImpl \<Rightarrow> u64 \<Rightarrow> PeerDriver \<Rightarrow> bool" where
  "calm port s t d \<longleftrightarrow> pd_failure d = None \<and> pd_last_elapsed d \<le> t \<and> pd_run_started d \<le> t
     \<and> pd_socket d = Some s \<and> length (pd_hello d) \<le> kMaxPacketBytes \<and> 0 < target (pd_config d)
     \<and> port (si_socket s) \<noteq> pc_relay_port (pd_config d)
     \<and> t < ucast (pc_handshake_timeout_milliseconds (pd_config d))
     \<and> t < ucast (pc_run_timeout_milliseconds (pd_config d))"

definition same_peer :: "PeerDriver \<Rightarrow> PeerDriver \<Rightarrow> bool" where
  "same_peer d d' \<longleftrightarrow> pd_config d' = pd_config d \<and> pd_hello d' = pd_hello d"

definition opened :: "u64 \<Rightarrow> PeerDriver \<Rightarrow> PeerDriver" where
  "opened t d = d\<lparr>pd_last_elapsed := t,
     pd_runtime := (pd_runtime d)\<lparr>pr_correction := default_peer_correction\<rparr>\<rparr>"

definition ticked :: "PeerDriver \<Rightarrow> PeerDriver" where
  "ticked d = d\<lparr>pd_observation := (pd_observation d)\<lparr>pt_logical_tick := pt_logical_tick (pd_observation d) + 1\<rparr>\<rparr>"

lemma knows_correction [simp]:
  "knows config c j (rt\<lparr>pr_correction := k\<rparr>) = knows config c j rt"
  by (simp add: knows_def runtime_ok_def)

lemma opened_simps [simp]:
  "pd_config (opened t d) = pd_config d" "pd_socket (opened t d) = pd_socket d"
  "pd_observation (opened t d) = pd_observation d" "pd_hello (opened t d) = pd_hello d"
  "pd_run_started (opened t d) = pd_run_started d" "pd_failure (opened t d) = pd_failure d"
  "pd_final_drain_progress (opened t d) = pd_final_drain_progress d"
  "pd_last_elapsed (opened t d) = t"
  "pd_runtime (opened t d) = (pd_runtime d)\<lparr>pr_correction := default_peer_correction\<rparr>"
  by (simp_all add: opened_def)

lemma ticked_simps [simp]:
  "pd_config (ticked d) = pd_config d" "pd_socket (ticked d) = pd_socket d"
  "pd_phase (ticked d) = pd_phase d" "pd_hello (ticked d) = pd_hello d"
  "pd_run_started (ticked d) = pd_run_started d" "pd_failure (ticked d) = pd_failure d"
  "pd_final_drain_progress (ticked d) = pd_final_drain_progress d"
  "pd_last_elapsed (ticked d) = pd_last_elapsed d" "pd_runtime (ticked d) = pd_runtime d"
  by (simp_all add: ticked_def)

lemma peer_step_live:
  assumes c: "calm port s t d" and p: "pd_phase d \<noteq> PP_finished"
    and q: "phase_step build os t (opened t d) w = (Inr (), d', w')"
  shows "\<exists>r. peer_step build os t d w = (Inr r, ticked d', w')"
proof -
  have "d\<lparr>pd_last_elapsed := t, pd_runtime := (pd_runtime d)\<lparr>pr_correction := default_peer_correction\<rparr>\<rparr> = opened t d"
    by (simp add: opened_def)
  then show ?thesis using c p q by (simp add: peer_step_def calm_def Let_def ticked_def not_less)
qed

lemma run_time_left:
  assumes "calm port s t d"
  shows "\<not> ucast (pc_run_timeout_milliseconds (pd_config d)) \<le> t - pd_run_started d"
proof -
  have "unat (t - pd_run_started d) = unat t - unat (pd_run_started d)"
    using assms by (intro unat_sub) (simp add: calm_def)
  moreover have "unat t < unat (ucast (pc_run_timeout_milliseconds (pd_config d)) :: u64)"
    using assms by (simp add: calm_def word_less_nat_alt)
  ultimately show ?thesis by (simp add: word_le_nat_alt)
qed

definition handshake_stage :: "PeerDriver \<Rightarrow> bool" where
  "handshake_stage d \<longleftrightarrow> pd_phase d = PP_handshake \<and> knows (pd_config d) 0 0 (pd_runtime d)
     \<and> caught_up (pd_config d) 0 (pd_runtime d) \<and> awaits 2 (pr_sequences (pd_runtime d))
     \<and> pr_next_sequence (pd_runtime d) = 2 \<and> pd_final_drain_progress d = 0"

lemma handshake_live:
  assumes c: "calm port s t d" and h: "handshake_stage d"
    and w: "me_inbox w (port (si_socket s)) = map (\<lambda>b. (b, pc_relay_port (pd_config d))) bs"
    and bs: "bs = [] \<or> (\<exists>b. bs = [b] \<and> hello_for (pd_config d) b)"
  shows "\<exists>r d'. peer_step build (queue_host port) t d w = (Inr r, d',
        post (port (si_socket s)) (pc_relay_port (pd_config d))
          (if bs = [] then [pd_hello d] else [pd_hello d, pd_hello d]) (emptied (port (si_socket s)) w))
    \<and> (if bs = [] then handshake_stage d' else run_stage 0 d') \<and> calm port s t d' \<and> same_peer d d'"
proof -
  let ?me = "port (si_socket s)" and ?cf = "pd_config d" and ?rl = "pc_relay_port (pd_config d)"
  have f: "pd_phase d = PP_handshake" "pd_socket d = Some s" "?me \<noteq> ?rl"
    "\<not> ucast (pc_handshake_timeout_milliseconds ?cf) \<le> t" "length (pd_hello d) \<le> max_datagram_bytes"
    using c h by (auto simp: calm_def handshake_stage_def not_le kMaxPacketBytes_def max_datagram_bytes_def)
  have ph: "phase_step build (queue_host port) t (opened t d) w = handshake_step (queue_host port) t (opened t d) w"
    using f(1) by (simp add: phase_step_def)
  note send = send_posts [OF f(5)]
  show ?thesis
  proof (cases "bs = []")
    case True
    have "handshake_step (queue_host port) t (opened t d) w = (Inr (), opened t d, post ?me ?rl [pd_hello d] w)"
      using f w True by (simp add: handshake_step_def send memory_receive)
    then have "phase_step build (queue_host port) t (opened t d) w = (Inr (), opened t d, post ?me ?rl [pd_hello d] w)"
      using ph by simp
    from peer_step_live [OF c _ this] f(1) obtain r where
      "peer_step build (queue_host port) t d w = (Inr r, ticked (opened t d), post ?me ?rl [pd_hello d] w)" by auto
    then show ?thesis using True c h w
      by (auto simp: handshake_stage_def calm_def same_peer_def emptied_nothing)
  next
    case False
    then obtain b pkt where b: "bs = [b]" "decode_packet b = Inr pkt" "valid_hello ?cf pkt = Inr ()"
      using bs by (auto simp: hello_for_def)
    let ?d = "(opened t d)\<lparr>pd_observation := (pd_observation (opened t d))
        \<lparr>pt_phase := PP_running, pt_handshake_complete := True\<rparr>, pd_run_started := t\<rparr>"
    let ?w = "post ?me ?rl [pd_hello d, pd_hello d] (emptied ?me w)"
    have rec: "receive_for (queue_host port) (Some s) 0 (post ?me ?rl [pd_hello d] w) =
        (Inr (Some \<lparr>dg_bytes = b, dg_source_port = ?rl\<rparr>), post ?me ?rl [pd_hello d] (emptied ?me w))"
      using w b(1) f(3) by (simp add: memory_receive post_emptied) (simp add: emptied_def)
    have "handshake_step (queue_host port) t (opened t d) w = (Inr (), ?d, ?w)"
      using f b by (simp add: handshake_step_def send rec)
    then have "phase_step build (queue_host port) t (opened t d) w = (Inr (), ?d, ?w)" using ph by simp
    from peer_step_live [OF c _ this] f(1) obtain r where
      "peer_step build (queue_host port) t d w = (Inr r, ticked ?d, ?w)" by auto
    then show ?thesis using False b(1) c h
      by (auto simp: handshake_stage_def run_stage_def calm_def same_peer_def numeral_2_eq_2)
  qed
qed

lemma running_live:
  assumes c: "calm port s t d" and st: "run_stage m d" "m < target (pd_config d)"
    and b: "incoming (pd_config d) m bs"
    and w: "me_inbox w (port (si_socket s)) = map (\<lambda>b. (b, pc_relay_port (pd_config d))) bs"
  shows "\<exists>r d' out. peer_step build (queue_host port) t d w = (Inr r, d',
        post (port (si_socket s)) (pc_relay_port (pd_config d)) out (emptied (port (si_socket s)) w))
    \<and> sent_before (pc_scenario_seed (pd_config d)) (target (pd_config d)) (pc_id (pd_config d)) (Suc m) out
    \<and> run_stage (Suc m) d' \<and> calm port s t d' \<and> same_peer d d'"
proof -
  let ?me = "port (si_socket s)" and ?cf = "pd_config d" and ?rl = "pc_relay_port (pd_config d)"
  let ?rt = "(pd_runtime d)\<lparr>pr_correction := default_peer_correction\<rparr>"
  have f: "pd_phase d = PP_running" "pd_socket d = Some s" "?me \<noteq> ?rl"
    using c st by (simp_all add: calm_def run_stage_def)
  have "knows ?cf m (m - 1) ?rt" "awaits (max 2 (Suc m)) (pr_sequences ?rt)" "m = 0 \<Longrightarrow> caught_up ?cf 0 ?rt"
    using st by (simp_all add: run_stage_def)
  from drain_incoming [where port = port, OF this b w] obtain rt1 where
    dr: "drain_available (queue_host port) ?cf (Some s) ?rt w = (Inr (), rt1, emptied ?me w)" and
    rt1: "knows ?cf m m rt1" "awaits (m + 2) (pr_sequences rt1)"
      "pr_next_sequence rt1 = pr_next_sequence (pd_runtime d)" by auto
  define x where "x = scripted_input (pc_scenario_seed ?cf) (ws_frame (s_state (pr_session rt1))) (pc_id ?cf)"
  define rt2 where "rt2 s' = rt1\<lparr>pr_local_history := pr_local_history rt1 @ [x], pr_session := s'\<rparr>" for s'
  obtain ar s' where ad: "advance x (pr_session rt1) = (Inr ar, s')" "knows ?cf (Suc m) m (rt2 s')"
    using advance_live [OF rt1(1) st(2)] unfolding x_def rt2_def by blast
  have ok2: "runtime_ok ?cf (Suc m) (rt2 s')" using ad(2) by (simp add: knows_def)
  have nx: "pr_next_sequence (rt2 s') = of_nat (m + 2)"
    using rt1(3) st(1) by (simp add: rt2_def run_stage_def)
  obtain y z where sd: "send_inputs (queue_host port) ?cf (Some s) (rt2 s') (emptied ?me w) =
      (Inr (), (rt2 s')\<lparr>pr_next_sequence := of_nat (Suc (m + 2)), pr_metrics := z\<rparr>, post ?me ?rl [y] (emptied ?me w))"
    "input_datagram (pc_scenario_seed ?cf) (target ?cf) (pc_id ?cf) (Suc m) (m + 2) False y"
    using send_inputs_live [OF ok2 nx, of False] by blast
  define rt3 where "rt3 = (rt2 s')\<lparr>pr_next_sequence := of_nat (Suc (m + 2)), pr_metrics := z\<rparr>"
  have sd1: "send_inputs (queue_host port) ?cf (Some s) (rt2 s') (emptied ?me w) =
      (Inr (), rt3, post ?me ?rl [y] (emptied ?me w))" using sd(1) by (simp only: rt3_def)
  have "ws_frame (s_state (pr_session rt3)) = of_nat (Suc m)"
    using runtime_ok_frame [OF ok2] by (simp add: rt3_def)
  then have at: "ws_frame (s_state (pr_session rt3)) = pc_frame_count ?cf \<longleftrightarrow> Suc m = target ?cf"
    using of_nat_u32_inj [of "Suc m" "target ?cf"] st(2) runtime_okD(1) [OF ok2] by auto
  define d2 where "d2 = (if Suc m = target ?cf then set_phase PP_confirming ((opened t d)\<lparr>pd_runtime := rt3\<rparr>)
    else (opened t d)\<lparr>pd_runtime := rt3\<rparr>)"
  have "running_step (queue_host port) (opened t d) w = (Inr (), d2, post ?me ?rl [y] (emptied ?me w))"
    using f dr ad(1) sd1 at
    by (simp add: running_step_def Let_def session_report_def x_def [symmetric] rt2_def [symmetric] d2_def)
  then have "phase_step build (queue_host port) t (opened t d) w = (Inr (), d2, post ?me ?rl [y] (emptied ?me w))"
    using f(1) run_time_left [OF c] by (simp add: phase_step_def)
  from peer_step_live [OF c _ this] f(1) obtain r where
    r: "peer_step build (queue_host port) t d w = (Inr r, ticked d2, post ?me ?rl [y] (emptied ?me w))" by auto
  have seqs: "pr_sequences rt3 = pr_sequences rt1" "pr_next_sequence rt3 = of_nat (Suc m + 2)"
    by (simp_all add: rt3_def rt2_def)
  have fc: "pc_frame_count ?cf = 1 + of_nat m" if "Suc m = target ?cf"
    using arg_cong [OF that, of "of_nat :: nat \<Rightarrow> u32"] by simp
  have "run_stage (Suc m) (ticked d2)"
    using st ad(2) rt1(2) seqs f(1) fc by (auto simp: run_stage_def d2_def rt3_def max_def)
  moreover have "sent_before (pc_scenario_seed ?cf) (target ?cf) (pc_id ?cf) (Suc m) [y]"
    using sd(2) st(2) by (simp add: sent_before_def min_absorb1)
  moreover have "calm port s t (ticked d2)" "same_peer d (ticked d2)"
    using c by (auto simp: calm_def same_peer_def d2_def)
  ultimately show ?thesis using r by blast
qed

definition confirm_stage :: "nat \<Rightarrow> PeerDriver \<Rightarrow> bool" where
  "confirm_stage i d \<longleftrightarrow> (let N = target (pd_config d); rt = pd_runtime d in
     pd_phase d = PP_confirming \<and> knows (pd_config d) N (if i = 0 then N - 1 else N) rt
       \<and> (0 < i \<longrightarrow> caught_up (pd_config d) N rt) \<and> (i \<le> 2 \<longrightarrow> awaits (Suc (N + i)) (pr_sequences rt))
       \<and> pr_next_sequence rt = of_nat (N + i + 2) \<and> (3 \<le> i \<longrightarrow> pr_remote_final_hash rt \<noteq> None)
       \<and> (\<exists>k. pd_final_drain_progress d = of_nat k \<and> i \<le> k + 2 \<and> k \<le> i \<and> k < 16)
   \<or> pd_phase d = PP_finished \<and> 16 \<le> i)"

lemma run_to_confirm:
  "run_stage (target (pd_config d)) d \<Longrightarrow> 0 < target (pd_config d) \<Longrightarrow> confirm_stage 0 d"
  by (auto simp: run_stage_def confirm_stage_def Let_def max_def split: if_splits)

lemma drain_confirming:
  fixes config :: PeerConfig and i :: nat
  defines "N \<equiv> target config"
  assumes k: "knows config N (if i = 0 then N - 1 else N) rt" and z: "0 < i \<Longrightarrow> caught_up config N rt"
    and a: "i \<le> 2 \<Longrightarrow> awaits (Suc (N + i)) (pr_sequences rt)" and h: "3 \<le> i \<Longrightarrow> pr_remote_final_hash rt \<noteq> None"
    and b: "sent_before (pc_scenario_seed config) N (other_peer (pc_id config)) (N + i) bs"
    and w: "me_inbox w (port (si_socket s)) = map (\<lambda>b. (b, pc_relay_port config)) bs"
  shows "\<exists>rt1. drain_available (queue_host port) config (Some s) rt w =
      (Inr (), rt1, emptied (port (si_socket s)) w)
    \<and> knows config N N rt1 \<and> caught_up config N rt1 \<and> (i \<le> 1 \<longrightarrow> awaits (N + i + 2) (pr_sequences rt1))
    \<and> pr_next_sequence rt1 = pr_next_sequence rt \<and> (2 \<le> i \<longrightarrow> pr_remote_final_hash rt1 \<noteq> None)"
proof -
  have "\<exists>rt1. accepts config bs rt rt1 \<and> length bs < 64 \<and> knows config N N rt1 \<and> caught_up config N rt1
      \<and> (i \<le> 1 \<longrightarrow> awaits (N + i + 2) (pr_sequences rt1)) \<and> pr_next_sequence rt1 = pr_next_sequence rt
      \<and> (2 \<le> i \<longrightarrow> pr_remote_final_hash rt1 \<noteq> None)"
  proof (cases "bs = []")
    case True
    then have "16 < i" using b by (simp add: sent_before_def)
    then show ?thesis using True k z h by (intro exI [of _ rt]) (auto intro: accepts.none)
  next
    case False
    then obtain x where x: "bs = [x]" "input_datagram (pc_scenario_seed config) N
        (other_peer (pc_id config)) N (Suc (N + i)) (2 \<le> i) x"
      using b by (auto simp: sent_before_def min_absorb2)
    obtain j where j: "knows config N j rt" "N \<le> Suc j" "j \<le> N" "j = N \<or> i = 0" using k by (auto split: if_splits)
    have xd: "input_datagram (pc_scenario_seed config) (target config)
        (other_peer (pc_id config)) N (Suc (N + i)) (2 \<le> i) x" using x(2) by (simp add: N_def)
    have "j = N \<or> awaits (Suc (N + i)) (pr_sequences rt)" using j(4) a by auto
    from accept_input_datagram [OF j(1-3) xd this] obtain rt1 where
      acc: "accept_datagram config \<lparr>dg_bytes = x, dg_source_port = pc_relay_port config\<rparr> rt = (Inr True, rt1)"
      "knows config N N rt1" "pr_next_sequence rt1 = pr_next_sequence rt"
      "caught_up config N rt \<or> awaits (Suc (N + i)) (pr_sequences rt) \<longrightarrow> caught_up config N rt1"
      "awaits (Suc (N + i)) (pr_sequences rt) \<longrightarrow> awaits (Suc (Suc (N + i))) (pr_sequences rt1)"
      "pr_remote_final_hash rt \<noteq> None \<or> 2 \<le> i \<and> awaits (Suc (N + i)) (pr_sequences rt)
        \<longrightarrow> pr_remote_final_hash rt1 \<noteq> None"
      unfolding N_def by blast
    have "accepts config bs rt rt1" using acc(1) x(1) by (auto intro: accepts.intros)
    moreover have "caught_up config N rt1" using acc(4) z a by (cases "i = 0") auto
    moreover have "i \<le> 1 \<longrightarrow> awaits (N + i + 2) (pr_sequences rt1)" using acc(5) a by auto
    moreover have "2 \<le> i \<longrightarrow> pr_remote_final_hash rt1 \<noteq> None" using acc(6) a h by (cases "i = 2") auto
    ultimately show ?thesis using acc(2,3) x(1) by auto
  qed
  then show ?thesis using drain_live [where port = port, OF _ _ w, of _ _ 64] unfolding drain_available_def by blast
qed

lemma caught_up_complete:
  assumes "knows config (target config) (target config) rt" "caught_up config (target config) rt"
    "pr_remote_final_hash rt \<noteq> None"
  shows "complete config rt"
proof -
  have rt: "runtime_ok config (target config) rt" using assms(1) by (simp add: knows_def)
  then show ?thesis using caught_up_confirms(1) [OF rt assms(2)] assms(3) by (simp add: complete_def)
qed

lemma progress_step:
  assumes "k < 16"
  shows "(of_nat k :: u32) + 1 = of_nat (Suc k)" "final_drain_target \<le> (of_nat k :: u32) + 1 \<longleftrightarrow> k = 15"
proof -
  show e: "(of_nat k :: u32) + 1 = of_nat (Suc k)" by simp
  have "unat (of_nat (Suc k) :: u32) = Suc k" using assms by (intro unat_of_nat_u32) simp
  then show "final_drain_target \<le> (of_nat k :: u32) + 1 \<longleftrightarrow> k = 15"
    unfolding e using assms by (auto simp: word_le_nat_alt final_drain_target_def simp del: of_nat_Suc)
qed

lemma confirming_live:
  fixes d :: PeerDriver
  defines "N \<equiv> target (pd_config d)"
  assumes c: "calm port s t d" and st: "confirm_stage i d" "pd_phase d \<noteq> PP_finished"
    and b: "sent_before (pc_scenario_seed (pd_config d)) N (other_peer (pc_id (pd_config d))) (N + i) bs"
    and w: "me_inbox w (port (si_socket s)) = map (\<lambda>b. (b, pc_relay_port (pd_config d))) bs"
  shows "\<exists>r d' out. peer_step build (queue_host port) t d w = (Inr r, d',
        post (port (si_socket s)) (pc_relay_port (pd_config d)) out (emptied (port (si_socket s)) w))
    \<and> sent_before (pc_scenario_seed (pd_config d)) N (pc_id (pd_config d)) (Suc (N + i)) out
    \<and> confirm_stage (Suc i) d' \<and> calm port s t d' \<and> same_peer d d'"
proof -
  let ?me = "port (si_socket s)" and ?cf = "pd_config d" and ?rl = "pc_relay_port (pd_config d)"
  let ?rt = "(pd_runtime d)\<lparr>pr_correction := default_peer_correction\<rparr>"
  let ?j = "if i = 0 then N - 1 else N"
  have f: "pd_phase d = PP_confirming" "pd_socket d = Some s" "?me \<noteq> ?rl"
    using c st by (auto simp: calm_def confirm_stage_def Let_def)
  have st': "knows ?cf N ?j (pd_runtime d)" "0 < i \<longrightarrow> caught_up ?cf N (pd_runtime d)"
      "i \<le> 2 \<longrightarrow> awaits (Suc (N + i)) (pr_sequences (pd_runtime d))"
      "pr_next_sequence (pd_runtime d) = of_nat (N + i + 2)"
      "3 \<le> i \<longrightarrow> pr_remote_final_hash (pd_runtime d) \<noteq> None"
      "\<exists>k. pd_final_drain_progress d = of_nat k \<and> i \<le> k + 2 \<and> k \<le> i \<and> k < 16"
    using st unfolding confirm_stage_def Let_def N_def [symmetric] by blast+
  obtain k where k: "pd_final_drain_progress d = of_nat k" "i \<le> k + 2" "k \<le> i" "k < 16"
    using st'(6) by blast
  have rt: "knows ?cf N ?j ?rt" "0 < i \<Longrightarrow> caught_up ?cf N ?rt" "i \<le> 2 \<Longrightarrow> awaits (Suc (N + i)) (pr_sequences ?rt)"
      "pr_next_sequence ?rt = of_nat (N + i + 2)" "3 \<le> i \<Longrightarrow> pr_remote_final_hash ?rt \<noteq> None"
    using st'(1-5) by simp_all
  have ok: "runtime_ok ?cf N ?rt" using rt(1) by (simp add: knows_def)
  obtain y z where sd: "send_inputs (queue_host port) ?cf (Some s) ?rt w =
      (Inr (), ?rt\<lparr>pr_next_sequence := of_nat (Suc (N + i + 2)), pr_metrics := z\<rparr>, post ?me ?rl [y] w)"
    "input_datagram (pc_scenario_seed ?cf) N (pc_id ?cf) N (N + i + 2) (0 < i) y"
    using send_inputs_live [OF ok rt(4), of "0 < i"] rt(2) unfolding N_def by blast
  define rt2 where "rt2 = ?rt\<lparr>pr_next_sequence := of_nat (Suc (N + i + 2)), pr_metrics := z\<rparr>"
  have rt2: "knows ?cf N ?j rt2" "0 < i \<Longrightarrow> caught_up ?cf N rt2" "i \<le> 2 \<Longrightarrow> awaits (Suc (N + i)) (pr_sequences rt2)"
    "3 \<le> i \<Longrightarrow> pr_remote_final_hash rt2 \<noteq> None" "pr_next_sequence rt2 = of_nat (N + Suc i + 2)"
    using rt by (simp_all add: rt2_def)
  have w2: "me_inbox (post ?me ?rl [y] w) ?me = map (\<lambda>b. (b, ?rl)) bs" using w f(3) by simp
  obtain rt1 where
    dr: "drain_available (queue_host port) ?cf (Some s) rt2 (post ?me ?rl [y] w) =
      (Inr (), rt1, post ?me ?rl [y] (emptied ?me w))" and
    rt1: "knows ?cf N N rt1" "caught_up ?cf N rt1" "i \<le> 1 \<longrightarrow> awaits (N + i + 2) (pr_sequences rt1)"
      "pr_next_sequence rt1 = of_nat (N + Suc i + 2)" "2 \<le> i \<longrightarrow> pr_remote_final_hash rt1 \<noteq> None"
    using drain_confirming [where port = port, OF rt2(1-4) [unfolded N_def] b [unfolded N_def] w2] rt2(5) f(3)
    unfolding N_def by (auto simp: post_emptied)
  have conf: "m_confirmed_frame (s_metrics (pr_session rt1)) = pc_frame_count ?cf"
    using caught_up_confirms(1) [OF _ rt1(2)] rt1(1) by (simp add: knows_def N_def)
  have sends: "sent_before (pc_scenario_seed ?cf) N (pc_id ?cf) (Suc (N + i)) [y]"
    using sd(2) by (cases i) (simp_all add: sent_before_def min_absorb2)
  have step: "\<exists>r. peer_step build (queue_host port) t d w = (Inr r, ticked d2, post ?me ?rl [y] (emptied ?me w))"
    if "confirming_step build (queue_host port) (opened t d) w = (Inr (), d2, post ?me ?rl [y] (emptied ?me w))" for d2
    using that f(1) run_time_left [OF c] by (intro peer_step_live [OF c]) (simp_all add: phase_step_def)
  note run = confirming_step_def Let_def session_report_def sd(1) [folded rt2_def] dr
  have result: ?thesis
    if "confirming_step build (queue_host port) (opened t d) w = (Inr (), d2, post ?me ?rl [y] (emptied ?me w))"
      "confirm_stage (Suc i) (ticked d2)" "calm port s t (ticked d2)" "same_peer d (ticked d2)" for d2
    using step [OF that(1)] that(2-4) sends by blast
  show ?thesis
  proof (cases "pr_remote_final_hash rt1 = None")
    case True
    let ?d = "(opened t d)\<lparr>pd_runtime := rt1, pd_final_drain_progress := 0\<rparr>"
    have "i \<le> 1" using True rt1(5) by auto
    then have "confirm_stage (Suc i) (ticked ?d)"
      using rt1 f(1) by (auto simp: confirm_stage_def Let_def N_def intro!: exI [of _ 0])
    moreover have "confirming_step build (queue_host port) (opened t d) w = (Inr (), ?d, post ?me ?rl [y] (emptied ?me w))"
      using f True by (simp add: run)
    ultimately show ?thesis using c by (intro result [of ?d]) (auto simp: calm_def same_peer_def)
  next
    case False
    let ?d = "(opened t d)\<lparr>pd_runtime := rt1, pd_final_drain_progress := of_nat (Suc k)\<rparr>"
    note p = progress_step [OF k(4)]
    show ?thesis
    proof (cases "k = 15")
      case True
      have "complete ?cf rt1" using rt1(1,2) False unfolding N_def by (rule caught_up_complete)
      then obtain art where "build_peer_artifacts build ?cf rt1 = Inr art"
        using artifacts_ok [of ?cf rt1 build] by blast
      then have "confirming_step build (queue_host port) (opened t d) w =
          (Inr (), set_phase PP_finished (?d\<lparr>pd_artifacts := art\<rparr>), post ?me ?rl [y] (emptied ?me w))"
        using f False conf k(1) p True by (simp add: run)
      moreover have "confirm_stage (Suc i) (ticked (set_phase PP_finished (?d\<lparr>pd_artifacts := art\<rparr>)))"
        using k(3) True by (simp add: confirm_stage_def)
      ultimately show ?thesis using c by (intro result [of "set_phase PP_finished (?d\<lparr>pd_artifacts := art\<rparr>)"]) (auto simp: calm_def same_peer_def)
    next
      case False': False
      have "confirming_step build (queue_host port) (opened t d) w = (Inr (), ?d, post ?me ?rl [y] (emptied ?me w))"
        using f False conf k(1) p False' by (simp add: run)
      moreover have "confirm_stage (Suc i) (ticked ?d)"
        using rt1 f(1) False k False' by (auto simp: confirm_stage_def Let_def N_def intro!: exI [of _ "Suc k"])
      ultimately show ?thesis using c by (intro result [of ?d]) (auto simp: calm_def same_peer_def)
    qed
  qed
qed

section \<open>A round of the game\<close>

definition stage :: "nat \<Rightarrow> PeerDriver \<Rightarrow> bool" where
  "stage n d \<longleftrightarrow> (let N = target (pd_config d) in
     if n < 2 then handshake_stage d
     else if n - 2 < N then run_stage (n - 2) d
     else confirm_stage (n - 2 - N) d)"

definition arriving :: "PeerConfig \<Rightarrow> nat \<Rightarrow> byte list list \<Rightarrow> bool" where
  "arriving config n bs \<longleftrightarrow>
     (if n = 0 then bs = [] else if n = 1 then \<exists>b. bs = [b] \<and> hello_for config b
      else incoming config (n - 2) bs)"

definition departing :: "PeerDriver \<Rightarrow> nat \<Rightarrow> byte list list \<Rightarrow> bool" where
  "departing d n out \<longleftrightarrow>
     (if n = 0 then out = [pd_hello d] else if n = 1 then out = [pd_hello d, pd_hello d]
      else sent_before (pc_scenario_seed (pd_config d)) (target (pd_config d)) (pc_id (pd_config d)) (n - 1) out)"

lemma round_cases:
  fixes n N :: nat
  obtains (first) "n = 0" | (second) "n = 1" | (run) m where "n = m + 2" "m < N"
    | (confirm) i where "n = N + i + 2"
proof -
  consider "n = 0" | "n = 1" | "2 \<le> n" "n - 2 < N" | "2 \<le> n" "N \<le> n - 2" by linarith
  then show thesis
  proof cases
    case 3
    then show thesis using run [of "n - 2"] by simp
  next
    case 4
    then show thesis using confirm [of "n - 2 - N"] by simp
  qed (auto intro: first second)
qed

definition peer_round_done :: "(int \<Rightarrow> u16) \<Rightarrow> SocketImpl \<Rightarrow> u64 \<Rightarrow> nat \<Rightarrow> PeerDriver \<Rightarrow> PeerDriver \<Rightarrow> byte list list \<Rightarrow> bool" where
  "peer_round_done port s t n d d' out \<longleftrightarrow> departing d n out \<and> stage (Suc n) d' \<and> calm port s t d' \<and> same_peer d d'
     \<and> (pd_phase d = PP_finished \<longrightarrow> d' = d \<and> out = [])"

lemma peer_round:
  assumes c: "calm port s t d" and st: "stage n d"
    and w: "pd_phase d \<noteq> PP_finished \<Longrightarrow> arriving (pd_config d) n bs
      \<and> me_inbox w (port (si_socket s)) = map (\<lambda>b. (b, pc_relay_port (pd_config d))) bs"
  shows "\<exists>r d' out. peer_step build (queue_host port) t d w = (Inr r, d',
        if pd_phase d = PP_finished then w
        else post (port (si_socket s)) (pc_relay_port (pd_config d)) out (emptied (port (si_socket s)) w))
    \<and> peer_round_done port s t n d d' out"
proof (cases rule: round_cases [where n = n and N = "target (pd_config d)"])
  case first
  then have h: "handshake_stage d" using st by (simp add: stage_def)
  then have p: "pd_phase d = PP_handshake" by (simp add: handshake_stage_def)
  then have "bs = []" using w first by (simp add: arriving_def)
  then show ?thesis using handshake_live [OF c h, of w bs build] w p first
    by (fastforce simp: peer_round_done_def departing_def stage_def)
next
  case second
  then have h: "handshake_stage d" using st by (simp add: stage_def)
  then have p: "pd_phase d = PP_handshake" by (simp add: handshake_stage_def)
  then obtain b where b: "bs = [b]" "hello_for (pd_config d) b" using w second by (auto simp: arriving_def)
  from handshake_live [OF c h, of w bs build] b w p obtain r d' where
    r: "peer_step build (queue_host port) t d w = (Inr r, d', post (port (si_socket s))
          (pc_relay_port (pd_config d)) [pd_hello d, pd_hello d] (emptied (port (si_socket s)) w))"
      "run_stage 0 d'" "calm port s t d'" "same_peer d d'" by auto
  have "0 < target (pd_config d')" using c r(4) by (simp add: calm_def same_peer_def)
  then show ?thesis using r p second
    by (auto simp: peer_round_done_def departing_def stage_def)
next
  case (run m)
  then have h: "run_stage m d" using st by (simp add: stage_def)
  then have p: "pd_phase d = PP_running" using run by (simp add: run_stage_def)
  have "incoming (pd_config d) m bs" using w run p by (simp add: arriving_def)
  from running_live [OF c h run(2) this, of w build] w p obtain r d' out where
    r: "peer_step build (queue_host port) t d w = (Inr r, d', post (port (si_socket s))
          (pc_relay_port (pd_config d)) out (emptied (port (si_socket s)) w))"
      "sent_before (pc_scenario_seed (pd_config d)) (target (pd_config d)) (pc_id (pd_config d)) (Suc m) out"
      "run_stage (Suc m) d'" "calm port s t d'" "same_peer d d'" by auto
  have "stage (Suc n) d'"
  proof (cases "Suc m < target (pd_config d)")
    case True
    then show ?thesis using r(3,5) run by (simp add: stage_def Let_def same_peer_def)
  next
    case False
    then have e: "Suc m = target (pd_config d')" using run r(5) by (simp add: same_peer_def)
    then have "confirm_stage 0 d'" using r(3) by (intro run_to_confirm) simp_all
    then show ?thesis using e run by (simp add: stage_def Let_def)
  qed
  then show ?thesis using r p run by (auto simp: peer_round_done_def departing_def)
next
  case (confirm i)
  then have h: "confirm_stage i d" using st by (simp add: stage_def)
  show ?thesis
  proof (cases "pd_phase d = PP_finished")
    case True
    then have "16 \<le> i" using h by (simp add: confirm_stage_def Let_def)
    then have "stage (Suc n) d" using True confirm by (simp add: stage_def confirm_stage_def)
    moreover have "departing d n []" using \<open>16 \<le> i\<close> confirm by (simp add: departing_def sent_before_def)
    ultimately show ?thesis using c True
      by (auto simp: peer_round_done_def same_peer_def peer_step_def calm_def)
  next
    case False
    have "sent_before (pc_scenario_seed (pd_config d)) (target (pd_config d)) (other_peer (pc_id (pd_config d)))
        (target (pd_config d) + i) bs"
      using w False confirm c by (simp add: arriving_def incoming_def calm_def)
    from confirming_live [OF c h False this, of w build] w False obtain r d' out where
      r: "peer_step build (queue_host port) t d w = (Inr r, d', post (port (si_socket s))
          (pc_relay_port (pd_config d)) out (emptied (port (si_socket s)) w))"
      "sent_before (pc_scenario_seed (pd_config d)) (target (pd_config d)) (pc_id (pd_config d))
         (Suc (target (pd_config d) + i)) out"
      "confirm_stage (Suc i) d'" "calm port s t d'" "same_peer d d'" by auto
    have "stage (Suc n) d'" using r(3,5) confirm by (simp add: stage_def same_peer_def)
    then show ?thesis using r False confirm by (auto simp: peer_round_done_def departing_def)
  qed
qed

lemma decoded_long:
  assumes "decode_packet b = Inr pkt" "length b \<le> kMaxPacketBytes"
  shows "length b \<le> max_datagram_bytes \<and> \<not> is_stop b"
proof -
  have "b = body_bytes pkt @ le_bytes (crc32 (body_bytes pkt))"
    using assms(1) by (simp add: decode_packet_iff encode_packet_iff)
  then have "36 \<le> length b" by (simp add: body_bytes_def)
  then show ?thesis using assms(2)
    by (simp add: is_stop_def stop_message_def kMaxPacketBytes_def max_datagram_bytes_def)
qed

lemma departing_plain:
  assumes "departing d n out" "hello_for config (pd_hello d)"
  shows "length out \<le> 2 \<and> (\<forall>b \<in> set out. length b \<le> max_datagram_bytes \<and> \<not> is_stop b)"
  using assms by (auto simp: departing_def sent_before_def input_datagram_def hello_for_def
      dest: decoded_long split: if_splits)

lemma departing_arrives:
  assumes "departing d n out" "hello_for config (pd_hello d)"
    and "pc_scenario_seed (pd_config d) = pc_scenario_seed config" "pc_frame_count (pd_config d) = pc_frame_count config"
    and "pc_id (pd_config d) = other_peer (pc_id config)"
  shows "arriving config (Suc n) out"
  using assms by (auto simp: departing_def arriving_def incoming_def)

text \<open>
  The peers step once, each at a time of its own clock, then the relay goes through a number of rounds. A turn sends it four
  datagrams at most, so four rounds empty its inbox.
\<close>

type_synonym Turn = "u64 \<times> u64 \<times> nat"

fun game_round :: "BuildInfo \<Rightarrow> 's Host \<Rightarrow> RelayConfig \<Rightarrow> UdpSocket \<Rightarrow> Turn
    \<Rightarrow> PeerDriver \<times> PeerDriver \<times> 's \<Rightarrow> PeerDriver \<times> PeerDriver \<times> 's" where
  "game_round build os rc rs (ta, tb, k) (a, b, w) =
     (case peer_step build os ta a w of
        (_, a, w) \<Rightarrow>
          (case peer_step build os tb b w of
             (_, b, w) \<Rightarrow> (a, b, relay_rounds k os rc rs w)))"

text \<open>The two peers and their network before round \<open>n\<close>.\<close>

definition compatible :: "PeerDriver \<Rightarrow> PeerDriver \<Rightarrow> bool" where
  "compatible a b \<longleftrightarrow> pc_id (pd_config a) = PA \<and> pc_id (pd_config b) = PB
     \<and> pc_scenario_seed (pd_config a) = pc_scenario_seed (pd_config b)
     \<and> pc_frame_count (pd_config a) = pc_frame_count (pd_config b)
     \<and> hello_for (pd_config a) (pd_hello b) \<and> hello_for (pd_config b) (pd_hello a)"

definition inbox_ok :: "(int \<Rightarrow> u16) \<Rightarrow> SocketImpl \<Rightarrow> nat \<Rightarrow> PeerDriver \<Rightarrow> Memory \<Rightarrow> bool" where
  "inbox_ok port s n d w \<longleftrightarrow> (pd_phase d \<noteq> PP_finished \<longrightarrow>
     (\<exists>bs. arriving (pd_config d) n bs
        \<and> me_inbox w (port (si_socket s)) = map (\<lambda>b. (b, pc_relay_port (pd_config d))) bs))"

definition game_at :: "(int \<Rightarrow> u16) \<Rightarrow> SocketImpl \<Rightarrow> SocketImpl \<Rightarrow> RelayConfig \<Rightarrow> u64 \<Rightarrow> u64 \<Rightarrow> nat
    \<Rightarrow> PeerDriver \<times> PeerDriver \<times> Memory \<Rightarrow> bool" where
  "game_at port sa sb rc ta tb n g \<longleftrightarrow> (case g of (a, b, w) \<Rightarrow>
     calm port sa ta a \<and> calm port sb tb b \<and> stage n a \<and> stage n b \<and> compatible a b
   \<and> inbox_ok port sa n a w \<and> inbox_ok port sb n b w \<and> me_inbox w (rl_relay_port rc) = []
   \<and> pc_relay_port (pd_config a) = rl_relay_port rc \<and> pc_relay_port (pd_config b) = rl_relay_port rc
   \<and> port (si_socket sa) = rl_peer_a_port rc \<and> port (si_socket sb) = rl_peer_b_port rc)"

lemma game_round_live:
  assumes g: "game_at port sa sb rc ta tb n (a, b, w)" and rc: "relay_ports_ok rc" "port (si_socket sr) = rl_relay_port rc"
    and k: "4 \<le> k"
  shows "\<exists>a' b' w'. game_round build (queue_host port) rc (Some sr) (ta, tb, k) (a, b, w) = (a', b', w')
    \<and> game_at port sa sb rc ta tb (Suc n) (a', b', w') \<and> pd_config a' = pd_config a \<and> pd_config b' = pd_config b"
proof -
  let ?r = "rl_relay_port rc" and ?a = "rl_peer_a_port rc" and ?b = "rl_peer_b_port rc"
  have ports: "?a \<noteq> ?r" "?b \<noteq> ?r" "?a \<noteq> ?b" using rc(1) by (auto simp: relay_ports_ok_def)
  have G: "calm port sa ta a" "calm port sb tb b" "stage n a" "stage n b" "compatible a b" "inbox_ok port sa n a w" "inbox_ok port sb n b w"
    "me_inbox w ?r = []" "pc_relay_port (pd_config a) = ?r" "pc_relay_port (pd_config b) = ?r"
    "port (si_socket sa) = ?a" "port (si_socket sb) = ?b"
    using g by (simp_all add: game_at_def)
  obtain bsa where bsa: "pd_phase a \<noteq> PP_finished \<Longrightarrow> arriving (pd_config a) n bsa
      \<and> me_inbox w ?a = map (\<lambda>b. (b, ?r)) bsa" using G(6,9,11) by (auto simp: inbox_ok_def)
  from peer_round [OF G(1,3), of bsa w build] bsa obtain ra a' outa where
    a: "peer_step build (queue_host port) ta a w = (Inr ra, a',
        if pd_phase a = PP_finished then w else post ?a ?r outa (emptied ?a w))"
      "peer_round_done port sa ta n a a' outa" unfolding G(9,11) by blast
  define w1 where "w1 = (if pd_phase a = PP_finished then w else post ?a ?r outa (emptied ?a w))"
  have w1: "me_inbox w1 p = (if p = ?a then if pd_phase a = PP_finished then me_inbox w p else []
      else if p = ?r then map (\<lambda>b. (b, ?a)) outa else me_inbox w p)" for p
    using a(2) ports G(8) by (auto simp: w1_def peer_round_done_def)
  obtain bsb where bsb: "pd_phase b \<noteq> PP_finished \<Longrightarrow> arriving (pd_config b) n bsb
      \<and> me_inbox w1 ?b = map (\<lambda>b. (b, ?r)) bsb" using G(7,10,12) ports by (auto simp: inbox_ok_def w1)
  from peer_round [OF G(2,4), of bsb w1 build] bsb obtain rb b' outb where
    b: "peer_step build (queue_host port) tb b w1 = (Inr rb, b',
        if pd_phase b = PP_finished then w1 else post ?b ?r outb (emptied ?b w1))"
      "peer_round_done port sb tb n b b' outb" unfolding G(10,12) by blast
  define w2 where "w2 = (if pd_phase b = PP_finished then w1 else post ?b ?r outb (emptied ?b w1))"
  define ds where "ds = map (\<lambda>x. (x, ?a)) outa @ map (\<lambda>x. (x, ?b)) outb"
  have w2r: "me_inbox w2 ?r = ds"
    using b(2) ports by (auto simp: w2_def w1 peer_round_done_def ds_def)
  have w2p: "me_inbox w2 ?a = (if pd_phase a = PP_finished then me_inbox w ?a else [])"
    "me_inbox w2 ?b = (if pd_phase b = PP_finished then me_inbox w ?b else [])"
    using ports by (auto simp: w2_def w1)
  have dep: "departing a n outa" "departing b n outb" "hello_for (pd_config b) (pd_hello a)"
    "hello_for (pd_config a) (pd_hello b)"
    using a(2) b(2) G(5) by (simp_all add: peer_round_done_def compatible_def)
  note plain = departing_plain [OF dep(1,3)] departing_plain [OF dep(2,4)]
  define w3 where "w3 = relay_rounds k (queue_host port) rc (Some sr) w2"
  have "w3 = post ?r ?a (passed_on rc ds ?a) (post ?r ?b (passed_on rc ds ?b) (emptied ?r w2))"
    unfolding w3_def using w2r plain k by (intro relay_forwards [where port = port, OF rc]) (auto simp: ds_def)
  moreover have "passed_on rc ds ?a = outb" "passed_on rc ds ?b = outa"
    using ports by (auto simp: passed_on_def ds_def relay_destination_def filter_empty_conv comp_def)
  ultimately have w3: "me_inbox w3 ?r = []" "me_inbox w3 ?a = me_inbox w2 ?a @ map (\<lambda>x. (x, ?r)) outb"
    "me_inbox w3 ?b = me_inbox w2 ?b @ map (\<lambda>x. (x, ?r)) outa"
    using ports by auto
  have same: "same_peer a a'" "same_peer b b'" using a(2) b(2) by (simp_all add: peer_round_done_def)
  have arr: "arriving (pd_config a) (Suc n) outb" "arriving (pd_config b) (Suc n) outa"
    using G(5) dep by (auto simp: compatible_def other_peer_def intro: departing_arrives)
  have stay: "pd_phase a' \<noteq> PP_finished \<Longrightarrow> pd_phase a \<noteq> PP_finished"
    "pd_phase b' \<noteq> PP_finished \<Longrightarrow> pd_phase b \<noteq> PP_finished"
    using a(2) b(2) by (auto simp: peer_round_done_def)
  have "inbox_ok port sa (Suc n) a' w3"
    unfolding inbox_ok_def using stay(1) arr(1) same(1) w3(2) w2p(1) G(9,11) by (auto simp: same_peer_def)
  moreover have "inbox_ok port sb (Suc n) b' w3"
    unfolding inbox_ok_def using stay(2) arr(2) same(2) w3(3) w2p(2) G(10,12) by (auto simp: same_peer_def)
  moreover have "game_round build (queue_host port) rc (Some sr) (ta, tb, k) (a, b, w) = (a', b', w3)"
    using a(1) b(1) by (simp add: w1_def [symmetric] w2_def [symmetric] w3_def)
  ultimately show ?thesis
    using a(2) b(2) same G w3(1) by (simp add: game_at_def peer_round_done_def compatible_def same_peer_def)
qed

section \<open>The whole game\<close>

fun play :: "BuildInfo \<Rightarrow> 's Host \<Rightarrow> RelayConfig \<Rightarrow> UdpSocket \<Rightarrow> Turn list
    \<Rightarrow> PeerDriver \<times> PeerDriver \<times> 's \<Rightarrow> PeerDriver \<times> PeerDriver \<times> 's" where
  "play build os rc rs [] g = g"
| "play build os rc rs (t # ts) g = play build os rc rs ts (game_round build os rc rs t g)"

definition in_time :: "PeerConfig \<Rightarrow> u64 \<Rightarrow> bool" where
  "in_time config t \<longleftrightarrow> t < ucast (pc_handshake_timeout_milliseconds config)
     \<and> t < ucast (pc_run_timeout_milliseconds config)"

lemma calm_later: "calm port s t d \<Longrightarrow> t \<le> t' \<Longrightarrow> in_time (pd_config d) t' \<Longrightarrow> calm port s t' d"
  by (auto simp: calm_def in_time_def)

text \<open>Both clocks go forward and stay within the limits, and the relay gets its rounds.\<close>

definition turns_ok :: "u64 \<Rightarrow> u64 \<Rightarrow> PeerConfig \<Rightarrow> PeerConfig \<Rightarrow> Turn list \<Rightarrow> bool" where
  "turns_ok ta tb ca cb ts \<longleftrightarrow>
     sorted (ta # map fst ts) \<and> sorted (tb # map (fst \<circ> snd) ts)
   \<and> (\<forall>(ta', tb', k) \<in> set ts. in_time ca ta' \<and> in_time cb tb' \<and> 4 \<le> k)"

lemma turns_ok_Cons:
  "turns_ok ta tb ca cb ((ua, ub, k) # ts) \<longleftrightarrow>
     ta \<le> ua \<and> tb \<le> ub \<and> in_time ca ua \<and> in_time cb ub \<and> 4 \<le> k \<and> turns_ok ua ub ca cb ts"
  by (auto simp: turns_ok_def)

lemma play_live:
  assumes g: "game_at port sa sb rc ta tb n (a, b, w)"
    and rc: "relay_ports_ok rc" "port (si_socket sr) = rl_relay_port rc"
    and ts: "turns_ok ta tb (pd_config a) (pd_config b) ts"
  shows "\<exists>ta' tb' a' b' w'. play build (queue_host port) rc (Some sr) ts (a, b, w) = (a', b', w')
    \<and> game_at port sa sb rc ta' tb' (n + length ts) (a', b', w') \<and> pd_config a' = pd_config a"
  using g ts
proof (induction ts arbitrary: ta tb n a b w)
  case (Cons u ts)
  obtain ua ub k where u: "u = (ua, ub, k)" by (cases u)
  note t = Cons.prems(2) [unfolded u turns_ok_Cons]
  obtain a' b' w' where r: "game_round build (queue_host port) rc (Some sr) u (a, b, w) = (a', b', w')"
    by (cases "game_round build (queue_host port) rc (Some sr) u (a, b, w)")
  have "game_at port sa sb rc ua ub n (a, b, w)"
    using Cons.prems(1) t by (auto simp: game_at_def intro: calm_later)
  from game_round_live [OF this rc, of k build] r t u have g': "game_at port sa sb rc ua ub (Suc n) (a', b', w')"
    "pd_config a' = pd_config a" "pd_config b' = pd_config b" by simp_all
  from Cons.IH [OF g'(1)] g'(2,3) t r show ?case by auto
qed auto

lemma game_over:
  assumes "game_at port sa sb rc ta tb n (a, b, w)" "n = target (pd_config a) + 20"
  shows "pd_phase a = PP_finished \<and> pd_phase b = PP_finished"
proof -
  have "pd_phase d = PP_finished" if "stage (target (pd_config d) + 20) d" for d
    using that by (auto simp: stage_def confirm_stage_def Let_def)
  moreover have "target (pd_config b) = target (pd_config a)"
    using assms(1) by (simp add: game_at_def compatible_def)
  ultimately show ?thesis using assms by (auto simp: game_at_def)
qed

end
