(* ===== verification/LosslessHost.thy ===== *)
theory LosslessHost
  imports UdpLive
begin

text \<open>
  The contract of a network that loses nothing and delivers at once, for any host: each open socket has a queue of the
  datagrams that were sent to its port and not received, in their order. Such a host behaves as the network in
  memory with the same queues does: every function of the socket, the peer and the relay commutes with the map that
  forgets all of the host but the queues.
\<close>

section \<open>The contract\<close>

text \<open>
  \<open>os_sendto\<close> appends the datagram to the queue of its destination, \<open>os_select\<close> tells whether the queue of the socket's own
  port is empty, and \<open>os_recvfrom\<close> takes its first datagram, for the handles in \<open>H\<close>, which are those of the open sockets.
\<close>

definition queues :: "'s Host \<Rightarrow> int set \<Rightarrow> (int \<Rightarrow> u16) \<Rightarrow> ('s \<Rightarrow> u16 \<Rightarrow> (byte list \<times> u16) list) \<Rightarrow> bool" where
  "queues os H port q \<longleftrightarrow>
     (\<forall>h \<in> H. \<forall>w.
        (\<forall>dst bytes. length bytes \<le> max_datagram_bytes \<longrightarrow>
           (case os_sendto os h dst bytes w of (n, w') \<Rightarrow>
              n = int (length bytes) \<and> q w' = (q w)(dst := q w dst @ [(bytes, port h)])))
      \<and> (\<forall>s u. case os_select os h s u w of (n, w') \<Rightarrow> 0 \<le> n \<and> (n = 0 \<longleftrightarrow> q w (port h) = []) \<and> q w' = q w)
      \<and> (\<forall>x xs. q w (port h) = x # xs \<longrightarrow>
           (case os_recvfrom os h max_datagram_bytes w of (r, w') \<Rightarrow> r = Some x \<and> q w' = (q w)(port h := xs))))"

lemma memory_queues: "queues (queue_host port) H port me_inbox"
  by (simp add: queues_def)

text \<open>The datagrams that wait in the queues, as the wire of \<open>game_reach\<close>.\<close>

definition queued :: "('s \<Rightarrow> u16 \<Rightarrow> (byte list \<times> u16) list) \<Rightarrow> 's \<Rightarrow> Wire" where
  "queued q w = {(src, dst, bytes). (bytes, src) \<in> set (q w dst)}"

section \<open>The network in memory simulates it\<close>

definition in_memory :: "('s \<Rightarrow> u16 \<Rightarrow> (byte list \<times> u16) list) \<Rightarrow> 's \<Rightarrow> Memory" where
  "in_memory q w = \<lparr>me_clock = 0, me_next_handle = 1, me_inbox = q w\<rparr>"

abbreviation moved_to :: "('s \<Rightarrow> u16 \<Rightarrow> (byte list \<times> u16) list) \<Rightarrow> 'a \<times> 'b \<times> 's \<Rightarrow> 'a \<times> 'b \<times> Memory" where
  "moved_to q \<equiv> apsnd (apsnd (in_memory q))"

definition open_in :: "int set \<Rightarrow> UdpSocket \<Rightarrow> bool" where
  "open_in H s \<longleftrightarrow> (\<forall>impl. s = Some impl \<longrightarrow> si_socket impl \<in> H)"

lemma open_everywhere: "open_in UNIV s" by (simp add: open_in_def)

text \<open>A step keeps the socket of its peer.\<close>

lemma peer_step_socket: "peer_step build os t d w = (r, d', w') \<Longrightarrow> pd_socket d' = pd_socket d"
  by (auto simp: peer_step_def phase_step_def handshake_step_def running_step_def confirming_step_def driver_fail_def
      set_phase_def Let_def split: option.splits if_splits sum.splits prod.splits)

locale lossless =
  fixes os :: "'s Host" and H :: "int set" and port :: "int \<Rightarrow> u16" and q :: "'s \<Rightarrow> u16 \<Rightarrow> (byte list \<times> u16) list"
  assumes sends: "\<lbrakk>h \<in> H; length bytes \<le> max_datagram_bytes; os_sendto os h dst bytes w = (n, w')\<rbrakk>
      \<Longrightarrow> n = int (length bytes) \<and> q w' = (q w)(dst := q w dst @ [(bytes, port h)])"
    and selects: "\<lbrakk>h \<in> H; os_select os h s u w = (n, w')\<rbrakk> \<Longrightarrow> 0 \<le> n \<and> (n = 0 \<longleftrightarrow> q w (port h) = []) \<and> q w' = q w"
    and receives: "\<lbrakk>h \<in> H; q w (port h) = x # xs; os_recvfrom os h max_datagram_bytes w = (r, w')\<rbrakk>
      \<Longrightarrow> r = Some x \<and> q w' = (q w)(port h := xs)"
begin

lemma send_moves:
  assumes "open_in H s"
  shows "send_loopback (queue_host port) s p bytes (in_memory q w) = apsnd (in_memory q) (send_loopback os s p bytes w)"
proof (cases s)
  case None
  then show ?thesis by (simp add: send_loopback_def)
next
  case (Some impl)
  then have h: "si_socket impl \<in> H" using assms by (simp add: open_in_def)
  obtain n w' where o: "os_sendto os (si_socket impl) p bytes w = (n, w')" by fastforce
  show ?thesis
  proof (cases "length bytes \<le> max_datagram_bytes")
    case True
    from sends [OF h True o] Some o True show ?thesis by (simp add: send_loopback_def in_memory_def)
  qed (simp add: send_loopback_def Some)
qed

lemma receive_moves:
  assumes "open_in H s"
  shows "receive_for (queue_host port) s timeout (in_memory q w) = apsnd (in_memory q) (receive_for os s timeout w)"
proof (cases "s = None \<or> timeout < 0")
  case True
  then show ?thesis by (auto simp: receive_for_def split: option.splits)
next
  case False
  then obtain impl where s: "s = Some impl" "\<not> timeout < 0" by auto
  then have h: "si_socket impl \<in> H" using assms by (simp add: open_in_def)
  obtain n w1 where o: "os_select os (si_socket impl) (timeout div 1000) (timeout mod 1000 * 1000) w = (n, w1)" by fastforce
  note sel = selects [OF h o]
  show ?thesis
  proof (cases "q w (port (si_socket impl))")
    case Nil
    with s o sel show ?thesis by (simp add: receive_for_def in_memory_def)
  next
    case (Cons x xs)
    obtain r w2 where r: "os_recvfrom os (si_socket impl) max_datagram_bytes w1 = (r, w2)" by fastforce
    have "q w1 (port (si_socket impl)) = x # xs" using sel Cons by simp
    from receives [OF h this r] s o sel r Cons show ?thesis
      by (cases x) (simp add: receive_for_def in_memory_def)
  qed
qed

lemma receive_one_moves:
  "open_in H s \<Longrightarrow> receive_one (queue_host port) config s timeout rt (in_memory q w)
     = moved_to q (receive_one os config s timeout rt w)"
  by (simp add: receive_one_def receive_moves split: prod.splits sum.splits option.splits)

lemma drain_moves:
  "open_in H s \<Longrightarrow> drain n (queue_host port) config s rt (in_memory q w) = moved_to q (drain n os config s rt w)"
proof (induction n arbitrary: rt w)
  case (Suc n)
  then show ?case by (simp add: receive_one_moves split: prod.splits sum.splits bool.splits)
qed simp

lemma drain_available_moves:
  "open_in H s \<Longrightarrow> drain_available (queue_host port) config s rt (in_memory q w)
     = moved_to q (drain_available os config s rt w)"
  by (simp add: drain_available_def drain_moves)

lemma send_inputs_moves:
  "open_in H s \<Longrightarrow> send_inputs (queue_host port) config s rt (in_memory q w) = moved_to q (send_inputs os config s rt w)"
  by (simp add: send_inputs_def send_moves Let_def split: prod.splits sum.splits)

lemma handshake_moves:
  "open_in H (pd_socket d) \<Longrightarrow> handshake_step (queue_host port) t d (in_memory q w) = moved_to q (handshake_step os t d w)"
  by (simp add: handshake_step_def send_moves receive_moves Let_def split: prod.splits sum.splits option.splits)

lemma running_moves:
  "open_in H (pd_socket d) \<Longrightarrow> running_step (queue_host port) d (in_memory q w) = moved_to q (running_step os d w)"
  by (simp add: running_step_def drain_available_moves send_inputs_moves Let_def split: prod.splits sum.splits)

lemma confirming_moves:
  "open_in H (pd_socket d) \<Longrightarrow> confirming_step build (queue_host port) d (in_memory q w)
     = moved_to q (confirming_step build os d w)"
  by (auto simp: confirming_step_def drain_available_moves send_inputs_moves Let_def split: prod.splits sum.splits)

lemma phase_moves:
  "open_in H (pd_socket d) \<Longrightarrow> phase_step build (queue_host port) t d (in_memory q w)
     = moved_to q (phase_step build os t d w)"
  by (simp add: phase_step_def handshake_moves running_moves confirming_moves)

lemma peer_moves:
  "open_in H (pd_socket d) \<Longrightarrow> peer_step build (queue_host port) t d (in_memory q w) = moved_to q (peer_step build os t d w)"
  by (simp add: peer_step_def phase_moves Let_def split: prod.splits sum.splits option.splits)

lemma relay_moves:
  "open_in H s \<Longrightarrow> relay_round (queue_host port) rc s (in_memory q w) = apsnd (in_memory q) (relay_round os rc s w)"
  by (simp add: relay_round_def send_moves receive_moves split: prod.splits sum.splits option.splits)

lemma relay_rounds_moves:
  "open_in H s \<Longrightarrow> relay_rounds n (queue_host port) rc s (in_memory q w) = in_memory q (relay_rounds n os rc s w)"
  by (induction n arbitrary: w) (simp_all add: relay_moves)

lemma game_round_moves:
  assumes "open_in H (pd_socket a)" "open_in H (pd_socket b)" "open_in H rs"
    and "game_round build os rc rs turn (a, b, w) = (a', b', w')"
  shows "game_round build (queue_host port) rc rs turn (a, b, in_memory q w) = (a', b', in_memory q w')
    \<and> pd_socket a' = pd_socket a \<and> pd_socket b' = pd_socket b"
proof -
  obtain ta tb k where t: "turn = (ta, tb, k)" by (cases turn)
  obtain ra a1 w1 rb b1 w2 where s: "peer_step build os ta a w = (ra, a1, w1)" "peer_step build os tb b w1 = (rb, b1, w2)"
    by (metis prod.exhaust)
  with peer_step_socket [OF s(1)] peer_step_socket [OF s(2)] assms t show ?thesis
    by (simp add: peer_moves relay_rounds_moves)
qed

lemma play_moves:
  assumes "open_in H (pd_socket a)" "open_in H (pd_socket b)" "open_in H rs"
  shows "play build (queue_host port) rc rs ts (a, b, in_memory q w) = moved_to q (play build os rc rs ts (a, b, w))"
  using assms(1,2)
proof (induction ts arbitrary: a b w)
  case (Cons t ts)
  obtain a' b' w' where r: "game_round build os rc rs t (a, b, w) = (a', b', w')"
    by (cases "game_round build os rc rs t (a, b, w)")
  from game_round_moves [OF Cons.prems assms(3) r] Cons r show ?case by simp
qed simp

end

lemma queues_lossless: "queues os H port q \<Longrightarrow> lossless os H port q"
  unfolding queues_def by unfold_locales (fastforce split: prod.splits)+

interpretation mem: lossless memory_host UNIV handle_port me_inbox
  by (rule queues_lossless [OF memory_queues])

end
