(* ===== verification/UdpGame.thy ===== *)
theory UdpGame
  imports LosslessHost
begin

text \<open>
  The guarantees of a game over UDP: no peer ever reports a desync, finished peers agree with each other
  and with the reference simulation, and on a network that loses nothing and delivers at once the game finishes.
\<close>

section \<open>The network in memory\<close>

lemma memory_is_datagram_host: "datagram_host (queue_host port) (queued me_inbox) port"
  unfolding datagram_host_def queued_def
  by (auto split: list.splits if_splits)

lemma game_round_reach:
  assumes "game_reach build os sent port g a b w"
    and "game_round build os (gs_relay g) (gs_relay_socket g) turn (a, b, w) = (a', b', w')"
  shows "game_reach build os sent port g a' b' w'"
proof -
  have relay: "game_reach build os sent port g x y (relay_rounds n os (gs_relay g) (gs_relay_socket g) v)"
    if "game_reach build os sent port g x y v" for x y v n
    using that
  proof (induction n arbitrary: v)
    case (Suc n)
    obtain r v' where r: "relay_round os (gs_relay g) (gs_relay_socket g) v = (r, v')" by fastforce
    from Suc.IH [OF game_reach.relayed [OF Suc.prems r]] r show ?case by simp
  qed simp
  obtain ta tb k where t: "turn = (ta, tb, k)" by (cases turn)
  obtain ra a1 w1 where a: "peer_step build os ta a w = (ra, a1, w1)" by (cases "peer_step build os ta a w")
  obtain rb b1 w2 where b: "peer_step build os tb b w1 = (rb, b1, w2)" by (cases "peer_step build os tb b w1")
  from relay [OF game_reach.step_b [OF game_reach.step_a [OF assms(1) a] b], of k] assms(2) a b t
  show ?thesis by simp
qed

lemma play_reach:
  assumes "game_reach build os sent port g a b w"
    and "play build os (gs_relay g) (gs_relay_socket g) ts (a, b, w) = (a', b', w')"
  shows "game_reach build os sent port g a' b' w'"
  using assms
proof (induction ts arbitrary: a b w)
  case (Cons t ts)
  obtain a1 b1 w1 where r: "game_round build os (gs_relay g) (gs_relay_socket g) t (a, b, w) = (a1, b1, w1)"
    by (cases "game_round build os (gs_relay g) (gs_relay_socket g) t (a, b, w)")
  from Cons.IH [OF game_round_reach [OF Cons.prems(1) r]] Cons.prems(2) r show ?case by simp
qed simp

section \<open>The start of a game\<close>

text \<open>Each peer announces the version and the configuration that the other one expects.\<close>

definition hellos_match :: "PeerConfig \<Rightarrow> PeerConfig \<Rightarrow> bool" where
  "hellos_match mine theirs \<longleftrightarrow> pc_simulation_version_override theirs = kSimulationVersion
     \<and> scenario_config_digest theirs = scenario_config_digest (expected_config mine)"

lemma hello_for_peer:
  assumes "encode_hello theirs = Inr bytes" "pc_protocol_version_override theirs = 1" "hellos_match mine theirs"
    and "pc_id theirs = other_peer (pc_id mine)" "pc_scenario_seed theirs = pc_scenario_seed mine"
    and "pc_frame_count theirs = pc_frame_count mine"
  shows "hello_for (mine\<lparr>pc_listen_port := p\<rparr>) bytes"
proof -
  have e: "encode_packet (hello_packet theirs) = Inr bytes"
    using assms(1,2) by (simp add: encode_hello_def kProtocolVersion_def encode_hello_bytes)
  then have "decode_packet bytes = Inr (hello_packet theirs)"
    using hello_packet_ok(2) by (auto simp: decode_packet_iff)
  moreover have "scenario_config_digest (expected_config (mine\<lparr>pc_listen_port := p\<rparr>)) =
      scenario_config_digest (expected_config mine)"
    by (simp add: scenario_config_digest_def expected_config_def advertised_abi_def)
  moreover have "length bytes \<le> kMaxPacketBytes"
    using e packet_ok_payload [OF hello_packet_ok(1) [of theirs]] by (auto simp: encode_packet_iff body_bytes_def kMaxPacketBytes_def)
  ultimately show ?thesis
    using assms(3-) by (simp add: hello_for_def valid_hello_def hello_packet_def hellos_match_def remote_id_other pt_hello_def)
qed

lemma created_fields:
  assumes "create_driver os config s w = (Inr d, w')"
  shows "\<exists>impl hello. d = make_driver config (Some impl) s hello \<and> encode_hello config = Inr hello \<and> 0 < target config"
  using assms by (auto simp: create_driver_def bind_loopback_def Let_def mk_error_def unat_gt_0
      split: if_splits sum.splits prod.splits)

lemma created_stage:
  assumes d: "d = make_driver config (Some impl) s hello" and s: "plain_session config s"
    and r: "create_driver os config s w = (Inr d, w')" "pc_protocol_version_override config = 1"
    and win: "32 \<le> rollback_window (s_config s)"
  shows "handshake_stage d"
proof -
  from create_driver_ok [OF s r(2,1), of undefined] obtain c where
    c: "driver_core c d" "phase_ok undefined c d" "pd_phase d = PP_handshake" by (auto simp: driver_inv_def)
  then have rt: "runtime_ok (pd_config d) 0 (pd_runtime d)" by (simp add: driver_core_def phase_ok_def)
  from runtime_okD(4) [OF this] have "knows (pd_config d) 0 0 (pd_runtime d)"
    using rt win by (simp add: knows_def d make_driver_def)
  moreover have "s_earliest_dirty s = None" using s by (auto simp: plain_session_def make_session_def)
  then have "caught_up (pd_config d) 0 (pd_runtime d)"
    using runtime_okD(4) [OF rt] by (simp add: caught_up_def d make_driver_def)
  ultimately show ?thesis using c(3)
    by (simp add: handshake_stage_def d make_driver_def awaits_def)
qed

lemma game_starts:
  assumes g: "game_setup port g"
    and a: "create_driver os (gs_config_a g) sa w = (Inr a, w1)" "plain_session (gs_config_a g) sa"
      "32 \<le> rollback_window (s_config sa)"
    and b: "create_driver os (gs_config_b g) sb w1 = (Inr b, w2)" "plain_session (gs_config_b g) sb"
      "32 \<le> rollback_window (s_config sb)"
    and bound: "bound_to port (pd_socket a) (rl_peer_a_port (gs_relay g))"
      "bound_to port (pd_socket b) (rl_peer_b_port (gs_relay g))"
    and hello: "hellos_match (gs_config_a g) (gs_config_b g)" "hellos_match (gs_config_b g) (gs_config_a g)"
    and time: "in_time (gs_config_a g) 0" "in_time (gs_config_b g) 0" and empty: "\<forall>p. q w2 p = []"
  shows "\<exists>ia ib. game_at port ia ib (gs_relay g) 0 0 0 (a, b, in_memory q w2) \<and> game_reach build os (queued q) port g a b w2
    \<and> pd_config a = (gs_config_a g)\<lparr>pc_listen_port := pc_listen_port (pd_config a)\<rparr>
    \<and> pd_config b = (gs_config_b g)\<lparr>pc_listen_port := pc_listen_port (pd_config b)\<rparr>"
proof -
  let ?rc = "gs_relay g"
  have G: "relay_ports_ok ?rc" "pc_id (gs_config_a g) = PA" "pc_id (gs_config_b g) = PB"
    "pc_relay_port (gs_config_a g) = rl_relay_port ?rc" "pc_relay_port (gs_config_b g) = rl_relay_port ?rc"
    "pc_scenario_seed (gs_config_a g) = pc_scenario_seed (gs_config_b g)"
    "pc_frame_count (gs_config_a g) = pc_frame_count (gs_config_b g)"
    "pc_protocol_version_override (gs_config_a g) = 1" "pc_protocol_version_override (gs_config_b g) = 1"
    using g by (simp_all add: game_setup_def)
  obtain ia ha where A: "a = make_driver (gs_config_a g) (Some ia) sa ha" "encode_hello (gs_config_a g) = Inr ha"
      "0 < target (gs_config_a g)"
    using created_fields [OF a(1)] by blast
  obtain ib hb where B: "b = make_driver (gs_config_b g) (Some ib) sb hb" "encode_hello (gs_config_b g) = Inr hb"
      "0 < target (gs_config_b g)"
    using created_fields [OF b(1)] by blast
  have ha: "hello_for ((gs_config_b g)\<lparr>pc_listen_port := p\<rparr>) ha" for p
    using G by (intro hello_for_peer [OF A(2) _ hello(2)]) (simp_all add: other_peer_def)
  have hb: "hello_for ((gs_config_a g)\<lparr>pc_listen_port := p\<rparr>) hb" for p
    using G by (intro hello_for_peer [OF B(2) _ hello(1)]) (simp_all add: other_peer_def)
  have ports: "port (si_socket ia) = rl_peer_a_port ?rc" "port (si_socket ib) = rl_peer_b_port ?rc"
    using bound by (simp_all add: A(1) B(1) make_driver_def bound_to_def)
  have sa: "handshake_stage a" by (rule created_stage [OF A(1) a(2,1) G(8) a(3)])
  have sb: "handshake_stage b" by (rule created_stage [OF B(1) b(2,1) G(9) b(3)])
  have inbox: "me_inbox (in_memory q w2) p = []" for p using empty by (simp add: in_memory_def)
  have calm: "calm port ia 0 a" "calm port ib 0 b"
    using time ha hb ports G(1,4,5) A(3) B(3)
    by (auto simp: calm_def A(1) B(1) make_driver_def in_time_def hello_for_def relay_ports_ok_def)
  have "game_at port ia ib ?rc 0 0 0 (a, b, in_memory q w2)"
    unfolding game_at_def using calm sa sb ha hb ports G inbox
    by (simp add: stage_def compatible_def inbox_ok_def arriving_def A(1) B(1) make_driver_def)
  moreover have "game_reach build os (queued q) port g a b w2"
    using a b bound empty by (intro game_reach.created) (auto simp: outside_def queued_def)
  ultimately show ?thesis by (auto simp: A(1) B(1) make_driver_def)
qed

lemma game_finishes:
  assumes "queues os H port q" "open_in H (pd_socket a)" "open_in H (pd_socket b)" "open_in H (gs_relay_socket g)"
    and "game_setup port g"
    and "create_driver os (gs_config_a g) sa w = (Inr a, w1)" "plain_session (gs_config_a g) sa"
      "32 \<le> rollback_window (s_config sa)"
    and "create_driver os (gs_config_b g) sb w1 = (Inr b, w2)" "plain_session (gs_config_b g) sb"
      "32 \<le> rollback_window (s_config sb)"
    and "bound_to port (pd_socket a) (rl_peer_a_port (gs_relay g))"
      "bound_to port (pd_socket b) (rl_peer_b_port (gs_relay g))"
    and "hellos_match (gs_config_a g) (gs_config_b g)" "hellos_match (gs_config_b g) (gs_config_a g)"
    and "\<forall>p. q w2 p = []"
    and "turns_ok 0 0 (gs_config_a g) (gs_config_b g) ts" "length ts = target (gs_config_a g) + 20"
  shows "case play build os (gs_relay g) (gs_relay_socket g) ts (a, b, w2) of
    (a', b', w') \<Rightarrow> pd_phase a' = PP_finished \<and> pd_phase b' = PP_finished \<and> game_reach build os (queued q) port g a' b' w'"
proof -
  obtain ta tb k where t: "(ta, tb, k) \<in> set ts" using assms(18) by (cases ts) auto
  have "in_time (gs_config_a g) ta" "in_time (gs_config_b g) tb" using t assms(17) by (auto simp: turns_ok_def)
  then have zero: "in_time (gs_config_a g) 0" "in_time (gs_config_b g) 0"
    by (auto simp: in_time_def intro: le_less_trans)
  obtain ia ib where s: "game_at port ia ib (gs_relay g) 0 0 0 (a, b, in_memory q w2)"
    "game_reach build os (queued q) port g a b w2"
    "pd_config a = (gs_config_a g)\<lparr>pc_listen_port := pc_listen_port (pd_config a)\<rparr>"
    "pd_config b = (gs_config_b g)\<lparr>pc_listen_port := pc_listen_port (pd_config b)\<rparr>"
    using game_starts [where port = port and q = q, OF assms(5-15) zero assms(16)] by blast
  have cfg: "in_time (pd_config a) u = in_time (gs_config_a g) u" "in_time (pd_config b) u = in_time (gs_config_b g) u"
    "target (pd_config a) = target (gs_config_a g)" for u
    by (subst s, simp add: in_time_def)+
  have turns: "turns_ok 0 0 (pd_config a) (pd_config b) ts" using assms(17) by (simp add: turns_ok_def cfg)
  obtain sr where sr: "gs_relay_socket g = Some sr" and
    rc: "relay_ports_ok (gs_relay g)" "port (si_socket sr) = rl_relay_port (gs_relay g)"
    using assms(5) by (auto simp: game_setup_def bound_to_def split: option.splits)
  obtain ta' tb' a' b' m where
    p: "play build (queue_host port) (gs_relay g) (Some sr) ts (a, b, in_memory q w2) = (a', b', m)"
      "game_at port ia ib (gs_relay g) ta' tb' (target (gs_config_a g) + 20) (a', b', m)" "pd_config a' = pd_config a"
    using play_live [OF s(1) rc turns, of build] assms(18) by auto
  obtain a2 b2 w' where r: "play build os (gs_relay g) (gs_relay_socket g) ts (a, b, w2) = (a2, b2, w')"
    by (metis prod.exhaust)
  have "a2 = a'" "b2 = b'"
    using lossless.play_moves [OF queues_lossless [OF assms(1)] assms(2-4), of build "gs_relay g" ts w2] r p(1) sr
    by simp_all
  with play_reach [OF s(2) r] game_over [OF p(2)] p(3) cfg(3) r show ?thesis by simp
qed

text \<open>A game of 120 frames with the default configuration.\<close>

definition sample_game :: GameSetup where
  "sample_game =
     \<lparr>gs_relay = \<lparr>rl_relay_port = 3, rl_peer_a_port = 1, rl_peer_b_port = 2,
        rl_maximum_runtime_milliseconds = 5000, rl_ready_file = ''''\<rparr>,
      gs_relay_socket = Some \<lparr>si_socket = 3, si_port = 3\<rparr>,
      gs_config_a = default_peer_config\<lparr>pc_relay_port := 3\<rparr>,
      gs_config_b = default_peer_config\<lparr>pc_relay_port := 3, pc_id := PB\<rparr>\<rparr>"

lemma sample_setup: "game_setup handle_port sample_game"
  by (simp add: game_setup_def sample_game_def relay_ports_ok_def bound_to_def handle_port_def default_peer_config_def)

lemma sample_sessions:
  "plain_session (gs_config_a sample_game) (make_session (default_session_config PA))"
  "plain_session (gs_config_b sample_game) (make_session (default_session_config PB))"
  "rollback_window (s_config (make_session (default_session_config p))) = 120"
proof -
  have live: "live_config q (default_session_config q)" for q
    using default_config_valid(1) by (simp add: live_config_def) (simp add: default_session_config_def)
  show "plain_session (gs_config_a sample_game) (make_session (default_session_config PA))"
    using live [of PA] by (auto simp: plain_session_def sample_game_def default_peer_config_def)
  show "plain_session (gs_config_b sample_game) (make_session (default_session_config PB))"
    using live [of PB] by (auto simp: plain_session_def sample_game_def default_peer_config_def)
  show "rollback_window (s_config (make_session (default_session_config p))) = 120"
    using default_config_valid(4) [of p] by (simp add: make_session_def)
qed

lemma sample_hellos:
  "hellos_match (gs_config_a sample_game) (gs_config_b sample_game)"
  "hellos_match (gs_config_b sample_game) (gs_config_a sample_game)"
  by (simp_all add: hellos_match_def sample_game_def scenario_config_digest_def expected_config_def
      default_peer_config_def advertised_abi_def kProtocolVersion_def)

lemma sample_times: "in_time (gs_config_a sample_game) 0 \<and> in_time (gs_config_b sample_game) 0"
  by (simp add: in_time_def sample_game_def default_peer_config_def)

lemma sample_drivers:
  "\<exists>a b w1 w2. create_driver memory_host (gs_config_a sample_game) (make_session (default_session_config PA))
        empty_memory = (Inr a, w1)
    \<and> create_driver memory_host (gs_config_b sample_game) (make_session (default_session_config PB)) w1 = (Inr b, w2)
    \<and> bound_to handle_port (pd_socket a) (rl_peer_a_port (gs_relay sample_game))
    \<and> bound_to handle_port (pd_socket b) (rl_peer_b_port (gs_relay sample_game)) \<and> (\<forall>p. me_inbox w2 p = [])"
  by (simp add: create_driver_def sample_game_def memory_bind empty_memory_def default_peer_config_def
      encode_hello_def encode_hello_bytes make_session_def default_session_config_def session_report_def
      make_initial_world_def make_driver_def bound_to_def handle_port_def kProtocolVersion_def)

lemma sample_turns:
  "turns_ok 0 0 (gs_config_a sample_game) (gs_config_b sample_game) (replicate 140 (0, 0, 4))"
  "length (replicate 140 (0 :: u64, 0 :: u64, 4 :: nat)) = target (gs_config_a sample_game) + 20"
  using sample_times by (simp_all add: turns_ok_def sorted_replicate sample_game_def default_peer_config_def)

lemma sample_played:
  "\<exists>a b w. game_reach plain_build memory_host (queued me_inbox) handle_port sample_game a b w
    \<and> pd_phase a = PP_finished \<and> pd_phase b = PP_finished"
proof -
  obtain a b w1 w2 where d: "create_driver memory_host (gs_config_a sample_game)
      (make_session (default_session_config PA)) empty_memory = (Inr a, w1)"
    "create_driver memory_host (gs_config_b sample_game) (make_session (default_session_config PB)) w1 = (Inr b, w2)"
    "bound_to handle_port (pd_socket a) (rl_peer_a_port (gs_relay sample_game))"
    "bound_to handle_port (pd_socket b) (rl_peer_b_port (gs_relay sample_game))" "\<forall>p. me_inbox w2 p = []"
    using sample_drivers by blast
  have "32 \<le> rollback_window (s_config (make_session (default_session_config p)))" for p
    using sample_sessions(3) [of p] by simp
  from game_finishes [OF memory_queues open_everywhere open_everywhere open_everywhere sample_setup d(1) sample_sessions(1)
      this d(2) sample_sessions(2) this d(3,4) sample_hellos d(5) sample_turns, of plain_build]
  show ?thesis by (auto split: prod.splits)
qed

section \<open>Properties\<close>

text \<open>
  C4. Two peers that play the same scenario over UDP, through the relay and with a canonical build on both sides,
  never report a desync, whatever the network and the clock do: no step returns the desync error and
  neither peer holds a desync diagnostic.
\<close>

theorem udp_peers_never_desync:
  assumes "game_reach build os sent port g a b w" "datagram_host os sent port" "game_setup port g"
  shows "pr_diagnostic (pd_runtime a) = None \<and> pr_diagnostic (pd_runtime b) = None
    \<and> (case fst (peer_step build os t a w) of Inl e \<Rightarrow> err_code e \<noteq> EC_desync | Inr _ \<Rightarrow> True)
    \<and> (case fst (peer_step build os t b w) of Inl e \<Rightarrow> err_code e \<noteq> EC_desync | Inr _ \<Rightarrow> True)"
proof -
  from game_reach_inv [OF assms] have
    i: "peer_inv build port g (gs_config_a g) a" "peer_inv build port g (gs_config_b g) b"
      "wire_ok (game_of (gs_config_a g)) (target (gs_config_a g)) (gs_relay g) sent w"
    by (simp_all add: game_inv_def)
  have su: "relay_ports_ok (gs_relay g)" "pc_relay_port (gs_config_a g) = rl_relay_port (gs_relay g)"
    "pc_relay_port (gs_config_b g) = rl_relay_port (gs_relay g)"
    "pc_scenario_seed (gs_config_b g) = pc_scenario_seed (gs_config_a g)"
    "pc_frame_count (gs_config_b g) = pc_frame_count (gs_config_a g)"
    using assms(3) by (simp_all add: game_setup_def)
  have diag: "pr_diagnostic (pd_runtime d) = None" if "peer_inv build port g c d" for c d
    using that by (auto simp: peer_inv_def driver_inv_def driver_core_def runtime_ok_def)
  have step: "case fst (peer_step build os t d w) of Inl e \<Rightarrow> err_code e \<noteq> EC_desync | Inr _ \<Rightarrow> True"
    if "peer_inv build port g c d" "pc_relay_port c = rl_relay_port (gs_relay g)"
      "wire_ok (game_of c) (target c) (gs_relay g) sent w" for c d
    using peer_step_inv [OF assms(2) that(1) su(1) that(2,3)]
    by (cases "peer_step build os t d w") (auto split: sum.splits)
  from diag [OF i(1)] diag [OF i(2)] step [OF i(1) su(2) i(3)] step [OF i(2) su(3)] i(3) su(4,5)
  show ?thesis by simp
qed

text \<open>What a finished driver holds.\<close>

lemma finished_facts:
  assumes "peer_inv build port g config d" "pd_phase d = PP_finished"
  shows "complete (pd_config d) (pd_runtime d)
    \<and> build_peer_artifacts build (pd_config d) (pd_runtime d) = Inr (pd_artifacts d)
    \<and> pc_id (pd_config d) = pc_id config \<and> pc_scenario_seed (pd_config d) = pc_scenario_seed config
    \<and> pc_frame_count (pd_config d) = pc_frame_count config \<and> pc_transport_seed (pd_config d) = pc_transport_seed config"
proof -
  have c: "pd_config d = config\<lparr>pc_listen_port := pc_listen_port (pd_config d)\<rparr>"
    using assms(1) by (simp add: peer_inv_def)
  have "pc_id (pd_config d) = pc_id config" "pc_scenario_seed (pd_config d) = pc_scenario_seed config"
    "pc_frame_count (pd_config d) = pc_frame_count config" "pc_transport_seed (pd_config d) = pc_transport_seed config"
    by (subst c, simp)+
  with assms show ?thesis by (auto simp: peer_inv_def driver_inv_def phase_ok_def)
qed

lemma build_replay_cong:
  assumes "complete c rt" "complete c' rt'" "pc_scenario_seed c = pc_scenario_seed c'"
    "pc_frame_count c = pc_frame_count c'" "pc_transport_seed c = pc_transport_seed c'"
  shows "build_replay c (pr_session rt) = build_replay c' (pr_session rt')"
proof -
  have "record_frames c (pr_session rt) [0..<target c] w r = record_frames c' (pr_session rt') [0..<target c] w r" for w r
    using complete_input [OF assms(1)] complete_input [OF assms(2)] assms(3,4)
    by (intro record_frames_cong) simp_all
  then show ?thesis using assms(3-5) by (simp add: build_replay_def)
qed

lemma finished_artifacts:
  assumes c: "complete config rt" and a: "build_peer_artifacts build config rt = Inr art"
  shows "\<exists>replay. build_replay config (pr_session rt) = Inr replay \<and> encode_replay replay = Inr (pa_replay art)
    \<and> ok (verify_replay replay) \<and> rp_expected_final_hash replay = hash_canonical (s_state (pr_session rt))"
  using artifacts_ok [OF c, of build] a by auto

text \<open>
  C7. Two peers that have both finished are equivalent to the lockstep reference: their sessions are
  in the state of the run that simulates both players' scripted inputs in order, each holds the other's final
  hash, the replay file that each wrote passes the verifier with that state's hash, and the two
  files are equal when the peers were given the same transport seed.
\<close>

theorem udp_finished_peers_agree:
  assumes "game_reach build os sent port g a b w" "datagram_host os sent port" "game_setup port g"
    and "pd_phase a = PP_finished" "pd_phase b = PP_finished"
    and "pc_transport_seed (gs_config_a g) = pc_transport_seed (gs_config_b g)"
  shows "s_state (pd_session a) = s_state (pd_session b)
    \<and> truth (game_of (gs_config_a g)) (target (gs_config_a g)) = Inr (s_state (pd_session a))
    \<and> pr_remote_final_hash (pd_runtime a) = Some (hash_canonical (s_state (pd_session b)))
    \<and> pr_remote_final_hash (pd_runtime b) = Some (hash_canonical (s_state (pd_session a)))
    \<and> pa_replay (pd_artifacts a) = pa_replay (pd_artifacts b)
    \<and> (\<exists>replay. encode_replay replay = Inr (pa_replay (pd_artifacts a)) \<and> ok (verify_replay replay)
          \<and> rp_expected_final_hash replay = hash_canonical (s_state (pd_session a)))"
proof -
  from game_reach_inv [OF assms(1-3)] have
    i: "peer_inv build port g (gs_config_a g) a" "peer_inv build port g (gs_config_b g) b"
    by (simp_all add: game_inv_def)
  have su: "pc_scenario_seed (gs_config_b g) = pc_scenario_seed (gs_config_a g)"
    "pc_frame_count (gs_config_b g) = pc_frame_count (gs_config_a g)"
    using assms(3) by (simp_all add: game_setup_def)
  note A = finished_facts [OF i(1) assms(4)] and B = finished_facts [OF i(2) assms(5)]
  note a = complete_state [OF conjunct1 [OF A]] and b = complete_state [OF conjunct1 [OF B]]
  have same: "s_state (pd_session a) = s_state (pd_session b)"
    using a(1) b(1) A B su by simp
  have "build_replay (pd_config a) (pd_session a) = build_replay (pd_config b) (pd_session b)"
    using A B su assms(6) by (intro build_replay_cong) simp_all
  with finished_artifacts [of "pd_config a" "pd_runtime a" build "pd_artifacts a"]
    finished_artifacts [of "pd_config b" "pd_runtime b" build "pd_artifacts b"] A B
  show ?thesis using a b same by auto
qed

text \<open>
  C8. On a network that loses nothing and delivers at once, two compatible peers finish: if every open socket has a
  queue of all that was sent to its port (\<open>queues\<close>, for any host), the two peers take turns with the relay, which gets at least four
  rounds in a turn, and the peers' clocks go forward and stay within their limits, then both
  are in the finished phase after two turns of handshake, one turn per frame and
  eighteen turns of confirmation, for any number of frames the driver accepts. The sessions must have
  a rollback window of at least 32 frames, the number of inputs that a packet repeats. A network that
  delivers late is not covered, nor are peers that step at very different rates.
\<close>

theorem udp_game_finishes:
  assumes "queues os H port q" "open_in H (pd_socket a)" "open_in H (pd_socket b)" "open_in H (gs_relay_socket g)"
    and "game_setup port g"
    and "create_driver os (gs_config_a g) sa w = (Inr a, w1)" "plain_session (gs_config_a g) sa"
      "32 \<le> rollback_window (s_config sa)"
    and "create_driver os (gs_config_b g) sb w1 = (Inr b, w2)" "plain_session (gs_config_b g) sb"
      "32 \<le> rollback_window (s_config sb)"
    and "bound_to port (pd_socket a) (rl_peer_a_port (gs_relay g))"
      "bound_to port (pd_socket b) (rl_peer_b_port (gs_relay g))"
    and "hellos_match (gs_config_a g) (gs_config_b g)" "hellos_match (gs_config_b g) (gs_config_a g)"
    and "\<forall>p. q w2 p = []"
    and "turns_ok 0 0 (gs_config_a g) (gs_config_b g) ts" "length ts = target (gs_config_a g) + 20"
  shows "case play build os (gs_relay g) (gs_relay_socket g) ts (a, b, w2) of
    (a', b', w') \<Rightarrow> pd_phase a' = PP_finished \<and> pd_phase b' = PP_finished \<and> game_reach build os (queued q) port g a' b' w'"
  by (rule game_finishes [OF assms])

theorem udp_game_finishes_witness:
  "\<exists>a b w2. (case play plain_build memory_host (gs_relay sample_game) (gs_relay_socket sample_game)
      (replicate 140 (0, 0, 4)) (a, b, w2) of
    (a', b', w') \<Rightarrow> pd_phase a' = PP_finished \<and> pd_phase b' = PP_finished
      \<and> game_reach plain_build memory_host (queued me_inbox) handle_port sample_game a' b' w')"
proof -
  obtain a b w1 w2 where d: "create_driver memory_host (gs_config_a sample_game)
      (make_session (default_session_config PA)) empty_memory = (Inr a, w1)"
    "create_driver memory_host (gs_config_b sample_game) (make_session (default_session_config PB)) w1 = (Inr b, w2)"
    "bound_to handle_port (pd_socket a) (rl_peer_a_port (gs_relay sample_game))"
    "bound_to handle_port (pd_socket b) (rl_peer_b_port (gs_relay sample_game))" "\<forall>p. me_inbox w2 p = []"
    using sample_drivers by blast
  have "32 \<le> rollback_window (s_config (make_session (default_session_config p)))" for p
    using sample_sessions(3) [of p] by simp
  from udp_game_finishes [OF memory_queues open_everywhere open_everywhere open_everywhere sample_setup d(1) sample_sessions(1)
      this d(2) sample_sessions(2) this d(3,4) sample_hellos d(5) sample_turns, of plain_build]
  show ?thesis by (intro exI)
qed

theorem udp_finished_peers_agree_witness:
  "\<exists>a b w. game_reach plain_build memory_host (queued me_inbox) handle_port sample_game a b w
    \<and> pd_phase a = PP_finished \<and> pd_phase b = PP_finished \<and> s_state (pd_session a) = s_state (pd_session b)
    \<and> pa_replay (pd_artifacts a) = pa_replay (pd_artifacts b)"
proof -
  obtain a b w where g: "game_reach plain_build memory_host (queued me_inbox) handle_port sample_game a b w"
    "pd_phase a = PP_finished" "pd_phase b = PP_finished"
    using sample_played by blast
  have "pc_transport_seed (gs_config_a sample_game) = pc_transport_seed (gs_config_b sample_game)"
    by (simp add: sample_game_def)
  from udp_finished_peers_agree [OF g(1) memory_is_datagram_host sample_setup g(2,3) this] g show ?thesis by blast
qed

theorem udp_peers_never_desync_witness:
  "\<exists>a b w. game_reach plain_build memory_host (queued me_inbox) handle_port sample_game a b w
    \<and> pd_phase a = PP_finished \<and> pr_diagnostic (pd_runtime a) = None \<and> pr_diagnostic (pd_runtime b) = None"
proof -
  obtain a b w where g: "game_reach plain_build memory_host (queued me_inbox) handle_port sample_game a b w"
    "pd_phase a = PP_finished"
    using sample_played by blast
  from udp_peers_never_desync [OF g(1) memory_is_datagram_host sample_setup] g show ?thesis by blast
qed

section \<open>Sessions with a short window\<close>

lemma old_input_refused:
  assumes f: "follows p H c R s" and n: "numbered H m" "c \<le> m" and x: "x \<in> set (H (other_peer p))"
    and old: "unat (in_frame x) + rollback_window (s_config s) < c"
  shows "\<exists>e. ingest_remote x s = (Inl e, s) \<and> err_code e = EC_rollback_window_exceeded"
proof -
  obtain cfg where cfg: "live_config p cfg" "valid_config cfg" "session_inv cfg (take c (H p)) R s"
      "length (take c (H p)) = c" "s_config s = cfg"
    using followsD [OF f n] by metis
  obtain i where i: "i < m" "x = H (other_peer p) ! i"
    using x numberedD(2) [OF n(1)] by (auto simp: in_set_conv_nth)
  have fx: "in_frame x = of_nat i" "in_player x = other_peer p" "unat (in_frame x) = i"
    using i numberedD [OF n(1)] by (simp_all add: unat_of_nat_u32 less_imp_le)
  have big: "c < 4294967296" using n numberedD(1) [OF n(1)] by simp
  have "i < c" using old fx(3) by simp
  then have "frame_before (of_nat i) (of_nat c)" using n numberedD(1) [OF n(1)] by (simp add: frame_before_of_nat)
  moreover have "unat (frame_distance (of_nat i) (of_nat c)) = c - i"
    using \<open>i < c\<close> n numberedD(1) [OF n(1)] by (subst frame_distance_of_nat) (simp_all add: unat_of_nat_u32 del: of_nat_diff)
  then have "cfg_max_rollback_frames cfg < frame_distance (of_nat i) (of_nat c)"
    using old fx(3) cfg(5) by (simp add: word_less_nat_alt rollback_window_def)
  ultimately have "fst (ingest_remote x s) = failure EC_rollback_window_exceeded (ucast (in_frame x)) 0 ''remote_input''"
    using ingest_result [OF cfg(2,3), of x] fx cfg(1,4) by (simp add: live_config_def)
  then obtain e where "ingest_remote x s = (Inl e, snd (ingest_remote x s))" "err_code e = EC_rollback_window_exceeded"
    by (cases "ingest_remote x s") (auto simp: mk_error_def)
  with ingest_refused [OF this(1)] show ?thesis by auto
qed

lemma ingest_all_refuses:
  assumes "follows p H c R s" "numbered H m" "c \<le> m" "m \<le> 256" "set xs \<subseteq> set (H (other_peer p))"
    and "x \<in> set xs" "unat (in_frame x) + rollback_window (s_config s) < c"
  shows "\<exists>e s'. ingest_all xs s = (Inl e, s') \<and> err_code e = EC_rollback_window_exceeded"
  using assms(1,5-)
proof (induction xs arbitrary: R s)
  case (Cons y ys)
  obtain r s1 where r: "ingest_remote y s = (r, s1)" by fastforce
  have s1: "s_config s1 = s_config s"
    using r by (auto simp: ingest_remote_def Let_def update_confirmation_def mark_dirty_def
        split: if_splits sum.splits)
  have y: "y \<in> set (H (other_peer p))" using Cons.prems(2) by simp
  from ingest_follows [OF Cons.prems(1) assms(2,3) disjI2 [OF assms(4)] y r]
  consider (fail) e where "r = Inl e" "err_code e = EC_rollback_window_exceeded"
    | (go) "r = Inr ()" "follows p H c (R(unat (in_frame y) \<mapsto> y)) s1" by auto
  then show ?case
  proof cases
    case fail
    then show ?thesis using r by simp
  next
    case go
    have "x \<noteq> y" using old_input_refused [OF Cons.prems(1) assms(2,3) y] Cons.prems(4) r go(1) by auto
    then have "x \<in> set ys" using Cons.prems(3) by simp
    from Cons.IH [OF go(2) _ this] Cons.prems(2,4) r go(1) s1 show ?thesis by simp
  qed
qed simp

text \<open>
  C25. A packet is refused as a whole when one of the inputs it repeats is older than the receiver's
  rollback window, even if that input is known and confirmed already. A packet repeats the last 32 inputs, so the
  driver of a session with a window below 32 frames fails on a perfect network once its frame number exceeds
  the window.
\<close>

theorem repeated_input_beyond_window:
  assumes "runtime_ok config c rt"
    and "honest (game_of config) (target config) (other_peer (pc_id config)) pkt"
    and "x \<in> set (pk_inputs pkt)" "unat (in_frame x) + rollback_window (s_config (pr_session rt)) < c"
  shows "\<exists>e rt'. accept_inputs config pkt rt = (Inl e, rt') \<and> err_code e = EC_rollback_window_exceeded"
proof -
  note D = runtime_okD [OF assms(1)]
  obtain R where f: "follows (pc_id config) (game_of config) c R (pr_session rt)" using D(4) by blast
  have xs: "set (pk_inputs pkt) \<subseteq> set (game_of config (other_peer (pc_id config)))"
    using assms(2) by (simp add: honest_def)
  have "in_frame y < pc_frame_count config" if "y \<in> set (pk_inputs pkt)" for y
  proof -
    from that xs have "y \<in> set (game_of config (other_peer (pc_id config)))" by blast
    then obtain i where i: "i < target config" "y = game_of config (other_peer (pc_id config)) ! i"
      by (auto simp: in_set_conv_nth)
    then show ?thesis using numberedD(3) [OF D(3)] D(1) by (simp add: word_less_nat_alt unat_of_nat_u32)
  qed
  then have "find_beyond_target config (pk_inputs pkt) = None" by (rule find_beyond_target_None)
  moreover obtain e s' where "ingest_all (pk_inputs pkt) (pr_session rt) = (Inl e, s')"
      "err_code e = EC_rollback_window_exceeded"
    using ingest_all_refuses [OF f D(3,2,1) xs assms(3,4)] by blast
  ultimately show ?thesis by (simp add: accept_inputs_def Let_def)
qed

theorem repeated_input_beyond_window_witness:
  "\<exists>rt e rt'. runtime_ok default_peer_config 2 rt
    \<and> accept_inputs default_peer_config \<lparr>pk_protocol_version = 1, pk_type = pt_input, pk_sender = PB,
        pk_sequence = 2, pk_ack = 0, pk_scenario_id = 1, pk_confirmed_frame = 0,
        pk_inputs = [scripted_input 1 0 PB], pk_confirmed_hashes = [], pk_hello = None\<rparr> rt = (Inl e, rt')
    \<and> err_code e = EC_rollback_window_exceeded"
proof -
  let ?c = default_peer_config and ?cfg = "(default_session_config PA)\<lparr>cfg_max_rollback_frames := 1\<rparr>"
  let ?pkt = "\<lparr>pk_protocol_version = 1, pk_type = pt_input, pk_sender = PB,
        pk_sequence = 2, pk_ack = 0, pk_scenario_id = 1, pk_confirmed_frame = 0,
        pk_inputs = [scripted_input 1 0 PB], pk_confirmed_hashes = [], pk_hello = None\<rparr>"
  have c: "pc_id ?c = PA" "pc_scenario_seed ?c = 1" "pc_frame_count ?c = 120" "target ?c = 120"
    by (simp_all add: default_peer_config_def)
  have live: "live_config PA ?cfg"
    using default_config_valid(1) [of PA]
    by (simp add: live_config_def valid_config_def default_session_config_def kHistoryCapacity_def rollback_window_def)
  note n = game_numbered [of 120 1]
  have f0: "follows PA (game_of ?c) 0 (\<lambda>_. None) (make_session ?cfg)" by (rule follows_start [OF live])
  from advance_follows [OF f0 n [folded c]] c obtain s1 where
    s1: "follows PA (game_of ?c) (Suc 0) (\<lambda>_. None) s1" "s_config s1 = ?cfg"
    by (auto simp: make_session_def)
  from advance_follows [OF s1(1) n [folded c]] c s1(2) obtain s2 where
    s2: "follows PA (game_of ?c) 2 (\<lambda>_. None) s2" "s_config s2 = ?cfg"
    by (auto simp: numeral_2_eq_2)
  let ?rt = "\<lparr>pr_session = s2, pr_sequences = make_sequence_window,
      pr_desync = make_desync_tracker 1, pr_local_history = take 2 (game_of ?c PA), pr_remote_final_hash = None,
      pr_metrics = undefined, pr_next_sequence = 2, pr_correction = default_peer_correction, pr_diagnostic = None\<rparr>"
  have rt: "runtime_ok ?c 2 ?rt" using s2(1) c by (auto simp: runtime_ok_def)
  have x: "scripted_input 1 0 PB = game 1 120 PB ! 0" by (simp add: game_nth)
  have "scripted_input 1 0 PB \<in> set (game 1 120 PB)" unfolding x by (rule nth_mem) simp
  then have h: "honest (game_of ?c) (target ?c) (other_peer (pc_id ?c)) ?pkt"
    by (simp add: honest_def c other_peer_def)
  have "in_frame (scripted_input 1 0 PB) = 0" using numberedD(3) [OF n, of 0 PB] by (simp add: x)
  then have "unat (in_frame (scripted_input 1 0 PB)) + rollback_window (s_config (pr_session ?rt)) < 2"
    by (simp add: s2(2) rollback_window_def)
  from repeated_input_beyond_window [OF rt h _ this] rt show ?thesis by auto
qed

end
