(* ===== verification/CApi.thy ===== *)
theory CApi
  imports Peer
begin

text \<open>
  The C interface: \<open>c_api/rollback_lab_c.h\<close>, \<open>src/c_api/internal.hpp\<close>, \<open>session_api.cpp\<close>,
  \<open>live_api.cpp\<close> and \<open>udp_api.cpp\<close>.

  A pointer argument is \<open>None\<close> for \<open>NULL\<close>. Objects with an identity (sessions, live runs and UDP peers)
  live in stores from addresses to records, so that two arguments can be the same session and a
  driver's borrowed session stays visible to queries. A pointer that is neither null nor live is undefined in C; the
  model treats it like null. A struct that a call reads or fills is passed with the header that
  the call checks, and the call returns the new contents, or nothing when it leaves the struct as it was.
  Every call also knows the calling thread. The exception boundary (no memory left) is not modelled.
\<close>

section \<open>Status codes\<close>

type_synonym rl_status = u32

definition RL_OK :: rl_status where "RL_OK = 0"
definition RL_INVALID_ARGUMENT :: rl_status where "RL_INVALID_ARGUMENT = 1"
definition RL_ABI_VERSION :: rl_status where "RL_ABI_VERSION = 2"
definition RL_STRUCT_SIZE :: rl_status where "RL_STRUCT_SIZE = 3"
definition RL_INVALID_PEER :: rl_status where "RL_INVALID_PEER = 4"
definition RL_INVALID_FRAME :: rl_status where "RL_INVALID_FRAME = 5"
definition RL_STALE_FRAME :: rl_status where "RL_STALE_FRAME = 6"
definition RL_ROLLBACK_WINDOW :: rl_status where "RL_ROLLBACK_WINDOW = 7"
definition RL_BUFFER_TOO_SMALL :: rl_status where "RL_BUFFER_TOO_SMALL = 8"
definition RL_INTERNAL_FAILURE :: rl_status where "RL_INTERNAL_FAILURE = 9"
definition RL_WRONG_THREAD :: rl_status where "RL_WRONG_THREAD = 10"
definition RL_BORROWED :: rl_status where "RL_BORROWED = 11"
definition RL_CAPACITY :: rl_status where "RL_CAPACITY = 12"
definition RL_TIMEOUT :: rl_status where "RL_TIMEOUT = 13"
definition RL_DESYNC :: rl_status where "RL_DESYNC = 14"
definition RL_IO :: rl_status where "RL_IO = 15"
definition RL_REPLAY_MISMATCH :: rl_status where "RL_REPLAY_MISMATCH = 16"
definition RL_NETWORK_VERSION :: rl_status where "RL_NETWORK_VERSION = 17"
definition RL_HANDSHAKE_PROFILE :: rl_status where "RL_HANDSHAKE_PROFILE = 18"
definition RL_PACKET :: rl_status where "RL_PACKET = 19"

lemmas rl_codes = RL_OK_def RL_INVALID_ARGUMENT_def RL_ABI_VERSION_def RL_STRUCT_SIZE_def
  RL_INVALID_PEER_def RL_INVALID_FRAME_def RL_STALE_FRAME_def RL_ROLLBACK_WINDOW_def
  RL_BUFFER_TOO_SMALL_def RL_INTERNAL_FAILURE_def RL_WRONG_THREAD_def RL_BORROWED_def
  RL_CAPACITY_def RL_TIMEOUT_def RL_DESYNC_def RL_IO_def RL_REPLAY_MISMATCH_def
  RL_NETWORK_VERSION_def RL_HANDSHAKE_PROFILE_def RL_PACKET_def

definition RL_API_VERSION :: u32 where "RL_API_VERSION = 1"
definition RL_PEER_A :: u32 where "RL_PEER_A = 0"
definition RL_PEER_B :: u32 where "RL_PEER_B = 1"
definition RL_VARIANT_DAMAGE_BIAS :: u32 where "RL_VARIANT_DAMAGE_BIAS = 1"
definition RL_CAPABILITIES :: u64 where "RL_CAPABILITIES = 1 OR 2 OR 4 OR 8"

fun to_status :: "ErrorCode \<Rightarrow> rl_status" where
  "to_status EC_none = RL_OK"
| "to_status EC_internal_failure = RL_INTERNAL_FAILURE"
| "to_status EC_invalid_argument = RL_INVALID_ARGUMENT"
| "to_status EC_frame_mismatch = RL_INVALID_FRAME"
| "to_status EC_stale_frame = RL_STALE_FRAME"
| "to_status EC_rollback_window_exceeded = RL_ROLLBACK_WINDOW"
| "to_status EC_unsupported_version = RL_ABI_VERSION"
| "to_status EC_capacity_exceeded = RL_CAPACITY"
| "to_status EC_queue_overflow = RL_CAPACITY"
| "to_status EC_timeout = RL_TIMEOUT"
| "to_status EC_desync = RL_DESYNC"
| "to_status EC_replay_mismatch = RL_REPLAY_MISMATCH"
| "to_status EC_io_error = RL_IO"
| "to_status _ = RL_INTERNAL_FAILURE"

section \<open>Structs\<close>

text \<open>
  The two header fields of every struct, and the sizes on a 64-bit target with natural alignment.
\<close>

record Header =
  hd_api_version :: u32
  hd_struct_size :: u32

definition size_session_config :: u32 where "size_session_config = 24"
definition size_input_frame :: u32 where "size_input_frame = 24"
definition size_world_snapshot :: u32 where "size_world_snapshot = 2144"
definition size_advance_result :: u32 where "size_advance_result = 24"
definition size_correction_result :: u32 where "size_correction_result = 24"
definition size_metrics :: u32 where "size_metrics = 48"
definition size_frame_result :: u32 where "size_frame_result = 16"
definition size_hash_result :: u32 where "size_hash_result = 24"
definition size_version_info :: u32 where "size_version_info = 88"
definition size_live_config :: u32 where "size_live_config = 72"
definition size_live_step_result :: u32 where "size_live_step_result = 24"
definition size_live_correction :: u32 where "size_live_correction = 4312"
definition size_udp_config :: u32 where "size_udp_config = 72"
definition size_udp_step_result :: u32 where "size_udp_step_result = 32"

definition validate :: "u32 \<Rightarrow> Header option \<Rightarrow> rl_status" where
  "validate size_of v =
     (case v of
        None \<Rightarrow> RL_INVALID_ARGUMENT
      | Some h \<Rightarrow>
          if hd_api_version h \<noteq> RL_API_VERSION then RL_ABI_VERSION
          else if hd_struct_size h \<noteq> size_of then RL_STRUCT_SIZE
          else RL_OK)"

definition initialized :: "u32 \<Rightarrow> Header" where
  "initialized size_of = \<lparr>hd_api_version = RL_API_VERSION, hd_struct_size = size_of\<rparr>"

record rl_session_config =
  sf_header :: Header
  sf_local_peer :: u32
  sf_max_rollback_frames :: u32
  sf_simulation_variant :: u32
  sf_reserved :: u32

record rl_input_frame =
  if_header :: Header
  if_frame :: u32
  if_sequence :: u32
  if_peer :: u32
  if_buttons :: u8
  if_reserved :: "u8 list"

record rl_player_snapshot =
  pn_peer :: u32
  pn_x :: i32
  pn_y :: i32
  pn_velocity_x :: i32
  pn_velocity_y :: i32
  pn_hp :: i16
  pn_facing_x :: i8
  pn_facing_y :: i8
  pn_score :: u16
  pn_attack_cooldown :: u16

record rl_projectile_snapshot =
  jn_stable_id :: u32
  jn_owner :: u32
  jn_x :: i32
  jn_y :: i32
  jn_velocity_x :: i32
  jn_velocity_y :: i32
  jn_ttl :: u16
  jn_active :: u8

record rl_world_snapshot =
  wn_header :: Header
  wn_state_hash :: u64
  wn_frame :: u32
  wn_next_projectile_id :: u32
  wn_player_count :: u32
  wn_projectile_capacity :: u32
  wn_players :: "rl_player_snapshot list"
  wn_projectiles :: "rl_projectile_snapshot list"

record rl_advance_result =
  vr_header :: Header
  vr_state_hash :: u64
  vr_simulated_frame :: u32
  vr_predicted_remote :: u32

record rl_correction_result =
  cn_header :: Header
  cn_performed :: u32
  cn_rollback_from :: u32
  cn_resimulated_frames :: u32

record rl_metrics =
  mn_header :: Header
  mn_total_resimulated_frames :: u64
  mn_predicted_input_count :: u64
  mn_late_input_count :: u64
  mn_rollback_count :: u32
  mn_maximum_rollback_depth :: u32
  mn_confirmed_frame :: u32

record rl_frame_result =
  fr_header :: Header
  fr_frame :: u32

record rl_hash_result =
  hr_header :: Header
  hr_state_hash :: u64
  hr_frame :: u32

record rl_version_info =
  vi_header :: Header
  vi_sdk_major :: u32
  vi_sdk_minor :: u32
  vi_sdk_patch :: u32
  vi_simulation_version :: u32
  vi_protocol_version :: u32
  vi_replay_version :: u32
  vi_capabilities :: u64
  vi_source_git_sha :: string

definition bool_u32 :: "bool \<Rightarrow> u32" where "bool_u32 b = (if b then 1 else 0)"

definition player_snapshot :: "PlayerState \<Rightarrow> rl_player_snapshot" where
  "player_snapshot p =
     \<lparr>pn_peer = ucast (player_value (ps_id p)), pn_x = ps_x p, pn_y = ps_y p,
      pn_velocity_x = ps_velocity_x p, pn_velocity_y = ps_velocity_y p, pn_hp = ps_hp p,
      pn_facing_x = ps_facing_x p, pn_facing_y = ps_facing_y p, pn_score = ps_score p,
      pn_attack_cooldown = ps_attack_cooldown p\<rparr>"

definition projectile_snapshot :: "ProjectileState \<Rightarrow> rl_projectile_snapshot" where
  "projectile_snapshot p =
     \<lparr>jn_stable_id = pj_stable_id p, jn_owner = ucast (player_value (pj_owner p)), jn_x = pj_x p,
      jn_y = pj_y p, jn_velocity_x = pj_velocity_x p, jn_velocity_y = pj_velocity_y p,
      jn_ttl = pj_ttl p, jn_active = (if pj_active p then 1 else 0)\<rparr>"

definition copy_snapshot :: "WorldState \<Rightarrow> rl_world_snapshot" where
  "copy_snapshot world =
     \<lparr>wn_header = initialized size_world_snapshot, wn_state_hash = hash_canonical world,
      wn_frame = ws_frame world, wn_next_projectile_id = ws_next_projectile_id world,
      wn_player_count = 2, wn_projectile_capacity = 64,
      wn_players = map player_snapshot (ws_players world),
      wn_projectiles = map projectile_snapshot (ws_projectiles world)\<rparr>"

text \<open>The cast of a validated peer number.\<close>

definition peer_of_value :: "u32 \<Rightarrow> PlayerId" where
  "peer_of_value v = (if v = RL_PEER_A then PA else PB)"

definition native_input :: "rl_input_frame \<Rightarrow> InputFrame" where
  "native_input v =
     \<lparr>in_frame = if_frame v, in_player = peer_of_value (if_peer v), in_sequence = if_sequence v,
      in_buttons = if_buttons v\<rparr>"

definition validate_input :: "rl_input_frame option \<Rightarrow> rl_status" where
  "validate_input v =
     (let status = validate size_input_frame (map_option if_header v) in
      if status \<noteq> RL_OK then status
      else if if_peer (the v) > RL_PEER_B then RL_INVALID_PEER
      else if if_buttons (the v) AND 0xE0 \<noteq> 0 \<or> (\<exists>b \<in> set (if_reserved (the v)). b \<noteq> 0)
      then RL_INVALID_ARGUMENT
      else RL_OK)"

section \<open>Objects\<close>

type_synonym ThreadId = nat

record rl_session =
  rs_native :: RollbackSession
  rs_owner :: ThreadId
  rs_local_peer :: u32
  rs_borrowed :: bool
  rs_touched :: bool

type_synonym Sessions = "nat \<Rightarrow> rl_session option"

definition lookup_ptr :: "nat option \<Rightarrow> (nat \<Rightarrow> 'a option) \<Rightarrow> 'a option" where
  "lookup_ptr p store = (case p of None \<Rightarrow> None | Some a \<Rightarrow> store a)"

definition check_session :: "ThreadId \<Rightarrow> rl_session option \<Rightarrow> bool \<Rightarrow> rl_status" where
  "check_session thread session mutation =
     (case session of
        None \<Rightarrow> RL_INVALID_ARGUMENT
      | Some s \<Rightarrow>
          if rs_owner s \<noteq> thread then RL_WRONG_THREAD
          else if mutation \<and> rs_borrowed s then RL_BORROWED
          else RL_OK)"

text \<open>The first check of a row that fails, in the order of the code's early returns.\<close>

fun first_failure :: "rl_status list \<Rightarrow> rl_status" where
  "first_failure [] = RL_OK"
| "first_failure (s # ss) = (if s \<noteq> RL_OK then s else first_failure ss)"

section \<open>Sessions\<close>

definition rl_get_version :: "BuildInfo \<Rightarrow> Header option \<Rightarrow> rl_status \<times> rl_version_info option" where
  "rl_get_version build output =
     (let status = validate size_version_info output in
      if status \<noteq> RL_OK then (status, None)
      else (RL_OK, Some
        \<lparr>vi_header = initialized size_version_info, vi_sdk_major = 0, vi_sdk_minor = 2, vi_sdk_patch = 0,
         vi_simulation_version = kSimulationVersion, vi_protocol_version = kProtocolVersion,
         vi_replay_version = kReplayVersion, vi_capabilities = RL_CAPABILITIES,
         vi_source_git_sha = take 40 (bi_git_sha build)\<rparr>))"

text \<open>
  \<open>create\<close> also returns what it leaves in \<open>*output\<close>, when it writes there: null after an error. The
  address of the new object is the caller's choice of a free one.
\<close>

definition native_session_config :: "rl_session_config \<Rightarrow> SessionConfig" where
  "native_session_config c =
     \<lparr>cfg_local_peer = peer_of_value (sf_local_peer c), cfg_initial_state = make_initial_world,
      cfg_max_rollback_frames = sf_max_rollback_frames c,
      cfg_variant = ucast (sf_simulation_variant c)\<rparr>"

definition rl_session_create :: "ThreadId \<Rightarrow> nat \<Rightarrow> rl_session_config option \<Rightarrow> bool \<Rightarrow> Sessions
    \<Rightarrow> rl_status \<times> nat option option \<times> Sessions" where
  "rl_session_create thread addr config has_output store =
     (if \<not> has_output then (RL_INVALID_ARGUMENT, None, store)
      else
        (let status = validate size_session_config (map_option sf_header config) in
         if status \<noteq> RL_OK then (status, Some None, store)
         else if sf_local_peer (the config) > RL_PEER_B then (RL_INVALID_PEER, Some None, store)
         else if sf_max_rollback_frames (the config) = 0
            \<or> sf_max_rollback_frames (the config) > kDefaultMaxRollbackFrames
            \<or> sf_simulation_variant (the config) > RL_VARIANT_DAMAGE_BIAS
            \<or> sf_reserved (the config) \<noteq> 0
         then (RL_INVALID_ARGUMENT, Some None, store)
         else (RL_OK, Some (Some addr),
               store(addr \<mapsto> \<lparr>rs_native = make_session (native_session_config (the config)),
                 rs_owner = thread, rs_local_peer = sf_local_peer (the config),
                 rs_borrowed = False, rs_touched = False\<rparr>))))"

definition rl_session_destroy :: "ThreadId \<Rightarrow> nat option \<Rightarrow> Sessions \<Rightarrow> rl_status \<times> Sessions" where
  "rl_session_destroy thread session store =
     (let status = check_session thread (lookup_ptr session store) True in
      if status \<noteq> RL_OK then (status, store) else (RL_OK, store(the session := None)))"

definition rl_session_advance :: "ThreadId \<Rightarrow> nat option \<Rightarrow> rl_input_frame option \<Rightarrow> Header option
    \<Rightarrow> Sessions \<Rightarrow> rl_status \<times> rl_advance_result option \<times> Sessions" where
  "rl_session_advance thread session input output store =
     (let so = lookup_ptr session store;
          status = first_failure [check_session thread so True, validate_input input,
                                  validate size_advance_result output]
      in if status \<noteq> RL_OK then (status, None, store)
         else
           (let s = the so in
            if if_peer (the input) \<noteq> rs_local_peer s then (RL_INVALID_PEER, None, store)
            else if if_frame (the input) \<noteq> ws_frame (sr_state (session_report (rs_native s)))
            then (RL_INVALID_FRAME, None, store)
            else
              (case advance (native_input (the input)) (rs_native s) of
                 (Inl e, native) \<Rightarrow>
                   (to_status (err_code e), None, store(the session \<mapsto> s\<lparr>rs_native := native\<rparr>))
               | (Inr result, native) \<Rightarrow>
                   (RL_OK,
                    Some \<lparr>vr_header = initialized size_advance_result,
                          vr_state_hash = ar_state_hash result,
                          vr_simulated_frame = ar_simulated_frame result,
                          vr_predicted_remote = bool_u32 (ar_predicted_remote result)\<rparr>,
                    store(the session \<mapsto> s\<lparr>rs_native := native, rs_touched := True\<rparr>)))))"

definition rl_session_ingest_remote :: "ThreadId \<Rightarrow> nat option \<Rightarrow> rl_input_frame option
    \<Rightarrow> Sessions \<Rightarrow> rl_status \<times> Sessions" where
  "rl_session_ingest_remote thread session input store =
     (let so = lookup_ptr session store;
          status = first_failure [check_session thread so True, validate_input input]
      in if status \<noteq> RL_OK then (status, store)
         else
           (let s = the so;
                current = ws_frame (sr_state (session_report (rs_native s)));
                remote = if_frame (the input)
            in if if_peer (the input) = rs_local_peer s then (RL_INVALID_PEER, store)
               else if remote \<noteq> current \<and> \<not> frame_before remote current then (RL_INVALID_FRAME, store)
               else
                 (case ingest_remote (native_input (the input)) (rs_native s) of
                    (Inl e, native) \<Rightarrow>
                      (to_status (err_code e), store(the session \<mapsto> s\<lparr>rs_native := native\<rparr>))
                  | (Inr _, native) \<Rightarrow>
                      (RL_OK, store(the session \<mapsto> s\<lparr>rs_native := native, rs_touched := True\<rparr>)))))"

definition rl_session_flush_corrections :: "ThreadId \<Rightarrow> nat option \<Rightarrow> Header option \<Rightarrow> Sessions
    \<Rightarrow> rl_status \<times> rl_correction_result option \<times> Sessions" where
  "rl_session_flush_corrections thread session output store =
     (let so = lookup_ptr session store;
          status = first_failure [check_session thread so True, validate size_correction_result output]
      in if status \<noteq> RL_OK then (status, None, store)
         else
           (let s = the so in
            case flush_corrections (rs_native s) of
              (Inl e, native) \<Rightarrow>
                (to_status (err_code e), None, store(the session \<mapsto> s\<lparr>rs_native := native\<rparr>))
            | (Inr result, native) \<Rightarrow>
                (RL_OK,
                 Some \<lparr>cn_header = initialized size_correction_result,
                       cn_performed = bool_u32 (cr_performed result),
                       cn_rollback_from = cr_rollback_from result,
                       cn_resimulated_frames = cr_resimulated_frames result\<rparr>,
                 store(the session \<mapsto> s\<lparr>rs_native := native,
                         rs_touched := rs_touched s \<or> cr_performed result\<rparr>))))"

section \<open>Queries\<close>

definition rl_session_get_snapshot :: "ThreadId \<Rightarrow> nat option \<Rightarrow> Header option \<Rightarrow> Sessions
    \<Rightarrow> rl_status \<times> rl_world_snapshot option" where
  "rl_session_get_snapshot thread session output store =
     (let so = lookup_ptr session store;
          status = first_failure [check_session thread so False, validate size_world_snapshot output]
      in if status \<noteq> RL_OK then (status, None)
         else (RL_OK, Some (copy_snapshot (sr_state (session_report (rs_native (the so)))))))"

definition rl_session_get_confirmed_frame :: "ThreadId \<Rightarrow> nat option \<Rightarrow> Header option \<Rightarrow> Sessions
    \<Rightarrow> rl_status \<times> rl_frame_result option" where
  "rl_session_get_confirmed_frame thread session output store =
     (let so = lookup_ptr session store;
          status = first_failure [check_session thread so False, validate size_frame_result output]
      in if status \<noteq> RL_OK then (status, None)
         else (RL_OK, Some \<lparr>fr_header = initialized size_frame_result,
                fr_frame = m_confirmed_frame (sr_metrics (session_report (rs_native (the so))))\<rparr>))"

definition rl_session_get_metrics :: "ThreadId \<Rightarrow> nat option \<Rightarrow> Header option \<Rightarrow> Sessions
    \<Rightarrow> rl_status \<times> rl_metrics option" where
  "rl_session_get_metrics thread session output store =
     (let so = lookup_ptr session store;
          status = first_failure [check_session thread so False, validate size_metrics output]
      in if status \<noteq> RL_OK then (status, None)
         else
           (let m = sr_metrics (session_report (rs_native (the so))) in
            (RL_OK, Some \<lparr>mn_header = initialized size_metrics,
               mn_total_resimulated_frames = m_total_resimulated_frames m,
               mn_predicted_input_count = m_predicted_input_count m,
               mn_late_input_count = m_late_input_count m,
               mn_rollback_count = m_rollback_count m,
               mn_maximum_rollback_depth = m_maximum_rollback_depth m,
               mn_confirmed_frame = m_confirmed_frame m\<rparr>)))"

definition rl_session_get_hash :: "ThreadId \<Rightarrow> nat option \<Rightarrow> Header option \<Rightarrow> Sessions
    \<Rightarrow> rl_status \<times> rl_hash_result option" where
  "rl_session_get_hash thread session output store =
     (let so = lookup_ptr session store;
          status = first_failure [check_session thread so False, validate size_hash_result output]
      in if status \<noteq> RL_OK then (status, None)
         else
           (let report = session_report (rs_native (the so)) in
            (RL_OK, Some \<lparr>hr_header = initialized size_hash_result,
               hr_state_hash = sr_final_hash report, hr_frame = ws_frame (sr_state report)\<rparr>)))"

definition rl_session_hash_at :: "ThreadId \<Rightarrow> nat option \<Rightarrow> u32 \<Rightarrow> Header option \<Rightarrow> Sessions
    \<Rightarrow> rl_status \<times> rl_hash_result option" where
  "rl_session_hash_at thread session boundary output store =
     (let so = lookup_ptr session store;
          status = first_failure [check_session thread so False, validate size_hash_result output]
      in if status \<noteq> RL_OK then (status, None)
         else
           (case hash_at (rs_native (the so)) boundary of
              Inl e \<Rightarrow> (to_status (err_code e), None)
            | Inr hash \<Rightarrow> (RL_OK, Some \<lparr>hr_header = initialized size_hash_result,
                hr_state_hash = hash, hr_frame = boundary\<rparr>)))"

text \<open>
  A text or byte buffer: whether the buffer and \<open>required\<close> are null, and the capacity. The result holds the
  new value of \<open>*required\<close> and the bytes written, if any.
\<close>

definition u32_max_size :: nat where "u32_max_size = 2 ^ 32 - 1"

definition copy_bytes :: "byte list \<Rightarrow> bool \<Rightarrow> u32 \<Rightarrow> bool
    \<Rightarrow> rl_status \<times> u32 option \<times> byte list option" where
  "copy_bytes bytes has_buffer capacity has_required =
     (if \<not> has_required \<or> (\<not> has_buffer \<and> capacity \<noteq> 0) then (RL_INVALID_ARGUMENT, None, None)
      else if length bytes > u32_max_size then (RL_CAPACITY, None, None)
      else
        (let required = of_nat (length bytes) :: u32 in
         if \<not> has_buffer \<or> capacity < required then (RL_BUFFER_TOO_SMALL, Some required, None)
         else (RL_OK, Some required, Some bytes)))"

definition copy_string :: "string \<Rightarrow> bool \<Rightarrow> u32 \<Rightarrow> bool \<Rightarrow> rl_status \<times> u32 option \<times> byte list option" where
  "copy_string s = copy_bytes (map of_char s @ [0])"

definition rl_session_serialize_state :: "ThreadId \<Rightarrow> nat option \<Rightarrow> bool \<Rightarrow> u32 \<Rightarrow> bool \<Rightarrow> Sessions
    \<Rightarrow> rl_status \<times> u32 option \<times> byte list option" where
  "rl_session_serialize_state thread session has_buffer capacity has_required store =
     (let so = lookup_ptr session store;
          status = check_session thread so False
      in if status \<noteq> RL_OK then (status, None, None)
         else if \<not> has_required \<or> (\<not> has_buffer \<and> capacity \<noteq> 0) then (RL_INVALID_ARGUMENT, None, None)
         else
           (let bytes = serialize_canonical (sr_state (session_report (rs_native (the so)))) in
            if length bytes > u32_max_size then (RL_CAPACITY, None, None)
            else
              (let required = of_nat (length bytes) :: u32 in
               if capacity < required then (RL_BUFFER_TOO_SMALL, Some required, None)
               else (RL_OK, Some required, Some bytes))))"

section \<open>Live runs\<close>

record rl_live_config =
  lf_header :: Header
  lf_scenario_seed :: u64
  lf_transport_seed :: u64
  lf_frame_count :: u32
  lf_base_latency_ticks :: u32
  lf_jitter_ticks :: u32
  lf_loss_percent :: u32
  lf_reorder_percent :: u32
  lf_duplicate_percent :: u32
  lf_burst_loss_percent :: u32
  lf_max_queue_packets :: u32
  lf_max_queue_bytes :: u32
  lf_bandwidth_bytes_per_tick :: u32
  lf_max_packet_age_ticks :: u32
  lf_tail_redundancy_ticks :: u32

record rl_live_step_result =
  lr_header :: Header
  lr_logical_tick :: u32
  lr_finished :: u32
  lr_desync_detected :: u32
  lr_earliest_divergent_frame :: u32

record rl_live_correction =
  ln_header :: Header
  ln_performed :: u32
  ln_rollback_from :: u32
  ln_resimulated_frames :: u32
  ln_before :: rl_world_snapshot
  ln_after :: rl_world_snapshot

record rl_live =
  rv_a :: nat
  rv_b :: nat
  rv_native :: LiveScenario
  rv_owner :: ThreadId
  rv_finished :: bool
  rv_failure :: rl_status

type_synonym Lives = "nat \<Rightarrow> rl_live option"

definition check_live :: "ThreadId \<Rightarrow> rl_live option \<Rightarrow> rl_status" where
  "check_live thread live =
     (case live of
        None \<Rightarrow> RL_INVALID_ARGUMENT
      | Some l \<Rightarrow> if rv_owner l = thread then RL_OK else RL_WRONG_THREAD)"

definition validate_live_config :: "rl_live_config option \<Rightarrow> rl_status" where
  "validate_live_config config =
     (let status = validate size_live_config (map_option lf_header config);
          c = the config
      in if status \<noteq> RL_OK then status
         else if lf_frame_count c = 0 \<or> lf_frame_count c > 36000
            \<or> lf_base_latency_ticks c > 10000 \<or> lf_jitter_ticks c > 10000
            \<or> lf_loss_percent c > 100 \<or> lf_reorder_percent c > 100
            \<or> lf_duplicate_percent c > 100 \<or> lf_burst_loss_percent c > 100
            \<or> lf_max_queue_packets c = 0 \<or> lf_max_queue_packets c > 65536
            \<or> lf_max_queue_bytes c = 0 \<or> lf_max_queue_bytes c > push_bit 20 64
            \<or> lf_bandwidth_bytes_per_tick c = 0 \<or> lf_bandwidth_bytes_per_tick c > push_bit 20 64
            \<or> lf_max_packet_age_ticks c = 0 \<or> lf_max_packet_age_ticks c > 100000
            \<or> lf_tail_redundancy_ticks c > 4096
         then RL_INVALID_ARGUMENT
         else RL_OK)"

definition native_live_config :: "rl_live_config \<Rightarrow> ScenarioRunConfig" where
  "native_live_config c =
     default_scenario_config
       \<lparr>sc_scenario_seed := lf_scenario_seed c, sc_transport_seed := lf_transport_seed c,
        sc_frame_count := lf_frame_count c, sc_tail_redundancy_ticks := lf_tail_redundancy_ticks c,
        sc_capture_trace := True,
        sc_transport := default_transport_config
          \<lparr>tc_base_latency_ticks := lf_base_latency_ticks c, tc_jitter_ticks := lf_jitter_ticks c,
           tc_loss_percent := lf_loss_percent c, tc_reorder_percent := lf_reorder_percent c,
           tc_duplicate_percent := lf_duplicate_percent c,
           tc_burst_loss_percent := lf_burst_loss_percent c,
           tc_max_queue_packets := unat (lf_max_queue_packets c),
           tc_max_queue_bytes := unat (lf_max_queue_bytes c),
           tc_bandwidth_bytes_per_tick := unat (lf_bandwidth_bytes_per_tick c),
           tc_max_packet_age_ticks := lf_max_packet_age_ticks c\<rparr>\<rparr>"

definition set_borrowed :: "bool \<Rightarrow> nat \<Rightarrow> Sessions \<Rightarrow> Sessions" where
  "set_borrowed b p store = store(p := map_option (\<lambda>s. s\<lparr>rs_borrowed := b\<rparr>) (store p))"

definition rl_live_create :: "BuildInfo \<Rightarrow> ThreadId \<Rightarrow> nat \<Rightarrow> rl_live_config option \<Rightarrow> nat option \<Rightarrow> nat option
    \<Rightarrow> bool \<Rightarrow> Sessions \<Rightarrow> Lives \<Rightarrow> rl_status \<times> nat option option \<times> Sessions \<times> Lives" where
  "rl_live_create build thread addr config a b has_output store lives =
     (if \<not> has_output then (RL_INVALID_ARGUMENT, None, store, lives)
      else
        (let sa = lookup_ptr a store;
             sb = lookup_ptr b store;
             status = first_failure [validate_live_config config, check_session thread sa True,
                                     check_session thread sb True]
         in if status \<noteq> RL_OK then (status, Some None, store, lives)
            else if a = b \<or> rs_local_peer (the sa) \<noteq> RL_PEER_A \<or> rs_local_peer (the sb) \<noteq> RL_PEER_B
            then (RL_INVALID_PEER, Some None, store, lives)
            else if rs_touched (the sa) \<or> rs_touched (the sb) then (RL_INVALID_FRAME, Some None, store, lives)
            else
              (case create_live build (native_live_config (the config)) False
                      (rs_native (the sa)) (rs_native (the sb)) of
                 Inl e \<Rightarrow> (to_status (err_code e), Some None, store, lives)
               | Inr native \<Rightarrow>
                   (RL_OK, Some (Some addr),
                    set_borrowed True (the b) (set_borrowed True (the a) store),
                    lives(addr \<mapsto> \<lparr>rv_a = the a, rv_b = the b, rv_native = native, rv_owner = thread,
                                  rv_finished = False, rv_failure = RL_OK\<rparr>)))))"

definition rl_live_destroy :: "ThreadId \<Rightarrow> nat option \<Rightarrow> Sessions \<Rightarrow> Lives \<Rightarrow> rl_status \<times> Sessions \<times> Lives" where
  "rl_live_destroy thread live store lives =
     (let lo = lookup_ptr live lives;
          status = check_live thread lo
      in if status \<noteq> RL_OK then (status, store, lives)
         else (RL_OK, set_borrowed False (rv_b (the lo)) (set_borrowed False (rv_a (the lo)) store),
               lives(the live := None)))"

text \<open>The run works on the sessions in the store.\<close>

definition set_native :: "nat \<Rightarrow> RollbackSession \<Rightarrow> Sessions \<Rightarrow> Sessions" where
  "set_native p native store =
     store(p := map_option (\<lambda>s. s\<lparr>rs_native := native, rs_touched := True\<rparr>) (store p))"

definition attach :: "rl_live \<Rightarrow> Sessions \<Rightarrow> LiveScenario" where
  "attach l store =
     (rv_native l)\<lparr>lv_peer_a := rs_native (the (store (rv_a l))),
                   lv_peer_b := rs_native (the (store (rv_b l)))\<rparr>"

definition rl_live_step :: "BuildInfo \<Rightarrow> ThreadId \<Rightarrow> nat option \<Rightarrow> u32 \<Rightarrow> u32 \<Rightarrow> Header option
    \<Rightarrow> Sessions \<Rightarrow> Lives \<Rightarrow> rl_status \<times> rl_live_step_result option \<times> Sessions \<times> Lives" where
  "rl_live_step build thread live override_local_input local_buttons output store lives =
     (let lo = lookup_ptr live lives;
          status = first_failure [check_live thread lo, validate size_live_step_result output];
          l = the lo
      in if status \<noteq> RL_OK then (status, None, store, lives)
         else if override_local_input > 1 \<or> local_buttons > 31
         then (RL_INVALID_ARGUMENT, None, store, lives)
         else if rv_failure l \<noteq> RL_OK then (rv_failure l, None, store, lives)
         else
           (let (step, native) =
                  step_live build (if override_local_input \<noteq> 0 then Some (ucast local_buttons) else None)
                    (attach l store);
                store = set_native (rv_b l) (lv_peer_b native) (set_native (rv_a l) (lv_peer_a native) store)
            in case step of
                 Inl e \<Rightarrow>
                   (to_status (err_code e), None, store,
                    lives(the live \<mapsto> l\<lparr>rv_native := native, rv_failure := to_status (err_code e)\<rparr>))
               | Inr fin \<Rightarrow>
                   (let marker = tx_desync (sa_trace (lv_artifacts native)) in
                    (RL_OK,
                     Some \<lparr>lr_header = initialized size_live_step_result,
                           lr_logical_tick = logical_tick native, lr_finished = bool_u32 fin,
                           lr_desync_detected = bool_u32 (marker \<noteq> None),
                           lr_earliest_divergent_frame =
                             (case marker of None \<Rightarrow> 0 | Some m \<Rightarrow> dm_frame m)\<rparr>,
                     store,
                     lives(the live \<mapsto> l\<lparr>rv_native := native, rv_failure := RL_OK, rv_finished := fin\<rparr>)))))"

definition native_correction :: "CorrectionResult \<Rightarrow> WorldState \<Rightarrow> WorldState \<Rightarrow> rl_live_correction" where
  "native_correction result before after =
     \<lparr>ln_header = initialized size_live_correction, ln_performed = bool_u32 (cr_performed result),
      ln_rollback_from = cr_rollback_from result,
      ln_resimulated_frames = cr_resimulated_frames result,
      ln_before = copy_snapshot before, ln_after = copy_snapshot after\<rparr>"

definition rl_live_get_correction :: "ThreadId \<Rightarrow> nat option \<Rightarrow> u32 \<Rightarrow> Header option \<Rightarrow> Lives
    \<Rightarrow> rl_status \<times> rl_live_correction option" where
  "rl_live_get_correction thread live peer output lives =
     (let lo = lookup_ptr live lives;
          status = first_failure [check_live thread lo, validate size_live_correction output]
      in if status \<noteq> RL_OK then (status, None)
         else if peer > RL_PEER_B then (RL_INVALID_PEER, None)
         else
           (let c = correction_of (peer_of_value peer) (rv_native (the lo)) in
            (RL_OK, Some (native_correction (lc_result c) (lc_before c) (lc_after c)))))"

definition rl_live_copy_report :: "ThreadId \<Rightarrow> nat option \<Rightarrow> bool \<Rightarrow> u32 \<Rightarrow> bool \<Rightarrow> Lives
    \<Rightarrow> rl_status \<times> u32 option \<times> byte list option" where
  "rl_live_copy_report thread live has_buffer capacity has_required lives =
     (let lo = lookup_ptr live lives;
          status = check_live thread lo
      in if status \<noteq> RL_OK then (status, None, None)
         else if \<not> rv_finished (the lo) then (RL_INVALID_FRAME, None, None)
         else copy_string (report_json (sa_report (lv_artifacts (rv_native (the lo)))))
                has_buffer capacity has_required)"

definition rl_live_copy_trace :: "ThreadId \<Rightarrow> nat option \<Rightarrow> bool \<Rightarrow> u32 \<Rightarrow> bool \<Rightarrow> Lives
    \<Rightarrow> rl_status \<times> u32 option \<times> byte list option" where
  "rl_live_copy_trace thread live has_buffer capacity has_required lives =
     (let lo = lookup_ptr live lives;
          status = check_live thread lo
      in if status \<noteq> RL_OK then (status, None, None)
         else
           (case trace_json (sa_trace (lv_artifacts (rv_native (the lo)))) of
              Inl e \<Rightarrow> (to_status (err_code e), None, None)
            | Inr json \<Rightarrow> copy_string json has_buffer capacity has_required))"

definition rl_live_copy_replay :: "ThreadId \<Rightarrow> nat option \<Rightarrow> bool \<Rightarrow> u32 \<Rightarrow> bool \<Rightarrow> Lives
    \<Rightarrow> rl_status \<times> u32 option \<times> byte list option" where
  "rl_live_copy_replay thread live has_buffer capacity has_required lives =
     (let lo = lookup_ptr live lives;
          status = check_live thread lo
      in if status \<noteq> RL_OK then (status, None, None)
         else if \<not> rv_finished (the lo) then (RL_INVALID_FRAME, None, None)
         else
           (case encode_replay (sa_replay (lv_artifacts (rv_native (the lo)))) of
              Inl e \<Rightarrow> (to_status (err_code e), None, None)
            | Inr bytes \<Rightarrow> copy_bytes bytes has_buffer capacity has_required))"

section \<open>UDP peers\<close>

record rl_udp_config =
  uf_header :: Header
  uf_scenario_seed :: u64
  uf_transport_seed :: u64
  uf_frame_count :: u32
  uf_listen_port :: u32
  uf_relay_port :: u32
  uf_handshake_timeout_ms :: u32
  uf_run_timeout_ms :: u32
  uf_advertised_protocol_version :: u32
  uf_advertised_simulation_version :: u32
  uf_advertised_abi_profile_version :: u32
  uf_reserved :: "u32 list"

record rl_udp_step_result =
  ur_header :: Header
  ur_logical_tick :: u32
  ur_phase :: u32
  ur_finished :: u32
  ur_handshake_complete :: u32
  ur_desync_detected :: u32
  ur_earliest_divergent_frame :: u32

record rl_udp_peer =
  rp_session :: nat
  rp_native :: PeerDriver
  rp_failure :: rl_status
  rp_observation :: rl_udp_step_result

type_synonym Peers = "nat \<Rightarrow> rl_udp_peer option"

definition check_peer :: "ThreadId \<Rightarrow> rl_udp_peer option \<Rightarrow> Sessions \<Rightarrow> rl_status" where
  "check_peer thread peer store =
     (case peer of
        None \<Rightarrow> RL_INVALID_ARGUMENT
      | Some p \<Rightarrow> check_session thread (store (rp_session p)) False)"

definition network_status :: "Error \<Rightarrow> rl_status" where
  "network_status e =
     (if err_context e = ''udp_engine_profile'' then RL_HANDSHAKE_PROFILE
      else if err_code e = EC_unsupported_version then RL_NETWORK_VERSION
      else if err_context e \<in> {''udp_relay_source'', ''peer_packet_identity'', ''udp_hello_identity''}
      then RL_PACKET
      else if err_code e \<in> {EC_invalid_magic, EC_unknown_packet_type, EC_truncated_data,
                            EC_invalid_length, EC_integrity_mismatch}
      then RL_PACKET
      else to_status (err_code e))"

definition validate_udp_config :: "rl_udp_config option \<Rightarrow> rl_status" where
  "validate_udp_config config =
     (let status = validate size_udp_config (map_option uf_header config);
          c = the config
      in if status \<noteq> RL_OK then status
         else if uf_frame_count c = 0 \<or> uf_frame_count c > 240 \<or> uf_listen_port c > 65535
            \<or> uf_relay_port c = 0 \<or> uf_relay_port c > 65535 \<or> uf_listen_port c = uf_relay_port c
            \<or> uf_handshake_timeout_ms c = 0 \<or> uf_handshake_timeout_ms c > 60000
            \<or> uf_run_timeout_ms c = 0 \<or> uf_run_timeout_ms c > 60000
            \<or> uf_advertised_protocol_version c > 65535 \<or> (\<exists>x \<in> set (uf_reserved c). x \<noteq> 0)
         then RL_INVALID_ARGUMENT
         else RL_OK)"

definition native_udp_config :: "rl_udp_config \<Rightarrow> u32 \<Rightarrow> PeerConfig" where
  "native_udp_config c local_peer =
     default_peer_config
       \<lparr>pc_id := peer_of_value local_peer, pc_scenario_seed := uf_scenario_seed c,
        pc_transport_seed := uf_transport_seed c, pc_frame_count := uf_frame_count c,
        pc_listen_port := ucast (uf_listen_port c), pc_relay_port := ucast (uf_relay_port c),
        pc_handshake_timeout_milliseconds := uf_handshake_timeout_ms c,
        pc_run_timeout_milliseconds := uf_run_timeout_ms c,
        pc_protocol_version_override :=
          ucast (if uf_advertised_protocol_version c \<noteq> 0 then uf_advertised_protocol_version c
                 else kProtocolVersion),
        pc_simulation_version_override :=
          (if uf_advertised_simulation_version c \<noteq> 0 then uf_advertised_simulation_version c
           else kSimulationVersion),
        pc_engine_abi_version := RL_API_VERSION,
        pc_advertised_abi_version := uf_advertised_abi_profile_version c\<rparr>"

definition initial_observation :: rl_udp_step_result where
  "initial_observation =
     \<lparr>ur_header = initialized size_udp_step_result, ur_logical_tick = 0, ur_phase = 0, ur_finished = 0,
      ur_handshake_complete = 0, ur_desync_detected = 0, ur_earliest_divergent_frame = 0\<rparr>"

definition observe_peer :: "PeerDriver \<Rightarrow> rl_udp_step_result \<Rightarrow> rl_udp_step_result" where
  "observe_peer d obs =
     obs\<lparr>ur_logical_tick := pt_logical_tick (pd_observation d),
         ur_phase := of_nat (peer_phase_value (pd_phase d)),
         ur_finished := bool_u32 (pd_phase d = PP_finished),
         ur_handshake_complete := bool_u32 (pt_handshake_complete (pd_observation d))\<rparr>"

definition rl_udp_peer_create :: "'s Host \<Rightarrow> ThreadId \<Rightarrow> nat \<Rightarrow> rl_udp_config option \<Rightarrow> nat option \<Rightarrow> bool
    \<Rightarrow> Sessions \<Rightarrow> Peers \<Rightarrow> 's \<Rightarrow> (rl_status \<times> nat option option \<times> Sessions \<times> Peers) \<times> 's" where
  "rl_udp_peer_create os thread addr config session has_output store peers w =
     (if \<not> has_output then ((RL_INVALID_ARGUMENT, None, store, peers), w)
      else
        (let so = lookup_ptr session store;
             status = first_failure [validate_udp_config config, check_session thread so True]
         in if status \<noteq> RL_OK then ((status, Some None, store, peers), w)
            else if rs_touched (the so) then ((RL_INVALID_FRAME, Some None, store, peers), w)
            else
              (case create_driver os (native_udp_config (the config) (rs_local_peer (the so)))
                      (rs_native (the so)) w of
                 (Inl e, w) \<Rightarrow> ((network_status e, Some None, store, peers), w)
               | (Inr native, w) \<Rightarrow>
                   ((RL_OK, Some (Some addr), set_borrowed True (the session) store,
                     peers(addr \<mapsto> \<lparr>rp_session = the session, rp_native = native, rp_failure = RL_OK,
                                   rp_observation = initial_observation\<rparr>)), w))))"

definition rl_udp_peer_destroy :: "'s Host \<Rightarrow> ThreadId \<Rightarrow> nat option \<Rightarrow> Sessions \<Rightarrow> Peers \<Rightarrow> 's
    \<Rightarrow> (rl_status \<times> Sessions \<times> Peers) \<times> 's" where
  "rl_udp_peer_destroy os thread peer store peers w =
     (let po = lookup_ptr peer peers;
          status = check_peer thread po store
      in if status \<noteq> RL_OK then ((status, store, peers), w)
         else ((RL_OK, set_borrowed False (rp_session (the po)) store, peers(the peer := None)),
               (case pd_socket (rp_native (the po)) of
                  None \<Rightarrow> w
                | Some impl \<Rightarrow> os_close os (si_socket impl) w)))"

text \<open>The driver works on the session in the store.\<close>

definition attach_peer :: "rl_udp_peer \<Rightarrow> Sessions \<Rightarrow> PeerDriver" where
  "attach_peer p store =
     (rp_native p)\<lparr>pd_runtime := (pd_runtime (rp_native p))
        \<lparr>pr_session := rs_native (the (store (rp_session p)))\<rparr>\<rparr>"

definition keep_session :: "nat \<Rightarrow> RollbackSession \<Rightarrow> bool \<Rightarrow> Sessions \<Rightarrow> Sessions" where
  "keep_session p native touch store =
     store(p := map_option (\<lambda>s. s\<lparr>rs_native := native, rs_touched := rs_touched s \<or> touch\<rparr>) (store p))"

definition rl_udp_peer_step :: "BuildInfo \<Rightarrow> 's Host \<Rightarrow> ThreadId \<Rightarrow> nat option \<Rightarrow> u64 \<Rightarrow> Header option
    \<Rightarrow> Sessions \<Rightarrow> Peers \<Rightarrow> 's \<Rightarrow> (rl_status \<times> rl_udp_step_result option \<times> Sessions \<times> Peers) \<times> 's" where
  "rl_udp_peer_step build os thread peer elapsed output store peers w =
     (let po = lookup_ptr peer peers;
          status = first_failure [check_peer thread po store, validate size_udp_step_result output];
          p = the po
      in if status \<noteq> RL_OK then ((status, None, store, peers), w)
         else if rp_failure p \<noteq> RL_OK then ((rp_failure p, Some (rp_observation p), store, peers), w)
         else
           (case peer_step build os elapsed (attach_peer p store) w of
              (Inl e, native, w) \<Rightarrow>
                (let s = network_status e;
                     store = keep_session (rp_session p) (pd_session native) False store
                 in if err_context e = ''udp_clock_reversed''
                    then ((s, None, store, peers(the peer \<mapsto> p\<lparr>rp_native := native, rp_failure := RL_OK\<rparr>)), w)
                    else
                      (let obs = (observe_peer native (rp_observation p))
                             \<lparr>ur_desync_detected := bool_u32 (s = RL_DESYNC),
                              ur_earliest_divergent_frame :=
                                (if s = RL_DESYNC then of_nat (err_offset e) else 0)\<rparr>
                       in ((s, Some obs, store,
                            peers(the peer \<mapsto> p\<lparr>rp_native := native, rp_failure := s,
                                              rp_observation := obs\<rparr>)), w)))
            | (Inr _, native, w) \<Rightarrow>
                (let obs = observe_peer native (rp_observation p) in
                 ((RL_OK, Some obs, keep_session (rp_session p) (pd_session native) True store,
                   peers(the peer \<mapsto> p\<lparr>rp_native := native, rp_failure := RL_OK,
                                     rp_observation := obs\<rparr>)), w))))"

definition rl_udp_peer_get_correction :: "ThreadId \<Rightarrow> nat option \<Rightarrow> Header option \<Rightarrow> Sessions \<Rightarrow> Peers
    \<Rightarrow> rl_status \<times> rl_live_correction option" where
  "rl_udp_peer_get_correction thread peer output store peers =
     (let po = lookup_ptr peer peers;
          status = first_failure [check_peer thread po store, validate size_live_correction output]
      in if status \<noteq> RL_OK then (status, None)
         else
           (let c = pr_correction (pd_runtime (rp_native (the po))) in
            (RL_OK, Some (native_correction (pcr_result c) (pcr_before c) (pcr_after c)))))"

definition rl_udp_peer_copy_report :: "ThreadId \<Rightarrow> nat option \<Rightarrow> bool \<Rightarrow> u32 \<Rightarrow> bool \<Rightarrow> Sessions \<Rightarrow> Peers
    \<Rightarrow> rl_status \<times> u32 option \<times> byte list option" where
  "rl_udp_peer_copy_report thread peer has_buffer capacity has_required store peers =
     (let po = lookup_ptr peer peers;
          status = check_peer thread po store
      in if status \<noteq> RL_OK then (status, None, None)
         else if pd_phase (rp_native (the po)) \<noteq> PP_finished then (RL_INVALID_FRAME, None, None)
         else copy_string (pa_report (pd_artifacts (rp_native (the po)))) has_buffer capacity has_required)"

definition rl_udp_peer_copy_replay :: "ThreadId \<Rightarrow> nat option \<Rightarrow> bool \<Rightarrow> u32 \<Rightarrow> bool \<Rightarrow> Sessions \<Rightarrow> Peers
    \<Rightarrow> rl_status \<times> u32 option \<times> byte list option" where
  "rl_udp_peer_copy_replay thread peer has_buffer capacity has_required store peers =
     (let po = lookup_ptr peer peers;
          status = check_peer thread po store
      in if status \<noteq> RL_OK then (status, None, None)
         else if pd_phase (rp_native (the po)) \<noteq> PP_finished then (RL_INVALID_FRAME, None, None)
         else copy_bytes (pa_replay (pd_artifacts (rp_native (the po)))) has_buffer capacity has_required)"

definition rl_udp_peer_copy_failure :: "BuildInfo \<Rightarrow> ThreadId \<Rightarrow> nat option \<Rightarrow> bool \<Rightarrow> u32 \<Rightarrow> bool
    \<Rightarrow> Sessions \<Rightarrow> Peers \<Rightarrow> rl_status \<times> u32 option \<times> byte list option" where
  "rl_udp_peer_copy_failure build thread peer has_buffer capacity has_required store peers =
     (let po = lookup_ptr peer peers;
          status = check_peer thread po store
      in if status \<noteq> RL_OK then (status, None, None)
         else copy_string (''{\"sdk_status\":'' @ dec_word (rp_failure (the po)) @ '',''
                @ drop 1 (failure_json build (rp_native (the po)))) has_buffer capacity has_required)"

end
