(* ===== verification/LiveRun.thy ===== *)
theory LiveRun
  imports Convergence
begin

text \<open>
  The properties of whole runs of \<open>LiveScenario\<close> and \<open>run_seeded_scenario\<close>. \<open>live_reach\<close> is the
  set of drivers that any sequence of \<open>step\<close> calls, with any buttons, can produce from two fresh
  sessions. For canonical sessions the invariant of \<open>Convergence\<close> holds in all of them. The
  driver's own protocol (an error is repeated for ever, a finished run stays finished, an
  undefined button is refused without a step) and the fact that the loop of the runner never ends
  by exhaustion hold for every variant.
\<close>

inductive live_reach :: "BuildInfo \<Rightarrow> ScenarioRunConfig \<Rightarrow> SessionConfig \<Rightarrow> SessionConfig
    \<Rightarrow> LiveScenario \<Rightarrow> bool" for build config cfgA cfgB where
  created: "create_live build config False (make_session cfgA) (make_session cfgB) = Inr st
    \<Longrightarrow> live_reach build config cfgA cfgB st"
| stepped: "live_reach build config cfgA cfgB st \<Longrightarrow> step_live build b st = (r, st')
    \<Longrightarrow> live_reach build config cfgA cfgB st'"

section \<open>The invariant holds in every driver\<close>

lemma create_ticks:
  assumes "create_live build config same a b = Inr st"
  shows "0 < unat (sc_frame_count config)" "unat (sc_frame_count config) \<le> kMaxReplayFrames"
    and "unat (sc_frame_count config) + unat (sc_tail_redundancy_ticks config) + 32 < 4294967296"
    and "st = make_storage build config a b"
    and "s_state a = make_initial_world" "s_state b = make_initial_world"
proof -
  let ?fc = "sc_frame_count config" and ?tail = "sc_tail_redundancy_ticks config"
  have c: "?fc \<noteq> 0" "unat ?fc \<le> kMaxReplayFrames" "\<not> ?tail > - 1 - ?fc - 32"
      "st = make_storage build config a b" "s_state a = make_initial_world" "s_state b = make_initial_world"
    using assms by (auto simp: create_live_def session_report_def split: if_splits)
  then show "0 < unat ?fc" "unat ?fc \<le> kMaxReplayFrames" "st = make_storage build config a b"
      "s_state a = make_initial_world" "s_state b = make_initial_world"
    by (simp_all add: unat_gt_0)
  have "- 1 - ?fc - 32 = (of_nat (4294967263 - unat ?fc) :: u32)"
    using c(2) by (simp add: kMaxReplayFrames_def)
  then have "unat (- 1 - ?fc - 32) = 4294967263 - unat ?fc"
    by (simp add: unat_of_nat_u32)
  then show "unat ?fc + unat ?tail + 32 < 4294967296"
    using c(2,3) by (simp add: kMaxReplayFrames_def word_less_nat_alt)
qed

lemma make_storage_fields:
  "lv_config (make_storage build config a b) = config" "lv_tick_index (make_storage build config a b) = 0"
  "lv_failure (make_storage build config a b) = None" "\<not> lv_finished (make_storage build config a b)"
  "no_desync (make_storage build config a b)"
  "sa_desync_diagnostic (lv_artifacts (make_storage build config a b)) = None"
  by (simp_all add: make_storage_def Let_def no_desync_def make_desync_tracker_def)

lemma make_storage_inv:
  assumes A: "live_config PA cfgA" and B: "live_config PB cfgB" and fc: "0 < unat (sc_frame_count config)"
  shows "tick_inv 0 (\<lambda>_ _. None) (make_storage build config (make_session cfgA) (make_session cfgB))"
proof -
  let ?st = "make_storage build config (make_session cfgA) (make_session cfgB)"
  have h: "hist ?st = (\<lambda>_. [])" by (intro ext) (simp add: hist_def make_storage_def Let_def)
  have "follows p H 0 (\<lambda>_. None) (peer_of p ?st)" for p H
    using follows_start [OF A] follows_start [OF B]
    by (cases p) (simp_all add: peer_of_def make_storage_def Let_def)
  then have "peers_ok (hist ?st) 0 (\<lambda>_ _. None) ?st"
    by (simp add: peers_ok_def make_storage_def Let_def make_desync_tracker_def)
  moreover have "network_ok H 0 (lv_transport ?st)" for H
    using make_transport_inv [of "seeded_config config"]
    by (simp add: network_ok_def make_storage_def Let_def in_flight_def make_transport_def)
  moreover have "numbered (hist ?st) 0" by (simp add: numbered_def h)
  moreover have "truth (hist ?st) 0 = Inr (lv_replay_state ?st)"
    by (simp add: truth_def make_storage_def Let_def)
  moreover have "trace_inv 0 ?st"
    by (simp add: trace_inv_def make_storage_def Let_def empty_trace_def)
  moreover have "replay_so_far H 0 (sc_frame_count (lv_config ?st)) (replay_of ?st)" for H
    by (simp add: replay_so_far_def make_storage_def Let_def default_replay_def replay_versions_ok_def
        kReplayVersion_def kSimulationVersion_def kProtocolVersion_def)
  ultimately show ?thesis
    using fc by (simp add: tick_inv_def make_storage_fields)
qed

lemma step_live_cases:
  assumes "step_live build b st = (r, st')"
  obtains (failed) e where "lv_failure st = Some e" "r = Inl e" "st' = st"
    | (complete) "lv_failure st = None" "lv_finished st" "r = Inr True" "st' = st"
    | (refused) buttons where "lv_failure st = None" "\<not> lv_finished st" "b = Some buttons"
        "r = failure EC_invalid_argument (ucast buttons) 0 ''live_buttons''" "st' = st"
    | (broken) e st1 where "lv_failure st = None" "\<not> lv_finished st" "defined_buttons b"
        "step_once build b st = (Inl e, st1)" "r = Inl e" "st' = st1\<lparr>lv_failure := Some e\<rparr>"
    | (moved) completed st1 where "lv_failure st = None" "\<not> lv_finished st" "defined_buttons b"
        "step_once build b st = (Inr completed, st1)" "r = Inr completed" "st' = st1\<lparr>lv_finished := completed\<rparr>"
proof (cases "lv_failure st")
  case (Some e)
  then have "step_live build b st = (Inl e, st)" by (simp add: step_live_def)
  with assms have "r = Inl e" "st' = st" by simp_all
  with Some show ?thesis by (rule failed)
next
  case None
  note running = None
  show ?thesis
  proof (cases "lv_finished st")
    case True
    then have "step_live build b st = (Inr True, st)" using running by (simp add: step_live_def)
    with assms have "r = Inr True" "st' = st" by simp_all
    with running True show ?thesis by (rule complete)
  next
    case False
    show ?thesis
    proof (cases "defined_buttons b")
      case False
      then obtain buttons where "b = Some buttons" "buttons AND 0xE0 \<noteq> 0"
        by (auto simp: defined_buttons_def split: option.splits)
      then have "step_live build b st
          = (failure EC_invalid_argument (ucast buttons) 0 ''live_buttons'', st)"
        using running \<open>\<not> lv_finished st\<close> by (simp add: step_live_def)
      with assms have "r = failure EC_invalid_argument (ucast buttons) 0 ''live_buttons''" "st' = st"
        by simp_all
      with running \<open>\<not> lv_finished st\<close> \<open>b = Some buttons\<close> show ?thesis by (rule refused)
    next
      case True
      then have "(case b of Some buttons \<Rightarrow> if buttons AND 0xE0 \<noteq> 0 then Some buttons else None
          | None \<Rightarrow> None) = None" by (cases b) (simp_all add: defined_buttons_def)
      then have eq: "step_live build b st = (case step_once build b st of
          (Inl e, st) \<Rightarrow> (Inl e, st\<lparr>lv_failure := Some e\<rparr>)
        | (Inr completed, st) \<Rightarrow> (Inr completed, st\<lparr>lv_finished := completed\<rparr>))"
        using running \<open>\<not> lv_finished st\<close> by (simp add: step_live_def)
      obtain r1 st1 where s1: "step_once build b st = (r1, st1)" by fastforce
      show ?thesis
      proof (cases r1)
        case (Inl e)
        have "r = Inl e" "st' = st1\<lparr>lv_failure := Some e\<rparr>" using assms eq s1 Inl by simp_all
        with running \<open>\<not> lv_finished st\<close> True s1 [unfolded Inl] show ?thesis by (rule broken)
      next
        case (Inr completed)
        have "r = Inr completed" "st' = st1\<lparr>lv_finished := completed\<rparr>" using assms eq s1 Inr by simp_all
        with running \<open>\<not> lv_finished st\<close> True s1 [unfolded Inr] show ?thesis by (rule moved)
      qed
    qed
  qed
qed

lemma converged_finished [simp]: "converged (st\<lparr>lv_finished := f\<rparr>) = converged st"
  by (simp add: converged_def Let_def)

lemma live_inv_finished [simp]: "live_inv (st\<lparr>lv_finished := f\<rparr>) = live_inv st"
  by (simp add: live_inv_def total_ticks_def tick_inv_def peers_ok_def trace_inv_def)

lemma no_desync_updates [simp]:
  "no_desync (st\<lparr>lv_finished := f\<rparr>) = no_desync st" "no_desync (st\<lparr>lv_failure := e\<rparr>) = no_desync st"
  by (simp_all add: no_desync_def)

lemma live_inv_no_desync: "live_inv st \<Longrightarrow> no_desync st"
  by (auto simp: live_inv_def tick_inv_def intro: peers_ok_no_desync)

lemma step_live_status:
  assumes s: "live_status st" and r: "step_live build b st = (r, st')"
  shows "live_status st' \<and> lv_config st' = lv_config st
    \<and> (\<forall>e. r = Inl e \<longrightarrow> run_error e) \<and> (r = Inr True \<longrightarrow> converged st' \<and> lv_finished st')
    \<and> (r = Inr False \<longrightarrow> lv_failure st' = None \<and> \<not> lv_finished st' \<and> live_inv st'
        \<and> lv_tick_index st' = lv_tick_index st + 1)"
  using r
proof (cases rule: step_live_cases)
  case failed
  with s show ?thesis by (simp add: live_status_def)
next
  case complete
  with s show ?thesis by (simp add: live_status_def)
next
  case refused
  with s show ?thesis by (simp add: run_error_def live_error_def)
next
  case (broken e st1)
  with s have i: "live_inv st" "sa_desync_diagnostic (lv_artifacts st) = None" by (simp_all add: live_status_def)
  from step_once_ok [OF i broken(3,4)] broken show ?thesis by (simp add: live_status_def)
next
  case (moved completed st1)
  with s have i: "live_inv st" "sa_desync_diagnostic (lv_artifacts st) = None" by (simp_all add: live_status_def)
  from step_once_ok [OF i moved(3,4)] moved show ?thesis
    by (cases completed) (simp_all add: live_status_def)
qed

lemma live_reach_status:
  assumes "live_reach build config cfgA cfgB st" and A: "live_config PA cfgA" and B: "live_config PB cfgB"
  shows "live_status st \<and> lv_config st = config"
  using assms(1)
proof (induction rule: live_reach.induct)
  case (created st)
  note c = create_ticks [OF created]
  have "live_inv st"
    using make_storage_inv [OF A B c(1), of build] c(1-4)
    by (auto simp: live_inv_def make_storage_fields total_ticks_def)
  then show ?case using c(4) by (simp add: live_status_def make_storage_fields)
next
  case (stepped st b r st')
  then show ?case using step_live_status by blast
qed

section \<open>The driver's clock, for every variant\<close>

lemma status_core_simps [simp]:
  "status_core (set_trace tx st) = status_core st" "status_core (set_receiver ep s st) = status_core st"
  "status_core (set_replay rp st) = status_core st" "status_core (sample_frame f st) = status_core st"
  "status_core (record_correction ep s w cr st) = status_core st"
  "status_core (clear_performed st) = status_core st"
  by (simp_all add: set_trace_def set_receiver_def set_replay_def sample_frame_def record_correction_def
      clear_performed_def Let_def status_core_def)

lemma status_core_peers: "status_core (st\<lparr>lv_peer_a := a, lv_peer_b := b\<rparr>) = status_core st"
  by (simp add: status_core_def)

lemma note_desync_status: "status_core (note_desync ep h l w st) = status_core st"
proof -
  obtain d tr where o: "observe_hashes \<lparr>ho_frame = ch_frame h, ho_hash = l, ho_confirmed = True\<rparr>
      \<lparr>ho_frame = ch_frame h, ho_hash = ch_hash h, ho_confirmed = True\<rparr>
      (peer_diagnostic_inputs (receiver_at ep st) (ch_frame h)) w
      (if ep = EP_a then lv_desync_a st else lv_desync_b st) = (d, tr)" by fastforce
  have "status_core (if ep = EP_a then st\<lparr>lv_desync_a := tr\<rparr> else st\<lparr>lv_desync_b := tr\<rparr>) = status_core st"
    by (simp add: status_core_def)
  then show ?thesis by (cases d) (simp_all add: note_desync_def Let_def o)
qed

lemma compare_hashes_status: "status_core (compare_hashes ep hs st) = status_core st"
  by (induction hs arbitrary: st) (simp_all add: note_desync_status split: sum.splits)

lemma accept_packet_status: "accept_packet ep pkt st = (r, st') \<Longrightarrow> status_core st' = status_core st"
  by (auto simp: accept_packet_def Let_def compare_hashes_status split: prod.splits sum.splits)

lemma process_delivery_status:
  assumes "process_delivery d st = (r, st')"
  shows "status_core st' = status_core st"
proof (cases "decode_packet (dl_bytes d)")
  case (Inl e)
  with assms show ?thesis by (simp add: process_delivery_def)
next
  case (Inr pkt)
  obtain disposition w where o: "observe (pk_sequence pkt) (if dl_to d = EP_a then lv_at_a st else lv_at_b st)
      = (disposition, w)" by fastforce
  define st1 where "st1 = (if dl_to d = EP_a then st\<lparr>lv_at_a := w\<rparr> else st\<lparr>lv_at_b := w\<rparr>)"
  define st2 where "st2 = (if capturing st1
     then set_trace (push_packet_event
            \<lparr>pe_tick = dl_delivered_at d, pe_kind = PTK_delivered, pe_from = dl_from d, pe_to = dl_to d,
             pe_sequence = pk_sequence pkt\<rparr> (trace_of st1)) st1
     else st1)"
  have "status_core st1 = status_core st" by (simp add: st1_def status_core_def)
  then have s2: "status_core st2 = status_core st" by (simp add: st2_def)
  have "process_delivery d st = (if filtered disposition then (Inr (), st2)
      else accept_packet (dl_to d) pkt st2)"
    by (simp add: process_delivery_def Inr Let_def o filtered_def st2_def st1_def)
  then show ?thesis using assms s2 accept_packet_status [of "dl_to d" pkt st2 r st'] by (auto split: if_splits)
qed

lemma process_deliveries_status:
  "process_deliveries ds st = (r, st') \<Longrightarrow> status_core st' = status_core st"
proof (induction ds arbitrary: st)
  case (Cons d ds)
  obtain r1 st1 where s1: "process_delivery d st = (r1, st1)" by fastforce
  with Cons process_delivery_status [OF s1] show ?case by (cases r1) auto
qed simp

lemma process_tick_status: "process_tick tick st = (r, st') \<Longrightarrow> status_core st' = status_core st"
  by (auto simp: process_tick_def status_core_def dest!: process_deliveries_status split: prod.splits)

lemma exchange_packets_status:
  assumes "exchange_packets tick st = (r, st')"
  shows "status_core st' = status_core st"
proof -
  let ?seed = "sc_scenario_seed (lv_config st)"
  define pa where "pa = make_packet (lv_peer_a st) (lv_history_a st) ?seed (lv_sequence_a st)"
  define pb where "pb = make_packet (lv_peer_b st) (lv_history_b st) ?seed (lv_sequence_b st)"
  obtain ra t1 tx1 where a: "send_packet (capturing st) pa EP_a EP_b tick (lv_transport st) (trace_of st)
      = (ra, t1, tx1)" by (metis prod_cases3)
  obtain rb t2 tx2 where b: "send_packet (capturing st) pb EP_b EP_a tick t1 tx1 = (rb, t2, tx2)"
    by (metis prod_cases3)
  define st1 where "st1 = set_trace tx2 (st\<lparr>lv_sequence_a := lv_sequence_a st + 1,
    lv_sequence_b := lv_sequence_b st + 1, lv_transport := t2\<rparr>)"
  have "status_core st1 = status_core st" unfolding st1_def status_core_simps by (simp add: status_core_def)
  moreover have "exchange_packets tick st = (case (ra, rb) of (Inl e, _) \<Rightarrow> (Inl e, st1)
      | (Inr _, Inl e) \<Rightarrow> (Inl e, st1) | (Inr _, Inr _) \<Rightarrow> process_tick tick st1)"
    using a b by (cases ra; cases rb) (simp_all add: exchange_packets_def Let_def pa_def pb_def st1_def)
  ultimately show ?thesis using assms process_tick_status [of tick st1 r st'] by (auto split: sum.splits)
qed

lemma advance_peers_status: "advance_peers f x y st = (r, st') \<Longrightarrow> status_core st' = status_core st"
  by (auto simp: advance_peers_def Let_def status_core_peers split: prod.splits sum.splits if_splits)

lemma play_frame_status:
  assumes "play_frame b st = (r, st')"
  shows "status_core st' = status_core st"
proof -
  let ?f = "lv_tick_index st" and ?seed = "sc_scenario_seed (lv_config st)"
  let ?a = "frame_input b ?seed ?f PA" and ?b = "frame_input b ?seed ?f PB"
  show ?thesis
  proof (cases "simulate_frame (lv_replay_state st) ?f \<lparr>pair_a = ?a, pair_b = ?b\<rparr> variant_canonical")
    case (Inl e)
    have "(case b of Some buttons \<Rightarrow> (scripted_input ?seed ?f PA)\<lparr>in_buttons := buttons\<rparr>
        | None \<Rightarrow> scripted_input ?seed ?f PA) = ?a" "scripted_input ?seed ?f PB = ?b"
      by (cases b; simp add: frame_input_def)+
    with assms Inl show ?thesis
      by (auto simp: play_frame_def Let_def status_core_def set_replay_def)
  next
    case (Inr direct)
    obtain r1 st1 where x: "exchange_packets ?f (frame_start b st direct) = (r1, st1)" by fastforce
    have s1: "status_core st1 = status_core st" using exchange_packets_status [OF x] frame_start_status by metis
    show ?thesis
    proof (cases r1)
      case (Inl e)
      with assms x have "st' = st1" by (simp add: play_frame_step [OF Inr])
      with s1 show ?thesis by simp
    next
      case fine: (Inr u)
      with assms x have "advance_peers ?f ?a ?b st1 = (r, st')" by (simp add: play_frame_step [OF Inr])
      from advance_peers_status [OF this] s1 show ?thesis by simp
    qed
  qed
qed

lemma run_tick_status: "run_tick b st = (r, st') \<Longrightarrow> status_core st' = status_core st"
  by (auto simp: run_tick_def Let_def tail_tick_def drain_tick_def split: if_splits
      dest: play_frame_status exchange_packets_status process_tick_status)

lemma finalize_never_False: "finalize build st \<noteq> (Inr False, st')"
  by (auto simp: finalize_def Let_def split: prod.splits sum.splits if_splits)

lemma step_once_clock:
  assumes "step_once build b st = (Inr False, st')"
  shows "lv_config st' = lv_config st \<and> lv_tick_index st' = lv_tick_index st + 1
    \<and> lv_failure st' = lv_failure st
    \<and> lv_tick_index st' \<noteq> sc_frame_count (lv_config st) + sc_tail_redundancy_ticks (lv_config st) + 32"
proof -
  obtain r1 st1 where t: "run_tick b (clear_performed st) = (r1, st1)" by fastforce
  from run_tick_status [OF t] have "status_core st1 = status_core st" by simp
  note s = status_coreD [OF this]
  from assms t s finalize_never_False [of build "st1\<lparr>lv_tick_index := lv_tick_index st + 1\<rparr>" st'] show ?thesis
    by (cases r1) (auto simp: step_once_def Let_def split: if_splits)
qed

text \<open>The runner's loop ends in a step that completes or fails, before it is exhausted.\<close>

lemma run_steps_clock:
  assumes "live_reach build config cfgA cfgB st" "lv_failure st = None" "\<not> lv_finished st"
    and "total_ticks st < 4294967296" "unat (lv_tick_index st) + n = total_ticks st" "0 < n"
  shows "\<exists>r st' st''. live_reach build config cfgA cfgB st'' \<and> step_live build None st'' = (r, st')
    \<and> (r = Inr True \<and> run_steps build n st = Inr (lv_artifacts st')
       \<or> (\<exists>e. r = Inl e \<and> run_steps build n st = Inl e))"
  using assms
proof (induction n arbitrary: st)
  case (Suc n)
  obtain r st1 where s: "step_live build None st = (r, st1)" by fastforce
  show ?case
  proof (cases r)
    case (Inl e)
    with s Suc.prems(1) show ?thesis by (intro exI conjI) auto
  next
    case (Inr completed)
    show ?thesis
    proof (cases completed)
      case True
      with s Inr Suc.prems(1) show ?thesis by (intro exI conjI) auto
    next
      case False
      with s Inr have s1: "step_live build None st = (Inr False, st1)" by simp
      have "\<exists>st2. step_once build None st = (Inr False, st2) \<and> st1 = st2\<lparr>lv_finished := False\<rparr>"
        using s1 by (cases rule: step_live_cases) (use Suc.prems(2,3) in simp_all)
      then obtain st2 where st2: "step_once build None st = (Inr False, st2)"
        "st1 = st2\<lparr>lv_finished := False\<rparr>" by blast
      from step_once_clock [OF st2(1)] st2(2) have c: "lv_config st1 = lv_config st"
        "lv_tick_index st1 = lv_tick_index st + 1" "lv_failure st1 = None" "\<not> lv_finished st1"
        using Suc.prems(2) by simp_all
      have "lv_tick_index st1 = lv_tick_index st2" using st2(2) by simp
      then have c5: "lv_tick_index st1 \<noteq> sc_frame_count (lv_config st) + sc_tail_redundancy_ticks (lv_config st) + 32"
        using step_once_clock [OF st2(1)] by argo
      have tick: "unat (lv_tick_index st1) = Suc (unat (lv_tick_index st))"
        using c(2) Suc.prems(4,5) by (simp add: unat_Suc_tick)
      have tt: "total_ticks st1 = total_ticks st" using c(1) by (simp add: total_ticks_def)
      have "unat (lv_tick_index st1) \<noteq> total_ticks st"
        using c5 unat_total_ticks [OF Suc.prems(4)] unfolding word_unat_eq_iff by simp
      then have "0 < n" using tick Suc.prems(5) by simp
      moreover have "live_reach build config cfgA cfgB st1" using live_reach.stepped [OF Suc.prems(1) s] .
      moreover have "run_steps build (Suc n) st = run_steps build n st1" using s Inr False by simp
      ultimately show ?thesis using Suc.IH [of st1] c tick tt Suc.prems(4,5) by simp
    qed
  qed
qed simp

section \<open>Properties of whole runs\<close>

lemma default_live_config:
  "live_config PA (default_session_config PA)"
  "live_config PB ((default_session_config PB)\<lparr>cfg_variant := variant_canonical\<rparr>)"
  using default_config_valid(1)
  by (simp_all add: live_config_def valid_config_def rollback_window_def default_session_config_def)

definition seeded_peer_b :: "ScenarioRunConfig \<Rightarrow> SessionConfig" where
  "seeded_peer_b config = (default_session_config PB)\<lparr>cfg_variant := sc_peer_b_variant config\<rparr>"

lemma run_seeded_steps:
  assumes "create_live build config False (make_session (default_session_config PA))
      (make_session (seeded_peer_b config)) = Inr st"
  shows "\<exists>r st' st''. live_reach build config (default_session_config PA) (seeded_peer_b config) st''
    \<and> step_live build None st'' = (r, st')
    \<and> (r = Inr True \<and> run_seeded_scenario build config = Inr (lv_artifacts st')
       \<or> (\<exists>e. r = Inl e \<and> run_seeded_scenario build config = Inl e))"
proof -
  note c = create_ticks [OF assms]
  have t: "total_ticks st < 4294967296" "unat (lv_tick_index st) + total_ticks st = total_ticks st"
    "0 < total_ticks st" "lv_failure st = None" "\<not> lv_finished st" "lv_config st = config"
    using c(1-4) by (simp_all add: make_storage_fields total_ticks_def)
  have "run_seeded_scenario build config = run_steps build (total_ticks st) st"
    using assms unat_total_ticks [OF t(1)] t(6)
    by (simp add: run_seeded_scenario_def seeded_peer_b_def Let_def)
  with run_steps_clock [OF live_reach.created [OF assms] t(4,5,1,2,3)] show ?thesis by simp
qed

text \<open>
  C3. A run of two canonical peers never reports a desync, whatever the network does to the
  packets and whichever buttons are supplied: neither tracker ever holds a diagnostic and none is
  published. A reported desync therefore always means that the simulations differ.
\<close>

theorem live_run_never_desyncs:
  assumes "live_reach build config cfgA cfgB st" "live_config PA cfgA" "live_config PB cfgB"
  shows "dt_diagnostic (lv_desync_a st) = None \<and> dt_diagnostic (lv_desync_b st) = None
    \<and> sa_desync_diagnostic (lv_artifacts st) = None"
  using live_reach_status [OF assms] by (simp add: live_status_def no_desync_def)

definition sample_build :: BuildInfo where
  "sample_build = \<lparr>bi_git_sha = ''unavailable'', bi_build_type = ''Release'', bi_compiler = ''GCC'', bi_os = ''Linux''\<rparr>"

lemma sample_created:
  "\<exists>st. create_live build default_scenario_config False (make_session (default_session_config PA))
     (make_session (seeded_peer_b default_scenario_config)) = Inr st"
  by (simp add: create_live_def default_scenario_config_def kMaxReplayFrames_def session_report_def
      make_session_def default_session_config_def seeded_peer_b_def)

theorem live_run_never_desyncs_witness:
  "\<exists>st r st'. live_reach sample_build default_scenario_config (default_session_config PA)
        ((default_session_config PB)\<lparr>cfg_variant := variant_canonical\<rparr>) st
     \<and> step_live sample_build (Some 16) st = (r, st') \<and> dt_diagnostic (lv_desync_b st') = None"
proof -
  from sample_created obtain st where c: "create_live sample_build default_scenario_config False
      (make_session (default_session_config PA))
      (make_session ((default_session_config PB)\<lparr>cfg_variant := variant_canonical\<rparr>)) = Inr st"
    by (auto simp: seeded_peer_b_def default_scenario_config_def)
  obtain r st' where s: "step_live sample_build (Some 16) st = (r, st')" by fastforce
  note l = live_reach.created [OF c]
  from live_run_never_desyncs [OF live_reach.stepped [OF l s] default_live_config] l s show ?thesis by blast
qed

text \<open>
  C5. What a step of a canonical run can return. When it reports completion, both peers are in
  the state that simulating all inputs in order gives, everything is confirmed, the hashes, the
  replay and the report agree with that state and the replay verifies. Otherwise the run goes on,
  or it fails for one of four reasons: a refused argument, a full transport queue, an input older
  than the rollback window, or inputs that never arrived.
\<close>

theorem live_step_outcome:
  assumes "live_reach build config cfgA cfgB st" "live_config PA cfgA" "live_config PB cfgB"
    and "step_live build b st = (r, st')"
  shows "case r of
      Inr True \<Rightarrow> converged st' \<and> lv_finished st'
    | Inr False \<Rightarrow> lv_tick_index st' = lv_tick_index st + 1
    | Inl e \<Rightarrow> err_code e \<in> {EC_invalid_argument, EC_queue_overflow, EC_rollback_window_exceeded, EC_timeout}"
proof -
  from live_reach_status [OF assms(1-3)] have "live_status st" by simp
  from step_live_status [OF this assms(4)] show ?thesis
    by (auto simp: run_error_def live_error_def split: sum.splits bool.splits)
qed

theorem live_step_outcome_witness:
  "\<exists>st r st'. live_reach sample_build default_scenario_config (default_session_config PA)
        ((default_session_config PB)\<lparr>cfg_variant := variant_canonical\<rparr>) st
     \<and> step_live sample_build None st = (r, st')
     \<and> (case r of Inr True \<Rightarrow> converged st' | Inr False \<Rightarrow> lv_tick_index st' = lv_tick_index st + 1
        | Inl e \<Rightarrow> err_code e \<noteq> EC_desync)"
proof -
  from sample_created obtain st where c: "create_live sample_build default_scenario_config False
      (make_session (default_session_config PA))
      (make_session ((default_session_config PB)\<lparr>cfg_variant := variant_canonical\<rparr>)) = Inr st"
    by (auto simp: seeded_peer_b_def default_scenario_config_def)
  obtain r st' where s: "step_live sample_build None st = (r, st')" by fastforce
  note l = live_reach.created [OF c]
  from live_step_outcome [OF l default_live_config s] l s show ?thesis
    by (intro exI [of _ st] exI [of _ r] exI [of _ st'] conjI) (auto split: sum.splits bool.splits)
qed

text \<open>What the artifacts of a run of canonical peers are, its replay file included.\<close>

lemma seeded_run_artifacts:
  assumes "sc_peer_b_variant config = variant_canonical"
  shows "case run_seeded_scenario build config of
      Inr artifacts \<Rightarrow>
        rr_success (sa_report artifacts) \<and> rr_desync_result (sa_report artifacts) = ''none''
        \<and> sa_desync_diagnostic artifacts = None
        \<and> rr_confirmed_frame (sa_report artifacts) = sc_frame_count config
        \<and> rr_final_hash_a (sa_report artifacts) = rr_final_hash_b (sa_report artifacts)
        \<and> plain_replay (sa_replay artifacts)
        \<and> (\<exists>v. verify_replay (sa_replay artifacts) = Inr v
             \<and> rv_actual_final_hash v = rr_final_hash_a (sa_report artifacts))
    | Inl e \<Rightarrow> err_code e \<in> {EC_invalid_argument, EC_queue_overflow, EC_rollback_window_exceeded, EC_timeout}"
proof (cases "create_live build config False (make_session (default_session_config PA))
      (make_session (seeded_peer_b config))")
  case (Inl e)
  then have "run_seeded_scenario build config = Inl e"
    by (simp add: run_seeded_scenario_def seeded_peer_b_def Let_def)
  moreover have "err_code e = EC_invalid_argument" using Inl by (auto simp: create_live_def split: if_splits)
  ultimately show ?thesis by simp
next
  case (Inr st)
  from run_seeded_steps [OF Inr] obtain r st' st'' where
    st: "live_reach build config (default_session_config PA) (seeded_peer_b config) st''"
      "step_live build None st'' = (r, st')"
      "r = Inr True \<and> run_seeded_scenario build config = Inr (lv_artifacts st')
       \<or> (\<exists>e. r = Inl e \<and> run_seeded_scenario build config = Inl e)" by blast
  have B: "live_config PB (seeded_peer_b config)"
    using default_live_config(2) assms by (simp add: seeded_peer_b_def)
  from live_reach_status [OF st(1) default_live_config(1) B] have s: "live_status st''" "lv_config st'' = config"
    by simp_all
  from st(3) show ?thesis
  proof
    assume r: "r = Inr True \<and> run_seeded_scenario build config = Inr (lv_artifacts st')"
    with step_live_status [OF s(1) st(2)] s(2) have "converged st'" "lv_config st' = config" by simp_all
    with r show ?thesis by (auto simp: converged_def Let_def ok_iff verify_replay_spec)
  next
    assume "\<exists>e. r = Inl e \<and> run_seeded_scenario build config = Inl e"
    with step_live_status [OF s(1) st(2)] show ?thesis by (auto simp: run_error_def live_error_def)
  qed
qed

text \<open>
  C6. The result of \<open>run_seeded_scenario\<close> for canonical peers: either artifacts of a successful
  run, with equal final hashes, no desync and a replay that verifies to the same hash, or one of four errors.
\<close>

theorem seeded_run_outcome:
  assumes "sc_peer_b_variant config = variant_canonical"
  shows "case run_seeded_scenario build config of
      Inr artifacts \<Rightarrow>
        rr_success (sa_report artifacts) \<and> rr_desync_result (sa_report artifacts) = ''none''
        \<and> sa_desync_diagnostic artifacts = None
        \<and> rr_confirmed_frame (sa_report artifacts) = sc_frame_count config
        \<and> rr_final_hash_a (sa_report artifacts) = rr_final_hash_b (sa_report artifacts)
        \<and> (\<exists>v. verify_replay (sa_replay artifacts) = Inr v
             \<and> rv_actual_final_hash v = rr_final_hash_a (sa_report artifacts))
    | Inl e \<Rightarrow> err_code e \<in> {EC_invalid_argument, EC_queue_overflow, EC_rollback_window_exceeded, EC_timeout}"
  using seeded_run_artifacts [OF assms, of build] by (auto split: sum.splits)

theorem seeded_run_outcome_witness:
  "sc_peer_b_variant default_scenario_config = variant_canonical
   \<and> (case run_seeded_scenario sample_build default_scenario_config of
        Inr artifacts \<Rightarrow>
          rr_success (sa_report artifacts) \<and> rr_desync_result (sa_report artifacts) = ''none''
          \<and> rr_final_hash_a (sa_report artifacts) = rr_final_hash_b (sa_report artifacts)
      | Inl e \<Rightarrow> err_code e \<in> {EC_invalid_argument, EC_queue_overflow, EC_rollback_window_exceeded, EC_timeout})"
  using seeded_run_outcome [of default_scenario_config sample_build]
  by (cases "run_seeded_scenario sample_build default_scenario_config")
    (simp_all add: default_scenario_config_def)

text \<open>
  The loop of \<open>run_seeded_scenario\<close> is never exhausted, for any variant: whenever the driver is
  created, the result is the artifacts or the error of a step, so the \<open>live_runner\<close> timeout after
  the loop is dead code.
\<close>

theorem runner_result_from_step:
  assumes "create_live build config False (make_session (default_session_config PA))
      (make_session (seeded_peer_b config)) = Inr st"
  shows "\<exists>r st' st''. live_reach build config (default_session_config PA) (seeded_peer_b config) st''
    \<and> step_live build None st'' = (r, st')
    \<and> (r = Inr True \<and> run_seeded_scenario build config = Inr (lv_artifacts st')
       \<or> (\<exists>e. r = Inl e \<and> run_seeded_scenario build config = Inl e))"
  using assms by (rule run_seeded_steps)

theorem runner_result_from_step_witness:
  "\<exists>r st' st''. live_reach sample_build default_scenario_config (default_session_config PA)
        (seeded_peer_b default_scenario_config) st''
    \<and> step_live sample_build None st'' = (r, st')
    \<and> (r = Inr True \<and> run_seeded_scenario sample_build default_scenario_config = Inr (lv_artifacts st')
       \<or> (\<exists>e. r = Inl e \<and> run_seeded_scenario sample_build default_scenario_config = Inl e))"
proof -
  from sample_created obtain st where "create_live sample_build default_scenario_config False
    (make_session (default_session_config PA)) (make_session (seeded_peer_b default_scenario_config)) = Inr st" ..
  then show ?thesis by (rule runner_result_from_step)
qed

end
