(* ===== verification/LiveTrace.thy ===== *)
theory LiveTrace
  imports LiveRun
begin

text \<open>
  The trace of a live run. The locale \<open>trace_invariant\<close> is the interface between a predicate on the run's trace and
  trackers and the driver of \<open>src/report/scenario_runner.cpp\<close>: it names the five places where the driver touches
  them, and inside it every step is shown to preserve the predicate. Two predicates interpret it: a
  trace is marked with a desync only when a tracker holds a diagnostic, and a run that does not capture a
  trace leaves its lists empty.
\<close>

lemma set_trace_fields' [simp]:
  "lv_config (set_trace tx st) = lv_config st" "trace_of (set_trace tx st) = tx"
  "lv_desync_a (set_trace tx st) = lv_desync_a st" "lv_desync_b (set_trace tx st) = lv_desync_b st"
  "set_trace tx' (set_trace tx st) = set_trace tx' st" "set_trace (trace_of st) st = st"
  by (simp_all add: set_trace_def)

locale trace_invariant =
  fixes I :: "LiveScenario \<Rightarrow> bool"
  assumes same: "lv_config st' = lv_config st \<Longrightarrow> lv_desync_a st' = lv_desync_a st
      \<Longrightarrow> lv_desync_b st' = lv_desync_b st \<Longrightarrow> trace_of st' = trace_of st \<Longrightarrow> I st \<Longrightarrow> I st'"
    and pushed: "I st \<Longrightarrow> capturing st \<Longrightarrow> I (set_trace (push_packet_event ev (trace_of st)) st)"
    and rolled: "I st \<Longrightarrow> capturing st \<Longrightarrow> I (set_trace (record_rollback s c (trace_of st)) st)"
    and sampled: "I st \<Longrightarrow> I (sample_frame f st)"
    and noted: "I st \<Longrightarrow> I (note_desync ep h l w st)"
begin

lemma unchanged:
  assumes "I st"
  shows "I (set_receiver ep s st)" "I (set_replay rp st)" "I (clear_performed st)" "I (frame_start b st w)"
    and "I (st\<lparr>lv_peer_a := a, lv_peer_b := c\<rparr>)" "I (st\<lparr>lv_transport := t\<rparr>)"
    and "I (st\<lparr>lv_sequence_a := x, lv_sequence_b := y, lv_transport := t\<rparr>)"
    and "I (st\<lparr>lv_at_a := u\<rparr>)" "I (st\<lparr>lv_at_b := u\<rparr>)"
    and "I (st\<lparr>lv_correction_a := l\<rparr>)" "I (st\<lparr>lv_correction_b := l\<rparr>)"
    and "I (st\<lparr>lv_tick_index := i\<rparr>)" "I (st\<lparr>lv_failure := f\<rparr>)" "I (st\<lparr>lv_finished := g\<rparr>)"
  by (rule same [OF _ _ _ _ assms];
    simp add: set_receiver_def set_replay_def clear_performed_def frame_start_def Let_def)+

lemma record_correction_keeps:
  assumes "I st"
  shows "I (record_correction ep s w c st)"
proof -
  define st1 where "st1 = (if cr_performed c
    then (if ep = EP_a then st\<lparr>lv_correction_a := \<lparr>lc_result = c, lc_before = w, lc_after = s_state s\<rparr>\<rparr>
          else st\<lparr>lv_correction_b := \<lparr>lc_result = c, lc_before = w, lc_after = s_state s\<rparr>\<rparr>) else st)"
  have "I st1" using assms by (simp add: st1_def unchanged)
  moreover have "record_correction ep s w c st = (if capturing st1 \<and> cr_performed c
      then set_trace (record_rollback s c (trace_of st1)) st1 else st1)"
    by (simp add: record_correction_def Let_def st1_def)
  ultimately show ?thesis using rolled by simp
qed

lemma compare_hashes_keeps: "I st \<Longrightarrow> I (compare_hashes ep hs st)"
  by (induction hs arbitrary: st) (simp_all add: noted split: sum.splits)

lemma accept_packet_keeps: "accept_packet ep pkt st = (r, st') \<Longrightarrow> I st \<Longrightarrow> I st'"
  by (auto simp: accept_packet_def Let_def unchanged record_correction_keeps intro!: compare_hashes_keeps
      split: prod.splits sum.splits)

lemma process_delivery_keeps:
  assumes "process_delivery d st = (r, st')" "I st"
  shows "I st'"
proof (cases "decode_packet (dl_bytes d)")
  case (Inl e)
  with assms show ?thesis by (simp add: process_delivery_def)
next
  case (Inr pkt)
  obtain disposition w where o: "observe (pk_sequence pkt) (if dl_to d = EP_a then lv_at_a st else lv_at_b st)
      = (disposition, w)" by fastforce
  define st1 where "st1 = (if dl_to d = EP_a then st\<lparr>lv_at_a := w\<rparr> else st\<lparr>lv_at_b := w\<rparr>)"
  define st2 where "st2 = (if capturing st1
     then set_trace (push_packet_event
            \<lparr>pe_tick = dl_delivered_at d, pe_kind = PTK_delivered, pe_from = dl_from d, pe_to = dl_to d,
             pe_sequence = pk_sequence pkt\<rparr> (trace_of st1)) st1
     else st1)"
  have "I st1" using assms(2) by (simp add: st1_def unchanged)
  then have m: "I st2" unfolding st2_def using pushed [of st1] by auto
  have "process_delivery d st = (if filtered disposition then (Inr (), st2)
      else accept_packet (dl_to d) pkt st2)"
    by (simp add: process_delivery_def Inr Let_def o filtered_def st2_def st1_def)
  then show ?thesis using assms(1) m accept_packet_keeps [of "dl_to d" pkt st2 r st'] by (auto split: if_splits)
qed

lemma process_deliveries_keeps: "process_deliveries ds st = (r, st') \<Longrightarrow> I st \<Longrightarrow> I st'"
proof (induction ds arbitrary: st)
  case (Cons d ds)
  obtain r1 st1 where s1: "process_delivery d st = (r1, st1)" by fastforce
  with Cons process_delivery_keeps [OF s1] show ?case by (cases r1) auto
qed simp

lemma process_tick_keeps: "process_tick tick st = (r, st') \<Longrightarrow> I st \<Longrightarrow> I st'"
  by (auto simp: process_tick_def unchanged dest!: process_deliveries_keeps split: prod.splits)

lemma pushed_again: "I (set_trace tx st) \<Longrightarrow> capturing st \<Longrightarrow> I (set_trace (push_packet_event ev tx) st)"
  using pushed [of "set_trace tx st"] by simp

lemma send_packet_keeps:
  assumes "send_packet (capturing st) pkt src dst tick t tx = (r, t', tx')" "I (set_trace tx st)"
  shows "I (set_trace tx' st)"
proof -
  have "I (set_trace (record_send_effects (capturing st) tick src dst sq m m' tx) st)" for sq m m'
    using assms(2) by (simp add: record_send_effects_def Let_def pushed_again)
  with assms show ?thesis by (auto simp: send_packet_def split: sum.splits prod.splits)
qed

lemma exchange_packets_keeps:
  assumes "exchange_packets tick st = (r, st')" "I st"
  shows "I st'"
proof -
  let ?seed = "sc_scenario_seed (lv_config st)"
  define pa where "pa = make_packet (lv_peer_a st) (lv_history_a st) ?seed (lv_sequence_a st)"
  define pb where "pb = make_packet (lv_peer_b st) (lv_history_b st) ?seed (lv_sequence_b st)"
  obtain ra t1 tx1 where a: "send_packet (capturing st) pa EP_a EP_b tick (lv_transport st) (trace_of st)
      = (ra, t1, tx1)" by (metis prod_cases3)
  obtain rb t2 tx2 where b: "send_packet (capturing st) pb EP_b EP_a tick t1 tx1 = (rb, t2, tx2)"
    by (metis prod_cases3)
  define st1 where "st1 = set_trace tx2 (st\<lparr>lv_sequence_a := lv_sequence_a st + 1,
    lv_sequence_b := lv_sequence_b st + 1, lv_transport := t2\<rparr>)"
  have "I (set_trace tx2 st)" using send_packet_keeps [OF b send_packet_keeps [OF a]] assms(2) by simp
  then have m: "I st1" by (rule same [rotated 4]) (simp_all add: st1_def set_trace_def)
  have "exchange_packets tick st = (case (ra, rb) of (Inl e, _) \<Rightarrow> (Inl e, st1)
      | (Inr _, Inl e) \<Rightarrow> (Inl e, st1) | (Inr _, Inr _) \<Rightarrow> process_tick tick st1)"
    using a b by (cases ra; cases rb) (simp_all add: exchange_packets_def Let_def pa_def pb_def st1_def)
  then show ?thesis using assms(1) m process_tick_keeps [of tick st1 r st'] by (auto split: sum.splits)
qed

lemma advance_peers_keeps: "advance_peers f x y st = (r, st') \<Longrightarrow> I st \<Longrightarrow> I st'"
  by (auto simp: advance_peers_def Let_def unchanged sampled split: prod.splits sum.splits if_splits)

lemma play_frame_keeps:
  assumes "play_frame b st = (r, st')" "I st"
  shows "I st'"
proof -
  let ?f = "lv_tick_index st" and ?seed = "sc_scenario_seed (lv_config st)"
  let ?a = "frame_input b ?seed ?f PA" and ?b = "frame_input b ?seed ?f PB"
  show ?thesis
  proof (cases "simulate_frame (lv_replay_state st) ?f \<lparr>pair_a = ?a, pair_b = ?b\<rparr> variant_canonical")
    case (Inl e)
    have "(case b of Some buttons \<Rightarrow> (scripted_input ?seed ?f PA)\<lparr>in_buttons := buttons\<rparr>
        | None \<Rightarrow> scripted_input ?seed ?f PA) = ?a" "scripted_input ?seed ?f PB = ?b"
      by (cases b; simp add: frame_input_def)+
    with assms(1) Inl show ?thesis
      by (intro same [OF _ _ _ _ assms(2)]) (auto simp: play_frame_def Let_def set_replay_def)
  next
    case (Inr direct)
    obtain r1 st1 where x: "exchange_packets ?f (frame_start b st direct) = (r1, st1)" by fastforce
    note m1 = exchange_packets_keeps [OF x unchanged(4) [OF assms(2)]]
    show ?thesis
    proof (cases r1)
      case (Inl e)
      with assms x m1 show ?thesis by (simp add: play_frame_step [OF Inr])
    next
      case fine: (Inr u)
      with assms x have "advance_peers ?f ?a ?b st1 = (r, st')" by (simp add: play_frame_step [OF Inr])
      from advance_peers_keeps [OF this m1] show ?thesis .
    qed
  qed
qed

lemma run_tick_keeps: "run_tick b st = (r, st') \<Longrightarrow> I st \<Longrightarrow> I st'"
  by (auto simp: run_tick_def Let_def tail_tick_def drain_tick_def split: if_splits
      dest: play_frame_keeps exchange_packets_keeps process_tick_keeps)

lemma finalize_keeps:
  assumes "finalize build st = (r, st')" "I st"
  shows "I st'"
  by (rule same [OF _ _ _ _ assms(2)];
    use assms(1) in \<open>auto simp: finalize_def Let_def mk_error_def split: prod.splits sum.splits if_splits\<close>)

lemma step_once_keeps:
  assumes "step_once build b st = (r, st')" "I st"
  shows "I st'"
proof -
  obtain r0 st0 where t: "run_tick b (clear_performed st) = (r0, st0)" by fastforce
  have m: "I st0" by (rule run_tick_keeps [OF t unchanged(3) [OF assms(2)]])
  have m1: "I (st0\<lparr>lv_tick_index := lv_tick_index st0 + 1\<rparr>)" using m by (rule unchanged)
  from assms(1) t m m1 finalize_keeps [OF _ m1, of build r st'] show ?thesis
    by (cases r0) (auto simp: step_once_def Let_def split: if_splits)
qed

lemma step_live_keeps:
  assumes "step_live build b st = (r, st')" "I st"
  shows "I st'"
  using assms(1)
proof (cases rule: step_live_cases)
  case (broken e st1)
  then show ?thesis using step_once_keeps [OF broken(4) assms(2)] by (simp add: unchanged)
next
  case (moved completed st1)
  then show ?thesis using step_once_keeps [OF moved(4) assms(2)] by (simp add: unchanged)
qed (use assms(2) in simp_all)

lemma live_reach_keeps:
  assumes "live_reach build config cfgA cfgB st"
    and "\<And>a b. I (make_storage build config a b)"
  shows "I st"
  using assms(1)
proof (induction rule: live_reach.induct)
  case (created st)
  from create_ticks(4) [OF created] assms(2) show ?case by simp
qed (rule step_live_keeps)

end

section \<open>The desync marker\<close>

definition marked_ok :: "LiveScenario \<Rightarrow> bool" where
  "marked_ok st \<longleftrightarrow> tx_desync (trace_of st) = None \<or> \<not> no_desync st"

lemma trace_marker [simp]:
  "tx_desync (push_packet_event ev tx) = tx_desync tx" "tx_desync (record_rollback s c tx) = tx_desync tx"
  by (simp_all add: push_packet_event_def record_rollback_def)

lemma sample_frame_marker [simp]: "tx_desync (trace_of (sample_frame f st)) = tx_desync (trace_of st)"
  "lv_desync_a (sample_frame f st) = lv_desync_a st" "lv_desync_b (sample_frame f st) = lv_desync_b st"
  by (simp_all add: sample_frame_def Let_def)

text \<open>The one place that marks the trace does so after the tracker has taken the diagnostic.\<close>

lemma observe_keeps_diagnostic:
  assumes "observe_hashes l r inputs w tracker = (d, tracker')"
  shows "(d \<noteq> None \<longrightarrow> dt_diagnostic tracker' \<noteq> None)
    \<and> (dt_diagnostic tracker \<noteq> None \<longrightarrow> dt_diagnostic tracker' \<noteq> None)"
  using assms by (auto simp: observe_hashes_def Let_def split: if_splits option.splits)

lemma note_desync_marked:
  assumes "marked_ok st"
  shows "marked_ok (note_desync ep h l w st)"
proof -
  obtain d tr where o: "observe_hashes \<lparr>ho_frame = ch_frame h, ho_hash = l, ho_confirmed = True\<rparr>
      \<lparr>ho_frame = ch_frame h, ho_hash = ch_hash h, ho_confirmed = True\<rparr>
      (peer_diagnostic_inputs (receiver_at ep st) (ch_frame h)) w
      (if ep = EP_a then lv_desync_a st else lv_desync_b st) = (d, tr)" by fastforce
  note k = observe_keeps_diagnostic [OF o]
  define st1 where "st1 = (if ep = EP_a then st\<lparr>lv_desync_a := tr\<rparr> else st\<lparr>lv_desync_b := tr\<rparr>)"
  have m: "marked_ok st1" using assms k by (auto simp: st1_def marked_ok_def no_desync_def)
  show ?thesis
  proof (cases d)
    case None
    then show ?thesis using m o by (simp add: note_desync_def Let_def st1_def)
  next
    case (Some dd)
    then have "\<not> no_desync st1" using k by (auto simp: st1_def no_desync_def)
    then have "marked_ok (set_trace tx st1)" for tx by (simp add: marked_ok_def no_desync_def)
    with Some m show ?thesis using o by (simp add: note_desync_def Let_def st1_def)
  qed
qed

interpretation marker: trace_invariant marked_ok
proof (unfold_locales, goal_cases)
  case (5 st ep h l w)
  then show ?case by (rule note_desync_marked)
qed (auto simp: marked_ok_def no_desync_def)

text \<open>A run of canonical sessions is never marked.\<close>

lemma live_never_marked:
  assumes "live_reach build config cfgA cfgB st" "live_config PA cfgA" "live_config PB cfgB"
  shows "tx_desync (trace_of st) = None"
proof -
  have "marked_ok st"
    by (rule marker.live_reach_keeps [OF assms(1)]) (simp add: marked_ok_def make_storage_def Let_def empty_trace_def)
  with live_reach_status [OF assms] show ?thesis by (simp add: marked_ok_def live_status_def)
qed

section \<open>Runs without a trace\<close>

definition quiet :: "LiveScenario \<Rightarrow> bool" where
  "quiet st \<longleftrightarrow> \<not> capturing st \<and> tx_frames (trace_of st) = [] \<and> tx_packets (trace_of st) = []
     \<and> tx_rollbacks (trace_of st) = []"

lemma note_desync_quiet:
  assumes "quiet st"
  shows "quiet (note_desync ep h l w st)"
proof -
  obtain d tr where o: "observe_hashes \<lparr>ho_frame = ch_frame h, ho_hash = l, ho_confirmed = True\<rparr>
      \<lparr>ho_frame = ch_frame h, ho_hash = ch_hash h, ho_confirmed = True\<rparr>
      (peer_diagnostic_inputs (receiver_at ep st) (ch_frame h)) w
      (if ep = EP_a then lv_desync_a st else lv_desync_b st) = (d, tr)" by fastforce
  have "quiet (if ep = EP_a then st\<lparr>lv_desync_a := tr\<rparr> else st\<lparr>lv_desync_b := tr\<rparr>)"
    using assms by (simp add: quiet_def)
  then show ?thesis by (cases d) (auto simp: note_desync_def Let_def o quiet_def)
qed

interpretation silent: trace_invariant quiet
proof (unfold_locales, goal_cases)
  case (5 st ep h l w)
  then show ?case by (rule note_desync_quiet)
qed (auto simp: quiet_def sample_frame_def Let_def)

end
