(* ===== verification/CApiProof.thy ===== *)
theory CApiProof
  imports CApi LiveTrace UdpRun
begin

text \<open>
  What the C interface promises its clients. A client's calls are steps of a machine whose state is the three
  stores of objects and the outside world; its invariant is the ownership discipline: a session is borrowed exactly
  while one driver holds it, the driver works on the session in the store, and a session on which nothing has
  been done is still as it was made. From it follow what a client sees: what a driver holds is there, nobody else can
  change it, and a live run over sessions of the canonical variant never reports a desync.
\<close>

section \<open>The client's calls\<close>

record 's ApiState =
  as_sessions :: Sessions
  as_lives :: Lives
  as_peers :: Peers
  as_world :: 's

text \<open>
  One rule per call that changes state. New objects get a free address, the arguments and the calling thread are
  arbitrary, and between two calls the outside world may change. \<open>allowed\<close> restricts the simulation
  variants that the client asks for.
\<close>

inductive api_reach :: "BuildInfo \<Rightarrow> 's Host \<Rightarrow> u32 set \<Rightarrow> 's ApiState \<Rightarrow> bool"
  for build os allowed where
  no_calls: "api_reach build os allowed
    \<lparr>as_sessions = \<lambda>_. None, as_lives = \<lambda>_. None, as_peers = \<lambda>_. None, as_world = w\<rparr>"
| outside_world: "api_reach build os allowed a \<Longrightarrow> api_reach build os allowed (a\<lparr>as_world := w\<rparr>)"
| session_create: "api_reach build os allowed a \<Longrightarrow> as_sessions a addr = None
    \<Longrightarrow> (\<forall>c. config = Some c \<longrightarrow> sf_simulation_variant c \<in> allowed)
    \<Longrightarrow> rl_session_create thread addr config has_output (as_sessions a) = (status, out, store)
    \<Longrightarrow> api_reach build os allowed (a\<lparr>as_sessions := store\<rparr>)"
| session_destroy: "api_reach build os allowed a
    \<Longrightarrow> rl_session_destroy thread session (as_sessions a) = (status, store)
    \<Longrightarrow> api_reach build os allowed (a\<lparr>as_sessions := store\<rparr>)"
| session_advance: "api_reach build os allowed a
    \<Longrightarrow> rl_session_advance thread session input output (as_sessions a) = (status, result, store)
    \<Longrightarrow> api_reach build os allowed (a\<lparr>as_sessions := store\<rparr>)"
| session_ingest: "api_reach build os allowed a
    \<Longrightarrow> rl_session_ingest_remote thread session input (as_sessions a) = (status, store)
    \<Longrightarrow> api_reach build os allowed (a\<lparr>as_sessions := store\<rparr>)"
| session_flush: "api_reach build os allowed a
    \<Longrightarrow> rl_session_flush_corrections thread session output (as_sessions a) = (status, corrected, store)
    \<Longrightarrow> api_reach build os allowed (a\<lparr>as_sessions := store\<rparr>)"
| live_create: "api_reach build os allowed a \<Longrightarrow> as_lives a addr = None
    \<Longrightarrow> rl_live_create build thread addr live_cfg x y has_output (as_sessions a) (as_lives a)
        = (status, out, store, lives)
    \<Longrightarrow> api_reach build os allowed (a\<lparr>as_sessions := store, as_lives := lives\<rparr>)"
| live_destroy: "api_reach build os allowed a
    \<Longrightarrow> rl_live_destroy thread live (as_sessions a) (as_lives a) = (status, store, lives)
    \<Longrightarrow> api_reach build os allowed (a\<lparr>as_sessions := store, as_lives := lives\<rparr>)"
| live_step: "api_reach build os allowed a
    \<Longrightarrow> rl_live_step build thread live override buttons output (as_sessions a) (as_lives a)
        = (status, stepped, store, lives)
    \<Longrightarrow> api_reach build os allowed (a\<lparr>as_sessions := store, as_lives := lives\<rparr>)"
| peer_create: "api_reach build os allowed a \<Longrightarrow> as_peers a addr = None
    \<Longrightarrow> rl_udp_peer_create os thread addr udp_cfg session has_output (as_sessions a) (as_peers a) (as_world a)
        = ((status, out, store, peers), w)
    \<Longrightarrow> api_reach build os allowed (a\<lparr>as_sessions := store, as_peers := peers, as_world := w\<rparr>)"
| peer_destroy: "api_reach build os allowed a
    \<Longrightarrow> rl_udp_peer_destroy os thread peer (as_sessions a) (as_peers a) (as_world a) = ((status, store, peers), w)
    \<Longrightarrow> api_reach build os allowed (a\<lparr>as_sessions := store, as_peers := peers, as_world := w\<rparr>)"
| peer_stepped: "api_reach build os allowed a
    \<Longrightarrow> rl_udp_peer_step build os thread peer elapsed output (as_sessions a) (as_peers a) (as_world a)
        = ((status, observed, store, peers), w)
    \<Longrightarrow> api_reach build os allowed (a\<lparr>as_sessions := store, as_peers := peers, as_world := w\<rparr>)"

section \<open>The invariant\<close>

text \<open>A driver is named by its address in the store of live runs or in that of peers.\<close>

fun holds :: "Lives \<Rightarrow> Peers \<Rightarrow> nat + nat \<Rightarrow> nat \<Rightarrow> bool" where
  "holds lives peers (Inl l) p = (case lives l of None \<Rightarrow> False | Some v \<Rightarrow> p \<in> {rv_a v, rv_b v})"
| "holds lives peers (Inr q) p = (case peers q of None \<Rightarrow> False | Some v \<Rightarrow> p = rp_session v)"

definition api_config :: "u32 set \<Rightarrow> u32 \<Rightarrow> SessionConfig \<Rightarrow> bool" where
  "api_config allowed peer cfg \<longleftrightarrow> cfg_local_peer cfg = peer_of_value peer
     \<and> cfg_initial_state cfg = make_initial_world \<and> 0 < rollback_window cfg \<and> rollback_window cfg \<le> 120
     \<and> cfg_variant cfg \<in> ucast ` allowed"

definition session_entry :: "u32 set \<Rightarrow> rl_session \<Rightarrow> bool" where
  "session_entry allowed s \<longleftrightarrow> rs_local_peer s \<in> {RL_PEER_A, RL_PEER_B}
     \<and> (\<not> rs_touched s \<longrightarrow> (\<exists>cfg. api_config allowed (rs_local_peer s) cfg \<and> rs_native s = make_session cfg))"

definition live_entry :: "BuildInfo \<Rightarrow> u32 set \<Rightarrow> Sessions \<Rightarrow> rl_live \<Rightarrow> bool" where
  "live_entry build allowed store v \<longleftrightarrow> rv_a v \<noteq> rv_b v
     \<and> (\<exists>sa sb. store (rv_a v) = Some sa \<and> store (rv_b v) = Some sb
         \<and> rs_owner sa = rv_owner v \<and> rs_owner sb = rv_owner v
         \<and> rs_native sa = lv_peer_a (rv_native v) \<and> rs_native sb = lv_peer_b (rv_native v))
     \<and> (\<exists>config cfgA cfgB. api_config allowed RL_PEER_A cfgA \<and> api_config allowed RL_PEER_B cfgB
         \<and> live_reach build config cfgA cfgB (rv_native v))
     \<and> (rv_failure v = RL_OK
         \<or> (\<exists>e. lv_failure (rv_native v) = Some e \<and> rv_failure v = to_status (err_code e)))"

definition peer_entry :: "Sessions \<Rightarrow> rl_udp_peer \<Rightarrow> bool" where
  "peer_entry store v \<longleftrightarrow> (\<exists>s. store (rp_session v) = Some s \<and> rs_native s = pd_session (rp_native v)
         \<and> (\<not> rs_touched s \<longrightarrow> pd_phase (rp_native v) \<in> {PP_handshake, PP_failed}))
     \<and> (pd_failure (rp_native v) \<noteq> None \<longleftrightarrow> pd_phase (rp_native v) = PP_failed)"

definition holders :: "Lives \<Rightarrow> Peers \<Rightarrow> nat \<Rightarrow> (nat + nat) set" where
  "holders lives peers p = {h. holds lives peers h p}"

definition is_borrowed :: "Sessions \<Rightarrow> nat \<Rightarrow> bool" where
  "is_borrowed store p \<longleftrightarrow> (\<exists>s. store p = Some s \<and> rs_borrowed s)"

definition borrows_once :: "Sessions \<Rightarrow> Lives \<Rightarrow> Peers \<Rightarrow> bool" where
  "borrows_once store lives peers \<longleftrightarrow>
     (\<forall>p. if is_borrowed store p then \<exists>h. holders lives peers p = {h} else holders lives peers p = {})"

definition api_inv :: "BuildInfo \<Rightarrow> u32 set \<Rightarrow> Sessions \<Rightarrow> Lives \<Rightarrow> Peers \<Rightarrow> bool" where
  "api_inv build allowed store lives peers \<longleftrightarrow>
     (\<forall>p s. store p = Some s \<longrightarrow> session_entry allowed s)
   \<and> (\<forall>l v. lives l = Some v \<longrightarrow> live_entry build allowed store v)
   \<and> (\<forall>q v. peers q = Some v \<longrightarrow> peer_entry store v)
   \<and> borrows_once store lives peers"

lemma api_invD:
  assumes "api_inv build allowed store lives peers"
  shows "store p = Some s \<Longrightarrow> session_entry allowed s"
    and "lives l = Some v \<Longrightarrow> live_entry build allowed store v"
    and "peers q = Some u \<Longrightarrow> peer_entry store u"
    and "is_borrowed store p \<Longrightarrow> \<exists>h. holders lives peers p = {h}"
    and "\<not> is_borrowed store p \<Longrightarrow> holders lives peers p = {}"
  using assms by (auto simp: api_inv_def borrows_once_def split: if_splits)

lemma api_invI:
  assumes "\<And>p s. store p = Some s \<Longrightarrow> session_entry allowed s"
    and "\<And>l v. lives l = Some v \<Longrightarrow> live_entry build allowed store v"
    and "\<And>q v. peers q = Some v \<Longrightarrow> peer_entry store v"
    and "borrows_once store lives peers"
  shows "api_inv build allowed store lives peers"
  using assms by (simp add: api_inv_def)

lemma held_borrowed:
  assumes "api_inv build allowed store lives peers" "holds lives peers h p"
  shows "is_borrowed store p" "holders lives peers p = {h}"
proof -
  have h: "h \<in> holders lives peers p" using assms(2) by (simp add: holders_def)
  then show b: "is_borrowed store p" using api_invD(5) [OF assms(1)] by blast
  show "holders lives peers p = {h}" using api_invD(4) [OF assms(1) b] h by auto
qed

lemma live_entry_cong:
  assumes "store' (rv_a v) = store (rv_a v)" "store' (rv_b v) = store (rv_b v)"
  shows "live_entry build allowed store' v = live_entry build allowed store v"
  using assms by (simp add: live_entry_def)

lemma peer_entry_cong:
  "store' (rp_session v) = store (rp_session v) \<Longrightarrow> peer_entry store' v = peer_entry store v"
  by (simp add: peer_entry_def)

text \<open>What a client does with a session that nobody holds leaves the drivers alone.\<close>

lemma unheld_update:
  assumes inv: "api_inv build allowed store lives peers" and p: "\<not> is_borrowed store p"
    and new: "case entry of None \<Rightarrow> True | Some s \<Rightarrow> session_entry allowed s \<and> \<not> rs_borrowed s"
  shows "api_inv build allowed (store(p := entry)) lives peers"
proof -
  have free: "\<not> holds lives peers h p" for h
    using api_invD(5) [OF inv p] by (auto simp: holders_def)
  have l: "p \<noteq> rv_a v" "p \<noteq> rv_b v" if "lives l = Some v" for l v
    using free [of "Inl l"] that by auto
  have q: "p \<noteq> rp_session v" if "peers q = Some v" for q v
    using free [of "Inr q"] that by auto
  have b: "is_borrowed (store(p := entry)) x = is_borrowed store x" for x
    using p new by (auto simp: is_borrowed_def split: option.splits)
  show ?thesis
  proof (rule api_invI)
    show "session_entry allowed s" if "(store(p := entry)) x = Some s" for x s
      using that new api_invD(1) [OF inv, of x] by (cases "x = p") auto
    show "live_entry build allowed (store(p := entry)) v" if "lives x = Some v" for x v
      using live_entry_cong [of "store(p := entry)" v store build allowed] api_invD(2) [OF inv that] l [OF that]
      by simp
    show "peer_entry (store(p := entry)) v" if "peers x = Some v" for x v
      using peer_entry_cong [of "store(p := entry)" v store] api_invD(3) [OF inv that] q [OF that] by simp
    show "borrows_once (store(p := entry)) lives peers"
      using inv by (simp add: api_inv_def borrows_once_def b)
  qed
qed

text \<open>A step of the driver \<open>h\<close> changes that driver and the sessions it holds.\<close>

lemma holder_step:
  assumes inv: "api_inv build allowed store lives peers"
    and same: "\<And>p. \<not> holds lives peers h p \<Longrightarrow> store' p = store p"
    and held: "\<And>p s. holds lives peers h p \<Longrightarrow> store p = Some s
      \<Longrightarrow> \<exists>s'. store' p = Some s' \<and> rs_borrowed s' = rs_borrowed s \<and> session_entry allowed s'"
    and lives: "\<And>l v. lives' l = Some v \<Longrightarrow> Inl l = h \<Longrightarrow> live_entry build allowed store' v"
    and lives': "\<And>l. Inl l \<noteq> h \<Longrightarrow> lives' l = lives l"
    and peers: "\<And>q v. peers' q = Some v \<Longrightarrow> Inr q = h \<Longrightarrow> peer_entry store' v"
    and peers': "\<And>q. Inr q \<noteq> h \<Longrightarrow> peers' q = peers q"
    and own: "\<And>p. holds lives' peers' h p = holds lives peers h p"
  shows "api_inv build allowed store' lives' peers'"
proof -
  have other: "\<not> holds lives peers h p" if "holds lives peers g p" "g \<noteq> h" for g p
    using held_borrowed(2) [OF inv that(1)] that(2) by (auto simp: holders_def)
  have holds': "holds lives' peers' g p = holds lives peers g p" for g p
    using own lives' peers' by (cases "g = h"; cases g) auto
  have store': "\<exists>s. store p = Some s \<and> rs_borrowed s = rs_borrowed s' \<and> session_entry allowed s'"
    if "store' p = Some s'" for p s'
  proof (cases "holds lives peers h p")
    case True
    from held_borrowed(1) [OF inv True] obtain s where "store p = Some s" by (auto simp: is_borrowed_def)
    with held [OF True this] that show ?thesis by auto
  next
    case False
    with same that api_invD(1) [OF inv, of p] show ?thesis by auto
  qed
  show ?thesis
  proof (rule api_invI)
    show "session_entry allowed s" if "store' p = Some s" for p s using store' [OF that] by blast
    show "live_entry build allowed store' v" if v: "lives' l = Some v" for l v
    proof (cases "Inl l = h")
      case False
      then have l: "lives l = Some v" using v lives' by simp
      have "store' (rv_a v) = store (rv_a v)" "store' (rv_b v) = store (rv_b v)"
        using same [of "rv_a v"] same [of "rv_b v"] other [of "Inl l" "rv_a v"] other [of "Inl l" "rv_b v"] l False
        by simp_all
      from live_entry_cong [OF this] api_invD(2) [OF inv l] show ?thesis by simp
    qed (use v lives in simp)
    show "peer_entry store' v" if v: "peers' q = Some v" for q v
    proof (cases "Inr q = h")
      case False
      then have q: "peers q = Some v" using v peers' by simp
      have "store' (rp_session v) = store (rp_session v)" 
        using same [of "rp_session v"] other [of "Inr q" "rp_session v"] q False by simp
      from peer_entry_cong [of store' v store, OF this] api_invD(3) [OF inv q] show ?thesis by simp
    qed (use v peers in simp)
    have "is_borrowed store' p = is_borrowed store p" for p
    proof (cases "holds lives peers h p")
      case True
      from held_borrowed(1) [OF inv True] obtain s where s: "store p = Some s" "rs_borrowed s"
        by (auto simp: is_borrowed_def)
      with held [OF True s(1)] show ?thesis by (auto simp: is_borrowed_def)
    next
      case False
      then show ?thesis by (simp add: same is_borrowed_def)
    qed
    then show "borrows_once store' lives' peers'"
      using api_invD(4,5) [OF inv] by (simp add: borrows_once_def holders_def holds')
  qed
qed

section \<open>Sessions\<close>

lemma lookup_ptr_simps [simp]: "lookup_ptr None store = None" "lookup_ptr (Some p) store = store p"
  by (simp_all add: lookup_ptr_def)

lemma lookup_ptr_Some: "lookup_ptr p store = Some x \<longleftrightarrow> (\<exists>a. p = Some a \<and> store a = Some x)"
  by (auto simp: lookup_ptr_def split: option.splits)

lemma first_failure_ok: "first_failure ss = RL_OK \<longleftrightarrow> (\<forall>s \<in> set ss. s = RL_OK)"
  by (induction ss) auto

declare first_failure.simps [simp del]

lemma check_session_ok:
  "check_session thread so mutation = RL_OK
     \<longleftrightarrow> (\<exists>s. so = Some s \<and> rs_owner s = thread \<and> \<not> (mutation \<and> rs_borrowed s))"
  by (auto simp: check_session_def rl_codes split: option.splits)

lemma unborrowed: "store p = Some s \<Longrightarrow> \<not> rs_borrowed s \<Longrightarrow> \<not> is_borrowed store p"
  by (simp add: is_borrowed_def)

lemma peer_number: "x \<le> RL_PEER_B \<Longrightarrow> x \<in> {RL_PEER_A, RL_PEER_B}"
  by (auto simp: RL_PEER_A_def RL_PEER_B_def word_le_nat_alt word_unat_eq_iff)

lemma session_create_inv:
  assumes inv: "api_inv build allowed store lives peers" and free: "store addr = None"
    and allowed: "\<forall>c. config = Some c \<longrightarrow> sf_simulation_variant c \<in> allowed"
    and r: "rl_session_create thread addr config has_output store = (status, out, store')"
  shows "api_inv build allowed store' lives peers"
proof (cases "store' = store")
  case True
  with inv show ?thesis by simp
next
  case False
  then have v: "validate size_session_config (map_option sf_header config) = RL_OK"
      "sf_local_peer (the config) \<le> RL_PEER_B" "sf_max_rollback_frames (the config) \<noteq> 0"
      "sf_max_rollback_frames (the config) \<le> kDefaultMaxRollbackFrames"
    and s: "store' = store(addr \<mapsto> \<lparr>rs_native = make_session (native_session_config (the config)),
                 rs_owner = thread, rs_local_peer = sf_local_peer (the config),
                 rs_borrowed = False, rs_touched = False\<rparr>)"
    using r by (auto simp: rl_session_create_def Let_def not_less split: if_splits)
  obtain c where c: "config = Some c"
    using v(1) by (cases config) (simp_all add: validate_def rl_codes)
  have "0 < unat (sf_max_rollback_frames c)" "unat (sf_max_rollback_frames c) \<le> 120"
    using v(3,4) c by (simp_all add: unat_gt_0 kDefaultMaxRollbackFrames_def word_le_nat_alt)
  then have "api_config allowed (sf_local_peer c) (native_session_config c)"
    using allowed c by (simp add: api_config_def native_session_config_def rollback_window_def)
  then have "session_entry allowed \<lparr>rs_native = make_session (native_session_config c), rs_owner = thread,
      rs_local_peer = sf_local_peer c, rs_borrowed = False, rs_touched = False\<rparr>"
    using peer_number [OF v(2)] c by (auto simp: session_entry_def)
  moreover have "\<not> is_borrowed store addr" using free by (simp add: is_borrowed_def)
  ultimately show ?thesis using unheld_update [OF inv] s c by simp
qed

lemma session_destroy_inv:
  assumes inv: "api_inv build allowed store lives peers"
    and r: "rl_session_destroy thread session store = (status, store')"
  shows "api_inv build allowed store' lives peers"
proof (cases "store' = store")
  case False
  then obtain p s where "lookup_ptr session store = Some s" "\<not> rs_borrowed s" "store' = store(the session := None)"
    using r by (auto simp: rl_session_destroy_def Let_def check_session_ok split: if_splits)
  then show ?thesis
    using unheld_update [OF inv, of "the session" None] by (auto simp: lookup_ptr_Some unborrowed)
qed (use inv in simp)

lemma fresh_session:
  assumes "session_entry allowed s" "\<not> rs_touched s"
  obtains cfg where "api_config allowed (rs_local_peer s) cfg" "rs_native s = make_session cfg"
  using assms by (auto simp: session_entry_def)

lemma api_config_valid: "api_config allowed peer cfg \<Longrightarrow> valid_config cfg"
  using initial_world_inv
  by (simp add: api_config_def valid_config_def kHistoryCapacity_def) (simp add: make_initial_world_def)

lemma start_confirmation: "update_confirmation (make_session cfg) = make_session cfg"
  by (simp add: update_confirmation_def make_session_def confirm_loop_stuck confirm_loop.simps ring_contains_def ring_empty_def)

text \<open>A failed check leaves the store, a passed one works on an unborrowed session of the calling thread.\<close>

lemma passed_checks:
  assumes "first_failure (check_session thread (lookup_ptr session store) True # others) = RL_OK"
  obtains p s where "session = Some p" "store p = Some s" "\<not> rs_borrowed s" "rs_owner s = thread"
    "first_failure (check_session thread (Some s) True # others) = RL_OK"
proof -
  note given = assms
  from assms have "check_session thread (lookup_ptr session store) True = RL_OK"
    by (simp add: first_failure_ok)
  then obtain p s where "session = Some p" "store p = Some s" "\<not> rs_borrowed s" "rs_owner s = thread"
    by (auto simp: check_session_ok lookup_ptr_Some)
  with given that show thesis by simp
qed

lemma touched_update:
  assumes inv: "api_inv build allowed store lives peers"
    and s: "store p = Some s" "\<not> rs_borrowed s"
    and new: "rs_touched s' \<or> rs_touched s \<or> rs_native s' = rs_native s"
    and keep: "rs_local_peer s' = rs_local_peer s" "rs_borrowed s' = rs_borrowed s" "rs_touched s \<Longrightarrow> rs_touched s'"
  shows "api_inv build allowed (store(p \<mapsto> s')) lives peers"
proof (rule unheld_update [OF inv unborrowed [of store p s, OF s]])
  have "session_entry allowed s'"
    using api_invD(1) [OF inv s(1)] new keep by (auto simp: session_entry_def)
  with s keep show "case Some s' of None \<Rightarrow> True | Some s \<Rightarrow> session_entry allowed s \<and> \<not> rs_borrowed s"
    by simp
qed

lemma fresh_advance:
  assumes e: "session_entry allowed s" "\<not> rs_touched s"
    and i: "if_peer i = rs_local_peer s" "if_frame i = ws_frame (sr_state (session_report (rs_native s)))"
  shows "ok (fst (advance (native_input i) (rs_native s)))"
proof -
  obtain cfg where c: "api_config allowed (rs_local_peer s) cfg" "rs_native s = make_session cfg"
    by (rule fresh_session [OF e])
  have f: "cfg_initial_state cfg = make_initial_world" "cfg_local_peer cfg = peer_of_value (rs_local_peer s)"
    using c(1) by (simp_all add: api_config_def)
  have h: "within_horizon cfg []" using f(1) by (simp add: within_horizon_def make_initial_world_def)
  have "local_ok cfg (length ([] :: InputFrame list)) (native_input i)"
    using i f c(2) by (simp add: local_ok_def native_input_def session_report_def make_session_def make_initial_world_def)
  moreover have "session_inv cfg [] (\<lambda>_. None) (make_session cfg)"
    by (rule reach_inv [OF session_reach.start api_config_valid [OF c(1)] h])
  ultimately show ?thesis
    using advance_ok [OF api_config_valid [OF c(1)] h] c(2) by fastforce
qed

lemma session_advance_inv:
  assumes inv: "api_inv build allowed store lives peers"
    and r: "rl_session_advance thread session input output store = (status, result, store')"
  shows "api_inv build allowed store' lives peers"
proof (cases "store' = store")
  case False
  have "first_failure [check_session thread (lookup_ptr session store) True, validate_input input,
      validate size_advance_result output] = RL_OK"
    using False r by (auto simp: rl_session_advance_def Let_def split: if_splits)
  then obtain p s where s: "session = Some p" "store p = Some s" "\<not> rs_borrowed s"
    "first_failure [check_session thread (Some s) True, validate_input input, validate size_advance_result output]
       = RL_OK" by (rule passed_checks)
  obtain q native where a: "advance (native_input (the input)) (rs_native s) = (q, native)" by fastforce
  have i: "if_peer (the input) = rs_local_peer s"
      "if_frame (the input) = ws_frame (sr_state (session_report (rs_native s)))"
    using False r by (auto simp: rl_session_advance_def Let_def s split: if_splits)
  have store': "store' = store(p \<mapsto> case q of Inl _ \<Rightarrow> s\<lparr>rs_native := native\<rparr>
      | Inr _ \<Rightarrow> s\<lparr>rs_native := native, rs_touched := True\<rparr>)"
    using r i by (cases q) (auto simp: rl_session_advance_def Let_def s a)
  have "rs_touched s \<or> (\<exists>x. q = Inr x)"
    using fresh_advance [OF api_invD(1) [OF inv s(2)] _ i] a by (cases q) auto
  then show ?thesis unfolding store' by (intro touched_update [OF inv s(2,3)]) (auto split: sum.splits)
qed (use inv in simp)

lemma session_ingest_inv:
  assumes inv: "api_inv build allowed store lives peers"
    and r: "rl_session_ingest_remote thread session input store = (status, store')"
  shows "api_inv build allowed store' lives peers"
proof (cases "store' = store")
  case False
  have "first_failure [check_session thread (lookup_ptr session store) True, validate_input input] = RL_OK"
    using False r by (auto simp: rl_session_ingest_remote_def Let_def split: if_splits)
  then obtain p s where s: "session = Some p" "store p = Some s" "\<not> rs_borrowed s"
    "first_failure [check_session thread (Some s) True, validate_input input] = RL_OK" by (rule passed_checks)
  obtain q native where a: "ingest_remote (native_input (the input)) (rs_native s) = (q, native)" by fastforce
  have store': "store' = store(p \<mapsto> case q of Inl _ \<Rightarrow> s\<lparr>rs_native := native\<rparr>
      | Inr _ \<Rightarrow> s\<lparr>rs_native := native, rs_touched := True\<rparr>)"
    using r False
    by (cases q) (auto simp: rl_session_ingest_remote_def Let_def s a split: if_splits)
  have "native = rs_native s" if "q = Inl e" for e using ingest_refused a that by blast
  then show ?thesis unfolding store' by (intro touched_update [OF inv s(2,3)]) (auto split: sum.splits)
qed (use inv in simp)

lemma session_flush_inv:
  assumes inv: "api_inv build allowed store lives peers"
    and r: "rl_session_flush_corrections thread session output store = (status, corrected, store')"
  shows "api_inv build allowed store' lives peers"
proof (cases "store' = store")
  case False
  have "first_failure [check_session thread (lookup_ptr session store) True,
      validate size_correction_result output] = RL_OK"
    using False r by (auto simp: rl_session_flush_corrections_def Let_def split: if_splits)
  then obtain p s where s: "session = Some p" "store p = Some s" "\<not> rs_borrowed s"
    "first_failure [check_session thread (Some s) True, validate size_correction_result output] = RL_OK"
    by (rule passed_checks)
  obtain q native where a: "flush_corrections (rs_native s) = (q, native)" by fastforce
  have store': "store' = store(p \<mapsto> case q of Inl _ \<Rightarrow> s\<lparr>rs_native := native\<rparr>
      | Inr c \<Rightarrow> s\<lparr>rs_native := native, rs_touched := rs_touched s \<or> cr_performed c\<rparr>)"
    using r by (cases q) (auto simp: rl_session_flush_corrections_def Let_def s a)
  have "native = rs_native s" if t: "\<not> rs_touched s"
  proof -
    obtain cfg where c: "rs_native s = make_session cfg"
      by (rule fresh_session [OF api_invD(1) [OF inv s(2)] t])
    then have "flush_corrections (rs_native s) = (Inr default_correction, update_confirmation (make_session cfg))"
      by (simp add: flush_corrections_def make_session_def)
    with a c show ?thesis by (simp add: start_confirmation)
  qed
  then show ?thesis unfolding store' by (intro touched_update [OF inv s(2,3)]) (auto split: sum.splits)
qed (use inv in simp)

section \<open>Taking and giving back sessions\<close>

definition mark :: "bool \<Rightarrow> nat set \<Rightarrow> Sessions \<Rightarrow> Sessions" where
  "mark b P store = (\<lambda>p. if p \<in> P then map_option (\<lambda>s. s\<lparr>rs_borrowed := b\<rparr>) (store p) else store p)"

lemma set_borrowed_mark:
  "set_borrowed b p store = mark b {p} store"
  "mark b P (mark b Q store) = mark b (P \<union> Q) store"
  by (auto simp: set_borrowed_def mark_def fun_eq_iff option.map_comp o_def)

lemma mark_entries [simp]:
  "live_entry build allowed (mark b P store) v = live_entry build allowed store v"
  "peer_entry (mark b P store) u = peer_entry store u"
  by (auto simp: live_entry_def peer_entry_def mark_def)

lemma mark_session:
  "mark b P store p = Some s \<Longrightarrow> \<exists>s'. store p = Some s' \<and> session_entry allowed s = session_entry allowed s'"
  by (auto simp: mark_def session_entry_def split: if_splits)

lemma mark_borrowed: "is_borrowed (mark b P store) p = (if p \<in> P then b \<and> store p \<noteq> None else is_borrowed store p)"
  by (auto simp: is_borrowed_def mark_def)

lemma driver_change:
  assumes inv: "api_inv build allowed store lives peers"
    and there: "\<And>p. p \<in> P \<Longrightarrow> store p \<noteq> None"
    and taken: "\<And>p. b \<Longrightarrow> p \<in> P \<Longrightarrow> \<not> is_borrowed store p"
    and before: "\<And>p. holds lives peers h p \<longleftrightarrow> \<not> b \<and> p \<in> P"
    and after: "\<And>g p. holds lives' peers' g p = (if g = h then b \<and> p \<in> P else holds lives peers g p)"
    and lives: "\<And>l v. lives' l = Some v \<Longrightarrow> live_entry build allowed store v"
    and peers: "\<And>q v. peers' q = Some v \<Longrightarrow> peer_entry store v"
  shows "api_inv build allowed (mark b P store) lives' peers'"
proof (rule api_invI)
  show "session_entry allowed s" if "mark b P store p = Some s" for p s
    using mark_session [OF that, of allowed] api_invD(1) [OF inv] by auto
  show "borrows_once (mark b P store) lives' peers'"
    unfolding borrows_once_def mark_borrowed
  proof
    fix p
    show "if if p \<in> P then b \<and> store p \<noteq> None else is_borrowed store p
      then \<exists>h. holders lives' peers' p = {h} else holders lives' peers' p = {}"
    proof (cases "p \<in> P")
      case False
      then have "holders lives' peers' p = holders lives peers p"
        using before after by (auto simp: holders_def)
      with False show ?thesis using api_invD(4,5) [OF inv] by simp
    next
      case True
      have "holders lives peers p = (if b then {} else {h})"
        using api_invD(5) [OF inv taken [OF _ True]] held_borrowed(2) [OF inv, of h p] before True by auto
      then have "holds lives peers g p \<longleftrightarrow> \<not> b \<and> g = h" for g
        by (auto simp: holders_def split: if_splits)
      then have "holders lives' peers' p = (if b then {h} else {})"
        using after True by (auto simp: holders_def)
      with True show ?thesis using there [OF True] by auto
    qed
  qed
qed (use lives peers in simp_all)

section \<open>Live runs\<close>

lemma check_live_ok: "check_live thread lo = RL_OK \<longleftrightarrow> (\<exists>l. lo = Some l \<and> rv_owner l = thread)"
  by (auto simp: check_live_def rl_codes split: option.splits)

lemma attach_same: "live_entry build allowed store v \<Longrightarrow> attach v store = rv_native v"
  by (auto simp: live_entry_def attach_def)

lemma make_storage_peers [simp]:
  "lv_peer_a (make_storage build config a b) = a" "lv_peer_b (make_storage build config a b) = b"
  by (simp_all add: make_storage_def Let_def)

lemma live_create_inv:
  assumes inv: "api_inv build allowed store lives peers" and free: "lives addr = None"
    and r: "rl_live_create build thread addr config x y has_output store lives = (status, out, store', lives')"
  shows "api_inv build allowed store' lives' peers"
proof (cases "lives' = lives")
  case True
  then show ?thesis using r free inv
    by (auto simp: rl_live_create_def Let_def fun_upd_idem_iff split: if_splits sum.splits dest: fun_upd_idem_iff [THEN iffD1])
next
  case False
  let ?sa = "lookup_ptr x store" and ?sb = "lookup_ptr y store"
  have "first_failure [validate_live_config config, check_session thread ?sa True, check_session thread ?sb True]
      = RL_OK"
    using False r by (auto simp: rl_live_create_def Let_def split: if_splits)
  then have "check_session thread ?sa True = RL_OK" "check_session thread ?sb True = RL_OK"
    by (simp_all add: first_failure_ok)
  then obtain p q sa sb where
    p: "x = Some p" "store p = Some sa" "rs_owner sa = thread" "\<not> rs_borrowed sa" and
    q: "y = Some q" "store q = Some sb" "rs_owner sb = thread" "\<not> rs_borrowed sb"
    by (auto simp: check_session_ok lookup_ptr_Some)
  have c: "p \<noteq> q" "rs_local_peer sa = RL_PEER_A" "rs_local_peer sb = RL_PEER_B" "\<not> rs_touched sa" "\<not> rs_touched sb"
    using False r p q by (auto simp: rl_live_create_def Let_def split: if_splits)
  obtain native where n: "create_live build (native_live_config (the config)) False (rs_native sa) (rs_native sb)
      = Inr native"
    using False r p q by (auto simp: rl_live_create_def Let_def split: if_splits sum.splits)
  define v where "v = \<lparr>rv_a = p, rv_b = q, rv_native = native, rv_owner = thread,
    rv_finished = False, rv_failure = RL_OK\<rparr>"
  have s: "store' = mark True {p, q} store" "lives' = lives(addr \<mapsto> v)"
    using False r p q n by (auto simp: rl_live_create_def Let_def v_def set_borrowed_mark insert_commute split: if_splits)
  obtain cfgA where A: "api_config allowed RL_PEER_A cfgA" "rs_native sa = make_session cfgA"
    using fresh_session [OF api_invD(1) [OF inv p(2)] c(4)] c(2) by auto
  obtain cfgB where B: "api_config allowed RL_PEER_B cfgB" "rs_native sb = make_session cfgB"
    using fresh_session [OF api_invD(1) [OF inv q(2)] c(5)] c(3) by auto
  have "live_reach build (native_live_config (the config)) cfgA cfgB native"
    using n A(2) B(2) by (auto intro: live_reach.created)
  moreover have "lv_peer_a native = rs_native sa" "lv_peer_b native = rs_native sb"
    using create_ticks(4) [OF n] by simp_all
  ultimately have e: "live_entry build allowed store v"
    using p q c A(1) B(1) by (auto simp: live_entry_def v_def)
  show ?thesis unfolding s
  proof (rule driver_change [where h = "Inl addr", OF inv])
    show "holds lives peers (Inl addr) z \<longleftrightarrow> \<not> True \<and> z \<in> {p, q}" for z using free by simp
    show "holds (lives(addr \<mapsto> v)) peers g z = (if g = Inl addr then True \<and> z \<in> {p, q} else holds lives peers g z)" for g z
      by (cases g) (auto simp: v_def)
  qed (use p q e unborrowed api_invD [OF inv] in \<open>auto split: if_splits\<close>)
qed

lemma live_destroy_inv:
  assumes inv: "api_inv build allowed store lives peers"
    and r: "rl_live_destroy thread live store lives = (status, store', lives')"
  shows "api_inv build allowed store' lives' peers"
proof (cases "check_live thread (lookup_ptr live lives) = RL_OK")
  case True
  then obtain l v where l: "live = Some l" "lives l = Some v" "rv_owner v = thread"
    by (auto simp: check_live_ok lookup_ptr_Some)
  then have s: "store' = mark False {rv_a v, rv_b v} store" "lives' = lives(l := None)"
    using r True by (auto simp: rl_live_destroy_def Let_def set_borrowed_mark insert_commute)
  note e = api_invD(2) [OF inv l(2)]
  show ?thesis unfolding s
  proof (rule driver_change [where h = "Inl l", OF inv])
    show "holds lives peers (Inl l) z \<longleftrightarrow> \<not> False \<and> z \<in> {rv_a v, rv_b v}" for z using l by simp
    show "holds (lives(l := None)) peers g z
        = (if g = Inl l then False \<and> z \<in> {rv_a v, rv_b v} else holds lives peers g z)" for g z
      by (cases g) auto
  qed (use e api_invD [OF inv] in \<open>auto simp: live_entry_def split: if_splits\<close>)
next
  case False
  then show ?thesis using r inv by (simp add: rl_live_destroy_def Let_def)
qed

lemma set_native_peers:
  assumes "p \<noteq> q" "store p = Some sp" "store q = Some sq"
  shows "set_native q y (set_native p x store) =
    store(p \<mapsto> sp\<lparr>rs_native := x, rs_touched := True\<rparr>, q \<mapsto> sq\<lparr>rs_native := y, rs_touched := True\<rparr>)"
  using assms by (auto simp: set_native_def)

lemma small_buttons:
  assumes "buttons \<le> (31 :: u32)"
  shows "(ucast buttons :: u8) AND 0xE0 = 0"
proof (rule bit_word_eqI)
  fix n assume n: "n < LENGTH(8)"
  have "\<not> bit buttons n" if "5 \<le> n"
  proof -
    have "(32 :: nat) \<le> 2 ^ n" using power_increasing [OF that, of "2 :: nat"] by simp
    then have "unat buttons div 2 ^ n = 0" using assms by (simp add: word_le_nat_alt)
    then have "\<not> bit (unat buttons) n" by (simp add: bit_iff_odd)
    with n show ?thesis by (simp add: bit_unsigned_iff)
  qed
  moreover have "n = 0 \<or> n = 1 \<or> n = 2 \<or> n = 3 \<or> n = 4 \<or> 5 \<le> n" by arith
  ultimately show "bit ((ucast buttons :: u8) AND 0xE0) n = bit (0 :: u8) n"
    by (auto simp: bit_and_iff bit_ucast_iff)
qed

lemma failed_live_step:
  "step_live build b st = (Inl e, st') \<Longrightarrow> defined_buttons b \<Longrightarrow> lv_failure st' = Some e"
  by (auto simp: step_live_def defined_buttons_def mk_error_def split: option.splits if_splits prod.splits sum.splits)

text \<open>What a step of a live run does, when it is allowed to do anything.\<close>

lemma live_step_cases:
  assumes inv: "api_inv build allowed store lives peers"
    and r: "rl_live_step build thread live override buttons output store lives = (status, stepped, store', lives')"
  shows "store' = store \<and> lives' = lives \<and> stepped = None
    \<and> (status \<in> {RL_INVALID_ARGUMENT, RL_WRONG_THREAD, RL_ABI_VERSION, RL_STRUCT_SIZE}
        \<or> (\<exists>l v. live = Some l \<and> lives l = Some v \<and> status = rv_failure v \<and> status \<noteq> RL_OK))
    \<or> (\<exists>l v sa sb b q native. live = Some l \<and> lives l = Some v \<and> rv_failure v = RL_OK
        \<and> store (rv_a v) = Some sa \<and> store (rv_b v) = Some sb \<and> step_live build b (rv_native v) = (q, native)
        \<and> defined_buttons b
        \<and> store' = store(rv_a v \<mapsto> sa\<lparr>rs_native := lv_peer_a native, rs_touched := True\<rparr>,
                         rv_b v \<mapsto> sb\<lparr>rs_native := lv_peer_b native, rs_touched := True\<rparr>)
        \<and> (case q of
             Inl e \<Rightarrow> status = to_status (err_code e) \<and> stepped = None
               \<and> lives' = lives(l \<mapsto> v\<lparr>rv_native := native, rv_failure := to_status (err_code e)\<rparr>)
           | Inr fin \<Rightarrow> status = RL_OK \<and> lives' = lives(l \<mapsto> v\<lparr>rv_native := native, rv_failure := RL_OK, rv_finished := fin\<rparr>)
               \<and> (\<exists>o'. stepped = Some o' \<and> lr_desync_detected o'
                    = bool_u32 (tx_desync (sa_trace (lv_artifacts native)) \<noteq> None) \<and> lr_finished o' = bool_u32 fin)))"
proof (cases "check_live thread (lookup_ptr live lives) = RL_OK
    \<and> validate size_live_step_result output = RL_OK \<and> \<not> (override > 1 \<or> buttons > 31)
    \<and> rv_failure (the (lookup_ptr live lives)) = RL_OK")
  case True
  then obtain l v where l: "live = Some l" "lives l = Some v"
    by (auto simp: check_live_ok lookup_ptr_Some)
  note e = api_invD(2) [OF inv l(2)]
  then obtain sa sb where s: "rv_a v \<noteq> rv_b v" "store (rv_a v) = Some sa" "store (rv_b v) = Some sb"
    by (auto simp: live_entry_def)
  define b where "b = (if override \<noteq> 0 then Some (ucast buttons :: u8) else None)"
  have d: "defined_buttons b" using True small_buttons [of buttons] by (simp add: b_def defined_buttons_def not_less)
  obtain q native where q: "step_live build b (rv_native v) = (q, native)" by fastforce
  have "first_failure [check_live thread (Some v), validate size_live_step_result output] = RL_OK"
    using True l by (simp add: first_failure_ok)
  then show ?thesis
    using r True l s q d
    by (intro disjI2 exI [of _ l] exI [of _ v] exI [of _ sa] exI [of _ sb] exI [of _ b] exI [of _ q] exI [of _ native])
      (cases q, auto simp: rl_live_step_def Let_def b_def [symmetric] attach_same [OF e] set_native_peers)
next
  case False
  then show ?thesis
    using r by (auto simp: rl_live_step_def Let_def check_live_def validate_def rl_codes first_failure.simps
        lookup_ptr_def split: if_splits option.splits)
qed

lemma live_step_inv:
  assumes inv: "api_inv build allowed store lives peers"
    and r: "rl_live_step build thread live override buttons output store lives = (status, stepped, store', lives')"
  shows "api_inv build allowed store' lives' peers"
  using live_step_cases [OF inv r]
proof (elim disjE exE conjE)
  fix l v sa sb b q native
  assume l: "live = Some l" "lives l = Some v" and s: "store (rv_a v) = Some sa" "store (rv_b v) = Some sb"
    and q: "step_live build b (rv_native v) = (q, native)" and b: "defined_buttons b"
    and store': "store' = store(rv_a v \<mapsto> sa\<lparr>rs_native := lv_peer_a native, rs_touched := True\<rparr>,
        rv_b v \<mapsto> sb\<lparr>rs_native := lv_peer_b native, rs_touched := True\<rparr>)"
    and c: "case q of
        Inl e \<Rightarrow> status = to_status (err_code e) \<and> stepped = None
          \<and> lives' = lives(l \<mapsto> v\<lparr>rv_native := native, rv_failure := to_status (err_code e)\<rparr>)
      | Inr fin \<Rightarrow> status = RL_OK \<and> lives' = lives(l \<mapsto> v\<lparr>rv_native := native, rv_failure := RL_OK, rv_finished := fin\<rparr>)
          \<and> (\<exists>o'. stepped = Some o' \<and> lr_desync_detected o'
               = bool_u32 (tx_desync (sa_trace (lv_artifacts native)) \<noteq> None) \<and> lr_finished o' = bool_u32 fin)"
  from c obtain v' where v': "lives' = lives(l \<mapsto> v')" "rv_a v' = rv_a v" "rv_b v' = rv_b v"
      "rv_native v' = native" "rv_owner v' = rv_owner v"
      "rv_failure v' = (case q of Inl e \<Rightarrow> to_status (err_code e) | Inr _ \<Rightarrow> RL_OK)" by (cases q) auto
  have failed: "rv_failure v' = RL_OK
      \<or> (\<exists>e. lv_failure native = Some e \<and> rv_failure v' = to_status (err_code e))"
    using v'(6) failed_live_step q b by (cases q) auto
  note e = api_invD(2) [OF inv l(2)]
  have "live_entry build allowed store' v'"
    using e s live_reach.stepped [OF _ q] failed unfolding live_entry_def v'(2-5) store' by fastforce
  moreover have "session_entry allowed sa" "session_entry allowed sb" using api_invD(1) [OF inv] s by blast+
  ultimately have e': "live_entry build allowed store' v'" and t: "session_entry allowed sa" "session_entry allowed sb"
    by simp_all
  have "rv_a v \<noteq> rv_b v" using e by (simp add: live_entry_def)
  have h: "holds lives peers (Inl l) p \<longleftrightarrow> p \<in> {rv_a v, rv_b v}" for p using l by simp
  show ?thesis
  proof (rule holder_step [OF inv, of "Inl l"])
    show "store' p = store p" if "\<not> holds lives peers (Inl l) p" for p using that h store' by simp
    show "\<exists>s'. store' p = Some s' \<and> rs_borrowed s' = rs_borrowed s0 \<and> session_entry allowed s'"
      if p: "holds lives peers (Inl l) p" "store p = Some s0" for p s0
    proof (cases "p = rv_b v")
      case True
      then show ?thesis using p(2) s(2) t(2) by (simp add: store' session_entry_def)
    next
      case False
      then have "p = rv_a v" using p(1) h by simp
      then show ?thesis using p(2) s(1) t(1) False by (simp add: store' session_entry_def)
    qed
    show "live_entry build allowed store' u" if "lives' k = Some u" "Inl k = (Inl l :: nat + nat)" for k u
      using that e' v'(1) by simp
    show "holds lives' peers (Inl l) p = holds lives peers (Inl l) p" for p unfolding h using v' by simp
  qed (use v'(1) in auto)
qed (use inv in simp_all)

section \<open>UDP peers\<close>

lemma check_peer_ok:
  "check_peer thread po store = RL_OK
     \<longleftrightarrow> (\<exists>v s. po = Some v \<and> store (rp_session v) = Some s \<and> rs_owner s = thread)"
  by (cases po) (simp_all add: check_peer_def check_session_ok, simp add: rl_codes)

lemma created_driver:
  "create_driver os config session w = (Inr d, w') \<Longrightarrow>
     pd_session d = session \<and> pd_failure d = None \<and> pd_phase d = PP_handshake"
  by (auto simp: create_driver_def make_driver_def Let_def mk_error_def split: if_splits sum.splits prod.splits)

lemma peer_create_inv:
  assumes inv: "api_inv build allowed store lives peers" and free: "peers addr = None"
    and r: "rl_udp_peer_create os thread addr config session has_output store peers w
      = ((status, out, store', peers'), w')"
  shows "api_inv build allowed store' lives peers'"
proof (cases "status = RL_OK \<and> has_output")
  case False
  then have "store' = store" "peers' = peers"
    using r by (auto simp: rl_udp_peer_create_def Let_def split: if_splits sum.splits prod.splits)
  with inv show ?thesis by simp
next
  case True
  let ?so = "lookup_ptr session store"
  have "first_failure [validate_udp_config config, check_session thread ?so True] = RL_OK"
    using True r by (auto simp: rl_udp_peer_create_def Let_def split: if_splits)
  then have "check_session thread ?so True = RL_OK" by (simp add: first_failure_ok)
  then obtain p s where p: "session = Some p" "store p = Some s" "\<not> rs_borrowed s"
    by (auto simp: check_session_ok lookup_ptr_Some)
  have u: "\<not> rs_touched s"
    using True r p by (auto simp: rl_udp_peer_create_def Let_def RL_INVALID_FRAME_def RL_OK_def split: if_splits)
  obtain x w1 where x: "create_driver os (native_udp_config (the config) (rs_local_peer s)) (rs_native s) w = (x, w1)"
    by fastforce
  have "network_status e \<noteq> RL_OK" if "x = Inl e" for e
  proof -
    have "err_code e \<noteq> EC_none"
      using x that by (auto simp: create_driver_def bind_loopback_def io_failure_def encode_hello_def
          encode_packet_def mk_error_def Let_def split: if_splits sum.splits prod.splits option.splits)
    then show ?thesis by (cases "err_code e") (auto simp: network_status_def rl_codes)
  qed
  with True r p u x obtain native where n: "x = Inr native"
    by (cases x) (auto simp: rl_udp_peer_create_def Let_def split: if_splits)
  define v where "v = \<lparr>rp_session = p, rp_native = native, rp_failure = RL_OK, rp_observation = initial_observation\<rparr>"
  have s: "store' = mark True {p} store" "peers' = peers(addr \<mapsto> v)"
    using True r p u x n
    by (auto simp: rl_udp_peer_create_def Let_def v_def set_borrowed_mark split: if_splits)
  have e: "peer_entry store v"
    using created_driver [OF x [unfolded n]] p by (simp add: peer_entry_def v_def)
  show ?thesis unfolding s
  proof (rule driver_change [where h = "Inr addr", OF inv])
    show "holds lives peers (Inr addr) z \<longleftrightarrow> \<not> True \<and> z \<in> {p}" for z using free by simp
    show "holds lives (peers(addr \<mapsto> v)) g z = (if g = Inr addr then True \<and> z \<in> {p} else holds lives peers g z)" for g z
      by (cases g) (auto simp: v_def)
  qed (use p e unborrowed api_invD [OF inv] in \<open>auto split: if_splits\<close>)
qed

lemma peer_destroy_inv:
  assumes inv: "api_inv build allowed store lives peers"
    and r: "rl_udp_peer_destroy os thread peer store peers w = ((status, store', peers'), w')"
  shows "api_inv build allowed store' lives peers'"
proof (cases "check_peer thread (lookup_ptr peer peers) store = RL_OK")
  case True
  then obtain q v where q: "peer = Some q" "peers q = Some v" "store (rp_session v) \<noteq> None"
    by (auto simp: check_peer_ok lookup_ptr_Some)
  then have s: "store' = mark False {rp_session v} store" "peers' = peers(q := None)"
    using r True by (auto simp: rl_udp_peer_destroy_def Let_def set_borrowed_mark)
  show ?thesis unfolding s
  proof (rule driver_change [where h = "Inr q", OF inv])
    show "holds lives peers (Inr q) z \<longleftrightarrow> \<not> False \<and> z \<in> {rp_session v}" for z using q by simp
    show "holds lives (peers(q := None)) g z
        = (if g = Inr q then False \<and> z \<in> {rp_session v} else holds lives peers g z)" for g z
      by (cases g) auto
  qed (use q api_invD [OF inv] in \<open>auto split: if_splits\<close>)
next
  case False
  then show ?thesis using r inv by (simp add: rl_udp_peer_destroy_def Let_def)
qed

lemma attach_peer_same: "peer_entry store v \<Longrightarrow> attach_peer v store = rp_native v"
  by (auto simp: peer_entry_def attach_peer_def)

text \<open>The handshake does not use the session.\<close>

lemma handshake_session:
  assumes "phase_step build os t d w = (r, d', w')" "pd_phase d = PP_handshake"
  shows "pd_session d' = pd_session d"
  using assms by (auto simp: phase_step_def handshake_step_def Let_def mk_error_def
      split: if_splits sum.splits prod.splits option.splits)

lemma failed_step_session:
  assumes f: "pd_failure d \<noteq> None \<longleftrightarrow> pd_phase d = PP_failed"
    and p: "peer_step build os t d w = (Inl e, d', w')" and h: "pd_phase d \<in> {PP_handshake, PP_failed}"
  shows "pd_session d' = pd_session d \<and> pd_phase d' \<in> {PP_handshake, PP_failed}"
proof (cases "pd_failure d \<noteq> None \<or> t < pd_last_elapsed d")
  case True
  then show ?thesis using p f h by (auto simp: peer_step_def mk_error_def split: option.splits if_splits)
next
  case False
  let ?d = "d\<lparr>pd_last_elapsed := t, pd_runtime := (pd_runtime d)\<lparr>pr_correction := default_peer_correction\<rparr>\<rparr>"
  obtain q d2 w2 where q: "phase_step build os t ?d w = (q, d2, w2)" by (cases "phase_step build os t ?d w")
  have phase: "pd_phase d = PP_handshake" "pd_failure d = None" using False h f by auto
  then show ?thesis
    using p False handshake_session [OF q] peer_step_run [OF _ _ _ q] by (auto split: sum.splits simp: Let_def)
qed

lemma peer_step_store:
  assumes inv: "api_inv build allowed store lives peers"
    and r: "rl_udp_peer_step build os thread peer elapsed output store peers w
      = ((status, observed, store', peers'), w')"
  shows "store' = store \<and> peers' = peers
    \<or> (\<exists>q v s x native v'. peers q = Some v \<and> store (rp_session v) = Some s
        \<and> peer_step build os elapsed (rp_native v) w = (x, native, w')
        \<and> store' = store(rp_session v \<mapsto> s\<lparr>rs_native := pd_session native, rs_touched := rs_touched s \<or> ok x\<rparr>)
        \<and> peers' = peers(q \<mapsto> v') \<and> rp_session v' = rp_session v \<and> rp_native v' = native)"
proof (cases "first_failure [check_peer thread (lookup_ptr peer peers) store, validate size_udp_step_result output]
    = RL_OK \<and> rp_failure (the (lookup_ptr peer peers)) = RL_OK")
  case False
  then show ?thesis using r by (auto simp: rl_udp_peer_step_def Let_def split: if_splits)
next
  case True
  then have "check_peer thread (lookup_ptr peer peers) store = RL_OK" by (simp add: first_failure_ok)
  then obtain q v s where q: "peer = Some q" "peers q = Some v" "store (rp_session v) = Some s"
    by (auto simp: check_peer_ok lookup_ptr_Some)
  obtain x native w1 where x: "peer_step build os elapsed (rp_native v) w = (x, native, w1)"
    by (metis prod_cases3)
  note same = attach_peer_same [OF api_invD(3) [OF inv q(2)]]
  have "\<exists>v'. store' = store(rp_session v \<mapsto> s\<lparr>rs_native := pd_session native, rs_touched := rs_touched s \<or> ok x\<rparr>)
      \<and> peers' = peers(q \<mapsto> v') \<and> rp_session v' = rp_session v \<and> rp_native v' = native \<and> w' = w1"
    using r True q x by (cases x) (auto simp: rl_udp_peer_step_def Let_def same keep_session_def split: if_splits)
  with q x show ?thesis by blast
qed

lemma api_peer_step_inv:
  assumes inv: "api_inv build allowed store lives peers"
    and r: "rl_udp_peer_step build os thread peer elapsed output store peers w
      = ((status, observed, store', peers'), w')"
  shows "api_inv build allowed store' lives peers'"
  using peer_step_store [OF inv r]
proof (elim disjE exE conjE)
  fix q v s x native v'
  assume q: "peers q = Some v" "store (rp_session v) = Some s"
    and x: "peer_step build os elapsed (rp_native v) w = (x, native, w')"
    and store': "store' = store(rp_session v \<mapsto> s\<lparr>rs_native := pd_session native, rs_touched := rs_touched s \<or> ok x\<rparr>)"
    and v': "peers' = peers(q \<mapsto> v')" "rp_session v' = rp_session v" "rp_native v' = native"
  note e = api_invD(3) [OF inv q(1)]
  have f: "pd_failure (rp_native v) \<noteq> None \<longleftrightarrow> pd_phase (rp_native v) = PP_failed"
    and n: "rs_native s = pd_session (rp_native v)"
    and u: "\<not> rs_touched s \<Longrightarrow> pd_phase (rp_native v) \<in> {PP_handshake, PP_failed}"
    using e q(2) by (simp_all add: peer_entry_def)
  have idle: "pd_session native = rs_native s \<and> pd_phase native \<in> {PP_handshake, PP_failed}"
    if "\<not> (rs_touched s \<or> ok x)"
  proof -
    from that obtain err where "x = Inl err" by (cases x) auto
    with x have "peer_step build os elapsed (rp_native v) w = (Inl err, native, w')" by simp
    from failed_step_session [OF f this u] that n show ?thesis by simp
  qed
  have "pd_failure native \<noteq> None \<longleftrightarrow> pd_phase native = PP_failed"
    using peer_step_cases [OF f x] f by (auto split: sum.splits simp: phase_edge_def)
  then have e': "peer_entry store' v'" using idle v' by (auto simp: peer_entry_def store')
  have t: "session_entry allowed (s\<lparr>rs_native := pd_session native, rs_touched := rs_touched s \<or> ok x\<rparr>)"
    using api_invD(1) [OF inv q(2)] idle by (auto simp: session_entry_def)
  have h: "holds lives peers (Inr q) p \<longleftrightarrow> p = rp_session v" for p using q by simp
  show ?thesis
  proof (rule holder_step [OF inv, of "Inr q"])
    show "store' p = store p" if "\<not> holds lives peers (Inr q) p" for p using that h store' by simp
    show "\<exists>s'. store' p = Some s' \<and> rs_borrowed s' = rs_borrowed s0 \<and> session_entry allowed s'"
      if p: "holds lives peers (Inr q) p" "store p = Some s0" for p s0
      using p q(2) t unfolding h by (simp add: store')
    show "peer_entry store' y" if "peers' k = Some y" "Inr k = (Inr q :: nat + nat)" for k y
      using that e' v'(1) by simp
    show "holds lives peers' (Inr q) p = holds lives peers (Inr q) p" for p unfolding h using v' by simp
  qed (use v'(1) in auto)
qed (use inv in simp)

section \<open>Every client\<close>

lemma api_reach_inv:
  "api_reach build os allowed a \<Longrightarrow> api_inv build allowed (as_sessions a) (as_lives a) (as_peers a)"
proof (induction rule: api_reach.induct)
  case (no_calls w)
  have "holds (\<lambda>_. None) (\<lambda>_. None) h p = False" for h p by (cases h) simp_all
  then show ?case by (auto intro!: api_invI simp: borrows_once_def is_borrowed_def holders_def)
next
  case (session_create a addr config thread has_output status out store)
  from session_create_inv [OF session_create.IH session_create.hyps(2-4)] show ?case by simp
next
  case (session_destroy a thread session status store)
  from session_destroy_inv [OF session_destroy.IH session_destroy.hyps(2)] show ?case by simp
next
  case (session_advance a thread session input hdr status result store)
  from session_advance_inv [OF session_advance.IH session_advance.hyps(2)] show ?case by simp
next
  case (session_ingest a thread session input status store)
  from session_ingest_inv [OF session_ingest.IH session_ingest.hyps(2)] show ?case by simp
next
  case (session_flush a thread session hdr status corrected store)
  from session_flush_inv [OF session_flush.IH session_flush.hyps(2)] show ?case by simp
next
  case (live_create a addr thread live_cfg x y has_output status out store lives)
  from live_create_inv [OF live_create.IH live_create.hyps(2,3)] show ?case by simp
next
  case (live_destroy a thread live status store lives)
  from live_destroy_inv [OF live_destroy.IH live_destroy.hyps(2)] show ?case by simp
next
  case (live_step a thread live override buttons hdr status stepped store lives)
  from live_step_inv [OF live_step.IH live_step.hyps(2)] show ?case by simp
next
  case (peer_create a addr thread udp_cfg session has_output status out store peers w)
  from peer_create_inv [OF peer_create.IH peer_create.hyps(2,3)] show ?case by simp
next
  case (peer_destroy a thread peer status store peers w)
  from peer_destroy_inv [OF peer_destroy.IH peer_destroy.hyps(2)] show ?case by simp
next
  case (peer_stepped a thread peer elapsed hdr status observed store peers w)
  from api_peer_step_inv [OF peer_stepped.IH peer_stepped.hyps(2)] show ?case by simp
qed simp

section \<open>A client\<close>

definition sample_config :: "u32 \<Rightarrow> rl_session_config" where
  "sample_config peer = \<lparr>sf_header = initialized size_session_config, sf_local_peer = peer,
     sf_max_rollback_frames = 8, sf_simulation_variant = 0, sf_reserved = 0\<rparr>"

definition sample_session :: "u32 \<Rightarrow> rl_session" where
  "sample_session peer = \<lparr>rs_native = make_session (native_session_config (sample_config peer)), rs_owner = 7,
     rs_local_peer = peer, rs_borrowed = False, rs_touched = False\<rparr>"

definition sample_live_config :: rl_live_config where
  "sample_live_config = \<lparr>lf_header = initialized size_live_config, lf_scenario_seed = 1, lf_transport_seed = 2,
     lf_frame_count = 60, lf_base_latency_ticks = 2, lf_jitter_ticks = 1, lf_loss_percent = 5,
     lf_reorder_percent = 5, lf_duplicate_percent = 5, lf_burst_loss_percent = 1, lf_max_queue_packets = 64,
     lf_max_queue_bytes = 65536, lf_bandwidth_bytes_per_tick = 65536, lf_max_packet_age_ticks = 60,
     lf_tail_redundancy_ticks = 16\<rparr>"

lemma validate_initialized [simp]: "validate n (Some (initialized n)) = RL_OK"
  by (simp add: validate_def initialized_def)

lemma sample_create:
  "peer \<le> RL_PEER_B \<Longrightarrow> rl_session_create 7 addr (Some (sample_config peer)) True store
     = (RL_OK, Some (Some addr), store(addr \<mapsto> sample_session peer))"
  by (simp add: rl_session_create_def sample_config_def sample_session_def Let_def not_less
      kDefaultMaxRollbackFrames_def RL_VARIANT_DAMAGE_BIAS_def)

lemma sample_live_created:
  fixes build :: BuildInfo
  defines "store \<equiv> [0 \<mapsto> sample_session RL_PEER_A, 1 \<mapsto> sample_session RL_PEER_B]"
  obtains v where "rl_live_create build 7 5 (Some sample_live_config) (Some 0) (Some 1) True store (\<lambda>_. None)
    = (RL_OK, Some (Some 5), set_borrowed True 1 (set_borrowed True 0 store), [5 \<mapsto> v])"
    "rv_a v = 0" "rv_b v = 1" "rv_owner v = 7" "rv_failure v = RL_OK"
proof -
  have "validate_live_config (Some sample_live_config) = RL_OK"
    by (simp add: validate_live_config_def sample_live_config_def)
  moreover have "check_session 7 (Some (sample_session peer)) True = RL_OK" for peer
    by (simp add: check_session_ok sample_session_def)
  ultimately have c: "first_failure [validate_live_config (Some sample_live_config),
      check_session 7 (Some (sample_session RL_PEER_A)) True, check_session 7 (Some (sample_session RL_PEER_B)) True]
      = RL_OK" by (simp add: first_failure_ok)
  have "\<exists>n. create_live build (native_live_config sample_live_config) False (rs_native (sample_session RL_PEER_A))
      (rs_native (sample_session RL_PEER_B)) = Inr n"
    by (simp add: create_live_def native_live_config_def sample_live_config_def sample_session_def
        sample_config_def native_session_config_def make_session_def session_report_def kMaxReplayFrames_def
        default_scenario_config_def peer_of_value_def RL_PEER_A_def RL_PEER_B_def)
  then obtain n where n: "create_live build (native_live_config sample_live_config) False
      (rs_native (sample_session RL_PEER_A)) (rs_native (sample_session RL_PEER_B)) = Inr n" ..
  have s: "rs_local_peer (sample_session peer) = peer" "\<not> rs_touched (sample_session peer)" for peer
    by (simp_all add: sample_session_def)
  show thesis
    by (rule that [of "\<lparr>rv_a = 0, rv_b = 1, rv_native = n, rv_owner = 7, rv_finished = False, rv_failure = RL_OK\<rparr>"])
      (use c n s in \<open>simp_all add: rl_live_create_def Let_def store_def\<close>)
qed

lemma sample_client:
  obtains v where "api_reach build os {0} \<lparr>as_sessions = set_borrowed True 1 (set_borrowed True 0
      [0 \<mapsto> sample_session RL_PEER_A, 1 \<mapsto> sample_session RL_PEER_B]),
    as_lives = [5 \<mapsto> v], as_peers = \<lambda>_. None, as_world = w\<rparr>" "rv_a v = 0" "rv_b v = 1" "rv_owner v = 7"
    "rv_failure v = RL_OK"
proof -
  let ?a = "\<lparr>as_sessions = \<lambda>_. None, as_lives = \<lambda>_. None, as_peers = \<lambda>_. None, as_world = w\<rparr>"
  let ?a1 = "?a\<lparr>as_sessions := [0 \<mapsto> sample_session RL_PEER_A]\<rparr>"
  let ?a2 = "?a1\<lparr>as_sessions := [0 \<mapsto> sample_session RL_PEER_A, 1 \<mapsto> sample_session RL_PEER_B]\<rparr>"
  have c: "\<forall>c. Some (sample_config p) = Some c \<longrightarrow> sf_simulation_variant c \<in> {0}" for p
    by (simp add: sample_config_def)
  have "api_reach build os {0} ?a1"
    using api_reach.session_create [OF api_reach.no_calls _ c sample_create [of RL_PEER_A]]
    by (simp add: RL_PEER_A_def RL_PEER_B_def)
  from api_reach.session_create [OF this _ c sample_create [of RL_PEER_B]]
  have "api_reach build os {0} ?a2" by simp
  note a2 = this
  obtain v where v: "rl_live_create build 7 5 (Some sample_live_config) (Some 0) (Some 1) True
      [0 \<mapsto> sample_session RL_PEER_A, 1 \<mapsto> sample_session RL_PEER_B] (\<lambda>_. None)
    = (RL_OK, Some (Some 5), set_borrowed True 1 (set_borrowed True 0
        [0 \<mapsto> sample_session RL_PEER_A, 1 \<mapsto> sample_session RL_PEER_B]), [5 \<mapsto> v])"
    "rv_a v = 0" "rv_b v = 1" "rv_owner v = 7" "rv_failure v = RL_OK"
    by (rule sample_live_created)
  with api_reach.live_create [OF a2, of 5 7 "Some sample_live_config" "Some 0" "Some 1" True] that
  show thesis by simp
qed

section \<open>Properties\<close>

lemma borrowed_refused:
  assumes "store p = Some s" "rs_borrowed s"
  shows "let refusal = (if rs_owner s \<noteq> thread then RL_WRONG_THREAD else RL_BORROWED) in
      rl_session_destroy thread (Some p) store = (refusal, store)
    \<and> rl_session_advance thread (Some p) input out store = (refusal, None, store)
    \<and> rl_session_ingest_remote thread (Some p) input store = (refusal, store)
    \<and> rl_session_flush_corrections thread (Some p) out store = (refusal, None, store)"
  using assms by (simp add: rl_session_destroy_def rl_session_advance_def rl_session_ingest_remote_def
      rl_session_flush_corrections_def check_session_def first_failure.simps Let_def rl_codes)

text \<open>The driver \<open>h\<close> works on the session \<open>s\<close> at the address \<open>p\<close>.\<close>

definition works_on :: "Lives \<Rightarrow> Peers \<Rightarrow> nat + nat \<Rightarrow> nat \<Rightarrow> rl_session \<Rightarrow> bool" where
  "works_on lives peers h p s \<longleftrightarrow>
     (case h of
        Inl l \<Rightarrow> \<exists>v. lives l = Some v \<and> rs_owner s = rv_owner v
          \<and> rs_native s = (if p = rv_a v then lv_peer_a (rv_native v) else lv_peer_b (rv_native v))
      | Inr q \<Rightarrow> \<exists>v. peers q = Some v \<and> rs_native s = pd_session (rp_native v))"

lemma holder_works_on:
  assumes inv: "api_inv build allowed store lives peers" and h: "holds lives peers h p" and s: "store p = Some s"
  shows "works_on lives peers h p s"
proof (cases h)
  case (Inl l)
  with h obtain v where v: "lives l = Some v" "p \<in> {rv_a v, rv_b v}" by (auto split: option.splits)
  from api_invD(2) [OF inv v(1)] v s show ?thesis by (auto simp: works_on_def Inl live_entry_def)
next
  case (Inr q)
  with h obtain v where v: "peers q = Some v" "p = rp_session v" by (auto split: option.splits)
  from api_invD(3) [OF inv v(1)] v s show ?thesis by (auto simp: works_on_def Inr peer_entry_def)
qed

text \<open>
  C9. Whatever calls a client of the C interface makes, every session is held by at most one live run or UDP peer, and
  none is held that does not exist. A session that nobody holds can be destroyed by its thread. A held one is the one its
  driver works on, and until the driver gives it back every call that would change or destroy it is refused and
  leaves the store as it is.
\<close>

theorem api_sessions_owned:
  assumes "api_reach build os allowed a"
  shows "case as_sessions a p of
      None \<Rightarrow> holders (as_lives a) (as_peers a) p = {}
    | Some s \<Rightarrow>
        if holders (as_lives a) (as_peers a) p = {}
        then rl_session_destroy (rs_owner s) (Some p) (as_sessions a) = (RL_OK, (as_sessions a)(p := None))
        else (\<exists>h. holders (as_lives a) (as_peers a) p = {h} \<and> works_on (as_lives a) (as_peers a) h p s)
          \<and> (let refusal = (if rs_owner s \<noteq> thread then RL_WRONG_THREAD else RL_BORROWED) in
             rl_session_destroy thread (Some p) (as_sessions a) = (refusal, as_sessions a)
           \<and> rl_session_advance thread (Some p) input out (as_sessions a) = (refusal, None, as_sessions a)
           \<and> rl_session_ingest_remote thread (Some p) input (as_sessions a) = (refusal, as_sessions a)
           \<and> rl_session_flush_corrections thread (Some p) out (as_sessions a) = (refusal, None, as_sessions a))"
proof (cases "is_borrowed (as_sessions a) p")
  case True
  note inv = api_reach_inv [OF assms]
  obtain s where s: "as_sessions a p = Some s" "rs_borrowed s" using True by (auto simp: is_borrowed_def)
  obtain h where h: "holders (as_lives a) (as_peers a) p = {h}" using api_invD(4) [OF inv True] by blast
  then have "holds (as_lives a) (as_peers a) h p" by (auto simp: holders_def)
  from holder_works_on [OF inv this s(1)] borrowed_refused [of "as_sessions a" p s thread, OF s] h s(1) show ?thesis by simp
next
  case False
  note inv = api_reach_inv [OF assms]
  from False api_invD(5) [OF inv False] show ?thesis
    by (auto simp: is_borrowed_def rl_session_destroy_def check_session_def Let_def split: option.splits)
qed

theorem api_sessions_owned_witness:
  "\<exists>a. api_reach sample_build memory_host {0} a
     \<and> rl_session_destroy 7 (Some 0) (as_sessions a) = (RL_BORROWED, as_sessions a)
     \<and> rl_session_flush_corrections 8 (Some 1) None (as_sessions a) = (RL_WRONG_THREAD, None, as_sessions a)"
proof -
  define store where "store = set_borrowed True 1 (set_borrowed True 0
    [0 \<mapsto> sample_session RL_PEER_A, 1 \<mapsto> sample_session RL_PEER_B])"
  obtain v where r: "api_reach sample_build memory_host {0} \<lparr>as_sessions = store, as_lives = [5 \<mapsto> v],
      as_peers = \<lambda>_. None, as_world = empty_memory\<rparr>" and v: "rv_a v = 0" "rv_b v = 1"
    unfolding store_def by (rule sample_client)
  then obtain a where a: "api_reach sample_build memory_host {0} a" "as_sessions a = store" "as_lives a = [5 \<mapsto> v]"
    by fastforce
  have "Inl 5 \<in> holders (as_lives a) (as_peers a) 0" "Inl 5 \<in> holders (as_lives a) (as_peers a) 1"
    using v a(3) by (simp_all add: holders_def)
  then have h: "holders (as_lives a) (as_peers a) 0 \<noteq> {}" "holders (as_lives a) (as_peers a) 1 \<noteq> {}" by blast+
  obtain s0 s1 where s: "store 0 = Some s0" "store 1 = Some s1" "rs_owner s0 = 7" "rs_owner s1 = 7"
    by (simp add: store_def set_borrowed_def sample_session_def)
  from api_sessions_owned [OF a(1), of 0 7] h(1) s a(2)
    have "rl_session_destroy 7 (Some 0) (as_sessions a) = (RL_BORROWED, as_sessions a)" by (simp add: Let_def)
  moreover from api_sessions_owned [OF a(1), of 1 8 _ None] h(2) s a(2)
    have "rl_session_flush_corrections 8 (Some 1) None (as_sessions a) = (RL_WRONG_THREAD, None, as_sessions a)"
    by (simp add: Let_def)
  ultimately show ?thesis using a(1) by blast
qed

lemma api_config_live:
  "api_config {0} RL_PEER_A cfg \<Longrightarrow> live_config PA cfg" "api_config {0} RL_PEER_B cfg \<Longrightarrow> live_config PB cfg"
  using api_config_valid [of "{0}" RL_PEER_A cfg] api_config_valid [of "{0}" RL_PEER_B cfg]
  by (auto simp: api_config_def live_config_def peer_of_value_def RL_PEER_A_def RL_PEER_B_def variant_canonical_def)

lemma canonical_run:
  assumes "api_reach build os {0} a" "as_lives a l = Some v"
  obtains config cfgA cfgB where "live_reach build config cfgA cfgB (rv_native v)"
    "live_config PA cfgA" "live_config PB cfgB"
  using api_invD(2) [OF api_reach_inv [OF assms(1)] assms(2)] api_config_live that unfolding live_entry_def by blast

lemma run_error_status:
  "run_error e \<Longrightarrow> to_status (err_code e) \<in> {RL_INVALID_ARGUMENT, RL_CAPACITY, RL_ROLLBACK_WINDOW, RL_TIMEOUT}"
  by (auto simp: run_error_def live_error_def)

text \<open>
  C10. In a client that creates only sessions of the canonical variant, a step of a live run never reports a
  desync, neither as its status nor in its result, whatever calls came before and whatever buttons it is given. A
  step that reports the end of the run leaves both sessions in the state of the reference simulation.
\<close>

theorem api_live_never_desyncs:
  assumes "api_reach build os {0} a"
    and "rl_live_step build thread live override buttons out (as_sessions a) (as_lives a) = (status, stepped, store, lives)"
  shows "case stepped of
      None \<Rightarrow> status \<in> {RL_INVALID_ARGUMENT, RL_WRONG_THREAD, RL_ABI_VERSION, RL_STRUCT_SIZE, RL_CAPACITY,
        RL_ROLLBACK_WINDOW, RL_TIMEOUT}
    | Some r \<Rightarrow> status = RL_OK \<and> lr_desync_detected r = 0
        \<and> (lr_finished r \<noteq> 0 \<longrightarrow> (\<exists>l v sa sb. live = Some l \<and> lives l = Some v \<and> converged (rv_native v)
             \<and> store (rv_a v) = Some sa \<and> store (rv_b v) = Some sb
             \<and> s_state (rs_native sa) = s_state (rs_native sb)
             \<and> truth (hist (rv_native v)) (frames_of (rv_native v)) = Inr (s_state (rs_native sa))))"
  using live_step_cases [OF api_reach_inv [OF assms(1)] assms(2)]
proof (elim disjE exE conjE)
  assume "stepped = None" "status \<in> {RL_INVALID_ARGUMENT, RL_WRONG_THREAD, RL_ABI_VERSION, RL_STRUCT_SIZE}"
  then show ?thesis by auto
next
  fix l v
  assume n: "stepped = None" and l: "as_lives a l = Some v" and f: "status = rv_failure v" "status \<noteq> RL_OK"
  obtain e where e: "lv_failure (rv_native v) = Some e" "status = to_status (err_code e)"
    using api_invD(2) [OF api_reach_inv [OF assms(1)] l] f by (auto simp: live_entry_def)
  obtain config cfgA cfgB where "live_reach build config cfgA cfgB (rv_native v)" "live_config PA cfgA" "live_config PB cfgB"
    by (rule canonical_run [OF assms(1) l])
  from live_reach_status [OF this] e(1) have "run_error e" by (simp add: live_status_def)
  from run_error_status [OF this] e(2) n show ?thesis by auto
next
  fix l v sa sb b q native
  assume l: "live = Some l" "as_lives a l = Some v"
    and s: "as_sessions a (rv_a v) = Some sa" "as_sessions a (rv_b v) = Some sb"
    and q: "step_live build b (rv_native v) = (q, native)"
    and st: "store = (as_sessions a)(rv_a v \<mapsto> sa\<lparr>rs_native := lv_peer_a native, rs_touched := True\<rparr>,
        rv_b v \<mapsto> sb\<lparr>rs_native := lv_peer_b native, rs_touched := True\<rparr>)"
    and c: "case q of
        Inl e \<Rightarrow> status = to_status (err_code e) \<and> stepped = None
          \<and> lives = (as_lives a)(l \<mapsto> v\<lparr>rv_native := native, rv_failure := to_status (err_code e)\<rparr>)
      | Inr fin \<Rightarrow> status = RL_OK
          \<and> lives = (as_lives a)(l \<mapsto> v\<lparr>rv_native := native, rv_failure := RL_OK, rv_finished := fin\<rparr>)
          \<and> (\<exists>o'. stepped = Some o' \<and> lr_desync_detected o'
               = bool_u32 (tx_desync (sa_trace (lv_artifacts native)) \<noteq> None) \<and> lr_finished o' = bool_u32 fin)"
  obtain config cfgA cfgB where run: "live_reach build config cfgA cfgB (rv_native v)"
      "live_config PA cfgA" "live_config PB cfgB"
    by (rule canonical_run [OF assms(1) l(2)])
  have "live_status (rv_native v)" using live_reach_status [OF run] by simp
  note outcome = step_live_status [OF this q]
  have unmarked: "tx_desync (trace_of native) = None"
    using live_never_marked [OF live_reach.stepped [OF run(1) q] run(2,3)] .
  have "rv_a v \<noteq> rv_b v" using api_invD(2) [OF api_reach_inv [OF assms(1)] l(2)] by (simp add: live_entry_def)
  show ?thesis
  proof (cases q)
    case (Inl e)
    with outcome have "run_error e" by simp
    from run_error_status [OF this] c Inl show ?thesis by auto
  next
    case (Inr fin)
    with c obtain o' where o': "status = RL_OK" "stepped = Some o'" "lr_desync_detected o' = 0"
        "lr_finished o' = bool_u32 fin" "lives l = Some (v\<lparr>rv_native := native, rv_failure := RL_OK, rv_finished := fin\<rparr>)"
      using unmarked by (auto simp: bool_u32_def)
    have "converged native" if "fin" using outcome Inr that by simp
    then have "s_state (lv_peer_a native) = s_state (lv_peer_b native)
        \<and> truth (hist native) (frames_of native) = Inr (s_state (lv_peer_a native)) \<and> converged native" if "fin"
      using that by (auto simp: converged_def Let_def)
    then show ?thesis using o' l(1) st \<open>rv_a v \<noteq> rv_b v\<close> by (auto simp: bool_u32_def)
  qed
qed

theorem api_live_never_desyncs_witness:
  "\<exists>a status stepped store lives. api_reach sample_build memory_host {0} a
     \<and> rl_live_step sample_build 7 (Some 5) 1 16 (Some (initialized size_live_step_result)) (as_sessions a) (as_lives a)
         = (status, stepped, store, lives)
     \<and> status \<noteq> RL_DESYNC"
proof -
  obtain v where a: "api_reach sample_build memory_host {0} \<lparr>as_sessions = set_borrowed True 1 (set_borrowed True 0
      [0 \<mapsto> sample_session RL_PEER_A, 1 \<mapsto> sample_session RL_PEER_B]),
      as_lives = [5 \<mapsto> v], as_peers = \<lambda>_. None, as_world = empty_memory\<rparr>"
    by (rule sample_client)
  let ?a = "\<lparr>as_sessions = set_borrowed True 1 (set_borrowed True 0
      [0 \<mapsto> sample_session RL_PEER_A, 1 \<mapsto> sample_session RL_PEER_B]),
      as_lives = [5 \<mapsto> v], as_peers = \<lambda>_. None, as_world = empty_memory\<rparr>"
  obtain status stepped store lives where r: "rl_live_step sample_build 7 (Some 5) 1 16
      (Some (initialized size_live_step_result)) (as_sessions ?a) (as_lives ?a) = (status, stepped, store, lives)"
    by (metis prod_cases4)
  from api_live_never_desyncs [OF a r] have "status \<noteq> RL_DESYNC"
    by (auto simp: rl_codes split: option.splits)
  with a r show ?thesis by blast
qed

end
