(* ===== verification/PropertySweep.thy ===== *)
theory PropertySweep
  imports LiveTrace Json
begin

text \<open>
  The property sweep: \<open>report/property_sweep.hpp\<close>, \<open>src/report/property_sweep.cpp\<close>, a driver that runs
  \<open>run_seeded_scenario\<close> on generated configurations and checks each result.

  C++ leaves open which of the two draws in \<open>(random.next_u32() << 32) | random.next_u32()\<close> happens first; the
  parameter \<open>left_first\<close> of the definitions is the compiler's choice.
\<close>

section \<open>Cases\<close>

definition loss_rates :: "u32 list" where "loss_rates = [0, 1, 5, 20]"
definition edge_frame_counts :: "u32 list" where "edge_frame_counts = [1, 32, 120, 121, 255, 256, 257]"
definition digest_offset :: StateHash where "digest_offset = 14695981039346656037"
definition digest_prime :: StateHash where "digest_prime = 1099511628211"

definition mix_digest :: "StateHash \<Rightarrow> u64 \<Rightarrow> StateHash" where
  "mix_digest digest value =
     foldl (\<lambda>d shift. (d XOR ucast (ucast (drop_bit shift value AND 0xFF) :: u8)) * digest_prime) digest
       [0, 8, 16, 24, 32, 40, 48, 56]"

record SweepCase =
  sw_scenario :: ScenarioRunConfig
  sw_expected_failure :: "ErrorCode option"

definition draw_u64 :: "bool \<Rightarrow> Pcg32 \<Rightarrow> u64 \<times> Pcg32" where
  "draw_u64 left_first r =
     (let (first, r) = next_u32 r; (second, r) = next_u32 r;
          (high, low) = (if left_first then (first, second) else (second, first))
      in (push_bit 32 (ucast high) OR ucast low, r))"

definition scenario_for :: "bool \<Rightarrow> u32 \<Rightarrow> u32 \<Rightarrow> SweepCase" where
  "scenario_for left_first seed_index offset =
     (let r = make_pcg32 (0x9E3779B97F4A7C15 XOR ucast seed_index) (0xD1B54A32D192ED03 + ucast seed_index);
          (scenario_seed, r) = draw_u64 left_first r;
          (transport_seed, r) = draw_u64 left_first r;
          edge = unat offset < length edge_frame_counts;
          (frame_count, r) = (if edge then (edge_frame_counts ! unat offset, r)
                              else (let (n, r) = bounded 57 r in (40 + n, r)));
          (latency, r) = bounded 7 r;
          (jitter, r) = bounded 4 r;
          (loss_index, r) = bounded 4 r;
          (reorder, r) = bounded 21 r;
          (duplicate, r) = bounded 11 r;
          (burst, r) = bounded 4 r;
          t = default_transport_config
                \<lparr>tc_seed := transport_seed, tc_base_latency_ticks := latency, tc_jitter_ticks := jitter,
                 tc_loss_percent := loss_rates ! unat loss_index, tc_reorder_percent := reorder,
                 tc_duplicate_percent := duplicate, tc_burst_loss_percent := burst,
                 tc_max_queue_packets := 512, tc_max_queue_bytes := 512 * 1200,
                 tc_bandwidth_bytes_per_tick := 1048576, tc_max_packet_age_ticks := 128\<rparr>;
          still = t\<lparr>tc_jitter_ticks := 0, tc_loss_percent := 0, tc_reorder_percent := 0,
                    tc_duplicate_percent := 0, tc_burst_loss_percent := 0\<rparr>;
          config = default_scenario_config
                     \<lparr>sc_scenario_seed := scenario_seed, sc_transport_seed := transport_seed,
                      sc_frame_count := frame_count, sc_capture_trace := False,
                      sc_tail_redundancy_ticks := 64\<rparr>
      in if \<not> edge \<and> offset mod 50 = 7
         then \<lparr>sw_scenario = config\<lparr>sc_transport := still\<lparr>tc_base_latency_ticks := 20,
                 tc_max_queue_packets := 1, tc_max_queue_bytes := 1200\<rparr>\<rparr>,
               sw_expected_failure = Some EC_queue_overflow\<rparr>
         else if \<not> edge \<and> offset mod 50 = 8
         then \<lparr>sw_scenario = config\<lparr>sc_transport := still\<lparr>tc_base_latency_ticks := 10,
                 tc_max_packet_age_ticks := 0\<rparr>\<rparr>,
               sw_expected_failure = Some EC_timeout\<rparr>
         else \<lparr>sw_scenario = config\<lparr>sc_transport := t\<rparr>, sw_expected_failure = None\<rparr>)"

definition validate_success :: "ScenarioArtifacts \<Rightarrow> ScenarioRunConfig \<Rightarrow> bool" where
  "validate_success artifacts config \<longleftrightarrow>
     (let replay = verify_replay (sa_replay artifacts); report = sa_report artifacts; trace = sa_trace artifacts
      in rr_success report \<and> rr_replay_verified report \<and> ok replay
       \<and> rr_confirmed_frame report = sc_frame_count config
       \<and> rr_final_hash_a report = rr_final_hash_b report
       \<and> rr_final_hash_a report = rp_expected_final_hash (sa_replay artifacts)
       \<and> tx_frames trace = [] \<and> tx_packets trace = [] \<and> tx_rollbacks trace = [])"

section \<open>The sweep\<close>

record PropertySweepConfig =
  pw_start_seed :: u32
  pw_seed_count :: u32
  pw_repeat_identity_samples :: u32

record PropertySweepResult =
  px_start_seed :: u32
  px_total_seeds :: u32
  px_successful_seeds :: u32
  px_declared_failures :: u32
  px_repeated_identity_samples :: u32
  px_identity_mismatches :: u32
  px_crashes :: u32
  px_deadlocks :: u32
  px_unbounded_failures :: u32
  px_edge_frame_cases :: u32
  px_queue_overflow_failures :: u32
  px_timeout_failures :: u32
  px_loss_rate_scenarios :: "u32 list"
  px_identity_digest :: StateHash
  px_full_sweep_repeated :: bool

definition default_sweep_result :: PropertySweepResult where
  "default_sweep_result =
     \<lparr>px_start_seed = 0, px_total_seeds = 0, px_successful_seeds = 0, px_declared_failures = 0,
      px_repeated_identity_samples = 0, px_identity_mismatches = 0, px_crashes = 0, px_deadlocks = 0,
      px_unbounded_failures = 0, px_edge_frame_cases = 0, px_queue_overflow_failures = 0,
      px_timeout_failures = 0, px_loss_rate_scenarios = [0, 0, 0, 0], px_identity_digest = 0,
      px_full_sweep_repeated = False\<rparr>"

text \<open>\<open>std::find\<close> in \<open>loss_rates\<close>, as an index; the index behind the last when there is none.\<close>

definition loss_index_of :: "u32 \<Rightarrow> nat" where
  "loss_index_of percent = length (takeWhile (\<lambda>x. x \<noteq> percent) loss_rates)"

definition count_loss :: "u32 \<Rightarrow> PropertySweepResult \<Rightarrow> PropertySweepResult" where
  "count_loss percent r =
     (let i = loss_index_of percent
      in r\<lparr>px_loss_rate_scenarios := (px_loss_rate_scenarios r)[i := px_loss_rate_scenarios r ! i + 1]\<rparr>)"

text \<open>The body of the loop for a case that has to fail, and for one that has to succeed.\<close>

definition sweep_failure :: "BuildInfo \<Rightarrow> u32 \<Rightarrow> ScenarioRunConfig \<Rightarrow> ErrorCode
    \<Rightarrow> PropertySweepResult \<times> StateHash \<Rightarrow> (PropertySweepResult \<times> StateHash) Result" where
  "sweep_failure build seed scenario expected acc =
     (let (r, digest) = acc in
      case run_seeded_scenario build scenario of
        Inr _ \<Rightarrow> failure EC_invalid_argument (ucast seed) 0 ''property_expected_failure''
      | Inl e \<Rightarrow>
          if err_code e \<noteq> expected
          then failure (err_code e) (ucast seed) (err_offset e) ''property_expected_failure''
          else
            (let r = r\<lparr>px_declared_failures := px_declared_failures r + 1\<rparr>;
                 r = (if err_code e = EC_queue_overflow
                      then r\<lparr>px_queue_overflow_failures := px_queue_overflow_failures r + 1\<rparr>
                      else r\<lparr>px_timeout_failures := px_timeout_failures r + 1\<rparr>);
                 digest = mix_digest digest (ucast (error_code_value (err_code e)));
                 repeated = run_seeded_scenario build scenario;
                 r = r\<lparr>px_repeated_identity_samples := px_repeated_identity_samples r + 1\<rparr>
             in if (case repeated of Inr _ \<Rightarrow> True
                    | Inl e' \<Rightarrow> err_code e' \<noteq> err_code e \<or> err_detail e' \<noteq> err_detail e)
                then failure EC_replay_mismatch (ucast seed) 0 ''property_failure_repeat''
                else Inr (r, digest)))"

definition sweep_success :: "BuildInfo \<Rightarrow> u32 \<Rightarrow> u32 \<Rightarrow> u32 \<Rightarrow> ScenarioRunConfig
    \<Rightarrow> PropertySweepResult \<times> StateHash \<Rightarrow> (PropertySweepResult \<times> StateHash) Result" where
  "sweep_success build samples offset seed scenario acc =
     (let (r, digest) = acc in
      case run_seeded_scenario build scenario of
        Inl e \<Rightarrow> failure (err_code e) (ucast seed) (err_offset e) ''property_unexpected_failure''
      | Inr artifacts \<Rightarrow>
          if \<not> validate_success artifacts scenario
          then failure EC_replay_mismatch (ucast seed) 0 ''property_success_invariant''
          else
            (let r = r\<lparr>px_successful_seeds := px_successful_seeds r + 1\<rparr>;
                 identity = report_identity (sa_report artifacts);
                 digest = mix_digest digest identity
             in if offset < samples
                then
                  (let repeated = run_seeded_scenario build scenario;
                       r = r\<lparr>px_repeated_identity_samples := px_repeated_identity_samples r + 1\<rparr>
                   in if (case repeated of Inl _ \<Rightarrow> True
                          | Inr again \<Rightarrow> report_identity (sa_report again) \<noteq> identity
                              \<or> sa_replay again \<noteq> sa_replay artifacts)
                      then failure EC_replay_mismatch (ucast seed) 0 ''property_identity_repeat''
                      else Inr (r, digest))
                else Inr (r, digest)))"

definition sweep_case :: "BuildInfo \<Rightarrow> bool \<Rightarrow> PropertySweepConfig \<Rightarrow> u32
    \<Rightarrow> PropertySweepResult \<times> StateHash \<Rightarrow> (PropertySweepResult \<times> StateHash) Result" where
  "sweep_case build left_first config offset acc =
     (let (r, digest) = acc;
          seed = pw_start_seed config + offset;
          c = scenario_for left_first seed offset;
          scenario = sw_scenario c;
          r = count_loss (tc_loss_percent (sc_transport scenario)) r;
          digest = mix_digest digest (ucast seed)
      in case sw_expected_failure c of
           Some expected \<Rightarrow> sweep_failure build seed scenario expected (r, digest)
         | None \<Rightarrow> sweep_success build (pw_repeat_identity_samples config) offset seed scenario (r, digest))"

fun sweep_loop :: "BuildInfo \<Rightarrow> bool \<Rightarrow> PropertySweepConfig \<Rightarrow> u32 list
    \<Rightarrow> PropertySweepResult \<times> StateHash \<Rightarrow> (PropertySweepResult \<times> StateHash) Result" where
  "sweep_loop build left_first config [] acc = Inr acc"
| "sweep_loop build left_first config (offset # offsets) acc =
     (case sweep_case build left_first config offset acc of
        Inl e \<Rightarrow> Inl e
      | Inr acc \<Rightarrow> sweep_loop build left_first config offsets acc)"

definition run_property_sweep :: "BuildInfo \<Rightarrow> bool \<Rightarrow> PropertySweepConfig \<Rightarrow> PropertySweepResult Result" where
  "run_property_sweep build left_first config =
     (if pw_seed_count config = 0 \<or> pw_seed_count config > 100000
         \<or> pw_repeat_identity_samples config > pw_seed_count config
      then failure EC_invalid_argument (ucast (pw_seed_count config)) 0 ''property_sweep_config''
      else
        (let r = default_sweep_result\<lparr>px_start_seed := pw_start_seed config, px_total_seeds := pw_seed_count config,
               px_edge_frame_cases := min (pw_seed_count config) (of_nat (length edge_frame_counts))\<rparr>
         in case sweep_loop build left_first config (map of_nat [0..<unat (pw_seed_count config)]) (r, digest_offset) of
              Inl e \<Rightarrow> Inl e
            | Inr (r, digest) \<Rightarrow> Inr (r\<lparr>px_identity_digest := digest\<rparr>)))"

section \<open>The summary\<close>

definition sweep_ok :: "PropertySweepResult \<Rightarrow> bool" where
  "sweep_ok r \<longleftrightarrow> px_successful_seeds r + px_declared_failures r = px_total_seeds r
     \<and> px_identity_mismatches r = 0 \<and> px_crashes r = 0 \<and> px_deadlocks r = 0 \<and> px_unbounded_failures r = 0"

definition sweep_field :: "string \<Rightarrow> string \<Rightarrow> string" where
  "sweep_field name value = ''  \"'' @ name @ ''\":'' @ value @ '','' @ nl"

definition sweep_json :: "PropertySweepResult \<Rightarrow> string" where
  "sweep_json r =
     ''{'' @ nl
     @ sweep_field ''pcg32_version'' ''1''
     @ sweep_field ''start_seed'' (dec_word (px_start_seed r))
     @ sweep_field ''total_seeds'' (dec_word (px_total_seeds r))
     @ sweep_field ''successful_seeds'' (dec_word (px_successful_seeds r))
     @ sweep_field ''declared_failures'' (dec_word (px_declared_failures r))
     @ sweep_field ''repeated_identity_samples'' (dec_word (px_repeated_identity_samples r))
     @ sweep_field ''identity_mismatches'' (dec_word (px_identity_mismatches r))
     @ sweep_field ''crashes'' (dec_word (px_crashes r))
     @ sweep_field ''deadlocks'' (dec_word (px_deadlocks r))
     @ sweep_field ''unbounded_failures'' (dec_word (px_unbounded_failures r))
     @ sweep_field ''edge_frame_cases'' (dec_word (px_edge_frame_cases r))
     @ sweep_field ''queue_overflow_failures'' (dec_word (px_queue_overflow_failures r))
     @ sweep_field ''timeout_failures'' (dec_word (px_timeout_failures r))
     @ sweep_field ''loss_rate_scenarios''
         (''{\"0\":'' @ dec_word (px_loss_rate_scenarios r ! 0) @ '',\"1\":'' @ dec_word (px_loss_rate_scenarios r ! 1)
          @ '',\"5\":'' @ dec_word (px_loss_rate_scenarios r ! 2) @ '',\"20\":''
          @ dec_word (px_loss_rate_scenarios r ! 3) @ ''}'')
     @ sweep_field ''identity_digest'' (dec_word (px_identity_digest r))
     @ sweep_field ''full_sweep_repeated'' (json_bool (px_full_sweep_repeated r))
     @ ''  \"success\":'' @ json_bool (sweep_ok r) @ nl @ ''}'' @ nl"

section \<open>What a sweep can find\<close>

lemma scenario_for_facts:
  assumes c_def: "c = scenario_for left_first seed offset"
  shows "tc_loss_percent (sc_transport (sw_scenario c)) \<in> set loss_rates"
    and "sc_peer_b_variant (sw_scenario c) = variant_canonical" "\<not> sc_capture_trace (sw_scenario c)"
    and "sw_expected_failure c \<in> {None, Some EC_queue_overflow, Some EC_timeout}"
proof -
  have loss: "loss_rates ! unat i \<in> set loss_rates" if "bounded 4 r = (i, r')" for i r r'
  proof -
    have "i < 4" using bounded_in_range [OF that] by simp
    then have "unat i < length loss_rates" by (simp add: loss_rates_def word_less_nat_alt)
    then show ?thesis by (rule nth_mem)
  qed
  have zero: "0 \<in> set loss_rates" by (simp add: loss_rates_def)
  show "tc_loss_percent (sc_transport (sw_scenario c)) \<in> set loss_rates"
    unfolding c_def scenario_for_def Let_def by (auto simp: zero split: prod.splits intro: loss)
  show "sc_peer_b_variant (sw_scenario c) = variant_canonical" "\<not> sc_capture_trace (sw_scenario c)"
      "sw_expected_failure c \<in> {None, Some EC_queue_overflow, Some EC_timeout}"
    unfolding c_def scenario_for_def Let_def by (auto simp: default_scenario_config_def split: prod.splits)
qed

lemma loss_index_bound: "percent \<in> set loss_rates \<Longrightarrow> loss_index_of percent < 4"
  by (auto simp: loss_index_of_def loss_rates_def)

text \<open>What a run of canonical peers returns, as an artifact that \<open>validate_success\<close> accepts.\<close>

lemma seeded_run_valid:
  assumes c: "sc_peer_b_variant config = variant_canonical" "\<not> sc_capture_trace config"
  shows "case run_seeded_scenario build config of
      Inl e \<Rightarrow> run_error e
    | Inr artifacts \<Rightarrow> validate_success artifacts config"
proof (cases "create_live build config False (make_session (default_session_config PA))
      (make_session (seeded_peer_b config))")
  case (Inl e)
  then have "run_seeded_scenario build config = Inl e"
    by (simp add: run_seeded_scenario_def seeded_peer_b_def Let_def)
  moreover have "err_code e = EC_invalid_argument" using Inl by (auto simp: create_live_def split: if_splits)
  ultimately show ?thesis by (simp add: run_error_def live_error_def)
next
  case (Inr st)
  from run_seeded_steps [OF Inr] obtain r st' st'' where
    st: "live_reach build config (default_session_config PA) (seeded_peer_b config) st''"
      "step_live build None st'' = (r, st')"
      "r = Inr True \<and> run_seeded_scenario build config = Inr (lv_artifacts st')
       \<or> (\<exists>e. r = Inl e \<and> run_seeded_scenario build config = Inl e)" by blast
  have B: "live_config PB (seeded_peer_b config)"
    using default_live_config(2) c(1) by (simp add: seeded_peer_b_def)
  from live_reach_status [OF st(1) default_live_config(1) B] have s: "live_status st''" "lv_config st'' = config"
    by simp_all
  have q: "quiet st'"
    by (rule silent.live_reach_keeps [OF live_reach.stepped [OF st(1,2)]])
      (use c(2) in \<open>simp add: quiet_def make_storage_def Let_def empty_trace_def\<close>)
  from st(3) show ?thesis
  proof
    assume r: "r = Inr True \<and> run_seeded_scenario build config = Inr (lv_artifacts st')"
    with step_live_status [OF s(1) st(2)] s(2) have "converged st'" "lv_config st' = config" by simp_all
    with r q show ?thesis by (auto simp: converged_def Let_def validate_success_def quiet_def)
  next
    assume "\<exists>e. r = Inl e \<and> run_seeded_scenario build config = Inl e"
    with step_live_status [OF s(1) st(2)] show ?thesis by auto
  qed
qed

text \<open>The counters after a number of cases.\<close>

definition sweep_counts :: "u32 \<Rightarrow> PropertySweepResult \<Rightarrow> bool" where
  "sweep_counts n r \<longleftrightarrow> px_successful_seeds r + px_declared_failures r = n
     \<and> px_queue_overflow_failures r + px_timeout_failures r = px_declared_failures r
     \<and> length (px_loss_rate_scenarios r) = 4 \<and> sum_list (px_loss_rate_scenarios r) = n
     \<and> px_identity_mismatches r = 0 \<and> px_crashes r = 0 \<and> px_deadlocks r = 0 \<and> px_unbounded_failures r = 0"

definition sweep_error :: "Error \<Rightarrow> bool" where
  "sweep_error e \<longleftrightarrow> err_context e \<in> {''property_expected_failure'', ''property_unexpected_failure''}
     \<and> err_code e \<in> {EC_invalid_argument, EC_queue_overflow, EC_rollback_window_exceeded, EC_timeout}"

lemma sum_list_increment: "i < length xs \<Longrightarrow> sum_list (xs[i := xs ! i + 1]) = sum_list xs + (1 :: u32)"
  by (induction xs arbitrary: i) (auto split: nat.splits simp: nth_Cons)

text \<open>The counters in the middle of a case, when its loss rate is counted already.\<close>

definition case_counts :: "u32 \<Rightarrow> PropertySweepResult \<Rightarrow> bool" where
  "case_counts n r \<longleftrightarrow> sweep_counts n (r\<lparr>px_loss_rate_scenarios := replicate 3 0 @ [n]\<rparr>)
     \<and> length (px_loss_rate_scenarios r) = 4 \<and> sum_list (px_loss_rate_scenarios r) = n + 1"

lemma case_countsD:
  assumes "case_counts n r"
  shows "px_successful_seeds r + 1 + px_declared_failures r = n + 1"
    and "px_successful_seeds r + (px_declared_failures r + 1) = n + 1"
    and "px_queue_overflow_failures r + 1 + px_timeout_failures r = px_declared_failures r + 1"
    and "px_queue_overflow_failures r + (px_timeout_failures r + 1) = px_declared_failures r + 1"
    and "px_queue_overflow_failures r + px_timeout_failures r = px_declared_failures r"
    and "length (px_loss_rate_scenarios r) = 4" "sum_list (px_loss_rate_scenarios r) = n + 1"
    and "px_identity_mismatches r = 0" "px_crashes r = 0" "px_deadlocks r = 0" "px_unbounded_failures r = 0"
  using assms by (auto simp: case_counts_def sweep_counts_def)

lemma count_loss_counts:
  assumes "sweep_counts n r" "percent \<in> set loss_rates"
  shows "case_counts n (count_loss percent r)" "px_total_seeds (count_loss percent r) = px_total_seeds r"
  using assms(1) loss_index_bound [OF assms(2)]
  by (simp_all add: case_counts_def count_loss_def Let_def sweep_counts_def sum_list_increment eval_nat_numeral)

lemma sweep_success_ok:
  assumes run: "case run_seeded_scenario build scenario of
      Inl e \<Rightarrow> run_error e | Inr artifacts \<Rightarrow> validate_success artifacts scenario"
    and c: "case_counts n r"
  shows "case sweep_success build samples offset seed scenario (r, digest) of
      Inl e \<Rightarrow> sweep_error e
    | Inr acc' \<Rightarrow> sweep_counts (n + 1) (fst acc') \<and> px_total_seeds (fst acc') = px_total_seeds r"
proof (cases "run_seeded_scenario build scenario")
  case (Inl e)
  with run have "sweep_error (mk_error (err_code e) (ucast seed) (err_offset e) ''property_unexpected_failure'')"
    by (auto simp: sweep_error_def run_error_def live_error_def)
  then show ?thesis using Inl by (simp add: sweep_success_def)
next
  case (Inr artifacts)
  with run case_countsD [OF c] show ?thesis by (simp add: sweep_success_def Let_def sweep_counts_def)
qed

lemma sweep_failure_ok:
  assumes run: "case run_seeded_scenario build scenario of
      Inl e \<Rightarrow> run_error e | Inr artifacts \<Rightarrow> validate_success artifacts scenario"
    and c: "case_counts n r"
  shows "case sweep_failure build seed scenario expected (r, digest) of
      Inl e \<Rightarrow> sweep_error e
    | Inr acc' \<Rightarrow> sweep_counts (n + 1) (fst acc') \<and> px_total_seeds (fst acc') = px_total_seeds r"
proof (cases "run_seeded_scenario build scenario")
  case (Inl e)
  with run have "sweep_error (mk_error (err_code e) (ucast seed) (err_offset e) ''property_expected_failure'')"
    by (auto simp: sweep_error_def run_error_def live_error_def)
  then show ?thesis using Inl case_countsD [OF c]
    by (simp add: sweep_failure_def Let_def sweep_counts_def)
qed (simp add: sweep_failure_def sweep_error_def)

lemma sweep_case_ok:
  assumes "sweep_counts n (fst acc)"
  shows "case sweep_case build left_first config offset acc of
      Inl e \<Rightarrow> sweep_error e
    | Inr acc' \<Rightarrow> sweep_counts (n + 1) (fst acc') \<and> px_total_seeds (fst acc') = px_total_seeds (fst acc)"
proof -
  obtain r digest where acc: "acc = (r, digest)" by (cases acc)
  define c where "c = scenario_for left_first (pw_start_seed config + offset) offset"
  note f = scenario_for_facts [OF c_def]
  note run = seeded_run_valid [OF f(2,3), of build]
  have n: "sweep_counts n r" using assms acc by simp
  note count = count_loss_counts [OF n f(1)]
  have total: "px_total_seeds (fst acc) = px_total_seeds r" by (simp add: acc)
  show ?thesis unfolding total
    using sweep_success_ok [OF run count(1), unfolded count(2)] sweep_failure_ok [OF run count(1), unfolded count(2)]
    by (cases "sw_expected_failure c") (simp_all add: sweep_case_def acc Let_def c_def [symmetric])
qed

lemma sweep_loop_ok:
  assumes "sweep_counts n (fst acc)"
  shows "case sweep_loop build left_first config offsets acc of
      Inl e \<Rightarrow> sweep_error e
    | Inr acc' \<Rightarrow> sweep_counts (n + of_nat (length offsets)) (fst acc')
        \<and> px_total_seeds (fst acc') = px_total_seeds (fst acc)"
  using assms
proof (induction offsets arbitrary: n acc)
  case (Cons offset offsets)
  show ?case
  proof (cases "sweep_case build left_first config offset acc")
    case (Inr acc')
    with sweep_case_ok [OF Cons.prems, of build left_first config offset]
    have s: "sweep_counts (n + 1) (fst acc')" "px_total_seeds (fst acc') = px_total_seeds (fst acc)" by simp_all
    have "n + 1 + of_nat (length offsets) = n + of_nat (length (offset # offsets))" by simp
    note step = Cons.IH [OF s(1), unfolded this s(2)]
    from Inr have "sweep_loop build left_first config (offset # offsets) acc
        = sweep_loop build left_first config offsets acc'" by simp
    with step show ?thesis by simp
  qed (use sweep_case_ok [OF Cons.prems, of build left_first config offset] in simp)
qed simp

text \<open>
  C15. A property sweep can only fail for one reason: a scenario that ended otherwise than its case
  expects, with one of the four errors of a run. Its own invariants are never violated: no successful run fails
  \<open>validate_success\<close>, no repetition of a run differs from the first, and the index of the loss counter
  is in range. The counters of a finished sweep add up, and its summary reports success.
\<close>

theorem property_sweep_outcome:
  "case run_property_sweep build left_first config of
     Inl e \<Rightarrow> sweep_error e
       \<or> err_context e = ''property_sweep_config'' \<and> (pw_seed_count config = 0 \<or> pw_seed_count config > 100000
            \<or> pw_repeat_identity_samples config > pw_seed_count config)
   | Inr r \<Rightarrow> sweep_ok r \<and> px_total_seeds r = pw_seed_count config
       \<and> px_queue_overflow_failures r + px_timeout_failures r = px_declared_failures r
       \<and> sum_list (px_loss_rate_scenarios r) = px_total_seeds r"
proof (cases "pw_seed_count config = 0 \<or> pw_seed_count config > 100000
    \<or> pw_repeat_identity_samples config > pw_seed_count config")
  case True
  then show ?thesis by (auto simp: run_property_sweep_def not_le word_gt_0)
next
  case False
  let ?r = "default_sweep_result\<lparr>px_start_seed := pw_start_seed config, px_total_seeds := pw_seed_count config,
    px_edge_frame_cases := min (pw_seed_count config) (of_nat (length edge_frame_counts))\<rparr>"
  let ?offsets = "map of_nat [0..<unat (pw_seed_count config)] :: u32 list"
  have "sweep_counts 0 (fst (?r, digest_offset))" by (simp add: sweep_counts_def default_sweep_result_def)
  from sweep_loop_ok [OF this, where offsets = ?offsets and build = build and left_first = left_first and config = config] False show ?thesis
    by (cases "sweep_loop build left_first config ?offsets (?r, digest_offset)")
      (auto simp: run_property_sweep_def Let_def sweep_counts_def sweep_ok_def)
qed

end
