(* ===== verification/Files.thy ===== *)
theory Files
  imports UdpSocket
begin

text \<open>
  The file system and the console of the command line tools, as far as \<open>src/cli/commands.cpp\<close>,
  \<open>src/udp/demo.cpp\<close> and \<open>src/report/viewer.cpp\<close> use the standard library's: the parameter \<open>Files\<close>, next to
  \<open>Host\<close>, which writes files, and the clock of the benchmark. Error codes of \<open>std::error_code\<close> are numbers, 0 for success.
\<close>

record 's Files =
  fs_open_input :: "string \<Rightarrow> 's \<Rightarrow> bool \<times> 's"
  fs_length :: "string \<Rightarrow> 's \<Rightarrow> int"
  fs_read :: "string \<Rightarrow> nat \<Rightarrow> 's \<Rightarrow> byte list option"
  fs_read_all :: "string \<Rightarrow> 's \<Rightarrow> byte list"
  fs_is_regular_file :: "string \<Rightarrow> 's \<Rightarrow> bool"
  fs_create_directories :: "string \<Rightarrow> 's \<Rightarrow> u64 \<times> 's"
  fs_absolute :: "string \<Rightarrow> 's \<Rightarrow> string \<times> u64"
  fs_parent_path :: "string \<Rightarrow> string"
  fs_remove :: "string \<Rightarrow> 's \<Rightarrow> 's"
  fs_print :: "string \<Rightarrow> 's \<Rightarrow> 's"
  fs_print_error :: "string \<Rightarrow> 's \<Rightarrow> 's"
  fs_microseconds :: "'s \<Rightarrow> int \<times> 's"

text \<open>The path operator \<open>/\<close> for a relative name.\<close>

definition path_join :: "string \<Rightarrow> string \<Rightarrow> string" where
  "path_join directory name =
     (if directory = [] \<or> last directory = CHR ''/'' then directory @ name else directory @ ''/'' @ name)"

text \<open>
  A file read as a whole after its length was asked for, with the errors of the three things that can
  fail; a file of length 0 is not read.
\<close>

definition read_file :: "'s Files \<Rightarrow> Error \<Rightarrow> Error \<Rightarrow> string \<Rightarrow> string \<Rightarrow> 's \<Rightarrow> byte list Result \<times> 's" where
  "read_file fs not_opened no_length read_context path w =
     (let (opened, w) = fs_open_input fs path w in
      if \<not> opened then (Inl not_opened, w)
      else
        (let n = fs_length fs path w in
         if n < 0 then (Inl no_length, w)
         else if n = 0 then (Inr [], w)
         else
           (case fs_read fs path (nat n) w of
              None \<Rightarrow> (failure EC_io_error (of_int n) 0 read_context, w)
            | Some bytes \<Rightarrow> (Inr bytes, w))))"

definition text_of_bytes :: "byte list \<Rightarrow> string" where
  "text_of_bytes = map (\<lambda>b. char_of (unat b))"

definition read_text_file :: "'s Files \<Rightarrow> string \<Rightarrow> string \<Rightarrow> 's \<Rightarrow> string Result \<times> 's" where
  "read_text_file fs context path w =
     (let (opened, w) = fs_open_input fs path w in
      if \<not> opened then (failure EC_io_error 0 0 context, w)
      else (Inr (text_of_bytes (fs_read_all fs path w)), w))"

text \<open>\<open>std::string::find\<close> from the start.\<close>

fun find_text :: "string \<Rightarrow> string \<Rightarrow> nat option" where
  "find_text pattern s =
     (if take (length pattern) s = pattern then Some 0
      else case s of [] \<Rightarrow> None | c # s' \<Rightarrow> map_option Suc (find_text pattern s'))"

declare find_text.simps [simp del]

lemma byte_char: "char_of (unat (of_char c :: byte)) = c"
proof -
  have "(of_char c :: byte) = of_nat (of_char c :: nat)" by (rule of_nat_of_char [symmetric])
  then have "unat (of_char c :: byte) = (of_char c :: nat) mod 256" by (simp only: unat_of_nat) simp
  then show ?thesis by simp
qed

lemma text_of_bytes_chars [simp]: "text_of_bytes (map of_char s) = s"
  by (simp add: text_of_bytes_def o_def byte_char)

end
