(* ===== verification/Process.thy ===== *)
theory Process
  imports UdpSocket
begin

text \<open>
  Child processes: the POSIX build of \<open>transport/process.hpp\<close>, \<open>src/transport/process.cpp\<close>. The system
  calls are the parameter \<open>Processes\<close>, next to \<open>Host\<close> for the clock. The Windows build is \<open>WindowsProcess\<close>.
  A \<open>ChildProcess\<close> that was moved from has no implementation.
\<close>

text \<open>What \<open>waitpid\<close> reports of a child that has ended: \<open>WEXITSTATUS\<close> or \<open>WTERMSIG\<close>.\<close>

datatype WaitStatus = Exited int | Signaled int

record 's Processes =
  proc_spawn :: "string \<Rightarrow> string list \<Rightarrow> 's \<Rightarrow> (int \<times> int) \<times> 's"
  proc_waitpid :: "int \<Rightarrow> bool \<Rightarrow> 's \<Rightarrow> (int \<times> WaitStatus) \<times> 's"
  proc_kill :: "int \<Rightarrow> int \<Rightarrow> 's \<Rightarrow> int \<times> 's"
  proc_interrupted :: "'s \<Rightarrow> bool"
  proc_no_such_process :: "'s \<Rightarrow> bool"

definition SIGKILL :: int where "SIGKILL = 9"
definition SIGTERM :: int where "SIGTERM = 15"

record ProcessImpl =
  ci_pid :: int
  ci_running :: bool
  ci_exit_code :: "int option"

type_synonym ChildProcess = "ProcessImpl option"

definition exit_code_of :: "WaitStatus \<Rightarrow> int" where
  "exit_code_of status = (case status of Exited code \<Rightarrow> code | Signaled s \<Rightarrow> 128 + s)"

definition ended :: "int \<Rightarrow> ProcessImpl \<Rightarrow> ProcessImpl" where
  "ended code impl = impl\<lparr>ci_exit_code := Some code, ci_running := False\<rparr>"

definition spawn :: "'s Processes \<Rightarrow> string \<Rightarrow> string list \<Rightarrow> 's \<Rightarrow> ChildProcess Result \<times> 's" where
  "spawn ps executable arguments w =
     (let ((result, pid), w) = proc_spawn ps executable (executable # arguments) w in
      if result \<noteq> 0 then (failure EC_child_failure (of_int result) 0 ''posix_spawn'', w)
      else (Inr (Some \<lparr>ci_pid = pid, ci_running = True, ci_exit_code = None\<rparr>), w))"

definition process_id :: "ChildProcess \<Rightarrow> u32" where
  "process_id child = (case child of None \<Rightarrow> 0 | Some impl \<Rightarrow> of_int (ci_pid impl))"

text \<open>The loop of \<open>wait_for\<close>; as a partial function \<open>None\<close> means that it never returns.\<close>

partial_function (option) wait_loop :: "'s Host \<Rightarrow> 's Processes \<Rightarrow> u64 \<Rightarrow> ProcessImpl \<Rightarrow> 's
    \<Rightarrow> (int option Result \<times> ProcessImpl \<times> 's) option" where
  "wait_loop os ps deadline impl w =
     (case proc_waitpid ps (ci_pid impl) True w of
        ((waited, status), w) \<Rightarrow>
          if waited = ci_pid impl
          then Some (Inr (Some (exit_code_of status)), ended (exit_code_of status) impl, w)
          else if waited < 0
          then (if proc_interrupted ps w then wait_loop os ps deadline impl w
                else Some (failure EC_child_failure 0 0 ''waitpid'', impl, w))
          else if os_now os w \<ge> deadline then Some (Inr None, impl, w)
          else wait_loop os ps deadline impl (os_sleep os 2 w))"

definition wait_for :: "'s Host \<Rightarrow> 's Processes \<Rightarrow> int \<Rightarrow> ChildProcess \<Rightarrow> 's
    \<Rightarrow> (int option Result \<times> ChildProcess \<times> 's) option" where
  "wait_for os ps timeout child w =
     (case child of
        None \<Rightarrow> Some (failure EC_invalid_argument 0 0 ''process_wait'', child, w)
      | Some impl \<Rightarrow>
          if timeout < 0 then Some (failure EC_invalid_argument 0 0 ''process_wait'', child, w)
          else if \<not> ci_running impl then Some (Inr (ci_exit_code impl), child, w)
          else
            (case wait_loop os ps (os_now os w + of_int timeout) impl w of
               None \<Rightarrow> None
             | Some (r, impl, w) \<Rightarrow> Some (r, Some impl, w)))"

definition terminate :: "'s Processes \<Rightarrow> ChildProcess \<Rightarrow> 's \<Rightarrow> unit Result \<times> 's" where
  "terminate ps child w =
     (case child of
        None \<Rightarrow> (Inr (), w)
      | Some impl \<Rightarrow>
          if \<not> ci_running impl then (Inr (), w)
          else
            (let (result, w) = proc_kill ps (ci_pid impl) SIGTERM w in
             if result \<noteq> 0 \<and> \<not> proc_no_such_process ps w then (failure EC_child_failure 0 0 ''kill'', w)
             else (Inr (), w)))"

text \<open>The loop that reaps a killed child; \<open>status\<close> keeps its initial 0 when the last call fails.\<close>

partial_function (option) reap_loop :: "'s Processes \<Rightarrow> int \<Rightarrow> 's \<Rightarrow> (WaitStatus \<times> 's) option" where
  "reap_loop ps pid w =
     (case proc_waitpid ps pid False w of
        ((waited, status), w) \<Rightarrow>
          if waited < 0 then (if proc_interrupted ps w then reap_loop ps pid w else Some (Exited 0, w))
          else Some (status, w))"

text \<open>\<open>cleanup\<close>, which the destructor and the move assignment run.\<close>

definition cleanup :: "'s Host \<Rightarrow> 's Processes \<Rightarrow> ChildProcess \<Rightarrow> 's \<Rightarrow> (ChildProcess \<times> 's) option" where
  "cleanup os ps child w =
     (case child of
        None \<Rightarrow> Some (None, w)
      | Some impl \<Rightarrow>
          if \<not> ci_running impl then Some (None, w)
          else
            (let (_, w) = terminate ps child w in
             case wait_for os ps 500 child w of
               None \<Rightarrow> None
             | Some (Inr (Some _), _, w) \<Rightarrow> Some (None, w)
             | Some (_, _, w) \<Rightarrow>
                 (let (_, w) = proc_kill ps (ci_pid impl) SIGKILL w in
                  case reap_loop ps (ci_pid impl) w of
                    None \<Rightarrow> None
                  | Some (_, w) \<Rightarrow> Some (None, w))))"

text \<open>The move assignment; an object assigned to itself stays as it is.\<close>

definition move_assign :: "'s Host \<Rightarrow> 's Processes \<Rightarrow> bool \<Rightarrow> ChildProcess \<Rightarrow> ChildProcess \<Rightarrow> 's
    \<Rightarrow> ((ChildProcess \<times> ChildProcess) \<times> 's) option" where
  "move_assign os ps same child other w =
     (if same then Some ((child, other), w)
      else
        (case cleanup os ps child w of
           None \<Rightarrow> None
         | Some (_, w) \<Rightarrow> Some ((other, None), w)))"

end
