(* ===== verification/UdpDemo.thy ===== *)
theory UdpDemo
  imports Files Process Relay Replay Peer
begin

text \<open>
  The supervisor of the UDP demo: \<open>udp/demo.hpp\<close>, \<open>src/udp/demo.cpp\<close>. It starts the relay and the two peers as child
  processes with their command lines, waits for them and compares the files they wrote. Each function with a
  loop that may run for ever returns an option, \<open>None\<close> for not returning. The destructors that end the
  children on every early return are the function \<open>finish\<close>.
\<close>

section \<open>Configuration and result\<close>

record UdpDemoConfig =
  dc_executable_path :: string
  dc_output_directory :: string
  dc_scenario_seed :: u64
  dc_transport_seed :: u64
  dc_frame_count :: u32
  dc_watchdog_milliseconds :: u32
  dc_forced_relay_port :: "u16 option"
  dc_launch_peer_b :: bool
  dc_peer_b_protocol_version :: u16
  dc_peer_b_simulation_version :: u32
  dc_peer_b_variant :: SimulationVariant

definition default_demo_config :: UdpDemoConfig where
  "default_demo_config =
     \<lparr>dc_executable_path = '''', dc_output_directory = ''artifacts/udp-demo'', dc_scenario_seed = 0xC0FFEE,
      dc_transport_seed = 0x55445030, dc_frame_count = 120, dc_watchdog_milliseconds = 5000,
      dc_forced_relay_port = None, dc_launch_peer_b = True, dc_peer_b_protocol_version = 1,
      dc_peer_b_simulation_version = kSimulationVersion, dc_peer_b_variant = variant_canonical\<rparr>"

record UdpDemoResult =
  dr_relay_pid :: u32
  dr_peer_a_pid :: u32
  dr_peer_b_pid :: u32
  dr_relay_port :: u16
  dr_peer_a_port :: u16
  dr_peer_b_port :: u16
  dr_confirmed_frame :: FrameNumber
  dr_final_hash_a :: StateHash
  dr_final_hash_b :: StateHash
  dr_replay_verified :: bool
  dr_relay_exit_code :: int
  dr_peer_a_exit_code :: int
  dr_peer_b_exit_code :: int

section \<open>Ports\<close>

definition reserve_port :: "'s Host \<Rightarrow> 's \<Rightarrow> u16 Result \<times> 's" where
  "reserve_port os w =
     (case bind_loopback os 0 w of
        (Inl e, w) \<Rightarrow> (Inl e, w)
      | (Inr socket, w) \<Rightarrow>
          (Inr (local_port socket), case socket of None \<Rightarrow> w | Some impl \<Rightarrow> os_close os (si_socket impl) w))"

text \<open>The loop of \<open>reserve_distinct\<close>, with the number of attempts that are left.\<close>

fun reserve_attempts :: "'s Host \<Rightarrow> nat \<Rightarrow> u16 \<Rightarrow> u16 \<Rightarrow> 's \<Rightarrow> u16 Result \<times> 's" where
  "reserve_attempts os 0 first second w = (failure EC_capacity_exceeded 16 0 ''udp_port_reservation'', w)"
| "reserve_attempts os (Suc n) first second w =
     (case reserve_port os w of
        (Inl e, w) \<Rightarrow> (Inl e, w)
      | (Inr port, w) \<Rightarrow>
          if port \<noteq> first \<and> port \<noteq> second then (Inr port, w)
          else reserve_attempts os n first second w)"

definition reserve_distinct :: "'s Host \<Rightarrow> u16 \<Rightarrow> u16 \<Rightarrow> 's \<Rightarrow> u16 Result \<times> 's" where
  "reserve_distinct os = reserve_attempts os 16"

definition demo_ports :: "'s Host \<Rightarrow> UdpDemoConfig \<Rightarrow> 's \<Rightarrow> (u16 \<times> u16 \<times> u16) Result \<times> 's" where
  "demo_ports os config w =
     (case (case dc_forced_relay_port config of Some port \<Rightarrow> (Inr port, w) | None \<Rightarrow> reserve_port os w) of
        (Inl e, w) \<Rightarrow> (Inl e, w)
      | (Inr relay_port, w) \<Rightarrow>
          (case reserve_distinct os relay_port 0 w of
             (Inl e, w) \<Rightarrow> (Inl e, w)
           | (Inr peer_a_port, w) \<Rightarrow>
               (case reserve_distinct os relay_port peer_a_port w of
                  (Inl e, w) \<Rightarrow> (Inl e, w)
                | (Inr peer_b_port, w) \<Rightarrow> (Inr (relay_port, peer_a_port, peer_b_port), w))))"

section \<open>Command lines\<close>

definition relay_arguments :: "UdpDemoConfig \<Rightarrow> u16 \<Rightarrow> u16 \<Rightarrow> u16 \<Rightarrow> string \<Rightarrow> string list" where
  "relay_arguments config relay_port peer_a_port peer_b_port ready_file =
     [''relay'', ''--relay-port'', dec_word relay_port,
      ''--peer-a-port'', dec_word peer_a_port,
      ''--peer-b-port'', dec_word peer_b_port,
      ''--ready'', ready_file,
      ''--max-ms'', dec_word (dc_watchdog_milliseconds config + 1000)]"

definition peer_arguments :: "UdpDemoConfig \<Rightarrow> PlayerId \<Rightarrow> u16 \<Rightarrow> u16 \<Rightarrow> string \<Rightarrow> string \<Rightarrow> string
    \<Rightarrow> u16 \<Rightarrow> u32 \<Rightarrow> SimulationVariant \<Rightarrow> string list" where
  "peer_arguments config player listen_port relay_port report replay diagnostic protocol_version
       simulation_version variant =
     (let handshake = max 200 (min 1000 (dc_watchdog_milliseconds config div 2)) in
      [''peer'', ''--id'', if player = PA then ''A'' else ''B'',
       ''--listen-port'', dec_word listen_port,
       ''--relay-port'', dec_word relay_port,
       ''--scenario-seed'', dec_word (dc_scenario_seed config),
       ''--transport-seed'', dec_word (dc_transport_seed config),
       ''--frames'', dec_word (dc_frame_count config),
       ''--protocol-version'', dec_word protocol_version,
       ''--simulation-version'', dec_word simulation_version,
       ''--variant'', if variant = variant_canonical then ''canonical'' else ''damage-bias'',
       ''--handshake-ms'', dec_word handshake,
       ''--run-ms'', dec_word (dc_watchdog_milliseconds config),
       ''--report'', report,
       ''--replay'', replay,
       ''--diagnostic'', diagnostic])"

section \<open>Waiting\<close>

partial_function (option) ready_loop :: "'s Host \<Rightarrow> 's Processes \<Rightarrow> 's Files \<Rightarrow> string \<Rightarrow> u64 \<Rightarrow> u64
    \<Rightarrow> ChildProcess \<Rightarrow> 's \<Rightarrow> (unit Result \<times> ChildProcess \<times> 's) option" where
  "ready_loop os ps fs ready_file timeout deadline relay w =
     (if \<not> os_now os w < deadline then Some (failure EC_timeout timeout 0 ''relay_ready'', relay, w)
      else if fs_is_regular_file fs ready_file w then Some (Inr (), relay, w)
      else Option.bind (wait_for os ps 0 relay w) (\<lambda>(exited, relay, w).
        case exited of
          Inl e \<Rightarrow> Some (Inl e, relay, w)
        | Inr (Some code) \<Rightarrow> Some (failure EC_child_failure (of_int code) 0 ''relay_start'', relay, w)
        | Inr None \<Rightarrow> ready_loop os ps fs ready_file timeout deadline relay (os_sleep os 5 w)))"

definition wait_for_ready :: "'s Host \<Rightarrow> 's Processes \<Rightarrow> 's Files \<Rightarrow> string \<Rightarrow> ChildProcess \<Rightarrow> u32 \<Rightarrow> 's
    \<Rightarrow> (unit Result \<times> ChildProcess \<times> 's) option" where
  "wait_for_ready os ps fs ready_file relay timeout w =
     ready_loop os ps fs ready_file (ucast timeout) (os_now os w + ucast timeout) relay w"

text \<open>One look at a child whose exit code is not known yet.\<close>

definition poll_exit :: "'s Host \<Rightarrow> 's Processes \<Rightarrow> ChildProcess \<Rightarrow> int option \<Rightarrow> 's
    \<Rightarrow> (int option Result \<times> ChildProcess \<times> 's) option" where
  "poll_exit os ps child code w =
     (if code \<noteq> None then Some (Inr code, child, w) else wait_for os ps 0 child w)"

text \<open>The loop that waits for the peers; \<open>peer_b\<close> is absent when it was not launched.\<close>

partial_function (option) supervise_loop :: "'s Host \<Rightarrow> 's Processes \<Rightarrow> u64 \<Rightarrow> ChildProcess
    \<Rightarrow> ChildProcess option \<Rightarrow> int option \<Rightarrow> int option \<Rightarrow> 's
    \<Rightarrow> ((int option \<times> int option) Result \<times> ChildProcess \<times> ChildProcess option \<times> 's) option" where
  "supervise_loop os ps deadline peer_a peer_b exit_a exit_b w =
     (if \<not> (os_now os w < deadline \<and> (exit_a = None \<or> peer_b \<noteq> None \<and> exit_b = None))
      then Some (Inr (exit_a, exit_b), peer_a, peer_b, w)
      else Option.bind (poll_exit os ps peer_a exit_a w) (\<lambda>(waited_a, peer_a, w).
        case waited_a of
          Inl e \<Rightarrow> Some (Inl e, peer_a, peer_b, w)
        | Inr exit_a \<Rightarrow>
            Option.bind (case peer_b of
                None \<Rightarrow> Some (Inr exit_b, None, w)
              | Some child \<Rightarrow> map_option (\<lambda>(r, child, w). (r, Some child, w)) (poll_exit os ps child exit_b w))
              (\<lambda>(waited_b, peer_b, w).
                case waited_b of
                  Inl e \<Rightarrow> Some (Inl e, peer_a, peer_b, w)
                | Inr exit_b \<Rightarrow>
                    supervise_loop os ps deadline peer_a peer_b exit_a exit_b
                      (if exit_a = None \<or> peer_b \<noteq> None \<and> exit_b = None then os_sleep os 5 w else w))))"

section \<open>Results\<close>

definition read_demo_binary :: "'s Files \<Rightarrow> string \<Rightarrow> 's \<Rightarrow> byte list Result \<times> 's" where
  "read_demo_binary fs =
     read_file fs (mk_error EC_io_error 0 0 ''udp_read_replay'') (mk_error EC_io_error 0 0 ''udp_replay_length'')
       ''udp_replay_read''"

definition read_demo_text :: "'s Files \<Rightarrow> string \<Rightarrow> 's \<Rightarrow> string Result \<times> 's" where
  "read_demo_text fs = read_text_file fs ''udp_read_report''"

definition report_matches :: "string \<Rightarrow> u32 \<Rightarrow> StateHash \<Rightarrow> bool" where
  "report_matches report frame hash \<longleftrightarrow>
     find_text ''\"success\":true'' report \<noteq> None
   \<and> find_text (''\"confirmed_frame\":'' @ dec_word frame) report \<noteq> None
   \<and> find_text (hash_text hash) report \<noteq> None"

definition stop_relay :: "'s Host \<Rightarrow> UdpSocket \<Rightarrow> u16 \<Rightarrow> 's \<Rightarrow> unit Result \<times> 's" where
  "stop_relay os control port w = send_loopback os control port stop_message w"

text \<open>The comparison of the files, once every child has ended well.\<close>

definition compare_artifacts :: "byte list Result \<Rightarrow> byte list Result \<Rightarrow> string Result \<Rightarrow> string Result
    \<Rightarrow> u32 \<Rightarrow> StateHash Result" where
  "compare_artifacts bytes_a bytes_b text_a text_b frame_count =
     (case (bytes_a, bytes_b, text_a, text_b) of
        (Inr bytes_a, Inr bytes_b, Inr text_a, Inr text_b) \<Rightarrow>
          (case (decode_replay bytes_a, decode_replay bytes_b) of
             (Inr decoded_a, Inr decoded_b) \<Rightarrow>
               if decoded_a \<noteq> decoded_b then failure EC_replay_mismatch 0 0 ''udp_replay_compare''
               else
                 (let final_hash = rp_expected_final_hash decoded_a in
                  if \<not> ok (verify_replay decoded_a) \<or> \<not> ok (verify_replay decoded_b)
                     \<or> \<not> report_matches text_a frame_count final_hash
                     \<or> \<not> report_matches text_b frame_count final_hash
                  then failure EC_replay_mismatch final_hash 0 ''udp_report_validation''
                  else Inr final_hash)
           | _ \<Rightarrow> failure EC_replay_mismatch 0 0 ''udp_replay_compare'')
      | _ \<Rightarrow> failure EC_io_error 0 0 ''udp_demo_artifacts'')"

section \<open>The supervisor\<close>

text \<open>The destructors: the children that were started, in the reverse order of their declaration.\<close>

fun finish :: "'s Host \<Rightarrow> 's Processes \<Rightarrow> ChildProcess list \<Rightarrow> 'a Result \<Rightarrow> 's \<Rightarrow> ('a Result \<times> 's) option" where
  "finish os ps [] r w = Some (r, w)"
| "finish os ps (child # children) r w =
     Option.bind (cleanup os ps child w) (\<lambda>(_, w). finish os ps children r w)"

record DemoFiles =
  df_ready :: string
  df_report_a :: string
  df_report_b :: string
  df_replay_a :: string
  df_replay_b :: string
  df_diagnostic_a :: string
  df_diagnostic_b :: string

definition demo_files :: "string \<Rightarrow> DemoFiles" where
  "demo_files directory =
     \<lparr>df_ready = path_join directory ''relay.ready'',
      df_report_a = path_join directory ''peer-a-report.json'',
      df_report_b = path_join directory ''peer-b-report.json'',
      df_replay_a = path_join directory ''peer-a-input.rlr'',
      df_replay_b = path_join directory ''peer-b-input.rlr'',
      df_diagnostic_a = path_join directory ''peer-a-desync.json'',
      df_diagnostic_b = path_join directory ''peer-b-desync.json''\<rparr>"

definition remove_demo_files :: "'s Files \<Rightarrow> DemoFiles \<Rightarrow> 's \<Rightarrow> 's" where
  "remove_demo_files fs df w =
     fold (fs_remove fs) [df_ready df, df_report_a df, df_report_b df, df_replay_a df, df_replay_b df,
       df_diagnostic_a df, df_diagnostic_b df] w"

definition desync_detected :: "'s Files \<Rightarrow> DemoFiles \<Rightarrow> 's \<Rightarrow> bool" where
  "desync_detected fs df w \<longleftrightarrow>
     fs_is_regular_file fs (df_diagnostic_a df) w \<or> fs_is_regular_file fs (df_diagnostic_b df) w"

text \<open>What the exit codes say, once the waiting is over: an error, or both peers' codes.\<close>

definition peer_verdict :: "'s Files \<Rightarrow> UdpDemoConfig \<Rightarrow> DemoFiles \<Rightarrow> int option \<Rightarrow> int option \<Rightarrow> 's
    \<Rightarrow> (int \<times> int) Result" where
  "peer_verdict fs config df exit_a exit_b w =
     (let desync = desync_detected fs df w in
      if exit_a = None \<or> dc_launch_peer_b config \<and> exit_b = None
      then failure (if desync then EC_desync else EC_timeout) (ucast (dc_watchdog_milliseconds config)) 0
             (if desync then ''udp_peer_desync'' else ''udp_demo_watchdog'')
      else if the exit_a \<noteq> 0 \<or> \<not> dc_launch_peer_b config \<or> exit_b = None \<or> the exit_b \<noteq> 0
      then (let peer_a_failed = (the exit_a \<noteq> 0) in
            failure (if desync then EC_desync else EC_child_failure)
              (of_int (if peer_a_failed then the exit_a else case exit_b of Some code \<Rightarrow> code | None \<Rightarrow> -1)) 0
              (if desync then ''udp_peer_desync''
               else if peer_a_failed then ''udp_peer_a_exit'' else ''udp_peer_b_exit''))
      else Inr (the exit_a, the exit_b))"

text \<open>The end of the demo: the relay is stopped and the files are compared.\<close>

definition conclude_demo :: "'s Host \<Rightarrow> 's Processes \<Rightarrow> 's Files \<Rightarrow> UdpDemoConfig \<Rightarrow> DemoFiles
    \<Rightarrow> u16 \<times> u16 \<times> u16 \<Rightarrow> ChildProcess \<Rightarrow> ChildProcess \<Rightarrow> ChildProcess \<Rightarrow> int \<times> int \<Rightarrow> 's
    \<Rightarrow> (UdpDemoResult Result \<times> 's) option" where
  "conclude_demo os ps fs config df ports relay peer_a peer_b codes w =
     (case bind_loopback os 0 w of
        (Inl e, w) \<Rightarrow> finish os ps [peer_b, peer_a, relay] (Inl e) w
      | (Inr control, w) \<Rightarrow>
          (let close = (\<lambda>w. case control of None \<Rightarrow> w | Some impl \<Rightarrow> os_close os (si_socket impl) w);
               (relay_port, peer_a_port, peer_b_port) = ports
           in case stop_relay os control relay_port w of
                (Inl e, w) \<Rightarrow> finish os ps [peer_b, peer_a, relay] (Inl e) (close w)
              | (Inr _, w) \<Rightarrow>
                  Option.bind (wait_for os ps 1000 relay w) (\<lambda>(relay_waited, relay, w).
                    case relay_waited of
                      Inr (Some relay_code) \<Rightarrow>
                        if relay_code \<noteq> 0
                        then finish os ps [peer_b, peer_a, relay]
                               (failure EC_child_failure 0 0 ''udp_relay_exit'') (close w)
                        else
                          (let (bytes_a, w) = read_demo_binary fs (df_replay_a df) w;
                               (bytes_b, w) = read_demo_binary fs (df_replay_b df) w;
                               (text_a, w) = read_demo_text fs (df_report_a df) w;
                               (text_b, w) = read_demo_text fs (df_report_b df) w
                           in finish os ps [peer_b, peer_a, relay]
                                (case compare_artifacts bytes_a bytes_b text_a text_b (dc_frame_count config) of
                                   Inl e \<Rightarrow> Inl e
                                 | Inr final_hash \<Rightarrow> Inr
                                     \<lparr>dr_relay_pid = process_id relay, dr_peer_a_pid = process_id peer_a,
                                      dr_peer_b_pid = process_id peer_b, dr_relay_port = relay_port,
                                      dr_peer_a_port = peer_a_port, dr_peer_b_port = peer_b_port,
                                      dr_confirmed_frame = dc_frame_count config, dr_final_hash_a = final_hash,
                                      dr_final_hash_b = final_hash, dr_replay_verified = True,
                                      dr_relay_exit_code = relay_code, dr_peer_a_exit_code = fst codes,
                                      dr_peer_b_exit_code = snd codes\<rparr>)
                                (close w))
                    | _ \<Rightarrow> finish os ps [peer_b, peer_a, relay]
                             (failure EC_child_failure 0 0 ''udp_relay_exit'') (close w))))"

text \<open>From the start of the peers on.\<close>

definition run_demo_peers :: "'s Host \<Rightarrow> 's Processes \<Rightarrow> 's Files \<Rightarrow> UdpDemoConfig \<Rightarrow> DemoFiles
    \<Rightarrow> u16 \<times> u16 \<times> u16 \<Rightarrow> ChildProcess \<Rightarrow> 's \<Rightarrow> (UdpDemoResult Result \<times> 's) option" where
  "run_demo_peers os ps fs config df ports relay w =
     (let (relay_port, peer_a_port, peer_b_port) = ports in
      case spawn ps (dc_executable_path config)
             (peer_arguments config PA peer_a_port relay_port (df_report_a df) (df_replay_a df)
                (df_diagnostic_a df) (ucast kProtocolVersion) kSimulationVersion variant_canonical) w of
        (Inl e, w) \<Rightarrow> finish os ps [relay] (Inl e) w
      | (Inr peer_a, w) \<Rightarrow>
          (case (if dc_launch_peer_b config
                 then (case spawn ps (dc_executable_path config)
                              (peer_arguments config PB peer_b_port relay_port (df_report_b df) (df_replay_b df)
                                 (df_diagnostic_b df) (dc_peer_b_protocol_version config)
                                 (dc_peer_b_simulation_version config) (dc_peer_b_variant config)) w of
                         (Inl e, w) \<Rightarrow> (Inl e, w)
                       | (Inr child, w) \<Rightarrow> (Inr (Some child), w))
                 else (Inr None, w)) of
             (Inl e, w) \<Rightarrow> finish os ps [peer_a, relay] (Inl e) w
           | (Inr peer_b, w) \<Rightarrow>
               Option.bind (supervise_loop os ps (os_now os w + ucast (dc_watchdog_milliseconds config))
                              peer_a peer_b None None w)
                 (\<lambda>(codes, peer_a, peer_b, w).
                   let children = (case peer_b of None \<Rightarrow> [] | Some child \<Rightarrow> [child]) @ [peer_a, relay] in
                   case codes of
                     Inl e \<Rightarrow> finish os ps children (Inl e) w
                   | Inr (exit_a, exit_b) \<Rightarrow>
                       (case (peer_verdict fs config df exit_a exit_b w, peer_b) of
                          (Inl e, _) \<Rightarrow> finish os ps children (Inl e) w
                        | (Inr codes, Some peer_b) \<Rightarrow>
                            conclude_demo os ps fs config df ports relay peer_a peer_b codes w
                        | (Inr codes, None) \<Rightarrow> None))))"

text \<open>
  The last branch above is the dereference of an absent \<open>peer_b\<close>, which is undefined; \<open>peer_verdict\<close> has an
  error whenever \<open>peer_b\<close> was not launched.
\<close>

definition run_udp_demo :: "'s Host \<Rightarrow> 's Processes \<Rightarrow> 's Files \<Rightarrow> UdpDemoConfig \<Rightarrow> 's
    \<Rightarrow> (UdpDemoResult Result \<times> 's) option" where
  "run_udp_demo os ps fs config w =
     (if dc_executable_path config = [] \<or> dc_frame_count config = 0
         \<or> unat (dc_frame_count config) > kHistoryCapacity \<or> dc_watchdog_milliseconds config < 200
      then Some (failure EC_invalid_argument (ucast (dc_frame_count config)) 0 ''udp_demo_config'', w)
      else
        (let (output_directory, error) = fs_absolute fs (dc_output_directory config) w;
             (error, w) = (if error = 0 then fs_create_directories fs output_directory w else (error, w))
         in if error \<noteq> 0 then Some (failure EC_io_error error 0 ''udp_output_directory'', w)
            else
              (case demo_ports os config w of
                 (Inl e, w) \<Rightarrow> Some (Inl e, w)
               | (Inr ports, w) \<Rightarrow>
                   (let (relay_port, peer_a_port, peer_b_port) = ports;
                        df = demo_files output_directory;
                        w = remove_demo_files fs df w
                    in case spawn ps (dc_executable_path config)
                              (relay_arguments config relay_port peer_a_port peer_b_port (df_ready df)) w of
                         (Inl e, w) \<Rightarrow> Some (Inl e, w)
                       | (Inr relay, w) \<Rightarrow>
                           Option.bind (wait_for_ready os ps fs (df_ready df) relay
                                          (min (dc_watchdog_milliseconds config) 1000) w)
                             (\<lambda>(ready, relay, w).
                               case ready of
                                 Inl e \<Rightarrow> finish os ps [relay] (Inl e) w
                               | Inr _ \<Rightarrow> run_demo_peers os ps fs config df ports relay w)))))"

end
