(* ===== verification/Viewer.thy ===== *)
theory Viewer
  imports Files Json
begin

text \<open>
  The trace viewer: \<open>report/viewer.hpp\<close>, \<open>src/report/viewer.cpp\<close>. The two raw string literals of HTML and script that
  surround the trace are the parameter \<open>ViewerPage\<close>.
\<close>

record ViewerPage =
  vp_prefix :: string
  vp_suffix :: string

definition generate_viewer_html :: "ViewerPage \<Rightarrow> Trace \<Rightarrow> string Result" where
  "generate_viewer_html page trace =
     (if tx_frames trace = [] then failure EC_invalid_argument 0 0 ''viewer_empty_trace''
      else
        (case trace_json trace of
           Inl e \<Rightarrow> Inl e
         | Inr json \<Rightarrow> Inr (vp_prefix page @ json @ vp_suffix page)))"

definition write_viewer :: "'s Host \<Rightarrow> ViewerPage \<Rightarrow> Trace \<Rightarrow> string \<Rightarrow> 's \<Rightarrow> unit Result \<times> 's" where
  "write_viewer os page trace path w =
     (case generate_viewer_html page trace of
        Inl e \<Rightarrow> (Inl e, w)
      | Inr html \<Rightarrow>
          (let (opened, w) = os_open os path w in
           if \<not> opened then (failure EC_io_error 0 0 ''viewer_open'', w)
           else
             (let (written, w) = os_write os path (map of_char html) w in
              if \<not> written then (failure EC_io_error (of_nat (length html)) 0 ''viewer_write'', w)
              else (Inr (), w))))"

end
