(* ===== verification/CommandLine.thy ===== *)
theory CommandLine
  imports UdpDemo Viewer
begin

text \<open>
  The command line: \<open>cli/commands.hpp\<close>, \<open>src/cli/commands.cpp\<close>. A command gets the arguments with the program's name
  first and returns its exit code; \<open>None\<close> stands for a command that never returns. \<open>main.cpp\<close> only copies
  the arguments.
\<close>

section \<open>Arguments\<close>

definition help_text :: string where
  "help_text =
     ''rollback_lab <command>'' @ nl
   @ ''  simulate --scenario default [--frames N] [--out DIRECTORY]'' @ nl
   @ ''    [--scenario-seed uint64] [--transport-seed uint64]'' @ nl
   @ ''  replay FILE'' @ nl
   @ ''  udp-demo [--frames N] [--out DIRECTORY] [--inject-desync]'' @ nl
   @ ''  verify [--frames N]'' @ nl
   @ ''  benchmark [--frames N]'' @ nl
   @ ''  desync-demo [--out FILE]'' @ nl
   @ ''  compare REPORT_A REPORT_B'' @ nl"

fun option_value :: "string list \<Rightarrow> string \<Rightarrow> string" where
  "option_value (argument # following # rest) opt =
     (if argument = opt then following else option_value (following # rest) opt)"
| "option_value _ opt = ''''"

text \<open>\<open>std::from_chars\<close> for an unsigned type of \<open>w\<close> bits: the value of the leading digits, and the rest.\<close>

definition is_digit :: "char \<Rightarrow> bool" where
  "is_digit c \<longleftrightarrow> (48 :: nat) \<le> of_char c \<and> of_char c \<le> (57 :: nat)"

definition from_chars :: "nat \<Rightarrow> string \<Rightarrow> (nat \<times> string) option" where
  "from_chars w text =
     (let digits = takeWhile is_digit text; value = undec digits
      in if digits = [] \<or> value \<ge> 2 ^ w then None else Some (value, dropWhile is_digit text))"

definition parse_u32 :: "string \<Rightarrow> u32 \<Rightarrow> u32 Result" where
  "parse_u32 text fallback =
     (if text = [] then Inr fallback
      else
        (case from_chars 32 text of
           Some (value, []) \<Rightarrow> Inr (of_nat value)
         | _ \<Rightarrow> failure EC_invalid_argument 0 0 ''numeric_option''))"

definition parse_u64 :: "string list \<Rightarrow> string \<Rightarrow> u64 \<Rightarrow> u64 Result" where
  "parse_u64 arguments opt fallback =
     (case dropWhile (\<lambda>a. a \<noteq> opt) arguments of
        [] \<Rightarrow> Inr fallback
      | [_] \<Rightarrow> failure EC_invalid_argument 0 0 ''missing_seed_option''
      | _ # text # _ \<Rightarrow>
          if text = [] then failure EC_invalid_argument 0 0 ''missing_seed_option''
          else
            (case from_chars 64 text of
               Some (value, []) \<Rightarrow> Inr (of_nat value)
             | _ \<Rightarrow> failure EC_invalid_argument 0 0 ''seed_option''))"

definition required_u32 :: "string list \<Rightarrow> string \<Rightarrow> u32 Result" where
  "required_u32 arguments opt =
     (let value = option_value arguments opt in
      if value = [] then failure EC_invalid_argument 0 0 ''required_option'' else parse_u32 value 0)"

section \<open>Files\<close>

definition read_binary :: "'s Files \<Rightarrow> string \<Rightarrow> 's \<Rightarrow> byte list Result \<times> 's" where
  "read_binary fs =
     read_file fs (mk_error EC_io_error 0 0 ''open_input'') (mk_error EC_invalid_length 0 0 ''input_file'')
       ''read_input''"

definition read_text :: "'s Files \<Rightarrow> string \<Rightarrow> 's \<Rightarrow> string Result \<times> 's" where
  "read_text fs = read_text_file fs ''open_report''"

definition write_binary :: "'s Host \<Rightarrow> string \<Rightarrow> byte list \<Rightarrow> 's \<Rightarrow> bool \<times> 's" where
  "write_binary os path bytes w =
     (let (opened, w) = os_open os path w in
      if \<not> opened then (False, w)
      else if bytes = [] then (True, w) else os_write os path bytes w)"

definition write_text :: "'s Host \<Rightarrow> string \<Rightarrow> string \<Rightarrow> 's \<Rightarrow> bool \<times> 's" where
  "write_text os path text w = write_stream os path (map of_char text) w"

section \<open>Commands on scenarios\<close>

definition default_scenario :: "u32 \<Rightarrow> ScenarioRunConfig" where
  "default_scenario frames =
     default_scenario_config
       \<lparr>sc_scenario_seed := 0xC0FFEE, sc_transport_seed := 0x51A7E5, sc_frame_count := frames,
        sc_transport := default_transport_config
          \<lparr>tc_seed := 0x51A7E5, tc_base_latency_ticks := 5, tc_jitter_ticks := 3, tc_loss_percent := 5,
           tc_reorder_percent := 10, tc_duplicate_percent := 5, tc_burst_loss_percent := 1,
           tc_max_queue_packets := 4096, tc_max_queue_bytes := 4 * 1048576\<rparr>\<rparr>"

text \<open>The four writes of \<open>simulate\<close>, of which a later one is not tried after a failure.\<close>

definition write_scenario_artifacts :: "'s Host \<Rightarrow> ViewerPage \<Rightarrow> string \<Rightarrow> string \<Rightarrow> string \<Rightarrow> byte list \<Rightarrow> Trace
    \<Rightarrow> 's \<Rightarrow> bool \<times> 's" where
  "write_scenario_artifacts os page directory report trace_json_text replay trace w =
     (let (good, w) = write_text os (path_join directory ''report.json'') report w in
      if \<not> good then (False, w)
      else
        (let (good, w) = write_text os (path_join directory ''trace.json'') trace_json_text w in
         if \<not> good then (False, w)
         else
           (let (good, w) = write_binary os (path_join directory ''input.rlr'') replay w in
            if \<not> good then (False, w)
            else
              (let (viewer, w) = write_viewer os page trace (path_join directory ''viewer.html'') w
               in (ok viewer, w)))))"

definition simulate_command :: "BuildInfo \<Rightarrow> ViewerPage \<Rightarrow> 's Host \<Rightarrow> 's Files \<Rightarrow> string list \<Rightarrow> 's
    \<Rightarrow> int \<times> 's" where
  "simulate_command build page os fs arguments w =
     (let scenario = option_value arguments ''--scenario'' in
      if scenario \<noteq> [] \<and> scenario \<noteq> ''default''
      then (2, fs_print_error fs (''unsupported scenario: '' @ scenario @ nl) w)
      else
        (case parse_u32 (option_value arguments ''--frames'') 600 of
           Inl _ \<Rightarrow> (2, fs_print_error fs (''invalid --frames'' @ nl) w)
         | Inr frames \<Rightarrow>
             (let output_text = option_value arguments ''--out'';
                  output = (if output_text = [] then ''artifacts/latest'' else output_text);
                  (error, w) = fs_create_directories fs output w
              in if error \<noteq> 0 then (3, fs_print_error fs (''cannot create output directory'' @ nl) w)
                 else
                   (let config = default_scenario frames in
                    case (parse_u64 arguments ''--scenario-seed'' (sc_scenario_seed config),
                          parse_u64 arguments ''--transport-seed'' (sc_transport_seed config)) of
                      (Inr scenario_seed, Inr transport_seed) \<Rightarrow>
                        (let config = config\<lparr>sc_scenario_seed := scenario_seed,
                                             sc_transport_seed := transport_seed\<rparr>
                         in case run_seeded_scenario build config of
                              Inl e \<Rightarrow> (4, fs_print_error fs (''simulation failed with error code ''
                                            @ dec_word (error_code_value (err_code e)) @ nl) w)
                            | Inr artifacts \<Rightarrow>
                                (case (trace_json (sa_trace artifacts), encode_replay (sa_replay artifacts)) of
                                   (Inr trace_json_text, Inr replay) \<Rightarrow>
                                     (let report = report_json (sa_report artifacts);
                                          (good, w) = write_scenario_artifacts os page output report trace_json_text
                                                        replay (sa_trace artifacts) w
                                      in if good then (0, fs_print fs report w)
                                         else (5, fs_print_error fs (''artifact write failed'' @ nl) w))
                                 | _ \<Rightarrow> (5, fs_print_error fs (''artifact write failed'' @ nl) w)))
                    | _ \<Rightarrow> (2, fs_print_error fs (''invalid scenario or transport seed'' @ nl) w)))))"

definition replay_command :: "'s Files \<Rightarrow> string list \<Rightarrow> 's \<Rightarrow> int \<times> 's" where
  "replay_command fs arguments w =
     (if length arguments < 3 then (2, fs_print_error fs (''replay requires a file'' @ nl) w)
      else
        (case read_binary fs (arguments ! 2) w of
           (Inl _, w) \<Rightarrow> (3, fs_print_error fs (''cannot read replay'' @ nl) w)
         | (Inr bytes, w) \<Rightarrow>
             (case decode_replay bytes of
                Inl _ \<Rightarrow> (4, fs_print_error fs (''replay decode failed'' @ nl) w)
              | Inr replay \<Rightarrow>
                  (case verify_replay replay of
                     Inl _ \<Rightarrow> (5, fs_print_error fs (''replay verification failed'' @ nl) w)
                   | Inr v \<Rightarrow>
                       (0, fs_print fs (''replay verified: frame '' @ dec_word (rv_final_frame v) @ '', hash ''
                              @ dec_word (rv_actual_final_hash v) @ nl) w)))))"

definition verify_command :: "BuildInfo \<Rightarrow> 's Files \<Rightarrow> string list \<Rightarrow> 's \<Rightarrow> int \<times> 's" where
  "verify_command build fs arguments w =
     (case parse_u32 (option_value arguments ''--frames'') 600 of
        Inl _ \<Rightarrow> (2, w)
      | Inr frames \<Rightarrow>
          (case run_seeded_scenario build (default_scenario frames) of
             Inl _ \<Rightarrow> (3, fs_print_error fs (''verification failed'' @ nl) w)
           | Inr artifacts \<Rightarrow>
               (0, fs_print fs (''verification passed: '' @ dec_word frames @ '' frames, identity ''
                      @ dec_word (report_identity (sa_report artifacts)) @ nl) w)))"

section \<open>Benchmark\<close>

text \<open>The loop of the benchmark with the number of frames that are left; \<open>None\<close> is the early return with code 3.\<close>

fun benchmark_frames :: "nat \<Rightarrow> u32 \<Rightarrow> WorldState \<Rightarrow> WorldState option" where
  "benchmark_frames 0 frame state = Some state"
| "benchmark_frames (Suc n) frame state =
     (case simulate_frame state frame
             \<lparr>pair_a = scripted_input 1 frame PA, pair_b = scripted_input 1 frame PB\<rparr> variant_canonical of
        Inl _ \<Rightarrow> None
      | Inr state \<Rightarrow> benchmark_frames n (frame + 1) state)"

definition stress_scenario :: "u32 \<Rightarrow> ScenarioRunConfig" where
  "stress_scenario frames =
     (let config = default_scenario (min frames 2000) in
      config\<lparr>sc_transport := (sc_transport config)
        \<lparr>tc_base_latency_ticks := 8, tc_jitter_ticks := 4, tc_loss_percent := 0\<rparr>\<rparr>)"

definition benchmark_command :: "BuildInfo \<Rightarrow> 's Files \<Rightarrow> string list \<Rightarrow> 's \<Rightarrow> int \<times> 's" where
  "benchmark_command build fs arguments w =
     (case parse_u32 (option_value arguments ''--frames'') 100000 of
        Inl _ \<Rightarrow> (2, w)
      | Inr frames \<Rightarrow>
          if frames = 0 then (2, w)
          else
            (let (simulation_start, w) = fs_microseconds fs w in
             case benchmark_frames (unat frames) 0 make_initial_world of
               None \<Rightarrow> (3, w)
             | Some _ \<Rightarrow>
                 (let (simulation_end, w) = fs_microseconds fs w;
                      simulation_us = max 1 (simulation_end - simulation_start);
                      stress_config = stress_scenario frames;
                      (rollback_start, w) = fs_microseconds fs w;
                      stress = run_seeded_scenario build stress_config;
                      (rollback_end, w) = fs_microseconds fs w
                  in case stress of
                       Inl _ \<Rightarrow> (4, w)
                     | Inr artifacts \<Rightarrow>
                         (let rollback_us = max 1 (rollback_end - rollback_start);
                              ticks_per_second = (ucast frames * 1000000 :: u64) div of_int simulation_us;
                              report = sa_report artifacts
                          in (0, fs_print fs
                               (''{\"simulation\":{\"total_ticks\":'' @ dec_word frames
                                @ '',\"total_microseconds\":'' @ dec (nat simulation_us)
                                @ '',\"ticks_per_second\":'' @ dec_word ticks_per_second
                                @ ''},\"rollback_stress\":{\"total_ticks\":'' @ dec_word (sc_frame_count stress_config)
                                @ '',\"total_microseconds\":'' @ dec (nat rollback_us)
                                @ '',\"rollback_count\":'' @ dec_word (rr_rollback_count report)
                                @ '',\"resimulated_frames\":'' @ dec_word (rr_resimulated_frames report)
                                @ '',\"maximum_depth\":'' @ dec_word (rr_maximum_rollback_depth report)
                                @ ''}}'' @ nl) w)))))"

section \<open>Reports\<close>

definition identity_marker :: string where "identity_marker = ''\"identity_digest\":\"''"

definition identity_field :: "string \<Rightarrow> string" where
  "identity_field report =
     (case find_text identity_marker report of
        None \<Rightarrow> ''''
      | Some start \<Rightarrow>
          (let value = drop (start + length identity_marker) report in
           case find_text [CHR 0x22] value of
             None \<Rightarrow> ''''
           | Some n \<Rightarrow> take n value))"

definition compare_command :: "'s Files \<Rightarrow> string list \<Rightarrow> 's \<Rightarrow> int \<times> 's" where
  "compare_command fs arguments w =
     (if length arguments < 4 then (2, fs_print_error fs (''compare requires two reports'' @ nl) w)
      else
        (let (left, w) = read_text fs (arguments ! 2) w;
             (right, w) = read_text fs (arguments ! 3) w
         in case (left, right) of
              (Inr left, Inr right) \<Rightarrow>
                (let left_identity = identity_field left; right_identity = identity_field right in
                 if left_identity = [] \<or> left_identity \<noteq> right_identity
                 then (4, fs_print_error fs (''reports differ'' @ nl) w)
                 else (0, fs_print fs (''reports match: '' @ left_identity @ nl) w))
            | _ \<Rightarrow> (3, w)))"

text \<open>The world of the desync demo: the players face each other, and the first one attacks.\<close>

definition demo_world :: WorldState where
  "demo_world =
     (let w = make_initial_world in
      w\<lparr>ws_players :=
          [(ws_players w ! 0)\<lparr>ps_x := 100 * kSubunitsPerWorldUnit, ps_y := 100 * kSubunitsPerWorldUnit\<rparr>,
           (ws_players w ! 1)\<lparr>ps_x := 140 * kSubunitsPerWorldUnit, ps_y := 100 * kSubunitsPerWorldUnit\<rparr>]\<rparr>)"

definition demo_inputs :: InputPair where
  "demo_inputs =
     \<lparr>pair_a = \<lparr>in_frame = 0, in_player = PA, in_sequence = 0, in_buttons = button_mask Btn_attack\<rparr>,
      pair_b = \<lparr>in_frame = 0, in_player = PB, in_sequence = 0, in_buttons = 0\<rparr>\<rparr>"

definition desync_demo_diagnostic :: "DesyncDiagnostic option Result" where
  "desync_demo_diagnostic =
     (case (simulate_frame demo_world 0 demo_inputs variant_canonical,
            simulate_frame demo_world 0 demo_inputs variant_damage_bias) of
        (Inr expected, Inr divergent) \<Rightarrow>
          Inr (fst (observe_hashes
                 \<lparr>ho_frame = 1, ho_hash = hash_canonical expected, ho_confirmed = True\<rparr>
                 \<lparr>ho_frame = 1, ho_hash = hash_canonical divergent, ho_confirmed = True\<rparr>
                 [demo_inputs] expected (make_desync_tracker 0xD35A7C)))
      | (Inl e, _) \<Rightarrow> Inl e
      | (_, Inl e) \<Rightarrow> Inl e)"

definition desync_demo_command :: "'s Host \<Rightarrow> 's Files \<Rightarrow> string list \<Rightarrow> 's \<Rightarrow> int \<times> 's" where
  "desync_demo_command os fs arguments w =
     (case desync_demo_diagnostic of
        Inl _ \<Rightarrow> (3, w)
      | Inr None \<Rightarrow> (4, w)
      | Inr (Some diagnostic) \<Rightarrow>
          (let json = diagnostic_json diagnostic; output = option_value arguments ''--out'' in
           if output = [] then (0, fs_print fs json w)
           else
             (let parent = fs_parent_path fs output;
                  (error, w) = (if parent \<noteq> [] then fs_create_directories fs parent w else (0, w))
              in if error \<noteq> 0 then (6, w)
                 else
                   (let (good, w) = write_text os output json w in
                    if \<not> good then (6, w)
                    else (0, fs_print fs (''desync diagnostic written: '' @ output @ nl) w)))))"

section \<open>The commands of the UDP demo\<close>

text \<open>The error file of a child; whether it can be written is not looked at.\<close>

definition write_error_file :: "'s Host \<Rightarrow> string \<Rightarrow> Error \<Rightarrow> 's \<Rightarrow> 's" where
  "write_error_file os path e w =
     snd (write_stream os (path @ ''.error'')
       (map of_char
         (''{\"error_code\":'' @ dec_word (error_code_value (err_code e))
          @ '',\"detail\":'' @ dec_word (err_detail e)
          @ '',\"offset\":'' @ dec (err_offset e)
          @ '',\"context\":\"'' @ err_context e @ ''\"}'' @ nl)) w)"

definition relay_config :: "string list \<Rightarrow> RelayConfig option" where
  "relay_config arguments =
     (let ready = option_value arguments ''--ready'' in
      case (required_u32 arguments ''--relay-port'', required_u32 arguments ''--peer-a-port'',
            required_u32 arguments ''--peer-b-port'', required_u32 arguments ''--max-ms'') of
        (Inr relay_port, Inr peer_a_port, Inr peer_b_port, Inr maximum) \<Rightarrow>
          if ready = [] \<or> relay_port > 65535 \<or> peer_a_port > 65535 \<or> peer_b_port > 65535 then None
          else Some \<lparr>rl_relay_port = ucast relay_port, rl_peer_a_port = ucast peer_a_port,
                     rl_peer_b_port = ucast peer_b_port, rl_maximum_runtime_milliseconds = maximum,
                     rl_ready_file = ready\<rparr>
      | _ \<Rightarrow> None)"

definition relay_command :: "'s Host \<Rightarrow> string list \<Rightarrow> 's \<Rightarrow> (int \<times> 's) option" where
  "relay_command os arguments w =
     (case relay_config arguments of
        None \<Rightarrow> Some (2, w)
      | Some config \<Rightarrow>
          Option.bind (run_relay os config w) (\<lambda>(result, w).
            case result of
              Inl e \<Rightarrow> Some (20 + uint (error_code_value (err_code e)),
                         write_error_file os (rl_ready_file config) e w)
            | Inr code \<Rightarrow> Some (code, w)))"

definition peer_config :: "string list \<Rightarrow> PeerConfig option" where
  "peer_config arguments =
     (let player = option_value arguments ''--id'';
          variant = option_value arguments ''--variant'';
          report = option_value arguments ''--report'';
          replay = option_value arguments ''--replay'';
          diagnostic = option_value arguments ''--diagnostic''
      in case (required_u32 arguments ''--listen-port'', required_u32 arguments ''--relay-port'',
               required_u32 arguments ''--scenario-seed'', required_u32 arguments ''--transport-seed'',
               required_u32 arguments ''--frames'', required_u32 arguments ''--protocol-version'',
               required_u32 arguments ''--simulation-version'', required_u32 arguments ''--handshake-ms'',
               required_u32 arguments ''--run-ms'') of
           (Inr listen_port, Inr relay_port, Inr scenario_seed, Inr transport_seed, Inr frames, Inr protocol,
            Inr simulation, Inr handshake, Inr run_timeout) \<Rightarrow>
             if (player \<noteq> ''A'' \<and> player \<noteq> ''B'') \<or> report = [] \<or> replay = [] \<or> diagnostic = []
                \<or> (variant \<noteq> ''canonical'' \<and> variant \<noteq> ''damage-bias'')
                \<or> listen_port > 65535 \<or> relay_port > 65535 \<or> protocol > 65535
             then None
             else Some (default_peer_config
               \<lparr>pc_id := (if player = ''A'' then PA else PB), pc_listen_port := ucast listen_port,
                pc_relay_port := ucast relay_port, pc_scenario_seed := ucast scenario_seed,
                pc_transport_seed := ucast transport_seed, pc_frame_count := frames,
                pc_protocol_version_override := ucast protocol, pc_simulation_version_override := simulation,
                pc_simulation_variant := (if variant = ''damage-bias'' then variant_damage_bias
                                          else variant_canonical),
                pc_handshake_timeout_milliseconds := handshake, pc_run_timeout_milliseconds := run_timeout,
                pc_report_path := report, pc_replay_path := replay, pc_diagnostic_path := diagnostic\<rparr>)
         | _ \<Rightarrow> None)"

definition peer_command :: "BuildInfo \<Rightarrow> 's Host \<Rightarrow> string list \<Rightarrow> 's \<Rightarrow> (int \<times> 's) option" where
  "peer_command build os arguments w =
     (case peer_config arguments of
        None \<Rightarrow> Some (2, w)
      | Some config \<Rightarrow>
          Option.bind (run_peer build os config w) (\<lambda>(result, w).
            case result of
              Inl e \<Rightarrow> Some (40 + uint (error_code_value (err_code e)),
                         write_error_file os (pc_report_path config) e w)
            | Inr code \<Rightarrow> Some (code, w)))"

definition udp_demo_command :: "'s Host \<Rightarrow> 's Processes \<Rightarrow> 's Files \<Rightarrow> string list \<Rightarrow> 's
    \<Rightarrow> (int \<times> 's) option" where
  "udp_demo_command os ps fs arguments w =
     (case (parse_u32 (option_value arguments ''--frames'') 120,
            parse_u32 (option_value arguments ''--watchdog-ms'') 5000) of
        (Inr frames, Inr watchdog) \<Rightarrow>
          (let output = option_value arguments ''--out'';
               config = default_demo_config
                 \<lparr>dc_executable_path := fst (fs_absolute fs (hd arguments) w),
                  dc_output_directory := (if output = [] then dc_output_directory default_demo_config else output),
                  dc_frame_count := frames, dc_watchdog_milliseconds := watchdog\<rparr>;
               config = (if ''--inject-desync'' \<in> set arguments
                         then config\<lparr>dc_scenario_seed := 1, dc_peer_b_variant := variant_damage_bias\<rparr>
                         else config)
           in Option.bind (run_udp_demo os ps fs config w) (\<lambda>(result, w).
                case result of
                  Inl e \<Rightarrow> Some (6, fs_print_error fs
                     (''udp demo failed with error code '' @ dec_word (error_code_value (err_code e))
                      @ '', detail '' @ dec_word (err_detail e) @ '', context '' @ err_context e @ nl) w)
                | Inr r \<Rightarrow> Some (0, fs_print fs
                     (''udp demo passed: relay pid '' @ dec_word (dr_relay_pid r) @ '', peers ''
                      @ dec_word (dr_peer_a_pid r) @ ''/'' @ dec_word (dr_peer_b_pid r) @ '', confirmed frame ''
                      @ dec_word (dr_confirmed_frame r) @ '', hash '' @ dec_word (dr_final_hash_a r) @ nl) w)))
      | _ \<Rightarrow> Some (2, w))"

section \<open>The dispatch\<close>

definition run_cli :: "BuildInfo \<Rightarrow> ViewerPage \<Rightarrow> 's Host \<Rightarrow> 's Processes \<Rightarrow> 's Files \<Rightarrow> string list \<Rightarrow> 's
    \<Rightarrow> (int \<times> 's) option" where
  "run_cli build page os ps fs arguments w =
     (if length arguments < 2 \<or> arguments ! 1 = ''--help'' \<or> arguments ! 1 = ''help''
      then Some (if length arguments < 2 then 2 else 0, fs_print fs help_text w)
      else if arguments ! 1 = ''simulate'' then Some (simulate_command build page os fs arguments w)
      else if arguments ! 1 = ''replay'' then Some (replay_command fs arguments w)
      else if arguments ! 1 = ''verify'' then Some (verify_command build fs arguments w)
      else if arguments ! 1 = ''benchmark'' then Some (benchmark_command build fs arguments w)
      else if arguments ! 1 = ''desync-demo'' then Some (desync_demo_command os fs arguments w)
      else if arguments ! 1 = ''compare'' then Some (compare_command fs arguments w)
      else if arguments ! 1 = ''udp-demo'' then udp_demo_command os ps fs arguments w
      else if arguments ! 1 = ''relay'' then relay_command os arguments w
      else if arguments ! 1 = ''peer'' then peer_command build os arguments w
      else Some (2, fs_print fs help_text w))"

end
