(* ===== verification/CommandProof.thy ===== *)
theory CommandProof
  imports CommandLine LiveTrace UdpRun
begin

text \<open>
  What the command line keeps to: the arguments that the UDP demo passes to its children are the ones the
  children's commands read back, \<open>compare\<close> accepts exactly the reports of equal identity, and a replay file
  that \<open>simulate\<close> wrote is one that \<open>replay\<close> verifies.
\<close>

section \<open>Numbers as arguments\<close>

lemma is_digit_dec: "c \<in> set (dec n) \<Longrightarrow> is_digit c"
  using dec_digits [of c n] by (simp add: is_digit_def)

lemma dec_not_Nil [simp]: "dec n \<noteq> []"
  by (simp add: dec.simps [of n])

lemma dash_not_dec [simp]: "dec n \<noteq> CHR ''-'' # s"
  using is_digit_dec [of "CHR ''-''" n] by (auto simp: is_digit_def)

lemma dash_not_dec_word [simp]: "dec_word v \<noteq> CHR ''-'' # s" "dec_word v \<noteq> []"
  by (simp_all add: dec_word_def)

lemma digits_dec: "takeWhile is_digit (dec n) = dec n" "dropWhile is_digit (dec n) = []"
  by (auto simp: takeWhile_eq_all_conv dropWhile_eq_Nil_conv is_digit_dec)

lemma from_chars_dec: "from_chars w (dec n) = (if n < 2 ^ w then Some (n, []) else None)"
  unfolding from_chars_def digits_dec by (simp add: undec_dec Let_def not_less)

lemma parse_u32_dec:
  "parse_u32 (dec n) fallback
     = (if n < 2 ^ 32 then Inr (of_nat n) else failure EC_invalid_argument 0 0 ''numeric_option'')"
  unfolding parse_u32_def by (simp add: from_chars_dec)

lemma parse_u32_u32 [simp]: "parse_u32 (dec_word (v :: u32)) fallback = Inr v"
proof -
  have "unat v < 2 ^ 32" using unsigned_less [of v] by simp
  then show ?thesis by (simp add: dec_word_def parse_u32_dec)
qed

lemma parse_u32_u16 [simp]: "parse_u32 (dec_word (v :: u16)) fallback = Inr (ucast v)"
proof -
  have "unat v < 2 ^ 16" using unsigned_less [of v] by simp
  then have "unat v < 2 ^ 32" by simp
  then show ?thesis unfolding dec_word_def parse_u32_dec by simp
qed

lemma parse_u32_u64:
  "parse_u32 (dec_word (v :: u64)) fallback
     = (if v < 2 ^ 32 then Inr (ucast v) else failure EC_invalid_argument 0 0 ''numeric_option'')"
proof -
  have "v < 2 ^ 32 \<longleftrightarrow> unat v < 2 ^ 32" by (simp add: word_less_nat_alt)
  then show ?thesis by (simp add: dec_word_def parse_u32_dec)
qed

section \<open>The children's command lines\<close>

lemma option_value_hit [simp]: "option_value (opt # following # rest) opt = following"
  by simp

lemma last_path_join [simp]: "name \<noteq> [] \<Longrightarrow> last (path_join directory name) = last name"
  by (simp add: path_join_def)

lemma path_join_not_Nil [simp]: "name \<noteq> [] \<Longrightarrow> path_join directory name \<noteq> []"
  by (simp add: path_join_def)

lemma path_join_neq: "\<lbrakk>name \<noteq> []; last name \<noteq> last opt\<rbrakk> \<Longrightarrow> path_join directory name \<noteq> opt"
  by (metis last_path_join)

lemma port_fits [simp]: "\<not> (65535 :: u32) < ucast (p :: u16)"
proof -
  have "unat p < 65536" using unsigned_less [of p] by simp
  then show ?thesis by (simp add: word_less_nat_alt unsigned_ucast_eq take_bit_nat_eq_self)
qed

lemma seed_back: "v < 2 ^ 32 \<Longrightarrow> ucast (ucast (v :: u64) :: u32) = v"
proof -
  assume "v < 2 ^ 32"
  then have "unat v < 2 ^ 32" by (simp add: word_less_nat_alt)
  then show ?thesis
    by (simp add: word_unat_eq_iff unsigned_ucast_eq unsigned_take_bit_eq take_bit_nat_eq_self)
qed

lemma relay_arguments_parsed:
  assumes "take 1 exe \<noteq> ''-''"
  shows "relay_config (exe # relay_arguments config relay_port port_a port_b (path_join directory ''relay.ready''))
    = Some \<lparr>rl_relay_port = relay_port, rl_peer_a_port = port_a, rl_peer_b_port = port_b,
            rl_maximum_runtime_milliseconds = dc_watchdog_milliseconds config + 1000,
            rl_ready_file = path_join directory ''relay.ready''\<rparr>"
proof -
  have exe: "exe \<noteq> CHR ''-'' # s" for s using assms by auto
  show ?thesis
    by (simp add: relay_config_def relay_arguments_def required_u32_def exe path_join_neq ucast_up_ucast_id is_up)
qed

text \<open>The configuration that a peer of the demo is meant to run with.\<close>

definition demo_peer :: "UdpDemoConfig \<Rightarrow> PlayerId \<Rightarrow> u16 \<Rightarrow> u16 \<Rightarrow> string \<Rightarrow> string \<Rightarrow> string
    \<Rightarrow> u16 \<Rightarrow> u32 \<Rightarrow> SimulationVariant \<Rightarrow> PeerConfig" where
  "demo_peer config player listen_port relay_port report replay diagnostic protocol simulation variant =
     default_peer_config
       \<lparr>pc_id := player, pc_listen_port := listen_port, pc_relay_port := relay_port,
        pc_scenario_seed := dc_scenario_seed config, pc_transport_seed := dc_transport_seed config,
        pc_frame_count := dc_frame_count config, pc_protocol_version_override := protocol,
        pc_simulation_version_override := simulation,
        pc_simulation_variant := (if variant = variant_canonical then variant_canonical
                                  else variant_damage_bias),
        pc_handshake_timeout_milliseconds := max 200 (min 1000 (dc_watchdog_milliseconds config div 2)),
        pc_run_timeout_milliseconds := dc_watchdog_milliseconds config,
        pc_report_path := report, pc_replay_path := replay, pc_diagnostic_path := diagnostic\<rparr>"

lemma peer_arguments_parsed:
  fixes protocol :: u16
  assumes exe: "take 1 exe \<noteq> ''-''" and files: "report \<noteq> []" "replay \<noteq> []" "diagnostic \<noteq> []"
    and no_option: "report \<noteq> ''--replay''" "report \<noteq> ''--diagnostic''" "replay \<noteq> ''--diagnostic''"
  shows "peer_config (exe # peer_arguments config player listen_port relay_port report replay diagnostic
            protocol simulation variant)
    = (if dc_scenario_seed config < 2 ^ 32 \<and> dc_transport_seed config < 2 ^ 32
       then Some (demo_peer config player listen_port relay_port report replay diagnostic protocol simulation variant)
       else None)"
proof -
  define arguments where "arguments = exe # peer_arguments config player listen_port relay_port report replay
    diagnostic protocol simulation variant"
  have exe': "exe \<noteq> CHR ''-'' # s" for s using exe by auto
  note no_option [simp] = no_option
  have found: "option_value arguments ''--id'' = (if player = PA then ''A'' else ''B'')"
    "option_value arguments ''--listen-port'' = dec_word listen_port"
    "option_value arguments ''--relay-port'' = dec_word relay_port"
    "option_value arguments ''--scenario-seed'' = dec_word (dc_scenario_seed config)"
    "option_value arguments ''--transport-seed'' = dec_word (dc_transport_seed config)"
    "option_value arguments ''--frames'' = dec_word (dc_frame_count config)"
    "option_value arguments ''--protocol-version'' = dec_word protocol"
    "option_value arguments ''--simulation-version'' = dec_word simulation"
    "option_value arguments ''--variant''
       = (if variant = variant_canonical then ''canonical'' else ''damage-bias'')"
    "option_value arguments ''--handshake-ms''
       = dec_word (max 200 (min 1000 (dc_watchdog_milliseconds config div 2)))"
    "option_value arguments ''--run-ms'' = dec_word (dc_watchdog_milliseconds config)"
    "option_value arguments ''--report'' = report"
    "option_value arguments ''--replay'' = replay"
    "option_value arguments ''--diagnostic'' = diagnostic"
    unfolding arguments_def peer_arguments_def Let_def by (simp_all add: exe')
  show ?thesis
    unfolding arguments_def [symmetric] peer_config_def required_u32_def found Let_def demo_peer_def
    by (cases player; cases "dc_scenario_seed config < 2 ^ 32"; cases "dc_transport_seed config < 2 ^ 32")
      (simp_all add: parse_u32_u64 port_fits ucast_up_ucast_id is_up files seed_back)
qed

text \<open>
  C13. The demo and its children agree on the command lines. The relay reads back the ports and the ready file
  the demo chose, for every directory; each peer reads back the scenario, the ports, the versions,
  the variant and its three files, provided both seeds fit into 32 bits. The demo's seeds have 64 bits,
  and with a larger one both peers refuse their command lines.
\<close>

theorem demo_children_configured:
  assumes "take 1 exe \<noteq> ''-''"
  shows "let files = demo_files directory;
           seeds_fit = (dc_scenario_seed config < 2 ^ 32 \<and> dc_transport_seed config < 2 ^ 32)
     in relay_config (exe # relay_arguments config relay_port port_a port_b (df_ready files))
          = Some \<lparr>rl_relay_port = relay_port, rl_peer_a_port = port_a, rl_peer_b_port = port_b,
                  rl_maximum_runtime_milliseconds = dc_watchdog_milliseconds config + 1000,
                  rl_ready_file = df_ready files\<rparr>
      \<and> peer_config (exe # peer_arguments config PA port_a relay_port
            (df_report_a files) (df_replay_a files) (df_diagnostic_a files) (ucast kProtocolVersion)
            kSimulationVersion variant_canonical)
          = (if seeds_fit
             then Some (demo_peer config PA port_a relay_port (df_report_a files) (df_replay_a files)
                          (df_diagnostic_a files) (ucast kProtocolVersion) kSimulationVersion variant_canonical)
             else None)
      \<and> peer_config (exe # peer_arguments config PB port_b relay_port
            (df_report_b files) (df_replay_b files) (df_diagnostic_b files) (dc_peer_b_protocol_version config)
            (dc_peer_b_simulation_version config) (dc_peer_b_variant config))
          = (if seeds_fit
             then Some (demo_peer config PB port_b relay_port (df_report_b files) (df_replay_b files)
                          (df_diagnostic_b files) (dc_peer_b_protocol_version config)
                          (dc_peer_b_simulation_version config) (dc_peer_b_variant config))
             else None)"
  using assms
  by (simp add: Let_def demo_files_def relay_arguments_parsed peer_arguments_parsed path_join_neq)

theorem demo_children_configured_witness:
  "let config = default_demo_config\<lparr>dc_scenario_seed := 7, dc_transport_seed := 2 ^ 32\<rparr> in
   relay_config (''/bin/rollback_lab'' # relay_arguments config 4000 4001 4002
     (df_ready (demo_files ''out'')))
     = Some \<lparr>rl_relay_port = 4000, rl_peer_a_port = 4001, rl_peer_b_port = 4002,
             rl_maximum_runtime_milliseconds = 6000, rl_ready_file = ''out/relay.ready''\<rparr>
   \<and> peer_config (''/bin/rollback_lab'' # peer_arguments config PA 4001 4000
       ''out/peer-a-report.json'' ''out/peer-a-input.rlr'' ''out/peer-a-desync.json''
       (ucast kProtocolVersion) kSimulationVersion variant_canonical) = None"
  using demo_children_configured [where exe = "''/bin/rollback_lab''" and directory = "''out''"
      and config = "default_demo_config\<lparr>dc_scenario_seed := 7, dc_transport_seed := 2 ^ 32\<rparr>"
      and relay_port = 4000 and port_a = 4001 and port_b = 4002]
  by (simp add: default_demo_config_def path_join_def Let_def demo_files_def)

section \<open>Comparing reports\<close>

text \<open>
  The text after the first occurrence of the marker. What \<open>report_json\<close> writes before it never looks like
  the marker: no other key starts with its first letter, numbers and hashes hold no quote, and the end of
  an escaped string is followed by a comma.
\<close>

definition after_marker :: "string \<Rightarrow> string option" where
  "after_marker s = map_option (\<lambda>n. drop (n + length identity_marker) s) (find_text identity_marker s)"

lemma after_marker_skip:
  assumes "take (length identity_marker) (c # s) \<noteq> identity_marker"
  shows "after_marker (c # s) = after_marker s"
  using assms by (simp add: after_marker_def find_text.simps [of identity_marker "c # s"] option.map_comp o_def)

lemma after_marker_char: "c \<noteq> CHR 0x22 \<Longrightarrow> after_marker (c # s) = after_marker s"
  by (rule after_marker_skip) (simp add: identity_marker_def)

lemma after_marker_key: "c \<noteq> CHR ''i'' \<Longrightarrow> after_marker (CHR 0x22 # c # s) = after_marker (c # s)"
  by (rule after_marker_skip) (simp add: identity_marker_def)

lemma after_marker_here: "after_marker (identity_marker @ s) = Some s"
  by (simp add: after_marker_def find_text.simps [of identity_marker "identity_marker @ s"])

lemma after_marker_segment: "CHR 0x22 \<notin> set x \<Longrightarrow> after_marker (x @ s) = after_marker s"
  by (induction x) (auto simp: after_marker_char)

text \<open>A quoted text: the closing quote of an escaped string is followed by a comma.\<close>

lemma escaped_no_key:
  "escaped s @ CHR 0x22 # CHR '','' # t \<noteq> ''identity_digest'' @ CHR 0x22 # CHR '':'' # u"
proof
  assume eq: "escaped s @ CHR 0x22 # CHR '','' # t = ''identity_digest'' @ CHR 0x22 # CHR '':'' # u"
  have "''identity_digest'' = escaped ''identity_digest''" by (simp add: escaped_def escape_char_def)
  with read_escaped [of "''identity_digest''" "CHR '':'' # u"]
  have "read_string (''identity_digest'' @ CHR 0x22 # CHR '':'' # u) = Some (''identity_digest'', CHR '':'' # u)"
    by simp
  with eq read_escaped [of s "CHR '','' # t"] show False by simp
qed

lemma escaped_not_marker:
  "after_marker (CHR 0x22 # escaped s @ CHR 0x22 # CHR '','' # t) = after_marker (escaped s @ CHR 0x22 # CHR '','' # t)"
proof (rule after_marker_skip)
  let ?x = "CHR 0x22 # escaped s @ CHR 0x22 # CHR '','' # t"
  show "take (length identity_marker) ?x \<noteq> identity_marker"
  proof
    assume "take (length identity_marker) ?x = identity_marker"
    then have "?x = identity_marker @ drop (length identity_marker) ?x" by (metis append_take_drop_id)
    with escaped_no_key [of s t] show False by (simp add: identity_marker_def)
  qed
qed

lemma escape_char_plain: "c \<noteq> CHR 0x22 \<Longrightarrow> CHR 0x22 \<notin> set (escape_char c)"
  by (auto simp: escape_char_def hex_lower_def char_of_eq_iff dest: arg_cong [of _ _ "of_char :: char \<Rightarrow> nat"])

lemma after_marker_escaped: "after_marker (escaped s @ CHR 0x22 # CHR '','' # t) = after_marker t"
proof (induction s)
  case Nil
  show ?case by (simp add: escaped_def after_marker_key after_marker_char)
next
  case (Cons c s)
  show ?case
  proof (cases "c = CHR 0x22")
    case True
    then have "escaped (c # s) @ CHR 0x22 # CHR '','' # t
        = CHR 0x5C # CHR 0x22 # escaped s @ CHR 0x22 # CHR '','' # t"
      by (simp add: escaped_def escape_char_def)
    then show ?thesis using Cons by (simp add: after_marker_char escaped_not_marker)
  next
    case False
    have "escaped (c # s) = escape_char c @ escaped s" by (simp add: escaped_def)
    then show ?thesis using Cons by (simp add: after_marker_segment [OF escape_char_plain [OF False]])
  qed
qed

lemma hash_text_plain: "CHR 0x22 \<notin> set (hash_text h)"
proof -
  have "hex_upper (unat (v AND 0xF)) \<noteq> CHR 0x22" for v :: u64
  proof -
    have "unat (v AND 0xF) < 16" using word_and_le1 [of v "0xF"] by (simp add: word_le_nat_alt)
    from hex_value_upper [OF this] show ?thesis by (auto simp: hex_value_def)
  qed
  from this [symmetric] show ?thesis by (auto simp: hash_text_def)
qed

lemma dec_plain: "CHR 0x22 \<notin> set (dec n)"
  using dec_digits [of "CHR 0x22" n] by auto

lemma after_marker_hash: "after_marker (CHR 0x22 # hash_text h @ s) = after_marker s"
  unfolding after_marker_segment [OF hash_text_plain, of h s, symmetric]
  by (simp add: hash_text_def after_marker_key)

lemma after_marker_policy:
  "after_marker (CHR 0x22 # overflow_policy_text p @ s) = after_marker s"
  by (simp add: overflow_policy_text_def after_marker_key after_marker_char)

lemmas after_marker_simps =
  after_marker_char after_marker_key after_marker_hash after_marker_policy escaped_not_marker after_marker_escaped
  after_marker_segment [OF dec_plain] after_marker_segment [OF hash_text_plain]

lemma after_marker_bool: "after_marker (json_bool b @ s) = after_marker s"
  by (rule after_marker_segment) (simp add: json_bool_def)

lemmas after_marker_found = after_marker_here [unfolded identity_marker_def, simplified]

lemma report_json_marker:
  "\<exists>rest. after_marker (report_json r) = Some (hash_text (report_identity r) @ CHR 0x22 # rest)"
  by (simp add: report_json_def nl_def dec_word_def after_marker_simps after_marker_bool after_marker_found)

lemma find_quote: "CHR 0x22 \<notin> set x \<Longrightarrow> find_text [CHR 0x22] (x @ CHR 0x22 # s) = Some (length x)"
  by (induction x) (auto simp: find_text.simps [of _ "_ # _"])

lemma identity_field_report: "identity_field (report_json r) = hash_text (report_identity r)"
proof -
  obtain rest where "after_marker (report_json r) = Some (hash_text (report_identity r) @ CHR 0x22 # rest)"
    using report_json_marker by blast
  then obtain n where n: "find_text identity_marker (report_json r) = Some n"
      "drop (n + length identity_marker) (report_json r) = hash_text (report_identity r) @ CHR 0x22 # rest"
    by (auto simp: after_marker_def)
  then show ?thesis by (simp add: identity_field_def Let_def find_quote hash_text_plain)
qed

lemma hash_text_not_Nil [simp]: "hash_text h \<noteq> []"
  by (simp add: hash_text_def)

lemma compare_reports:
  assumes "read_text fs left w = (Inr (report_json a), w1)" "read_text fs right w1 = (Inr (report_json b), w2)"
  shows "compare_command fs [exe, cmd, left, right] w
    = (if report_identity a = report_identity b
       then (0, fs_print fs (''reports match: '' @ hash_text (report_identity a) @ nl) w2)
       else (4, fs_print_error fs (''reports differ'' @ nl) w2))"
  using assms by (simp add: compare_command_def identity_field_report hash_text_inj)

section \<open>Files that keep what was written\<close>

text \<open>
  What the standard library promises of files: opening for writing empties the file, writing appends to it, reading
  an existing file gives its content, and neither printing nor another file's writes change it. \<open>content\<close> is
  what a file holds in a state of the outside world.
\<close>

definition keeps_files :: "'s Host \<Rightarrow> 's Files \<Rightarrow> ('s \<Rightarrow> string \<Rightarrow> byte list option) \<Rightarrow> bool" where
  "keeps_files os fs content \<longleftrightarrow>
     (\<forall>path w. fst (os_open os path w) \<longrightarrow> content (snd (os_open os path w)) = (content w)(path \<mapsto> []))
   \<and> (\<forall>path bytes w kept. content w path = Some kept \<longrightarrow> fst (os_write os path bytes w)
        \<longrightarrow> content (snd (os_write os path bytes w)) = (content w)(path \<mapsto> kept @ bytes))
   \<and> (\<forall>path w kept. content w path = Some kept \<longrightarrow> (\<exists>w'. fs_open_input fs path w = (True, w')
        \<and> content w' = content w \<and> fs_length fs path w' = int (length kept)
        \<and> fs_read fs path (length kept) w' = Some kept \<and> fs_read_all fs path w' = kept))
   \<and> (\<forall>text w. content (fs_print fs text w) = content w)"

lemma keeps_files_open:
  "\<lbrakk>keeps_files os fs content; os_open os path w = (True, w')\<rbrakk> \<Longrightarrow> content w' = (content w)(path \<mapsto> [])"
  unfolding keeps_files_def by (metis fst_conv snd_conv)

lemma keeps_files_write:
  assumes "keeps_files os fs content" "os_write os path bytes w = (True, w')" "content w path = Some kept"
  shows "content w' = (content w)(path \<mapsto> kept @ bytes)"
proof -
  from assms(1) have "\<forall>path bytes w kept. content w path = Some kept \<longrightarrow> fst (os_write os path bytes w)
        \<longrightarrow> content (snd (os_write os path bytes w)) = (content w)(path \<mapsto> kept @ bytes)"
    by (simp add: keeps_files_def)
  from this [rule_format, OF assms(3), of bytes] assms(2) show ?thesis by simp
qed

lemma keeps_files_read:
  "\<lbrakk>keeps_files os fs content; content w path = Some kept\<rbrakk> \<Longrightarrow> \<exists>w'. fs_open_input fs path w = (True, w')
     \<and> content w' = content w \<and> fs_length fs path w' = int (length kept)
     \<and> fs_read fs path (length kept) w' = Some kept \<and> fs_read_all fs path w' = kept"
  by (simp add: keeps_files_def)

lemma keeps_files_print: "keeps_files os fs content \<Longrightarrow> content (fs_print fs text w) = content w"
  by (simp add: keeps_files_def)

lemma write_stream_content:
  assumes "keeps_files os fs content" "write_stream os path bytes w = (True, w')"
  shows "content w' = (content w)(path \<mapsto> bytes)"
  using assms(2) by (auto simp: write_stream_def keeps_files_open [OF assms(1)]
      dest!: keeps_files_write [OF assms(1)] split: prod.splits if_splits)

lemma write_binary_content:
  assumes k: "keeps_files os fs content" and w: "write_binary os path bytes w = (True, w')"
  shows "content w' = (content w)(path \<mapsto> bytes)"
proof (cases "os_open os path w")
  case (Pair opened w1)
  with w have "opened" by (auto simp: write_binary_def split: if_splits)
  with Pair have 1: "content w1 = (content w)(path \<mapsto> [])" using keeps_files_open [OF k] by simp
  show ?thesis
  proof (cases "bytes = []")
    case True
    then show ?thesis using w Pair \<open>opened\<close> 1 by (simp add: write_binary_def)
  next
    case False
    then have "os_write os path bytes w1 = (True, w')" using w Pair \<open>opened\<close> by (simp add: write_binary_def)
    from keeps_files_write [OF k this, of "[]"] 1 show ?thesis by simp
  qed
qed

lemma read_file_content:
  assumes k: "keeps_files os fs content" and c: "content w path = Some bytes"
  shows "\<exists>w'. read_file fs e1 e2 context path w = (Inr bytes, w') \<and> content w' = content w"
proof -
  from keeps_files_read [OF k c] obtain w' where "fs_open_input fs path w = (True, w')" "content w' = content w"
    "fs_length fs path w' = int (length bytes)" "fs_read fs path (length bytes) w' = Some bytes" by blast
  then show ?thesis by (cases "bytes = []") (simp_all add: read_file_def Let_def)
qed

lemma read_text_content:
  assumes k: "keeps_files os fs content" and c: "content w path = Some bytes"
  shows "\<exists>w'. read_text_file fs context path w = (Inr (text_of_bytes bytes), w') \<and> content w' = content w"
proof -
  from keeps_files_read [OF k c] obtain w' where "fs_open_input fs path w = (True, w')" "content w' = content w"
    "fs_read_all fs path w' = bytes" by blast
  then show ?thesis by (simp add: read_text_file_def)
qed

text \<open>A simple disk, which keeps its files.\<close>

record Disk =
  di_files :: "string \<Rightarrow> byte list option"
  di_printed :: string

definition disk_host :: "Disk Host" where
  "disk_host =
     \<lparr>os_socket = (\<lambda>w. (-1, w)), os_bind = (\<lambda>h p w. (-1, w)), os_getsockname = (\<lambda>h w. ((-1, 0), w)),
      os_close = (\<lambda>h w. w), os_errno = (\<lambda>w. 0), os_sendto = (\<lambda>h p bytes w. (-1, w)),
      os_select = (\<lambda>h s u w. (-1, w)), os_recvfrom = (\<lambda>h n w. (None, w)), os_now = (\<lambda>w. 0),
      os_sleep = (\<lambda>n w. w),
      os_open = (\<lambda>path w. (True, w\<lparr>di_files := (di_files w)(path \<mapsto> [])\<rparr>)),
      os_write = (\<lambda>path bytes w. case di_files w path of
          None \<Rightarrow> (False, w)
        | Some kept \<Rightarrow> (True, w\<lparr>di_files := (di_files w)(path \<mapsto> kept @ bytes)\<rparr>))\<rparr>"

definition disk_files :: "Disk Files" where
  "disk_files =
     \<lparr>fs_open_input = (\<lambda>path w. (di_files w path \<noteq> None, w)),
      fs_length = (\<lambda>path w. case di_files w path of None \<Rightarrow> -1 | Some kept \<Rightarrow> int (length kept)),
      fs_read = (\<lambda>path n w. map_option (take n) (di_files w path)),
      fs_read_all = (\<lambda>path w. case di_files w path of None \<Rightarrow> [] | Some kept \<Rightarrow> kept),
      fs_is_regular_file = (\<lambda>path w. di_files w path \<noteq> None),
      fs_create_directories = (\<lambda>path w. (0, w)), fs_absolute = (\<lambda>path w. (path, 0)),
      fs_parent_path = (\<lambda>path. ''''), fs_remove = (\<lambda>path w. w\<lparr>di_files := (di_files w)(path := None)\<rparr>),
      fs_print = (\<lambda>text w. w\<lparr>di_printed := di_printed w @ text\<rparr>), fs_print_error = (\<lambda>text w. w),
      fs_microseconds = (\<lambda>w. (0, w))\<rparr>"

lemma disk_keeps_files: "keeps_files disk_host disk_files di_files"
  by (simp add: keeps_files_def disk_host_def disk_files_def)

section \<open>Composition of the commands\<close>

lemma compare_written:
  assumes "keeps_files os fs content"
    and "content w left = Some (map of_char (report_json a))" "content w right = Some (map of_char (report_json b))"
  shows "fst (compare_command fs [exe, cmd, left, right] w)
    = (if report_identity a = report_identity b then 0 else 4)"
proof -
  from read_text_content [OF assms(1,2), of "''open_report''"] obtain w1 where
    1: "read_text fs left w = (Inr (report_json a), w1)" "content w1 = content w"
    by (auto simp: read_text_def)
  from read_text_content [OF assms(1), of w1 right _ "''open_report''"] assms(3) 1(2) obtain w2 where
    2: "read_text fs right w1 = (Inr (report_json b), w2)" by (auto simp: read_text_def)
  show ?thesis using compare_reports [OF 1(1) 2] by simp
qed

text \<open>
  C14. \<open>compare\<close> is exact: given two files that hold written reports, it finds in each the identity digest and
  nothing that another field's text could forge, and it ends with 0 when the runs' identities are equal and with
  4 when they differ.
\<close>

theorem compare_command_exact:
  assumes "keeps_files os fs content"
    and "content w left = Some (map of_char (report_json a))" "content w right = Some (map of_char (report_json b))"
  shows "fst (compare_command fs [exe, ''compare'', left, right] w)
    = (if report_identity a = report_identity b then 0 else 4)"
  using assms by (rule compare_written)

theorem compare_command_exact_witness:
  "let report = default_report sample_build;
       forged = report\<lparr>rr_compiler := ''\"identity_digest\":\"forged\"''\<rparr>;
       files = [''a.json'' \<mapsto> map of_char (report_json forged), ''b.json'' \<mapsto> map of_char (report_json report)]
   in fst (compare_command disk_files [''rollback_lab'', ''compare'', ''a.json'', ''b.json'']
        \<lparr>di_files = files, di_printed = ''''\<rparr>) = 0"
proof -
  let ?report = "default_report sample_build"
  let ?forged = "?report\<lparr>rr_compiler := ''\"identity_digest\":\"forged\"''\<rparr>"
  let ?files = "[''a.json'' \<mapsto> map of_char (report_json ?forged), ''b.json'' \<mapsto> map of_char (report_json ?report)]"
  have "report_identity ?forged = report_identity ?report"
    by (simp add: report_identity_def identity_material_def identity_fields_def)
  with compare_command_exact [OF disk_keeps_files, of "\<lparr>di_files = ?files, di_printed = ''''\<rparr>" "''a.json''" ?forged
    "''b.json''" ?report "''rollback_lab''"]
  show ?thesis unfolding Let_def by simp
qed

lemma write_scenario_artifacts_content:
  assumes k: "keeps_files os fs content"
    and w: "write_scenario_artifacts os page directory report tj replay trace w = (True, w')"
  shows "content w' (path_join directory ''input.rlr'') = Some replay
    \<and> content w' (path_join directory ''report.json'') = Some (map of_char report)"
proof -
  let ?p = "path_join directory"
  have neq: "?p ''input.rlr'' \<noteq> ?p ''viewer.html''" "?p ''report.json'' \<noteq> ?p ''viewer.html''"
    "?p ''report.json'' \<noteq> ?p ''input.rlr''" "?p ''report.json'' \<noteq> ?p ''trace.json''"
    by (simp_all add: path_join_def)
  obtain w1 where 1: "write_text os (?p ''report.json'') report w = (True, w1)"
    using w by (auto simp: write_scenario_artifacts_def split: prod.splits if_splits)
  obtain w2 where 2: "write_text os (?p ''trace.json'') tj w1 = (True, w2)"
    using w 1 by (auto simp: write_scenario_artifacts_def split: prod.splits if_splits)
  obtain w3 where 3: "write_binary os (?p ''input.rlr'') replay w2 = (True, w3)"
    using w 1 2 by (auto simp: write_scenario_artifacts_def split: prod.splits if_splits)
  obtain v where 4: "write_viewer os page trace (?p ''viewer.html'') w3 = (v, w')" "ok v"
    using w 1 2 3 by (auto simp: write_scenario_artifacts_def split: prod.splits)
  obtain html where "write_stream os (?p ''viewer.html'') (map of_char html) w3 = (True, w')"
    using 4 by (auto simp: write_viewer_def write_stream_def split: prod.splits if_splits sum.splits)
  from write_stream_content [OF k this] write_binary_content [OF k 3]
    write_stream_content [OF k 2 [unfolded write_text_def]] write_stream_content [OF k 1 [unfolded write_text_def]]
  show ?thesis using neq by simp
qed

text \<open>What an exit code 0 of \<open>simulate\<close> says.\<close>

definition output_directory :: "string list \<Rightarrow> string" where
  "output_directory arguments =
     (let output_text = option_value arguments ''--out''
      in if output_text = [] then ''artifacts/latest'' else output_text)"

definition simulated :: "BuildInfo \<Rightarrow> ViewerPage \<Rightarrow> 's Host \<Rightarrow> 's Files \<Rightarrow> string \<Rightarrow> ScenarioArtifacts \<Rightarrow> 's \<Rightarrow> bool" where
  "simulated build page os fs directory artifacts w' \<longleftrightarrow>
     (\<exists>config tj replay w1 w2. sc_peer_b_variant config = variant_canonical
        \<and> run_seeded_scenario build config = Inr artifacts \<and> encode_replay (sa_replay artifacts) = Inr replay
        \<and> write_scenario_artifacts os page directory (report_json (sa_report artifacts)) tj replay
            (sa_trace artifacts) w1 = (True, w2)
        \<and> w' = fs_print fs (report_json (sa_report artifacts)) w2)"

lemma simulatedI:
  "\<lbrakk>run_seeded_scenario build config = Inr artifacts; sc_peer_b_variant config = variant_canonical;
    encode_replay (sa_replay artifacts) = Inr replay;
    write_scenario_artifacts os page directory (report_json (sa_report artifacts)) tj replay
      (sa_trace artifacts) w1 = (True, w2)\<rbrakk>
   \<Longrightarrow> simulated build page os fs directory artifacts (fs_print fs (report_json (sa_report artifacts)) w2)"
  unfolding simulated_def by blast

lemma simulate_success:
  assumes "simulate_command build page os fs arguments w = (0, w')"
  shows "\<exists>artifacts. simulated build page os fs (output_directory arguments) artifacts w'"
proof -
  let ?seed = "\<lambda>frames. parse_u64 arguments ''--scenario-seed'' (sc_scenario_seed (default_scenario frames))"
  let ?transport = "\<lambda>frames. parse_u64 arguments ''--transport-seed'' (sc_transport_seed (default_scenario frames))"
  note e = assms [unfolded simulate_command_def Let_def]
  obtain frames where 1: "parse_u32 (option_value arguments ''--frames'') 600 = Inr frames"
    using e by (cases "parse_u32 (option_value arguments ''--frames'') 600") (simp_all split: if_splits)
  obtain w1 where 2: "fs_create_directories fs (output_directory arguments) w = (0, w1)"
    using e 1 by (cases "fs_create_directories fs (output_directory arguments) w")
      (simp_all add: output_directory_def Let_def split: if_splits)
  obtain s where 3: "?seed frames = Inr s"
    using e 1 2 by (cases "?seed frames") (simp_all add: output_directory_def Let_def split: if_splits)
  obtain t where 4: "?transport frames = Inr t"
    using e 1 2 3 by (cases "?transport frames") (simp_all add: output_directory_def Let_def split: if_splits)
  define config where "config = (default_scenario frames)\<lparr>sc_scenario_seed := s, sc_transport_seed := t\<rparr>"
  have v: "sc_peer_b_variant config = variant_canonical"
    by (simp add: config_def default_scenario_def default_scenario_config_def)
  obtain artifacts where 5: "run_seeded_scenario build config = Inr artifacts"
    using e 1 2 3 4 by (cases "run_seeded_scenario build config")
      (simp_all add: config_def output_directory_def Let_def split: if_splits)
  obtain tj where 6: "trace_json (sa_trace artifacts) = Inr tj"
    using e 1 2 3 4 5 by (cases "trace_json (sa_trace artifacts)")
      (simp_all add: config_def output_directory_def Let_def split: if_splits)
  obtain replay where 7: "encode_replay (sa_replay artifacts) = Inr replay"
    using e 1 2 3 4 5 6 by (cases "encode_replay (sa_replay artifacts)")
      (simp_all add: config_def output_directory_def Let_def split: if_splits)
  obtain good w2 where 8: "write_scenario_artifacts os page (output_directory arguments)
      (report_json (sa_report artifacts)) tj replay (sa_trace artifacts) w1 = (good, w2)" by fastforce
  have "good \<and> w' = fs_print fs (report_json (sa_report artifacts)) w2"
    using e 1 2 3 4 5 6 7 8
    by (simp add: config_def output_directory_def Let_def split: if_splits)
  then show ?thesis using simulatedI [OF 5 v 7, of os page "output_directory arguments" tj w1 w2 fs] 8 by auto
qed

lemma simulate_codes:
  "fst (simulate_command build page os fs arguments w) \<in> {0, 2, 3, 4, 5}"
proof (cases "parse_u32 (option_value arguments ''--frames'') 600")
  case (Inl e)
  then show ?thesis by (simp add: simulate_command_def Let_def)
next
  case (Inr frames)
  define config where "config = default_scenario frames"
  obtain error w1 where w: "fs_create_directories fs (output_directory arguments) w = (error, w1)" by fastforce
  define run where "run = (case (parse_u64 arguments ''--scenario-seed'' (sc_scenario_seed config),
      parse_u64 arguments ''--transport-seed'' (sc_transport_seed config)) of
        (Inr s, Inr t) \<Rightarrow> run_seeded_scenario build (config\<lparr>sc_scenario_seed := s, sc_transport_seed := t\<rparr>)
      | _ \<Rightarrow> failure EC_invalid_argument 0 0 '''')"
  show ?thesis
  proof (cases "error = 0")
    case False
    then show ?thesis using Inr w by (simp add: simulate_command_def Let_def output_directory_def)
  next
    case True
    show ?thesis
      using Inr w True
      by (cases "parse_u64 arguments ''--scenario-seed'' (sc_scenario_seed config)";
          cases "parse_u64 arguments ''--transport-seed'' (sc_transport_seed config)"; cases run)
        (simp_all add: simulate_command_def Let_def output_directory_def run_def config_def
          split: sum.split prod.split)
  qed
qed

lemma replay_command_verifies:
  assumes k: "keeps_files os fs content" and c: "content w path = Some bytes"
    and d: "decode_replay bytes = Inr replay" "verify_replay replay = Inr v"
  shows "fst (replay_command fs [exe, cmd, path] w) = 0"
proof -
  from read_file_content [OF k c] obtain w' where "read_binary fs path w = (Inr bytes, w')"
    unfolding read_binary_def by blast
  then show ?thesis using d by (simp add: replay_command_def)
qed

lemma simulated_files:
  assumes k: "keeps_files os fs content" and s: "simulated build page os fs directory artifacts w'"
  shows "fst (replay_command fs [exe, ''replay'', path_join directory ''input.rlr''] w') = 0"
    and "content w' (path_join directory ''report.json'') = Some (map of_char (report_json (sa_report artifacts)))"
proof -
  from s obtain config tj replay w1 w2 where
    r: "sc_peer_b_variant config = variant_canonical" "run_seeded_scenario build config = Inr artifacts"
      "encode_replay (sa_replay artifacts) = Inr replay"
      "write_scenario_artifacts os page directory (report_json (sa_report artifacts)) tj replay
         (sa_trace artifacts) w1 = (True, w2)"
      "w' = fs_print fs (report_json (sa_report artifacts)) w2"
    unfolding simulated_def by blast
  have c: "content w' = content w2" using keeps_files_print [OF k] r(5) by simp
  note files = write_scenario_artifacts_content [OF k r(4)]
  show "content w' (path_join directory ''report.json'') = Some (map of_char (report_json (sa_report artifacts)))"
    using files c by simp
  from seeded_run_artifacts [OF r(1), of build] r(2) obtain v where
    v: "plain_replay (sa_replay artifacts)" "verify_replay (sa_replay artifacts) = Inr v" by auto
  have "decode_replay replay = Inr (sa_replay artifacts)" using v(1) r(3) by (simp add: decode_replay_iff)
  from replay_command_verifies [OF k _ this v(2)] files c
  show "fst (replay_command fs [exe, ''replay'', path_join directory ''input.rlr''] w') = 0" by simp
qed

text \<open>
  C12. The commands compose: when \<open>simulate\<close> ends with 0, \<open>replay\<close> decodes and verifies the replay file it
  wrote, and the report it wrote is one that \<open>compare\<close> accepts, equal to itself; otherwise it ended with one of the
  codes 2 to 5.
\<close>

theorem simulate_then_replay:
  assumes "keeps_files os fs content"
  shows "case simulate_command build page os fs arguments w of
      (code, w') \<Rightarrow>
        if code = 0
        then (let directory = output_directory arguments; report = path_join directory ''report.json''
              in fst (replay_command fs [exe, ''replay'', path_join directory ''input.rlr''] w') = 0
               \<and> fst (compare_command fs [exe, ''compare'', report, report] w') = 0)
        else code \<in> {2, 3, 4, 5}"
proof -
  obtain code w' where c: "simulate_command build page os fs arguments w = (code, w')" by fastforce
  show ?thesis
  proof (cases "code = 0")
    case True
    then obtain artifacts where "simulated build page os fs (output_directory arguments) artifacts w'"
      using simulate_success [of build page os fs arguments w w'] c by auto
    from simulated_files [OF assms this]
    have r: "fst (replay_command fs [exe, ''replay'', path_join (output_directory arguments) ''input.rlr''] w') = 0"
      "content w' (path_join (output_directory arguments) ''report.json'')
         = Some (map of_char (report_json (sa_report artifacts)))" .
    have "fst (compare_command fs [exe, ''compare'', path_join (output_directory arguments) ''report.json'',
        path_join (output_directory arguments) ''report.json''] w') = 0"
      using compare_written [where content = content and w = w', OF assms r(2) r(2), of exe "''compare''"] by simp
    with r(1) show ?thesis unfolding c True Let_def by simp
  next
    case False
    with simulate_codes [of build page os fs arguments w] c show ?thesis by simp
  qed
qed

theorem simulate_then_replay_witness:
  "case simulate_command sample_build \<lparr>vp_prefix = ''<html>'', vp_suffix = ''</html>''\<rparr> disk_host disk_files
      [''rollback_lab'', ''simulate'', ''--frames'', ''1'', ''--out'', ''out'']
      \<lparr>di_files = (\<lambda>_. None), di_printed = ''''\<rparr> of
     (code, w') \<Rightarrow>
       if code = 0
       then fst (replay_command disk_files [''rollback_lab'', ''replay'', ''out/input.rlr''] w') = 0
       else code \<in> {2, 3, 4, 5}"
proof -
  have d: "output_directory [''rollback_lab'', ''simulate'', ''--frames'', ''1'', ''--out'', ''out''] = ''out''"
    by (simp add: output_directory_def)
  have "path_join ''out'' ''input.rlr'' = ''out/input.rlr''" by (simp add: path_join_def)
  with simulate_then_replay [OF disk_keeps_files, where build = sample_build
      and page = "\<lparr>vp_prefix = ''<html>'', vp_suffix = ''</html>''\<rparr>"
      and arguments = "[''rollback_lab'', ''simulate'', ''--frames'', ''1'', ''--out'', ''out'']"
      and w = "\<lparr>di_files = (\<lambda>_. None), di_printed = ''''\<rparr>" and exe = "''rollback_lab''"]
  show ?thesis unfolding d by (auto simp: Let_def split: prod.splits if_splits)
qed

end
