(* ===== verification/WindowsProcess.thy ===== *)
theory WindowsProcess
  imports Process
begin

text \<open>
  Child processes: the Windows build of \<open>src/transport/process.cpp\<close>. Windows is the parameter \<open>Windows\<close>; wide text is a
  list of 16-bit units. Windows hands a child one text, which the child's run-time library cuts into arguments
  again; \<open>split_line\<close> is that library's documented rule, and the arguments are proved to come back.
\<close>

section \<open>Quoting\<close>

type_synonym Wide = "u16 list"

definition BACKSLASH :: u16 where "BACKSLASH = 92"
definition QUOTE :: u16 where "QUOTE = 34"
definition SPACE :: u16 where "SPACE = 32"
definition TAB :: u16 where "TAB = 9"

lemmas wide_chars = BACKSLASH_def QUOTE_def SPACE_def TAB_def

text \<open>The loop over the characters, with the backslashes that wait to be written, and what is appended after it.\<close>

fun quote_loop :: "nat \<Rightarrow> Wide \<Rightarrow> Wide" where
  "quote_loop n [] = replicate (n * 2) BACKSLASH"
| "quote_loop n (c # cs) =
     (if c = BACKSLASH then quote_loop (n + 1) cs
      else if c = QUOTE then replicate (n * 2 + 1) BACKSLASH @ QUOTE # quote_loop 0 cs
      else replicate n BACKSLASH @ c # quote_loop 0 cs)"

definition quote_argument :: "Wide \<Rightarrow> Wide" where
  "quote_argument argument =
     (if \<not> list_ex (\<lambda>c. c = SPACE \<or> c = TAB \<or> c = QUOTE) argument then argument
      else QUOTE # quote_loop 0 argument @ [QUOTE])"

section \<open>The calls\<close>

record 's Windows =
  win_utf8 :: "string \<Rightarrow> Wide option"
  win_parent_path :: "Wide \<Rightarrow> Wide"
  win_create_process :: "Wide \<Rightarrow> Wide \<Rightarrow> Wide option \<Rightarrow> 's \<Rightarrow> (nat \<times> nat \<times> u32) option \<times> 's"
  win_close_handle :: "nat \<Rightarrow> 's \<Rightarrow> 's"
  win_wait :: "nat \<Rightarrow> u32 \<Rightarrow> 's \<Rightarrow> u32 \<times> 's"
  win_exit_code :: "nat \<Rightarrow> 's \<Rightarrow> u32 option \<times> 's"
  win_terminate :: "nat \<Rightarrow> u32 \<Rightarrow> 's \<Rightarrow> bool \<times> 's"
  win_last_error :: "'s \<Rightarrow> u32"

definition utf8_to_wide :: "'s Windows \<Rightarrow> string \<Rightarrow> Wide" where
  "utf8_to_wide win s = (if s = '''' then [] else (case win_utf8 win s of None \<Rightarrow> [] | Some wide \<Rightarrow> wide))"

text \<open>The command line; \<open>None\<close> for an argument that is not UTF-8.\<close>

fun append_arguments :: "'s Windows \<Rightarrow> Wide \<Rightarrow> string list \<Rightarrow> Wide option" where
  "append_arguments win command [] = Some command"
| "append_arguments win command (argument # arguments) =
     (if argument \<noteq> '''' \<and> utf8_to_wide win argument = [] then None
      else append_arguments win (command @ SPACE # quote_argument (utf8_to_wide win argument)) arguments)"

definition command_line :: "'s Windows \<Rightarrow> Wide \<Rightarrow> string list \<Rightarrow> Wide option" where
  "command_line win executable arguments =
     map_option (\<lambda>command. command @ [0]) (append_arguments win (quote_argument executable) arguments)"

record WindowsImpl =
  wi_process :: "nat option"
  wi_pid :: u32
  wi_running :: bool
  wi_exit_code :: "int option"

type_synonym WindowsChild = "WindowsImpl option"

definition win_spawn :: "'s Windows \<Rightarrow> Wide \<Rightarrow> string list \<Rightarrow> 's \<Rightarrow> WindowsChild Result \<times> 's" where
  "win_spawn win executable arguments w =
     (case command_line win executable arguments of
        None \<Rightarrow> (failure EC_invalid_argument 0 0 ''process_argument'', w)
      | Some command \<Rightarrow>
          (let directory = win_parent_path win executable in
           case win_create_process win executable command (if directory = [] then None else Some directory) w of
             (None, w) \<Rightarrow> (failure EC_child_failure (ucast (win_last_error win w)) 0 ''CreateProcessW'', w)
           | (Some (process, thread, pid), w) \<Rightarrow>
               (Inr (Some \<lparr>wi_process = Some process, wi_pid = pid, wi_running = True, wi_exit_code = None\<rparr>),
                win_close_handle win thread w)))"

definition win_process_id :: "WindowsChild \<Rightarrow> u32" where
  "win_process_id child = (case child of None \<Rightarrow> 0 | Some impl \<Rightarrow> wi_pid impl)"

definition WAIT_TIMEOUT :: u32 where "WAIT_TIMEOUT = 258"
definition WAIT_OBJECT_0 :: u32 where "WAIT_OBJECT_0 = 0"

definition win_wait_for :: "'s Windows \<Rightarrow> int \<Rightarrow> WindowsChild \<Rightarrow> 's \<Rightarrow> int option Result \<times> WindowsChild \<times> 's" where
  "win_wait_for win timeout child w =
     (case child of
        None \<Rightarrow> (failure EC_invalid_argument 0 0 ''process_wait'', child, w)
      | Some impl \<Rightarrow>
          if timeout < 0 then (failure EC_invalid_argument 0 0 ''process_wait'', child, w)
          else if \<not> wi_running impl then (Inr (wi_exit_code impl), child, w)
          else
            (let (waited, w) = win_wait win (the (wi_process impl)) (of_int (min timeout 4294967294)) w in
             if waited = WAIT_TIMEOUT then (Inr None, child, w)
             else if waited \<noteq> WAIT_OBJECT_0
             then (failure EC_child_failure (ucast (win_last_error win w)) 0 ''WaitForSingleObject'', child, w)
             else
               (case win_exit_code win (the (wi_process impl)) w of
                  (None, w) \<Rightarrow>
                    (failure EC_child_failure (ucast (win_last_error win w)) 0 ''GetExitCodeProcess'', child, w)
                | (Some code, w) \<Rightarrow>
                    (Inr (Some (sint code)),
                     Some (impl\<lparr>wi_running := False, wi_exit_code := Some (sint code)\<rparr>), w))))"

definition win_terminate_child :: "'s Windows \<Rightarrow> WindowsChild \<Rightarrow> 's \<Rightarrow> unit Result \<times> 's" where
  "win_terminate_child win child w =
     (case child of
        None \<Rightarrow> (Inr (), w)
      | Some impl \<Rightarrow>
          if \<not> wi_running impl then (Inr (), w)
          else
            (let (ok, w) = win_terminate win (the (wi_process impl)) 125 w in
             if \<not> ok then (failure EC_child_failure (ucast (win_last_error win w)) 0 ''TerminateProcess'', w)
             else (Inr (), w)))"

text \<open>The second attempt of \<open>cleanup\<close>; its results are not looked at.\<close>

definition win_force_end :: "'s Windows \<Rightarrow> nat \<Rightarrow> 's \<Rightarrow> 's" where
  "win_force_end win process w =
     (let (_, w) = win_terminate win process 125 w;
          (_, w) = win_wait win process 1000 w;
          (_, w) = win_exit_code win process w
      in w)"

definition win_cleanup :: "'s Windows \<Rightarrow> WindowsChild \<Rightarrow> 's \<Rightarrow> WindowsChild \<times> 's" where
  "win_cleanup win child w =
     (case child of
        None \<Rightarrow> (None, w)
      | Some impl \<Rightarrow>
          (let w =
             (if \<not> wi_running impl then w
              else
                (let (_, w) = win_terminate_child win child w in
                 case win_wait_for win 500 child w of
                   (Inr (Some _), _, w) \<Rightarrow> w
                 | (_, _, w) \<Rightarrow> win_force_end win (the (wi_process impl)) w))
           in (None, case wi_process impl of None \<Rightarrow> w | Some process \<Rightarrow> win_close_handle win process w)))"

section \<open>The rule of the run-time library\<close>

text \<open>
  The documented rule: arguments are separated by spaces and tabs; a quote opens and closes a part in which they do not
  separate; backslashes before a quote stand for half as many, and an odd one makes the quote a character; within a
  quoted part two quotes stand for one; other backslashes are themselves. The state is whether an argument has begun,
  whether it is in a quoted part, how many backslashes wait, and what the argument has so far.
\<close>

fun cut :: "bool \<Rightarrow> bool \<Rightarrow> nat \<Rightarrow> Wide \<Rightarrow> Wide \<Rightarrow> Wide list" where
  "cut begun quoted n arg [] = (if begun then [arg @ replicate n BACKSLASH] else [])"
| "cut begun quoted n arg (c # cs) =
     (if c = BACKSLASH then cut True quoted (n + 1) arg cs
      else if c = QUOTE then
        (if odd n then cut True quoted 0 (arg @ replicate (n div 2) BACKSLASH @ [QUOTE]) cs
         else
           (case cs of
              d # ds \<Rightarrow>
                if quoted \<and> d = QUOTE then cut True True 0 (arg @ replicate (n div 2) BACKSLASH @ [QUOTE]) ds
                else cut True (\<not> quoted) 0 (arg @ replicate (n div 2) BACKSLASH) cs
            | [] \<Rightarrow> cut True (\<not> quoted) 0 (arg @ replicate (n div 2) BACKSLASH) cs))
      else if (c = SPACE \<or> c = TAB) \<and> \<not> quoted
      then (if begun then (arg @ replicate n BACKSLASH) # cut False False 0 [] cs else cut False False 0 [] cs)
      else cut True quoted 0 (arg @ replicate n BACKSLASH @ [c]) cs)"

text \<open>The program's own name is read first, and by a simpler rule: a quote only opens or closes.\<close>

fun skip_name :: "bool \<Rightarrow> Wide \<Rightarrow> Wide" where
  "skip_name quoted [] = []"
| "skip_name quoted (c # cs) =
     (if c = QUOTE then skip_name (\<not> quoted) cs
      else if (c = SPACE \<or> c = TAB) \<and> \<not> quoted then cs
      else skip_name quoted cs)"

definition split_line :: "Wide \<Rightarrow> Wide list" where
  "split_line line = cut False False 0 [] (skip_name False (takeWhile (\<lambda>c. c \<noteq> 0) line))"

section \<open>The arguments come back\<close>

lemma wide_distinct [simp]:
  "SPACE \<noteq> BACKSLASH" "SPACE \<noteq> QUOTE" "BACKSLASH \<noteq> QUOTE" "QUOTE \<noteq> BACKSLASH" "TAB \<noteq> QUOTE" "TAB \<noteq> BACKSLASH"
  "BACKSLASH \<noteq> 0" "QUOTE \<noteq> 0" "SPACE \<noteq> 0"
  by (simp_all add: wide_chars)

lemma cut_backslashes: "cut True quoted n arg (replicate k BACKSLASH @ s) = cut True quoted (n + k) arg s"
  by (induction k arbitrary: n) simp_all

definition separated_from :: "Wide \<Rightarrow> bool" where
  "separated_from rest \<longleftrightarrow> rest = [] \<or> (\<exists>r. rest = SPACE # r)"

lemma cut_closing:
  assumes "separated_from rest"
  shows "cut True True (m * 2) arg (QUOTE # rest) = cut True False 0 (arg @ replicate m BACKSLASH) rest"
  using assms by (auto simp: separated_from_def)

text \<open>Inside quotes the loop's output reads as the argument, with the backslashes that waited.\<close>

lemma cut_quoted:
  assumes "separated_from rest"
  shows "cut True True 0 arg (quote_loop m a @ QUOTE # rest) = cut True False 0 (arg @ replicate m BACKSLASH @ a) rest"
proof (induction a arbitrary: m arg)
  case Nil
  show ?case using cut_backslashes [of True 0 arg "m * 2" "QUOTE # rest"] cut_closing [OF assms] by simp
next
  case (Cons c cs)
  consider (backslash) "c = BACKSLASH" | (quote) "c = QUOTE" | (other) "c \<noteq> BACKSLASH" "c \<noteq> QUOTE" by blast
  then show ?case
  proof cases
    case backslash
    with Cons [of arg "m + 1"] show ?thesis by (simp add: replicate_app_Cons_same)
  next
    case quote
    have "cut True True 0 arg (quote_loop m (c # cs) @ QUOTE # rest)
        = cut True True (m * 2 + 1) arg (QUOTE # quote_loop 0 cs @ QUOTE # rest)"
      using cut_backslashes [of True 0 arg "m * 2 + 1"] quote by (simp del: cut.simps replicate_Suc)
    also have "\<dots> = cut True True 0 (arg @ replicate m BACKSLASH @ [QUOTE]) (quote_loop 0 cs @ QUOTE # rest)" by simp
    finally show ?thesis using Cons [of _ 0] quote by simp
  next
    case other
    have "cut True True 0 arg (quote_loop m (c # cs) @ QUOTE # rest)
        = cut True True m arg (c # quote_loop 0 cs @ QUOTE # rest)"
      using cut_backslashes [of True 0 arg m] other by (simp del: cut.simps)
    also have "\<dots> = cut True True 0 (arg @ replicate m BACKSLASH @ [c]) (quote_loop 0 cs @ QUOTE # rest)" using other by simp
    finally show ?thesis using Cons [of _ 0] by simp
  qed
qed

definition plain_char :: "u16 \<Rightarrow> bool" where
  "plain_char c \<longleftrightarrow> c \<noteq> SPACE \<and> c \<noteq> TAB \<and> c \<noteq> QUOTE"

lemma cut_end:
  assumes "separated_from rest"
  shows "cut True False n arg rest = (arg @ replicate n BACKSLASH) # cut False False 0 [] rest"
  using assms by (auto simp: separated_from_def)

lemma cut_plain:
  assumes "separated_from rest"
  shows "\<lbrakk>list_all plain_char a; begun \<or> a \<noteq> []; begun \<or> n = 0\<rbrakk>
    \<Longrightarrow> cut begun False n arg (a @ rest) = (arg @ replicate n BACKSLASH @ a) # cut False False 0 [] rest"
proof (induction a arbitrary: begun n arg)
  case Nil
  with cut_end [OF assms] show ?case by auto
next
  case (Cons c cs)
  show ?case
  proof (cases "c = BACKSLASH")
    case True
    with Cons.IH [of True "n + 1" arg] Cons.prems show ?thesis by (simp add: replicate_app_Cons_same)
  next
    case False
    with Cons.IH [of True 0 "arg @ replicate n BACKSLASH @ [c]"] Cons.prems show ?thesis by (simp add: plain_char_def)
  qed
qed

lemma cut_argument:
  assumes "separated_from rest" "a \<noteq> []"
  shows "cut False False 0 [] (quote_argument a @ rest) = a # cut False False 0 [] rest"
proof (cases "list_all plain_char a")
  case True
  then have "quote_argument a = a" by (auto simp: quote_argument_def plain_char_def list_ex_iff list_all_iff)
  with cut_plain [OF assms(1) True, of False 0 "[]"] assms(2) show ?thesis by simp
next
  case False
  then have q: "quote_argument a = QUOTE # quote_loop 0 a @ [QUOTE]"
    by (auto simp: quote_argument_def plain_char_def list_ex_iff list_all_iff)
  have "quote_loop 0 a @ QUOTE # rest \<noteq> [] \<and> (cut False False 0 [] (QUOTE # quote_loop 0 a @ QUOTE # rest)
      = cut True True 0 [] (quote_loop 0 a @ QUOTE # rest))" by (cases "quote_loop 0 a @ QUOTE # rest") auto
  with cut_quoted [OF assms(1), of "[]" 0 a] cut_end [OF assms(1), of 0 a] q show ?thesis by simp
qed

definition argument_text :: "Wide list \<Rightarrow> Wide" where
  "argument_text args = concat (map (\<lambda>a. SPACE # quote_argument a) args)"

lemma separated_text: "separated_from (argument_text args)"
  by (cases args) (auto simp: separated_from_def argument_text_def)

lemma cut_text: "cut False False 0 [] (argument_text args) = filter (\<lambda>a. a \<noteq> []) args"
proof (induction args)
  case Nil
  then show ?case by (simp add: argument_text_def)
next
  case (Cons a args)
  have "argument_text (a # args) = SPACE # quote_argument a @ argument_text args" by (simp add: argument_text_def)
  moreover have "quote_argument [] = []" by (simp add: quote_argument_def)
  ultimately show ?case using cut_argument [OF separated_text, of a args] Cons by (cases "a = []") simp_all
qed

section \<open>The program's name\<close>

lemma skip_plain:
  "list_all plain_char a \<Longrightarrow> skip_name False (a @ rest) = skip_name False rest"
  by (induction a) (simp_all add: plain_char_def)

lemma skip_quoted: "QUOTE \<notin> set a \<Longrightarrow> skip_name True (a @ QUOTE # rest) = skip_name False rest"
  by (induction a) auto

lemma set_quote_loop: "set (quote_loop n a) \<subseteq> set a \<union> {BACKSLASH}"
  by (induction n a rule: quote_loop.induct) (auto split: if_splits)

lemma set_quote_argument: "set (quote_argument a) \<subseteq> set a \<union> {BACKSLASH, QUOTE}"
  using set_quote_loop [of 0 a] by (auto simp: quote_argument_def)

lemma skip_executable:
  assumes "QUOTE \<notin> set exe"
  shows "skip_name False (quote_argument exe @ rest) = skip_name False rest"
proof (cases "list_all plain_char exe")
  case True
  then have "quote_argument exe = exe" by (auto simp: quote_argument_def plain_char_def list_ex_iff list_all_iff)
  with skip_plain [OF True] show ?thesis by simp
next
  case False
  then have q: "quote_argument exe = QUOTE # quote_loop 0 exe @ [QUOTE]"
    by (auto simp: quote_argument_def plain_char_def list_ex_iff list_all_iff)
  have "QUOTE \<notin> set (quote_loop 0 exe)" using assms set_quote_loop [of 0 exe] by auto
  from skip_quoted [OF this] q show ?thesis by simp
qed

lemma cut_skipped: "cut False False 0 [] (skip_name False (argument_text args)) = cut False False 0 [] (argument_text args)"
  by (cases args) (simp_all add: argument_text_def)

section \<open>The command line\<close>

lemma append_arguments_text:
  "append_arguments win command arguments = Some line \<Longrightarrow>
     line = command @ argument_text (map (utf8_to_wide win) arguments)"
proof (induction arguments arbitrary: command)
  case Nil
  then show ?case by (simp add: argument_text_def)
next
  case (Cons a arguments)
  then have "append_arguments win (command @ SPACE # quote_argument (utf8_to_wide win a)) arguments = Some line"
    by (simp split: if_splits)
  from Cons.IH [OF this] show ?case by (simp add: argument_text_def)
qed

lemma no_nul_text: "\<forall>a \<in> set args. 0 \<notin> set a \<Longrightarrow> 0 \<notin> set (argument_text args)"
proof (induction args)
  case Nil
  then show ?case by (simp add: argument_text_def)
next
  case (Cons a args)
  with set_quote_argument [of a] have "0 \<notin> set (quote_argument a)" by auto
  with Cons show ?case by (simp add: argument_text_def)
qed

text \<open>
  C37. The Windows build passes its arguments as one quoted text; a child that cuts the text by the documented rule
  of the run-time library gets back exactly the arguments that are not empty, in their order, whatever spaces, quotes and
  backslashes they hold. An empty argument is written without quotes and is lost.
\<close>

theorem windows_arguments_read_back:
  assumes "command_line win executable arguments = Some line"
    and "QUOTE \<notin> set executable" and "0 \<notin> set executable"
    and "\<forall>argument \<in> set arguments. 0 \<notin> set (utf8_to_wide win argument)"
  shows "split_line line = filter (\<lambda>a. a \<noteq> []) (map (utf8_to_wide win) arguments)"
proof -
  let ?args = "map (utf8_to_wide win) arguments"
  have l: "line = quote_argument executable @ argument_text ?args @ [0]"
    using assms(1) append_arguments_text by (fastforce simp: command_line_def)
  have n: "0 \<notin> set (quote_argument executable)" "0 \<notin> set (argument_text ?args)"
    using set_quote_argument [of executable] assms(3) no_nul_text [of ?args] assms(4) by auto
  have "takeWhile (\<lambda>c. c \<noteq> 0) line = quote_argument executable @ argument_text ?args"
  proof -
    have "\<forall>c \<in> set (quote_argument executable @ argument_text ?args). c \<noteq> 0" using n by auto
    then have "takeWhile (\<lambda>c. c \<noteq> 0) ((quote_argument executable @ argument_text ?args) @ [0])
        = quote_argument executable @ argument_text ?args" by (subst takeWhile_append2) auto
    then show ?thesis unfolding l by simp
  qed
  then show ?thesis
    by (simp add: split_line_def skip_executable [OF assms(2)] cut_skipped cut_text)
qed

definition ascii_windows :: "'s Windows" where
  "ascii_windows =
     \<lparr>win_utf8 = (\<lambda>s. Some (map of_char s)), win_parent_path = (\<lambda>_. []),
      win_create_process = (\<lambda>_ _ _ w. (Some (1, 2, 3), w)), win_close_handle = (\<lambda>_ w. w), win_wait = (\<lambda>_ _ w. (0, w)),
      win_exit_code = (\<lambda>_ w. (Some 0, w)), win_terminate = (\<lambda>_ _ w. (True, w)), win_last_error = (\<lambda>_. 0)\<rparr>"

theorem windows_arguments_read_back_witness:
  "\<exists>line. command_line (ascii_windows :: unit Windows) (map of_char ''C:/a b.exe'') [''--out'', ''my runs'', '''', ''a b\"''] = Some line
     \<and> split_line line = [map of_char ''--out'', map of_char ''my runs'', map of_char ''a b\"'']"
proof -
  let ?exe = "map of_char ''C:/a b.exe'' :: Wide"
  let ?args = "[''--out'', ''my runs'', '''', ''a b\"'']"
  have w: "utf8_to_wide (ascii_windows :: unit Windows) s = map of_char s" for s by (simp add: utf8_to_wide_def ascii_windows_def)
  obtain line where l: "command_line (ascii_windows :: unit Windows) ?exe ?args = Some line"
    by (simp add: command_line_def w)
  have e: "QUOTE \<notin> set ?exe" "0 \<notin> set ?exe" "\<forall>argument \<in> set ?args. 0 \<notin> set (utf8_to_wide (ascii_windows :: unit Windows) argument)"
    by (simp_all add: w wide_chars)
  have "split_line line = [map of_char ''--out'', map of_char ''my runs'', map of_char ''a b\"'']"
    using windows_arguments_read_back [OF l e] by (simp add: w)
  with l show ?thesis by (intro exI [of _ line] conjI)
qed

end
