(* ===== verification/BridgeSdk.thy ===== *)
theory BridgeSdk
  imports CApi
begin

text \<open>
  The loader of the Unreal Engine bridge: \<open>RollbackLabSdk.h\<close>, \<open>RollbackLabSdk.cpp\<close> and the results and options of
  \<open>RollbackLabRuntime.h\<close>, under \<open>examples/ue5/RollbackArena/Plugins/RollbackLabBridge/Source/RollbackLabBridge\<close>.

  The engine's files, paths, JSON parser and library loading, and SHA-256, are the parameter \<open>Loader\<close>. What is parsed is seen
  through the accessors the code calls. An engine string is a \<open>string\<close> of one-byte characters, and its comparison
  operators ignore case, as the engine documents.
\<close>

section \<open>Results and options\<close>

datatype EError =
    EE_None | EE_InvalidArgument | EE_NotRunning | EE_WrongThread | EE_MissingManifest | EE_InvalidManifest
  | EE_VersionMismatch | EE_SourceMismatch | EE_MissingLibrary | EE_HashMismatch | EE_MissingExport
  | EE_LoadFailure | EE_SdkFailure

record FResult =
  re_error :: EError
  re_sdk_status :: rl_status
  re_message :: string

definition result_ok :: FResult where
  "result_ok = \<lparr>re_error = EE_None, re_sdk_status = RL_OK, re_message = ''''\<rparr>"

definition is_ok :: "FResult \<Rightarrow> bool" where "is_ok r \<longleftrightarrow> re_error r = EE_None"

definition bridge_failure :: "EError \<Rightarrow> string \<Rightarrow> rl_status \<Rightarrow> FResult" where
  "bridge_failure error message status = \<lparr>re_error = error, re_sdk_status = status, re_message = message\<rparr>"

definition sdk_result :: "rl_status \<Rightarrow> string \<Rightarrow> FResult" where
  "sdk_result status operation =
     (if status = RL_OK then result_ok
      else bridge_failure (if status = RL_WRONG_THREAD then EE_WrongThread else EE_SdkFailure)
             (operation @ '' returned SDK status '' @ dec_word status @ ''.'') status)"

record FStartOptions =
  fo_scenario :: rl_live_config
  fo_peer_b_variant :: u32
  fo_is_udp :: bool
  fo_local_peer :: u32
  fo_udp_variant :: u32
  fo_udp :: rl_udp_config
  fo_sdk_root_override :: string
  fo_expected_source_git_sha :: string

definition RL_VARIANT_CANONICAL :: u32 where "RL_VARIANT_CANONICAL = 0"

definition default_live_options :: rl_live_config where
  "default_live_options =
     \<lparr>lf_header = initialized size_live_config, lf_scenario_seed = 1, lf_transport_seed = 2, lf_frame_count = 600,
      lf_base_latency_ticks = 5, lf_jitter_ticks = 3, lf_loss_percent = 5, lf_reorder_percent = 10,
      lf_duplicate_percent = 5, lf_burst_loss_percent = 0, lf_max_queue_packets = 4096,
      lf_max_queue_bytes = 4194304, lf_bandwidth_bytes_per_tick = 1048576, lf_max_packet_age_ticks = 600,
      lf_tail_redundancy_ticks = 64\<rparr>"

definition default_udp_options :: rl_udp_config where
  "default_udp_options =
     \<lparr>uf_header = initialized size_udp_config, uf_scenario_seed = 12648430, uf_transport_seed = 0x55445030,
      uf_frame_count = 240, uf_listen_port = 0, uf_relay_port = 0, uf_handshake_timeout_ms = 15000,
      uf_run_timeout_ms = 15000, uf_advertised_protocol_version = 0, uf_advertised_simulation_version = 0,
      uf_advertised_abi_profile_version = 0, uf_reserved = [0, 0, 0]\<rparr>"

definition default_start_options :: FStartOptions where
  "default_start_options =
     \<lparr>fo_scenario = default_live_options, fo_peer_b_variant = RL_VARIANT_CANONICAL, fo_is_udp = False,
      fo_local_peer = RL_PEER_A, fo_udp_variant = RL_VARIANT_CANONICAL, fo_udp = default_udp_options,
      fo_sdk_root_override = '''', fo_expected_source_git_sha = ''''\<rparr>"

text \<open>
  What the code uses of \<open>double\<close>: the order, the finite values, the conversions and the operations of \<open><cmath>\<close>.
\<close>

record 'd Doubles =
  db_zero :: 'd
  db_fixed_step :: 'd
  db_thousand :: 'd
  db_largest :: 'd
  db_plus :: "'d \<Rightarrow> 'd \<Rightarrow> 'd"
  db_minus :: "'d \<Rightarrow> 'd \<Rightarrow> 'd"
  db_times :: "'d \<Rightarrow> 'd \<Rightarrow> 'd"
  db_quotient :: "'d \<Rightarrow> 'd \<Rightarrow> 'd"
  db_fmod :: "'d \<Rightarrow> 'd \<Rightarrow> 'd"
  db_max :: "'d \<Rightarrow> 'd \<Rightarrow> 'd"
  db_less :: "'d \<Rightarrow> 'd \<Rightarrow> bool"
  db_at_least :: "'d \<Rightarrow> 'd \<Rightarrow> bool"
  db_is_finite :: "'d \<Rightarrow> bool"
  db_of_u32 :: "u32 \<Rightarrow> 'd"
  db_floor :: "'d \<Rightarrow> u32"
  db_to_u64 :: "'d \<Rightarrow> u64"

section \<open>The outside of the loader\<close>

text \<open>
  A parsed manifest: the accessors \<open>TryGetNumberField\<close>, \<open>TryGetStringField\<close> and \<open>TryGetBoolField\<close>, and the array \<open>files\<close>
  with the string accessor of each entry, \<open>None\<close> for an entry that is not an object.
\<close>

record 'd Manifest =
  mf_number :: "string \<Rightarrow> 'd option"
  mf_string :: "string \<Rightarrow> string option"
  mf_bool :: "string \<Rightarrow> bool option"
  mf_files :: "(string \<Rightarrow> string option) option list option"

record ('s, 'd) Loader =
  ld_plugin_dir :: "string option"
  ld_full_path :: "string \<Rightarrow> string"
  ld_combine :: "string \<Rightarrow> string \<Rightarrow> string"
  ld_file_size :: "string \<Rightarrow> 's \<Rightarrow> int"
  ld_read_bytes :: "string \<Rightarrow> 's \<Rightarrow> byte list option"
  ld_read_text :: "string \<Rightarrow> 's \<Rightarrow> string option"
  ld_file_exists :: "string \<Rightarrow> 's \<Rightarrow> bool"
  ld_parse :: "string \<Rightarrow> 'd Manifest option"
  ld_sha256 :: "byte list \<Rightarrow> byte list option"
  ld_load_library :: "string \<Rightarrow> 's \<Rightarrow> (u32 + nat) \<times> 's"
  ld_has_export :: "nat \<Rightarrow> string \<Rightarrow> bool"
  ld_free_library :: "nat \<Rightarrow> 's \<Rightarrow> 's"
  ld_expected_source_sha :: string
  ld_expected_manifest_sha256 :: string

section \<open>Text\<close>

definition lower_char :: "char \<Rightarrow> char" where
  "lower_char c = (let n = of_char c :: nat in if 65 \<le> n \<and> n \<le> 90 then char_of (n + 32) else c)"

definition to_lower :: "string \<Rightarrow> string" where "to_lower s = map lower_char s"

definition same_text :: "string \<Rightarrow> string \<Rightarrow> bool" where
  "same_text s t \<longleftrightarrow> to_lower s = to_lower t"

definition is_hex_digit :: "char \<Rightarrow> bool" where
  "is_hex_digit c \<longleftrightarrow>
     (let n = of_char c :: nat in (48 \<le> n \<and> n \<le> 57) \<or> (97 \<le> n \<and> n \<le> 102) \<or> (65 \<le> n \<and> n \<le> 70))"

definition is_hex :: "string \<Rightarrow> nat \<Rightarrow> bool" where
  "is_hex s n \<longleftrightarrow> length s = n \<and> list_all is_hex_digit s"

definition starts_with_slash :: "string \<Rightarrow> bool" where
  "starts_with_slash s \<longleftrightarrow> (case s of [] \<Rightarrow> False | c # _ \<Rightarrow> c = CHR ''/'')"

fun has_dots :: "string \<Rightarrow> bool" where
  "has_dots (c # d # s) \<longleftrightarrow> c = CHR ''.'' \<and> d = CHR ''.'' \<or> has_dots (d # s)"
| "has_dots _ \<longleftrightarrow> False"

definition is_path_char :: "char \<Rightarrow> bool" where
  "is_path_char c \<longleftrightarrow>
     (let n = of_char c :: nat in
        (48 \<le> n \<and> n \<le> 57) \<or> (97 \<le> n \<and> n \<le> 122) \<or> (65 \<le> n \<and> n \<le> 90)
      \<or> c = CHR ''_'' \<or> c = CHR ''-'' \<or> c = CHR ''.'' \<or> c = CHR ''/'')"

definition is_relative_manifest_path :: "string \<Rightarrow> bool" where
  "is_relative_manifest_path s \<longleftrightarrow>
     \<not> (s = [] \<or> starts_with_slash s \<or> has_dots s) \<and> list_all is_path_char s"

section \<open>The manifest\<close>

definition digest_text :: "byte list \<Rightarrow> string" where
  "digest_text digest =
     concat (map (\<lambda>b. [''0123456789abcdef'' ! unat (drop_bit 4 b), ''0123456789abcdef'' ! unat (b AND 15)]) digest)"

definition hash_file :: "('s, 'd) Loader \<Rightarrow> string \<Rightarrow> int \<Rightarrow> 's \<Rightarrow> string option" where
  "hash_file ld path limit w =
     (let size = ld_file_size ld path w in
      if size < 0 \<or> size > limit then None
      else (case ld_read_bytes ld path w of
              None \<Rightarrow> None
            | Some bytes \<Rightarrow> map_option digest_text (ld_sha256 ld bytes)))"

definition number_is :: "'d Manifest \<Rightarrow> string \<Rightarrow> 'd \<Rightarrow> bool" where
  "number_is m key expected \<longleftrightarrow> mf_number m key = Some expected"

definition string_is :: "'d Manifest \<Rightarrow> string \<Rightarrow> string \<Rightarrow> bool" where
  "string_is m key expected \<longleftrightarrow> (case mf_string m key of None \<Rightarrow> False | Some s \<Rightarrow> same_text s expected)"

definition invalid_entry :: FResult where
  "invalid_entry =
     bridge_failure EE_InvalidManifest ''RollbackLab SDK manifest contains an invalid/duplicate path or digest.'' RL_OK"

text \<open>The loop over the files: the paths seen, in lower case, and the digest of the library.\<close>

fun check_files :: "(string \<Rightarrow> string option) option list \<Rightarrow> string list \<Rightarrow> string \<Rightarrow> FResult + string list \<times> string" where
  "check_files [] seen dll_hash = Inr (seen, dll_hash)"
| "check_files (None # entries) seen dll_hash =
     Inl (bridge_failure EE_InvalidManifest ''RollbackLab SDK manifest file entry is not an object.'' RL_OK)"
| "check_files (Some entry # entries) seen dll_hash =
     (case (entry ''path'', entry ''sha256'') of
        (Some path, Some hash) \<Rightarrow>
          if \<not> is_relative_manifest_path path \<or> \<not> is_hex hash 64 \<or> to_lower path \<in> set seen then Inl invalid_entry
          else check_files entries (to_lower path # seen)
                 (if same_text path ''bin/rollback_lab_c.dll'' then hash else dll_hash)
      | _ \<Rightarrow> Inl invalid_entry)"

definition manifest_versions :: "'d \<Rightarrow> 'd Manifest \<Rightarrow> bool" where
  "manifest_versions one m \<longleftrightarrow>
     number_is m ''schema_version'' one \<and> number_is m ''abi_version'' one \<and> number_is m ''simulation_version'' one
   \<and> number_is m ''protocol_version'' one \<and> number_is m ''replay_version'' one
   \<and> string_is m ''sdk_version'' ''0.2.0-candidate''"

definition manifest_build :: "'d Manifest \<Rightarrow> bool" where
  "manifest_build m \<longleftrightarrow>
     mf_bool m ''source_clean'' = Some True \<and> string_is m ''configuration'' ''Release''
   \<and> string_is m ''architecture'' ''x64'' \<and> string_is m ''runtime'' ''MD'' \<and> string_is m ''linkage'' ''shared''"

definition manifest_source :: "('s, 'd) Loader \<Rightarrow> FStartOptions \<Rightarrow> 'd Manifest \<Rightarrow> bool" where
  "manifest_source ld options m \<longleftrightarrow>
     (case mf_string m ''source_git_sha'' of
        None \<Rightarrow> False
      | Some sha \<Rightarrow> is_hex sha 40 \<and> same_text sha (ld_expected_source_sha ld)
          \<and> (fo_expected_source_git_sha options = '''' \<or> same_text (fo_expected_source_git_sha options) sha))"

text \<open>The checks of the parsed manifest: the digest it gives for the library.\<close>

definition check_manifest :: "('s, 'd) Loader \<Rightarrow> 'd \<Rightarrow> FStartOptions \<Rightarrow> 'd Manifest \<Rightarrow> FResult + string" where
  "check_manifest ld one options m =
     (if \<not> manifest_versions one m
      then Inl (bridge_failure EE_VersionMismatch
                  ''RollbackLab SDK/ABI/simulation/protocol/replay version mismatch.'' RL_OK)
      else if \<not> manifest_build m
      then Inl (bridge_failure EE_InvalidManifest ''RollbackLab requires a clean Release x64 /MD shared SDK.'' RL_OK)
      else if \<not> manifest_source ld options m
      then Inl (bridge_failure EE_SourceMismatch
                  ''RollbackLab SDK source SHA differs from the compiled or requested identity.'' RL_OK)
      else
        (case mf_files m of
           None \<Rightarrow> Inl (bridge_failure EE_InvalidManifest ''RollbackLab SDK manifest has no bounded file list.'' RL_OK)
         | Some files \<Rightarrow>
             if length files = 0 \<or> length files > 256
             then Inl (bridge_failure EE_InvalidManifest ''RollbackLab SDK manifest has no bounded file list.'' RL_OK)
             else
               (case check_files files [] '''' of
                  Inl e \<Rightarrow> Inl e
                | Inr (seen, dll_hash) \<Rightarrow>
                    if dll_hash = '''' \<or> to_lower ''include/rollback_lab/c_api/rollback_lab_c.h'' \<notin> set seen
                       \<or> to_lower ''lib/rollback_lab_c.lib'' \<notin> set seen
                    then Inl (bridge_failure EE_InvalidManifest
                                ''RollbackLab SDK manifest omits the DLL/header/import library contract.'' RL_OK)
                    else Inr dll_hash)))"

definition default_sdk_root :: "('s, 'd) Loader \<Rightarrow> string" where
  "default_sdk_root ld =
     (case ld_plugin_dir ld of None \<Rightarrow> '''' | Some dir \<Rightarrow> ld_combine ld dir ''Binaries/ThirdParty/RollbackLab'')"

definition sdk_root :: "('s, 'd) Loader \<Rightarrow> FStartOptions \<Rightarrow> string" where
  "sdk_root ld options =
     (if fo_sdk_root_override options = '''' then default_sdk_root ld else fo_sdk_root_override options)"

text \<open>The two files the bridge trusts, by their digests: the path of the library.\<close>

definition digest_is :: "string option \<Rightarrow> string \<Rightarrow> bool" where
  "digest_is actual expected \<longleftrightarrow> (case actual of None \<Rightarrow> False | Some s \<Rightarrow> same_text s expected)"

definition check_digests :: "('s, 'd) Loader \<Rightarrow> string \<Rightarrow> string \<Rightarrow> string \<Rightarrow> 's \<Rightarrow> FResult + string" where
  "check_digests ld root manifest_path dll_hash w =
     (let dll_path = ld_combine ld root ''bin/rollback_lab_c.dll'' in
      if \<not> digest_is (hash_file ld manifest_path 1048576 w) (ld_expected_manifest_sha256 ld)
      then Inl (bridge_failure EE_HashMismatch
                  ''RollbackLab SDK manifest SHA-256 differs from the compiled manifest.'' RL_OK)
      else if \<not> ld_file_exists ld dll_path w
      then Inl (bridge_failure EE_MissingLibrary ''RollbackLab SDK DLL is missing.'' RL_OK)
      else if \<not> digest_is (hash_file ld dll_path 67108864 w) dll_hash
      then Inl (bridge_failure EE_HashMismatch ''RollbackLab SDK DLL SHA-256 mismatch.'' RL_OK)
      else Inr dll_path)"

definition verify_manifest :: "('s, 'd) Loader \<Rightarrow> 'd \<Rightarrow> FStartOptions \<Rightarrow> 's \<Rightarrow> FResult + string" where
  "verify_manifest ld one options w =
     (if sdk_root ld options = ''''
      then Inl (bridge_failure EE_MissingManifest ''RollbackLab plugin SDK directory is unavailable.'' RL_OK)
      else
        (let root = ld_full_path ld (sdk_root ld options);
             manifest_path = ld_combine ld root ''manifest.json'';
             size = ld_file_size ld manifest_path w
         in if size < 0
            then Inl (bridge_failure EE_MissingManifest ''RollbackLab SDK manifest.json is missing.'' RL_OK)
            else if size > 1048576
            then Inl (bridge_failure EE_InvalidManifest ''RollbackLab SDK manifest exceeds the bounded size.'' RL_OK)
            else
              (case Option.bind (ld_read_text ld manifest_path w) (ld_parse ld) of
                 None \<Rightarrow> Inl (bridge_failure EE_InvalidManifest ''RollbackLab SDK manifest is not a JSON object.'' RL_OK)
               | Some m \<Rightarrow>
                   (case check_manifest ld one options m of
                      Inl e \<Rightarrow> Inl e
                    | Inr dll_hash \<Rightarrow> check_digests ld root manifest_path dll_hash w))))"

section \<open>The library\<close>

record FSdk =
  sd_handle :: nat
  sd_version :: rl_version_info

definition session_exports :: "string list" where
  "session_exports =
     [''rl_get_version'', ''rl_session_create'', ''rl_session_destroy'', ''rl_session_advance'',
      ''rl_session_ingest_remote'', ''rl_session_flush_corrections'', ''rl_session_get_snapshot'',
      ''rl_session_get_confirmed_frame'', ''rl_session_get_metrics'', ''rl_session_get_hash'', ''rl_session_hash_at'',
      ''rl_session_serialize_state'', ''rl_live_create'', ''rl_live_destroy'', ''rl_live_step'',
      ''rl_live_get_correction'', ''rl_live_copy_report'', ''rl_live_copy_trace'', ''rl_live_copy_replay'']"

definition udp_exports :: "string list" where
  "udp_exports =
     [''rl_udp_peer_create'', ''rl_udp_peer_destroy'', ''rl_udp_peer_step'', ''rl_udp_peer_get_correction'',
      ''rl_udp_peer_copy_report'', ''rl_udp_peer_copy_replay'', ''rl_udp_peer_copy_failure'']"

definition required_exports :: "FStartOptions \<Rightarrow> string list" where
  "required_exports options = session_exports @ (if fo_is_udp options then udp_exports else [])"

fun missing_export :: "('s, 'd) Loader \<Rightarrow> nat \<Rightarrow> string list \<Rightarrow> string option" where
  "missing_export ld handle [] = None"
| "missing_export ld handle (name # names) =
     (if \<not> ld_has_export ld handle name then Some name else missing_export ld handle names)"

definition required_capabilities :: "FStartOptions \<Rightarrow> u64" where
  "required_capabilities options = 1 OR 2 OR 4 OR (if fo_is_udp options then 8 else 0)"

text \<open>
  The version checks of the loaded library. The source identity of \<open>rl_get_version\<close> always ends within its 41
  bytes.
\<close>

definition check_version :: "('s, 'd) Loader \<Rightarrow> BuildInfo \<Rightarrow> FStartOptions \<Rightarrow> FResult + rl_version_info" where
  "check_version ld build options =
     (case rl_get_version build (Some (initialized size_version_info)) of
        (status, None) \<Rightarrow> Inl (sdk_result status ''rl_get_version'')
      | (_, Some v) \<Rightarrow>
          if vi_header v \<noteq> initialized size_version_info \<or> vi_sdk_major v \<noteq> 0 \<or> vi_sdk_minor v \<noteq> 2
             \<or> vi_sdk_patch v \<noteq> 0 \<or> vi_simulation_version v \<noteq> 1 \<or> vi_protocol_version v \<noteq> 1
             \<or> vi_replay_version v \<noteq> 1
             \<or> vi_capabilities v AND required_capabilities options \<noteq> required_capabilities options
          then Inl (bridge_failure EE_VersionMismatch
                      ''Loaded RollbackLab ABI/version/capabilities do not match the bridge.'' RL_OK)
          else if \<not> is_hex (vi_source_git_sha v) 40
             \<or> \<not> same_text (vi_source_git_sha v) (ld_expected_source_sha ld)
          then Inl (bridge_failure EE_SourceMismatch
                      ''Loaded RollbackLab DLL source SHA does not match its verified manifest.'' RL_OK)
          else Inr v)"

text \<open>A failure after the library was loaded frees it again. The library that the file holds was made by \<open>build\<close>.\<close>

definition load_sdk :: "('s, 'd) Loader \<Rightarrow> 'd \<Rightarrow> BuildInfo \<Rightarrow> FStartOptions \<Rightarrow> 's \<Rightarrow> (FResult + FSdk) \<times> 's" where
  "load_sdk ld one build options w =
     (case verify_manifest ld one options w of
        Inl e \<Rightarrow> (Inl e, w)
      | Inr dll_path \<Rightarrow>
          (case ld_load_library ld dll_path w of
             (Inl code, w) \<Rightarrow>
               (Inl (bridge_failure EE_LoadFailure
                       (''Verified RollbackLab DLL load failed with Win32 error '' @ dec_word code @ ''.'') RL_OK), w)
           | (Inr handle, w) \<Rightarrow>
               (case missing_export ld handle (required_exports options) of
                  Some name \<Rightarrow>
                    (Inl (bridge_failure EE_MissingExport
                            (''RollbackLab DLL is missing required export '' @ name) RL_OK), ld_free_library ld handle w)
                | None \<Rightarrow>
                    (case check_version ld build options of
                       Inl e \<Rightarrow> (Inl e, ld_free_library ld handle w)
                     | Inr v \<Rightarrow> (Inr \<lparr>sd_handle = handle, sd_version = v\<rparr>, w)))))"

end
