(* ===== verification/BridgeRuntime.thy ===== *)
theory BridgeRuntime
  imports BridgeSdk
begin

text \<open>
  The runtime of the Unreal Engine bridge: \<open>RollbackLabRuntime.h\<close> and \<open>RollbackLabRuntime.cpp\<close>, under
  \<open>examples/ue5/RollbackArena/Plugins/RollbackLabBridge/Source/RollbackLabBridge\<close>.

  The library it loads is the C interface of this repository, so its exported functions are those of \<open>CApi\<close>, over
  the process's handles. The rest of the outside is the parameter \<open>Engine\<close>: the outside of the loader, the clock, the addresses
  of new objects, and the operations on \<open>double\<close>. A function returns \<open>None\<close> where a \<open>check\<close> of the code ends the process.
\<close>

section \<open>The outside\<close>

record ('s, 'd) Engine =
  en_build :: BuildInfo
  en_host :: "'s Host"
  en_game_thread :: ThreadId
  en_loader :: "('s, 'd) Loader"
  en_seconds :: "'s \<Rightarrow> 'd"
  en_new_session :: "Sessions \<Rightarrow> nat"
  en_new_live :: "Lives \<Rightarrow> nat"
  en_new_peer :: "Peers \<Rightarrow> nat"
  en_double :: "'d Doubles"

text \<open>The handles of the process, its counters, and the rest of the world.\<close>

record 's BridgeWorld =
  bw_sessions :: Sessions
  bw_lives :: Lives
  bw_peers :: Peers
  bw_os :: 's
  bw_libraries :: u32
  bw_session_count :: u32
  bw_driver_count :: u32

section \<open>The state of a runtime\<close>

definition zero_header :: Header where "zero_header = \<lparr>hd_api_version = 0, hd_struct_size = 0\<rparr>"

definition zero_snapshot :: rl_world_snapshot where
  "zero_snapshot =
     \<lparr>wn_header = zero_header, wn_state_hash = 0, wn_frame = 0, wn_next_projectile_id = 0, wn_player_count = 0,
      wn_projectile_capacity = 0,
      wn_players = replicate 2 \<lparr>pn_peer = 0, pn_x = 0, pn_y = 0, pn_velocity_x = 0, pn_velocity_y = 0, pn_hp = 0,
        pn_facing_x = 0, pn_facing_y = 0, pn_score = 0, pn_attack_cooldown = 0\<rparr>,
      wn_projectiles = replicate 64 \<lparr>jn_stable_id = 0, jn_owner = 0, jn_x = 0, jn_y = 0, jn_velocity_x = 0,
        jn_velocity_y = 0, jn_ttl = 0, jn_active = 0\<rparr>\<rparr>"

definition zero_metrics :: rl_metrics where
  "zero_metrics =
     \<lparr>mn_header = zero_header, mn_total_resimulated_frames = 0, mn_predicted_input_count = 0, mn_late_input_count = 0,
      mn_rollback_count = 0, mn_maximum_rollback_depth = 0, mn_confirmed_frame = 0\<rparr>"

definition zero_correction :: rl_live_correction where
  "zero_correction =
     \<lparr>ln_header = zero_header, ln_performed = 0, ln_rollback_from = 0, ln_resimulated_frames = 0,
      ln_before = zero_snapshot, ln_after = zero_snapshot\<rparr>"

record FPeerView =
  fv_snapshot :: rl_world_snapshot
  fv_metrics :: rl_metrics
  fv_last_correction :: rl_live_correction
  fv_correction_revision :: u64
  fv_handle_identity :: "nat option"

definition empty_view :: FPeerView where
  "empty_view =
     \<lparr>fv_snapshot = zero_snapshot, fv_metrics = zero_metrics, fv_last_correction = zero_correction,
      fv_correction_revision = 0, fv_handle_identity = None\<rparr>"

record 'd FClockState =
  fk_accumulator :: 'd
  fk_discarded :: 'd
  fk_last_tick_steps :: u32
  fk_paused :: bool

definition initial_clock :: "'d Doubles \<Rightarrow> 'd FClockState" where
  "initial_clock db =
     \<lparr>fk_accumulator = db_zero db, fk_discarded = db_zero db, fk_last_tick_steps = 0, fk_paused = False\<rparr>"

text \<open>
  \<open>FRunResources\<close>: the handles that its members own; the library's lease is there as long as the record is.
\<close>

record FRunResources =
  rn_library :: FSdk
  rn_peer_a :: "nat option"
  rn_peer_b :: "nat option"
  rn_driver :: "nat option"
  rn_udp :: "nat option"

record 'd FImpl =
  im_owner_thread :: ThreadId
  im_resources :: "FRunResources option"
  im_view_a :: FPeerView
  im_view_b :: FPeerView
  im_last_step :: rl_live_step_result
  im_last_udp_step :: rl_udp_step_result
  im_udp_created_at :: 'd
  im_version :: rl_version_info
  im_clock :: "'d FClockState"
  im_last_result :: FResult
  im_last_options :: FStartOptions
  im_has_options :: bool
  im_failed :: bool

definition initial_step :: rl_live_step_result where
  "initial_step =
     \<lparr>lr_header = initialized size_live_step_result, lr_logical_tick = 0, lr_finished = 0, lr_desync_detected = 0,
      lr_earliest_divergent_frame = 0\<rparr>"

definition initial_version :: rl_version_info where
  "initial_version =
     \<lparr>vi_header = initialized size_version_info, vi_sdk_major = 0, vi_sdk_minor = 0, vi_sdk_patch = 0,
      vi_simulation_version = 0, vi_protocol_version = 0, vi_replay_version = 0, vi_capabilities = 0,
      vi_source_git_sha = ''''\<rparr>"

definition new_runtime :: "('s, 'd) Engine \<Rightarrow> 'd FImpl" where
  "new_runtime en =
     \<lparr>im_owner_thread = en_game_thread en, im_resources = None, im_view_a = empty_view, im_view_b = empty_view,
      im_last_step = initial_step, im_last_udp_step = initial_observation,
      im_udp_created_at = db_zero (en_double en), im_version = initial_version,
      im_clock = initial_clock (en_double en), im_last_result = result_ok, im_last_options = default_start_options,
      im_has_options = False, im_failed = False\<rparr>"

definition on_owner_thread :: "('s, 'd) Engine \<Rightarrow> ThreadId \<Rightarrow> 'd FImpl \<Rightarrow> bool" where
  "on_owner_thread en t im \<longleftrightarrow> t = en_game_thread en \<and> im_owner_thread im = t"

definition running :: "'d FImpl \<Rightarrow> bool" where
  "running im \<longleftrightarrow> im_resources im \<noteq> None \<and> \<not> im_failed im \<and> lr_finished (im_last_step im) = 0"

definition check_access :: "('s, 'd) Engine \<Rightarrow> ThreadId \<Rightarrow> bool \<Rightarrow> 'd FImpl \<Rightarrow> FResult" where
  "check_access en t require_running im =
     (if \<not> on_owner_thread en t im
      then bridge_failure EE_WrongThread ''RollbackLab runtime calls must remain on their creating game thread.''
             RL_WRONG_THREAD
      else if im_resources im = None \<or> require_running \<and> \<not> running im
      then bridge_failure EE_NotRunning ''RollbackLab runtime is not running.'' RL_OK
      else result_ok)"

section \<open>Release\<close>

text \<open>The destructors of the owners; a library that refuses to destroy fails their check.\<close>

definition destroy_session :: "ThreadId \<Rightarrow> nat option \<Rightarrow> 's BridgeWorld \<Rightarrow> 's BridgeWorld option" where
  "destroy_session t handle w =
     (if handle = None then Some w
      else
        (let (status, store) = rl_session_destroy t handle (bw_sessions w) in
         if status \<noteq> RL_OK then None
         else Some (w\<lparr>bw_sessions := store, bw_session_count := bw_session_count w - 1\<rparr>)))"

definition destroy_driver :: "ThreadId \<Rightarrow> nat option \<Rightarrow> 's BridgeWorld \<Rightarrow> 's BridgeWorld option" where
  "destroy_driver t handle w =
     (if handle = None then Some w
      else
        (let (status, store, lives) = rl_live_destroy t handle (bw_sessions w) (bw_lives w) in
         if status \<noteq> RL_OK then None
         else Some (w\<lparr>bw_sessions := store, bw_lives := lives, bw_driver_count := bw_driver_count w - 1\<rparr>)))"

definition destroy_udp :: "('s, 'd) Engine \<Rightarrow> ThreadId \<Rightarrow> nat option \<Rightarrow> 's BridgeWorld \<Rightarrow> 's BridgeWorld option" where
  "destroy_udp en t handle w =
     (if handle = None then Some w
      else
        (let ((status, store, peers), os) =
               rl_udp_peer_destroy (en_host en) t handle (bw_sessions w) (bw_peers w) (bw_os w) in
         if status \<noteq> RL_OK then None
         else Some (w\<lparr>bw_sessions := store, bw_peers := peers, bw_os := os,
                      bw_driver_count := bw_driver_count w - 1\<rparr>)))"

text \<open>The members in the reverse order of their declaration, the library last.\<close>

definition destroy_resources :: "('s, 'd) Engine \<Rightarrow> ThreadId \<Rightarrow> FRunResources \<Rightarrow> 's BridgeWorld
    \<Rightarrow> 's BridgeWorld option" where
  "destroy_resources en t r w =
     Option.bind (destroy_udp en t (rn_udp r) w) (\<lambda>w.
     Option.bind (destroy_driver t (rn_driver r) w) (\<lambda>w.
     Option.bind (destroy_session t (rn_peer_b r) w) (\<lambda>w.
     Option.bind (destroy_session t (rn_peer_a r) w) (\<lambda>w.
       Some (w\<lparr>bw_os := ld_free_library (en_loader en) (sd_handle (rn_library r)) (bw_os w),
               bw_libraries := bw_libraries w - 1\<rparr>)))))"

definition stop :: "('s, 'd) Engine \<Rightarrow> ThreadId \<Rightarrow> 'd FImpl \<Rightarrow> 's BridgeWorld \<Rightarrow> ('d FImpl \<times> 's BridgeWorld) option" where
  "stop en t im w =
     (if \<not> on_owner_thread en t im then None
      else
        Option.bind (case im_resources im of None \<Rightarrow> Some w | Some r \<Rightarrow> destroy_resources en t r w) (\<lambda>w.
          Some (im\<lparr>im_resources := None, im_view_a := (im_view_a im)\<lparr>fv_handle_identity := None\<rparr>,
                   im_view_b := (im_view_b im)\<lparr>fv_handle_identity := None\<rparr>,
                   im_clock := (im_clock im)\<lparr>fk_last_tick_steps := 0\<rparr>\<rparr>, w)))"

section \<open>Views\<close>

definition layout_ok :: "rl_world_snapshot \<Rightarrow> rl_metrics \<Rightarrow> bool" where
  "layout_ok s m \<longleftrightarrow>
     wn_header s = initialized size_world_snapshot \<and> wn_player_count s = 2 \<and> wn_projectile_capacity s = 64
   \<and> mn_header m = initialized size_metrics"

definition read_correction :: "ThreadId \<Rightarrow> FRunResources \<Rightarrow> u32 \<Rightarrow> 's BridgeWorld
    \<Rightarrow> rl_status \<times> rl_live_correction option" where
  "read_correction t r peer w =
     (if rn_udp r \<noteq> None
      then rl_udp_peer_get_correction t (rn_udp r) (Some (initialized size_live_correction)) (bw_sessions w) (bw_peers w)
      else rl_live_get_correction t (rn_driver r) peer (Some (initialized size_live_correction)) (bw_lives w))"

text \<open>One turn of the loop of \<open>RefreshViews\<close>.\<close>

definition refresh_view :: "ThreadId \<Rightarrow> FRunResources \<Rightarrow> bool \<Rightarrow> u32 \<Rightarrow> nat option \<Rightarrow> FPeerView \<Rightarrow> 's BridgeWorld
    \<Rightarrow> FResult + FPeerView" where
  "refresh_view t r read_corrections peer handle view w =
     (if handle = None then Inr empty_view
      else
        (case rl_session_get_snapshot t handle (Some (initialized size_world_snapshot)) (bw_sessions w) of
           (status, None) \<Rightarrow> Inl (sdk_result status ''rl_session_get_snapshot'')
         | (_, Some snapshot) \<Rightarrow>
             (case rl_session_get_metrics t handle (Some (initialized size_metrics)) (bw_sessions w) of
                (status, None) \<Rightarrow> Inl (sdk_result status ''rl_session_get_metrics'')
              | (_, Some metrics) \<Rightarrow>
                  if \<not> layout_ok snapshot metrics
                  then Inl (bridge_failure EE_VersionMismatch
                              ''SDK presentation snapshot/metrics layout differs from ABI v1.'' RL_OK)
                  else
                    (let view = view\<lparr>fv_snapshot := snapshot, fv_metrics := metrics,
                                     fv_handle_identity := handle\<rparr> in
                     if \<not> read_corrections then Inr view
                     else
                       (case read_correction t r peer w of
                          (status, None) \<Rightarrow> Inl (sdk_result status ''rl_live_get_correction'')
                        | (_, Some c) \<Rightarrow>
                            Inr (if ln_performed c \<noteq> 0
                                 then view\<lparr>fv_last_correction := c,
                                           fv_correction_revision := fv_correction_revision view + 1\<rparr>
                                 else view))))))"

text \<open>A query of the library returns a result exactly when its status is \<open>RL_OK\<close>, so the status is not tested apart.\<close>

definition refresh_views :: "ThreadId \<Rightarrow> FRunResources \<Rightarrow> bool \<Rightarrow> 'd FImpl \<Rightarrow> 's BridgeWorld \<Rightarrow> FResult \<times> 'd FImpl" where
  "refresh_views t r read_corrections im w =
     (case refresh_view t r read_corrections 0 (rn_peer_a r) (im_view_a im) w of
        Inl e \<Rightarrow> (e, im)
      | Inr a \<Rightarrow>
          (case refresh_view t r read_corrections 1 (rn_peer_b r) (im_view_b im) w of
             Inl e \<Rightarrow> (e, im)
           | Inr b \<Rightarrow> (result_ok, im\<lparr>im_view_a := a, im_view_b := b\<rparr>)))"

section \<open>Start\<close>

definition peer_session_config :: "FStartOptions \<Rightarrow> u32 \<Rightarrow> rl_session_config" where
  "peer_session_config options peer =
     \<lparr>sf_header = initialized size_session_config, sf_local_peer = peer, sf_max_rollback_frames = 120,
      sf_simulation_variant =
        (if fo_is_udp options then fo_udp_variant options
         else if peer = RL_PEER_B then fo_peer_b_variant options else RL_VARIANT_CANONICAL),
      sf_reserved = 0\<rparr>"

text \<open>One turn of the loop over the peers: the failure it returns with, the handle it holds then, and the world.\<close>

definition create_peer :: "('s, 'd) Engine \<Rightarrow> ThreadId \<Rightarrow> FStartOptions \<Rightarrow> u32 \<Rightarrow> 's BridgeWorld
    \<Rightarrow> FResult option \<times> nat option \<times> 's BridgeWorld" where
  "create_peer en t options peer w =
     (if fo_is_udp options \<and> peer \<noteq> fo_local_peer options then (None, None, w)
      else
        (let (status, written, store) =
               rl_session_create t (en_new_session en (bw_sessions w)) (Some (peer_session_config options peer)) True
                 (bw_sessions w);
             handle = Option.bind written (\<lambda>h. h);
             w = w\<lparr>bw_sessions := store,
                   bw_session_count := bw_session_count w + (if handle \<noteq> None then 1 else 0)\<rparr>
         in if status \<noteq> RL_OK then (Some (sdk_result status ''rl_session_create''), handle, w)
            else if handle = None
            then (Some (bridge_failure EE_SdkFailure ''SDK returned success without a session handle.''
                          RL_INTERNAL_FAILURE), handle, w)
            else (None, handle, w)))"

definition open_udp :: "('s, 'd) Engine \<Rightarrow> ThreadId \<Rightarrow> FStartOptions \<Rightarrow> nat option \<Rightarrow> 's BridgeWorld
    \<Rightarrow> FResult option \<times> nat option \<times> 's BridgeWorld" where
  "open_udp en t options session w =
     (let ((status, written, store, peers), os) =
            rl_udp_peer_create (en_host en) t (en_new_peer en (bw_peers w)) (Some (fo_udp options)) session True
              (bw_sessions w) (bw_peers w) (bw_os w);
          handle = Option.bind written (\<lambda>h. h);
          w = w\<lparr>bw_sessions := store, bw_peers := peers, bw_os := os,
                bw_driver_count := bw_driver_count w + (if handle \<noteq> None then 1 else 0)\<rparr>
      in if status \<noteq> RL_OK then (Some (sdk_result status ''rl_udp_peer_create''), handle, w)
         else if handle = None
         then (Some (bridge_failure EE_SdkFailure ''SDK returned success without a UDP driver.''
                       RL_INTERNAL_FAILURE), handle, w)
         else (None, handle, w))"

definition open_live :: "('s, 'd) Engine \<Rightarrow> ThreadId \<Rightarrow> FStartOptions \<Rightarrow> nat option \<Rightarrow> nat option \<Rightarrow> 's BridgeWorld
    \<Rightarrow> FResult option \<times> nat option \<times> 's BridgeWorld" where
  "open_live en t options a b w =
     (if a = b
      then (Some (bridge_failure EE_SdkFailure ''SDK returned aliased peer handles.'' RL_INTERNAL_FAILURE), None, w)
      else
        (let (status, written, store, lives) =
               rl_live_create (en_build en) t (en_new_live en (bw_lives w)) (Some (fo_scenario options)) a b True
                 (bw_sessions w) (bw_lives w);
             handle = Option.bind written (\<lambda>h. h);
             w = w\<lparr>bw_sessions := store, bw_lives := lives,
                   bw_driver_count := bw_driver_count w + (if handle \<noteq> None then 1 else 0)\<rparr>
         in if status \<noteq> RL_OK then (Some (sdk_result status ''rl_live_create''), handle, w)
            else if handle = None
            then (Some (bridge_failure EE_SdkFailure ''SDK returned success without a live driver.''
                          RL_INTERNAL_FAILURE), handle, w)
            else (None, handle, w)))"

text \<open>
  The loop over the peers in \<open>Start\<close>, and the driver: the failure the function returns with, what the resources \<open>Created\<close>
  own then, and the world. The local peer's handle is the session of a UDP run.
\<close>

definition create_peers :: "('s, 'd) Engine \<Rightarrow> ThreadId \<Rightarrow> FStartOptions \<Rightarrow> FRunResources \<Rightarrow> 's BridgeWorld
    \<Rightarrow> FResult option \<times> FRunResources \<times> 's BridgeWorld" where
  "create_peers en t options r w =
     (case create_peer en t options 0 w of
        (Some e, a, w) \<Rightarrow> (Some e, r\<lparr>rn_peer_a := a\<rparr>, w)
      | (None, a, w) \<Rightarrow>
          (case create_peer en t options 1 w of
             (e, b, w) \<Rightarrow> (e, r\<lparr>rn_peer_a := a, rn_peer_b := b\<rparr>, w)))"

definition open_driver :: "('s, 'd) Engine \<Rightarrow> ThreadId \<Rightarrow> FStartOptions \<Rightarrow> FRunResources \<Rightarrow> 's BridgeWorld
    \<Rightarrow> FResult option \<times> FRunResources \<times> 's BridgeWorld" where
  "open_driver en t options r w =
     (if fo_is_udp options
      then (case open_udp en t options (if fo_local_peer options = 0 then rn_peer_a r else rn_peer_b r) w of
              (e, handle, w) \<Rightarrow> (e, r\<lparr>rn_udp := handle\<rparr>, w))
      else (case open_live en t options (rn_peer_a r) (rn_peer_b r) w of
              (e, handle, w) \<Rightarrow> (e, r\<lparr>rn_driver := handle\<rparr>, w)))"

definition cleared :: "('s, 'd) Engine \<Rightarrow> 'd FImpl \<Rightarrow> 'd FImpl" where
  "cleared en im =
     im\<lparr>im_view_a := empty_view, im_view_b := empty_view, im_last_step := initial_step,
        im_last_udp_step := initial_observation, im_version := initial_version,
        im_clock := initial_clock (en_double en), im_failed := False\<rparr>"

text \<open>From the creation of the resources on; they are destroyed when a failure leaves the function.\<close>

definition start_created :: "('s, 'd) Engine \<Rightarrow> ThreadId \<Rightarrow> FStartOptions \<Rightarrow> FRunResources \<Rightarrow> 'd FImpl \<Rightarrow> 's BridgeWorld
    \<Rightarrow> (FResult \<times> 'd FImpl \<times> 's BridgeWorld) option" where
  "start_created en t options r im w =
     (let im = im\<lparr>im_version := sd_version (rn_library r), im_resources := Some r\<rparr>;
          (result, im) = refresh_views t r False im w
      in if \<not> is_ok result
         then Option.bind (stop en t im w) (\<lambda>(im, w). Some (result, im\<lparr>im_last_result := result\<rparr>, w))
         else Some (result_ok,
                im\<lparr>im_last_options := options, im_has_options := True, im_last_result := result_ok\<rparr>, w))"

definition start_loaded :: "('s, 'd) Engine \<Rightarrow> ThreadId \<Rightarrow> FStartOptions \<Rightarrow> FSdk \<Rightarrow> 'd FImpl \<Rightarrow> 's BridgeWorld
    \<Rightarrow> (FResult \<times> 'd FImpl \<times> 's BridgeWorld) option" where
  "start_loaded en t options library im w =
     (let r = \<lparr>rn_library = library, rn_peer_a = None, rn_peer_b = None, rn_driver = None, rn_udp = None\<rparr>;
          failed = (\<lambda>e r im w. Option.bind (destroy_resources en t r w) (\<lambda>w. Some (e, im\<lparr>im_last_result := e\<rparr>, w)))
      in case create_peers en t options r w of
           (Some e, r, w) \<Rightarrow> failed e r im w
         | (None, r, w) \<Rightarrow>
             (let im = (if fo_is_udp options then im\<lparr>im_udp_created_at := en_seconds en (bw_os w)\<rparr> else im) in
              case open_driver en t options r w of
                (Some e, r, w) \<Rightarrow> failed e r im w
              | (None, r, w) \<Rightarrow> start_created en t options r im w))"

definition start :: "('s, 'd) Engine \<Rightarrow> ThreadId \<Rightarrow> FStartOptions \<Rightarrow> 'd FImpl \<Rightarrow> 's BridgeWorld
    \<Rightarrow> (FResult \<times> 'd FImpl \<times> 's BridgeWorld) option" where
  "start en t options im w =
     (if \<not> on_owner_thread en t im
      then Some (bridge_failure EE_WrongThread ''RollbackLab Start requires its creating game thread.'' RL_WRONG_THREAD,
                 im, w)
      else
        Option.bind (stop en t im w) (\<lambda>(im, w).
          let im = cleared en im in
          if fo_is_udp options \<and> (fo_local_peer options > RL_PEER_B \<or> fo_udp_variant options > RL_VARIANT_DAMAGE_BIAS)
          then (let e = bridge_failure EE_InvalidArgument ''UDP local peer or simulation variant is invalid.''
                          RL_INVALID_ARGUMENT
                in Some (e, im\<lparr>im_last_result := e\<rparr>, w))
          else
            (case load_sdk (en_loader en) (db_of_u32 (en_double en) 1) (en_build en) options (bw_os w) of
               (Inl e, os) \<Rightarrow> Some (e, im\<lparr>im_last_result := e\<rparr>, w\<lparr>bw_os := os\<rparr>)
             | (Inr library, os) \<Rightarrow>
                 start_loaded en t options library im
                   (w\<lparr>bw_os := os, bw_libraries := bw_libraries w + 1\<rparr>))))"

definition reset :: "('s, 'd) Engine \<Rightarrow> ThreadId \<Rightarrow> 'd FImpl \<Rightarrow> 's BridgeWorld
    \<Rightarrow> (FResult \<times> 'd FImpl \<times> 's BridgeWorld) option" where
  "reset en t im w =
     (if \<not> on_owner_thread en t im
      then Some (bridge_failure EE_WrongThread ''RollbackLab Reset requires its creating game thread.'' RL_WRONG_THREAD,
                 im, w)
      else if \<not> im_has_options im
      then (let e = bridge_failure EE_NotRunning ''RollbackLab has no validated scenario to reset.'' RL_OK
            in Some (e, im\<lparr>im_last_result := e\<rparr>, w))
      else start en t (im_last_options im) im w)"

section \<open>Steps\<close>

definition advance_udp :: "('s, 'd) Engine \<Rightarrow> ThreadId \<Rightarrow> FRunResources \<Rightarrow> 'd FImpl \<Rightarrow> 's BridgeWorld
    \<Rightarrow> FResult \<times> 'd FImpl \<times> 's BridgeWorld" where
  "advance_udp en t r im w =
     (let db = en_double en;
          elapsed = db_to_u64 db (db_times db (db_max db (db_zero db)
                      (db_minus db (en_seconds en (bw_os w)) (im_udp_created_at im))) (db_thousand db));
          ((status, written, store, peers), os) =
            rl_udp_peer_step (en_build en) (en_host en) t (rn_udp r) elapsed
              (Some (initialized size_udp_step_result)) (bw_sessions w) (bw_peers w) (bw_os w);
          w = w\<lparr>bw_sessions := store, bw_peers := peers, bw_os := os\<rparr>;
          s = (case written of None \<Rightarrow> initial_observation | Some s \<Rightarrow> s);
          im = im\<lparr>im_last_udp_step := s,
                  im_last_step := (im_last_step im)\<lparr>lr_logical_tick := ur_logical_tick s,
                    lr_finished := ur_finished s, lr_desync_detected := ur_desync_detected s,
                    lr_earliest_divergent_frame := ur_earliest_divergent_frame s\<rparr>\<rparr>;
          (refreshed, im) = refresh_views t r True im w;
          im = (if status \<noteq> RL_OK \<or> \<not> is_ok refreshed then im\<lparr>im_failed := True\<rparr> else im)
      in (if status \<noteq> RL_OK then sdk_result status ''rl_udp_peer_step'' else refreshed, im, w))"

definition advance_live :: "('s, 'd) Engine \<Rightarrow> ThreadId \<Rightarrow> FRunResources \<Rightarrow> bool \<Rightarrow> u32 \<Rightarrow> 'd FImpl \<Rightarrow> 's BridgeWorld
    \<Rightarrow> FResult \<times> 'd FImpl \<times> 's BridgeWorld" where
  "advance_live en t r override_input buttons im w =
     (let (status, written, store, lives) =
            rl_live_step (en_build en) t (rn_driver r) (if override_input then 1 else 0) buttons
              (Some (initialized size_live_step_result)) (bw_sessions w) (bw_lives w);
          w = w\<lparr>bw_sessions := store, bw_lives := lives\<rparr>
      in if status \<noteq> RL_OK then (sdk_result status ''rl_live_step'', im\<lparr>im_failed := True\<rparr>, w)
         else
           (let im = im\<lparr>im_last_step := the written\<rparr>;
                (result, im) = refresh_views t r True im w
            in (result, if is_ok result then im else im\<lparr>im_failed := True\<rparr>, w)))"

definition advance_one :: "('s, 'd) Engine \<Rightarrow> ThreadId \<Rightarrow> bool \<Rightarrow> u32 \<Rightarrow> 'd FImpl \<Rightarrow> 's BridgeWorld
    \<Rightarrow> FResult \<times> 'd FImpl \<times> 's BridgeWorld" where
  "advance_one en t override_input buttons im w =
     (let r = the (im_resources im) in
      if rn_udp r \<noteq> None then advance_udp en t r im w else advance_live en t r override_input buttons im w)"

text \<open>The loop of \<open>TickWallClock\<close>, with the number of steps that are left.\<close>

fun tick_steps :: "('s, 'd) Engine \<Rightarrow> ThreadId \<Rightarrow> bool \<Rightarrow> u32 \<Rightarrow> nat \<Rightarrow> 'd FImpl \<Rightarrow> 's BridgeWorld
    \<Rightarrow> FResult \<times> 'd FImpl \<times> 's BridgeWorld" where
  "tick_steps en t override_input buttons 0 im w = (result_ok, im, w)"
| "tick_steps en t override_input buttons (Suc n) im w =
     (if \<not> running im then (result_ok, im, w)
      else
        (let (result, im, w) = advance_one en t override_input buttons im w in
         if \<not> is_ok result then (result, im, w)
         else tick_steps en t override_input buttons n
                (im\<lparr>im_clock := (im_clock im)\<lparr>fk_last_tick_steps := fk_last_tick_steps (im_clock im) + 1\<rparr>\<rparr>) w))"

definition kFixedStepSeconds :: "'d Doubles \<Rightarrow> 'd" where "kFixedStepSeconds db = db_fixed_step db"
definition kMaximumCatchUpSteps :: u32 where "kMaximumCatchUpSteps = 8"

text \<open>How many steps a wall-clock time is worth, and what is left of it and thrown away.\<close>

definition clock_steps :: "'d Doubles \<Rightarrow> 'd \<Rightarrow> u32" where
  "clock_steps db wall =
     (if db_at_least db wall (db_times db (kFixedStepSeconds db) (db_of_u32 db kMaximumCatchUpSteps))
      then kMaximumCatchUpSteps
      else db_floor db (db_quotient db wall (kFixedStepSeconds db)))"

definition advance_clock :: "'d Doubles \<Rightarrow> 'd \<Rightarrow> u32 \<Rightarrow> 'd FClockState \<Rightarrow> 'd FClockState" where
  "advance_clock db wall steps clock =
     (let debt = db_minus db wall (db_times db (db_of_u32 db steps) (kFixedStepSeconds db));
          remainder = (if db_at_least db debt (kFixedStepSeconds db)
                       then db_fmod db debt (kFixedStepSeconds db) else debt);
          discarded = db_max db (db_zero db) (db_minus db debt remainder);
          new_discarded = db_plus db (fk_discarded clock) discarded
      in clock\<lparr>fk_discarded := (if db_is_finite db new_discarded then new_discarded else db_largest db),
               fk_accumulator := db_max db (db_zero db) remainder\<rparr>)"

definition tick_wall_clock :: "('s, 'd) Engine \<Rightarrow> ThreadId \<Rightarrow> 'd \<Rightarrow> bool \<Rightarrow> u32 \<Rightarrow> 'd FImpl \<Rightarrow> 's BridgeWorld
    \<Rightarrow> FResult \<times> 'd FImpl \<times> 's BridgeWorld" where
  "tick_wall_clock en t delta override_input buttons im w =
     (let access = check_access en t True im; db = en_double en in
      if \<not> is_ok access
      then (access, if re_error access = EE_WrongThread then im else im\<lparr>im_last_result := access\<rparr>, w)
      else if \<not> db_is_finite db delta \<or> db_less db delta (db_zero db) \<or> buttons > 31
      then (let e = bridge_failure EE_InvalidArgument
                      ''Wall delta must be finite and nonnegative; input buttons must use the five ABI bits.''
                      RL_INVALID_ARGUMENT
            in (e, im\<lparr>im_last_result := e\<rparr>, w))
      else
        (let im = im\<lparr>im_clock := (im_clock im)\<lparr>fk_last_tick_steps := 0\<rparr>\<rparr> in
         if fk_paused (im_clock im) then (result_ok, im\<lparr>im_last_result := result_ok\<rparr>, w)
         else
           (let wall = db_plus db (fk_accumulator (im_clock im)) delta in
            if \<not> db_is_finite db wall
            then (let e = bridge_failure EE_InvalidArgument ''Wall-time accumulator overflow.'' RL_INVALID_ARGUMENT
                  in (e, im\<lparr>im_last_result := e\<rparr>, w))
            else
              (let steps = clock_steps db wall;
                   im = im\<lparr>im_clock := advance_clock db wall steps (im_clock im)\<rparr>;
                   (result, im, w) = tick_steps en t override_input buttons (unat steps) im w
               in (result, im\<lparr>im_last_result := result\<rparr>, w)))))"

definition single_step :: "('s, 'd) Engine \<Rightarrow> ThreadId \<Rightarrow> bool \<Rightarrow> u32 \<Rightarrow> 'd FImpl \<Rightarrow> 's BridgeWorld
    \<Rightarrow> FResult \<times> 'd FImpl \<times> 's BridgeWorld" where
  "single_step en t override_input buttons im w =
     (let access = check_access en t True im in
      if \<not> is_ok access
      then (access, if re_error access = EE_WrongThread then im else im\<lparr>im_last_result := access\<rparr>, w)
      else if buttons > 31
      then (let e = bridge_failure EE_InvalidArgument ''Input buttons must use the five ABI bits.''
                      RL_INVALID_ARGUMENT
            in (e, im\<lparr>im_last_result := e\<rparr>, w))
      else
        (let im = im\<lparr>im_clock := (im_clock im)\<lparr>fk_last_tick_steps := 0\<rparr>\<rparr>;
             (result, im, w) = advance_one en t override_input buttons im w;
             im = (if is_ok result then im\<lparr>im_clock := (im_clock im)\<lparr>fk_last_tick_steps := 1\<rparr>\<rparr> else im)
         in (result, im\<lparr>im_last_result := result\<rparr>, w)))"

definition set_paused :: "('s, 'd) Engine \<Rightarrow> ThreadId \<Rightarrow> bool \<Rightarrow> 'd FImpl \<Rightarrow> 'd FImpl option" where
  "set_paused en t paused im =
     (if \<not> on_owner_thread en t im then None
      else Some (im\<lparr>im_clock := (im_clock im)\<lparr>fk_paused := paused\<rparr>\<rparr>))"

section \<open>Queries\<close>

definition is_running :: "('s, 'd) Engine \<Rightarrow> ThreadId \<Rightarrow> 'd FImpl \<Rightarrow> bool option" where
  "is_running en t im = (if on_owner_thread en t im then Some (running im) else None)"

definition is_finished :: "('s, 'd) Engine \<Rightarrow> ThreadId \<Rightarrow> 'd FImpl \<Rightarrow> bool option" where
  "is_finished en t im = (if on_owner_thread en t im then Some (lr_finished (im_last_step im) \<noteq> 0) else None)"

definition is_udp_run :: "('s, 'd) Engine \<Rightarrow> ThreadId \<Rightarrow> 'd FImpl \<Rightarrow> bool option" where
  "is_udp_run en t im =
     (if on_owner_thread en t im
      then Some (case im_resources im of None \<Rightarrow> False | Some r \<Rightarrow> rn_udp r \<noteq> None) else None)"

definition is_peer_active :: "('s, 'd) Engine \<Rightarrow> ThreadId \<Rightarrow> u32 \<Rightarrow> 'd FImpl \<Rightarrow> bool option" where
  "is_peer_active en t peer im =
     (if on_owner_thread en t im \<and> peer < 2
      then Some (fv_handle_identity (if peer = 0 then im_view_a im else im_view_b im) \<noteq> None) else None)"

definition kMaximumArtifactBytes :: u32 where "kMaximumArtifactBytes = 67108864"

text \<open>
  \<open>CopyString\<close>: the size is asked for first, then the text is copied; the last byte is the terminator. The conversion
  of the bytes to the engine's strings is left out.
\<close>

definition copy_text :: "(bool \<Rightarrow> u32 \<Rightarrow> rl_status \<times> u32 option \<times> byte list option) \<Rightarrow> string
    \<Rightarrow> FResult + byte list" where
  "copy_text copy operation =
     (let (status, written, _) = copy False 0; required = (case written of None \<Rightarrow> 0 | Some n \<Rightarrow> n) in
      if status \<noteq> RL_BUFFER_TOO_SMALL
      then Inl (sdk_result (if status = RL_OK then RL_INTERNAL_FAILURE else status) operation)
      else if required = 0 \<or> required > kMaximumArtifactBytes
      then Inl (bridge_failure EE_SdkFailure ''SDK text artifact exceeds its bounded buffer contract.'' RL_CAPACITY)
      else
        (let capacity = required; (status, written, bytes) = copy True capacity;
             required = (case written of None \<Rightarrow> required | Some n \<Rightarrow> n);
             bytes = (case bytes of None \<Rightarrow> [] | Some bs \<Rightarrow> bs)
         in if status \<noteq> RL_OK then Inl (sdk_result status operation)
            else if required = 0 \<or> required > capacity \<or> bytes ! (unat required - 1) \<noteq> 0
            then Inl (bridge_failure EE_SdkFailure ''SDK text artifact is not a bounded NUL-terminated string.''
                        RL_INTERNAL_FAILURE)
            else Inr (take (unat required - 1) bytes)))"

definition copy_report :: "('s, 'd) Engine \<Rightarrow> ThreadId \<Rightarrow> 'd FImpl \<Rightarrow> 's BridgeWorld \<Rightarrow> FResult + byte list" where
  "copy_report en t im w =
     (let access = check_access en t False im; r = the (im_resources im) in
      if \<not> is_ok access then Inl access
      else if rn_udp r \<noteq> None
      then copy_text (\<lambda>b n. rl_udp_peer_copy_report t (rn_udp r) b n True (bw_sessions w) (bw_peers w))
             ''rl_udp_peer_copy_report''
      else copy_text (\<lambda>b n. rl_live_copy_report t (rn_driver r) b n True (bw_lives w)) ''rl_live_copy_report'')"

definition copy_failure :: "('s, 'd) Engine \<Rightarrow> ThreadId \<Rightarrow> 'd FImpl \<Rightarrow> 's BridgeWorld \<Rightarrow> FResult + byte list" where
  "copy_failure en t im w =
     (let access = check_access en t False im; r = the (im_resources im) in
      if \<not> is_ok access then Inl access
      else if rn_udp r = None
      then Inl (bridge_failure EE_InvalidArgument ''UDP status requires a UDP run.'' RL_INVALID_ARGUMENT)
      else copy_text (\<lambda>b n. rl_udp_peer_copy_failure (en_build en) t (rn_udp r) b n True (bw_sessions w) (bw_peers w))
             ''rl_udp_peer_copy_failure'')"

definition copy_trace :: "('s, 'd) Engine \<Rightarrow> ThreadId \<Rightarrow> 'd FImpl \<Rightarrow> 's BridgeWorld \<Rightarrow> FResult + byte list" where
  "copy_trace en t im w =
     (let access = check_access en t False im; r = the (im_resources im) in
      if \<not> is_ok access then Inl access
      else if rn_udp r \<noteq> None then copy_failure en t im w
      else copy_text (\<lambda>b n. rl_live_copy_trace t (rn_driver r) b n True (bw_lives w)) ''rl_live_copy_trace'')"

definition copy_replay :: "('s, 'd) Engine \<Rightarrow> ThreadId \<Rightarrow> 'd FImpl \<Rightarrow> 's BridgeWorld \<Rightarrow> FResult + byte list" where
  "copy_replay en t im w =
     (let access = check_access en t False im; r = the (im_resources im);
          udp = (rn_udp r \<noteq> None);
          operation = (if udp then ''rl_udp_peer_copy_replay'' else ''rl_live_copy_replay'');
          copy = (\<lambda>b n. if udp then rl_udp_peer_copy_replay t (rn_udp r) b n True (bw_sessions w) (bw_peers w)
                         else rl_live_copy_replay t (rn_driver r) b n True (bw_lives w))
      in if \<not> is_ok access then Inl access
         else
           (let (status, written, _) = copy False 0; required = (case written of None \<Rightarrow> 0 | Some n \<Rightarrow> n) in
            if status \<noteq> RL_BUFFER_TOO_SMALL
            then Inl (sdk_result (if status = RL_OK then RL_INTERNAL_FAILURE else status) operation)
            else if required = 0 \<or> required > kMaximumArtifactBytes
            then Inl (bridge_failure EE_SdkFailure ''SDK replay exceeds its bounded buffer contract.'' RL_CAPACITY)
            else
              (let capacity = required; (status, written, bytes) = copy True capacity;
                   required = (case written of None \<Rightarrow> required | Some n \<Rightarrow> n);
                   bytes = (case bytes of None \<Rightarrow> [] | Some bs \<Rightarrow> bs)
               in if status \<noteq> RL_OK then Inl (sdk_result status operation)
                  else if required = 0 \<or> required > capacity
                  then Inl (bridge_failure EE_SdkFailure ''SDK replay returned an invalid byte count.''
                              RL_INTERNAL_FAILURE)
                  else Inr (take (unat required) bytes))))"

end
