(* ===== verification/Arena.thy ===== *)
theory Arena
  imports BridgeRuntime
begin

text \<open>
  The settings of the Unreal Engine demo: \<open>RollbackArenaModel.h\<close>, \<open>RollbackArenaModel.cpp\<close> under
  \<open>examples/ue5/RollbackArena/Source/RollbackArenaDemo\<close>. The model borrows a runtime, so its operations take the runtime's
  state with their own.
\<close>

datatype EMode = EM_AutoDemo | EM_Interactive | EM_Desync | EM_UdpPeer

record FSettings =
  fs_mode :: EMode
  fs_scenario_seed :: u64
  fs_transport_seed :: u64
  fs_frame_count :: u32
  fs_network_preset :: u32
  fs_local_peer :: u32
  fs_listen_port :: u32
  fs_relay_port :: u32
  fs_udp_variant :: u32
  fs_hello_protocol :: u32
  fs_hello_simulation :: u32
  fs_hello_abi :: u32
  fs_handshake_timeout_ms :: u32
  fs_run_timeout_ms :: u32

definition initial_settings :: FSettings where
  "initial_settings =
     \<lparr>fs_mode = EM_AutoDemo, fs_scenario_seed = 12648430, fs_transport_seed = 5351397, fs_frame_count = 240,
      fs_network_preset = 1, fs_local_peer = RL_PEER_A, fs_listen_port = 0, fs_relay_port = 0,
      fs_udp_variant = RL_VARIANT_CANONICAL, fs_hello_protocol = 0, fs_hello_simulation = 0, fs_hello_abi = 0,
      fs_handshake_timeout_ms = 15000, fs_run_timeout_ms = 15000\<rparr>"

record FModel =
  fm_settings :: FSettings
  fm_options :: FStartOptions
  fm_has_settings :: bool

definition invalid_settings :: "string \<Rightarrow> FResult" where
  "invalid_settings message =
     \<lparr>re_error = EE_InvalidArgument, re_sdk_status = RL_INVALID_ARGUMENT, re_message = message\<rparr>"

definition not_started :: FResult where
  "not_started =
     \<lparr>re_error = EE_NotRunning, re_sdk_status = RL_INVALID_FRAME,
      re_message = ''Start a validated arena scenario before controlling it.''\<rparr>"

text \<open>The \<open>switch\<close> over the network presets; another number leaves the defaults of the options.\<close>

definition apply_preset :: "u32 \<Rightarrow> rl_live_config \<Rightarrow> rl_live_config" where
  "apply_preset preset c =
     (if preset = 0
      then c\<lparr>lf_base_latency_ticks := 0, lf_jitter_ticks := 0, lf_loss_percent := 0, lf_reorder_percent := 0,
             lf_duplicate_percent := 0, lf_burst_loss_percent := 0\<rparr>
      else if preset = 1
      then c\<lparr>lf_base_latency_ticks := 5, lf_jitter_ticks := 3, lf_loss_percent := 5, lf_reorder_percent := 10,
             lf_duplicate_percent := 5, lf_burst_loss_percent := 1\<rparr>
      else if preset = 2
      then c\<lparr>lf_base_latency_ticks := 12, lf_jitter_ticks := 6, lf_loss_percent := 20, lf_reorder_percent := 20,
             lf_duplicate_percent := 10, lf_burst_loss_percent := 3\<rparr>
      else c)"

definition make_options :: "FSettings \<Rightarrow> FStartOptions" where
  "make_options s =
     (let scenario = apply_preset (fs_network_preset s)
            ((fo_scenario default_start_options)
               \<lparr>lf_scenario_seed := fs_scenario_seed s, lf_transport_seed := fs_transport_seed s,
                lf_frame_count := fs_frame_count s, lf_max_queue_packets := 4096, lf_max_queue_bytes := 4194304,
                lf_bandwidth_bytes_per_tick := 1048576, lf_max_packet_age_ticks := 600,
                lf_tail_redundancy_ticks := 64\<rparr>);
          options = default_start_options
            \<lparr>fo_scenario := scenario,
             fo_peer_b_variant := (if fs_mode s = EM_Desync then RL_VARIANT_DAMAGE_BIAS else RL_VARIANT_CANONICAL)\<rparr>
      in if fs_mode s = EM_UdpPeer
         then options
           \<lparr>fo_is_udp := True, fo_local_peer := fs_local_peer s, fo_udp_variant := fs_udp_variant s,
            fo_udp := (fo_udp options)
              \<lparr>uf_scenario_seed := fs_scenario_seed s, uf_transport_seed := fs_transport_seed s,
               uf_frame_count := fs_frame_count s, uf_listen_port := fs_listen_port s,
               uf_relay_port := fs_relay_port s, uf_handshake_timeout_ms := fs_handshake_timeout_ms s,
               uf_run_timeout_ms := fs_run_timeout_ms s, uf_advertised_protocol_version := fs_hello_protocol s,
               uf_advertised_simulation_version := fs_hello_simulation s,
               uf_advertised_abi_profile_version := fs_hello_abi s\<rparr>\<rparr>
         else options)"

definition new_model :: FModel where
  "new_model = \<lparr>fm_settings = initial_settings, fm_options = make_options initial_settings, fm_has_settings = False\<rparr>"

definition default_settings :: "EMode \<Rightarrow> FSettings" where
  "default_settings mode =
     (let s = initial_settings\<lparr>fs_mode := mode\<rparr>;
          s = (if mode = EM_Interactive then s\<lparr>fs_frame_count := 36000\<rparr> else s);
          s = (if mode = EM_Desync then s\<lparr>fs_scenario_seed := 1\<rparr> else s)
      in if mode = EM_UdpPeer then s\<lparr>fs_transport_seed := 0x55445030\<rparr> else s)"

fun mode_name :: "EMode \<Rightarrow> string" where
  "mode_name EM_AutoDemo = ''Auto demo''"
| "mode_name EM_Interactive = ''Interactive''"
| "mode_name EM_Desync = ''Desync''"
| "mode_name EM_UdpPeer = ''UDP peer''"

definition preset_name :: "u32 \<Rightarrow> string" where
  "preset_name preset =
     (if preset = 0 then ''Local'' else if preset = 1 then ''Default'' else if preset = 2 then ''Hostile''
      else ''Unknown'')"

text \<open>
  The checks of \<open>Start\<close>: the message it refuses the settings with. The mode, a \<open>datatype\<close> here, is always one of the four.
\<close>

definition refused_settings :: "FSettings \<Rightarrow> string option" where
  "refused_settings s =
     (if fs_frame_count s = 0 \<or> fs_frame_count s > 36000
      then Some ''Arena frame count must be between 1 and 36000.''
      else if fs_network_preset s > 2 then Some ''Arena network preset must be Local, Default or Hostile.''
      else if fs_mode s = EM_UdpPeer
        \<and> (fs_frame_count s > 240 \<or> fs_local_peer s > RL_PEER_B \<or> fs_udp_variant s > RL_VARIANT_DAMAGE_BIAS
           \<or> fs_listen_port s > 65535 \<or> fs_hello_protocol s > 65535 \<or> fs_relay_port s = 0 \<or> fs_relay_port s > 65535
           \<or> fs_listen_port s \<noteq> 0 \<and> fs_listen_port s = fs_relay_port s
           \<or> fs_handshake_timeout_ms s = 0 \<or> fs_handshake_timeout_ms s > 60000
           \<or> fs_run_timeout_ms s = 0 \<or> fs_run_timeout_ms s > 60000)
      then Some ''UDP peer, ports, timeouts or target exceed the SDK contract.''
      else None)"

definition model_start :: "('s, 'd) Engine \<Rightarrow> ThreadId \<Rightarrow> FSettings \<Rightarrow> FModel \<Rightarrow> 'd FImpl \<Rightarrow> 's BridgeWorld
    \<Rightarrow> (FResult \<times> FModel \<times> 'd FImpl \<times> 's BridgeWorld) option" where
  "model_start en t requested m im w =
     (case refused_settings requested of
        Some message \<Rightarrow> Some (invalid_settings message, m, im, w)
      | None \<Rightarrow>
          (let candidate = make_options requested in
           Option.bind (start en t candidate im w) (\<lambda>(result, im, w).
             Some (result,
                   if is_ok result
                   then m\<lparr>fm_settings := requested, fm_options := candidate, fm_has_settings := True\<rparr> else m,
                   im, w))))"

definition model_reset :: "('s, 'd) Engine \<Rightarrow> ThreadId \<Rightarrow> FModel \<Rightarrow> 'd FImpl \<Rightarrow> 's BridgeWorld
    \<Rightarrow> (FResult \<times> FModel \<times> 'd FImpl \<times> 's BridgeWorld) option" where
  "model_reset en t m im w =
     (if \<not> fm_has_settings m then Some (not_started, m, im, w) else model_start en t (fm_settings m) m im w)"

definition change_preset :: "('s, 'd) Engine \<Rightarrow> ThreadId \<Rightarrow> u32 \<Rightarrow> FModel \<Rightarrow> 'd FImpl \<Rightarrow> 's BridgeWorld
    \<Rightarrow> (FResult \<times> FModel \<times> 'd FImpl \<times> 's BridgeWorld) option" where
  "change_preset en t preset m im w =
     (if preset > 2
      then Some (invalid_settings ''Arena network preset must be Local, Default or Hostile.'', m, im, w)
      else if \<not> fm_has_settings m then Some (not_started, m, im, w)
      else if fs_mode (fm_settings m) = EM_UdpPeer
      then Some (invalid_settings ''UDP transport is configured by its relay, not an in-process preset.'', m, im, w)
      else model_start en t ((fm_settings m)\<lparr>fs_network_preset := preset\<rparr>) m im w)"

definition model_tick :: "('s, 'd) Engine \<Rightarrow> ThreadId \<Rightarrow> 'd \<Rightarrow> u32 \<Rightarrow> FModel \<Rightarrow> 'd FImpl \<Rightarrow> 's BridgeWorld
    \<Rightarrow> FResult \<times> 'd FImpl \<times> 's BridgeWorld" where
  "model_tick en t delta buttons m im w =
     (let interactive = (fs_mode (fm_settings m) = EM_Interactive) in
      if \<not> fm_has_settings m then (not_started, im, w)
      else tick_wall_clock en t delta interactive (if interactive then buttons else 0) im w)"

definition model_step :: "('s, 'd) Engine \<Rightarrow> ThreadId \<Rightarrow> u32 \<Rightarrow> FModel \<Rightarrow> 'd FImpl \<Rightarrow> 's BridgeWorld
    \<Rightarrow> FResult \<times> 'd FImpl \<times> 's BridgeWorld" where
  "model_step en t buttons m im w =
     (let interactive = (fs_mode (fm_settings m) = EM_Interactive) in
      if \<not> fm_has_settings m then (not_started, im, w)
      else single_step en t interactive (if interactive then buttons else 0) im w)"

end
