(* ===== verification/BridgeProof.thy ===== *)
theory BridgeProof
  imports Arena CApiProof
begin

text \<open>
  What the bridge keeps to. The library gives back \<open>RL_BORROWED\<close> or \<open>RL_WRONG_THREAD\<close> to a caller that destroys in
  the wrong order or on the wrong thread, and the owners' destructors end the process on any such status. The invariant
  \<open>owns\<close> says what a runtime holds; with it no destructor's check fails, and every stop gives back exactly what was taken.
\<close>

section \<open>What a runtime owns\<close>

definition unchanged :: "'s BridgeWorld \<Rightarrow> 's BridgeWorld \<Rightarrow> bool" where
  "unchanged w0 w \<longleftrightarrow>
     bw_sessions w = bw_sessions w0 \<and> bw_lives w = bw_lives w0 \<and> bw_peers w = bw_peers w0
   \<and> bw_session_count w = bw_session_count w0 \<and> bw_driver_count w = bw_driver_count w0
   \<and> bw_libraries w = bw_libraries w0"

definition mine :: "FRunResources \<Rightarrow> nat \<Rightarrow> bool" where
  "mine r p \<longleftrightarrow> rn_peer_a r = Some p \<or> rn_peer_b r = Some p"

definition busy :: "FRunResources \<Rightarrow> bool" where
  "busy r \<longleftrightarrow> rn_driver r \<noteq> None \<or> rn_udp r \<noteq> None"

definition held :: "nat option \<Rightarrow> u32" where "held h = (if h = None then 0 else 1)"

definition owns_sessions :: "ThreadId \<Rightarrow> Sessions \<Rightarrow> FRunResources \<Rightarrow> Sessions \<Rightarrow> bool" where
  "owns_sessions t store0 r store \<longleftrightarrow>
     (\<forall>p. if mine r p
          then store0 p = None \<and> (\<exists>s. store p = Some s \<and> rs_owner s = t \<and> (rs_borrowed s \<longleftrightarrow> busy r))
          else store p = store0 p)"

definition owns_driver :: "ThreadId \<Rightarrow> Lives \<Rightarrow> FRunResources \<Rightarrow> Lives \<Rightarrow> bool" where
  "owns_driver t lives0 r lives \<longleftrightarrow>
     (case rn_driver r of
        None \<Rightarrow> lives = lives0
      | Some d \<Rightarrow> lives0 d = None \<and> (\<exists>l. lives = lives0(d \<mapsto> l) \<and> rv_owner l = t
          \<and> rn_peer_a r = Some (rv_a l) \<and> rn_peer_b r = Some (rv_b l)))"

definition owns_udp :: "Peers \<Rightarrow> FRunResources \<Rightarrow> Peers \<Rightarrow> bool" where
  "owns_udp peers0 r peers \<longleftrightarrow>
     (case rn_udp r of
        None \<Rightarrow> peers = peers0
      | Some u \<Rightarrow> peers0 u = None \<and> (\<exists>v. peers = peers0(u \<mapsto> v) \<and> (\<forall>p. mine r p \<longleftrightarrow> p = rp_session v)))"

definition owns :: "ThreadId \<Rightarrow> 's BridgeWorld \<Rightarrow> FRunResources \<Rightarrow> 's BridgeWorld \<Rightarrow> bool" where
  "owns t w0 r w \<longleftrightarrow>
     (rn_peer_a r = None \<or> rn_peer_a r \<noteq> rn_peer_b r) \<and> (rn_driver r = None \<or> rn_udp r = None)
   \<and> owns_sessions t (bw_sessions w0) r (bw_sessions w) \<and> owns_driver t (bw_lives w0) r (bw_lives w)
   \<and> owns_udp (bw_peers w0) r (bw_peers w)
   \<and> bw_session_count w = bw_session_count w0 + held (rn_peer_a r) + held (rn_peer_b r)
   \<and> bw_driver_count w = bw_driver_count w0 + held (rn_driver r) + held (rn_udp r)
   \<and> bw_libraries w = bw_libraries w0 + 1"

lemma ownsD:
  assumes "owns t w0 r w"
  shows "rn_peer_a r = None \<or> rn_peer_a r \<noteq> rn_peer_b r" "rn_driver r = None \<or> rn_udp r = None"
    "owns_sessions t (bw_sessions w0) r (bw_sessions w)" "owns_driver t (bw_lives w0) r (bw_lives w)"
    "owns_udp (bw_peers w0) r (bw_peers w)"
    "bw_session_count w = bw_session_count w0 + held (rn_peer_a r) + held (rn_peer_b r)"
    "bw_driver_count w = bw_driver_count w0 + held (rn_driver r) + held (rn_udp r)"
    "bw_libraries w = bw_libraries w0 + 1"
  using assms by (simp_all add: owns_def)

lemma owned_session:
  "\<lbrakk>owns_sessions t store0 r store; mine r p\<rbrakk>
   \<Longrightarrow> store0 p = None \<and> (\<exists>s. store p = Some s \<and> rs_owner s = t \<and> (rs_borrowed s \<longleftrightarrow> busy r))"
  unfolding owns_sessions_def by metis

lemma held_simps [simp]: "held None = 0" "held (Some h) = 1"
  by (simp_all add: held_def)

section \<open>Giving back\<close>

lemma destroy_udp_owns:
  assumes o: "owns t w0 r w"
  shows "\<exists>w'. destroy_udp en t (rn_udp r) w = Some w' \<and> owns t w0 (r\<lparr>rn_udp := None\<rparr>) w'"
proof (cases "rn_udp r")
  case None
  then have "r\<lparr>rn_udp := None\<rparr> = r" by (cases r) simp
  then show ?thesis using o unfolding destroy_udp_def None by simp
next
  case (Some u)
  note D = ownsD [OF o]
  obtain v where v: "bw_peers w0 u = None" "bw_peers w = (bw_peers w0)(u \<mapsto> v)" "\<And>p. mine r p \<longleftrightarrow> p = rp_session v"
    using D(5) Some by (auto simp: owns_udp_def)
  obtain s where s: "bw_sessions w (rp_session v) = Some s" "rs_owner s = t"
    using owned_session [OF D(3)] v(3) by blast
  have c: "check_peer t (Some v) (bw_sessions w) = RL_OK"
    using s by (simp add: check_peer_def check_session_ok)
  define w' where "w' = w\<lparr>bw_sessions := set_borrowed False (rp_session v) (bw_sessions w), bw_peers := bw_peers w0,
    bw_os := (case pd_socket (rp_native v) of None \<Rightarrow> bw_os w | Some impl \<Rightarrow> os_close (en_host en) (si_socket impl) (bw_os w)),
    bw_driver_count := bw_driver_count w - 1\<rparr>"
  have gone: "(bw_peers w)(u := None) = bw_peers w0" using v by (simp add: fun_upd_idem)
  have "destroy_udp en t (rn_udp r) w = Some w'"
    using Some v(2) c gone by (simp add: destroy_udp_def rl_udp_peer_destroy_def Let_def w'_def)
  moreover have "owns_sessions t (bw_sessions w0) (r\<lparr>rn_udp := None\<rparr>) (bw_sessions w')"
    using D(2,3) Some v(3) by (auto simp: owns_sessions_def mine_def busy_def w'_def set_borrowed_def split: if_splits)
  ultimately show ?thesis
    using D v Some by (auto simp: owns_def owns_driver_def owns_udp_def w'_def)
qed

lemma destroy_driver_owns:
  assumes o: "owns t w0 r w"
  shows "\<exists>w'. destroy_driver t (rn_driver r) w = Some w' \<and> owns t w0 (r\<lparr>rn_driver := None\<rparr>) w'"
proof (cases "rn_driver r")
  case None
  then have "r\<lparr>rn_driver := None\<rparr> = r" by (cases r) simp
  then show ?thesis using o unfolding destroy_driver_def None by simp
next
  case (Some d)
  note D = ownsD [OF o]
  obtain l where l: "bw_lives w0 d = None" "bw_lives w = (bw_lives w0)(d \<mapsto> l)" "rv_owner l = t"
    "rn_peer_a r = Some (rv_a l)" "rn_peer_b r = Some (rv_b l)"
    using D(4) Some by (auto simp: owns_driver_def)
  have c: "check_live t (Some l) = RL_OK" using l(3) by (simp add: check_live_ok)
  define w' where "w' = w\<lparr>bw_sessions := set_borrowed False (rv_b l) (set_borrowed False (rv_a l) (bw_sessions w)),
    bw_lives := bw_lives w0, bw_driver_count := bw_driver_count w - 1\<rparr>"
  have gone: "(bw_lives w)(d := None) = bw_lives w0" using l by (simp add: fun_upd_idem)
  have "destroy_driver t (rn_driver r) w = Some w'"
    using Some l(2) c gone by (simp add: destroy_driver_def rl_live_destroy_def Let_def w'_def)
  moreover have "owns_sessions t (bw_sessions w0) (r\<lparr>rn_driver := None\<rparr>) (bw_sessions w')"
    using D(2,3) Some l(4,5)
    by (auto simp: owns_sessions_def mine_def busy_def w'_def set_borrowed_mark mark_def split: if_splits)
  ultimately show ?thesis
    using D l Some by (auto simp: owns_def owns_driver_def owns_udp_def mine_def w'_def)
qed

text \<open>Without a driver the sessions can be destroyed, in either order.\<close>

lemma destroy_owned_session:
  assumes o: "owns t w0 r w" and free: "\<not> busy r" and h: "handle = None \<or> mine r (the handle)"
  shows "\<exists>w'. destroy_session t handle w = Some w' \<and> bw_lives w' = bw_lives w \<and> bw_peers w' = bw_peers w
    \<and> bw_driver_count w' = bw_driver_count w \<and> bw_libraries w' = bw_libraries w
    \<and> bw_session_count w' = bw_session_count w - held handle
    \<and> bw_sessions w' = (case handle of None \<Rightarrow> bw_sessions w | Some p \<Rightarrow> (bw_sessions w)(p := None))"
proof (cases handle)
  case None
  then show ?thesis by (simp add: destroy_session_def)
next
  case (Some p)
  with h have "mine r p" by simp
  with owned_session [OF ownsD(3) [OF o]] free have "check_session t (bw_sessions w p) True = RL_OK"
    by (auto simp: check_session_ok)
  with Some show ?thesis by (simp add: destroy_session_def rl_session_destroy_def)
qed

lemma destroy_peer_b_owns:
  assumes o: "owns t w0 r w" and free: "\<not> busy r"
  shows "\<exists>w'. destroy_session t (rn_peer_b r) w = Some w' \<and> owns t w0 (r\<lparr>rn_peer_b := None\<rparr>) w'"
proof -
  note D = ownsD [OF o]
  have h: "rn_peer_b r = None \<or> mine r (the (rn_peer_b r))" by (cases "rn_peer_b r") (simp_all add: mine_def)
  obtain w' where w': "destroy_session t (rn_peer_b r) w = Some w'" "bw_lives w' = bw_lives w" "bw_peers w' = bw_peers w"
    "bw_driver_count w' = bw_driver_count w" "bw_libraries w' = bw_libraries w"
    "bw_session_count w' = bw_session_count w - held (rn_peer_b r)"
    "bw_sessions w' = (case rn_peer_b r of None \<Rightarrow> bw_sessions w | Some p \<Rightarrow> (bw_sessions w)(p := None))"
    using destroy_owned_session [OF o free h] by blast
  have "owns_sessions t (bw_sessions w0) (r\<lparr>rn_peer_b := None\<rparr>) (bw_sessions w')"
    unfolding owns_sessions_def
  proof
    fix p
    show "if mine (r\<lparr>rn_peer_b := None\<rparr>) p
      then bw_sessions w0 p = None \<and> (\<exists>s. bw_sessions w' p = Some s \<and> rs_owner s = t
        \<and> (rs_borrowed s \<longleftrightarrow> busy (r\<lparr>rn_peer_b := None\<rparr>)))
      else bw_sessions w' p = bw_sessions w0 p"
      using D(1) D(3) [unfolded owns_sessions_def, THEN spec, of p] free
      by (cases "rn_peer_b r") (auto simp: mine_def busy_def w'(7) split: if_splits)
  qed
  moreover have "rn_driver r = None" "rn_udp r = None" using free by (simp_all add: busy_def)
  ultimately have "owns t w0 (r\<lparr>rn_peer_b := None\<rparr>) w'"
    using D(4-8) w'(2-6) by (cases "rn_peer_a r") (simp_all add: owns_def owns_driver_def owns_udp_def)
  with w'(1) show ?thesis by blast
qed

lemma destroy_peer_a_owns:
  assumes o: "owns t w0 r w" and free: "\<not> busy r"
  shows "\<exists>w'. destroy_session t (rn_peer_a r) w = Some w' \<and> owns t w0 (r\<lparr>rn_peer_a := None\<rparr>) w'"
proof -
  note D = ownsD [OF o]
  have h: "rn_peer_a r = None \<or> mine r (the (rn_peer_a r))" by (cases "rn_peer_a r") (simp_all add: mine_def)
  obtain w' where w': "destroy_session t (rn_peer_a r) w = Some w'" "bw_lives w' = bw_lives w" "bw_peers w' = bw_peers w"
    "bw_driver_count w' = bw_driver_count w" "bw_libraries w' = bw_libraries w"
    "bw_session_count w' = bw_session_count w - held (rn_peer_a r)"
    "bw_sessions w' = (case rn_peer_a r of None \<Rightarrow> bw_sessions w | Some p \<Rightarrow> (bw_sessions w)(p := None))"
    using destroy_owned_session [OF o free h] by blast
  have "owns_sessions t (bw_sessions w0) (r\<lparr>rn_peer_a := None\<rparr>) (bw_sessions w')"
    unfolding owns_sessions_def
  proof
    fix p
    show "if mine (r\<lparr>rn_peer_a := None\<rparr>) p
      then bw_sessions w0 p = None \<and> (\<exists>s. bw_sessions w' p = Some s \<and> rs_owner s = t
        \<and> (rs_borrowed s \<longleftrightarrow> busy (r\<lparr>rn_peer_a := None\<rparr>)))
      else bw_sessions w' p = bw_sessions w0 p"
      using D(1) D(3) [unfolded owns_sessions_def, THEN spec, of p] free
      by (cases "rn_peer_a r") (auto simp: mine_def busy_def w'(7) split: if_splits)
  qed
  moreover have "rn_driver r = None" "rn_udp r = None" using free by (simp_all add: busy_def)
  ultimately have "owns t w0 (r\<lparr>rn_peer_a := None\<rparr>) w'"
    using D(4-8) w'(2-6) by (cases "rn_peer_a r") (simp_all add: owns_def owns_driver_def owns_udp_def)
  with w'(1) show ?thesis by blast
qed

lemma destroy_resources_owns:
  assumes o: "owns t w0 r w"
  shows "\<exists>w'. destroy_resources en t r w = Some w' \<and> unchanged w0 w'"
proof -
  let ?r1 = "r\<lparr>rn_udp := None\<rparr>"
  let ?r2 = "?r1\<lparr>rn_driver := None\<rparr>"
  let ?r3 = "?r2\<lparr>rn_peer_b := None\<rparr>"
  let ?r4 = "?r3\<lparr>rn_peer_a := None\<rparr>"
  from destroy_udp_owns [OF o] obtain w1 where 1: "destroy_udp en t (rn_udp r) w = Some w1" "owns t w0 ?r1 w1" by blast
  from destroy_driver_owns [OF 1(2)] obtain w2 where
    2: "destroy_driver t (rn_driver r) w1 = Some w2" "owns t w0 ?r2 w2" by auto
  from destroy_peer_b_owns [OF 2(2)] obtain w3 where
    3: "destroy_session t (rn_peer_b r) w2 = Some w3" "owns t w0 ?r3 w3" by (auto simp: busy_def)
  from destroy_peer_a_owns [OF 3(2)] obtain w4 where
    4: "destroy_session t (rn_peer_a r) w3 = Some w4" "owns t w0 ?r4 w4" by (auto simp: busy_def)
  have "unchanged w0 (w4\<lparr>bw_os := os, bw_libraries := bw_libraries w4 - 1\<rparr>)" for os
    using ownsD [OF 4(2)] by (simp add: unchanged_def owns_driver_def owns_udp_def owns_sessions_def mine_def fun_eq_iff)
  with 1 2 3 4 show ?thesis by (simp add: destroy_resources_def)
qed

section \<open>Taking\<close>

text \<open>What the allocator promises: an address that holds no object of its kind yet.\<close>

definition allocates :: "('s, 'd) Engine \<Rightarrow> bool" where
  "allocates en \<longleftrightarrow>
     (\<forall>store. finite (dom store) \<longrightarrow> store (en_new_session en store) = None)
   \<and> (\<forall>lives. finite (dom lives) \<longrightarrow> lives (en_new_live en lives) = None)
   \<and> (\<forall>peers. finite (dom peers) \<longrightarrow> peers (en_new_peer en peers) = None)"

definition finite_world :: "'s BridgeWorld \<Rightarrow> bool" where
  "finite_world w \<longleftrightarrow> finite (dom (bw_sessions w)) \<and> finite (dom (bw_lives w)) \<and> finite (dom (bw_peers w))"

lemma finite_mine: "finite {p. mine r p}"
proof -
  have "{p. mine r p} = set_option (rn_peer_a r) \<union> set_option (rn_peer_b r)" by (auto simp: mine_def)
  then show ?thesis by simp
qed

lemma owns_finite:
  assumes "owns t w0 r w" "finite_world w0"
  shows "finite_world w"
proof -
  note D = ownsD [OF assms(1)]
  have "dom (bw_sessions w) \<subseteq> dom (bw_sessions w0) \<union> {p. mine r p}"
    using D(3) by (auto simp: owns_sessions_def split: if_splits)
  then have "finite (dom (bw_sessions w))"
    using assms(2) finite_mine finite_subset by (fastforce simp: finite_world_def)
  then show ?thesis
    using D(4,5) assms(2) by (auto simp: finite_world_def owns_driver_def owns_udp_def split: option.splits)
qed

lemma owns_more_sessions:
  assumes o: "owns_sessions t store0 r store" and free: "\<not> busy r" "\<not> busy r'" and new: "store p = None"
    and s: "rs_owner s = t" "\<not> rs_borrowed s" and m: "\<And>q. mine r' q \<longleftrightarrow> q = p \<or> mine r q"
  shows "owns_sessions t store0 r' (store(p \<mapsto> s))"
  unfolding owns_sessions_def
proof
  fix q
  show "if mine r' q
    then store0 q = None \<and> (\<exists>s'. (store(p \<mapsto> s)) q = Some s' \<and> rs_owner s' = t \<and> (rs_borrowed s' \<longleftrightarrow> busy r'))
    else (store(p \<mapsto> s)) q = store0 q"
    using o [unfolded owns_sessions_def, THEN spec, of q] free new s m
    by (cases "q = p"; cases "mine r q") auto
qed

lemma owns_peer_a:
  assumes o: "owns t w0 r w" and free: "\<not> busy r" "rn_peer_a r = None" "bw_sessions w p = None"
    and s: "rs_owner s = t" "\<not> rs_borrowed s"
  shows "owns t w0 (r\<lparr>rn_peer_a := Some p\<rparr>)
    (w\<lparr>bw_sessions := (bw_sessions w)(p \<mapsto> s), bw_session_count := bw_session_count w + 1\<rparr>)"
proof -
  note D = ownsD [OF o]
  have d: "rn_driver r = None" "rn_udp r = None" using free(1) by (simp_all add: busy_def)
  have "owns_sessions t (bw_sessions w0) (r\<lparr>rn_peer_a := Some p\<rparr>) ((bw_sessions w)(p \<mapsto> s))"
    using free by (intro owns_more_sessions [OF D(3) free(1) _ free(3) s]) (auto simp: busy_def mine_def)
  moreover have "rn_peer_b r \<noteq> Some p" using owned_session [OF D(3), of p] free(3) by (auto simp: mine_def)
  ultimately show ?thesis using D(4-8) d free(2) by (simp add: owns_def owns_driver_def owns_udp_def)
qed

lemma owns_peer_b:
  assumes o: "owns t w0 r w" and free: "\<not> busy r" "rn_peer_b r = None" "bw_sessions w p = None"
    and s: "rs_owner s = t" "\<not> rs_borrowed s"
  shows "owns t w0 (r\<lparr>rn_peer_b := Some p\<rparr>)
    (w\<lparr>bw_sessions := (bw_sessions w)(p \<mapsto> s), bw_session_count := bw_session_count w + 1\<rparr>)"
proof -
  note D = ownsD [OF o]
  have d: "rn_driver r = None" "rn_udp r = None" using free(1) by (simp_all add: busy_def)
  have "owns_sessions t (bw_sessions w0) (r\<lparr>rn_peer_b := Some p\<rparr>) ((bw_sessions w)(p \<mapsto> s))"
    using free by (intro owns_more_sessions [OF D(3) free(1) _ free(3) s]) (auto simp: busy_def mine_def)
  moreover have "rn_peer_a r \<noteq> Some p" using owned_session [OF D(3), of p] free(3) by (auto simp: mine_def)
  ultimately show ?thesis using D(4-8) d free(2) by (simp add: owns_def owns_driver_def owns_udp_def)
qed

text \<open>One turn of the loop over the peers.\<close>

lemma created_session:
  assumes r: "rl_session_create t p (Some c) True store = (status, out, store')"
  obtains "status \<noteq> RL_OK" "out = Some None" "store' = store"
    | s where "status = RL_OK" "out = Some (Some p)" "store' = store(p \<mapsto> s)" "rs_owner s = t" "\<not> rs_borrowed s"
      "\<not> rs_touched s" "rs_local_peer s = sf_local_peer c" "rs_native s = make_session (native_session_config c)"
  using assms by (auto simp: rl_session_create_def Let_def rl_codes split: if_splits)

lemma create_peer_cases:
  assumes c: "create_peer en t options peer w = (e, h, w')"
  obtains "h = None" "w' = w" "e = None \<Longrightarrow> fo_is_udp options \<and> peer \<noteq> fo_local_peer options"
    | p s where "h = Some p" "e = None" "p = en_new_session en (bw_sessions w)"
      "w' = w\<lparr>bw_sessions := (bw_sessions w)(p \<mapsto> s), bw_session_count := bw_session_count w + 1\<rparr>"
      "rs_owner s = t" "\<not> rs_borrowed s" "\<not> rs_touched s" "rs_local_peer s = peer"
      "rs_native s = make_session (native_session_config (peer_session_config options peer))"
      "fo_is_udp options \<Longrightarrow> peer = fo_local_peer options"
proof (cases "fo_is_udp options \<and> peer \<noteq> fo_local_peer options")
  case True
  with c that(1) show thesis by (simp add: create_peer_def)
next
  case False
  obtain status out store' where r: "rl_session_create t (en_new_session en (bw_sessions w))
      (Some (peer_session_config options peer)) True (bw_sessions w) = (status, out, store')" by (metis prod.exhaust)
  from r show thesis
  proof (cases rule: created_session)
    case 1
    with c r False have "h = None" "w' = w" "e \<noteq> None" by (auto simp: create_peer_def)
    then show thesis using that(1) by blast
  next
    case (2 s)
    have "sf_local_peer (peer_session_config options peer) = peer" by (simp add: peer_session_config_def)
    with 2 c r False have "h = Some (en_new_session en (bw_sessions w))" "e = None" "rs_local_peer s = peer"
      "w' = w\<lparr>bw_sessions := (bw_sessions w)(en_new_session en (bw_sessions w) \<mapsto> s),
              bw_session_count := bw_session_count w + 1\<rparr>"
      by (auto simp: create_peer_def)
    with 2 False show thesis using that(2) by blast
  qed
qed

lemma create_peer_a_owns:
  assumes o: "owns t w0 r w" and free: "\<not> busy r" "rn_peer_a r = None" and en: "allocates en" "finite_world w0"
    and c: "create_peer en t options peer w = (e, h, w')"
  shows "owns t w0 (r\<lparr>rn_peer_a := h\<rparr>) w'"
  using c
proof (cases rule: create_peer_cases)
  case 1
  have "r\<lparr>rn_peer_a := None\<rparr> = r" using free(2) by (cases r) simp
  with 1 o show ?thesis by simp
next
  case (2 p s)
  have "bw_sessions w p = None"
    using 2(3) en(1) owns_finite [OF o en(2)] by (simp add: allocates_def finite_world_def)
  from owns_peer_a [OF o free this 2(5,6)] 2(1,4) show ?thesis by simp
qed

lemma create_peer_b_owns:
  assumes o: "owns t w0 r w" and free: "\<not> busy r" "rn_peer_b r = None" and en: "allocates en" "finite_world w0"
    and c: "create_peer en t options peer w = (e, h, w')"
  shows "owns t w0 (r\<lparr>rn_peer_b := h\<rparr>) w'"
  using c
proof (cases rule: create_peer_cases)
  case 1
  have "r\<lparr>rn_peer_b := None\<rparr> = r" using free(2) by (cases r) simp
  with 1 o show ?thesis by simp
next
  case (2 p s)
  have "bw_sessions w p = None"
    using 2(3) en(1) owns_finite [OF o en(2)] by (simp add: allocates_def finite_world_def)
  from owns_peer_b [OF o free this 2(5,6)] 2(1,4) show ?thesis by simp
qed

definition local_session :: "FStartOptions \<Rightarrow> FRunResources \<Rightarrow> nat option" where
  "local_session options r = (if fo_local_peer options = 0 then rn_peer_a r else rn_peer_b r)"

lemma create_peers_owns:
  assumes o: "owns t w0 r w" and free: "\<not> busy r" "rn_peer_a r = None" "rn_peer_b r = None"
    and en: "allocates en" "finite_world w0" and c: "create_peers en t options r w = (e, r', w')"
  shows "owns t w0 r' w' \<and> \<not> busy r'"
proof -
  obtain e1 a w1 where 1: "create_peer en t options 0 w = (e1, a, w1)" by (metis prod.exhaust)
  obtain e2 b w2 where 2: "create_peer en t options 1 w1 = (e2, b, w2)" by (metis prod.exhaust)
  have o1: "owns t w0 (r\<lparr>rn_peer_a := a\<rparr>) w1" by (rule create_peer_a_owns [OF o free(1,2) en 1])
  have "owns t w0 (r\<lparr>rn_peer_a := a, rn_peer_b := b\<rparr>) w2"
    using free by (intro create_peer_b_owns [OF o1 _ _ en 2]) (simp_all add: busy_def)
  with o1 c 1 2 free(1) show ?thesis by (auto simp: create_peers_def busy_def split: option.splits)
qed

lemma created_local:
  assumes c: "create_peers en t options r w = (None, r', w')" and free: "rn_peer_a r = None" "rn_peer_b r = None"
    and udp: "fo_is_udp options"
  shows "mine r' p \<longleftrightarrow> local_session options r' = Some p"
proof -
  obtain e1 a w1 where 1: "create_peer en t options 0 w = (e1, a, w1)" by (metis prod.exhaust)
  obtain e2 b w2 where 2: "create_peer en t options 1 w1 = (e2, b, w2)" by (metis prod.exhaust)
  have r': "r' = r\<lparr>rn_peer_a := a, rn_peer_b := b\<rparr>" using c 1 2 by (auto simp: create_peers_def split: option.splits)
  have "a = None \<or> fo_local_peer options = 0" using 1 udp by (cases rule: create_peer_cases) auto
  moreover have "b = None \<or> fo_local_peer options = 1" using 2 udp by (cases rule: create_peer_cases) auto
  ultimately show ?thesis by (auto simp: local_session_def mine_def r')
qed

lemma created_udp:
  assumes r: "rl_udp_peer_create os t addr (Some c) session True store peers w = ((status, out, store', peers'), w')"
  obtains "out = Some None" "store' = store" "peers' = peers"
    | p v where "status = RL_OK" "out = Some (Some addr)" "session = Some p" "store' = set_borrowed True p store"
      "peers' = peers(addr \<mapsto> v)" "rp_session v = p"
proof (cases "out = Some None")
  case True
  with r that(1) show thesis by (auto simp: rl_udp_peer_create_def Let_def split: if_splits sum.splits prod.splits)
next
  case False
  with r have "check_session t (lookup_ptr session store) True = RL_OK"
    by (auto simp: rl_udp_peer_create_def Let_def first_failure_ok split: if_splits)
  then obtain p where p: "session = Some p" by (auto simp: check_session_ok lookup_ptr_Some)
  obtain native where "status = RL_OK \<and> out = Some (Some addr) \<and> store' = set_borrowed True p store
      \<and> peers' = peers(addr \<mapsto> \<lparr>rp_session = p, rp_native = native, rp_failure = RL_OK,
                                rp_observation = initial_observation\<rparr>)"
    using p False r by (auto simp: rl_udp_peer_create_def Let_def split: if_splits sum.splits prod.splits)
  with p that(2) show thesis by (metis rl_udp_peer.select_convs(1))
qed

lemma created_live:
  assumes r: "rl_live_create build t addr (Some c) x y True store lives = (status, out, store', lives')"
  obtains "out = Some None" "store' = store" "lives' = lives"
    | v where "status = RL_OK" "out = Some (Some addr)" "x = Some (rv_a v)" "y = Some (rv_b v)" "rv_owner v = t"
      "store' = set_borrowed True (rv_b v) (set_borrowed True (rv_a v) store)" "lives' = lives(addr \<mapsto> v)"
proof (cases "out = Some None")
  case True
  with r that(1) show thesis by (auto simp: rl_live_create_def Let_def split: if_splits sum.splits)
next
  case False
  with r have "check_session t (lookup_ptr x store) True = RL_OK" "check_session t (lookup_ptr y store) True = RL_OK"
    by (auto simp: rl_live_create_def Let_def first_failure_ok split: if_splits)
  then obtain p q where p: "x = Some p" "y = Some q" by (auto simp: check_session_ok lookup_ptr_Some)
  obtain native where "status = RL_OK \<and> out = Some (Some addr) \<and> store' = set_borrowed True q (set_borrowed True p store)
      \<and> lives' = lives(addr \<mapsto> \<lparr>rv_a = p, rv_b = q, rv_native = native, rv_owner = t,
                               rv_finished = False, rv_failure = RL_OK\<rparr>)"
    using p False r by (auto simp: rl_live_create_def Let_def split: if_splits sum.splits)
  with p that(2) show thesis by (metis rl_live.select_convs(1,2,4))
qed

text \<open>What was created is a driver that borrows every session the resources hold.\<close>

lemma owns_borrowed:
  assumes o: "owns_sessions t store0 r store" and free: "\<not> busy r" and busy: "busy r'"
    and same: "\<And>q. mine r' q \<longleftrightarrow> mine r q"
    and store': "\<And>q. store' q = (if mine r q then map_option (\<lambda>s. s\<lparr>rs_borrowed := True\<rparr>) (store q) else store q)"
  shows "owns_sessions t store0 r' store'"
  unfolding owns_sessions_def
proof
  fix q
  show "if mine r' q
    then store0 q = None \<and> (\<exists>s. store' q = Some s \<and> rs_owner s = t \<and> (rs_borrowed s \<longleftrightarrow> busy r'))
    else store' q = store0 q"
    using o [unfolded owns_sessions_def, THEN spec, of q] busy store' same by (cases "mine r q") auto
qed

lemma open_udp_owns:
  assumes o: "owns t w0 r w" and free: "\<not> busy r" and m: "\<And>p. mine r p \<longleftrightarrow> session = Some p"
    and en: "allocates en" "finite_world w0" and c: "open_udp en t options session w = (e, h, w')"
  shows "owns t w0 (r\<lparr>rn_udp := h\<rparr>) w'"
proof -
  note D = ownsD [OF o]
  have n: "rn_driver r = None" "rn_udp r = None" using free by (simp_all add: busy_def)
  have fresh: "bw_peers w (en_new_peer en (bw_peers w)) = None"
    using en(1) owns_finite [OF o en(2)] by (simp add: allocates_def finite_world_def)
  obtain status out store' peers' os' where r: "rl_udp_peer_create (en_host en) t (en_new_peer en (bw_peers w))
      (Some (fo_udp options)) session True (bw_sessions w) (bw_peers w) (bw_os w) = ((status, out, store', peers'), os')"
    by (metis prod.exhaust)
  have w': "w' = w\<lparr>bw_sessions := store', bw_peers := peers', bw_os := os',
      bw_driver_count := bw_driver_count w + held h\<rparr>" "h = Option.bind out (\<lambda>h. h)"
    using c r by (auto simp: open_udp_def held_def Let_def split: if_splits)
  from r show ?thesis
  proof (cases rule: created_udp)
    case 1
    then have h: "h = None" "w' = w\<lparr>bw_os := os'\<rparr>" using w' by simp_all
    have "r\<lparr>rn_udp := None\<rparr> = r" using n by (cases r) simp
    with D h show ?thesis by (simp add: owns_def)
  next
    case (2 p v)
    have h: "h = Some (en_new_peer en (bw_peers w))" using w'(2) 2(2) by simp
    have "owns_sessions t (bw_sessions w0) (r\<lparr>rn_udp := h\<rparr>) store'"
      using m 2(3,4) by (intro owns_borrowed [OF D(3) free]) (auto simp: busy_def h mine_def set_borrowed_def)
    moreover have "\<forall>q. mine (r\<lparr>rn_udp := h\<rparr>) q \<longleftrightarrow> q = rp_session v" using m 2(3,6) by (auto simp: mine_def)
    then have "owns_udp (bw_peers w0) (r\<lparr>rn_udp := h\<rparr>) peers'"
      using D(5) n fresh 2(5) unfolding h by (auto simp: owns_udp_def)
    ultimately show ?thesis using D n unfolding w'(1) by (simp add: owns_def owns_driver_def h)
  qed
qed

lemma open_live_owns:
  assumes o: "owns t w0 r w" and free: "\<not> busy r"
    and en: "allocates en" "finite_world w0"
    and c: "open_live en t options (rn_peer_a r) (rn_peer_b r) w = (e, h, w')"
  shows "owns t w0 (r\<lparr>rn_driver := h\<rparr>) w'"
proof (cases "rn_peer_a r = rn_peer_b r")
  case True
  have "r\<lparr>rn_driver := None\<rparr> = r" using free by (cases r) (simp add: busy_def)
  with True c o show ?thesis by (simp add: open_live_def)
next
  case False
  note D = ownsD [OF o]
  have n: "rn_driver r = None" "rn_udp r = None" using free by (simp_all add: busy_def)
  have fresh: "bw_lives w (en_new_live en (bw_lives w)) = None"
    using en(1) owns_finite [OF o en(2)] by (simp add: allocates_def finite_world_def)
  obtain status out store' lives' where r: "rl_live_create (en_build en) t (en_new_live en (bw_lives w))
      (Some (fo_scenario options)) (rn_peer_a r) (rn_peer_b r) True (bw_sessions w) (bw_lives w)
      = (status, out, store', lives')"
    by (metis prod.exhaust)
  have w': "w' = w\<lparr>bw_sessions := store', bw_lives := lives', bw_driver_count := bw_driver_count w + held h\<rparr>"
    "h = Option.bind out (\<lambda>h. h)"
    using c r False by (auto simp: open_live_def held_def Let_def split: if_splits)
  from r show ?thesis
  proof (cases rule: created_live)
    case 1
    then have h: "h = None" "w' = w" using w' by simp_all
    have "r\<lparr>rn_driver := None\<rparr> = r" using n by (cases r) simp
    with o h show ?thesis by simp
  next
    case (2 v)
    have h: "h = Some (en_new_live en (bw_lives w))" using w'(2) 2(2) by simp
    have "owns_sessions t (bw_sessions w0) (r\<lparr>rn_driver := h\<rparr>) store'"
      using 2(3,4,6) False
      by (intro owns_borrowed [OF D(3) free]) (auto simp: busy_def h mine_def set_borrowed_def)
    moreover have "owns_driver t (bw_lives w0) (r\<lparr>rn_driver := h\<rparr>) lives'"
      using D(4) n fresh 2(3-5,7) unfolding h by (auto simp: owns_driver_def)
    ultimately show ?thesis using D n unfolding w'(1) by (simp add: owns_def owns_udp_def h)
  qed
qed

lemma open_driver_owns:
  assumes o: "owns t w0 r w" and free: "\<not> busy r"
    and m: "\<And>p. fo_is_udp options \<Longrightarrow> mine r p \<longleftrightarrow> local_session options r = Some p"
    and en: "allocates en" "finite_world w0" and c: "open_driver en t options r w = (e, r', w')"
  shows "owns t w0 r' w'"
proof (cases "fo_is_udp options")
  case True
  obtain e1 h w1 where 1: "open_udp en t options (local_session options r) w = (e1, h, w1)" by (metis prod.exhaust)
  with True c have "r' = r\<lparr>rn_udp := h\<rparr>" "w' = w1" by (simp_all add: open_driver_def local_session_def)
  with open_udp_owns [OF o free m [OF True] en 1] show ?thesis by simp
next
  case False
  obtain e1 h w1 where 1: "open_live en t options (rn_peer_a r) (rn_peer_b r) w = (e1, h, w1)" by (metis prod.exhaust)
  with False c have "r' = r\<lparr>rn_driver := h\<rparr>" "w' = w1" by (simp_all add: open_driver_def)
  with open_live_owns [OF o free en 1] show ?thesis by simp
qed

section \<open>The life of a runtime\<close>

definition bridge_inv :: "('s, 'd) Engine \<Rightarrow> 's BridgeWorld \<Rightarrow> 'd FImpl \<Rightarrow> 's BridgeWorld \<Rightarrow> bool" where
  "bridge_inv en w0 im w \<longleftrightarrow>
     im_owner_thread im = en_game_thread en
   \<and> (case im_resources im of None \<Rightarrow> unchanged w0 w | Some r \<Rightarrow> owns (en_game_thread en) w0 r w)"

lemma runtime_stop_inv:
  assumes "bridge_inv en w0 im w"
  shows "\<exists>im' w'. stop en (en_game_thread en) im w = Some (im', w') \<and> im_resources im' = None
    \<and> im_owner_thread im' = en_game_thread en \<and> unchanged w0 w'"
proof (cases "im_resources im")
  case None
  with assms show ?thesis by (simp add: bridge_inv_def stop_def on_owner_thread_def)
next
  case (Some r)
  with assms have "owns (en_game_thread en) w0 r w" by (simp add: bridge_inv_def)
  with destroy_resources_owns [OF this, of en] Some assms show ?thesis
    by (auto simp: bridge_inv_def stop_def on_owner_thread_def)
qed

lemma refresh_views_keeps:
  assumes "refresh_views t r b im w = (e, im')"
  shows "im_resources im' = im_resources im \<and> im_owner_thread im' = im_owner_thread im"
  using assms by (auto simp: refresh_views_def split: sum.splits)

lemma owns_stepped:
  assumes o: "owns_sessions t store0 r store" and other: "\<And>q. \<not> mine r q \<Longrightarrow> store' q = store q"
    and kept: "\<And>q s. \<lbrakk>mine r q; store q = Some s\<rbrakk>
      \<Longrightarrow> \<exists>s'. store' q = Some s' \<and> rs_owner s' = rs_owner s \<and> rs_borrowed s' = rs_borrowed s"
  shows "owns_sessions t store0 r store'"
  unfolding owns_sessions_def
proof
  fix q
  show "if mine r q
    then store0 q = None \<and> (\<exists>s. store' q = Some s \<and> rs_owner s = t \<and> (rs_borrowed s \<longleftrightarrow> busy r))
    else store' q = store0 q"
    using o [unfolded owns_sessions_def, THEN spec, of q] other [of q] kept [of q] by (cases "mine r q") auto
qed

lemma stepped_live:
  assumes s: "rl_live_step build t h b buttons out store lives = (status, written, store', lives')"
  obtains "store' = store" "lives' = lives"
    | d l l' x y where "h = Some d" "lives d = Some l" "store' = set_native (rv_b l) y (set_native (rv_a l) x store)"
      "lives' = lives(d \<mapsto> l')" "rv_a l' = rv_a l" "rv_b l' = rv_b l" "rv_owner l' = rv_owner l"
proof (cases "first_failure [check_live t (lookup_ptr h lives), validate size_live_step_result out] = RL_OK
    \<and> \<not> (b > 1 \<or> buttons > 31) \<and> rv_failure (the (lookup_ptr h lives)) = RL_OK")
  case True
  then have "check_live t (lookup_ptr h lives) = RL_OK" unfolding first_failure_ok by simp
  then obtain d l where d: "h = Some d" "lives d = Some l" by (auto simp: check_live_ok lookup_ptr_Some)
  obtain q native where q: "step_live build (if b \<noteq> 0 then Some (ucast buttons) else None) (attach l store) = (q, native)"
    by fastforce
  have store': "store' = set_native (rv_b l) (lv_peer_b native) (set_native (rv_a l) (lv_peer_a native) store)"
    using s True d q by (cases q) (simp_all add: rl_live_step_def Let_def lookup_ptr_Some)
  obtain f where "lives' = lives(d \<mapsto> (f l)\<lparr>rv_native := native\<rparr>)" "rv_a (f l) = rv_a l" "rv_b (f l) = rv_b l"
      "rv_owner (f l) = rv_owner l"
  proof (cases q)
    case (Inl e)
    with s True d q have "lives' = lives(d \<mapsto> (l\<lparr>rv_failure := to_status (err_code e)\<rparr>)\<lparr>rv_native := native\<rparr>)"
      by (auto simp: rl_live_step_def Let_def lookup_ptr_Some)
    with that [of "\<lambda>l. l\<lparr>rv_failure := to_status (err_code e)\<rparr>"] show thesis by simp
  next
    case (Inr fin)
    with s True d q have "lives' = lives(d \<mapsto> (l\<lparr>rv_failure := RL_OK, rv_finished := fin\<rparr>)\<lparr>rv_native := native\<rparr>)"
      by (auto simp: rl_live_step_def Let_def lookup_ptr_Some)
    with that [of "\<lambda>l. l\<lparr>rv_failure := RL_OK, rv_finished := fin\<rparr>"] show thesis by simp
  qed
  with that(2) [OF d store'] show thesis by simp
next
  case False
  then have "store' = store \<and> lives' = lives"
    using s by (auto simp: rl_live_step_def Let_def split: if_splits)
  with that(1) show thesis by blast
qed

lemma set_native_keeps:
  assumes "store q = Some s"
  shows "\<exists>s'. set_native p x store q = Some s' \<and> rs_owner s' = rs_owner s \<and> rs_borrowed s' = rs_borrowed s"
  using assms by (cases "q = p") (simp_all add: set_native_def)

lemma live_step_owns:
  assumes o: "owns t w0 r w"
    and s: "rl_live_step build t (rn_driver r) b buttons out (bw_sessions w) (bw_lives w) = (status, written, store', lives')"
  shows "owns t w0 r (w\<lparr>bw_sessions := store', bw_lives := lives'\<rparr>)"
  using s
proof (cases rule: stepped_live)
  case 1
  with o show ?thesis by simp
next
  case (2 d l l' x y)
  note D = ownsD [OF o]
  obtain l0 where l0: "bw_lives w0 d = None" "rv_owner l0 = t" "rn_peer_a r = Some (rv_a l0)" "rn_peer_b r = Some (rv_b l0)"
    "bw_lives w = (bw_lives w0)(d \<mapsto> l0)"
    using D(4) 2(1) by (auto simp: owns_driver_def)
  have "l0 = l" using l0(5) 2(2) by simp
  note l = l0 [unfolded this]
  have "lives' = (bw_lives w0)(d \<mapsto> l')" using 2(4) l(5) by simp
  then have "owns_driver t (bw_lives w0) r lives'"
    using l(1-4) 2(1,5-7) unfolding owns_driver_def by (simp add: exI [of _ l'])
  moreover have "owns_sessions t (bw_sessions w0) r store'"
    unfolding 2(3)
  proof (rule owns_stepped [OF D(3)])
    show "set_native (rv_b l) y (set_native (rv_a l) x (bw_sessions w)) q = bw_sessions w q" if "\<not> mine r q" for q
      using that l(3,4) by (auto simp: mine_def set_native_def)
    show "\<exists>s'. set_native (rv_b l) y (set_native (rv_a l) x (bw_sessions w)) q = Some s' \<and> rs_owner s' = rs_owner s
      \<and> rs_borrowed s' = rs_borrowed s" if "bw_sessions w q = Some s" for q s
      using set_native_keeps [where store = "bw_sessions w" and q = q, OF that] set_native_keeps by metis
  qed
  ultimately show ?thesis using D by (simp add: owns_def)
qed

lemma stepped_udp:
  assumes s: "rl_udp_peer_step build os t h elapsed out store peers w = ((status, written, store', peers'), w')"
  obtains "store' = store" "peers' = peers"
    | u v v' x b where "h = Some u" "peers u = Some v" "store' = keep_session (rp_session v) x b store"
      "peers' = peers(u \<mapsto> v')" "rp_session v' = rp_session v"
proof (cases "first_failure [check_peer t (lookup_ptr h peers) store, validate size_udp_step_result out] = RL_OK
    \<and> rp_failure (the (lookup_ptr h peers)) = RL_OK")
  case True
  then have "check_peer t (lookup_ptr h peers) store = RL_OK" unfolding first_failure_ok by simp
  then obtain u v where u: "h = Some u" "peers u = Some v" by (auto simp: check_peer_ok lookup_ptr_Some)
  obtain q native w1 where q: "peer_step build os elapsed (attach_peer v store) w = (q, native, w1)"
    by (metis prod.exhaust)
  show thesis
  proof (cases q)
    case (Inr fin)
    with s True u q that(2) [OF u] show thesis by (auto simp: rl_udp_peer_step_def Let_def lookup_ptr_Some)
  next
    case (Inl e)
    with s True u q that(2) [OF u] show thesis
      by (cases "err_context e = ''udp_clock_reversed''") (auto simp: rl_udp_peer_step_def Let_def lookup_ptr_Some)
  qed
next
  case False
  then have "store' = store \<and> peers' = peers"
    using s by (auto simp: rl_udp_peer_step_def Let_def split: if_splits)
  with that(1) show thesis by blast
qed

lemma udp_step_owns:
  assumes o: "owns t w0 r w"
    and s: "rl_udp_peer_step build os t (rn_udp r) elapsed out (bw_sessions w) (bw_peers w) (bw_os w)
      = ((status, written, store', peers'), os')"
  shows "owns t w0 r (w\<lparr>bw_sessions := store', bw_peers := peers', bw_os := os'\<rparr>)"
  using s
proof (cases rule: stepped_udp)
  case 1
  with o show ?thesis by (simp add: owns_def)
next
  case (2 u v v' x b)
  note D = ownsD [OF o]
  obtain v0 where v0: "bw_peers w0 u = None" "\<And>p. mine r p \<longleftrightarrow> p = rp_session v0" "bw_peers w = (bw_peers w0)(u \<mapsto> v0)"
    using D(5) 2(1) by (auto simp: owns_udp_def)
  have "v0 = v" using v0(3) 2(2) by simp
  note v = v0 [unfolded this]
  have "peers' = (bw_peers w0)(u \<mapsto> v')" using 2(4) v(3) by simp
  then have "owns_udp (bw_peers w0) r peers'"
    using v(1,2) 2(1,5) by (auto simp: owns_udp_def)
  moreover have "owns_sessions t (bw_sessions w0) r store'"
    using v(2) by (intro owns_stepped [OF D(3)]) (auto simp: 2(3) keep_session_def)
  ultimately show ?thesis using D by (simp add: owns_def)
qed

lemma advance_one_inv:
  assumes inv: "bridge_inv en w0 im w" and some: "im_resources im = Some r"
    and a: "advance_one en (en_game_thread en) b buttons im w = (e, im', w')"
  shows "bridge_inv en w0 im' w' \<and> im_resources im' = Some r"
proof -
  have o: "owns (en_game_thread en) w0 r w" and g: "im_owner_thread im = en_game_thread en"
    using inv some by (simp_all add: bridge_inv_def)
  show ?thesis
  proof (cases "rn_udp r")
    case None
    obtain status written store' lives' where s: "rl_live_step (en_build en) (en_game_thread en) (rn_driver r)
        (if b then 1 else 0) buttons (Some (initialized size_live_step_result)) (bw_sessions w) (bw_lives w)
        = (status, written, store', lives')" by (metis prod.exhaust)
    have w': "w' = w\<lparr>bw_sessions := store', bw_lives := lives'\<rparr>" "im_resources im' = Some r"
      "im_owner_thread im' = en_game_thread en"
      using a some None s g
      by (auto simp: advance_one_def advance_live_def Let_def split: if_splits prod.splits dest!: refresh_views_keeps)
    with live_step_owns [OF o s] show ?thesis by (simp add: bridge_inv_def)
  next
    case (Some u)
    have udp: "advance_udp en (en_game_thread en) r im w = (e, im', w')" using a some Some by (simp add: advance_one_def)
    obtain elapsed status written store' peers' os' where s: "rl_udp_peer_step (en_build en) (en_host en)
        (en_game_thread en) (rn_udp r) elapsed (Some (initialized size_udp_step_result)) (bw_sessions w) (bw_peers w)
        (bw_os w) = ((status, written, store', peers'), os')"
      "w' = w\<lparr>bw_sessions := store', bw_peers := peers', bw_os := os'\<rparr>" "im_resources im' = Some r"
      "im_owner_thread im' = en_game_thread en"
      using udp some g
      by (auto simp: advance_udp_def Let_def split: if_splits prod.splits dest!: refresh_views_keeps)
    with udp_step_owns [OF o s(1)] show ?thesis by (simp add: bridge_inv_def)
  qed
qed

lemma tick_steps_inv:
  "\<lbrakk>bridge_inv en w0 im w; im_resources im = Some r;
    tick_steps en (en_game_thread en) b buttons n im w = (e, im', w')\<rbrakk>
   \<Longrightarrow> bridge_inv en w0 im' w' \<and> im_resources im' = Some r"
proof (induction n arbitrary: im w)
  case 0
  then show ?case by simp
next
  case (Suc n)
  obtain e1 im1 w1 where a: "advance_one en (en_game_thread en) b buttons im w = (e1, im1, w1)" by (metis prod.exhaust)
  note i = advance_one_inv [OF Suc.prems(1,2) a]
  show ?case
  proof (cases "running im \<and> is_ok e1")
    case True
    let ?im = "im1\<lparr>im_clock := (im_clock im1)\<lparr>fk_last_tick_steps := fk_last_tick_steps (im_clock im1) + 1\<rparr>\<rparr>"
    have "bridge_inv en w0 ?im w1" "im_resources ?im = Some r"
      using i by (simp_all add: bridge_inv_def split: option.splits)
    from Suc.IH [OF this] Suc.prems(3) True a show ?thesis by simp
  next
    case False
    then show ?thesis using Suc.prems a i by (auto split: if_splits)
  qed
qed

lemma bridge_inv_same:
  "\<lbrakk>bridge_inv en w0 im w; im_resources im' = im_resources im; im_owner_thread im' = im_owner_thread im\<rbrakk>
   \<Longrightarrow> bridge_inv en w0 im' w"
  by (simp add: bridge_inv_def)

lemma checked_access:
  assumes "is_ok (check_access en t True im)"
  obtains r where "t = en_game_thread en" "im_resources im = Some r"
  using assms by (auto simp: check_access_def on_owner_thread_def is_ok_def bridge_failure_def split: if_splits)

lemma tick_wall_clock_inv:
  assumes inv: "bridge_inv en w0 im w" and k: "tick_wall_clock en t delta b buttons im w = (e, im', w')"
  shows "bridge_inv en w0 im' w'"
proof -
  let ?im = "im\<lparr>im_clock := (im_clock im)\<lparr>fk_last_tick_steps := 0\<rparr>\<rparr>" and ?db = "en_double en"
  let ?wall = "db_plus ?db (fk_accumulator (im_clock ?im)) delta"
  let ?steps = "clock_steps ?db ?wall"
  let ?im2 = "?im\<lparr>im_clock := advance_clock ?db ?wall ?steps (im_clock ?im)\<rparr>"
  show ?thesis
  proof (cases "is_ok (check_access en t True im)
      \<and> \<not> (\<not> db_is_finite ?db delta \<or> db_less ?db delta (db_zero ?db) \<or> buttons > 31)
      \<and> \<not> fk_paused (im_clock ?im) \<and> db_is_finite ?db ?wall")
    case True
    then obtain r where r: "t = en_game_thread en" "im_resources im = Some r" by (auto elim: checked_access)
    obtain e1 im1 w1 where s: "tick_steps en t b buttons (unat ?steps) ?im2 w = (e1, im1, w1)" by (metis prod.exhaust)
    have "bridge_inv en w0 ?im2 w" "im_resources ?im2 = Some r"
      using bridge_inv_same [OF inv] r by simp_all
    from tick_steps_inv [OF this s [unfolded r(1)]] have "bridge_inv en w0 im1 w1" by blast
    moreover have "im' = im1\<lparr>im_last_result := e1\<rparr>" "w' = w1"
      using k True s by (auto simp: tick_wall_clock_def Let_def)
    ultimately show ?thesis by (auto intro: bridge_inv_same)
  next
    case False
    then have "w' = w \<and> im_resources im' = im_resources im \<and> im_owner_thread im' = im_owner_thread im"
      using k by (auto simp: tick_wall_clock_def Let_def split: if_splits)
    with bridge_inv_same [OF inv] show ?thesis by blast
  qed
qed

lemma single_step_inv:
  assumes inv: "bridge_inv en w0 im w" and k: "single_step en t b buttons im w = (e, im', w')"
  shows "bridge_inv en w0 im' w'"
proof (cases "is_ok (check_access en t True im) \<and> \<not> buttons > 31")
  case True
  then obtain r where r: "t = en_game_thread en" "im_resources im = Some r" by (auto elim: checked_access)
  let ?im = "im\<lparr>im_clock := (im_clock im)\<lparr>fk_last_tick_steps := 0\<rparr>\<rparr>"
  obtain e1 im1 w1 where s: "advance_one en t b buttons ?im w = (e1, im1, w1)" by (metis prod.exhaust)
  have "bridge_inv en w0 ?im w" "im_resources ?im = Some r"
    using bridge_inv_same [OF inv] r by simp_all
  from advance_one_inv [OF this s [unfolded r(1)]] have "bridge_inv en w0 im1 w1" by blast
  moreover have "w' = w1 \<and> im_resources im' = im_resources im1 \<and> im_owner_thread im' = im_owner_thread im1"
    using k True s by (auto simp: single_step_def Let_def)
  ultimately show ?thesis using bridge_inv_same by blast
next
  case False
  then have "w' = w \<and> im_resources im' = im_resources im \<and> im_owner_thread im' = im_owner_thread im"
    using k by (auto simp: single_step_def Let_def split: if_splits)
  with bridge_inv_same [OF inv] show ?thesis by blast
qed

text \<open>\<open>Start\<close>, with the library loaded.\<close>

lemma start_created_inv:
  assumes o: "owns (en_game_thread en) w0 r w" and g: "im_owner_thread im = en_game_thread en"
  shows "\<exists>e im' w'. start_created en (en_game_thread en) options r im w = Some (e, im', w') \<and> bridge_inv en w0 im' w'"
proof -
  let ?im = "im\<lparr>im_version := sd_version (rn_library r), im_resources := Some r\<rparr>"
  obtain e im1 where s: "refresh_views (en_game_thread en) r False ?im w = (e, im1)" by fastforce
  from refresh_views_keeps [OF s] o g have inv: "bridge_inv en w0 im1 w" by (simp add: bridge_inv_def)
  from runtime_stop_inv [OF inv] obtain im2 w2 where p: "stop en (en_game_thread en) im1 w = Some (im2, w2)"
    "im_resources im2 = None" "im_owner_thread im2 = en_game_thread en" "unchanged w0 w2" by blast
  have "bridge_inv en w0 (im2\<lparr>im_last_result := e\<rparr>) w2" using p by (simp add: bridge_inv_def)
  moreover have "bridge_inv en w0 (im1\<lparr>im_last_options := options, im_has_options := True, im_last_result := result_ok\<rparr>) w"
    using inv by (simp add: bridge_inv_def)
  ultimately show ?thesis using s p by (cases "is_ok e") (simp_all add: start_created_def Let_def)
qed

lemma start_failed_inv:
  assumes o: "owns (en_game_thread en) w0 r w" and im: "im_owner_thread im = en_game_thread en" "im_resources im = None"
  shows "\<exists>im' w'. Option.bind (destroy_resources en (en_game_thread en) r w) (\<lambda>w. Some (e, im\<lparr>im_last_result := e\<rparr>, w))
    = Some (e, im', w') \<and> bridge_inv en w0 im' w'"
  using destroy_resources_owns [OF o, of en] im by (auto simp: bridge_inv_def)

lemma start_loaded_inv:
  assumes u: "unchanged w0 w" and im: "im_owner_thread im = en_game_thread en" "im_resources im = None"
    and en: "allocates en" "finite_world w0"
  shows "\<exists>e im' w'. start_loaded en (en_game_thread en) options library im
    (w\<lparr>bw_os := os, bw_libraries := bw_libraries w + 1\<rparr>) = Some (e, im', w') \<and> bridge_inv en w0 im' w'"
proof -
  let ?G = "en_game_thread en"
  let ?w = "w\<lparr>bw_os := os, bw_libraries := bw_libraries w + 1\<rparr>"
  let ?r = "\<lparr>rn_library = library, rn_peer_a = None, rn_peer_b = None, rn_driver = None, rn_udp = None\<rparr>"
  have o: "owns ?G w0 ?r ?w"
    using u by (simp add: owns_def unchanged_def owns_sessions_def mine_def owns_driver_def owns_udp_def)
  have free: "\<not> busy ?r" "rn_peer_a ?r = None" "rn_peer_b ?r = None" by (simp_all add: busy_def)
  obtain e1 r1 w1 where 1: "create_peers en ?G options ?r ?w = (e1, r1, w1)" by (metis prod.exhaust)
  from create_peers_owns [OF o free en 1] have o1: "owns ?G w0 r1 w1" "\<not> busy r1" by simp_all
  show ?thesis
  proof (cases e1)
    case (Some e)
    with 1 start_failed_inv [OF o1(1) im, of e] show ?thesis by (auto simp: start_loaded_def)
  next
    case None
    let ?im = "if fo_is_udp options then im\<lparr>im_udp_created_at := en_seconds en (bw_os w1)\<rparr> else im"
    have im': "im_owner_thread ?im = ?G" "im_resources ?im = None" using im by simp_all
    obtain e2 r2 w2 where 2: "open_driver en ?G options r1 w1 = (e2, r2, w2)" by (metis prod.exhaust)
    have m: "mine r1 p \<longleftrightarrow> local_session options r1 = Some p" if "fo_is_udp options" for p
      using created_local [OF 1 [unfolded None] free(2,3) that] .
    have o2: "owns ?G w0 r2 w2" by (rule open_driver_owns [OF o1 m en 2])
    have "start_loaded en ?G options library im ?w =
      (case e2 of Some e \<Rightarrow> Option.bind (destroy_resources en ?G r2 w2) (\<lambda>w. Some (e, ?im\<lparr>im_last_result := e\<rparr>, w))
       | None \<Rightarrow> start_created en ?G options r2 ?im w2)"
      using 1 2 None by (simp add: start_loaded_def Let_def split: option.split)
    then show ?thesis
      using start_failed_inv [OF o2 im'] start_created_inv [OF o2 im'(1)] by (cases e2) fastforce+
  qed
qed

lemma runtime_start_inv:
  assumes inv: "bridge_inv en w0 im w" and en: "allocates en" "finite_world w0"
  shows "\<exists>e im' w'. start en t options im w = Some (e, im', w') \<and> bridge_inv en w0 im' w'"
proof (cases "t = en_game_thread en")
  case False
  with inv show ?thesis by (simp add: start_def on_owner_thread_def)
next
  case True
  obtain im1 w1 where 1: "stop en t im w = Some (im1, w1)" "im_resources im1 = None"
    "im_owner_thread im1 = en_game_thread en" "unchanged w0 w1" using runtime_stop_inv [OF inv] True by blast
  let ?im = "cleared en im1"
  have im: "im_owner_thread ?im = en_game_thread en" "im_resources ?im = None" using 1 by (simp_all add: cleared_def)
  have on: "on_owner_thread en t im" using inv True by (simp add: on_owner_thread_def bridge_inv_def)
  obtain loaded os where l: "load_sdk (en_loader en) (db_of_u32 (en_double en) 1) (en_build en) options (bw_os w1) = (loaded, os)" by fastforce
  have failed: "bridge_inv en w0 (?im\<lparr>im_last_result := e\<rparr>) (w1\<lparr>bw_os := os\<rparr>)"
    "bridge_inv en w0 (?im\<lparr>im_last_result := e\<rparr>) w1" for e os
    using im 1(4) by (simp_all add: bridge_inv_def unchanged_def)
  show ?thesis
  proof (cases "fo_is_udp options \<and> (fo_local_peer options > RL_PEER_B \<or> fo_udp_variant options > RL_VARIANT_DAMAGE_BIAS)")
    case True
    with on 1(1) failed(2) show ?thesis by (simp add: start_def Let_def)
  next
    case False
    show ?thesis
    proof (cases loaded)
      case (Inl e)
      with False on 1(1) l failed(1) show ?thesis by (auto simp: start_def Let_def)
    next
      case (Inr library)
      with False on 1(1) l have "start en t options im w
          = start_loaded en t options library ?im (w1\<lparr>bw_os := os, bw_libraries := bw_libraries w1 + 1\<rparr>)"
        by (auto simp: start_def Let_def)
      with start_loaded_inv [OF 1(4) im en, of options library os] True show ?thesis by simp
    qed
  qed
qed

lemma runtime_reset_inv:
  assumes inv: "bridge_inv en w0 im w" and en: "allocates en" "finite_world w0"
  shows "\<exists>e im' w'. reset en t im w = Some (e, im', w') \<and> bridge_inv en w0 im' w'"
proof (cases "on_owner_thread en t im \<and> im_has_options im")
  case True
  with runtime_start_inv [OF inv en] show ?thesis by (simp add: reset_def)
next
  case False
  have "bridge_inv en w0 (im\<lparr>im_last_result := e\<rparr>) w" for e using bridge_inv_same [OF inv] by simp
  with False inv show ?thesis by (auto simp: reset_def Let_def)
qed

text \<open>
  The runtimes that the engine can come to: it calls the operations in any order, on any thread and with any arguments,
  and between the calls the rest of the world moves on. A call whose \<open>check\<close> fails has no successor here.
\<close>

inductive bridge_reach :: "('s, 'd) Engine \<Rightarrow> 's BridgeWorld \<Rightarrow> 'd FImpl \<Rightarrow> 's BridgeWorld \<Rightarrow> bool" for en w0 where
  created: "bridge_reach en w0 (new_runtime en) w0"
| outside: "bridge_reach en w0 im w \<Longrightarrow> bridge_reach en w0 im (w\<lparr>bw_os := os\<rparr>)"
| started: "\<lbrakk>bridge_reach en w0 im w; start en t options im w = Some (e, im', w')\<rbrakk> \<Longrightarrow> bridge_reach en w0 im' w'"
| again: "\<lbrakk>bridge_reach en w0 im w; reset en t im w = Some (e, im', w')\<rbrakk> \<Longrightarrow> bridge_reach en w0 im' w'"
| stopped: "\<lbrakk>bridge_reach en w0 im w; stop en t im w = Some (im', w')\<rbrakk> \<Longrightarrow> bridge_reach en w0 im' w'"
| ticked: "\<lbrakk>bridge_reach en w0 im w; tick_wall_clock en t delta b buttons im w = (e, im', w')\<rbrakk>
    \<Longrightarrow> bridge_reach en w0 im' w'"
| stepped: "\<lbrakk>bridge_reach en w0 im w; single_step en t b buttons im w = (e, im', w')\<rbrakk> \<Longrightarrow> bridge_reach en w0 im' w'"
| paused: "\<lbrakk>bridge_reach en w0 im w; set_paused en t p im = Some im'\<rbrakk> \<Longrightarrow> bridge_reach en w0 im' w"

lemma bridge_reach_inv:
  assumes "bridge_reach en w0 im w" and en: "allocates en" "finite_world w0"
  shows "bridge_inv en w0 im w"
  using assms(1)
proof induction
  case created
  show ?case by (simp add: bridge_inv_def new_runtime_def unchanged_def)
next
  case (outside im w os)
  then show ?case by (simp add: bridge_inv_def unchanged_def owns_def split: option.splits)
next
  case (started im w t options e im' w')
  from runtime_start_inv [OF started.IH en, of t options] started.hyps(2) show ?case by auto
next
  case (again im w t e im' w')
  from runtime_reset_inv [OF again.IH en, of t] again.hyps(2) show ?case by auto
next
  case (stopped im w t im' w')
  then have "t = en_game_thread en" by (simp add: stop_def on_owner_thread_def split: if_splits)
  with runtime_stop_inv [OF stopped.IH] stopped.hyps(2) show ?case by (auto simp: bridge_inv_def)
next
  case (ticked im w t delta b buttons e im' w')
  show ?case by (rule tick_wall_clock_inv [OF ticked.IH ticked.hyps(2)])
next
  case (stepped im w t b buttons e im' w')
  show ?case by (rule single_step_inv [OF stepped.IH stepped.hyps(2)])
next
  case (paused im w t p im')
  then show ?case by (auto simp: set_paused_def bridge_inv_def split: if_splits)
qed

end
