(* ===== verification/BridgeStart.thy ===== *)
theory BridgeStart
  imports BridgeProof LiveRun
begin

text \<open>
  A start that succeeds: the bridge's own copies of the versions, the flags, the sizes and the limits agree with
  those of the library it was written for, so that accepted options always give a running runtime.
\<close>

section \<open>The library the bridge was written for\<close>

text \<open>
  The documented use of the loader: the files, the loading and the exports are in order, and the library was built from
  the source that the bridge names.
\<close>

definition trusted_library :: "('s, 'd) Engine \<Rightarrow> FStartOptions \<Rightarrow> bool" where
  "trusted_library en options \<longleftrightarrow>
     (\<forall>os. \<exists>path handle os'. verify_manifest (en_loader en) (db_of_u32 (en_double en) 1) options os = Inr path
        \<and> ld_load_library (en_loader en) path os = (Inr handle, os')
        \<and> missing_export (en_loader en) handle (required_exports options) = None)
   \<and> is_hex (take 40 (bi_git_sha (en_build en))) 40
   \<and> same_text (take 40 (bi_git_sha (en_build en))) (ld_expected_source_sha (en_loader en))"

lemma capabilities_suffice: "RL_CAPABILITIES AND required_capabilities options = required_capabilities options"
  by (simp add: RL_CAPABILITIES_def required_capabilities_def)

text \<open>The version checks hold of this library whatever the build is; the source identity is all that can differ.\<close>

lemma check_version_iff:
  "(\<exists>v. check_version ld build options = Inr v) \<longleftrightarrow>
     is_hex (take 40 (bi_git_sha build)) 40 \<and> same_text (take 40 (bi_git_sha build)) (ld_expected_source_sha ld)"
  by (simp add: check_version_def rl_get_version_def Let_def capabilities_suffice kSimulationVersion_def
      kProtocolVersion_def kReplayVersion_def)

lemma check_version_source:
  "check_version ld build options = Inr v \<Longrightarrow> vi_source_git_sha v = take 40 (bi_git_sha build)"
  by (auto simp: check_version_def rl_get_version_def Let_def split: if_splits)

lemma load_sdk_succeeds:
  assumes "trusted_library en options"
  obtains library os' where
    "load_sdk (en_loader en) (db_of_u32 (en_double en) 1) (en_build en) options os = (Inr library, os')"
    "vi_source_git_sha (sd_version library) = take 40 (bi_git_sha (en_build en))"
proof -
  obtain path handle os' where l: "verify_manifest (en_loader en) (db_of_u32 (en_double en) 1) options os = Inr path"
    "ld_load_library (en_loader en) path os = (Inr handle, os')"
    "missing_export (en_loader en) handle (required_exports options) = None"
    using assms unfolding trusted_library_def by meson
  obtain v where "check_version (en_loader en) (en_build en) options = Inr v"
    using assms check_version_iff unfolding trusted_library_def by blast
  with l that check_version_source [OF this] show thesis by (simp add: load_sdk_def)
qed

section \<open>Sessions and driver\<close>

definition start_session :: "ThreadId \<Rightarrow> FStartOptions \<Rightarrow> u32 \<Rightarrow> rl_session" where
  "start_session t options peer =
     \<lparr>rs_native = make_session (native_session_config (peer_session_config options peer)), rs_owner = t,
      rs_local_peer = peer, rs_borrowed = False, rs_touched = False\<rparr>"

lemma create_peer_succeeds:
  assumes "peer \<le> RL_PEER_B" "fo_peer_b_variant options \<le> RL_VARIANT_DAMAGE_BIAS" "\<not> fo_is_udp options"
  shows "create_peer en t options peer w = (None, Some (en_new_session en (bw_sessions w)),
    w\<lparr>bw_sessions := (bw_sessions w)(en_new_session en (bw_sessions w) \<mapsto> start_session t options peer),
      bw_session_count := bw_session_count w + 1\<rparr>)"
  using assms
  by (simp add: create_peer_def rl_session_create_def Let_def peer_session_config_def start_session_def not_less
      kDefaultMaxRollbackFrames_def RL_VARIANT_CANONICAL_def)

lemma tail_fits:
  assumes "f \<le> (36000 :: u32)" "n \<le> (4096 :: u32)"
  shows "n \<le> - 1 - f - 32"
  using assms by unat_arith

lemma start_live_created:
  assumes v: "validate_live_config (Some c) = RL_OK"
  shows "\<exists>n. create_live build (native_live_config c) False (rs_native (start_session t options 0))
    (rs_native (start_session t options 1)) = Inr n"
proof -
  have b: "lf_frame_count c \<noteq> 0" "lf_frame_count c \<le> 36000" "lf_tail_redundancy_ticks c \<le> 4096"
    using v by (auto simp: validate_live_config_def Let_def rl_codes not_less split: if_splits)
  have "unat (lf_frame_count c) \<le> kMaxReplayFrames"
    using b(2) by (simp add: kMaxReplayFrames_def word_le_nat_alt)
  then show ?thesis
    using b tail_fits [OF b(2,3)]
    by (simp add: create_live_def native_live_config_def start_session_def peer_session_config_def
        native_session_config_def make_session_def session_report_def peer_of_value_def RL_PEER_A_def not_less)
qed

lemma live_created:
  assumes v: "validate_live_config (Some c) = RL_OK" and pq: "p \<noteq> q"
    and s: "store p = Some (start_session t options 0)" "store q = Some (start_session t options 1)"
  shows "\<exists>l. rl_live_create build t addr (Some c) (Some p) (Some q) True store lives
    = (RL_OK, Some (Some addr), set_borrowed True q (set_borrowed True p store), lives(addr \<mapsto> l))
    \<and> rv_owner l = t"
proof -
  have ok: "check_session t (Some (start_session t options peer)) True = RL_OK" for peer
    by (simp add: check_session_ok start_session_def)
  have f: "first_failure [validate_live_config (Some c), check_session t (store p) True, check_session t (store q) True] = RL_OK"
    using v s ok by (simp add: first_failure_ok)
  obtain n where n: "create_live build (native_live_config c) False (rs_native (start_session t options 0))
    (rs_native (start_session t options 1)) = Inr n" using start_live_created [OF v] by blast
  have "rs_local_peer (start_session t options 0) = RL_PEER_A" "rs_local_peer (start_session t options 1) = RL_PEER_B"
    "\<not> rs_touched (start_session t options 0)" "\<not> rs_touched (start_session t options 1)"
    by (simp_all add: start_session_def RL_PEER_A_def RL_PEER_B_def)
  then show ?thesis using f n pq s
    by (intro exI [of _ "\<lparr>rv_a = p, rv_b = q, rv_native = n, rv_owner = t, rv_finished = False, rv_failure = RL_OK\<rparr>"])
      (simp add: rl_live_create_def Let_def lookup_ptr_def)
qed

section \<open>The views of a new run\<close>

lemma view_refreshed:
  assumes "store p = Some s" "rs_owner s = t" "bw_sessions w = store"
  shows "\<exists>view'. refresh_view t r False peer (Some p) view w = Inr view'
    \<and> fv_snapshot view' = copy_snapshot (s_state (rs_native s)) \<and> fv_handle_identity view' = Some p"
proof -
  have f: "first_failure [check_session t (Some s) False, validate n (Some (initialized n))] = RL_OK" for n
    using assms(2) by (simp add: first_failure_ok check_session_ok)
  have l: "layout_ok (copy_snapshot state) \<lparr>mn_header = initialized size_metrics, mn_total_resimulated_frames = a,
      mn_predicted_input_count = b, mn_late_input_count = c, mn_rollback_count = d, mn_maximum_rollback_depth = e,
      mn_confirmed_frame = g\<rparr>" for state a b c d e g
    by (simp add: layout_ok_def copy_snapshot_def)
  show ?thesis
    using assms(1,3) f l
    by (simp add: refresh_view_def rl_session_get_snapshot_def rl_session_get_metrics_def Let_def lookup_ptr_def
        session_report_def)
qed

section \<open>Starting\<close>

definition startable :: "FStartOptions \<Rightarrow> bool" where
  "startable options \<longleftrightarrow>
     \<not> fo_is_udp options \<and> fo_peer_b_variant options \<le> RL_VARIANT_DAMAGE_BIAS
   \<and> validate_live_config (Some (fo_scenario options)) = RL_OK"

text \<open>What the two peers of a run hold before its first step.\<close>

definition begun :: "FStartOptions \<Rightarrow> 'd FImpl \<Rightarrow> bool" where
  "begun options im \<longleftrightarrow>
     running im \<and> im_has_options im \<and> im_last_options im = options \<and> im_last_result im = result_ok
   \<and> fv_snapshot (im_view_a im) = copy_snapshot make_initial_world
   \<and> fv_snapshot (im_view_b im) = copy_snapshot make_initial_world
   \<and> fv_handle_identity (im_view_a im) \<noteq> None \<and> fv_handle_identity (im_view_b im) \<noteq> None
   \<and> fv_handle_identity (im_view_a im) \<noteq> fv_handle_identity (im_view_b im)"

lemma start_created_succeeds:
  assumes h: "rn_peer_a r = Some p" "rn_peer_b r = Some q" "p \<noteq> q"
    and s: "bw_sessions w p = Some sp" "bw_sessions w q = Some sq" "rs_owner sp = t" "rs_owner sq = t"
    and n: "s_state (rs_native sp) = make_initial_world" "s_state (rs_native sq) = make_initial_world"
    and im: "\<not> im_failed im" "im_last_step im = initial_step"
  shows "\<exists>im'. start_created en t options r im w = Some (result_ok, im', w) \<and> begun options im' \<and> im_version im' = sd_version (rn_library r)"
proof -
  let ?im = "im\<lparr>im_version := sd_version (rn_library r), im_resources := Some r\<rparr>"
  obtain a where a: "refresh_view t r False 0 (Some p) (im_view_a ?im) w = Inr a"
    "fv_snapshot a = copy_snapshot make_initial_world" "fv_handle_identity a = Some p"
    using view_refreshed [OF s(1,3) refl, of r 0 "im_view_a ?im"] n(1) by auto
  obtain b where b: "refresh_view t r False 1 (Some q) (im_view_b ?im) w = Inr b"
    "fv_snapshot b = copy_snapshot make_initial_world" "fv_handle_identity b = Some q"
    using view_refreshed [OF s(2,4) refl, of r 1 "im_view_b ?im"] n(2) by auto
  have "is_ok result_ok" by (simp add: is_ok_def result_ok_def)
  with a b h im show ?thesis
    by (simp add: start_created_def refresh_views_def begun_def running_def initial_step_def)
qed

lemma new_session_free: "\<lbrakk>allocates en; finite (dom store)\<rbrakk> \<Longrightarrow> store (en_new_session en store) = None"
  by (simp add: allocates_def)

lemma start_loaded_succeeds:
  assumes en: "allocates en" and fin: "finite_world w" and ok: "startable options"
    and im: "\<not> im_failed im" "im_last_step im = initial_step"
  shows "\<exists>im' w'. start_loaded en t options library im w = Some (result_ok, im', w') \<and> begun options im'
    \<and> im_version im' = sd_version library"
proof -
  let ?p = "en_new_session en (bw_sessions w)"
  let ?s1 = "(bw_sessions w)(?p \<mapsto> start_session t options 0)"
  let ?w1 = "w\<lparr>bw_sessions := ?s1, bw_session_count := bw_session_count w + 1\<rparr>"
  let ?q = "en_new_session en ?s1"
  let ?s2 = "?s1(?q \<mapsto> start_session t options 1)"
  let ?w2 = "?w1\<lparr>bw_sessions := ?s2, bw_session_count := bw_session_count ?w1 + 1\<rparr>"
  let ?r = "\<lparr>rn_library = library, rn_peer_a = Some ?p, rn_peer_b = Some ?q, rn_driver = None, rn_udp = None\<rparr>"
  have v: "fo_peer_b_variant options \<le> RL_VARIANT_DAMAGE_BIAS" "\<not> fo_is_udp options"
    "validate_live_config (Some (fo_scenario options)) = RL_OK" using ok by (simp_all add: startable_def)
  have "finite (dom ?s1)" using fin by (simp add: finite_world_def del: fun_upd_apply)
  from new_session_free [OF en this] have "?s1 ?q = None" .
  then have pq: "?p \<noteq> ?q" by (metis fun_upd_same option.distinct(1))
  have c: "create_peers en t options \<lparr>rn_library = library, rn_peer_a = None, rn_peer_b = None, rn_driver = None,
      rn_udp = None\<rparr> w = (None, ?r, ?w2)"
    using create_peer_succeeds [OF _ v(1,2), of 0 en t w] create_peer_succeeds [OF _ v(1,2), of 1 en t ?w1]
    by (simp add: create_peers_def RL_PEER_B_def)
  have s2: "?s2 ?p = Some (start_session t options 0)" "?s2 ?q = Some (start_session t options 1)" using pq by simp_all
  obtain l where l: "rl_live_create (en_build en) t (en_new_live en (bw_lives w)) (Some (fo_scenario options))
      (Some ?p) (Some ?q) True ?s2 (bw_lives w)
      = (RL_OK, Some (Some (en_new_live en (bw_lives w))), set_borrowed True ?q (set_borrowed True ?p ?s2),
         (bw_lives w)(en_new_live en (bw_lives w) \<mapsto> l))"
    using live_created [where store = ?s2, OF v(3) pq s2] by blast
  let ?r3 = "?r\<lparr>rn_driver := Some (en_new_live en (bw_lives w))\<rparr>"
  let ?w3 = "?w2\<lparr>bw_sessions := set_borrowed True ?q (set_borrowed True ?p ?s2),
    bw_lives := (bw_lives w)(en_new_live en (bw_lives w) \<mapsto> l), bw_driver_count := bw_driver_count w + 1\<rparr>"
  have d: "open_driver en t options ?r ?w2 = (None, ?r3, ?w3)"
    using v(2) l pq by (simp add: open_driver_def open_live_def Let_def)
  have "start_loaded en t options library im w = start_created en t options ?r3 im ?w3"
    using c d v(2) by (simp add: start_loaded_def)
  moreover have "\<exists>im'. start_created en t options ?r3 im ?w3 = Some (result_ok, im', ?w3) \<and> begun options im'
      \<and> im_version im' = sd_version (rn_library ?r3)"
    by (rule start_created_succeeds [where sp = "(start_session t options 0)\<lparr>rs_borrowed := True\<rparr>"
          and sq = "(start_session t options 1)\<lparr>rs_borrowed := True\<rparr>", OF _ _ pq _ _ _ _ _ _ im])
      (use pq in \<open>simp_all add: set_borrowed_def start_session_def make_session_def native_session_config_def\<close>)
  ultimately show ?thesis by auto
qed

lemma start_succeeds:
  assumes inv: "bridge_inv en w0 im w" and en: "allocates en" "finite_world w0"
    and ok: "startable options" "trusted_library en options"
  shows "\<exists>im' w'. start en (en_game_thread en) options im w = Some (result_ok, im', w') \<and> begun options im'
    \<and> vi_source_git_sha (im_version im') = take 40 (bi_git_sha (en_build en))"
proof -
  let ?G = "en_game_thread en"
  obtain im1 w1 where 1: "stop en ?G im w = Some (im1, w1)" "unchanged w0 w1" using runtime_stop_inv [OF inv] by blast
  obtain library os where v: "load_sdk (en_loader en) (db_of_u32 (en_double en) 1) (en_build en) options (bw_os w1)
      = (Inr library, os)" "vi_source_git_sha (sd_version library) = take 40 (bi_git_sha (en_build en))"
    using load_sdk_succeeds [OF ok(2)] by metis
  let ?w = "w1\<lparr>bw_os := os, bw_libraries := bw_libraries w1 + 1\<rparr>"
  have "start en ?G options im w = start_loaded en ?G options library (cleared en im1) ?w"
    using inv 1(1) v(1) ok(1) by (auto simp: start_def Let_def on_owner_thread_def bridge_inv_def startable_def)
  moreover have "finite_world ?w" using 1(2) en(2) by (simp add: unchanged_def finite_world_def)
  then have "\<exists>im' w'. start_loaded en ?G options library (cleared en im1) ?w = Some (result_ok, im', w') \<and> begun options im'
      \<and> im_version im' = sd_version library"
    by (rule start_loaded_succeeds [OF en(1) _ ok(1)]) (simp_all add: cleared_def)
  ultimately show ?thesis using v(2) by auto
qed

section \<open>The settings of the demo\<close>

text \<open>Settings that \<open>Start\<close> does not refuse make options that the library does not refuse.\<close>

lemma accepted_presets:
  assumes "refused_settings s = None"
  shows "validate_live_config (Some (fo_scenario (make_options s))) = RL_OK"
proof -
  have b: "fs_frame_count s \<noteq> 0" "fs_frame_count s \<le> 36000" "fs_network_preset s \<le> 2"
    using assms by (auto simp: refused_settings_def not_less split: if_splits)
  then have "fs_network_preset s = 0 \<or> fs_network_preset s = 1 \<or> fs_network_preset s = 2" by unat_arith
  then show ?thesis
    using b by (auto simp: make_options_def default_start_options_def default_live_options_def apply_preset_def
        validate_live_config_def Let_def)
qed

lemma accepted_startable:
  assumes "refused_settings s = None" "fs_mode s \<noteq> EM_UdpPeer"
  shows "startable (make_options s)"
  using accepted_presets [OF assms(1)] assms(2)
  by (simp add: startable_def make_options_def default_start_options_def Let_def RL_VARIANT_CANONICAL_def
      RL_VARIANT_DAMAGE_BIAS_def)

lemma accepted_udp:
  assumes "refused_settings s = None" "fs_mode s = EM_UdpPeer"
  shows "validate_udp_config (Some (fo_udp (make_options s))) = RL_OK"
proof -
  have b: "fs_frame_count s \<noteq> 0" "\<not> fs_frame_count s > 240" "\<not> fs_listen_port s > 65535" "fs_relay_port s \<noteq> 0"
    "\<not> fs_relay_port s > 65535" "fs_listen_port s = 0 \<or> fs_listen_port s \<noteq> fs_relay_port s"
    "fs_handshake_timeout_ms s \<noteq> 0" "\<not> fs_handshake_timeout_ms s > 60000" "fs_run_timeout_ms s \<noteq> 0"
    "\<not> fs_run_timeout_ms s > 60000" "\<not> fs_hello_protocol s > 65535"
    using assms by (auto simp: refused_settings_def split: if_splits)
  then have "fs_listen_port s \<noteq> fs_relay_port s" by auto
  with b assms(2) show ?thesis
    by (simp add: make_options_def default_start_options_def default_udp_options_def Let_def validate_udp_config_def)
qed

section \<open>The properties\<close>

text \<open>A small engine that the hypotheses below hold for: the lowest free address, and no time.\<close>

definition no_time :: "unit Doubles" where
  "no_time =
     \<lparr>db_zero = (), db_fixed_step = (), db_thousand = (), db_largest = (), db_plus = (\<lambda>_ _. ()), db_minus = (\<lambda>_ _. ()),
      db_times = (\<lambda>_ _. ()), db_quotient = (\<lambda>_ _. ()), db_fmod = (\<lambda>_ _. ()), db_max = (\<lambda>_ _. ()),
      db_less = (\<lambda>_ _. False), db_at_least = (\<lambda>_ _. True), db_is_finite = (\<lambda>_. True), db_of_u32 = (\<lambda>_. ()),
      db_floor = (\<lambda>_. 0), db_to_u64 = (\<lambda>_. 0)\<rparr>"

definition lowest :: "(nat \<Rightarrow> 'a option) \<Rightarrow> nat" where "lowest store = (LEAST n. store n = None)"

lemma lowest_free: "finite (dom store) \<Longrightarrow> store (lowest store) = None"
proof -
  assume "finite (dom store)"
  then obtain n where "n \<notin> dom store" using ex_new_if_finite [OF infinite_UNIV_nat] by blast
  then have "store n = None" by (simp add: domIff)
  then show ?thesis unfolding lowest_def by (rule LeastI)
qed

definition bridge_build :: BuildInfo where
  "bridge_build = \<lparr>bi_git_sha = replicate 40 CHR ''a'', bi_build_type = ''Release'', bi_compiler = ''MSVC'', bi_os = ''Windows''\<rparr>"

definition sample_manifest :: "unit Manifest" where
  "sample_manifest =
     \<lparr>mf_number = (\<lambda>_. Some ()),
      mf_string = map_of [(''sdk_version'', ''0.2.0-candidate''), (''configuration'', ''Release''), (''architecture'', ''x64''),
        (''runtime'', ''MD''), (''linkage'', ''shared''), (''source_git_sha'', replicate 40 CHR ''a'')],
      mf_bool = map_of [(''source_clean'', True)],
      mf_files = Some (map (\<lambda>path. Some (map_of [(''path'', path), (''sha256'', replicate 64 CHR ''0'')]))
        [''bin/rollback_lab_c.dll'', ''include/rollback_lab/c_api/rollback_lab_c.h'', ''lib/rollback_lab_c.lib''])\<rparr>"

definition sample_loader :: "('s, unit) Loader" where
  "sample_loader =
     \<lparr>ld_plugin_dir = Some ''plugin'', ld_full_path = (\<lambda>p. p), ld_combine = (\<lambda>p q. p @ ''/'' @ q),
      ld_file_size = (\<lambda>_ _. 64), ld_read_bytes = (\<lambda>_ _. Some []), ld_read_text = (\<lambda>_ _. Some ''{}''),
      ld_file_exists = (\<lambda>_ _. True), ld_parse = (\<lambda>_. Some sample_manifest), ld_sha256 = (\<lambda>_. Some (replicate 32 0)),
      ld_load_library = (\<lambda>_ w. (Inr 1, w)), ld_has_export = (\<lambda>_ _. True), ld_free_library = (\<lambda>_ w. w),
      ld_expected_source_sha = replicate 40 CHR ''A'', ld_expected_manifest_sha256 = replicate 64 CHR ''0''\<rparr>"

lemma sample_manifest_checked: "check_manifest sample_loader () default_start_options sample_manifest = Inr (replicate 64 CHR ''0'')"
  by code_simp

lemma sample_hash: "64 \<le> limit \<Longrightarrow> hash_file sample_loader path limit os = Some (replicate 64 CHR ''0'')"
proof -
  have "digest_text (replicate 32 0) = replicate 64 CHR ''0''" by code_simp
  moreover assume "64 \<le> limit"
  ultimately show ?thesis by (simp add: hash_file_def sample_loader_def)
qed

lemma sample_loader_parts:
  "ld_plugin_dir sample_loader = Some ''plugin''" "ld_full_path sample_loader p = p"
  "ld_combine sample_loader p q = p @ ''/'' @ q" "ld_file_size sample_loader p w = 64"
  "ld_read_text sample_loader p w = Some ''{}''" "ld_file_exists sample_loader p w"
  "ld_parse sample_loader t = Some sample_manifest" "ld_load_library sample_loader p w = (Inr 1, w)"
  "ld_expected_manifest_sha256 sample_loader = replicate 64 CHR ''0''"
  "ld_expected_source_sha sample_loader = replicate 40 CHR ''A''"
  by (simp_all add: sample_loader_def)

lemma sample_verified:
  fixes os :: 's
  assumes "fo_sdk_root_override options = []" "fo_expected_source_git_sha options = []"
  shows "\<exists>path. verify_manifest sample_loader u options os = Inr path"
proof -
  let ?ld = "sample_loader :: ('s, unit) Loader"
  have default: "fo_expected_source_git_sha default_start_options = []" by (simp add: default_start_options_def)
  have source: "manifest_source ?ld options m = manifest_source ?ld default_start_options m" for m
    unfolding manifest_source_def assms(2) default by (rule refl)
  have checked: "check_manifest ?ld u default_start_options sample_manifest = Inr (replicate 64 CHR ''0'')"
    using sample_manifest_checked by simp
  have "check_manifest ?ld u options sample_manifest = check_manifest ?ld u default_start_options sample_manifest"
    unfolding check_manifest_def source by (rule refl)
  with checked have "check_manifest ?ld u options sample_manifest = Inr (replicate 64 CHR ''0'')" by (rule trans [rotated])
  then have "\<exists>path. (case check_manifest ?ld u options sample_manifest of Inl e \<Rightarrow> Inl e
      | Inr h \<Rightarrow> check_digests ?ld root manifest h os) = Inr path" for root manifest
    by (simp add: check_digests_def sample_hash digest_is_def same_text_def Let_def sample_loader_parts)
  then show ?thesis
    using assms(1) by (simp add: verify_manifest_def sdk_root_def default_sdk_root_def Let_def sample_loader_parts)
qed

lemma sample_exports: "missing_export sample_loader handle names = None"
  by (induction names) (simp_all add: sample_loader_def)

definition sample_engine :: "'s Host \<Rightarrow> ('s, unit) Engine" where
  "sample_engine host =
     \<lparr>en_build = bridge_build, en_host = host, en_game_thread = 7, en_loader = sample_loader,
      en_seconds = (\<lambda>_. ()), en_new_session = lowest, en_new_live = lowest,
      en_new_peer = lowest, en_double = no_time\<rparr>"

definition idle_world :: "'s \<Rightarrow> 's BridgeWorld" where
  "idle_world os =
     \<lparr>bw_sessions = (\<lambda>_. None), bw_lives = (\<lambda>_. None), bw_peers = (\<lambda>_. None), bw_os = os, bw_libraries = 0,
      bw_session_count = 0, bw_driver_count = 0\<rparr>"

lemma sample_engine_ok:
  "allocates (sample_engine host)" "finite_world (idle_world os)"
  by (simp_all add: allocates_def sample_engine_def finite_world_def idle_world_def lowest_free)

lemma sample_source: "is_hex (replicate 40 CHR ''a'') 40" "same_text (replicate 40 CHR ''a'') (replicate 40 CHR ''A'')"
  by code_simp+

lemma sample_engine_parts:
  "en_loader (sample_engine host) = sample_loader" "bi_git_sha (en_build (sample_engine host)) = replicate 40 CHR ''a''"
  by (simp_all only: sample_engine_def bridge_build_def Engine.select_convs BuildInfo.select_convs)

lemma sample_trusted:
  fixes host :: "'s Host"
  assumes "fo_sdk_root_override options = []" "fo_expected_source_git_sha options = []"
  shows "trusted_library (sample_engine host) options"
proof -
  let ?ld = "sample_loader :: ('s, unit) Loader"
  have t: "take 40 (replicate 40 CHR ''a'') = replicate 40 CHR ''a''" by (rule take_all) simp
  show ?thesis
    unfolding trusted_library_def sample_engine_parts sample_loader_parts t
  proof (intro conjI allI)
    fix os :: 's
    obtain path where p: "verify_manifest ?ld (db_of_u32 (en_double (sample_engine host)) 1) options os = Inr path"
      by (rule exE [OF sample_verified [OF assms]])
    show "\<exists>path handle os'. verify_manifest ?ld (db_of_u32 (en_double (sample_engine host)) 1) options os = Inr path
      \<and> (Inr 1, os) = (Inr handle :: u32 + nat, os') \<and> missing_export ?ld handle (required_exports options) = None"
      by (intro exI conjI, rule p, rule refl, rule sample_exports)
  qed (rule sample_source)+
qed

lemma sample_options_trusted:
  "trusted_library (sample_engine host) default_start_options"
  "trusted_library (sample_engine host) (make_options initial_settings)"
  by (rule sample_trusted; simp add: default_start_options_def make_options_def initial_settings_def Let_def)+

lemma sample_settings_ok: "refused_settings initial_settings = None" "fs_mode initial_settings \<noteq> EM_UdpPeer"
  by (simp_all add: refused_settings_def initial_settings_def)

text \<open>
  C16. Whatever the engine did with a runtime before, in any order, with any arguments and with the world moving on
  between the calls, stopping it on its thread never fails a check, and gives back exactly what it took: the sessions, the
  drivers, the loaded library and the counters of the process are those from before the runtime was made. Starting
  again and resetting never fail a check either.
\<close>

theorem bridge_gives_back:
  assumes "allocates en" and "finite_world w0" and "bridge_reach en w0 im w"
  shows "(\<exists>im' w'. stop en (en_game_thread en) im w = Some (im', w') \<and> im_resources im' = None \<and> unchanged w0 w')
    \<and> (\<forall>options. start en (en_game_thread en) options im w \<noteq> None) \<and> reset en (en_game_thread en) im w \<noteq> None"
proof -
  have inv: "bridge_inv en w0 im w" using bridge_reach_inv assms by blast
  have "start en (en_game_thread en) options im w \<noteq> None" for options
    using runtime_start_inv [OF inv assms(1,2), of "en_game_thread en" options] by auto
  moreover have "reset en (en_game_thread en) im w \<noteq> None"
    using runtime_reset_inv [OF inv assms(1,2), of "en_game_thread en"] by auto
  ultimately show ?thesis using runtime_stop_inv [OF inv] by blast
qed

lemma sample_started:
  "\<exists>im w. bridge_reach (sample_engine memory_host) (idle_world empty_memory) im w \<and> begun default_start_options im"
proof -
  let ?en = "sample_engine memory_host" and ?w0 = "idle_world empty_memory"
  have inv: "bridge_inv ?en ?w0 (new_runtime ?en) ?w0"
    by (rule bridge_reach_inv [OF bridge_reach.created sample_engine_ok])
  have "startable default_start_options"
    by (simp add: startable_def default_start_options_def default_live_options_def RL_VARIANT_CANONICAL_def
        RL_VARIANT_DAMAGE_BIAS_def validate_live_config_def)
  from start_succeeds [OF inv sample_engine_ok this sample_options_trusted(1)] obtain im w where
    "start ?en (en_game_thread ?en) default_start_options (new_runtime ?en) ?w0 = Some (result_ok, im, w)"
    "begun default_start_options im" by blast
  with bridge_reach.started [OF bridge_reach.created] show ?thesis by blast
qed

theorem bridge_gives_back_witness:
  "\<exists>im w. bridge_reach (sample_engine memory_host) (idle_world empty_memory) im w \<and> running im
    \<and> (\<exists>im' w'. stop (sample_engine memory_host) 7 im w = Some (im', w') \<and> unchanged (idle_world empty_memory) w')"
proof -
  obtain im w where r: "bridge_reach (sample_engine memory_host) (idle_world empty_memory) im w"
    "begun default_start_options im" using sample_started by blast
  from bridge_gives_back [OF sample_engine_ok r(1)] r show ?thesis
    by (auto simp: sample_engine_def begun_def)
qed

text \<open>
  The demo's own limits lie within the library's: from any state of the runtime, settings that the arena model
  accepts start a run. Outside the UDP mode the start succeeds, with a library that the loader trusts, and leaves a
  running runtime with two different peers that both show the initial world, and the model keeps the settings; in the UDP
  mode the options pass the library's own check of them.
\<close>

theorem arena_start_succeeds:
  assumes "refused_settings s = None" and "allocates en" and "finite_world w0" and "bridge_reach en w0 im w"
    and "trusted_library en (make_options s)"
  shows "if fs_mode s = EM_UdpPeer then validate_udp_config (Some (fo_udp (make_options s))) = RL_OK
    else \<exists>im' w'. model_start en (en_game_thread en) s m im w
        = Some (result_ok, m\<lparr>fm_settings := s, fm_options := make_options s, fm_has_settings := True\<rparr>, im', w')
      \<and> begun (make_options s) im'"
proof (cases "fs_mode s = EM_UdpPeer")
  case True
  with accepted_udp [OF assms(1)] show ?thesis by simp
next
  case False
  have inv: "bridge_inv en w0 im w" using bridge_reach_inv assms(2-4) by blast
  have "is_ok result_ok" by (simp add: is_ok_def result_ok_def)
  with start_succeeds [OF inv assms(2,3) accepted_startable [OF assms(1) False] assms(5)] assms(1) False
  show ?thesis by (auto simp: model_start_def Let_def)
qed

theorem arena_start_succeeds_witness:
  "\<exists>im w m im' w'. bridge_reach (sample_engine memory_host) (idle_world empty_memory) im w \<and> running im
    \<and> model_start (sample_engine memory_host) 7 initial_settings new_model im w = Some (result_ok, m, im', w')
    \<and> fm_has_settings m \<and> running im'"
proof -
  obtain im w where r: "bridge_reach (sample_engine memory_host) (idle_world empty_memory) im w"
    "begun default_start_options im" using sample_started by blast
  from arena_start_succeeds [OF sample_settings_ok(1) sample_engine_ok r(1) sample_options_trusted(2), of new_model]
    sample_settings_ok(2)
  obtain im' w' where "model_start (sample_engine memory_host) 7 initial_settings new_model im w = Some (result_ok,
      new_model\<lparr>fm_settings := initial_settings, fm_options := make_options initial_settings, fm_has_settings := True\<rparr>,
      im', w')" "begun (make_options initial_settings) im'" by (auto simp: sample_engine_def)
  with r show ?thesis by (fastforce simp: begun_def)
qed

end
