(* ===== verification/BridgeTrust.thy ===== *)
theory BridgeTrust
  imports BridgeStart
begin

text \<open>
  What the loader's checks are worth: a library is used only when its bytes have the digest that the manifest gives
  for it, and the manifest's own bytes have the digest that was compiled in.
\<close>

section \<open>The file list\<close>

abbreviation dll_name :: string where "dll_name \<equiv> ''bin/rollback_lab_c.dll''"

definition gives_digest :: "(string \<Rightarrow> string option) option \<Rightarrow> string \<Rightarrow> bool" where
  "gives_digest entry hash \<longleftrightarrow>
     (\<exists>e path. entry = Some e \<and> e ''path'' = Some path \<and> same_text path dll_name \<and> e ''sha256'' = Some hash
        \<and> is_hex hash 64)"

definition names_dll :: "(string \<Rightarrow> string option) option \<Rightarrow> bool" where
  "names_dll entry \<longleftrightarrow> (\<exists>e path. entry = Some e \<and> e ''path'' = Some path \<and> same_text path dll_name)"

text \<open>One turn of the loop that goes on.\<close>

lemma check_files_step:
  assumes "check_files (entry # entries) seen dll_hash = Inr r"
  obtains e path hash where "entry = Some e" "e ''path'' = Some path" "e ''sha256'' = Some hash" "is_hex hash 64"
    "to_lower path \<notin> set seen"
    "check_files entries (to_lower path # seen) (if same_text path dll_name then hash else dll_hash) = Inr r"
  using assms by (cases entry) (auto split: option.splits if_splits)

text \<open>Once the library was seen its digest stays, and no later entry names it.\<close>

lemma check_files_seen:
  "\<lbrakk>check_files entries seen dll_hash = Inr (seen', hash); to_lower dll_name \<in> set seen\<rbrakk>
   \<Longrightarrow> hash = dll_hash \<and> (\<forall>entry \<in> set entries. \<not> names_dll entry)"
proof (induction entries arbitrary: seen dll_hash)
  case Nil
  then show ?case by simp
next
  case (Cons entry entries)
  from Cons.prems(1) obtain e path h where s: "entry = Some e" "e ''path'' = Some path" "to_lower path \<notin> set seen"
    "check_files entries (to_lower path # seen) (if same_text path dll_name then h else dll_hash) = Inr (seen', hash)"
    by (rule check_files_step)
  then have n: "\<not> same_text path dll_name" using Cons.prems(2) by (auto simp: same_text_def)
  with s Cons.IH [of "to_lower path # seen" dll_hash] Cons.prems(2) show ?case by (auto simp: names_dll_def)
qed

lemma check_files_digest:
  "\<lbrakk>check_files entries seen dll_hash = Inr (seen', hash); to_lower dll_name \<notin> set seen; dll_hash = ''''; hash \<noteq> ''''\<rbrakk>
   \<Longrightarrow> \<exists>entry \<in> set entries. gives_digest entry hash \<and> (\<forall>other \<in> set entries. names_dll other \<longrightarrow> gives_digest other hash)"
proof (induction entries arbitrary: seen)
  case Nil
  then show ?case by simp
next
  case (Cons entry entries)
  from Cons.prems(1) obtain e path h where s: "entry = Some e" "e ''path'' = Some path" "e ''sha256'' = Some h"
    "is_hex h 64"
    "check_files entries (to_lower path # seen) (if same_text path dll_name then h else dll_hash) = Inr (seen', hash)"
    by (rule check_files_step)
  show ?case
  proof (cases "same_text path dll_name")
    case True
    with check_files_seen [OF s(5)] have "hash = h" "\<forall>entry \<in> set entries. \<not> names_dll entry"
      by (auto simp: same_text_def)
    with True s(1-4) show ?thesis by (auto simp: gives_digest_def)
  next
    case False
    then have "to_lower dll_name \<notin> set (to_lower path # seen)"
      using Cons.prems(2) by (auto simp: same_text_def)
    moreover have "\<not> names_dll entry" using False s(1,2) by (auto simp: names_dll_def)
    ultimately show ?thesis using Cons.IH [of "to_lower path # seen"] s(5) False Cons.prems(3,4) by auto
  qed
qed

section \<open>The checks together\<close>

definition file_digest :: "('s, 'd) Loader \<Rightarrow> string \<Rightarrow> 's \<Rightarrow> string option" where
  "file_digest ld path w = Option.bind (ld_read_bytes ld path w) (\<lambda>bytes. map_option digest_text (ld_sha256 ld bytes))"

lemma hash_file_digest: "hash_file ld path limit w = Some h \<Longrightarrow> file_digest ld path w = Some h"
  by (auto simp: hash_file_def file_digest_def Let_def split: if_splits option.splits)

lemma digest_is_file:
  "digest_is (hash_file ld path limit w) expected \<Longrightarrow> digest_is (file_digest ld path w) expected"
  using hash_file_digest by (fastforce simp: digest_is_def split: option.splits)

lemma check_manifest_ok:
  assumes "check_manifest ld one options m = Inr hash"
  shows "manifest_source ld options m
    \<and> (\<exists>files. mf_files m = Some files \<and> (\<exists>entry \<in> set files. gives_digest entry hash
        \<and> (\<forall>other \<in> set files. names_dll other \<longrightarrow> gives_digest other hash)))"
proof -
  obtain files seen where f: "manifest_source ld options m" "mf_files m = Some files"
    "check_files files [] '''' = Inr (seen, hash)" "hash \<noteq> ''''"
    using assms unfolding check_manifest_def by (auto split: if_splits option.splits sum.splits prod.splits)
  with check_files_digest [OF f(3)] show ?thesis by auto
qed

text \<open>What a library that the bridge uses has been checked for.\<close>

definition trusted_file :: "('s, 'd) Loader \<Rightarrow> 's \<Rightarrow> string \<Rightarrow> bool" where
  "trusted_file ld w dll_path \<longleftrightarrow>
     (\<exists>manifest_path json m files hash.
        digest_is (file_digest ld manifest_path w) (ld_expected_manifest_sha256 ld)
      \<and> ld_read_text ld manifest_path w = Some json \<and> ld_parse ld json = Some m \<and> mf_files m = Some files
      \<and> (\<exists>entry \<in> set files. gives_digest entry hash)
      \<and> (\<forall>other \<in> set files. names_dll other \<longrightarrow> gives_digest other hash)
      \<and> digest_is (file_digest ld dll_path w) hash)"

lemma verify_manifest_trusted:
  assumes "verify_manifest ld one options w = Inr dll_path"
  shows "trusted_file ld w dll_path"
proof -
  let ?root = "ld_full_path ld (sdk_root ld options)"
  let ?mp = "ld_combine ld ?root ''manifest.json''"
  obtain m hash where v: "Option.bind (ld_read_text ld ?mp w) (ld_parse ld) = Some m"
    "check_manifest ld one options m = Inr hash" "check_digests ld ?root ?mp hash w = Inr dll_path"
    using assms by (auto simp: verify_manifest_def Let_def split: if_splits option.splits sum.splits)
  obtain json where j: "ld_read_text ld ?mp w = Some json" "ld_parse ld json = Some m"
    using v(1) by (auto simp: bind_eq_Some_conv)
  have d: "digest_is (file_digest ld ?mp w) (ld_expected_manifest_sha256 ld)" "digest_is (file_digest ld dll_path w) hash"
    using v(3) digest_is_file by (auto simp: check_digests_def Let_def split: if_splits)
  show ?thesis
    using check_manifest_ok [OF v(2)] j d unfolding trusted_file_def by blast
qed

lemma no_missing_export:
  "missing_export ld handle names = None \<longleftrightarrow> (\<forall>name \<in> set names. ld_has_export ld handle name)"
  by (induction names) simp_all

text \<open>
  C19. A library that the loader hands out was loaded from a file whose bytes have the SHA-256 digest that every entry
  for the library in the manifest gives, and the manifest's own bytes have the digest compiled into the bridge; it has
  every function that the bridge calls, and reports the source revision the bridge was compiled for.
\<close>

theorem loaded_library_trusted:
  assumes "load_sdk ld one build options w = (Inr library, w')"
  shows "(\<exists>dll_path. trusted_file ld w dll_path \<and> ld_load_library ld dll_path w = (Inr (sd_handle library), w'))
    \<and> (\<forall>name \<in> set (required_exports options). ld_has_export ld (sd_handle library) name)
    \<and> same_text (vi_source_git_sha (sd_version library)) (ld_expected_source_sha ld)"
proof -
  obtain dll_path handle v where l: "verify_manifest ld one options w = Inr dll_path"
    "ld_load_library ld dll_path w = (Inr handle, w')" "missing_export ld handle (required_exports options) = None"
    "check_version ld build options = Inr v" "library = \<lparr>sd_handle = handle, sd_version = v\<rparr>"
    using assms by (auto simp: load_sdk_def split: sum.splits prod.splits option.splits)
  have "same_text (vi_source_git_sha v) (ld_expected_source_sha ld)"
    using l(4) by (auto simp: check_version_def split: prod.splits option.splits if_splits)
  with verify_manifest_trusted [OF l(1)] l(2,3,5) show ?thesis by (auto simp: no_missing_export)
qed

theorem loaded_library_trusted_witness:
  "\<exists>library. fst (load_sdk sample_loader () bridge_build default_start_options empty_memory) = Inr library
    \<and> same_text (vi_source_git_sha (sd_version library)) (replicate 40 CHR ''A'')
    \<and> ld_has_export (sample_loader :: (Memory, unit) Loader) (sd_handle library) ''rl_live_step''"
proof -
  let ?en = "sample_engine memory_host"
  obtain library w where l: "load_sdk (en_loader ?en) (db_of_u32 (en_double ?en) 1) (en_build ?en) default_start_options
      empty_memory = (Inr library, w)"
    using load_sdk_succeeds [OF sample_options_trusted(1), where os = empty_memory] by blast
  have b: "en_build ?en = bridge_build" by (simp add: sample_engine_def)
  have n: "''rl_live_step'' \<in> set (required_exports default_start_options)"
    by (simp add: required_exports_def session_exports_def)
  from loaded_library_trusted [OF l] l n show ?thesis
    by (simp add: sample_engine_parts sample_loader_parts(10) b)
qed

end
