(* ===== verification/SceneSettings.thy ===== *)
theory SceneSettings
  imports Arena Files
begin

text \<open>
  The command line of the Unreal Engine demo: \<open>ReadSettings\<close> and its helpers in \<open>RollbackArenaView.cpp\<close>, under
  \<open>examples/ue5/RollbackArena/Source/RollbackArenaDemo/Private\<close>, with the state of the view it fills. The engine is the
  parameter \<open>Scenery\<close>: the parser of the command line, paths, files, screenshots, keys and the state of the meshes.
\<close>

section \<open>The outside\<close>

datatype EKey =
    KeyW | KeyUp | KeyS | KeyDown | KeyA | KeyLeft | KeyD | KeyRight | KeySpaceBar | KeyEscape | KeyP | KeyR | KeyN
  | KeyOne | KeyTwo | KeyThree | KeyPeriod

text \<open>\<open>sy_value\<close> and \<open>sy_param\<close> are \<open>FParse::Value\<close> and \<open>FParse::Param\<close> on the process's command line.\<close>

record ('s, 'd) Scenery =
  sy_value :: "string \<Rightarrow> string option"
  sy_param :: "string \<Rightarrow> bool"
  sy_contains :: "string \<Rightarrow> bool"
  sy_saved_dir :: string
  sy_combine :: "string \<Rightarrow> string \<Rightarrow> string"
  sy_get_path :: "string \<Rightarrow> string"
  sy_full_path :: "string \<Rightarrow> string"
  sy_make_directory :: "string \<Rightarrow> 's \<Rightarrow> bool \<times> 's"
  sy_save_text :: "string \<Rightarrow> string \<Rightarrow> 's \<Rightarrow> bool \<times> 's"
  sy_save_bytes :: "byte list \<Rightarrow> string \<Rightarrow> 's \<Rightarrow> bool \<times> 's"
  sy_move :: "string \<Rightarrow> string \<Rightarrow> 's \<Rightarrow> bool \<times> 's"
  sy_delete :: "string \<Rightarrow> 's \<Rightarrow> 's"
  sy_file_size :: "string \<Rightarrow> 's \<Rightarrow> int"
  sy_parse :: "string \<Rightarrow> 'd Manifest option"
  sy_pid :: u32
  sy_visuals :: "'s \<Rightarrow> bool"
  sy_bridge :: bool
  sy_controller :: "'s \<Rightarrow> bool"
  sy_key_down :: "EKey \<Rightarrow> 's \<Rightarrow> bool"
  sy_key_pressed :: "EKey \<Rightarrow> 's \<Rightarrow> bool"
  sy_compiling :: "'s \<Rightarrow> bool"
  sy_presentation_ready :: "'s \<Rightarrow> bool"
  sy_request_screenshot :: "string \<Rightarrow> 's \<Rightarrow> 's"
  sy_reset_screenshots :: "'s \<Rightarrow> 's"

section \<open>The state of the view\<close>

record 'd AView =
  av_failure :: string
  av_capture_directory :: string
  av_trace_path :: string
  av_ready_path :: string
  av_requested_git_sha :: string
  av_pending_capture :: string
  av_seen_a :: u64
  av_seen_b :: u64
  av_started_at :: 'd
  av_exit_after_seconds :: u64
  av_smoke :: bool
  av_capture_pending :: bool
  av_start_captured :: bool
  av_udp_mode :: bool
  av_udp_smoke :: bool
  av_failure_capture_pending :: bool
  av_failure_capture_attempted :: bool
  av_requested :: FSettings
  av_correction_captured :: bool
  av_final_captured :: bool
  av_written :: bool
  av_exiting :: bool
  av_warmup_ticks :: u32
  av_pending_buttons :: u32
  av_model :: "FModel option"
  av_bridge :: bool
  av_listening :: bool

definition new_view :: "'d Doubles \<Rightarrow> 'd AView" where
  "new_view db =
     \<lparr>av_failure = '''', av_capture_directory = '''', av_trace_path = '''', av_ready_path = '''',
      av_requested_git_sha = '''', av_pending_capture = '''', av_seen_a = 0, av_seen_b = 0, av_started_at = db_zero db,
      av_exit_after_seconds = 0, av_smoke = False, av_capture_pending = False, av_start_captured = False,
      av_udp_mode = False, av_udp_smoke = False, av_failure_capture_pending = False,
      av_failure_capture_attempted = False, av_requested = initial_settings, av_correction_captured = False,
      av_final_captured = False, av_written = False, av_exiting = False, av_warmup_ticks = 3, av_pending_buttons = 0,
      av_model = None, av_bridge = False, av_listening = False\<rparr>"

section \<open>Numbers\<close>

fun parse_unsigned :: "string \<Rightarrow> string \<Rightarrow> u64 \<Rightarrow> string + u64" where
  "parse_unsigned key [] parsed = Inr parsed"
| "parse_unsigned key (c # cs) parsed =
     (let n = of_char c :: nat in
      if n < 48 \<or> n > 57 then Inl (''Expected unsigned decimal: '' @ key)
      else
        (let digit = of_nat (n - 48) in
         if parsed > (- 1 - digit) div 10 then Inl (''Numeric option overflow: '' @ key)
         else parse_unsigned key cs (parsed * 10 + digit)))"

definition read_unsigned :: "('s, 'd) Scenery \<Rightarrow> string \<Rightarrow> u64 \<Rightarrow> string + u64" where
  "read_unsigned sy key value =
     (let prefix = key @ ''='' in
      case sy_value sy prefix of
        None \<Rightarrow> (if sy_contains sy prefix then Inl (''Empty numeric option: '' @ key) else Inr value)
      | Some text \<Rightarrow>
          if text = '''' then Inl (''Empty numeric option: '' @ key) else parse_unsigned key text 0)"

definition read_bounded :: "('s, 'd) Scenery \<Rightarrow> string \<Rightarrow> u32 \<Rightarrow> u64 \<Rightarrow> u64 \<Rightarrow> string + u32" where
  "read_bounded sy key value least most =
     (case read_unsigned sy key (ucast value) of
        Inl e \<Rightarrow> Inl e
      | Inr v \<Rightarrow> if v < least \<or> v > most then Inl (''UDP option outside its bounds: '' @ key) else Inr (ucast v))"

section \<open>The steps of \<open>ReadSettings\<close>\<close>

text \<open>A step leaves a message when it fails, and then what it changed before that stays.\<close>

type_synonym 'd Step = "'d AView \<Rightarrow> string option \<times> 'd AView"

definition and_then :: "'d Step \<Rightarrow> 'd Step \<Rightarrow> 'd Step" where
  "and_then f g av = (case f av of (Some e, av) \<Rightarrow> (Some e, av) | (None, av) \<Rightarrow> g av)"

definition unless :: "('d AView \<Rightarrow> bool) \<Rightarrow> string \<Rightarrow> 'd Step" where
  "unless bad message av = (if bad av then (Some message, av) else (None, av))"

definition value_or :: "string option \<Rightarrow> string \<Rightarrow> string" where
  "value_or v old = (case v of None \<Rightarrow> old | Some s \<Rightarrow> s)"

definition udp_peer_text :: "('s, 'd) Scenery \<Rightarrow> string option" where
  "udp_peer_text sy = sy_value sy ''RollbackLabUdpPeer=''"

text \<open>The modes and where evidence goes, which are settled before any other option is looked at.\<close>

definition read_modes :: "('s, 'd) Scenery \<Rightarrow> 'd Step" where
  "read_modes sy av =
     (let udp_smoke = sy_param sy ''RollbackLabUdpSmoke'';
          smoke = sy_param sy ''RollbackLabSmoke'' \<or> udp_smoke;
          udp_mode = udp_smoke \<or> udp_peer_text sy \<noteq> None \<or> sy_contains sy ''RollbackLabUdpPeer='';
          trace = value_or (sy_value sy ''RollbackLabTrace='') (av_trace_path av);
          capture = value_or (sy_value sy ''RollbackLabCaptureDir='') (av_capture_directory av);
          trace = (if smoke \<and> trace = '''' then sy_combine sy (sy_saved_dir sy) ''RollbackSmoke/ue-trace.json'' else trace);
          capture = (if smoke \<and> capture = '''' then sy_combine sy (sy_get_path sy trace) ''captures'' else capture)
      in (None, av\<lparr>av_udp_smoke := udp_smoke, av_smoke := smoke, av_udp_mode := udp_mode,
                  av_ready_path := value_or (sy_value sy ''RollbackLabUdpReady='') (av_ready_path av),
                  av_capture_directory := capture,
                  av_requested_git_sha := value_or (sy_value sy ''RollbackLabGitSha='') (av_requested_git_sha av),
                  av_trace_path := (if trace \<noteq> '''' then sy_full_path sy trace else trace)\<rparr>))"

definition read_ready_path :: "('s, 'd) Scenery \<Rightarrow> 'd Step" where
  "read_ready_path sy av =
     (let wants = sy_value sy ''RollbackLabUdpReady='' \<noteq> None \<or> sy_contains sy ''RollbackLabUdpReady='' in
      if wants \<and> (\<not> av_udp_mode av \<or> av_ready_path av = '''')
      then (Some ''RollbackLabUdpReady requires UDP peer mode and a nonempty output path.'', av)
      else (None, if av_ready_path av \<noteq> '''' then av\<lparr>av_ready_path := sy_full_path sy (av_ready_path av)\<rparr> else av))"

definition bad_peer :: "('s, 'd) Scenery \<Rightarrow> bool" where
  "bad_peer sy \<longleftrightarrow>
     (case udp_peer_text sy of None \<Rightarrow> True | Some text \<Rightarrow> \<not> same_text text ''A'' \<and> \<not> same_text text ''B'')"

definition command_mode :: "('s, 'd) Scenery \<Rightarrow> 'd AView \<Rightarrow> EMode" where
  "command_mode sy av =
     (if av_udp_mode av then EM_UdpPeer
      else if sy_param sy ''RollbackLabDesync'' then EM_Desync
      else if av_smoke av \<or> sy_param sy ''RollbackLabAuto'' then EM_AutoDemo else EM_Interactive)"

definition read_mode :: "('s, 'd) Scenery \<Rightarrow> 'd Step" where
  "read_mode sy av =
     (let s = default_settings (command_mode sy av) in
      (None, av\<lparr>av_requested :=
         (if av_udp_mode av
          then s\<lparr>fs_local_peer := (case udp_peer_text sy of
                     Some text \<Rightarrow> if same_text text ''A'' then RL_PEER_A else RL_PEER_B | None \<Rightarrow> RL_PEER_B)\<rparr>
          else s)\<rparr>))"

definition read_seed :: "('s, 'd) Scenery \<Rightarrow> 'd Step" where
  "read_seed sy av =
     (case read_unsigned sy ''RollbackLabScenarioSeed'' (fs_scenario_seed (av_requested av)) of
        Inl e \<Rightarrow> (Some e, av)
      | Inr v \<Rightarrow> (None, av\<lparr>av_requested := (av_requested av)\<lparr>fs_scenario_seed := v\<rparr>\<rparr>))"

definition read_transport_seed :: "('s, 'd) Scenery \<Rightarrow> 'd Step" where
  "read_transport_seed sy av =
     (case read_unsigned sy ''RollbackLabTransportSeed'' (fs_transport_seed (av_requested av)) of
        Inl e \<Rightarrow> (Some e, av)
      | Inr v \<Rightarrow> (None, av\<lparr>av_requested := (av_requested av)\<lparr>fs_transport_seed := v\<rparr>\<rparr>))"

text \<open>The number of frames and the preset are kept only when both are in range.\<close>

definition read_frames :: "('s, 'd) Scenery \<Rightarrow> 'd Step" where
  "read_frames sy av =
     (case read_unsigned sy ''RollbackLabFrames'' (ucast (fs_frame_count (av_requested av))) of
        Inl e \<Rightarrow> (Some e, av)
      | Inr frames \<Rightarrow>
          (case read_unsigned sy ''RollbackLabNetworkPreset'' (ucast (fs_network_preset (av_requested av))) of
             Inl e \<Rightarrow> (Some e, av)
           | Inr preset \<Rightarrow>
               if frames = 0 \<or> frames > (if av_udp_mode av then 240 else 36000) \<or> preset > 2
               then (Some ''Frames/preset outside the bounded demo contract.'', av)
               else if av_smoke av \<and> \<not> av_udp_smoke av \<and> (command_mode sy av \<noteq> EM_AutoDemo \<or> preset \<noteq> 1)
               then (Some ''Parity smoke requires the automatic default transport preset.'', av)
               else (None, av\<lparr>av_requested := (av_requested av)
                      \<lparr>fs_frame_count := ucast frames, fs_network_preset := ucast preset\<rparr>\<rparr>)))"

definition read_udp_option :: "('s, 'd) Scenery \<Rightarrow> string \<Rightarrow> (FSettings \<Rightarrow> u32) \<Rightarrow> (u32 \<Rightarrow> FSettings \<Rightarrow> FSettings)
    \<Rightarrow> u64 \<Rightarrow> u64 \<Rightarrow> 'd Step" where
  "read_udp_option sy key get put least most av =
     (case read_bounded sy key (get (av_requested av)) least most of
        Inl e \<Rightarrow> (Some e, av)
      | Inr v \<Rightarrow> (None, av\<lparr>av_requested := put v (av_requested av)\<rparr>))"

definition read_udp_options :: "('s, 'd) Scenery \<Rightarrow> 'd Step" where
  "read_udp_options sy av =
     (if \<not> av_udp_mode av then (None, av)
      else
        and_then (read_udp_option sy ''RollbackLabRelayPort'' fs_relay_port (\<lambda>v s. s\<lparr>fs_relay_port := v\<rparr>) 1 65535)
       (and_then (read_udp_option sy ''RollbackLabListenPort'' fs_listen_port (\<lambda>v s. s\<lparr>fs_listen_port := v\<rparr>) 0 65535)
       (and_then (read_udp_option sy ''RollbackLabUdpHelloProtocol'' fs_hello_protocol (\<lambda>v s. s\<lparr>fs_hello_protocol := v\<rparr>) 0 65535)
       (and_then (read_udp_option sy ''RollbackLabUdpHelloSimulation'' fs_hello_simulation
                    (\<lambda>v s. s\<lparr>fs_hello_simulation := v\<rparr>) 0 4294967295)
       (and_then (read_udp_option sy ''RollbackLabUdpHelloAbi'' fs_hello_abi (\<lambda>v s. s\<lparr>fs_hello_abi := v\<rparr>) 0 4294967295)
       (and_then (read_udp_option sy ''RollbackLabUdpVariant'' fs_udp_variant (\<lambda>v s. s\<lparr>fs_udp_variant := v\<rparr>) 0
                    (ucast RL_VARIANT_DAMAGE_BIAS))
       (and_then (read_udp_option sy ''RollbackLabUdpHandshakeTimeoutMs'' fs_handshake_timeout_ms
                    (\<lambda>v s. s\<lparr>fs_handshake_timeout_ms := v\<rparr>) 1 60000)
       (and_then (read_udp_option sy ''RollbackLabUdpRunTimeoutMs'' fs_run_timeout_ms
                    (\<lambda>v s. s\<lparr>fs_run_timeout_ms := v\<rparr>) 1 60000)
         (unless (\<lambda>av. fs_listen_port (av_requested av) \<noteq> 0
                    \<and> fs_listen_port (av_requested av) = fs_relay_port (av_requested av))
            ''UDP listen and relay ports must differ.'')))))))) av)"

definition read_exit_interval :: "('s, 'd) Scenery \<Rightarrow> 'd Step" where
  "read_exit_interval sy av =
     (case read_unsigned sy ''RollbackLabExitAfterSeconds'' 0 of
        Inl e \<Rightarrow> (Some e, av)
      | Inr v \<Rightarrow>
          if v > 7200 then (Some ''Invalid automatic exit interval.'', av)
          else (None, av\<lparr>av_exit_after_seconds := v\<rparr>))"

definition read_options :: "('s, 'd) Scenery \<Rightarrow> 'd Step" where
  "read_options sy =
     and_then (read_modes sy)
    (and_then (read_ready_path sy)
    (and_then (unless (\<lambda>av. av_udp_mode av \<and> bad_peer sy) ''RollbackLabUdpPeer must be A or B.'')
    (and_then (unless (\<lambda>av. av_udp_mode av \<and> sy_param sy ''RollbackLabSmoke'')
                 ''RollbackLabSmoke and UDP peer mode are mutually exclusive; use RollbackLabUdpSmoke.'')
    (and_then (unless (\<lambda>av. av_udp_mode av \<and> sy_param sy ''RollbackLabDesync'')
                 ''UDP controlled desync uses RollbackLabUdpVariant=1.'')
    (and_then (read_mode sy)
    (and_then (read_seed sy)
    (and_then (read_transport_seed sy)
    (and_then (read_frames sy)
    (and_then (read_udp_options sy)
              (read_exit_interval sy))))))))))"

text \<open>The whole function: whether it succeeded, with the view's failure set when it did not.\<close>

definition read_settings :: "('s, 'd) Scenery \<Rightarrow> 'd AView \<Rightarrow> 's \<Rightarrow> bool \<times> 'd AView \<times> 's" where
  "read_settings sy av w =
     (case read_options sy av of
        (Some e, av) \<Rightarrow> (False, av\<lparr>av_failure := e\<rparr>, w)
      | (None, av) \<Rightarrow>
          if av_capture_directory av = '''' then (True, av, w)
          else
            (let directory = sy_full_path sy (av_capture_directory av);
                 av = av\<lparr>av_capture_directory := directory\<rparr>;
                 (made, w) = sy_make_directory sy directory w
             in if \<not> made then (False, av\<lparr>av_failure := ''Cannot create capture directory.''\<rparr>, w) else (True, av, w)))"

end
