(* ===== verification/Scene.thy ===== *)
theory Scene
  imports SceneSettings
begin

text \<open>
  The view of the Unreal Engine demo: \<open>RollbackArenaView.h\<close>, \<open>RollbackArenaView.cpp\<close>. It reads the settings, starts the
  arena, plays a run with the keys or by itself, takes pictures, and in an automatic run leaves evidence and an exit status.
  All of it runs on the game thread, so the checks of the queries hold. A function returns \<open>None\<close> where a \<open>check\<close> of the bridge ends the process.

  What only draws is left out: components, materials, positions, the fading of a correction's mark, log lines.
\<close>

section \<open>State\<close>

text \<open>The exits the view has asked the platform for: at once or not, and with which status.\<close>

record ('s, 'd) Scene =
  sn_view :: "'d AView"
  sn_runtime :: "'d FImpl"
  sn_world :: "'s BridgeWorld"
  sn_exits :: "(bool \<times> nat) list"

definition on_view :: "('d AView \<Rightarrow> 'd AView) \<Rightarrow> ('s, 'd) Scene \<Rightarrow> ('s, 'd) Scene" where
  "on_view f sc = sc\<lparr>sn_view := f (sn_view sc)\<rparr>"

definition on_os :: "('s \<Rightarrow> 's) \<Rightarrow> ('s, 'd) Scene \<Rightarrow> ('s, 'd) Scene" where
  "on_os f sc = sc\<lparr>sn_world := (sn_world sc)\<lparr>bw_os := f (bw_os (sn_world sc))\<rparr>\<rparr>"

definition from_os :: "('s \<Rightarrow> 'a \<times> 's) \<Rightarrow> ('s, 'd) Scene \<Rightarrow> 'a \<times> ('s, 'd) Scene" where
  "from_os f sc = (let (a, os) = f (bw_os (sn_world sc)) in (a, sc\<lparr>sn_world := (sn_world sc)\<lparr>bw_os := os\<rparr>\<rparr>))"

definition has_model :: "('s, 'd) Scene \<Rightarrow> bool" where "has_model sc \<longleftrightarrow> av_model (sn_view sc) \<noteq> None"

section \<open>Text\<close>

definition quoted_char :: "char \<Rightarrow> string" where
  "quoted_char c =
     (if c = CHR 0x22 then [CHR 0x5C, CHR 0x22]
      else if c = CHR 0x5C then [CHR 0x5C, CHR 0x5C]
      else if c = CHR 0x0A then [CHR 0x5C] @ ''n''
      else if c = CHR 0x0D then [CHR 0x5C] @ ''r''
      else if c = CHR 0x09 then [CHR 0x5C] @ ''t''
      else if (of_char c :: nat) < 32
      then [CHR 0x5C] @ ''u00'' @ [hex_lower (of_char c div 16), hex_lower (of_char c mod 16)]
      else [c])"

definition quoted :: "string \<Rightarrow> string" where
  "quoted s = [CHR 0x22] @ concat (map quoted_char s) @ [CHR 0x22]"

definition hex16 :: "u64 \<Rightarrow> string" where
  "hex16 v = ''0x'' @ map (\<lambda>i. hex_upper (unat v div 16 ^ i mod 16)) (rev [0..<16])"

text \<open>A field on a line of its own, as the evidence has them.\<close>

definition field :: "string \<Rightarrow> string \<Rightarrow> string" where
  "field name value = nl @ ''  '' @ [CHR 0x22] @ name @ [CHR 0x22] @ '':'' @ value"

section \<open>Pictures\<close>

text \<open>\<open>UpdateProjection\<close>: of what it keeps, the corrections that were shown.\<close>

definition update_projection :: "('s, 'd) Scene \<Rightarrow> ('s, 'd) Scene" where
  "update_projection sc =
     (if \<not> has_model sc then sc
      else
        (let im = sn_runtime sc in
         on_view (\<lambda>av. av
           \<lparr>av_seen_a := (if fv_handle_identity (im_view_a im) \<noteq> None then fv_correction_revision (im_view_a im) else av_seen_a av),
            av_seen_b := (if fv_handle_identity (im_view_b im) \<noteq> None then fv_correction_revision (im_view_b im) else av_seen_b av)\<rparr>) sc))"

definition capture_path :: "('s, 'd) Scenery \<Rightarrow> string \<Rightarrow> 'd AView \<Rightarrow> string" where
  "capture_path sy name av = sy_combine sy (av_capture_directory av) (name @ ''.png'')"

definition request_capture :: "('s, 'd) Scenery \<Rightarrow> string \<Rightarrow> ('s, 'd) Scene \<Rightarrow> ('s, 'd) Scene" where
  "request_capture sy name sc =
     (let av = sn_view sc in
      if av_capture_pending av \<or> av_capture_directory av = '''' then sc
      else on_os (sy_request_screenshot sy (capture_path sy name av))
             (on_view (\<lambda>av. av\<lparr>av_pending_capture := name, av_capture_pending := True\<rparr>) sc))"

section \<open>Evidence\<close>

text \<open>What both kinds of evidence copy out of the runtime: text, or nothing when the copy fails or there is no model.\<close>

definition copied :: "('s, 'd) Scene \<Rightarrow> FResult + byte list \<Rightarrow> byte list option" where
  "copied sc r = (if has_model sc then (case r of Inl _ \<Rightarrow> None | Inr bytes \<Rightarrow> Some bytes) else None)"

definition scene_report :: "('s, 'd) Engine \<Rightarrow> ('s, 'd) Scene \<Rightarrow> string option" where
  "scene_report en sc =
     map_option text_of_bytes (copied sc (copy_report en (en_game_thread en) (sn_runtime sc) (sn_world sc)))"

definition scene_trace :: "('s, 'd) Engine \<Rightarrow> ('s, 'd) Scene \<Rightarrow> string option" where
  "scene_trace en sc =
     map_option text_of_bytes (copied sc (copy_trace en (en_game_thread en) (sn_runtime sc) (sn_world sc)))"

definition scene_status :: "('s, 'd) Engine \<Rightarrow> ('s, 'd) Scene \<Rightarrow> string option" where
  "scene_status en sc =
     map_option text_of_bytes (copied sc (copy_failure en (en_game_thread en) (sn_runtime sc) (sn_world sc)))"

definition scene_replay :: "('s, 'd) Engine \<Rightarrow> ('s, 'd) Scene \<Rightarrow> byte list option" where
  "scene_replay en sc = copied sc (copy_replay en (en_game_thread en) (sn_runtime sc) (sn_world sc))"

definition flag :: "'d Manifest option \<Rightarrow> string \<Rightarrow> bool" where
  "flag parsed key \<longleftrightarrow> (case parsed of None \<Rightarrow> False | Some m \<Rightarrow> mf_bool m key = Some True)"

definition scene_settings :: "('s, 'd) Scene \<Rightarrow> FSettings" where
  "scene_settings sc = (case av_model (sn_view sc) of None \<Rightarrow> initial_settings | Some m \<Rightarrow> fm_settings m)"

definition rollbacks :: "('s, 'd) Scene \<Rightarrow> u64" where
  "rollbacks sc =
     (if has_model sc
      then ucast (mn_rollback_count (fv_metrics (im_view_a (sn_runtime sc))))
         + ucast (mn_rollback_count (fv_metrics (im_view_b (sn_runtime sc)))) else 0)"

text \<open>What an in-process run must have shown.\<close>

definition run_verified :: "('s, 'd) Scenery \<Rightarrow> ('s, 'd) Engine \<Rightarrow> ('s, 'd) Scene \<Rightarrow> bool" where
  "run_verified sy en sc \<longleftrightarrow>
     (let av = sn_view sc; a = im_view_a (sn_runtime sc); b = im_view_b (sn_runtime sc);
          report = scene_report en sc; parsed = Option.bind report (sy_parse sy)
      in report \<noteq> None \<and> scene_replay en sc \<noteq> None \<and> flag parsed ''success'' \<and> flag parsed ''replay_verification''
       \<and> av_start_captured av \<and> av_correction_captured av \<and> av_final_captured av \<and> has_model sc
       \<and> mn_confirmed_frame (fv_metrics a) = fs_frame_count (scene_settings sc)
       \<and> mn_confirmed_frame (fv_metrics b) = fs_frame_count (scene_settings sc)
       \<and> wn_state_hash (fv_snapshot a) = wn_state_hash (fv_snapshot b) \<and> rollbacks sc > 0)"

definition unavailable :: string where "unavailable = ''unavailable''"

text \<open>The text of the evidence, with the failure that is then known.\<close>

definition evidence_text :: "('s, 'd) Scenery \<Rightarrow> ('s, 'd) Engine \<Rightarrow> bool \<Rightarrow> ('s, 'd) Scene \<Rightarrow> string" where
  "evidence_text sy en success sc =
     (let im = sn_runtime sc; live = has_model sc; s = scene_settings sc;
          number = (\<lambda>v. if live then v else 0);
          a = im_view_a im; b = im_view_b im
      in ''{'' @ field ''schema_version'' ''1'' @ '',''
       @ field ''source_git_sha'' (quoted (if live then vi_source_git_sha (im_version im) else unavailable)) @ '',''
       @ field ''sdk_version'' (quoted ''0.2.0-candidate'') @ '','' @ field ''abi_version'' ''1'' @ '',''
       @ field ''scenario_seed'' (dec_word (fs_scenario_seed s)) @ '',''
       @ field ''transport_seed'' (dec_word (fs_transport_seed s)) @ '',''
       @ field ''target_frame'' (dec_word (fs_frame_count s)) @ '',''
       @ field ''logical_tick'' (dec_word (number (lr_logical_tick (im_last_step im)))) @ '',''
       @ field ''confirmed_a'' (dec_word (number (mn_confirmed_frame (fv_metrics a)))) @ '',''
       @ field ''confirmed_b'' (dec_word (number (mn_confirmed_frame (fv_metrics b)))) @ '',''
       @ field ''final_hash_a'' (quoted (hex16 (if live then wn_state_hash (fv_snapshot a) else 0))) @ '',''
       @ field ''final_hash_b'' (quoted (hex16 (if live then wn_state_hash (fv_snapshot b) else 0))) @ '',''
       @ field ''rollback_count'' (dec_word (rollbacks sc)) @ '',''
       @ field ''replay_verified''
           (json_bool (flag (Option.bind (scene_report en sc) (sy_parse sy)) ''replay_verification'')) @ '',''
       @ field ''success'' (json_bool success) @ '',''
       @ field ''failure_reason'' (quoted (av_failure (sn_view sc))) @ '',''
       @ field ''core_report'' (case scene_report en sc of None \<Rightarrow> ''null'' | Some t \<Rightarrow> t) @ '',''
       @ field ''core_trace'' (case scene_trace en sc of None \<Rightarrow> ''null'' | Some t \<Rightarrow> t) @ nl @ ''}'' @ nl)"

text \<open>The files of the evidence, each written whatever became of the one before.\<close>

definition write_evidence :: "('s, 'd) Scenery \<Rightarrow> string option \<Rightarrow> byte list option \<Rightarrow> string \<Rightarrow> ('s, 'd) Scene
    \<Rightarrow> bool \<times> ('s, 'd) Scene" where
  "write_evidence sy report replay text sc =
     (let path = av_trace_path (sn_view sc); directory = sy_get_path sy path;
          (made, sc) = from_os (sy_make_directory sy directory) sc;
          (reported, sc) = (case report of None \<Rightarrow> (True, sc)
                            | Some t \<Rightarrow> from_os (sy_save_text sy t (sy_combine sy directory ''report.json'')) sc);
          (replayed, sc) = (case replay of None \<Rightarrow> (True, sc)
                            | Some bytes \<Rightarrow> from_os (sy_save_bytes sy bytes (sy_combine sy directory ''input.rlr'')) sc);
          (traced, sc) = from_os (sy_save_text sy text path) sc
      in (traced \<and> replayed \<and> reported \<and> made, on_view (\<lambda>av. av\<lparr>av_written := True\<rparr>) sc))"

definition set_failure :: "string \<Rightarrow> ('s, 'd) Scene \<Rightarrow> ('s, 'd) Scene" where
  "set_failure message = on_view (\<lambda>av. av\<lparr>av_failure := message\<rparr>)"

definition note_failure :: "bool \<Rightarrow> string \<Rightarrow> ('s, 'd) Scene \<Rightarrow> ('s, 'd) Scene" where
  "note_failure success message sc =
     (if \<not> success \<and> av_failure (sn_view sc) = '''' then set_failure message sc else sc)"

definition save_run_evidence :: "('s, 'd) Scenery \<Rightarrow> ('s, 'd) Engine \<Rightarrow> bool \<Rightarrow> ('s, 'd) Scene
    \<Rightarrow> bool \<times> ('s, 'd) Scene" where
  "save_run_evidence sy en wanted sc =
     (if av_trace_path (sn_view sc) = '''' then (\<not> av_smoke (sn_view sc), sc)
      else
        (let success = (wanted \<and> run_verified sy en sc);
             sc = note_failure success
                    ''Smoke did not satisfy report, replay, screenshot, rollback and confirmed-parity invariants.'' sc;
             (written, sc) = write_evidence sy (scene_report en sc) (scene_replay en sc) (evidence_text sy en success sc) sc
         in (written \<and> success, sc)))"

section \<open>Evidence of a UDP peer\<close>

definition udp_peer_index :: "('s, 'd) Scene \<Rightarrow> u32" where
  "udp_peer_index sc =
     (let p = fs_local_peer (av_requested (sn_view sc)) in if p \<le> RL_PEER_B then p else RL_PEER_A)"

definition udp_view :: "('s, 'd) Scene \<Rightarrow> FPeerView" where
  "udp_view sc = (if udp_peer_index sc = 0 then im_view_a (sn_runtime sc) else im_view_b (sn_runtime sc))"

definition udp_step :: "('s, 'd) Scene \<Rightarrow> rl_udp_step_result" where
  "udp_step sc = (if has_model sc then im_last_udp_step (sn_runtime sc)
                  else initial_observation\<lparr>ur_header := zero_header\<rparr>)"

text \<open>The port in the status, when it is a whole number in range.\<close>

definition status_port :: "'d Doubles \<Rightarrow> ('d \<Rightarrow> bool) \<Rightarrow> 'd Manifest option \<Rightarrow> u32 option" where
  "status_port db whole status =
     (case Option.bind status (\<lambda>m. mf_number m ''listen_port'') of
        None \<Rightarrow> None
      | Some v \<Rightarrow>
          if db_at_least db v (db_of_u32 db 1) \<and> db_at_least db (db_of_u32 db 65535) v \<and> whole v
          then Some (db_floor db v) else None)"

definition session_count :: "('s, 'd) Scene \<Rightarrow> u32" where
  "session_count sc =
     (if has_model sc
      then (if fv_handle_identity (im_view_a (sn_runtime sc)) \<noteq> None then 1 else 0)
         + (if fv_handle_identity (im_view_b (sn_runtime sc)) \<noteq> None then 1 else 0) else 0)"

definition udp_parsed :: "('s, 'd) Scenery \<Rightarrow> string option \<Rightarrow> 'd Manifest option" where
  "udp_parsed sy text = Option.bind text (sy_parse sy)"

definition udp_handshake :: "('s, 'd) Scenery \<Rightarrow> ('s, 'd) Engine \<Rightarrow> ('s, 'd) Scene \<Rightarrow> bool" where
  "udp_handshake sy en sc \<longleftrightarrow>
     flag (udp_parsed sy (scene_status en sc)) ''handshake_complete'' \<and> ur_handshake_complete (udp_step sc) \<noteq> 0"

text \<open>What a UDP run must have shown.\<close>

definition udp_verified :: "('s, 'd) Scenery \<Rightarrow> ('s, 'd) Engine \<Rightarrow> ('d \<Rightarrow> bool) \<Rightarrow> ('s, 'd) Scene \<Rightarrow> bool" where
  "udp_verified sy en whole sc \<longleftrightarrow>
     (let av = sn_view sc; step = udp_step sc; view = udp_view sc;
          report = udp_parsed sy (scene_report en sc); status = udp_parsed sy (scene_status en sc)
      in scene_replay en sc \<noteq> None \<and> report \<noteq> None \<and> status \<noteq> None
       \<and> status_port (en_double en) whole status \<noteq> None
       \<and> flag report ''success'' \<and> flag report ''replay_verification'' \<and> udp_handshake sy en sc
       \<and> ur_finished step \<noteq> 0 \<and> ur_desync_detected step = 0 \<and> session_count sc = 1 \<and> has_model sc
       \<and> mn_confirmed_frame (fv_metrics view) = fs_frame_count (av_requested av)
       \<and> wn_frame (fv_snapshot view) = fs_frame_count (av_requested av)
       \<and> av_start_captured av \<and> av_final_captured av
       \<and> (mn_rollback_count (fv_metrics view) = 0 \<or> av_correction_captured av))"

definition udp_evidence_text :: "('s, 'd) Scenery \<Rightarrow> ('s, 'd) Engine \<Rightarrow> ('d \<Rightarrow> bool) \<Rightarrow> bool \<Rightarrow> ('s, 'd) Scene
    \<Rightarrow> string" where
  "udp_evidence_text sy en whole success sc =
     (let im = sn_runtime sc; live = has_model sc; s = av_requested (sn_view sc); step = udp_step sc;
          m = fv_metrics (udp_view sc); v = im_version im;
          report = udp_parsed sy (scene_report en sc); status = udp_parsed sy (scene_status en sc);
          source = (if live \<and> vi_source_git_sha v \<noteq> '''' then vi_source_git_sha v else unavailable)
      in ''{'' @ field ''schema_version'' ''2'' @ '','' @ field ''mode'' (quoted ''udp_peer'') @ '',''
       @ field ''source_git_sha'' (quoted source) @ '',''
       @ field ''sdk_version'' (quoted ''0.2.0-candidate'') @ '','' @ field ''abi_version'' ''1'' @ '',''
       @ field ''protocol_version'' (dec_word (if live then vi_protocol_version v else 0)) @ '',''
       @ field ''simulation_version'' (dec_word (if live then vi_simulation_version v else 0)) @ '',''
       @ field ''pid'' (dec_word (sy_pid sy)) @ '',''
       @ field ''local_peer'' (dec_word (udp_peer_index sc)) @ '',''
       @ field ''session_count'' (dec_word (session_count sc)) @ '',''
       @ field ''local_port''
           (dec_word (case status_port (en_double en) whole status of None \<Rightarrow> 0 | Some p \<Rightarrow> p)) @ '',''
       @ field ''relay_port'' (dec_word (fs_relay_port s)) @ '',''
       @ field ''scenario_seed'' (dec_word (fs_scenario_seed s)) @ '',''
       @ field ''transport_seed'' (dec_word (fs_transport_seed s)) @ '',''
       @ field ''target_frame'' (dec_word (fs_frame_count s)) @ '',''
       @ field ''logical_tick'' (dec_word (ur_logical_tick step)) @ '',''
       @ field ''confirmed_frame'' (dec_word (if live then mn_confirmed_frame m else 0)) @ '',''
       @ field ''final_hash'' (quoted (hex16 (if live then wn_state_hash (fv_snapshot (udp_view sc)) else 0))) @ '',''
       @ field ''rollback_count'' (dec_word (if live then mn_rollback_count m else 0)) @ '',''
       @ field ''resimulated_frames'' (dec_word (if live then mn_total_resimulated_frames m else 0)) @ '',''
       @ field ''handshake_complete'' (json_bool (udp_handshake sy en sc)) @ '',''
       @ field ''desync_detected'' (json_bool (ur_desync_detected step \<noteq> 0)) @ '',''
       @ field ''earliest_divergent_frame'' (dec_word (ur_earliest_divergent_frame step)) @ '',''
       @ field ''replay_verified'' (json_bool (flag report ''replay_verification'')) @ '',''
       @ field ''success'' (json_bool success) @ '',''
       @ field ''failure_reason'' (quoted (av_failure (sn_view sc))) @ '',''
       @ field ''core_report'' (if report \<noteq> None then the (scene_report en sc) else ''null'') @ '',''
       @ field ''core_status'' (if status \<noteq> None then the (scene_status en sc) else ''null'') @ nl @ ''}'' @ nl)"

definition save_udp_evidence :: "('s, 'd) Scenery \<Rightarrow> ('s, 'd) Engine \<Rightarrow> ('d \<Rightarrow> bool) \<Rightarrow> bool \<Rightarrow> ('s, 'd) Scene
    \<Rightarrow> bool \<times> ('s, 'd) Scene" where
  "save_udp_evidence sy en whole wanted sc =
     (if av_trace_path (sn_view sc) = '''' then (\<not> av_smoke (sn_view sc), sc)
      else
        (let success = (wanted \<and> udp_verified sy en whole sc);
             sc = note_failure success
                    ''UDP smoke did not satisfy report, replay, required captures and local confirmation invariants.'' sc;
             (written, sc) = write_evidence sy (scene_report en sc) (scene_replay en sc)
                               (udp_evidence_text sy en whole success sc) sc
         in (written \<and> success, sc)))"

definition save_evidence :: "('s, 'd) Scenery \<Rightarrow> ('s, 'd) Engine \<Rightarrow> ('d \<Rightarrow> bool) \<Rightarrow> bool \<Rightarrow> ('s, 'd) Scene
    \<Rightarrow> bool \<times> ('s, 'd) Scene" where
  "save_evidence sy en whole wanted sc =
     (if av_udp_mode (sn_view sc) then save_udp_evidence sy en whole wanted sc
      else save_run_evidence sy en wanted sc)"

end
