(* ===== verification/ScenePlay.thy ===== *)
theory ScenePlay
  imports Scene
begin

text \<open>
  The view at work: what the engine calls in \<open>RollbackArenaView.cpp\<close>, which is \<open>BeginPlay\<close>, \<open>Tick\<close>, \<open>EndPlay\<close> and the
  screenshot's callback, with the keys, failure and exit. The time of a tick and the keys come from the engine; a mesh that is not
  ready to draw, and shaders that are being compiled, are asked of the engine too.
\<close>

section \<open>Failure and exit\<close>

definition drop_pictures :: "('s, 'd) Scenery \<Rightarrow> ('s, 'd) Scene \<Rightarrow> ('s, 'd) Scene" where
  "drop_pictures sy sc =
     (let sc = (if av_capture_pending (sn_view sc) then on_os (sy_reset_screenshots sy) sc else sc)
      in on_view (\<lambda>av. av\<lparr>av_capture_pending := False\<rparr>) sc)"

definition stop_bridge :: "('s, 'd) Engine \<Rightarrow> ('s, 'd) Scene \<Rightarrow> ('s, 'd) Scene option" where
  "stop_bridge en sc =
     (if \<not> av_bridge (sn_view sc) then Some sc
      else Option.bind (stop en (en_game_thread en) (sn_runtime sc) (sn_world sc)) (\<lambda>(im, w).
             Some (sc\<lparr>sn_runtime := im, sn_world := w\<rparr>)))"

definition request_exit :: "bool \<Rightarrow> nat \<Rightarrow> ('s, 'd) Scene \<Rightarrow> ('s, 'd) Scene" where
  "request_exit force status sc = sc\<lparr>sn_exits := sn_exits sc @ [(force, status)]\<rparr>"

text \<open>An automatic run that is left before it has written its evidence has failed, whatever status was asked for.\<close>

definition quit :: "('s, 'd) Scenery \<Rightarrow> ('s, 'd) Engine \<Rightarrow> ('d \<Rightarrow> bool) \<Rightarrow> nat \<Rightarrow> ('s, 'd) Scene
    \<Rightarrow> ('s, 'd) Scene option" where
  "quit sy en whole status sc =
     (if av_exiting (sn_view sc) then Some sc
      else
        (let sc = on_view (\<lambda>av. av\<lparr>av_exiting := True\<rparr>) sc;
             incomplete = (av_smoke (sn_view sc) \<and> \<not> av_written (sn_view sc));
             sc = (if incomplete
                   then snd (save_evidence sy en whole False (set_failure ''Exit requested before smoke completion.'' sc))
                   else sc);
             status = (if incomplete then 1 else status)
         in if status \<noteq> 0
            then map_option (request_exit True status) (stop_bridge en (drop_pictures sy sc))
            else Some (request_exit False status sc)))"

text \<open>A desync of a UDP peer is photographed before the evidence is written, once.\<close>

definition fail :: "('s, 'd) Scenery \<Rightarrow> ('s, 'd) Engine \<Rightarrow> ('d \<Rightarrow> bool) \<Rightarrow> string \<Rightarrow> ('s, 'd) Scene
    \<Rightarrow> ('s, 'd) Scene option" where
  "fail sy en whole reason sc =
     (let sc = set_failure reason sc; av = sn_view sc in
      if \<not> (av_smoke av \<and> \<not> av_written av) then Some sc
      else if av_udp_mode av \<and> has_model sc \<and> ur_desync_detected (im_last_udp_step (sn_runtime sc)) \<noteq> 0
        \<and> \<not> av_failure_capture_attempted av \<and> av_capture_directory av \<noteq> '''' \<and> \<not> av_capture_pending av
        \<and> av_listening av
      then Some (request_capture sy ''desync''
                  (on_view (\<lambda>av. av\<lparr>av_failure_capture_attempted := True, av_failure_capture_pending := True\<rparr>)
                    (update_projection sc)))
      else quit sy en whole 1 (snd (save_evidence sy en whole False sc)))"

section \<open>Pictures that were taken\<close>

definition screenshot_processed :: "('s, 'd) Scenery \<Rightarrow> ('s, 'd) Engine \<Rightarrow> ('d \<Rightarrow> bool) \<Rightarrow> ('s, 'd) Scene
    \<Rightarrow> ('s, 'd) Scene option" where
  "screenshot_processed sy en whole sc =
     (if \<not> av_capture_pending (sn_view sc) then Some sc
      else
        (let sc = on_view (\<lambda>av. av\<lparr>av_capture_pending := False\<rparr>) sc;
             name = av_pending_capture (sn_view sc); path = capture_path sy name (sn_view sc)
         in if sy_file_size sy path (bw_os (sn_world sc)) \<le> 0
            then fail sy en whole (''Requested screenshot was not written: '' @ path) sc
            else Some (on_view (\<lambda>av.
                   if name = ''start'' then av\<lparr>av_start_captured := True\<rparr>
                   else if name = ''correction'' then av\<lparr>av_correction_captured := True\<rparr>
                   else av\<lparr>av_final_captured := True\<rparr>) sc)))"

section \<open>Begin\<close>

definition same_number :: "'d Doubles \<Rightarrow> 'd option \<Rightarrow> u32 \<Rightarrow> bool" where
  "same_number db v n \<longleftrightarrow>
     (case v of None \<Rightarrow> False | Some x \<Rightarrow> db_at_least db x (db_of_u32 db n) \<and> db_at_least db (db_of_u32 db n) x)"

text \<open>A status in the phase of the handshake, \<open>RL_UDP_HANDSHAKE\<close>, which is the number 0.\<close>

definition healthy_status :: "'d Doubles \<Rightarrow> ('d \<Rightarrow> bool) \<Rightarrow> FSettings \<Rightarrow> 'd Manifest option \<Rightarrow> bool" where
  "healthy_status db whole s status \<longleftrightarrow>
     (case status of
        None \<Rightarrow> False
      | Some m \<Rightarrow>
          same_number db (mf_number m ''phase'') 0 \<and> same_number db (mf_number m ''sdk_status'') RL_OK
        \<and> status_port db whole status \<noteq> None \<and> same_number db (mf_number m ''local_peer'') (fs_local_peer s)
        \<and> same_number db (mf_number m ''relay_port'') (fs_relay_port s))"

definition temporary_path :: "('s, 'd) Scenery \<Rightarrow> string \<Rightarrow> string" where
  "temporary_path sy path = path @ ''.tmp-'' @ dec_word (sy_pid sy)"

text \<open>The ready file appears under its name only when it is whole: it is written beside it and moved.\<close>

definition publish_ready :: "('s, 'd) Scenery \<Rightarrow> string \<Rightarrow> string \<Rightarrow> ('s, 'd) Scene \<Rightarrow> bool \<times> ('s, 'd) Scene" where
  "publish_ready sy text path sc =
     (let (made, sc) = from_os (sy_make_directory sy (sy_get_path sy path)) sc in
      if \<not> made then (False, sc)
      else
        (let (saved, sc) = from_os (sy_save_text sy text (temporary_path sy path)) sc in
         if \<not> saved then (False, sc) else from_os (sy_move sy path (temporary_path sy path)) sc))"

definition announce :: "('s, 'd) Scenery \<Rightarrow> ('s, 'd) Engine \<Rightarrow> ('d \<Rightarrow> bool) \<Rightarrow> ('s, 'd) Scene
    \<Rightarrow> (bool \<times> ('s, 'd) Scene) option" where
  "announce sy en whole sc =
     (let av = sn_view sc; path = av_ready_path av in
      if \<not> (av_udp_mode av \<and> path \<noteq> '''') then Some (True, sc)
      else
        (let ready = copy_failure en (en_game_thread en) (sn_runtime sc) (sn_world sc);
             healthy = (case ready of Inl _ \<Rightarrow> False
                        | Inr bytes \<Rightarrow> healthy_status (en_double en) whole (av_requested av) (sy_parse sy (text_of_bytes bytes)));
             (published, sc) = (case ready of Inl _ \<Rightarrow> (False, sc)
                        | Inr bytes \<Rightarrow> if healthy then publish_ready sy (text_of_bytes bytes) path sc else (False, sc));
             reason = (case ready of Inl e \<Rightarrow> re_message e
                       | Inr _ \<Rightarrow> ''Cannot publish healthy UDP startup status: '' @ path)
         in if published then Some (True, sc)
            else
              Option.bind (fail sy en whole reason (on_os (sy_delete sy (temporary_path sy path)) sc)) (\<lambda>sc.
              Option.bind (if \<not> av_smoke (sn_view sc) then quit sy en whole 1 sc else Some sc) (\<lambda>sc. Some (False, sc)))))"

text \<open>An operation of the model, which borrows the runtime.\<close>

definition model_call :: "(FModel \<Rightarrow> 'd FImpl \<Rightarrow> 's BridgeWorld \<Rightarrow> (FResult \<times> FModel \<times> 'd FImpl \<times> 's BridgeWorld) option)
    \<Rightarrow> FModel \<Rightarrow> ('s, 'd) Scene \<Rightarrow> (FResult \<times> ('s, 'd) Scene) option" where
  "model_call f m sc =
     Option.bind (f m (sn_runtime sc) (sn_world sc)) (\<lambda>(result, m, im, w).
       Some (result, (on_view (\<lambda>av. av\<lparr>av_model := Some m\<rparr>) sc)\<lparr>sn_runtime := im, sn_world := w\<rparr>))"

definition open_arena :: "('s, 'd) Scenery \<Rightarrow> ('s, 'd) Engine \<Rightarrow> ('d \<Rightarrow> bool) \<Rightarrow> ('s, 'd) Scene
    \<Rightarrow> ('s, 'd) Scene option" where
  "open_arena sy en whole sc =
     Option.bind (model_call (model_start en (en_game_thread en) (av_requested (sn_view sc))) new_model sc) (\<lambda>(result, sc).
       let av = sn_view sc; source = vi_source_git_sha (im_version (sn_runtime sc)) in
       if \<not> is_ok result then fail sy en whole (re_message result) sc
       else if av_requested_git_sha av \<noteq> '''' \<and> \<not> same_text (av_requested_git_sha av) source
       then fail sy en whole ''Requested source SHA differs from loaded SDK.'' sc
       else
         Option.bind (announce sy en whole sc) (\<lambda>(ready, sc).
           if \<not> ready then Some sc
           else Some (update_projection (on_view (\<lambda>av. av\<lparr>av_listening := True\<rparr>) sc))))"

definition begin_play :: "('s, 'd) Scenery \<Rightarrow> ('s, 'd) Engine \<Rightarrow> ('d \<Rightarrow> bool) \<Rightarrow> ('s, 'd) Scene
    \<Rightarrow> ('s, 'd) Scene option" where
  "begin_play sy en whole sc =
     (let sc = on_view (\<lambda>av. av\<lparr>av_started_at := en_seconds en (bw_os (sn_world sc))\<rparr>) sc;
          (accepted, av, os) = read_settings sy (sn_view sc) (bw_os (sn_world sc));
          sc = sc\<lparr>sn_view := av, sn_world := (sn_world sc)\<lparr>bw_os := os\<rparr>\<rparr>
      in if \<not> accepted then fail sy en whole (av_failure av) sc
         else if \<not> sy_visuals sy os
         then fail sy en whole ''Arena content missing. Run GenerateUnrealContent before launch/cook.'' sc
         else if \<not> sy_bridge sy then fail sy en whole ''RollbackLab subsystem unavailable.'' sc
         else open_arena sy en whole (on_view (\<lambda>av. av\<lparr>av_bridge := True, av_model := Some new_model\<rparr>) sc))"

section \<open>Keys\<close>

definition active :: "('s, 'd) Scenery \<Rightarrow> 's \<Rightarrow> EKey \<Rightarrow> bool" where
  "active sy os key \<longleftrightarrow> sy_key_down sy key os \<or> sy_key_pressed sy key os"

text \<open>A press that came between two ticks stays until a step has used it.\<close>

definition local_buttons :: "('s, 'd) Scenery \<Rightarrow> ('s, 'd) Scene \<Rightarrow> u32" where
  "local_buttons sy sc =
     (let os = bw_os (sn_world sc); either = (\<lambda>k k'. active sy os k \<or> active sy os k');
          bit = (\<lambda>b n. if b then n else 0 :: u32)
      in if \<not> sy_controller sy os then 0
         else av_pending_buttons (sn_view sc) OR bit (either KeyW KeyUp) 1 OR bit (either KeyS KeyDown) 2
           OR bit (either KeyA KeyLeft) 4 OR bit (either KeyD KeyRight) 8 OR bit (active sy os KeySpaceBar) 16)"

definition pause_key :: "('s, 'd) Engine \<Rightarrow> ('s, 'd) Scene \<Rightarrow> ('s, 'd) Scene option" where
  "pause_key en sc =
     map_option (\<lambda>im. sc\<lparr>sn_runtime := im\<rparr>)
       (set_paused en (en_game_thread en) (\<not> fk_paused (im_clock (sn_runtime sc))) (sn_runtime sc))"

definition step_key :: "('s, 'd) Engine \<Rightarrow> FModel \<Rightarrow> ('s, 'd) Scene \<Rightarrow> FResult \<times> ('s, 'd) Scene" where
  "step_key en m sc =
     (let (result, im, w) =
            model_step en (en_game_thread en) (av_pending_buttons (sn_view sc)) m (sn_runtime sc) (sn_world sc)
      in (result, (on_view (\<lambda>av. av\<lparr>av_pending_buttons := 0\<rparr>) sc)\<lparr>sn_runtime := im, sn_world := w\<rparr>))"

text \<open>The key that acts: its result, whether the run began anew, and whether the clock is passed over this time.\<close>

definition command_key :: "('s, 'd) Scenery \<Rightarrow> ('s, 'd) Engine \<Rightarrow> FModel \<Rightarrow> ('s, 'd) Scene
    \<Rightarrow> (FResult \<times> bool \<times> bool \<times> ('s, 'd) Scene) option" where
  "command_key sy en m sc =
     (let t = en_game_thread en; pressed = (\<lambda>k. sy_key_pressed sy k (bw_os (sn_world sc)));
          anew = map_option (\<lambda>(result, sc). (result, True, False, sc))
      in if pressed KeyR then anew (model_call (model_reset en t) m sc)
         else if pressed KeyN
         then anew (model_call (change_preset en t ((fs_network_preset (fm_settings m) + 1) mod 3)) m sc)
         else if pressed KeyOne then anew (model_call (model_start en t (default_settings EM_AutoDemo)) m sc)
         else if pressed KeyTwo then anew (model_call (model_start en t (default_settings EM_Interactive)) m sc)
         else if pressed KeyThree then anew (model_call (model_start en t (default_settings EM_Desync)) m sc)
         else if pressed KeyPeriod \<and> running (sn_runtime sc)
         then (let (result, sc) = step_key en m sc in Some (result, False, True, sc))
         else Some (result_ok, False, False, sc))"

definition read_controls :: "('s, 'd) Scenery \<Rightarrow> ('s, 'd) Engine \<Rightarrow> ('d \<Rightarrow> bool) \<Rightarrow> ('s, 'd) Scene
    \<Rightarrow> (bool \<times> ('s, 'd) Scene) option" where
  "read_controls sy en whole sc =
     (let av = sn_view sc; os = bw_os (sn_world sc) in
      if \<not> sy_controller sy os then Some (False, sc)
      else if sy_key_pressed sy KeyEscape os
      then map_option (Pair False)
             (if av_smoke av \<or> av_udp_mode av
              then Option.bind (fail sy en whole
                     (if av_udp_mode av then ''Automatic run aborted by user.'' else ''Smoke aborted by user.'') sc) (\<lambda>sc.
                   if \<not> av_smoke (sn_view sc) then quit sy en whole 1 sc else Some sc)
              else quit sy en whole 0 sc)
      else
        (case av_model av of
           None \<Rightarrow> Some (False, sc)
         | Some m \<Rightarrow>
             if av_smoke av \<or> av_udp_mode av \<or> av_failure av \<noteq> '''' then Some (False, sc)
             else
               Option.bind (if sy_key_pressed sy KeyP os then pause_key en sc else Some sc) (\<lambda>sc.
               Option.bind (command_key sy en m sc) (\<lambda>(result, anew, skip, sc).
                 if \<not> is_ok result then map_option (Pair skip) (fail sy en whole (re_message result) sc)
                 else if anew
                 then Some (True, on_view (\<lambda>av. av\<lparr>av_seen_a := 0, av_seen_b := 0, av_pending_buttons := 0\<rparr>) sc)
                 else Some (skip, sc)))))"

section \<open>Tick\<close>

text \<open>Before the picture of the start: wait until the meshes are drawn, then three ticks more.\<close>

definition warm_up :: "('s, 'd) Scenery \<Rightarrow> ('s, 'd) Scene \<Rightarrow> ('s, 'd) Scene" where
  "warm_up sy sc =
     (let sc = update_projection sc; os = bw_os (sn_world sc); av = sn_view sc in
      if sy_compiling sy os then sc
      else if \<not> sy_presentation_ready sy os then on_view (\<lambda>av. av\<lparr>av_warmup_ticks := 3\<rparr>) sc
      else if av_capture_pending av then sc
      else if av_warmup_ticks av > 0 then on_view (\<lambda>av. av\<lparr>av_warmup_ticks := av_warmup_ticks av - 1\<rparr>) sc
      else request_capture sy ''start'' sc)"

definition finished :: "('s, 'd) Scene \<Rightarrow> bool" where
  "finished sc \<longleftrightarrow> lr_finished (im_last_step (sn_runtime sc)) \<noteq> 0"

text \<open>What is left of a tick once the run has moved on: pictures of a correction and of the end, and then the evidence.\<close>

definition present :: "('s, 'd) Scenery \<Rightarrow> ('s, 'd) Engine \<Rightarrow> ('d \<Rightarrow> bool) \<Rightarrow> ('s, 'd) Scene
    \<Rightarrow> ('s, 'd) Scene option" where
  "present sy en whole sc =
     (let sc = update_projection sc; av = sn_view sc; pictures = (av_capture_directory av \<noteq> '''') in
      if pictures \<and> \<not> av_correction_captured av \<and> (av_seen_a av \<noteq> 0 \<or> av_seen_b av \<noteq> 0)
      then Some (request_capture sy ''correction'' sc)
      else if finished sc \<and> pictures \<and> \<not> av_final_captured av
      then Some (request_capture sy
             (if lr_desync_detected (im_last_step (sn_runtime sc)) \<noteq> 0 then ''desync'' else ''convergence'') sc)
      else if av_smoke av \<and> finished sc \<and> av_final_captured av \<and> \<not> av_written av
      then (let (success, sc) = save_evidence sy en whole True sc in quit sy en whole (if success then 0 else 1) sc)
      else Some sc)"

definition advance_run :: "('s, 'd) Scenery \<Rightarrow> ('s, 'd) Engine \<Rightarrow> ('d \<Rightarrow> bool) \<Rightarrow> 'd \<Rightarrow> FModel \<Rightarrow> ('s, 'd) Scene
    \<Rightarrow> ('s, 'd) Scene option" where
  "advance_run sy en whole delta m sc =
     (let (result, im, w) = model_tick en (en_game_thread en) delta (av_pending_buttons (sn_view sc)) m
                              (sn_runtime sc) (sn_world sc);
          sc = sc\<lparr>sn_runtime := im, sn_world := w\<rparr>;
          sc = (if fk_last_tick_steps (im_clock im) > 0 then on_view (\<lambda>av. av\<lparr>av_pending_buttons := 0\<rparr>) sc else sc)
      in if \<not> is_ok result then fail sy en whole (re_message result) sc else present sy en whole sc)"

definition play_on :: "('s, 'd) Scenery \<Rightarrow> ('s, 'd) Engine \<Rightarrow> ('d \<Rightarrow> bool) \<Rightarrow> 'd \<Rightarrow> bool \<Rightarrow> ('s, 'd) Scene
    \<Rightarrow> ('s, 'd) Scene option" where
  "play_on sy en whole delta skip sc =
     (let av = sn_view sc; os = bw_os (sn_world sc); db = en_double en;
          elapsed = db_minus db (en_seconds en os) (av_started_at av)
      in if av_smoke av \<and> db_less db (db_of_u32 db 45) elapsed then fail sy en whole ''Smoke watchdog expired.'' sc
         else if av_failure_capture_pending av
         then (if av_capture_pending av then Some sc
               else quit sy en whole 1 (snd (save_evidence sy en whole False
                      (on_view (\<lambda>av. av\<lparr>av_failure_capture_pending := False\<rparr>) sc))))
         else if av_exit_after_seconds av > 0 \<and> db_at_least db elapsed (db_of_u32 db (ucast (av_exit_after_seconds av)))
           \<and> \<not> av_capture_pending av \<and> \<not> sy_compiling sy os
         then quit sy en whole 0 sc
         else
           (case av_model av of
              None \<Rightarrow> Some sc
            | Some m \<Rightarrow>
                if av_failure av \<noteq> '''' then Some sc
                else if av_capture_directory av \<noteq> '''' \<and> \<not> av_start_captured av then Some (warm_up sy sc)
                else if av_capture_pending av then Some sc
                else if \<not> skip \<and> running (sn_runtime sc) then advance_run sy en whole delta m sc
                else present sy en whole sc))"

definition tick :: "('s, 'd) Scenery \<Rightarrow> ('s, 'd) Engine \<Rightarrow> ('d \<Rightarrow> bool) \<Rightarrow> 'd \<Rightarrow> ('s, 'd) Scene
    \<Rightarrow> ('s, 'd) Scene option" where
  "tick sy en whole delta sc =
     (let sc = on_view (\<lambda>av. av\<lparr>av_pending_buttons := local_buttons sy sc\<rparr>) sc in
      Option.bind (read_controls sy en whole sc) (\<lambda>(skip, sc).
        if av_exiting (sn_view sc) then Some sc else play_on sy en whole delta skip sc))"

section \<open>End\<close>

definition end_play :: "('s, 'd) Scenery \<Rightarrow> ('s, 'd) Engine \<Rightarrow> ('d \<Rightarrow> bool) \<Rightarrow> ('s, 'd) Scene
    \<Rightarrow> ('s, 'd) Scene option" where
  "end_play sy en whole sc =
     (let incomplete = (av_smoke (sn_view sc) \<and> \<not> av_written (sn_view sc));
          sc = (if incomplete
                then snd (save_evidence sy en whole False (set_failure ''World ended before smoke completion.'' sc)) else sc);
          sc = on_view (\<lambda>av. av\<lparr>av_model := None\<rparr>) (drop_pictures sy sc)
      in Option.bind (stop_bridge en sc) (\<lambda>sc.
           let sc = on_view (\<lambda>av. av\<lparr>av_bridge := False\<rparr>) sc in
           Some (if incomplete then request_exit True 1 sc else sc)))"

end
