(* ===== verification/SceneStart.thy ===== *)
theory SceneStart
  imports SceneSettings BridgeStart
begin

text \<open>What the command line of the demo lets through, the arena and the library accept.\<close>

section \<open>Steps that succeed\<close>

lemma and_then_ok: "and_then f g av = (None, av') \<longleftrightarrow> (\<exists>av1. f av = (None, av1) \<and> g av1 = (None, av'))"
  by (auto simp: and_then_def split: prod.splits option.splits)

lemma unless_ok: "unless bad message av = (None, av') \<longleftrightarrow> \<not> bad av \<and> av' = av"
  by (auto simp: unless_def)

lemma unat_narrow: "unat (n :: u64) < 2 ^ 32 \<Longrightarrow> unat (ucast n :: u32) = unat n"
  by (simp add: unsigned_ucast_eq unsigned_take_bit_eq take_bit_nat_eq_self)

lemma read_bounded_ok:
  assumes "read_bounded sy key value least most = Inr v" "most \<le> 4294967295"
  shows "unat least \<le> unat v \<and> unat v \<le> unat most"
proof -
  obtain n where n: "least \<le> n" "n \<le> most" "v = ucast n"
    using assms(1) by (auto simp: read_bounded_def not_less split: sum.splits if_splits)
  have "unat n < 2 ^ 32" using n(2) assms(2) by (simp add: word_le_nat_alt)
  then have "unat v = unat n" using n(3) by (simp add: unat_narrow)
  with n(1,2) show ?thesis by (simp add: word_le_nat_alt)
qed

text \<open>What holds when a step has succeeded, from what held before it.\<close>

definition establishes :: "('d AView \<Rightarrow> bool) \<Rightarrow> 'd Step \<Rightarrow> ('d AView \<Rightarrow> bool) \<Rightarrow> bool" where
  "establishes P f Q \<longleftrightarrow> (\<forall>av av'. P av \<longrightarrow> f av = (None, av') \<longrightarrow> Q av')"

lemma establishes_then: "\<lbrakk>establishes P f Q; establishes Q g R\<rbrakk> \<Longrightarrow> establishes P (and_then f g) R"
  unfolding establishes_def and_then_ok by blast

lemma establishes_unless: "(\<And>av. P av \<Longrightarrow> \<not> bad av \<Longrightarrow> Q av) \<Longrightarrow> establishes P (unless bad message) Q"
  unfolding establishes_def unless_ok by blast

lemma establishes_option:
  assumes "\<And>av v. \<lbrakk>P av; unat least \<le> unat v; unat v \<le> unat most\<rbrakk> \<Longrightarrow> Q (av\<lparr>av_requested := put v (av_requested av)\<rparr>)"
    and "most \<le> 4294967295"
  shows "establishes P (read_udp_option sy key get put least most) Q"
  unfolding establishes_def
proof (intro allI impI)
  fix av av'
  assume p: "P av" and r: "read_udp_option sy key get put least most av = (None, av')"
  obtain v where v: "read_bounded sy key (get (av_requested av)) least most = Inr v"
    "av' = av\<lparr>av_requested := put v (av_requested av)\<rparr>"
    using r by (auto simp: read_udp_option_def split: sum.splits)
  from assms(1) [OF p] read_bounded_ok [OF v(1) assms(2)] v(2) show "Q av'" by blast
qed

definition in_frames :: "bool \<Rightarrow> FSettings \<Rightarrow> bool" where
  "in_frames udp s \<longleftrightarrow>
     1 \<le> unat (fs_frame_count s) \<and> unat (fs_frame_count s) \<le> (if udp then 240 else 36000) \<and> unat (fs_network_preset s) \<le> 2
   \<and> (udp \<longleftrightarrow> fs_mode s = EM_UdpPeer) \<and> (udp \<longrightarrow> unat (fs_local_peer s) \<le> 1)"

text \<open>The ranges of the UDP options after the first \<open>k\<close> of them.\<close>

definition in_ports :: "nat \<Rightarrow> 'd AView \<Rightarrow> bool" where
  "in_ports k av \<longleftrightarrow>
     (let s = av_requested av in
        av_udp_mode av \<and> in_frames True s
      \<and> (1 \<le> k \<longrightarrow> 1 \<le> unat (fs_relay_port s) \<and> unat (fs_relay_port s) \<le> 65535)
      \<and> (2 \<le> k \<longrightarrow> unat (fs_listen_port s) \<le> 65535) \<and> (3 \<le> k \<longrightarrow> unat (fs_hello_protocol s) \<le> 65535)
      \<and> (6 \<le> k \<longrightarrow> unat (fs_udp_variant s) \<le> 1)
      \<and> (7 \<le> k \<longrightarrow> 1 \<le> unat (fs_handshake_timeout_ms s) \<and> unat (fs_handshake_timeout_ms s) \<le> 60000)
      \<and> (8 \<le> k \<longrightarrow> 1 \<le> unat (fs_run_timeout_ms s) \<and> unat (fs_run_timeout_ms s) \<le> 60000)
      \<and> (9 \<le> k \<longrightarrow> \<not> (fs_listen_port s \<noteq> 0 \<and> fs_listen_port s = fs_relay_port s)))"

lemma accepted_ranges:
  assumes "in_frames (av_udp_mode av) (av_requested av)" "av_udp_mode av \<longrightarrow> in_ports 9 av"
  shows "refused_settings (av_requested av) = None"
proof (cases "av_udp_mode av")
  case True
  with assms(2) have "in_ports 9 av" by simp
  then show ?thesis
    by (auto simp: refused_settings_def in_frames_def in_ports_def Let_def word_less_nat_alt RL_PEER_B_def
        RL_VARIANT_DAMAGE_BIAS_def)
next
  case False
  with assms(1) show ?thesis by (auto simp: refused_settings_def in_frames_def word_less_nat_alt)
qed

lemmas port_step = establishes_then [OF establishes_option]

lemma read_udp_options_ok:
  assumes "read_udp_options sy av = (None, av')" "in_frames (av_udp_mode av) (av_requested av)"
  shows "in_frames (av_udp_mode av') (av_requested av') \<and> (av_udp_mode av' \<longrightarrow> in_ports 9 av')"
proof (cases "av_udp_mode av")
  case False
  with assms show ?thesis by (simp add: read_udp_options_def)
next
  case True
  have e: "establishes (in_ports 0) (read_udp_options sy) (in_ports 9)"
    unfolding establishes_def
  proof (intro allI impI)
    fix av av'
    assume p: "in_ports 0 av" and r: "read_udp_options sy av = (None, av')"
    then have "av_udp_mode av" by (simp add: in_ports_def Let_def)
    note r' = r [unfolded read_udp_options_def if_not_P [OF not_not [THEN iffD2, OF this]]]
    have "establishes (in_ports 0) (and_then (read_udp_option sy k1 g1 (\<lambda>v s. s\<lparr>fs_relay_port := v\<rparr>) 1 65535)
      (and_then (read_udp_option sy k2 g2 (\<lambda>v s. s\<lparr>fs_listen_port := v\<rparr>) 0 65535)
      (and_then (read_udp_option sy k3 g3 (\<lambda>v s. s\<lparr>fs_hello_protocol := v\<rparr>) 0 65535)
      (and_then (read_udp_option sy k4 g4 (\<lambda>v s. s\<lparr>fs_hello_simulation := v\<rparr>) 0 4294967295)
      (and_then (read_udp_option sy k5 g5 (\<lambda>v s. s\<lparr>fs_hello_abi := v\<rparr>) 0 4294967295)
      (and_then (read_udp_option sy k6 g6 (\<lambda>v s. s\<lparr>fs_udp_variant := v\<rparr>) 0 (ucast RL_VARIANT_DAMAGE_BIAS))
      (and_then (read_udp_option sy k7 g7 (\<lambda>v s. s\<lparr>fs_handshake_timeout_ms := v\<rparr>) 1 60000)
      (and_then (read_udp_option sy k8 g8 (\<lambda>v s. s\<lparr>fs_run_timeout_ms := v\<rparr>) 1 60000)
         (unless (\<lambda>av. fs_listen_port (av_requested av) \<noteq> 0
            \<and> fs_listen_port (av_requested av) = fs_relay_port (av_requested av)) message))))))))) (in_ports 9)"
      for k1 k2 k3 k4 k5 k6 k7 k8 g1 g2 g3 g4 g5 g6 g7 g8 message
      by (rule port_step [where Q = "in_ports 1"], (simp_all add: in_ports_def in_frames_def Let_def)[2],
          rule port_step [where Q = "in_ports 2"], (simp_all add: in_ports_def in_frames_def Let_def)[2],
          rule port_step [where Q = "in_ports 3"], (simp_all add: in_ports_def in_frames_def Let_def)[2],
          rule port_step [where Q = "in_ports 4"], (simp_all add: in_ports_def in_frames_def Let_def)[2],
          rule port_step [where Q = "in_ports 5"], (simp_all add: in_ports_def in_frames_def Let_def)[2],
          rule port_step [where Q = "in_ports 6"], (simp_all add: in_ports_def in_frames_def Let_def RL_VARIANT_DAMAGE_BIAS_def)[2],
          rule port_step [where Q = "in_ports 7"], (simp_all add: in_ports_def in_frames_def Let_def)[2],
          rule port_step [where Q = "in_ports 8"], (simp_all add: in_ports_def in_frames_def Let_def)[2],
          rule establishes_unless, simp add: in_ports_def in_frames_def Let_def)
    from this [unfolded establishes_def, rule_format, OF p r'] show "in_ports 9 av'" .
  qed
  have "in_ports 0 av" using True assms(2) by (simp add: in_ports_def Let_def)
  with e assms(1) have "in_ports 9 av'" unfolding establishes_def by blast
  then show ?thesis by (simp add: in_ports_def Let_def)
qed

lemma read_frames_ok:
  assumes "read_frames sy av = (None, av')"
    and "av_udp_mode av \<longleftrightarrow> fs_mode (av_requested av) = EM_UdpPeer"
    and "av_udp_mode av \<longrightarrow> unat (fs_local_peer (av_requested av)) \<le> 1"
  shows "in_frames (av_udp_mode av') (av_requested av')"
proof -
  obtain frames preset :: u64 where
    av': "av' = av\<lparr>av_requested := (av_requested av)\<lparr>fs_frame_count := ucast frames, fs_network_preset := ucast preset\<rparr>\<rparr>"
    and r: "frames \<noteq> 0" "\<not> frames > (if av_udp_mode av then 240 else 36000)" "\<not> preset > 2"
    using assms(1) by (auto simp: read_frames_def split: sum.splits if_splits)
  have "unat frames \<le> (if av_udp_mode av then 240 else 36000)" "unat preset \<le> 2"
    using r(2,3) by (auto simp: not_less word_le_nat_alt split: if_splits)
  moreover from this have "unat (ucast frames :: u32) = unat frames" "unat (ucast preset :: u32) = unat preset"
    by (auto intro!: unat_narrow split: if_splits)
  moreover have "1 \<le> unat frames" using r(1) by (simp add: Suc_le_eq unat_gt_0)
  ultimately show ?thesis using assms(2,3) unfolding av' in_frames_def by simp
qed

lemma read_mode_ok:
  assumes "read_mode sy av = (None, av')"
  shows "(av_udp_mode av' \<longleftrightarrow> fs_mode (av_requested av') = EM_UdpPeer)
    \<and> (av_udp_mode av' \<longrightarrow> unat (fs_local_peer (av_requested av')) \<le> 1)"
proof -
  have "fs_mode (default_settings m) = m" for m by (simp add: default_settings_def Let_def)
  with assms show ?thesis
    by (auto simp: read_mode_def command_mode_def RL_PEER_A_def RL_PEER_B_def split: option.splits if_splits)
qed

lemma read_options_ok:
  assumes "read_options sy av = (None, av')"
  shows "refused_settings (av_requested av') = None \<and> (av_udp_mode av' \<longleftrightarrow> fs_mode (av_requested av') = EM_UdpPeer)"
proof -
  obtain av1 av2 av3 av4 av5 av6 where s: "read_mode sy av1 = (None, av2)" "read_seed sy av2 = (None, av3)"
    "read_transport_seed sy av3 = (None, av4)" "read_frames sy av4 = (None, av5)" "read_udp_options sy av5 = (None, av6)"
    "read_exit_interval sy av6 = (None, av')"
    using assms unfolding read_options_def and_then_ok by blast
  note mode = read_mode_ok [OF s(1)]
  have "av_udp_mode av4 = av_udp_mode av2" "fs_mode (av_requested av4) = fs_mode (av_requested av2)"
    "fs_local_peer (av_requested av4) = fs_local_peer (av_requested av2)"
    using s(2,3) by (auto simp: read_seed_def read_transport_seed_def split: sum.splits)
  with mode have "in_frames (av_udp_mode av5) (av_requested av5)" by (intro read_frames_ok [OF s(4)]) simp_all
  from read_udp_options_ok [OF s(5) this] have "refused_settings (av_requested av6) = None"
    "av_udp_mode av6 \<longleftrightarrow> fs_mode (av_requested av6) = EM_UdpPeer"
    using accepted_ranges by (blast, simp add: in_frames_def)
  moreover have "av_requested av' = av_requested av6" "av_udp_mode av' = av_udp_mode av6"
    using s(6) by (auto simp: read_exit_interval_def split: sum.splits if_splits)
  ultimately show ?thesis by simp
qed

lemma read_settings_accepted:
  assumes "read_settings sy av w = (True, av', w')"
  shows "refused_settings (av_requested av') = None" "av_udp_mode av' \<longleftrightarrow> fs_mode (av_requested av') = EM_UdpPeer"
proof -
  obtain av1 where o: "read_options sy av = (None, av1)" "av_requested av' = av_requested av1"
    "av_udp_mode av' = av_udp_mode av1"
    using assms by (auto simp: read_settings_def Let_def split: prod.splits option.splits if_splits)
  from read_options_ok [OF o(1)] o(2,3) show "refused_settings (av_requested av') = None"
    "av_udp_mode av' \<longleftrightarrow> fs_mode (av_requested av') = EM_UdpPeer" by simp_all
qed

end
