(* ===== verification/SceneProof.thy ===== *)
theory SceneProof
  imports ScenePlay SceneStart
begin

text \<open>
  What the demo's exit status is worth, and that the view gives back what it takes. The invariant is over the
  life of one view: made, playing, ended.
\<close>

section \<open>What a run has shown\<close>

text \<open>The measurements of the peers, which survive the end of a run.\<close>

definition peers :: "('s, 'd) Scene \<Rightarrow> rl_metrics \<times> rl_world_snapshot \<times> rl_metrics \<times> rl_world_snapshot \<times> rl_udp_step_result" where
  "peers sc =
     (let a = im_view_a (sn_runtime sc); b = im_view_b (sn_runtime sc)
      in (fv_metrics a, fv_snapshot a, fv_metrics b, fv_snapshot b, im_last_udp_step (sn_runtime sc)))"

definition run_shown :: "FSettings \<Rightarrow> rl_metrics \<times> rl_world_snapshot \<times> rl_metrics \<times> rl_world_snapshot \<times> rl_udp_step_result \<Rightarrow> bool" where
  "run_shown s = (\<lambda>(ma, sa, mb, sb, _).
     mn_confirmed_frame ma = fs_frame_count s \<and> mn_confirmed_frame mb = fs_frame_count s
   \<and> wn_state_hash sa = wn_state_hash sb \<and> (mn_rollback_count ma \<noteq> 0 \<or> mn_rollback_count mb \<noteq> 0))"

definition udp_shown :: "FSettings \<Rightarrow> bool \<Rightarrow> rl_metrics \<times> rl_world_snapshot \<times> rl_metrics \<times> rl_world_snapshot \<times> rl_udp_step_result
    \<Rightarrow> bool" where
  "udp_shown s correction = (\<lambda>(ma, sa, mb, sb, step).
     let first = (fs_local_peer s \<noteq> RL_PEER_B); m = (if first then ma else mb); w = (if first then sa else sb)
     in ur_finished step \<noteq> 0 \<and> ur_desync_detected step = 0 \<and> ur_handshake_complete step \<noteq> 0
      \<and> mn_confirmed_frame m = fs_frame_count s \<and> wn_frame w = fs_frame_count s
      \<and> (mn_rollback_count m = 0 \<or> correction))"

definition shown :: "('s, 'd) Scene \<Rightarrow> bool" where
  "shown sc \<longleftrightarrow>
     (let av = sn_view sc in
        av_written av \<and> av_start_captured av \<and> av_final_captured av
      \<and> (if av_udp_mode av then udp_shown (av_requested av) (av_correction_captured av) (peers sc)
         else av_correction_captured av \<and> run_shown (av_requested av) (peers sc)))"

section \<open>What stays\<close>

definition kept :: "('s, 'd) Scene \<Rightarrow> ('s, 'd) Scene \<Rightarrow> bool" where
  "kept sc sc' \<longleftrightarrow>
     (let av = sn_view sc; av' = sn_view sc' in
        av_smoke av' = av_smoke av \<and> av_udp_mode av' = av_udp_mode av \<and> av_requested av' = av_requested av
      \<and> av_model av' = av_model av \<and> av_bridge av' = av_bridge av \<and> av_listening av' = av_listening av
      \<and> (av_written av \<longrightarrow> av_written av') \<and> (av_start_captured av \<longrightarrow> av_start_captured av')
      \<and> (av_correction_captured av \<longrightarrow> av_correction_captured av') \<and> (av_final_captured av \<longrightarrow> av_final_captured av')
      \<and> peers sc' = peers sc)"

text \<open>Nothing but texts, pictures and the rest of the world changed, and perhaps evidence was written.\<close>

definition placid :: "('s, 'd) Scene \<Rightarrow> ('s, 'd) Scene \<Rightarrow> bool" where
  "placid sc sc' \<longleftrightarrow>
     kept sc sc' \<and> av_exiting (sn_view sc') = av_exiting (sn_view sc) \<and> sn_exits sc' = sn_exits sc
   \<and> sn_runtime sc' = sn_runtime sc \<and> (\<exists>os. sn_world sc' = (sn_world sc)\<lparr>bw_os := os\<rparr>)"

definition steady :: "('s, 'd) Scene \<Rightarrow> ('s, 'd) Scene \<Rightarrow> bool" where
  "steady sc sc' \<longleftrightarrow> placid sc sc' \<and> av_written (sn_view sc') = av_written (sn_view sc)"

lemma kept_refl: "kept sc sc" by (simp add: kept_def Let_def)

lemma kept_trans: "\<lbrakk>kept a b; kept b c\<rbrakk> \<Longrightarrow> kept a c" by (simp add: kept_def Let_def)

lemma kept_shown: "\<lbrakk>kept sc sc'; shown sc\<rbrakk> \<Longrightarrow> shown sc'"
  by (cases "peers sc") (auto simp: kept_def shown_def udp_shown_def Let_def split: if_splits)

lemma placid_refl: "placid sc sc"
  by (cases "sn_world sc") (auto simp: placid_def kept_refl intro: exI [of _ "bw_os (sn_world sc)"])

lemma placid_trans: "\<lbrakk>placid a b; placid b c\<rbrakk> \<Longrightarrow> placid a c"
  unfolding placid_def by (auto intro: kept_trans)

lemma steady_refl: "steady sc sc" by (simp add: steady_def placid_refl)

lemma steady_trans: "\<lbrakk>steady a b; steady b c\<rbrakk> \<Longrightarrow> steady a c"
  unfolding steady_def by (auto intro: placid_trans)

lemma steady_placid: "steady sc sc' \<Longrightarrow> placid sc sc'" by (simp add: steady_def)

lemma placid_kept: "placid sc sc' \<Longrightarrow> kept sc sc'" by (simp add: placid_def)

lemma from_os_steady: "from_os f sc = (a, sc') \<Longrightarrow> steady sc sc'"
  by (auto simp: from_os_def steady_def placid_def kept_def peers_def Let_def split: prod.splits)

lemma on_os_steady: "steady sc (on_os f sc)"
  by (auto simp: on_os_def steady_def placid_def kept_def peers_def Let_def)

text \<open>A change of the view that touches neither the flags nor the settings.\<close>

lemma on_view_steady:
  assumes "\<And>av. av_smoke (f av) = av_smoke av" "\<And>av. av_udp_mode (f av) = av_udp_mode av"
    "\<And>av. av_requested (f av) = av_requested av" "\<And>av. av_model (f av) = av_model av"
    "\<And>av. av_bridge (f av) = av_bridge av" "\<And>av. av_listening (f av) = av_listening av"
    "\<And>av. av_written (f av) = av_written av" "\<And>av. av_exiting (f av) = av_exiting av"
    "\<And>av. av_start_captured av \<Longrightarrow> av_start_captured (f av)"
    "\<And>av. av_correction_captured av \<Longrightarrow> av_correction_captured (f av)"
    "\<And>av. av_final_captured av \<Longrightarrow> av_final_captured (f av)"
  shows "steady sc (on_view f sc)"
proof -
  have "\<exists>os. sn_world sc = (sn_world sc)\<lparr>bw_os := os\<rparr>" by (rule exI [of _ "bw_os (sn_world sc)"]) simp
  with assms show ?thesis by (simp add: on_view_def steady_def placid_def kept_def peers_def Let_def)
qed

lemma set_failure_steady: "steady sc (set_failure message sc)"
  unfolding set_failure_def by (rule on_view_steady) simp_all

lemma note_failure_steady: "steady sc (note_failure success message sc)"
  by (simp add: note_failure_def set_failure_steady steady_refl)

lemma update_projection_steady: "steady sc (update_projection sc)"
  by (auto simp: update_projection_def Let_def steady_refl intro: on_view_steady)

lemma request_capture_steady: "steady sc (request_capture sy name sc)"
proof -
  have "steady sc (on_view (\<lambda>av. av\<lparr>av_pending_capture := name, av_capture_pending := True\<rparr>) sc)"
    by (rule on_view_steady) simp_all
  then show ?thesis
    by (auto simp: request_capture_def Let_def steady_refl intro: steady_trans [OF _ on_os_steady])
qed

lemma drop_pictures_steady: "steady sc (drop_pictures sy sc)"
proof -
  have "steady sc (if av_capture_pending (sn_view sc) then on_os (sy_reset_screenshots sy) sc else sc)"
    by (simp add: on_os_steady steady_refl)
  moreover have "steady x (on_view (\<lambda>av. av\<lparr>av_capture_pending := False\<rparr>) x)" for x
    by (rule on_view_steady) simp_all
  ultimately show ?thesis unfolding drop_pictures_def Let_def by (rule steady_trans)
qed

lemma write_evidence_placid:
  assumes "write_evidence sy report replay text sc = (good, sc')"
  shows "placid sc sc' \<and> av_written (sn_view sc')"
proof -
  let ?path = "av_trace_path (sn_view sc)" and ?dir = "sy_get_path sy (av_trace_path (sn_view sc))"
  obtain b1 sc1 b2 sc2 b3 sc3 b4 sc4 where
    s: "from_os (sy_make_directory sy ?dir) sc = (b1, sc1)"
      "(case report of None \<Rightarrow> (True, sc1)
        | Some t \<Rightarrow> from_os (sy_save_text sy t (sy_combine sy ?dir ''report.json'')) sc1) = (b2, sc2)"
      "(case replay of None \<Rightarrow> (True, sc2)
        | Some bs \<Rightarrow> from_os (sy_save_bytes sy bs (sy_combine sy ?dir ''input.rlr'')) sc2) = (b3, sc3)"
      "from_os (sy_save_text sy text ?path) sc3 = (b4, sc4)"
    by (metis prod.exhaust)
  have sc': "sc' = on_view (\<lambda>av. av\<lparr>av_written := True\<rparr>) sc4"
    using assms by (simp add: write_evidence_def Let_def s)
  have "steady sc1 sc2" using s(2) by (auto simp: steady_refl from_os_steady split: option.splits)
  moreover have "steady sc2 sc3" using s(3) by (auto simp: steady_refl from_os_steady split: option.splits)
  ultimately have "steady sc sc4" using from_os_steady [OF s(1)] from_os_steady [OF s(4)] by (blast intro: steady_trans)
  moreover have "\<exists>os. sn_world sc4 = (sn_world sc4)\<lparr>bw_os := os\<rparr>" by (rule exI [of _ "bw_os (sn_world sc4)"]) simp
  then have "placid sc4 sc'" by (simp add: sc' on_view_def placid_def kept_def peers_def Let_def)
  ultimately show ?thesis by (auto intro: placid_trans steady_placid simp: sc' on_view_def)
qed

lemma save_run_evidence_placid:
  assumes "save_run_evidence sy en wanted sc = (good, sc')"
  shows "placid sc sc' \<and> (good \<longrightarrow> av_smoke (sn_view sc) \<longrightarrow> wanted \<and> run_verified sy en sc \<and> av_written (sn_view sc'))"
proof (cases "av_trace_path (sn_view sc) = ''''")
  case True
  with assms show ?thesis by (auto simp: save_run_evidence_def placid_refl)
next
  case False
  let ?success = "wanted \<and> run_verified sy en sc"
  let ?sc = "note_failure ?success
    ''Smoke did not satisfy report, replay, screenshot, rollback and confirmed-parity invariants.'' sc"
  obtain b where "write_evidence sy (scene_report en ?sc) (scene_replay en ?sc) (evidence_text sy en ?success ?sc) ?sc
      = (b, sc')" "good \<longleftrightarrow> b \<and> ?success"
    using assms False by (auto simp: save_run_evidence_def Let_def split: prod.splits)
  with write_evidence_placid [OF this(1)] steady_placid [OF note_failure_steady, of sc] show ?thesis
    by (blast intro: placid_trans)
qed

lemma save_udp_evidence_placid:
  assumes "save_udp_evidence sy en whole wanted sc = (good, sc')"
  shows "placid sc sc' \<and> (good \<longrightarrow> av_smoke (sn_view sc) \<longrightarrow> wanted \<and> udp_verified sy en whole sc \<and> av_written (sn_view sc'))"
proof (cases "av_trace_path (sn_view sc) = ''''")
  case True
  with assms show ?thesis by (auto simp: save_udp_evidence_def placid_refl)
next
  case False
  let ?success = "wanted \<and> udp_verified sy en whole sc"
  let ?sc = "note_failure ?success
    ''UDP smoke did not satisfy report, replay, required captures and local confirmation invariants.'' sc"
  obtain b where "write_evidence sy (scene_report en ?sc) (scene_replay en ?sc)
      (udp_evidence_text sy en whole ?success ?sc) ?sc = (b, sc')" "good \<longleftrightarrow> b \<and> ?success"
    using assms False by (auto simp: save_udp_evidence_def Let_def split: prod.splits)
  with write_evidence_placid [OF this(1)] steady_placid [OF note_failure_steady, of sc] show ?thesis
    by (blast intro: placid_trans)
qed

lemma save_evidence_placid: "placid sc (snd (save_evidence sy en whole wanted sc))"
  using save_run_evidence_placid [of sy en wanted sc] save_udp_evidence_placid [of sy en whole wanted sc]
  by (cases "save_run_evidence sy en wanted sc"; cases "save_udp_evidence sy en whole wanted sc")
    (simp add: save_evidence_def)

section \<open>Evidence of success\<close>

text \<open>The settings of the model are those that the command line asked for, as long as an automatic run goes on.\<close>

definition as_requested :: "('s, 'd) Scene \<Rightarrow> bool" where
  "as_requested sc \<longleftrightarrow>
     (let av = sn_view sc in av_smoke av \<longrightarrow> \<not> av_exiting av \<longrightarrow>
        (case av_model av of None \<Rightarrow> True | Some m \<Rightarrow> fm_settings m = av_requested av))"

lemma run_verified_shown:
  assumes "run_verified sy en sc" "as_requested sc" "av_smoke (sn_view sc)" "\<not> av_exiting (sn_view sc)"
  shows "av_start_captured (sn_view sc) \<and> av_final_captured (sn_view sc) \<and> av_correction_captured (sn_view sc)
    \<and> run_shown (av_requested (sn_view sc)) (peers sc)"
proof -
  have m: "has_model sc" using assms(1) by (simp add: run_verified_def Let_def)
  then have "scene_settings sc = av_requested (sn_view sc)"
    using assms(2-4) by (auto simp: as_requested_def scene_settings_def has_model_def split: option.splits)
  moreover have "rollbacks sc > 0" using assms(1) by (simp add: run_verified_def Let_def)
  then have "mn_rollback_count (fv_metrics (im_view_a (sn_runtime sc))) \<noteq> 0
    \<or> mn_rollback_count (fv_metrics (im_view_b (sn_runtime sc))) \<noteq> 0" by (auto simp: rollbacks_def split: if_splits)
  ultimately show ?thesis
    using assms(1) by (simp add: run_verified_def run_shown_def peers_def Let_def)
qed

lemma udp_verified_shown:
  assumes "udp_verified sy en whole sc"
  shows "av_start_captured (sn_view sc) \<and> av_final_captured (sn_view sc)
    \<and> udp_shown (av_requested (sn_view sc)) (av_correction_captured (sn_view sc)) (peers sc)"
proof -
  let ?p = "fs_local_peer (av_requested (sn_view sc))"
  have "has_model sc" "udp_handshake sy en sc" using assms by (simp_all add: udp_verified_def Let_def)
  then have "ur_handshake_complete (im_last_udp_step (sn_runtime sc)) \<noteq> 0"
    "udp_step sc = im_last_udp_step (sn_runtime sc)" by (simp_all add: udp_handshake_def udp_step_def)
  moreover have "udp_view sc = (if ?p \<noteq> RL_PEER_B then im_view_a (sn_runtime sc) else im_view_b (sn_runtime sc))"
  proof -
    have "?p \<le> RL_PEER_B \<longleftrightarrow> ?p = 0 \<or> ?p = 1"
      by (auto simp: RL_PEER_B_def word_le_nat_alt word_unat_eq_iff)
    then show ?thesis by (auto simp: udp_view_def udp_peer_index_def Let_def RL_PEER_A_def RL_PEER_B_def)
  qed
  ultimately show ?thesis
    using assms by (auto simp: udp_verified_def udp_shown_def peers_def Let_def)
qed

lemma save_evidence_shown:
  assumes "save_evidence sy en whole wanted sc = (True, sc')" "as_requested sc" "av_smoke (sn_view sc)"
    "\<not> av_exiting (sn_view sc)"
  shows "shown sc'"
proof (cases "av_udp_mode (sn_view sc)")
  case True
  with assms(1) have s: "save_udp_evidence sy en whole wanted sc = (True, sc')" by (simp add: save_evidence_def)
  note c = save_udp_evidence_placid [OF s]
  from udp_verified_shown c assms(3) have "shown (on_view (\<lambda>av. av\<lparr>av_written := True\<rparr>) sc)"
    by (auto simp: shown_def on_view_def peers_def Let_def True)
  moreover have "kept (on_view (\<lambda>av. av\<lparr>av_written := True\<rparr>) sc) sc'"
    using c assms(3) by (simp add: placid_def kept_def on_view_def peers_def Let_def)
  ultimately show ?thesis by (blast intro: kept_shown)
next
  case False
  with assms(1) have s: "save_run_evidence sy en wanted sc = (True, sc')" by (simp add: save_evidence_def)
  note c = save_run_evidence_placid [OF s]
  from run_verified_shown [OF _ assms(2-4)] c assms(3) have "shown (on_view (\<lambda>av. av\<lparr>av_written := True\<rparr>) sc)"
    by (auto simp: shown_def on_view_def peers_def Let_def False)
  moreover have "kept (on_view (\<lambda>av. av\<lparr>av_written := True\<rparr>) sc) sc'"
    using c assms(3) by (simp add: placid_def kept_def on_view_def peers_def Let_def)
  ultimately show ?thesis by (blast intro: kept_shown)
qed

section \<open>The invariant of a view that plays\<close>

definition holds_bridge :: "('s, 'd) Engine \<Rightarrow> 's BridgeWorld \<Rightarrow> ('s, 'd) Scene \<Rightarrow> bool" where
  "holds_bridge en w0 sc \<longleftrightarrow>
     bridge_inv en w0 (sn_runtime sc) (sn_world sc)
   \<and> (av_bridge (sn_view sc) \<or> im_resources (sn_runtime sc) = None \<and> av_model (sn_view sc) = None)"

definition honest_exits :: "('s, 'd) Scene \<Rightarrow> bool" where
  "honest_exits sc \<longleftrightarrow>
     (av_smoke (sn_view sc) \<longrightarrow> (\<forall>force. (force, 0) \<in> set (sn_exits sc) \<longrightarrow> av_exiting (sn_view sc) \<and> shown sc))"

definition closed :: "('s, 'd) Scene \<Rightarrow> bool" where
  "closed sc \<longleftrightarrow> (av_smoke (sn_view sc) \<longrightarrow> av_written (sn_view sc) \<longrightarrow> av_exiting (sn_view sc))"

definition play_inv :: "('s, 'd) Engine \<Rightarrow> 's BridgeWorld \<Rightarrow> ('s, 'd) Scene \<Rightarrow> bool" where
  "play_inv en w0 sc \<longleftrightarrow> holds_bridge en w0 sc \<and> honest_exits sc \<and> as_requested sc \<and> closed sc"

lemma placid_holds: "\<lbrakk>placid sc sc'; holds_bridge en w0 sc\<rbrakk> \<Longrightarrow> holds_bridge en w0 sc'"
  by (auto simp: placid_def kept_def holds_bridge_def bridge_inv_def unchanged_def owns_def Let_def split: option.splits)

lemma placid_honest: "\<lbrakk>placid sc sc'; honest_exits sc\<rbrakk> \<Longrightarrow> honest_exits sc'"
  using kept_shown [of sc sc'] by (auto simp: placid_def honest_exits_def kept_def Let_def)

lemma placid_requested: "\<lbrakk>placid sc sc'; as_requested sc\<rbrakk> \<Longrightarrow> as_requested sc'"
  by (simp add: placid_def as_requested_def kept_def Let_def split: option.splits)

lemma steady_closed: "\<lbrakk>steady sc sc'; closed sc\<rbrakk> \<Longrightarrow> closed sc'"
  by (simp add: steady_def placid_def closed_def kept_def Let_def)

lemma invD:
  assumes "play_inv en w0 sc"
  shows "holds_bridge en w0 sc" "honest_exits sc" "as_requested sc" "closed sc"
  using assms by (simp_all add: play_inv_def)

lemma steady_inv: "\<lbrakk>steady sc sc'; play_inv en w0 sc\<rbrakk> \<Longrightarrow> play_inv en w0 sc'"
  unfolding play_inv_def
  by (blast intro: steady_placid placid_holds placid_honest placid_requested steady_closed)

lemma stop_bridge_succeeds:
  assumes "holds_bridge en w0 sc"
  shows "\<exists>im w. stop_bridge en sc = Some (sc\<lparr>sn_runtime := im, sn_world := w\<rparr>) \<and> im_resources im = None
    \<and> bridge_inv en w0 im w \<and> unchanged w0 w \<and> peers (sc\<lparr>sn_runtime := im, sn_world := w\<rparr>) = peers sc"
proof (cases "av_bridge (sn_view sc)")
  case False
  then have "stop_bridge en sc = Some (sc\<lparr>sn_runtime := sn_runtime sc, sn_world := sn_world sc\<rparr>)"
    by (simp add: stop_bridge_def)
  with assms False show ?thesis by (fastforce simp: holds_bridge_def bridge_inv_def)
next
  case True
  have "bridge_inv en w0 (sn_runtime sc) (sn_world sc)" using assms by (simp add: holds_bridge_def)
  from runtime_stop_inv [OF this] obtain im w where
    s: "stop en (en_game_thread en) (sn_runtime sc) (sn_world sc) = Some (im, w)" "im_resources im = None"
       "im_owner_thread im = en_game_thread en" "unchanged w0 w" by blast
  from s(1) have "peers (sc\<lparr>sn_runtime := im, sn_world := w\<rparr>) = peers sc"
    by (auto simp: stop_def peers_def Let_def split: if_splits bind_splits)
  moreover have "stop_bridge en sc = Some (sc\<lparr>sn_runtime := im, sn_world := w\<rparr>)" "bridge_inv en w0 im w"
    using s True by (simp_all add: stop_bridge_def bridge_inv_def)
  ultimately show ?thesis using s(2,4) by blast
qed

text \<open>Asking for an exit with status 0 needs a reason in an automatic run that has written its evidence.\<close>

lemma quit_inv:
  assumes b: "holds_bridge en w0 sc" "honest_exits sc"
    and zero: "\<lbrakk>av_smoke (sn_view sc); av_written (sn_view sc); \<not> av_exiting (sn_view sc); status = 0\<rbrakk> \<Longrightarrow> shown sc"
  shows "\<exists>sc'. quit sy en whole status sc = Some sc' \<and> play_inv en w0 sc' \<and> av_exiting (sn_view sc') \<and> kept sc sc'"
proof (cases "av_exiting (sn_view sc)")
  case True
  with b show ?thesis by (simp add: quit_def play_inv_def closed_def as_requested_def kept_refl Let_def)
next
  case False
  let ?inc = "av_smoke (sn_view sc) \<and> \<not> av_written (sn_view sc)"
  let ?sc1 = "on_view (\<lambda>av. av\<lparr>av_exiting := True\<rparr>) sc"
  define sc2 where "sc2 = (if ?inc
    then snd (save_evidence sy en whole False (set_failure ''Exit requested before smoke completion.'' ?sc1)) else ?sc1)"
  let ?status = "if ?inc then 1 else status"
  have view1: "av_smoke (sn_view ?sc1) = av_smoke (sn_view sc)" "av_written (sn_view ?sc1) = av_written (sn_view sc)"
    by (simp_all add: on_view_def)
  have q: "quit sy en whole status sc
    = (if ?status \<noteq> 0 then map_option (request_exit True ?status) (stop_bridge en (drop_pictures sy sc2))
       else Some (request_exit False ?status sc2))"
    using False by (simp add: quit_def Let_def view1 sc2_def)
  have none: "\<not> (av_smoke (sn_view sc) \<and> (force, 0) \<in> set (sn_exits sc))" for force
    using b(2) False by (auto simp: honest_exits_def)
  have "placid ?sc1 sc2"
    by (simp add: sc2_def placid_refl placid_trans [OF steady_placid [OF set_failure_steady] save_evidence_placid])
  moreover have k1: "kept sc ?sc1" "holds_bridge en w0 ?sc1"
    using b(1) by (simp_all add: kept_def on_view_def holds_bridge_def peers_def Let_def)
  ultimately have h2: "holds_bridge en w0 sc2" and k2: "kept sc sc2"
    by (blast intro: placid_holds kept_trans placid_kept)+
  have e2: "av_exiting (sn_view sc2)" "sn_exits sc2 = sn_exits sc"
    using \<open>placid ?sc1 sc2\<close> by (simp_all add: placid_def on_view_def)
  show ?thesis
  proof (cases "?status = 0")
    case True
    then have z: "\<not> ?inc" "status = 0" by (simp_all split: if_splits)
    let ?sc' = "request_exit False 0 sc2"
    have k: "kept sc ?sc'" using k2 by (simp add: kept_def request_exit_def peers_def Let_def)
    have "av_smoke (sn_view sc) \<Longrightarrow> shown ?sc'" using kept_shown [OF k] zero z False by blast
    moreover have "av_smoke (sn_view ?sc') = av_smoke (sn_view sc)" using k by (simp add: kept_def Let_def)
    ultimately have "honest_exits ?sc'" using e2 by (simp add: honest_exits_def request_exit_def)
    moreover have "holds_bridge en w0 ?sc'" "as_requested ?sc'" "closed ?sc'" "av_exiting (sn_view ?sc')"
      using h2 e2 by (simp_all add: holds_bridge_def as_requested_def closed_def request_exit_def Let_def)
    moreover have "quit sy en whole status sc = Some ?sc'" unfolding q using True by simp
    ultimately show ?thesis unfolding play_inv_def using k by blast
  next
    case st: False
    let ?sc3 = "drop_pictures sy sc2"
    have c3: "placid sc2 ?sc3" by (rule steady_placid [OF drop_pictures_steady])
    obtain im w where s: "stop_bridge en ?sc3 = Some (?sc3\<lparr>sn_runtime := im, sn_world := w\<rparr>)" "im_resources im = None"
        "bridge_inv en w0 im w" "peers (?sc3\<lparr>sn_runtime := im, sn_world := w\<rparr>) = peers ?sc3"
      using stop_bridge_succeeds [OF placid_holds [OF c3 h2]] by blast
    let ?sc' = "request_exit True ?status (?sc3\<lparr>sn_runtime := im, sn_world := w\<rparr>)"
    have "kept sc ?sc3" using k2 placid_kept [OF c3] by (rule kept_trans)
    moreover have "peers ?sc' = peers ?sc3" using s(4) by (simp add: request_exit_def peers_def Let_def)
    ultimately have k: "kept sc ?sc'" by (simp add: kept_def request_exit_def Let_def)
    have e3: "av_exiting (sn_view ?sc3)" "sn_exits ?sc3 = sn_exits sc" using c3 e2 by (simp_all add: placid_def)
    have "av_smoke (sn_view ?sc') = av_smoke (sn_view sc)" using k by (simp add: kept_def Let_def)
    then have "honest_exits ?sc'" using none e3 st by (auto simp: honest_exits_def request_exit_def)
    moreover have "holds_bridge en w0 ?sc'"
      using s(2,3) placid_holds [OF c3 h2] by (auto simp: holds_bridge_def request_exit_def)
    moreover have "as_requested ?sc'" "closed ?sc'" "av_exiting (sn_view ?sc')"
      using e3 by (simp_all add: as_requested_def closed_def request_exit_def Let_def)
    moreover have "quit sy en whole status sc = Some ?sc'" unfolding q using st s(1) by simp
    ultimately show ?thesis unfolding play_inv_def using k by blast
  qed
qed

lemma kept_steady: "steady sc sc' \<Longrightarrow> kept sc sc'" by (simp add: steady_def placid_def)

lemma give_up_inv:
  assumes "holds_bridge en w0 sc" "honest_exits sc"
  shows "\<exists>sc'. quit sy en whole 1 (snd (save_evidence sy en whole False sc)) = Some sc' \<and> play_inv en w0 sc'
    \<and> av_exiting (sn_view sc') \<and> kept sc sc'"
proof -
  let ?sc = "snd (save_evidence sy en whole False sc)"
  note c = save_evidence_placid [of sc sy en whole False]
  have "holds_bridge en w0 ?sc" "honest_exits ?sc" using assms placid_holds [OF c] placid_honest [OF c] by simp_all
  from quit_inv [OF this, of 1 sy whole, simplified] obtain sc' where "quit sy en whole 1 ?sc = Some sc'" "play_inv en w0 sc'"
    "av_exiting (sn_view sc')" "kept ?sc sc'" by auto
  with placid_kept [OF c] show ?thesis by (blast intro: kept_trans)
qed

lemma fail_inv:
  assumes "play_inv en w0 sc"
  shows "\<exists>sc'. fail sy en whole reason sc = Some sc' \<and> play_inv en w0 sc' \<and> kept sc sc'
    \<and> (av_smoke (sn_view sc) \<longrightarrow> \<not> av_written (sn_view sc) \<longrightarrow> \<not> av_listening (sn_view sc) \<longrightarrow> av_exiting (sn_view sc'))"
proof -
  let ?sc = "set_failure reason sc"
  have q: "steady sc ?sc" by (rule set_failure_steady)
  have inv: "play_inv en w0 ?sc" using q assms by (rule steady_inv)
  have same: "av_smoke (sn_view ?sc) = av_smoke (sn_view sc)" "av_written (sn_view ?sc) = av_written (sn_view sc)"
    "av_listening (sn_view ?sc) = av_listening (sn_view sc)"
    by (simp_all add: set_failure_def on_view_def)
  let ?desync = "av_udp_mode (sn_view ?sc) \<and> has_model ?sc \<and> ur_desync_detected (im_last_udp_step (sn_runtime ?sc)) \<noteq> 0
    \<and> \<not> av_failure_capture_attempted (sn_view ?sc) \<and> av_capture_directory (sn_view ?sc) \<noteq> ''''
    \<and> \<not> av_capture_pending (sn_view ?sc) \<and> av_listening (sn_view ?sc)"
  show ?thesis
  proof (cases "av_smoke (sn_view ?sc) \<and> \<not> av_written (sn_view ?sc)")
    case False
    then have "fail sy en whole reason sc = Some ?sc" by (simp add: fail_def Let_def)
    with inv kept_steady [OF q] False same show ?thesis by auto
  next
    case True
    show ?thesis
    proof (cases ?desync)
      case desync: True
      let ?sc1 = "on_view (\<lambda>av. av\<lparr>av_failure_capture_attempted := True, av_failure_capture_pending := True\<rparr>)
        (update_projection ?sc)"
      have "steady (update_projection ?sc) ?sc1" by (rule on_view_steady) simp_all
      then have c: "steady ?sc (request_capture sy ''desync'' ?sc1)"
        by (rule steady_trans [OF steady_trans [OF update_projection_steady] request_capture_steady])
      have "fail sy en whole reason sc = Some (request_capture sy ''desync'' ?sc1)"
        using True desync by (simp add: fail_def Let_def)
      moreover have "av_listening (sn_view sc)" using desync same by simp
      ultimately show ?thesis
        using steady_inv [OF c inv] kept_steady [OF steady_trans [OF q c]] by simp
    next
      case nodesync: False
      have "fail sy en whole reason sc = quit sy en whole 1 (snd (save_evidence sy en whole False ?sc))"
        unfolding fail_def Let_def if_not_P [OF nodesync] using True by simp
      with give_up_inv [OF invD(1,2) [OF inv], of sy whole] kept_steady [OF q] show ?thesis by (auto intro: kept_trans)
    qed
  qed
qed

lemma screenshot_inv:
  assumes "play_inv en w0 sc"
  shows "\<exists>sc'. screenshot_processed sy en whole sc = Some sc' \<and> play_inv en w0 sc'"
proof (cases "av_capture_pending (sn_view sc)")
  case False
  with assms show ?thesis by (simp add: screenshot_processed_def)
next
  case True
  let ?sc = "on_view (\<lambda>av. av\<lparr>av_capture_pending := False\<rparr>) sc"
  have "steady sc ?sc" by (rule on_view_steady) simp_all
  then have inv: "play_inv en w0 ?sc" using assms by (rule steady_inv)
  have "steady ?sc (on_view (\<lambda>av. if name = ''start'' then av\<lparr>av_start_captured := True\<rparr>
      else if name = ''correction'' then av\<lparr>av_correction_captured := True\<rparr> else av\<lparr>av_final_captured := True\<rparr>) ?sc)" for name
    by (rule on_view_steady) simp_all
  note photo = steady_inv [OF this inv]
  have "\<exists>sc'. fail sy en whole reason ?sc = Some sc' \<and> play_inv en w0 sc'" for reason using fail_inv [OF inv] by blast
  with photo show ?thesis using True by (simp add: screenshot_processed_def Let_def)
qed

lemma present_inv:
  assumes "play_inv en w0 sc"
  shows "\<exists>sc'. present sy en whole sc = Some sc' \<and> play_inv en w0 sc'"
proof -
  let ?sc = "update_projection sc"
  have inv: "play_inv en w0 ?sc" by (rule steady_inv [OF update_projection_steady assms])
  have r: "play_inv en w0 (request_capture sy name ?sc)" for name by (rule steady_inv [OF request_capture_steady inv])
  have "\<exists>sc'. (let (success, sc) = save_evidence sy en whole True ?sc in
      quit sy en whole (if success then 0 else 1) sc) = Some sc' \<and> play_inv en w0 sc'"
  proof (cases "save_evidence sy en whole True ?sc")
    case (Pair success sc1)
    have c: "placid ?sc sc1" using save_evidence_placid [of ?sc sy en whole True] Pair by simp
    have i: "holds_bridge en w0 sc1" "honest_exits sc1" using invD [OF inv] placid_holds [OF c] placid_honest [OF c] by simp_all
    have "shown sc1" if "av_smoke (sn_view sc1)" "\<not> av_exiting (sn_view sc1)" "(if success then 0 else 1 :: nat) = 0"
    proof -
      have "as_requested ?sc" "av_smoke (sn_view ?sc)" "\<not> av_exiting (sn_view ?sc)" success
        using inv that c by (simp_all add: play_inv_def placid_def kept_def Let_def split: if_splits)
      with save_evidence_shown Pair show ?thesis by metis
    qed
    from quit_inv [OF i this] obtain sc' where
      "quit sy en whole (if success then 0 else 1) sc1 = Some sc'" "play_inv en w0 sc'" by blast
    with Pair show ?thesis by simp
  qed
  with r inv show ?thesis unfolding present_def Let_def by (auto split: if_splits)
qed

section \<open>The model's operations\<close>

lemma model_start_inv:
  assumes "bridge_inv en w0 im w" "allocates en" "finite_world w0"
  shows "\<exists>r m' im' w'. model_start en t s m im w = Some (r, m', im', w') \<and> bridge_inv en w0 im' w'
    \<and> (is_ok r \<longrightarrow> fm_settings m' = s)"
proof (cases "refused_settings s")
  case None
  from runtime_start_inv [OF assms, of t "make_options s"] None show ?thesis by (auto simp: model_start_def Let_def)
next
  case (Some message)
  with assms show ?thesis by (simp add: model_start_def invalid_settings_def is_ok_def)
qed

lemma model_reset_inv:
  assumes "bridge_inv en w0 im w" "allocates en" "finite_world w0"
  shows "\<exists>r m' im' w'. model_reset en t m im w = Some (r, m', im', w') \<and> bridge_inv en w0 im' w'"
  using model_start_inv [OF assms, of t "fm_settings m" m] assms(1) by (auto simp: model_reset_def)

lemma change_preset_inv:
  assumes "bridge_inv en w0 im w" "allocates en" "finite_world w0"
  shows "\<exists>r m' im' w'. change_preset en t p m im w = Some (r, m', im', w') \<and> bridge_inv en w0 im' w'"
  using model_start_inv [OF assms, of t "(fm_settings m)\<lparr>fs_network_preset := p\<rparr>" m] assms(1)
  by (auto simp: change_preset_def)

lemma model_tick_inv:
  "\<lbrakk>bridge_inv en w0 im w; model_tick en t delta buttons m im w = (r, im', w')\<rbrakk> \<Longrightarrow> bridge_inv en w0 im' w'"
  by (auto simp: model_tick_def Let_def intro: tick_wall_clock_inv split: if_splits)

lemma model_step_inv:
  "\<lbrakk>bridge_inv en w0 im w; model_step en t buttons m im w = (r, im', w')\<rbrakk> \<Longrightarrow> bridge_inv en w0 im' w'"
  by (auto simp: model_step_def Let_def intro: single_step_inv split: if_splits)

text \<open>A run that is not automatic, or has not asked for an exit, may move on.\<close>

definition moved :: "('s, 'd) Scene \<Rightarrow> ('s, 'd) Scene \<Rightarrow> bool" where
  "moved sc sc' \<longleftrightarrow>
     (let av = sn_view sc; av' = sn_view sc' in
        av_smoke av' = av_smoke av \<and> av_requested av' = av_requested av \<and> av_bridge av' = av_bridge av
      \<and> av_written av' = av_written av \<and> av_exiting av' = av_exiting av \<and> sn_exits sc' = sn_exits sc
      \<and> (av_smoke av \<longrightarrow> av_model av' = av_model av))"

lemma moved_inv:
  assumes "play_inv en w0 sc" "moved sc sc'" "\<not> (av_smoke (sn_view sc) \<and> av_exiting (sn_view sc))"
    "bridge_inv en w0 (sn_runtime sc') (sn_world sc')" "av_model (sn_view sc) \<noteq> None"
  shows "play_inv en w0 sc'"
  using assms
  by (auto simp: play_inv_def moved_def holds_bridge_def honest_exits_def as_requested_def closed_def Let_def
      split: option.splits)

lemma play_bridge: "play_inv en w0 sc \<Longrightarrow> bridge_inv en w0 (sn_runtime sc) (sn_world sc)"
  by (simp add: play_inv_def holds_bridge_def)

section \<open>Ticks\<close>

lemma advance_run_inv:
  assumes inv: "play_inv en w0 sc" and e: "\<not> av_exiting (sn_view sc)" and m: "av_model (sn_view sc) = Some m"
  shows "\<exists>sc'. advance_run sy en whole delta m sc = Some sc' \<and> play_inv en w0 sc'"
proof -
  obtain r im w where t: "model_tick en (en_game_thread en) delta (av_pending_buttons (sn_view sc)) m (sn_runtime sc)
    (sn_world sc) = (r, im, w)" by (metis prod.exhaust)
  let ?sc1 = "sc\<lparr>sn_runtime := im, sn_world := w\<rparr>"
  let ?sc = "if fk_last_tick_steps (im_clock im) > 0 then on_view (\<lambda>av. av\<lparr>av_pending_buttons := 0\<rparr>) ?sc1 else ?sc1"
  have "bridge_inv en w0 im w" by (rule model_tick_inv [OF play_bridge [OF inv] t])
  moreover have "moved sc ?sc" by (simp add: moved_def on_view_def Let_def)
  ultimately have i: "play_inv en w0 ?sc"
    by (intro moved_inv [OF inv]) (simp_all add: e m on_view_def)
  have "advance_run sy en whole delta m sc = (if \<not> is_ok r then fail sy en whole (re_message r) ?sc else present sy en whole ?sc)"
    by (simp add: advance_run_def t Let_def)
  with fail_inv [OF i, of sy whole "re_message r"] present_inv [OF i, of sy whole] show ?thesis by auto
qed

lemma warm_up_steady: "steady sc (warm_up sy sc)"
proof -
  have "steady x (on_view (\<lambda>av. av\<lparr>av_warmup_ticks := n av\<rparr>) x)" for x :: "('s, 'd) Scene" and n
    by (rule on_view_steady) simp_all
  note n = this [of "update_projection sc" "\<lambda>_. 3"] this [of "update_projection sc" "\<lambda>av. av_warmup_ticks av - 1"]
  show ?thesis
    unfolding warm_up_def Let_def
    by (simp add: steady_trans [OF update_projection_steady n(1)] steady_trans [OF update_projection_steady n(2)]
        steady_trans [OF update_projection_steady request_capture_steady] update_projection_steady)
qed

lemma play_step_inv:
  assumes inv: "play_inv en w0 sc" and e: "\<not> av_exiting (sn_view sc)"
  shows "\<exists>sc'. play_on sy en whole delta skip sc = Some sc' \<and> play_inv en w0 sc'"
proof -
  note inv' = invD [OF inv]
  have "\<exists>sc'. quit sy en whole 0 sc = Some sc' \<and> play_inv en w0 sc'"
    using quit_inv [OF inv'(1,2), of 0 sy whole] inv'(4) e by (auto simp: closed_def)
  moreover have "\<exists>sc'. fail sy en whole reason sc = Some sc' \<and> play_inv en w0 sc'" for reason
    using fail_inv [OF inv, of sy whole reason] by blast
  moreover have "steady sc (on_view (\<lambda>av. av\<lparr>av_failure_capture_pending := False\<rparr>) sc)"
    by (rule on_view_steady) simp_all
  from give_up_inv [OF invD(1,2) [OF steady_inv [OF this inv]], of sy whole] have
    "\<exists>sc'. quit sy en whole 1 (snd (save_evidence sy en whole False
      (on_view (\<lambda>av. av\<lparr>av_failure_capture_pending := False\<rparr>) sc))) = Some sc' \<and> play_inv en w0 sc'" by blast
  moreover note steady_inv [OF warm_up_steady inv] present_inv [OF inv, of sy whole]
    advance_run_inv [OF inv e, of _ sy whole delta] inv
  ultimately show ?thesis
    unfolding play_on_def Let_def by (auto split: option.split if_split)
qed

section \<open>Keys\<close>

lemma model_call_inv:
  assumes inv: "play_inv en w0 sc" and s: "\<not> av_smoke (sn_view sc)" and m: "av_model (sn_view sc) \<noteq> None"
    and f: "\<exists>r m' im' w'. f m (sn_runtime sc) (sn_world sc) = Some (r, m', im', w') \<and> bridge_inv en w0 im' w'"
  shows "\<exists>r sc'. model_call f m sc = Some (r, sc') \<and> play_inv en w0 sc' \<and> \<not> av_smoke (sn_view sc')"
proof -
  obtain r m' im' w' where c: "f m (sn_runtime sc) (sn_world sc) = Some (r, m', im', w')" "bridge_inv en w0 im' w'"
    using f by blast
  let ?sc' = "(on_view (\<lambda>av. av\<lparr>av_model := Some m'\<rparr>) sc)\<lparr>sn_runtime := im', sn_world := w'\<rparr>"
  have "moved sc ?sc'" using s by (simp add: moved_def on_view_def Let_def)
  from moved_inv [OF inv this] s m c(2) have "play_inv en w0 ?sc'" by simp
  moreover have "model_call f m sc = Some (r, ?sc')" by (simp add: model_call_def c(1))
  ultimately show ?thesis using s by (simp add: on_view_def)
qed

lemma pause_key_inv:
  assumes inv: "play_inv en w0 sc" and s: "\<not> av_smoke (sn_view sc)" and m: "av_model (sn_view sc) \<noteq> None"
  shows "\<exists>sc'. pause_key en sc = Some sc' \<and> play_inv en w0 sc' \<and> sn_view sc' = sn_view sc"
proof -
  have b: "bridge_inv en w0 (sn_runtime sc) (sn_world sc)" by (rule play_bridge [OF inv])
  let ?im = "(sn_runtime sc)\<lparr>im_clock := (im_clock (sn_runtime sc))\<lparr>fk_paused := \<not> fk_paused (im_clock (sn_runtime sc))\<rparr>\<rparr>"
  have "pause_key en sc = Some (sc\<lparr>sn_runtime := ?im\<rparr>)"
    using b by (simp add: pause_key_def set_paused_def on_owner_thread_def bridge_inv_def)
  moreover have "play_inv en w0 (sc\<lparr>sn_runtime := ?im\<rparr>)"
    using s m b by (intro moved_inv [OF inv]) (simp_all add: moved_def Let_def bridge_inv_def)
  ultimately show ?thesis by simp
qed

lemma step_key_inv:
  assumes inv: "play_inv en w0 sc" and s: "\<not> av_smoke (sn_view sc)" and m: "av_model (sn_view sc) \<noteq> None"
    and k: "step_key en m sc = (r, sc')"
  shows "play_inv en w0 sc'"
proof -
  obtain im w where t: "model_step en (en_game_thread en) (av_pending_buttons (sn_view sc)) m (sn_runtime sc)
    (sn_world sc) = (r, im, w)" "sc' = (on_view (\<lambda>av. av\<lparr>av_pending_buttons := 0\<rparr>) sc)\<lparr>sn_runtime := im, sn_world := w\<rparr>"
    using k by (auto simp: step_key_def split: prod.splits)
  from model_step_inv [OF play_bridge [OF inv] t(1)] s m show ?thesis
    unfolding t(2) by (intro moved_inv [OF inv]) (simp_all add: moved_def on_view_def Let_def)
qed

lemma command_key_inv:
  assumes inv: "play_inv en w0 sc" and s: "\<not> av_smoke (sn_view sc)" and m: "av_model (sn_view sc) \<noteq> None"
    and en: "allocates en" "finite_world w0"
  shows "\<exists>r anew skip sc'. command_key sy en m sc = Some (r, anew, skip, sc') \<and> play_inv en w0 sc'"
proof -
  note b = play_bridge [OF inv]
  have st: "\<exists>r sc'. model_call (model_start en t x) m sc = Some (r, sc') \<and> play_inv en w0 sc'" for t x m
    using model_call_inv [OF inv s \<open>av_model (sn_view sc) \<noteq> None\<close>, of "model_start en t x" m]
      model_start_inv [OF b en, of t x m] by blast
  have re: "\<exists>r sc'. model_call (model_reset en t) m sc = Some (r, sc') \<and> play_inv en w0 sc'" for t m
    using model_call_inv [OF inv s \<open>av_model (sn_view sc) \<noteq> None\<close>, of "model_reset en t" m]
      model_reset_inv [OF b en, of t m] by blast
  have ch: "\<exists>r sc'. model_call (change_preset en t p) m sc = Some (r, sc') \<and> play_inv en w0 sc'" for t p m
    using model_call_inv [OF inv s \<open>av_model (sn_view sc) \<noteq> None\<close>, of "change_preset en t p" m]
      change_preset_inv [OF b en, of t p m] by blast
  obtain r1 sc1 r2 sc2 r3 sc3 r4 sc4 r5 sc5 r6 sc6 where c:
    "model_call (model_reset en (en_game_thread en)) m sc = Some (r1, sc1)" "play_inv en w0 sc1"
    "model_call (change_preset en (en_game_thread en) ((fs_network_preset (fm_settings m) + 1) mod 3)) m sc = Some (r2, sc2)"
    "play_inv en w0 sc2"
    "model_call (model_start en (en_game_thread en) (default_settings EM_AutoDemo)) m sc = Some (r3, sc3)" "play_inv en w0 sc3"
    "model_call (model_start en (en_game_thread en) (default_settings EM_Interactive)) m sc = Some (r4, sc4)"
    "play_inv en w0 sc4"
    "model_call (model_start en (en_game_thread en) (default_settings EM_Desync)) m sc = Some (r5, sc5)" "play_inv en w0 sc5"
    "step_key en m sc = (r6, sc6)"
    using st re ch by (metis prod.exhaust)
  from step_key_inv [OF inv s m(1) c(11)] show ?thesis
    by (auto simp: command_key_def Let_def c inv)
qed

lemma read_controls_inv:
  assumes inv: "play_inv en w0 sc" and en: "allocates en" "finite_world w0"
  shows "\<exists>skip sc'. read_controls sy en whole sc = Some (skip, sc') \<and> play_inv en w0 sc'"
proof -
  let ?os = "bw_os (sn_world sc)" and ?av = "sn_view sc"
  note inv' = invD [OF inv]
  consider "\<not> sy_controller sy ?os" | "sy_controller sy ?os" "sy_key_pressed sy KeyEscape ?os"
    | "sy_controller sy ?os" "\<not> sy_key_pressed sy KeyEscape ?os"
      "av_model ?av = None \<or> av_smoke ?av \<or> av_udp_mode ?av \<or> av_failure ?av \<noteq> ''''"
    | m where "sy_controller sy ?os" "\<not> sy_key_pressed sy KeyEscape ?os" "av_model ?av = Some m" "\<not> av_smoke ?av"
      "\<not> av_udp_mode ?av" "av_failure ?av = ''''" by (cases "av_model ?av") auto
  then show ?thesis
  proof cases
    case 1
    with inv show ?thesis by (auto simp: read_controls_def Let_def)
  next
    case 2
    show ?thesis
    proof (cases "av_smoke ?av \<or> av_udp_mode ?av")
      case True
      let ?reason = "if av_udp_mode ?av then ''Automatic run aborted by user.'' else ''Smoke aborted by user.''"
      obtain sc1 where f: "fail sy en whole ?reason sc = Some sc1" "play_inv en w0 sc1" using fail_inv [OF inv] by blast
      from quit_inv [OF invD(1,2) [OF f(2)], of 1 sy whole] obtain sc2 where "quit sy en whole 1 sc1 = Some sc2" "play_inv en w0 sc2" by auto
      with f 2 True show ?thesis by (auto simp: read_controls_def Let_def)
    next
      case False
      then obtain sc1 where "quit sy en whole 0 sc = Some sc1" "play_inv en w0 sc1"
        using quit_inv [OF inv'(1,2), of 0 sy whole] by auto
      with 2 False show ?thesis by (auto simp: read_controls_def Let_def)
    qed
  next
    case 3
    with inv show ?thesis by (auto simp: read_controls_def Let_def split: option.splits)
  next
    case 4
    have m: "av_model (sn_view sc) \<noteq> None" using 4 by simp
    obtain sc1 where p: "(if sy_key_pressed sy KeyP ?os then pause_key en sc else Some sc) = Some sc1" "play_inv en w0 sc1"
        "sn_view sc1 = sn_view sc"
      using pause_key_inv [OF inv 4(4) m] inv by (cases "sy_key_pressed sy KeyP ?os") auto
    obtain r anew skip sc2 where c: "command_key sy en m sc1 = Some (r, anew, skip, sc2)" "play_inv en w0 sc2"
      using command_key_inv [OF p(2) _ _ en, of sy m] p(3) 4(4) m by auto
    have "steady sc2 (on_view (\<lambda>av. av\<lparr>av_seen_a := 0, av_seen_b := 0, av_pending_buttons := 0\<rparr>) sc2)"
      by (rule on_view_steady) simp_all
    from steady_inv [OF this c(2)] fail_inv [OF c(2), of sy whole "re_message r"] obtain sc3 where
      "play_inv en w0 (on_view (\<lambda>av. av\<lparr>av_seen_a := 0, av_seen_b := 0, av_pending_buttons := 0\<rparr>) sc2)"
      "fail sy en whole (re_message r) sc2 = Some sc3" "play_inv en w0 sc3" by blast
    with 4 p(1) c show ?thesis by (auto simp: read_controls_def Let_def)
  qed
qed

lemma tick_inv:
  assumes "play_inv en w0 sc" "allocates en" "finite_world w0"
  shows "\<exists>sc'. tick sy en whole delta sc = Some sc' \<and> play_inv en w0 sc'"
proof -
  let ?sc = "on_view (\<lambda>av. av\<lparr>av_pending_buttons := local_buttons sy sc\<rparr>) sc"
  have "steady sc ?sc" by (rule on_view_steady) simp_all
  from read_controls_inv [OF steady_inv [OF this assms(1)] assms(2,3)] obtain skip sc1 where
    c: "read_controls sy en whole ?sc = Some (skip, sc1)" "play_inv en w0 sc1" by blast
  with play_step_inv [OF c(2), of sy whole delta skip] show ?thesis by (auto simp: tick_def Let_def)
qed

section \<open>Begin and end\<close>

text \<open>What the settings leave alone.\<close>

definition rest :: "'d AView \<Rightarrow> bool \<times> bool \<times> bool \<times> bool \<times> FModel option" where
  "rest av = (av_written av, av_exiting av, av_listening av, av_bridge av, av_model av)"

definition settles :: "'d Step \<Rightarrow> bool" where
  "settles f \<longleftrightarrow> (\<forall>av e av'. f av = (e, av') \<longrightarrow> rest av' = rest av)"

lemma settles_then: "\<lbrakk>settles f; settles g\<rbrakk> \<Longrightarrow> settles (and_then f g)"
  unfolding settles_def and_then_def by (auto split: prod.splits option.splits)

lemma settles_unless: "settles (unless bad message)" by (simp add: settles_def unless_def)

lemma settles_option:
  "settles (read_udp_option sy key get put least most)"
  by (auto simp: settles_def read_udp_option_def rest_def split: sum.splits)

lemma settles_parts:
  "settles (read_modes sy)" "settles (read_ready_path sy)" "settles (read_mode sy)" "settles (read_seed sy)"
  "settles (read_transport_seed sy)" "settles (read_frames sy)" "settles (read_exit_interval sy)"
  by (auto simp: settles_def read_modes_def read_ready_path_def read_mode_def read_seed_def read_transport_seed_def
      read_frames_def read_exit_interval_def rest_def Let_def split: sum.splits if_splits)

lemma settles_if: "settles f \<Longrightarrow> settles (\<lambda>av. if P av then (None, av) else f av)"
  by (auto simp: settles_def)

lemma settles_udp: "settles (read_udp_options sy)"
  unfolding read_udp_options_def [abs_def]
  by (intro settles_if settles_then settles_option settles_unless)

lemma read_settings_rest:
  assumes "read_settings sy av os = (good, av', os')"
  shows "rest av' = rest av"
proof -
  obtain e av1 where o: "read_options sy av = (e, av1)" by (metis prod.exhaust)
  have "settles (read_options sy)"
    unfolding read_options_def by (intro settles_then settles_parts settles_unless settles_udp)
  with o have "rest av1 = rest av" by (simp add: settles_def)
  with assms show ?thesis
    by (auto simp: read_settings_def o rest_def Let_def split: option.splits prod.splits if_splits)
qed

definition fresh_scene :: "('s, 'd) Engine \<Rightarrow> 's BridgeWorld \<Rightarrow> ('s, 'd) Scene \<Rightarrow> bool" where
  "fresh_scene en w0 sc \<longleftrightarrow>
     bridge_inv en w0 (sn_runtime sc) (sn_world sc) \<and> im_resources (sn_runtime sc) = None
   \<and> rest (sn_view sc) = (False, False, False, False, None) \<and> sn_exits sc = []"

text \<open>A failure before the pictures are listened for ends an automatic run at once.\<close>

lemma fail_early:
  assumes "holds_bridge en w0 sc" "honest_exits sc" "\<not> av_written (sn_view sc)" "\<not> av_listening (sn_view sc)"
  shows "\<exists>sc'. fail sy en whole reason sc = Some sc' \<and> play_inv en w0 sc'"
proof (cases "av_smoke (sn_view sc)")
  case False
  with assms have "play_inv en w0 sc" by (simp add: play_inv_def as_requested_def closed_def Let_def)
  from fail_inv [OF this] show ?thesis by blast
next
  case True
  let ?sc = "set_failure reason sc"
  have s: "av_smoke (sn_view ?sc)" "\<not> av_written (sn_view ?sc)" "\<not> av_listening (sn_view ?sc)"
    using True assms(3,4) by (simp_all add: set_failure_def on_view_def)
  note c = steady_placid [OF set_failure_steady, of sc reason]
  from give_up_inv [OF placid_holds [OF c assms(1)] placid_honest [OF c assms(2)], of sy whole]
  show ?thesis unfolding fail_def Let_def using s by auto
qed

lemma publish_ready_steady:
  assumes "publish_ready sy text path sc = (good, sc')"
  shows "steady sc sc'"
proof -
  obtain b1 sc1 b2 sc2 b3 sc3 where s: "from_os (sy_make_directory sy (sy_get_path sy path)) sc = (b1, sc1)"
    "from_os (sy_save_text sy text (temporary_path sy path)) sc1 = (b2, sc2)"
    "from_os (sy_move sy path (temporary_path sy path)) sc2 = (b3, sc3)" by (metis prod.exhaust)
  note q = from_os_steady [OF s(1)] steady_trans [OF from_os_steady [OF s(1)] from_os_steady [OF s(2)]]
  from q steady_trans [OF q(2) from_os_steady [OF s(3)]] show ?thesis
    using assms by (auto simp: publish_ready_def s split: if_splits)
qed

lemma announce_inv:
  assumes inv: "play_inv en w0 sc"
  shows "\<exists>ready sc'. announce sy en whole sc = Some (ready, sc') \<and> play_inv en w0 sc' \<and> (ready \<longrightarrow> steady sc sc')"
proof (cases "av_udp_mode (sn_view sc) \<and> av_ready_path (sn_view sc) \<noteq> ''''")
  case False
  with inv show ?thesis by (auto simp: announce_def Let_def steady_refl)
next
  case True
  let ?path = "av_ready_path (sn_view sc)" and ?ready = "copy_failure en (en_game_thread en) (sn_runtime sc) (sn_world sc)"
  let ?reason = "case ?ready of Inl e \<Rightarrow> re_message e | Inr _ \<Rightarrow> ''Cannot publish healthy UDP startup status: '' @ ?path"
  let ?healthy = "case ?ready of Inl _ \<Rightarrow> False
    | Inr bytes \<Rightarrow> healthy_status (en_double en) whole (av_requested (sn_view sc)) (sy_parse sy (text_of_bytes bytes))"
  obtain published sc1 where p: "(case ?ready of Inl _ \<Rightarrow> (False, sc)
      | Inr bytes \<Rightarrow> if ?healthy then publish_ready sy (text_of_bytes bytes) ?path sc else (False, sc)) = (published, sc1)"
    by (metis prod.exhaust)
  have q: "steady sc sc1" using p publish_ready_steady by (auto simp: steady_refl split: sum.splits if_splits)
  let ?sc2 = "on_os (sy_delete sy (temporary_path sy ?path)) sc1"
  note i1 = steady_inv [OF q inv]
  obtain sc3 where f: "fail sy en whole ?reason ?sc2 = Some sc3" "play_inv en w0 sc3"
    using fail_inv [OF steady_inv [OF on_os_steady i1]] by blast
  obtain sc4 where "quit sy en whole 1 sc3 = Some sc4" "play_inv en w0 sc4"
    using quit_inv [OF invD(1,2) [OF f(2)], of 1 sy whole] by auto
  with f have "\<exists>sc'. Option.bind (fail sy en whole ?reason ?sc2) (\<lambda>sc.
      Option.bind (if \<not> av_smoke (sn_view sc) then quit sy en whole 1 sc else Some sc) (\<lambda>sc. Some (False, sc)))
      = Some (False, sc') \<and> play_inv en w0 sc'" by simp
  moreover have "announce sy en whole sc = (if published then Some (True, sc1)
      else Option.bind (fail sy en whole ?reason ?sc2) (\<lambda>sc.
        Option.bind (if \<not> av_smoke (sn_view sc) then quit sy en whole 1 sc else Some sc) (\<lambda>sc. Some (False, sc))))"
    using True unfolding announce_def Let_def p by simp
  ultimately show ?thesis using q i1 by (cases published) auto
qed

lemma open_arena_inv:
  assumes b: "bridge_inv en w0 (sn_runtime sc) (sn_world sc)" and en: "allocates en" "finite_world w0"
    and v: "\<not> av_written (sn_view sc)" "\<not> av_listening (sn_view sc)" "av_bridge (sn_view sc)" "sn_exits sc = []"
  shows "\<exists>sc'. open_arena sy en whole sc = Some sc' \<and> play_inv en w0 sc'"
proof -
  let ?s = "av_requested (sn_view sc)"
  obtain r m im w where m: "model_start en (en_game_thread en) ?s new_model (sn_runtime sc) (sn_world sc)
      = Some (r, m, im, w)" "bridge_inv en w0 im w" "is_ok r \<longrightarrow> fm_settings m = ?s"
    using model_start_inv [OF b en] by blast
  define sc1 where "sc1 = (on_view (\<lambda>av. av\<lparr>av_model := Some m\<rparr>) sc)\<lparr>sn_runtime := im, sn_world := w\<rparr>"
  have c: "model_call (model_start en (en_game_thread en) ?s) new_model sc = Some (r, sc1)"
    by (simp add: model_call_def m(1) sc1_def)
  have v1: "\<not> av_written (sn_view sc1)" "\<not> av_listening (sn_view sc1)" "av_requested (sn_view sc1) = ?s"
    "av_model (sn_view sc1) = Some m"
    using v by (simp_all add: sc1_def on_view_def)
  have h1: "holds_bridge en w0 sc1" "honest_exits sc1" "closed sc1"
    using v m(2) by (simp_all add: sc1_def on_view_def holds_bridge_def honest_exits_def closed_def)
  have f: "\<exists>sc'. fail sy en whole reason sc1 = Some sc' \<and> play_inv en w0 sc'" for reason
    by (rule fail_early [OF h1(1,2) v1(1,2)])
  let ?other = "av_requested_git_sha (sn_view sc1) \<noteq> ''''
    \<and> \<not> same_text (av_requested_git_sha (sn_view sc1)) (vi_source_git_sha (im_version (sn_runtime sc1)))"
  show ?thesis
  proof (cases "is_ok r \<and> \<not> ?other")
    case False
    with f [of "re_message r"] f [of "''Requested source SHA differs from loaded SDK.''"] show ?thesis
      by (auto simp: open_arena_def c Let_def)
  next
    case True
    with m(3) h1 v1 have "play_inv en w0 sc1" by (simp add: play_inv_def as_requested_def Let_def)
    from announce_inv [OF this, of sy whole] obtain ready sc2 where
      a: "announce sy en whole sc1 = Some (ready, sc2)" "play_inv en w0 sc2" by blast
    let ?sc3 = "on_view (\<lambda>av. av\<lparr>av_listening := True\<rparr>) sc2"
    have "shown ?sc3 \<longleftrightarrow> shown sc2" by (simp add: shown_def on_view_def peers_def Let_def)
    with a(2) have "play_inv en w0 ?sc3"
      by (simp add: play_inv_def holds_bridge_def honest_exits_def as_requested_def closed_def on_view_def Let_def
          split: option.splits)
    note s3 = steady_inv [OF update_projection_steady this]
    have "open_arena sy en whole sc = (if \<not> ready then Some sc2 else Some (update_projection ?sc3))"
      using True by (auto simp: open_arena_def c Let_def a(1))
    with a(2) s3 show ?thesis by (cases ready) auto
  qed
qed

lemma begin_play_inv:
  assumes fresh: "fresh_scene en w0 sc" and en: "allocates en" "finite_world w0"
  shows "\<exists>sc'. begin_play sy en whole sc = Some sc' \<and> play_inv en w0 sc'"
proof -
  let ?sc0 = "on_view (\<lambda>av. av\<lparr>av_started_at := en_seconds en (bw_os (sn_world sc))\<rparr>) sc"
  obtain good av os where r: "read_settings sy (sn_view ?sc0) (bw_os (sn_world ?sc0)) = (good, av, os)"
    by (metis prod.exhaust)
  define sc1 where "sc1 = ?sc0\<lparr>sn_view := av, sn_world := (sn_world ?sc0)\<lparr>bw_os := os\<rparr>\<rparr>"
  have "rest av = rest (sn_view ?sc0)" by (rule read_settings_rest [OF r])
  also have "\<dots> = rest (sn_view sc)" by (simp add: on_view_def rest_def)
  also have "\<dots> = (False, False, False, False, None)" using fresh by (simp add: fresh_scene_def)
  finally have v: "\<not> av_written (sn_view sc1)" "\<not> av_listening (sn_view sc1)" "av_model (sn_view sc1) = None"
    by (simp_all add: rest_def sc1_def)
  have b: "bridge_inv en w0 (sn_runtime sc1) (sn_world sc1)" "sn_exits sc1 = []" "im_resources (sn_runtime sc1) = None"
    using fresh by (auto simp: fresh_scene_def sc1_def on_view_def bridge_inv_def unchanged_def)
  have h: "holds_bridge en w0 sc1" "honest_exits sc1" using b v by (simp_all add: holds_bridge_def honest_exits_def)
  have f: "\<exists>sc'. fail sy en whole reason sc1 = Some sc' \<and> play_inv en w0 sc'" for reason
    by (rule fail_early [OF h v(1,2)])
  let ?sc2 = "on_view (\<lambda>av. av\<lparr>av_bridge := True, av_model := Some new_model\<rparr>) sc1"
  have "\<exists>sc'. open_arena sy en whole ?sc2 = Some sc' \<and> play_inv en w0 sc'"
    using b v by (intro open_arena_inv en) (simp_all add: on_view_def)
  moreover have "begin_play sy en whole sc =
     (if \<not> good then fail sy en whole (av_failure av) sc1
      else if \<not> sy_visuals sy os
      then fail sy en whole ''Arena content missing. Run GenerateUnrealContent before launch/cook.'' sc1
      else if \<not> sy_bridge sy then fail sy en whole ''RollbackLab subsystem unavailable.'' sc1
      else open_arena sy en whole ?sc2)"
    unfolding begin_play_def Let_def r prod.case sc1_def ..
  ultimately show ?thesis using f by simp
qed

text \<open>After the end only an honest exit status is left, and nothing that the view took.\<close>

definition ended_inv :: "'s BridgeWorld \<Rightarrow> ('s, 'd) Scene \<Rightarrow> bool" where
  "ended_inv w0 sc \<longleftrightarrow> honest_exits sc \<and> unchanged w0 (sn_world sc)"

lemma end_play_inv:
  assumes inv: "play_inv en w0 sc"
  shows "\<exists>sc'. end_play sy en whole sc = Some sc' \<and> ended_inv w0 sc'"
proof -
  let ?inc = "av_smoke (sn_view sc) \<and> \<not> av_written (sn_view sc)"
  define sc1 where "sc1 = (if ?inc
    then snd (save_evidence sy en whole False (set_failure ''World ended before smoke completion.'' sc)) else sc)"
  have "placid sc sc1"
    by (simp add: sc1_def placid_refl placid_trans [OF steady_placid [OF set_failure_steady] save_evidence_placid])
  moreover have d: "placid sc1 (drop_pictures sy sc1)" by (rule steady_placid [OF drop_pictures_steady])
  ultimately have h: "holds_bridge en w0 (drop_pictures sy sc1)" "honest_exits (drop_pictures sy sc1)"
    using invD [OF inv] by (blast intro: placid_holds placid_honest)+
  let ?sc2 = "on_view (\<lambda>av. av\<lparr>av_model := None\<rparr>) (drop_pictures sy sc1)"
  have "shown ?sc2 \<longleftrightarrow> shown (drop_pictures sy sc1)" by (simp add: shown_def on_view_def peers_def Let_def)
  with h have h2: "holds_bridge en w0 ?sc2" "honest_exits ?sc2"
    by (auto simp: holds_bridge_def honest_exits_def on_view_def)
  obtain im w where s: "stop_bridge en ?sc2 = Some (?sc2\<lparr>sn_runtime := im, sn_world := w\<rparr>)" "unchanged w0 w"
      "peers (?sc2\<lparr>sn_runtime := im, sn_world := w\<rparr>) = peers ?sc2" using stop_bridge_succeeds [OF h2(1)] by blast
  let ?sc3 = "on_view (\<lambda>av. av\<lparr>av_bridge := False\<rparr>) (?sc2\<lparr>sn_runtime := im, sn_world := w\<rparr>)"
  let ?sc4 = "if ?inc then request_exit True 1 ?sc3 else ?sc3"
  have v4: "sn_view ?sc4 = (sn_view ?sc2)\<lparr>av_bridge := False\<rparr>" "sn_world ?sc4 = w"
    "set (sn_exits ?sc4) \<subseteq> insert (True, 1) (set (sn_exits ?sc2))"
    by (auto simp: request_exit_def on_view_def)
  have p4: "peers ?sc4 = peers ?sc2" using s(3) by (simp add: request_exit_def on_view_def peers_def Let_def)
  have "shown ?sc4 \<longleftrightarrow> shown ?sc2" unfolding shown_def Let_def p4 v4(1) by simp
  with h2(2) v4(3) have "honest_exits ?sc4" unfolding honest_exits_def v4(1) by auto
  moreover have "end_play sy en whole sc = Some ?sc4"
    unfolding end_play_def Let_def sc1_def [symmetric] s(1) bind.bind_lunit by (rule refl)
  ultimately show ?thesis using s(2) v4(2) unfolding ended_inv_def by metis
qed

section \<open>The life of a view\<close>

datatype Stage = Made | Playing | Ended

text \<open>
  The engine begins a view once, ticks it and reports pictures in any order, and ends it once; in between the rest of the
  world moves on. A call whose \<open>check\<close> fails has no successor here.
\<close>

inductive scene_reach :: "('s, 'd) Scenery \<Rightarrow> ('s, 'd) Engine \<Rightarrow> ('d \<Rightarrow> bool) \<Rightarrow> 's BridgeWorld \<Rightarrow> Stage \<Rightarrow> ('s, 'd) Scene \<Rightarrow> bool"
  for sy en whole w0 where
  made: "scene_reach sy en whole w0 Made
    \<lparr>sn_view = new_view (en_double en), sn_runtime = new_runtime en, sn_world = w0, sn_exits = []\<rparr>"
| moves: "scene_reach sy en whole w0 stage sc \<Longrightarrow> scene_reach sy en whole w0 stage (on_os f sc)"
| begun: "\<lbrakk>scene_reach sy en whole w0 Made sc; begin_play sy en whole sc = Some sc'\<rbrakk> \<Longrightarrow> scene_reach sy en whole w0 Playing sc'"
| ticked: "\<lbrakk>scene_reach sy en whole w0 Playing sc; tick sy en whole delta sc = Some sc'\<rbrakk>
    \<Longrightarrow> scene_reach sy en whole w0 Playing sc'"
| pictured: "\<lbrakk>scene_reach sy en whole w0 Playing sc; screenshot_processed sy en whole sc = Some sc'\<rbrakk>
    \<Longrightarrow> scene_reach sy en whole w0 Playing sc'"
| ended: "\<lbrakk>scene_reach sy en whole w0 Playing sc; end_play sy en whole sc = Some sc'\<rbrakk> \<Longrightarrow> scene_reach sy en whole w0 Ended sc'"

fun stage_inv :: "('s, 'd) Engine \<Rightarrow> 's BridgeWorld \<Rightarrow> Stage \<Rightarrow> ('s, 'd) Scene \<Rightarrow> bool" where
  "stage_inv en w0 Made sc \<longleftrightarrow> fresh_scene en w0 sc"
| "stage_inv en w0 Playing sc \<longleftrightarrow> play_inv en w0 sc"
| "stage_inv en w0 Ended sc \<longleftrightarrow> ended_inv w0 sc"

lemma stage_inv_moves: "stage_inv en w0 stage sc \<Longrightarrow> stage_inv en w0 stage (on_os f sc)"
proof (cases stage)
  case Made
  moreover assume "stage_inv en w0 stage sc"
  ultimately show ?thesis by (auto simp: fresh_scene_def on_os_def bridge_inv_def unchanged_def)
next
  case Playing
  moreover assume "stage_inv en w0 stage sc"
  ultimately show ?thesis by (simp add: steady_inv [OF on_os_steady])
next
  case Ended
  moreover assume "stage_inv en w0 stage sc"
  ultimately show ?thesis
    by (simp add: ended_inv_def placid_honest [OF steady_placid [OF on_os_steady]]) (simp add: on_os_def unchanged_def)
qed

lemma scene_reach_inv:
  assumes "scene_reach sy en whole w0 stage sc" and en: "allocates en" "finite_world w0"
  shows "stage_inv en w0 stage sc"
  using assms(1)
proof induction
  case made
  show ?case by (simp add: fresh_scene_def rest_def new_view_def new_runtime_def bridge_inv_def unchanged_def)
next
  case (moves stage sc f)
  from stage_inv_moves [OF moves.IH] show ?case .
next
  case (begun sc sc')
  with begin_play_inv [OF _ en, of sc sy whole] show ?case by auto
next
  case (ticked sc delta sc')
  with tick_inv [OF _ en, of sc sy whole delta] show ?case by auto
next
  case (pictured sc sc')
  with screenshot_inv [of en w0 sc sy whole] show ?case by auto
next
  case (ended sc sc')
  with end_play_inv [of en w0 sc sy whole] show ?case by auto
qed

text \<open>No check of the bridge fails in a view's life, and when it has ended the process holds what it held before.\<close>

theorem scene_gives_back:
  assumes "allocates en" "finite_world w0"
  shows "(scene_reach sy en whole w0 Made sc \<longrightarrow> begin_play sy en whole sc \<noteq> None)
    \<and> (scene_reach sy en whole w0 Playing sc \<longrightarrow> tick sy en whole delta sc \<noteq> None
        \<and> screenshot_processed sy en whole sc \<noteq> None \<and> end_play sy en whole sc \<noteq> None)
    \<and> (scene_reach sy en whole w0 Ended sc \<longrightarrow> unchanged w0 (sn_world sc))"
  using scene_reach_inv [OF _ assms, of sy whole] begin_play_inv [OF _ assms, of sc sy whole]
    tick_inv [OF _ assms, of sc sy whole delta] screenshot_inv [of en w0 sc sy whole] end_play_inv [of en w0 sc sy whole]
  by (fastforce simp: ended_inv_def)

end
