(* ===== verification/SceneEvidence.thy ===== *)
theory SceneEvidence
  imports SceneProof
begin

text \<open>
  What stands behind an exit with status 0: the files of the evidence, saved as the last thing the view did to the
  file system, a report that says success, and the run that was shown. Everything is spelled out over the state in which the exit is
  asked for, without the view's own functions that check a run and write its evidence.
\<close>

section \<open>A certified run\<close>

text \<open>The exits with status 0 that have been asked for.\<close>

definition zeros :: "('s, 'd) Scene \<Rightarrow> (bool \<times> nat) list" where
  "zeros sc = filter (\<lambda>(_, status). status = 0) (sn_exits sc)"

definition says :: "('s, 'd) Scenery \<Rightarrow> string option \<Rightarrow> string \<Rightarrow> bool" where
  "says sy text key \<longleftrightarrow> (\<exists>t m. text = Some t \<and> sy_parse sy t = Some m \<and> mf_bool m key = Some True)"

text \<open>The file system is as four successful writes have left it, and the evidence that was written names a success.\<close>

definition files_saved :: "('s, 'd) Scenery \<Rightarrow> ('s, 'd) Engine \<Rightarrow> ('d \<Rightarrow> bool) \<Rightarrow> ('s, 'd) Scene \<Rightarrow> bool" where
  "files_saved sy en whole sc \<longleftrightarrow>
     (let path = av_trace_path (sn_view sc); directory = sy_get_path sy path;
          evidence = (if av_udp_mode (sn_view sc) then udp_evidence_text sy en whole True sc else evidence_text sy en True sc)
      in path \<noteq> ''''
       \<and> (\<exists>report replay os0 os1 os2 os3. scene_report en sc = Some report \<and> scene_replay en sc = Some replay
            \<and> sy_make_directory sy directory os0 = (True, os1)
            \<and> sy_save_text sy report (sy_combine sy directory ''report.json'') os1 = (True, os2)
            \<and> sy_save_bytes sy replay (sy_combine sy directory ''input.rlr'') os2 = (True, os3)
            \<and> sy_save_text sy evidence path os3 = (True, bw_os (sn_world sc))))"

definition certified :: "('s, 'd) Scenery \<Rightarrow> ('s, 'd) Engine \<Rightarrow> ('d \<Rightarrow> bool) \<Rightarrow> ('s, 'd) Scene \<Rightarrow> bool" where
  "certified sy en whole sc \<longleftrightarrow>
     shown sc \<and> files_saved sy en whole sc
   \<and> says sy (scene_report en sc) ''success'' \<and> says sy (scene_report en sc) ''replay_verification''
   \<and> (av_udp_mode (sn_view sc) \<longrightarrow>
        says sy (scene_status en sc) ''handshake_complete'' \<and> session_count sc = 1
      \<and> status_port (en_double en) whole (Option.bind (scene_status en sc) (sy_parse sy)) \<noteq> None)"

section \<open>What the copies depend on\<close>

lemma copies_os [simp]:
  "copy_report en t im (w\<lparr>bw_os := os\<rparr>) = copy_report en t im w"
  "copy_failure en t im (w\<lparr>bw_os := os\<rparr>) = copy_failure en t im w"
  "copy_trace en t im (w\<lparr>bw_os := os\<rparr>) = copy_trace en t im w"
  "copy_replay en t im (w\<lparr>bw_os := os\<rparr>) = copy_replay en t im w"
  by (simp_all add: copy_report_def copy_failure_def copy_trace_def copy_replay_def Let_def cong: if_cong)

text \<open>Two scenes with the same run: what is written about them is the same.\<close>

definition same_run :: "('s, 'd) Scene \<Rightarrow> ('s, 'd) Scene \<Rightarrow> bool" where
  "same_run sc sc' \<longleftrightarrow>
     (\<exists>written exiting os exits. sc' = sc\<lparr>sn_view := (sn_view sc)\<lparr>av_written := written, av_exiting := exiting\<rparr>,
        sn_world := (sn_world sc)\<lparr>bw_os := os\<rparr>, sn_exits := exits\<rparr>)"

lemma same_run_copies:
  assumes "same_run sc sc'"
  shows "scene_report en sc' = scene_report en sc" "scene_replay en sc' = scene_replay en sc"
    "scene_trace en sc' = scene_trace en sc" "scene_status en sc' = scene_status en sc"
  using assms
  by (auto simp: same_run_def scene_report_def scene_replay_def scene_trace_def scene_status_def copied_def has_model_def)

lemma same_run_texts:
  assumes "same_run sc sc'"
  shows "evidence_text sy en success sc' = evidence_text sy en success sc"
    "udp_evidence_text sy en whole success sc' = udp_evidence_text sy en whole success sc"
    "session_count sc' = session_count sc"
proof -
  have v: "has_model sc' = has_model sc" "scene_settings sc' = scene_settings sc" "rollbacks sc' = rollbacks sc"
    "session_count sc' = session_count sc" "udp_peer_index sc' = udp_peer_index sc" "udp_step sc' = udp_step sc"
    "sn_runtime sc' = sn_runtime sc" "av_failure (sn_view sc') = av_failure (sn_view sc)"
    "av_requested (sn_view sc') = av_requested (sn_view sc)"
    using assms by (auto simp: same_run_def has_model_def scene_settings_def rollbacks_def session_count_def
        udp_peer_index_def udp_step_def)
  then have "udp_view sc' = udp_view sc" "udp_handshake sy en sc' = udp_handshake sy en sc"
    by (simp_all add: udp_view_def udp_handshake_def same_run_copies [OF assms])
  with v show "evidence_text sy en success sc' = evidence_text sy en success sc"
    "udp_evidence_text sy en whole success sc' = udp_evidence_text sy en whole success sc"
    "session_count sc' = session_count sc"
    by (simp_all only: evidence_text_def udp_evidence_text_def same_run_copies [OF assms])
qed

section \<open>Evidence that was saved\<close>

lemma write_evidence_saved:
  assumes "write_evidence sy (Some report) (Some replay) text sc = (True, sc')"
  shows "same_run sc sc' \<and> (let path = av_trace_path (sn_view sc); directory = sy_get_path sy path in
    \<exists>os1 os2 os3. sy_make_directory sy directory (bw_os (sn_world sc)) = (True, os1)
      \<and> sy_save_text sy report (sy_combine sy directory ''report.json'') os1 = (True, os2)
      \<and> sy_save_bytes sy replay (sy_combine sy directory ''input.rlr'') os2 = (True, os3)
      \<and> sy_save_text sy text path os3 = (True, bw_os (sn_world sc')))"
proof -
  let ?path = "av_trace_path (sn_view sc)" and ?dir = "sy_get_path sy (av_trace_path (sn_view sc))"
  obtain b1 os1 b2 os2 b3 os3 b4 os4 where
    s: "sy_make_directory sy ?dir (bw_os (sn_world sc)) = (b1, os1)"
      "sy_save_text sy report (sy_combine sy ?dir ''report.json'') os1 = (b2, os2)"
      "sy_save_bytes sy replay (sy_combine sy ?dir ''input.rlr'') os2 = (b3, os3)"
      "sy_save_text sy text ?path os3 = (b4, os4)"
    by (metis prod.exhaust)
  have "b1 \<and> b2 \<and> b3 \<and> b4" and
    "sc' = sc\<lparr>sn_view := (sn_view sc)\<lparr>av_written := True\<rparr>, sn_world := (sn_world sc)\<lparr>bw_os := os4\<rparr>\<rparr>"
    using assms by (auto simp: write_evidence_def from_os_def on_view_def s Let_def)
  moreover from this(2) have "same_run sc sc'" unfolding same_run_def
    by (intro exI [of _ True] exI [of _ "av_exiting (sn_view sc)"] exI [of _ os4] exI [of _ "sn_exits sc"]) simp
  ultimately show ?thesis using s by simp
qed

lemma flag_says: "flag (Option.bind text (sy_parse sy)) key \<longleftrightarrow> says sy text key"
  by (auto simp: flag_def says_def split: option.splits bind_splits)

lemma save_run_certified:
  assumes "save_run_evidence sy en True sc = (True, sc')" and "av_smoke (sn_view sc)" "\<not> av_udp_mode (sn_view sc)"
  shows "files_saved sy en whole sc' \<and> says sy (scene_report en sc') ''success''
    \<and> says sy (scene_report en sc') ''replay_verification'' \<and> same_run sc sc'"
proof -
  have p: "av_trace_path (sn_view sc) \<noteq> ''''" using assms(1,2) by (auto simp: save_run_evidence_def)
  have w: "run_verified sy en sc" "write_evidence sy (scene_report en sc) (scene_replay en sc)
      (evidence_text sy en True sc) sc = (True, sc')"
    using assms(1) p by (auto simp: save_run_evidence_def note_failure_def Let_def split: prod.splits if_splits)
  then obtain report replay where r: "scene_report en sc = Some report" "scene_replay en sc = Some replay"
    by (auto simp: run_verified_def Let_def)
  note s = write_evidence_saved [OF w(2) [unfolded r]]
  then have same: "same_run sc sc'" by simp
  then have v: "av_trace_path (sn_view sc') = av_trace_path (sn_view sc)" "\<not> av_udp_mode (sn_view sc')"
    using assms(3) by (auto simp: same_run_def)
  have "files_saved sy en whole sc'"
    using s p r v by (auto simp: files_saved_def same_run_copies [OF same] same_run_texts [OF same] Let_def)
  moreover have "flag (Option.bind (scene_report en sc) (sy_parse sy)) ''success''"
      "flag (Option.bind (scene_report en sc) (sy_parse sy)) ''replay_verification''"
    using w(1) by (simp_all add: run_verified_def Let_def)
  ultimately show ?thesis using same by (simp add: flag_says same_run_copies [OF same])
qed

lemma save_udp_certified:
  assumes "save_udp_evidence sy en whole True sc = (True, sc')" and "av_smoke (sn_view sc)" "av_udp_mode (sn_view sc)"
  shows "files_saved sy en whole sc' \<and> says sy (scene_report en sc') ''success''
    \<and> says sy (scene_report en sc') ''replay_verification'' \<and> says sy (scene_status en sc') ''handshake_complete''
    \<and> session_count sc' = 1
    \<and> status_port (en_double en) whole (Option.bind (scene_status en sc') (sy_parse sy)) \<noteq> None \<and> same_run sc sc'"
proof -
  have p: "av_trace_path (sn_view sc) \<noteq> ''''" using assms(1,2) by (auto simp: save_udp_evidence_def)
  have w: "udp_verified sy en whole sc" "write_evidence sy (scene_report en sc) (scene_replay en sc)
      (udp_evidence_text sy en whole True sc) sc = (True, sc')"
    using assms(1) p by (auto simp: save_udp_evidence_def note_failure_def Let_def split: prod.splits if_splits)
  then obtain report replay where r: "scene_report en sc = Some report" "scene_replay en sc = Some replay"
    by (auto simp: udp_verified_def udp_parsed_def Let_def split: bind_splits)
  note s = write_evidence_saved [OF w(2) [unfolded r]]
  then have same: "same_run sc sc'" by simp
  then have v: "av_trace_path (sn_view sc') = av_trace_path (sn_view sc)" "av_udp_mode (sn_view sc')"
    using assms(3) by (auto simp: same_run_def)
  have "files_saved sy en whole sc'"
    using s p r v by (auto simp: files_saved_def same_run_copies [OF same] same_run_texts [OF same] Let_def)
  moreover have "flag (Option.bind (scene_report en sc) (sy_parse sy)) ''success''"
      "flag (Option.bind (scene_report en sc) (sy_parse sy)) ''replay_verification''"
      "flag (Option.bind (scene_status en sc) (sy_parse sy)) ''handshake_complete''" "session_count sc = 1"
      "status_port (en_double en) whole (Option.bind (scene_status en sc) (sy_parse sy)) \<noteq> None"
    using w(1) by (simp_all add: udp_verified_def udp_handshake_def udp_parsed_def Let_def)
  ultimately show ?thesis using same by (simp add: flag_says same_run_copies [OF same] same_run_texts [OF same])
qed

lemma save_certified:
  assumes "save_evidence sy en whole True sc = (True, sc')" "as_requested sc" "av_smoke (sn_view sc)"
    "\<not> av_exiting (sn_view sc)"
  shows "certified sy en whole sc'"
proof -
  have u: "av_udp_mode (sn_view sc') = av_udp_mode (sn_view sc)"
    using save_evidence_placid [of sc sy en whole True] assms(1) by (simp add: placid_def kept_def Let_def)
  show ?thesis
    using save_run_certified [of sy en sc sc' whole] save_udp_certified [of sy en whole sc sc'] save_evidence_shown [OF assms]
      assms(1,3) u by (cases "av_udp_mode (sn_view sc)") (simp_all add: certified_def save_evidence_def)
qed

text \<open>Asking for the exit changes nothing that the certificate is about.\<close>

lemma certified_exit:
  assumes "certified sy en whole sc"
  shows "certified sy en whole (request_exit force status (on_view (\<lambda>av. av\<lparr>av_exiting := True\<rparr>) sc))"
proof -
  let ?sc = "request_exit force status (on_view (\<lambda>av. av\<lparr>av_exiting := True\<rparr>) sc)"
  have same: "same_run sc ?sc" unfolding same_run_def request_exit_def on_view_def
    by (intro exI [of _ "av_written (sn_view sc)"] exI [of _ True] exI [of _ "bw_os (sn_world sc)"]
        exI [of _ "sn_exits sc @ [(force, status)]"]) simp
  have "shown ?sc \<longleftrightarrow> shown sc" "bw_os (sn_world ?sc) = bw_os (sn_world sc)"
    "av_trace_path (sn_view ?sc) = av_trace_path (sn_view sc)" "av_udp_mode (sn_view ?sc) = av_udp_mode (sn_view sc)"
    by (simp_all add: shown_def peers_def request_exit_def on_view_def Let_def)
  with assms show ?thesis
    unfolding certified_def files_saved_def same_run_copies [OF same] same_run_texts [OF same] by simp
qed

section \<open>Who asks for status 0\<close>

lemma zeros_placid: "placid sc sc' \<Longrightarrow> zeros sc' = zeros sc" by (simp add: zeros_def placid_def)

lemma zeros_steady: "steady sc sc' \<Longrightarrow> zeros sc' = zeros sc" by (simp add: zeros_placid steady_placid)

lemma zeros_exit [simp]: "zeros (request_exit force status sc) = (if status = 0 then zeros sc @ [(force, status)] else zeros sc)"
  by (simp add: zeros_def request_exit_def)

lemma zeros_on_view [simp]: "zeros (on_view f sc) = zeros sc" by (simp add: zeros_def on_view_def)

lemma zeros_on_os [simp]: "zeros (on_os f sc) = zeros sc" by (simp add: zeros_def on_os_def)

lemma zeros_moved [simp]: "zeros (sc\<lparr>sn_runtime := im, sn_world := w\<rparr>) = zeros sc" by (simp add: zeros_def)

lemma zeros_runtime [simp]: "zeros (sc\<lparr>sn_runtime := im\<rparr>) = zeros sc" by (simp add: zeros_def)

lemma zeros_failure [simp]: "zeros (set_failure message sc) = zeros sc" by (simp add: set_failure_def)

lemma zeros_saved [simp]: "zeros (snd (save_evidence sy en whole wanted sc)) = zeros sc"
  by (rule zeros_placid [OF save_evidence_placid])

lemma zeros_pictures [simp]: "zeros (drop_pictures sy sc) = zeros sc" by (rule zeros_steady [OF drop_pictures_steady])

lemma zeros_projection [simp]: "zeros (update_projection sc) = zeros sc"
  by (rule zeros_steady [OF update_projection_steady])

lemma zeros_capture [simp]: "zeros (request_capture sy name sc) = zeros sc"
  by (rule zeros_steady [OF request_capture_steady])

lemma zeros_stop: "stop_bridge en sc = Some sc' \<Longrightarrow> zeros sc' = zeros sc"
  by (auto simp: stop_bridge_def split: if_splits bind_splits)

text \<open>Status 0 is passed on only when it is asked for outside an incomplete automatic run.\<close>

lemma quit_zeros:
  assumes "quit sy en whole status sc = Some sc'" "status \<noteq> 0 \<or> av_smoke (sn_view sc) \<and> \<not> av_written (sn_view sc)"
  shows "zeros sc' = zeros sc"
proof -
  have v: "sn_view (on_view f x) = f (sn_view x)" for f and x :: "('a, 'b) Scene" by (simp add: on_view_def)
  show ?thesis using assms by (auto simp: quit_def Let_def v split: if_splits dest!: zeros_stop)
qed

lemma quit_fails: "quit sy en whole (Suc 0) sc = Some sc' \<Longrightarrow> zeros sc' = zeros sc"
  using quit_zeros [of sy en whole "Suc 0" sc sc'] by simp

lemma fail_zeros: "fail sy en whole reason sc = Some sc' \<Longrightarrow> zeros sc' = zeros sc"
  by (auto simp: fail_def Let_def split: if_splits dest!: quit_fails)

lemma picture_zeros: "screenshot_processed sy en whole sc = Some sc' \<Longrightarrow> zeros sc' = zeros sc"
  by (auto simp: screenshot_processed_def Let_def split: if_splits dest!: fail_zeros)

lemma publish_zeros: "publish_ready sy text path sc = (published, sc') \<Longrightarrow> zeros sc' = zeros sc"
  by (rule zeros_steady [OF publish_ready_steady])

lemma announce_zeros: "announce sy en whole sc = Some (ready, sc') \<Longrightarrow> zeros sc' = zeros sc"
  by (auto simp: announce_def Let_def split: if_splits bind_splits sum.splits prod.splits
      dest!: publish_zeros fail_zeros quit_fails)

lemma model_call_zeros: "model_call f m sc = Some (result, sc') \<Longrightarrow> zeros sc' = zeros sc"
  by (auto simp: model_call_def split: bind_splits prod.splits)

lemma open_arena_zeros: "open_arena sy en whole sc = Some sc' \<Longrightarrow> zeros sc' = zeros sc"
  by (auto simp: open_arena_def Let_def split: if_splits bind_splits prod.splits
      dest!: model_call_zeros announce_zeros fail_zeros)

lemma begin_zeros: "begin_play sy en whole sc = Some sc' \<Longrightarrow> zeros sc' = zeros sc"
proof -
  have "zeros (x\<lparr>sn_view := av, sn_world := w\<rparr>) = zeros x" for x :: "('a, 'b) Scene" and av w by (simp add: zeros_def)
  then show "begin_play sy en whole sc = Some sc' \<Longrightarrow> zeros sc' = zeros sc"
    by (auto simp: begin_play_def Let_def split: if_splits prod.splits dest!: open_arena_zeros fail_zeros)
qed

lemma end_zeros: "end_play sy en whole sc = Some sc' \<Longrightarrow> zeros sc' = zeros sc"
  by (auto simp: end_play_def Let_def split: if_splits bind_splits dest!: zeros_stop)

text \<open>A failure before the pictures are listened for makes an automatic run ask for status 1, and for nothing else.\<close>

lemma exits_stop: "stop_bridge en sc = Some sc' \<Longrightarrow> sn_exits sc' = sn_exits sc"
  by (auto simp: stop_bridge_def split: if_splits bind_splits)

lemma quit_asks:
  assumes "quit sy en whole 1 sc = Some sc'" "\<not> av_exiting (sn_view sc)"
  shows "sn_exits sc' = sn_exits sc @ [(True, 1)]"
proof -
  have v: "sn_view (on_view f x) = f (sn_view x)" "sn_exits (on_view f x) = sn_exits x"
    for f and x :: "('a, 'b) Scene" by (simp_all add: on_view_def)
  have e: "sn_exits (drop_pictures sy x) = sn_exits x" "sn_exits (snd (save_evidence sy en whole False x)) = sn_exits x"
    "sn_exits (set_failure message x) = sn_exits x" "sn_exits (request_exit force status x) = sn_exits x @ [(force, status)]"
    for x :: "('a, 'b) Scene" and message force status
    using steady_placid [OF drop_pictures_steady, of x sy] save_evidence_placid [of x sy en whole False]
    by (simp_all add: placid_def set_failure_def v request_exit_def)
  show ?thesis using assms by (auto simp: quit_def Let_def v e split: if_splits dest!: exits_stop)
qed

lemma fail_asks:
  assumes f: "fail sy en whole reason sc = Some sc'" and v: "\<not> av_written (sn_view sc)" "\<not> av_listening (sn_view sc)"
    "\<not> av_exiting (sn_view sc)"
  shows "if av_smoke (sn_view sc) then sn_exits sc' = sn_exits sc @ [(True, 1)] else sc' = set_failure reason sc"
proof -
  let ?sc = "set_failure reason sc" and ?save = "\<lambda>x. snd (save_evidence sy en whole False x)"
  have s: "sn_view ?sc = (sn_view sc)\<lparr>av_failure := reason\<rparr>" "sn_exits ?sc = sn_exits sc"
    by (simp_all add: set_failure_def on_view_def)
  have "\<not> av_exiting (sn_view (?save ?sc))" "sn_exits (?save ?sc) = sn_exits sc"
    using save_evidence_placid [of ?sc sy en whole False] v(3) s by (simp_all add: placid_def)
  with f v s quit_asks [of sy en whole "?save ?sc" sc'] show ?thesis by (auto simp: fail_def Let_def split: if_splits)
qed

section \<open>A tick\<close>

lemma present_zeros:
  assumes r: "as_requested sc" and p: "present sy en whole sc = Some sc'"
  shows "zeros sc' = zeros sc \<or> certified sy en whole sc'"
proof -
  let ?sc = "update_projection sc"
  obtain success sc1 where s: "save_evidence sy en whole True ?sc = (success, sc1)" by (metis prod.exhaust)
  have c: "placid ?sc sc1" using save_evidence_placid [of ?sc sy en whole True] s by simp
  have z: "zeros sc1 = zeros sc" using zeros_placid [OF c] by simp
  have "zeros sc' = zeros sc \<or> certified sy en whole sc'"
    if smoke: "av_smoke (sn_view ?sc)" and q: "quit sy en whole (if success then 0 else 1) sc1 = Some sc'"
  proof (cases "success \<and> \<not> av_exiting (sn_view sc1)")
    case False
    then have "zeros sc' = zeros sc1"
    proof (cases success)
      case True
      with q False show ?thesis by (simp add: quit_def)
    next
      case False
      with q show ?thesis by (simp add: quit_fails)
    qed
    with z show ?thesis by simp
  next
    case True
    have "\<not> av_exiting (sn_view ?sc)" using c True by (simp add: placid_def)
    moreover have "as_requested ?sc" by (rule placid_requested [OF steady_placid [OF update_projection_steady] r])
    ultimately have "certified sy en whole sc1" using save_certified s smoke True by metis
    moreover from this have "av_written (sn_view sc1)" by (simp add: certified_def shown_def Let_def)
    then have "sc' = request_exit False 0 (on_view (\<lambda>av. av\<lparr>av_exiting := True\<rparr>) sc1)"
      using q True by (simp add: quit_def Let_def) (simp add: on_view_def)
    ultimately show ?thesis by (simp add: certified_exit)
  qed
  with p s show ?thesis by (auto simp: present_def Let_def split: if_splits)
qed

lemma advance_run_zeros:
  assumes inv: "play_inv en w0 sc" and e: "\<not> av_exiting (sn_view sc)" and m: "av_model (sn_view sc) = Some m"
    and a: "advance_run sy en whole delta m sc = Some sc'"
  shows "zeros sc' = zeros sc \<or> certified sy en whole sc'"
proof -
  obtain r im w where t: "model_tick en (en_game_thread en) delta (av_pending_buttons (sn_view sc)) m (sn_runtime sc)
    (sn_world sc) = (r, im, w)" by (metis prod.exhaust)
  let ?sc1 = "sc\<lparr>sn_runtime := im, sn_world := w\<rparr>"
  let ?sc = "if fk_last_tick_steps (im_clock im) > 0 then on_view (\<lambda>av. av\<lparr>av_pending_buttons := 0\<rparr>) ?sc1 else ?sc1"
  have "as_requested ?sc" using invD(3) [OF inv] by (auto simp: as_requested_def on_view_def Let_def split: option.splits)
  moreover have "zeros ?sc = zeros sc" by simp
  moreover have "(if \<not> is_ok r then fail sy en whole (re_message r) ?sc else present sy en whole ?sc) = Some sc'"
    using a by (simp add: advance_run_def t Let_def)
  ultimately show ?thesis using fail_zeros present_zeros by (metis (no_types, lifting))
qed

lemma play_on_zeros:
  assumes inv: "play_inv en w0 sc" and e: "\<not> av_exiting (sn_view sc)" and s: "av_smoke (sn_view sc)"
    and p: "play_on sy en whole delta skip sc = Some sc'"
  shows "zeros sc' = zeros sc \<or> certified sy en whole sc'"
proof -
  have w: "\<not> av_written (sn_view sc)" using invD(4) [OF inv] e s by (simp add: closed_def)
  have "zeros sc' = zeros sc" if "quit sy en whole 0 sc = Some sc'" using quit_zeros [OF that] s w by simp
  moreover have "zeros (warm_up sy sc) = zeros sc" by (rule zeros_steady [OF warm_up_steady])
  ultimately show ?thesis
    using p fail_zeros [of sy en whole _ sc sc'] present_zeros [OF invD(3) [OF inv], of sy en whole sc']
      advance_run_zeros [OF inv e, of _ sy whole delta sc']
    by (auto simp: play_on_def Let_def split: if_splits option.splits dest!: quit_fails)
qed

lemma tick_zeros:
  assumes inv: "play_inv en w0 sc" and s: "av_smoke (sn_view sc)" and t: "tick sy en whole delta sc = Some sc'"
  shows "zeros sc' = zeros sc \<or> certified sy en whole sc'"
proof -
  let ?sc = "on_view (\<lambda>av. av\<lparr>av_pending_buttons := local_buttons sy sc\<rparr>) sc"
  have "steady sc ?sc" by (rule on_view_steady) simp_all
  then have i: "play_inv en w0 ?sc" using inv by (rule steady_inv)
  have sm: "av_smoke (sn_view ?sc)" using s by (simp add: on_view_def)
  obtain skip sc1 where r: "read_controls sy en whole ?sc = Some (skip, sc1)"
    and o: "(if av_exiting (sn_view sc1) then Some sc1 else play_on sy en whole delta skip sc1) = Some sc'"
    using t by (auto simp: tick_def Let_def split: bind_splits)
  have "sc1 = ?sc \<or> (\<exists>reason. fail sy en whole reason ?sc = Some sc1)"
  proof -
    have "fail sy en whole reason ?sc = Some x \<Longrightarrow> av_smoke (sn_view x)" for reason x
      using fail_inv [OF i, of sy whole reason] sm by (auto simp: kept_def Let_def)
    with r sm show ?thesis
      by (auto simp: read_controls_def Let_def split: if_splits option.splits bind_splits)
  qed
  then have "play_inv en w0 sc1 \<and> av_smoke (sn_view sc1) \<and> zeros sc1 = zeros sc"
  proof
    assume "sc1 = ?sc"
    with i sm show ?thesis by simp
  next
    assume "\<exists>reason. fail sy en whole reason ?sc = Some sc1"
    then obtain reason where f: "fail sy en whole reason ?sc = Some sc1" by blast
    with fail_inv [OF i, of sy whole reason] fail_zeros [OF f] sm show ?thesis by (auto simp: kept_def Let_def)
  qed
  with o play_on_zeros [of en w0 sc1 sy whole delta skip sc'] show ?thesis by (auto split: if_splits)
qed

section \<open>Steps of a view's life\<close>

inductive scene_step :: "('s, 'd) Scenery \<Rightarrow> ('s, 'd) Engine \<Rightarrow> ('d \<Rightarrow> bool) \<Rightarrow> Stage \<Rightarrow> ('s, 'd) Scene \<Rightarrow> Stage \<Rightarrow> ('s, 'd) Scene \<Rightarrow> bool"
  for sy en whole where
  world_moves: "scene_step sy en whole stage sc stage (on_os f sc)"
| view_begins: "begin_play sy en whole sc = Some sc' \<Longrightarrow> scene_step sy en whole Made sc Playing sc'"
| view_ticks: "tick sy en whole delta sc = Some sc' \<Longrightarrow> scene_step sy en whole Playing sc Playing sc'"
| picture_taken: "screenshot_processed sy en whole sc = Some sc' \<Longrightarrow> scene_step sy en whole Playing sc Playing sc'"
| view_ends: "end_play sy en whole sc = Some sc' \<Longrightarrow> scene_step sy en whole Playing sc Ended sc'"

text \<open>These are the steps that \<open>scene_reach\<close> is made of.\<close>

lemma scene_reach_step:
  "\<lbrakk>scene_step sy en whole stage sc stage' sc'; scene_reach sy en whole w0 stage sc\<rbrakk> \<Longrightarrow> scene_reach sy en whole w0 stage' sc'"
  by (cases rule: scene_step.cases) (auto intro: scene_reach.intros)

lemma scene_step_zeros:
  assumes "allocates en" "finite_world w0" "scene_reach sy en whole w0 stage sc"
    and t: "scene_step sy en whole stage sc stage' sc'" and s: "av_smoke (sn_view sc) \<or> stage = Made"
  shows "zeros sc' = zeros sc \<or> certified sy en whole sc'"
  using t
proof cases
  case (view_ticks delta)
  with scene_reach_inv [OF assms(3,1,2)] s show ?thesis by (intro tick_zeros) simp_all
qed (simp_all add: begin_zeros picture_zeros end_zeros)

end
