(* ===== verification/SceneLife.thy ===== *)
theory SceneLife
  imports SceneEvidence
begin

text \<open>The properties of the demo's view: its exit status, and that every command line it accepts starts a run.\<close>

section \<open>A sample\<close>

text \<open>A small engine around the view: the options without a value that are given, and whether there is anything to draw.\<close>

definition sample_scenery :: "string list \<Rightarrow> bool \<Rightarrow> ('s, unit) Scenery" where
  "sample_scenery params drawn =
     \<lparr>sy_value = (\<lambda>_. None), sy_param = (\<lambda>p. p \<in> set params), sy_contains = (\<lambda>_. False), sy_saved_dir = ''saved'',
      sy_combine = (\<lambda>p q. p @ ''/'' @ q), sy_get_path = (\<lambda>p. p), sy_full_path = (\<lambda>p. p),
      sy_make_directory = (\<lambda>_ w. (True, w)), sy_save_text = (\<lambda>_ _ w. (True, w)), sy_save_bytes = (\<lambda>_ _ w. (True, w)),
      sy_move = (\<lambda>_ _ w. (True, w)), sy_delete = (\<lambda>_ w. w), sy_file_size = (\<lambda>_ _. 1), sy_parse = (\<lambda>_. None),
      sy_pid = 1, sy_visuals = (\<lambda>_. drawn), sy_bridge = True, sy_controller = (\<lambda>_. False),
      sy_key_down = (\<lambda>_ _. False), sy_key_pressed = (\<lambda>_ _. False), sy_compiling = (\<lambda>_. False),
      sy_presentation_ready = (\<lambda>_. True), sy_request_screenshot = (\<lambda>_ w. w), sy_reset_screenshots = (\<lambda>w. w)\<rparr>"

lemma sample_parts:
  "sy_visuals (sample_scenery params drawn) os = drawn" "sy_bridge (sample_scenery params drawn)"
  by (simp_all add: sample_scenery_def)

lemma sample_unsigned: "read_unsigned (sample_scenery params drawn) key v = Inr v"
  by (simp add: read_unsigned_def sample_scenery_def)

lemma sample_steps:
  fixes params drawn
  defines "sy \<equiv> sample_scenery params drawn :: ('s, unit) Scenery"
  shows "av_ready_path av = '''' \<Longrightarrow> read_ready_path sy av = (None, av)"
    "\<not> av_udp_mode av \<Longrightarrow> read_mode sy av = (None, av\<lparr>av_requested := default_settings (command_mode sy av)\<rparr>)"
    "read_seed sy av = (None, av)" "read_transport_seed sy av = (None, av)"
    "\<not> av_udp_mode av \<Longrightarrow> read_udp_options sy av = (None, av)"
    "read_exit_interval sy av = (None, av\<lparr>av_exit_after_seconds := 0\<rparr>)"
  by (simp_all add: sy_def read_ready_path_def read_mode_def read_seed_def read_transport_seed_def sample_unsigned
      read_udp_options_def read_exit_interval_def Let_def) (simp_all add: sample_scenery_def)

lemma sample_frames:
  fixes params drawn
  defines "sy \<equiv> sample_scenery params drawn :: ('s, unit) Scenery"
  assumes m: "av_requested av = default_settings m" "m = EM_AutoDemo \<or> m = EM_Interactive" "\<not> av_udp_mode av"
    "av_smoke av \<Longrightarrow> command_mode sy av = EM_AutoDemo"
  shows "read_frames sy av = (None, av)"
proof -
  let ?s = "default_settings m"
  have d: "fs_frame_count ?s = (if m = EM_AutoDemo then 240 else 36000)" "fs_network_preset ?s = 1"
    using m(2) by (auto simp: default_settings_def initial_settings_def Let_def)
  define frames preset where "frames = (ucast (fs_frame_count ?s) :: u64)" and "preset = (ucast (fs_network_preset ?s) :: u64)"
  have v: "frames = 240 \<or> frames = 36000" "preset = 1" unfolding frames_def preset_def d by auto
  have r: "\<not> (frames = 0 \<or> frames > (if av_udp_mode av then 240 else 36000) \<or> preset > 2)"
    using v m(3) by (elim disjE) simp_all
  have t: "\<not> (av_smoke av \<and> \<not> av_udp_smoke av \<and> (command_mode sy av \<noteq> EM_AutoDemo \<or> preset \<noteq> 1))"
    using m(4) v(2) by blast
  have "ucast frames = fs_frame_count ?s" "ucast preset = fs_network_preset ?s"
    unfolding frames_def preset_def d by simp_all
  then have "?s\<lparr>fs_frame_count := ucast frames, fs_network_preset := ucast preset\<rparr> = ?s" by simp
  moreover have "av\<lparr>av_requested := ?s\<rparr> = av" unfolding m(1) [symmetric] by simp
  ultimately show ?thesis
    unfolding read_frames_def sy_def sample_unsigned sum.case m(1) frames_def [symmetric] preset_def [symmetric]
      if_not_P [OF r] if_not_P [OF t [unfolded sy_def]] by simp
qed

lemma sample_settings_read:
  assumes "set params \<subseteq> {''RollbackLabSmoke'', ''RollbackLabAuto''}"
  shows "\<exists>av. read_settings (sample_scenery params drawn) (new_view db) os = (True, av, os)
    \<and> av_requested_git_sha av = '''' \<and> \<not> av_udp_mode av \<and> (av_smoke av \<longleftrightarrow> ''RollbackLabSmoke'' \<in> set params)
    \<and> (av_smoke av \<longrightarrow> av_trace_path av \<noteq> '''') \<and> \<not> av_start_captured av \<and> rest av = rest (new_view db)"
proof -
  let ?sy = "sample_scenery params drawn :: ('a, unit) Scenery"
  have p: "''RollbackLabUdpSmoke'' \<notin> set params" "''RollbackLabDesync'' \<notin> set params" using assms by auto
  have q: "sy_param ?sy = (\<lambda>p. p \<in> set params)" "sy_value ?sy = (\<lambda>_. None)" "sy_contains ?sy = (\<lambda>_. False)"
    "sy_make_directory ?sy = (\<lambda>_ w. (True, w))" "sy_full_path ?sy = (\<lambda>p. p)"
    "sy_combine ?sy = (\<lambda>p q. p @ ''/'' @ q)"
    by (simp_all add: sample_scenery_def)
  obtain av1 where 1: "read_modes ?sy (new_view db) = (None, av1)" by (simp add: read_modes_def Let_def)
  have v1: "av_smoke av1 \<longleftrightarrow> ''RollbackLabSmoke'' \<in> set params" "\<not> av_udp_mode av1" "\<not> av_udp_smoke av1"
    "av_ready_path av1 = ''''" "av_requested_git_sha av1 = ''''" "\<not> av_start_captured av1"
    "av_smoke av1 \<longrightarrow> av_trace_path av1 \<noteq> ''''" "rest av1 = rest (new_view db)"
    using 1 p by (auto simp: read_modes_def q Let_def new_view_def value_or_def udp_peer_text_def rest_def)
  define m where "m = command_mode ?sy av1"
  have m: "m = EM_AutoDemo \<or> m = EM_Interactive" "av_smoke av1 \<Longrightarrow> m = EM_AutoDemo"
    using v1(2) p by (simp_all add: m_def command_mode_def q)
  define av2 where "av2 = av1\<lparr>av_requested := default_settings m\<rparr>"
  have "command_mode ?sy av2 = m" by (simp add: m_def av2_def command_mode_def)
  then have f: "read_frames ?sy av2 = (None, av2)"
    using m v1(2) by (intro sample_frames [where m = m]) (simp_all add: av2_def)
  let ?av = "av2\<lparr>av_exit_after_seconds := 0\<rparr>"
  have v2: "\<not> av_udp_mode av2" using v1(2) by (simp add: av2_def)
  have steps: "read_ready_path ?sy av1 = (None, av1)" "read_mode ?sy av1 = (None, av2)" "read_seed ?sy av2 = (None, av2)"
    "read_transport_seed ?sy av2 = (None, av2)" "read_udp_options ?sy av2 = (None, av2)"
    "read_exit_interval ?sy av2 = (None, ?av)"
    using v1(2,4) v2 by (simp_all add: sample_steps m_def av2_def)
  have "read_options ?sy (new_view db) = (None, ?av)"
    by (simp add: read_options_def and_then_def unless_def 1 v1(2) v2 f steps)
  then have "\<exists>av. read_settings ?sy (new_view db) os = (True, av, os) \<and> (\<exists>d. av = ?av\<lparr>av_capture_directory := d\<rparr>)"
    by (auto simp: read_settings_def q Let_def intro: exI [of _ "av_capture_directory ?av"])
  then show ?thesis using v1 by (auto simp: av2_def rest_def)
qed

section \<open>The exit status\<close>

text \<open>
  C17. The exit status of an automatic run can be trusted: whatever happens to the view, in any order of ticks, keys,
  pictures and end, each of these steps asks for no exit with status 0, unless it leaves the run \<open>certified\<close>: the last things
  it did to the file system are successful writes of the report, of the replay and of evidence that names a success;
  the report says \<open>success\<close> and \<open>replay_verification\<close>; the pictures were taken, and both peers
  have confirmed the requested frames with one hash after a rollback, or, for a UDP peer, it has finished its requested
  frames after a handshake, in one session on a port in range and without a desync. The first step, which reads from the
  command line whether the run is automatic, asks for no status 0 either way.
\<close>

theorem exit_status_trusted:
  assumes "allocates en" and "finite_world w0" and "scene_reach sy en whole w0 stage sc"
    and "scene_step sy en whole stage sc stage' sc'" and "av_smoke (sn_view sc) \<or> stage = Made"
  shows "zeros sc' = zeros sc \<or> stage = Playing \<and> certified sy en whole sc'"
proof (cases "stage = Playing")
  case True
  with scene_step_zeros [OF assms] show ?thesis by simp
next
  case False
  with assms(4) show ?thesis by (cases rule: scene_step.cases) (simp_all add: begin_zeros)
qed

text \<open>An automatic run without the arena's content leaves evidence and asks for status 1.\<close>

lemma sample_gives_up:
  "\<exists>sc0 sc. scene_reach (sample_scenery [''RollbackLabSmoke''] False) (sample_engine host) whole (idle_world os) Made sc0
    \<and> begin_play (sample_scenery [''RollbackLabSmoke''] False) (sample_engine host) whole sc0 = Some sc \<and> zeros sc0 = []
    \<and> av_smoke (sn_view sc) \<and> av_written (sn_view sc) \<and> \<not> shown sc \<and> sn_exits sc = [(True, 1)] \<and> av_exiting (sn_view sc)"
proof -
  let ?sy = "sample_scenery [''RollbackLabSmoke''] False :: ('a, unit) Scenery" and ?en = "sample_engine host"
  define sc0 :: "('a, unit) Scene" where
    "sc0 = \<lparr>sn_view = new_view (en_double ?en), sn_runtime = new_runtime ?en, sn_world = idle_world os, sn_exits = []\<rparr>"
  have r0: "scene_reach ?sy ?en whole (idle_world os) Made sc0" unfolding sc0_def by (rule scene_reach.made)
  have unit: "on_view (\<lambda>av. av\<lparr>av_started_at := t\<rparr>) sc0 = sc0" for t :: unit
    by (simp add: sc0_def on_view_def new_view_def)
  obtain av where a: "read_settings ?sy (sn_view sc0) os = (True, av, os)" "av_smoke av" "\<not> av_udp_mode av"
      "av_trace_path av \<noteq> ''''" "\<not> av_start_captured av" "rest av = rest (new_view (en_double ?en))"
    using sample_settings_read [of "[''RollbackLabSmoke'']" False "en_double ?en" os] by (auto simp: sc0_def)
  have v: "\<not> av_written av" "\<not> av_exiting av" "av_model av = None" "\<not> av_bridge av"
    using a(6) by (simp_all add: rest_def new_view_def)
  let ?sc1 = "sc0\<lparr>sn_view := av\<rparr>"
  let ?reason = "''Arena content missing. Run GenerateUnrealContent before launch/cook.''"
  have w0: "sc0\<lparr>sn_view := av, sn_world := (sn_world sc0)\<lparr>bw_os := os\<rparr>\<rparr> = ?sc1" "bw_os (sn_world sc0) = os"
    by (simp_all add: sc0_def idle_world_def)
  have b: "begin_play ?sy ?en whole sc0 = fail ?sy ?en whole ?reason ?sc1"
    unfolding begin_play_def Let_def unit w0(2) a(1) prod.case w0(1) sample_parts by simp
  define sc2 where "sc2 = snd (save_evidence ?sy ?en whole False (set_failure ?reason ?sc1))"
  have c: "placid ?sc1 sc2"
    unfolding sc2_def by (rule placid_trans [OF steady_placid [OF set_failure_steady] save_evidence_placid])
  obtain good where s: "save_run_evidence ?sy ?en False (set_failure ?reason ?sc1) = (good, sc2)"
    using a(3) by (cases "save_run_evidence ?sy ?en False (set_failure ?reason ?sc1)")
      (simp add: sc2_def save_evidence_def set_failure_def on_view_def)
  then have w: "av_written (sn_view sc2)"
    using a(4)
    by (auto simp: save_run_evidence_def set_failure_def on_view_def Let_def dest!: write_evidence_placid
        split: prod.splits)
  have f: "fail ?sy ?en whole ?reason ?sc1 = quit ?sy ?en whole 1 sc2"
    using a(2,3) v(1) unfolding fail_def Let_def sc2_def by (simp add: set_failure_def on_view_def)
  have v2: "\<not> av_exiting (sn_view sc2)" "\<not> av_bridge (sn_view sc2)" "av_smoke (sn_view sc2)" "sn_exits sc2 = []"
    "\<not> av_udp_mode (sn_view sc2)"
    using c a(2,3) v by (simp_all add: placid_def kept_def sc0_def Let_def)
  let ?sc3 = "drop_pictures ?sy (on_view (\<lambda>av. av\<lparr>av_exiting := True\<rparr>) sc2)"
  have d: "placid (on_view (\<lambda>av. av\<lparr>av_exiting := True\<rparr>) sc2) ?sc3" by (rule steady_placid [OF drop_pictures_steady])
  then have v3: "av_exiting (sn_view ?sc3)" "\<not> av_bridge (sn_view ?sc3)" "av_smoke (sn_view ?sc3)" "av_written (sn_view ?sc3)" "sn_exits ?sc3 = []"
    "\<not> av_udp_mode (sn_view ?sc3)" "peers ?sc3 = peers sc2"
    using v2 w by (simp_all add: placid_def kept_def on_view_def peers_def Let_def)
  have "quit ?sy ?en whole 1 sc2 = Some (request_exit True 1 ?sc3)"
    using v2 w v3(2) by (simp add: quit_def stop_bridge_def Let_def) (simp add: on_view_def)
  with b f have "begin_play ?sy ?en whole sc0 = Some (request_exit True 1 ?sc3)" by simp
  moreover have "zeros sc0 = []" by (simp add: zeros_def sc0_def)
  moreover have "peers sc2 = peers sc0" using c by (simp add: placid_def kept_def peers_def Let_def)
  then have "\<not> run_shown s (peers (request_exit True 1 ?sc3))" for s
    using v3(7) by (simp add: request_exit_def peers_def sc0_def new_runtime_def empty_view_def run_shown_def
        zero_metrics_def Let_def)
  then have "\<not> shown (request_exit True 1 ?sc3)" using v3(6) by (simp add: shown_def request_exit_def Let_def)
  ultimately show ?thesis using r0
    by (intro exI [of _ sc0] exI [of _ "request_exit True 1 ?sc3"]) (simp add: v3, simp add: v3 request_exit_def)
qed

text \<open>The steps of that run: its beginning, which gives it up, and a tick that comes after all.\<close>

theorem exit_status_trusted_witness:
  "\<exists>sc0 sc sc'. begin_play (sample_scenery [''RollbackLabSmoke''] False) (sample_engine memory_host) (\<lambda>_. True) sc0 = Some sc
    \<and> tick (sample_scenery [''RollbackLabSmoke''] False) (sample_engine memory_host) (\<lambda>_. True) () sc = Some sc'
    \<and> av_smoke (sn_view sc) \<and> av_written (sn_view sc) \<and> sn_exits sc = [(True, 1)] \<and> zeros sc' = []"
proof -
  let ?sy = "sample_scenery [''RollbackLabSmoke''] False :: (Memory, unit) Scenery" and ?en = "sample_engine memory_host"
  obtain sc0 sc where s: "scene_reach ?sy ?en (\<lambda>_. True) (idle_world empty_memory) Made sc0"
      "begin_play ?sy ?en (\<lambda>_. True) sc0 = Some sc" "zeros sc0 = []" "av_smoke (sn_view sc)" "av_written (sn_view sc)"
      "sn_exits sc = [(True, 1)]" "\<not> shown sc" "av_exiting (sn_view sc)"
    using sample_gives_up [of memory_host "\<lambda>_. True" empty_memory] by blast
  have "zeros sc = []"
    using exit_status_trusted [OF sample_engine_ok s(1) scene_step.view_begins [OF s(2)]] s(3) by simp
  moreover let ?sc = "on_view (\<lambda>av. av\<lparr>av_pending_buttons := 0\<rparr>) sc"
  have t: "tick ?sy ?en (\<lambda>_. True) () sc = Some ?sc"
    using s(8) by (simp add: tick_def local_buttons_def read_controls_def sample_scenery_def on_view_def Let_def)
  moreover have "\<not> certified ?sy ?en (\<lambda>_. True) ?sc"
  proof -
    have "shown ?sc = shown sc" by (simp add: shown_def peers_def on_view_def Let_def)
    with s(7) show ?thesis by (simp add: certified_def)
  qed
  ultimately have "zeros ?sc = []"
    using exit_status_trusted [OF sample_engine_ok scene_reach.begun [OF s(1,2)] scene_step.view_ticks [OF t]] s(4) by simp
  with s t show ?thesis by blast
qed

section \<open>A start that succeeds\<close>

text \<open>
  C18. Every command line that the view accepts starts a run of what it asked for, or is refused for the one thing that only
  the loaded library can tell: when \<open>ReadSettings\<close> succeeds, the content and the bridge
  are there and the loader trusts the library, a view outside the UDP mode begins with a model of exactly the requested
  settings and a running runtime whose two peers show the initial world, without a failure and without asking for
  an exit, if the command line names no source or the library's own (\<open>-RollbackLabGitSha\<close>, compared without case). If it
  names another source, the view never comes to listen for pictures: an automatic run asks for status 1,
  any other shows the reason. In the UDP mode the options that the command line led to pass the library's own check of them.
\<close>

theorem accepted_command_line_starts:
  assumes "allocates en" and "finite_world w0" and "scene_reach sy en whole w0 Made sc"
    and "read_settings sy ((sn_view sc)\<lparr>av_started_at := en_seconds en (bw_os (sn_world sc))\<rparr>) (bw_os (sn_world sc))
      = (True, av, os)"
    and "sy_visuals sy os" and "sy_bridge sy" and "trusted_library en (make_options (av_requested av))"
  shows "if av_udp_mode av then validate_udp_config (Some (fo_udp (make_options (av_requested av)))) = RL_OK
    else \<exists>sc'. begin_play sy en whole sc = Some sc' \<and>
     (if av_requested_git_sha av = '''' \<or> same_text (av_requested_git_sha av) (take 40 (bi_git_sha (en_build en)))
      then \<exists>m. av_model (sn_view sc') = Some m \<and> fm_has_settings m
        \<and> fm_settings m = av_requested av \<and> begun (make_options (av_requested av)) (sn_runtime sc')
        \<and> av_listening (sn_view sc') \<and> av_failure (sn_view sc') = av_failure av \<and> sn_exits sc' = []
      else \<not> av_listening (sn_view sc') \<and> (if av_smoke av then sn_exits sc' = [(True, 1)]
        else av_failure (sn_view sc') = ''Requested source SHA differs from loaded SDK.'' \<and> sn_exits sc' = []))"
proof (cases "av_udp_mode av")
  case True
  with accepted_udp [of "av_requested av"] read_settings_accepted [OF assms(4)] show ?thesis by simp
next
  case False
  note accepted = read_settings_accepted [OF assms(4)]
  have fresh: "fresh_scene en w0 sc" using scene_reach_inv [OF assms(3,1,2)] by simp
  let ?w = "(sn_world sc)\<lparr>bw_os := os\<rparr>"
  have inv: "bridge_inv en w0 (sn_runtime sc) ?w" "sn_exits sc = []"
    using fresh by (auto simp: fresh_scene_def bridge_inv_def unchanged_def)
  have quiet: "\<not> av_written av" "\<not> av_exiting av" "\<not> av_listening av"
    using fresh read_settings_rest [OF assms(4)] by (simp_all add: fresh_scene_def rest_def)
  have "fs_mode (av_requested av) \<noteq> EM_UdpPeer" using accepted(2) False by simp
  from start_succeeds [OF inv(1) assms(1,2) accepted_startable [OF accepted(1) this] assms(7)] obtain im w where
    st: "start en (en_game_thread en) (make_options (av_requested av)) (sn_runtime sc) ?w = Some (result_ok, im, w)"
      "begun (make_options (av_requested av)) im" "vi_source_git_sha (im_version im) = take 40 (bi_git_sha (en_build en))"
    by blast
  define m where "m = new_model\<lparr>fm_settings := av_requested av, fm_options := make_options (av_requested av), fm_has_settings := True\<rparr>"
  let ?sc1 = "\<lparr>sn_view = av\<lparr>av_bridge := True, av_model := Some new_model\<rparr>, sn_runtime = sn_runtime sc, sn_world = ?w,
    sn_exits = []\<rparr>"
  let ?sc2 = "\<lparr>sn_view = av\<lparr>av_bridge := True, av_model := Some m\<rparr>, sn_runtime = im, sn_world = w, sn_exits = []\<rparr>"
  have ok: "is_ok result_ok" by (simp add: is_ok_def result_ok_def)
  have call: "model_call (model_start en (en_game_thread en) (av_requested av)) new_model ?sc1 = Some (result_ok, ?sc2)"
    using accepted(1) ok by (simp add: model_call_def model_start_def st(1) on_view_def m_def Let_def)
  have begins: "begin_play sy en whole sc = open_arena sy en whole ?sc1"
    using assms(4-6) inv(2) by (cases sc) (simp add: begin_play_def on_view_def)
  show ?thesis
  proof (cases "av_requested_git_sha av = '''' \<or> same_text (av_requested_git_sha av) (take 40 (bi_git_sha (en_build en)))")
    case True
    then have "begin_play sy en whole sc = Some (update_projection (on_view (\<lambda>av. av\<lparr>av_listening := True\<rparr>) ?sc2))"
      using ok False call st(3) by (auto simp: begins open_arena_def announce_def Let_def)
    then show ?thesis
      using False True st(2) by (simp add: update_projection_def on_view_def has_model_def m_def Let_def)
  next
    case other: False
    then have b: "begin_play sy en whole sc = fail sy en whole ''Requested source SHA differs from loaded SDK.'' ?sc2"
      using ok call st(3) by (simp add: begins open_arena_def Let_def)
    have "bridge_inv en w0 im w"
      using model_start_inv [OF inv(1) assms(1,2), of "en_game_thread en" "av_requested av" new_model] accepted(1) st(1)
      by (auto simp: model_start_def Let_def)
    then have "play_inv en w0 ?sc2"
      using quiet by (simp add: play_inv_def holds_bridge_def honest_exits_def as_requested_def closed_def m_def Let_def)
    from fail_inv [OF this, of sy whole] obtain sc' where
      f: "fail sy en whole ''Requested source SHA differs from loaded SDK.'' ?sc2 = Some sc'" "kept ?sc2 sc'" by blast
    have sc': "begin_play sy en whole sc = Some sc'" by (simp only: b f(1))
    have "if av_smoke av then sn_exits sc' = [(True, 1)]
      else sc' = set_failure ''Requested source SHA differs from loaded SDK.'' ?sc2"
      using fail_asks [OF f(1)] quiet by simp
    moreover have "\<not> av_listening (sn_view sc')" using f(2) quiet by (simp add: kept_def Let_def)
    ultimately show ?thesis using False other sc' by (simp add: set_failure_def on_view_def split: if_splits)
  qed
qed

theorem accepted_command_line_starts_witness:
  "\<exists>sc. scene_reach (sample_scenery [] True) (sample_engine memory_host) (\<lambda>_. True) (idle_world empty_memory) Playing sc
    \<and> running (sn_runtime sc) \<and> sn_exits sc = []"
proof -
  let ?sy = "sample_scenery [] True :: (Memory, unit) Scenery" and ?en = "sample_engine memory_host"
  let ?sc = "\<lparr>sn_view = new_view (en_double ?en), sn_runtime = new_runtime ?en, sn_world = idle_world empty_memory, sn_exits = []\<rparr>"
  have r: "scene_reach ?sy ?en (\<lambda>_. True) (idle_world empty_memory) Made ?sc" by (rule scene_reach.made)
  obtain av where a: "read_settings ?sy (new_view (en_double ?en)) empty_memory = (True, av, empty_memory)"
      "av_requested_git_sha av = ''''" "\<not> av_udp_mode av"
    using sample_settings_read [of "[]" True "en_double ?en" empty_memory] by auto
  have o: "fo_sdk_root_override (make_options (av_requested av)) = []"
    "fo_expected_source_git_sha (make_options (av_requested av)) = []"
    by (simp_all add: make_options_def default_start_options_def Let_def)
  have "read_settings ?sy ((sn_view ?sc)\<lparr>av_started_at := en_seconds ?en (bw_os (sn_world ?sc))\<rparr>) (bw_os (sn_world ?sc))
      = (True, av, empty_memory)"
    using a(1) by (simp add: idle_world_def new_view_def)
  from accepted_command_line_starts [OF sample_engine_ok r this sample_parts(1) [THEN iffD2, OF TrueI] sample_parts(2)
      sample_trusted [OF o]] a(2,3)
  obtain sc' where "begin_play ?sy ?en (\<lambda>_. True) ?sc = Some sc'" "begun (make_options (av_requested av)) (sn_runtime sc')"
    "sn_exits sc' = []" by auto
  with scene_reach.begun [OF r] show ?thesis by (auto simp: begun_def)
qed

end
