(* ===== verification/Spec2Isabelle.thy ===== *)
theory Spec2Isabelle
  imports UdpGame ApiCalls PropertySweep CommandProof WindowsProcess BridgeTrust SceneLife
begin

text \<open>
  A verification development for rollback-lab, a deterministic rollback netcode library in C++.

  \<^bold>\<open>The program.\<close> Two players run the same fixed-point game (\<open>src/simulation\<close>). Each keeps a rollback session
  (\<open>src/netcode\<close>): it predicts the other player's input, and when the real input arrives late and differs it goes back
  to the stored world and simulates again. Inputs and confirmed hashes travel in checksummed packets (\<open>src/protocol\<close>),
  either through a simulated network inside one process (\<open>src/transport/seeded_transport.cpp\<close> and the runner
  \<open>src/report/scenario_runner.cpp\<close>) or through UDP sockets and a relay process (\<open>src/udp\<close>). A finished run leaves
  a replay file (\<open>src/replay\<close>), a report and a trace (\<open>src/report\<close>). The C interface (\<open>src/c_api\<close>) and the command
  line (\<open>src/cli\<close>) are the ways in.

  \<^bold>\<open>Theories and sources.\<close>
  \<^item> \<open>Prelude\<close>, \<open>Core\<close>: errors as the sum \<open>Error + 'a\<close>, frame numbers that wrap, checked arithmetic, FNV-1a, PCG32.
  \<^item> \<open>Simulation\<close>: \<open>simulate_frame\<close>, the canonical bytes and the invariant \<open>world_inv\<close>.
  \<^item> \<open>FrameRing\<close>, \<open>Session\<close>, \<open>Rollback\<close>: the ring as an interface (locale) with its interpretation, every operation of
    \<open>RollbackSession\<close>, and the refinement of a session to a lockstep simulation of the real inputs.
  \<^item> \<open>Bytes\<close>, \<open>Crc32\<close>, \<open>Protocol\<close>, \<open>SequenceWindow\<close>: byte streams, the checksum as a linear code, the packet codec
    and the duplicate filter.
  \<^item> \<open>Transport\<close>: the simulated network with its metrics.
  \<^item> \<open>Replay\<close>, \<open>Report\<close>, \<open>Json\<close>: replay files, trace and desync tracker, the JSON writers and the identity digest.
  \<^item> \<open>Scenario\<close>, \<open>Convergence\<close>, \<open>LiveRun\<close>, \<open>LiveTrace\<close>: the two-peer runner; its invariant in the style of inductive
    protocol proofs (everything in flight is honest); the outcomes of a run; invariants of the trace.
  \<^item> \<open>UdpSocket\<close>, \<open>Relay\<close>, \<open>Peer\<close>, \<open>Handshake\<close>, \<open>PeerMachine\<close>, \<open>UdpRun\<close>, \<open>UdpLive\<close>, \<open>LosslessHost\<close>, \<open>UdpGame\<close>: sockets over the
    parameter \<open>Host\<close>, the relay, the peer driver with its phases, safety of a game on any network, and its termination
    on one that loses nothing and delivers at once, when peers and relay take turns. \<open>MemoryHost\<close> is a network of queues in memory: the
    termination is proved on it (\<open>UdpLive\<close>) and carried over to every host that keeps such queues by a simulation
    (\<open>LosslessHost\<close>); it is also the instance in the witnesses. A network that delays its datagrams is covered by the safety
    theorems only.
  \<^item> \<open>CApi\<close>, \<open>CApiProof\<close>, \<open>ApiCalls\<close>: every exported function over stores of handles, the ownership and borrowing
    invariant over all sequences of calls, and the exact status and effect of four calls on a session: \<open>advance\<close>,
    \<open>ingest_remote\<close>, \<open>flush_corrections\<close> and \<open>hash_at\<close>.
  \<^item> \<open>PropertySweep\<close>: the sweep over generated configurations and the accounting of its counters.
  \<^item> \<open>Files\<close>, \<open>Process\<close>, \<open>WindowsProcess\<close>, \<open>UdpDemo\<close>, \<open>Viewer\<close>, \<open>CommandLine\<close>, \<open>CommandProof\<close>: files and child processes as
    parameters, the supervisor of the UDP demo, the trace page, every command, and how the commands compose.
  \<^item> \<open>BridgeSdk\<close>, \<open>BridgeRuntime\<close>, \<open>Arena\<close>, \<open>BridgeProof\<close>, \<open>BridgeStart\<close>, \<open>BridgeTrust\<close>: the Unreal Engine bridge
    (\<open>examples/ue5\<close>): the loader that trusts only pinned digests, the runtime that owns library, sessions and driver, the
    demo's settings; a runtime gives back exactly what it took, accepted settings start, and a loaded library is trusted.
  \<^item> \<open>SceneSettings\<close>, \<open>SceneStart\<close>, \<open>Scene\<close>, \<open>ScenePlay\<close>, \<open>SceneProof\<close>, \<open>SceneEvidence\<close>, \<open>SceneLife\<close>: the demo's view: its command
    line, its evidence, what it does from begin to end. No check of the bridge fails in its life, an accepted command line
    starts a run unless it asks for another source than the library's, and an automatic run asks for status 0 only in a step that ends with its
    evidence saved and a run that has shown what it should (\<open>certified\<close>).

  \<^bold>\<open>Modelling.\<close> A struct is a record and an enumeration a datatype; integers keep their width as words; a function that
  fails returns \<open>Inl\<close> the error the code builds, with its code, detail, offset and context; an object's methods return the
  object changed. Loops over containers are structural recursion. The loops without a bound
  (\<open>peer_loop\<close>, \<open>relay_loop\<close>, \<open>wait_loop\<close>, \<open>supervise_loop\<close>, the rejection loop of the generator) are
  \<open>partial_function (option)\<close>, where \<open>None\<close> means that the function never returns; \<open>run_peer\<close> is proved to return.
  The fuel of \<open>run_steps\<close> is the loop bound of the code, and it is proved never to run out.

  \<^bold>\<open>Parameters.\<close> \<open>Host\<close> (sockets, clock, output files), \<open>Files\<close> (input files, directories, the console), \<open>Processes\<close>
  (POSIX processes) and \<open>Windows\<close> are records of the calls the code makes over an arbitrary outside world. \<open>BuildInfo\<close> holds the names the
  preprocessor supplies, \<open>Loader\<close> and \<open>Engine\<close> what the bridge uses of the engine, of Windows and of \<open>double\<close>, \<open>Scenery\<close> what the demo's view uses of it (command line, paths,
  files, keys, pictures, the JSON parser), \<open>ViewerPage\<close> the two HTML literals, and the flag of \<open>draw_u64\<close> the evaluation order
  that C++ leaves open in \<open>property_sweep.cpp\<close>. What a theorem assumes of a parameter is a named definition
  (\<open>keeps_files\<close>, \<open>datagram_host\<close>, \<open>queues\<close>, \<open>steady_clock\<close>, \<open>allocates\<close>, \<open>trusted_library\<close>), and its witness gives a concrete instance.

  \<^bold>\<open>Not modelled.\<close> The Windows build of the sockets; exceptions of the standard library (no memory left)
  and the boundary that turns them into a status; the script inside the viewer's page, which a browser runs; of the
  Unreal Engine example what only draws (meshes, materials, positions, the HUD) and the content tools, which are engine classes;
  the test programs.
\<close>

end
